(* ===== verification/Prelude.thy ===== *)
theory Prelude
  imports Main "HOL-Library.AList" "HOL-Library.Multiset"
begin

text \<open>
  What the components share: the hash containers of Rust's standard library, the
  fixed-width arithmetic the sources use, bounded histories, and the notion of a guarded
  state machine with its runs.

  A \<open>HashMap\<close> is an association list with distinct keys (\<open>hm_wf\<close>) and a \<open>HashSet\<close> a
  list without repetitions. Their iteration order is not specified by Rust, so every
  operation that iterates takes a \<open>hash_order\<close>, an arbitrary permutation of the entries:
  no theorem can depend on the order in which the model happens to store them.
\<close>

named_theorems hmap_simps \<open>what the hash-map operations do to lookups\<close>
named_theorems hmap_wf \<open>the hash-map operations keep the keys distinct\<close>

subsection \<open>Identifiers, time and results\<close>

type_synonym time = int

type_synonym ('e, 'a) result = "'e + 'a"

definition is_ok :: "('e, 'a) result \<Rightarrow> bool" where
  "is_ok r = (case r of Inl _ \<Rightarrow> False | Inr _ \<Rightarrow> True)"

lemma is_ok_simps [simp]: "is_ok (Inl e) = False" "is_ok (Inr a) = True"
  by (simp_all add: is_ok_def)

lemma is_ok_conv: "is_ok r \<longleftrightarrow> (\<exists>a. r = Inr a)"
  by (cases r) auto

subsection \<open>Iteration order of hash containers\<close>

typedef 'a hash_order = "{f :: 'a list \<Rightarrow> 'a list. \<forall>xs. mset (f xs) = mset xs}"
  morphisms iterate Hash_Order
  by (rule exI [of _ "\<lambda>xs. xs"]) simp

setup_lifting type_definition_hash_order

lift_definition stored_order :: "'a hash_order" is "\<lambda>xs. xs"
  by simp

lift_definition reversed_order :: "'a hash_order" is rev
  by simp

lemma iterate_stored_order [simp]: "iterate stored_order xs = xs"
  by (simp add: stored_order.rep_eq)

lemma iterate_reversed_order [simp]: "iterate reversed_order xs = rev xs"
  by (simp add: reversed_order.rep_eq)

lemma mset_iterate [simp]: "mset (iterate h xs) = mset xs"
  using iterate [of h] by simp

lemma set_iterate [simp]: "set (iterate h xs) = set xs"
  by (metis mset_iterate set_mset_mset)

lemma length_iterate [simp]: "length (iterate h xs) = length xs"
  by (metis mset_iterate size_mset)

lemma distinct_iterate [simp]: "distinct (iterate h xs) = distinct xs"
  by (metis mset_eq_imp_distinct_iff mset_iterate)

lemma iterate_Nil [simp]: "iterate h [] = []"
  by (metis length_0_conv length_iterate)

lemma iterate_eq_Nil [simp]: "iterate h xs = [] \<longleftrightarrow> xs = []"
  by (metis length_0_conv length_iterate)

lemma mset_map_iterate [simp]: "mset (map f (iterate h xs)) = mset (map f xs)"
  by (simp add: mset_map)

lemma mset_filter_iterate [simp]: "mset (filter P (iterate h xs)) = mset (filter P xs)"
  by (simp add: mset_filter)

lemma length_filter_iterate [simp]: "length (filter P (iterate h xs)) = length (filter P xs)"
  by (metis mset_filter_iterate size_mset)

subsection \<open>Hash sets\<close>

definition hs_insert :: "'a \<Rightarrow> 'a list \<Rightarrow> 'a list" where
  "hs_insert x s = (if x \<in> set s then s else s @ [x])"

definition hs_remove :: "'a \<Rightarrow> 'a list \<Rightarrow> 'a list" where
  "hs_remove x s = filter (\<lambda>y. y \<noteq> x) s"

lemma set_hs_insert [simp]: "set (hs_insert x s) = insert x (set s)"
  by (auto simp: hs_insert_def)

lemma set_hs_remove [simp]: "set (hs_remove x s) = set s - {x}"
  by (auto simp: hs_remove_def)

lemma distinct_hs_insert [simp]: "distinct s \<Longrightarrow> distinct (hs_insert x s)"
  by (simp add: hs_insert_def)

lemma distinct_hs_remove [simp]: "distinct s \<Longrightarrow> distinct (hs_remove x s)"
  by (simp add: hs_remove_def)

subsection \<open>Hash maps\<close>

type_synonym ('k, 'v) hmap = "('k \<times> 'v) list"

definition hm_wf :: "('k, 'v) hmap \<Rightarrow> bool" where
  "hm_wf m \<longleftrightarrow> distinct (map fst m)"

definition hm_get :: "('k, 'v) hmap \<Rightarrow> 'k \<Rightarrow> 'v option" where
  "hm_get m k = map_of m k"

definition hm_contains :: "('k, 'v) hmap \<Rightarrow> 'k \<Rightarrow> bool" where
  "hm_contains m k \<longleftrightarrow> hm_get m k \<noteq> None"

definition hm_insert :: "'k \<Rightarrow> 'v \<Rightarrow> ('k, 'v) hmap \<Rightarrow> ('k, 'v) hmap" where
  "hm_insert k v m = AList.update k v m"

definition hm_remove :: "'k \<Rightarrow> ('k, 'v) hmap \<Rightarrow> ('k, 'v) hmap" where
  "hm_remove k m = AList.delete k m"

definition hm_or_insert :: "'k \<Rightarrow> 'v \<Rightarrow> ('k, 'v) hmap \<Rightarrow> ('k, 'v) hmap" where
  \<comment> \<open>\<open>entry(k).or_insert(v)\<close>\<close>
  "hm_or_insert k v m = (if hm_contains m k then m else hm_insert k v m)"

definition hm_modify :: "'k \<Rightarrow> ('v \<Rightarrow> 'v) \<Rightarrow> ('k, 'v) hmap \<Rightarrow> ('k, 'v) hmap" where
  \<comment> \<open>a mutation through \<open>get_mut(k)\<close>; nothing happens to a missing key\<close>
  "hm_modify k f m = AList.map_entry k f m"

definition hm_map_values :: "('v \<Rightarrow> 'w) \<Rightarrow> ('k, 'v) hmap \<Rightarrow> ('k, 'w) hmap" where
  \<comment> \<open>a mutation through \<open>values_mut()\<close>\<close>
  "hm_map_values f m = map (\<lambda>(k, v). (k, f v)) m"

definition hm_retain :: "('k \<Rightarrow> 'v \<Rightarrow> bool) \<Rightarrow> ('k, 'v) hmap \<Rightarrow> ('k, 'v) hmap" where
  "hm_retain p m = filter (\<lambda>(k, v). p k v) m"

definition hm_values :: "('k \<times> 'v) hash_order \<Rightarrow> ('k, 'v) hmap \<Rightarrow> 'v list" where
  "hm_values h m = map snd (iterate h m)"

definition hm_keys :: "('k \<times> 'v) hash_order \<Rightarrow> ('k, 'v) hmap \<Rightarrow> 'k list" where
  "hm_keys h m = map fst (iterate h m)"

lemma hm_get_Nil [simp]: "hm_get [] k = None"
  by (simp add: hm_get_def)

lemma hm_get_Cons [simp]: "hm_get ((k, v) # m) k' = (if k' = k then Some v else hm_get m k')"
  by (simp add: hm_get_def)

lemma hm_contains_conv: "hm_contains m k \<longleftrightarrow> k \<in> fst ` set m"
  by (simp add: hm_contains_def hm_get_def map_of_eq_None_iff)

lemma hm_get_insert [simp, hmap_simps]: "hm_get (hm_insert k v m) k' = (if k' = k then Some v else hm_get m k')"
  by (simp add: hm_get_def hm_insert_def update_conv')

lemma hm_get_remove [simp, hmap_simps]: "hm_get (hm_remove k m) k' = (if k' = k then None else hm_get m k')"
  by (simp add: hm_get_def hm_remove_def delete_conv')

lemma hm_get_modify [simp, hmap_simps]:
  "hm_get (hm_modify k f m) k' = (if k' = k then map_option f (hm_get m k) else hm_get m k')"
  by (simp add: hm_get_def hm_modify_def map_of_map_entry split: option.split)

lemma hm_get_or_insert [simp, hmap_simps]:
  "hm_get (hm_or_insert k v m) k' = (if k' = k \<and> hm_get m k = None then Some v else hm_get m k')"
  by (auto simp: hm_or_insert_def hm_contains_def)

lemma hm_get_map_values [simp, hmap_simps]: "hm_get (hm_map_values f m) k = map_option f (hm_get m k)"
  by (simp add: hm_get_def hm_map_values_def map_of_map)

lemma hm_wf_Nil [simp, hmap_wf]: "hm_wf []"
  by (simp add: hm_wf_def)

lemma hm_wf_Cons [simp]: "hm_wf ((k, v) # m) \<longleftrightarrow> k \<notin> fst ` set m \<and> hm_wf m"
  by (simp add: hm_wf_def)

lemma hm_wf_insert [simp, hmap_wf]: "hm_wf m \<Longrightarrow> hm_wf (hm_insert k v m)"
  by (simp add: hm_wf_def hm_insert_def distinct_update)

lemma hm_wf_remove [simp, hmap_wf]: "hm_wf m \<Longrightarrow> hm_wf (hm_remove k m)"
  by (simp add: hm_wf_def hm_remove_def distinct_delete)

lemma hm_wf_modify [simp, hmap_wf]: "hm_wf m \<Longrightarrow> hm_wf (hm_modify k f m)"
  by (simp add: hm_wf_def hm_modify_def distinct_map_entry)

lemma hm_wf_or_insert [simp, hmap_wf]: "hm_wf m \<Longrightarrow> hm_wf (hm_or_insert k v m)"
  by (simp add: hm_or_insert_def)

lemma map_fst_map_values [simp]: "map fst (hm_map_values f m) = map fst m"
  by (simp add: hm_map_values_def comp_def case_prod_beta)

lemma hm_wf_map_values [simp, hmap_wf]: "hm_wf m \<Longrightarrow> hm_wf (hm_map_values f m)"
  by (simp add: hm_wf_def)

lemma hm_wf_retain [simp, hmap_wf]: "hm_wf m \<Longrightarrow> hm_wf (hm_retain p m)"
  by (simp add: hm_wf_def hm_retain_def distinct_map_filter)

lemma hm_get_SomeI: "hm_wf m \<Longrightarrow> (k, v) \<in> set m \<Longrightarrow> hm_get m k = Some v"
  by (simp add: hm_wf_def hm_get_def)

lemma hm_get_SomeD: "hm_get m k = Some v \<Longrightarrow> (k, v) \<in> set m"
  by (simp add: hm_get_def map_of_SomeD)

lemma hm_get_iff: "hm_wf m \<Longrightarrow> hm_get m k = Some v \<longleftrightarrow> (k, v) \<in> set m"
  by (auto intro: hm_get_SomeI dest: hm_get_SomeD)

lemma hm_get_retain [hmap_simps]:
  assumes "hm_wf m"
  shows "hm_get (hm_retain p m) k =
     (case hm_get m k of None \<Rightarrow> None | Some v \<Rightarrow> if p k v then Some v else None)"
proof -
  have retain: "hm_get (hm_retain p m) k = Some v \<longleftrightarrow> hm_get m k = Some v \<and> p k v" for v
    using assms by (simp add: hm_get_iff) (simp add: hm_retain_def)
  show ?thesis
    by (cases "hm_get (hm_retain p m) k"; cases "hm_get m k") (use retain in simp_all)
qed

lemma set_hm_values: "hm_wf m \<Longrightarrow> set (hm_values h m) = {v. \<exists>k. hm_get m k = Some v}"
  by (force simp: hm_values_def hm_get_iff image_iff)

lemma set_hm_keys [simp]: "set (hm_keys h m) = {k. hm_get m k \<noteq> None}"
  by (auto simp: hm_keys_def hm_get_def map_of_eq_None_iff image_iff)

lemma length_hm_values [simp]: "length (hm_values h m) = length m"
  by (simp add: hm_values_def)

lemma distinct_hm_keys [simp]: "distinct (hm_keys h m) \<longleftrightarrow> hm_wf m"
  by (metis hm_keys_def hm_wf_def mset_eq_imp_distinct_iff mset_map_iterate)

lemma mset_hm_values [simp]: "mset (hm_values h m) = mset (map snd m)"
  by (simp add: hm_values_def del: mset_map)

lemma hm_length_card: "hm_wf m \<Longrightarrow> length m = card {k. hm_get m k \<noteq> None}"
  by (metis distinct_card distinct_hm_keys hm_keys_def length_iterate length_map set_hm_keys)

text \<open>
  The contract of a map that the components rely on, with what every client needs from it:
  a read after a write, and independence of writes to different keys.
\<close>

locale keyed_map =
  fixes get :: "'m \<Rightarrow> 'k \<Rightarrow> 'v option"
    and put :: "'k \<Rightarrow> 'v \<Rightarrow> 'm \<Rightarrow> 'm"
    and del :: "'k \<Rightarrow> 'm \<Rightarrow> 'm"
    and wf :: "'m \<Rightarrow> bool"
  assumes get_put: "wf m \<Longrightarrow> get (put k v m) k' = (if k' = k then Some v else get m k')"
    and get_del: "wf m \<Longrightarrow> get (del k m) k' = (if k' = k then None else get m k')"
    and wf_put: "wf m \<Longrightarrow> wf (put k v m)"
    and wf_del: "wf m \<Longrightarrow> wf (del k m)"
begin

lemma put_put_other: "wf m \<Longrightarrow> k \<noteq> k' \<Longrightarrow> get (put k v (put k' v' m)) = get (put k' v' (put k v m))"
  by (rule ext) (simp add: get_put wf_put)

lemma del_put: "wf m \<Longrightarrow> get m k = None \<Longrightarrow> get (del k (put k v m)) = get m"
  by (rule ext) (simp add: get_put get_del wf_put)

lemma wf_fold_put: "wf m \<Longrightarrow> wf (fold (\<lambda>(k, v). put k v) kvs m)"
  by (induction kvs arbitrary: m) (auto simp: wf_put)

end

interpretation hm: keyed_map hm_get hm_insert hm_remove hm_wf
  by unfold_locales simp_all

subsection \<open>Machine integers\<close>

text \<open>
  Unsigned integers are natural numbers; where an operation can leave the width, the
  saturation, the truncation or the panic of the source is written out. The workspace
  compiles with \<open>overflow-checks = true\<close>, so a plain \<open>+\<close> that overflows panics.
\<close>

definition u8_max :: nat where "u8_max = 255"

definition u32_max :: nat where "u32_max = 4294967295"

definition u64_max :: nat where "u64_max = 18446744073709551615"

definition as_u8 :: "nat \<Rightarrow> nat" where
  "as_u8 n = n mod 256"

definition as_u32 :: "nat \<Rightarrow> nat" where
  "as_u32 n = n mod 4294967296"

definition sat_add :: "nat \<Rightarrow> nat \<Rightarrow> nat \<Rightarrow> nat" where
  "sat_add limit a b = min limit (a + b)"

definition checked_add :: "nat \<Rightarrow> nat \<Rightarrow> nat \<Rightarrow> nat option" where
  "checked_add limit a b = (if a + b \<le> limit then Some (a + b) else None)"

lemma as_u8_small [simp]: "n \<le> u8_max \<Longrightarrow> as_u8 n = n"
  by (simp add: as_u8_def u8_max_def)

lemma as_u8_bound: "as_u8 n \<le> u8_max"
  using mod_less_divisor [of 256 n] by (simp add: as_u8_def u8_max_def)

lemma sat_add_le: "sat_add limit a b \<le> limit"
  by (simp add: sat_add_def)

lemma sat_add_exact: "a + b \<le> limit \<Longrightarrow> sat_add limit a b = a + b"
  by (simp add: sat_add_def)

lemma sat_add_mono: "a \<le> limit \<Longrightarrow> a \<le> sat_add limit a b"
  by (simp add: sat_add_def)

lemma checked_add_Some: "checked_add limit a b = Some c \<longleftrightarrow> c = a + b \<and> a + b \<le> limit"
  by (auto simp: checked_add_def)

subsection \<open>Bounded histories\<close>

text \<open>
  Several components push onto a \<open>Vec\<close> and drain its oldest entries once it exceeds a
  configured length.
\<close>

definition push_bounded :: "nat \<Rightarrow> 'a list \<Rightarrow> 'a \<Rightarrow> 'a list" where
  "push_bounded limit xs x =
     (let ys = xs @ [x]
      in if limit < length ys then drop (length ys - limit) ys else ys)"

lemma length_push_bounded: "length (push_bounded limit xs x) = min limit (Suc (length xs))"
  by (auto simp: push_bounded_def Let_def min_def)

lemma push_bounded_le: "length (push_bounded limit xs x) \<le> limit"
  by (simp add: length_push_bounded)

lemma last_push_bounded: "0 < limit \<Longrightarrow> last (push_bounded limit xs x) = x"
  by (simp add: push_bounded_def Let_def)

lemma set_push_bounded: "set (push_bounded limit xs x) \<subseteq> insert x (set xs)"
  by (auto simp: push_bounded_def Let_def dest: in_set_dropD split: if_splits)

subsection \<open>Guarded state machines\<close>

text \<open>
  A machine whose transition function refuses with an error. \<open>run_steps\<close> applies a list of
  transitions and stops at the first refusal.
\<close>

fun run_steps :: "('s \<Rightarrow> 't \<Rightarrow> ('e, 's) result) \<Rightarrow> 's \<Rightarrow> 't list \<Rightarrow> ('e, 's) result" where
  "run_steps step s [] = Inr s"
| "run_steps step s (t # ts) = (case step s t of Inl e \<Rightarrow> Inl e | Inr s' \<Rightarrow> run_steps step s' ts)"

lemma run_steps_append:
  "run_steps step s (ts @ us) =
     (case run_steps step s ts of Inl e \<Rightarrow> Inl e | Inr s' \<Rightarrow> run_steps step s' us)"
  by (induction ts arbitrary: s) (auto split: sum.splits)

locale guarded_machine =
  fixes enabled :: "'s \<Rightarrow> 't list"
    and step :: "'s \<Rightarrow> 't \<Rightarrow> ('e, 's) result"
  assumes step_enabled: "is_ok (step s t) \<longleftrightarrow> t \<in> set (enabled s)"
begin

lemma step_Inr_enabled: "step s t = Inr s' \<Longrightarrow> t \<in> set (enabled s)"
  using step_enabled [of s t] by simp

lemma stuck_run: "enabled s = [] \<Longrightarrow> run_steps step s ts = Inr s' \<Longrightarrow> ts = [] \<and> s' = s"
  by (cases ts) (auto split: sum.splits dest: step_Inr_enabled)

lemma run_invariant:
  assumes "\<And>s t s'. P s \<Longrightarrow> step s t = Inr s' \<Longrightarrow> P s'"
  shows "P s \<Longrightarrow> run_steps step s ts = Inr s' \<Longrightarrow> P s'"
  by (induction ts arbitrary: s) (auto split: sum.splits dest: assms)

end

end
