(* ===== verification/Rust_Strings.thy ===== *)
theory Rust_Strings
  imports Prelude
begin

text \<open>
  The string operations of Rust's standard library that the modelled code calls: \<open>chars\<close>,
  \<open>trim\<close>, \<open>split(char)\<close>, \<open>split_whitespace\<close>, \<open>contains\<close>, \<open>starts_with\<close>, \<open>to_lowercase\<close>, \<open>join\<close>,
  \<open>replace("_", "")\<close>, decimal formatting of unsigned integers and \<open>parse::<u32>\<close>. A \<open>string\<close> is the
  sequence of the bytes of a Rust \<open>str\<close>, that is UTF-8 text; white space is the Unicode property
  \<open>White_Space\<close>, as in \<open>char::is_whitespace\<close>. Lower case is complete for every character whose
  lower case contains an ASCII character, so comparing a lowered text with ASCII text is exact;
  the case pairs outside ASCII are left as they are.
\<close>

subsection \<open>Characters\<close>

definition utf8_len :: "char \<Rightarrow> nat" where
  \<comment> \<open>\<open>char::len_utf8\<close>, from the leading byte\<close>
  "utf8_len c =
     (let b = (of_char c :: nat) in if b < 192 then 1 else if b < 224 then 2 else if b < 240 then 3 else 4)"

function utf8_chars :: "string \<Rightarrow> string list" where
  \<comment> \<open>\<open>str::chars\<close>, every character by its bytes\<close>
  "utf8_chars [] = []"
| "utf8_chars (c # s) = (c # take (utf8_len c - 1) s) # utf8_chars (drop (utf8_len c - 1) s)"
  by pat_completeness auto
termination by (relation "measure length") auto

definition is_ws :: "char \<Rightarrow> bool" where
  \<comment> \<open>white space among the ASCII characters\<close>
  "is_ws c \<longleftrightarrow> of_char c = (32::nat) \<or> (9 \<le> (of_char c :: nat) \<and> of_char c \<le> (13::nat))"

definition wide_ws :: "nat list \<Rightarrow> bool" where
  \<comment> \<open>white space outside ASCII: U+0085, U+00A0, U+1680, U+2000 to U+200A, U+2028, U+2029,
    U+202F, U+205F and U+3000, by their bytes\<close>
  "wide_ws bs \<longleftrightarrow>
     bs \<in> set [[0xC2, 0x85], [0xC2, 0xA0], [0xE1, 0x9A, 0x80], [0xE2, 0x80, 0xA8], [0xE2, 0x80, 0xA9],
       [0xE2, 0x80, 0xAF], [0xE2, 0x81, 0x9F], [0xE3, 0x80, 0x80]] \<or>
     (take 2 bs = [0xE2, 0x80] \<and> length bs = 3 \<and> 0x80 \<le> bs ! 2 \<and> bs ! 2 \<le> 0x8A)"

definition is_whitespace :: "string \<Rightarrow> bool" where
  \<comment> \<open>\<open>char::is_whitespace\<close>\<close>
  "is_whitespace w \<longleftrightarrow> (case w of [c] \<Rightarrow> is_ws c | _ \<Rightarrow> wide_ws (map of_char w))"

definition is_digit :: "char \<Rightarrow> bool" where
  "is_digit c \<longleftrightarrow> 48 \<le> (of_char c :: nat) \<and> of_char c \<le> (57::nat)"

definition lower_char :: "char \<Rightarrow> char" where
  "lower_char c =
     (if 65 \<le> (of_char c :: nat) \<and> of_char c \<le> (90::nat) then char_of (of_char c + 32 :: nat) else c)"

definition lower_utf8 :: "string \<Rightarrow> string" where
  \<comment> \<open>\<open>char::to_lowercase\<close>: the ASCII letters, and the two other characters whose lower case has an
    ASCII letter, U+212A (Kelvin sign) and U+0130 (capital I with a dot)\<close>
  "lower_utf8 w =
     (if map of_char w = [0xE2, 0x84, 0xAA :: nat] then ''k''
      else if map of_char w = [0xC4, 0xB0 :: nat] then [CHR ''i'', CHR 0xCC, CHR 0x87]
      else map lower_char w)"

definition to_lowercase :: "string \<Rightarrow> string" where
  "to_lowercase s = concat (map lower_utf8 (utf8_chars s))"

subsection \<open>Trimming, searching, splitting\<close>

definition trim_by :: "('a \<Rightarrow> bool) \<Rightarrow> 'a list \<Rightarrow> 'a list" where
  "trim_by p xs = rev (dropWhile p (rev (dropWhile p xs)))"

definition trim :: "string \<Rightarrow> string" where
  "trim s = concat (trim_by is_whitespace (utf8_chars s))"

definition starts_with :: "string \<Rightarrow> string \<Rightarrow> bool" where
  "starts_with s p \<longleftrightarrow> take (length p) s = p"

fun str_contains :: "string \<Rightarrow> string \<Rightarrow> bool" where
  "str_contains [] p = (p = [])"
| "str_contains (c # s) p = (starts_with (c # s) p \<or> str_contains s p)"

fun split_on :: "char \<Rightarrow> string \<Rightarrow> string list" where
  "split_on c [] = [[]]"
| "split_on c (x # s) =
     (if x = c then [] # split_on c s
      else (case split_on c s of [] \<Rightarrow> [[x]] | w # ws \<Rightarrow> (x # w) # ws))"

fun join_with :: "string \<Rightarrow> string list \<Rightarrow> string" where
  "join_with sep [] = []"
| "join_with sep [w] = w"
| "join_with sep (w # v # ws) = w @ sep @ join_with sep (v # ws)"

fun split_by :: "('a \<Rightarrow> bool) \<Rightarrow> 'a list \<Rightarrow> 'a list list" where
  "split_by p [] = [[]]"
| "split_by p (x # xs) =
     (if p x then [] # split_by p xs
      else (case split_by p xs of [] \<Rightarrow> [[x]] | w # ws \<Rightarrow> (x # w) # ws))"

definition split_whitespace :: "string \<Rightarrow> string list" where
  "split_whitespace s = filter (\<lambda>w. w \<noteq> []) (map concat (split_by is_whitespace (utf8_chars s)))"

definition remove_char :: "char \<Rightarrow> string \<Rightarrow> string" where
  "remove_char c s = filter (\<lambda>x. x \<noteq> c) s"

subsection \<open>Decimal numbers\<close>

definition digit_char :: "nat \<Rightarrow> char" where
  "digit_char d = char_of (48 + d)"

definition digit_val :: "char \<Rightarrow> nat" where
  "digit_val c = of_char c - 48"

fun show_nat :: "nat \<Rightarrow> string" where
  "show_nat n = (if n < 10 then [digit_char n] else show_nat (n div 10) @ [digit_char (n mod 10)])"

declare show_nat.simps [simp del]

definition parse_digits :: "string \<Rightarrow> nat" where
  "parse_digits s = foldl (\<lambda>acc c. acc * 10 + digit_val c) 0 s"

definition parse_u32 :: "string \<Rightarrow> nat option" where
  \<comment> \<open>\<open>str::parse::<u32>\<close>: an optional plus sign, at least one digit, no overflow\<close>
  "parse_u32 s =
     (let ds = (if s \<noteq> [] \<and> hd s = CHR ''+'' then tl s else s)
      in if ds = [] \<or> \<not> list_all is_digit ds then None
         else if parse_digits ds \<le> u32_max then Some (parse_digits ds) else None)"

subsection \<open>Facts about these operations\<close>

lemma split_on_nonempty [simp]: "split_on c s \<noteq> []"
  by (induction s) (auto split: list.splits)

lemma split_on_no_sep: "c \<notin> set s \<Longrightarrow> split_on c s = [s]"
  by (induction s) auto

lemma split_on_append: "c \<notin> set w \<Longrightarrow> split_on c (w @ c # s) = w # split_on c s"
  by (induction w) (auto split: list.splits)

lemma split_on_join:
  "ws \<noteq> [] \<Longrightarrow> (\<forall>w \<in> set ws. c \<notin> set w) \<Longrightarrow> split_on c (join_with [c] ws) = ws"
  by (induction "[c]" ws rule: join_with.induct) (auto simp: split_on_no_sep split_on_append)

lemma utf8_len_pos [simp]: "0 < utf8_len c"
  by (simp add: utf8_len_def Let_def)

lemma concat_utf8_chars [simp]: "concat (utf8_chars s) = s"
  by (induction s rule: utf8_chars.induct) simp_all

text \<open>What the decoder yields, and what it does with a part of what it yielded: every character
  but the last has the length its leading byte announces.\<close>

fun chars_ok :: "string list \<Rightarrow> bool" where
  "chars_ok [] = True"
| "chars_ok (w # ws) = (w \<noteq> [] \<and> (if ws = [] then length w \<le> utf8_len (hd w) else length w = utf8_len (hd w)) \<and> chars_ok ws)"

lemma utf8_chars_Nil_iff [simp]: "utf8_chars s = [] \<longleftrightarrow> s = []"
  by (cases s) simp_all

lemma chars_ok_utf8: "chars_ok (utf8_chars s)"
proof (induction s rule: utf8_chars.induct)
  case (2 c s)
  have "min (length s) (utf8_len c - Suc 0) = utf8_len c - Suc 0" if "\<not> length s \<le> utf8_len c - Suc 0"
    using that by simp
  moreover have "Suc (length s) \<le> utf8_len c" if "length s \<le> utf8_len c - Suc 0"
    using that utf8_len_pos [of c] by linarith
  ultimately show ?case using 2 utf8_len_pos [of c] by auto
qed simp

lemma utf8_chars_concat: "chars_ok ws \<Longrightarrow> utf8_chars (concat ws) = ws"
proof (induction ws)
  case (Cons w ws)
  then obtain c v where w: "w = c # v" by (cases w) auto
  show ?case
  proof (cases "ws = []")
    case True
    with Cons.prems w show ?thesis by simp
  next
    case False
    with Cons.prems have "Suc (length v) = utf8_len c" by (simp add: w)
    then have "utf8_len c - 1 = length v" by linarith
    with Cons w show ?thesis by (simp split: if_splits)
  qed
qed simp

lemma chars_ok_append: "chars_ok (xs @ ys) \<Longrightarrow> chars_ok xs \<and> chars_ok ys"
  by (induction xs) (auto split: if_splits)

lemma chars_ok_drop: "chars_ok ws \<Longrightarrow> chars_ok (dropWhile p ws)"
  by (induction ws) auto

lemma trim_by_parts: "\<exists>us vs. xs = us @ trim_by p xs @ vs"
proof -
  let ?ys = "dropWhile p xs"
  have "?ys = trim_by p xs @ rev (takeWhile p (rev ?ys))"
    unfolding trim_by_def by (metis rev_append rev_rev_ident takeWhile_dropWhile_id)
  then show ?thesis by (metis takeWhile_dropWhile_id)
qed

lemma utf8_chars_trim: "utf8_chars (trim s) = trim_by is_whitespace (utf8_chars s)"
proof -
  from trim_by_parts obtain us vs where "utf8_chars s = us @ trim_by is_whitespace (utf8_chars s) @ vs" by blast
  then have "chars_ok (trim_by is_whitespace (utf8_chars s))"
    using chars_ok_utf8 [of s] chars_ok_append by metis
  then show ?thesis by (simp add: trim_def utf8_chars_concat)
qed

lemma trim_by_id: "xs = [] \<or> (\<not> p (hd xs) \<and> \<not> p (last xs)) \<Longrightarrow> trim_by p xs = xs"
  by (cases xs) (auto simp: trim_by_def dropWhile_eq_self_iff hd_rev hd_append)

lemma dropWhile_rev_hd: "xs \<noteq> [] \<Longrightarrow> \<not> p (hd xs) \<Longrightarrow> rev (dropWhile p (rev xs)) \<noteq> [] \<and>
    hd (rev (dropWhile p (rev xs))) = hd xs"
proof (induction xs rule: rev_induct)
  case Nil
  then show ?case by simp
next
  case (snoc x xs)
  then show ?case by (cases xs) auto
qed

lemma trim_by_ends: "trim_by p xs = [] \<or> (\<not> p (hd (trim_by p xs)) \<and> \<not> p (last (trim_by p xs)))"
proof (cases "dropWhile p xs = []")
  case True
  then have "trim_by p xs = []" unfolding trim_by_def by (simp only: rev.simps dropWhile.simps)
  then show ?thesis by simp
next
  case False
  then have "\<not> p (hd (dropWhile p xs))" by (rule hd_dropWhile)
  note front = dropWhile_rev_hd [of _ p, OF False this]
  then have "dropWhile p (rev (dropWhile p xs)) \<noteq> []" by simp
  with hd_dropWhile [OF this] front \<open>\<not> p (hd (dropWhile p xs))\<close> show ?thesis
    by (simp add: trim_by_def last_rev)
qed

lemma trim_trim [simp]: "trim (trim s) = trim s"
  using trim_by_id [OF trim_by_ends [of is_whitespace "utf8_chars s"]]
  by (metis trim_def utf8_chars_trim)

lemma trim_empty_iff: "trim s = [] \<longleftrightarrow> list_all is_whitespace (utf8_chars s)"
proof -
  have "trim s = [] \<longleftrightarrow> trim_by is_whitespace (utf8_chars s) = []"
    by (metis utf8_chars_Nil_iff utf8_chars_trim)
  moreover have "trim_by p xs = [] \<longleftrightarrow> list_all p xs" for p :: "string \<Rightarrow> bool" and xs
    using hd_dropWhile [of p xs] dropWhile_rev_hd [of "dropWhile p xs" p]
    by (cases "dropWhile p xs = []") (auto simp: trim_by_def list_all_iff dropWhile_eq_Nil_conv dest: set_dropWhileD)
  ultimately show ?thesis by simp
qed

text \<open>Text whose ends are ASCII characters other than white space is its own trimming.\<close>

definition plain_char :: "char \<Rightarrow> bool" where
  "plain_char c \<longleftrightarrow> (of_char c :: nat) < 128 \<and> \<not> is_ws c"

lemma wide_ws_bytes: "wide_ws bs \<Longrightarrow> b \<in> set bs \<Longrightarrow> 128 \<le> b"
proof -
  assume w: "wide_ws bs" "b \<in> set bs"
  then consider "bs \<in> set [[0xC2, 0x85], [0xC2, 0xA0], [0xE1, 0x9A, 0x80], [0xE2, 0x80, 0xA8], [0xE2, 0x80, 0xA9],
       [0xE2, 0x80, 0xAF], [0xE2, 0x81, 0x9F], [0xE3, 0x80, 0x80]]"
    | "take 2 bs = [0xE2, 0x80]" "length bs = 3" "0x80 \<le> bs ! 2" by (auto simp: wide_ws_def)
  then show ?thesis
  proof cases
    case 1
    with w(2) show ?thesis by auto
  next
    case 2
    then obtain x y z where "bs = [x, y, z]" by (auto simp: numeral_3_eq_3 length_Suc_conv)
    with 2 w(2) show ?thesis by auto
  qed
qed

lemma plain_not_white: "c \<in> set w \<Longrightarrow> plain_char c \<Longrightarrow> \<not> is_whitespace w"
proof
  assume c: "c \<in> set w" "plain_char c" "is_whitespace w"
  show False
  proof (cases "\<exists>d. w = [d]")
    case True
    with c show ?thesis by (auto simp: is_whitespace_def plain_char_def)
  next
    case False
    with c(3) have "wide_ws (map of_char w)" by (auto simp: is_whitespace_def split: list.splits)
    from wide_ws_bytes [OF this, of "of_char c"] c(1,2) show ?thesis by (auto simp: plain_char_def)
  qed
qed

lemma white_length: "is_whitespace w \<Longrightarrow> length w = utf8_len (hd w)"
proof -
  assume white: "is_whitespace w"
  show ?thesis
  proof (cases "\<exists>d. w = [d]")
    case True
    with white show ?thesis by (auto simp: is_whitespace_def is_ws_def utf8_len_def)
  next
    case False
    with white have wide: "wide_ws (map of_char w)" by (auto simp: is_whitespace_def split: list.splits)
    then obtain c v where w: "w = c # v" by (cases w) (auto simp: wide_ws_def)
    from wide have "of_char c = (0xC2 :: nat) \<and> length w = 2 \<or> of_char c \<in> {0xE1, 0xE2, 0xE3 :: nat} \<and> length w = 3"
      by (auto simp: wide_ws_def w dest: arg_cong [of _ _ length])
    then show ?thesis by (auto simp: w utf8_len_def)
  qed
qed

lemma utf8_chars_white: "is_whitespace w \<Longrightarrow> utf8_chars (w @ s) = w # utf8_chars s"
proof -
  assume white: "is_whitespace w"
  have "w \<noteq> []" using white by (auto simp: is_whitespace_def wide_ws_def)
  then obtain c v where w: "w = c # v" by (cases w) auto
  from white_length [OF white] have "utf8_len c - 1 = length v" by (simp add: w)
  then show ?thesis by (simp add: w)
qed

lemma hd_utf8_chars: "s \<noteq> [] \<Longrightarrow> hd s \<in> set (hd (utf8_chars s))"
  by (cases s) simp_all

lemma last_utf8_chars: "s \<noteq> [] \<Longrightarrow> last s \<in> set (last (utf8_chars s))"
proof (induction s rule: utf8_chars.induct)
  case (2 c s)
  show ?case
  proof (cases "drop (utf8_len c - 1) s = []")
    case True
    then show ?thesis by simp
  next
    case False
    then have "last (drop (utf8_len c - 1) s) = last (c # s)" by (cases s) auto
    with 2 False show ?thesis by simp
  qed
qed simp

lemma trim_plain_hd: "s \<noteq> [] \<Longrightarrow> \<not> is_whitespace (hd (utf8_chars s)) \<Longrightarrow> plain_char (last s) \<Longrightarrow> trim s = s"
  using plain_not_white [OF last_utf8_chars, of s] trim_by_id [of "utf8_chars s" is_whitespace]
  by (simp add: trim_def)

lemma trim_id: "s = [] \<or> (plain_char (hd s) \<and> plain_char (last s)) \<Longrightarrow> trim s = s"
proof (cases "s = []")
  case True
  then show ?thesis by (simp add: trim_def trim_by_def)
next
  case False
  moreover assume "s = [] \<or> (plain_char (hd s) \<and> plain_char (last s))"
  ultimately show ?thesis using plain_not_white [OF hd_utf8_chars] by (intro trim_plain_hd) simp_all
qed

lemma trim_hd: "trim s = s \<Longrightarrow> s \<noteq> [] \<Longrightarrow> \<not> is_whitespace (hd (utf8_chars s))"
  using trim_by_ends [of is_whitespace "utf8_chars s"] by (metis utf8_chars_Nil_iff utf8_chars_trim)

lemma utf8_chars_ascii: "list_all (\<lambda>c. (of_char c :: nat) < 128) s \<Longrightarrow> utf8_chars s = map (\<lambda>c. [c]) s"
  by (induction s) (simp_all add: utf8_len_def)

lemma to_lowercase_ascii: "list_all (\<lambda>c. (of_char c :: nat) < 128) s \<Longrightarrow> to_lowercase s = map lower_char s"
  by (simp add: to_lowercase_def utf8_chars_ascii lower_utf8_def comp_def)

lemmas trim_eval = trim_def trim_by_def utf8_len_def is_whitespace_def is_ws_def wide_ws_def
lemmas plain_eval = plain_char_def is_ws_def

lemma digit_char_digit [simp]: "d < 10 \<Longrightarrow> is_digit (digit_char d)"
  by (simp add: is_digit_def digit_char_def)

lemma digit_val_char [simp]: "d < 10 \<Longrightarrow> digit_val (digit_char d) = d"
  by (simp add: digit_val_def digit_char_def)

lemma show_nat_nonempty [simp]: "show_nat n \<noteq> []"
  by (subst show_nat.simps) simp

lemma show_nat_digits: "list_all is_digit (show_nat n)"
proof (induction n rule: show_nat.induct)
  case (1 n)
  then show ?case by (subst show_nat.simps) simp
qed

lemma parse_show_nat [simp]: "parse_digits (show_nat n) = n"
proof (induction n rule: show_nat.induct)
  case (1 n)
  then show ?case
    by (subst show_nat.simps) (simp add: parse_digits_def)
qed

lemma show_nat_inject [simp]: "show_nat m = show_nat n \<longleftrightarrow> m = n"
  by (metis parse_show_nat)

lemma digit_not: "is_digit c \<Longrightarrow> c \<noteq> CHR ''+'' \<and> c \<noteq> CHR ''-'' \<and> c \<noteq> CHR '':'' \<and> c \<noteq> CHR '','' \<and> plain_char c"
  by (auto simp: is_digit_def is_ws_def plain_char_def)

lemma show_nat_chars: "c \<in> set (show_nat n) \<Longrightarrow>
    c \<noteq> CHR ''+'' \<and> c \<noteq> CHR ''-'' \<and> c \<noteq> CHR '':'' \<and> c \<noteq> CHR '','' \<and> plain_char c"
  by (rule digit_not) (use show_nat_digits [of n] in \<open>auto simp: list_all_iff\<close>)

lemma parse_u32_show_nat: "n \<le> u32_max \<Longrightarrow> parse_u32 (show_nat n) = Some n"
  using show_nat_chars [of "hd (show_nat n)" n] show_nat_digits [of n]
  by (simp add: parse_u32_def)

lemma parse_u32_bound: "parse_u32 s = Some n \<Longrightarrow> n \<le> u32_max"
  by (auto simp: parse_u32_def Let_def split: if_splits)

lemma parse_u32_dash: "CHR ''-'' \<in> set s \<Longrightarrow> parse_u32 s = None"
proof -
  assume dash: "CHR ''-'' \<in> set s"
  define ds where "ds = (if s \<noteq> [] \<and> hd s = CHR ''+'' then tl s else s)"
  have "CHR ''-'' \<in> set ds"
    using dash by (cases s) (auto simp: ds_def)
  moreover have "\<not> is_digit CHR ''-''"
    by (simp add: is_digit_def)
  ultimately have "\<not> list_all is_digit ds"
    by (auto simp: list_all_iff)
  then show ?thesis by (simp add: parse_u32_def ds_def [symmetric])
qed

lemma trim_show_nat [simp]: "trim (show_nat n) = show_nat n"
  using show_nat_chars [of "hd (show_nat n)" n] show_nat_chars [of "last (show_nat n)" n]
  by (intro trim_id) simp

lemma starts_with_append [simp]: "starts_with (p @ s) p"
  by (simp add: starts_with_def)

lemma starts_with_conv: "starts_with s p \<longleftrightarrow> (\<exists>t. s = p @ t)"
  by (metis append_eq_conv_conj append_take_drop_id starts_with_def)

end
