(* ===== verification/Task_Types.thy ===== *)
theory Task_Types
  imports Rust_Strings
begin

text \<open>
  \<open>crates/brehon-types/src/task.rs\<close> and the run status of \<open>crates/brehon-types/src/run.rs\<close>:
  task and run statuses, priorities, completion modes, and the normalisation of status
  strings. Identifier newtypes (\<open>TaskId\<close>, \<open>SessionId\<close>, \<open>ReviewId\<close>, \<open>WorkerId\<close>, ...) are the
  strings they wrap.
\<close>

type_synonym task_id = string
type_synonym session_id = string
type_synonym review_id = string
type_synonym event_id = nat

datatype task_status =
    Pending
  | Assigned
  | InProgress
  | InReview
  | ChangesRequested
  | Approved
  | Merged
  | Blocked

datatype priority = Low | Medium | High | Critical

datatype completion_mode = MergeMode | CloseMode

datatype run_status =
    RunCreated
  | RunClaimed
  | RunRunning
  | RunReleased
  | RunRetryQueued
  | RunCompleted
  | RunFailed
  | RunAbandoned

subsection \<open>Priorities are ordered by their declaration\<close>

fun priority_rank :: "priority \<Rightarrow> nat" where
  "priority_rank Low = 0"
| "priority_rank Medium = 1"
| "priority_rank High = 2"
| "priority_rank Critical = 3"

instantiation priority :: linorder
begin

definition less_eq_priority :: "priority \<Rightarrow> priority \<Rightarrow> bool" where
  "less_eq_priority p q \<longleftrightarrow> priority_rank p \<le> priority_rank q"

definition less_priority :: "priority \<Rightarrow> priority \<Rightarrow> bool" where
  "less_priority p q \<longleftrightarrow> priority_rank p < priority_rank q"

instance
proof
  fix p q :: priority
  show "p \<le> q \<Longrightarrow> q \<le> p \<Longrightarrow> p = q"
    by (cases p; cases q) (simp_all add: less_eq_priority_def)
qed (auto simp: less_eq_priority_def less_priority_def)

end

subsection \<open>Completion modes\<close>

definition completion_mode_str :: "completion_mode \<Rightarrow> string" where
  "completion_mode_str m = (case m of MergeMode \<Rightarrow> ''merge'' | CloseMode \<Rightarrow> ''close'')"

definition parse_task_completion_mode :: "string \<Rightarrow> completion_mode option" where
  "parse_task_completion_mode mode =
     (let s = trim mode in
      if s = ''merge'' \<or> s = ''Merge'' then Some MergeMode
      else if s = ''close'' \<or> s = ''Close'' then Some CloseMode
      else None)"

definition close_signals :: "string list" where
  "close_signals =
     [''audit'', ''audit-only'', ''audit only'', ''no code'', ''no-code'', ''no code changes'',
      ''no-code changes'', ''research'', ''investigation'', ''analysis'', ''design review'',
      ''design doc'', ''documentation only'', ''docs only'']"

definition infer_task_completion_mode :: "string \<Rightarrow> string \<Rightarrow> completion_mode" where
  "infer_task_completion_mode title description =
     (let haystack = to_lowercase (title @ [CHR 0x0A] @ description)
      in if list_ex (\<lambda>sig. str_contains haystack sig) close_signals then CloseMode else MergeMode)"

subsection \<open>Status strings\<close>

definition normalize_task_status :: "string \<Rightarrow> string option" where
  "normalize_task_status status =
     (let s = trim status in
      if s = ''pending'' \<or> s = ''Pending'' then Some ''pending''
      else if s = ''assigned'' \<or> s = ''Assigned'' then Some ''assigned''
      else if s = ''in_progress'' \<or> s = ''InProgress'' then Some ''in_progress''
      else if s = ''review_ready'' \<or> s = ''ReviewReady'' then Some ''review_ready''
      else if s = ''complete'' \<or> s = ''Complete'' \<or> s = ''completed'' \<or> s = ''Completed''
        then Some ''review_ready''
      else if s = ''in_review'' \<or> s = ''InReview'' then Some ''in_review''
      else if s = ''changes_requested'' \<or> s = ''ChangesRequested'' then Some ''changes_requested''
      else if s = ''approved'' \<or> s = ''Approved'' then Some ''approved''
      else if s = ''merged'' \<or> s = ''Merged'' then Some ''merged''
      else if s = ''blocked'' \<or> s = ''Blocked'' then Some ''blocked''
      else if s = ''closed'' \<or> s = ''Closed'' then Some ''closed''
      else None)"

definition is_terminal_task_status :: "string \<Rightarrow> bool" where
  "is_terminal_task_status status \<longleftrightarrow>
     normalize_task_status status \<in> {Some ''merged'', Some ''closed''}"

subsection \<open>Run status\<close>

definition run_is_terminal :: "run_status \<Rightarrow> bool" where
  "run_is_terminal s \<longleftrightarrow> s \<in> {RunCompleted, RunFailed, RunAbandoned}"

definition run_has_active_claim :: "run_status \<Rightarrow> bool" where
  "run_has_active_claim s \<longleftrightarrow> s \<in> {RunClaimed, RunRunning}"

definition run_status_str :: "run_status \<Rightarrow> string" where
  "run_status_str s =
     (case s of
        RunCreated \<Rightarrow> ''created''
      | RunClaimed \<Rightarrow> ''claimed''
      | RunRunning \<Rightarrow> ''running''
      | RunReleased \<Rightarrow> ''released''
      | RunRetryQueued \<Rightarrow> ''retry_queued''
      | RunCompleted \<Rightarrow> ''completed''
      | RunFailed \<Rightarrow> ''failed''
      | RunAbandoned \<Rightarrow> ''abandoned'')"

definition run_status_from_str :: "string \<Rightarrow> (string, run_status) result" where
  "run_status_from_str v =
     (let s = trim v in
      if s = ''created'' \<or> s = ''Created'' then Inr RunCreated
      else if s = ''claimed'' \<or> s = ''Claimed'' then Inr RunClaimed
      else if s = ''running'' \<or> s = ''Running'' then Inr RunRunning
      else if s = ''released'' \<or> s = ''Released'' then Inr RunReleased
      else if s = ''retry_queued'' \<or> s = ''RetryQueued'' then Inr RunRetryQueued
      else if s = ''completed'' \<or> s = ''Completed'' then Inr RunCompleted
      else if s = ''failed'' \<or> s = ''Failed'' then Inr RunFailed
      else if s = ''abandoned'' \<or> s = ''Abandoned'' then Inr RunAbandoned
      else Inl ''unknown run status'')"

subsection \<open>Properties\<close>

lemma trim_canonical:
  "trim ''pending'' = ''pending''" "trim ''assigned'' = ''assigned''"
  "trim ''in_progress'' = ''in_progress''" "trim ''review_ready'' = ''review_ready''"
  "trim ''in_review'' = ''in_review''" "trim ''changes_requested'' = ''changes_requested''"
  "trim ''approved'' = ''approved''" "trim ''merged'' = ''merged''"
  "trim ''blocked'' = ''blocked''" "trim ''closed'' = ''closed''"
  by (simp_all add: trim_id plain_eval)

definition canonical_statuses :: "string list" where
  "canonical_statuses =
     [''pending'', ''assigned'', ''in_progress'', ''review_ready'', ''in_review'',
      ''changes_requested'', ''approved'', ''merged'', ''blocked'', ''closed'']"

lemma normalize_canonical: "c \<in> set canonical_statuses \<Longrightarrow> normalize_task_status c = Some c"
  by (auto simp: canonical_statuses_def normalize_task_status_def trim_canonical)

lemma normalize_in_canonical: "normalize_task_status s = Some c \<Longrightarrow> c \<in> set canonical_statuses"
  unfolding normalize_task_status_def Let_def canonical_statuses_def
  by (auto split: if_splits)

lemma normalize_trim: "normalize_task_status (trim s) = normalize_task_status s"
  by (simp add: normalize_task_status_def)

text \<open>
  Normalising a status string is idempotent: every accepted spelling is mapped to a
  canonical string that is its own normal form, surrounding white space never matters, and
  the terminality test depends on the normal form only.
\<close>

theorem normalize_task_status_idempotent:
  assumes "normalize_task_status s = Some c"
  shows "normalize_task_status c = Some c \<and> normalize_task_status (trim s) = Some c \<and>
    is_terminal_task_status s = is_terminal_task_status c"
  using assms normalize_canonical [OF normalize_in_canonical [OF assms]]
  by (simp add: normalize_trim is_terminal_task_status_def)

theorem normalize_task_status_idempotent_witness:
  "normalize_task_status '' Completed '' = Some ''review_ready'' \<and>
   normalize_task_status ''review_ready'' = Some ''review_ready''"
proof -
  have h: "normalize_task_status '' Completed '' = Some ''review_ready''"
    by (simp add: normalize_task_status_def trim_eval)
  show ?thesis using h normalize_task_status_idempotent [OF h] by simp
qed

text \<open>
  The textual form of a run status round-trips: parsing the canonical string of a
  status gives the status back, so a persisted status is never read as another one.
\<close>

theorem run_status_roundtrip: "run_status_from_str (run_status_str s) = Inr s"
  by (cases s) (simp_all add: run_status_from_str_def run_status_str_def trim_id plain_eval)

lemma completion_mode_roundtrip: "parse_task_completion_mode (completion_mode_str m) = Some m"
  by (cases m) (simp_all add: parse_task_completion_mode_def completion_mode_str_def trim_id plain_eval)

end
