(* ===== verification/Review_Scoring.thy ===== *)
theory Review_Scoring
  imports Complex_Main Task_Types
begin

text \<open>
  \<open>crates/brehon-types/src/review.rs\<close> and \<open>crates/brehon-review/src/scoring.rs\<close>: review scores,
  verdicts and policy, the collector of scores and the evaluation of thresholds. The average is
  a rational; the source divides in \<open>f64\<close>, which decides the comparison with a whole threshold
  the same way as long as fewer than \<open>2 ^ 45\<close> scores are collected.
\<close>

subsection \<open>Scores, verdicts, policy\<close>

text \<open>
  The score is a \<open>u8\<close> in a newtype with a public field: \<open>new\<close> and \<open>try_from\<close> check the range 1
  to 10, deserialisation does not, so no theorem below relies on the range.
\<close>

datatype review_score = Review_Score (as_u8_score: nat)

definition try_from_u8 :: "nat \<Rightarrow> (string, review_score) result" where
  "try_from_u8 n =
     (if 1 \<le> n \<and> n \<le> 10 then Inr (Review_Score n) else Inl ''Score must be between 1 and 10'')"

lemma try_from_u8_inverse: "try_from_u8 n = Inr s \<longleftrightarrow> as_u8_score s = n \<and> 1 \<le> n \<and> n \<le> 10"
  by (cases s) (auto simp: try_from_u8_def)

datatype review_verdict = Approve | RequestChanges | Reject

datatype review_status = ReviewPending | ReviewInProgress | ReviewCompleted

datatype comment_severity = Blocking | Suggestion | Nitpick

record inline_comment =
  ic_file :: string
  ic_line :: nat
  ic_content :: string
  ic_severity :: comment_severity

record review_finding =
  rf_description :: string
  rf_location :: "inline_comment option"
  rf_suggestion :: "string option"
  rf_severity :: comment_severity

record consolidated_feedback =
  cf_blocking :: "review_finding list"
  cf_suggestions :: "review_finding list"
  cf_nitpicks :: "review_finding list"
  cf_dissent :: "string list"

record review_policy =
  pol_min_average_score :: nat
  pol_min_individual_score :: nat
  pol_blocking_score :: nat
  pol_min_approvals :: nat
  pol_require_blocking_feedback_resolution :: bool
  pol_max_review_rounds :: nat

definition default_review_policy :: review_policy where
  "default_review_policy =
     \<lparr>pol_min_average_score = 7, pol_min_individual_score = 6, pol_blocking_score = 5,
      pol_min_approvals = 2, pol_require_blocking_feedback_resolution = True, pol_max_review_rounds = 3\<rparr>"

subsection \<open>The collector\<close>

datatype threshold_result = ThApproved | ThChangesRequested | ThRejected | NeedMoreReviewers

type_synonym reviewer_id = string
type_synonym score_collector = "(reviewer_id, review_score \<times> review_verdict) hmap"
type_synonym score_order = "(reviewer_id \<times> review_score \<times> review_verdict) hash_order"

definition collector_add :: "reviewer_id \<Rightarrow> review_score \<Rightarrow> review_verdict \<Rightarrow> score_collector \<Rightarrow> score_collector" where
  "collector_add r s v c = hm_insert r (s, v) c"

definition score_values :: "score_order \<Rightarrow> score_collector \<Rightarrow> nat list" where
  "score_values h c = map (as_u8_score \<circ> fst) (hm_values h c)"

definition average_score :: "score_order \<Rightarrow> score_collector \<Rightarrow> rat option" where
  "average_score h c =
     (if c = [] then None else Some (of_nat (sum_list (score_values h c)) / of_nat (length c)))"

text \<open>The two extremes go through \<open>try_from\<close> and \<open>unwrap\<close>: \<open>Inl\<close> is the panic of a score outside 1 to 10.\<close>

definition min_score :: "score_order \<Rightarrow> score_collector \<Rightarrow> (string, review_score option) result" where
  "min_score h c =
     (if c = [] then Inr None
      else map_sum id Some (try_from_u8 (fold min (tl (score_values h c)) (hd (score_values h c)))))"

definition max_score :: "score_order \<Rightarrow> score_collector \<Rightarrow> (string, review_score option) result" where
  "max_score h c =
     (if c = [] then Inr None
      else map_sum id Some (try_from_u8 (fold max (tl (score_values h c)) (hd (score_values h c)))))"

definition approval_count :: "score_order \<Rightarrow> score_collector \<Rightarrow> nat" where
  "approval_count h c = length (filter (\<lambda>(_, v). v = Approve) (hm_values h c))"

definition has_rejection :: "score_order \<Rightarrow> score_collector \<Rightarrow> bool" where
  "has_rejection h c = list_ex (\<lambda>(_, v). v = Reject) (hm_values h c)"

definition has_blocking_findings :: "score_order \<Rightarrow> score_collector \<Rightarrow> bool" where
  "has_blocking_findings h c = list_ex (\<lambda>(s, _). as_u8_score s \<le> 5) (hm_values h c)"

subsection \<open>Evaluation\<close>

fun first_rejection :: "(review_score \<times> review_verdict) list \<Rightarrow> bool" where
  "first_rejection [] = False"
| "first_rejection ((s, v) # rest) = (if as_u8_score s \<le> 3 \<or> v = Reject then True else first_rejection rest)"

fun first_change :: "nat \<Rightarrow> (review_score \<times> review_verdict) list \<Rightarrow> bool" where
  "first_change blocking [] = False"
| "first_change blocking ((s, v) # rest) =
     (if as_u8_score s \<le> blocking then True
      else if v = RequestChanges then True
      else first_change blocking rest)"

definition evaluate :: "score_order \<Rightarrow> review_policy \<Rightarrow> score_collector \<Rightarrow> (string, threshold_result) result" where
  \<comment> \<open>\<open>Inl\<close> is the panic of \<open>min_score\<close>\<close>
  "evaluate h pol c =
     (let scores = hm_values h c in
      if scores = [] then Inr NeedMoreReviewers
      else if first_rejection scores then Inr ThRejected
      else if first_change (pol_blocking_score pol) scores then Inr ThChangesRequested
      else if as_u8 (approval_count h c) < pol_min_approvals pol then Inr NeedMoreReviewers
      else (case min_score h c of
          Inl msg \<Rightarrow> Inl msg
        | Inr lowest \<Rightarrow>
            if (case lowest of None \<Rightarrow> False | Some m \<Rightarrow> as_u8_score m < pol_min_individual_score pol)
            then Inr ThChangesRequested
            else if (case average_score h c of None \<Rightarrow> False | Some a \<Rightarrow> a < of_nat (pol_min_average_score pol))
            then Inr ThChangesRequested
            else Inr ThApproved))"

definition evaluate_with_reviewer_count ::
    "score_order \<Rightarrow> review_policy \<Rightarrow> score_collector \<Rightarrow> nat \<Rightarrow> (string, threshold_result) result" where
  "evaluate_with_reviewer_count h pol c n =
     (if length c < n then Inr NeedMoreReviewers
      else map_sum id (\<lambda>result. if result = ThApproved \<and> approval_count h c < n then NeedMoreReviewers else result)
             (evaluate h pol c))"

subsection \<open>The evaluation is the documented table\<close>

lemma first_rejection_iff: "first_rejection xs \<longleftrightarrow> (\<exists>(s, v) \<in> set xs. as_u8_score s \<le> 3 \<or> v = Reject)"
  by (induction xs rule: first_rejection.induct) auto

lemma first_change_iff: "first_change b xs \<longleftrightarrow> (\<exists>(s, v) \<in> set xs. as_u8_score s \<le> b \<or> v = RequestChanges)"
  by (induction b xs rule: first_change.induct) auto

lemma values_set: "set (hm_values h c) = snd ` set c"
  by (simp add: hm_values_def)

lemma values_empty [simp]: "hm_values h c = [] \<longleftrightarrow> c = []"
  by (simp add: hm_values_def)

lemma length_score_values [simp]: "length (score_values h c) = length c"
  by (simp add: score_values_def)

lemma sum_score_values: "sum_list (score_values h c) = sum_list (map (as_u8_score \<circ> fst \<circ> snd) c)"
proof -
  have "mset (score_values h c) = mset (map (as_u8_score \<circ> fst \<circ> snd) c)"
    unfolding score_values_def mset_map mset_hm_values by (simp add: multiset.map_comp)
  then show ?thesis by (metis sum_mset_sum_list)
qed

lemma fold_min_le_iff: "fold min xs x < m \<longleftrightarrow> (\<exists>y \<in> set (x # xs). y < m)" for m :: nat
  by (induction xs arbitrary: x) (auto simp: min_less_iff_disj)

definition lowest_score :: "score_order \<Rightarrow> score_collector \<Rightarrow> nat" where
  "lowest_score h c = fold min (tl (score_values h c)) (hd (score_values h c))"

lemma lowest_score_less:
  "c \<noteq> [] \<Longrightarrow> lowest_score h c < k \<longleftrightarrow> (\<exists>x \<in> snd ` set c. as_u8_score (fst x) < k)"
proof -
  assume "c \<noteq> []"
  then have ne: "score_values h c \<noteq> []" by (metis length_0_conv length_score_values)
  have "lowest_score h c < k \<longleftrightarrow> (\<exists>y \<in> set (score_values h c). y < k)"
    unfolding lowest_score_def fold_min_le_iff list.collapse [OF ne] ..
  then show ?thesis by (simp add: score_values_def values_set)
qed

lemma min_score_lowest:
  "c \<noteq> [] \<Longrightarrow> min_score h c =
     (if 1 \<le> lowest_score h c \<and> lowest_score h c \<le> 10 then Inr (Some (Review_Score (lowest_score h c)))
      else Inl ''Score must be between 1 and 10'')"
  by (simp add: min_score_def try_from_u8_def lowest_score_def)

text \<open>The documented rules, as one predicate on the scores.\<close>

definition meets_thresholds :: "review_policy \<Rightarrow> (review_score \<times> review_verdict) list \<Rightarrow> bool" where
  "meets_thresholds pol scores \<longleftrightarrow>
     scores \<noteq> [] \<and> list_all (\<lambda>(s, v). 3 < as_u8_score s \<and> v = Approve) scores \<and>
     list_all (\<lambda>(s, v). pol_blocking_score pol < as_u8_score s \<and> pol_min_individual_score pol \<le> as_u8_score s) scores \<and>
     pol_min_approvals pol \<le> length scores \<and>
     pol_min_average_score pol * length scores \<le> sum_list (map (as_u8_score \<circ> fst) scores)"

lemma average_less:
  "c \<noteq> [] \<Longrightarrow> (case average_score h c of None \<Rightarrow> False | Some a \<Rightarrow> a < of_nat m) \<longleftrightarrow>
     sum_list (map (as_u8_score \<circ> fst \<circ> snd) c) < m * length c"
  unfolding average_score_def sum_score_values
  by (simp add: divide_less_eq) (metis of_nat_less_iff of_nat_mult)

lemma all_approve:
  "\<not> first_rejection xs \<Longrightarrow> \<not> first_change b xs \<Longrightarrow> (s, v) \<in> set xs \<Longrightarrow> v = Approve"
  by (cases v) (force simp: first_rejection_iff first_change_iff)+

lemma approvals_all:
  assumes "\<not> first_rejection (hm_values h c)" and "\<not> first_change b (hm_values h c)"
  shows "approval_count h c = length c"
proof -
  have "filter (\<lambda>(_, v). v = Approve) (hm_values h c) = hm_values h c"
    using all_approve [OF assms] by (auto simp: filter_id_conv)
  then show ?thesis by (simp add: approval_count_def)
qed

text \<open>When the evaluation panics: it reaches the individual minimum, and no score is in range.\<close>

definition scores_panic :: "review_policy \<Rightarrow> (review_score \<times> review_verdict) list \<Rightarrow> bool" where
  "scores_panic pol scores \<longleftrightarrow>
     scores \<noteq> [] \<and> list_all (\<lambda>(s, v). 10 < as_u8_score s \<and> pol_blocking_score pol < as_u8_score s \<and> v = Approve) scores \<and>
     pol_min_approvals pol \<le> length scores"

lemma evaluate_exact:
  assumes "length c \<le> u8_max"
  shows "(evaluate h pol c = Inr ThApproved \<longleftrightarrow> meets_thresholds pol (map snd c) \<and> \<not> scores_panic pol (map snd c)) \<and>
    ((\<exists>msg. evaluate h pol c = Inl msg) \<longleftrightarrow> scores_panic pol (map snd c))"
proof (cases "c = [] \<or> first_rejection (hm_values h c) \<or> first_change (pol_blocking_score pol) (hm_values h c)")
  case True
  then have "\<not> meets_thresholds pol (map snd c)" "\<not> scores_panic pol (map snd c)"
    unfolding first_rejection_iff first_change_iff values_set meets_thresholds_def scores_panic_def list_all_iff by fastforce+
  with True show ?thesis by (auto simp: evaluate_def Let_def)
next
  case False
  have pass: "list_all (\<lambda>(s, v). 3 < as_u8_score s \<and> v = Approve) (map snd c)"
    "list_all (\<lambda>(s, v). pol_blocking_score pol < as_u8_score s) (map snd c)"
    using False all_approve [of "hm_values h c" "pol_blocking_score pol"]
    unfolding first_rejection_iff first_change_iff values_set list_all_iff by fastforce+
  let ?low = "lowest_score h c" and ?sum = "sum_list (map (as_u8_score \<circ> fst \<circ> snd) c)"
  have low: "?low < k \<longleftrightarrow> \<not> list_all (\<lambda>(s, v). k \<le> as_u8_score s) (map snd c)" for k
    using lowest_score_less [of c h k] False unfolding list_all_iff by (auto simp: not_le case_prod_beta)
  have "\<not> ?low < 1" unfolding low using pass(1) by (auto simp: list_all_iff)
  moreover have "as_u8 (approval_count h c) = length c"
    using approvals_all [of h c "pol_blocking_score pol"] False assms by simp
  ultimately have eval: "evaluate h pol c =
      (if length c < pol_min_approvals pol then Inr NeedMoreReviewers
       else if \<not> ?low < 11 then Inl ''Score must be between 1 and 10''
       else if ?low < pol_min_individual_score pol \<or> ?sum < pol_min_average_score pol * length c then Inr ThChangesRequested
       else Inr ThApproved)"
    using False average_less [of c "pol_min_average_score pol" h] by (simp add: evaluate_def Let_def min_score_lowest)
  have panic: "scores_panic pol (map snd c) \<longleftrightarrow> \<not> ?low < 11 \<and> pol_min_approvals pol \<le> length c"
    unfolding low scores_panic_def using False pass by (auto simp: list_all_iff)
  have meets: "meets_thresholds pol (map snd c) \<longleftrightarrow>
      \<not> ?low < pol_min_individual_score pol \<and> pol_min_approvals pol \<le> length c \<and> pol_min_average_score pol * length c \<le> ?sum"
    unfolding low meets_thresholds_def using False pass by (auto simp: list_all_iff)
  show ?thesis unfolding eval panic meets by auto
qed

lemma evaluate_in_range:
  assumes "\<forall>(s, v) \<in> snd ` set c. as_u8_score s \<le> 10"
  shows "\<exists>t. evaluate h pol c = Inr t"
proof (cases "c = [] \<or> first_rejection (hm_values h c)")
  case True
  then show ?thesis by (auto simp: evaluate_def Let_def)
next
  case False
  then have "\<not> lowest_score h c < 1" "lowest_score h c < 11"
    using lowest_score_less [of c h 1] lowest_score_less [of c h 11] assms
    by (fastforce simp: first_rejection_iff values_set dest: hd_in_set)+
  with False show ?thesis by (auto simp: evaluate_def Let_def min_score_lowest)
qed

text \<open>C30: With at most 255 submissions the evaluation approves exactly when every reviewer approves,
  no score is 3 or less, at or below the blocking score or below the individual minimum, there
  are enough approvals, and the average reaches the configured minimum, and some score is in the range up to 10;
  and it panics exactly when there are enough approvals, no other verdicts, and every score is above 10 and above the
  blocking score. The order in which the hash map yields the scores plays no role.\<close>

theorem approved_iff_thresholds_met:
  assumes "length c \<le> u8_max"
  shows "(evaluate h pol c = Inr ThApproved \<longleftrightarrow> meets_thresholds pol (map snd c) \<and> \<not> scores_panic pol (map snd c)) \<and>
    ((\<exists>msg. evaluate h pol c = Inl msg) \<longleftrightarrow> scores_panic pol (map snd c))"
  by (rule evaluate_exact [OF assms])

definition demo_scores :: score_collector where
  "demo_scores = [(''r1'', Review_Score 8, Approve), (''r2'', Review_Score 7, Approve)]"

theorem approved_iff_thresholds_met_witness: "evaluate reversed_order default_review_policy demo_scores = Inr ThApproved"
  by (subst conjunct1 [OF approved_iff_thresholds_met])
    (simp_all add: demo_scores_def u8_max_def meets_thresholds_def scores_panic_def default_review_policy_def)

text \<open>A rejection wins over every other outcome: one reject verdict or one score of 3 or less
  makes the result \<open>Rejected\<close> whatever the other reviewers say and in whatever order the scores
  are read; without one, a score at or below the blocking score or a request for changes gives
  \<open>ChangesRequested\<close>.\<close>

theorem rejection_wins:
  "(evaluate h pol c = Inr ThRejected \<longleftrightarrow> (\<exists>(s, v) \<in> snd ` set c. as_u8_score s \<le> 3 \<or> v = Reject)) \<and>
   ((\<exists>(s, v) \<in> snd ` set c. as_u8_score s \<le> pol_blocking_score pol \<or> v = RequestChanges) \<longrightarrow>
     evaluate h pol c \<in> {Inr ThRejected, Inr ThChangesRequested})"
proof -
  have "first_rejection (hm_values h c) \<longleftrightarrow> (\<exists>(s, v) \<in> snd ` set c. as_u8_score s \<le> 3 \<or> v = Reject)"
    "first_change b (hm_values h c) \<longleftrightarrow> (\<exists>(s, v) \<in> snd ` set c. as_u8_score s \<le> b \<or> v = RequestChanges)" for b
    by (simp_all only: first_rejection_iff first_change_iff values_set)
  moreover have "first_rejection (hm_values h c) \<Longrightarrow> c \<noteq> []" "first_change b (hm_values h c) \<Longrightarrow> c \<noteq> []" for b
    by (auto simp: hm_values_def)
  ultimately show ?thesis
    unfolding evaluate_def Let_def by (simp del: first_rejection.simps split: sum.split)
qed

theorem rejection_wins_witness:
  "evaluate stored_order default_review_policy
     [(''r1'', Review_Score 10, Approve), (''r2'', Review_Score 9, Reject)] = Inr ThRejected"
  using rejection_wins [of stored_order default_review_policy
      "[(''r1'', Review_Score 10, Approve), (''r2'', Review_Score 9, Reject)]"] by auto

text \<open>The number of approvals is cut to eight bits before it is compared with the required
  minimum: a panel of 256 approvals counts as none and the review waits for more reviewers.\<close>

theorem approvals_truncated:
  assumes "length c = 256" and "0 < pol_min_approvals pol"
    and "\<forall>(s, v) \<in> snd ` set c. 3 < as_u8_score s \<and> pol_blocking_score pol < as_u8_score s \<and> v = Approve"
  shows "evaluate h pol c = Inr NeedMoreReviewers"
proof -
  have pass: "\<not> first_rejection (hm_values h c)" "\<not> first_change (pol_blocking_score pol) (hm_values h c)"
    using assms(3) by (fastforce simp: first_rejection_iff first_change_iff values_set)+
  moreover from approvals_all [OF pass] assms(1) have "as_u8 (approval_count h c) = 0"
    by (simp add: as_u8_def)
  ultimately show ?thesis using assms(1,2) by (auto simp: evaluate_def Let_def)
qed

theorem approvals_truncated_witness:
  "evaluate stored_order default_review_policy
     (map (\<lambda>i. (show_nat i, Review_Score 10, Approve)) [0..<256]) = Inr NeedMoreReviewers"
  by (rule approvals_truncated) (auto simp: default_review_policy_def)

lemma evaluate_with_count_approved:
  "evaluate_with_reviewer_count h pol c n = Inr ThApproved \<longleftrightarrow>
     evaluate h pol c = Inr ThApproved \<and> n \<le> length c \<and> n \<le> approval_count h c"
  by (cases "evaluate h pol c") (auto simp: evaluate_with_reviewer_count_def not_less split: if_splits)

end
