(* ===== verification/Consolidation.thy ===== *)
theory Consolidation
  imports Review_Scoring
begin

text \<open>
  \<open>crates/brehon-review/src/consolidation.rs\<close>: merging the findings of several reviewers. Word
  similarity is the exact ratio; the source compares the \<open>f64\<close> quotient with the threshold, and
  for the default 0.7 both decide alike for any realistic number of words.
\<close>

record reviewer_submission =
  sub_reviewer_id :: reviewer_id
  sub_session_id :: session_id
  sub_score :: review_score
  sub_verdict :: review_verdict
  sub_findings :: "review_finding list"

definition default_similarity_threshold :: rat where
  "default_similarity_threshold = 7 / 10"

definition get_grouping_key :: "review_finding \<Rightarrow> string" where
  "get_grouping_key f =
     (case rf_location f of
        Some l \<Rightarrow> ic_file l @ '':'' @ show_nat (ic_line l)
      | None \<Rightarrow> to_lowercase (join_with '' '' (take 5 (split_whitespace (rf_description f)))))"

definition text_similarity :: "string \<Rightarrow> string \<Rightarrow> rat" where
  "text_similarity a b =
     (let words_a = set (split_whitespace (to_lowercase a));
          words_b = set (split_whitespace (to_lowercase b))
      in if words_a = {} \<or> words_b = {} then 0
         else if card (words_a \<union> words_b) = 0 then 0
         else of_nat (card (words_a \<inter> words_b)) / of_nat (card (words_a \<union> words_b)))"

definition is_similar :: "rat \<Rightarrow> review_finding \<Rightarrow> review_finding \<Rightarrow> bool" where
  "is_similar threshold a b =
     (let similarity = text_similarity (rf_description a) (rf_description b)
      in case (rf_location a, rf_location b) of
           (Some la, Some lb) \<Rightarrow>
             if ic_file la = ic_file lb \<and> \<bar>int (ic_line la) - int (ic_line lb)\<bar> \<le> 3
             then threshold \<le> similarity else threshold \<le> similarity
         | _ \<Rightarrow> threshold \<le> similarity)"

type_synonym finding_groups = "(string, review_finding list) hmap"

definition add_finding_to_group ::
    "rat \<Rightarrow> review_finding \<Rightarrow> finding_groups \<times> review_finding list \<Rightarrow> finding_groups \<times> review_finding list" where
  "add_finding_to_group threshold f state =
     (case state of (seen, out) \<Rightarrow>
        let key = get_grouping_key f in
        case hm_get seen key of
          Some existing \<Rightarrow>
            if list_ex (is_similar threshold f) existing then (seen, out)
            else (hm_modify key (\<lambda>fs. fs @ [f]) seen, out @ [f])
        | None \<Rightarrow> (hm_insert key [f] seen, out @ [f]))"

definition all_findings :: "reviewer_submission list \<Rightarrow> review_finding list" where
  "all_findings subs = concat (map sub_findings subs)"

definition of_severity :: "comment_severity \<Rightarrow> reviewer_submission list \<Rightarrow> review_finding list" where
  "of_severity sev subs = filter (\<lambda>f. rf_severity f = sev) (all_findings subs)"

definition verdicts_by_file :: "reviewer_submission list \<Rightarrow> (string, (string \<times> review_verdict) list) hmap" where
  "verdicts_by_file subs =
     fold (\<lambda>s m. fold (\<lambda>f m. case rf_location f of
                               None \<Rightarrow> m
                             | Some l \<Rightarrow> hm_modify (ic_file l) (\<lambda>vs. vs @ [(rf_description f, sub_verdict s)])
                                           (hm_or_insert (ic_file l) [] m))
                    (sub_findings s) m) subs []"

definition file_dissent :: "string \<times> (string \<times> review_verdict) list \<Rightarrow> string option" where
  "file_dissent entry =
     (case entry of (file, verdicts) \<Rightarrow>
        if list_ex (\<lambda>(_, v). v = Approve) verdicts \<and>
           (list_ex (\<lambda>(_, v). v = Reject) verdicts \<or> list_ex (\<lambda>(_, v). v = RequestChanges) verdicts)
        then Some (''Dissent on '' @ file @ '': reviewers disagree - '' @ [CHR 0x27] @
                   join_with ([CHR 0x27] @ '', '' @ [CHR 0x27]) (map fst verdicts) @ [CHR 0x27])
        else None)"

definition conflict_message :: string where
  "conflict_message = ''Reviewers have conflicting verdicts (some approve, some reject)''"

definition detect_dissent ::
    "(string \<times> (string \<times> review_verdict) list) hash_order \<Rightarrow> reviewer_submission list \<Rightarrow> string list" where
  "detect_dissent h subs =
     List.map_filter file_dissent (iterate h (verdicts_by_file subs)) @
     (if Approve \<in> set (map sub_verdict subs) \<and> Reject \<in> set (map sub_verdict subs) then [conflict_message] else [])"

definition consolidate ::
    "rat \<Rightarrow> (string \<times> (string \<times> review_verdict) list) hash_order \<Rightarrow> reviewer_submission list \<Rightarrow> consolidated_feedback" where
  "consolidate threshold h subs =
     \<lparr>cf_blocking = snd (fold (add_finding_to_group threshold) (of_severity Blocking subs) ([], [])),
      cf_suggestions = snd (fold (add_finding_to_group threshold) (of_severity Suggestion subs) ([], [])),
      cf_nitpicks = of_severity Nitpick subs,
      cf_dissent = detect_dissent h subs\<rparr>"

subsection \<open>Nothing is lost\<close>

definition represented :: "rat \<Rightarrow> review_finding list \<Rightarrow> review_finding \<Rightarrow> bool" where
  "represented threshold out f \<longleftrightarrow>
     f \<in> set out \<or> (\<exists>g \<in> set out. get_grouping_key g = get_grouping_key f \<and> is_similar threshold f g)"

definition groups_ok :: "finding_groups \<Rightarrow> review_finding list \<Rightarrow> bool" where
  "groups_ok seen out \<longleftrightarrow>
     (\<forall>k fs. hm_get seen k = Some fs \<longrightarrow> (\<forall>g \<in> set fs. g \<in> set out \<and> get_grouping_key g = k))"

lemma add_finding_step:
  assumes "groups_ok seen out" and "add_finding_to_group th f (seen, out) = (seen', out')"
  shows "groups_ok seen' out' \<and> set out \<subseteq> set out' \<and> set out' \<subseteq> insert f (set out) \<and>
    represented th out' f"
proof (cases "hm_get seen (get_grouping_key f)")
  case None
  with assms show ?thesis
    by (auto simp: add_finding_to_group_def groups_ok_def represented_def Let_def split: if_splits)
next
  case (Some existing)
  show ?thesis
  proof (cases "list_ex (is_similar th f) existing")
    case True
    with Some assms show ?thesis
      by (auto simp: add_finding_to_group_def represented_def groups_ok_def Let_def list_ex_iff)
  next
    case False
    with Some assms show ?thesis
      by (auto simp: add_finding_to_group_def groups_ok_def represented_def Let_def split: if_splits)
  qed
qed

lemma represented_mono: "represented th out f \<Longrightarrow> set out \<subseteq> set out' \<Longrightarrow> represented th out' f"
  by (auto simp: represented_def)

lemma add_findings_fold:
  assumes "groups_ok seen out"
  shows "set out \<subseteq> set (snd (fold (add_finding_to_group th) fs (seen, out))) \<and>
    set (snd (fold (add_finding_to_group th) fs (seen, out))) \<subseteq> set out \<union> set fs \<and>
    (\<forall>f \<in> set fs. represented th (snd (fold (add_finding_to_group th) fs (seen, out))) f)"
  using assms
proof (induction fs arbitrary: seen out)
  case (Cons f fs)
  obtain seen' out' where step: "add_finding_to_group th f (seen, out) = (seen', out')" by fastforce
  note one = add_finding_step [OF Cons.prems step]
  then have ih: "set out' \<subseteq> set (snd (fold (add_finding_to_group th) fs (seen', out'))) \<and>
      set (snd (fold (add_finding_to_group th) fs (seen', out'))) \<subseteq> set out' \<union> set fs \<and>
      (\<forall>g \<in> set fs. represented th (snd (fold (add_finding_to_group th) fs (seen', out'))) g)"
    by (intro Cons.IH) simp
  with one represented_mono [of th out' f] show ?case by (auto simp: step)
qed simp

lemma groups_ok_empty: "groups_ok [] []"
  by (simp add: groups_ok_def)

text \<open>Consolidation loses no finding and invents none: every blocking finding and every
  suggestion of any reviewer is kept or stands behind a kept one with the same grouping key that
  is similar enough, every kept finding was submitted with that severity, all nitpicks are kept
  in order, and a panel with both an approval and a rejection is always reported as conflicting.\<close>

theorem consolidate_keeps_findings:
  "(\<forall>f \<in> set (of_severity Blocking subs). represented th (cf_blocking (consolidate th h subs)) f) \<and>
   (\<forall>f \<in> set (of_severity Suggestion subs). represented th (cf_suggestions (consolidate th h subs)) f) \<and>
   set (cf_blocking (consolidate th h subs)) \<subseteq> set (of_severity Blocking subs) \<and>
   set (cf_suggestions (consolidate th h subs)) \<subseteq> set (of_severity Suggestion subs) \<and>
   cf_nitpicks (consolidate th h subs) = of_severity Nitpick subs \<and>
   (Approve \<in> sub_verdict ` set subs \<and> Reject \<in> sub_verdict ` set subs \<longrightarrow>
     conflict_message \<in> set (cf_dissent (consolidate th h subs)))"
  using add_findings_fold [OF groups_ok_empty, of th "of_severity Blocking subs"]
    add_findings_fold [OF groups_ok_empty, of th "of_severity Suggestion subs"]
  by (simp add: consolidate_def detect_dissent_def)

definition demo_submissions :: "reviewer_submission list" where
  "demo_submissions =
     [\<lparr>sub_reviewer_id = ''r1'', sub_session_id = ''s1'', sub_score = Review_Score 8, sub_verdict = Approve,
       sub_findings = [\<lparr>rf_description = ''missing bounds check'', rf_location = None, rf_suggestion = None, rf_severity = Blocking\<rparr>]\<rparr>,
      \<lparr>sub_reviewer_id = ''r2'', sub_session_id = ''s2'', sub_score = Review_Score 2, sub_verdict = Reject,
       sub_findings = [\<lparr>rf_description = ''Missing bounds check'', rf_location = None, rf_suggestion = None, rf_severity = Blocking\<rparr>]\<rparr>]"

theorem consolidate_keeps_findings_witness:
  "conflict_message \<in> set (cf_dissent (consolidate (7 / 10) stored_order demo_submissions)) \<and>
   represented (7 / 10) (cf_blocking (consolidate (7 / 10) stored_order demo_submissions))
     \<lparr>rf_description = ''Missing bounds check'', rf_location = None, rf_suggestion = None, rf_severity = Blocking\<rparr>"
  using consolidate_keeps_findings [of demo_submissions "7 / 10" stored_order]
  by (simp add: demo_submissions_def of_severity_def all_findings_def)

end
