(* ===== verification/Runs.thy ===== *)
theory Runs
  imports Task_Types "HOL-Library.Word"
begin

text \<open>
  \<open>crates/brehon-types/src/run.rs\<close>: the durable run record, its roles, the claim generation
  fence and the time predicates on leases and retries. Run identifiers and claim owners are
  the strings they wrap; the claim generation is a 64-bit word, the counters \<open>attempt\<close> and
  \<open>continuation_turns\<close> are 32-bit words.
\<close>

subsection \<open>Saturating operations\<close>

definition saturating_add :: "'a::len word \<Rightarrow> 'a word \<Rightarrow> 'a word" where
  "saturating_add a b = (if unat a + unat b < 2 ^ LENGTH('a) then a + b else - 1)"

definition saturating_sub :: "'a::len word \<Rightarrow> 'a word \<Rightarrow> 'a word" where
  "saturating_sub a b = (if b \<le> a then a - b else 0)"

definition saturating_mul :: "'a::len word \<Rightarrow> 'a word \<Rightarrow> 'a word" where
  "saturating_mul a b = (if unat a * unat b < 2 ^ LENGTH('a) then a * b else - 1)"

lemma unat_minus_one_max: "unat (- 1 :: 'a::len word) = 2 ^ LENGTH('a) - 1"
  by (simp add: unsigned_minus_1_eq_mask mask_eq_exp_minus_1)

lemma unat_saturating_add: "unat (saturating_add a b) = min (2 ^ LENGTH('a) - 1) (unat a + unat b)"
  for a b :: "'a::len word"
  by (auto simp: saturating_add_def unat_minus_one_max unat_word_ariths)

lemma unat_saturating_mul: "unat (saturating_mul a b) = min (2 ^ LENGTH('a) - 1) (unat a * unat b)"
  for a b :: "'a::len word"
  by (auto simp: saturating_mul_def unat_minus_one_max unat_word_ariths)

lemma unat_saturating_sub: "unat (saturating_sub a b) = unat a - unat b"
  for a b :: "'a::len word"
  by (auto simp: saturating_sub_def unat_sub word_le_nat_alt)

subsection \<open>Run records\<close>

type_synonym run_id = string
type_synonym claim_owner = string

datatype run_role =
    WorkerRole
  | ReviewerRole
  | SupervisorRole
  | IntegrationRole
  | MaintenanceRole
  | CustomRole string

definition run_role_str :: "run_role \<Rightarrow> string" where
  "run_role_str r =
     (case r of
        WorkerRole \<Rightarrow> ''worker''
      | ReviewerRole \<Rightarrow> ''reviewer''
      | SupervisorRole \<Rightarrow> ''supervisor''
      | IntegrationRole \<Rightarrow> ''integration''
      | MaintenanceRole \<Rightarrow> ''maintenance''
      | CustomRole v \<Rightarrow> v)"

definition run_role_from_str :: "string \<Rightarrow> (string, run_role) result" where
  "run_role_from_str v =
     (let s = trim v in
      if s = [] then Inl ''run role cannot be empty''
      else if s = ''worker'' \<or> s = ''Worker'' then Inr WorkerRole
      else if s = ''reviewer'' \<or> s = ''Reviewer'' then Inr ReviewerRole
      else if s = ''supervisor'' \<or> s = ''Supervisor'' then Inr SupervisorRole
      else if s = ''integration'' \<or> s = ''Integration'' then Inr IntegrationRole
      else if s = ''maintenance'' \<or> s = ''Maintenance'' then Inr MaintenanceRole
      else Inr (CustomRole s))"

definition claim_owner_from_str :: "string \<Rightarrow> (string, claim_owner) result" where
  "claim_owner_from_str v = (let s = trim v in if s = [] then Inl ''claim owner cannot be empty'' else Inr s)"

type_synonym claim_generation = "64 word"

definition next_generation :: "claim_generation \<Rightarrow> claim_generation" where
  "next_generation g = saturating_add g 1"

record run_record =
  rr_run_id :: run_id
  rr_task_id :: task_id
  rr_role :: run_role
  rr_status :: run_status
  rr_claim_generation :: claim_generation
  rr_claim_owner :: "claim_owner option"
  rr_session_id :: "session_id option"
  rr_lease_expires_at :: "time option"
  rr_attempt :: "32 word"
  rr_created_at :: time
  rr_updated_at :: time
  rr_claimed_at :: "time option"
  rr_started_at :: "time option"
  rr_last_activity_at :: "time option"
  rr_released_at :: "time option"
  rr_release_reason :: "string option"
  rr_completed_at :: "time option"
  rr_completion_summary :: "string option"
  rr_failed_at :: "time option"
  rr_failure_reason :: "string option"
  rr_retry_queued_at :: "time option"
  rr_retry_at :: "time option"
  rr_retry_reason :: "string option"
  rr_continuation_turns :: "32 word"
  rr_last_continuation_at :: "time option"
  rr_abandoned_at :: "time option"
  rr_abandoned_reason :: "string option"

definition new_run_record :: "run_id \<Rightarrow> task_id \<Rightarrow> run_role \<Rightarrow> time \<Rightarrow> run_record" where
  "new_run_record r t role now =
     \<lparr>rr_run_id = r, rr_task_id = t, rr_role = role, rr_status = RunCreated, rr_claim_generation = 0,
      rr_claim_owner = None, rr_session_id = None, rr_lease_expires_at = None, rr_attempt = 1,
      rr_created_at = now, rr_updated_at = now, rr_claimed_at = None, rr_started_at = None,
      rr_last_activity_at = None, rr_released_at = None, rr_release_reason = None,
      rr_completed_at = None, rr_completion_summary = None, rr_failed_at = None,
      rr_failure_reason = None, rr_retry_queued_at = None, rr_retry_at = None,
      rr_retry_reason = None, rr_continuation_turns = 0, rr_last_continuation_at = None,
      rr_abandoned_at = None, rr_abandoned_reason = None\<rparr>"

definition run_is_active :: "run_record \<Rightarrow> bool" where
  "run_is_active r \<longleftrightarrow> \<not> run_is_terminal (rr_status r)"

definition claim_is_expired_at :: "run_record \<Rightarrow> time \<Rightarrow> bool" where
  "claim_is_expired_at r now = (case rr_lease_expires_at r of None \<Rightarrow> False | Some e \<Rightarrow> e \<le> now)"

definition retry_is_due_at :: "run_record \<Rightarrow> time \<Rightarrow> bool" where
  "retry_is_due_at r now \<longleftrightarrow>
     rr_status r = RunRetryQueued \<and> (case rr_retry_at r of None \<Rightarrow> True | Some t \<Rightarrow> t \<le> now)"

lemma next_generation_le: "g \<le> next_generation g"
  using unsigned_less [where 'a = nat and w = g] by (simp add: next_generation_def word_le_nat_alt unat_saturating_add)

lemma next_generation_grows: "g \<noteq> - 1 \<Longrightarrow> g < next_generation g"
proof -
  assume "g \<noteq> - 1"
  then have "unat g \<noteq> unat (- 1 :: 64 word)" using word_unat_eq_iff by blast
  then have "unat g \<noteq> 2 ^ 64 - 1" by (simp add: unat_minus_one_max)
  then show ?thesis using unsigned_less [where 'a = nat and w = g]
    by (simp add: next_generation_def word_less_nat_alt unat_saturating_add)
qed

lemma expiry_mono: "claim_is_expired_at r now \<Longrightarrow> now \<le> later \<Longrightarrow> claim_is_expired_at r later"
  by (auto simp: claim_is_expired_at_def split: option.splits)

lemma retry_due_mono: "retry_is_due_at r now \<Longrightarrow> now \<le> later \<Longrightarrow> retry_is_due_at r later"
  by (auto simp: retry_is_due_at_def split: option.splits)

end
