(* ===== verification/Feedback_Types.thy ===== *)
theory Feedback_Types
  imports Runs
begin

text \<open>
  \<open>crates/brehon-types/src/feedback.rs\<close>: the kinds of feedback triggers, outcomes and rejections,
  the trigger, and the parts of \<open>proof.rs\<close> that events carry to the trigger detector. Names that
  are used twice in the source carry a suffix. Free-form payloads are JSON values.
\<close>

subsection \<open>Payloads\<close>

datatype json =
    JNull
  | JNum nat
  | JStr string
  | JArr "json list"
  | JObj "(string \<times> json) list"

fun json_get :: "string \<Rightarrow> json \<Rightarrow> json option" where
  "json_get k (JObj kvs) = map_of kvs k"
| "json_get k _ = None"

fun json_str :: "json \<Rightarrow> string option" where
  "json_str (JStr s) = Some s"
| "json_str _ = None"

definition json_opt :: "string option \<Rightarrow> json" where
  "json_opt s = (case s of None \<Rightarrow> JNull | Some x \<Rightarrow> JStr x)"

subsection \<open>Triggers\<close>

datatype feedback_trigger_kind =
    ReviewerFollowupTrigger
  | ReviewChangesTrigger
  | WorkerFailedTrigger
  | WorkerStuckTrigger
  | WorkerBlockedTrigger
  | PermissionBlockedTrigger
  | IntegrationConflictTrigger
  | CloseGateBlockedTrigger
  | StaleClaimTrigger

fun trigger_kind_str :: "feedback_trigger_kind \<Rightarrow> string" where
  "trigger_kind_str ReviewerFollowupTrigger = ''reviewer_followup''"
| "trigger_kind_str ReviewChangesTrigger = ''review_changes_requested''"
| "trigger_kind_str WorkerFailedTrigger = ''worker_failed''"
| "trigger_kind_str WorkerStuckTrigger = ''worker_stuck''"
| "trigger_kind_str WorkerBlockedTrigger = ''worker_blocked''"
| "trigger_kind_str PermissionBlockedTrigger = ''permission_blocked''"
| "trigger_kind_str IntegrationConflictTrigger = ''integration_conflict''"
| "trigger_kind_str CloseGateBlockedTrigger = ''close_gate_blocked''"
| "trigger_kind_str StaleClaimTrigger = ''stale_claim''"

record feedback_trigger =
  ft_trigger_id :: string
  ft_kind :: feedback_trigger_kind
  ft_task_id :: "task_id option"
  ft_run_id :: "run_id option"
  ft_review_id :: "review_id option"
  ft_source_event_ids :: "event_id list"
  ft_covered_event_range :: "(event_id \<times> event_id) option"
  ft_summary :: string
  ft_payload :: json
  ft_created_at :: time

definition followup_scope :: "json \<Rightarrow> string option" where
  \<comment> \<open>the trimmed, non-empty \<open>followup_id\<close> of a payload\<close>
  "followup_scope payload =
     (case json_get ''followup_id'' payload of
        None \<Rightarrow> None
      | Some v \<Rightarrow>
          (case json_str v of
             None \<Rightarrow> None
           | Some s \<Rightarrow> if trim s = [] then None else Some (trim s)))"

definition dedup_payload_scope :: "feedback_trigger \<Rightarrow> string option" where
  "dedup_payload_scope t =
     (if ft_kind t = ReviewerFollowupTrigger
      then map_option (\<lambda>v. ''followup:'' @ v) (followup_scope (ft_payload t)) else None)"

definition or_dash :: "string option \<Rightarrow> string" where
  "or_dash x = (case x of None \<Rightarrow> ''-'' | Some v \<Rightarrow> v)"

definition dedup_key :: "feedback_trigger \<Rightarrow> string" where
  "dedup_key t =
     trigger_kind_str (ft_kind t) @ ''|'' @ or_dash (ft_task_id t) @ ''|'' @ or_dash (ft_run_id t) @ ''|'' @
     or_dash (ft_review_id t) @ ''|'' @ or_dash (dedup_payload_scope t)"

subsection \<open>Outcomes\<close>

datatype feedback_outcome_kind =
    NoActionOutcome
  | NudgeWorkerOutcome
  | RequestReworkOutcome
  | RetryRunOutcome
  | PromoteFollowupOutcome
  | WaiveFollowupOutcome
  | ClarificationOutcome
  | ConflictResolutionOutcome
  | IntegrationRepairOutcome
  | EnterDrainOutcome
  | EnterSafeModeOutcome
  | EscalateOutcome

fun outcome_kind_str :: "feedback_outcome_kind \<Rightarrow> string" where
  "outcome_kind_str NoActionOutcome = ''no_action''"
| "outcome_kind_str NudgeWorkerOutcome = ''nudge_worker''"
| "outcome_kind_str RequestReworkOutcome = ''request_rework''"
| "outcome_kind_str RetryRunOutcome = ''retry_run''"
| "outcome_kind_str PromoteFollowupOutcome = ''promote_reviewer_followup''"
| "outcome_kind_str WaiveFollowupOutcome = ''waive_reviewer_followup''"
| "outcome_kind_str ClarificationOutcome = ''request_operator_clarification''"
| "outcome_kind_str ConflictResolutionOutcome = ''queue_conflict_resolution''"
| "outcome_kind_str IntegrationRepairOutcome = ''request_integration_repair''"
| "outcome_kind_str EnterDrainOutcome = ''enter_drain''"
| "outcome_kind_str EnterSafeModeOutcome = ''enter_safe_mode''"
| "outcome_kind_str EscalateOutcome = ''escalate''"

fun outcome_is_mutating :: "feedback_outcome_kind \<Rightarrow> bool" where
  "outcome_is_mutating RequestReworkOutcome = True"
| "outcome_is_mutating RetryRunOutcome = True"
| "outcome_is_mutating PromoteFollowupOutcome = True"
| "outcome_is_mutating WaiveFollowupOutcome = True"
| "outcome_is_mutating ConflictResolutionOutcome = True"
| "outcome_is_mutating IntegrationRepairOutcome = True"
| "outcome_is_mutating EnterDrainOutcome = True"
| "outcome_is_mutating EnterSafeModeOutcome = True"
| "outcome_is_mutating _ = False"

definition all_outcomes :: "feedback_outcome_kind list" where
  "all_outcomes =
     [NoActionOutcome, NudgeWorkerOutcome, RequestReworkOutcome, RetryRunOutcome, PromoteFollowupOutcome, WaiveFollowupOutcome,
      ClarificationOutcome, ConflictResolutionOutcome, IntegrationRepairOutcome, EnterDrainOutcome, EnterSafeModeOutcome, EscalateOutcome]"

datatype feedback_rejection =
    ContractVersionMismatch
  | TurnIdMismatch
  | TriggerIdMismatch
  | OutcomeKindDenied
  | TriggerKindMismatch
  | MissingRationale
  | MissingRequiredField
  | RationaleTooLong
  | UnknownOutcome

subsection \<open>Proof evidence\<close>

datatype proof_blocker_status = BlockerOpen | BlockerResolved | BlockerWaived

record proof_blocker =
  pb_blocker_id :: "string option"
  pb_summary :: string
  pb_source :: "string option"
  pb_status :: proof_blocker_status
  pb_created_at :: time
  pb_resolved_at :: "time option"
  pb_resolution :: "string option"

record proof_integration =
  pi_status :: string
  pi_branch :: "string option"
  pi_base_branch :: "string option"
  pi_worktree_path :: "string option"
  pi_commit :: "string option"
  pi_summary :: "string option"
  pi_conflicts :: "string list"
  pi_integrated_at :: time

end
