(* ===== verification/Events.thy ===== *)
theory Events
  imports Feedback_Types
begin

text \<open>
  \<open>crates/brehon-types/src/event.rs\<close>: the events of the log. The variants that a modelled
  component reads or writes are constructors with the payload of the source (the durable-run
  variants carry the suffix \<open>Event\<close> where a run status has the same name). The six proof
  variants that no modelled component reads are \<open>ProofEvent\<close> with the name of the variant, the task and
  the review; the feedback variants after \<open>FeedbackTriggerDetected\<close> are \<open>FeedbackEvent\<close> with
  the fields they share and the rest as a stage.
\<close>

record feedback_ref =
  fr_trigger_id :: string
  fr_turn_id :: string
  fr_task_id :: "task_id option"
  fr_source_event_ids :: "event_id list"
  fr_covered_event_range :: "(event_id \<times> event_id) option"

datatype feedback_stage =
    FeedbackBriefBuilt "run_id option" nat nat nat bool bool time
  | FeedbackTurnStarted "string option" time
  | FeedbackOutcomeReceived feedback_outcome_kind time
  | FeedbackOutcomeValidated feedback_outcome_kind time
  | FeedbackOutcomeRejected "feedback_outcome_kind option" feedback_rejection string time
  | FeedbackDecisionRecorded feedback_outcome_kind time string
  | FeedbackApplied feedback_outcome_kind string time
  | FeedbackFailed feedback_outcome_kind string time

datatype event_kind =
    AgentSpawned string session_id string
  | AgentDied string session_id string
  | PromptSent session_id string string
  | PromptCancelled session_id string string
  | ResponseReceived session_id string nat
  | PermissionRequested session_id string string
  | PermissionResolved session_id string bool
  | OperationStarted session_id string
  | OperationCompleted session_id string bool
  | TaskCreated task_id
  | TaskAssigned task_id string
  | TaskCompleted task_id
  | ReviewRequested task_id review_id
  | ReviewScoreReceived review_id string nat
  | ReviewApproved review_id
  | ReviewRejected review_id
  | ReviewChangesRequested review_id
  | MergePrepared task_id string
  | MergeCommitted task_id
  | MergeAborted task_id string
  | EpicBranchCreated string string string
  | SubtaskBranchCreated string string string
  | SubtaskIntegrated string string string
  | NudgeSent session_id string string
  | NudgeAcknowledged session_id string
  | NudgeActedOn session_id string string
  | NudgeTimedOut session_id string string nat
  | StuckDetected session_id nat "string option"
  | EscalationTriggered string string
  | RunCreatedEvent run_id task_id run_role run_status
  | RunClaimedEvent run_id task_id run_role claim_owner "session_id option" claim_generation time
  | RunClaimRenewedEvent run_id task_id run_role claim_owner claim_generation time
  | RunStartedEvent run_id task_id run_role claim_generation time
  | RunActivityObserved run_id task_id run_role claim_generation string time
  | RunReleasedEvent run_id task_id run_role claim_generation "string option" time
  | RunRetryQueuedEvent run_id task_id run_role claim_generation string time "time option"
  | RunCompletedEvent run_id task_id run_role claim_generation time
  | RunFailedEvent run_id task_id run_role claim_generation string time
  | RunAbandonedEvent run_id task_id run_role claim_generation string time
  | StaleRunMutationRejected run_id task_id run_role claim_generation claim_generation string
  | ProofEvent string task_id "review_id option"
  | ProofIntegrationRecorded string task_id proof_integration time
  | ProofBlockerRecorded string task_id proof_blocker time
  | MemoryCreated string string "string list" "string option"
  | MemoryDeleted string
  | FeedbackTriggerDetected string string feedback_trigger_kind "task_id option" "run_id option" "string option" "event_id list"
      "(event_id \<times> event_id) option" string time
  | FeedbackEvent feedback_ref feedback_stage
  | SystemDraining string
  | WorkerReassigned string string task_id string string

record event =
  ev_kind :: event_kind
  ev_timestamp :: time
  ev_aggregate_id :: string

record event_envelope =
  ee_event :: event
  ee_event_id :: event_id
  ee_correlation_id :: "string option"
  ee_causation_id :: "string option"
  ee_idempotency_key :: "string option"

subsection \<open>Index dimensions\<close>

text \<open>\<open>crates/brehon-types/src/event_index.rs\<close>: the task, review and agent an event belongs to.\<close>

fun event_task_id :: "event_kind \<Rightarrow> task_id option" where
  "event_task_id (TaskCreated t) = Some t"
| "event_task_id (TaskAssigned t _) = Some t"
| "event_task_id (TaskCompleted t) = Some t"
| "event_task_id (ReviewRequested t _) = Some t"
| "event_task_id (MergePrepared t _) = Some t"
| "event_task_id (MergeCommitted t) = Some t"
| "event_task_id (MergeAborted t _) = Some t"
| "event_task_id (WorkerReassigned _ _ t _ _) = Some t"
| "event_task_id (RunCreatedEvent _ t _ _) = Some t"
| "event_task_id (RunClaimedEvent _ t _ _ _ _ _) = Some t"
| "event_task_id (RunClaimRenewedEvent _ t _ _ _ _) = Some t"
| "event_task_id (RunStartedEvent _ t _ _ _) = Some t"
| "event_task_id (RunActivityObserved _ t _ _ _ _) = Some t"
| "event_task_id (RunReleasedEvent _ t _ _ _ _) = Some t"
| "event_task_id (RunRetryQueuedEvent _ t _ _ _ _ _) = Some t"
| "event_task_id (RunCompletedEvent _ t _ _ _) = Some t"
| "event_task_id (RunFailedEvent _ t _ _ _ _) = Some t"
| "event_task_id (RunAbandonedEvent _ t _ _ _ _) = Some t"
| "event_task_id (StaleRunMutationRejected _ t _ _ _ _) = Some t"
| "event_task_id (ProofEvent _ t _) = Some t"
| "event_task_id (ProofIntegrationRecorded _ t _ _) = Some t"
| "event_task_id (ProofBlockerRecorded _ t _ _) = Some t"
| "event_task_id (FeedbackTriggerDetected _ _ _ t _ _ _ _ _ _) = t"
| "event_task_id (FeedbackEvent r _) = fr_task_id r"
| "event_task_id _ = None"

fun event_review_id :: "event_kind \<Rightarrow> review_id option" where
  "event_review_id (ReviewRequested _ r) = Some r"
| "event_review_id (ReviewScoreReceived r _ _) = Some r"
| "event_review_id (ReviewApproved r) = Some r"
| "event_review_id (ReviewRejected r) = Some r"
| "event_review_id (ReviewChangesRequested r) = Some r"
| "event_review_id (ProofEvent _ _ r) = r"
| "event_review_id _ = None"

fun event_agent_id :: "event_kind \<Rightarrow> string option" where
  "event_agent_id (AgentSpawned a _ _) = Some a"
| "event_agent_id (AgentDied a _ _) = Some a"
| "event_agent_id (TaskAssigned _ a) = Some a"
| "event_agent_id _ = None"

end
