(* ===== verification/Task_Lifecycle.thy ===== *)
theory Task_Lifecycle
  imports Task_Types "HOL-Library.Sublist"
begin

text \<open>
  \<open>crates/brehon-orchestrator/src/task_lifecycle.rs\<close> (the transition table of a task) and
  the error type of \<open>crates/brehon-orchestrator/src/error.rs\<close>. \<open>TaskLifecycle::apply\<close> is
  \<open>apply_transition\<close>; the formatted texts of the two \<open>InvalidTransition\<close> errors are kept as
  the two values of \<open>transition_refusal\<close>, so that the refusal by the guard and the refusal
  by the final match arm stay distinguishable.
\<close>

datatype orchestrator_error =
    CycleError string
  | InvalidTransition string
  | AssignmentError string
  | WorkerPoolError string
  | TaskNotFound string
  | WorkerNotFound string
  | DependencyNotFound string
  | GitUnavailable string
  | NoAvailableWorkers
  | PortError string
  | StorageError string

datatype transition =
    Create
  | Assign
  | Start
  | Complete
  | RequestChanges
  | Iterate
  | Approve
  | Merge
  | Block
  | Unblock
  | Reassign
  | Invalidate

definition transition_str :: "transition \<Rightarrow> string" where
  "transition_str t =
     (case t of
        Create \<Rightarrow> ''create''
      | Assign \<Rightarrow> ''assign''
      | Start \<Rightarrow> ''start''
      | Complete \<Rightarrow> ''complete''
      | RequestChanges \<Rightarrow> ''request_changes''
      | Iterate \<Rightarrow> ''iterate''
      | Approve \<Rightarrow> ''approve''
      | Merge \<Rightarrow> ''merge''
      | Block \<Rightarrow> ''block''
      | Unblock \<Rightarrow> ''unblock''
      | Reassign \<Rightarrow> ''reassign''
      | Invalidate \<Rightarrow> ''invalidate'')"

definition valid_transitions_from :: "task_status \<Rightarrow> transition list" where
  "valid_transitions_from status =
     (case status of
        Pending \<Rightarrow> [Assign]
      | Assigned \<Rightarrow> [Start, Reassign]
      | InProgress \<Rightarrow> [Complete, Block, Reassign]
      | InReview \<Rightarrow> [RequestChanges, Approve, Invalidate]
      | ChangesRequested \<Rightarrow> [Iterate]
      | Approved \<Rightarrow> [Merge]
      | Merged \<Rightarrow> []
      | Blocked \<Rightarrow> [Unblock])"

definition can_transition :: "task_status \<Rightarrow> transition \<Rightarrow> bool" where
  "can_transition from t \<longleftrightarrow> t \<in> set (valid_transitions_from from)"

datatype transition_refusal = CannotApply transition task_status | InvalidPair transition task_status

definition apply_transition :: "task_status \<Rightarrow> transition \<Rightarrow> (transition_refusal, task_status) result" where
  "apply_transition status t =
     (if \<not> can_transition status t then Inl (CannotApply t status)
      else (case (status, t) of
          (Pending, Assign) \<Rightarrow> Inr Assigned
        | (Assigned, Start) \<Rightarrow> Inr InProgress
        | (Assigned, Reassign) \<Rightarrow> Inr Pending
        | (InProgress, Complete) \<Rightarrow> Inr InReview
        | (InProgress, Block) \<Rightarrow> Inr Blocked
        | (InProgress, Reassign) \<Rightarrow> Inr Pending
        | (InReview, RequestChanges) \<Rightarrow> Inr ChangesRequested
        | (InReview, Approve) \<Rightarrow> Inr Approved
        | (InReview, Invalidate) \<Rightarrow> Inr Pending
        | (ChangesRequested, Iterate) \<Rightarrow> Inr InProgress
        | (Approved, Merge) \<Rightarrow> Inr Merged
        | (Blocked, Unblock) \<Rightarrow> Inr Pending
        | _ \<Rightarrow> Inl (InvalidPair t status)))"

definition is_terminal :: "task_status \<Rightarrow> bool" where
  "is_terminal status \<longleftrightarrow> status = Merged"

definition is_active :: "task_status \<Rightarrow> bool" where
  "is_active status \<longleftrightarrow> status \<in> {Assigned, InProgress, InReview, ChangesRequested, Approved}"

definition is_blocked :: "task_status \<Rightarrow> bool" where
  "is_blocked status \<longleftrightarrow> status = Blocked"

definition is_pending :: "task_status \<Rightarrow> bool" where
  "is_pending status \<longleftrightarrow> status = Pending"

subsection \<open>The machine is guarded by its transition table\<close>

lemmas lifecycle_defs = apply_transition_def can_transition_def valid_transitions_from_def

interpretation lifecycle: guarded_machine valid_transitions_from apply_transition
proof
  show "is_ok (apply_transition s t) \<longleftrightarrow> t \<in> set (valid_transitions_from s)" for s t
    by (cases s; cases t) (simp_all add: lifecycle_defs)
qed

text \<open>
  The transitions that remain before a task can be merged, from each status.
\<close>

definition road_to_merge :: "task_status \<Rightarrow> transition list" where
  "road_to_merge status =
     (case status of
        Pending \<Rightarrow> [Assign, Start, Complete, Approve, Merge]
      | Assigned \<Rightarrow> [Start, Complete, Approve, Merge]
      | InProgress \<Rightarrow> [Complete, Approve, Merge]
      | InReview \<Rightarrow> [Approve, Merge]
      | ChangesRequested \<Rightarrow> [Complete, Approve, Merge]
      | Approved \<Rightarrow> [Merge]
      | Merged \<Rightarrow> []
      | Blocked \<Rightarrow> [Assign, Start, Complete, Approve, Merge])"

lemma road_step:
  assumes "apply_transition s t = Inr s'" and "subseq (road_to_merge s') ts"
  shows "subseq (road_to_merge s) (t # ts)"
  using assms
  by (cases s; cases t) (auto simp: lifecycle_defs road_to_merge_def intro: subseq_Cons')

lemma road_run: "run_steps apply_transition s ts = Inr Merged \<Longrightarrow> subseq (road_to_merge s) ts"
  by (induction ts arbitrary: s)
    (auto simp: road_to_merge_def [of Merged] split: sum.splits intro: road_step)

subsection \<open>Properties\<close>

text \<open>
  A transition succeeds exactly when it is listed for the current status, and a refused
  transition is always refused by the guard: the fall-through arm of the match in
  \<open>apply\<close> is unreachable.
\<close>

theorem apply_transition_guarded:
  "apply_transition s t =
     (if t \<in> set (valid_transitions_from s)
      then Inr (projr (apply_transition s t)) else Inl (CannotApply t s))"
  using lifecycle.step_enabled [of s t]
  by (auto simp: is_ok_conv can_transition_def apply_transition_def)

text \<open>
  C33. No task is merged without review: every sequence of accepted transitions that takes a
  new task to \<open>Merged\<close> contains assignment, start, completion, approval and merge, in this
  order.
\<close>

theorem merged_only_after_review:
  assumes "run_steps apply_transition Pending ts = Inr Merged"
  shows "subseq [Assign, Start, Complete, Approve, Merge] ts"
  using road_run [OF assms] by (simp add: road_to_merge_def)

theorem merged_only_after_review_witness:
  "run_steps apply_transition Pending
     [Assign, Start, Complete, RequestChanges, Iterate, Complete, Approve, Merge] = Inr Merged \<and>
   subseq [Assign, Start, Complete, Approve, Merge]
     [Assign, Start, Complete, RequestChanges, Iterate, Complete, Approve, Merge]"
proof -
  have h: "run_steps apply_transition Pending
     [Assign, Start, Complete, RequestChanges, Iterate, Complete, Approve, Merge] = Inr Merged"
    by (simp add: lifecycle_defs)
  show ?thesis using h merged_only_after_review [OF h] by blast
qed

text \<open>
  \<open>Merged\<close> is the only terminal status: no transition leaves it, and from every other
  status there is a sequence of accepted transitions that reaches it.
\<close>

theorem merged_is_the_terminal_status:
  "(is_terminal s \<longleftrightarrow> valid_transitions_from s = []) \<and>
   (\<exists>ts. run_steps apply_transition s ts = Inr Merged) \<and>
   (run_steps apply_transition Merged ts = Inr s' \<longrightarrow> ts = [] \<and> s' = Merged)"
proof (intro conjI)
  show "is_terminal s \<longleftrightarrow> valid_transitions_from s = []"
    by (cases s) (simp_all add: is_terminal_def valid_transitions_from_def)
  show "\<exists>ts. run_steps apply_transition s ts = Inr Merged"
  proof (rule exI)
    show "run_steps apply_transition s
        (case s of ChangesRequested \<Rightarrow> Iterate # road_to_merge InProgress
         | Blocked \<Rightarrow> Unblock # road_to_merge Pending
         | _ \<Rightarrow> road_to_merge s) = Inr Merged"
      by (cases s) (simp_all add: lifecycle_defs road_to_merge_def)
  qed
  show "run_steps apply_transition Merged ts = Inr s' \<longrightarrow> ts = [] \<and> s' = Merged"
    using lifecycle.stuck_run [of Merged ts s'] by (auto simp: valid_transitions_from_def)
qed

theorem merged_is_the_terminal_status_witness:
  "(\<exists>ts. run_steps apply_transition Blocked ts = Inr Merged) \<and>
   (run_steps apply_transition Merged [] = Inr Merged \<longrightarrow> ([] :: transition list) = [] \<and> Merged = Merged)"
  using merged_is_the_terminal_status [of Blocked "[]" Merged] by blast

lemma active_not_terminal: "is_active s \<Longrightarrow> \<not> is_terminal s \<and> \<not> is_pending s \<and> \<not> is_blocked s"
  by (auto simp: is_active_def is_terminal_def is_pending_def is_blocked_def)

end
