(* ===== verification/Task_Board.thy ===== *)
theory Task_Board
  imports Events Task_Lifecycle
begin

text \<open>
  \<open>crates/brehon-orchestrator/src/task_board.rs\<close>: the in-memory view of the tasks, its event
  handler, queries, mutators and the eviction of merged tasks. The locks of \<open>TaskBoard\<close> are
  taken and released inside each method, so a method is one atomic state change. A call of
  \<open>Utc::now()\<close> is the argument \<open>now\<close>.
\<close>

subsection \<open>Entries\<close>

record task_entry =
  te_id :: task_id
  te_title :: string
  te_description :: string
  te_status :: task_status
  te_priority :: priority
  te_assignee :: "string option"
  te_session_id :: "session_id option"
  te_dependencies :: "task_id list"
  te_created_at :: time
  te_updated_at :: time
  te_blocked_by :: "task_id list"
  te_last_event_id :: "event_id option"

definition new_task_entry :: "time \<Rightarrow> task_id \<Rightarrow> string \<Rightarrow> string \<Rightarrow> task_entry" where
  "new_task_entry now t title description =
     \<lparr>te_id = t, te_title = title, te_description = description, te_status = Pending,
      te_priority = Medium, te_assignee = None, te_session_id = None, te_dependencies = [],
      te_created_at = now, te_updated_at = now, te_blocked_by = [], te_last_event_id = None\<rparr>"

definition is_assignable :: "task_entry \<Rightarrow> bool" where
  "is_assignable e \<longleftrightarrow> te_status e = Pending \<and> te_blocked_by e = []"

definition is_in_progress :: "task_entry \<Rightarrow> bool" where
  "is_in_progress e \<longleftrightarrow> te_status e = InProgress"

definition is_complete :: "task_entry \<Rightarrow> bool" where
  "is_complete e \<longleftrightarrow> te_status e = Merged"

record task_board_stats =
  st_total :: nat
  st_pending :: nat
  st_assigned :: nat
  st_in_progress :: nat
  st_in_review :: nat
  st_blocked :: nat
  st_completed :: nat

record task_board =
  tb_tasks :: "(task_id, task_entry) hmap"
  tb_order :: "task_id list"
  tb_reviews :: "(review_id, task_id) hmap"
  tb_max_tasks :: nat

type_synonym board_result = "task_board \<times> (orchestrator_error, unit) result"

definition with_max_tasks :: "nat \<Rightarrow> task_board" where
  "with_max_tasks n = \<lparr>tb_tasks = [], tb_order = [], tb_reviews = [], tb_max_tasks = max n 1\<rparr>"

definition new_task_board :: task_board where
  "new_task_board = with_max_tasks 10000"

subsection \<open>Events\<close>

definition stamp :: "task_status \<Rightarrow> event \<Rightarrow> event_id \<Rightarrow> task_entry \<Rightarrow> task_entry" where
  \<comment> \<open>the three assignments every handler makes to the entry it changes\<close>
  "stamp s ev eid e = e\<lparr>te_status := s, te_updated_at := ev_timestamp ev, te_last_event_id := Some eid\<rparr>"

definition on_review ::
    "task_status \<Rightarrow> event \<Rightarrow> event_id \<Rightarrow> review_id \<Rightarrow> task_board \<Rightarrow> task_board" where
  "on_review s ev eid r b =
     (case hm_get (tb_reviews b) r of
        None \<Rightarrow> b
      | Some t \<Rightarrow> b\<lparr>tb_tasks := hm_modify t (stamp s ev eid) (tb_tasks b)\<rparr>)"

definition apply_event_inner :: "time \<Rightarrow> event \<Rightarrow> event_id \<Rightarrow> task_board \<Rightarrow> task_board" where
  "apply_event_inner now ev eid b =
     (case ev_kind ev of
        TaskCreated t \<Rightarrow>
          if hm_contains (tb_tasks b) t then b
          else b\<lparr>tb_tasks := hm_insert t (new_task_entry now t [] []) (tb_tasks b),
                 tb_order := tb_order b @ [t]\<rparr>
      | TaskAssigned t agent \<Rightarrow>
          b\<lparr>tb_tasks := hm_modify t (\<lambda>e. (stamp Assigned ev eid e)\<lparr>te_assignee := Some agent\<rparr>) (tb_tasks b)\<rparr>
      | TaskCompleted t \<Rightarrow> b\<lparr>tb_tasks := hm_modify t (stamp InReview ev eid) (tb_tasks b)\<rparr>
      | ReviewRequested t r \<Rightarrow>
          b\<lparr>tb_tasks := hm_modify t (stamp InReview ev eid) (tb_tasks b),
            tb_reviews := hm_insert r t (tb_reviews b)\<rparr>
      | ReviewApproved r \<Rightarrow> on_review Approved ev eid r b
      | ReviewRejected r \<Rightarrow> on_review ChangesRequested ev eid r b
      | ReviewChangesRequested r \<Rightarrow> on_review ChangesRequested ev eid r b
      | MergeCommitted t \<Rightarrow> b\<lparr>tb_tasks := hm_modify t (stamp Merged ev eid) (tb_tasks b)\<rparr>
      | MergeAborted t _ \<Rightarrow> b\<lparr>tb_tasks := hm_modify t (stamp InProgress ev eid) (tb_tasks b)\<rparr>
      | AgentDied _ s _ \<Rightarrow>
          b\<lparr>tb_tasks := hm_map_values
              (\<lambda>e. if te_session_id e = Some s \<and> te_status e = InProgress
                   then (stamp Pending ev eid e)\<lparr>te_session_id := None\<rparr> else e) (tb_tasks b)\<rparr>
      | _ \<Rightarrow> b)"

definition apply_event :: "time \<Rightarrow> event \<Rightarrow> event_id \<Rightarrow> task_board \<Rightarrow> task_board" where
  "apply_event now ev eid b = apply_event_inner now ev eid b"

text \<open>The events to replay come with the clock reading at which each is applied.\<close>

definition rebuild_from_events :: "(event \<times> event_id \<times> time) list \<Rightarrow> task_board \<Rightarrow> task_board" where
  "rebuild_from_events events b =
     fold (\<lambda>(ev, eid, now). apply_event_inner now ev eid) events
       (b\<lparr>tb_tasks := [], tb_order := [], tb_reviews := []\<rparr>)"

subsection \<open>Queries\<close>

type_synonym entry_order = "(task_id \<times> task_entry) hash_order"

definition has_task :: "task_board \<Rightarrow> task_id \<Rightarrow> bool" where
  "has_task b t \<longleftrightarrow> hm_contains (tb_tasks b) t"

definition get_task :: "task_board \<Rightarrow> task_id \<Rightarrow> task_entry option" where
  "get_task b t = hm_get (tb_tasks b) t"

definition get_tasks_by_status :: "entry_order \<Rightarrow> task_status \<Rightarrow> task_board \<Rightarrow> task_entry list" where
  "get_tasks_by_status h s b = filter (\<lambda>e. te_status e = s) (hm_values h (tb_tasks b))"

definition get_tasks_by_assignee :: "entry_order \<Rightarrow> string \<Rightarrow> task_board \<Rightarrow> task_entry list" where
  "get_tasks_by_assignee h a b = filter (\<lambda>e. te_assignee e = Some a) (hm_values h (tb_tasks b))"

definition get_tasks_by_priority :: "entry_order \<Rightarrow> priority \<Rightarrow> task_board \<Rightarrow> task_entry list" where
  "get_tasks_by_priority h p b = filter (\<lambda>e. te_priority e = p) (hm_values h (tb_tasks b))"

definition get_pending_tasks :: "entry_order \<Rightarrow> task_board \<Rightarrow> task_entry list" where
  "get_pending_tasks h b = get_tasks_by_status h Pending b"

definition get_assignable_tasks :: "entry_order \<Rightarrow> task_board \<Rightarrow> task_entry list" where
  "get_assignable_tasks h b = filter is_assignable (hm_values h (tb_tasks b))"

definition get_in_progress_tasks :: "entry_order \<Rightarrow> task_board \<Rightarrow> task_entry list" where
  "get_in_progress_tasks h b = get_tasks_by_status h InProgress b"

definition get_blocked_tasks :: "entry_order \<Rightarrow> task_board \<Rightarrow> task_entry list" where
  "get_blocked_tasks h b = get_tasks_by_status h Blocked b"

definition get_complete_tasks :: "entry_order \<Rightarrow> task_board \<Rightarrow> task_entry list" where
  "get_complete_tasks h b = filter is_complete (hm_values h (tb_tasks b))"

subsection \<open>Mutators\<close>

definition with_task :: "(task_entry \<Rightarrow> task_entry) \<Rightarrow> task_id \<Rightarrow> task_board \<Rightarrow> board_result" where
  \<comment> \<open>the shape of every fallible mutator: change the entry or report that it is missing\<close>
  "with_task f t b =
     (if hm_contains (tb_tasks b) t then (b\<lparr>tb_tasks := hm_modify t f (tb_tasks b)\<rparr>, Inr ())
      else (b, Inl (TaskNotFound t)))"

definition update_task_status :: "time \<Rightarrow> task_id \<Rightarrow> task_status \<Rightarrow> task_board \<Rightarrow> board_result" where
  "update_task_status now t s b = with_task (\<lambda>e. e\<lparr>te_status := s, te_updated_at := now\<rparr>) t b"

definition board_assign_task ::
    "time \<Rightarrow> task_id \<Rightarrow> string \<Rightarrow> session_id option \<Rightarrow> task_board \<Rightarrow> board_result" where
  "board_assign_task now t a s b =
     with_task (\<lambda>e. e\<lparr>te_status := Assigned, te_assignee := Some a, te_session_id := s, te_updated_at := now\<rparr>) t b"

definition unassign_task :: "time \<Rightarrow> task_id \<Rightarrow> task_board \<Rightarrow> board_result" where
  "unassign_task now t b =
     with_task (\<lambda>e. e\<lparr>te_status := Pending, te_assignee := None, te_session_id := None, te_updated_at := now\<rparr>) t b"

definition set_blocked :: "time \<Rightarrow> task_id \<Rightarrow> task_id list \<Rightarrow> task_board \<Rightarrow> board_result" where
  "set_blocked now t blockers b =
     with_task (\<lambda>e. (if te_status e = Pending \<or> te_status e = Blocked then e\<lparr>te_status := Blocked\<rparr> else e)
        \<lparr>te_blocked_by := blockers, te_updated_at := now\<rparr>) t b"

definition clear_blocked :: "time \<Rightarrow> task_id \<Rightarrow> task_board \<Rightarrow> board_result" where
  "clear_blocked now t b =
     with_task (\<lambda>e. (if te_status e = Blocked \<and> te_blocked_by e = [] then e\<lparr>te_status := Pending\<rparr> else e)
        \<lparr>te_updated_at := now\<rparr>) t b"

definition board_add_task :: "task_entry \<Rightarrow> task_board \<Rightarrow> task_board" where
  "board_add_task e b =
     b\<lparr>tb_tasks := hm_insert (te_id e) e (tb_tasks b),
       tb_order := (if hm_contains (tb_tasks b) (te_id e) then tb_order b else tb_order b @ [te_id e])\<rparr>"

definition board_remove_task :: "task_id \<Rightarrow> task_board \<Rightarrow> task_board \<times> task_entry option" where
  "board_remove_task t b =
     (b\<lparr>tb_order := filter (\<lambda>i. i \<noteq> t) (tb_order b),
        tb_reviews := hm_retain (\<lambda>_ mapped. mapped \<noteq> t) (tb_reviews b),
        tb_tasks := hm_remove t (tb_tasks b)\<rparr>, hm_get (tb_tasks b) t)"

definition all_tasks :: "task_board \<Rightarrow> task_entry list" where
  "all_tasks b = List.map_filter (hm_get (tb_tasks b)) (tb_order b)"

definition board_stats :: "entry_order \<Rightarrow> task_board \<Rightarrow> task_board_stats" where
  "board_stats h b =
     (let count = (\<lambda>s. length (filter (\<lambda>e. te_status e = s) (hm_values h (tb_tasks b))))
      in \<lparr>st_total = length (tb_tasks b), st_pending = count Pending, st_assigned = count Assigned,
          st_in_progress = count InProgress, st_in_review = count InReview,
          st_blocked = count Blocked, st_completed = count Merged\<rparr>)"

definition board_len :: "task_board \<Rightarrow> nat" where
  "board_len b = length (tb_tasks b)"

definition board_clear :: "task_board \<Rightarrow> task_board" where
  "board_clear b = b\<lparr>tb_tasks := [], tb_order := [], tb_reviews := []\<rparr>"

definition set_max_tasks :: "nat \<Rightarrow> task_board \<Rightarrow> task_board" where
  "set_max_tasks n b = b\<lparr>tb_max_tasks := n\<rparr>"

text \<open>
  The first pass of \<open>apply_bounds\<close>: walk the insertion order from the oldest task and collect
  merged tasks until enough are found.
\<close>

fun evictable :: "(task_id, task_entry) hmap \<Rightarrow> nat \<Rightarrow> task_id list \<Rightarrow> task_id list" where
  "evictable tasks to_remove [] = []"
| "evictable tasks to_remove (t # ts) =
     (if to_remove = 0 then []
      else (case hm_get tasks t of
              Some e \<Rightarrow> if te_status e = Merged then t # evictable tasks (to_remove - 1) ts
                        else evictable tasks to_remove ts
            | None \<Rightarrow> evictable tasks to_remove ts))"

definition board_apply_bounds :: "task_board \<Rightarrow> task_board \<times> nat" where
  "board_apply_bounds b =
     (if length (tb_tasks b) \<le> tb_max_tasks b then (b, 0)
      else let removed = evictable (tb_tasks b) (length (tb_tasks b) - tb_max_tasks b) (tb_order b)
           in (b\<lparr>tb_tasks := fold hm_remove removed (tb_tasks b),
                 tb_reviews := hm_retain (\<lambda>_ mapped. mapped \<notin> set removed) (tb_reviews b),
                 tb_order := filter (\<lambda>t. t \<notin> set removed) (tb_order b)\<rparr>, length removed))"

end
