(* ===== verification/Worker_Pool.thy ===== *)
theory Worker_Pool
  imports Task_Board
begin

text \<open>
  \<open>crates/brehon-orchestrator/src/worker_pool.rs\<close>: the workers of an agent type, their
  spawning, death, assignment and the parser of the override option. The gateway's \<open>spawn\<close> is
  an argument; it answers with a session or an error text. The shared task board that the pool
  may hold is passed as it is at the time of the call.
\<close>

type_synonym worker_id = string

datatype worker_kind = Worker | Reviewer

record worker_info =
  wi_id :: worker_id
  wi_kind :: worker_kind
  wi_agent_type :: string
  wi_session_id :: session_id
  wi_assigned_task :: "task_id option"
  wi_spawned_at :: time
  wi_is_alive :: bool

definition new_worker_info :: "time \<Rightarrow> worker_id \<Rightarrow> worker_kind \<Rightarrow> string \<Rightarrow> session_id \<Rightarrow> worker_info" where
  "new_worker_info now w k a s =
     \<lparr>wi_id = w, wi_kind = k, wi_agent_type = a, wi_session_id = s, wi_assigned_task = None,
      wi_spawned_at = now, wi_is_alive = True\<rparr>"

record session_spec =
  ss_agent_id :: string
  ss_role :: string
  ss_worktree_path :: string
  ss_merge_target :: "string option"

record worker_spawn_plan =
  sp_worker_id :: worker_id
  sp_spec :: session_spec

record worker_pool_config =
  wc_agent_type :: string
  wc_kind :: worker_kind
  wc_min_count :: nat
  wc_max_count :: nat
  wc_worktree_base :: string

definition default_worker_pool_config :: worker_pool_config where
  "default_worker_pool_config =
     \<lparr>wc_agent_type = ''default'', wc_kind = Worker, wc_min_count = 1, wc_max_count = 3,
      wc_worktree_base = ''/tmp/brehon/worktrees''\<rparr>"

record worker_assignment =
  wa_worker_id :: worker_id
  wa_session_id :: session_id
  wa_assigned_at :: time

record worker_pool =
  wp_config :: worker_pool_config
  wp_workers :: "(worker_id, worker_info) hmap"
  wp_sessions :: "(session_id, worker_id) hmap"
  wp_history :: "worker_assignment list"
  wp_max_history :: nat

definition new_worker_pool :: "worker_pool_config \<Rightarrow> nat \<Rightarrow> worker_pool" where
  "new_worker_pool c n =
     \<lparr>wp_config = c, wp_workers = [], wp_sessions = [], wp_history = [], wp_max_history = n\<rparr>"

definition set_max_assignment_history :: "nat \<Rightarrow> worker_pool \<Rightarrow> worker_pool" where
  "set_max_assignment_history n p = p\<lparr>wp_max_history := n\<rparr>"

type_synonym gateway_spawn = "session_spec \<Rightarrow> (string, session_id) result"
type_synonym worker_order = "(worker_id \<times> worker_info) hash_order"

subsection \<open>Terminal tasks\<close>

definition is_task_terminal :: "task_board option \<Rightarrow> task_id \<Rightarrow> bool" where
  "is_task_terminal board t =
     (case board of
        None \<Rightarrow> False
      | Some b \<Rightarrow> (case get_task b t of None \<Rightarrow> False | Some e \<Rightarrow> is_terminal (te_status e)))"

definition has_non_terminal_task :: "task_board option \<Rightarrow> worker_pool \<Rightarrow> worker_id \<Rightarrow> bool" where
  "has_non_terminal_task board p w =
     (case hm_get (wp_workers p) w of
        None \<Rightarrow> False
      | Some i \<Rightarrow>
          (case wi_assigned_task i of
             None \<Rightarrow> False
           | Some t \<Rightarrow>
               (case board of
                  None \<Rightarrow> True
                | Some b \<Rightarrow> (case get_task b t of None \<Rightarrow> True | Some e \<Rightarrow> \<not> is_terminal (te_status e)))))"

subsection \<open>Counting and spawning\<close>

definition alive_infos :: "worker_pool \<Rightarrow> worker_info list" where
  "alive_infos p = filter wi_is_alive (map snd (wp_workers p))"

definition alive_count :: "worker_pool \<Rightarrow> nat" where
  "alive_count p = length (alive_infos p)"

definition total_count :: "worker_pool \<Rightarrow> nat" where
  "total_count p = length (wp_workers p)"

definition worker_name :: "string \<Rightarrow> nat \<Rightarrow> worker_id" where
  "worker_name agent_type index = agent_type @ ''-'' @ show_nat index"

definition spawn_plan :: "worker_pool_config \<Rightarrow> nat \<Rightarrow> worker_spawn_plan" where
  "spawn_plan c index =
     \<lparr>sp_worker_id = worker_name (wc_agent_type c) index,
      sp_spec = \<lparr>ss_agent_id = wc_agent_type c,
                 ss_role = (case wc_kind c of Worker \<Rightarrow> ''worker'' | Reviewer \<Rightarrow> ''reviewer''),
                 ss_worktree_path = wc_worktree_base c @ ''/'' @ worker_name (wc_agent_type c) index,
                 ss_merge_target = None\<rparr>\<rparr>"

definition plan_spawn_to_min :: "worker_pool \<Rightarrow> worker_spawn_plan list" where
  "plan_spawn_to_min p =
     (let current = alive_count p; needed = wc_min_count (wp_config p)
      in if needed \<le> current then []
         else map (\<lambda>i. spawn_plan (wp_config p) (i + current)) [0..<needed - current])"

definition record_spawned_worker ::
    "time \<Rightarrow> worker_spawn_plan \<Rightarrow> session_id \<Rightarrow> worker_pool \<Rightarrow> worker_pool \<times> worker_id" where
  "record_spawned_worker now plan s p =
     (let w = sp_worker_id plan;
          info = new_worker_info now w (wc_kind (wp_config p)) (wc_agent_type (wp_config p)) s
      in (p\<lparr>wp_workers := hm_insert w info (wp_workers p),
            wp_sessions := hm_insert s w (wp_sessions p)\<rparr>, w))"

definition spawn_worker_from_plan ::
    "gateway_spawn \<Rightarrow> time \<Rightarrow> worker_spawn_plan \<Rightarrow> worker_pool \<Rightarrow>
      worker_pool \<times> (orchestrator_error, worker_id) result" where
  "spawn_worker_from_plan gw now plan p =
     (case gw (sp_spec plan) of
        Inl e \<Rightarrow> (p, Inl (WorkerPoolError (''Failed to spawn worker: '' @ e)))
      | Inr s \<Rightarrow> (case record_spawned_worker now plan s p of (p', w) \<Rightarrow> (p', Inr w)))"

fun spawn_all ::
    "gateway_spawn \<Rightarrow> time \<Rightarrow> worker_spawn_plan list \<Rightarrow> worker_pool \<Rightarrow> worker_pool \<times> worker_id list"
where
  "spawn_all gw now [] p = (p, [])"
| "spawn_all gw now (plan # plans) p =
     (case spawn_worker_from_plan gw now plan p of
        (p', Inr w) \<Rightarrow> (case spawn_all gw now plans p' of (p'', ws) \<Rightarrow> (p'', w # ws))
      | (p', Inl _) \<Rightarrow> spawn_all gw now plans p')"

definition spawn_to_min :: "gateway_spawn \<Rightarrow> time \<Rightarrow> worker_pool \<Rightarrow> worker_pool \<times> worker_id list" where
  "spawn_to_min gw now p = spawn_all gw now (plan_spawn_to_min p) p"

subsection \<open>Death\<close>

definition bury :: "worker_info \<Rightarrow> worker_info" where
  "bury i = i\<lparr>wi_is_alive := False, wi_assigned_task := None\<rparr>"

definition reconcile_worker_death :: "session_id \<Rightarrow> worker_pool \<Rightarrow> worker_pool \<times> worker_spawn_plan option" where
  "reconcile_worker_death s p =
     (case hm_get (wp_sessions p) s of
        None \<Rightarrow> (p, None)
      | Some w \<Rightarrow>
          if hm_get (wp_workers p) w = None then (p, None)
          else let p' = p\<lparr>wp_workers := hm_modify w bury (wp_workers p)\<rparr>
               in if alive_count p' < wc_min_count (wp_config p')
                  then (p', Some (spawn_plan (wp_config p') (case parse_u32 w of None \<Rightarrow> 0 | Some n \<Rightarrow> n)))
                  else (p', None))"

definition handle_worker_death ::
    "gateway_spawn \<Rightarrow> time \<Rightarrow> session_id \<Rightarrow> worker_pool \<Rightarrow>
      worker_pool \<times> (orchestrator_error, worker_id option) result" where
  "handle_worker_death gw now s p =
     (case reconcile_worker_death s p of
        (p', None) \<Rightarrow> (p', Inr None)
      | (p', Some plan) \<Rightarrow>
          (case spawn_worker_from_plan gw now plan p' of
             (p'', Inl e) \<Rightarrow> (p'', Inl e)
           | (p'', Inr w) \<Rightarrow> (p'', Inr (Some w))))"

definition mark_workers_dead_by_sessions :: "session_id list \<Rightarrow> worker_pool \<Rightarrow> worker_pool" where
  "mark_workers_dead_by_sessions ss p =
     (let workers' = fold (\<lambda>s ws. case hm_get (wp_sessions p) s of
                                    None \<Rightarrow> ws | Some w \<Rightarrow> hm_modify w bury ws) ss (wp_workers p)
      in p\<lparr>wp_workers := workers',
           wp_sessions := hm_retain (\<lambda>_ w. case hm_get workers' w of None \<Rightarrow> False | Some i \<Rightarrow> wi_is_alive i)
                            (wp_sessions p)\<rparr>)"

subsection \<open>Assignment\<close>

definition task_status_debug :: "task_status \<Rightarrow> string" where
  \<comment> \<open>the derived \<open>Debug\<close> text\<close>
  "task_status_debug s =
     (case s of
        Pending \<Rightarrow> ''Pending'' | Assigned \<Rightarrow> ''Assigned'' | InProgress \<Rightarrow> ''InProgress''
      | InReview \<Rightarrow> ''InReview'' | ChangesRequested \<Rightarrow> ''ChangesRequested''
      | Approved \<Rightarrow> ''Approved'' | Merged \<Rightarrow> ''Merged'' | Blocked \<Rightarrow> ''Blocked'')"

definition busy_message :: "task_board option \<Rightarrow> worker_id \<Rightarrow> task_id \<Rightarrow> string" where
  "busy_message board w existing =
     ''Worker '' @ w @ '' already has non-terminal task '' @ existing @ '' (status: '' @
     (case board of
        None \<Rightarrow> ''unknown (no task board)''
      | Some b \<Rightarrow> (case get_task b existing of None \<Rightarrow> ''unknown'' | Some e \<Rightarrow> task_status_debug (te_status e))) @
     ''). Cannot assign another.''"

definition pool_assign_task ::
    "task_board option \<Rightarrow> time \<Rightarrow> worker_id \<Rightarrow> task_id \<Rightarrow> worker_pool \<Rightarrow>
      worker_pool \<times> (orchestrator_error, unit) result" where
  "pool_assign_task board now w t p =
     (case hm_get (wp_workers p) w of
        None \<Rightarrow> (p, Inl (WorkerNotFound w))
      | Some i \<Rightarrow>
          if \<not> wi_is_alive i then (p, Inl (AssignmentError (''Worker '' @ w @ '' is not alive'')))
          else if wi_assigned_task i \<noteq> None \<and> has_non_terminal_task board p w
          then (p, Inl (AssignmentError (busy_message board w (the (wi_assigned_task i)))))
          else (p\<lparr>wp_workers := hm_modify w (\<lambda>i. i\<lparr>wi_assigned_task := Some t\<rparr>) (wp_workers p),
                  wp_history := push_bounded (wp_max_history p) (wp_history p)
                    \<lparr>wa_worker_id = w, wa_session_id = wi_session_id i, wa_assigned_at = now\<rparr>\<rparr>, Inr ()))"

definition clear_assignment :: "worker_id \<Rightarrow> worker_pool \<Rightarrow> worker_pool \<times> (orchestrator_error, unit) result" where
  "clear_assignment w p =
     (if hm_contains (wp_workers p) w
      then (p\<lparr>wp_workers := hm_modify w (\<lambda>i. i\<lparr>wi_assigned_task := None\<rparr>) (wp_workers p)\<rparr>, Inr ())
      else (p, Inl (WorkerNotFound w)))"

definition worker_idle :: "task_board option \<Rightarrow> worker_info \<Rightarrow> bool" where
  "worker_idle board i \<longleftrightarrow>
     wi_is_alive i \<and> (case wi_assigned_task i of None \<Rightarrow> True | Some t \<Rightarrow> is_task_terminal board t)"

definition get_idle_worker :: "worker_order \<Rightarrow> task_board option \<Rightarrow> worker_pool \<Rightarrow> worker_id option" where
  "get_idle_worker h board p = map_option wi_id (find (worker_idle board) (hm_values h (wp_workers p)))"

definition get_idle_workers :: "worker_order \<Rightarrow> task_board option \<Rightarrow> worker_pool \<Rightarrow> worker_id list" where
  "get_idle_workers h board p = map wi_id (filter (worker_idle board) (hm_values h (wp_workers p)))"

definition available_count :: "task_board option \<Rightarrow> worker_pool \<Rightarrow> nat" where
  "available_count board p = length (filter (worker_idle board) (map snd (wp_workers p)))"

definition get_worker :: "worker_pool \<Rightarrow> worker_id \<Rightarrow> worker_info option" where
  "get_worker p w = hm_get (wp_workers p) w"

definition get_worker_by_session :: "worker_pool \<Rightarrow> session_id \<Rightarrow> worker_info option" where
  "get_worker_by_session p s = Option.bind (hm_get (wp_sessions p) s) (hm_get (wp_workers p))"

definition can_spawn_more :: "worker_pool \<Rightarrow> bool" where
  "can_spawn_more p \<longleftrightarrow> as_u32 (alive_count p) < wc_max_count (wp_config p)"

definition alive_workers :: "worker_order \<Rightarrow> worker_pool \<Rightarrow> worker_info list" where
  "alive_workers h p = filter wi_is_alive (hm_values h (wp_workers p))"

subsection \<open>Overrides\<close>

record worker_pool_override =
  po_agent_type :: string
  po_kind :: worker_kind
  po_count :: nat

definition worker_kind_str :: "worker_kind \<Rightarrow> string" where
  "worker_kind_str k = (case k of Worker \<Rightarrow> ''worker'' | Reviewer \<Rightarrow> ''reviewer'')"

definition worker_kind_from_str :: "string \<Rightarrow> (string, worker_kind) result" where
  "worker_kind_from_str s =
     (if to_lowercase s = ''worker'' then Inr Worker
      else if to_lowercase s = ''reviewer'' then Inr Reviewer
      else Inl (''Unknown worker kind: '' @ s))"

definition parse_override :: "string \<Rightarrow> (orchestrator_error, worker_pool_override) result" where
  "parse_override trimmed =
     (case split_on CHR '':'' trimmed of
        [a, c] \<Rightarrow>
          (case parse_u32 (trim c) of
             None \<Rightarrow> Inl (WorkerPoolError (''Invalid count in override: '' @ c))
           | Some n \<Rightarrow> Inr \<lparr>po_agent_type = trim a, po_kind = Worker, po_count = n\<rparr>)
      | _ \<Rightarrow> Inl (WorkerPoolError (''Invalid worker override format: '' @ trimmed)))"

fun parse_override_parts :: "string list \<Rightarrow> (orchestrator_error, worker_pool_override list) result" where
  "parse_override_parts [] = Inr []"
| "parse_override_parts (part # parts) =
     (if trim part = [] then parse_override_parts parts
      else case parse_override (trim part) of
             Inl e \<Rightarrow> Inl e
           | Inr v \<Rightarrow> (case parse_override_parts parts of Inl e \<Rightarrow> Inl e | Inr vs \<Rightarrow> Inr (v # vs)))"

definition parse_worker_overrides :: "string \<Rightarrow> (orchestrator_error, worker_pool_override list) result" where
  "parse_worker_overrides s = (if s = [] then Inr [] else parse_override_parts (split_on CHR '','' s))"

end
