(* ===== verification/Review_Coordinator.thy ===== *)
theory Review_Coordinator
  imports Consolidation Events Worker_Pool
begin

text \<open>
  \<open>crates/brehon-review/src/panel.rs\<close>, \<open>lifecycle.rs\<close> and \<open>coordinator.rs\<close>: reviewer panels, the
  outcome of a round, and the coordinator that starts reviews, collects submissions and closes
  reviews. The gateway, the event store and the queue are arguments; appended events,
  acknowledged claims, requests to kill sessions (their failures are only logged by the code) and
  calibration records are kept as traces in the state.
  The review context shown in the terminal panes is not modelled.
\<close>

type_synonym claim_id = string

datatype panel_error =
    SpawnFailed string
  | KillFailed string
  | PanelExists string
  | PanelNotFound string
  | ReviewerNotAvailable
  | PanelGateway string

datatype lifecycle_error =
    MaxRoundsExceeded
  | LifecyclePanelError string
  | ScoringError string
  | LifecycleStorageError string
  | NoReviewers
  | LifecycleSpawnFailed string
  | ReviewTimeout

datatype review_error =
    ReviewQueueError string
  | ReviewLifecycleError lifecycle_error
  | ReviewPanelError panel_error
  | ReviewScoringError string
  | ReviewStaleDetectionError string
  | ReviewStorageError string
  | ReviewGatewayError string
  | ReviewGitError string
  | ReviewConfigError string
  | ReviewPortError string

subsection \<open>Panels\<close>

record panel_affinity =
  pa_review_id :: review_id
  pa_task_id :: string
  pa_reviewer_ids :: "reviewer_id list"
  pa_round :: nat
  pa_sessions :: "(reviewer_id, session_id) hmap"
  pa_submissions :: "(reviewer_id, reviewer_submission) hmap"

definition new_panel_affinity :: "review_id \<Rightarrow> string \<Rightarrow> reviewer_id list \<Rightarrow> panel_affinity" where
  "new_panel_affinity r t ids =
     \<lparr>pa_review_id = r, pa_task_id = t, pa_reviewer_ids = ids, pa_round = 1, pa_sessions = [], pa_submissions = []\<rparr>"

definition panel_is_complete :: "panel_affinity \<Rightarrow> nat \<Rightarrow> bool" where
  "panel_is_complete p required \<longleftrightarrow> min required (length (pa_reviewer_ids p)) \<le> length (pa_submissions p)"

definition advance_round :: "panel_affinity \<Rightarrow> panel_affinity" where
  "advance_round p = p\<lparr>pa_round := pa_round p + 1, pa_submissions := []\<rparr>"

definition has_more_rounds :: "panel_affinity \<Rightarrow> nat \<Rightarrow> bool" where
  "has_more_rounds p max_rounds \<longleftrightarrow> pa_round p < max_rounds"

definition get_missing_reviewers :: "panel_affinity \<Rightarrow> reviewer_id list" where
  "get_missing_reviewers p = filter (\<lambda>r. \<not> hm_contains (pa_submissions p) r) (pa_reviewer_ids p)"

definition reviewer_spec :: "string \<Rightarrow> reviewer_id \<Rightarrow> session_spec" where
  "reviewer_spec worktree r =
     \<lparr>ss_agent_id = r, ss_role = ''reviewer'', ss_worktree_path = worktree, ss_merge_target = None\<rparr>"

fun spawn_reviewers ::
    "gateway_spawn \<Rightarrow> string \<Rightarrow> reviewer_id list \<Rightarrow> (reviewer_id, session_id) hmap \<Rightarrow>
      (reviewer_id, session_id) hmap \<times> (panel_error, unit) result"
where
  "spawn_reviewers gw worktree [] sessions = (sessions, Inr ())"
| "spawn_reviewers gw worktree (r # rs) sessions =
     (if hm_contains sessions r then spawn_reviewers gw worktree rs sessions
      else case gw (reviewer_spec worktree r) of
             Inl e \<Rightarrow> (sessions, Inl (SpawnFailed e))
           | Inr s \<Rightarrow> spawn_reviewers gw worktree rs (hm_insert r s sessions))"

definition spawn_sessions ::
    "gateway_spawn \<Rightarrow> string \<Rightarrow> panel_affinity \<Rightarrow> panel_affinity \<times> (panel_error, unit) result" where
  "spawn_sessions gw worktree p =
     (case spawn_reviewers gw worktree (pa_reviewer_ids p) (pa_sessions p) of
        (sessions, r) \<Rightarrow> (p\<lparr>pa_sessions := sessions\<rparr>, r))"

definition panel_submit :: "reviewer_submission \<Rightarrow> panel_affinity \<Rightarrow> panel_affinity" where
  "panel_submit s p = p\<lparr>pa_submissions := hm_insert (sub_reviewer_id s) s (pa_submissions p)\<rparr>"

definition is_round_complete :: "panel_affinity \<Rightarrow> bool" where
  "is_round_complete p = list_all (hm_contains (pa_submissions p)) (pa_reviewer_ids p)"

subsection \<open>The outcome of a round\<close>

datatype review_outcome =
    OutcomeApproved
  | OutcomeChangesRequested consolidated_feedback
  | OutcomeRejected consolidated_feedback
  | OutcomeEscalate string consolidated_feedback

record review_orders =
  ro_scores :: score_order
  ro_submissions :: "(reviewer_id \<times> reviewer_submission) hash_order"
  ro_files :: "(string \<times> (string \<times> review_verdict) list) hash_order"

definition process_round ::
    "review_orders \<Rightarrow> review_policy \<Rightarrow> panel_affinity \<Rightarrow> score_collector \<Rightarrow>
      (lifecycle_error, review_outcome) result option" where
  \<comment> \<open>\<open>None\<close> is a panic of the evaluation\<close>
  "process_round h pol panel collector =
     (if pa_submissions panel = [] then Some (Inl NoReviewers)
      else let feedback = consolidate default_similarity_threshold (ro_files h)
                            (hm_values (ro_submissions h) (pa_submissions panel))
           in (case evaluate (ro_scores h) pol collector of
                 Inl panic \<Rightarrow> None
               | Inr ThApproved \<Rightarrow> Some (Inr OutcomeApproved)
               | Inr ThRejected \<Rightarrow> Some (Inr (OutcomeRejected feedback))
               | Inr ThChangesRequested \<Rightarrow> Some (Inr (OutcomeChangesRequested feedback))
               | Inr NeedMoreReviewers \<Rightarrow> Some (Inl NoReviewers)))"

definition check_max_rounds :: "review_policy \<Rightarrow> nat \<Rightarrow> bool" where
  "check_max_rounds pol current_round \<longleftrightarrow> pol_max_review_rounds pol \<le> current_round"

subsection \<open>The coordinator\<close>

record coordinator_config =
  cc_panel_size :: nat
  cc_default_reviewers :: "reviewer_id list"
  cc_policy :: review_policy

record active_review =
  ar_review_id :: review_id
  ar_task_id :: string
  ar_claim_id :: claim_id
  ar_panel :: panel_affinity
  ar_round :: nat
  ar_collector :: score_collector

record calibration_call =
  cal_reviewer :: reviewer_id
  cal_score :: nat
  cal_approval :: bool
  cal_rejection :: bool

record coordinator =
  co_config :: coordinator_config
  co_active :: "active_review list"
  co_log :: "event_kind list"
  co_acked :: "claim_id list"
  co_ended :: "session_id list"
  co_calibration :: "calibration_call list"

definition new_coordinator :: "coordinator_config \<Rightarrow> coordinator" where
  "new_coordinator c = \<lparr>co_config = c, co_active = [], co_log = [], co_acked = [], co_ended = [], co_calibration = []\<rparr>"

record review_ports =
  rv_append :: "event_kind \<Rightarrow> (string, unit) result"
  rv_ack :: "claim_id \<Rightarrow> (string, unit) result"
  rv_spawn :: gateway_spawn
  rv_orders :: review_orders
  rv_claim :: "(string, (string \<times> claim_id) option) result"

definition select_reviewers :: "coordinator_config \<Rightarrow> (review_error, reviewer_id list) result" where
  "select_reviewers c =
     (if cc_default_reviewers c = [] then Inl (ReviewConfigError ''No default reviewers configured'')
      else Inr (take (min (cc_panel_size c) (length (cc_default_reviewers c))) (cc_default_reviewers c)))"

definition round_panics :: "review_ports \<Rightarrow> coordinator \<Rightarrow> active_review \<Rightarrow> bool" where
  "round_panics io s r \<longleftrightarrow>
     is_round_complete (ar_panel r) \<and>
     process_round (rv_orders io) (cc_policy (co_config s)) (ar_panel r) (ar_collector r) = None"

definition round_outcomes :: "review_ports \<Rightarrow> coordinator \<Rightarrow> (nat \<times> review_outcome) list" where
  "round_outcomes io s =
     List.map_filter (\<lambda>(idx, r).
        if is_round_complete (ar_panel r)
        then (case process_round (rv_orders io) (cc_policy (co_config s)) (ar_panel r) (ar_collector r) of
                Some (Inr out) \<Rightarrow> Some (idx, out) | _ \<Rightarrow> None)
        else None) (enumerate 0 (co_active s))"

definition log_event :: "event_kind \<Rightarrow> coordinator \<Rightarrow> coordinator" where
  "log_event k s = s\<lparr>co_log := co_log s @ [k]\<rparr>"

definition next_round :: "nat \<Rightarrow> coordinator \<Rightarrow> coordinator" where
  "next_round idx s =
     s\<lparr>co_active := (co_active s)[idx := (co_active s ! idx)\<lparr>ar_round := ar_round (co_active s ! idx) + 1, ar_collector := []\<rparr>]\<rparr>"

definition append_event ::
    "review_ports \<Rightarrow> event_kind \<Rightarrow> (string \<Rightarrow> review_error) \<Rightarrow> coordinator \<Rightarrow> (review_error, coordinator) result" where
  "append_event io k err s = (case rv_append io k of Inl e \<Rightarrow> Inl (err e) | Inr _ \<Rightarrow> Inr (log_event k s))"

abbreviation storage_failure :: "string \<Rightarrow> review_error" where
  "storage_failure e \<equiv> ReviewLifecycleError (LifecycleStorageError e)"

text \<open>
  The loop over the outcomes: it yields the state, the indices to close with whether they were
  approved, and the error that cut the loop short, if any.
\<close>

fun apply_outcomes ::
    "review_ports \<Rightarrow> (nat \<times> review_outcome) list \<Rightarrow> coordinator \<Rightarrow> coordinator \<times> (nat \<times> bool) list \<times> review_error option"
where
  "apply_outcomes io [] s = (s, [], None)"
| "apply_outcomes io ((idx, out) # rest) s =
     (let r = co_active s ! idx; rid = ar_review_id r in
      case out of
        OutcomeApproved \<Rightarrow>
          (case apply_outcomes io rest s of (s', done_ix, e) \<Rightarrow> (s', (idx, True) # done_ix, e))
      | OutcomeChangesRequested _ \<Rightarrow>
          (case append_event io (ReviewChangesRequested rid) storage_failure s of
             Inl err \<Rightarrow> (s, [], Some err)
           | Inr s1 \<Rightarrow>
               if check_max_rounds (cc_policy (co_config s)) (ar_round r)
               then (case apply_outcomes io rest s1 of (s', done_ix, e) \<Rightarrow> (s', (idx, False) # done_ix, e))
               else apply_outcomes io rest (next_round idx s1))
      | OutcomeRejected _ \<Rightarrow>
          (case append_event io (ReviewRejected rid) storage_failure s of
             Inl err \<Rightarrow> (s, [], Some err)
           | Inr s1 \<Rightarrow> (case apply_outcomes io rest s1 of (s', done_ix, e) \<Rightarrow> (s', (idx, False) # done_ix, e)))
      | OutcomeEscalate reason _ \<Rightarrow>
          (case append_event io (EscalationTriggered reason (''Review '' @ rid @ '': max rounds exceeded''))
                  ReviewStorageError s of
             Inl err \<Rightarrow> (s, [], Some err)
           | Inr s1 \<Rightarrow> (case apply_outcomes io rest s1 of (s', done_ix, e) \<Rightarrow> (s', (idx, False) # done_ix, e))))"

definition calibration_calls :: "(reviewer_id \<times> reviewer_submission) hash_order \<Rightarrow> active_review \<Rightarrow> calibration_call list" where
  "calibration_calls h r =
     map (\<lambda>(rid, s). \<lparr>cal_reviewer = rid, cal_score = as_u8_score (sub_score s),
        cal_approval = (sub_verdict s = review_verdict.Approve), cal_rejection = (sub_verdict s = review_verdict.Reject)\<rparr>)
       (iterate h (pa_submissions (ar_panel r)))"

definition close_review :: "review_ports \<Rightarrow> nat \<Rightarrow> coordinator \<Rightarrow> coordinator" where
  \<comment> \<open>take the review out, record calibration data and end its sessions\<close>
  "close_review io idx s =
     s\<lparr>co_active := take idx (co_active s) @ drop (Suc idx) (co_active s),
       co_calibration := co_calibration s @ calibration_calls (ro_submissions (rv_orders io)) (co_active s ! idx),
       co_ended := co_ended s @ map snd (pa_sessions (ar_panel (co_active s ! idx)))\<rparr>"

fun finish_reviews :: "review_ports \<Rightarrow> (nat \<times> bool) list \<Rightarrow> coordinator \<Rightarrow> coordinator \<times> (review_error, unit) result" where
  "finish_reviews io [] s = (s, Inr ())"
| "finish_reviews io ((idx, approved) # rest) s =
     (let r = co_active s ! idx; s1 = close_review io idx s in
      if \<not> approved then finish_reviews io rest s1
      else case rv_ack io (ar_claim_id r) of
             Inl e \<Rightarrow> (s1, Inl (ReviewQueueError e))
           | Inr _ \<Rightarrow>
               let s2 = s1\<lparr>co_acked := co_acked s1 @ [ar_claim_id r]\<rparr>
               in (case append_event io (ReviewApproved (ar_review_id r)) storage_failure s2 of
                     Inl e \<Rightarrow> (s2, Inl e)
                   | Inr s3 \<Rightarrow> finish_reviews io rest s3))"

definition check_active_reviews :: "review_ports \<Rightarrow> coordinator \<Rightarrow> coordinator \<times> (review_error, unit) result option" where
  \<comment> \<open>a panic of an evaluation (the result \<open>None\<close>) comes before the first change of the state\<close>
  "check_active_reviews io s =
     (if list_ex (round_panics io s) (co_active s) then (s, None)
      else case apply_outcomes io (round_outcomes io s) s of
        (s1, done_ix, Some err) \<Rightarrow> (s1, Some (Inl err))
      | (s1, done_ix, None) \<Rightarrow>
          map_prod id Some (finish_reviews io (remdups_adj (sort_key (\<lambda>(idx, _). - int idx) done_ix)) s1))"

definition start_review ::
    "review_ports \<Rightarrow> string \<Rightarrow> claim_id \<Rightarrow> coordinator \<Rightarrow> coordinator \<times> (review_error, unit) result" where
  "start_review io item claim s =
     (case select_reviewers (co_config s) of
        Inl e \<Rightarrow> (s, Inl e)
      | Inr reviewers \<Rightarrow>
          if reviewers = [] then
            (case rv_ack io claim of
               Inl e \<Rightarrow> (s, Inl (ReviewQueueError e))
             | Inr _ \<Rightarrow> (s\<lparr>co_acked := co_acked s @ [claim]\<rparr>, Inl (ReviewConfigError ''No reviewers available'')))
          else
            (case spawn_sessions (rv_spawn io) ''worktree'' (new_panel_affinity item item reviewers) of
               (panel, Inl e) \<Rightarrow> (s\<lparr>co_ended := co_ended s @ map snd (pa_sessions panel)\<rparr>, Inl (ReviewPanelError e))
             | (panel, Inr _) \<Rightarrow>
                 (s\<lparr>co_active := co_active s @
                      [\<lparr>ar_review_id = item, ar_task_id = item, ar_claim_id = claim, ar_panel = panel,
                        ar_round = 1, ar_collector = []\<rparr>]\<rparr>, Inr ())))"

definition coordinator_tick :: "review_ports \<Rightarrow> coordinator \<Rightarrow> coordinator \<times> (review_error, unit) result option" where
  "coordinator_tick io s =
     (case check_active_reviews io s of
        (s1, None) \<Rightarrow> (s1, None)
      | (s1, Some (Inl e)) \<Rightarrow> (s1, Some (Inl e))
      | (s1, Some (Inr _)) \<Rightarrow>
          (case rv_claim io of
             Inl e \<Rightarrow> (s1, Some (Inl (ReviewQueueError e)))
           | Inr None \<Rightarrow> (s1, Some (Inr ()))
           | Inr (Some (item, claim)) \<Rightarrow> map_prod id Some (start_review io item claim s1)))"

fun submit_first :: "review_id \<Rightarrow> reviewer_submission \<Rightarrow> active_review list \<Rightarrow> active_review list option" where
  "submit_first rid sub [] = None"
| "submit_first rid sub (r # rs) =
     (if ar_review_id r = rid
      then Some (r\<lparr>ar_panel := panel_submit sub (ar_panel r),
                   ar_collector := collector_add (sub_reviewer_id sub) (sub_score sub) (sub_verdict sub) (ar_collector r)\<rparr> # rs)
      else map_option ((#) r) (submit_first rid sub rs))"

definition submit_review ::
    "review_id \<Rightarrow> reviewer_submission \<Rightarrow> coordinator \<Rightarrow> coordinator \<times> (review_error, unit) result" where
  "submit_review rid sub s =
     (case submit_first rid sub (co_active s) of
        None \<Rightarrow> (s, Inl (ReviewPanelError (PanelNotFound rid)))
      | Some active \<Rightarrow> (s\<lparr>co_active := active\<rparr>, Inr ()))"

definition coordinator_shutdown :: "review_ports \<Rightarrow> coordinator \<Rightarrow> coordinator" where
  "coordinator_shutdown io s =
     s\<lparr>co_active := [],
       co_calibration := co_calibration s @ concat (map (calibration_calls (ro_submissions (rv_orders io))) (co_active s)),
       co_ended := co_ended s @ concat (map (\<lambda>r. map snd (pa_sessions (ar_panel r))) (co_active s))\<rparr>"

end
