(* ===== verification/Review_Coordinator_Props.thy ===== *)
theory Review_Coordinator_Props
  imports Review_Coordinator
begin

text \<open>
  Properties of the review coordinator: approvals are only recorded for complete rounds that
  meet the policy, rounds are bounded, and what happens to a review after a request for changes,
  at the round limit and when the queue claim has expired.
\<close>

subsection \<open>Outcomes\<close>

lemma map_filter_enumerate:
  "List.map_filter f (enumerate n xs) = concat (map (\<lambda>i. case f (i, xs ! (i - n)) of None \<Rightarrow> [] | Some y \<Rightarrow> [y]) [n..<n + length xs])"
proof (induction xs arbitrary: n)
  case (Cons x xs)
  have "concat (map (\<lambda>i. case f (i, (x # xs) ! (i - n)) of None \<Rightarrow> [] | Some y \<Rightarrow> [y]) [Suc n..<n + length (x # xs)]) =
      concat (map (\<lambda>i. case f (i, xs ! (i - Suc n)) of None \<Rightarrow> [] | Some y \<Rightarrow> [y]) [Suc n..<Suc n + length xs])"
    by (intro arg_cong [of _ _ concat] map_cong) (auto simp: nth_Cons' Suc_diff_le)
  with Cons.IH [of "Suc n"] show ?case
    by (simp add: List.map_filter_simps upt_conv_Cons del: upt_Suc split: option.split)
qed (simp add: List.map_filter_simps)

definition outcome_at :: "review_ports \<Rightarrow> coordinator \<Rightarrow> nat \<Rightarrow> review_outcome option" where
  "outcome_at io s i =
     (let r = co_active s ! i in
      if is_round_complete (ar_panel r)
      then (case process_round (rv_orders io) (cc_policy (co_config s)) (ar_panel r) (ar_collector r) of
              Some (Inr out) \<Rightarrow> Some out | _ \<Rightarrow> None)
      else None)"

lemma round_outcomes_conv:
  "round_outcomes io s =
     concat (map (\<lambda>i. case outcome_at io s i of None \<Rightarrow> [] | Some out \<Rightarrow> [(i, out)]) [0..<length (co_active s)])"
  unfolding round_outcomes_def map_filter_enumerate
  by (simp, intro arg_cong [of _ _ concat] map_cong)
    (auto simp: outcome_at_def Let_def split: option.splits sum.splits if_splits)

lemma round_outcomes_iff:
  "(i, out) \<in> set (round_outcomes io s) \<longleftrightarrow> i < length (co_active s) \<and> outcome_at io s i = Some out"
  by (auto simp: round_outcomes_conv split: option.splits)

lemma sorted_concat_options:
  "sorted_wrt (<) ns \<Longrightarrow> sorted_wrt (<) (map fst (concat (map (\<lambda>i. case f i of None \<Rightarrow> [] | Some y \<Rightarrow> [(i, y)]) ns)))"
  for ns :: "nat list"
  by (induction ns) (auto split: option.splits)

lemma round_outcomes_sorted: "sorted_wrt (<) (map fst (round_outcomes io s))"
  unfolding round_outcomes_conv by (intro sorted_concat_options) simp

lemma process_round_no_escalation: "process_round h pol p c \<noteq> Some (Inr (OutcomeEscalate reason fb))"
  by (auto simp: process_round_def Let_def split: sum.splits threshold_result.splits if_splits)

subsection \<open>The loop over the outcomes\<close>

lemma append_event_Inr: "append_event io k err s = Inr s' \<Longrightarrow> s' = log_event k s"
  by (auto simp: append_event_def split: sum.splits)

lemma log_event_simps [simp]:
  "co_active (log_event k s) = co_active s" "co_acked (log_event k s) = co_acked s"
  "co_config (log_event k s) = co_config s" "co_log (log_event k s) = co_log s @ [k]"
  by (simp_all add: log_event_def)

lemma next_round_simps [simp]:
  "co_acked (next_round i s) = co_acked s" "co_config (next_round i s) = co_config s"
  "co_log (next_round i s) = co_log s" "length (co_active (next_round i s)) = length (co_active s)"
  by (simp_all add: next_round_def)

definition step_event :: "event_kind \<Rightarrow> bool" where
  "step_event k = (case k of ReviewChangesRequested _ \<Rightarrow> True | ReviewRejected _ \<Rightarrow> True | _ \<Rightarrow> False)"

abbreviation not_escalation :: "review_outcome \<Rightarrow> bool" where
  "not_escalation out \<equiv> (case out of OutcomeEscalate _ _ \<Rightarrow> False | _ \<Rightarrow> True)"

definition no_escalation :: "(nat \<times> review_outcome) list \<Rightarrow> bool" where
  "no_escalation outs = list_all (\<lambda>(_, out). not_escalation out) outs"

lemma round_outcomes_no_escalation: "no_escalation (round_outcomes io s)"
proof -
  have "outcome_at io s i \<noteq> Some (OutcomeEscalate reason fb)" for i reason fb
    using process_round_no_escalation [of "rv_orders io" "cc_policy (co_config s)"]
    by (auto simp: outcome_at_def Let_def split: option.splits sum.splits if_splits)
  then show ?thesis
    by (auto simp: no_escalation_def list_all_iff round_outcomes_iff split: review_outcome.splits)
qed

lemma apply_outcomes_step:
  assumes "apply_outcomes io ((i, out) # rest) s = (s', ix, e)" and "not_escalation out"
  obtains (stop) "s' = s" "ix = []" "e \<noteq> None"
    | (approved) ix' where "out = OutcomeApproved" "apply_outcomes io rest s = (s', ix', e)" "ix = (i, True) # ix'"
    | (dropped) k ix' where "out \<noteq> OutcomeApproved" "step_event k"
        "apply_outcomes io rest (log_event k s) = (s', ix', e)" "ix = (i, False) # ix'"
    | (again) k where "out \<noteq> OutcomeApproved" "step_event k"
        "\<not> check_max_rounds (cc_policy (co_config s)) (ar_round (co_active s ! i))"
        "apply_outcomes io rest (next_round i (log_event k s)) = (s', ix, e)"
proof (cases out)
  case OutcomeApproved
  with assms show thesis by (auto simp: Let_def split: prod.splits intro: approved)
next
  case (OutcomeChangesRequested fb)
  with assms show thesis
    by (auto simp: Let_def step_event_def split: prod.splits sum.splits if_splits
        dest!: append_event_Inr intro: stop dropped [where k = "ReviewChangesRequested (ar_review_id (co_active s ! i))"]
          again [where k = "ReviewChangesRequested (ar_review_id (co_active s ! i))"])
next
  case (OutcomeRejected fb)
  with assms show thesis
    by (auto simp: Let_def step_event_def split: prod.splits sum.splits
        dest!: append_event_Inr intro: stop dropped [where k = "ReviewRejected (ar_review_id (co_active s ! i))"])
next
  case (OutcomeEscalate r fb)
  with assms show thesis by simp
qed

lemma apply_outcomes_frame:
  assumes "apply_outcomes io outs s = (s', ix, e)" and "no_escalation outs"
  shows "length (co_active s') = length (co_active s) \<and> co_config s' = co_config s \<and> co_acked s' = co_acked s \<and>
    (\<exists>evs. co_log s' = co_log s @ evs \<and> list_all step_event evs)"
  using assms
proof (induction outs arbitrary: s ix)
  case (Cons x outs)
  obtain i out where x: "x = (i, out)" by force
  with Cons.prems have esc: "not_escalation out" "no_escalation outs" by (auto simp: no_escalation_def)
  from Cons.prems(1) [unfolded x] esc(1) show ?case
    by (cases rule: apply_outcomes_step) (use Cons.IH [OF _ esc(2)] in fastforce)+
qed simp

lemma fst_above:
  "fst ` set ix \<subseteq> fst ` set outs \<Longrightarrow> \<forall>x \<in> set outs. i < fst x \<Longrightarrow> (a, b) \<in> set ix \<Longrightarrow> i < a"
  for i :: nat
  by (metis fst_conv image_eqI imageE subsetD)

lemma apply_outcomes_ix:
  assumes "apply_outcomes io outs s = (s', ix, e)" and "no_escalation outs" and "sorted_wrt (<) (map fst outs)"
  shows "sorted_wrt (<) (map fst ix) \<and> fst ` set ix \<subseteq> fst ` set outs \<and>
    (\<forall>i. (i, True) \<in> set ix \<longrightarrow> (i, OutcomeApproved) \<in> set outs) \<and>
    (e = None \<longrightarrow> (\<forall>i. (i, OutcomeApproved) \<in> set outs \<longrightarrow> (i, True) \<in> set ix))"
  using assms
proof (induction outs arbitrary: s ix)
  case (Cons x outs)
  obtain i out where x: "x = (i, out)" by force
  with Cons.prems have esc: "not_escalation out" "no_escalation outs" "sorted_wrt (<) (map fst outs)" and
    less: "\<forall>j \<in> fst ` set outs. i < j" by (auto simp: no_escalation_def)
  from Cons.prems(1) [unfolded x] esc(1) show ?case
  proof (cases rule: apply_outcomes_step)
    case (approved ix')
    with Cons.IH [OF _ esc(2,3), of s ix'] less show ?thesis by (auto simp: x elim: fst_above [of ix' outs i, rotated 2])
  next
    case (dropped k ix')
    with Cons.IH [OF _ esc(2,3), of "log_event k s" ix'] less show ?thesis by (auto simp: x elim: fst_above [of ix' outs i, rotated 2])
  next
    case (again k)
    with Cons.IH [OF again(4) esc(2,3)] less show ?thesis by (auto simp: x)
  qed auto
qed simp

lemma next_round_nth: "j \<noteq> i \<Longrightarrow> co_active (next_round i s) ! j = co_active s ! j"
  by (simp add: next_round_def)

lemma apply_outcomes_active:
  assumes "apply_outcomes io outs s = (s', ix, e)" and "no_escalation outs" and "sorted_wrt (<) (map fst outs)"
    and "j \<notin> fst ` set outs \<or> (j, OutcomeApproved) \<in> set outs"
  shows "co_active s' ! j = co_active s ! j"
  using assms
proof (induction outs arbitrary: s ix)
  case (Cons x outs)
  obtain i out where x: "x = (i, out)" by force
  with Cons.prems have esc: "not_escalation out" "no_escalation outs" "sorted_wrt (<) (map fst outs)" and
    less: "\<forall>j \<in> fst ` set outs. i < j" by (auto simp: no_escalation_def)
  have rest: "j \<notin> fst ` set outs \<or> (j, OutcomeApproved) \<in> set outs"
    using Cons.prems(4) less by (auto simp: x)
  from Cons.prems(1) [unfolded x] esc(1) show ?case
  proof (cases rule: apply_outcomes_step)
    case (approved ix')
    with Cons.IH [OF _ esc(2,3) rest, of s ix'] show ?thesis by simp
  next
    case (dropped k ix')
    with Cons.IH [OF _ esc(2,3) rest, of "log_event k s" ix'] show ?thesis by simp
  next
    case (again k)
    have "j \<noteq> i" using Cons.prems(4) less again(1) by (force simp: x)
    with Cons.IH [OF again(4) esc(2,3) rest] show ?thesis by (simp add: next_round_nth)
  qed simp
qed simp

subsection \<open>Closing reviews\<close>

lemma close_review_simps [simp]:
  "co_acked (close_review io i s) = co_acked s" "co_config (close_review io i s) = co_config s"
  "co_log (close_review io i s) = co_log s" "co_acked (log_event k s) = co_acked s"
  by (simp_all add: close_review_def)

lemma close_review_active:
  assumes "i < length (co_active s)"
  shows "length (co_active (close_review io i s)) = length (co_active s) - 1"
    and "j < i \<Longrightarrow> co_active (close_review io i s) ! j = co_active s ! j"
    and "set (co_active (close_review io i s)) \<subseteq> set (co_active s)"
  using assms by (auto simp: close_review_def nth_append dest: in_set_takeD in_set_dropD)

definition record_approval :: "review_ports \<Rightarrow> nat \<Rightarrow> coordinator \<Rightarrow> coordinator" where
  "record_approval io i s =
     log_event (ReviewApproved (ar_review_id (co_active s ! i)))
       ((close_review io i s)\<lparr>co_acked := co_acked s @ [ar_claim_id (co_active s ! i)]\<rparr>)"

lemma record_approval_simps [simp]:
  "co_acked (record_approval io i s) = co_acked s @ [ar_claim_id (co_active s ! i)]"
  "co_config (record_approval io i s) = co_config s"
  "co_log (record_approval io i s) = co_log s @ [ReviewApproved (ar_review_id (co_active s ! i))]"
  "co_active (record_approval io i s) = co_active (close_review io i s)"
  by (simp_all add: record_approval_def)

lemma finish_reviews_step:
  assumes "finish_reviews io ((i, ok) # rest) s = (s', r)"
  obtains (failed) e acks where "ok" "r = Inl e" "s' = (close_review io i s)\<lparr>co_acked := co_acked s @ acks\<rparr>"
      "(\<exists>e. rv_ack io (ar_claim_id (co_active s ! i)) = Inl e) \<or>
       (\<exists>e. rv_append io (ReviewApproved (ar_review_id (co_active s ! i))) = Inl e)"
    | (dropped) "\<not> ok" "finish_reviews io rest (close_review io i s) = (s', r)"
    | (approved) "ok" "finish_reviews io rest (record_approval io i s) = (s', r)"
proof (cases ok)
  case False
  with assms show thesis by (auto intro: dropped)
next
  case True
  have same: "close_review io i s = (close_review io i s)\<lparr>co_acked := co_acked s @ []\<rparr>"
    by (simp add: close_review_def)
  show thesis
  proof (cases "rv_ack io (ar_claim_id (co_active s ! i))")
    case (Inl e)
    with assms True have "r = Inl (ReviewQueueError e)" "s' = close_review io i s" by (auto simp: Let_def)
    with failed [of _ "[]"] True Inl same show thesis by auto
  next
    case (Inr u)
    show thesis
    proof (cases "rv_append io (ReviewApproved (ar_review_id (co_active s ! i)))")
      case (Inl e)
      with assms True Inr have "r = Inl (storage_failure e)"
        "s' = (close_review io i s)\<lparr>co_acked := co_acked s @ [ar_claim_id (co_active s ! i)]\<rparr>"
        by (auto simp: Let_def append_event_def)
      with failed True Inl show thesis by blast
    next
      case (Inr v)
      with assms True \<open>rv_ack io _ = Inr u\<close> have "finish_reviews io rest (record_approval io i s) = (s', r)"
        by (auto simp: Let_def append_event_def record_approval_def)
      with True show thesis by (rule approved)
    qed
  qed
qed

definition descending :: "coordinator \<Rightarrow> (nat \<times> bool) list \<Rightarrow> bool" where
  "descending s ix \<longleftrightarrow> sorted_wrt (>) (map fst ix) \<and> (\<forall>x \<in> set ix. fst x < length (co_active s))"

lemma descending_bound:
  assumes "descending s ((i, ok) # rest)"
  shows "i < length (co_active s)" "\<forall>x \<in> set rest. fst x < i"
  using assms by (auto simp: descending_def)

lemma descending_ConsD:
  assumes "descending s ((i, ok) # rest)"
  shows "descending (close_review io i s) rest" "descending (record_approval io i s) rest"
    "\<forall>j < i. co_active (close_review io i s) ! j = co_active s ! j"
  using assms descending_bound [OF assms] close_review_active(1,2) [OF descending_bound(1) [OF assms], where io = io]
  by (fastforce simp: descending_def)+

lemma finish_reviews_frame:
  "finish_reviews io ix s = (s', r) \<Longrightarrow> descending s ix \<Longrightarrow>
     co_config s' = co_config s \<and> set (co_active s') \<subseteq> set (co_active s) \<and> set (co_acked s) \<subseteq> set (co_acked s')"
proof (induction ix arbitrary: s)
  case (Cons x ix)
  obtain i ok where x: "x = (i, ok)" by force
  note desc = descending_ConsD [OF Cons.prems(2) [unfolded x], of io]
  note sub = close_review_active(3) [OF descending_bound(1) [OF Cons.prems(2) [unfolded x]], of io]
  from Cons.prems(1) [unfolded x] show ?case
  proof (cases rule: finish_reviews_step)
    case (dropped)
    with Cons.IH [OF _ desc(1)] sub show ?thesis by fastforce
  next
    case (approved)
    with Cons.IH [OF _ desc(2)] sub show ?thesis by fastforce
  qed (use sub in auto)
qed simp

lemma finish_reviews_log:
  "finish_reviews io ix s = (s', r) \<Longrightarrow> descending s ix \<Longrightarrow>
     \<exists>evs. co_log s' = co_log s @ evs \<and>
       (\<forall>k \<in> set evs. \<exists>i. (i, True) \<in> set ix \<and> k = ReviewApproved (ar_review_id (co_active s ! i)) \<and>
          ar_claim_id (co_active s ! i) \<in> set (co_acked s'))"
proof (induction ix arbitrary: s)
  case (Cons x ix)
  obtain i ok where x: "x = (i, ok)" by force
  note desc = descending_ConsD [OF Cons.prems(2) [unfolded x], of io] and below = descending_bound(2) [OF Cons.prems(2) [unfolded x]]
  from Cons.prems(1) [unfolded x] show ?case
  proof (cases rule: finish_reviews_step)
    case (dropped)
    from Cons.IH [OF dropped(2) desc(1)] desc(3) below show ?thesis
      by (fastforce simp: x)
  next
    case (approved)
    from Cons.IH [OF approved(2) desc(2)] obtain evs where
      evs: "co_log s' = co_log (record_approval io i s) @ evs"
        "\<forall>k \<in> set evs. \<exists>j. (j, True) \<in> set ix \<and> k = ReviewApproved (ar_review_id (co_active (close_review io i s) ! j)) \<and>
          ar_claim_id (co_active (close_review io i s) ! j) \<in> set (co_acked s')" by auto
    have "ar_claim_id (co_active s ! i) \<in> set (co_acked s')"
      using finish_reviews_frame [OF approved(2) desc(2)] by auto
    then show ?thesis using evs desc(3) below approved(1)
      by (intro exI [of _ "ReviewApproved (ar_review_id (co_active s ! i)) # evs"]) (fastforce simp: x)
  qed auto
qed simp

lemma finish_reviews_complete:
  "finish_reviews io ix s = (s', r) \<Longrightarrow> descending s ix \<Longrightarrow> (i, True) \<in> set ix \<Longrightarrow>
     \<forall>c. \<exists>u. rv_ack io c = Inr u \<Longrightarrow> \<forall>k. \<exists>u. rv_append io k = Inr u \<Longrightarrow>
     ReviewApproved (ar_review_id (co_active s ! i)) \<in> set (drop (length (co_log s)) (co_log s'))"
proof (induction ix arbitrary: s)
  case (Cons x ix)
  obtain j ok where x: "x = (j, ok)" by force
  note desc = descending_ConsD [OF Cons.prems(2) [unfolded x], of io] and below = descending_bound(2) [OF Cons.prems(2) [unfolded x]]
  from Cons.prems(1) [unfolded x] show ?case
  proof (cases rule: finish_reviews_step)
    case (failed e acks)
    with Cons.prems(4,5) show ?thesis by (metis Inl_Inr_False)
  next
    case dropped
    with Cons.prems(3) have "(i, True) \<in> set ix" by (auto simp: x)
    with Cons.IH [OF dropped(2) desc(1) _ Cons.prems(4,5)] desc(3) below show ?thesis by fastforce
  next
    case approved
    show ?thesis
    proof (cases "(i, True) \<in> set ix")
      case True
      with Cons.IH [OF approved(2) desc(2) _ Cons.prems(4,5)] desc(3) below
      have "ReviewApproved (ar_review_id (co_active s ! i)) \<in> set (drop (Suc (length (co_log s))) (co_log s'))" by fastforce
      then show ?thesis using set_drop_subset_set_drop [of "length (co_log s)" "Suc (length (co_log s))" "co_log s'"] by auto
    next
      case False
      with Cons.prems(3) have "i = j" by (auto simp: x)
      moreover obtain evs where "co_log s' = co_log (record_approval io j s) @ evs"
        using finish_reviews_log [OF approved(2) desc(2)] by metis
      ultimately show ?thesis using approved(1) by simp
    qed
  qed
qed simp

subsection \<open>A check of the active reviews\<close>

lemma insort_key_last: "\<forall>y \<in> set ys. \<not> f x \<le> f y \<Longrightarrow> insort_key f x ys = ys @ [x]"
  by (induction ys) auto

lemma sort_descending:
  "sorted_wrt (<) (map fst ix) \<Longrightarrow> sort_key (\<lambda>(i, _). - int i) ix = rev ix" for ix :: "(nat \<times> bool) list"
  by (induction ix) (fastforce intro!: insort_key_last)+

lemma check_active_reviews_cases:
  assumes "check_active_reviews io s = (s', r)"
  obtains (panicked) "list_ex (round_panics io s) (co_active s)" "s' = s" "r = None"
    | (failed) ix err where "apply_outcomes io (round_outcomes io s) s = (s', ix, Some err)" "r = Some (Inl err)"
    | (finished) s1 ix r' where "apply_outcomes io (round_outcomes io s) s = (s1, ix, None)"
        "finish_reviews io (rev ix) s1 = (s', r')" "descending s1 (rev ix)" "r = Some r'"
proof (cases "list_ex (round_panics io s) (co_active s)")
  case True
  with assms have "s' = s" "r = None" by (simp_all add: check_active_reviews_def)
  with True show thesis by (rule panicked)
next
  case runs: False
  obtain s1 ix e where run: "apply_outcomes io (round_outcomes io s) s = (s1, ix, e)" using prod_cases3 by blast
  note ix = apply_outcomes_ix [OF run round_outcomes_no_escalation round_outcomes_sorted]
  from ix have "distinct (map fst ix)" using strict_sorted_iff by blast
  then have "distinct ix" by (simp add: distinct_map)
  show thesis
  proof (cases e)
    case None
    have "remdups_adj (rev ix) = rev ix" using \<open>distinct ix\<close> by (simp add: remdups_adj_distinct)
    with assms run None ix runs obtain r' where "finish_reviews io (rev ix) s1 = (s', r')" "r = Some r'"
      by (cases "finish_reviews io (rev ix) s1") (auto simp: check_active_reviews_def sort_descending)
    moreover have "fst x < length (co_active s1)" if "x \<in> set ix" for x
    proof -
      from that ix have "fst x \<in> fst ` set (round_outcomes io s)" by blast
      then have "fst x < length (co_active s)" by (force simp: round_outcomes_iff)
      with apply_outcomes_frame [OF run round_outcomes_no_escalation] show ?thesis by simp
    qed
    then have "descending s1 (rev ix)"
      using ix by (simp add: descending_def rev_map [symmetric] sorted_wrt_rev)
    ultimately show thesis using run None finished by blast
  next
    case (Some err)
    with assms run failed runs show thesis by (auto simp: check_active_reviews_def)
  qed
qed

definition approvable :: "review_ports \<Rightarrow> coordinator \<Rightarrow> active_review \<Rightarrow> bool" where
  "approvable io s a \<longleftrightarrow> is_round_complete (ar_panel a) \<and> pa_submissions (ar_panel a) \<noteq> [] \<and>
     evaluate (ro_scores (rv_orders io)) (cc_policy (co_config s)) (ar_collector a) = Inr ThApproved"

lemma outcome_approved_iff:
  "outcome_at io s i = Some OutcomeApproved \<longleftrightarrow> approvable io s (co_active s ! i)"
  by (auto simp: outcome_at_def approvable_def process_round_def Let_def split: threshold_result.splits sum.splits if_splits option.splits)

lemma step_event_not_approved: "list_all step_event evs \<Longrightarrow> ReviewApproved rid \<notin> set evs"
  by (auto simp: list_all_iff step_event_def)

lemma approved_index:
  assumes "apply_outcomes io (round_outcomes io s) s = (s1, ix, e)" and "(i, True) \<in> set ix"
  shows "i < length (co_active s) \<and> approvable io s (co_active s ! i) \<and> co_active s1 ! i = co_active s ! i"
proof -
  have "(i, OutcomeApproved) \<in> set (round_outcomes io s)"
    using apply_outcomes_ix [OF assms(1) round_outcomes_no_escalation round_outcomes_sorted] assms(2) by blast
  moreover from this have "co_active s1 ! i = co_active s ! i"
    by (intro apply_outcomes_active [OF assms(1) round_outcomes_no_escalation round_outcomes_sorted]) simp
  ultimately show ?thesis by (simp add: round_outcomes_iff outcome_approved_iff)
qed

lemma check_active_reviews_log:
  assumes "check_active_reviews io s = (s', r)"
  shows "\<exists>evs. co_log s' = co_log s @ evs \<and>
    (\<forall>k \<in> set evs. step_event k \<or>
      (\<exists>a \<in> set (co_active s). approvable io s a \<and> k = ReviewApproved (ar_review_id a) \<and> ar_claim_id a \<in> set (co_acked s')))"
  using assms
proof (cases rule: check_active_reviews_cases)
  case panicked
  then show ?thesis by simp
next
  case (failed ix err)
  from apply_outcomes_frame [OF failed(1) round_outcomes_no_escalation] show ?thesis by (auto simp: list_all_iff)
next
  case (finished s1 ix r')
  from apply_outcomes_frame [OF finished(1) round_outcomes_no_escalation] obtain evs where
    evs: "co_log s1 = co_log s @ evs" "list_all step_event evs" by blast
  from finish_reviews_log [OF finished(2,3)] obtain evs' where
    evs': "co_log s' = co_log s1 @ evs'"
      "\<forall>k \<in> set evs'. \<exists>i. (i, True) \<in> set ix \<and> k = ReviewApproved (ar_review_id (co_active s1 ! i)) \<and>
        ar_claim_id (co_active s1 ! i) \<in> set (co_acked s')" by auto
  have "co_active s ! i \<in> set (co_active s) \<and> approvable io s (co_active s ! i) \<and> co_active s1 ! i = co_active s ! i"
    if "(i, True) \<in> set ix" for i
    using approved_index [OF finished(1) that] by simp
  then have new: "\<forall>k \<in> set evs'. \<exists>a \<in> set (co_active s). approvable io s a \<and> k = ReviewApproved (ar_review_id a) \<and>
      ar_claim_id a \<in> set (co_acked s')"
    using evs'(2) by metis
  show ?thesis using evs evs'(1) new by (intro exI [of _ "evs @ evs'"]) (simp add: list_all_iff ball_Un)
qed

lemma apply_outcomes_total:
  assumes "\<forall>k. \<exists>u. rv_append io k = Inr u" and "apply_outcomes io outs s = (s', ix, e)"
  shows "e = None"
proof -
  have run: "append_event io k err t = Inr (log_event k t)" for k err t
    using assms(1) [rule_format, of k] by (auto simp: append_event_def)
  from assms(2) show ?thesis
  proof (induction outs arbitrary: s ix)
    case (Cons x outs)
    obtain i out where x: "x = (i, out)" by force
    from Cons.prems show ?case
      by (cases out) (auto simp: x Let_def run split: prod.splits if_splits dest: Cons.IH)
  qed simp
qed

lemma check_active_reviews_approves:
  assumes "check_active_reviews io s = (s', r)" and "a \<in> set (co_active s)" and "approvable io s a"
    and calm: "\<not> list_ex (round_panics io s) (co_active s)"
    and ack: "\<forall>c. \<exists>u. rv_ack io c = Inr u" and app: "\<forall>k. \<exists>u. rv_append io k = Inr u"
  shows "ReviewApproved (ar_review_id a) \<in> set (drop (length (co_log s)) (co_log s'))"
proof -
  from assms(2) obtain i where i: "i < length (co_active s)" "co_active s ! i = a" by (auto simp: in_set_conv_nth)
  with assms(3) have out: "(i, OutcomeApproved) \<in> set (round_outcomes io s)"
    by (simp add: round_outcomes_iff outcome_approved_iff)
  from assms(1) show ?thesis
  proof (cases rule: check_active_reviews_cases)
    case (failed ix err)
    with apply_outcomes_total [OF app] show ?thesis by (metis option.distinct(1))
  next
    case (finished s1 ix r')
    have "(i, True) \<in> set ix" "co_active s1 ! i = a"
      using apply_outcomes_ix [OF finished(1) round_outcomes_no_escalation round_outcomes_sorted]
        apply_outcomes_active [OF finished(1) round_outcomes_no_escalation round_outcomes_sorted, of i] out i by auto
    with finish_reviews_complete [OF finished(2,3) _ ack app, of i]
    have "ReviewApproved (ar_review_id a) \<in> set (drop (length (co_log s1)) (co_log s'))" by simp
    moreover have "length (co_log s) \<le> length (co_log s1)"
      using apply_outcomes_frame [OF finished(1) round_outcomes_no_escalation] by auto
    ultimately show ?thesis by (meson set_drop_subset_set_drop subsetD)
  qed (use calm in simp)
qed

definition scores_in_range :: "active_review \<Rightarrow> bool" where
  "scores_in_range a \<longleftrightarrow> list_all (\<lambda>(r, s, v). as_u8_score s \<le> 10) (ar_collector a)"

lemma no_panic_in_range: "list_all scores_in_range (co_active s) \<Longrightarrow> \<not> list_ex (round_panics io s) (co_active s)"
proof
  assume range: "list_all scores_in_range (co_active s)" "list_ex (round_panics io s) (co_active s)"
  then obtain a where a: "scores_in_range a" "round_panics io s a" by (auto simp: list_all_iff list_ex_iff)
  have "\<forall>(s, v) \<in> snd ` set (ar_collector a). as_u8_score s \<le> 10" using a(1) by (auto simp: scores_in_range_def list_all_iff)
  from evaluate_in_range [OF this, of "ro_scores (rv_orders io)" "cc_policy (co_config s)"] a(2) show False
    by (auto simp: round_panics_def process_round_def Let_def split: if_splits threshold_result.splits)
qed

subsection \<open>Reachable coordinators\<close>

inductive coordinator_reachable :: "coordinator_config \<Rightarrow> coordinator \<Rightarrow> bool" for c where
  new: "coordinator_reachable c (new_coordinator c)"
| tick: "coordinator_reachable c s \<Longrightarrow> coordinator_reachable c (fst (coordinator_tick io s))"
| submit: "coordinator_reachable c s \<Longrightarrow> coordinator_reachable c (fst (submit_review rid sub s))"
| shutdown: "coordinator_reachable c s \<Longrightarrow> coordinator_reachable c (coordinator_shutdown io s)"

definition review_ok :: "coordinator_config \<Rightarrow> active_review \<Rightarrow> bool" where
  "review_ok c a \<longleftrightarrow>
     1 \<le> ar_round a \<and> ar_round a \<le> max 1 (pol_max_review_rounds (cc_policy c)) \<and>
     pa_reviewer_ids (ar_panel a) = take (min (cc_panel_size c) (length (cc_default_reviewers c))) (cc_default_reviewers c) \<and>
     pa_reviewer_ids (ar_panel a) \<noteq> [] \<and>
     list_all (hm_contains (pa_sessions (ar_panel a))) (pa_reviewer_ids (ar_panel a)) \<and>
     fst ` set (ar_collector a) \<subseteq> fst ` set (pa_submissions (ar_panel a))"

definition not_escalated :: "event_kind \<Rightarrow> bool" where
  "not_escalated k = (case k of EscalationTriggered _ _ \<Rightarrow> False | _ \<Rightarrow> True)"

definition coordinator_ok :: "coordinator_config \<Rightarrow> coordinator \<Rightarrow> bool" where
  "coordinator_ok c s \<longleftrightarrow> co_config s = c \<and> list_all (review_ok c) (co_active s)"

lemma spawn_reviewers_ok:
  "spawn_reviewers gw wt rs ss = (ss', Inr ()) \<Longrightarrow> list_all (hm_contains ss') rs \<and> fst ` set ss \<subseteq> fst ` set ss'"
proof (induction gw wt rs ss rule: spawn_reviewers.induct)
  case (2 gw wt r rs ss)
  then show ?case
    by (auto simp: hm_contains_conv hm_insert_def dom_update list_all_iff split: if_splits sum.splits)
qed simp

lemma next_round_ok:
  assumes "list_all (review_ok c) (co_active s)" and "co_config s = c" and "i < length (co_active s)"
    and "\<not> check_max_rounds (cc_policy (co_config s)) (ar_round (co_active s ! i))"
  shows "list_all (review_ok c) (co_active (next_round i s))"
proof -
  have "review_ok c (co_active s ! i)" using assms(1,3) by (simp add: list_all_length)
  then have "review_ok c ((co_active s ! i)\<lparr>ar_round := ar_round (co_active s ! i) + 1, ar_collector := []\<rparr>)"
    using assms(2,4) by (auto simp: review_ok_def check_max_rounds_def)
  then show ?thesis using assms(1) set_update_subset_insert [of "co_active s" i]
    by (auto simp: next_round_def list_all_iff)
qed

lemma apply_outcomes_ok:
  assumes "apply_outcomes io outs s = (s', ix, e)" and "no_escalation outs"
    and "\<forall>x \<in> set outs. fst x < length (co_active s)" and "list_all (review_ok c) (co_active s)" and "co_config s = c"
  shows "list_all (review_ok c) (co_active s')"
  using assms
proof (induction outs arbitrary: s ix)
  case (Cons x outs)
  obtain i out where x: "x = (i, out)" by force
  with Cons.prems have esc: "not_escalation out" "no_escalation outs" and
    bound: "i < length (co_active s)" "\<forall>x \<in> set outs. fst x < length (co_active s)" by (auto simp: no_escalation_def)
  from Cons.prems(1) [unfolded x] esc(1) show ?case
  proof (cases rule: apply_outcomes_step)
    case (approved ix')
    show ?thesis by (rule Cons.IH [OF approved(2) esc(2) bound(2) Cons.prems(4,5)])
  next
    case (dropped k ix')
    show ?thesis by (rule Cons.IH [OF dropped(3) esc(2)]) (use bound(2) Cons.prems(4,5) in simp_all)
  next
    case (again k)
    have "list_all (review_ok c) (co_active (next_round i (log_event k s)))"
      by (rule next_round_ok) (use again(3) bound(1) Cons.prems(4,5) in simp_all)
    then show ?thesis by (rule Cons.IH [OF again(4) esc(2), rotated]) (use bound(2) Cons.prems(5) in simp_all)
  qed (use Cons.prems in simp)
qed simp

lemma check_active_reviews_ok:
  assumes "check_active_reviews io s = (s', r)" and "coordinator_ok c s"
  shows "coordinator_ok c s'"
proof -
  have bound: "\<forall>x \<in> set (round_outcomes io s). fst x < length (co_active s)" by (auto simp: round_outcomes_iff)
  from assms(1) show ?thesis
  proof (cases rule: check_active_reviews_cases)
    case panicked
    with assms(2) show ?thesis by simp
  next
    case (failed ix err)
    with apply_outcomes_ok [OF failed(1) round_outcomes_no_escalation bound]
      apply_outcomes_frame [OF failed(1) round_outcomes_no_escalation] assms(2)
    show ?thesis by (simp add: coordinator_ok_def)
  next
    case (finished s1 ix r')
    with apply_outcomes_ok [OF finished(1) round_outcomes_no_escalation bound] finish_reviews_frame [OF finished(2,3)]
      apply_outcomes_frame [OF finished(1) round_outcomes_no_escalation] assms(2)
    show ?thesis by (auto simp: coordinator_ok_def list_all_iff)
  qed
qed

lemma start_review_ok:
  assumes "coordinator_ok c s"
  shows "coordinator_ok c (fst (start_review io item claim s))"
proof (cases "select_reviewers (co_config s)")
  case (Inr rs)
  then have rs: "rs = take (min (cc_panel_size c) (length (cc_default_reviewers c))) (cc_default_reviewers c)"
    using assms by (auto simp: select_reviewers_def coordinator_ok_def split: if_splits)
  obtain ss res where run: "spawn_reviewers (rv_spawn io) ''worktree'' rs [] = (ss, res)" by force
  have "list_all (hm_contains ss) rs" if "res = Inr u" for u
    using spawn_reviewers_ok run that by (metis (full_types) old.unit.exhaust)
  then show ?thesis using assms Inr rs run
    by (auto simp: start_review_def coordinator_ok_def review_ok_def spawn_sessions_def new_panel_affinity_def
        split: sum.splits)
qed (use assms in \<open>simp add: start_review_def\<close>)

lemma tick_ok: "coordinator_ok c s \<Longrightarrow> coordinator_ok c (fst (coordinator_tick io s))"
  using check_active_reviews_ok [of io s _ _ c] start_review_ok [of c _ io]
  by (auto simp: coordinator_tick_def split: prod.splits sum.splits option.splits)

lemma submit_first_ok:
  "submit_first rid sub as = Some as' \<Longrightarrow> list_all (review_ok c) as \<Longrightarrow> list_all (review_ok c) as'"
proof (induction as arbitrary: as')
  case (Cons a as)
  have "fst ` set (ar_collector a) \<subseteq> fst ` set (pa_submissions (ar_panel a))" using Cons.prems(2) by (simp add: review_ok_def)
  then have "fst ` set (hm_insert r v (ar_collector a)) \<subseteq> fst ` set (hm_insert r w (pa_submissions (ar_panel a)))" for r v w
    unfolding hm_insert_def dom_update by blast
  with Cons show ?case
    by (auto simp: review_ok_def panel_submit_def collector_add_def simp del: split_paired_All split: if_splits)
qed simp

text \<open>No operation of the coordinator escalates: the branch of the check for it is never taken, against
  what the policy documents for the round limit.\<close>

lemma never_escalates: "coordinator_reachable c s \<Longrightarrow> list_all not_escalated (co_log s)"
proof (induction rule: coordinator_reachable.induct)
  case (tick s io)
  obtain s1 r where check: "check_active_reviews io s = (s1, r)" by force
  from check_active_reviews_log [OF this] tick.IH have "list_all not_escalated (co_log s1)"
    by (fastforce simp: list_all_iff not_escalated_def step_event_def split: event_kind.splits)
  moreover have "co_log (fst (start_review io item claim s1)) = co_log s1" for item claim
    by (auto simp: start_review_def Let_def split: sum.split prod.split)
  ultimately show ?case by (simp add: coordinator_tick_def check split: option.split sum.split prod.split)
qed (simp_all add: new_coordinator_def submit_review_def coordinator_shutdown_def split: option.split)

lemma coordinator_reachable_ok: "coordinator_reachable c s \<Longrightarrow> coordinator_ok c s"
proof (induction rule: coordinator_reachable.induct)
  case new
  show ?case by (simp add: coordinator_ok_def new_coordinator_def)
next
  case (tick s io)
  then show ?case by (intro tick_ok)
next
  case (submit s rid sub)
  then show ?case
    by (auto simp: coordinator_ok_def submit_review_def split: option.splits dest: submit_first_ok)
next
  case (shutdown s io)
  then show ?case by (simp add: coordinator_ok_def coordinator_shutdown_def)
qed

subsection \<open>Theorems\<close>

definition accepting_ports :: review_ports where
  "accepting_ports =
     \<lparr>rv_append = (\<lambda>_. Inr ()), rv_ack = (\<lambda>_. Inr ()), rv_spawn = (\<lambda>spec. Inr (''S-'' @ ss_agent_id spec)),
      rv_orders = \<lparr>ro_scores = stored_order, ro_submissions = stored_order, ro_files = stored_order\<rparr>,
      rv_claim = Inr (Some (''T-1'', ''C-1''))\<rparr>"

definition demo_coordinator_config :: coordinator_config where
  "demo_coordinator_config =
     \<lparr>cc_panel_size = 2, cc_default_reviewers = [''r1'', ''r2'', ''r3''], cc_policy = default_review_policy\<rparr>"

definition demo_submission :: "string \<Rightarrow> nat \<Rightarrow> review_verdict \<Rightarrow> reviewer_submission" where
  "demo_submission r n v =
     \<lparr>sub_reviewer_id = r, sub_session_id = ''S-'' @ r, sub_score = Review_Score n, sub_verdict = v, sub_findings = []\<rparr>"

definition demo_review :: "reviewer_submission list \<Rightarrow> active_review" where
  "demo_review subs =
     \<lparr>ar_review_id = ''T-1'', ar_task_id = ''T-1'', ar_claim_id = ''C-1'',
      ar_panel = fold panel_submit subs (new_panel_affinity ''T-1'' ''T-1'' [''r1'', ''r2'']), ar_round = 1,
      ar_collector = fold (\<lambda>s. collector_add (sub_reviewer_id s) (sub_score s) (sub_verdict s)) subs []\<rparr>"

definition demo_coordinator :: "reviewer_submission list \<Rightarrow> coordinator" where
  "demo_coordinator subs = (new_coordinator demo_coordinator_config)\<lparr>co_active := [demo_review subs]\<rparr>"

lemmas demo_review_simps = demo_coordinator_def demo_review_def demo_submission_def demo_coordinator_config_def
  accepting_ports_def new_coordinator_def new_panel_affinity_def panel_submit_def collector_add_def hm_insert_def
  default_review_policy_def

lemmas check_simps = check_active_reviews_def round_panics_def round_outcomes_def List.map_filter_simps process_round_def Let_def
  append_event_def check_max_rounds_def log_event_def next_round_def close_review_def

definition demo_approved :: coordinator where
  "demo_approved = demo_coordinator [demo_submission ''r1'' 8 review_verdict.Approve, demo_submission ''r2'' 7 review_verdict.Approve]"

definition demo_sent_back :: "nat \<Rightarrow> coordinator" where
  "demo_sent_back n =
     (let s = demo_coordinator [demo_submission ''r1'' 8 review_verdict.Approve, demo_submission ''r2'' 5 review_verdict.RequestChanges]
      in s\<lparr>co_config := (co_config s)\<lparr>cc_policy := default_review_policy\<lparr>pol_min_approvals := 1, pol_max_review_rounds := n\<rparr>\<rparr>\<rparr>)"

lemma demo_approved_meets:
  "is_round_complete (ar_panel (hd (co_active demo_approved))) \<and>
   pa_submissions (ar_panel (hd (co_active demo_approved))) \<noteq> [] \<and>
   meets_thresholds (cc_policy (co_config demo_approved)) (map snd (ar_collector (hd (co_active demo_approved)))) \<and>
   \<not> scores_panic (cc_policy (co_config demo_approved)) (map snd (ar_collector (hd (co_active demo_approved)))) \<and>
   length (ar_collector (hd (co_active demo_approved))) \<le> u8_max \<and>
   co_active demo_approved = [hd (co_active demo_approved)]"
  by (simp add: demo_approved_def demo_review_simps is_round_complete_def hm_contains_def meets_thresholds_def scores_panic_def u8_max_def)

lemma demo_approved_range: "list_all scores_in_range (co_active demo_approved)"
  by (simp add: demo_approved_def demo_review_simps scores_in_range_def)

lemmas demo_approved_calm = no_panic_in_range [OF demo_approved_range]

lemma demo_sent_back_evaluates:
  "co_active (demo_sent_back n) = [hd (co_active (demo_sent_back n))] \<and>
   is_round_complete (ar_panel (hd (co_active (demo_sent_back n)))) \<and>
   pa_submissions (ar_panel (hd (co_active (demo_sent_back n)))) \<noteq> [] \<and>
   evaluate stored_order (cc_policy (co_config (demo_sent_back n))) (ar_collector (hd (co_active (demo_sent_back n)))) =
     Inr ThChangesRequested"
  by (simp add: demo_sent_back_def demo_review_simps is_round_complete_def hm_contains_def evaluate_def Let_def
      hm_values_def)

text \<open>C28: An approval is earned: whenever a check of the active reviews appends \<open>ReviewApproved\<close> for a
  review, that review was active, every reviewer of its panel had submitted, the scores collected
  for it met the policy, and its queue claim was acknowledged before the event. This holds
  whatever the event store and the queue answer.\<close>

theorem approval_is_earned:
  assumes "check_active_reviews io s = (s', r)"
    and "ReviewApproved rid \<in> set (drop (length (co_log s)) (co_log s'))"
  shows "\<exists>a \<in> set (co_active s). ar_review_id a = rid \<and> is_round_complete (ar_panel a) \<and>
    (length (ar_collector a) \<le> u8_max \<longrightarrow> meets_thresholds (cc_policy (co_config s)) (map snd (ar_collector a))) \<and>
    ar_claim_id a \<in> set (co_acked s')"
proof -
  have "\<not> step_event (ReviewApproved rid)" by (simp add: step_event_def)
  with check_active_reviews_log [OF assms(1)] assms(2) have
    "\<exists>a \<in> set (co_active s). approvable io s a \<and> rid = ar_review_id a \<and> ar_claim_id a \<in> set (co_acked s')"
    by (metis append_eq_conv_conj event_kind.inject)
  then show ?thesis by (auto simp: approvable_def evaluate_exact)
qed

theorem approval_is_earned_witness:
  "\<exists>a \<in> set (co_active demo_approved). ar_review_id a = ''T-1'' \<and> is_round_complete (ar_panel a) \<and>
    (length (ar_collector a) \<le> u8_max \<longrightarrow> meets_thresholds default_review_policy (map snd (ar_collector a))) \<and>
    ar_claim_id a \<in> set (co_acked (fst (check_active_reviews accepting_ports demo_approved)))"
proof -
  have "ReviewApproved (ar_review_id (hd (co_active demo_approved))) \<in>
      set (drop (length (co_log demo_approved)) (co_log (fst (check_active_reviews accepting_ports demo_approved))))"
    using demo_approved_meets
    by (intro check_active_reviews_approves [OF prod.collapse [symmetric]])
      (auto simp: approvable_def evaluate_exact demo_approved_calm accepting_ports_def intro: hd_in_set)
  then have "ReviewApproved ''T-1'' \<in>
      set (drop (length (co_log demo_approved)) (co_log (fst (check_active_reviews accepting_ports demo_approved))))"
    by (simp add: demo_approved_def demo_coordinator_def demo_review_def)
  from approval_is_earned [OF prod.collapse [symmetric] this] show ?thesis
    by (simp add: demo_approved_def demo_coordinator_def demo_coordinator_config_def new_coordinator_def)
qed

text \<open>C29: Every earned approval is recorded: when the store and the queue accept and no collected score is above
  10, a check of the active reviews appends \<open>ReviewApproved\<close> for each active review whose panel has fully
  submitted, with at most 255 scores collected, and whose scores meet the policy, however many reviews end in
  the same check and although closing one shifts the positions of the others. (256 approvals count as none, and a
  review whose scores are all above 10 makes the check panic.)\<close>

theorem earned_approval_is_recorded:
  assumes "check_active_reviews io s = (s', r)" and "a \<in> set (co_active s)"
    and "is_round_complete (ar_panel a)" and "pa_submissions (ar_panel a) \<noteq> []" and "length (ar_collector a) \<le> u8_max"
    and "meets_thresholds (cc_policy (co_config s)) (map snd (ar_collector a))"
    and "list_all scores_in_range (co_active s)"
    and "\<forall>c. \<exists>u. rv_ack io c = Inr u" and "\<forall>k. \<exists>u. rv_append io k = Inr u"
  shows "ReviewApproved (ar_review_id a) \<in> set (drop (length (co_log s)) (co_log s'))"
proof -
  have "\<not> scores_panic (cc_policy (co_config s)) (map snd (ar_collector a))"
    using assms(2,7) by (cases "ar_collector a") (auto simp: list_all_iff scores_in_range_def scores_panic_def)
  then have "approvable io s a" using assms(3-6) by (simp add: approvable_def evaluate_exact)
  from check_active_reviews_approves [OF assms(1,2) this no_panic_in_range [OF assms(7)] assms(8,9)] show ?thesis .
qed

theorem earned_approval_is_recorded_witness:
  "ReviewApproved (ar_review_id (hd (co_active demo_approved))) \<in>
     set (drop (length (co_log demo_approved)) (co_log (fst (check_active_reviews accepting_ports demo_approved))))"
  using demo_approved_meets
  by (intro earned_approval_is_recorded [OF prod.collapse [symmetric]])
    (auto simp: accepting_ports_def demo_approved_range intro: hd_in_set)

text \<open>C34: In every reachable coordinator (any sequence of ticks, submissions and shutdowns, under any
  answers of the ports) each active review is in a round between one and the policy's maximum,
  its panel is the configured prefix of the default reviewers, is not empty and has a session for
  every reviewer, and every collected score has a submission. (A maximum of zero still allows the first round.)\<close>

theorem reachable_reviews_bounded:
  assumes "coordinator_reachable c s"
  shows "coordinator_ok c s"
  using assms by (rule coordinator_reachable_ok)

theorem reachable_reviews_bounded_witness:
  "coordinator_ok demo_coordinator_config
     (fst (submit_review ''T-1'' (demo_submission ''r1'' 8 review_verdict.Approve)
        (fst (coordinator_tick accepting_ports (new_coordinator demo_coordinator_config)))))"
  by (intro reachable_reviews_bounded coordinator_reachable.intros)

text \<open>The claim is acknowledged before the approval is recorded, so a claim that can no longer be
  acknowledged (it has expired, since claims are never renewed) costs the approval: the review
  leaves the active list with its sessions ended, no event is appended, and the check returns the
  queue error.\<close>

theorem failed_ack_loses_approval:
  assumes "co_active s = [a]" and "is_round_complete (ar_panel a)" and "pa_submissions (ar_panel a) \<noteq> []"
    and "evaluate (ro_scores (rv_orders io)) (cc_policy (co_config s)) (ar_collector a) = Inr ThApproved"
    and "rv_ack io (ar_claim_id a) = Inl e"
  shows "\<exists>s'. check_active_reviews io s = (s', Some (Inl (ReviewQueueError e))) \<and> co_active s' = [] \<and>
    co_log s' = co_log s \<and> co_ended s' = co_ended s @ map snd (pa_sessions (ar_panel a))"
  using assms
  by (simp add: check_simps)

definition expired_claim_ports :: review_ports where
  "expired_claim_ports = accepting_ports\<lparr>rv_ack := (\<lambda>_. Inl ''claim expired'')\<rparr>"

theorem failed_ack_loses_approval_witness:
  "\<exists>s'. check_active_reviews expired_claim_ports demo_approved = (s', Some (Inl (ReviewQueueError ''claim expired''))) \<and>
     co_active s' = [] \<and> co_log s' = co_log demo_approved \<and>
     co_ended s' = co_ended demo_approved @ map snd (pa_sessions (ar_panel (hd (co_active demo_approved))))"
  using demo_approved_meets by (intro failed_ack_loses_approval) (simp_all add: evaluate_exact expired_claim_ports_def)

text \<open>A review that is still sent back in the last round is dropped: the check appends
  \<open>ReviewChangesRequested\<close>, ends the sessions and removes the review, but neither escalates nor
  acknowledges its queue claim.\<close>

theorem exhausted_review_is_dropped:
  assumes "co_active s = [a]" and "is_round_complete (ar_panel a)" and "pa_submissions (ar_panel a) \<noteq> []"
    and "evaluate (ro_scores (rv_orders io)) (cc_policy (co_config s)) (ar_collector a) = Inr ThChangesRequested"
    and "pol_max_review_rounds (cc_policy (co_config s)) \<le> ar_round a"
    and "rv_append io (ReviewChangesRequested (ar_review_id a)) = Inr ()"
  shows "\<exists>s'. check_active_reviews io s = (s', Some (Inr ())) \<and> co_active s' = [] \<and>
    co_log s' = co_log s @ [ReviewChangesRequested (ar_review_id a)] \<and> co_acked s' = co_acked s"
  using assms
  by (simp add: check_simps)

theorem exhausted_review_is_dropped_witness:
  "\<exists>s'. check_active_reviews accepting_ports (demo_sent_back 1) = (s', Some (Inr ())) \<and> co_active s' = [] \<and>
     co_log s' = co_log (demo_sent_back 1) @ [ReviewChangesRequested (ar_review_id (hd (co_active (demo_sent_back 1))))] \<and>
     co_acked s' = co_acked (demo_sent_back 1)"
  using demo_sent_back_evaluates [of 1]
  by (intro exhausted_review_is_dropped) (simp_all add: accepting_ports_def, simp add: demo_sent_back_def demo_review_simps)

text \<open>A new round keeps the submissions of the old one: after a request for changes with rounds left
  the panel still counts as complete, so the first resubmission that alone meets the policy
  approves the review at the next check, without a new score of any other reviewer.\<close>

theorem stale_panel_decides_next_round:
  assumes "co_active s = [a]" and "is_round_complete (ar_panel a)" and "pa_submissions (ar_panel a) \<noteq> []"
    and "evaluate (ro_scores (rv_orders io)) (cc_policy (co_config s)) (ar_collector a) = Inr ThChangesRequested"
    and "ar_round a < pol_max_review_rounds (cc_policy (co_config s))"
    and "meets_thresholds (cc_policy (co_config s)) [(sub_score sub, sub_verdict sub)]" "as_u8_score (sub_score sub) \<le> 10"
    and "\<forall>c. \<exists>u. rv_ack io c = Inr u" and "\<forall>k. \<exists>u. rv_append io k = Inr u"
  shows "ReviewApproved (ar_review_id a) \<in>
    set (co_log (fst (check_active_reviews io (fst (submit_review (ar_review_id a) sub (fst (check_active_reviews io s)))))))"
proof -
  define a1 where "a1 = a\<lparr>ar_round := ar_round a + 1, ar_collector := []\<rparr>"
  define a2 where "a2 = a1\<lparr>ar_panel := panel_submit sub (ar_panel a),
    ar_collector := collector_add (sub_reviewer_id sub) (sub_score sub) (sub_verdict sub) []\<rparr>"
  obtain u where "rv_append io (ReviewChangesRequested (ar_review_id a)) = Inr u" using assms(9) by blast
  with assms(1-5) have s1: "fst (check_active_reviews io s) =
      s\<lparr>co_log := co_log s @ [ReviewChangesRequested (ar_review_id a)], co_active := [a1]\<rparr>"
    by (simp add: check_simps a1_def)
  define s2 where "s2 = fst (submit_review (ar_review_id a) sub (fst (check_active_reviews io s)))"
  have s2: "co_active s2 = [a2]" "co_config s2 = co_config s"
    by (simp_all add: s2_def s1 submit_review_def a1_def a2_def)
  have "is_round_complete (ar_panel a2)" using assms(2)
    by (auto simp: a2_def is_round_complete_def panel_submit_def list_all_iff hm_contains_def)
  moreover have "length (ar_collector a2) \<le> u8_max" "map snd (ar_collector a2) = [(sub_score sub, sub_verdict sub)]"
    by (simp_all add: a2_def collector_add_def hm_insert_def u8_max_def)
  moreover have "pa_submissions (ar_panel a2) \<noteq> []"
    by (cases "pa_submissions (ar_panel a)") (auto simp: a2_def panel_submit_def hm_insert_def)
  ultimately have "approvable io s2 a2" using assms(6,7) by (simp add: approvable_def evaluate_exact s2 scores_panic_def)
  moreover have "list_all scores_in_range (co_active s2)"
    using assms(7) by (simp add: s2 a2_def scores_in_range_def collector_add_def hm_insert_def)
  ultimately have "ReviewApproved (ar_review_id a2) \<in> set (drop (length (co_log s2)) (co_log (fst (check_active_reviews io s2))))"
    using check_active_reviews_approves [of io s2, OF prod.collapse [symmetric] _ _ no_panic_in_range assms(8,9)] by (simp add: s2)
  then have "ReviewApproved (ar_review_id a2) \<in> set (co_log (fst (check_active_reviews io s2)))" by (rule in_set_dropD)
  then show ?thesis by (simp add: s2_def a2_def a1_def)
qed

theorem stale_panel_decides_next_round_witness:
  "let a = hd (co_active (demo_sent_back 3)); sub = demo_submission ''r1'' 9 review_verdict.Approve
   in ReviewApproved (ar_review_id a) \<in>
     set (co_log (fst (check_active_reviews accepting_ports
       (fst (submit_review (ar_review_id a) sub (fst (check_active_reviews accepting_ports (demo_sent_back 3))))))))"
  unfolding Let_def using demo_sent_back_evaluates [of 3]
  by (intro stale_panel_decides_next_round)
    (simp_all add: accepting_ports_def, simp_all add: demo_sent_back_def demo_review_simps meets_thresholds_def)

end
