(* ===== verification/Lease_Queue.thy ===== *)
theory Lease_Queue
  imports Rust_Strings "HOL-Library.Char_ord" "HOL-Library.List_Lexorder"
begin

text \<open>
  \<open>crates/brehon-store-fjall/src/queue.rs\<close> with the key schema of \<open>keys.rs\<close> and the claim of
  \<open>types/view.rs\<close>: durable queue claims with leases. The embedded database and the JSON codec are
  external crates; they are the record \<open>queue_env\<close>, and \<open>env_ok\<close> states what the code relies on:
  reads see the last committed batch, iteration is in key order, and a decoded claim is the
  encoded one. Reads, iteration and commits may fail at any point.

  A call reads the clocks and draws its identifier once (\<open>lease_now\<close>); durations and times are in
  milliseconds. All claim operations hold one lock, so each is a step of its own.
\<close>

subsection \<open>Keys\<close>

definition pad20 :: "nat \<Rightarrow> string" where
  "pad20 n = replicate (20 - length (show_nat n)) (CHR ''0'') @ show_nat n"

definition queue_key :: "string \<Rightarrow> nat \<Rightarrow> string" where
  "queue_key q n = ''queue:'' @ q @ '':'' @ pad20 n"

definition queue_prefix :: "string \<Rightarrow> string" where
  "queue_prefix q = ''queue:'' @ q @ '':''"

definition lease_key :: "string \<Rightarrow> string" where
  "lease_key c = ''lease:'' @ c"

definition lease_prefix :: string where
  "lease_prefix = ''lease:''"

definition claimed_key :: "string \<Rightarrow> string \<Rightarrow> string" where
  "claimed_key q item = ''claimed:'' @ q @ '':'' @ item"

subsection \<open>Claims, clocks, errors\<close>

record queue_claim =
  qc_claim_id :: string
  qc_queue :: string
  qc_item_id :: string
  qc_consumer :: string
  qc_expires_at :: time
  qc_lease_epoch :: "string option"
  qc_lease_duration_ms :: "nat option"
  qc_monotonic_deadline_ms :: "nat option"

datatype store_error =
    StoreIo string
  | StoreStorage string
  | StoreSerialization string
  | ClaimNotFound string
  | ClaimExpired string
  | VersionMismatch nat nat

record lease_now =
  ln_epoch :: string
  ln_elapsed_ms :: nat
  ln_utc :: time
  ln_uuid :: string

definition duration_ms_saturating :: "nat \<Rightarrow> nat" where
  "duration_ms_saturating d = min u64_max d"

definition chrono_duration_from_std :: "nat \<Rightarrow> int" where
  \<comment> \<open>the conversion fails beyond the signed 64-bit range of milliseconds\<close>
  "chrono_duration_from_std d = (if int d < 2 ^ 63 then int d else 60000)"

definition deadline_ms_from_now :: "lease_now \<Rightarrow> nat \<Rightarrow> nat" where
  "deadline_ms_from_now clk d = sat_add u64_max (ln_elapsed_ms clk) (duration_ms_saturating d)"

definition claim_time_expired :: "lease_now \<Rightarrow> queue_claim \<Rightarrow> bool" where
  "claim_time_expired clk c \<longleftrightarrow> qc_expires_at c < ln_utc clk"

definition claim_is_expired :: "lease_now \<Rightarrow> queue_claim \<Rightarrow> bool" where
  "claim_is_expired clk c =
     (case qc_lease_epoch c of
        Some epoch \<Rightarrow>
          if epoch \<noteq> ln_epoch clk then True
          else (case qc_monotonic_deadline_ms c of
                  Some deadline \<Rightarrow> deadline \<le> ln_elapsed_ms clk
                | None \<Rightarrow> claim_time_expired clk c)
      | None \<Rightarrow> claim_time_expired clk c)"

subsection \<open>The database and the codec\<close>

datatype batch_op = BatchInsert string string | BatchRemove string

record 'db queue_env =
  qe_get :: "'db \<Rightarrow> string \<Rightarrow> (string, string option) result"
  qe_iter :: "'db \<Rightarrow> (string, string \<times> string) result list"
  qe_commit :: "batch_op list \<Rightarrow> 'db \<Rightarrow> (string, 'db) result"
  qe_encode :: "queue_claim \<Rightarrow> (string, string) result"
  qe_decode :: "string \<Rightarrow> (string, queue_claim) result"

fun apply_op :: "batch_op \<Rightarrow> (string \<rightharpoonup> string) \<Rightarrow> (string \<rightharpoonup> string)" where
  "apply_op (BatchInsert k v) m = m(k \<mapsto> v)"
| "apply_op (BatchRemove k) m = m(k := None)"

definition apply_batch :: "batch_op list \<Rightarrow> (string \<rightharpoonup> string) \<Rightarrow> (string \<rightharpoonup> string)" where
  "apply_batch ops m = fold apply_op ops m"

text \<open>
  The documented behaviour of the database and the codec, for an abstraction \<open>view\<close> of the stored
  contents. A failing iteration yields an initial part of the entries before the error.
\<close>

definition iter_ok :: "(string \<rightharpoonup> string) \<Rightarrow> (string, string \<times> string) result list \<Rightarrow> bool" where
  "iter_ok m es \<longleftrightarrow>
     (\<exists>kvs. sorted_wrt (<) (map fst kvs) \<and> map_of kvs = m \<and>
       (es = map Inr kvs \<or> (\<exists>n e rest. es = map Inr (take n kvs) @ Inl e # rest)))"

definition env_ok :: "'db queue_env \<Rightarrow> ('db \<Rightarrow> string \<rightharpoonup> string) \<Rightarrow> bool" where
  "env_ok env view \<longleftrightarrow>
     (\<forall>db k r. qe_get env db k = Inr r \<longrightarrow> r = view db k) \<and>
     (\<forall>db. iter_ok (view db) (qe_iter env db)) \<and>
     (\<forall>ops db db'. qe_commit env ops db = Inr db' \<longrightarrow> view db' = apply_batch ops (view db)) \<and>
     (\<forall>c b. qe_encode env c = Inr b \<longrightarrow> qe_decode env b = Inr c)"

subsection \<open>Claiming\<close>

definition commit :: "'db queue_env \<Rightarrow> batch_op list \<Rightarrow> 'db \<Rightarrow> 'a \<Rightarrow> 'db \<times> (store_error, 'a) result" where
  "commit env ops db r =
     (case qe_commit env ops db of Inl e \<Rightarrow> (db, Inl (StoreStorage e)) | Inr db' \<Rightarrow> (db', Inr r))"

definition claim_marker_is_active ::
    "'db queue_env \<Rightarrow> lease_now \<Rightarrow> string \<Rightarrow> string \<Rightarrow> string \<Rightarrow> 'db \<Rightarrow> 'db \<times> (store_error, bool) result" where
  "claim_marker_is_active env clk marker q item db =
     (case qe_get env db marker of
        Inl e \<Rightarrow> (db, Inl (StoreStorage e))
      | Inr None \<Rightarrow> (db, Inr False)
      | Inr (Some claim_id) \<Rightarrow>
          (case qe_get env db (lease_key claim_id) of
             Inl e \<Rightarrow> (db, Inl (StoreStorage e))
           | Inr None \<Rightarrow> commit env [BatchRemove marker] db False
           | Inr (Some lease) \<Rightarrow>
               (case qe_decode env lease of
                  Inl e \<Rightarrow> commit env [BatchRemove (lease_key claim_id), BatchRemove marker] db False
                | Inr claim \<Rightarrow>
                    if claim_is_expired clk claim
                    then commit env [BatchRemove (lease_key claim_id), BatchRemove marker] db False
                    else if qc_queue claim \<noteq> q \<or> qc_item_id claim \<noteq> item
                    then commit env [BatchRemove marker] db False
                    else (db, Inr True))))"

definition new_claim :: "lease_now \<Rightarrow> string \<Rightarrow> string \<Rightarrow> string \<Rightarrow> nat \<Rightarrow> queue_claim" where
  "new_claim clk q item consumer lease_for =
     \<lparr>qc_claim_id = ln_uuid clk, qc_queue = q, qc_item_id = item, qc_consumer = consumer,
      qc_expires_at = ln_utc clk + chrono_duration_from_std lease_for,
      qc_lease_epoch = Some (ln_epoch clk),
      qc_lease_duration_ms = Some (duration_ms_saturating lease_for),
      qc_monotonic_deadline_ms = Some (deadline_ms_from_now clk lease_for)\<rparr>"

fun claim_scan ::
    "'db queue_env \<Rightarrow> lease_now \<Rightarrow> string \<Rightarrow> string \<Rightarrow> nat \<Rightarrow> (string, string \<times> string) result list \<Rightarrow> 'db \<Rightarrow>
      'db \<times> (store_error, queue_claim option) result"
where
  "claim_scan env clk q consumer lease_for [] db = (db, Inr None)"
| "claim_scan env clk q consumer lease_for (Inl e # rest) db = (db, Inl (StoreStorage e))"
| "claim_scan env clk q consumer lease_for (Inr (k, item) # rest) db =
     (if \<not> starts_with k (queue_prefix q) then claim_scan env clk q consumer lease_for rest db
      else
        (case claim_marker_is_active env clk (claimed_key q item) q item db of
           (db1, Inl e) \<Rightarrow> (db1, Inl e)
         | (db1, Inr True) \<Rightarrow> claim_scan env clk q consumer lease_for rest db1
         | (db1, Inr False) \<Rightarrow>
             let claim = new_claim clk q item consumer lease_for
             in (case qe_encode env claim of
                   Inl e \<Rightarrow> (db1, Inl (StoreSerialization e))
                 | Inr bytes \<Rightarrow>
                     commit env
                       [BatchInsert (lease_key (ln_uuid clk)) bytes, BatchInsert (claimed_key q item) (ln_uuid clk)]
                       db1 (Some claim))))"

definition queue_claim_next ::
    "'db queue_env \<Rightarrow> lease_now \<Rightarrow> string \<Rightarrow> string \<Rightarrow> nat \<Rightarrow> 'db \<Rightarrow> 'db \<times> (store_error, queue_claim option) result" where
  "queue_claim_next env clk q consumer lease_for db = claim_scan env clk q consumer lease_for (qe_iter env db) db"

subsection \<open>Acknowledging, renewing, cleaning up\<close>

definition drop_claim :: "queue_claim \<Rightarrow> string \<Rightarrow> batch_op list" where
  "drop_claim claim claim_id = [BatchRemove (lease_key claim_id), BatchRemove (claimed_key (qc_queue claim) (qc_item_id claim))]"

definition with_live_claim ::
    "'db queue_env \<Rightarrow> lease_now \<Rightarrow> string \<Rightarrow> (queue_claim \<Rightarrow> 'db \<times> (store_error, unit) result) \<Rightarrow> 'db \<Rightarrow>
      'db \<times> (store_error, unit) result" where
  \<comment> \<open>the common start of \<open>ack_claim\<close> and \<open>renew_claim\<close>\<close>
  "with_live_claim env clk claim_id body db =
     (case qe_get env db (lease_key claim_id) of
        Inl e \<Rightarrow> (db, Inl (StoreStorage e))
      | Inr None \<Rightarrow> (db, Inl (ClaimNotFound claim_id))
      | Inr (Some bytes) \<Rightarrow>
          (case qe_decode env bytes of
             Inl e \<Rightarrow> (db, Inl (StoreSerialization e))
           | Inr claim \<Rightarrow>
               if claim_is_expired clk claim
               then (case commit env (drop_claim claim claim_id) db () of
                       (db', Inl e) \<Rightarrow> (db', Inl e)
                     | (db', Inr _) \<Rightarrow> (db', Inl (ClaimExpired claim_id)))
               else body claim))"

fun find_item :: "string \<Rightarrow> string \<Rightarrow> (string, string \<times> string) result list \<Rightarrow> (store_error, string option) result" where
  "find_item prefix item [] = Inr None"
| "find_item prefix item (Inl e # rest) = Inl (StoreStorage e)"
| "find_item prefix item (Inr (k, v) # rest) =
     (if \<not> starts_with k prefix then find_item prefix item rest
      else if v = item then Inr (Some k) else find_item prefix item rest)"

definition ack_claim :: "'db queue_env \<Rightarrow> lease_now \<Rightarrow> string \<Rightarrow> 'db \<Rightarrow> 'db \<times> (store_error, unit) result" where
  "ack_claim env clk claim_id db =
     with_live_claim env clk claim_id
       (\<lambda>claim. case find_item (queue_prefix (qc_queue claim)) (qc_item_id claim) (qe_iter env db) of
          Inl e \<Rightarrow> (db, Inl e)
        | Inr key \<Rightarrow>
            commit env (drop_claim claim claim_id @ (case key of None \<Rightarrow> [] | Some k \<Rightarrow> [BatchRemove k])) db ()) db"

definition renewed :: "lease_now \<Rightarrow> nat \<Rightarrow> queue_claim \<Rightarrow> queue_claim" where
  "renewed clk lease_for claim =
     claim\<lparr>qc_expires_at := ln_utc clk + chrono_duration_from_std lease_for,
           qc_lease_epoch := Some (ln_epoch clk),
           qc_lease_duration_ms := Some (duration_ms_saturating lease_for),
           qc_monotonic_deadline_ms := Some (deadline_ms_from_now clk lease_for)\<rparr>"

definition renew_claim :: "'db queue_env \<Rightarrow> lease_now \<Rightarrow> string \<Rightarrow> nat \<Rightarrow> 'db \<Rightarrow> 'db \<times> (store_error, unit) result" where
  "renew_claim env clk claim_id lease_for db =
     with_live_claim env clk claim_id
       (\<lambda>claim. case qe_encode env (renewed clk lease_for claim) of
          Inl e \<Rightarrow> (db, Inl (StoreSerialization e))
        | Inr bytes \<Rightarrow> commit env [BatchInsert (lease_key claim_id) bytes] db ()) db"

fun list_expired_claims ::
    "'db queue_env \<Rightarrow> lease_now \<Rightarrow> (string, string \<times> string) result list \<Rightarrow> (store_error, queue_claim list) result" where
  "list_expired_claims env clk [] = Inr []"
| "list_expired_claims env clk (Inl e # rest) = Inl (StoreStorage e)"
| "list_expired_claims env clk (Inr (k, v) # rest) =
     (if \<not> starts_with k lease_prefix then list_expired_claims env clk rest
      else (case qe_decode env v of
              Inl _ \<Rightarrow> list_expired_claims env clk rest
            | Inr claim \<Rightarrow>
                (case list_expired_claims env clk rest of
                   Inl e \<Rightarrow> Inl e
                 | Inr expired \<Rightarrow> Inr (if claim_is_expired clk claim then claim # expired else expired))))"

definition cleanup_expired_claims :: "'db queue_env \<Rightarrow> lease_now \<Rightarrow> 'db \<Rightarrow> 'db \<times> (store_error, nat) result" where
  "cleanup_expired_claims env clk db =
     (case list_expired_claims env clk (qe_iter env db) of
        Inl e \<Rightarrow> (db, Inl e)
      | Inr expired \<Rightarrow>
          if expired = [] then (db, Inr 0)
          else commit env (concat (map (\<lambda>c. drop_claim c (qc_claim_id c)) expired)) db (length expired))"

end
