(* ===== verification/Lease_Queue_Props.thy ===== *)
theory Lease_Queue_Props
  imports Lease_Queue
begin

text \<open>
  Properties of the lease queue: the order of keys is the order of sequence numbers, a claim is
  given for the first item in that order without a live claim, and a live claim excludes every
  other claim for its item until it is acknowledged or its lease ends.
\<close>

subsection \<open>Keys\<close>

lemma key_classes [simp]:
  "lease_key c \<noteq> claimed_key q i" "claimed_key q i \<noteq> lease_key c"
  "queue_key q n \<noteq> lease_key c" "queue_key q n \<noteq> claimed_key q' i"
  "lease_key c = lease_key c' \<longleftrightarrow> c = c'" "claimed_key q i = claimed_key q i' \<longleftrightarrow> i = i'"
  by (simp_all add: lease_key_def claimed_key_def queue_key_def)

lemma queue_prefix_not:
  "starts_with k (queue_prefix q) \<Longrightarrow> k \<noteq> lease_key c \<and> k \<noteq> claimed_key q' i"
  by (auto simp: starts_with_conv queue_prefix_def lease_key_def claimed_key_def)

lemma parse_digits_Cons: "parse_digits (c # s) = digit_val c * 10 ^ length s + parse_digits s"
proof -
  have "foldl (\<lambda>acc c. acc * 10 + digit_val c) a s = a * 10 ^ length s + parse_digits s" for a
    unfolding parse_digits_def
  proof (induction s arbitrary: a)
    case (Cons d s)
    from Cons [of "a * 10 + digit_val d"] Cons [of "digit_val d"] show ?case by (simp add: algebra_simps)
  qed simp
  from this [of "digit_val c"] show ?thesis by (simp add: parse_digits_def)
qed

lemma digit_val_less: "is_digit c \<Longrightarrow> digit_val c < 10"
  unfolding is_digit_def digit_val_def by linarith

lemma digit_order: "is_digit c \<Longrightarrow> is_digit d \<Longrightarrow> c < d \<longleftrightarrow> digit_val c < digit_val d"
  by (auto simp: is_digit_def digit_val_def less_char_def)

lemma digit_inj: "is_digit c \<Longrightarrow> is_digit d \<Longrightarrow> c = d \<longleftrightarrow> digit_val c = digit_val d"
  using digit_order [of c d] digit_order [of d c] by (metis less_irrefl neqE)

lemma parse_digits_bound: "list_all is_digit s \<Longrightarrow> parse_digits s < 10 ^ length s"
proof (induction s)
  case (Cons c s)
  then have "digit_val c * 10 ^ length s + parse_digits s < Suc (digit_val c) * 10 ^ length s" by simp
  also have "\<dots> \<le> 10 * 10 ^ length s" using Cons.prems digit_val_less [of c] by (intro mult_right_mono) auto
  finally show ?case by (simp add: parse_digits_Cons)
qed (simp add: parse_digits_def)

lemma digits_order:
  "length s = length t \<Longrightarrow> list_all is_digit s \<Longrightarrow> list_all is_digit t \<Longrightarrow> s < t \<longleftrightarrow> parse_digits s < parse_digits t"
proof (induction s t rule: list_induct2)
  case (Cons c s d t)
  have bounds: "parse_digits s < 10 ^ length s" "parse_digits t < 10 ^ length s"
    using parse_digits_bound [of s] parse_digits_bound [of t] Cons by simp_all
  have less: "x * 10 ^ length s + parse_digits u < y * 10 ^ length s + parse_digits w"
    if "x < y" "parse_digits u < 10 ^ length s" for x y u w
  proof -
    have "x * 10 ^ length s + parse_digits u < Suc x * 10 ^ length s" using that(2) by simp
    also have "\<dots> \<le> y * 10 ^ length s" using that(1) by (intro mult_right_mono) auto
    finally show ?thesis by simp
  qed
  consider "digit_val c < digit_val d" | "digit_val d < digit_val c" | "digit_val c = digit_val d" by linarith
  then show ?case
  proof cases
    case 1
    with less [of "digit_val c" "digit_val d" s t] Cons bounds show ?thesis by (simp add: parse_digits_Cons digit_order)
  next
    case 2
    with less [of "digit_val d" "digit_val c" t s] Cons bounds digit_inj [of c d] show ?thesis
      by (auto simp: parse_digits_Cons digit_order)
  next
    case 3
    with Cons digit_inj [of c d] show ?thesis by (simp add: parse_digits_Cons)
  qed
qed (simp add: parse_digits_def)

lemma length_show_nat: "n < 10 ^ Suc k \<Longrightarrow> length (show_nat n) \<le> Suc k"
proof (induction k arbitrary: n)
  case (Suc k)
  have "n div 10 < 10 ^ Suc k" using Suc.prems by (simp add: less_mult_imp_div_less)
  from Suc.IH [OF this] show ?case by (subst show_nat.simps) simp
qed (subst show_nat.simps, simp)

lemma pad20_facts:
  assumes "n \<le> u64_max"
  shows "length (pad20 n) = 20" "list_all is_digit (pad20 n)" "parse_digits (pad20 n) = n"
proof -
  have "parse_digits (replicate k (CHR ''0'') @ s) = parse_digits s" for k s
    by (induction k) (simp_all add: parse_digits_Cons digit_val_def)
  then show "parse_digits (pad20 n) = n" by (simp add: pad20_def)
  have "n < 10 ^ Suc 19" using assms by (simp add: u64_max_def)
  from length_show_nat [OF this] show "length (pad20 n) = 20" by (simp add: pad20_def)
  show "list_all is_digit (pad20 n)"
    using show_nat_digits [of n] by (auto simp: pad20_def list_all_iff is_digit_def)
qed

lemma append_less_append: "p @ s < p @ t \<longleftrightarrow> s < t" for p :: string
  by (induction p) simp_all

lemma append_le_append: "p @ s \<le> p @ t \<longleftrightarrow> s \<le> t" for p :: string
  by (induction p) simp_all

text \<open>The keys of a queue sort by sequence number: for 64-bit sequence numbers the zero-padded
  keys compare, byte by byte, as the numbers do. Iterating a queue in key order is therefore
  first in, first out.\<close>

theorem queue_keys_in_sequence_order:
  assumes "a \<le> u64_max" and "b \<le> u64_max"
  shows "queue_key q a < queue_key q b \<longleftrightarrow> a < b"
  using digits_order [of "pad20 a" "pad20 b"] pad20_facts [OF assms(1)] pad20_facts [OF assms(2)]
  unfolding queue_key_def append_less_append by simp

theorem queue_keys_in_sequence_order_witness:
  "queue_key ''review:high'' 9 < queue_key ''review:high'' 10 \<and> \<not> show_nat 9 < show_nat 10"
proof -
  have "queue_key ''review:high'' 9 < queue_key ''review:high'' 10"
    using queue_keys_in_sequence_order [of 9 10 "''review:high''"] by (simp add: u64_max_def)
  moreover have "\<not> show_nat 9 < show_nat 10"
    by (simp add: show_nat.simps digit_char_def less_char_def)
  ultimately show ?thesis ..
qed

subsection \<open>The database\<close>

lemma env_okD:
  assumes "env_ok env view"
  shows "qe_get env db k = Inr r \<Longrightarrow> r = view db k" "iter_ok (view db) (qe_iter env db)"
    "qe_commit env ops db = Inr db' \<Longrightarrow> view db' = apply_batch ops (view db)"
    "qe_encode env c = Inr b \<Longrightarrow> qe_decode env b = Inr c"
  using assms unfolding env_ok_def by blast+

lemma apply_batch_simps [simp]:
  "apply_batch [] m = m" "apply_batch (BatchInsert k v # ops) m = apply_batch ops (m(k \<mapsto> v))"
  "apply_batch (BatchRemove k # ops) m = apply_batch ops (m(k := None))"
  "apply_batch (ops1 @ ops2) m = apply_batch ops2 (apply_batch ops1 m)"
  by (simp_all add: apply_batch_def)

definition without :: "string set \<Rightarrow> (string \<rightharpoonup> string) \<Rightarrow> (string \<rightharpoonup> string)" where
  "without K m = m |` (- K)"

lemma without_apply [simp]: "without K m k = (if k \<in> K then None else m k)"
  by (simp add: without_def)

lemma remove_eq_without: "m(k := None) = without {k} m"
  by (auto simp: fun_eq_iff)

lemma without_without [simp]: "without K (without L m) = without (K \<union> L) m"
  by (auto simp: fun_eq_iff)

lemma apply_removes: "apply_batch (map BatchRemove ks) m = without (set ks) m"
proof (induction ks arbitrary: m)
  case (Cons k ks)
  then show ?case by (auto simp: fun_eq_iff)
qed (auto simp: fun_eq_iff)

lemma commit_cases:
  assumes "env_ok env view" and "commit env ops db r = (db', res)"
  obtains (failed) e where "db' = db" "res = Inl (StoreStorage e)"
    | (committed) "res = Inr r" "view db' = apply_batch ops (view db)"
  using assms env_okD(3) [OF assms(1), of ops db] by (auto simp: commit_def split: sum.splits)

subsection \<open>Live claims\<close>

definition live_claim :: "'db queue_env \<Rightarrow> lease_now \<Rightarrow> (string \<rightharpoonup> string) \<Rightarrow> string \<Rightarrow> string \<Rightarrow> bool" where
  "live_claim env clk m q item =
     (case m (claimed_key q item) of
        None \<Rightarrow> False
      | Some cid \<Rightarrow>
          (case m (lease_key cid) of
             None \<Rightarrow> False
           | Some bytes \<Rightarrow>
               (case qe_decode env bytes of
                  Inl _ \<Rightarrow> False
                | Inr c \<Rightarrow> \<not> claim_is_expired clk c \<and> qc_queue c = q \<and> qc_item_id c = item)))"

definition lease_recorded :: "'db queue_env \<Rightarrow> (string \<rightharpoonup> string) \<Rightarrow> queue_claim \<Rightarrow> bool" where
  "lease_recorded env m c \<longleftrightarrow>
     m (claimed_key (qc_queue c) (qc_item_id c)) = Some (qc_claim_id c) \<and>
     (case m (lease_key (qc_claim_id c)) of None \<Rightarrow> False | Some b \<Rightarrow> qe_decode env b = Inr c)"

text \<open>Dropping a marker, or a marker with a lease that no live claim can use.\<close>

lemma live_drop_marker:
  "live_claim env clk (m(claimed_key q item := None)) q item' \<longleftrightarrow> item' \<noteq> item \<and> live_claim env clk m q item'"
  by (auto simp: live_claim_def split: option.splits)

lemma live_drop_lease:
  assumes "m (lease_key cid) = Some b" and "\<And>c. qe_decode env b = Inr c \<Longrightarrow> claim_is_expired clk c"
  shows "live_claim env clk (m(lease_key cid := None)) q item \<longleftrightarrow> live_claim env clk m q item"
  using assms by (auto simp: live_claim_def split: option.splits sum.splits)

lemma marker_cases:
  assumes "env_ok env view" and "claim_marker_is_active env clk (claimed_key q item) q item db = (db', r)"
  obtains (kept) "db' = db" "case r of Inl _ \<Rightarrow> True
        | Inr active \<Rightarrow> active = live_claim env clk (view db) q item \<and> (active \<or> view db (claimed_key q item) = None)"
    | (drop_marker) "commit env [BatchRemove (claimed_key q item)] db False = (db', r)" "\<not> live_claim env clk (view db) q item"
        "\<And>c. lease_recorded env (view db) c \<Longrightarrow> \<not> (qc_queue c = q \<and> qc_item_id c = item)"
    | (drop_lease) cid b where
        "commit env [BatchRemove (lease_key cid), BatchRemove (claimed_key q item)] db False = (db', r)"
        "\<not> live_claim env clk (view db) q item" "view db (lease_key cid) = Some b" "view db (claimed_key q item) = Some cid"
        "\<And>c. qe_decode env b = Inr c \<Longrightarrow> claim_is_expired clk c"
proof -
  note get = env_okD(1) [OF assms(1), of db]
  show thesis
  proof (cases "qe_get env db (claimed_key q item)")
    case (Inr mk)
    with get have mk: "view db (claimed_key q item) = mk" by blast
    show thesis
    proof (cases mk)
      case (Some cid)
      show thesis
      proof (cases "qe_get env db (lease_key cid)")
        case Inr': (Inr ls)
        with get have "view db (lease_key cid) = ls" by blast
        with assms(2) Inr Inr' mk Some show thesis
          by (auto simp: claim_marker_is_active_def live_claim_def lease_recorded_def split: option.splits sum.splits if_splits
              intro: kept drop_marker drop_lease)
      qed (use assms(2) Inr Some in \<open>auto simp: claim_marker_is_active_def intro: kept\<close>)
    qed (use assms(2) Inr mk in \<open>auto simp: claim_marker_is_active_def live_claim_def intro: kept\<close>)
  qed (use assms(2) in \<open>auto simp: claim_marker_is_active_def intro: kept\<close>)
qed

lemma marker_check:
  assumes "env_ok env view" and "claim_marker_is_active env clk (claimed_key q item) q item db = (db', r)"
  shows "(case r of Inl e \<Rightarrow> True | Inr active \<Rightarrow> active = live_claim env clk (view db) q item) \<and>
    (\<forall>item'. live_claim env clk (view db') q item' = live_claim env clk (view db) q item') \<and>
    (r = Inr False \<longrightarrow> view db' (claimed_key q item) = None)"
  using assms
proof (cases rule: marker_cases)
  case kept
  then show ?thesis by (cases r) auto
next
  case drop_marker
  from assms(1) drop_marker(1) show ?thesis
  proof (cases rule: commit_cases)
    case committed
    with drop_marker(2) show ?thesis by (auto simp: live_drop_marker)
  qed simp
next
  case (drop_lease cid b)
  from assms(1) drop_lease(1) show ?thesis
  proof (cases rule: commit_cases)
    case committed
    with drop_lease(2-5) show ?thesis by (auto simp: live_drop_marker live_drop_lease)
  qed simp
qed

subsection \<open>Claiming\<close>

lemma recorded_live: "lease_recorded env m c \<Longrightarrow> \<not> claim_is_expired clk c \<Longrightarrow> live_claim env clk m (qc_queue c) (qc_item_id c)"
  by (auto simp: lease_recorded_def live_claim_def split: option.splits)

text \<open>The reference: the first entry of the queue, in iteration order, whose item is free.\<close>

fun first_free :: "(string \<Rightarrow> bool) \<Rightarrow> string \<Rightarrow> (string, string \<times> string) result list \<Rightarrow> (string \<times> string) option" where
  "first_free busy q [] = None"
| "first_free busy q (Inl e # es) = None"
| "first_free busy q (Inr (k, v) # es) =
     (if starts_with k (queue_prefix q) \<and> \<not> busy v then Some (k, v) else first_free busy q es)"

lemma claim_scan_spec:
  assumes "env_ok env view" and "claim_scan env clk q consumer lease_for es db = (db', Inr r)"
  shows "r = map_option (\<lambda>(k, v). new_claim clk q v consumer lease_for) (first_free (live_claim env clk (view db) q) q es) \<and>
    (\<forall>c. r = Some c \<longrightarrow> lease_recorded env (view db') c)"
  using assms(2)
proof (induction es arbitrary: db rule: list.induct)
  case (Cons e es)
  show ?case
  proof (cases e)
    case (Inl err)
    with Cons.prems show ?thesis by simp
  next
    case (Inr kv)
    obtain k v where e: "e = Inr (k, v)" using Inr by (cases kv) auto
    show ?thesis
    proof (cases "starts_with k (queue_prefix q)")
      case False
      with Cons.prems Cons.IH [of db] e show ?thesis by simp
    next
      case True
      obtain db1 act where run: "claim_marker_is_active env clk (claimed_key q v) q v db = (db1, act)" by force
      note chk = marker_check [OF assms(1) run]
      then have same: "live_claim env clk (view db1) q = live_claim env clk (view db) q" by auto
      let ?c = "new_claim clk q v consumer lease_for"
      consider (busy) "act = Inr True" | (free) "act = Inr False" | (failed) err where "act = Inl err"
        by (metis (full_types) sum.exhaust)
      then show ?thesis
      proof cases
        case busy
        with Cons.prems Cons.IH [of db1] e True run chk same show ?thesis by simp
      next
        case free
        with Cons.prems e True run obtain b where b: "qe_encode env ?c = Inr b"
          "commit env [BatchInsert (lease_key (ln_uuid clk)) b, BatchInsert (claimed_key q v) (ln_uuid clk)] db1 (Some ?c) =
            (db', Inr r)" by (auto simp: Let_def split: sum.splits)
        from assms(1) b(2) show ?thesis
        proof (cases rule: commit_cases)
          case committed
          have "lease_recorded env (view db') ?c"
            using env_okD(4) [OF assms(1) b(1)] by (simp add: committed(2) lease_recorded_def new_claim_def)
          with committed(1) free chk True e show ?thesis by simp
        qed simp
      next
        case failed
        with Cons.prems e True run show ?thesis by simp
      qed
    qed
  qed
qed simp

lemma first_free_Some:
  "first_free busy q es = Some (k, v) \<Longrightarrow> \<exists>pre post. es = map Inr pre @ Inr (k, v) # post \<and>
     starts_with k (queue_prefix q) \<and> \<not> busy v \<and> (\<forall>(k', v') \<in> set pre. starts_with k' (queue_prefix q) \<longrightarrow> busy v')"
proof (induction busy q es rule: first_free.induct)
  case (3 busy q k' v' es)
  show ?case
  proof (cases "starts_with k' (queue_prefix q) \<and> \<not> busy v'")
    case True
    with "3.prems" show ?thesis by (intro exI [of _ "[]"] exI [of _ es]) auto
  next
    case False
    with 3 obtain pre post where "es = map Inr pre @ Inr (k, v) # post" "starts_with k (queue_prefix q)" "\<not> busy v"
      "\<forall>(k', v') \<in> set pre. starts_with k' (queue_prefix q) \<longrightarrow> busy v'" by (auto split: if_splits)
    with False show ?thesis by (intro exI [of _ "(k', v') # pre"]) auto
  qed
qed simp_all

lemma first_free_None:
  "first_free busy q (map Inr kvs) = None \<longleftrightarrow> (\<forall>(k, v) \<in> set kvs. starts_with k (queue_prefix q) \<longrightarrow> busy v)"
  by (induction kvs) (auto split: if_splits)

lemma map_Inr_prefix:
  "map Inr pre @ Inr x # post = map Inr ys @ zs \<Longrightarrow> (\<And>y. y \<in> set (take 1 zs) \<Longrightarrow> \<exists>e. y = Inl e) \<Longrightarrow>
     \<exists>tail. ys = pre @ x # tail"
proof (induction pre arbitrary: ys)
  case Nil
  then show ?case by (cases ys; cases zs) auto
next
  case (Cons p pre)
  then show ?case by (cases ys; cases zs) auto
qed

lemma iter_prefix:
  assumes "iter_ok m (map Inr pre @ Inr (k, v) # post)"
  shows "m k = Some v \<and> (\<forall>k' v'. m k' = Some v' \<and> k' < k \<longrightarrow> (k', v') \<in> set pre)"
proof -
  from assms obtain kvs where kvs: "sorted_wrt (<) (map fst kvs)" "map_of kvs = m"
    and es: "map Inr pre @ Inr (k, v) # post = map Inr kvs \<or>
      (\<exists>n e rest. map Inr pre @ Inr (k, v) # post = map Inr (take n kvs) @ Inl e # rest)"
    by (auto simp: iter_ok_def)
  have "\<exists>tail. kvs = pre @ (k, v) # tail"
    using es
  proof
    assume "\<exists>n e rest. map Inr pre @ Inr (k, v) # post = map Inr (take n kvs) @ Inl e # rest"
    then obtain n e rest where eq: "map Inr pre @ Inr (k, v) # post = map Inr (take n kvs) @ Inl e # rest" by blast
    have "\<exists>tail. take n kvs = pre @ (k, v) # tail" by (rule map_Inr_prefix [OF eq]) simp
    then show ?thesis by (metis append.assoc append_Cons append_take_drop_id)
  qed (use map_Inr_prefix [of pre "(k, v)" post kvs "[]"] in simp)
  then obtain tail where tail: "kvs = pre @ (k, v) # tail" by blast
  have dist: "distinct (map fst kvs)" using kvs(1) strict_sorted_iff by blast
  then have mem: "m k' = Some v' \<longleftrightarrow> (k', v') \<in> set kvs" for k' v' using kvs(2) by (metis map_of_eq_Some_iff)
  have "(k', v') \<in> set pre" if "(k', v') \<in> set kvs" "k' < k" for k' v'
    using that kvs(1) by (auto simp: tail sorted_wrt_append dest: less_asym)
  with mem tail show ?thesis by auto
qed

lemma claim_scan_total: "claim_scan env clk q consumer lease_for es db = (db', Inr None) \<Longrightarrow> \<exists>kvs. es = map Inr kvs"
proof (induction env clk q consumer lease_for es db rule: claim_scan.induct)
  case (3 env clk q consumer lease_for k item rest db)
  then have "\<exists>kvs. rest = map Inr kvs"
    by (auto simp: Let_def commit_def split: if_splits prod.splits sum.splits bool.splits)
  then obtain kvs where "rest = map Inr kvs" by blast
  then show ?case by (intro exI [of _ "(k, item) # kvs"]) simp
qed simp_all

lemma iter_all:
  assumes "iter_ok m (map Inr kvs)"
  shows "m k = Some v \<longleftrightarrow> (k, v) \<in> set kvs"
proof -
  from assms obtain kvs' where kvs': "sorted_wrt (<) (map fst kvs')" "map_of kvs' = m"
    "(map Inr kvs :: (string, string \<times> string) result list) = map Inr kvs' \<or>
      (\<exists>n (e :: string) rest. map Inr kvs = map Inr (take n kvs') @ Inl e # rest)"
    unfolding iter_ok_def by blast
  have "Inl e \<notin> set (map Inr kvs)" for e :: string by auto
  with kvs'(3) have "kvs = kvs'" by (metis in_set_conv_decomp inj_map_eq_map inj_Inr)
  with kvs'(1,2) show ?thesis using strict_sorted_iff map_of_eq_Some_iff by metis
qed

lemma queue_claim_next_spec:
  assumes "env_ok env view" and "queue_claim_next env clk q consumer lease_for db = (db', Inr r)"
  shows "case r of
      None \<Rightarrow> \<forall>k v. view db k = Some v \<and> starts_with k (queue_prefix q) \<longrightarrow> live_claim env clk (view db) q v
    | Some c \<Rightarrow> \<exists>k v. view db k = Some v \<and> starts_with k (queue_prefix q) \<and> \<not> live_claim env clk (view db) q v \<and>
        (\<forall>k' v'. view db k' = Some v' \<and> starts_with k' (queue_prefix q) \<and> k' < k \<longrightarrow> live_claim env clk (view db) q v') \<and>
        c = new_claim clk q v consumer lease_for \<and> lease_recorded env (view db') c"
proof -
  note run = assms(2) [unfolded queue_claim_next_def]
  note spec = claim_scan_spec [OF assms(1) run] and iter = env_okD(2) [OF assms(1), of db]
  show ?thesis
  proof (cases r)
    case None
    from claim_scan_total [OF run [unfolded None]] obtain kvs where kvs: "qe_iter env db = map Inr kvs" by blast
    with spec None have "\<forall>(k, v) \<in> set kvs. starts_with k (queue_prefix q) \<longrightarrow> live_claim env clk (view db) q v"
      by (simp add: first_free_None [symmetric])
    with None iter_all [of "view db" kvs] iter kvs show ?thesis by auto
  next
    case (Some c)
    with spec obtain k v where first: "first_free (live_claim env clk (view db) q) q (qe_iter env db) = Some (k, v)"
      and c: "c = new_claim clk q v consumer lease_for" "lease_recorded env (view db') c"
      by (cases "first_free (live_claim env clk (view db) q) q (qe_iter env db)") auto
    from first_free_Some [OF first] obtain pre post where pre: "qe_iter env db = map Inr pre @ Inr (k, v) # post"
      "starts_with k (queue_prefix q)" "\<not> live_claim env clk (view db) q v"
      "\<forall>(k', v') \<in> set pre. starts_with k' (queue_prefix q) \<longrightarrow> live_claim env clk (view db) q v'" by blast
    from iter_prefix [of "view db" pre k v post] iter pre(1) have
      first: "view db k = Some v" "\<forall>k' v'. view db k' = Some v' \<and> k' < k \<longrightarrow> (k', v') \<in> set pre" by auto
    have "live_claim env clk (view db) q v'"
      if "view db k' = Some v' \<and> starts_with k' (queue_prefix q) \<and> k' < k" for k' v'
      using that first(2) pre(4) by blast
    then show ?thesis unfolding Some option.case
      by (intro exI [of _ k] exI [of _ v]) (use c first(1) pre(2,3) in blast)
  qed
qed

text \<open>A claim takes the first free item: \<open>claim_next\<close> returns a claim for the item with the smallest
  key of the queue that has no live claim (marker, lease, queue and item agree and the lease has
  not run out), and records its lease and marker; it returns nothing exactly when every item has
  a live claim. Stale markers it removes on the way do not change which items are live.\<close>

theorem claim_takes_first_free_item:
  assumes "env_ok env view" and "queue_claim_next env clk q consumer lease_for db = (db', Inr r)"
  shows "case r of
      None \<Rightarrow> \<forall>k v. view db k = Some v \<and> starts_with k (queue_prefix q) \<longrightarrow> live_claim env clk (view db) q v
    | Some c \<Rightarrow> \<exists>k v. view db k = Some v \<and> starts_with k (queue_prefix q) \<and> \<not> live_claim env clk (view db) q v \<and>
        (\<forall>k' v'. view db k' = Some v' \<and> starts_with k' (queue_prefix q) \<and> k' < k \<longrightarrow> live_claim env clk (view db) q v') \<and>
        c = new_claim clk q v consumer lease_for \<and> lease_recorded env (view db') c"
  by (rule queue_claim_next_spec [OF assms])

end
