(* ===== verification/Lease_Exclusion.thy ===== *)
theory Lease_Exclusion
  imports Lease_Queue_Props
begin

text \<open>
  Exclusion of claims over whole runs of the queue: the invariant that every stored lease has its
  marker, that every operation keeps it, and that a live claim is not given out a second time
  whatever other consumers do in the meantime.
\<close>

subsection \<open>Removing keys\<close>

lemma recorded_without:
  "lease_recorded env m c \<Longrightarrow> lease_key (qc_claim_id c) \<notin> K \<Longrightarrow> claimed_key (qc_queue c) (qc_item_id c) \<notin> K \<Longrightarrow>
     lease_recorded env (without K m) c"
  by (simp add: lease_recorded_def)

lemma recorded_marker_id:
  "lease_recorded env m c \<Longrightarrow> lease_recorded env m c' \<Longrightarrow>
     claimed_key (qc_queue c) (qc_item_id c) = claimed_key (qc_queue c') (qc_item_id c') \<Longrightarrow> qc_claim_id c = qc_claim_id c'"
  by (simp add: lease_recorded_def)

subsection \<open>The invariant\<close>

text \<open>Queue names whose marker keys do not collide, and the claims stored for them. Names such as \<open>a\<close> and \<open>a:b\<close>
  do: the item \<open>b:c\<close> of the one and \<open>c\<close> of the other have the same marker.\<close>

definition separated :: "string set \<Rightarrow> bool" where
  "separated Q \<longleftrightarrow> (\<forall>q \<in> Q. \<forall>q' \<in> Q. \<forall>i i'. claimed_key q i = claimed_key q' i' \<longrightarrow> q = q' \<and> i = i')"

definition queue_inv :: "'db queue_env \<Rightarrow> string set \<Rightarrow> (string \<rightharpoonup> string) \<Rightarrow> bool" where
  "queue_inv env Q m \<longleftrightarrow>
     (\<forall>cid b. m (lease_key cid) = Some b \<longrightarrow>
       (\<exists>c. qe_decode env b = Inr c \<and> qc_claim_id c = cid \<and> qc_queue c \<in> Q \<and> lease_recorded env m c))"

lemma queue_invD:
  "queue_inv env Q m \<Longrightarrow> m (lease_key cid) = Some b \<Longrightarrow> qe_decode env b = Inr c \<Longrightarrow>
     qc_claim_id c = cid \<and> qc_queue c \<in> Q \<and> lease_recorded env m c"
  unfolding queue_inv_def by (metis sum.inject(2))

lemma queue_inv_without:
  assumes "queue_inv env Q m"
    and "\<And>c. lease_recorded env m c \<Longrightarrow> qc_queue c \<in> Q \<Longrightarrow> claimed_key (qc_queue c) (qc_item_id c) \<in> K \<Longrightarrow> lease_key (qc_claim_id c) \<in> K"
  shows "queue_inv env Q (without K m)"
  unfolding queue_inv_def
proof (intro allI impI)
  fix cid b assume "without K m (lease_key cid) = Some b"
  then have k: "lease_key cid \<notin> K" "m (lease_key cid) = Some b" by (auto split: if_splits)
  with assms(1) obtain c where c: "qe_decode env b = Inr c" "qc_claim_id c = cid" "qc_queue c \<in> Q" "lease_recorded env m c"
    by (auto simp: queue_inv_def)
  with assms(2) [of c] k have "lease_recorded env (without K m) c" by (intro recorded_without) auto
  with c show "\<exists>c. qe_decode env b = Inr c \<and> qc_claim_id c = cid \<and> qc_queue c \<in> Q \<and> lease_recorded env (without K m) c"
    by blast
qed

lemma queue_inv_forget:
  assumes "queue_inv env Q m" and "lease_recorded env m c"
    and "K = {lease_key (qc_claim_id c), claimed_key (qc_queue c) (qc_item_id c)} \<union> L" and "\<And>cid q i. lease_key cid \<notin> L \<and> claimed_key q i \<notin> L"
  shows "queue_inv env Q (without K m)"
  by (rule queue_inv_without [OF assms(1)]) (use assms(2-4) recorded_marker_id in \<open>auto simp: assms(3)\<close>)

lemma recorded_forget:
  assumes "lease_recorded env m c" and "lease_recorded env m c0" and "qc_claim_id c \<noteq> qc_claim_id c0"
    and "K = {lease_key (qc_claim_id c0), claimed_key (qc_queue c0) (qc_item_id c0)} \<union> L" and "\<And>cid q i. lease_key cid \<notin> L \<and> claimed_key q i \<notin> L"
  shows "lease_recorded env (without K m) c"
  using assms(2-5) recorded_marker_id [OF assms(1,2)] by (intro recorded_without [OF assms(1)]) auto

subsection \<open>Claiming keeps it\<close>

lemma marker_without:
  assumes "env_ok env view" and "claim_marker_is_active env clk (claimed_key q item) q item db = (db', r)"
  obtains (same) "view db' = view db"
    | (marker) "view db' = without {claimed_key q item} (view db)" "\<not> live_claim env clk (view db) q item"
        "\<And>c. lease_recorded env (view db) c \<Longrightarrow> \<not> (qc_queue c = q \<and> qc_item_id c = item)"
    | (lease) cid b where "view db' = without {lease_key cid, claimed_key q item} (view db)"
        "\<not> live_claim env clk (view db) q item" "view db (lease_key cid) = Some b" "view db (claimed_key q item) = Some cid"
        "\<And>c. qe_decode env b = Inr c \<Longrightarrow> claim_is_expired clk c"
  using assms
proof (cases rule: marker_cases)
  case kept
  then show ?thesis by (intro same) simp
next
  case drop_marker
  from assms(1) drop_marker(1) show ?thesis
  proof (cases rule: commit_cases)
    case committed
    with drop_marker(2,3) show ?thesis by (intro marker) (auto simp: fun_eq_iff)
  qed (auto intro: same)
next
  case (drop_lease cid b)
  from assms(1) drop_lease(1) show ?thesis
  proof (cases rule: commit_cases)
    case committed
    with drop_lease show ?thesis by (intro lease [of cid b]) (auto simp: fun_eq_iff)
  qed (auto intro: same)
qed

lemma marker_keeps_recorded:
  assumes "env_ok env view" and "claim_marker_is_active env clk (claimed_key q item) q item db = (db', r)"
    and "separated Q" "q \<in> Q" "qc_queue c \<in> Q" "lease_recorded env (view db) c" "\<not> claim_is_expired clk c"
  shows "lease_recorded env (view db') c"
proof -
  note live = recorded_live [OF assms(6,7)]
  have other: "claimed_key (qc_queue c) (qc_item_id c) \<noteq> claimed_key q item" if "\<not> live_claim env clk (view db) q item"
    using that live assms(3-5) unfolding separated_def by metis
  from assms(1,2) show ?thesis
  proof (cases rule: marker_without)
    case same
    with assms(6) show ?thesis by simp
  next
    case marker
    with other assms(6) show ?thesis by (auto intro!: recorded_without)
  next
    case (lease cid b)
    have "cid \<noteq> qc_claim_id c" using lease(3,5) assms(6,7) by (auto simp: lease_recorded_def)
    with lease other assms(6) show ?thesis by (auto intro!: recorded_without)
  qed
qed

lemma marker_keeps_inv:
  assumes "env_ok env view" and "claim_marker_is_active env clk (claimed_key q item) q item db = (db', r)"
    and "separated Q" "q \<in> Q" "queue_inv env Q (view db)"
  shows "queue_inv env Q (view db')"
  using assms(1,2)
proof (cases rule: marker_without)
  case same
  with assms(5) show ?thesis by simp
next
  case (lease cid b)
  have "lease_key (qc_claim_id c) = lease_key cid"
    if "lease_recorded env (view db) c" "claimed_key (qc_queue c) (qc_item_id c) = claimed_key q item" for c
    using that lease(4) by (simp add: lease_recorded_def)
  then show ?thesis unfolding lease(1) by (intro queue_inv_without [OF assms(5)]) auto
next
  case marker
  have "claimed_key (qc_queue c) (qc_item_id c) \<noteq> claimed_key q item"
    if "lease_recorded env (view db) c" "qc_queue c \<in> Q" for c
    using marker(3) [OF that(1)] that(2) assms(3,4) unfolding separated_def by metis
  then show ?thesis unfolding marker(1) by (intro queue_inv_without [OF assms(5)]) auto
qed

lemma marker_absent_lease:
  assumes "env_ok env view" and "claim_marker_is_active env clk (claimed_key q item) q item db = (db', r)"
    and "view db (lease_key cid) = None"
  shows "view db' (lease_key cid) = None"
  using assms(1,2) by (cases rule: marker_without) (simp_all add: assms(3))

lemma recorded_insert:
  assumes "lease_recorded env m c" and "m (claimed_key q item) = None" and "m (lease_key cid) = None"
  shows "lease_recorded env (m(lease_key cid \<mapsto> b, claimed_key q item \<mapsto> cid)) c \<and> \<not> (qc_queue c = q \<and> qc_item_id c = item)"
  using assms by (auto simp: lease_recorded_def)

lemma inv_insert:
  assumes "queue_inv env Q m" and "m (claimed_key q item) = None" and "m (lease_key cid) = None"
    and "qe_decode env b = Inr c" and "qc_claim_id c = cid" "qc_queue c = q" "qc_item_id c = item" "q \<in> Q"
  shows "queue_inv env Q (m(lease_key cid \<mapsto> b, claimed_key q item \<mapsto> cid))" (is "queue_inv env Q ?m")
  unfolding queue_inv_def
proof (intro allI impI)
  fix cid' b' assume lease: "?m (lease_key cid') = Some b'"
  show "\<exists>c. qe_decode env b' = Inr c \<and> qc_claim_id c = cid' \<and> qc_queue c \<in> Q \<and> lease_recorded env ?m c"
  proof (cases "cid' = cid")
    case True
    with lease assms(4-8) show ?thesis by (auto simp: lease_recorded_def)
  next
    case False
    with lease assms(1) obtain c' where "qe_decode env b' = Inr c'" "qc_claim_id c' = cid'" "qc_queue c' \<in> Q"
      "lease_recorded env m c'" by (auto simp: queue_inv_def)
    with recorded_insert [OF _ assms(2,3), of env c' b] show ?thesis by blast
  qed
qed

definition kept_live :: "'db queue_env \<Rightarrow> string set \<Rightarrow> lease_now \<Rightarrow> (string \<rightharpoonup> string) \<Rightarrow> (string \<rightharpoonup> string) \<Rightarrow> bool" where
  "kept_live env Q clk m m' \<longleftrightarrow>
     (\<forall>c. lease_recorded env m c \<and> qc_queue c \<in> Q \<and> \<not> claim_is_expired clk c \<longrightarrow> lease_recorded env m' c)"

lemma kept_live_refl [simp]: "kept_live env Q clk m m"
  by (simp add: kept_live_def)

lemma kept_live_trans: "kept_live env Q clk m m1 \<Longrightarrow> kept_live env Q clk m1 m' \<Longrightarrow> kept_live env Q clk m m'"
  by (simp add: kept_live_def)

lemma claim_scan_keeps:
  assumes "env_ok env view" "separated Q" "q \<in> Q" and "claim_scan env clk q consumer lease_for es db = (db', res)"
    and "queue_inv env Q (view db)" "view db (lease_key (ln_uuid clk)) = None"
  shows "queue_inv env Q (view db') \<and> kept_live env Q clk (view db) (view db')"
  using assms(4-6)
proof (induction es arbitrary: db)
  case (Cons e es)
  show ?case
  proof (cases "\<exists>k v. e = Inr (k, v) \<and> starts_with k (queue_prefix q)")
    case False
    then show ?thesis
    proof (cases e)
      case (Inl err)
      with Cons.prems show ?thesis by simp
    next
      case (Inr kv)
      obtain k v where e: "e = Inr (k, v)" using Inr by (cases kv) auto
      with False Cons.prems Cons.IH [of db] show ?thesis by simp
    qed
  next
    case True
    then obtain k v where e: "e = Inr (k, v)" "starts_with k (queue_prefix q)" by blast
    obtain db1 act where run: "claim_marker_is_active env clk (claimed_key q v) q v db = (db1, act)" by force
    have inv1: "queue_inv env Q (view db1)" by (rule marker_keeps_inv [OF assms(1) run assms(2,3) Cons.prems(2)])
    have fresh1: "view db1 (lease_key (ln_uuid clk)) = None" by (rule marker_absent_lease [OF assms(1) run Cons.prems(3)])
    have live1: "kept_live env Q clk (view db) (view db1)"
      using marker_keeps_recorded [OF assms(1) run assms(2,3)] by (auto simp: kept_live_def)
    let ?c = "new_claim clk q v consumer lease_for"
    consider (busy) "act = Inr True" | (free) "act = Inr False" | (failed) err where "act = Inl err"
      by (metis (full_types) sum.exhaust)
    then show ?thesis
    proof cases
      case busy
      with Cons.prems(1) e run have "claim_scan env clk q consumer lease_for es db1 = (db', res)" by simp
      from Cons.IH [OF this inv1 fresh1] live1 show ?thesis by (auto intro: kept_live_trans)
    next
      case failed
      with Cons.prems(1) e run inv1 live1 show ?thesis by simp
    next
      case free
      have marker: "view db1 (claimed_key q v) = None" using marker_check [OF assms(1) run] free by simp
      show ?thesis
      proof (cases "qe_encode env ?c")
        case (Inl err)
        with Cons.prems(1) e run free inv1 live1 show ?thesis by (simp add: Let_def)
      next
        case (Inr b)
        with Cons.prems(1) e run free have
          "commit env [BatchInsert (lease_key (ln_uuid clk)) b, BatchInsert (claimed_key q v) (ln_uuid clk)] db1 (Some ?c) = (db', res)"
          by (simp add: Let_def)
        with assms(1) show ?thesis
        proof (cases rule: commit_cases)
          case committed
          have "queue_inv env Q (view db')" unfolding committed(2) apply_batch_simps
            by (rule inv_insert [OF inv1 marker fresh1 env_okD(4) [OF assms(1) Inr]]) (simp_all add: new_claim_def assms(3))
          moreover have "kept_live env Q clk (view db1) (view db')"
            unfolding kept_live_def committed(2) apply_batch_simps using recorded_insert [OF _ marker fresh1] by blast
          ultimately show ?thesis using live1 by (auto intro: kept_live_trans)
        qed (use inv1 live1 in simp)
      qed
    qed
  qed
qed simp

subsection \<open>The other operations keep it\<close>

lemma drop_claim_removes:
  "apply_batch (drop_claim c cid) m = without {lease_key cid, claimed_key (qc_queue c) (qc_item_id c)} m"
  by (auto simp: drop_claim_def fun_eq_iff)

lemma live_claim_cases:
  assumes "env_ok env view" and "with_live_claim env clk cid body db = (db', r)"
  obtains (missing) "db' = db" "r = Inl (ClaimNotFound cid)" "view db (lease_key cid) = None"
    | (failed) e where "db' = db" "r = Inl (StoreStorage e) \<or> r = Inl (StoreSerialization e)"
    | (expired) b c where "view db (lease_key cid) = Some b" "qe_decode env b = Inr c" "claim_is_expired clk c"
        "r = Inl (ClaimExpired cid)"
        "view db' = without {lease_key cid, claimed_key (qc_queue c) (qc_item_id c)} (view db)"
    | (live) b c where "view db (lease_key cid) = Some b" "qe_decode env b = Inr c" "\<not> claim_is_expired clk c"
        "body c = (db', r)"
proof (cases "qe_get env db (lease_key cid)")
  case (Inl e)
  with assms(2) show thesis by (intro failed [of e]) (auto simp: with_live_claim_def)
next
  case (Inr ls)
  note ls = env_okD(1) [OF assms(1) Inr]
  show thesis
  proof (cases ls)
    case None
    with assms(2) Inr ls show thesis by (intro missing) (auto simp: with_live_claim_def)
  next
    case (Some b)
    show thesis
    proof (cases "qe_decode env b")
      case Inl': (Inl e)
      with assms(2) Inr Some show thesis by (intro failed [of e]) (auto simp: with_live_claim_def)
    next
      case dec: (Inr c)
      show thesis
      proof (cases "claim_is_expired clk c")
        case True
        obtain db1 r1 where c1: "commit env (drop_claim c cid) db () = (db1, r1)" by force
        with assms(2) Inr Some dec True have out: "db' = db1" "r = (case r1 of Inl e \<Rightarrow> Inl e | Inr _ \<Rightarrow> Inl (ClaimExpired cid))"
          by (auto simp: with_live_claim_def split: sum.splits)
        from assms(1) c1 show thesis
        proof (cases rule: commit_cases)
          case (failed e)
          with out show thesis by (intro that(2) [of e]) auto
        next
          case committed
          with out ls Some dec True show thesis by (intro expired [of b c]) (auto simp: drop_claim_removes)
        qed
      next
        case False
        with assms(2) Inr Some dec ls show thesis by (intro live [of b c]) (auto simp: with_live_claim_def)
      qed
    qed
  qed
qed

lemma find_item_key:
  "find_item prefix item es = Inr (Some k) \<Longrightarrow> starts_with k prefix \<and> Inr (k, item) \<in> set es"
  by (induction prefix item es rule: find_item.induct) (auto split: if_splits)

lemma find_item_error: "find_item prefix item es = Inl e \<Longrightarrow> \<exists>e'. e = StoreStorage e'"
  by (induction prefix item es rule: find_item.induct) (auto split: if_splits)

definition item_keys :: "string option \<Rightarrow> string set" where
  "item_keys key = (case key of None \<Rightarrow> {} | Some k \<Rightarrow> {k})"

lemma item_keys_classes:
  assumes "find_item (queue_prefix q) item es = Inr key"
  shows "lease_key cid \<notin> item_keys key \<and> claimed_key q' i \<notin> item_keys key"
proof (cases key)
  case (Some k)
  from queue_prefix_not [of k q cid q' i] find_item_key [of "queue_prefix q" item es k] assms Some
  show ?thesis by (auto simp: item_keys_def)
qed (simp add: item_keys_def)

lemma ack_claim_cases:
  assumes "env_ok env view" and "ack_claim env clk cid db = (db', r)"
  obtains (missing) "db' = db" "r = Inl (ClaimNotFound cid)" "view db (lease_key cid) = None"
    | (failed) e where "db' = db" "r = Inl (StoreStorage e) \<or> r = Inl (StoreSerialization e)"
    | (expired) b c where "view db (lease_key cid) = Some b" "qe_decode env b = Inr c" "claim_is_expired clk c"
        "r = Inl (ClaimExpired cid)"
        "view db' = without {lease_key cid, claimed_key (qc_queue c) (qc_item_id c)} (view db)"
    | (acked) b c key where "view db (lease_key cid) = Some b" "qe_decode env b = Inr c" "\<not> claim_is_expired clk c"
        "r = Inr ()" "find_item (queue_prefix (qc_queue c)) (qc_item_id c) (qe_iter env db) = Inr key"
        "view db' = without ({lease_key cid, claimed_key (qc_queue c) (qc_item_id c)} \<union> item_keys key) (view db)"
  using assms(1) assms(2) [unfolded ack_claim_def]
proof (cases rule: live_claim_cases)
  case (live b c)
  show thesis
  proof (cases "find_item (queue_prefix (qc_queue c)) (qc_item_id c) (qe_iter env db)")
    case (Inl e)
    with find_item_error [OF Inl] live(4) show thesis by (auto intro: failed)
  next
    case (Inr key)
    with live(4) have "commit env (drop_claim c cid @ (case key of None \<Rightarrow> [] | Some k \<Rightarrow> [BatchRemove k])) db () = (db', r)"
      by simp
    with assms(1) show thesis
    proof (cases rule: commit_cases)
      case (failed e)
      then show thesis by (intro that(2) [of e]) auto
    next
      case committed
      then have "view db' = without ({lease_key cid, claimed_key (qc_queue c) (qc_item_id c)} \<union> item_keys key) (view db)"
        by (auto simp: drop_claim_removes fun_eq_iff item_keys_def split: option.splits)
      with live(1-3) Inr committed(1) show thesis by (intro acked) auto
    qed
  qed
qed (auto intro: missing failed expired)

lemma ack_claim_keeps:
  assumes "env_ok env view" and "queue_inv env Q (view db)" and "ack_claim env clk cid db = (db', r)"
  shows "queue_inv env Q (view db') \<and>
    (\<forall>c. lease_recorded env (view db) c \<and> qc_claim_id c \<noteq> cid \<longrightarrow> lease_recorded env (view db') c)"
  using assms(1,3)
proof (cases rule: ack_claim_cases)
  case (expired b c)
  from queue_invD [OF assms(2) expired(1,2)] have c: "qc_claim_id c = cid" "lease_recorded env (view db) c" by auto
  show ?thesis unfolding expired(5)
    using queue_inv_forget [OF assms(2) c(2), of _ "{}"] recorded_forget [OF _ c(2), of _ _ "{}"] c(1) by auto
next
  case (acked b c key)
  from queue_invD [OF assms(2) acked(1,2)] have c: "qc_claim_id c = cid" "lease_recorded env (view db) c" by auto
  note cls = item_keys_classes [OF acked(5)]
  show ?thesis unfolding acked(6)
    using queue_inv_forget [OF assms(2) c(2) refl, of "item_keys key"] recorded_forget [OF _ c(2) _ refl, of _ "item_keys key"] c(1) cls
    by auto
qed (use assms(2) in simp_all)

lemma renew_claim_keeps:
  assumes "env_ok env view" and "queue_inv env Q (view db)" and "renew_claim env clk cid lease_for db = (db', r)"
  shows "queue_inv env Q (view db') \<and>
    (\<forall>c. lease_recorded env (view db) c \<and> qc_claim_id c \<noteq> cid \<longrightarrow> lease_recorded env (view db') c)"
  using assms(1) assms(3) [unfolded renew_claim_def]
proof (cases rule: live_claim_cases)
  case (expired b c)
  from queue_invD [OF assms(2) expired(1,2)] have c: "qc_claim_id c = cid" "lease_recorded env (view db) c" by auto
  show ?thesis unfolding expired(5)
    using queue_inv_forget [OF assms(2) c(2), of _ "{}"] recorded_forget [OF _ c(2), of _ _ "{}"] c(1) by auto
next
  case (live b c)
  from queue_invD [OF assms(2) live(1,2)] have c: "qc_claim_id c = cid" "qc_queue c \<in> Q" "lease_recorded env (view db) c" by auto
  show ?thesis
  proof (cases "qe_encode env (renewed clk lease_for c)")
    case (Inl e)
    with live(4) assms(2) show ?thesis by simp
  next
    case (Inr nb)
    with live(4) have "commit env [BatchInsert (lease_key cid) nb] db () = (db', r)" by simp
    with assms(1) show ?thesis
    proof (cases rule: commit_cases)
      case committed
      have keep: "lease_recorded env (view db') c'" if "lease_recorded env (view db) c'" "qc_claim_id c' \<noteq> cid" for c'
        using that by (simp add: committed(2) lease_recorded_def)
      have new: "qe_decode env nb = Inr (renewed clk lease_for c)" by (rule env_okD(4) [OF assms(1) Inr])
      have "lease_recorded env (view db') (renewed clk lease_for c)"
        using c new by (simp add: committed(2) lease_recorded_def renewed_def)
      then have "queue_inv env Q (view db')" unfolding queue_inv_def
      proof (intro allI impI)
        fix cid' b' assume rec: "lease_recorded env (view db') (renewed clk lease_for c)" and b': "view db' (lease_key cid') = Some b'"
        show "\<exists>c. qe_decode env b' = Inr c \<and> qc_claim_id c = cid' \<and> qc_queue c \<in> Q \<and> lease_recorded env (view db') c"
        proof (cases "cid' = cid")
          case True
          with b' new rec c(1,2) show ?thesis by (auto simp: committed(2) renewed_def)
        next
          case False
          with b' assms(2) obtain c' where "qe_decode env b' = Inr c'" "qc_claim_id c' = cid'" "qc_queue c' \<in> Q"
            "lease_recorded env (view db) c'" by (auto simp: queue_inv_def committed(2))
          with keep False show ?thesis by blast
        qed
      qed
      with keep show ?thesis by blast
    qed (use assms(2) in simp)
  qed
qed (use assms(2) in simp_all)

lemma list_expired_spec:
  "list_expired_claims env clk es = Inr cs \<Longrightarrow> \<exists>kvs. es = map Inr kvs \<and>
     (\<forall>c \<in> set cs. \<exists>k b. (k, b) \<in> set kvs \<and> starts_with k lease_prefix \<and> qe_decode env b = Inr c \<and> claim_is_expired clk c)"
proof (induction env clk es arbitrary: cs rule: list_expired_claims.induct)
  case (3 env clk k v rest)
  obtain cs' where cs': "list_expired_claims env clk rest = Inr cs'"
    "\<forall>c \<in> set cs. c \<in> set cs' \<or> (starts_with k lease_prefix \<and> qe_decode env v = Inr c \<and> claim_is_expired clk c)"
    using "3.prems" by (auto split: if_splits sum.splits)
  have "\<exists>kvs. rest = map Inr kvs \<and>
     (\<forall>c \<in> set cs'. \<exists>k b. (k, b) \<in> set kvs \<and> starts_with k lease_prefix \<and> qe_decode env b = Inr c \<and> claim_is_expired clk c)"
    using 3 cs'(1) by (cases "starts_with k lease_prefix"; cases "qe_decode env v") auto
  then obtain kvs where kvs: "rest = map Inr kvs"
    "\<forall>c \<in> set cs'. \<exists>k b. (k, b) \<in> set kvs \<and> starts_with k lease_prefix \<and> qe_decode env b = Inr c \<and> claim_is_expired clk c"
    by blast
  have "\<exists>k' b. (k', b) \<in> set ((k, v) # kvs) \<and> starts_with k' lease_prefix \<and> qe_decode env b = Inr c \<and> claim_is_expired clk c"
    if "c \<in> set cs" for c
    using that cs'(2) kvs(2) by (meson list.set_intros)
  with kvs(1) show ?case by (intro exI [of _ "(k, v) # kvs"]) auto
qed simp_all

definition claim_keys :: "queue_claim \<Rightarrow> string list" where
  "claim_keys c = [lease_key (qc_claim_id c), claimed_key (qc_queue c) (qc_item_id c)]"

lemma drop_claims_removes:
  "apply_batch (concat (map (\<lambda>c. drop_claim c (qc_claim_id c)) cs)) m = without (set (concat (map claim_keys cs))) m"
proof -
  have "concat (map (\<lambda>c. drop_claim c (qc_claim_id c)) cs) = map BatchRemove (concat (map claim_keys cs))"
    by (induction cs) (simp_all add: drop_claim_def claim_keys_def)
  then show ?thesis by (simp only: apply_removes)
qed

lemma cleanup_keeps:
  assumes "env_ok env view" and "queue_inv env Q (view db)" and "cleanup_expired_claims env clk db = (db', r)"
  shows "queue_inv env Q (view db') \<and> kept_live env Q clk (view db) (view db')"
proof (cases "\<exists>cs. list_expired_claims env clk (qe_iter env db) = Inr cs \<and> cs \<noteq> []")
  case False
  then have "db' = db" using assms(3) by (auto simp: cleanup_expired_claims_def split: sum.splits if_splits)
  with assms(2) show ?thesis by simp
next
  case True
  then obtain cs where cs: "list_expired_claims env clk (qe_iter env db) = Inr cs" "cs \<noteq> []" by blast
  from list_expired_spec [OF cs(1)] obtain kvs where kvs: "qe_iter env db = map Inr kvs"
    "\<forall>c \<in> set cs. \<exists>k b. (k, b) \<in> set kvs \<and> starts_with k lease_prefix \<and> qe_decode env b = Inr c \<and> claim_is_expired clk c"
    by blast
  have old: "lease_recorded env (view db) c \<and> claim_is_expired clk c" if "c \<in> set cs" for c
  proof -
    from kvs(2) that obtain k b where kb: "(k, b) \<in> set kvs" "starts_with k lease_prefix" "qe_decode env b = Inr c"
      "claim_is_expired clk c" by blast
    from kb(2) obtain cid where "k = lease_key cid" by (auto simp: starts_with_conv lease_prefix_def lease_key_def)
    moreover have "view db k = Some b" using iter_all [of "view db" kvs k b] env_okD(2) [OF assms(1), of db] kb(1) kvs(1) by simp
    ultimately show ?thesis using queue_invD [OF assms(2) _ kb(3)] kb(4) by blast
  qed
  have "commit env (concat (map (\<lambda>c. drop_claim c (qc_claim_id c)) cs)) db (length cs) = (db', r)"
    using assms(3) cs by (simp add: cleanup_expired_claims_def)
  with assms(1) show ?thesis
  proof (cases rule: commit_cases)
    case committed
    note m' = committed(2) [unfolded drop_claims_removes]
    have keys: "lease_key (qc_claim_id c) \<in> set (concat (map claim_keys cs))"
      if "lease_recorded env (view db) c" "claimed_key (qc_queue c) (qc_item_id c) \<in> set (concat (map claim_keys cs))" for c
    proof -
      from that(2) obtain c0 where "c0 \<in> set cs" "claimed_key (qc_queue c) (qc_item_id c) = claimed_key (qc_queue c0) (qc_item_id c0)"
        by (auto simp: claim_keys_def)
      with recorded_marker_id [OF that(1)] old show ?thesis by (auto simp: claim_keys_def)
    qed
    have same: "c = c0" if "lease_recorded env (view db) c" "lease_recorded env (view db) c0" "qc_claim_id c = qc_claim_id c0" for c c0
      using that by (auto simp: lease_recorded_def split: option.splits)
    have "lease_recorded env (view db') c" if "lease_recorded env (view db) c" "\<not> claim_is_expired clk c" for c
    proof -
      have "lease_key (qc_claim_id c) \<notin> set (concat (map claim_keys cs))"
      proof
        assume "lease_key (qc_claim_id c) \<in> set (concat (map claim_keys cs))"
        then obtain c0 where "c0 \<in> set cs" "qc_claim_id c = qc_claim_id c0" by (auto simp: claim_keys_def)
        with same [OF that(1)] old that(2) show False by blast
      qed
      with keys [OF that(1)] that(1) show ?thesis unfolding m' by (intro recorded_without) auto
    qed
    moreover have "queue_inv env Q (view db')" unfolding m' by (rule queue_inv_without [OF assms(2)]) (use keys in blast)
    ultimately show ?thesis by (simp add: kept_live_def)
  qed (use assms(2) in simp)
qed

subsection \<open>Runs\<close>

datatype queue_op =
    OpClaim lease_now string string nat
  | OpAck lease_now string
  | OpRenew lease_now string nat
  | OpCleanup lease_now
  | OpEnqueue string nat string

definition no_claim :: "'db \<times> (store_error, 'a) result \<Rightarrow> 'db \<times> (store_error, queue_claim option) result" where
  "no_claim x = (fst x, case snd x of Inl e \<Rightarrow> Inl e | Inr _ \<Rightarrow> Inr None)"

fun exec_op :: "'db queue_env \<Rightarrow> queue_op \<Rightarrow> 'db \<Rightarrow> 'db \<times> (store_error, queue_claim option) result" where
  "exec_op env (OpClaim clk q consumer lease_for) db = queue_claim_next env clk q consumer lease_for db"
| "exec_op env (OpAck clk cid) db = no_claim (ack_claim env clk cid db)"
| "exec_op env (OpRenew clk cid lease_for) db = no_claim (renew_claim env clk cid lease_for db)"
| "exec_op env (OpCleanup clk) db = no_claim (cleanup_expired_claims env clk db)"
| "exec_op env (OpEnqueue q n item) db = no_claim (commit env [BatchInsert (queue_key q n) item] db ())"

fun run_queue :: "'db queue_env \<Rightarrow> queue_op list \<Rightarrow> 'db \<Rightarrow> 'db \<times> (store_error, queue_claim option) result list" where
  "run_queue env [] db = (db, [])"
| "run_queue env (op # ops) db =
     (case exec_op env op db of (db1, r) \<Rightarrow> (case run_queue env ops db1 of (db2, rs) \<Rightarrow> (db2, r # rs)))"

text \<open>Claims are drawn for known queues under identifiers not in use.\<close>

fun op_ok :: "string set \<Rightarrow> (string \<rightharpoonup> string) \<Rightarrow> queue_op \<Rightarrow> bool" where
  "op_ok Q m (OpClaim clk q consumer lease_for) = (q \<in> Q \<and> m (lease_key (ln_uuid clk)) = None)"
| "op_ok Q m _ = True"

text \<open>Operations that come before the lease of a claim ends and are not its own acknowledgement or renewal.\<close>

fun foreign :: "queue_claim \<Rightarrow> queue_op \<Rightarrow> bool" where
  "foreign c (OpClaim clk q consumer lease_for) = (\<not> claim_is_expired clk c)"
| "foreign c (OpAck clk cid) = (cid \<noteq> qc_claim_id c)"
| "foreign c (OpRenew clk cid lease_for) = (cid \<noteq> qc_claim_id c)"
| "foreign c (OpCleanup clk) = (\<not> claim_is_expired clk c)"
| "foreign c (OpEnqueue q n item) = True"

fun run_ok :: "'db queue_env \<Rightarrow> ('db \<Rightarrow> string \<rightharpoonup> string) \<Rightarrow> string set \<Rightarrow> (queue_op \<Rightarrow> bool) \<Rightarrow> queue_op list \<Rightarrow> 'db \<Rightarrow> bool" where
  "run_ok env view Q P [] db = True"
| "run_ok env view Q P (op # ops) db =
     (op_ok Q (view db) op \<and> P op \<and> run_ok env view Q P ops (fst (exec_op env op db)))"

lemma recorded_enqueue: "lease_recorded env (m(queue_key q n \<mapsto> v)) c = lease_recorded env m c"
  by (simp add: lease_recorded_def key_classes(3,4) [symmetric])

lemma exec_op_keeps:
  assumes "env_ok env view" "separated Q" "queue_inv env Q (view db)" "op_ok Q (view db) op"
  shows "queue_inv env Q (view (fst (exec_op env op db))) \<and>
    (\<forall>c. lease_recorded env (view db) c \<and> qc_queue c \<in> Q \<and> foreign c op \<longrightarrow> lease_recorded env (view (fst (exec_op env op db))) c)"
proof (cases op)
  case (OpClaim clk q consumer lease_for)
  obtain db' r where run: "queue_claim_next env clk q consumer lease_for db = (db', r)" by force
  have fresh: "q \<in> Q" "view db (lease_key (ln_uuid clk)) = None" using assms(4) OpClaim by simp_all
  from claim_scan_keeps [OF assms(1,2) fresh(1) run [unfolded queue_claim_next_def] assms(3) fresh(2)] OpClaim run
  show ?thesis by (auto simp: kept_live_def)
next
  case (OpAck clk cid)
  obtain db' r where "ack_claim env clk cid db = (db', r)" by force
  with ack_claim_keeps [OF assms(1,3) this] OpAck show ?thesis by (auto simp: no_claim_def)
next
  case (OpRenew clk cid lease_for)
  obtain db' r where "renew_claim env clk cid lease_for db = (db', r)" by force
  with renew_claim_keeps [OF assms(1,3) this] OpRenew show ?thesis by (auto simp: no_claim_def)
next
  case (OpCleanup clk)
  obtain db' r where "cleanup_expired_claims env clk db = (db', r)" by force
  with cleanup_keeps [OF assms(1,3) this] OpCleanup show ?thesis by (simp add: no_claim_def kept_live_def)
next
  case (OpEnqueue q n item)
  obtain db' r where run: "commit env [BatchInsert (queue_key q n) item] db () = (db', r)" by force
  have "view db' = view db \<or> view db' = (view db)(queue_key q n \<mapsto> item)"
    using assms(1) run by (cases rule: commit_cases) auto
  with OpEnqueue run assms(3) show ?thesis
    by (auto simp: no_claim_def recorded_enqueue queue_inv_def key_classes(3) [symmetric])
qed

lemma claimed_item_was_free:
  assumes "env_ok env view" and "exec_op env op db = (db', Inr (Some c'))"
    and "lease_recorded env (view db) c" "foreign c op"
  shows "\<not> (qc_queue c' = qc_queue c \<and> qc_item_id c' = qc_item_id c)"
proof (cases op)
  case (OpClaim clk q consumer lease_for)
  with assms(2) have run: "claim_scan env clk q consumer lease_for (qe_iter env db) db = (db', Inr (Some c'))"
    by (simp add: queue_claim_next_def)
  then obtain k v where first: "first_free (live_claim env clk (view db) q) q (qe_iter env db) = Some (k, v)"
    and c': "c' = new_claim clk q v consumer lease_for"
    using claim_scan_spec [OF assms(1) run]
    by (cases "first_free (live_claim env clk (view db) q) q (qe_iter env db)") auto
  have "\<not> live_claim env clk (view db) q v" using first_free_Some [OF first] by blast
  with recorded_live [OF assms(3)] assms(4) OpClaim c' show ?thesis by (auto simp: new_claim_def)
qed (use assms(2) in \<open>auto simp: no_claim_def split: sum.splits\<close>)

lemma run_excludes:
  assumes "env_ok env view" "separated Q" "queue_inv env Q (view db)" "lease_recorded env (view db) c" "qc_queue c \<in> Q"
    and "run_ok env view Q (foreign c) ops db"
  shows "(\<forall>c'. Inr (Some c') \<in> set (snd (run_queue env ops db)) \<longrightarrow>
      \<not> (qc_queue c' = qc_queue c \<and> qc_item_id c' = qc_item_id c)) \<and>
    lease_recorded env (view (fst (run_queue env ops db))) c"
  using assms(3,4,6)
proof (induction ops arbitrary: db)
  case (Cons op ops)
  obtain db1 r where one: "exec_op env op db = (db1, r)" by force
  have ok: "op_ok Q (view db) op" "foreign c op" "run_ok env view Q (foreign c) ops db1" using Cons.prems(3) one by simp_all
  from exec_op_keeps [OF assms(1,2) Cons.prems(1) ok(1)] one Cons.prems(2) ok(2) assms(5)
  have next1: "queue_inv env Q (view db1)" "lease_recorded env (view db1) c" by auto
  note ih = Cons.IH [OF next1 ok(3)]
  obtain db2 rs where rest: "run_queue env ops db1 = (db2, rs)" by force
  have "\<not> (qc_queue c' = qc_queue c \<and> qc_item_id c' = qc_item_id c)" if "r = Inr (Some c')" for c'
    using claimed_item_was_free [OF assms(1) _ Cons.prems(2) ok(2)] one that by blast
  with ih one rest show ?case by auto
qed simp

text \<open>C31: Claims are exclusive: for queue names whose marker keys cannot collide, from a database in which
  every lease has its marker, and with fresh claim identifiers, once a claim is
  recorded no other claim for the same item of the same queue is given out, through any sequence
  of claims, acknowledgements, renewals, clean-ups and enqueues by anyone, with any storage
  failures in between, until the claim itself is acknowledged or renewed or its lease ends; and
  the claim is still recorded at the end.\<close>

theorem claims_are_exclusive:
  assumes "env_ok env view" "separated Q" "queue_inv env Q (view db)" "lease_recorded env (view db) c" "qc_queue c \<in> Q"
    and "run_ok env view Q (foreign c) ops db"
  shows "(\<forall>c'. Inr (Some c') \<in> set (snd (run_queue env ops db)) \<longrightarrow>
      \<not> (qc_queue c' = qc_queue c \<and> qc_item_id c' = qc_item_id c)) \<and>
    lease_recorded env (view (fst (run_queue env ops db))) c"
  by (rule run_excludes [OF assms])

text \<open>\<open>ack_claim\<close> on every branch: an unknown claim is reported as not found and nothing changes; a
  claim whose lease has ended is forgotten, its item stays queued, and the expiry is reported; a
  live claim is forgotten together with its item; a storage or codec error changes nothing.\<close>

theorem ack_claim_correct:
  assumes "env_ok env view" and "ack_claim env clk cid db = (db', r)"
  shows "case r of
      Inr _ \<Rightarrow> \<exists>b c key. view db (lease_key cid) = Some b \<and> qe_decode env b = Inr c \<and> \<not> claim_is_expired clk c \<and>
        find_item (queue_prefix (qc_queue c)) (qc_item_id c) (qe_iter env db) = Inr key \<and>
        view db' = without ({lease_key cid, claimed_key (qc_queue c) (qc_item_id c)} \<union> item_keys key) (view db)
    | Inl (ClaimNotFound i) \<Rightarrow> i = cid \<and> view db (lease_key cid) = None \<and> db' = db
    | Inl (ClaimExpired i) \<Rightarrow> i = cid \<and> (\<exists>b c. view db (lease_key cid) = Some b \<and> qe_decode env b = Inr c \<and>
        claim_is_expired clk c \<and> view db' = without {lease_key cid, claimed_key (qc_queue c) (qc_item_id c)} (view db))
    | Inl _ \<Rightarrow> db' = db"
  using assms by (cases rule: ack_claim_cases) auto

subsection \<open>A concrete database\<close>

text \<open>
  An association list as the database and a codec for two claims (encoding may fail), to show
  that the assumptions on the environment can hold.
\<close>

definition list_entries :: "(string \<times> string) list \<Rightarrow> (string \<times> string) list" where
  "list_entries db = map (\<lambda>k. (k, the (map_of db k))) (sort (remdups (map fst db)))"

fun list_op :: "batch_op \<Rightarrow> (string \<times> string) list \<Rightarrow> (string \<times> string) list" where
  "list_op (BatchInsert k v) db = (k, v) # db"
| "list_op (BatchRemove k) db = filter (\<lambda>(k', _). k' \<noteq> k) db"

definition demo_now :: lease_now where
  "demo_now = \<lparr>ln_epoch = ''E'', ln_elapsed_ms = 0, ln_utc = 0, ln_uuid = ''c1''\<rparr>"

definition demo_claim :: queue_claim where
  "demo_claim = new_claim demo_now ''review:high'' ''R-1'' ''a'' 300000"

definition demo_claim2 :: queue_claim where
  "demo_claim2 = new_claim (demo_now\<lparr>ln_uuid := ''c2'', ln_elapsed_ms := 5\<rparr>) ''review:high'' ''R-2'' ''b'' 300000"

definition demo_env :: "(string \<times> string) list queue_env" where
  "demo_env =
     \<lparr>qe_get = (\<lambda>db k. Inr (map_of db k)),
      qe_iter = (\<lambda>db. map Inr (list_entries db)),
      qe_commit = (\<lambda>ops db. Inr (fold list_op ops db)),
      qe_encode = (\<lambda>c. if c = demo_claim then Inr ''1'' else if c = demo_claim2 then Inr ''2'' else Inl ''unsupported''),
      qe_decode = (\<lambda>b. if b = ''1'' then Inr demo_claim else if b = ''2'' then Inr demo_claim2 else Inl ''malformed'')\<rparr>"

lemma list_op_view: "map_of (list_op op db) = apply_op op (map_of db)"
proof (cases op)
  case (BatchRemove k)
  have "map_of (filter (\<lambda>(k', _). k' \<noteq> k) db) x = (if x = k then None else map_of db x)" for x
    by (induction db) auto
  with BatchRemove show ?thesis by (auto simp: fun_eq_iff)
qed simp

lemma list_entries_ok: "iter_ok (map_of db) (map Inr (list_entries db))"
proof -
  have "sorted_wrt (<) (map fst (list_entries db))"
    by (simp add: list_entries_def comp_def strict_sorted_iff)
  moreover have "map_of (list_entries db) = map_of db"
  proof
    fix k
    have dom: "k \<in> fst ` set db \<longleftrightarrow> map_of db k \<noteq> None" by (simp add: map_of_eq_None_iff)
    show "map_of (list_entries db) k = map_of db k"
      unfolding list_entries_def map_of_map_restrict using dom by (cases "map_of db k") (simp_all add: restrict_map_def)
  qed
  ultimately show ?thesis unfolding iter_ok_def by blast
qed

lemma demo_claims_differ: "demo_claim \<noteq> demo_claim2"
  by (simp add: demo_claim_def demo_claim2_def new_claim_def demo_now_def)

lemma demo_env_ok: "env_ok demo_env map_of"
proof -
  have "map_of (fold list_op ops db) = apply_batch ops (map_of db)" for ops db
    by (induction ops arbitrary: db) (simp_all add: list_op_view apply_batch_def)
  then show ?thesis using list_entries_ok demo_claims_differ by (auto simp: env_ok_def demo_env_def split: if_splits)
qed

definition demo_db :: "(string \<times> string) list" where
  "demo_db = [(queue_key ''review:high'' 1, ''R-1''), (queue_key ''review:high'' 2, ''R-2''),
     (claimed_key ''review:high'' ''R-1'', ''c1''), (lease_key ''c1'', ''1'')]"

lemma demo_db_inv: "queue_inv demo_env {''review:high''} (map_of demo_db)" "lease_recorded demo_env (map_of demo_db) demo_claim"
proof -
  show rec: "lease_recorded demo_env (map_of demo_db) demo_claim"
    by (simp add: lease_recorded_def demo_db_def demo_claim_def new_claim_def demo_now_def demo_env_def
        key_classes(3,4) [symmetric])
  have "cid = ''c1'' \<and> b = ''1''" if "map_of demo_db (lease_key cid) = Some b" for cid b
    using that by (auto simp: demo_db_def key_classes(3) [symmetric] split: if_splits)
  moreover have "qe_decode demo_env ''1'' = Inr demo_claim" "qc_claim_id demo_claim = ''c1''" "qc_queue demo_claim = ''review:high''"
    by (simp_all add: demo_env_def demo_claim_def new_claim_def demo_now_def)
  ultimately show "queue_inv demo_env {''review:high''} (map_of demo_db)"
    unfolding queue_inv_def using rec by fastforce
qed

definition demo_claim_op :: queue_op where
  "demo_claim_op = OpClaim (demo_now\<lparr>ln_uuid := ''c2'', ln_elapsed_ms := 5\<rparr>) ''review:high'' ''b'' 300000"

theorem claims_are_exclusive_witness:
  "lease_recorded demo_env (map_of (fst (run_queue demo_env [demo_claim_op, OpAck demo_now ''c2''] demo_db))) demo_claim"
proof -
  have "separated {''review:high''}" by (simp add: separated_def)
  moreover have "qc_queue demo_claim \<in> {''review:high''}" by (simp add: demo_claim_def new_claim_def)
  moreover have "map_of demo_db (lease_key ''c2'') = None" by (simp add: demo_db_def key_classes(3) [symmetric])
  then have "run_ok demo_env map_of {''review:high''} (foreign demo_claim) [demo_claim_op, OpAck demo_now ''c2''] demo_db"
    by (simp add: demo_claim_op_def demo_claim_def new_claim_def demo_now_def claim_is_expired_def deadline_ms_from_now_def
        duration_ms_saturating_def sat_add_def u64_max_def)
  ultimately show ?thesis
    using claims_are_exclusive [OF demo_env_ok _ demo_db_inv] by blast
qed

lemma demo_entries:
  "list_entries demo_db = [(claimed_key ''review:high'' ''R-1'', ''c1''), (lease_key ''c1'', ''1''),
     (queue_key ''review:high'' 1, ''R-1''), (queue_key ''review:high'' 2, ''R-2'')]"
  by (simp add: list_entries_def demo_db_def claimed_key_def lease_key_def queue_key_def pad20_def show_nat.simps digit_char_def
      less_char_def less_eq_char_def append_le_append)

lemma demo_claim2_taken:
  "queue_claim_next demo_env (demo_now\<lparr>ln_uuid := ''c2'', ln_elapsed_ms := 5\<rparr>) ''review:high'' ''b'' 300000 demo_db =
     ((claimed_key ''review:high'' ''R-2'', ''c2'') # (lease_key ''c2'', ''2'') # demo_db, Inr (Some demo_claim2))"
proof -
  have skip: "\<not> starts_with (claimed_key q i) (queue_prefix q')" "\<not> starts_with (lease_key c) (queue_prefix q')"
    "starts_with (queue_key q n) (queue_prefix q)" for q q' i c n
    by (auto simp: queue_key_def queue_prefix_def claimed_key_def lease_key_def starts_with_conv)
  have env: "qe_get demo_env = (\<lambda>db k. Inr (map_of db k))" "qe_decode demo_env ''1'' = Inr demo_claim"
    "qe_encode demo_env demo_claim2 = Inr ''2''" "qe_commit demo_env = (\<lambda>ops db. Inr (fold list_op ops db))"
    using demo_claims_differ by (simp_all add: demo_env_def)
  have view: "map_of demo_db (claimed_key ''review:high'' ''R-1'') = Some ''c1''" "map_of demo_db (lease_key ''c1'') = Some ''1''"
    "map_of demo_db (claimed_key ''review:high'' ''R-2'') = None"
    by (simp_all add: demo_db_def key_classes(3,4) [symmetric])
  have live: "\<not> claim_is_expired (demo_now\<lparr>ln_uuid := ''c2'', ln_elapsed_ms := 5\<rparr>) demo_claim"
    "qc_queue demo_claim = ''review:high''" "qc_item_id demo_claim = ''R-1''"
    by (simp_all add: demo_claim_def new_claim_def demo_now_def claim_is_expired_def deadline_ms_from_now_def
        duration_ms_saturating_def sat_add_def u64_max_def)
  have iter: "qe_iter demo_env demo_db = map Inr (list_entries demo_db)" by (simp add: demo_env_def)
  show ?thesis
    unfolding queue_claim_next_def iter demo_entries
    by (simp add: skip claim_marker_is_active_def env view live commit_def demo_claim2_def [symmetric] del: starts_with_append)
qed

theorem claim_takes_first_free_item_witness:
  "\<exists>k v. map_of demo_db k = Some v \<and> starts_with k (queue_prefix ''review:high'') \<and>
     demo_claim2 = new_claim (demo_now\<lparr>ln_uuid := ''c2'', ln_elapsed_ms := 5\<rparr>) ''review:high'' v ''b'' 300000"
  using claim_takes_first_free_item [OF demo_env_ok demo_claim2_taken] by auto

lemma demo_ack: "snd (ack_claim demo_env demo_now ''c1'' demo_db) = Inr ()"
proof -
  have env: "qe_get demo_env = (\<lambda>db k. Inr (map_of db k))" "qe_decode demo_env ''1'' = Inr demo_claim"
    "qe_commit demo_env = (\<lambda>ops db. Inr (fold list_op ops db))" by (simp_all add: demo_env_def)
  have view: "map_of demo_db (lease_key ''c1'') = Some ''1''" by (simp add: demo_db_def key_classes(3,4) [symmetric])
  have live: "\<not> claim_is_expired demo_now demo_claim"
    by (simp add: demo_claim_def new_claim_def demo_now_def claim_is_expired_def deadline_ms_from_now_def
        duration_ms_saturating_def sat_add_def u64_max_def)
  have "\<exists>key. find_item p i (map Inr kvs) = Inr key" for p i kvs by (induction kvs) auto
  then have "\<exists>key. find_item (queue_prefix (qc_queue demo_claim)) (qc_item_id demo_claim) (qe_iter demo_env demo_db) = Inr key"
    by (simp add: demo_env_def)
  then obtain key where "find_item (queue_prefix (qc_queue demo_claim)) (qc_item_id demo_claim) (qe_iter demo_env demo_db) = Inr key" ..
  then show ?thesis by (simp add: ack_claim_def with_live_claim_def env view live commit_def)
qed

theorem ack_claim_correct_witness:
  "\<exists>b c key. map_of demo_db (lease_key ''c1'') = Some b \<and> qe_decode demo_env b = Inr c \<and>
     map_of (fst (ack_claim demo_env demo_now ''c1'' demo_db)) =
       without ({lease_key ''c1'', claimed_key (qc_queue c) (qc_item_id c)} \<union> item_keys key) (map_of demo_db)"
  using ack_claim_correct [OF demo_env_ok prod.collapse [symmetric], of demo_now "''c1''" demo_db] unfolding demo_ack by auto

end
