(* ===== verification/Review_Queue.thy ===== *)
theory Review_Queue
  imports Lease_Exclusion Events
begin

text \<open>
  \<open>crates/brehon-review/src/queue.rs\<close>: the review queue, four priority lanes over the lease queue.
  The store's operations are those of \<open>Lease_Queue\<close>; \<open>append_and_enqueue\<close> (the event log, its
  indexes and the idempotency table) is an argument.
\<close>

datatype queue_error =
    QueueClaimNotFound string
  | QueueClaimExpired string
  | QueueEmpty
  | QueueStorage store_error

definition lane_names :: "string list" where
  "lane_names = [''critical'', ''high'', ''medium'', ''low'']"

definition priority_to_lane :: "priority \<Rightarrow> string" where
  "priority_to_lane p = (case p of Critical \<Rightarrow> ''critical'' | High \<Rightarrow> ''high'' | Medium \<Rightarrow> ''medium'' | Low \<Rightarrow> ''low'')"

definition lane_to_priority :: "string \<Rightarrow> priority option" where
  "lane_to_priority l =
     (if l = ''critical'' then Some Critical else if l = ''high'' then Some High
      else if l = ''medium'' then Some Medium else if l = ''low'' then Some Low else None)"

definition review_queue_name :: "string \<Rightarrow> string" where
  "review_queue_name lane = ''review:'' @ lane"

definition review_requested_idempotency_key :: "review_id \<Rightarrow> string" where
  "review_requested_idempotency_key r = ''review_requested:'' @ r"

definition storage_error :: "'db \<times> (store_error, 'a) result \<Rightarrow> 'db \<times> (queue_error, 'a) result" where
  "storage_error x = (fst x, case snd x of Inl e \<Rightarrow> Inl (QueueStorage e) | Inr a \<Rightarrow> Inr a)"

type_synonym 'db enqueue_port = "event \<Rightarrow> string \<Rightarrow> string \<Rightarrow> string option \<Rightarrow> 'db \<Rightarrow> 'db \<times> (store_error, event_id) result"

definition pq_enqueue ::
    "'db enqueue_port \<Rightarrow> time \<Rightarrow> review_id \<Rightarrow> string \<Rightarrow> priority \<Rightarrow> 'db \<Rightarrow> 'db \<times> (queue_error, unit) result" where
  "pq_enqueue append_and_enqueue now rid tid p db =
     (case storage_error (append_and_enqueue
             \<lparr>ev_kind = ReviewRequested tid rid, ev_timestamp = now, ev_aggregate_id = rid\<rparr>
             (review_queue_name (priority_to_lane p)) rid (Some (review_requested_idempotency_key rid)) db) of
        (db', Inl e) \<Rightarrow> (db', Inl e)
      | (db', Inr _) \<Rightarrow> (db', Inr ()))"

fun claim_lanes ::
    "'db queue_env \<Rightarrow> lease_now \<Rightarrow> string \<Rightarrow> nat \<Rightarrow> string list \<Rightarrow> 'db \<Rightarrow> 'db \<times> (queue_error, queue_claim option) result" where
  "claim_lanes env clk consumer lease_for [] db = (db, Inr None)"
| "claim_lanes env clk consumer lease_for (lane # lanes) db =
     (case storage_error (queue_claim_next env clk (review_queue_name lane) consumer lease_for db) of
        (db', Inl e) \<Rightarrow> (db', Inl e)
      | (db', Inr (Some claim)) \<Rightarrow> (db', Inr (Some claim))
      | (db', Inr None) \<Rightarrow> claim_lanes env clk consumer lease_for lanes db')"

definition pq_claim_next ::
    "'db queue_env \<Rightarrow> lease_now \<Rightarrow> nat \<Rightarrow> string \<Rightarrow> 'db \<Rightarrow> 'db \<times> (queue_error, queue_claim option) result" where
  "pq_claim_next env clk lease_for consumer db = claim_lanes env clk consumer lease_for lane_names db"

definition claim_from_lane ::
    "'db queue_env \<Rightarrow> lease_now \<Rightarrow> nat \<Rightarrow> string \<Rightarrow> string \<Rightarrow> 'db \<Rightarrow> 'db \<times> (queue_error, queue_claim option) result" where
  "claim_from_lane env clk lease_for lane consumer db =
     storage_error (queue_claim_next env clk (review_queue_name lane) consumer lease_for db)"

definition pq_ack :: "'db queue_env \<Rightarrow> lease_now \<Rightarrow> string \<Rightarrow> 'db \<Rightarrow> 'db \<times> (queue_error, unit) result" where
  "pq_ack env clk cid db = storage_error (ack_claim env clk cid db)"

definition pq_renew :: "'db queue_env \<Rightarrow> lease_now \<Rightarrow> string \<Rightarrow> nat \<Rightarrow> 'db \<Rightarrow> 'db \<times> (queue_error, unit) result" where
  "pq_renew env clk cid lease_for db = storage_error (renew_claim env clk cid lease_for db)"

subsection \<open>Lanes\<close>

lemma lane_roundtrip: "lane_to_priority (priority_to_lane p) = Some p"
  by (cases p) (simp_all add: lane_to_priority_def priority_to_lane_def)

definition review_queues :: "string set" where
  "review_queues = review_queue_name ` set lane_names"

lemma review_queues_separated: "separated review_queues"
  by (auto simp: separated_def review_queues_def lane_names_def review_queue_name_def claimed_key_def)

text \<open>A claim on one queue does not change which items of the other queues have live claims.\<close>

lemma marker_other_live:
  assumes "env_ok env view" and "claim_marker_is_active env clk (claimed_key q item) q item db = (db', r)"
    and "separated Q" "q \<in> Q" "q' \<in> Q"
  shows "live_claim env clk (view db') q' i = live_claim env clk (view db) q' i"
proof (cases "q' = q")
  case True
  with marker_check [OF assms(1,2)] show ?thesis by simp
next
  case False
  then have key: "claimed_key q' i \<noteq> claimed_key q item" using assms(3-5) unfolding separated_def by blast
  from assms(1,2) show ?thesis
  proof (cases rule: marker_without)
    case same
    then show ?thesis by simp
  next
    case marker
    with key show ?thesis by (simp add: live_claim_def split: option.split)
  next
    case (lease cid b)
    then have "live_claim env clk (without {claimed_key q item} ((view db)(lease_key cid := None))) q' i =
        live_claim env clk ((view db)(lease_key cid := None)) q' i"
      using key by (simp add: live_claim_def split: option.split)
    moreover have "view db' = without {claimed_key q item} ((view db)(lease_key cid := None))"
      using lease(1) by (auto simp: fun_eq_iff)
    ultimately show ?thesis using live_drop_lease [of "view db" cid b env clk q' i] lease(3,5) by simp
  qed
qed

lemma scan_none_live:
  assumes "env_ok env view" "separated Q" "q \<in> Q" "q' \<in> Q"
    and "claim_scan env clk q consumer lease_for es db = (db', Inr None)"
  shows "live_claim env clk (view db') q' i = live_claim env clk (view db) q' i"
  using assms(5)
proof (induction es arbitrary: db)
  case (Cons e es)
  then obtain k v where e: "e = Inr (k, v)" by (cases e) auto
  show ?case
  proof (cases "starts_with k (queue_prefix q)")
    case True
    obtain db1 act where run: "claim_marker_is_active env clk (claimed_key q v) q v db = (db1, act)" by force
    from Cons.prems e True run have "act = Inr True" "claim_scan env clk q consumer lease_for es db1 = (db', Inr None)"
      by (auto simp: Let_def commit_def split: sum.splits bool.splits)
    with Cons.IH [of db1] marker_other_live [OF assms(1) run assms(2-4)] show ?thesis by simp
  qed (use Cons e in simp)
qed simp

lemma scan_none_items:
  assumes "env_ok env view" "claim_scan env clk q consumer lease_for es db = (db', Inr None)" "starts_with k (queue_prefix q')"
  shows "view db' k = view db k"
  using assms(2)
proof (induction es arbitrary: db)
  case (Cons e es)
  then obtain k1 v where e: "e = Inr (k1, v)" by (cases e) auto
  show ?case
  proof (cases "starts_with k1 (queue_prefix q)")
    case True
    obtain db1 act where run: "claim_marker_is_active env clk (claimed_key q v) q v db = (db1, act)" by force
    from Cons.prems e True run have "act = Inr True" "claim_scan env clk q consumer lease_for es db1 = (db', Inr None)"
      by (auto simp: Let_def commit_def split: sum.splits bool.splits)
    moreover from assms(1) run have "view db1 k = view db k"
      by (cases rule: marker_without) (use queue_prefix_not [OF assms(3)] in auto)
    ultimately show ?thesis using Cons.IH [of db1] by simp
  qed (use Cons e in simp)
qed simp

definition all_busy :: "'db queue_env \<Rightarrow> lease_now \<Rightarrow> (string \<rightharpoonup> string) \<Rightarrow> string \<Rightarrow> bool" where
  "all_busy env clk m q \<longleftrightarrow> (\<forall>k v. m k = Some v \<and> starts_with k (queue_prefix q) \<longrightarrow> live_claim env clk m q v)"

definition first_in_queue :: "'db queue_env \<Rightarrow> lease_now \<Rightarrow> (string \<rightharpoonup> string) \<Rightarrow> queue_claim \<Rightarrow> bool" where
  "first_in_queue env clk m c \<longleftrightarrow>
     (\<exists>k. m k = Some (qc_item_id c) \<and> starts_with k (queue_prefix (qc_queue c)) \<and>
       \<not> live_claim env clk m (qc_queue c) (qc_item_id c) \<and>
       (\<forall>k' v'. m k' = Some v' \<and> starts_with k' (queue_prefix (qc_queue c)) \<and> k' < k \<longrightarrow> live_claim env clk m (qc_queue c) v'))"

lemma same_queues:
  assumes "\<And>q i. q \<in> Q \<Longrightarrow> live_claim env clk m' q i = live_claim env clk m q i"
    and "\<And>k q. starts_with k (queue_prefix q) \<Longrightarrow> m' k = m k"
  shows "q \<in> Q \<Longrightarrow> all_busy env clk m' q = all_busy env clk m q"
    and "qc_queue c \<in> Q \<Longrightarrow> first_in_queue env clk m' c = first_in_queue env clk m c"
  unfolding all_busy_def first_in_queue_def using assms by metis+

lemma claim_lanes_spec:
  assumes "env_ok env view" "separated Q" "review_queue_name ` set lanes \<subseteq> Q"
    and "claim_lanes env clk consumer lease_for lanes db = (db', Inr r)"
  shows "case r of
      None \<Rightarrow> \<forall>lane \<in> set lanes. all_busy env clk (view db) (review_queue_name lane)
    | Some c \<Rightarrow> \<exists>hi lane lo. lanes = hi @ lane # lo \<and> qc_queue c = review_queue_name lane \<and> first_in_queue env clk (view db) c \<and>
        (\<forall>h \<in> set hi. all_busy env clk (view db) (review_queue_name h)) \<and> lease_recorded env (view db') c"
  using assms(3,4)
proof (induction lanes arbitrary: db)
  case (Cons lane lanes)
  let ?q = "review_queue_name lane"
  obtain db1 res where run: "queue_claim_next env clk ?q consumer lease_for db = (db1, Inr res)"
    using Cons.prems(2) by (cases "queue_claim_next env clk ?q consumer lease_for db")
      (auto simp: storage_error_def split: sum.splits)
  note spec = queue_claim_next_spec [OF assms(1) run]
  show ?case
  proof (cases res)
    case (Some c)
    with Cons.prems(2) run have r: "r = Some c" "db' = db1" by (simp_all add: storage_error_def)
    from spec Some obtain k v where "view db k = Some v" "starts_with k (queue_prefix ?q)" "\<not> live_claim env clk (view db) ?q v"
      "\<forall>k' v'. view db k' = Some v' \<and> starts_with k' (queue_prefix ?q) \<and> k' < k \<longrightarrow> live_claim env clk (view db) ?q v'"
      "c = new_claim clk ?q v consumer lease_for" "lease_recorded env (view db1) c" by auto
    then have "qc_queue c = ?q" "first_in_queue env clk (view db) c" "lease_recorded env (view db1) c"
      by (auto simp: first_in_queue_def new_claim_def)
    with r show ?thesis unfolding r option.case
      by (intro exI [of _ "[] :: string list"] exI [of _ lane] exI [of _ lanes]) simp
  next
    case None
    have rest: "claim_lanes env clk consumer lease_for lanes db1 = (db', Inr r)"
      using Cons.prems(2) run None by (simp add: storage_error_def)
    note scan = run [unfolded None queue_claim_next_def]
    have q: "?q \<in> Q" using Cons.prems(1) by auto
    have same: "q' \<in> Q \<Longrightarrow> all_busy env clk (view db1) q' = all_busy env clk (view db) q'"
      "qc_queue c \<in> Q \<Longrightarrow> first_in_queue env clk (view db1) c = first_in_queue env clk (view db) c" for q' c
      using same_queues [of Q env clk "view db1" "view db"] scan_none_live [OF assms(1,2) q _ scan]
        scan_none_items [OF assms(1) scan] by blast+
    have busy: "all_busy env clk (view db) ?q" using spec None by (simp add: all_busy_def)
    have sub: "review_queue_name ` set lanes \<subseteq> Q" using Cons.prems(1) by auto
    note ih = Cons.IH [OF sub rest]
    show ?thesis
    proof (cases r)
      case None
      with ih busy same(1) sub show ?thesis by auto
    next
      case (Some c)
      with ih obtain hi l lo where "lanes = hi @ l # lo" "qc_queue c = review_queue_name l" "first_in_queue env clk (view db1) c"
        "\<forall>h \<in> set hi. all_busy env clk (view db1) (review_queue_name h)" "lease_recorded env (view db') c" by auto
      moreover from this sub have "\<forall>h \<in> set hi. review_queue_name h \<in> Q" by auto
      ultimately show ?thesis using busy same sub Some by (auto intro!: exI [of _ "lane # hi"])
    qed
  qed
qed simp

lemma lane_of_priority: "priority_to_lane p \<in> set lane_names"
  by (cases p) (simp_all add: lane_names_def priority_to_lane_def)

lemma priority_rank_bound: "3 < priority_rank p \<Longrightarrow> False"
  by (cases p) simp_all

lemma lane_names_split:
  assumes "lane_names = hi @ lane # lo"
  shows "\<exists>p. lane = priority_to_lane p \<and> (\<forall>p' > p. priority_to_lane p' \<in> set hi)"
proof -
  from assms consider "hi = []" "lane = ''critical''" | "hi = [''critical'']" "lane = ''high''"
    | "hi = [''critical'', ''high'']" "lane = ''medium''" | "hi = [''critical'', ''high'', ''medium'']" "lane = ''low''"
    by (auto simp: lane_names_def Cons_eq_append_conv)
  then show ?thesis
  proof cases
    case 1
    then show ?thesis
      by (intro exI [of _ Critical]) (auto simp: priority_to_lane_def less_priority_def dest: priority_rank_bound)
  next
    case 2
    then show ?thesis
      by (intro exI [of _ High]) (auto simp: priority_to_lane_def less_priority_def split: priority.splits)
  next
    case 3
    then show ?thesis
      by (intro exI [of _ Medium]) (auto simp: priority_to_lane_def less_priority_def split: priority.splits)
  next
    case 4
    then show ?thesis
      by (intro exI [of _ Low]) (auto simp: priority_to_lane_def less_priority_def split: priority.splits)
  qed
qed

text \<open>The review queue serves lanes by priority and each lane first in, first out: a claim is for the
  first item without a live claim in the most urgent lane that has one, every more urgent lane
  having only items with live claims; nothing is returned only when all items of all lanes have
  live claims.\<close>

theorem review_queue_serves_by_priority:
  assumes "env_ok env view" and "pq_claim_next env clk lease_for consumer db = (db', Inr r)"
  shows "case r of
      None \<Rightarrow> \<forall>p. all_busy env clk (view db) (review_queue_name (priority_to_lane p))
    | Some c \<Rightarrow> \<exists>p. qc_queue c = review_queue_name (priority_to_lane p) \<and> first_in_queue env clk (view db) c \<and>
        (\<forall>p' > p. all_busy env clk (view db) (review_queue_name (priority_to_lane p')))"
proof -
  have lanes: "review_queue_name ` set lane_names \<subseteq> review_queues" by (simp add: review_queues_def)
  note spec = claim_lanes_spec [OF assms(1) review_queues_separated lanes assms(2) [unfolded pq_claim_next_def]]
  show ?thesis
  proof (cases r)
    case None
    with spec lane_of_priority show ?thesis by auto
  next
    case (Some c)
    with spec obtain hi lane lo where split: "lane_names = hi @ lane # lo" and c: "qc_queue c = review_queue_name lane"
      "first_in_queue env clk (view db) c" "\<forall>h \<in> set hi. all_busy env clk (view db) (review_queue_name h)" by auto
    from lane_names_split [OF split] obtain p where "lane = priority_to_lane p" "\<forall>p' > p. priority_to_lane p' \<in> set hi" by blast
    with c Some show ?thesis by auto
  qed
qed

definition lane_now :: lease_now where
  "lane_now = demo_now\<lparr>ln_uuid := ''c2'', ln_elapsed_ms := 5\<rparr>"

lemma empty_lane:
  assumes "\<forall>x \<in> set (list_entries db). \<not> starts_with (fst x) (queue_prefix q)"
  shows "queue_claim_next demo_env clk q consumer lease_for db = (db, Inr None)"
proof -
  have "claim_scan demo_env clk q consumer lease_for (map Inr kvs) db = (db, Inr None)"
    if "\<forall>x \<in> set kvs. \<not> starts_with (fst x) (queue_prefix q)" for kvs
    using that by (induction kvs) auto
  from this [OF assms] show ?thesis by (simp add: queue_claim_next_def demo_env_def)
qed

lemma demo_lane_claim: "snd (pq_claim_next demo_env lane_now 300000 ''b'' demo_db) = Inr (Some demo_claim2)"
proof -
  have "queue_claim_next demo_env lane_now ''review:critical'' ''b'' 300000 demo_db = (demo_db, Inr None)"
    by (rule empty_lane) (auto simp: demo_entries starts_with_conv queue_prefix_def queue_key_def claimed_key_def lease_key_def)
  then show ?thesis
    using demo_claim2_taken
    by (simp add: pq_claim_next_def lane_names_def review_queue_name_def storage_error_def lane_now_def)
qed

theorem review_queue_serves_by_priority_witness:
  "\<exists>p. qc_queue demo_claim2 = review_queue_name (priority_to_lane p) \<and>
     first_in_queue demo_env lane_now (map_of demo_db) demo_claim2"
  using review_queue_serves_by_priority [OF demo_env_ok prod.expand, of lane_now 300000 "''b''" demo_db _ "Some demo_claim2"]
  by (simp add: demo_lane_claim) blast

end
