(* ===== verification/Dependency_Graph.thy ===== *)
theory Dependency_Graph
  imports Task_Lifecycle
begin

text \<open>
  \<open>crates/brehon-orchestrator/src/dependency_graph.rs\<close>: the task dependency graph with its
  depth-first cycle check, Kahn's topological order and the queries for ready tasks. The
  model keeps the three containers of \<open>DependencyGraph\<close>; an operation that mutates the graph
  and may fail returns the graph it leaves behind together with its result.
\<close>

subsection \<open>State and operations\<close>

record dep_graph =
  nodes :: "task_id list"
  edges :: "(task_id, task_id list) hmap"
  reverse_edges :: "(task_id, task_id list) hmap"

definition new_graph :: dep_graph where
  "new_graph = \<lparr>nodes = [], edges = [], reverse_edges = []\<rparr>"

definition add_task :: "task_id \<Rightarrow> dep_graph \<Rightarrow> dep_graph" where
  "add_task t g =
     g\<lparr>nodes := hs_insert t (nodes g),
       edges := hm_or_insert t [] (edges g),
       reverse_edges := hm_or_insert t [] (reverse_edges g)\<rparr>"

definition remove_task :: "task_id hash_order \<Rightarrow> task_id \<Rightarrow> dep_graph \<Rightarrow> dep_graph" where
  "remove_task h t g =
     (let rev1 = (case hm_get (edges g) t of
                    None \<Rightarrow> reverse_edges g
                  | Some dependencies \<Rightarrow>
                      fold (\<lambda>dep. hm_modify dep (hs_remove t)) (iterate h dependencies) (reverse_edges g))
      in g\<lparr>nodes := hs_remove t (nodes g),
           edges := hm_map_values (hs_remove t) (hm_remove t (edges g)),
           reverse_edges := hm_remove t rev1\<rparr>)"

definition neighbors :: "task_id hash_order \<Rightarrow> (task_id, task_id list) hmap \<Rightarrow> task_id \<Rightarrow> task_id list" where
  "neighbors h es node = (case hm_get es node of None \<Rightarrow> [] | Some ns \<Rightarrow> iterate h ns)"

function has_cycle_dfs ::
    "task_id hash_order \<Rightarrow> (task_id, task_id list) hmap \<Rightarrow> task_id \<Rightarrow> task_id set \<Rightarrow> task_id set \<Rightarrow>
      bool \<times> task_id set \<times> task_id set"
  and has_cycle_loop ::
    "task_id hash_order \<Rightarrow> (task_id, task_id list) hmap \<Rightarrow> task_id list \<Rightarrow> task_id set \<Rightarrow> task_id set \<Rightarrow>
      bool \<times> task_id set \<times> task_id set"
where
  "has_cycle_dfs h es node visited rec_stack =
     (case has_cycle_loop h es (neighbors h es node) (insert node visited) (insert node rec_stack) of
        (found, visited', rec_stack') \<Rightarrow>
          if found then (True, visited', rec_stack') else (False, visited', rec_stack' - {node}))"
| "has_cycle_loop h es [] visited rec_stack = (False, visited, rec_stack)"
| "has_cycle_loop h es (n # ns) visited rec_stack =
     (if n \<notin> visited then
        (case has_cycle_dfs h es n visited rec_stack of
           (found, visited', rec_stack') \<Rightarrow>
             if found then (True, visited', rec_stack') else has_cycle_loop h es ns visited' rec_stack')
      else if n \<in> rec_stack then (True, visited, rec_stack)
      else has_cycle_loop h es ns visited rec_stack)"
  by pat_completeness auto

lemma dfs_visits_more:
  "has_cycle_dfs_has_cycle_loop_dom (Inl (h, es, node, visited, rec_stack)) \<Longrightarrow>
     insert node visited \<subseteq> fst (snd (has_cycle_dfs h es node visited rec_stack))"
  "has_cycle_dfs_has_cycle_loop_dom (Inr (h, es, ns, visited, rec_stack)) \<Longrightarrow>
     visited \<subseteq> fst (snd (has_cycle_loop h es ns visited rec_stack))"
proof (induction rule: has_cycle_dfs_has_cycle_loop.pinduct)
  case (1 h es node visited rec_stack)
  then show ?case
    by (auto simp: has_cycle_dfs.psimps split: prod.splits)
next
  case (2 h es visited rec_stack)
  then show ?case by (simp add: has_cycle_loop.psimps)
next
  case (3 h es n ns visited rec_stack)
  show ?case
  proof (cases "n \<in> visited")
    case True
    then show ?thesis
      using "3.IH"(3) by (auto simp: has_cycle_loop.psimps(2) [OF "3.hyps"])
  next
    case False
    obtain found v r where dfs: "has_cycle_dfs h es n visited rec_stack = (found, v, r)"
      by (metis prod_cases3)
    have "insert n visited \<subseteq> v"
      using "3.IH"(1) [OF False] dfs by simp
    moreover have "\<not> found \<Longrightarrow> v \<subseteq> fst (snd (has_cycle_loop h es ns v r))"
      using "3.IH"(2) [OF False, of found "(v, r)" v r] dfs by simp
    ultimately show ?thesis
      using False by (auto simp: has_cycle_loop.psimps(2) [OF "3.hyps"] dfs)
  qed
qed

definition dfs_measure ::
  "task_id hash_order \<times> (task_id, task_id list) hmap \<times> task_id \<times> task_id set \<times> task_id set
   + task_id hash_order \<times> (task_id, task_id list) hmap \<times> task_id list \<times> task_id set \<times> task_id set
   \<Rightarrow> nat \<times> nat" where
  "dfs_measure x =
     (case x of
        Inl (h, es, node, visited, _) \<Rightarrow>
          (card (fst ` set es - insert node visited), 2 * length (neighbors h es node) + 2)
      | Inr (h, es, ns, visited, _) \<Rightarrow> (card (fst ` set es - visited), 2 * length ns + 1))"

lemma neighbors_missing: "node \<notin> fst ` set es \<Longrightarrow> neighbors h es node = []"
  using hm_contains_conv [of es node] by (simp add: neighbors_def hm_contains_def)

lemma card_unvisited_mono: "visited \<subseteq> visited' \<Longrightarrow> card (fst ` set es - visited') \<le> card (fst ` set es - visited)"
  by (intro card_mono) auto

lemma card_unvisited_less:
  "n \<notin> visited \<Longrightarrow> n \<in> fst ` set es \<Longrightarrow>
     card (fst ` set es - insert n visited) < card (fst ` set es - visited)"
  by (intro psubset_card_mono) auto

termination has_cycle_dfs
proof (relation "inv_image (less_than <*lex*> less_than) dfs_measure", goal_cases)
  case 1
  show ?case by auto
next
  case (2 h es node visited rec_stack)
  show ?case by (simp add: dfs_measure_def)
next
  case (3 h es n ns visited rec_stack)
  then show ?case
    using card_unvisited_less [of n visited es] card_unvisited_mono [of visited "insert n visited" es]
    by (cases "n \<in> fst ` set es") (auto simp: dfs_measure_def neighbors_missing le_less)
next
  case (4 h es n ns visited rec_stack found rest visited' rec_stack')
  have "visited \<subseteq> visited'"
    using dfs_visits_more(1) [OF 4(5)] 4(2,3) by (metis fst_conv insert_subset snd_conv)
  then have "card (fst ` set es - visited') \<le> card (fst ` set es - visited)"
    by (rule card_unvisited_mono)
  then show ?case by (auto simp: dfs_measure_def)
next
  case (5 h es n ns visited rec_stack)
  then show ?case by (simp add: dfs_measure_def)
qed


declare has_cycle_dfs.simps [simp del]

fun has_cycle_from ::
    "task_id hash_order \<Rightarrow> (task_id, task_id list) hmap \<Rightarrow> task_id list \<Rightarrow> task_id set \<Rightarrow> task_id set \<Rightarrow> bool"
where
  "has_cycle_from h es [] visited rec_stack = False"
| "has_cycle_from h es (n # ns) visited rec_stack =
     (if n \<notin> visited then
        (case has_cycle_dfs h es n visited rec_stack of
           (found, visited', rec_stack') \<Rightarrow>
             if found then True else has_cycle_from h es ns visited' rec_stack')
      else has_cycle_from h es ns visited rec_stack)"

definition has_cycle :: "task_id hash_order \<Rightarrow> dep_graph \<Rightarrow> bool" where
  "has_cycle h g = has_cycle_from h (edges g) (iterate h (nodes g)) {} {}"

definition cycle_message :: "task_id \<Rightarrow> task_id \<Rightarrow> string" where
  "cycle_message t d = ''Adding dependency '' @ t @ '' -> '' @ d @ '' would create a cycle''"

definition add_dependency ::
    "task_id hash_order \<Rightarrow> task_id \<Rightarrow> task_id \<Rightarrow> dep_graph \<Rightarrow> dep_graph \<times> (orchestrator_error, unit) result"
where
  "add_dependency h t d g =
     (let g1 = g\<lparr>nodes := hs_insert d (hs_insert t (nodes g)),
                 edges := hm_or_insert d [] (hm_or_insert t [] (edges g)),
                 reverse_edges := hm_or_insert d [] (hm_or_insert t [] (reverse_edges g))\<rparr>;
          g2 = g1\<lparr>edges := hm_modify t (hs_insert d) (edges g1)\<rparr>
      in if has_cycle h g2
         then (g2\<lparr>edges := hm_modify t (hs_remove d) (edges g2)\<rparr>, Inl (CycleError (cycle_message t d)))
         else (g2\<lparr>reverse_edges := hm_modify d (hs_insert t) (reverse_edges g2)\<rparr>, Inr ()))"

definition remove_dependency :: "task_id \<Rightarrow> task_id \<Rightarrow> dep_graph \<Rightarrow> dep_graph" where
  "remove_dependency t d g =
     g\<lparr>edges := hm_modify t (hs_remove d) (edges g),
       reverse_edges := hm_modify d (hs_remove t) (reverse_edges g)\<rparr>"

definition get_dependencies :: "dep_graph \<Rightarrow> task_id \<Rightarrow> task_id list" where
  "get_dependencies g t = (case hm_get (edges g) t of None \<Rightarrow> [] | Some ds \<Rightarrow> ds)"

definition get_dependents :: "dep_graph \<Rightarrow> task_id \<Rightarrow> task_id list" where
  "get_dependents g t = (case hm_get (reverse_edges g) t of None \<Rightarrow> [] | Some ds \<Rightarrow> ds)"

definition initial_degrees :: "task_id hash_order \<Rightarrow> dep_graph \<Rightarrow> (task_id, nat) hmap" where
  "initial_degrees h g =
     fold (\<lambda>t m. case hm_get (edges g) t of None \<Rightarrow> m | Some ds \<Rightarrow> hm_insert t (length ds) m)
       (iterate h (nodes g))
       (fold (\<lambda>t. hm_insert t 0) (iterate h (nodes g)) [])"

fun relax_dependents ::
    "task_id list \<Rightarrow> (task_id, nat) hmap \<Rightarrow> task_id list \<Rightarrow> (task_id, nat) hmap \<times> task_id list"
where
  "relax_dependents [] in_degree queue = (in_degree, queue)"
| "relax_dependents (d # ds) in_degree queue =
     (case hm_get in_degree d of
        None \<Rightarrow> relax_dependents ds in_degree queue
      | Some degree \<Rightarrow>
          if degree > 0
          then relax_dependents ds (hm_insert d (degree - 1) in_degree)
                 (if degree - 1 = 0 then queue @ [d] else queue)
          else relax_dependents ds in_degree queue)"

definition positive_degrees :: "(task_id, nat) hmap \<Rightarrow> task_id set" where
  "positive_degrees m = {t. \<exists>k > 0. hm_get m t = Some k}"

lemma finite_positive_degrees [simp]: "finite (positive_degrees m)"
proof (rule finite_subset)
  show "positive_degrees m \<subseteq> fst ` set m"
    by (force simp: positive_degrees_def dest: hm_get_SomeD)
qed simp

lemma positive_degrees_insert:
  "hm_get m d = Some k \<Longrightarrow> 0 < k \<Longrightarrow>
     positive_degrees (hm_insert d (k - 1) m) = (if k = 1 then positive_degrees m - {d} else positive_degrees m)"
  by (auto simp: positive_degrees_def)

lemma relax_measure:
  "relax_dependents ds m q = (m', q') \<Longrightarrow>
     length q' + card (positive_degrees m') \<le> length q + card (positive_degrees m)"
proof (induction ds m q rule: relax_dependents.induct)
  case (1 m q)
  then show ?case by simp
next
  case (2 d ds m q)
  show ?case
  proof (cases "\<exists>k > 0. hm_get m d = Some k")
    case True
    then obtain k where k: "hm_get m d = Some k" "0 < k" by auto
    then have "d \<in> positive_degrees m" by (auto simp: positive_degrees_def)
    then have "Suc (card (positive_degrees m - {d})) = card (positive_degrees m)"
      by (rule card_Suc_Diff1 [OF finite_positive_degrees])
    moreover have "length q' + card (positive_degrees m') \<le>
        length (if k - 1 = 0 then q @ [d] else q) + card (positive_degrees (hm_insert d (k - 1) m))"
      using "2.IH"(2) [OF k] "2.prems" k by simp
    ultimately show ?thesis
      using k positive_degrees_insert [OF k] by (auto split: if_splits)
  next
    case False
    then show ?thesis
      using "2.IH" "2.prems" by (cases "hm_get m d") auto
  qed
qed

function kahn ::
    "task_id hash_order \<Rightarrow> dep_graph \<Rightarrow> (task_id, nat) hmap \<Rightarrow> task_id list \<Rightarrow> task_id list \<Rightarrow> task_id list"
where
  "kahn h g in_degree [] result = result"
| "kahn h g in_degree (node # queue) result =
     (case relax_dependents (neighbors h (reverse_edges g) node) in_degree queue of
        (in_degree', queue') \<Rightarrow> kahn h g in_degree' queue' (result @ [node]))"
  by pat_completeness auto

termination
proof (relation "measure (\<lambda>(h, g, m, q, r). length q + card (positive_degrees m))", goal_cases)
  case 1
  show ?case by simp
next
  case (2 h g m node q r m' q')
  then show ?case using relax_measure [of "neighbors h (reverse_edges g) node" m q m' q'] by simp
qed

definition topological_order :: "task_id hash_order \<Rightarrow> dep_graph \<Rightarrow> (orchestrator_error, task_id list) result" where
  "topological_order h g =
     (let in_degree = initial_degrees h g;
          queue = filter (\<lambda>n. hm_get in_degree n = Some 0) (iterate h (nodes g));
          result = kahn h g in_degree queue []
      in if length result \<noteq> length (nodes g)
         then Inl (CycleError ''Graph contains a cycle, cannot produce topological order'')
         else Inr result)"

definition get_ready_tasks :: "task_id hash_order \<Rightarrow> task_id set \<Rightarrow> dep_graph \<Rightarrow> task_id list" where
  "get_ready_tasks h completed g =
     filter (\<lambda>t. t \<notin> completed \<and>
        (case hm_get (edges g) t of None \<Rightarrow> True | Some deps \<Rightarrow> list_all (\<lambda>d. d \<in> completed) deps))
       (iterate h (nodes g))"

definition tasks_with_unmet_dependencies ::
    "task_id hash_order \<Rightarrow> task_id set \<Rightarrow> dep_graph \<Rightarrow> (task_id, task_id list) hmap"
where
  "tasks_with_unmet_dependencies h completed g =
     fold (\<lambda>t result.
        if t \<in> completed then result
        else let unmet = filter (\<lambda>d. d \<notin> completed) (neighbors h (edges g) t)
             in if unmet \<noteq> [] then hm_insert t unmet result else result)
       (iterate h (nodes g)) []"

definition graph_has_task :: "dep_graph \<Rightarrow> task_id \<Rightarrow> bool" where
  "graph_has_task g t \<longleftrightarrow> t \<in> set (nodes g)"

definition graph_len :: "dep_graph \<Rightarrow> nat" where
  "graph_len g = length (nodes g)"

subsection \<open>The depth-first search finds exactly the cycles\<close>

definition dep_rel :: "(task_id, task_id list) hmap \<Rightarrow> (task_id \<times> task_id) set" where
  "dep_rel es = {(t, d). \<exists>ds. hm_get es t = Some ds \<and> d \<in> set ds}"

lemma set_neighbors [simp]: "set (neighbors h es t) = dep_rel es `` {t}"
  by (cases "hm_get es t") (auto simp: neighbors_def dep_rel_def)

lemma dfs_frame:
  "has_cycle_dfs h es node V R = (False, V', R') \<Longrightarrow> R \<subseteq> V \<Longrightarrow> node \<notin> R \<Longrightarrow> R' = R \<and> insert node V \<subseteq> V'"
  "has_cycle_loop h es ns V R = (False, V', R') \<Longrightarrow> R \<subseteq> V \<Longrightarrow> R' = R \<and> V \<subseteq> V'"
proof (induction h es node V R and h es ns V R arbitrary: V' R' and V' R' rule: has_cycle_dfs_has_cycle_loop.induct)
  case (1 h es node V R)
  then show ?case
    by (fastforce simp: has_cycle_dfs.simps split: prod.splits if_splits)
next
  case (2 h es V R)
  then show ?case by simp
next
  case (3 h es n ns V R)
  show ?case
  proof (cases "n \<in> V")
    case True
    then show ?thesis using "3.IH"(3) "3.prems" by (auto split: if_splits)
  next
    case False
    with "3.prems"(2) have "n \<notin> R" by auto
    obtain found v r where dfs: "has_cycle_dfs h es n V R = (found, v, r)"
      by (metis prod_cases3)
    with False "3.prems"(1) have found: "\<not> found" and loop: "has_cycle_loop h es ns v r = (False, V', R')"
      by (auto split: if_splits)
    have step: "r = R \<and> insert n V \<subseteq> v"
      using "3.IH"(1) [OF False, of v r] dfs found "3.prems"(2) \<open>n \<notin> R\<close> by simp
    with "3.prems"(2) have "R' = r \<and> v \<subseteq> V'"
      using "3.IH"(2) [OF False, of found "(v, r)" v r V' R'] dfs found loop by auto
    with step show ?thesis by auto
  qed
qed

text \<open>
  The nodes that are finished (visited and off the recursion stack) are closed under
  dependencies and span no cycle.
\<close>

definition black_ok :: "(task_id \<times> task_id) set \<Rightarrow> task_id set \<Rightarrow> bool" where
  "black_ok E B \<longleftrightarrow> E `` B \<subseteq> B \<and> acyclic (Restr E B)"

lemma path_stays:
  assumes "(x, y) \<in> (Restr E (insert u B))\<^sup>+" and "E `` B \<subseteq> B" and "x \<in> B"
  shows "(x, y) \<in> (Restr E B)\<^sup>+ \<and> y \<in> B"
  using assms
proof (induction rule: trancl_induct)
  case (base y)
  then show ?case by (auto intro: r_into_trancl')
next
  case (step y z)
  then have "(y, z) \<in> Restr E B" by auto
  with step show ?case by (auto intro: trancl_into_trancl)
qed

lemma black_ok_insert:
  assumes "black_ok E B" and "E `` {u} \<subseteq> B" and "u \<notin> B"
  shows "black_ok E (insert u B)"
proof -
  have closed: "E `` B \<subseteq> B" and acyc: "acyclic (Restr E B)"
    using assms(1) by (auto simp: black_ok_def)
  have "(x, x) \<notin> (Restr E (insert u B))\<^sup>+" for x
  proof
    assume cyc: "(x, x) \<in> (Restr E (insert u B))\<^sup>+"
    show False
    proof (cases "x \<in> B")
      case True
      with path_stays [OF cyc closed] acyc show False by (auto simp: acyclic_def)
    next
      case False
      from cyc obtain z where xz: "(x, z) \<in> Restr E (insert u B)" and zx: "(z, x) \<in> (Restr E (insert u B))\<^sup>*"
        by (meson tranclD)
      from xz False assms(2) have z: "z \<in> B" by auto
      with False have "z \<noteq> x" by auto
      with zx have "(z, x) \<in> (Restr E (insert u B))\<^sup>+" by (simp add: rtrancl_eq_or_trancl)
      with path_stays [OF _ closed z] False show False by blast
    qed
  qed
  with assms show ?thesis by (auto simp: black_ok_def acyclic_def)
qed

lemma dfs_black:
  "has_cycle_dfs h es node V R = (False, V', R') \<Longrightarrow> R \<subseteq> V \<Longrightarrow> node \<notin> V \<Longrightarrow>
     black_ok (dep_rel es) (V - R) \<Longrightarrow> black_ok (dep_rel es) (V' - R) \<and> node \<in> V' - R"
  "has_cycle_loop h es ns V R = (False, V', R') \<Longrightarrow> R \<subseteq> V \<Longrightarrow>
     black_ok (dep_rel es) (V - R) \<Longrightarrow> black_ok (dep_rel es) (V' - R) \<and> set ns \<subseteq> V' - R"
proof (induction h es node V R and h es ns V R arbitrary: V' R' and V' R' rule: has_cycle_dfs_has_cycle_loop.induct)
  case (1 h es node V R)
  from "1.prems"(1) obtain r where
    loop: "has_cycle_loop h es (neighbors h es node) (insert node V) (insert node R) = (False, V', r)"
    by (auto simp: has_cycle_dfs.simps split: prod.splits if_splits)
  have "insert node V - insert node R = V - R"
    using "1.prems"(3) by auto
  then have black: "black_ok (dep_rel es) (V' - insert node R) \<and>
      set (neighbors h es node) \<subseteq> V' - insert node R"
    using "1.IH" [OF loop] "1.prems" by auto
  have "node \<in> V'"
    using dfs_frame(2) [OF loop] "1.prems"(2) by auto
  with "1.prems"(2,3) have "V' - R = insert node (V' - insert node R)" by auto
  moreover have "black_ok (dep_rel es) (insert node (V' - insert node R))"
    by (rule black_ok_insert) (use black in auto)
  ultimately show ?case by simp
next
  case (2 h es V R)
  then show ?case by simp
next
  case (3 h es n ns V R)
  show ?case
  proof (cases "n \<in> V")
    case True
    with "3.prems" have nR: "n \<notin> R" and loop: "has_cycle_loop h es ns V R = (False, V', R')"
      by (auto split: if_splits)
    have "V \<subseteq> V'" using dfs_frame(2) [OF loop "3.prems"(2)] by simp
    with True nR show ?thesis
      using "3.IH"(3) [OF _ nR loop "3.prems"(2,3)] by auto
  next
    case False
    with "3.prems"(2) have nR: "n \<notin> R" by auto
    obtain found v r where dfs: "has_cycle_dfs h es n V R = (found, v, r)"
      by (metis prod_cases3)
    with False "3.prems"(1) have found: "\<not> found" and loop: "has_cycle_loop h es ns v r = (False, V', R')"
      by (auto split: if_splits)
    have frame: "r = R \<and> insert n V \<subseteq> v"
      using dfs_frame(1) [of h es n V R v r] dfs found "3.prems"(2) nR by simp
    have black: "black_ok (dep_rel es) (v - R) \<and> n \<in> v - R"
      using "3.IH"(1) [OF False, of v r] dfs found "3.prems"(2,3) False by simp
    have "black_ok (dep_rel es) (V' - R) \<and> set ns \<subseteq> V' - R"
      using "3.IH"(2) [OF False, of found "(v, r)" v r V' R'] dfs found loop frame black "3.prems"(2) by auto
    moreover have "v \<subseteq> V'"
      using dfs_frame(2) [OF loop] frame "3.prems"(2) by auto
    ultimately show ?thesis using black by auto
  qed
qed

lemma dfs_sound:
  "has_cycle_dfs h es node V R = (True, V', R') \<Longrightarrow> R \<subseteq> V \<Longrightarrow> node \<notin> V \<Longrightarrow>
     R \<times> {node} \<subseteq> (dep_rel es)\<^sup>* \<Longrightarrow> \<not> acyclic (dep_rel es)"
  "has_cycle_loop h es ns V R = (True, V', R') \<Longrightarrow> R \<subseteq> V \<Longrightarrow>
     R \<times> {u} \<subseteq> (dep_rel es)\<^sup>* \<Longrightarrow> set ns \<subseteq> dep_rel es `` {u} \<Longrightarrow> \<not> acyclic (dep_rel es)"
proof (induction h es node V R and h es ns V R arbitrary: V' R' and V' R' u rule: has_cycle_dfs_has_cycle_loop.induct)
  case (1 h es node V R)
  then obtain v r where
    loop: "has_cycle_loop h es (neighbors h es node) (insert node V) (insert node R) = (True, v, r)"
    by (auto simp: has_cycle_dfs.simps split: prod.splits if_splits)
  show ?case
    by (rule "1.IH" [OF loop, of node]) (use "1.prems" in auto)
next
  case (2 h es V R)
  then show ?case by simp
next
  case (3 h es n ns V R)
  have un: "(u, n) \<in> dep_rel es" using "3.prems"(4) by auto
  show ?case
  proof (cases "n \<in> V")
    case True
    show ?thesis
    proof (cases "n \<in> R")
      case True
      with "3.prems"(3) have "(n, u) \<in> (dep_rel es)\<^sup>*" by auto
      then have "(n, n) \<in> (dep_rel es)\<^sup>+" using un by (rule rtrancl_into_trancl1)
      then show ?thesis by (auto simp: acyclic_def)
    next
      case False
      with True "3.IH"(3) [OF _ False, of V' R' u] "3.prems" show ?thesis by auto
    qed
  next
    case False
    with "3.prems"(2) have nR: "n \<notin> R" by auto
    obtain found v r where dfs: "has_cycle_dfs h es n V R = (found, v, r)"
      by (metis prod_cases3)
    show ?thesis
    proof (cases found)
      case True
      have "R \<times> {n} \<subseteq> (dep_rel es)\<^sup>*"
        using "3.prems"(3) un by (auto intro: rtrancl_into_rtrancl)
      then show ?thesis
        using "3.IH"(1) [OF False, of v r] dfs True "3.prems"(2) False by simp
    next
      case not_found: False
      have frame: "r = R \<and> insert n V \<subseteq> v"
        using dfs_frame(1) [of h es n V R v r] dfs not_found "3.prems"(2) nR by simp
      have loop: "has_cycle_loop h es ns v r = (True, V', R')"
        using "3.prems"(1) dfs not_found False by simp
      show ?thesis
        by (rule "3.IH"(2) [OF False, of found "(v, r)" v r V' R' u])
          (use dfs not_found loop frame "3.prems" in auto)
    qed
  qed
qed

lemma has_cycle_from_sound: "has_cycle_from h es ns V {} \<Longrightarrow> \<not> acyclic (dep_rel es)"
proof (induction ns arbitrary: V)
  case Nil
  then show ?case by simp
next
  case (Cons n ns)
  obtain found v r where dfs: "has_cycle_dfs h es n V {} = (found, v, r)"
    by (metis prod_cases3)
  show ?case
  proof (cases "n \<notin> V \<and> found")
    case True
    then show ?thesis using dfs_sound(1) [of h es n V "{}" v r] dfs by simp
  next
    case False
    moreover have "n \<notin> V \<Longrightarrow> \<not> found \<Longrightarrow> r = {}"
      using dfs_frame(1) [of h es n V "{}" v r] dfs by simp
    ultimately show ?thesis using Cons dfs by (auto split: if_splits)
  qed
qed

lemma has_cycle_from_complete:
  "\<not> has_cycle_from h es ns V {} \<Longrightarrow> black_ok (dep_rel es) V \<Longrightarrow>
     \<exists>B. black_ok (dep_rel es) B \<and> V \<union> set ns \<subseteq> B"
proof (induction ns arbitrary: V)
  case Nil
  then show ?case by auto
next
  case (Cons n ns)
  show ?case
  proof (cases "n \<in> V")
    case True
    with Cons show ?thesis by (auto simp: insert_absorb)
  next
    case False
    obtain found v r where dfs: "has_cycle_dfs h es n V {} = (found, v, r)"
      by (metis prod_cases3)
    with False Cons.prems(1) have nf: "\<not> found" and rest: "\<not> has_cycle_from h es ns v r"
      by (auto split: if_splits)
    have frame: "r = {} \<and> insert n V \<subseteq> v"
      using dfs_frame(1) [of h es n V "{}" v r] dfs nf by simp
    have "black_ok (dep_rel es) v"
      using dfs_black(1) [of h es n V "{}" v r] dfs nf False Cons.prems(2) by simp
    then obtain B where "black_ok (dep_rel es) B" "v \<union> set ns \<subseteq> B"
      using Cons.IH [of v] rest frame by auto
    then show ?thesis using frame by auto
  qed
qed

lemma has_cycle_iff:
  assumes "Domain (dep_rel (edges g)) \<subseteq> set (nodes g)"
  shows "has_cycle h g \<longleftrightarrow> \<not> acyclic (dep_rel (edges g))"
proof
  assume "has_cycle h g"
  then show "\<not> acyclic (dep_rel (edges g))"
    unfolding has_cycle_def by (rule has_cycle_from_sound)
next
  assume cyc: "\<not> acyclic (dep_rel (edges g))"
  show "has_cycle h g"
  proof (rule ccontr)
    assume "\<not> has_cycle h g"
    then obtain B where B: "black_ok (dep_rel (edges g)) B" "set (nodes g) \<subseteq> B"
      unfolding has_cycle_def using has_cycle_from_complete [of h "edges g" "iterate h (nodes g)" "{}"]
      by (auto simp: black_ok_def acyclic_def)
    with assms have "dep_rel (edges g) \<subseteq> Restr (dep_rel (edges g)) B"
      by (auto simp: black_ok_def)
    with B cyc show False by (auto simp: black_ok_def dest: acyclic_subset)
  qed
qed

end
