(* ===== verification/Dependency_Invariant.thy ===== *)
theory Dependency_Invariant
  imports Dependency_Graph
begin

text \<open>
  The invariant of the dependency graph (\<open>graph_ok\<close>: the three containers agree, the
  dependents are the converse of the dependencies, the relation is acyclic), its
  preservation by every mutator of \<open>dependency_graph.rs\<close>, and the correctness of
  \<open>add_dependency\<close>, \<open>topological_order\<close> and the ready-task queries.
\<close>

named_theorems graph_effect \<open>what each mutator does to nodes, dependencies and dependents\<close>

definition graph_ok :: "dep_graph \<Rightarrow> bool" where
  "graph_ok g \<longleftrightarrow>
     distinct (nodes g) \<and> hm_wf (edges g) \<and> hm_wf (reverse_edges g) \<and>
     (\<forall>t. hm_get (edges g) t = None \<longleftrightarrow> t \<notin> set (nodes g)) \<and>
     (\<forall>t. hm_get (reverse_edges g) t = None \<longleftrightarrow> t \<notin> set (nodes g)) \<and>
     (\<forall>t. distinct (get_dependencies g t) \<and> distinct (get_dependents g t)) \<and>
     (\<forall>t. set (get_dependencies g t) \<subseteq> set (nodes g)) \<and>
     (\<forall>t d. d \<in> set (get_dependencies g t) \<longleftrightarrow> t \<in> set (get_dependents g d)) \<and>
     acyclic (dep_rel (edges g))"

abbreviation depends :: "dep_graph \<Rightarrow> (task_id \<times> task_id) set" where
  "depends g \<equiv> dep_rel (edges g)"

lemma depends_iff: "(t, d) \<in> depends g \<longleftrightarrow> d \<in> set (get_dependencies g t)"
  by (cases "hm_get (edges g) t") (auto simp: dep_rel_def get_dependencies_def)

lemma dep_rel_conv: "depends g = {(t, d). d \<in> set (get_dependencies g t)}"
  using depends_iff [of _ _ g] by auto

lemma hs_remove_absent [simp]: "x \<notin> set s \<Longrightarrow> hs_remove x s = s"
  by (simp add: hs_remove_def filter_id_conv) blast

lemma hs_remove_insert [simp]: "x \<notin> set s \<Longrightarrow> hs_remove x (hs_insert x s) = s"
  by (simp add: hs_insert_def hs_remove_def filter_id_conv) blast

lemma hm_get_fold_modify:
  "(\<And>v. f (f v) = f v) \<Longrightarrow>
     hm_get (fold (\<lambda>k. hm_modify k f) ks m) x = (if x \<in> set ks then map_option f (hm_get m x) else hm_get m x)"
  by (induction ks arbitrary: m) (auto simp: option.map_comp comp_def)

lemma hm_wf_fold_modify: "hm_wf m \<Longrightarrow> hm_wf (fold (\<lambda>k. hm_modify k f) ks m)"
  by (induction ks arbitrary: m) auto

subsection \<open>What the mutators do\<close>

lemma add_task_effect [graph_effect]:
  "get_dependencies (add_task t g) x = get_dependencies g x"
  "get_dependents (add_task t g) x = get_dependents g x"
  "set (nodes (add_task t g)) = insert t (set (nodes g))"
  by (auto simp: add_task_def get_dependencies_def get_dependents_def split: option.splits)

lemma remove_task_rev:
  "hm_get (reverse_edges (remove_task h t g)) x =
     (if x = t then None
      else if x \<in> set (get_dependencies g t) then map_option (hs_remove t) (hm_get (reverse_edges g) x)
      else hm_get (reverse_edges g) x)"
  by (auto simp: remove_task_def Let_def get_dependencies_def hm_get_fold_modify split: option.splits)

lemma remove_task_effect [graph_effect]:
  "get_dependencies (remove_task h t g) x = (if x = t then [] else hs_remove t (get_dependencies g x))"
  "get_dependents (remove_task h t g) x =
     (if x = t then []
      else if x \<in> set (get_dependencies g t) then hs_remove t (get_dependents g x)
      else get_dependents g x)"
  "set (nodes (remove_task h t g)) = set (nodes g) - {t}"
  subgoal by (cases "hm_get (edges g) x") (auto simp: remove_task_def Let_def get_dependencies_def hs_remove_def)
  subgoal by (cases "hm_get (reverse_edges g) x") (auto simp: get_dependents_def remove_task_rev hs_remove_def)
  subgoal by (simp add: remove_task_def Let_def)
  done

lemma remove_dependency_effect [graph_effect]:
  "get_dependencies (remove_dependency t d g) x =
     (if x = t then hs_remove d (get_dependencies g x) else get_dependencies g x)"
  "get_dependents (remove_dependency t d g) x =
     (if x = d then hs_remove t (get_dependents g x) else get_dependents g x)"
  "set (nodes (remove_dependency t d g)) = set (nodes g)"
  by (auto simp: remove_dependency_def get_dependencies_def get_dependents_def hs_remove_def
      split: option.splits)

text \<open>The graph in which \<open>add_dependency\<close> looks for a cycle.\<close>

definition tentative :: "task_id \<Rightarrow> task_id \<Rightarrow> dep_graph \<Rightarrow> dep_graph" where
  "tentative t d g =
     g\<lparr>nodes := hs_insert d (hs_insert t (nodes g)),
       edges := hm_modify t (hs_insert d) (hm_or_insert d [] (hm_or_insert t [] (edges g))),
       reverse_edges := hm_or_insert d [] (hm_or_insert t [] (reverse_edges g))\<rparr>"

lemma add_dependency_tentative:
  "add_dependency h t d g =
     (let g2 = tentative t d g
      in if has_cycle h g2
         then (g2\<lparr>edges := hm_modify t (hs_remove d) (edges g2)\<rparr>, Inl (CycleError (cycle_message t d)))
         else (g2\<lparr>reverse_edges := hm_modify d (hs_insert t) (reverse_edges g2)\<rparr>, Inr ()))"
  by (cases g) (simp add: add_dependency_def tentative_def Let_def)

lemma tentative_effect:
  "get_dependencies (tentative t d g) x =
     (if x = t then hs_insert d (get_dependencies g x) else get_dependencies g x)"
  "get_dependents (tentative t d g) x = get_dependents g x"
  "set (nodes (tentative t d g)) = insert d (insert t (set (nodes g)))"
  by (auto simp: tentative_def get_dependencies_def get_dependents_def split: option.splits)

lemma depends_tentative: "depends (tentative t d g) = insert (t, d) (depends g)"
  by (auto simp: dep_rel_conv tentative_effect split: if_splits)

lemma graph_okI:
  assumes "distinct (nodes g)" "hm_wf (edges g)" "hm_wf (reverse_edges g)"
    "\<And>t. hm_get (edges g) t = None \<longleftrightarrow> t \<notin> set (nodes g)"
    "\<And>t. hm_get (reverse_edges g) t = None \<longleftrightarrow> t \<notin> set (nodes g)"
    "\<And>t. distinct (get_dependencies g t)" "\<And>t. distinct (get_dependents g t)"
    "\<And>t. set (get_dependencies g t) \<subseteq> set (nodes g)"
    "\<And>t d. t \<in> set (get_dependents g d) \<longleftrightarrow> d \<in> set (get_dependencies g t)"
    "acyclic (depends g)"
  shows "graph_ok g"
  using assms by (simp add: graph_ok_def)

lemma graph_okD:
  assumes "graph_ok g"
  shows "distinct (nodes g)" "hm_wf (edges g)" "hm_wf (reverse_edges g)"
    "\<And>t. hm_get (edges g) t = None \<longleftrightarrow> t \<notin> set (nodes g)"
    "\<And>t. hm_get (reverse_edges g) t = None \<longleftrightarrow> t \<notin> set (nodes g)"
    "\<And>t. distinct (get_dependencies g t)" "\<And>t. distinct (get_dependents g t)"
    "\<And>t d. d \<in> set (get_dependencies g t) \<Longrightarrow> d \<in> set (nodes g)"
    "\<And>t d. t \<in> set (get_dependents g d) \<longleftrightarrow> d \<in> set (get_dependencies g t)"
    "acyclic (depends g)"
  using assms unfolding graph_ok_def by blast+

lemma has_cycle_tentative:
  assumes "graph_ok g"
  shows "has_cycle h (tentative t d g) \<longleftrightarrow> (d, t) \<in> (depends g)\<^sup>*"
proof -
  have "Domain (depends (tentative t d g)) \<subseteq> set (nodes (tentative t d g))"
  proof
    fix x assume "x \<in> Domain (depends (tentative t d g))"
    then have "x = t \<or> get_dependencies g x \<noteq> []"
      unfolding depends_tentative by (auto simp: dep_rel_conv)
    then show "x \<in> set (nodes (tentative t d g))"
      using graph_okD(4) [OF assms, of x]
      by (cases "hm_get (edges g) x") (auto simp: tentative_effect get_dependencies_def)
  qed
  then have "has_cycle h (tentative t d g) \<longleftrightarrow> \<not> acyclic (insert (t, d) (depends g))"
    by (simp add: has_cycle_iff depends_tentative)
  then show ?thesis
    using graph_okD(10) [OF assms] by (simp add: acyclic_insert)
qed

lemma not_depends_back: "graph_ok g \<Longrightarrow> (d, t) \<in> (depends g)\<^sup>* \<Longrightarrow> d \<notin> set (get_dependencies g t)"
proof
  assume ok: "graph_ok g" and path: "(d, t) \<in> (depends g)\<^sup>*" and "d \<in> set (get_dependencies g t)"
  then have "(t, d) \<in> depends g" by (simp add: dep_rel_conv)
  with path have "(d, d) \<in> (depends g)\<^sup>+" by (rule rtrancl_into_trancl1)
  with graph_okD(10) [OF ok] show False by (auto simp: acyclic_def)
qed

definition accepted :: "task_id \<Rightarrow> task_id \<Rightarrow> dep_graph \<Rightarrow> dep_graph" where
  "accepted t d g =
     (tentative t d g)\<lparr>reverse_edges := hm_modify d (hs_insert t) (reverse_edges (tentative t d g))\<rparr>"

definition refused :: "task_id \<Rightarrow> task_id \<Rightarrow> dep_graph \<Rightarrow> dep_graph" where
  "refused t d g = (tentative t d g)\<lparr>edges := hm_modify t (hs_remove d) (edges (tentative t d g))\<rparr>"

lemma add_dependency_cases:
  assumes "graph_ok g"
  shows "add_dependency h t d g =
     (if (d, t) \<in> (depends g)\<^sup>* then (refused t d g, Inl (CycleError (cycle_message t d)))
      else (accepted t d g, Inr ()))"
  using has_cycle_tentative [OF assms, of h t d]
  by (simp add: add_dependency_tentative Let_def accepted_def refused_def)

lemma accepted_effect [graph_effect]:
  "get_dependencies (accepted t d g) x = (if x = t then hs_insert d (get_dependencies g x) else get_dependencies g x)"
  "get_dependents (accepted t d g) x = (if x = d then hs_insert t (get_dependents g x) else get_dependents g x)"
  "set (nodes (accepted t d g)) = insert d (insert t (set (nodes g)))"
  "depends (accepted t d g) = insert (t, d) (depends g)"
  using tentative_effect [of t d g] depends_tentative [of t d g]
  by (auto simp: accepted_def get_dependencies_def get_dependents_def tentative_def split: option.splits)

lemma refused_dependencies:
  "d \<notin> set (get_dependencies g t) \<Longrightarrow> get_dependencies (refused t d g) x = get_dependencies g x"
  by (auto simp: refused_def tentative_def get_dependencies_def split: option.splits)

lemma refused_effect [graph_effect]:
  assumes "graph_ok g" and "(d, t) \<in> (depends g)\<^sup>*"
  shows "get_dependencies (refused t d g) x = get_dependencies g x"
    and "get_dependents (refused t d g) x = get_dependents g x"
    and "set (nodes (refused t d g)) = insert d (insert t (set (nodes g)))"
    and "depends (refused t d g) = depends g"
  using refused_dependencies [OF not_depends_back [OF assms]] tentative_effect(2,3) [of t d g]
  by (simp_all add: dep_rel_conv) (simp_all add: refused_def get_dependents_def)

subsection \<open>The mutators keep the invariant\<close>

lemma graph_ok_new: "graph_ok new_graph"
  by (simp add: graph_ok_def new_graph_def get_dependencies_def get_dependents_def dep_rel_def acyclic_def)

lemma graph_ok_add_task:
  assumes "graph_ok g"
  shows "graph_ok (add_task t g)"
proof -
  have "depends (add_task t g) = depends g"
    by (simp add: dep_rel_conv graph_effect)
  then show ?thesis
    using graph_okD [OF assms] unfolding graph_ok_def add_task_effect
    by (auto simp: add_task_def)
qed

lemma graph_ok_remove_task:
  assumes "graph_ok g"
  shows "graph_ok (remove_task h t g)"
proof -
  note ok = graph_okD [OF assms]
  have "depends (remove_task h t g) \<subseteq> depends g"
    by (auto simp: dep_rel_conv graph_effect split: if_splits)
  then have "acyclic (depends (remove_task h t g))"
    using ok(10) acyclic_subset by blast
  moreover have "hm_wf (edges (remove_task h t g))" "hm_wf (reverse_edges (remove_task h t g))"
    using ok(2,3) by (auto simp: remove_task_def Let_def hm_wf_fold_modify split: option.splits)
  moreover have "hm_get (edges (remove_task h t g)) x = None \<longleftrightarrow> x \<notin> set (nodes (remove_task h t g))" for x
    using ok(4) by (auto simp: remove_task_def Let_def)
  moreover have "hm_get (reverse_edges (remove_task h t g)) x = None \<longleftrightarrow> x \<notin> set (nodes (remove_task h t g))" for x
    using ok(5) by (auto simp: remove_task_rev graph_effect)
  moreover have "distinct (nodes (remove_task h t g))"
    using ok(1) by (simp add: remove_task_def Let_def)
  ultimately show ?thesis
    by (intro graph_okI) (use ok(6-9) in \<open>auto simp: remove_task_effect split: if_splits\<close>)
qed

lemma graph_ok_remove_dependency:
  assumes "graph_ok g"
  shows "graph_ok (remove_dependency t d g)"
proof -
  note ok = graph_okD [OF assms]
  have "depends (remove_dependency t d g) \<subseteq> depends g"
    by (auto simp: dep_rel_conv graph_effect split: if_splits)
  then have "acyclic (depends (remove_dependency t d g))"
    using ok(10) acyclic_subset by blast
  moreover have "nodes (remove_dependency t d g) = nodes g"
    by (simp add: remove_dependency_def)
  moreover have "hm_wf (edges (remove_dependency t d g))" "hm_wf (reverse_edges (remove_dependency t d g))"
    using ok(2,3) by (simp_all add: remove_dependency_def)
  moreover have "hm_get (edges (remove_dependency t d g)) x = None \<longleftrightarrow> x \<notin> set (nodes g)"
    "hm_get (reverse_edges (remove_dependency t d g)) x = None \<longleftrightarrow> x \<notin> set (nodes g)" for x
    using ok(4,5) by (auto simp: remove_dependency_def)
  ultimately show ?thesis
    by (intro graph_okI) (use ok(1,6-9) in \<open>auto simp: remove_dependency_effect split: if_splits\<close>)
qed

lemma graph_ok_accepted:
  assumes "graph_ok g" and "(d, t) \<notin> (depends g)\<^sup>*"
  shows "graph_ok (accepted t d g)"
proof -
  note ok = graph_okD [OF assms(1)]
  have "acyclic (depends (accepted t d g))"
    using ok(10) assms(2) by (simp add: accepted_effect acyclic_insert)
  moreover have "distinct (nodes (accepted t d g))" "hm_wf (edges (accepted t d g))"
      "hm_wf (reverse_edges (accepted t d g))"
    using ok(1-3) by (simp_all add: accepted_def tentative_def)
  moreover have "hm_get (edges (accepted t d g)) x = None \<longleftrightarrow> x \<notin> set (nodes (accepted t d g))"
    "hm_get (reverse_edges (accepted t d g)) x = None \<longleftrightarrow> x \<notin> set (nodes (accepted t d g))" for x
    using ok(4,5) [of x] ok(4,5) [of t] ok(4,5) [of d] by (auto simp: accepted_def tentative_def)
  moreover have "distinct (get_dependencies (accepted t d g) x)" "distinct (get_dependents (accepted t d g) x)" for x
    using ok(6,7) by (simp_all add: accepted_effect(1-3))
  moreover have "y \<in> set (get_dependencies (accepted t d g) x) \<Longrightarrow> y \<in> set (nodes (accepted t d g))"
    "x \<in> set (get_dependents (accepted t d g) y) \<longleftrightarrow> y \<in> set (get_dependencies (accepted t d g) x)" for x y
    using ok(8) [of y x] ok(9) [of x y] by (auto simp: accepted_effect(1-3) split: if_splits)
  ultimately show ?thesis
    by (intro graph_okI subsetI)
qed

lemma graph_ok_refused:
  assumes "graph_ok g" and "(d, t) \<in> (depends g)\<^sup>*"
  shows "graph_ok (refused t d g)"
proof -
  note ok = graph_okD [OF assms(1)]
  have "distinct (nodes (refused t d g))" "hm_wf (edges (refused t d g))"
      "hm_wf (reverse_edges (refused t d g))"
    using ok(1-3) by (simp_all add: refused_def tentative_def)
  moreover have "hm_get (edges (refused t d g)) x = None \<longleftrightarrow> x \<notin> set (nodes (refused t d g))"
    "hm_get (reverse_edges (refused t d g)) x = None \<longleftrightarrow> x \<notin> set (nodes (refused t d g))" for x
    using ok(4,5) [of x] ok(4,5) [of t] ok(4,5) [of d] by (auto simp: refused_def tentative_def)
  moreover have "distinct (get_dependencies (refused t d g) x)" "distinct (get_dependents (refused t d g) x)" for x
    using ok(6,7) by (simp_all add: refused_effect [OF assms])
  moreover have "y \<in> set (get_dependencies (refused t d g) x) \<Longrightarrow> y \<in> set (nodes (refused t d g))"
    "x \<in> set (get_dependents (refused t d g) y) \<longleftrightarrow> y \<in> set (get_dependencies (refused t d g) x)" for x y
    using ok(8) [of y x] ok(9) [of x y] by (auto simp: refused_effect [OF assms] split: if_splits)
  ultimately show ?thesis
    using ok(10) refused_effect(4) [OF assms] by (intro graph_okI subsetI) simp_all
qed

lemma graph_ok_add_dependency: "graph_ok g \<Longrightarrow> graph_ok (fst (add_dependency h t d g))"
  by (simp add: add_dependency_cases graph_ok_accepted graph_ok_refused)

subsection \<open>Every graph the operations can build\<close>

text \<open>
  The graphs a client of \<open>DependencyGraph\<close> can hold: any sequence of the public mutators,
  each under any iteration order, whether or not \<open>add_dependency\<close> succeeds.
\<close>

inductive graph_reachable :: "dep_graph \<Rightarrow> bool" where
  reach_new: "graph_reachable new_graph"
| reach_add_task: "graph_reachable g \<Longrightarrow> graph_reachable (add_task t g)"
| reach_remove_task: "graph_reachable g \<Longrightarrow> graph_reachable (remove_task h t g)"
| reach_add_dependency: "graph_reachable g \<Longrightarrow> graph_reachable (fst (add_dependency h t d g))"
| reach_remove_dependency: "graph_reachable g \<Longrightarrow> graph_reachable (remove_dependency t d g)"

lemma reachable_graph_ok: "graph_reachable g \<Longrightarrow> graph_ok g"
  by (induction rule: graph_reachable.induct)
    (simp_all add: graph_ok_new graph_ok_add_task graph_ok_remove_task graph_ok_add_dependency
      graph_ok_remove_dependency)

text \<open>A three-task chain built through the operations; the concrete graph of the witnesses.\<close>

definition chain_graph :: dep_graph where
  "chain_graph =
     fst (add_dependency stored_order ''c'' ''b'' (fst (add_dependency stored_order ''b'' ''a'' new_graph)))"

lemma chain_graph_reachable: "graph_reachable chain_graph"
  unfolding chain_graph_def by (intro graph_reachable.intros)

lemma graph_ok_chain: "graph_ok chain_graph"
  by (rule reachable_graph_ok [OF chain_graph_reachable])

lemma graph_ok_closed:
  assumes "graph_ok g"
  shows "set (get_dependencies g t) \<union> set (get_dependents g t) \<subseteq> set (nodes g)"
proof -
  note ok = graph_okD [OF assms]
  have "s \<in> set (nodes g)" if "t \<in> set (get_dependencies g s)" for s
    using ok(4) [of s] that by (cases "hm_get (edges g) s") (auto simp: get_dependencies_def)
  then show ?thesis using ok(8,9) by auto
qed

text \<open>Whatever sequence of public mutators builds the graph, and in whatever order the
  hash containers iterate, the dependency relation has no cycle, every dependency is a node,
  and the dependents map is exactly the converse of the dependencies map.\<close>

theorem reachable_graphs_are_acyclic:
  assumes "graph_reachable g"
  shows "acyclic {(t, d). d \<in> set (get_dependencies g t)} \<and>
    (\<forall>t d. d \<in> set (get_dependencies g t) \<longleftrightarrow> t \<in> set (get_dependents g d)) \<and>
    (\<forall>t. set (get_dependencies g t) \<union> set (get_dependents g t) \<subseteq> set (nodes g))"
  using graph_okD(9,10) [OF reachable_graph_ok [OF assms]] graph_ok_closed [OF reachable_graph_ok [OF assms]]
  by (simp add: dep_rel_conv)

theorem reachable_graphs_are_acyclic_witness:
  "graph_reachable chain_graph \<and> acyclic {(t, d). d \<in> set (get_dependencies chain_graph t)}"
  using chain_graph_reachable reachable_graphs_are_acyclic [OF chain_graph_reachable] by blast

text \<open>C26: \<open>add_dependency\<close> succeeds exactly when the dependency does not already lead back to
  the task (a task on itself included); on success the relation gains exactly that edge, on
  failure it returns the cycle error and the relation is what it was. Both tasks are nodes
  afterwards in either case, and the invariant is kept.\<close>

theorem add_dependency_correct:
  assumes "graph_ok g" and "add_dependency h t d g = (g', r)"
  shows "r = (if (d, t) \<in> (depends g)\<^sup>* then Inl (CycleError (cycle_message t d)) else Inr ()) \<and>
    depends g' = (if is_ok r then insert (t, d) (depends g) else depends g) \<and>
    set (nodes g') = set (nodes g) \<union> {t, d} \<and> graph_ok g'"
proof -
  have "graph_ok g'"
    using graph_ok_add_dependency [OF assms(1), of h t d] assms(2) by simp
  moreover have "r = (if (d, t) \<in> (depends g)\<^sup>* then Inl (CycleError (cycle_message t d)) else Inr ())"
    using assms(2) unfolding add_dependency_cases [OF assms(1)] by (auto split: if_splits)
  moreover have "depends g' = (if is_ok r then insert (t, d) (depends g) else depends g)"
    "set (nodes g') = set (nodes g) \<union> {t, d}"
    using assms(2) accepted_effect(3,4) [of t d g] refused_effect(3,4) [OF assms(1), of d t]
    unfolding add_dependency_cases [OF assms(1)] by (auto split: if_splits)
  ultimately show ?thesis by blast
qed

lemma chain_back_edge:
  "snd (add_dependency stored_order ''a'' ''c'' chain_graph) = Inl (CycleError (cycle_message ''a'' ''c''))"
  by code_simp

theorem add_dependency_correct_witness:
  "(''c'', ''a'') \<in> (depends chain_graph)\<^sup>* \<and>
   depends (fst (add_dependency stored_order ''a'' ''c'' chain_graph)) = depends chain_graph"
  using add_dependency_correct [OF graph_ok_chain prod.collapse [symmetric], of stored_order "''a''" "''c''"]
  unfolding chain_back_edge by (auto split: if_splits)

end
