(* ===== verification/Dependency_Order.thy ===== *)
theory Dependency_Order
  imports Dependency_Invariant
begin

text \<open>
  Correctness of the two scheduling queries of \<open>dependency_graph.rs\<close>: Kahn's algorithm in
  \<open>topological_order\<close> and the ready and unmet-dependency queries, over every graph that
  satisfies \<open>graph_ok\<close>.
\<close>

subsection \<open>Kahn's algorithm\<close>

definition respects_deps :: "dep_graph \<Rightarrow> task_id list \<Rightarrow> bool" where
  "respects_deps g order \<longleftrightarrow>
     (\<forall>i < length order. set (get_dependencies g (order ! i)) \<subseteq> set (take i order))"

lemma respects_deps_snoc:
  "respects_deps g (order @ [t]) \<longleftrightarrow> respects_deps g order \<and> set (get_dependencies g t) \<subseteq> set order"
  by (auto simp: respects_deps_def nth_append less_Suc_eq)

lemma relax_dependents_spec:
  "distinct ds \<Longrightarrow> relax_dependents ds m q = (m', q') \<Longrightarrow>
     (\<forall>x. hm_get m' x = (if x \<in> set ds then map_option (\<lambda>k. k - 1) (hm_get m x) else hm_get m x)) \<and>
     q' = q @ filter (\<lambda>d. hm_get m d = Some 1) ds"
proof (induction ds m q arbitrary: m' q' rule: relax_dependents.induct)
  case (1 m q)
  then show ?case by simp
next
  case (2 d ds m q)
  show ?case
  proof (cases "\<exists>k > 0. hm_get m d = Some k")
    case True
    then obtain k where k: "hm_get m d = Some k" "0 < k" by auto
    have "filter (\<lambda>x. hm_get (hm_insert d (k - 1) m) x = Some 1) ds = filter (\<lambda>x. hm_get m x = Some 1) ds"
      using "2.prems"(1) by (intro filter_cong) auto
    then show ?thesis
      using "2.IH"(2) [OF k, of m' q'] "2.prems" k by auto
  next
    case False
    then show ?thesis
      using "2.IH" "2.prems" by (cases "hm_get m d") auto
  qed
qed

definition kahn_inv :: "dep_graph \<Rightarrow> (task_id, nat) hmap \<Rightarrow> task_id list \<Rightarrow> task_id list \<Rightarrow> bool" where
  "kahn_inv g m q res \<longleftrightarrow>
     distinct (res @ q) \<and> set (res @ q) \<subseteq> set (nodes g) \<and> respects_deps g res \<and>
     (\<forall>n \<in> set (nodes g). hm_get m n = Some (card (set (get_dependencies g n) - set res))) \<and>
     (\<forall>n \<in> set (nodes g). n \<in> set (res @ q) \<longleftrightarrow> set (get_dependencies g n) \<subseteq> set res)"

lemma neighbors_reverse:
  "graph_ok g \<Longrightarrow> distinct (neighbors h (reverse_edges g) t) \<and>
     set (neighbors h (reverse_edges g) t) = {x. t \<in> set (get_dependencies g x)}"
  using graph_okD(7) [of g t] graph_okD(9) [of g _ t]
  by (auto simp: neighbors_def get_dependents_def simp del: set_neighbors split: option.splits)

lemma card_minus_insert:
  "finite A \<Longrightarrow> card (A - insert x B) = (if x \<in> A - B then card (A - B) - 1 else card (A - B))"
  by (simp add: Diff_insert [of A x B] card_Diff_singleton_if)

lemma card_eq_1_subset:
  "finite A \<Longrightarrow> x \<in> A \<Longrightarrow> x \<notin> B \<Longrightarrow> card (A - B) = 1 \<longleftrightarrow> A \<subseteq> insert x B"
proof
  assume "finite A" "x \<in> A" "x \<notin> B" "card (A - B) = 1"
  then obtain y where "A - B = {y}" by (auto simp: card_1_singleton_iff)
  with \<open>x \<in> A\<close> \<open>x \<notin> B\<close> show "A \<subseteq> insert x B" by (metis Diff_eq_empty_iff Diff_iff Diff_insert Diff_insert_absorb insert_absorb singletonD singletonI subset_refl)
next
  assume "x \<in> A" "x \<notin> B" "A \<subseteq> insert x B"
  then have "A - B = {x}" by blast
  then show "card (A - B) = 1" by simp
qed

lemma kahn_step:
  assumes ok: "graph_ok g" and inv: "kahn_inv g m (node # q) res"
    and relax: "relax_dependents (neighbors h (reverse_edges g) node) m q = (m', q')"
  shows "kahn_inv g m' q' (res @ [node])"
proof -
  let ?D = "\<lambda>n. set (get_dependencies g n)" and ?N = "set (nodes g)"
  let ?new = "filter (\<lambda>d. hm_get m d = Some 1) (neighbors h (reverse_edges g) node)"
  note nb = neighbors_reverse [OF ok, of h node]
  from relax_dependents_spec [OF conjunct1 [OF nb] relax] nb
  have m': "hm_get m' x = (if node \<in> ?D x then map_option (\<lambda>k. k - 1) (hm_get m x) else hm_get m x)"
    and q': "q' = q @ ?new" for x by auto
  from inv have dist: "distinct (res @ node # q)" and sub: "set (res @ node # q) \<subseteq> ?N"
    and resp: "respects_deps g res"
    and deg: "\<And>n. n \<in> ?N \<Longrightarrow> hm_get m n = Some (card (?D n - set res))"
    and queued: "\<And>n. n \<in> ?N \<Longrightarrow> n \<in> set (res @ node # q) \<longleftrightarrow> ?D n \<subseteq> set res"
    by (simp_all add: kahn_inv_def)
  have fresh: "node \<notin> set res" using dist by simp
  have deps_nodes: "x \<in> ?N" if "node \<in> ?D x" for x
    using graph_ok_closed [OF ok, of node] graph_okD(9) [OF ok, of x node] that by auto
  have new: "x \<in> set ?new \<longleftrightarrow> node \<in> ?D x \<and> ?D x \<subseteq> insert node (set res)" for x
    using nb deg [of x] deps_nodes [of x] card_eq_1_subset [of "?D x" node "set res"] fresh by auto
  have new_N: "set ?new \<subseteq> ?N" using new deps_nodes by auto
  have new_old: "x \<notin> set (res @ node # q)" if "x \<in> set ?new" for x
    using that new [of x] queued [of x] deps_nodes [of x] fresh by auto
  have "distinct (res @ [node] @ q')"
    using dist new_old nb by (auto simp: q' simp del: set_neighbors)
  moreover have "set ((res @ [node]) @ q') \<subseteq> ?N"
    using sub new_N by (auto simp: q')
  moreover have "respects_deps g (res @ [node])"
    using resp queued [of node] sub by (simp add: respects_deps_snoc)
  moreover have "hm_get m' n = Some (card (?D n - set (res @ [node])))" if "n \<in> ?N" for n
    using deg [OF that] fresh by (simp add: m' card_minus_insert)
  moreover have "n \<in> set ((res @ [node]) @ q') \<longleftrightarrow> ?D n \<subseteq> set (res @ [node])" if "n \<in> ?N" for n
    using queued [OF that] new [of n] by (auto simp: q' simp del: set_filter)
  ultimately show ?thesis by (simp add: kahn_inv_def)
qed

lemma kahn_finishes:
  "graph_ok g \<Longrightarrow> kahn_inv g m q res \<Longrightarrow> \<exists>m'. kahn_inv g m' [] (kahn h g m q res)"
proof (induction h g m q res rule: kahn.induct)
  case (1 h g m res)
  then show ?case by auto
next
  case (2 h g m node q res)
  obtain m' q' where relax: "relax_dependents (neighbors h (reverse_edges g) node) m q = (m', q')"
    by fastforce
  with kahn_step [OF "2.prems" relax] "2.IH" "2.prems"(1) show ?case by auto
qed

lemma finite_depends: "graph_ok g \<Longrightarrow> finite (depends g)"
proof (rule finite_subset [of _ "set (nodes g) \<times> set (nodes g)"])
  assume "graph_ok g"
  then show "depends g \<subseteq> set (nodes g) \<times> set (nodes g)"
    using graph_ok_closed [of g] graph_okD(9) [of g] by (auto simp: dep_rel_conv) blast+
qed simp

lemma wf_depends: "graph_ok g \<Longrightarrow> wf ((depends g)\<inverse>)"
  by (simp add: finite_acyclic_wf finite_depends graph_okD(10))

lemma deps_closed_all:
  assumes "graph_ok g" and "\<And>n. n \<in> set (nodes g) \<Longrightarrow> set (get_dependencies g n) \<subseteq> S \<Longrightarrow> n \<in> S"
  shows "set (nodes g) \<subseteq> S"
proof
  fix n assume "n \<in> set (nodes g)"
  with wf_depends [OF assms(1)] show "n \<in> S"
  proof (induction n rule: wf_induct_rule)
    case (less n)
    show ?case
      by (rule assms(2) [OF less.prems])
        (use less graph_okD(8) [OF assms(1)] in \<open>auto simp: dep_rel_conv\<close>)
  qed
qed

lemma hm_get_fold_zero: "hm_get (fold (\<lambda>t. hm_insert t 0) ts m) x = (if x \<in> set ts then Some 0 else hm_get m x)"
  by (induction ts arbitrary: m) auto

lemma hm_get_fold_degrees:
  "hm_get (fold (\<lambda>t m. case hm_get es t of None \<Rightarrow> m | Some ds \<Rightarrow> hm_insert t (length ds) m) ts m) x =
     (if x \<in> set ts \<and> hm_get es x \<noteq> None then Some (length (the (hm_get es x))) else hm_get m x)"
  by (induction ts arbitrary: m) (auto split: option.splits)

lemma initial_degrees_spec:
  assumes "graph_ok g" and "n \<in> set (nodes g)"
  shows "hm_get (initial_degrees h g) n = Some (card (set (get_dependencies g n)))"
proof -
  from assms obtain ds where ds: "hm_get (edges g) n = Some ds"
    using graph_okD(4) [OF assms(1), of n] by auto
  moreover have "distinct ds"
    using graph_okD(6) [OF assms(1), of n] ds by (simp add: get_dependencies_def)
  ultimately show ?thesis
    using assms(2) by (simp add: initial_degrees_def hm_get_fold_degrees get_dependencies_def distinct_card)
qed

lemma kahn_inv_initial:
  assumes "graph_ok g"
  shows "kahn_inv g (initial_degrees h g)
    (filter (\<lambda>n. hm_get (initial_degrees h g) n = Some 0) (iterate h (nodes g))) []"
  using graph_okD(1) [OF assms] initial_degrees_spec [OF assms, of _ h]
  by (auto simp: kahn_inv_def respects_deps_def)

lemma kahn_complete:
  assumes "graph_ok g" and "kahn_inv g m [] res"
  shows "distinct res \<and> set res = set (nodes g) \<and> respects_deps g res"
  using assms(2) deps_closed_all [OF assms(1), of "set res"] by (auto simp: kahn_inv_def)

text \<open>C27: On every graph the operations can build, \<open>topological_order\<close> returns an order (never
  the cycle error): it lists every task exactly once and each task after all of its
  dependencies, under any iteration order of the hash containers.\<close>

theorem topological_order_correct:
  assumes "graph_ok g"
  shows "\<exists>order. topological_order h g = Inr order \<and> distinct order \<and> set order = set (nodes g) \<and>
    (\<forall>i < length order. set (get_dependencies g (order ! i)) \<subseteq> set (take i order))"
proof -
  obtain m res where res: "kahn h g (initial_degrees h g)
      (filter (\<lambda>n. hm_get (initial_degrees h g) n = Some 0) (iterate h (nodes g))) [] = res"
      and inv: "kahn_inv g m [] res"
    using kahn_finishes [OF assms kahn_inv_initial [OF assms]] by blast
  note facts = kahn_complete [OF assms inv]
  then have "length res = length (nodes g)"
    using graph_okD(1) [OF assms] by (metis distinct_card)
  with res facts show ?thesis by (auto simp: topological_order_def Let_def respects_deps_def)
qed

lemma chain_order: "topological_order reversed_order chain_graph = Inr [''a'', ''b'', ''c'']"
  by code_simp

theorem topological_order_correct_witness:
  "topological_order reversed_order chain_graph = Inr [''a'', ''b'', ''c''] \<and>
   set [''a'', ''b'', ''c''] = set (nodes chain_graph)"
  using topological_order_correct [OF graph_ok_chain, of reversed_order] by (simp only: chain_order) auto

subsection \<open>Ready tasks\<close>

lemma set_get_ready_tasks:
  "set (get_ready_tasks h C g) = {t \<in> set (nodes g). t \<notin> C \<and> set (get_dependencies g t) \<subseteq> C}"
proof -
  have "(case hm_get (edges g) t of None \<Rightarrow> True | Some ds \<Rightarrow> list_all (\<lambda>d. d \<in> C) ds) \<longleftrightarrow>
      set (get_dependencies g t) \<subseteq> C" for t
    by (cases "hm_get (edges g) t") (auto simp: get_dependencies_def list_all_iff)
  then show ?thesis by (auto simp: get_ready_tasks_def)
qed

lemma hm_get_unmet_fold:
  "hm_get (fold (\<lambda>t result.
        if t \<in> C then result
        else let unmet = f t in if unmet \<noteq> [] then hm_insert t unmet result else result) ts m) x =
     (if x \<in> set ts \<and> x \<notin> C \<and> f x \<noteq> [] then Some (f x) else hm_get m x)"
  by (induction ts arbitrary: m) (auto simp: Let_def)

lemma hm_get_unmet:
  "hm_get (tasks_with_unmet_dependencies h C g) t =
     (if t \<in> set (nodes g) \<and> t \<notin> C \<and> \<not> set (get_dependencies g t) \<subseteq> C
      then Some (filter (\<lambda>d. d \<notin> C) (neighbors h (edges g) t)) else None)"
proof -
  have "filter (\<lambda>d. d \<notin> C) (neighbors h (edges g) t) \<noteq> [] \<longleftrightarrow> \<not> set (get_dependencies g t) \<subseteq> C"
    by (auto simp: filter_empty_conv dep_rel_conv)
  then show ?thesis
    unfolding tasks_with_unmet_dependencies_def by (simp add: hm_get_unmet_fold)
qed

text \<open>As long as some task of the graph is not completed, some task is ready: the
  scheduler never deadlocks. A ready task is an uncompleted node all of whose dependencies
  are completed, and each is listed once.\<close>

theorem ready_tasks_progress:
  assumes "graph_ok g"
  shows "set (get_ready_tasks h C g) = {t \<in> set (nodes g). t \<notin> C \<and> set (get_dependencies g t) \<subseteq> C} \<and>
    distinct (get_ready_tasks h C g) \<and>
    (get_ready_tasks h C g = [] \<longleftrightarrow> set (nodes g) \<subseteq> C)"
proof -
  have "set (nodes g) \<subseteq> C" if "get_ready_tasks h C g = []"
    using that by (intro deps_closed_all [OF assms]) (use set_get_ready_tasks [of h C g] in auto)
  moreover have "distinct (get_ready_tasks h C g)"
    using graph_okD(1) [OF assms] by (simp add: get_ready_tasks_def)
  moreover have "get_ready_tasks h C g = []" if "set (nodes g) \<subseteq> C"
    using that set_get_ready_tasks [of h C g] by (metis (no_types, lifting) Collect_empty_eq set_empty2 subsetD)
  ultimately show ?thesis using set_get_ready_tasks by blast
qed

lemma chain_ready: "get_ready_tasks stored_order {''a''} chain_graph = [''b'']"
  by code_simp

theorem ready_tasks_progress_witness:
  "get_ready_tasks stored_order {''a''} chain_graph = [''b''] \<and>
   \<not> set (nodes chain_graph) \<subseteq> {''a''}"
  using ready_tasks_progress [OF graph_ok_chain, of stored_order "{''a''}"] by (simp only: chain_ready) auto

text \<open>Every uncompleted task is either ready or reported as blocked, never both, and a
  blocked task is reported with exactly its uncompleted dependencies.\<close>

theorem ready_or_blocked:
  "(t \<in> set (nodes g) \<and> t \<notin> C \<longleftrightarrow>
     (t \<in> set (get_ready_tasks h C g)) \<noteq> (hm_get (tasks_with_unmet_dependencies h' C g) t \<noteq> None)) \<and>
   (\<forall>ds. hm_get (tasks_with_unmet_dependencies h' C g) t = Some ds \<longrightarrow>
      set ds = set (get_dependencies g t) - C)"
  by (auto simp: set_get_ready_tasks hm_get_unmet dep_rel_conv)

lemma chain_unmet: "hm_get (tasks_with_unmet_dependencies stored_order {''a''} chain_graph) ''c'' = Some [''b'']"
  by code_simp

theorem ready_or_blocked_witness:
  "hm_get (tasks_with_unmet_dependencies stored_order {''a''} chain_graph) ''c'' = Some [''b''] \<and>
   {''b''} = set (get_dependencies chain_graph ''c'') - {''a''}"
  using chain_unmet ready_or_blocked [of "''c''" chain_graph "{''a''}" stored_order stored_order] by auto

end
