(* ===== verification/Task_Board_Props.thy ===== *)
theory Task_Board_Props
  imports Task_Board
begin

text \<open>
  The invariant of the task board (the insertion order lists exactly the keys of the map, each
  once, and every entry carries its key), its preservation by every method, and the
  correctness of the projection, the listing, the statistics and the eviction.
\<close>

named_theorems board_ops \<open>the definitions of the board's mutators\<close>

definition board_ok :: "task_board \<Rightarrow> bool" where
  "board_ok b \<longleftrightarrow>
     hm_wf (tb_tasks b) \<and> hm_wf (tb_reviews b) \<and> distinct (tb_order b) \<and>
     set (tb_order b) = {t. hm_get (tb_tasks b) t \<noteq> None} \<and>
     (\<forall>t e. hm_get (tb_tasks b) t = Some e \<longrightarrow> te_id e = t)"

lemma board_okD:
  assumes "board_ok b"
  shows "hm_wf (tb_tasks b)" "hm_wf (tb_reviews b)" "distinct (tb_order b)"
    "\<And>t. t \<in> set (tb_order b) \<longleftrightarrow> hm_get (tb_tasks b) t \<noteq> None"
    "\<And>t e. hm_get (tb_tasks b) t = Some e \<Longrightarrow> te_id e = t"
  using assms unfolding board_ok_def by blast+

lemma board_ok_empty: "board_ok (b\<lparr>tb_tasks := [], tb_order := [], tb_reviews := []\<rparr>)"
  by (simp add: board_ok_def)

lemma board_ok_new: "board_ok (with_max_tasks n)"
  by (simp add: board_ok_def with_max_tasks_def)

lemma board_ok_modify:
  assumes "board_ok b" and "\<And>e. te_id (f e) = te_id e"
  shows "board_ok (b\<lparr>tb_tasks := hm_modify t f (tb_tasks b)\<rparr>)"
  using board_okD [OF assms(1)] assms(2) by (auto simp: board_ok_def)

lemma board_ok_map_values:
  assumes "board_ok b" and "\<And>e. te_id (f e) = te_id e"
  shows "board_ok (b\<lparr>tb_tasks := hm_map_values f (tb_tasks b)\<rparr>)"
  using board_okD [OF assms(1)] assms(2) by (auto simp: board_ok_def)

lemma board_ok_reviews:
  assumes "board_ok b" and "hm_wf rs"
  shows "board_ok (b\<lparr>tb_reviews := rs\<rparr>)"
  using assms by (auto simp: board_ok_def)

lemma te_id_stamp [simp]: "te_id (stamp s ev eid e) = te_id e"
  by (simp add: stamp_def)

lemma board_ok_add:
  assumes "board_ok b"
  shows "board_ok (board_add_task e b)"
  using board_okD [OF assms]
  by (auto simp: board_ok_def board_add_task_def hm_contains_def)

lemma board_ok_with_task:
  "board_ok b \<Longrightarrow> (\<And>e. te_id (f e) = te_id e) \<Longrightarrow> board_ok (fst (with_task f t b))"
  by (simp add: with_task_def board_ok_modify)

lemma apply_event_created:
  "ev_kind ev = TaskCreated t \<Longrightarrow>
     apply_event_inner now ev eid b =
       (if has_task b t then b else board_add_task (new_task_entry now t [] []) b)"
  by (simp add: apply_event_inner_def has_task_def board_add_task_def new_task_entry_def)

lemma board_ok_on_review: "board_ok b \<Longrightarrow> board_ok (on_review s ev eid r b)"
  by (auto simp: on_review_def board_ok_modify split: option.splits)

lemma board_ok_apply_event:
  assumes "board_ok b"
  shows "board_ok (apply_event_inner now ev eid b)"
proof (cases "ev_kind ev")
  case (TaskCreated t)
  then show ?thesis using assms by (simp add: apply_event_created board_ok_add)
next
  case (ReviewRequested t r)
  have "board_ok (b\<lparr>tb_tasks := hm_modify t (stamp InReview ev eid) (tb_tasks b)\<rparr>)"
    using assms by (simp add: board_ok_modify)
  then have "board_ok (b\<lparr>tb_tasks := hm_modify t (stamp InReview ev eid) (tb_tasks b),
      tb_reviews := hm_insert r t (tb_reviews b)\<rparr>)"
    by (rule board_ok_reviews) (simp add: board_okD(2) [OF assms])
  with ReviewRequested show ?thesis by (simp add: apply_event_inner_def)
qed (use assms in \<open>simp_all add: apply_event_inner_def board_ok_modify board_ok_map_values board_ok_on_review\<close>)

lemma board_ok_rebuild: "board_ok (rebuild_from_events events b)"
proof -
  have "board_ok b' \<Longrightarrow> board_ok (fold (\<lambda>(ev, eid, now). apply_event_inner now ev eid) events b')" for b'
    by (induction events arbitrary: b') (auto simp: board_ok_apply_event)
  then show ?thesis by (simp add: rebuild_from_events_def board_ok_empty)
qed

lemma board_ok_remove: "board_ok b \<Longrightarrow> board_ok (fst (board_remove_task t b))"
  by (auto simp: board_ok_def board_remove_task_def split: if_splits)

lemma hm_get_fold_remove: "hm_get (fold hm_remove ts m) x = (if x \<in> set ts then None else hm_get m x)"
  by (induction ts arbitrary: m) auto

lemma hm_wf_fold_remove: "hm_wf m \<Longrightarrow> hm_wf (fold hm_remove ts m)"
  by (induction ts arbitrary: m) auto

lemma board_ok_bounds: "board_ok b \<Longrightarrow> board_ok (fst (board_apply_bounds b))"
  by (auto simp: board_ok_def board_apply_bounds_def Let_def hm_get_fold_remove hm_wf_fold_remove split: if_splits)

subsection \<open>What eviction removes\<close>

definition merged_in_order :: "(task_id, task_entry) hmap \<Rightarrow> task_id list \<Rightarrow> task_id list" where
  "merged_in_order tasks ts = filter (\<lambda>t. map_option te_status (hm_get tasks t) = Some Merged) ts"

lemma evictable_conv: "evictable tasks n ts = take n (merged_in_order tasks ts)"
  by (induction tasks n ts rule: evictable.induct)
    (auto simp: merged_in_order_def take_Cons' split: option.splits)

lemma distinct_evictable: "distinct ts \<Longrightarrow> distinct (evictable tasks n ts)"
  by (simp add: evictable_conv merged_in_order_def)

lemma length_fold_remove:
  assumes "hm_wf m" and "distinct ts" and "\<And>t. t \<in> set ts \<Longrightarrow> hm_get m t \<noteq> None"
  shows "length (fold hm_remove ts m) = length m - length ts"
proof -
  have "length (fold hm_remove ts m) = card ({k. hm_get m k \<noteq> None} - set ts)"
    using hm_length_card [OF hm_wf_fold_remove [OF assms(1)], of ts]
    by (auto simp: hm_get_fold_remove intro!: arg_cong [of _ _ card])
  also have "\<dots> = length m - length ts"
    using assms by (subst card_Diff_subset) (auto simp: hm_length_card distinct_card)
  finally show ?thesis .
qed

text \<open>Eviction removes exactly the oldest merged tasks, no more than the excess over the
  limit: afterwards the board is within its limit or has no merged task left, every task that
  is not merged keeps its entry, the rest of the order is unchanged, and the returned count is
  the number of tasks that disappeared.\<close>

theorem apply_bounds_correct:
  assumes "board_ok b" and "board_apply_bounds b = (b', n)"
  shows "n = min (length (tb_tasks b) - tb_max_tasks b) (length (merged_in_order (tb_tasks b) (tb_order b))) \<and>
    length (tb_tasks b') = length (tb_tasks b) - n \<and>
    (\<forall>t. hm_get (tb_tasks b') t =
       (if t \<in> set (take n (merged_in_order (tb_tasks b) (tb_order b))) then None else hm_get (tb_tasks b) t)) \<and>
    tb_order b' = filter (\<lambda>t. t \<notin> set (take n (merged_in_order (tb_tasks b) (tb_order b)))) (tb_order b) \<and>
    board_ok b'"
proof -
  let ?M = "merged_in_order (tb_tasks b) (tb_order b)" and ?x = "length (tb_tasks b) - tb_max_tasks b"
  note ok = board_okD [OF assms(1)]
  have keep: "board_ok b'" using board_ok_bounds [OF assms(1)] assms(2) by simp
  show ?thesis
  proof (cases "length (tb_tasks b) \<le> tb_max_tasks b")
    case True
    then show ?thesis using assms(2) keep by (auto simp: board_apply_bounds_def)
  next
    case False
    have n: "n = min ?x (length ?M)" "take n ?M = take ?x ?M"
      using assms(2) False by (auto simp: board_apply_bounds_def Let_def evictable_conv min_def)
    have b': "tb_tasks b' = fold hm_remove (take n ?M) (tb_tasks b)"
      "tb_order b' = filter (\<lambda>t. t \<notin> set (take n ?M)) (tb_order b)"
      using assms(2) False unfolding n(2) by (auto simp: board_apply_bounds_def Let_def evictable_conv)
    have "set (take n ?M) \<subseteq> set (tb_order b)" "distinct (take n ?M)" "length (take n ?M) = n"
      using ok(3) by (auto simp: merged_in_order_def n(1) dest!: in_set_takeD)
    then have "length (tb_tasks b') = length (tb_tasks b) - n"
      using length_fold_remove [OF ok(1), of "take n ?M"] ok(4) by (auto simp: b')
    with n(1) b' keep show ?thesis by (simp add: hm_get_fold_remove)
  qed
qed

definition bounds_example :: task_board where
  "bounds_example =
     rebuild_from_events
       [(\<lparr>ev_kind = TaskCreated ''a'', ev_timestamp = 1, ev_aggregate_id = ''a''\<rparr>, 1, 1),
        (\<lparr>ev_kind = TaskCreated ''b'', ev_timestamp = 2, ev_aggregate_id = ''b''\<rparr>, 2, 2),
        (\<lparr>ev_kind = MergeCommitted ''b'', ev_timestamp = 3, ev_aggregate_id = ''b''\<rparr>, 3, 3)]
       (with_max_tasks 1)"

lemma bounds_example_evicts: "board_apply_bounds bounds_example = (fst (board_apply_bounds bounds_example), 1)"
  by code_simp

theorem apply_bounds_correct_witness:
  "board_ok bounds_example \<and> length (tb_tasks (fst (board_apply_bounds bounds_example))) = 1"
proof -
  have ok: "board_ok bounds_example" by (simp add: bounds_example_def board_ok_rebuild)
  have "length (tb_tasks bounds_example) = 2" by code_simp
  then show ?thesis using ok apply_bounds_correct [OF ok bounds_example_evicts] by simp
qed

subsection \<open>Listing and statistics\<close>

lemma map_filter_total: "(\<And>x. x \<in> set xs \<Longrightarrow> f x \<noteq> None) \<Longrightarrow> List.map_filter f xs = map (the \<circ> f) xs"
  by (induction xs) (force simp: List.map_filter_simps split: option.splits)+

text \<open>The listing returns every task of the board exactly once, in the order of creation,
  and agrees with lookup by identifier.\<close>

theorem all_tasks_complete:
  assumes "board_ok b"
  shows "map te_id (all_tasks b) = tb_order b \<and> distinct (map te_id (all_tasks b)) \<and>
    (\<forall>t e. get_task b t = Some e \<longleftrightarrow> e \<in> set (all_tasks b) \<and> te_id e = t)"
proof -
  note ok = board_okD [OF assms]
  have listed: "all_tasks b = map (the \<circ> hm_get (tb_tasks b)) (tb_order b)"
    unfolding all_tasks_def using ok(4) by (intro map_filter_total) auto
  have ids: "te_id (the (hm_get (tb_tasks b) t)) = t" if "t \<in> set (tb_order b)" for t
    using ok(4) [of t] ok(5) [of t] that by auto
  have "map te_id (all_tasks b) = tb_order b"
    unfolding listed by (simp add: map_idI ids)
  moreover have "get_task b t = Some e \<longleftrightarrow> e \<in> set (all_tasks b) \<and> te_id e = t" for t e
    unfolding listed get_task_def using ids ok(4,5) by (force simp: image_iff)
  ultimately show ?thesis using ok(3) by simp
qed

theorem all_tasks_complete_witness:
  "board_ok bounds_example \<and> map te_id (all_tasks bounds_example) = tb_order bounds_example"
proof -
  have ok: "board_ok bounds_example" by (simp add: bounds_example_def board_ok_rebuild)
  show ?thesis using ok all_tasks_complete [OF ok] by simp
qed

lemma length_by_status:
  "length xs = (\<Sum>s \<leftarrow> [Pending, Assigned, InProgress, InReview, Blocked, Merged, ChangesRequested, Approved].
     length (filter (\<lambda>e. te_status e = s) xs))"
proof (induction xs)
  case (Cons x xs)
  then show ?case by (cases "te_status x") simp_all
qed simp

text \<open>The statistics do not depend on the iteration order and account for every task: the
  six counters together with the tasks in \<open>ChangesRequested\<close> and \<open>Approved\<close>, which have no
  counter, add up to the total.\<close>

theorem board_stats_accounts:
  "st_total (board_stats h b) = st_pending (board_stats h b) + st_assigned (board_stats h b) +
     st_in_progress (board_stats h b) + st_in_review (board_stats h b) + st_blocked (board_stats h b) +
     st_completed (board_stats h b) + length (get_tasks_by_status h ChangesRequested b) +
     length (get_tasks_by_status h Approved b) \<and> board_stats h b = board_stats h' b"
proof -
  have counts: "length (filter P (hm_values h m)) = length (filter P (hm_values h' m))" for P and m :: "(task_id, task_entry) hmap"
    by (metis mset_filter mset_hm_values size_mset)
  have "length (tb_tasks b) = length (hm_values h (tb_tasks b))" by simp
  then show ?thesis
    unfolding board_stats_def get_tasks_by_status_def
    using length_by_status [of "hm_values h (tb_tasks b)"] counts by (simp add: Let_def)
qed

subsection \<open>The projection of the event log\<close>

lemma rebuild_Nil: "rebuild_from_events [] b = b\<lparr>tb_tasks := [], tb_order := [], tb_reviews := []\<rparr>"
  by (simp add: rebuild_from_events_def)

lemma rebuild_snoc:
  "rebuild_from_events (events @ [(ev, eid, now)]) b = apply_event_inner now ev eid (rebuild_from_events events b)"
  by (simp add: rebuild_from_events_def)

lemma get_on_review:
  "hm_get (tb_tasks (on_review s ev eid r b)) t =
     (if hm_get (tb_reviews b) r = Some t then map_option (stamp s ev eid) (hm_get (tb_tasks b) t)
      else hm_get (tb_tasks b) t)"
  by (auto simp: on_review_def split: option.splits)

lemma apply_event_merged:
  assumes "hm_get (tb_tasks (apply_event_inner now ev eid b)) t = Some e" and "te_status e = Merged"
  shows "(ev_kind ev = MergeCommitted t \<and> te_last_event_id e = Some eid) \<or> hm_get (tb_tasks b) t = Some e"
  using assms
  by (cases "ev_kind ev")
    (auto simp: apply_event_inner_def get_on_review stamp_def new_task_entry_def split: if_splits)

text \<open>A task of a replayed board is \<open>Merged\<close> only if the log holds a \<open>MergeCommitted\<close> event
  for it, and the entry points to that event as the last one that changed it.\<close>

theorem merged_only_by_commit_event:
  assumes "get_task (rebuild_from_events events b) t = Some e" and "te_status e = Merged"
  shows "\<exists>(ev, eid, now) \<in> set events. ev_kind ev = MergeCommitted t \<and> te_last_event_id e = Some eid"
  using assms(1) unfolding get_task_def
proof (induction events rule: rev_induct)
  case Nil
  then show ?case by (simp add: rebuild_Nil)
next
  case (snoc x events)
  obtain ev eid now where x: "x = (ev, eid, now)" by (cases x)
  from snoc.prems apply_event_merged [of now ev eid _ t e] assms(2) snoc.IH
  show ?case unfolding x rebuild_snoc by auto
qed

theorem merged_only_by_commit_event_witness:
  "\<exists>(ev, eid, now) \<in> set [(\<lparr>ev_kind = TaskCreated ''b'', ev_timestamp = 2, ev_aggregate_id = ''b''\<rparr>, 2, 2),
      (\<lparr>ev_kind = MergeCommitted ''b'', ev_timestamp = 3, ev_aggregate_id = ''b''\<rparr>, 3, 3)].
     ev_kind ev = MergeCommitted ''b'' \<and> Some (3 :: event_id) = Some eid"
proof -
  let ?b = "rebuild_from_events [(\<lparr>ev_kind = TaskCreated ''b'', ev_timestamp = 2, ev_aggregate_id = ''b''\<rparr>, 2, 2),
      (\<lparr>ev_kind = MergeCommitted ''b'', ev_timestamp = 3, ev_aggregate_id = ''b''\<rparr>, 3, 3 :: time)] (with_max_tasks 1)"
  have "get_task ?b ''b'' = Some ((new_task_entry 2 ''b'' [] [])
      \<lparr>te_status := Merged, te_updated_at := 3, te_last_event_id := Some 3\<rparr>)"
    by code_simp
  from merged_only_by_commit_event [OF this] show ?thesis by simp
qed

lemma apply_event_session:
  assumes "hm_get (tb_tasks (apply_event_inner now ev eid b)) t = Some e"
    and "\<And>t e. hm_get (tb_tasks b) t = Some e \<Longrightarrow> te_session_id e = None"
  shows "te_session_id e = None"
  using assms
  by (cases "ev_kind ev")
    (auto simp: apply_event_inner_def get_on_review stamp_def new_task_entry_def split: if_splits)

lemma rebuilt_session: "hm_get (tb_tasks (rebuild_from_events events b)) t = Some e \<Longrightarrow> te_session_id e = None"
proof (induction events arbitrary: t e rule: rev_induct)
  case Nil
  then show ?case by (simp add: rebuild_Nil)
next
  case (snoc x events)
  obtain ev eid now where x: "x = (ev, eid, now)" by (cases x)
  show ?case
    by (rule apply_event_session [OF snoc.prems [unfolded x rebuild_snoc]]) (rule snoc.IH)
qed

lemma hm_map_values_id: "hm_wf m \<Longrightarrow> (\<And>k v. hm_get m k = Some v \<Longrightarrow> f v = v) \<Longrightarrow> hm_map_values f m = m"
  by (auto simp: hm_map_values_def intro!: map_idI dest: hm_get_SomeI)

text \<open>No replayed event records the session that works on a task, so the handler of
  \<open>AgentDied\<close> never frees a task on a board rebuilt from the log: the event leaves the board
  unchanged.\<close>

theorem agent_died_ignored_after_replay:
  assumes "ev_kind ev = AgentDied agent session reason"
  shows "apply_event now ev eid (rebuild_from_events events b) = rebuild_from_events events b"
proof -
  let ?b = "rebuild_from_events events b"
  let ?f = "\<lambda>e. if te_session_id e = Some session \<and> te_status e = InProgress
      then (stamp Pending ev eid e)\<lparr>te_session_id := None\<rparr> else e"
  have "hm_map_values ?f (tb_tasks ?b) = tb_tasks ?b"
    using board_okD(1) [OF board_ok_rebuild] by (rule hm_map_values_id) (auto dest: rebuilt_session)
  with assms show ?thesis by (simp add: apply_event_def apply_event_inner_def)
qed

theorem agent_died_ignored_after_replay_witness:
  "apply_event 9 \<lparr>ev_kind = AgentDied ''w'' ''s'' ''crash'', ev_timestamp = 9, ev_aggregate_id = ''w''\<rparr> 9 bounds_example
     = bounds_example"
  unfolding bounds_example_def
  by (rule agent_died_ignored_after_replay [where agent = "''w''" and session = "''s''" and reason = "''crash''"]) simp

end
