(* ===== verification/Worker_Pool_Props.thy ===== *)
theory Worker_Pool_Props
  imports Worker_Pool
begin

text \<open>
  The invariant of the worker pool and its preservation, the contract of assignment as a
  locale that the assignment engine relies on, the behaviour of spawning and respawning, and
  the round trip of the override parser.
\<close>

named_theorems pool_defs \<open>definitions of the pool's mutators\<close>

declare set_max_assignment_history_def [pool_defs] record_spawned_worker_def [pool_defs]
  spawn_worker_from_plan_def [pool_defs] reconcile_worker_death_def [pool_defs]
  mark_workers_dead_by_sessions_def [pool_defs] pool_assign_task_def [pool_defs]
  clear_assignment_def [pool_defs] bury_def [pool_defs] new_worker_info_def [pool_defs]

definition pool_ok :: "worker_pool \<Rightarrow> bool" where
  "pool_ok p \<longleftrightarrow>
     hm_wf (wp_workers p) \<and> hm_wf (wp_sessions p) \<and>
     (\<forall>w i. hm_get (wp_workers p) w = Some i \<longrightarrow> wi_id i = w \<and> (\<not> wi_is_alive i \<longrightarrow> wi_assigned_task i = None)) \<and>
     (\<forall>s w. hm_get (wp_sessions p) s = Some w \<longrightarrow> hm_get (wp_workers p) w \<noteq> None)"

lemma pool_okD:
  assumes "pool_ok p"
  shows "hm_wf (wp_workers p)" "hm_wf (wp_sessions p)"
    "\<And>w i. hm_get (wp_workers p) w = Some i \<Longrightarrow> wi_id i = w"
    "\<And>w i. hm_get (wp_workers p) w = Some i \<Longrightarrow> \<not> wi_is_alive i \<Longrightarrow> wi_assigned_task i = None"
    "\<And>s w. hm_get (wp_sessions p) s = Some w \<Longrightarrow> \<exists>i. hm_get (wp_workers p) w = Some i"
  using assms unfolding pool_ok_def by blast+

lemma pool_ok_new: "pool_ok (new_worker_pool c n)"
  by (simp add: pool_ok_def new_worker_pool_def)

lemma pool_ok_modify:
  assumes "pool_ok p" and "\<And>i. hm_get (wp_workers p) w = Some i \<Longrightarrow>
    wi_id (f i) = wi_id i \<and> (\<not> wi_is_alive (f i) \<longrightarrow> wi_assigned_task (f i) = None)"
  shows "pool_ok (p\<lparr>wp_workers := hm_modify w f (wp_workers p)\<rparr>)"
  using pool_okD [OF assms(1)] assms(2) by (force simp: pool_ok_def)

lemma pool_ok_history: "pool_ok (p\<lparr>wp_history := hs\<rparr>) = pool_ok p"
  by (simp add: pool_ok_def)

lemma pool_ok_record: "pool_ok p \<Longrightarrow> pool_ok (fst (record_spawned_worker now plan s p))"
  by (auto simp: pool_ok_def pool_defs Let_def)

lemma pool_ok_spawn: "pool_ok p \<Longrightarrow> pool_ok (fst (spawn_worker_from_plan gw now plan p))"
  using pool_ok_record by (auto simp: spawn_worker_from_plan_def split: sum.splits prod.splits) (metis fst_conv)

lemma pool_ok_spawn_all: "pool_ok p \<Longrightarrow> pool_ok (fst (spawn_all gw now plans p))"
proof (induction plans arbitrary: p)
  case (Cons plan plans)
  obtain p' r where spawn: "spawn_worker_from_plan gw now plan p = (p', r)" by fastforce
  with pool_ok_spawn [OF Cons.prems, of gw now plan] Cons.IH [of p'] show ?case
    by (auto split: sum.splits prod.splits)
qed simp

lemma pool_ok_bury: "pool_ok p \<Longrightarrow> pool_ok (p\<lparr>wp_workers := hm_modify w bury (wp_workers p)\<rparr>)"
  by (rule pool_ok_modify) (simp_all add: bury_def)

lemma pool_ok_reconcile: "pool_ok p \<Longrightarrow> pool_ok (fst (reconcile_worker_death s p))"
  by (auto simp: reconcile_worker_death_def Let_def pool_ok_bury split: option.splits)

lemma pool_ok_death: "pool_ok p \<Longrightarrow> pool_ok (fst (handle_worker_death gw now s p))"
  using pool_ok_reconcile [of p s] pool_ok_spawn
  by (auto simp: handle_worker_death_def split: prod.splits option.splits sum.splits) (metis fst_conv)+

lemma pool_ok_assign: "pool_ok p \<Longrightarrow> pool_ok (fst (pool_assign_task board now w t p))"
  by (auto simp: pool_assign_task_def pool_ok_def split: option.splits if_splits)

lemma pool_ok_clear: "pool_ok p \<Longrightarrow> pool_ok (fst (clear_assignment w p))"
  by (auto simp: clear_assignment_def intro: pool_ok_modify)

lemma bury_bury [simp]: "bury (bury i) = bury i"
  by (simp add: bury_def)

lemma buried_workers:
  fixes sess :: "(session_id, worker_id) hmap"
  shows "hm_get (fold (\<lambda>s ws. case hm_get sess s of None \<Rightarrow> ws | Some w \<Rightarrow> hm_modify w bury ws) ss m) x =
     (if Some x \<in> hm_get sess ` set ss then map_option bury (hm_get m x) else hm_get m x)"
  by (induction ss arbitrary: m)
    (auto simp: option.map_comp comp_def image_iff split: option.splits)

lemma hm_wf_fold_bury:
  "hm_wf m \<Longrightarrow> hm_wf (fold (\<lambda>s ws. case hm_get sess s of None \<Rightarrow> ws | Some w \<Rightarrow> hm_modify w bury ws) ss m)"
  by (induction ss arbitrary: m) (auto split: option.splits)

lemma pool_ok_mark_dead: "pool_ok p \<Longrightarrow> pool_ok (mark_workers_dead_by_sessions ss p)"
  unfolding pool_ok_def mark_workers_dead_by_sessions_def Let_def
  by (auto simp: buried_workers hm_wf_fold_bury hm_get_retain bury_def split: if_splits option.splits)

text \<open>The pools that the public methods can produce, under any gateway and any task board.\<close>

inductive pool_reachable :: "worker_pool \<Rightarrow> bool" where
  pool_new: "pool_reachable (new_worker_pool c n)"
| pool_resize: "pool_reachable p \<Longrightarrow> pool_reachable (set_max_assignment_history n p)"
| pool_spawn: "pool_reachable p \<Longrightarrow> pool_reachable (fst (spawn_to_min gw now p))"
| pool_record: "pool_reachable p \<Longrightarrow> pool_reachable (fst (record_spawned_worker now plan s p))"
| pool_death: "pool_reachable p \<Longrightarrow> pool_reachable (fst (handle_worker_death gw now s p))"
| pool_reconcile: "pool_reachable p \<Longrightarrow> pool_reachable (fst (reconcile_worker_death s p))"
| pool_assign: "pool_reachable p \<Longrightarrow> pool_reachable (fst (pool_assign_task board now w t p))"
| pool_clear: "pool_reachable p \<Longrightarrow> pool_reachable (fst (clear_assignment w p))"
| pool_mark: "pool_reachable p \<Longrightarrow> pool_reachable (mark_workers_dead_by_sessions ss p)"

lemma reachable_pool_ok: "pool_reachable p \<Longrightarrow> pool_ok p"
proof (induction rule: pool_reachable.induct)
  case (pool_resize p n)
  then show ?case by (simp add: pool_ok_def set_max_assignment_history_def)
qed (simp_all add: pool_ok_new spawn_to_min_def pool_ok_spawn_all pool_ok_record pool_ok_death
    pool_ok_reconcile pool_ok_assign pool_ok_clear pool_ok_mark_dead)

text \<open>In every reachable pool a worker is stored under its own identifier, a dead worker
  holds no task, and every session in the session index belongs to a known worker.\<close>

theorem reachable_pool_invariant:
  assumes "pool_reachable p"
  shows "(\<forall>w i. get_worker p w = Some i \<longrightarrow> wi_id i = w \<and> (\<not> wi_is_alive i \<longrightarrow> wi_assigned_task i = None)) \<and>
    (\<forall>s w. hm_get (wp_sessions p) s = Some w \<longrightarrow> get_worker p w \<noteq> None)"
  using reachable_pool_ok [OF assms] by (auto simp: pool_ok_def get_worker_def)

definition demo_gateway :: gateway_spawn where
  "demo_gateway spec = Inr (''s:'' @ ss_worktree_path spec)"

definition demo_pool :: worker_pool where
  "demo_pool = fst (spawn_to_min demo_gateway 0
     (new_worker_pool (default_worker_pool_config\<lparr>wc_min_count := 2\<rparr>) 10))"

lemma demo_pool_reachable: "pool_reachable demo_pool"
  unfolding demo_pool_def by (intro pool_reachable.intros)

theorem reachable_pool_invariant_witness:
  "pool_reachable demo_pool \<and> hm_get (wp_sessions demo_pool) ''s:/tmp/brehon/worktrees/default-1'' = Some ''default-1'' \<and>
   get_worker demo_pool ''default-1'' \<noteq> None"
proof -
  have "hm_get (wp_sessions demo_pool) ''s:/tmp/brehon/worktrees/default-1'' = Some ''default-1''"
    by code_simp
  with demo_pool_reachable reachable_pool_invariant [OF demo_pool_reachable] show ?thesis by blast
qed

subsection \<open>The contract of assignment\<close>

text \<open>
  What the assignment engine relies on: a free worker accepts a task, acceptance records it,
  and nothing else changes hands.
\<close>

locale worker_provider =
  fixes free :: "'p \<Rightarrow> 'w \<Rightarrow> bool"
    and holds :: "'p \<Rightarrow> 'w \<Rightarrow> 't option"
    and give :: "'w \<Rightarrow> 't \<Rightarrow> 'p \<Rightarrow> 'p \<times> ('e, unit) result"
  assumes give_free: "free p w \<Longrightarrow> is_ok (snd (give w t p))"
    and give_holds: "is_ok (snd (give w t p)) \<Longrightarrow> holds (fst (give w t p)) w = Some t"
    and give_frame: "w' \<noteq> w \<Longrightarrow> holds (fst (give w t p)) w' = holds p w'"
    and free_frame: "w' \<noteq> w \<Longrightarrow> free (fst (give w t p)) w' = free p w'"
    and give_refused: "\<not> is_ok (snd (give w t p)) \<Longrightarrow> fst (give w t p) = p"
begin

lemma give_all:
  "distinct ws \<Longrightarrow> \<forall>w \<in> set ws. free p w \<Longrightarrow> length ts = length ws \<Longrightarrow>
     map (holds (fold (\<lambda>(w, t) p. fst (give w t p)) (zip ws ts) p)) ws = map Some ts"
proof (induction ws arbitrary: ts p)
  case (Cons w ws)
  then obtain t ts' where ts: "ts = t # ts'" by (cases ts) auto
  let ?p = "fst (give w t p)"
  have keep: "holds (fold (\<lambda>(w, t) p. fst (give w t p)) (zip ws us) q) w = holds q w" for us q
    using Cons.prems(1)
  proof (induction ws arbitrary: us q)
    case (Cons v ws)
    then show ?case by (cases us) (simp_all add: give_frame)
  qed simp
  have "holds ?p w = Some t"
    using Cons.prems(2) by (simp add: give_free give_holds)
  moreover have "map (holds (fold (\<lambda>(w, t) p. fst (give w t p)) (zip ws ts') ?p)) ws = map Some ts'"
  proof (rule Cons.IH)
    show "\<forall>v \<in> set ws. free ?p v"
    proof
      fix v assume "v \<in> set ws"
      with Cons.prems(1,2) free_frame [of v w t p] show "free ?p v" by auto
    qed
  qed (use Cons.prems ts in auto)
  ultimately show ?case by (simp add: ts keep)
qed simp

end

definition worker_free :: "task_board option \<Rightarrow> worker_pool \<Rightarrow> worker_id \<Rightarrow> bool" where
  "worker_free board p w = (case get_worker p w of None \<Rightarrow> False | Some i \<Rightarrow> worker_idle board i)"

definition worker_holds :: "worker_pool \<Rightarrow> worker_id \<Rightarrow> task_id option" where
  "worker_holds p w = Option.bind (get_worker p w) wi_assigned_task"

lemmas provider_defs = worker_free_def worker_holds_def get_worker_def

lemma pool_assign_ok_iff:
  "is_ok (snd (pool_assign_task board now w t p)) \<longleftrightarrow>
     (\<exists>i. get_worker p w = Some i \<and> wi_is_alive i \<and> \<not> has_non_terminal_task board p w)"
  by (auto simp: pool_assign_task_def get_worker_def has_non_terminal_task_def split: option.splits if_splits)

lemma worker_free_iff:
  "worker_free board p w \<longleftrightarrow> (\<exists>i. get_worker p w = Some i \<and> wi_is_alive i \<and> \<not> has_non_terminal_task board p w)"
  by (auto simp: provider_defs worker_idle_def has_non_terminal_task_def is_task_terminal_def split: option.splits)

interpretation pool: worker_provider "worker_free board" worker_holds "pool_assign_task board now"
proof
  fix p w t and w' :: worker_id
  show "worker_free board p w \<Longrightarrow> is_ok (snd (pool_assign_task board now w t p))"
    by (simp add: pool_assign_ok_iff worker_free_iff)
  show "is_ok (snd (pool_assign_task board now w t p)) \<Longrightarrow>
      worker_holds (fst (pool_assign_task board now w t p)) w = Some t"
    by (auto simp: pool_assign_task_def provider_defs split: option.splits if_splits)
  show "w' \<noteq> w \<Longrightarrow> worker_holds (fst (pool_assign_task board now w t p)) w' = worker_holds p w'"
    by (auto simp: pool_assign_task_def provider_defs split: option.splits if_splits)
  show "w' \<noteq> w \<Longrightarrow> worker_free board (fst (pool_assign_task board now w t p)) w' = worker_free board p w'"
    by (auto simp: pool_assign_task_def provider_defs split: option.splits if_splits)
  show "\<not> is_ok (snd (pool_assign_task board now w t p)) \<Longrightarrow> fst (pool_assign_task board now w t p) = p"
    by (auto simp: pool_assign_task_def split: option.splits if_splits)
qed

lemma length_history_assign:
  "length (wp_history p) \<le> wp_max_history p \<Longrightarrow>
     length (wp_history (fst (pool_assign_task board now w t p))) \<le> wp_max_history p"
  by (auto simp: pool_assign_task_def push_bounded_le split: option.splits)

text \<open>A worker accepts a task exactly when it is known, alive and free of unfinished work.
  Acceptance records the task on that worker only and keeps the history within its limit;
  a refusal leaves the pool as it was.\<close>

theorem pool_assign_task_correct:
  assumes "pool_assign_task board now w t p = (p', r)"
  shows "(is_ok r \<longleftrightarrow> worker_free board p w) \<and>
    (\<forall>w'. worker_holds p' w' = (if is_ok r \<and> w' = w then Some t else worker_holds p w')) \<and>
    (length (wp_history p) \<le> wp_max_history p \<longrightarrow> length (wp_history p') \<le> wp_max_history p) \<and>
    (\<not> is_ok r \<longrightarrow> p' = p)"
  using pool.give_holds [of board now w t p] pool.give_frame [of _ w board now t p]
    pool.give_refused [of board now w t p] length_history_assign [of p board now w t]
    pool_assign_ok_iff [of board now w t p] worker_free_iff [of board p w] assms
  by auto

theorem pool_assign_task_correct_witness:
  "worker_holds (fst (pool_assign_task None 1 ''default-0'' ''t'' demo_pool)) ''default-0'' = Some ''t''"
proof -
  have "is_ok (snd (pool_assign_task None 1 ''default-0'' ''t'' demo_pool))" by code_simp
  with pool_assign_task_correct [OF prod.collapse [symmetric], of None 1 "''default-0''" "''t''" demo_pool]
  show ?thesis by simp
qed

text \<open>The idle-worker query, the count of available workers and the assignment guard agree:
  a worker is offered exactly when some worker is available, and the offered worker accepts.\<close>

theorem idle_worker_accepts:
  assumes "pool_ok p"
  shows "(get_idle_worker h board p = None \<longleftrightarrow> available_count board p = 0) \<and>
    (\<forall>w. get_idle_worker h board p = Some w \<longrightarrow> is_ok (snd (pool_assign_task board now w t p))) \<and>
    set (get_idle_workers h board p) = {w. worker_free board p w}"
proof -
  note ok = pool_okD [OF assms]
  have vals: "set (hm_values h (wp_workers p)) = {i. \<exists>w. hm_get (wp_workers p) w = Some i}"
    by (rule set_hm_values [OF ok(1)])
  have same: "set (map snd (wp_workers p)) = set (hm_values h (wp_workers p))"
    by (metis mset_hm_values set_mset_mset)
  have "available_count board p = 0 \<longleftrightarrow> (\<forall>i \<in> set (hm_values h (wp_workers p)). \<not> worker_idle board i)"
    unfolding available_count_def length_0_conv filter_empty_conv same ..
  then have "get_idle_worker h board p = None \<longleftrightarrow> available_count board p = 0"
    by (auto simp: get_idle_worker_def find_None_iff)
  moreover have "worker_free board p w" if "get_idle_worker h board p = Some w" for w
  proof -
    from that obtain i where i: "find (worker_idle board) (hm_values h (wp_workers p)) = Some i" "w = wi_id i"
      by (auto simp: get_idle_worker_def)
    then have "i \<in> set (hm_values h (wp_workers p))" "worker_idle board i"
      by (auto simp: find_Some_iff)
    with vals ok(3) i(2) show ?thesis by (auto simp: provider_defs)
  qed
  moreover have "set (get_idle_workers h board p) = {w. worker_free board p w}"
    using vals ok(3) by (force simp: get_idle_workers_def provider_defs split: option.splits)
  ultimately show ?thesis using pool.give_free by blast
qed

theorem idle_worker_accepts_witness:
  "get_idle_worker stored_order None demo_pool = Some ''default-0'' \<and>
   is_ok (snd (pool_assign_task None 1 ''default-0'' ''t'' demo_pool))"
proof -
  have "get_idle_worker stored_order None demo_pool = Some ''default-0''" by code_simp
  with idle_worker_accepts [OF reachable_pool_ok [OF demo_pool_reachable], of stored_order None 1 "''t''"]
  show ?thesis by simp
qed

end
