(* ===== verification/Assignment.thy ===== *)
theory Assignment
  imports Worker_Pool_Props
begin

text \<open>
  \<open>crates/brehon-orchestrator/src/assignment.rs\<close>: choosing a worker for a task (round robin over
  the idle workers), recording the assignment in the pool and in the history, and dispatching
  the prompt. The pool is shared with the orchestrator and is passed explicitly. The clock
  readings of one call are the argument \<open>now\<close>, the fresh prompt identifier is the argument
  \<open>uuid\<close>, and the gateway's \<open>send_prompt\<close> is an argument.
\<close>

record assignment =
  as_task_id :: task_id
  as_worker_id :: worker_id
  as_session_id :: session_id
  as_assigned_at :: time

record assignment_engine =
  ae_indices :: "(string, nat) hmap"
  ae_history :: "assignment list"

definition new_assignment_engine :: assignment_engine where
  "new_assignment_engine = \<lparr>ae_indices = [], ae_history = []\<rparr>"

record prompt_turn =
  pt_prompt_id :: string
  pt_content :: string
  pt_sent_at :: time

type_synonym gateway_send = "session_id \<Rightarrow> prompt_turn \<Rightarrow> (string, unit) result"

subsection \<open>Choosing a worker\<close>

definition round_robin_select :: "worker_info list \<Rightarrow> assignment_engine \<Rightarrow> assignment_engine \<times> worker_id" where
  "round_robin_select workers e =
     (let agent_type = wi_agent_type (hd workers);
          index = (case hm_get (ae_indices e) agent_type of None \<Rightarrow> 0 | Some i \<Rightarrow> i)
      in (e\<lparr>ae_indices := hm_insert agent_type ((index + 1) mod length workers) (ae_indices e)\<rparr>,
          wi_id (workers ! (index mod length workers))))"

definition unassigned_workers :: "worker_order \<Rightarrow> worker_pool \<Rightarrow> worker_info list" where
  "unassigned_workers h p = filter (\<lambda>i. wi_assigned_task i = None) (alive_workers h p)"

definition select_worker_for_task ::
    "worker_order \<Rightarrow> worker_pool \<Rightarrow> assignment_engine \<Rightarrow>
      assignment_engine \<times> (orchestrator_error, worker_id) result" where
  "select_worker_for_task h p e =
     (let idle = unassigned_workers h p
      in if idle = [] then (e, Inl NoAvailableWorkers)
         else if length idle = 1 then (e, Inr (wi_id (hd idle)))
         else (case round_robin_select idle e of (e', w) \<Rightarrow> (e', Inr w)))"

subsection \<open>Assigning and dispatching\<close>

definition engine_assign_task ::
    "worker_order \<Rightarrow> task_board option \<Rightarrow> time \<Rightarrow> task_entry \<Rightarrow> assignment_engine \<Rightarrow> worker_pool \<Rightarrow>
      assignment_engine \<times> worker_pool \<times> (orchestrator_error, assignment) result" where
  "engine_assign_task h board now task e p =
     (case select_worker_for_task h p e of
        (e', Inl err) \<Rightarrow> (e', p, Inl err)
      | (e', Inr w) \<Rightarrow>
          (case get_worker p w of
             None \<Rightarrow> (e', p, Inl (AssignmentError (''Worker '' @ w @ '' not found'')))
           | Some i \<Rightarrow>
               let a = \<lparr>as_task_id = te_id task, as_worker_id = w, as_session_id = wi_session_id i,
                        as_assigned_at = now\<rparr>
               in (case pool_assign_task board now w (te_id task) p of
                     (p', Inl err) \<Rightarrow> (e', p', Inl err)
                   | (p', Inr _) \<Rightarrow> (e'\<lparr>ae_history := ae_history e' @ [a]\<rparr>, p', Inr a))))"

definition reassign_task ::
    "worker_order \<Rightarrow> task_board option \<Rightarrow> time \<Rightarrow> task_entry \<Rightarrow> assignment_engine \<Rightarrow> worker_pool \<Rightarrow>
      assignment_engine \<times> worker_pool \<times> (orchestrator_error, assignment) result" where
  "reassign_task h board now task e p = engine_assign_task h board now task e p"

definition priority_debug :: "priority \<Rightarrow> string" where
  "priority_debug p = (case p of Low \<Rightarrow> ''Low'' | Medium \<Rightarrow> ''Medium'' | High \<Rightarrow> ''High'' | Critical \<Rightarrow> ''Critical'')"

definition build_task_prompt :: "string \<Rightarrow> time \<Rightarrow> task_entry \<Rightarrow> prompt_turn" where
  "build_task_prompt uuid now task =
     (let blank = [CHR 0x0A, CHR 0x0A]
      in \<lparr>pt_prompt_id = uuid,
          pt_content = ''Task: '' @ te_title task @ blank @ ''Description: '' @ te_description task @ blank @
            ''Priority: '' @ priority_debug (te_priority task),
          pt_sent_at = now\<rparr>)"

definition dispatch_task ::
    "gateway_send \<Rightarrow> string \<Rightarrow> time \<Rightarrow> assignment \<Rightarrow> task_entry \<Rightarrow> (orchestrator_error, unit) result" where
  "dispatch_task send uuid now a task =
     (case send (as_session_id a) (build_task_prompt uuid now task) of
        Inl err \<Rightarrow> Inl (AssignmentError (''Failed to dispatch task: '' @ err))
      | Inr _ \<Rightarrow> Inr ())"

subsection \<open>History\<close>

definition engine_worker_death :: "worker_id \<Rightarrow> assignment_engine \<Rightarrow> task_id list" where
  "engine_worker_death w e = map as_task_id (filter (\<lambda>a. as_worker_id a = w) (ae_history e))"

definition get_assignment_for_task :: "task_id \<Rightarrow> assignment_engine \<Rightarrow> assignment option" where
  "get_assignment_for_task t e = find (\<lambda>a. as_task_id a = t) (rev (ae_history e))"

definition get_assignments_for_worker :: "worker_id \<Rightarrow> assignment_engine \<Rightarrow> assignment list" where
  "get_assignments_for_worker w e = filter (\<lambda>a. as_worker_id a = w) (ae_history e)"

definition history_len :: "assignment_engine \<Rightarrow> nat" where
  "history_len e = length (ae_history e)"

definition clear_completed :: "task_id list \<Rightarrow> assignment_engine \<Rightarrow> worker_pool \<Rightarrow> worker_pool" where
  "clear_completed completed e p =
     fold (\<lambda>a p. if as_task_id a \<in> set completed then fst (clear_assignment (as_worker_id a) p) else p)
       (ae_history e) p"

subsection \<open>Properties\<close>

lemma unassigned_iff:
  assumes "pool_ok p"
  shows "i \<in> set (unassigned_workers h p) \<longleftrightarrow>
    get_worker p (wi_id i) = Some i \<and> wi_is_alive i \<and> wi_assigned_task i = None"
  using set_hm_values [OF pool_okD(1) [OF assms], of h] pool_okD(3) [OF assms]
  by (auto simp: unassigned_workers_def alive_workers_def get_worker_def)

lemma unassigned_free:
  "pool_ok p \<Longrightarrow> i \<in> set (unassigned_workers h p) \<Longrightarrow> worker_free board p (wi_id i)"
  by (simp add: unassigned_iff worker_free_def worker_idle_def)

lemma select_worker_spec:
  assumes "select_worker_for_task h p e = (e', r)"
  shows "(unassigned_workers h p = [] \<longrightarrow> r = Inl NoAvailableWorkers \<and> e' = e) \<and>
    (unassigned_workers h p \<noteq> [] \<longrightarrow> (\<exists>i \<in> set (unassigned_workers h p). r = Inr (wi_id i))) \<and>
    ae_history e' = ae_history e"
  using assms
  by (auto simp: select_worker_for_task_def round_robin_select_def Let_def split: if_splits)

lemma engine_assign_spec:
  assumes "pool_ok p" and "engine_assign_task h board now task e p = (e', p', r)"
  shows "(if unassigned_workers h p = [] then r = Inl NoAvailableWorkers \<and> p' = p \<and> e' = e
    else \<exists>i a. i \<in> set (unassigned_workers h p) \<and> r = Inr a \<and> ae_history e' = ae_history e @ [a] \<and>
      a = \<lparr>as_task_id = te_id task, as_worker_id = wi_id i, as_session_id = wi_session_id i, as_assigned_at = now\<rparr> \<and>
      (\<forall>w. worker_holds p' w = (if w = wi_id i then Some (te_id task) else worker_holds p w)) \<and> pool_ok p')"
proof -
  obtain e1 s where sel: "select_worker_for_task h p e = (e1, s)" by fastforce
  note spec = select_worker_spec [OF sel]
  show ?thesis
  proof (cases "unassigned_workers h p = []")
    case True
    with spec sel assms(2) show ?thesis by (simp add: engine_assign_task_def)
  next
    case False
    with spec obtain i where i: "i \<in> set (unassigned_workers h p)" "s = Inr (wi_id i)" by auto
    let ?give = "pool_assign_task board now (wi_id i) (te_id task) p"
    from i have w: "get_worker p (wi_id i) = Some i" using unassigned_iff [OF assms(1)] by simp
    have ok: "is_ok (snd ?give)"
      by (rule pool.give_free [OF unassigned_free [OF assms(1) i(1)]])
    then obtain q where q: "?give = (q, Inr ())" by (cases ?give) (auto simp: is_ok_conv)
    have "pool_ok q" using pool_ok_assign [OF assms(1), of board now "wi_id i" "te_id task"] q by simp
    moreover have "worker_holds q w = (if w = wi_id i then Some (te_id task) else worker_holds p w)" for w
      using pool.give_holds [of board now "wi_id i" "te_id task" p] pool.give_frame [of w "wi_id i" board now "te_id task" p]
        ok q by auto
    ultimately show ?thesis
      using assms(2) sel i w q spec False by (auto simp: engine_assign_task_def Let_def)
  qed
qed

lemma unassigned_after_assign:
  assumes "pool_ok p" and "i \<in> set (unassigned_workers h p)"
  shows "set (unassigned_workers h' (fst (pool_assign_task board now (wi_id i) t p))) =
    {j \<in> set (unassigned_workers h' p). wi_id j \<noteq> wi_id i}"
proof -
  let ?q = "fst (pool_assign_task board now (wi_id i) t p)"
  from assms(2) have i: "get_worker p (wi_id i) = Some i" "worker_free board p (wi_id i)"
    using unassigned_iff [OF assms(1)] unassigned_free [OF assms(1)] by auto
  then have "get_worker ?q w = (if w = wi_id i then Some (i\<lparr>wi_assigned_task := Some t\<rparr>) else get_worker p w)" for w
    using pool.give_free [OF i(2), of now t]
    by (auto simp: pool_assign_task_def get_worker_def split: option.splits if_splits)
  then show ?thesis
    using pool_ok_assign [OF assms(1), of board now "wi_id i" t] assms(1)
    by (auto simp: unassigned_iff split: if_splits)
qed

text \<open>The engine assigns a task exactly when some live worker has no task: it then picks such
  a worker, the worker holds the task afterwards, no other worker's task changes, and the
  assignment with that worker's session is appended to the history. Otherwise it reports that
  no worker is available and changes nothing.\<close>

theorem engine_assign_task_correct:
  assumes "pool_ok p" and "engine_assign_task h board now task e p = (e', p', r)"
  shows "(if unassigned_workers h p = [] then r = Inl NoAvailableWorkers \<and> p' = p \<and> e' = e
    else \<exists>i a. i \<in> set (unassigned_workers h p) \<and> r = Inr a \<and> ae_history e' = ae_history e @ [a] \<and>
      a = \<lparr>as_task_id = te_id task, as_worker_id = wi_id i, as_session_id = wi_session_id i, as_assigned_at = now\<rparr> \<and>
      (\<forall>w. worker_holds p' w = (if w = wi_id i then Some (te_id task) else worker_holds p w)) \<and> pool_ok p')"
  using assms by (rule engine_assign_spec)

definition demo_task :: task_entry where
  "demo_task = new_task_entry 0 ''t1'' ''Title'' ''Text''"

lemma demo_unassigned: "map wi_id (unassigned_workers stored_order demo_pool) = [''default-0'', ''default-1'']"
  by code_simp

theorem engine_assign_task_correct_witness:
  "\<exists>i a. i \<in> set (unassigned_workers stored_order demo_pool) \<and>
     snd (snd (engine_assign_task stored_order None 3 demo_task new_assignment_engine demo_pool)) = Inr a \<and>
     as_worker_id a = wi_id i"
proof -
  obtain e' p' r where run:
    "engine_assign_task stored_order None 3 demo_task new_assignment_engine demo_pool = (e', p', r)"
    by (metis prod_cases3)
  have "unassigned_workers stored_order demo_pool \<noteq> []" using demo_unassigned by auto
  with engine_assign_task_correct [OF reachable_pool_ok [OF demo_pool_reachable] run] run show ?thesis by auto
qed

text \<open>The identifiers that repeated selections over the same idle workers return.\<close>

fun select_many :: "nat \<Rightarrow> worker_info list \<Rightarrow> assignment_engine \<Rightarrow> worker_id list" where
  "select_many 0 ws e = []"
| "select_many (Suc n) ws e = (case round_robin_select ws e of (e', w) \<Rightarrow> w # select_many n ws e')"

definition rr_index :: "worker_info list \<Rightarrow> assignment_engine \<Rightarrow> nat" where
  "rr_index ws e = (case hm_get (ae_indices e) (wi_agent_type (hd ws)) of None \<Rightarrow> 0 | Some i \<Rightarrow> i)"

lemma round_robin_conv:
  "round_robin_select ws e =
     (e\<lparr>ae_indices := hm_insert (wi_agent_type (hd ws)) ((rr_index ws e + 1) mod length ws) (ae_indices e)\<rparr>,
      wi_id (ws ! (rr_index ws e mod length ws)))"
  by (simp add: round_robin_select_def rr_index_def Let_def)

lemma select_many_nth:
  "select_many n ws e = map (\<lambda>k. wi_id (ws ! ((rr_index ws e + k) mod length ws))) [0..<n]"
proof (induction n arbitrary: e)
  case (Suc n)
  let ?e = "fst (round_robin_select ws e)"
  have "rr_index ws ?e = (rr_index ws e + 1) mod length ws"
    by (simp add: round_robin_conv rr_index_def)
  then have "select_many n ws ?e = map (\<lambda>k. wi_id (ws ! ((rr_index ws e + 1 + k) mod length ws))) [0..<n]"
    using Suc.IH [of ?e] by (simp add: mod_add_left_eq)
  then show ?case
    by (simp add: round_robin_conv upt_conv_Cons map_Suc_upt [symmetric] del: upt_Suc)
qed simp

lemma select_many_round:
  "ws \<noteq> [] \<Longrightarrow> select_many (length ws) ws e = rotate (rr_index ws e) (map wi_id ws)"
  by (rule nth_equalityI) (simp_all add: select_many_nth nth_rotate)

lemma mset_rotate: "mset (rotate n xs) = mset xs"
  by (simp add: rotate_drop_take) (metis append_take_drop_id mset_append union_commute)

text \<open>Round robin is fair: as many selections as there are idle workers return every worker
  exactly once, wherever the stored index stands when the round begins.\<close>

theorem round_robin_fair:
  assumes "ws \<noteq> []"
  shows "mset (select_many (length ws) ws e) = mset (map wi_id ws)"
  unfolding select_many_round [OF assms] by (rule mset_rotate)

theorem round_robin_fair_witness:
  "mset (select_many 2 (unassigned_workers stored_order demo_pool) new_assignment_engine) =
     {#''default-0'', ''default-1''#}"
proof -
  have "length (unassigned_workers stored_order demo_pool) = 2"
    using arg_cong [OF demo_unassigned, of length] by simp
  moreover from this have "unassigned_workers stored_order demo_pool \<noteq> []" by auto
  ultimately show ?thesis
    using round_robin_fair [of "unassigned_workers stored_order demo_pool" new_assignment_engine]
    unfolding demo_unassigned by simp
qed

end
