(* ===== verification/Retry_Policy.thy ===== *)
theory Retry_Policy
  imports Task_Lifecycle Runs
begin

text \<open>
  \<open>crates/brehon-orchestrator/src/retry.rs\<close> and \<open>continuation.rs\<close>: the pure policies that decide
  whether a failed run is retried and whether an idle run gets another prompt. Counters and
  delays keep the widths of the source (\<open>u32\<close>, \<open>u64\<close>) with their saturating operations.
\<close>

unbundle bit_operations_syntax

subsection \<open>Retry\<close>

datatype retry_failure_kind = Transient | Interrupted | Deterministic | PermissionDenied | UnknownFailure

datatype retry_review_status = RetryNotInReview | RetryWaitingForReview | RetryApproved | RetryChangesRequested | NeedsOperator

datatype retry_permission_state = NotRequired | PermissionPending | PermissionApproved | Denied

datatype retry_operator_override = ForceRetryNow | ForceRetryLater | ForceFailTerminal | SuppressRetry

record retry_policy_config =
  rp_enabled :: bool
  rp_max_attempts :: "32 word"
  rp_base_delay_ms :: "64 word"
  rp_max_delay_ms :: "64 word"
  rp_jitter_ms :: "64 word"

definition default_retry_policy :: retry_policy_config where
  "default_retry_policy =
     \<lparr>rp_enabled = True, rp_max_attempts = 2, rp_base_delay_ms = 10000, rp_max_delay_ms = 60000, rp_jitter_ms = 250\<rparr>"

record retry_input =
  ri_run_status :: run_status
  ri_failure_kind :: retry_failure_kind
  ri_attempt_count :: "32 word"
  ri_task_status :: task_status
  ri_review_status :: "retry_review_status option"
  ri_permission_state :: "retry_permission_state option"
  ri_operator_override :: "retry_operator_override option"

datatype retry_decision =
    RetryNow "32 word" string
  | RetryLater "32 word" "64 word" "64 word" string
  | FailTerminal string
  | EscalateRetry string
  | NoRetryAction string

definition retry_delay_ms :: "32 word \<Rightarrow> retry_policy_config \<Rightarrow> 64 word" where
  "retry_delay_ms attempt_count policy =
     (let exponent = min (saturating_sub attempt_count 1) 31;
          multiplier = push_bit (unat exponent) 1
      in min (saturating_mul (rp_base_delay_ms policy) multiplier) (rp_max_delay_ms policy))"

definition decide_operator_override ::
    "retry_input \<Rightarrow> retry_policy_config \<Rightarrow> retry_operator_override \<Rightarrow> retry_decision" where
  "decide_operator_override inp policy ov =
     (case ov of
        ForceRetryNow \<Rightarrow> RetryNow (saturating_add (ri_attempt_count inp) 1) ''operator forced retry now''
      | ForceRetryLater \<Rightarrow>
          RetryLater (saturating_add (ri_attempt_count inp) 1)
            (retry_delay_ms (max (ri_attempt_count inp) 1) policy) (rp_jitter_ms policy)
            ''operator forced retry later''
      | ForceFailTerminal \<Rightarrow> FailTerminal ''operator forced terminal failure''
      | SuppressRetry \<Rightarrow> NoRetryAction ''operator suppressed retry'')"

definition decide_failure :: "retry_input \<Rightarrow> retry_policy_config \<Rightarrow> retry_decision" where
  \<comment> \<open>the last part of \<open>decide_retry\<close>, from the attempt limit on\<close>
  "decide_failure inp policy =
     (if rp_max_attempts policy \<le> ri_attempt_count inp then EscalateRetry ''retry attempts exhausted''
      else let next_attempt = saturating_add (ri_attempt_count inp) 1
           in (case ri_failure_kind inp of
                 Transient \<Rightarrow>
                   RetryLater next_attempt (retry_delay_ms (ri_attempt_count inp) policy) (rp_jitter_ms policy)
                     ''transient failure''
               | Interrupted \<Rightarrow> RetryNow next_attempt ''interrupted run''
               | Deterministic \<Rightarrow> FailTerminal ''deterministic failure''
               | PermissionDenied \<Rightarrow> EscalateRetry ''permission denied''
               | UnknownFailure \<Rightarrow> EscalateRetry ''unknown failure kind''))"

definition decide_policy :: "retry_input \<Rightarrow> retry_policy_config \<Rightarrow> retry_decision" where
  \<comment> \<open>the part of \<open>decide_retry\<close> that runs without an operator override\<close>
  "decide_policy inp policy =
     (if \<not> rp_enabled policy then NoRetryAction ''retry policy is disabled''
      else if rp_max_attempts policy = 0 \<or> ri_attempt_count inp = 0
      then EscalateRetry ''retry policy or attempt count is invalid''
      else if ri_permission_state inp = Some Denied then EscalateRetry ''permission denied''
      else if ri_permission_state inp = Some PermissionPending then NoRetryAction ''permission decision is pending''
      else if ri_review_status inp = Some NeedsOperator
      then EscalateRetry ''review state requires operator attention''
      else decide_failure inp policy)"

definition decide_retry :: "retry_input \<Rightarrow> retry_policy_config \<Rightarrow> retry_decision" where
  "decide_retry inp policy =
     (if is_terminal (ri_task_status inp) then NoRetryAction ''task is terminal''
      else let live = (case ri_operator_override inp of
                         Some ov \<Rightarrow> decide_operator_override inp policy ov
                       | None \<Rightarrow> decide_policy inp policy)
           in (case ri_run_status inp of
                 RunCompleted \<Rightarrow> NoRetryAction ''run is terminal and not retryable''
               | RunAbandoned \<Rightarrow> NoRetryAction ''run is terminal and not retryable''
               | RunRetryQueued \<Rightarrow> NoRetryAction ''run is already queued for retry''
               | RunCreated \<Rightarrow> EscalateRetry ''failure observed for unclaimed run''
               | RunReleased \<Rightarrow> EscalateRetry ''failure observed for unclaimed run''
               | RunClaimed \<Rightarrow> live
               | RunRunning \<Rightarrow> live
               | RunFailed \<Rightarrow> live))"

subsection \<open>Properties of retries\<close>

lemma unat_multiplier: "k < 64 \<Longrightarrow> unat (2 ^ k :: 64 word) = 2 ^ k"
proof -
  assume k: "k < 64"
  then have "(2 :: nat) ^ k < 2 ^ 64" by (rule power_strict_increasing) simp
  then have "unat (of_nat (2 ^ k) :: 64 word) = 2 ^ k"
    using k unfolding unsigned_of_nat by (simp add: take_bit_nat_eq_self)
  then show ?thesis by simp
qed

lemma unat_min: "unat (min a b) = min (unat a) (unat b)" for a b :: "'a::len word"
  by (simp add: min_def word_le_nat_alt)

lemma unat_retry_delay:
  "unat (retry_delay_ms a policy) =
     min (min (2 ^ 64 - 1) (unat (rp_base_delay_ms policy) * 2 ^ min (unat a - 1) 31)) (unat (rp_max_delay_ms policy))"
  by (simp add: retry_delay_ms_def Let_def unat_min unat_saturating_mul unat_saturating_sub unat_multiplier)

text \<open>The retry delay is the exponential back-off, computed without wrap-around: the base
  delay doubled for every earlier attempt (31 times at most), capped by the configured maximum.
  It never decreases from one attempt to the next.\<close>

theorem retry_delay_exponential:
  "unat (retry_delay_ms a policy) =
     min (unat (rp_base_delay_ms policy) * 2 ^ min (unat a - 1) 31) (unat (rp_max_delay_ms policy)) \<and>
   retry_delay_ms a policy \<le> retry_delay_ms (saturating_add a 1) policy"
proof -
  have "unat (rp_max_delay_ms policy) \<le> 2 ^ 64 - 1"
    using unsigned_less [where 'a = nat and w = "rp_max_delay_ms policy"] by simp
  then have exact: "unat (retry_delay_ms b policy) =
      min (unat (rp_base_delay_ms policy) * 2 ^ min (unat b - 1) 31) (unat (rp_max_delay_ms policy))" for b
    unfolding unat_retry_delay by linarith
  have "min (unat a - 1) 31 \<le> min (unat (saturating_add a 1) - 1) (31 :: nat)"
    using unsigned_less [where 'a = nat and w = a] by (simp add: unat_saturating_add min_le_iff_disj)
  then have "(2 :: nat) ^ min (unat a - 1) 31 \<le> 2 ^ min (unat (saturating_add a 1) - 1) 31"
    by (rule power_increasing) simp
  then have "unat (rp_base_delay_ms policy) * 2 ^ min (unat a - 1) 31 \<le>
      unat (rp_base_delay_ms policy) * 2 ^ min (unat (saturating_add a 1) - 1) 31"
    by (rule mult_le_mono2)
  then show ?thesis
    unfolding word_le_nat_alt exact by (intro conjI refl min.mono order_refl)
qed

definition next_attempt_of :: "retry_decision \<Rightarrow> 32 word option" where
  "next_attempt_of d = (case d of RetryNow n _ \<Rightarrow> Some n | RetryLater n _ _ _ \<Rightarrow> Some n | _ \<Rightarrow> None)"

lemmas retry_defs = decide_retry_def decide_policy_def decide_failure_def decide_operator_override_def Let_def

lemma decide_failure_retries:
  "next_attempt_of (decide_failure inp policy) = Some n \<longleftrightarrow>
     ri_attempt_count inp < rp_max_attempts policy \<and> n = saturating_add (ri_attempt_count inp) 1 \<and>
     (ri_failure_kind inp = Transient \<or> ri_failure_kind inp = Interrupted)"
  by (cases "ri_failure_kind inp") (auto simp: decide_failure_def next_attempt_of_def Let_def)

lemma decide_policy_retries:
  "next_attempt_of (decide_policy inp policy) = Some n \<longleftrightarrow>
     rp_enabled policy \<and> rp_max_attempts policy \<noteq> 0 \<and> ri_attempt_count inp \<noteq> 0 \<and>
     ri_permission_state inp \<notin> {Some Denied, Some PermissionPending} \<and> ri_review_status inp \<noteq> Some NeedsOperator \<and>
     next_attempt_of (decide_failure inp policy) = Some n"
  by (simp add: decide_policy_def next_attempt_of_def [of "NoRetryAction _"] next_attempt_of_def [of "EscalateRetry _"])

lemma decide_retry_automatic:
  assumes "ri_operator_override inp = None"
  shows "next_attempt_of (decide_retry inp policy) = Some n \<longleftrightarrow>
    \<not> is_terminal (ri_task_status inp) \<and> ri_run_status inp \<in> {RunClaimed, RunRunning, RunFailed} \<and>
    next_attempt_of (decide_policy inp policy) = Some n"
  using assms
  by (cases "ri_run_status inp")
    (simp_all add: decide_retry_def next_attempt_of_def [of "NoRetryAction _"] next_attempt_of_def [of "EscalateRetry _"])

text \<open>Without an operator override a run is retried exactly when its task is open, the run was
  claimed, running or failed, the policy is enabled and valid, attempts remain, permission and
  review do not stand in the way, and the failure was transient or an interruption; the next
  attempt is the current one plus one.\<close>

theorem automatic_retry_iff:
  assumes "ri_operator_override inp = None"
  shows "next_attempt_of (decide_retry inp policy) = Some n \<longleftrightarrow>
    ri_task_status inp \<noteq> Merged \<and> ri_run_status inp \<in> {RunClaimed, RunRunning, RunFailed} \<and>
    rp_enabled policy \<and> 0 < ri_attempt_count inp \<and> ri_attempt_count inp < rp_max_attempts policy \<and>
    ri_permission_state inp \<notin> {Some Denied, Some PermissionPending} \<and> ri_review_status inp \<noteq> Some NeedsOperator \<and>
    ri_failure_kind inp \<in> {Transient, Interrupted} \<and> n = ri_attempt_count inp + 1"
proof -
  have step: "saturating_add a 1 = a + 1" if "a < rp_max_attempts policy" for a :: "32 word"
    using that unsigned_less [where 'a = nat and w = "rp_max_attempts policy"] by (simp add: saturating_add_def word_less_nat_alt)
  show ?thesis
    unfolding decide_retry_automatic [OF assms] decide_policy_retries decide_failure_retries
    using step [of "ri_attempt_count inp"] by (auto simp: is_terminal_def word_neq_0_conv)
qed

definition demo_retry :: retry_input where
  "demo_retry = \<lparr>ri_run_status = RunFailed, ri_failure_kind = Transient, ri_attempt_count = 1,
     ri_task_status = InProgress, ri_review_status = None, ri_permission_state = None, ri_operator_override = None\<rparr>"

theorem automatic_retry_iff_witness: "next_attempt_of (decide_retry demo_retry default_retry_policy) = Some 2"
  by (subst automatic_retry_iff) (simp_all add: demo_retry_def default_retry_policy_def word_less_nat_alt)

text \<open>
  A chain of automatic retries: each failure observed at the attempt that the previous decision
  started.
\<close>

inductive retry_chain :: "retry_policy_config \<Rightarrow> 32 word \<Rightarrow> nat \<Rightarrow> 32 word \<Rightarrow> bool" for policy where
  chain_nil: "retry_chain policy a 0 a"
| chain_step: "ri_operator_override inp = None \<Longrightarrow> ri_attempt_count inp = a \<Longrightarrow>
    next_attempt_of (decide_retry inp policy) = Some b \<Longrightarrow> retry_chain policy b k c \<Longrightarrow> retry_chain policy a (Suc k) c"

lemma automatic_retry_step:
  assumes "ri_operator_override inp = None" and "next_attempt_of (decide_retry inp policy) = Some b"
  shows "unat b = unat (ri_attempt_count inp) + 1 \<and> unat b \<le> unat (rp_max_attempts policy)"
  using assms(2) unsigned_less [where 'a = nat and w = "rp_max_attempts policy"]
  unfolding decide_retry_automatic [OF assms(1)] decide_policy_retries decide_failure_retries
  by (auto simp: word_less_nat_alt unat_saturating_add)

lemma retry_chain_counts: "retry_chain policy a k c \<Longrightarrow> unat c = unat a + k"
  by (induction rule: retry_chain.induct) (auto dest: automatic_retry_step)

lemma retry_chain_limit: "retry_chain policy a k c \<Longrightarrow> k = 0 \<or> unat c \<le> unat (rp_max_attempts policy)"
proof (induction rule: retry_chain.induct)
  case (chain_step inp a b k c)
  then show ?case using automatic_retry_step [of inp policy b] retry_chain_counts [of policy b k c] by auto
qed simp

text \<open>C35: Automatic retries end: starting from the first attempt, no sequence of failures is
  retried more often than the configured number of attempts allows, and the attempt counter
  never exceeds that number.\<close>

theorem automatic_retries_bounded:
  assumes "retry_chain policy 1 k c" and "0 < k"
  shows "k < unat (rp_max_attempts policy) \<and> unat c \<le> unat (rp_max_attempts policy)"
  using retry_chain_counts [OF assms(1)] retry_chain_limit [OF assms(1)] assms(2) by auto

theorem automatic_retries_bounded_witness:
  "retry_chain default_retry_policy 1 1 2 \<and> (1 :: nat) < unat (rp_max_attempts default_retry_policy)"
proof -
  have "next_attempt_of (decide_retry demo_retry default_retry_policy) = Some 2"
    unfolding decide_retry_def decide_policy_def decide_failure_def next_attempt_of_def demo_retry_def default_retry_policy_def
    by (simp add: is_terminal_def Let_def saturating_add_def word_le_nat_alt)
  then have "retry_chain default_retry_policy 1 (Suc 0) 2"
    by (intro chain_step [OF _ _ _ chain_nil, of demo_retry]) (simp_all add: demo_retry_def)
  then show ?thesis using automatic_retries_bounded [of default_retry_policy "Suc 0" 2] by simp
qed

subsection \<open>Continuation\<close>

datatype continuation_session_health = Healthy | Unhealthy | UnknownHealth | MissingSession

datatype continuation_review_state = ContNotInReview | ContWaitingForReview | ContApproved | ContChangesRequested

record continuation_policy_config =
  cp_enabled :: bool
  cp_max_turns_per_run :: "32 word"
  cp_idle_prompt_after_secs :: "64 word"

definition default_continuation_policy :: continuation_policy_config where
  "default_continuation_policy =
     \<lparr>cp_enabled = True, cp_max_turns_per_run = 5, cp_idle_prompt_after_secs = 300\<rparr>"

record continuation_input =
  ci_task_status :: task_status
  ci_run_status :: run_status
  ci_session_health :: continuation_session_health
  ci_turn_count :: "32 word"
  ci_run_matches_task :: bool
  ci_session_matches_task :: bool
  ci_review_state :: "continuation_review_state option"
  ci_idle_for_secs :: "64 word"

datatype continuation_decision =
    ContinueNow "32 word" string
  | StopRun string
  | EscalateRun string
  | NoContinuation string

definition decide_turn :: "continuation_input \<Rightarrow> continuation_policy_config \<Rightarrow> continuation_decision" where
  \<comment> \<open>the checks of \<open>decide_continuation\<close> after the run status has been accepted\<close>
  "decide_turn inp policy =
     (case ci_session_health inp of
        Unhealthy \<Rightarrow> EscalateRun ''session is not healthy''
      | MissingSession \<Rightarrow> EscalateRun ''session is not healthy''
      | UnknownHealth \<Rightarrow> NoContinuation ''session health is unknown''
      | Healthy \<Rightarrow>
          if \<not> ci_run_matches_task inp \<or> \<not> ci_session_matches_task inp
          then EscalateRun ''run ownership does not match active task''
          else if cp_max_turns_per_run policy \<le> ci_turn_count inp then StopRun ''continuation turn cap reached''
          else if ci_idle_for_secs inp < cp_idle_prompt_after_secs policy
          then NoContinuation ''run has not been idle long enough''
          else ContinueNow (saturating_add (ci_turn_count inp) 1) ''active run is eligible for continuation'')"

definition decide_continuation :: "continuation_input \<Rightarrow> continuation_policy_config \<Rightarrow> continuation_decision" where
  "decide_continuation inp policy =
     (if \<not> cp_enabled policy then NoContinuation ''continuation policy is disabled''
      else if cp_max_turns_per_run policy = 0 \<or> cp_idle_prompt_after_secs policy = 0
      then EscalateRun ''continuation policy is invalid''
      else if is_terminal (ci_task_status inp) then StopRun ''task is terminal''
      else if ci_task_status inp \<in> {InReview, ChangesRequested, Approved} \<or>
              ci_review_state inp \<in> {Some ContWaitingForReview, Some ContChangesRequested, Some ContApproved}
      then StopRun ''task is in review state''
      else if ci_task_status inp \<notin> {Assigned, InProgress} then NoContinuation ''task is not active''
      else (case ci_run_status inp of
              RunClaimed \<Rightarrow> decide_turn inp policy
            | RunRunning \<Rightarrow> decide_turn inp policy
            | RunCompleted \<Rightarrow> StopRun ''run is terminal''
            | RunFailed \<Rightarrow> StopRun ''run is terminal''
            | RunAbandoned \<Rightarrow> StopRun ''run is terminal''
            | RunRetryQueued \<Rightarrow> NoContinuation ''run is retry queued''
            | RunCreated \<Rightarrow> NoContinuation ''run is not claimed''
            | RunReleased \<Rightarrow> NoContinuation ''run is not claimed''))"

lemma decide_turn_continues:
  "decide_turn inp policy = ContinueNow n why \<Longrightarrow>
     ci_session_health inp = Healthy \<and> ci_run_matches_task inp \<and> ci_session_matches_task inp \<and>
     ci_turn_count inp < cp_max_turns_per_run policy \<and> cp_idle_prompt_after_secs policy \<le> ci_idle_for_secs inp \<and>
     n = saturating_add (ci_turn_count inp) 1"
  by (auto simp: decide_turn_def split: continuation_session_health.splits if_splits)

text \<open>A run gets another prompt only while its task is being worked on and not in review, the run
  holds its claim, the session is healthy and belongs to the task, the run has been idle long
  enough and turns remain; the turn number it is given never exceeds the configured limit.\<close>

theorem continuation_guarded:
  assumes "decide_continuation inp policy = ContinueNow n why"
  shows "cp_enabled policy \<and> ci_task_status inp \<in> {Assigned, InProgress} \<and>
    ci_run_status inp \<in> {RunClaimed, RunRunning} \<and>
    ci_review_state inp \<in> {None, Some ContNotInReview} \<and> ci_session_health inp = Healthy \<and>
    ci_run_matches_task inp \<and> ci_session_matches_task inp \<and>
    cp_idle_prompt_after_secs policy \<le> ci_idle_for_secs inp \<and>
    unat n = unat (ci_turn_count inp) + 1 \<and> n \<le> cp_max_turns_per_run policy"
proof -
  from assms have turn: "decide_turn inp policy = ContinueNow n why" and run: "ci_run_status inp \<in> {RunClaimed, RunRunning}"
    and rest: "cp_enabled policy" "ci_task_status inp \<in> {Assigned, InProgress}"
      "ci_review_state inp \<notin> {Some ContWaitingForReview, Some ContChangesRequested, Some ContApproved}"
    by (auto simp: decide_continuation_def split: if_splits run_status.splits)
  have "ci_review_state inp \<in> {None, Some ContNotInReview}"
    using rest(3) by (cases "ci_review_state inp") (auto intro: continuation_review_state.exhaust)
  with run rest decide_turn_continues [OF turn] unsigned_less [where 'a = nat and w = "cp_max_turns_per_run policy"] show ?thesis
    by (auto simp: word_less_nat_alt word_le_nat_alt unat_saturating_add)
qed

definition demo_continuation :: continuation_input where
  "demo_continuation = \<lparr>ci_task_status = InProgress, ci_run_status = RunRunning, ci_session_health = Healthy,
     ci_turn_count = 4, ci_run_matches_task = True, ci_session_matches_task = True,
     ci_review_state = Some ContNotInReview, ci_idle_for_secs = 300\<rparr>"

theorem continuation_guarded_witness:
  "decide_continuation demo_continuation default_continuation_policy =
     ContinueNow 5 ''active run is eligible for continuation'' \<and>
   (5 :: 32 word) \<le> cp_max_turns_per_run default_continuation_policy"
proof -
  have "decide_continuation demo_continuation default_continuation_policy =
      ContinueNow 5 ''active run is eligible for continuation''"
    by (simp add: decide_continuation_def decide_turn_def demo_continuation_def default_continuation_policy_def
        is_terminal_def saturating_add_def)
  with continuation_guarded [OF this] show ?thesis by simp
qed

end
