(* ===== verification/Orchestrator.thy ===== *)
theory Orchestrator
  imports Dependency_Order Task_Board_Props Assignment Retry_Policy
begin

text \<open>
  \<open>crates/brehon-orchestrator/src/orchestrator.rs\<close>: the orchestrator's state, its event handler,
  the dispatch of ready tasks, the bounds on its collections, the retention sweep and the
  shutdown. What the ports answer (run store, gateway, event store, clock, fresh identifiers)
  is an argument. The calls with an outside effect are returned as a trace, so that theorems
  can speak about what was sent, archived and killed.
\<close>

subsection \<open>Configuration and state\<close>

record retention_config =
  rc_max_events :: "nat option"
  rc_idempotency_ttl_hours :: "nat option"
  rc_max_completed_tasks :: nat
  rc_max_assignment_history :: nat
  rc_max_tasks :: nat
  rc_sweep_interval_secs :: nat

record orchestrator_config =
  oc_worker_config :: worker_pool_config
  oc_reviewer_config :: worker_pool_config
  oc_dispatch_parallelism :: nat
  oc_worktree_isolation :: bool
  oc_branch_prefix :: string
  oc_auto_cleanup_worktrees :: bool
  oc_retention :: retention_config
  oc_retry_policy :: retry_policy_config
  oc_continuation_policy :: continuation_policy_config

definition default_sweep_interval_secs :: nat where
  "default_sweep_interval_secs = 60"

definition default_orchestrator_config :: orchestrator_config where
  "default_orchestrator_config =
     \<lparr>oc_worker_config = default_worker_pool_config,
      oc_reviewer_config = default_worker_pool_config\<lparr>wc_kind := Reviewer\<rparr>,
      oc_dispatch_parallelism = 5, oc_worktree_isolation = True, oc_branch_prefix = ''brehon/'',
      oc_auto_cleanup_worktrees = True,
      oc_retention = \<lparr>rc_max_events = None, rc_idempotency_ttl_hours = None,
        rc_max_completed_tasks = 10000, rc_max_assignment_history = 1000, rc_max_tasks = 10000,
        rc_sweep_interval_secs = default_sweep_interval_secs\<rparr>,
      oc_retry_policy = default_retry_policy, oc_continuation_policy = default_continuation_policy\<rparr>"

record orchestrator =
  or_config :: orchestrator_config
  or_board :: task_board
  or_graph :: dep_graph
  or_pool :: worker_pool
  or_engine :: assignment_engine
  or_running :: bool
  or_last_processed :: "event_id option"
  or_completed :: "task_id list"
  or_last_sweep :: "time option"

definition new_orchestrator :: "orchestrator_config \<Rightarrow> orchestrator" where
  "new_orchestrator c =
     \<lparr>or_config = c,
      or_board = with_max_tasks (rc_max_tasks (oc_retention c)),
      or_graph = new_graph,
      or_pool = new_worker_pool (oc_worker_config c) (rc_max_assignment_history (oc_retention c)),
      or_engine = new_assignment_engine, or_running = False, or_last_processed = None,
      or_completed = [], or_last_sweep = None\<rparr>"

subsection \<open>Event handling\<close>

definition update_board :: "(task_board \<Rightarrow> task_board) \<Rightarrow> orchestrator \<Rightarrow> orchestrator" where
  "update_board f s = s\<lparr>or_board := f (or_board s)\<rparr>"

definition transition_task :: "time \<Rightarrow> task_id \<Rightarrow> transition \<Rightarrow> orchestrator \<Rightarrow> orchestrator" where
  "transition_task now t tr s =
     (case get_task (or_board s) t of
        None \<Rightarrow> s
      | Some e \<Rightarrow>
          (case apply_transition (te_status e) tr of
             Inl _ \<Rightarrow> s
           | Inr new_status \<Rightarrow> update_board (fst \<circ> update_task_status now t new_status) s))"

definition process_event :: "time \<Rightarrow> event \<Rightarrow> orchestrator \<Rightarrow> orchestrator" where
  "process_event now ev s =
     (case ev_kind ev of
        TaskCreated t \<Rightarrow>
          if has_task (or_board s) t then s
          else s\<lparr>or_board := board_add_task (new_task_entry now t [] []) (or_board s),
                 or_graph := add_task t (or_graph s)\<rparr>
      | TaskAssigned t agent \<Rightarrow>
          (case get_task (or_board s) t of
             None \<Rightarrow> s
           | Some _ \<Rightarrow> update_board (fst \<circ> board_assign_task now t agent None) s)
      | TaskCompleted t \<Rightarrow> transition_task now t Complete s
      | AgentDied _ session _ \<Rightarrow>
          (case get_worker_by_session (or_pool s) session of
             None \<Rightarrow> s
           | Some w \<Rightarrow>
               fold (\<lambda>t. update_board (fst \<circ> unassign_task now t)) (engine_worker_death (wi_id w) (or_engine s)) s)
      | MergeCommitted t \<Rightarrow>
          update_board (fst \<circ> update_task_status now t Merged) (s\<lparr>or_completed := hs_insert t (or_completed s)\<rparr>)
      | MergeAborted t _ \<Rightarrow> transition_task now t Assign s
      | _ \<Rightarrow> s)"

text \<open>The first half of a tick: the events after the last processed one, in stream order.\<close>

definition process_stream :: "time \<Rightarrow> (event \<times> event_id) list \<Rightarrow> orchestrator \<Rightarrow> orchestrator" where
  "process_stream now evs s =
     (let s1 = fold (\<lambda>(ev, _). process_event now ev) evs s
      in if evs = [] then s1 else s1\<lparr>or_last_processed := Some (snd (last evs))\<rparr>)"

subsection \<open>Dispatch\<close>

definition is_ready :: "dep_graph \<Rightarrow> task_id \<Rightarrow> task_id list \<Rightarrow> bool" where
  "is_ready g t completed = list_all (\<lambda>d. d \<in> set completed) (get_dependencies g t)"

definition get_unmet_dependencies :: "task_id hash_order \<Rightarrow> dep_graph \<Rightarrow> task_id \<Rightarrow> task_id list" where
  "get_unmet_dependencies h g t = iterate h (get_dependencies g t)"

record dispatch_ports =
  dp_now :: time
  dp_uuid :: "task_id \<Rightarrow> string"
  dp_send :: gateway_send
  dp_runs_for_task :: "(task_id \<Rightarrow> (string, run_record list) result) option"
  dp_git_ops :: bool
  dp_entries :: entry_order
  dp_workers :: worker_order
  dp_deps :: "task_id hash_order"

definition task_has_pending_retry :: "dispatch_ports \<Rightarrow> task_id \<Rightarrow> (orchestrator_error, bool) result" where
  "task_has_pending_retry io t =
     (case dp_runs_for_task io of
        None \<Rightarrow> Inr False
      | Some runs_for_task \<Rightarrow>
          (case runs_for_task t of
             Inl err \<Rightarrow> Inl (PortError err)
           | Inr runs \<Rightarrow> Inr (list_ex (\<lambda>r. rr_status r = RunRetryQueued \<and> \<not> retry_is_due_at r (dp_now io)) runs)))"

definition check_git_available :: "dispatch_ports \<Rightarrow> orchestrator \<Rightarrow> bool" where
  "check_git_available io s \<longleftrightarrow> \<not> oc_worktree_isolation (or_config s) \<or> dp_git_ops io"

text \<open>
  What happens to one assignable task: the loop goes on with the next task, stops, or the whole
  dispatch fails. A prompt that is handed to the gateway is reported by its assignment.
\<close>

datatype loop_control = Continue | Break | Fail orchestrator_error

definition dispatch_one ::
    "dispatch_ports \<Rightarrow> task_entry \<Rightarrow> orchestrator \<Rightarrow> orchestrator \<times> assignment list \<times> loop_control" where
  "dispatch_one io task s =
     (let t = te_id task; now = dp_now io in
      if \<not> is_ready (or_graph s) t (or_completed s)
      then (update_board (fst \<circ> set_blocked now t (get_unmet_dependencies (dp_deps io) (or_graph s) t)) s, [], Continue)
      else if available_count None (or_pool s) = 0 then (s, [], Break)
      else
        case task_has_pending_retry io t of
          Inl err \<Rightarrow> (s, [], Fail err)
        | Inr True \<Rightarrow> (s, [], Continue)
        | Inr False \<Rightarrow>
            if \<not> check_git_available io s then (s, [], Continue)
            else
              (case engine_assign_task (dp_workers io) None now task (or_engine s) (or_pool s) of
                 (e', p', Inl NoAvailableWorkers) \<Rightarrow> (s\<lparr>or_engine := e', or_pool := p'\<rparr>, [], Break)
               | (e', p', Inl err) \<Rightarrow> (s\<lparr>or_engine := e', or_pool := p'\<rparr>, [], Continue)
               | (e', p', Inr a) \<Rightarrow>
                   let s' = s\<lparr>or_engine := e', or_pool := p'\<rparr>
                   in (case dispatch_task (dp_send io) (dp_uuid io t) now a task of
                         Inl _ \<Rightarrow> (update_board (fst \<circ> unassign_task now t) s', [a], Continue)
                       | Inr _ \<Rightarrow>
                           (update_board (fst \<circ> board_assign_task now t (as_worker_id a) (Some (as_session_id a)))
                              (update_board (fst \<circ> update_task_status now t Assigned) s'),
                            [a], Continue))))"

fun dispatch_loop ::
    "dispatch_ports \<Rightarrow> task_entry list \<Rightarrow> orchestrator \<Rightarrow>
      orchestrator \<times> assignment list \<times> (orchestrator_error, unit) result"
where
  "dispatch_loop io [] s = (s, [], Inr ())"
| "dispatch_loop io (task # tasks) s =
     (case dispatch_one io task s of
        (s', sent, Fail err) \<Rightarrow> (s', sent, Inl err)
      | (s', sent, Break) \<Rightarrow> (s', sent, Inr ())
      | (s', sent, Continue) \<Rightarrow>
          (case dispatch_loop io tasks s' of (s'', sent', r) \<Rightarrow> (s'', sent @ sent', r)))"

definition dispatch_ready_tasks ::
    "dispatch_ports \<Rightarrow> orchestrator \<Rightarrow>
      orchestrator \<times> assignment list \<times> (orchestrator_error, unit) result" where
  "dispatch_ready_tasks io s = dispatch_loop io (get_assignable_tasks (dp_entries io) (or_board s)) s"

subsection \<open>Adding tasks\<close>

definition orch_add_task ::
    "task_id hash_order \<Rightarrow> time \<Rightarrow> task_id \<Rightarrow> string \<Rightarrow> string \<Rightarrow> task_id list \<Rightarrow> orchestrator \<Rightarrow> orchestrator" where
  "orch_add_task h now t title description deps s =
     s\<lparr>or_graph := fold (\<lambda>d g. fst (add_dependency h t d g)) deps (or_graph s),
       or_board := board_add_task ((new_task_entry now t title description)\<lparr>te_dependencies := deps\<rparr>) (or_board s)\<rparr>"

definition orch_add_dependency ::
    "task_id hash_order \<Rightarrow> task_id \<Rightarrow> task_id \<Rightarrow> orchestrator \<Rightarrow> orchestrator \<times> (orchestrator_error, unit) result" where
  "orch_add_dependency h t d s =
     (case add_dependency h t d (or_graph s) of (g, r) \<Rightarrow> (s\<lparr>or_graph := g\<rparr>, r))"

subsection \<open>Bounds\<close>

definition apply_bounds :: "task_id hash_order \<Rightarrow> orchestrator \<Rightarrow> orchestrator" where
  "apply_bounds h s =
     (let s1 = update_board (fst \<circ> board_apply_bounds) s;
          max_completed = rc_max_completed_tasks (oc_retention (or_config s));
          completed = or_completed s1
      in if max_completed < length completed
         then let candidates = filter (\<lambda>t. get_dependents (or_graph s1) t = []) (iterate h completed)
              in s1\<lparr>or_completed := fold hs_remove (take (length completed - max_completed) candidates) completed\<rparr>
         else s1)"

subsection \<open>Retention\<close>

datatype retention_call = RetainEvents nat | ExpireKeys nat

record retention_ports =
  rp_now :: time
  rp_high_water :: "(string, nat) result"
  rp_retain_events :: "nat \<Rightarrow> (string, nat) result"
  rp_expire_keys :: "nat \<Rightarrow> (string, nat) result"

definition retain_cutoff :: "nat \<Rightarrow> nat \<Rightarrow> event_id option \<Rightarrow> nat" where
  "retain_cutoff high max_events last_id =
     min (sat_add u64_max (high - max_events) 1)
         (case last_id of None \<Rightarrow> 1 | Some l \<Rightarrow> sat_add u64_max l 1)"

definition sweep_events :: "retention_ports \<Rightarrow> orchestrator \<Rightarrow> retention_call list \<times> bool" where
  \<comment> \<open>the calls made and whether one of them failed\<close>
  "sweep_events io s =
     (case rc_max_events (oc_retention (or_config s)) of
        None \<Rightarrow> ([], False)
      | Some max_events \<Rightarrow>
          (case rp_high_water io of
             Inl _ \<Rightarrow> ([], True)
           | Inr high \<Rightarrow>
               if max_events < high then
                 let before = retain_cutoff high max_events (or_last_processed s)
                 in if 1 < before then ([RetainEvents before], \<not> is_ok (rp_retain_events io before)) else ([], False)
               else ([], False)))"

definition sweep_keys :: "retention_ports \<Rightarrow> orchestrator \<Rightarrow> retention_call list \<times> bool" where
  "sweep_keys io s =
     (case rc_idempotency_ttl_hours (oc_retention (or_config s)) of
        None \<Rightarrow> ([], False)
      | Some hours \<Rightarrow>
          let secs = min u64_max (hours * 3600)
          in ([ExpireKeys secs], \<not> is_ok (rp_expire_keys io secs)))"

definition sweep_retention :: "retention_ports \<Rightarrow> orchestrator \<Rightarrow> orchestrator \<times> retention_call list" where
  "sweep_retention io s =
     (let rc = oc_retention (or_config s) in
      if rc_max_events rc = None \<and> rc_idempotency_ttl_hours rc = None then (s, [])
      else
        let interval = (if rc_sweep_interval_secs rc = 0 then default_sweep_interval_secs else rc_sweep_interval_secs rc)
        in if (case or_last_sweep s of None \<Rightarrow> False | Some t \<Rightarrow> rp_now io - t < int interval) then (s, [])
           else
             (case (sweep_events io s, sweep_keys io s) of
                ((calls1, err1), (calls2, err2)) \<Rightarrow>
                  (if err1 \<or> err2 then s else s\<lparr>or_last_sweep := Some (rp_now io)\<rparr>, calls1 @ calls2)))"

subsection \<open>Shutdown\<close>

definition orch_stop :: "orchestrator \<Rightarrow> orchestrator" where
  "orch_stop s = s\<lparr>or_running := False\<rparr>"

definition orch_shutdown ::
    "(session_id \<Rightarrow> (string, unit) result) \<Rightarrow> worker_order \<Rightarrow> orchestrator \<Rightarrow>
      orchestrator \<times> (orchestrator_error, unit) result" where
  "orch_shutdown kill h s =
     (let s1 = orch_stop s;
          sessions = map wi_session_id (alive_workers h (or_pool s1));
          errors = List.map_filter (\<lambda>x. case kill x of Inl err \<Rightarrow> Some (x @ '': '' @ err) | Inr _ \<Rightarrow> None) sessions;
          killed = filter (\<lambda>x. is_ok (kill x)) sessions;
          s2 = (if killed \<noteq> [] then s1\<lparr>or_pool := mark_workers_dead_by_sessions killed (or_pool s1)\<rparr> else s1)
      in (s2, if errors \<noteq> []
              then Inl (WorkerPoolError (''Failed to kill '' @ show_nat (length errors) @
                     '' worker session(s) during shutdown: '' @ join_with '', '' errors))
              else Inr ()))"

end
