(* ===== verification/Reconciler.thy ===== *)
theory Reconciler
  imports Dependency_Graph Worker_Pool "HOL-Library.Char_ord" "HOL-Library.List_Lexorder"
begin

text \<open>
  \<open>crates/brehon-orchestrator/src/reconciler.rs\<close>: the planner that compares a snapshot of tasks,
  workers and active runs and lists the repairs. It is pure: a plan is built by adding actions
  one by one, in the order of the source, each addition with its own test for duplicates. The
  four structs of run actions have the same fields and are one record.
\<close>

subsection \<open>Configuration and input\<close>

record reconciler_config =
  rk_require_active_worker_runs :: bool
  rk_renew_live_expired_claims :: bool

definition default_reconciler_config :: reconciler_config where
  "default_reconciler_config = \<lparr>rk_require_active_worker_runs = False, rk_renew_live_expired_claims = True\<rparr>"

record worker_snapshot =
  ws_worker_id :: worker_id
  ws_kind :: worker_kind
  ws_session_id :: session_id
  ws_assigned_task :: "task_id option"
  ws_is_alive :: bool

definition from_worker_info :: "worker_info \<Rightarrow> worker_snapshot" where
  "from_worker_info w =
     \<lparr>ws_worker_id = wi_id w, ws_kind = wi_kind w, ws_session_id = wi_session_id w,
      ws_assigned_task = wi_assigned_task w, ws_is_alive = wi_is_alive w\<rparr>"

record reconciliation_input =
  rn_now :: time
  rn_tasks :: "task_entry list"
  rn_workers :: "worker_snapshot list"
  rn_dependencies :: "(task_id, task_id list) hmap"
  rn_git_ops :: "bool option"
  rn_active_runs :: "run_record list"

definition collect_by :: "('a \<Rightarrow> 'k) \<Rightarrow> 'a list \<Rightarrow> ('k, 'a) hmap" where
  \<comment> \<open>collecting an iterator into a hash map: a later entry replaces an earlier one\<close>
  "collect_by key xs = fold (\<lambda>x. hm_insert (key x) x) xs []"

definition from_current_state ::
    "worker_order \<Rightarrow> time \<Rightarrow> task_board \<Rightarrow> worker_pool \<Rightarrow> dep_graph \<Rightarrow> run_record list \<Rightarrow> reconciliation_input" where
  "from_current_state h now board pool graph runs =
     \<lparr>rn_now = now, rn_tasks = all_tasks board,
      rn_workers = map from_worker_info (hm_values h (wp_workers pool)),
      rn_dependencies = hm_map_values (\<lambda>e. sort (get_dependencies graph (te_id e))) (collect_by te_id (all_tasks board)),
      rn_git_ops = None, rn_active_runs = runs\<rparr>"

definition is_worker_owned_status :: "task_status \<Rightarrow> bool" where
  "is_worker_owned_status s \<longleftrightarrow> s = Assigned \<or> s = InProgress \<or> s = ChangesRequested"

definition session_is_alive :: "reconciliation_input \<Rightarrow> session_id \<Rightarrow> bool" where
  "session_is_alive inp s = list_ex (\<lambda>w. ws_is_alive w \<and> ws_session_id w = s) (rn_workers inp)"

definition session_has_active_operation_for_run :: "reconciliation_input \<Rightarrow> run_record \<Rightarrow> bool" where
  "session_has_active_operation_for_run inp r =
     (case rr_session_id r of
        None \<Rightarrow> False
      | Some s \<Rightarrow>
          list_ex (\<lambda>w. ws_is_alive w \<and> ws_session_id w = s \<and> ws_assigned_task w = Some (rr_task_id r)) (rn_workers inp) \<or>
          list_ex (\<lambda>t. te_id t = rr_task_id r \<and> is_worker_owned_status (te_status t) \<and> te_session_id t = Some s) (rn_tasks inp))"

definition worker_by_id :: "reconciliation_input \<Rightarrow> string \<Rightarrow> worker_snapshot option" where
  "worker_by_id inp w = find (\<lambda>x. ws_worker_id x = w) (rn_workers inp)"

definition expected_active_run_role :: "task_status \<Rightarrow> run_role option" where
  "expected_active_run_role s =
     (case s of
        Assigned \<Rightarrow> Some WorkerRole
      | InProgress \<Rightarrow> Some WorkerRole
      | ChangesRequested \<Rightarrow> Some WorkerRole
      | InReview \<Rightarrow> Some ReviewerRole
      | Approved \<Rightarrow> Some IntegrationRole
      | Pending \<Rightarrow> None
      | Blocked \<Rightarrow> None
      | Merged \<Rightarrow> None)"

definition retry_queued_is_actionable :: "run_record \<Rightarrow> time \<Rightarrow> bool" where
  "retry_queued_is_actionable r now \<longleftrightarrow> rr_status r \<noteq> RunRetryQueued \<or> retry_is_due_at r now"

definition task_session_is_stale :: "task_entry \<Rightarrow> worker_snapshot \<Rightarrow> bool" where
  "task_session_is_stale t w = (case te_session_id t of None \<Rightarrow> False | Some s \<Rightarrow> s \<noteq> ws_session_id w)"

subsection \<open>Plans\<close>

datatype task_repair_reason = MissingWorker | DeadWorker | StaleSession | MissingActiveRun

datatype task_update_action = UnassignTask (tu_task_id: task_id) "worker_id option" task_repair_reason

datatype run_repair_reason =
    ExpiredClaim
  | ExpiredRunningClaim
  | ExpiredClaimWithLiveOperation
  | DeadOrMissingSession
  | TerminalTaskHasActiveRun
  | RetryDue

definition run_repair_reason_str :: "run_repair_reason \<Rightarrow> string" where
  "run_repair_reason_str r =
     (case r of
        ExpiredClaim \<Rightarrow> ''expired claim''
      | ExpiredRunningClaim \<Rightarrow> ''expired running claim''
      | ExpiredClaimWithLiveOperation \<Rightarrow> ''expired claim with live operation''
      | DeadOrMissingSession \<Rightarrow> ''dead or missing session''
      | TerminalTaskHasActiveRun \<Rightarrow> ''terminal task has active run''
      | RetryDue \<Rightarrow> ''retry due'')"

record run_action =
  ra_run :: run_record
  ra_observed_at :: time
  ra_reason :: run_repair_reason

datatype worker_cleanup_reason = MissingTask | TerminalTask | TaskAssigneeMismatch | TaskSessionMismatch

datatype worker_cleanup_action =
    HandleWorkerDeath session_id
  | ClearAssignment worker_id worker_cleanup_reason

fun same_target :: "worker_cleanup_action \<Rightarrow> worker_cleanup_action \<Rightarrow> bool" where
  "same_target (HandleWorkerDeath l) (HandleWorkerDeath r) \<longleftrightarrow> l = r"
| "same_target (ClearAssignment l _) (ClearAssignment r _) \<longleftrightarrow> l = r"
| "same_target _ _ \<longleftrightarrow> False"

record reconciliation_escalation =
  es_task_id :: "task_id option"
  es_run_id :: "run_id option"
  es_reason :: string
  es_context :: string

record reconciliation_plan =
  pl_task_updates :: "task_update_action list"
  pl_run_retry_attempts :: "run_action list"
  pl_run_renewals :: "run_action list"
  pl_run_releases :: "run_action list"
  pl_run_failures :: "run_action list"
  pl_worker_cleanup_actions :: "worker_cleanup_action list"
  pl_escalations :: "reconciliation_escalation list"

definition empty_plan :: reconciliation_plan where
  "empty_plan =
     \<lparr>pl_task_updates = [], pl_run_retry_attempts = [], pl_run_renewals = [], pl_run_releases = [],
      pl_run_failures = [], pl_worker_cleanup_actions = [], pl_escalations = []\<rparr>"

definition plan_is_empty :: "reconciliation_plan \<Rightarrow> bool" where
  "plan_is_empty p \<longleftrightarrow>
     pl_task_updates p = [] \<and> pl_run_retry_attempts p = [] \<and> pl_run_renewals p = [] \<and> pl_run_releases p = [] \<and>
     pl_run_failures p = [] \<and> pl_worker_cleanup_actions p = [] \<and> pl_escalations p = []"

definition for_run :: "run_id \<Rightarrow> run_action \<Rightarrow> bool" where
  "for_run r a \<longleftrightarrow> rr_run_id (ra_run a) = r"

definition add_task_update :: "task_update_action \<Rightarrow> reconciliation_plan \<Rightarrow> reconciliation_plan" where
  "add_task_update a p =
     (if list_ex (\<lambda>x. tu_task_id x = tu_task_id a) (pl_task_updates p) then p
      else p\<lparr>pl_task_updates := pl_task_updates p @ [a]\<rparr>)"

definition has_terminal_run_action :: "run_id \<Rightarrow> reconciliation_plan \<Rightarrow> bool" where
  "has_terminal_run_action r p = list_ex (for_run r) (pl_run_failures p)"

definition add_run_renewal :: "run_action \<Rightarrow> reconciliation_plan \<Rightarrow> reconciliation_plan" where
  "add_run_renewal a p =
     (let r = rr_run_id (ra_run a) in
      if has_terminal_run_action r p then p
      else if list_ex (for_run r) (pl_run_renewals p) then p
      else p\<lparr>pl_run_renewals := pl_run_renewals p @ [a]\<rparr>)"

definition add_run_release :: "run_action \<Rightarrow> reconciliation_plan \<Rightarrow> reconciliation_plan" where
  "add_run_release a p =
     (let r = rr_run_id (ra_run a) in
      if has_terminal_run_action r p then p
      else if list_ex (for_run r) (pl_run_releases p) then p
      else p\<lparr>pl_run_releases := pl_run_releases p @ [a]\<rparr>)"

definition add_run_failure :: "run_action \<Rightarrow> reconciliation_plan \<Rightarrow> reconciliation_plan" where
  "add_run_failure a p =
     (let r = rr_run_id (ra_run a) in
      if list_ex (for_run r) (pl_run_failures p) then p
      else p\<lparr>pl_run_releases := filter (\<lambda>x. \<not> for_run r x) (pl_run_releases p),
             pl_run_retry_attempts := filter (\<lambda>x. \<not> for_run r x) (pl_run_retry_attempts p),
             pl_run_failures := pl_run_failures p @ [a]\<rparr>)"

definition add_run_retry_attempt :: "run_action \<Rightarrow> reconciliation_plan \<Rightarrow> reconciliation_plan" where
  "add_run_retry_attempt a p =
     (let r = rr_run_id (ra_run a) in
      if has_terminal_run_action r p then p
      else if list_ex (for_run r) (pl_run_retry_attempts p) then p
      else p\<lparr>pl_run_retry_attempts := pl_run_retry_attempts p @ [a]\<rparr>)"

definition add_worker_cleanup :: "worker_cleanup_action \<Rightarrow> reconciliation_plan \<Rightarrow> reconciliation_plan" where
  "add_worker_cleanup a p =
     (if list_ex (\<lambda>x. same_target x a) (pl_worker_cleanup_actions p) then p
      else p\<lparr>pl_worker_cleanup_actions := pl_worker_cleanup_actions p @ [a]\<rparr>)"

definition add_escalation :: "reconciliation_escalation \<Rightarrow> reconciliation_plan \<Rightarrow> reconciliation_plan" where
  "add_escalation e p =
     (if list_ex (\<lambda>x. es_task_id x = es_task_id e \<and> es_run_id x = es_run_id e \<and> es_reason x = es_reason e) (pl_escalations p)
      then p else p\<lparr>pl_escalations := pl_escalations p @ [e]\<rparr>)"

subsection \<open>Retry-queued runs, dead workers, claims\<close>

definition reconcile_retry_queued_runs :: "reconciliation_input \<Rightarrow> reconciliation_plan \<Rightarrow> reconciliation_plan" where
  "reconcile_retry_queued_runs inp p =
     fold (\<lambda>r p. if retry_is_due_at r (rn_now inp)
                 then add_run_retry_attempt \<lparr>ra_run = r, ra_observed_at = rn_now inp, ra_reason = RetryDue\<rparr> p else p)
       (filter (\<lambda>r. rr_status r = RunRetryQueued) (rn_active_runs inp)) p"

definition repair_task :: "(worker_id, worker_snapshot) hmap \<Rightarrow> task_entry \<Rightarrow> reconciliation_plan \<Rightarrow> reconciliation_plan" where
  "repair_task workers t p =
     (if \<not> is_worker_owned_status (te_status t) then p
      else (case te_assignee t of
              None \<Rightarrow> p
            | Some w \<Rightarrow>
                (case hm_get workers w of
                   None \<Rightarrow> add_task_update (UnassignTask (te_id t) None MissingWorker) p
                 | Some i \<Rightarrow>
                     if \<not> ws_is_alive i then add_task_update (UnassignTask (te_id t) (Some w) DeadWorker) p
                     else if task_session_is_stale t i
                     then add_worker_cleanup (ClearAssignment w TaskSessionMismatch)
                            (add_task_update (UnassignTask (te_id t) (Some w) StaleSession) p)
                     else p)))"

definition clear_reason :: "(task_id, task_entry) hmap \<Rightarrow> worker_snapshot \<Rightarrow> worker_cleanup_reason option" where
  "clear_reason tasks w =
     (case ws_assigned_task w of
        None \<Rightarrow> None
      | Some t \<Rightarrow>
          (case hm_get tasks t of
             None \<Rightarrow> Some MissingTask
           | Some e \<Rightarrow>
               if is_terminal (te_status e) then Some TerminalTask
               else if te_assignee e \<noteq> Some (ws_worker_id w) then Some TaskAssigneeMismatch
               else None))"

definition reconcile_dead_workers :: "reconciliation_input \<Rightarrow> reconciliation_plan \<Rightarrow> reconciliation_plan" where
  "reconcile_dead_workers inp p =
     (let workers_by_id = collect_by ws_worker_id (rn_workers inp);
          tasks_by_id = collect_by te_id (rn_tasks inp);
          p1 = fold (\<lambda>w. add_worker_cleanup (HandleWorkerDeath (ws_session_id w)))
                 (filter (\<lambda>w. \<not> ws_is_alive w) (rn_workers inp)) p;
          p2 = fold (repair_task workers_by_id) (rn_tasks inp) p1
      in fold (\<lambda>w p. case clear_reason tasks_by_id w of
                       None \<Rightarrow> p
                     | Some reason \<Rightarrow> add_worker_cleanup (ClearAssignment (ws_worker_id w) reason) p)
           (rn_workers inp) p2)"

definition reconcile_claim :: "reconciler_config \<Rightarrow> reconciliation_input \<Rightarrow> run_record \<Rightarrow> reconciliation_plan \<Rightarrow> reconciliation_plan" where
  "reconcile_claim cfg inp r p =
     (let now = rn_now inp;
          expired = claim_is_expired_at r now;
          session_alive = (case rr_session_id r of None \<Rightarrow> False | Some s \<Rightarrow> session_is_alive inp s);
          active_operation = (session_alive \<and> session_has_active_operation_for_run inp r)
      in if expired \<and> active_operation \<and> rk_renew_live_expired_claims cfg
         then add_run_renewal \<lparr>ra_run = r, ra_observed_at = now, ra_reason = ExpiredClaimWithLiveOperation\<rparr> p
         else if expired \<or> \<not> session_alive
         then (case rr_status r of
                 RunClaimed \<Rightarrow>
                   add_run_release \<lparr>ra_run = r, ra_observed_at = now,
                     ra_reason = (if expired then ExpiredClaim else DeadOrMissingSession)\<rparr> p
               | RunRunning \<Rightarrow>
                   add_run_failure \<lparr>ra_run = r, ra_observed_at = now,
                     ra_reason = (if expired then ExpiredRunningClaim else DeadOrMissingSession)\<rparr> p
               | _ \<Rightarrow> p)
         else p)"

definition reconcile_claims :: "reconciler_config \<Rightarrow> reconciliation_input \<Rightarrow> reconciliation_plan \<Rightarrow> reconciliation_plan" where
  "reconcile_claims cfg inp p =
     fold (reconcile_claim cfg inp) (filter (\<lambda>r. run_has_active_claim (rr_status r)) (rn_active_runs inp)) p"

subsection \<open>Mismatches between tasks, runs and workers\<close>

definition group_runs :: "run_record list \<Rightarrow> (task_id, run_record list) hmap" where
  \<comment> \<open>\<open>entry(task_id).or_default().push(run)\<close> for every run\<close>
  "group_runs runs =
     fold (\<lambda>r m. hm_insert (rr_task_id r) ((case hm_get m (rr_task_id r) of None \<Rightarrow> [] | Some rs \<Rightarrow> rs) @ [r]) m) runs []"

definition debug_char :: "char \<Rightarrow> string" where
  \<comment> \<open>how the \<open>Debug\<close> format of a string shows a printable character and the common escapes\<close>
  "debug_char c =
     (if c = CHR 0x22 then [CHR 0x5C, CHR 0x22]
      else if c = CHR 0x5C then [CHR 0x5C, CHR 0x5C]
      else if c = CHR 0x0A then [CHR 0x5C, CHR ''n'']
      else if c = CHR 0x0D then [CHR 0x5C, CHR ''r'']
      else if c = CHR 0x09 then [CHR 0x5C, CHR ''t'']
      else [c])"

definition debug_option :: "string option \<Rightarrow> string" where
  "debug_option x =
     (case x of None \<Rightarrow> ''None'' | Some s \<Rightarrow> ''Some('' @ [CHR 0x22] @ concat (map debug_char s) @ [CHR 0x22] @ '')'')"

definition role_mismatch :: "task_entry \<Rightarrow> run_record \<Rightarrow> reconciliation_escalation" where
  "role_mismatch t r =
     \<lparr>es_task_id = Some (te_id t), es_run_id = Some (rr_run_id r),
      es_reason = ''run role mismatch for task status'',
      es_context = ''task '' @ te_id t @ '' is '' @ task_status_debug (te_status t) @ ''; active run '' @ rr_run_id r @
        '' has role '' @ run_role_str (rr_role r)\<rparr>"

definition session_mismatch :: "task_entry \<Rightarrow> session_id \<Rightarrow> run_record \<Rightarrow> session_id \<Rightarrow> reconciliation_escalation" where
  "session_mismatch t task_session r run_session =
     \<lparr>es_task_id = Some (te_id t), es_run_id = Some (rr_run_id r),
      es_reason = ''task session mismatch with active run'',
      es_context = ''task '' @ te_id t @ '' session '' @ task_session @ '' differs from run '' @ rr_run_id r @
        '' session '' @ run_session\<rparr>"

definition escalate_worker_pool_mismatch :: "reconciliation_input \<Rightarrow> task_entry \<Rightarrow> reconciliation_plan \<Rightarrow> reconciliation_plan" where
  "escalate_worker_pool_mismatch inp t p =
     (case te_assignee t of
        None \<Rightarrow>
          add_escalation
            \<lparr>es_task_id = Some (te_id t), es_run_id = None, es_reason = ''worker-owned task has no assignee'',
             es_context = ''task '' @ te_id t @ '' is '' @ task_status_debug (te_status t)\<rparr> p
      | Some assignee \<Rightarrow>
          (case worker_by_id inp assignee of
             None \<Rightarrow> p
           | Some w \<Rightarrow>
               if \<not> ws_is_alive w then p
               else if ws_assigned_task w \<noteq> Some (te_id t)
               then add_escalation
                      \<lparr>es_task_id = Some (te_id t), es_run_id = None, es_reason = ''worker pool assignment mismatch'',
                       es_context = ''task '' @ te_id t @ '' is assigned to worker '' @ ws_worker_id w @
                         '', but worker assignment is '' @ debug_option (ws_assigned_task w)\<rparr> p
               else p))"

definition escalate_roles :: "task_entry \<Rightarrow> run_record list \<Rightarrow> reconciliation_plan \<Rightarrow> reconciliation_plan" where
  "escalate_roles t runs p =
     (case expected_active_run_role (te_status t) of
        None \<Rightarrow> p
      | Some expected \<Rightarrow> fold (\<lambda>r. add_escalation (role_mismatch t r)) (filter (\<lambda>r. rr_role r \<noteq> expected) runs) p)"

definition escalate_sessions :: "task_entry \<Rightarrow> run_record list \<Rightarrow> reconciliation_plan \<Rightarrow> reconciliation_plan" where
  "escalate_sessions t runs p =
     (case te_session_id t of
        None \<Rightarrow> p
      | Some task_session \<Rightarrow>
          fold (\<lambda>r p. case rr_session_id r of
                        None \<Rightarrow> p
                      | Some run_session \<Rightarrow>
                          if run_session \<noteq> task_session then add_escalation (session_mismatch t task_session r run_session) p else p)
            (filter (\<lambda>r. rr_role r = WorkerRole) runs) p)"

definition reconcile_task_runs ::
    "reconciler_config \<Rightarrow> reconciliation_input \<Rightarrow> (task_id, run_record list) hmap \<Rightarrow> task_entry \<Rightarrow>
      reconciliation_plan \<Rightarrow> reconciliation_plan" where
  "reconcile_task_runs cfg inp runs_by_task t p =
     (let task_runs = (case hm_get runs_by_task (te_id t) of None \<Rightarrow> [] | Some rs \<Rightarrow> rs) in
      if is_terminal (te_status t)
      then fold (\<lambda>r. add_run_failure \<lparr>ra_run = r, ra_observed_at = rn_now inp, ra_reason = TerminalTaskHasActiveRun\<rparr>) task_runs p
      else
        let p1 = (if rk_require_active_worker_runs cfg \<and> is_worker_owned_status (te_status t) \<and> te_assignee t \<noteq> None \<and>
                     \<not> list_ex (\<lambda>r. rr_role r = WorkerRole) task_runs
                  then add_task_update (UnassignTask (te_id t) (te_assignee t) MissingActiveRun) p else p);
            p2 = escalate_roles t task_runs p1;
            p3 = escalate_sessions t task_runs p2
        in if is_worker_owned_status (te_status t) then escalate_worker_pool_mismatch inp t p3 else p3)"

definition reconcile_task_run_mismatches :: "reconciler_config \<Rightarrow> reconciliation_input \<Rightarrow> reconciliation_plan \<Rightarrow> reconciliation_plan" where
  "reconcile_task_run_mismatches cfg inp p =
     (let runs_by_task = group_runs (filter (\<lambda>r. run_is_active r \<and> retry_queued_is_actionable r (rn_now inp)) (rn_active_runs inp))
      in fold (reconcile_task_runs cfg inp runs_by_task) (rn_tasks inp) p)"

definition reconcile :: "reconciler_config \<Rightarrow> reconciliation_input \<Rightarrow> reconciliation_plan" where
  "reconcile cfg inp =
     reconcile_task_run_mismatches cfg inp
       (reconcile_claims cfg inp (reconcile_dead_workers inp (reconcile_retry_queued_runs inp empty_plan)))"

subsection \<open>Events of a plan\<close>

definition escalation_event :: "reconciliation_escalation \<Rightarrow> time \<Rightarrow> event" where
  "escalation_event e now =
     \<lparr>ev_kind = EscalationTriggered (es_reason e) (es_context e), ev_timestamp = now,
      ev_aggregate_id = (case es_task_id e of Some t \<Rightarrow> t | None \<Rightarrow> (case es_run_id e of Some r \<Rightarrow> r | None \<Rightarrow> ''reconciler''))\<rparr>"

definition run_event :: "run_record \<Rightarrow> time \<Rightarrow> event_kind \<Rightarrow> event" where
  \<comment> \<open>every run event belongs to the run's task\<close>
  "run_event r now k = \<lparr>ev_kind = k, ev_timestamp = now, ev_aggregate_id = rr_task_id r\<rparr>"

definition events_for_plan :: "reconciliation_plan \<Rightarrow> time \<Rightarrow> event list" where
  "events_for_plan p now =
     List.map_filter (\<lambda>a. map_option (\<lambda>owner. run_event (ra_run a) now
         (RunClaimRenewedEvent (rr_run_id (ra_run a)) (rr_task_id (ra_run a)) (rr_role (ra_run a)) owner
            (rr_claim_generation (ra_run a))
            (case rr_lease_expires_at (ra_run a) of None \<Rightarrow> ra_observed_at a | Some e \<Rightarrow> e))) (rr_claim_owner (ra_run a)))
       (pl_run_renewals p) @
     map (\<lambda>a. run_event (ra_run a) now
         (RunReleasedEvent (rr_run_id (ra_run a)) (rr_task_id (ra_run a)) (rr_role (ra_run a))
            (rr_claim_generation (ra_run a)) (Some (run_repair_reason_str (ra_reason a))) (ra_observed_at a)))
       (pl_run_releases p) @
     map (\<lambda>a. run_event (ra_run a) now
         (RunFailedEvent (rr_run_id (ra_run a)) (rr_task_id (ra_run a)) (rr_role (ra_run a))
            (rr_claim_generation (ra_run a)) (run_repair_reason_str (ra_reason a)) (ra_observed_at a)))
       (pl_run_failures p) @
     map (\<lambda>e. escalation_event e now) (pl_escalations p)"

definition stale_run_mutation_rejected_event :: "run_record \<Rightarrow> claim_generation \<Rightarrow> string \<Rightarrow> time \<Rightarrow> event" where
  "stale_run_mutation_rejected_event r attempted mutation now =
     run_event r now
       (StaleRunMutationRejected (rr_run_id r) (rr_task_id r) (rr_role r) attempted (rr_claim_generation r) mutation)"

end
