(* ===== verification/Run_Store.thy ===== *)
theory Run_Store
  imports Runs Lease_Queue
begin

text \<open>
  \<open>crates/brehon-store-fjall/src/run_store.rs\<close> over the requests of \<open>brehon-ports/src/run_store.rs\<close>
  and the keys of \<open>keys.rs\<close>: durable run records with their indexes, claims fenced by a
  generation, and retries. As in \<open>Lease_Queue\<close> the embedded database and the JSON codec are an
  argument (\<open>run_env\<close>). Every operation holds the mutation lock for its whole duration, and
  reads the wall clock (\<open>utc\<close>, in milliseconds) at one moment.
\<close>

subsection \<open>Keys\<close>

definition replace_char :: "char \<Rightarrow> string \<Rightarrow> string \<Rightarrow> string" where
  "replace_char c t s = concat (map (\<lambda>x. if x = c then t else [x]) s)"

definition key_escape :: "string \<Rightarrow> string" where
  "key_escape s = replace_char (CHR '':'') ''%3A'' (replace_char (CHR ''%'') ''%25'' s)"

definition run_record_key :: "run_id \<Rightarrow> string" where
  "run_record_key r = ''run:'' @ key_escape r"

definition run_task_index_prefix :: "task_id \<Rightarrow> string" where
  "run_task_index_prefix t = ''index:run:task:'' @ key_escape t @ '':''"

definition run_task_index_key :: "task_id \<Rightarrow> run_id \<Rightarrow> string" where
  "run_task_index_key t r = ''index:run:task:'' @ key_escape t @ '':'' @ key_escape r"

definition run_session_index_key :: "session_id \<Rightarrow> run_id \<Rightarrow> string" where
  "run_session_index_key s r = ''index:run:session:'' @ key_escape s @ '':'' @ key_escape r"

definition run_owner_index_key :: "claim_owner \<Rightarrow> run_id \<Rightarrow> string" where
  "run_owner_index_key c r = ''index:run:owner:'' @ key_escape c @ '':'' @ key_escape r"

definition run_active_role_index_key :: "string \<Rightarrow> run_id \<Rightarrow> string" where
  "run_active_role_index_key role r = ''index:run:active-role:'' @ key_escape role @ '':'' @ key_escape r"

definition run_active_task_role_key :: "task_id \<Rightarrow> string \<Rightarrow> string" where
  "run_active_task_role_key t role = ''index:run:active-task-role:'' @ key_escape t @ '':'' @ key_escape role"

subsection \<open>Errors and requests\<close>

datatype run_store_error =
    DuplicateActiveClaim task_id run_role run_id
  | StaleGeneration run_id claim_generation claim_generation
  | InvalidStatusTransition run_id run_status run_status
  | LeaseExpired run_id claim_generation
  | RetryNotDue run_id time time
  | RunNotFound run_id
  | RunStorage string
  | RunSerialization string

record claim_request =
  cr_run_id :: run_id
  cr_owner :: claim_owner
  cr_session_id :: "session_id option"
  cr_claimed_at :: time
  cr_lease_expires_at :: time

record claim_release =
  cl_run_id :: run_id
  cl_generation :: claim_generation
  cl_released_at :: time
  cl_reason :: "string option"

record run_completion =
  rc_run_id :: run_id
  rc_generation :: claim_generation
  rc_completed_at :: time
  rc_summary :: "string option"

record run_continuation =
  rt_run_id :: run_id
  rt_generation :: claim_generation
  rt_continued_at :: time
  rt_turn :: "32 word"

record run_failure =
  rf_run_id :: run_id
  rf_generation :: claim_generation
  rf_failed_at :: time
  rf_reason :: string

record run_retry =
  ry_run_id :: run_id
  ry_generation :: claim_generation
  ry_queued_at :: time
  ry_retry_at :: time
  ry_reason :: string

record retry_attempt_request =
  rq_queued_run_id :: run_id
  rq_generation :: claim_generation
  rq_new_run_id :: run_id
  rq_created_at :: time

record retry_attempt_started =
  rs_queued_run :: run_record
  rs_retry_run :: run_record

subsection \<open>The database and the codec\<close>

record 'db run_env =
  re_get :: "'db \<Rightarrow> string \<Rightarrow> (string, string option) result"
  re_prefix :: "'db \<Rightarrow> string \<Rightarrow> (string, string \<times> string) result list"
  re_remove :: "string \<Rightarrow> 'db \<Rightarrow> (string, 'db) result"
  re_commit :: "batch_op list \<Rightarrow> 'db \<Rightarrow> (string, 'db) result"
  re_encode :: "run_record \<Rightarrow> (string, string) result"
  re_decode :: "string \<Rightarrow> (string, run_record) result"

type_synonym ('db, 'a) run_result = "'db \<times> (run_store_error, 'a) result"

text \<open>
  What the store relies on: a read returns the committed value or fails, a batch is applied in
  order and as a whole or not at all, a prefix scan lists entries with that prefix, all of
  them unless it fails, and decoding undoes encoding.
\<close>

definition run_env_ok :: "'db run_env \<Rightarrow> ('db \<Rightarrow> string \<rightharpoonup> string) \<Rightarrow> bool" where
  "run_env_ok env view \<longleftrightarrow>
     (\<forall>db k v. re_get env db k = Inr v \<longrightarrow> v = view db k) \<and>
     (\<forall>db k db'. re_remove env k db = Inr db' \<longrightarrow> view db' = (view db)(k := None)) \<and>
     (\<forall>db ops db'. re_commit env ops db = Inr db' \<longrightarrow> view db' = apply_batch ops (view db)) \<and>
     (\<forall>db p k v. Inr (k, v) \<in> set (re_prefix env db p) \<longrightarrow> view db k = Some v \<and> starts_with k p) \<and>
     (\<forall>db p. list_all is_ok (re_prefix env db p) \<longrightarrow>
        distinct (re_prefix env db p) \<and>
        (\<forall>k v. view db k = Some v \<and> starts_with k p \<longrightarrow> Inr (k, v) \<in> set (re_prefix env db p))) \<and>
     (\<forall>r b. re_encode env r = Inr b \<longrightarrow> re_decode env b = Inr r)"

subsection \<open>Records and indexes\<close>

definition get_run_locked :: "'db run_env \<Rightarrow> 'db \<Rightarrow> run_id \<Rightarrow> (run_store_error, run_record option) result" where
  "get_run_locked env db r =
     (case re_get env db (run_record_key r) of
        Inl e \<Rightarrow> Inl (RunStorage e)
      | Inr None \<Rightarrow> Inr None
      | Inr (Some bytes) \<Rightarrow>
          (case re_decode env bytes of Inl e \<Rightarrow> Inl (RunSerialization e) | Inr rec \<Rightarrow> Inr (Some rec)))"

definition active_task_role_marker :: "run_record \<Rightarrow> string" where
  "active_task_role_marker r = run_active_task_role_key (rr_task_id r) (run_role_str (rr_role r))"

definition record_index_keys :: "run_record \<Rightarrow> string list" where
  "record_index_keys r =
     [run_task_index_key (rr_task_id r) (rr_run_id r)] @
     (case rr_session_id r of None \<Rightarrow> [] | Some s \<Rightarrow> [run_session_index_key s (rr_run_id r)]) @
     (case rr_claim_owner r of None \<Rightarrow> [] | Some c \<Rightarrow> [run_owner_index_key c (rr_run_id r)]) @
     (if run_is_active r
      then [run_active_role_index_key (run_role_str (rr_role r)) (rr_run_id r),
            run_active_task_role_key (rr_task_id r) (run_role_str (rr_role r))]
      else [])"

definition remove_record_indexes :: "run_record \<Rightarrow> batch_op list" where
  "remove_record_indexes r = map BatchRemove (record_index_keys r)"

definition insert_record_indexes :: "run_record \<Rightarrow> batch_op list" where
  "insert_record_indexes r =
     map (\<lambda>k. BatchInsert k (if k = active_task_role_marker r then rr_run_id r else [])) (record_index_keys r)"

definition commit_record :: "'db run_env \<Rightarrow> run_record option \<Rightarrow> run_record \<Rightarrow> 'db \<Rightarrow> ('db, run_record) run_result" where
  "commit_record env previous r db =
     (case re_encode env r of
        Inl e \<Rightarrow> (db, Inl (RunSerialization e))
      | Inr bytes \<Rightarrow>
          (case re_commit env
             ((case previous of None \<Rightarrow> [] | Some p \<Rightarrow> remove_record_indexes p) @
              [BatchInsert (run_record_key (rr_run_id r)) bytes] @ insert_record_indexes r) db of
             Inl e \<Rightarrow> (db, Inl (RunStorage e))
           | Inr db' \<Rightarrow> (db', Inr r)))"

definition remove_marker :: "'db run_env \<Rightarrow> string \<Rightarrow> 'db \<Rightarrow> ('db, run_id option) run_result" where
  "remove_marker env marker db =
     (case re_remove env marker db of Inl e \<Rightarrow> (db, Inl (RunStorage e)) | Inr db' \<Rightarrow> (db', Inr None))"

definition find_active_duplicate :: "'db run_env \<Rightarrow> run_record \<Rightarrow> 'db \<Rightarrow> ('db, run_id option) run_result" where
  "find_active_duplicate env r db =
     (let marker = active_task_role_marker r in
      case re_get env db marker of
        Inl e \<Rightarrow> (db, Inl (RunStorage e))
      | Inr None \<Rightarrow> (db, Inr None)
      | Inr (Some existing_id) \<Rightarrow>
          if existing_id = rr_run_id r then (db, Inr None)
          else (case get_run_locked env db existing_id of
                  Inl e \<Rightarrow> (db, Inl e)
                | Inr None \<Rightarrow> remove_marker env marker db
                | Inr (Some existing) \<Rightarrow>
                    if run_is_active existing then (db, Inr (Some existing_id)) else remove_marker env marker db))"

definition load_required :: "'db run_env \<Rightarrow> 'db \<Rightarrow> run_id \<Rightarrow> (run_store_error, run_record) result" where
  "load_required env db r =
     (case get_run_locked env db r of
        Inl e \<Rightarrow> Inl e | Inr None \<Rightarrow> Inl (RunNotFound r) | Inr (Some rec) \<Rightarrow> Inr rec)"

definition ensure_generation :: "run_record \<Rightarrow> claim_generation \<Rightarrow> (run_store_error, unit) result" where
  "ensure_generation r supplied =
     (if rr_claim_generation r = supplied then Inr ()
      else Inl (StaleGeneration (rr_run_id r) (rr_claim_generation r) supplied))"

definition ensure_unexpired :: "time \<Rightarrow> run_record \<Rightarrow> (run_store_error, unit) result" where
  "ensure_unexpired utc r =
     (if run_has_active_claim (rr_status r) \<and> claim_is_expired_at r utc
      then Inl (LeaseExpired (rr_run_id r) (rr_claim_generation r)) else Inr ())"

definition can_claim :: "time \<Rightarrow> run_record \<Rightarrow> bool" where
  "can_claim utc r \<longleftrightarrow>
     rr_status r = RunCreated \<or> rr_status r = RunReleased \<or>
     rr_status r = RunRetryQueued \<and> retry_is_due_at r utc \<or>
     run_has_active_claim (rr_status r) \<and> claim_is_expired_at r utc"

definition clear_claim :: "run_record \<Rightarrow> run_record" where
  "clear_claim r =
     r\<lparr>rr_claim_owner := None, rr_session_id := None, rr_lease_expires_at := None, rr_claimed_at := None\<rparr>"

subsection \<open>Operations\<close>

definition create_run :: "'db run_env \<Rightarrow> run_record \<Rightarrow> 'db \<Rightarrow> ('db, run_record) run_result" where
  "create_run env r db =
     (case get_run_locked env db (rr_run_id r) of
        Inl e \<Rightarrow> (db, Inl e)
      | Inr (Some _) \<Rightarrow> (db, Inl (InvalidStatusTransition (rr_run_id r) (rr_status r) (rr_status r)))
      | Inr None \<Rightarrow>
          let r' = r\<lparr>rr_updated_at := rr_created_at r\<rparr> in
          if run_is_active r
          then (case find_active_duplicate env r db of
                  (db1, Inl e) \<Rightarrow> (db1, Inl e)
                | (db1, Inr (Some existing)) \<Rightarrow> (db1, Inl (DuplicateActiveClaim (rr_task_id r) (rr_role r) existing))
                | (db1, Inr None) \<Rightarrow> commit_record env None r' db1)
          else commit_record env None r' db)"

definition claimed :: "claim_request \<Rightarrow> run_record \<Rightarrow> run_record" where
  "claimed req r =
     r\<lparr>rr_status := RunClaimed, rr_claim_generation := next_generation (rr_claim_generation r),
       rr_claim_owner := Some (cr_owner req), rr_session_id := cr_session_id req,
       rr_lease_expires_at := Some (cr_lease_expires_at req), rr_claimed_at := Some (cr_claimed_at req),
       rr_updated_at := cr_claimed_at req, rr_released_at := None, rr_release_reason := None\<rparr>"

definition claim_run :: "'db run_env \<Rightarrow> time \<Rightarrow> claim_request \<Rightarrow> 'db \<Rightarrow> ('db, run_record) run_result" where
  "claim_run env utc req db =
     (case load_required env db (cr_run_id req) of
        Inl e \<Rightarrow> (db, Inl e)
      | Inr r \<Rightarrow>
          if rr_status r = RunRetryQueued \<and> \<not> retry_is_due_at r (cr_claimed_at req)
          then (db, Inl (RetryNotDue (rr_run_id r)
                  (case rr_retry_at r of None \<Rightarrow> cr_claimed_at req | Some t \<Rightarrow> t) (cr_claimed_at req)))
          else if \<not> can_claim utc r
          then (db, Inl (if run_has_active_claim (rr_status r)
                         then DuplicateActiveClaim (rr_task_id r) (rr_role r) (rr_run_id r)
                         else InvalidStatusTransition (rr_run_id r) (rr_status r) RunClaimed))
          else commit_record env (Some r) (claimed req r) db)"

text \<open>
  The common part of the operations of a claim holder: load the record, compare generations,
  require an active and unexpired claim, then store the changed record.
\<close>

definition with_current_claim ::
    "'db run_env \<Rightarrow> time \<Rightarrow> run_id \<Rightarrow> claim_generation \<Rightarrow> (run_record \<Rightarrow> run_status) \<Rightarrow>
      (run_record \<Rightarrow> (run_store_error, run_record) result) \<Rightarrow> 'db \<Rightarrow> ('db, run_record) run_result" where
  "with_current_claim env utc rid gen target change db =
     (case load_required env db rid of
        Inl e \<Rightarrow> (db, Inl e)
      | Inr r \<Rightarrow>
          (case ensure_generation r gen of
             Inl e \<Rightarrow> (db, Inl e)
           | Inr _ \<Rightarrow>
               if \<not> run_has_active_claim (rr_status r)
               then (db, Inl (InvalidStatusTransition (rr_run_id r) (rr_status r) (target r)))
               else (case ensure_unexpired utc r of
                       Inl e \<Rightarrow> (db, Inl e)
                     | Inr _ \<Rightarrow>
                         (case change r of
                            Inl e \<Rightarrow> (db, Inl e)
                          | Inr r' \<Rightarrow> commit_record env (Some r) r' db))))"

definition default_renewal_seconds :: int where
  "default_renewal_seconds = 60"

definition run_renew_claim :: "'db run_env \<Rightarrow> time \<Rightarrow> run_id \<Rightarrow> claim_generation \<Rightarrow> 'db \<Rightarrow> ('db, run_record) run_result" where
  "run_renew_claim env utc rid gen db =
     with_current_claim env utc rid gen (\<lambda>_. RunClaimed)
       (\<lambda>r. Inr (r\<lparr>rr_lease_expires_at := Some (utc + default_renewal_seconds * 1000), rr_updated_at := utc\<rparr>)) db"

definition release_claim :: "'db run_env \<Rightarrow> time \<Rightarrow> claim_release \<Rightarrow> 'db \<Rightarrow> ('db, run_record) run_result" where
  "release_claim env utc req db =
     with_current_claim env utc (cl_run_id req) (cl_generation req) (\<lambda>_. RunReleased)
       (\<lambda>r. Inr ((clear_claim (r\<lparr>rr_status := RunReleased\<rparr>))
          \<lparr>rr_released_at := Some (cl_released_at req), rr_release_reason := cl_reason req,
           rr_updated_at := cl_released_at req\<rparr>)) db"

definition complete_run :: "'db run_env \<Rightarrow> time \<Rightarrow> run_completion \<Rightarrow> 'db \<Rightarrow> ('db, run_record) run_result" where
  "complete_run env utc req db =
     with_current_claim env utc (rc_run_id req) (rc_generation req) (\<lambda>_. RunCompleted)
       (\<lambda>r. Inr ((clear_claim (r\<lparr>rr_status := RunCompleted\<rparr>))
          \<lparr>rr_completed_at := Some (rc_completed_at req), rr_completion_summary := rc_summary req,
           rr_updated_at := rc_completed_at req\<rparr>)) db"

definition fail_run :: "'db run_env \<Rightarrow> time \<Rightarrow> run_failure \<Rightarrow> 'db \<Rightarrow> ('db, run_record) run_result" where
  "fail_run env utc req db =
     with_current_claim env utc (rf_run_id req) (rf_generation req) (\<lambda>_. RunFailed)
       (\<lambda>r. Inr ((clear_claim (r\<lparr>rr_status := RunFailed\<rparr>))
          \<lparr>rr_failed_at := Some (rf_failed_at req), rr_failure_reason := Some (rf_reason req),
           rr_updated_at := rf_failed_at req\<rparr>)) db"

definition record_continuation :: "'db run_env \<Rightarrow> time \<Rightarrow> run_continuation \<Rightarrow> 'db \<Rightarrow> ('db, run_record) run_result" where
  "record_continuation env utc req db =
     with_current_claim env utc (rt_run_id req) (rt_generation req) rr_status
       (\<lambda>r. if rt_turn req \<noteq> saturating_add (rr_continuation_turns r) 1
            then Inl (InvalidStatusTransition (rr_run_id r) (rr_status r) (rr_status r))
            else Inr (r\<lparr>rr_continuation_turns := rt_turn req, rr_last_continuation_at := Some (rt_continued_at req),
                        rr_last_activity_at := Some (rt_continued_at req), rr_updated_at := rt_continued_at req\<rparr>)) db"

definition queue_retry :: "'db run_env \<Rightarrow> time \<Rightarrow> run_retry \<Rightarrow> 'db \<Rightarrow> ('db, run_record) run_result" where
  "queue_retry env utc req db =
     with_current_claim env utc (ry_run_id req) (ry_generation req) (\<lambda>_. RunRetryQueued)
       (\<lambda>r. Inr ((clear_claim (r\<lparr>rr_status := RunRetryQueued\<rparr>))
          \<lparr>rr_failed_at := Some (ry_queued_at req), rr_failure_reason := Some (ry_reason req),
           rr_retry_queued_at := Some (ry_queued_at req), rr_retry_at := Some (ry_retry_at req),
           rr_retry_reason := Some (ry_reason req), rr_updated_at := ry_queued_at req\<rparr>)) db"

definition closed_retry :: "retry_attempt_request \<Rightarrow> run_record \<Rightarrow> run_record" where
  "closed_retry req r =
     r\<lparr>rr_status := RunFailed, rr_updated_at := rq_created_at req,
       rr_failed_at := Some (case rr_failed_at r of None \<Rightarrow> rq_created_at req | Some t \<Rightarrow> t)\<rparr>"

definition next_attempt :: "retry_attempt_request \<Rightarrow> run_record \<Rightarrow> run_record" where
  "next_attempt req r =
     (new_run_record (rq_new_run_id req) (rr_task_id r) (rr_role r) (rq_created_at req))
       \<lparr>rr_attempt := saturating_add (rr_attempt r) 1\<rparr>"

definition commit_retry_attempt ::
    "'db run_env \<Rightarrow> retry_attempt_request \<Rightarrow> run_record \<Rightarrow> 'db \<Rightarrow> ('db, retry_attempt_started) run_result" where
  "commit_retry_attempt env req previous db =
     (let queued = closed_retry req previous; retry_run = next_attempt req previous in
      case re_encode env queued of
        Inl e \<Rightarrow> (db, Inl (RunSerialization e))
      | Inr b1 \<Rightarrow>
          (case re_encode env retry_run of
             Inl e \<Rightarrow> (db, Inl (RunSerialization e))
           | Inr b2 \<Rightarrow>
               (case re_commit env
                  (remove_record_indexes previous @
                   [BatchInsert (run_record_key (rr_run_id queued)) b1] @ insert_record_indexes queued @
                   [BatchInsert (run_record_key (rr_run_id retry_run)) b2] @ insert_record_indexes retry_run) db of
                  Inl e \<Rightarrow> (db, Inl (RunStorage e))
                | Inr db' \<Rightarrow> (db', Inr \<lparr>rs_queued_run = queued, rs_retry_run = retry_run\<rparr>))))"

definition start_retry_attempt ::
    "'db run_env \<Rightarrow> retry_attempt_request \<Rightarrow> 'db \<Rightarrow> ('db, retry_attempt_started) run_result" where
  "start_retry_attempt env req db =
     (case load_required env db (rq_queued_run_id req) of
        Inl e \<Rightarrow> (db, Inl e)
      | Inr r \<Rightarrow>
          (case ensure_generation r (rq_generation req) of
             Inl e \<Rightarrow> (db, Inl e)
           | Inr _ \<Rightarrow>
               if rr_status r \<noteq> RunRetryQueued
               then (db, Inl (InvalidStatusTransition (rr_run_id r) (rr_status r) RunCreated))
               else if (case rr_retry_at r of None \<Rightarrow> False | Some t \<Rightarrow> rq_created_at req < t)
               then (db, Inl (RetryNotDue (rr_run_id r) (the (rr_retry_at r)) (rq_created_at req)))
               else (case get_run_locked env db (rq_new_run_id req) of
                       Inl e \<Rightarrow> (db, Inl e)
                     | Inr (Some _) \<Rightarrow> (db, Inl (InvalidStatusTransition (rq_new_run_id req) RunCreated RunCreated))
                     | Inr None \<Rightarrow>
                         (case find_active_duplicate env (next_attempt req r) db of
                            (db1, Inl e) \<Rightarrow> (db1, Inl e)
                          | (db1, Inr existing) \<Rightarrow>
                              (case existing of
                                 Some x \<Rightarrow>
                                   if x \<noteq> rr_run_id r
                                   then (db1, Inl (DuplicateActiveClaim (rr_task_id r) (rr_role r) x))
                                   else commit_retry_attempt env req r db1
                               | None \<Rightarrow> commit_retry_attempt env req r db1)))))"

definition get_run :: "'db run_env \<Rightarrow> 'db \<Rightarrow> run_id \<Rightarrow> (run_store_error, run_record option) result" where
  "get_run env db r = get_run_locked env db r"

text \<open>The run identifier is read back from the part of an index key after its last colon.\<close>

fun load_indexed ::
    "'db run_env \<Rightarrow> (run_record \<Rightarrow> bool) \<Rightarrow> 'db \<Rightarrow> (string, string \<times> string) result list \<Rightarrow> (run_store_error, run_record list) result" where
  "load_indexed env keep db [] = Inr []"
| "load_indexed env keep db (Inl e # items) = Inl (RunStorage e)"
| "load_indexed env keep db (Inr (k, v) # items) =
     (case get_run_locked env db (last (split_on (CHR '':'') k)) of
        Inl e \<Rightarrow> Inl e
      | Inr found \<Rightarrow>
          (case load_indexed env keep db items of
             Inl e \<Rightarrow> Inl e
           | Inr rs \<Rightarrow> Inr (case found of None \<Rightarrow> rs | Some r \<Rightarrow> if keep r then r # rs else rs)))"

definition active_runs :: "'db run_env \<Rightarrow> 'db \<Rightarrow> (run_store_error, run_record list) result" where
  "active_runs env db =
     map_sum id (sort_key rr_run_id) (load_indexed env run_is_active db (re_prefix env db ''index:run:active-role:''))"

definition runs_for_task :: "'db run_env \<Rightarrow> 'db \<Rightarrow> task_id \<Rightarrow> (run_store_error, run_record list) result" where
  "runs_for_task env db t =
     map_sum id (sort_key rr_run_id) (load_indexed env (\<lambda>_. True) db (re_prefix env db (run_task_index_prefix t)))"

end
