(* ===== verification/Reconciliation.thy ===== *)
theory Reconciliation
  imports Orchestrator Reconciler Run_Store
begin

text \<open>
  \<open>crates/brehon-orchestrator/src/orchestrator_reconciliation.rs\<close>: applying a reconciliation plan to
  the orchestrator and the run store. The \<open>RunStore\<close> trait of \<open>brehon-ports\<close> is a record of
  functions on a store state of any type; \<open>Run_Store\<close> is one instance. Events are collected while
  the run actions are applied and appended to the event store at the end, so they are lost when
  an action fails.
\<close>

subsection \<open>The run store port\<close>

record 'rs run_store_port =
  sp_active_runs :: "'rs \<Rightarrow> (run_store_error, run_record list) result"
  sp_get_run :: "run_id \<Rightarrow> 'rs \<Rightarrow> (run_store_error, run_record option) result"
  sp_claim_run :: "claim_request \<Rightarrow> 'rs \<Rightarrow> ('rs, run_record) run_result"
  sp_renew_claim :: "run_id \<Rightarrow> claim_generation \<Rightarrow> 'rs \<Rightarrow> ('rs, run_record) run_result"
  sp_release_claim :: "claim_release \<Rightarrow> 'rs \<Rightarrow> ('rs, run_record) run_result"
  sp_fail_run :: "run_failure \<Rightarrow> 'rs \<Rightarrow> ('rs, run_record) run_result"
  sp_queue_retry :: "run_retry \<Rightarrow> 'rs \<Rightarrow> ('rs, run_record) run_result"
  sp_start_retry_attempt :: "retry_attempt_request \<Rightarrow> 'rs \<Rightarrow> ('rs, retry_attempt_started) run_result"
  sp_record_continuation :: "run_continuation \<Rightarrow> 'rs \<Rightarrow> ('rs, run_record) run_result"
  sp_error_text :: "run_store_error \<Rightarrow> string" \<comment> \<open>the \<open>Display\<close> text of an error\<close>

definition map_run_store_error :: "'rs run_store_port \<Rightarrow> run_store_error \<Rightarrow> orchestrator_error" where
  "map_run_store_error port e =
     (case e of
        RunStorage m \<Rightarrow> StorageError m
      | RunSerialization m \<Rightarrow> StorageError m
      | _ \<Rightarrow> PortError (sp_error_text port e))"

definition reconciler_owner :: claim_owner where
  "reconciler_owner = ''brehon-reconciler''"

definition repair_lease_seconds :: int where
  "repair_lease_seconds = 60"

subsection \<open>Events\<close>

definition or_now :: "time option \<Rightarrow> time \<Rightarrow> time" where
  "or_now t now = (case t of None \<Rightarrow> now | Some x \<Rightarrow> x)"

definition event_owner :: "run_record \<Rightarrow> claim_owner" where
  "event_owner r = (case rr_claim_owner r of None \<Rightarrow> reconciler_owner | Some c \<Rightarrow> c)"

definition run_claimed_event :: "run_record \<Rightarrow> time \<Rightarrow> event" where
  "run_claimed_event r now =
     run_event r now (RunClaimedEvent (rr_run_id r) (rr_task_id r) (rr_role r) (event_owner r) (rr_session_id r)
       (rr_claim_generation r) (or_now (rr_lease_expires_at r) now))"

definition run_claim_renewed_event :: "run_record \<Rightarrow> time \<Rightarrow> event" where
  "run_claim_renewed_event r now =
     run_event r now (RunClaimRenewedEvent (rr_run_id r) (rr_task_id r) (rr_role r) (event_owner r)
       (rr_claim_generation r) (or_now (rr_lease_expires_at r) now))"

definition run_created_event :: "run_record \<Rightarrow> time \<Rightarrow> event" where
  "run_created_event r now = run_event r now (RunCreatedEvent (rr_run_id r) (rr_task_id r) (rr_role r) (rr_status r))"

definition run_released_event :: "run_record \<Rightarrow> string option \<Rightarrow> time \<Rightarrow> event" where
  "run_released_event r reason now =
     run_event r now (RunReleasedEvent (rr_run_id r) (rr_task_id r) (rr_role r) (rr_claim_generation r) reason now)"

definition run_failed_event :: "run_record \<Rightarrow> string \<Rightarrow> time \<Rightarrow> event" where
  "run_failed_event r reason now =
     run_event r now (RunFailedEvent (rr_run_id r) (rr_task_id r) (rr_role r) (rr_claim_generation r) reason now)"

definition run_retry_queued_event :: "run_record \<Rightarrow> string \<Rightarrow> time \<Rightarrow> event" where
  "run_retry_queued_event r reason now =
     run_event r now (RunRetryQueuedEvent (rr_run_id r) (rr_task_id r) (rr_role r) (rr_claim_generation r) reason
       (or_now (rr_retry_queued_at r) now) (rr_retry_at r))"

definition run_context :: "run_record \<Rightarrow> string" where
  "run_context r =
     ''run '' @ rr_run_id r @ '' task '' @ rr_task_id r @ '' role '' @ run_role_str (rr_role r) @ '' attempt '' @
     show_nat (unat (rr_attempt r)) @ '' status '' @ run_status_str (rr_status r)"

definition retry_escalation_event :: "run_action \<Rightarrow> string \<Rightarrow> time \<Rightarrow> event" where
  "retry_escalation_event a reason now =
     run_event (ra_run a) now (EscalationTriggered (''retry decision escalated: '' @ reason) (run_context (ra_run a)))"

definition retry_attempt_run_id :: "run_record \<Rightarrow> run_id" where
  "retry_attempt_run_id r = rr_run_id r @ ''-retry-'' @ show_nat (unat (saturating_add (rr_attempt r) 1))"

subsection \<open>Applying run actions\<close>

text \<open>
  A repair changes the store, pushes events and returns a value or an error; \<open>and_then\<close> is the
  sequence with the early return of \<open>?\<close>.
\<close>

type_synonym ('rs, 'a) repair = "'rs \<times> event list \<Rightarrow> ('rs \<times> event list) \<times> (orchestrator_error, 'a) result"

definition and_then :: "('rs, 'a) repair \<Rightarrow> ('a \<Rightarrow> ('rs, 'b) repair) \<Rightarrow> ('rs, 'b) repair" where
  "and_then m f st = (case m st of (st', Inl e) \<Rightarrow> (st', Inl e) | (st', Inr a) \<Rightarrow> f a st')"

definition finish :: "'a \<Rightarrow> ('rs, 'a) repair" where
  "finish a st = (st, Inr a)"

definition push_event :: "event \<Rightarrow> ('rs, unit) repair" where
  "push_event ev st = ((fst st, snd st @ [ev]), Inr ())"

definition store_call :: "('rs \<Rightarrow> ('rs, 'a) run_result) \<Rightarrow> ('rs, (run_store_error, 'a) result) repair" where
  \<comment> \<open>a call whose error is inspected by the caller\<close>
  "store_call f st = (case f (fst st) of (rs', res) \<Rightarrow> ((rs', snd st), Inr res))"

definition required :: "'rs run_store_port \<Rightarrow> (run_store_error, 'a) result \<Rightarrow> ('rs, 'a) repair" where
  \<comment> \<open>\<open>.map_err(map_run_store_error)?\<close>\<close>
  "required port res st = (st, case res of Inl e \<Rightarrow> Inl (map_run_store_error port e) | Inr a \<Rightarrow> Inr a)"

definition claim_run_for_repair ::
    "'rs run_store_port \<Rightarrow> run_record \<Rightarrow> claim_owner \<Rightarrow> session_id option \<Rightarrow> time \<Rightarrow> ('rs, run_record) repair" where
  "claim_run_for_repair port r owner ses now =
     and_then (store_call (sp_claim_run port
         \<lparr>cr_run_id = rr_run_id r, cr_owner = owner, cr_session_id = ses, cr_claimed_at = now,
          cr_lease_expires_at = now + repair_lease_seconds * 1000\<rparr>)) (\<lambda>res.
     and_then (required port res) (\<lambda>c.
     and_then (push_event (run_claimed_event c now)) (\<lambda>_. finish c)))"

definition handle_run_store_error ::
    "'rs run_store_port \<Rightarrow> run_store_error \<Rightarrow> claim_generation \<Rightarrow> string \<Rightarrow> time \<Rightarrow> ('rs, bool) repair" where
  "handle_run_store_error port e attempted_generation mutation now =
     (case e of
        StaleGeneration rid _ actual \<Rightarrow>
          (let attempted = (if actual = attempted_generation then actual else attempted_generation) in
           and_then (store_call (\<lambda>rs. (rs, sp_get_run port rid rs))) (\<lambda>res.
           and_then (required port res) (\<lambda>found.
             case found of
               None \<Rightarrow> finish False
             | Some r \<Rightarrow>
                 and_then (push_event (stale_run_mutation_rejected_event r attempted mutation now)) (\<lambda>_. finish False))))
      | other \<Rightarrow> (\<lambda>st. (st, Inl (map_run_store_error port other))))"

text \<open>
  The common shape of a repair call: try it on the record; when the store reports an expired
  lease, claim the run and try once more, now insisting; report a stale generation as an event.
\<close>

definition repair_call ::
    "'rs run_store_port \<Rightarrow> (run_record \<Rightarrow> 'rs \<Rightarrow> ('rs, run_record) run_result) \<Rightarrow> (run_record \<Rightarrow> event) \<Rightarrow>
      (run_record \<Rightarrow> ('rs, run_record) repair) \<Rightarrow> string \<Rightarrow> time \<Rightarrow> run_record \<Rightarrow> ('rs, bool) repair" where
  "repair_call port call done_event reclaim mutation now r =
     and_then (store_call (call r)) (\<lambda>res.
       case res of
         Inr updated \<Rightarrow> and_then (push_event (done_event updated)) (\<lambda>_. finish True)
       | Inl (LeaseExpired _ _) \<Rightarrow>
           and_then (reclaim r) (\<lambda>c.
           and_then (store_call (call c)) (\<lambda>res2.
           and_then (required port res2) (\<lambda>updated.
           and_then (push_event (done_event updated)) (\<lambda>_. finish True))))
       | Inl e \<Rightarrow> handle_run_store_error port e (rr_claim_generation r) mutation now)"

definition when_reclaim :: "bool \<Rightarrow> (run_record \<Rightarrow> ('rs, run_record) repair) \<Rightarrow> run_record \<Rightarrow> ('rs, run_record) repair" where
  "when_reclaim b reclaim r = (if b then reclaim r else finish r)"

definition keep_owner :: "'rs run_store_port \<Rightarrow> time \<Rightarrow> run_record \<Rightarrow> ('rs, run_record) repair" where
  "keep_owner port now r =
     claim_run_for_repair port r (case rr_claim_owner r of None \<Rightarrow> reconciler_owner | Some c \<Rightarrow> c) (rr_session_id r) now"

definition take_over :: "'rs run_store_port \<Rightarrow> time \<Rightarrow> run_record \<Rightarrow> ('rs, run_record) repair" where
  "take_over port now r = claim_run_for_repair port r reconciler_owner None now"

definition apply_run_renewal :: "'rs run_store_port \<Rightarrow> time \<Rightarrow> run_action \<Rightarrow> ('rs, bool) repair" where
  "apply_run_renewal port now a =
     and_then (when_reclaim (claim_is_expired_at (ra_run a) now) (keep_owner port now) (ra_run a)) (\<lambda>r.
       repair_call port (\<lambda>r. sp_renew_claim port (rr_run_id r) (rr_claim_generation r))
         (\<lambda>u. run_claim_renewed_event u now) (keep_owner port now) ''renew_claim'' now r)"

definition apply_run_release :: "'rs run_store_port \<Rightarrow> time \<Rightarrow> run_action \<Rightarrow> ('rs, bool) repair" where
  "apply_run_release port now a =
     (let reason = Some (run_repair_reason_str (ra_reason a)) in
      and_then (when_reclaim (claim_is_expired_at (ra_run a) now) (take_over port now) (ra_run a)) (\<lambda>r.
        repair_call port
          (\<lambda>r. sp_release_claim port
             \<lparr>cl_run_id = rr_run_id r, cl_generation = rr_claim_generation r, cl_released_at = now, cl_reason = reason\<rparr>)
          (\<lambda>u. run_released_event u reason now) (take_over port now) ''release_claim'' now r))"

definition apply_run_retry_attempt :: "'rs run_store_port \<Rightarrow> time \<Rightarrow> run_action \<Rightarrow> ('rs, bool) repair" where
  "apply_run_retry_attempt port now a =
     and_then (store_call (sp_start_retry_attempt port
         \<lparr>rq_queued_run_id = rr_run_id (ra_run a), rq_generation = rr_claim_generation (ra_run a),
          rq_new_run_id = retry_attempt_run_id (ra_run a), rq_created_at = now\<rparr>)) (\<lambda>res.
       case res of
         Inr started \<Rightarrow>
           and_then (push_event (run_failed_event (rs_queued_run started)
             (''retry attempt started: '' @ run_repair_reason_str (ra_reason a)) now)) (\<lambda>_.
           and_then (push_event (run_created_event (rs_retry_run started) now)) (\<lambda>_. finish True))
       | Inl e \<Rightarrow> handle_run_store_error port e (rr_claim_generation (ra_run a)) ''start_retry_attempt'' now)"

datatype run_failure_outcome = OutcomeFailed | OutcomeRetryQueued

definition retry_decision_for_failure :: "task_board \<Rightarrow> retry_policy_config \<Rightarrow> run_action \<Rightarrow> retry_decision" where
  "retry_decision_for_failure board policy a =
     decide_retry
       \<lparr>ri_run_status = rr_status (ra_run a),
        ri_failure_kind = (case ra_reason a of
            ExpiredRunningClaim \<Rightarrow> Interrupted
          | DeadOrMissingSession \<Rightarrow> Interrupted
          | ExpiredClaim \<Rightarrow> Deterministic
          | ExpiredClaimWithLiveOperation \<Rightarrow> Deterministic
          | TerminalTaskHasActiveRun \<Rightarrow> Deterministic
          | RetryDue \<Rightarrow> Deterministic),
        ri_attempt_count = rr_attempt (ra_run a),
        ri_task_status = (case get_task board (rr_task_id (ra_run a)) of None \<Rightarrow> Pending | Some t \<Rightarrow> te_status t),
        ri_review_status = None, ri_permission_state = Some NotRequired, ri_operator_override = None\<rparr> policy"

definition needs_claim :: "time \<Rightarrow> run_record \<Rightarrow> bool" where
  "needs_claim now r \<longleftrightarrow> \<not> run_has_active_claim (rr_status r) \<or> claim_is_expired_at r now"

definition outcome_of :: "run_failure_outcome \<Rightarrow> ('rs, bool) repair \<Rightarrow> ('rs, run_failure_outcome option) repair" where
  "outcome_of x m = and_then m (\<lambda>applied. finish (if applied then Some x else None))"

definition queue_run_retry ::
    "'rs run_store_port \<Rightarrow> run_action \<Rightarrow> time \<Rightarrow> time \<Rightarrow> string \<Rightarrow> ('rs, run_failure_outcome option) repair" where
  "queue_run_retry port a queued_at retry_at reason =
     (let retry_reason = run_repair_reason_str (ra_reason a) @ '': '' @ reason in
      and_then (when_reclaim (needs_claim queued_at (ra_run a)) (take_over port queued_at) (ra_run a)) (\<lambda>r.
        outcome_of OutcomeRetryQueued
          (repair_call port
             (\<lambda>r. sp_queue_retry port
                \<lparr>ry_run_id = rr_run_id r, ry_generation = rr_claim_generation r, ry_queued_at = queued_at,
                 ry_retry_at = retry_at, ry_reason = retry_reason\<rparr>)
             (\<lambda>u. run_retry_queued_event u retry_reason queued_at) (take_over port queued_at) ''queue_retry'' queued_at r)))"

definition fail_run_now :: "'rs run_store_port \<Rightarrow> time \<Rightarrow> run_action \<Rightarrow> ('rs, run_failure_outcome option) repair" where
  "fail_run_now port now a =
     (let reason = run_repair_reason_str (ra_reason a) in
      and_then (when_reclaim (needs_claim now (ra_run a)) (take_over port now) (ra_run a)) (\<lambda>r.
        outcome_of OutcomeFailed
          (repair_call port
             (\<lambda>r. sp_fail_run port
                \<lparr>rf_run_id = rr_run_id r, rf_generation = rr_claim_generation r, rf_failed_at = now, rf_reason = reason\<rparr>)
             (\<lambda>u. run_failed_event u reason now) (take_over port now) ''fail_run'' now r)))"

definition apply_run_failure ::
    "'rs run_store_port \<Rightarrow> task_board \<Rightarrow> retry_policy_config \<Rightarrow> time \<Rightarrow> run_action \<Rightarrow> ('rs, run_failure_outcome option) repair" where
  "apply_run_failure port board policy now a =
     (case retry_decision_for_failure board policy a of
        RetryNow _ reason \<Rightarrow> queue_run_retry port a now now reason
      | RetryLater _ delay_ms _ reason \<Rightarrow> queue_run_retry port a now (now + sint delay_ms) reason
      | EscalateRetry reason \<Rightarrow> and_then (push_event (retry_escalation_event a reason now)) (\<lambda>_. fail_run_now port now a)
      | FailTerminal _ \<Rightarrow> fail_run_now port now a
      | NoRetryAction _ \<Rightarrow> fail_run_now port now a)"

record reconciliation_report =
  rep_task_updates :: nat
  rep_run_retry_attempts :: nat
  rep_run_retries_queued :: nat
  rep_run_renewals :: nat
  rep_run_releases :: nat
  rep_run_failures :: nat
  rep_worker_cleanup_actions :: nat
  rep_workers_spawned :: nat
  rep_escalations :: nat
  rep_events_emitted :: nat

definition empty_report :: reconciliation_report where
  "empty_report =
     \<lparr>rep_task_updates = 0, rep_run_retry_attempts = 0, rep_run_retries_queued = 0, rep_run_renewals = 0,
      rep_run_releases = 0, rep_run_failures = 0, rep_worker_cleanup_actions = 0, rep_workers_spawned = 0,
      rep_escalations = 0, rep_events_emitted = 0\<rparr>"

fun for_each :: "('a \<Rightarrow> ('rs, 'b) repair) \<Rightarrow> ('b \<Rightarrow> 'r \<Rightarrow> 'r) \<Rightarrow> 'a list \<Rightarrow> 'r \<Rightarrow> ('rs, 'r) repair" where
  "for_each f tally [] report = finish report"
| "for_each f tally (a # as) report = and_then (f a) (\<lambda>b. for_each f tally as (tally b report))"

definition apply_run_actions ::
    "'rs run_store_port \<Rightarrow> task_board \<Rightarrow> retry_policy_config \<Rightarrow> time \<Rightarrow> reconciliation_plan \<Rightarrow> reconciliation_report \<Rightarrow>
      ('rs, reconciliation_report) repair" where
  "apply_run_actions port board policy now plan report =
     and_then (for_each (apply_run_retry_attempt port now)
         (\<lambda>b rep. if b then rep\<lparr>rep_run_retry_attempts := rep_run_retry_attempts rep + 1\<rparr> else rep) (pl_run_retry_attempts plan) report) (\<lambda>rep1.
     and_then (for_each (apply_run_renewal port now)
         (\<lambda>b rep. if b then rep\<lparr>rep_run_renewals := rep_run_renewals rep + 1\<rparr> else rep) (pl_run_renewals plan) rep1) (\<lambda>rep2.
     and_then (for_each (apply_run_release port now)
         (\<lambda>b rep. if b then rep\<lparr>rep_run_releases := rep_run_releases rep + 1\<rparr> else rep) (pl_run_releases plan) rep2) (\<lambda>rep3.
     for_each (apply_run_failure port board policy now)
         (\<lambda>out rep. case out of
            Some OutcomeFailed \<Rightarrow> rep\<lparr>rep_run_failures := rep_run_failures rep + 1\<rparr>
          | Some OutcomeRetryQueued \<Rightarrow> rep\<lparr>rep_run_retries_queued := rep_run_retries_queued rep + 1\<rparr>
          | None \<Rightarrow> rep) (pl_run_failures plan) rep3)))"

subsection \<open>Applying task updates and worker cleanup\<close>

definition apply_task_updates ::
    "time \<Rightarrow> reconciliation_plan \<Rightarrow> orchestrator \<Rightarrow> reconciliation_report \<Rightarrow> orchestrator \<times> reconciliation_report" where
  "apply_task_updates now plan s report =
     fold (\<lambda>a (s, rep).
             case unassign_task now (tu_task_id a) (or_board s) of
               (b, Inr _) \<Rightarrow> (s\<lparr>or_board := b\<rparr>, rep\<lparr>rep_task_updates := rep_task_updates rep + 1\<rparr>)
             | (b, Inl _) \<Rightarrow> (s\<lparr>or_board := b\<rparr>, rep))
       (pl_task_updates plan) (s, report)"

definition orch_spawn_worker :: "gateway_spawn \<Rightarrow> time \<Rightarrow> worker_spawn_plan \<Rightarrow> orchestrator \<Rightarrow> orchestrator \<times> worker_id option" where
  \<comment> \<open>\<open>Orchestrator::spawn_worker_from_plan\<close>: a failed spawn is only logged\<close>
  "orch_spawn_worker gw now plan s =
     (case gw (sp_spec plan) of
        Inl _ \<Rightarrow> (s, None)
      | Inr ses \<Rightarrow> (case record_spawned_worker now plan ses (or_pool s) of (p, w) \<Rightarrow> (s\<lparr>or_pool := p\<rparr>, Some w)))"

fun spawn_plans :: "gateway_spawn \<Rightarrow> time \<Rightarrow> worker_spawn_plan list \<Rightarrow> orchestrator \<Rightarrow> orchestrator \<times> worker_id list" where
  "spawn_plans gw now [] s = (s, [])"
| "spawn_plans gw now (plan # plans) s =
     (case orch_spawn_worker gw now plan s of
        (s1, w) \<Rightarrow> (case spawn_plans gw now plans s1 of (s2, ws) \<Rightarrow> (s2, (case w of None \<Rightarrow> ws | Some x \<Rightarrow> x # ws))))"

definition spawn_workers_to_min :: "gateway_spawn \<Rightarrow> time \<Rightarrow> orchestrator \<Rightarrow> orchestrator \<times> worker_id list" where
  "spawn_workers_to_min gw now s = spawn_plans gw now (plan_spawn_to_min (or_pool s)) s"

definition apply_cleanup ::
    "gateway_spawn \<Rightarrow> time \<Rightarrow> worker_cleanup_action \<Rightarrow> orchestrator \<times> reconciliation_report \<Rightarrow> orchestrator \<times> reconciliation_report" where
  "apply_cleanup gw now a sr =
     (case sr of (s, rep) \<Rightarrow>
        let counted = rep\<lparr>rep_worker_cleanup_actions := rep_worker_cleanup_actions rep + 1\<rparr> in
        (case a of
           ClearAssignment w _ \<Rightarrow>
             (case clear_assignment w (or_pool s) of
                (p, Inr _) \<Rightarrow> (s\<lparr>or_pool := p\<rparr>, counted)
              | (p, Inl _) \<Rightarrow> (s\<lparr>or_pool := p\<rparr>, rep))
         | HandleWorkerDeath ses \<Rightarrow>
             (case reconcile_worker_death ses (or_pool s) of
                (p, None) \<Rightarrow> (s\<lparr>or_pool := p\<rparr>, counted)
              | (p, Some plan) \<Rightarrow>
                  (case orch_spawn_worker gw now plan (s\<lparr>or_pool := p\<rparr>) of
                     (s', None) \<Rightarrow> (s', counted)
                   | (s', Some _) \<Rightarrow> (s', counted\<lparr>rep_workers_spawned := rep_workers_spawned rep + 1\<rparr>)))))"

definition apply_worker_cleanup_actions ::
    "gateway_spawn \<Rightarrow> time \<Rightarrow> reconciliation_plan \<Rightarrow> orchestrator \<Rightarrow> reconciliation_report \<Rightarrow> orchestrator \<times> reconciliation_report" where
  "apply_worker_cleanup_actions gw now plan s report = fold (apply_cleanup gw now) (pl_worker_cleanup_actions plan) (s, report)"

subsection \<open>A reconciliation pass\<close>

fun append_events :: "(event \<Rightarrow> (orchestrator_error, unit) result) \<Rightarrow> event list \<Rightarrow> event list \<times> (orchestrator_error, nat) result" where
  \<comment> \<open>the appended events and how many there were, or the first failure\<close>
  "append_events add [] = ([], Inr 0)"
| "append_events add (ev # evs) =
     (case add ev of
        Inl e \<Rightarrow> ([], Inl e)
      | Inr _ \<Rightarrow> (case append_events add evs of (out, r) \<Rightarrow> (ev # out, map_sum id Suc r)))"

record reconcile_ports =
  rx_now :: time
  rx_spawn :: gateway_spawn
  rx_workers :: worker_order
  rx_append :: "event \<Rightarrow> (orchestrator_error, unit) result"

definition append_escalation_events ::
    "reconciliation_plan \<Rightarrow> time \<Rightarrow> event list \<Rightarrow> reconciliation_report \<Rightarrow> event list \<times> reconciliation_report" where
  "append_escalation_events plan now evs report =
     (evs @ map (\<lambda>e. escalation_event e now) (pl_escalations plan),
      report\<lparr>rep_escalations := rep_escalations report + length (pl_escalations plan)\<rparr>)"

definition load_active_runs :: "'rs run_store_port option \<Rightarrow> 'rs \<Rightarrow> (orchestrator_error, run_record list) result" where
  "load_active_runs store rs =
     (case store of
        None \<Rightarrow> Inr []
      | Some port \<Rightarrow> (case sp_active_runs port rs of Inl e \<Rightarrow> Inl (map_run_store_error port e) | Inr runs \<Rightarrow> Inr runs))"

definition apply_plan ::
    "reconcile_ports \<Rightarrow> 'rs run_store_port option \<Rightarrow> reconciliation_plan \<Rightarrow> orchestrator \<Rightarrow> 'rs \<Rightarrow>
      orchestrator \<times> 'rs \<times> event list \<times> (orchestrator_error, reconciliation_report) result" where
  "apply_plan io store plan s rs =
     (let now = rx_now io in
      case apply_task_updates now plan s empty_report of (s1, rep1) \<Rightarrow>
      (case apply_worker_cleanup_actions (rx_spawn io) now plan s1 rep1 of (s2, rep2) \<Rightarrow>
       (case (case store of
                None \<Rightarrow> ((rs, []), Inr rep2)
              | Some port \<Rightarrow>
                  apply_run_actions port (or_board s2) (oc_retry_policy (or_config s2)) now plan rep2 (rs, [])) of
          ((rs', evs), Inl e) \<Rightarrow> (s2, rs', [], Inl e)
        | ((rs', evs), Inr rep3) \<Rightarrow>
            (case append_escalation_events plan now evs rep3 of (all, rep4) \<Rightarrow>
              (case append_events (rx_append io) all of
                 (out, Inl e) \<Rightarrow> (s2, rs', out, Inl e)
               | (out, Inr n) \<Rightarrow> (s2, rs', out, Inr (rep4\<lparr>rep_events_emitted := n\<rparr>)))))))"

definition reconcile_before_dispatch ::
    "reconcile_ports \<Rightarrow> 'rs run_store_port option \<Rightarrow> orchestrator \<Rightarrow> 'rs \<Rightarrow>
      orchestrator \<times> 'rs \<times> event list \<times> (orchestrator_error, reconciliation_report) result" where
  "reconcile_before_dispatch io store s rs =
     (case load_active_runs store rs of
        Inl e \<Rightarrow> (s, rs, [], Inl e)
      | Inr runs \<Rightarrow>
          apply_plan io store
            (reconcile default_reconciler_config
               (from_current_state (rx_workers io) (rx_now io) (or_board s) (or_pool s) (or_graph s) runs)) s rs)"

end
