(* ===== verification/Continuation.thy ===== *)
theory Continuation
  imports Reconciliation
begin

text \<open>
  \<open>crates/brehon-orchestrator/src/orchestrator_continuation.rs\<close>: one pass over the active runs that
  sends a continuation prompt where the policy of \<open>continuation.rs\<close> allows it and records the turn
  in the run store. The prompts
  handed to the gateway are kept as a trace.
\<close>

subsection \<open>The decision for a run\<close>

datatype health_status = StatusHealthy | StatusUnhealthy | StatusUnknown

record continuation_ports =
  cx_now :: time
  cx_health :: "session_id \<Rightarrow> (string, health_status) result"
  cx_send :: gateway_send
  cx_uuid :: "run_id \<Rightarrow> string"
  cx_append :: "event \<Rightarrow> (orchestrator_error, unit) result"

definition session_health_of_run :: "continuation_ports \<Rightarrow> run_record \<Rightarrow> continuation_session_health" where
  "session_health_of_run io r =
     (case rr_session_id r of
        None \<Rightarrow> MissingSession
      | Some s \<Rightarrow>
          (case cx_health io s of
             Inr StatusHealthy \<Rightarrow> Healthy
           | Inr StatusUnhealthy \<Rightarrow> Unhealthy
           | Inr StatusUnknown \<Rightarrow> UnknownHealth
           | Inl _ \<Rightarrow> MissingSession))"

definition review_state_for_task :: "task_status \<Rightarrow> continuation_review_state option" where
  "review_state_for_task s =
     (case s of
        InReview \<Rightarrow> Some ContWaitingForReview
      | Approved \<Rightarrow> Some ContApproved
      | ChangesRequested \<Rightarrow> Some ContChangesRequested
      | _ \<Rightarrow> Some ContNotInReview)"

fun first_some :: "'a option list \<Rightarrow> 'a \<Rightarrow> 'a" where
  "first_some [] d = d"
| "first_some (Some x # xs) d = x"
| "first_some (None # xs) d = first_some xs d"

definition idle_since :: "run_record \<Rightarrow> time" where
  "idle_since r =
     first_some [rr_last_continuation_at r, rr_last_activity_at r, rr_started_at r, rr_claimed_at r] (rr_updated_at r)"

definition continuation_input_for ::
    "run_record \<Rightarrow> task_entry option \<Rightarrow> continuation_session_health \<Rightarrow> time \<Rightarrow> continuation_input" where
  "continuation_input_for r task health now =
     (let status = (case task of None \<Rightarrow> Pending | Some t \<Rightarrow> te_status t) in
      \<lparr>ci_task_status = status, ci_run_status = rr_status r, ci_session_health = health,
       ci_turn_count = rr_continuation_turns r,
       ci_run_matches_task = (case task of None \<Rightarrow> False | Some t \<Rightarrow> te_id t = rr_task_id r),
       ci_session_matches_task =
         (case (Option.bind task te_session_id, rr_session_id r) of (Some x, Some y) \<Rightarrow> x = y | _ \<Rightarrow> False),
       ci_review_state = review_state_for_task status,
       ci_idle_for_secs = word_of_int (max 0 ((now - idle_since r) div 1000))\<rparr>)"

definition build_continuation_prompt ::
    "string \<Rightarrow> run_record \<Rightarrow> task_entry option \<Rightarrow> 32 word \<Rightarrow> time \<Rightarrow> prompt_turn" where
  "build_continuation_prompt uuid r task next_turn now =
     (let title = (case task of None \<Rightarrow> ''current task'' | Some t \<Rightarrow> if te_title t = [] then ''current task'' else te_title t);
          status = (case task of None \<Rightarrow> ''unknown'' | Some t \<Rightarrow> task_status_debug (te_status t))
      in \<lparr>pt_prompt_id = uuid,
          pt_content = ''Continue task '' @ rr_task_id r @ '' ('' @ title @ ''). State: '' @ status @ ''. Run: '' @
            rr_run_id r @ '' attempt '' @ show_nat (unat (rr_attempt r)) @ '' continuation turn '' @
            show_nat (unat next_turn) @ ''. Continue from existing session context; report completion or blockers.'',
          pt_sent_at = now\<rparr>)"

definition continuation_activity_event :: "run_record \<Rightarrow> 32 word \<Rightarrow> time \<Rightarrow> event" where
  "continuation_activity_event r turn now =
     run_event r now (RunActivityObserved (rr_run_id r) (rr_task_id r) (rr_role r) (rr_claim_generation r)
       (''continuation prompt sent: turn '' @ show_nat (unat turn)) now)"

definition continuation_escalation_event :: "run_record \<Rightarrow> string \<Rightarrow> time \<Rightarrow> event" where
  "continuation_escalation_event r reason now =
     run_event r now (EscalationTriggered (''continuation decision escalated: '' @ reason) (run_context r))"

subsection \<open>A continuation pass\<close>

record continuation_report =
  cn_continued :: nat
  cn_stopped :: nat
  cn_escalated :: nat
  cn_no_action :: nat
  cn_events_emitted :: nat

definition empty_continuation_report :: continuation_report where
  "empty_continuation_report =
     \<lparr>cn_continued = 0, cn_stopped = 0, cn_escalated = 0, cn_no_action = 0, cn_events_emitted = 0\<rparr>"

record 'rs continuation_state =
  cs_store :: 'rs
  cs_events :: "event list"
  cs_sent :: "(run_record \<times> session_id \<times> prompt_turn) list"
  cs_report :: continuation_report

definition log_continuation :: "event \<Rightarrow> 'rs continuation_state \<Rightarrow> 'rs continuation_state" where
  "log_continuation ev st = st\<lparr>cs_events := cs_events st @ [ev]\<rparr>"

definition count_escalated :: "'rs continuation_state \<Rightarrow> 'rs continuation_state" where
  "count_escalated st = st\<lparr>cs_report := (cs_report st)\<lparr>cn_escalated := cn_escalated (cs_report st) + 1\<rparr>\<rparr>"

definition send_continuation_prompt ::
    "continuation_ports \<Rightarrow> 'rs run_store_port \<Rightarrow> run_record \<Rightarrow> task_entry option \<Rightarrow> 32 word \<Rightarrow> 'rs continuation_state \<Rightarrow>
      'rs continuation_state \<times> (orchestrator_error, unit) result" where
  \<comment> \<open>with the counting that \<open>apply_continuation_decision\<close> does on its outcome\<close>
  "send_continuation_prompt io port r task next_turn st =
     (case rr_session_id r of
        None \<Rightarrow>
          (count_escalated (log_continuation
             (continuation_escalation_event r ''run has no session for continuation'' (cx_now io)) st), Inr ())
      | Some s \<Rightarrow>
          let prompt = build_continuation_prompt (cx_uuid io (rr_run_id r)) r task next_turn (cx_now io);
              st1 = st\<lparr>cs_sent := cs_sent st @ [(r, s, prompt)]\<rparr>
          in (case cx_send io s prompt of
                Inr _ \<Rightarrow>
                  (case sp_record_continuation port
                          \<lparr>rt_run_id = rr_run_id r, rt_generation = rr_claim_generation r,
                           rt_continued_at = cx_now io, rt_turn = next_turn\<rparr> (cs_store st1) of
                     (rs', Inl e) \<Rightarrow> (st1\<lparr>cs_store := rs'\<rparr>, Inl (PortError (sp_error_text port e)))
                   | (rs', Inr updated) \<Rightarrow>
                       (log_continuation (continuation_activity_event updated next_turn (cx_now io))
                          (st1\<lparr>cs_store := rs',
                               cs_report := (cs_report st1)\<lparr>cn_continued := cn_continued (cs_report st1) + 1\<rparr>\<rparr>), Inr ()))
              | Inl _ \<Rightarrow>
                  (count_escalated (log_continuation
                     (continuation_escalation_event r ''failed to send continuation prompt'' (cx_now io)) st1), Inr ())))"

definition apply_continuation_decision ::
    "continuation_ports \<Rightarrow> 'rs run_store_port \<Rightarrow> orchestrator \<Rightarrow> run_record \<Rightarrow> 'rs continuation_state \<Rightarrow>
      'rs continuation_state \<times> (orchestrator_error, unit) result" where
  "apply_continuation_decision io port s r st =
     (let task = get_task (or_board s) (rr_task_id r);
          inp = continuation_input_for r task (session_health_of_run io r) (cx_now io)
      in (case decide_continuation inp (oc_continuation_policy (or_config s)) of
            ContinueNow next_turn _ \<Rightarrow> send_continuation_prompt io port r task next_turn st
          | StopRun _ \<Rightarrow> (st\<lparr>cs_report := (cs_report st)\<lparr>cn_stopped := cn_stopped (cs_report st) + 1\<rparr>\<rparr>, Inr ())
          | EscalateRun reason \<Rightarrow>
              (log_continuation (continuation_escalation_event r reason (cx_now io)) (count_escalated st), Inr ())
          | NoContinuation _ \<Rightarrow>
              (st\<lparr>cs_report := (cs_report st)\<lparr>cn_no_action := cn_no_action (cs_report st) + 1\<rparr>\<rparr>, Inr ())))"

fun continue_each ::
    "continuation_ports \<Rightarrow> 'rs run_store_port \<Rightarrow> orchestrator \<Rightarrow> run_record list \<Rightarrow> 'rs continuation_state \<Rightarrow>
      'rs continuation_state \<times> (orchestrator_error, unit) result" where
  "continue_each io port s [] st = (st, Inr ())"
| "continue_each io port s (r # rs) st =
     (case apply_continuation_decision io port s r st of
        (st', Inl e) \<Rightarrow> (st', Inl e)
      | (st', Inr _) \<Rightarrow> continue_each io port s rs st')"

definition start_continuation :: "'rs \<Rightarrow> 'rs continuation_state" where
  "start_continuation rs = \<lparr>cs_store = rs, cs_events = [], cs_sent = [], cs_report = empty_continuation_report\<rparr>"

text \<open>The result carries the prompts sent and the events appended; after an error no event is appended.\<close>

definition continue_active_runs ::
    "continuation_ports \<Rightarrow> 'rs run_store_port option \<Rightarrow> orchestrator \<Rightarrow> 'rs \<Rightarrow>
      'rs \<times> (run_record \<times> session_id \<times> prompt_turn) list \<times> event list \<times> (orchestrator_error, continuation_report) result" where
  "continue_active_runs io store s rs =
     (case store of
        None \<Rightarrow> (rs, [], [], Inr empty_continuation_report)
      | Some port \<Rightarrow>
          (case sp_active_runs port rs of
             Inl e \<Rightarrow> (rs, [], [], Inl (PortError (sp_error_text port e)))
           | Inr runs \<Rightarrow>
               (case continue_each io port s (filter (\<lambda>r. run_has_active_claim (rr_status r)) runs) (start_continuation rs) of
                  (st, Inl e) \<Rightarrow> (cs_store st, cs_sent st, [], Inl e)
                | (st, Inr _) \<Rightarrow>
                    (case append_events (cx_append io) (cs_events st) of
                       (out, Inl e) \<Rightarrow> (cs_store st, cs_sent st, out, Inl e)
                     | (out, Inr n) \<Rightarrow> (cs_store st, cs_sent st, out, Inr ((cs_report st)\<lparr>cn_events_emitted := n\<rparr>))))))"

end
