(* ===== verification/Run_Store_Props.thy ===== *)
theory Run_Store_Props
  imports Run_Store Lease_Queue_Props
begin

text \<open>
  The run store as a map of records: its key schema is injective, each operation changes the
  stored records as its contract says, and over every sequence of operations, with any
  failures of the database, there is at most one active run per task and role, terminal runs
  never change, and a claim holder with an old generation can change nothing.
\<close>

subsection \<open>Keys\<close>

definition escape_char :: "char \<Rightarrow> string" where
  "escape_char c = (if c = CHR ''%'' then ''%25'' else if c = CHR '':'' then ''%3A'' else [c])"

lemma key_escape_chars: "key_escape s = concat (map escape_char s)"
  by (induction s) (auto simp: key_escape_def replace_char_def escape_char_def)

lemma key_escape_Nil [simp]: "key_escape [] = []"
  by (simp add: key_escape_chars)

lemma key_escape_Cons: "key_escape (c # s) = escape_char c @ key_escape s"
  by (simp add: key_escape_chars)

lemma no_colon_escape [simp]: "CHR '':'' \<notin> set (key_escape s)"
  by (induction s) (auto simp: key_escape_Cons escape_char_def split: if_splits)

lemma escape_char_eq:
  "escape_char c @ xs = escape_char d @ ys \<Longrightarrow> c = d \<and> xs = ys"
  by (auto simp: escape_char_def split: if_splits)

lemma key_escape_inject [simp]: "key_escape s = key_escape t \<longleftrightarrow> s = t"
proof (induction s arbitrary: t)
  case Nil
  then show ?case by (cases t) (auto simp: key_escape_Cons escape_char_def)
next
  case (Cons c s)
  show ?case
  proof (cases t)
    case Nil
    then show ?thesis by (auto simp: key_escape_Cons escape_char_def)
  next
    case (Cons d u)
    with Cons.IH [of u] escape_char_eq [of c "key_escape s" d "key_escape u"] show ?thesis
      unfolding Cons key_escape_Cons by blast
  qed
qed

lemma two_parts [simp]:
  "key_escape a @ CHR '':'' # key_escape b = key_escape a' @ CHR '':'' # key_escape b' \<longleftrightarrow> a = a' \<and> b = b'"
  using append_Cons_eq_iff [of "CHR '':''" "key_escape a" "key_escape b" "key_escape a'" "key_escape b'"] by simp

lemmas run_key_defs = run_record_key_def run_task_index_key_def run_session_index_key_def run_owner_index_key_def
  run_active_role_index_key_def run_active_task_role_key_def

lemma run_record_key_inject [simp]: "run_record_key a = run_record_key b \<longleftrightarrow> a = b"
  by (simp add: run_record_key_def)

lemma role_key_inject [simp]:
  "run_active_role_index_key x a = run_active_role_index_key y b \<longleftrightarrow> x = y \<and> a = b"
  by (simp add: run_active_role_index_key_def)

lemma lane_key_inject [simp]:
  "run_active_task_role_key x a = run_active_task_role_key y b \<longleftrightarrow> x = y \<and> a = b"
  by (simp add: run_active_task_role_key_def)

lemma record_key_not_index [simp]: "run_record_key a \<notin> set (record_index_keys r)"
  by (auto simp: record_index_keys_def run_key_defs split: option.splits if_splits)

lemma role_key_in_index [simp]:
  "run_active_role_index_key x a \<in> set (record_index_keys r) \<longleftrightarrow>
     run_is_active r \<and> x = run_role_str (rr_role r) \<and> a = rr_run_id r"
  by (auto simp: record_index_keys_def run_key_defs split: option.splits if_splits)

lemma lane_key_in_index [simp]:
  "run_active_task_role_key t x \<in> set (record_index_keys r) \<longleftrightarrow>
     run_is_active r \<and> t = rr_task_id r \<and> x = run_role_str (rr_role r)"
  by (auto simp: record_index_keys_def run_key_defs split: option.splits if_splits)

lemma key_kinds [simp]:
  "run_active_role_index_key x a \<noteq> run_active_task_role_key t y" "run_record_key a \<noteq> run_active_task_role_key t y"
  "run_active_role_index_key x a \<noteq> run_record_key b" "run_active_task_role_key t y \<noteq> run_record_key a"
  "run_record_key b \<noteq> run_active_role_index_key x a" "run_active_task_role_key t y \<noteq> run_active_role_index_key x a"
  by (simp_all add: run_key_defs)

lemma role_index_prefix:
  "k \<in> set (record_index_keys r) \<Longrightarrow> starts_with k ''index:run:active-role:'' \<Longrightarrow>
     run_is_active r \<and> k = run_active_role_index_key (run_role_str (rr_role r)) (rr_run_id r)"
  by (auto simp: record_index_keys_def run_key_defs starts_with_def split: option.splits if_splits)

lemma prefix_kinds [simp]:
  "\<not> starts_with (run_record_key a) ''index:run:active-role:''"
  "\<not> starts_with (run_active_task_role_key t x) ''index:run:active-role:''"
  "starts_with (run_active_role_index_key x a) ''index:run:active-role:''"
  by (simp_all add: run_key_defs starts_with_def)

lemma last_part: "last (split_on (CHR '':'') (run_active_role_index_key x a)) = key_escape a"
proof -
  have parts: "run_active_role_index_key x a =
      join_with [CHR '':''] [''index'', ''run'', ''active-role'', key_escape x, key_escape a]"
    by (simp add: run_active_role_index_key_def)
  show ?thesis unfolding parts by (subst split_on_join) auto
qed

subsection \<open>The stored records\<close>

definition stored :: "'db run_env \<Rightarrow> (string \<rightharpoonup> string) \<Rightarrow> run_id \<rightharpoonup> run_record" where
  "stored env m i =
     (case m (run_record_key i) of
        None \<Rightarrow> None
      | Some b \<Rightarrow> (case re_decode env b of Inl _ \<Rightarrow> None | Inr r \<Rightarrow> Some r))"

definition store_inv :: "'db run_env \<Rightarrow> (string \<rightharpoonup> string) \<Rightarrow> bool" where
  "store_inv env m \<longleftrightarrow>
     (\<forall>i b. m (run_record_key i) = Some b \<longrightarrow> (\<exists>r. re_decode env b = Inr r \<and> rr_run_id r = i)) \<and>
     (\<forall>i r. stored env m i = Some r \<and> run_is_active r \<longrightarrow>
        m (active_task_role_marker r) = Some i \<and> m (run_active_role_index_key (run_role_str (rr_role r)) i) \<noteq> None) \<and>
     (\<forall>k. m k \<noteq> None \<and> starts_with k ''index:run:active-role:'' \<longrightarrow>
        (\<exists>i r. stored env m i = Some r \<and> run_is_active r \<and> k = run_active_role_index_key (run_role_str (rr_role r)) i))"

definition same_lane :: "run_record \<Rightarrow> run_record \<Rightarrow> bool" where
  "same_lane r s \<longleftrightarrow> rr_task_id r = rr_task_id s \<and> run_role_str (rr_role r) = run_role_str (rr_role s)"

lemma marker_eq: "active_task_role_marker r = active_task_role_marker s \<longleftrightarrow> same_lane r s"
  by (simp add: active_task_role_marker_def same_lane_def)

lemma store_invD:
  assumes "store_inv env m"
  shows "stored env m i = Some r \<Longrightarrow> rr_run_id r = i"
    and "stored env m i = None \<Longrightarrow> m (run_record_key i) = None"
    and "stored env m i = Some r \<Longrightarrow> run_is_active r \<Longrightarrow> m (active_task_role_marker r) = Some i"
    and "stored env m i = Some r \<Longrightarrow> run_is_active r \<Longrightarrow> m (run_active_role_index_key (run_role_str (rr_role r)) i) \<noteq> None"
    and "m k \<noteq> None \<Longrightarrow> starts_with k ''index:run:active-role:'' \<Longrightarrow>
      \<exists>i r. stored env m i = Some r \<and> run_is_active r \<and> k = run_active_role_index_key (run_role_str (rr_role r)) i"
  using assms unfolding store_inv_def stored_def by (fastforce split: option.splits sum.splits)+

lemma one_per_lane:
  assumes "store_inv env m" "stored env m i = Some r" "stored env m j = Some s" "run_is_active r" "run_is_active s" "same_lane r s"
  shows "i = j"
  using store_invD(3) [OF assms(1,2,4)] store_invD(3) [OF assms(1,3,5)] assms(6) marker_eq [of r s] by simp

lemma run_env_okD:
  assumes "run_env_ok env view"
  shows "re_get env db k = Inr v \<Longrightarrow> v = view db k"
    and "re_remove env k db = Inr db' \<Longrightarrow> view db' = (view db)(k := None)"
    and "re_commit env ops db = Inr db' \<Longrightarrow> view db' = apply_batch ops (view db)"
    and "re_encode env r = Inr b \<Longrightarrow> re_decode env b = Inr r"
  using assms unfolding run_env_ok_def by blast+

subsection \<open>Writing a record\<close>

definition put_record :: "run_record option \<Rightarrow> run_record \<Rightarrow> string \<Rightarrow> (string \<rightharpoonup> string) \<Rightarrow> (string \<rightharpoonup> string)" where
  "put_record previous r b m k =
     (if k \<in> set (record_index_keys r) then Some (if k = active_task_role_marker r then rr_run_id r else [])
      else if k = run_record_key (rr_run_id r) then Some b
      else if \<exists>p. previous = Some p \<and> k \<in> set (record_index_keys p) then None
      else m k)"

lemma apply_inserts: "apply_batch (map (\<lambda>k. BatchInsert k (f k)) ks) m = (\<lambda>k. if k \<in> set ks then Some (f k) else m k)"
  by (induction ks arbitrary: m) (auto simp: fun_eq_iff)

lemma apply_put_record:
  "apply_batch ((case previous of None \<Rightarrow> [] | Some p \<Rightarrow> remove_record_indexes p) @
     [BatchInsert (run_record_key (rr_run_id r)) b] @ insert_record_indexes r) m = put_record previous r b m"
  by (cases previous)
    (simp_all add: fun_eq_iff put_record_def insert_record_indexes_def remove_record_indexes_def apply_inserts apply_removes)

lemma stored_put:
  assumes "re_decode env b = Inr r" and "\<forall>p. previous = Some p \<longrightarrow> rr_run_id p = rr_run_id r"
  shows "stored env (put_record previous r b m) = (stored env m)(rr_run_id r \<mapsto> r)"
  using assms by (auto simp: fun_eq_iff stored_def put_record_def)

lemma store_inv_put:
  assumes "store_inv env m" and "re_decode env b = Inr r"
    and "stored env m (rr_run_id r) = previous"
    and "\<forall>p. previous = Some p \<longrightarrow> same_lane p r"
    and "\<forall>j s. stored env m j = Some s \<longrightarrow> run_is_active s \<longrightarrow> run_is_active r \<longrightarrow> same_lane s r \<longrightarrow> j = rr_run_id r"
  shows "store_inv env (put_record previous r b m)"
proof -
  let ?i = "rr_run_id r"
  have prev: "rr_run_id p = ?i" if "previous = Some p" for p
    using that assms(3) store_invD(1) [OF assms(1)] by auto
  have stored': "stored env (put_record previous r b m) = (stored env m)(?i \<mapsto> r)"
    by (rule stored_put [OF assms(2)]) (use prev in blast)
  have ids: "\<exists>r'. re_decode env b' = Inr r' \<and> rr_run_id r' = i"
    if "put_record previous r b m (run_record_key i) = Some b'" for i b'
    using that assms(1,2) by (auto simp: put_record_def store_inv_def split: if_splits)
  have active: "put_record previous r b m (active_task_role_marker s) = Some j \<and>
      put_record previous r b m (run_active_role_index_key (run_role_str (rr_role s)) j) \<noteq> None"
    if "((stored env m)(?i \<mapsto> r)) j = Some s" "run_is_active s" for j s
  proof (cases "j = ?i")
    case True
    with that show ?thesis by (auto simp: put_record_def active_task_role_marker_def)
  next
    case False
    with that have s: "stored env m j = Some s" by simp
    have other: "\<not> (run_is_active r \<and> same_lane s r)" using assms(5) s that(2) False by blast
    note here = store_invD(3,4) [OF assms(1) s that(2)]
    show ?thesis
    proof (cases previous)
      case None
      with other here False show ?thesis by (auto simp: put_record_def active_task_role_marker_def same_lane_def)
    next
      case (Some p)
      have "\<not> (run_is_active p \<and> same_lane s p)"
        using Some assms(3) one_per_lane [OF assms(1) s, of ?i p] \<open>run_is_active s\<close> False by auto
      with other here False prev [OF Some] Some show ?thesis
        by (auto simp: put_record_def active_task_role_marker_def same_lane_def)
    qed
  qed
  have role: "\<exists>i s. ((stored env m)(?i \<mapsto> r)) i = Some s \<and> run_is_active s \<and> k = run_active_role_index_key (run_role_str (rr_role s)) i"
    if "put_record previous r b m k \<noteq> None" "starts_with k ''index:run:active-role:''" for k
  proof (cases "k \<in> set (record_index_keys r)")
    case True
    from role_index_prefix [OF this that(2)] show ?thesis by auto
  next
    case False
    with that have m: "m k \<noteq> None" and prev_key: "\<forall>p. previous = Some p \<longrightarrow> k \<notin> set (record_index_keys p)"
      by (auto simp: put_record_def split: if_splits)
    from store_invD(5) [OF assms(1) m that(2)] obtain i s where s: "stored env m i = Some s" "run_is_active s"
      "k = run_active_role_index_key (run_role_str (rr_role s)) i" by blast
    have "i \<noteq> ?i"
    proof
      assume i: "i = ?i"
      with s assms(3) have p: "previous = Some s" by simp
      from prev_key [rule_format, OF p] prev [OF p] s i show False by simp
    qed
    with s show ?thesis by (intro exI [of _ i] exI [of _ s]) simp
  qed
  show ?thesis unfolding store_inv_def stored' using ids active role by blast
qed

subsection \<open>Reading and duplicates\<close>

lemma get_run_stored: "run_env_ok env view \<Longrightarrow> get_run_locked env db i = Inr x \<Longrightarrow> x = stored env (view db) i"
  using run_env_okD(1) [of env view db "run_record_key i"]
  by (fastforce simp: get_run_locked_def stored_def split: sum.splits option.splits)

lemma load_stored: "run_env_ok env view \<Longrightarrow> load_required env db i = Inr r \<Longrightarrow> stored env (view db) i = Some r"
  using get_run_stored [of env view db i]
  by (fastforce simp: load_required_def split: sum.splits option.splits)

lemma commit_record_cases:
  assumes "run_env_ok env view" and "commit_record env previous r db = (db', res)"
  obtains (failed) e where "db' = db" "res = Inl e"
    | (written) b where "res = Inr r" "re_decode env b = Inr r" "view db' = put_record previous r b (view db)"
proof (cases "re_encode env r")
  case (Inl e)
  with assms(2) show ?thesis by (intro failed [of "RunSerialization e"]) (simp_all add: commit_record_def)
next
  case (Inr b)
  note b = run_env_okD(4) [OF assms(1) Inr]
  define ops where "ops = (case previous of None \<Rightarrow> [] | Some p \<Rightarrow> remove_record_indexes p) @
     [BatchInsert (run_record_key (rr_run_id r)) b] @ insert_record_indexes r"
  have res: "(case re_commit env ops db of Inl e \<Rightarrow> (db, Inl (RunStorage e)) | Inr d \<Rightarrow> (d, Inr r)) = (db', res)"
    using assms(2) Inr by (simp add: commit_record_def ops_def)
  show ?thesis
  proof (cases "re_commit env ops db")
    case (Inl e)
    with res show ?thesis by (intro failed [of "RunStorage e"]) simp_all
  next
    case (Inr d)
    from run_env_okD(3) [OF assms(1) this] have "view d = put_record previous r b (view db)"
      unfolding ops_def by (simp only: apply_put_record)
    with res Inr b show ?thesis by (intro written [of b]) simp_all
  qed
qed

lemma stored_remove_marker: "stored env (m(run_active_task_role_key t x := None)) = stored env m"
  by (auto simp: fun_eq_iff stored_def)

lemma store_inv_remove_marker:
  assumes "store_inv env m"
    and "\<forall>j s. stored env m j = Some s \<and> run_is_active s \<longrightarrow> active_task_role_marker s \<noteq> run_active_task_role_key t x"
  shows "store_inv env (m(run_active_task_role_key t x := None))"
  using assms unfolding store_inv_def stored_remove_marker by (auto simp: active_task_role_marker_def split: if_splits)

lemma find_duplicate_cases:
  assumes "run_env_ok env view" "store_inv env (view db)" "find_active_duplicate env r db = (db1, res)"
  shows "store_inv env (view db1)" "stored env (view db1) = stored env (view db)"
    and "res = Inr None \<Longrightarrow> stored env (view db) j = Some s \<Longrightarrow> run_is_active s \<Longrightarrow> same_lane s r \<Longrightarrow> j = rr_run_id r"
proof -
  let ?marker = "active_task_role_marker r"
  have own: "view db ?marker = Some j" if "stored env (view db) j = Some s" "run_is_active s" "same_lane s r" for j s
    using store_invD(3) [OF assms(2) that(1,2)] that(3) marker_eq [of s r] by simp
  have removed: "store_inv env (view db1) \<and> stored env (view db1) = stored env (view db)"
    if "remove_marker env ?marker db = (db1, res)" "view db ?marker = Some x" "\<forall>s. stored env (view db) x = Some s \<longrightarrow> \<not> run_is_active s" for x
  proof -
    have "active_task_role_marker s \<noteq> ?marker" if "stored env (view db) j = Some s" "run_is_active s" for j s
      using store_invD(3) [OF assms(2) that] that \<open>view db ?marker = Some x\<close>
        \<open>\<forall>s. stored env (view db) x = Some s \<longrightarrow> \<not> run_is_active s\<close> by auto
    then have "store_inv env ((view db)(?marker := None))"
      unfolding active_task_role_marker_def [of r]
      by (intro store_inv_remove_marker [OF assms(2)]) (auto simp: active_task_role_marker_def [of r])
    moreover have "stored env ((view db)(?marker := None)) = stored env (view db)"
      unfolding active_task_role_marker_def by (rule stored_remove_marker)
    ultimately show ?thesis
      using that(1) assms(2) run_env_okD(2) [OF assms(1), of ?marker db] by (auto simp: remove_marker_def split: sum.splits)
  qed
  have get: "re_get env db ?marker = Inr v \<Longrightarrow> v = view db ?marker" for v
    by (rule run_env_okD(1) [OF assms(1)])
  consider (same) "db1 = db" "res \<noteq> Inr None \<or> view db ?marker = None \<or> view db ?marker = Some (rr_run_id r)"
    | (removal) x where "remove_marker env ?marker db = (db1, res)" "view db ?marker = Some x"
        "\<forall>s. stored env (view db) x = Some s \<longrightarrow> \<not> run_is_active s"
    using assms(3) get get_run_stored [OF assms(1)]
    by (fastforce simp: find_active_duplicate_def Let_def split: sum.splits option.splits if_splits)
  note cases = this
  show "store_inv env (view db1)" "stored env (view db1) = stored env (view db)"
    using cases by (cases; use assms(2) removed in blast)+
  show "j = rr_run_id r" if "res = Inr None" "stored env (view db) j = Some s" "run_is_active s" "same_lane s r"
    using cases by cases (use that own [OF that(2-4)] in auto)
qed

subsection \<open>What every operation keeps\<close>

definition run_kept :: "run_record \<Rightarrow> run_record \<Rightarrow> bool" where
  "run_kept r r' \<longleftrightarrow>
     rr_run_id r' = rr_run_id r \<and> rr_task_id r' = rr_task_id r \<and> rr_role r' = rr_role r \<and>
     rr_claim_generation r \<le> rr_claim_generation r' \<and> (\<not> run_is_active r \<longrightarrow> r' = r)"

definition store_step :: "'db run_env \<Rightarrow> (string \<rightharpoonup> string) \<Rightarrow> (string \<rightharpoonup> string) \<Rightarrow> bool" where
  "store_step env m m' \<longleftrightarrow>
     store_inv env m' \<and> (\<forall>i r. stored env m i = Some r \<longrightarrow> (\<exists>r'. stored env m' i = Some r' \<and> run_kept r r'))"

lemma run_kept_refl [simp]: "run_kept r r"
  by (simp add: run_kept_def)

lemma run_kept_trans: "run_kept r s \<Longrightarrow> run_kept s t \<Longrightarrow> run_kept r t"
  by (auto simp: run_kept_def)

lemma store_step_refl: "store_inv env m \<Longrightarrow> store_step env m m"
  by (simp add: store_step_def)

lemma store_step_trans: "store_step env m m1 \<Longrightarrow> store_step env m1 m2 \<Longrightarrow> store_step env m m2"
  unfolding store_step_def by (meson run_kept_trans)

lemma store_step_same: "store_inv env m' \<Longrightarrow> stored env m' = stored env m \<Longrightarrow> store_step env m m'"
  by (simp add: store_step_def)

lemma put_step:
  assumes "store_inv env m" "re_decode env b = Inr r" "stored env m (rr_run_id r) = previous"
    and "\<forall>p. previous = Some p \<longrightarrow> run_kept p r"
    and "\<forall>j s. stored env m j = Some s \<longrightarrow> run_is_active s \<longrightarrow> run_is_active r \<longrightarrow> same_lane s r \<longrightarrow> j = rr_run_id r"
  shows "store_step env m (put_record previous r b m)" "stored env (put_record previous r b m) = (stored env m)(rr_run_id r \<mapsto> r)"
proof -
  have ids: "\<forall>p. previous = Some p \<longrightarrow> rr_run_id p = rr_run_id r" using assms(4) by (auto simp: run_kept_def)
  show stored': "stored env (put_record previous r b m) = (stored env m)(rr_run_id r \<mapsto> r)"
    by (rule stored_put [OF assms(2) ids])
  have "store_inv env (put_record previous r b m)"
    by (rule store_inv_put [OF assms(1-3) _ assms(5)]) (use assms(4) in \<open>auto simp: run_kept_def same_lane_def\<close>)
  then show "store_step env m (put_record previous r b m)"
    unfolding store_step_def stored' using assms(3,4) by auto
qed

lemma update_step:
  assumes "store_inv env m" "re_decode env b = Inr r'" "stored env m i = Some r" "run_kept r r'" "run_is_active r"
  shows "store_step env m (put_record (Some r) r' b m)" "stored env (put_record (Some r) r' b m) = (stored env m)(i \<mapsto> r')"
proof -
  have i: "rr_run_id r' = i" "same_lane r r'" using assms(4) store_invD(1) [OF assms(1,3)] by (auto simp: run_kept_def same_lane_def)
  have "j = rr_run_id r'" if "stored env m j = Some s" "run_is_active s" "same_lane s r'" for j s
    using one_per_lane [OF assms(1) that(1) assms(3) that(2) assms(5)] that(3) i by (auto simp: same_lane_def)
  with assms i put_step [OF assms(1,2), of "Some r"]
  show "store_step env m (put_record (Some r) r' b m)" "stored env (put_record (Some r) r' b m) = (stored env m)(i \<mapsto> r')" by auto
qed

text \<open>An operation of a claim holder: refused with nothing changed, or done on the current claim.\<close>

lemma current_claim_cases:
  assumes "run_env_ok env view" and "with_current_claim env utc rid gen target change db = (db', res)"
  obtains (refused) e where "db' = db" "res = Inl e"
    | (updated) r r' b where "stored env (view db) rid = Some r" "rr_claim_generation r = gen"
        "run_has_active_claim (rr_status r)" "\<not> claim_is_expired_at r utc" "change r = Inr r'" "res = Inr r'"
        "re_decode env b = Inr r'" "view db' = put_record (Some r) r' b (view db)"
proof (cases "\<exists>e. res = Inl e \<and> db' = db")
  case True
  with refused show ?thesis by blast
next
  case False
  from assms(2) False obtain r r' where r: "load_required env db rid = Inr r" "rr_claim_generation r = gen"
    "run_has_active_claim (rr_status r)" "\<not> claim_is_expired_at r utc" "change r = Inr r'"
    and res: "commit_record env (Some r) r' db = (db', res)"
    by (auto simp: with_current_claim_def ensure_generation_def ensure_unexpired_def split: sum.splits if_splits) metis+
  from assms(1) res show ?thesis
  proof (cases rule: commit_record_cases)
    case (failed e)
    with False show ?thesis by auto
  next
    case (written b)
    with updated r load_stored [OF assms(1) r(1)] show ?thesis by blast
  qed
qed

lemma active_claim_active: "run_has_active_claim s \<Longrightarrow> rr_status r = s \<Longrightarrow> run_is_active r"
  by (auto simp: run_has_active_claim_def run_is_active_def run_is_terminal_def)

lemma current_claim_step:
  assumes "run_env_ok env view" "store_inv env (view db)" "with_current_claim env utc rid gen target change db = (db', res)"
    and "\<And>r r'. change r = Inr r' \<Longrightarrow> run_is_active r \<Longrightarrow> run_kept r r'"
  shows "store_step env (view db) (view db')"
    and "is_ok res \<Longrightarrow> \<exists>r. stored env (view db) rid = Some r \<and> rr_claim_generation r = gen"
proof -
  from assms(1,3) have "store_step env (view db) (view db') \<and>
      (is_ok res \<longrightarrow> (\<exists>r. stored env (view db) rid = Some r \<and> rr_claim_generation r = gen))"
  proof (cases rule: current_claim_cases)
    case (refused e)
    then show ?thesis using store_step_refl [OF assms(2)] by simp
  next
    case (updated r r' b)
    note active = active_claim_active [OF updated(3) refl]
    from update_step(1) [OF assms(2) updated(7,1) assms(4) [OF updated(5) active] active] updated show ?thesis by simp
  qed
  then show "store_step env (view db) (view db')"
    "is_ok res \<Longrightarrow> \<exists>r. stored env (view db) rid = Some r \<and> rr_claim_generation r = gen" by simp_all
qed

lemma claim_run_cases:
  assumes "run_env_ok env view" and "claim_run env utc req db = (db', res)"
  obtains (refused) e where "db' = db" "res = Inl e"
    | (taken) r b where "stored env (view db) (cr_run_id req) = Some r" "can_claim utc r"
        "rr_status r \<noteq> RunRetryQueued \<or> retry_is_due_at r (cr_claimed_at req)" "res = Inr (claimed req r)"
        "re_decode env b = Inr (claimed req r)" "view db' = put_record (Some r) (claimed req r) b (view db)"
proof (cases "\<exists>e. res = Inl e \<and> db' = db")
  case True
  with refused show ?thesis by blast
next
  case False
  from assms(2) False obtain r where r: "load_required env db (cr_run_id req) = Inr r" "can_claim utc r"
    "rr_status r \<noteq> RunRetryQueued \<or> retry_is_due_at r (cr_claimed_at req)"
    and res: "commit_record env (Some r) (claimed req r) db = (db', res)"
    by (cases "load_required env db (cr_run_id req)") (auto simp: claim_run_def split: if_splits, metis)
  from assms(1) res show ?thesis
  proof (cases rule: commit_record_cases)
    case (failed e)
    with False show ?thesis by auto
  next
    case (written b)
    with taken r load_stored [OF assms(1) r(1)] show ?thesis by blast
  qed
qed

lemma can_claim_active: "can_claim utc r \<Longrightarrow> run_is_active r"
  by (auto simp: can_claim_def run_is_active_def run_is_terminal_def run_has_active_claim_def)

lemma claimed_kept: "run_is_active r \<Longrightarrow> run_kept r (claimed req r)"
  by (simp add: run_kept_def claimed_def next_generation_le)

lemma create_run_step:
  assumes "run_env_ok env view" "store_inv env (view db)" "create_run env r db = (db', res)"
  shows "store_step env (view db) (view db')"
    and "res = Inr r' \<Longrightarrow> r' = r\<lparr>rr_updated_at := rr_created_at r\<rparr> \<and> stored env (view db) (rr_run_id r) = None \<and>
      stored env (view db') = (stored env (view db))(rr_run_id r \<mapsto> r')"
proof -
  let ?r = "r\<lparr>rr_updated_at := rr_created_at r\<rparr>"
  have written: "store_step env (view db) (view db') \<and> (res = Inr r' \<longrightarrow> r' = ?r \<and>
      stored env (view db') = (stored env (view db))(rr_run_id r \<mapsto> r'))"
    if "store_inv env (view db1)" "stored env (view db1) = stored env (view db)" "stored env (view db) (rr_run_id r) = None"
      "\<forall>j s. stored env (view db) j = Some s \<longrightarrow> run_is_active s \<longrightarrow> run_is_active r \<longrightarrow> same_lane s r \<longrightarrow> j = rr_run_id r"
      and c: "commit_record env None ?r db1 = (db', res)" for db1
    using assms(1) c
  proof (cases rule: commit_record_cases)
    case (failed e)
    with that store_step_same show ?thesis by auto
  next
    case (written b)
    have "store_step env (view db1) (view db') \<and> stored env (view db') = (stored env (view db1))(rr_run_id ?r \<mapsto> ?r)"
      unfolding written(3) using that written(2)
      by (intro conjI put_step) (auto simp: run_is_active_def same_lane_def)
    with that(1,2) written(1) store_step_same [OF that(1,2)] show ?thesis by (auto intro: store_step_trans)
  qed
  have fresh: "stored env (view db) (rr_run_id r) = None" if "get_run_locked env db (rr_run_id r) = Inr None"
    using get_run_stored [OF assms(1) that] by simp
  have all: "store_step env (view db) (view db') \<and> (res = Inr r' \<longrightarrow> r' = ?r \<and> stored env (view db) (rr_run_id r) = None \<and>
      stored env (view db') = (stored env (view db))(rr_run_id r \<mapsto> r'))"
  proof (cases "get_run_locked env db (rr_run_id r)")
    case (Inl e)
    with assms(2,3) show ?thesis by (auto simp: create_run_def intro: store_step_refl)
  next
    case (Inr found)
    show ?thesis
    proof (cases "found = None \<and> run_is_active r")
      case True
      obtain db1 dup where dup: "find_active_duplicate env r db = (db1, dup)" by force
      note found = find_duplicate_cases [OF assms(1,2) dup]
      show ?thesis
      proof (cases "dup = Inr None")
        case True
        with Inr \<open>found = None \<and> run_is_active r\<close> dup assms(3) have "commit_record env None ?r db1 = (db', res)"
          by (simp add: create_run_def)
        with written [OF found(1,2) fresh] found(3) True Inr \<open>found = None \<and> run_is_active r\<close> fresh show ?thesis by blast
      next
        case False
        with Inr True dup assms(3) have "db' = db1" "\<not> is_ok res"
          by (auto simp: create_run_def split: sum.splits option.splits)
        with store_step_same [OF found(1,2)] show ?thesis by auto
      qed
    next
      case False
      show ?thesis
      proof (cases found)
        case None
        with Inr False assms(3) have "commit_record env None ?r db = (db', res)" by (simp add: create_run_def)
        with written [OF assms(2) refl fresh] Inr None False fresh show ?thesis by blast
      next
        case (Some x)
        with Inr assms(2,3) show ?thesis by (auto simp: create_run_def intro: store_step_refl)
      qed
    qed
  qed
  then show "store_step env (view db) (view db')"
    "res = Inr r' \<Longrightarrow> r' = ?r \<and> stored env (view db) (rr_run_id r) = None \<and>
      stored env (view db') = (stored env (view db))(rr_run_id r \<mapsto> r')" by blast+
qed

lemma commit_retry_cases:
  assumes "run_env_ok env view" and "commit_retry_attempt env req previous db = (db', res)"
  obtains (failed) e where "db' = db" "res = Inl e"
    | (written) b1 b2 where "res = Inr \<lparr>rs_queued_run = closed_retry req previous, rs_retry_run = next_attempt req previous\<rparr>"
        "re_decode env b1 = Inr (closed_retry req previous)" "re_decode env b2 = Inr (next_attempt req previous)"
        "view db' = put_record None (next_attempt req previous) b2
           (put_record (Some previous) (closed_retry req previous) b1 (view db))"
proof (cases "\<exists>e. res = Inl e \<and> db' = db")
  case True
  with failed show ?thesis by blast
next
  case False
  let ?q = "closed_retry req previous" and ?n = "next_attempt req previous"
  obtain b1 b2 d where b: "re_encode env ?q = Inr b1" "re_encode env ?n = Inr b2"
    and c: "re_commit env (remove_record_indexes previous @ [BatchInsert (run_record_key (rr_run_id ?q)) b1] @ insert_record_indexes ?q @
       [BatchInsert (run_record_key (rr_run_id ?n)) b2] @ insert_record_indexes ?n) db = Inr d"
    and res: "db' = d" "res = Inr \<lparr>rs_queued_run = ?q, rs_retry_run = ?n\<rparr>"
    using assms(2) False by (auto simp: commit_retry_attempt_def Let_def split: sum.splits)
  have "view d = apply_batch ((case None of None \<Rightarrow> [] | Some p \<Rightarrow> remove_record_indexes p) @
        [BatchInsert (run_record_key (rr_run_id ?n)) b2] @ insert_record_indexes ?n)
      (apply_batch ((case Some previous of None \<Rightarrow> [] | Some p \<Rightarrow> remove_record_indexes p) @
        [BatchInsert (run_record_key (rr_run_id ?q)) b1] @ insert_record_indexes ?q) (view db))"
    using run_env_okD(3) [OF assms(1) c] by simp
  then have "view d = put_record None ?n b2 (put_record (Some previous) ?q b1 (view db))"
    by (simp only: apply_put_record)
  with res run_env_okD(4) [OF assms(1) b(1)] run_env_okD(4) [OF assms(1) b(2)] show ?thesis by (intro written) simp_all
qed

lemma retry_attempt_ids [simp]:
  "rr_run_id (next_attempt req r) = rq_new_run_id req" "rr_task_id (next_attempt req r) = rr_task_id r"
  "rr_role (next_attempt req r) = rr_role r" "rr_status (next_attempt req r) = RunCreated"
  "rr_run_id (closed_retry req r) = rr_run_id r" "rr_status (closed_retry req r) = RunFailed"
  "rr_task_id (closed_retry req r) = rr_task_id r" "rr_role (closed_retry req r) = rr_role r"
  "rr_claim_generation (closed_retry req r) = rr_claim_generation r"
  by (simp_all add: next_attempt_def closed_retry_def new_run_record_def)

lemma retry_written:
  assumes "store_inv env m" "stored env m i = Some r" "rr_status r = RunRetryQueued" "stored env m (rq_new_run_id req) = None"
    and "re_decode env b1 = Inr (closed_retry req r)" "re_decode env b2 = Inr (next_attempt req r)"
  shows "store_step env m (put_record None (next_attempt req r) b2 (put_record (Some r) (closed_retry req r) b1 m))"
    and "stored env (put_record None (next_attempt req r) b2 (put_record (Some r) (closed_retry req r) b1 m)) =
      (stored env m)(i \<mapsto> closed_retry req r, rq_new_run_id req \<mapsto> next_attempt req r)"
proof -
  let ?m1 = "put_record (Some r) (closed_retry req r) b1 m"
  have active: "run_is_active r" using assms(3) by (simp add: run_is_active_def run_is_terminal_def)
  have kept: "run_kept r (closed_retry req r)" using active by (simp add: run_kept_def)
  note one = update_step [OF assms(1,5,2) kept active]
  have inv1: "store_inv env ?m1" using one(1) by (simp add: store_step_def)
  have new: "rq_new_run_id req \<noteq> i" using assms(2,4) by auto
  have lane: "j = rr_run_id (next_attempt req r)"
    if "stored env ?m1 j = Some s" "run_is_active s" "same_lane s (next_attempt req r)" for j s
  proof -
    have "j \<noteq> i" using that by (auto simp: one(2) run_is_active_def run_is_terminal_def)
    with that have "stored env m j = Some s" by (simp add: one(2))
    from one_per_lane [OF assms(1) this assms(2) that(2) active] that(3) \<open>j \<noteq> i\<close> show ?thesis
      by (auto simp: same_lane_def)
  qed
  have fresh: "stored env ?m1 (rr_run_id (next_attempt req r)) = None" using new assms(4) by (simp add: one(2))
  note two = put_step [OF inv1 assms(6) fresh]
  show "store_step env m (put_record None (next_attempt req r) b2 ?m1)"
    using store_step_trans [OF one(1) two(1)] lane by blast
  show "stored env (put_record None (next_attempt req r) b2 ?m1) =
      (stored env m)(i \<mapsto> closed_retry req r, rq_new_run_id req \<mapsto> next_attempt req r)"
    using two(2) lane by (simp add: one(2))
qed

lemma start_retry_cases:
  assumes "run_env_ok env view" "store_inv env (view db)" "start_retry_attempt env req db = (db', res)"
  obtains (refused) e where "res = Inl e" "store_inv env (view db')" "stored env (view db') = stored env (view db)"
    | (started) r where "stored env (view db) (rq_queued_run_id req) = Some r" "rr_claim_generation r = rq_generation req"
        "rr_status r = RunRetryQueued" "case rr_retry_at r of None \<Rightarrow> True | Some t \<Rightarrow> t \<le> rq_created_at req"
        "stored env (view db) (rq_new_run_id req) = None"
        "res = Inr \<lparr>rs_queued_run = closed_retry req r, rs_retry_run = next_attempt req r\<rparr>"
        "store_step env (view db) (view db')"
        "stored env (view db') = (stored env (view db))(rq_queued_run_id req \<mapsto> closed_retry req r, rq_new_run_id req \<mapsto> next_attempt req r)"
proof (cases "\<exists>e. res = Inl e \<and> db' = db")
  case True
  with refused assms(2) show ?thesis by blast
next
  case False
  let ?i = "rq_queued_run_id req"
  from assms(3) False obtain r where r: "load_required env db ?i = Inr r" "rr_claim_generation r = rq_generation req"
      "rr_status r = RunRetryQueued" "case rr_retry_at r of None \<Rightarrow> True | Some t \<Rightarrow> t \<le> rq_created_at req"
      "get_run_locked env db (rq_new_run_id req) = Inr None"
    and rest: "(case find_active_duplicate env (next_attempt req r) db of
        (db1, Inl e) \<Rightarrow> (db1, Inl e)
      | (db1, Inr existing) \<Rightarrow>
          (case existing of
             Some x \<Rightarrow> if x \<noteq> rr_run_id r then (db1, Inl (DuplicateActiveClaim (rr_task_id r) (rr_role r) x))
                       else commit_retry_attempt env req r db1
           | None \<Rightarrow> commit_retry_attempt env req r db1)) = (db', res)"
    by (auto simp: start_retry_attempt_def ensure_generation_def not_less split: sum.splits if_splits option.splits) 
  obtain db1 dup where dup: "find_active_duplicate env (next_attempt req r) db = (db1, dup)" by force
  note found = find_duplicate_cases [OF assms(1,2) dup]
  note here = load_stored [OF assms(1) r(1)] get_run_stored [OF assms(1) r(5)]
  show ?thesis
  proof (cases "commit_retry_attempt env req r db1 = (db', res)")
    case True
    from assms(1) True show ?thesis
    proof (cases rule: commit_retry_cases)
      case (failed e)
      with refused found show ?thesis by blast
    next
      case (written b1 b2)
      have s: "stored env (view db1) ?i = Some r" "stored env (view db1) (rq_new_run_id req) = None"
        using here found(2) by simp_all
      note w = retry_written [OF found(1) s(1) r(3) s(2) written(2,3)]
      show ?thesis
      proof (rule started [OF here(1) r(2-4) here(2) [symmetric] written(1)])
        show "store_step env (view db) (view db')"
          unfolding written(4) by (rule store_step_trans [OF store_step_same [OF found(1,2)] w(1)])
        show "stored env (view db') = (stored env (view db))(?i \<mapsto> closed_retry req r, rq_new_run_id req \<mapsto> next_attempt req r)"
          unfolding written(4) w(2) by (simp add: found(2))
      qed
    qed
  next
    case False
    with rest dup obtain e where "db' = db1" "res = Inl e" by (auto split: sum.splits option.splits if_splits)
    with refused found show ?thesis by blast
  qed
qed

end
