(* ===== verification/Run_Fencing.thy ===== *)
theory Run_Fencing
  imports Run_Store_Props
begin

text \<open>
  The run store over whole histories: any sequence of operations by any number of claim holders,
  with any clock readings and any failures of the database.
\<close>

subsection \<open>Histories\<close>

datatype run_op =
    DoCreate run_record
  | DoClaim time claim_request
  | DoRenew time run_id claim_generation
  | DoRelease time claim_release
  | DoComplete time run_completion
  | DoFail time run_failure
  | DoContinue time run_continuation
  | DoQueueRetry time run_retry
  | DoStartRetry retry_attempt_request

fun exec_run_op :: "'db run_env \<Rightarrow> run_op \<Rightarrow> 'db \<Rightarrow> ('db, run_record) run_result" where
  "exec_run_op env (DoCreate r) db = create_run env r db"
| "exec_run_op env (DoClaim utc req) db = claim_run env utc req db"
| "exec_run_op env (DoRenew utc i g) db = run_renew_claim env utc i g db"
| "exec_run_op env (DoRelease utc req) db = release_claim env utc req db"
| "exec_run_op env (DoComplete utc req) db = complete_run env utc req db"
| "exec_run_op env (DoFail utc req) db = fail_run env utc req db"
| "exec_run_op env (DoContinue utc req) db = record_continuation env utc req db"
| "exec_run_op env (DoQueueRetry utc req) db = queue_retry env utc req db"
| "exec_run_op env (DoStartRetry req) db =
     (case start_retry_attempt env req db of (db', res) \<Rightarrow> (db', map_sum id rs_retry_run res))"

text \<open>The run and the generation that an operation of a claim holder presents.\<close>

fun op_fence :: "run_op \<Rightarrow> (run_id \<times> claim_generation) option" where
  "op_fence (DoCreate r) = None"
| "op_fence (DoClaim utc req) = None"
| "op_fence (DoRenew utc i g) = Some (i, g)"
| "op_fence (DoRelease utc req) = Some (cl_run_id req, cl_generation req)"
| "op_fence (DoComplete utc req) = Some (rc_run_id req, rc_generation req)"
| "op_fence (DoFail utc req) = Some (rf_run_id req, rf_generation req)"
| "op_fence (DoContinue utc req) = Some (rt_run_id req, rt_generation req)"
| "op_fence (DoQueueRetry utc req) = Some (ry_run_id req, ry_generation req)"
| "op_fence (DoStartRetry req) = Some (rq_queued_run_id req, rq_generation req)"

fun run_ops :: "'db run_env \<Rightarrow> run_op list \<Rightarrow> 'db \<Rightarrow> 'db \<times> (run_store_error, run_record) result list" where
  "run_ops env [] db = (db, [])"
| "run_ops env (op # ops) db =
     (case exec_run_op env op db of (db1, res) \<Rightarrow> (case run_ops env ops db1 of (db2, rs) \<Rightarrow> (db2, res # rs)))"

lemmas fenced_ops = run_renew_claim_def release_claim_def complete_run_def fail_run_def record_continuation_def queue_retry_def

lemma claim_run_step:
  assumes "run_env_ok env view" "store_inv env (view db)" "claim_run env utc req db = (db', res)"
  shows "store_step env (view db) (view db')"
  using assms(1,3)
proof (cases rule: claim_run_cases)
  case (refused e)
  then show ?thesis using store_step_refl [OF assms(2)] by simp
next
  case (taken r b)
  note active = can_claim_active [OF taken(2)]
  from update_step(1) [OF assms(2) taken(5,1) claimed_kept [OF active] active] taken(6) show ?thesis by simp
qed

lemma exec_run_step:
  assumes "run_env_ok env view" "store_inv env (view db)" "exec_run_op env op db = (db', res)"
  shows "store_step env (view db) (view db') \<and>
    (\<forall>i g. op_fence op = Some (i, g) \<longrightarrow> is_ok res \<longrightarrow> (\<exists>r. stored env (view db) i = Some r \<and> rr_claim_generation r = g))"
proof -
  have fenced: "store_step env (view db) (view db') \<and> (is_ok res \<longrightarrow> (\<exists>r. stored env (view db) i = Some r \<and> rr_claim_generation r = g))"
    if "with_current_claim env utc i g target change db = (db', res)" "\<And>r r'. change r = Inr r' \<Longrightarrow> run_is_active r \<Longrightarrow> run_kept r r'"
    for utc i g target change
    using current_claim_step [OF assms(1,2) that] by blast
  show ?thesis
  proof (cases op)
    case (DoCreate r)
    with create_run_step(1) [OF assms(1,2)] assms(3) show ?thesis by auto
  next
    case (DoClaim utc req)
    with claim_run_step [OF assms(1,2)] assms(3) show ?thesis by auto
  next
    case (DoStartRetry req)
    obtain res' where start: "start_retry_attempt env req db = (db', res')" "res = map_sum id rs_retry_run res'"
      using assms(3) DoStartRetry by (auto split: prod.splits)
    from assms(1,2) start(1) show ?thesis
    proof (cases rule: start_retry_cases)
      case (refused e)
      with start(2) DoStartRetry store_step_same [OF refused(2,3)] show ?thesis by simp
    next
      case (started r)
      with DoStartRetry show ?thesis by simp
    qed
  next
    case (DoRenew utc i g)
    with assms(3) show ?thesis by (simp add: fenced_ops) (auto dest!: fenced simp: run_kept_def)
  next
    case (DoRelease utc req)
    with assms(3) show ?thesis by (simp add: fenced_ops) (auto dest!: fenced simp: run_kept_def clear_claim_def)
  next
    case (DoComplete utc req)
    with assms(3) show ?thesis by (simp add: fenced_ops) (auto dest!: fenced simp: run_kept_def clear_claim_def)
  next
    case (DoFail utc req)
    with assms(3) show ?thesis by (simp add: fenced_ops) (auto dest!: fenced simp: run_kept_def clear_claim_def)
  next
    case (DoContinue utc req)
    with assms(3) show ?thesis by (simp add: fenced_ops) (auto dest!: fenced simp: run_kept_def split: if_splits)
  next
    case (DoQueueRetry utc req)
    with assms(3) show ?thesis by (simp add: fenced_ops) (auto dest!: fenced simp: run_kept_def clear_claim_def)
  qed
qed

lemma run_ops_step:
  assumes "run_env_ok env view" "store_inv env (view db)"
  shows "store_step env (view db) (view (fst (run_ops env ops db)))"
  using assms(2)
proof (induction ops arbitrary: db)
  case Nil
  then show ?case using store_step_refl by simp
next
  case (Cons op ops)
  obtain db1 res where one: "exec_run_op env op db = (db1, res)" by force
  note step = exec_run_step [OF assms(1) Cons.prems one, THEN conjunct1]
  then have "store_inv env (view db1)" by (simp add: store_step_def)
  from store_step_trans [OF step Cons.IH [OF this]] one show ?case by (simp add: case_prod_beta)
qed

lemma store_inv_empty: "store_inv env Map.empty"
  by (simp add: store_inv_def stored_def)

subsection \<open>Lanes, finished runs, fencing\<close>

text \<open>Starting from an empty store, after any history two active runs are never in the same lane
  (the same task and role), and every record is stored under its own identifier.\<close>

theorem one_active_run_per_lane:
  assumes "run_env_ok env view" "view db = Map.empty"
    and "stored env (view (fst (run_ops env ops db))) i = Some r" "stored env (view (fst (run_ops env ops db))) j = Some s"
    and "run_is_active r" "run_is_active s" "rr_task_id r = rr_task_id s" "rr_role r = rr_role s"
  shows "i = j \<and> rr_run_id r = i"
proof -
  have "store_inv env (view (fst (run_ops env ops db)))"
    using run_ops_step [OF assms(1), of db ops] store_inv_empty [of env] assms(2) by (simp add: store_step_def)
  from one_per_lane [OF this assms(3-6)] store_invD(1) [OF this assms(3)] assms(7,8) show ?thesis by (simp add: same_lane_def)
qed

text \<open>C13: The database stays well-formed over any history from an empty store: every record key holds a
  decodable record with that identifier, the index by role has an entry for exactly the active
  runs, and the marker of an active run's lane names that run.\<close>

theorem run_indexes_consistent:
  assumes "run_env_ok env view" "view db = Map.empty" "m = view (fst (run_ops env ops db))"
  shows "(\<forall>i b. m (run_record_key i) = Some b \<longrightarrow> (\<exists>r. re_decode env b = Inr r \<and> rr_run_id r = i)) \<and>
    (\<forall>k. starts_with k ''index:run:active-role:'' \<longrightarrow>
       (m k \<noteq> None \<longleftrightarrow>
        (\<exists>i r. stored env m i = Some r \<and> run_is_active r \<and> k = run_active_role_index_key (run_role_str (rr_role r)) i))) \<and>
    (\<forall>i r. stored env m i = Some r \<and> run_is_active r \<longrightarrow> m (active_task_role_marker r) = Some i)"
proof -
  have inv: "store_inv env m"
    using run_ops_step [OF assms(1), of db ops] store_inv_empty [of env] assms(2,3) by (simp add: store_step_def)
  have "\<forall>i b. m (run_record_key i) = Some b \<longrightarrow> (\<exists>r. re_decode env b = Inr r \<and> rr_run_id r = i)"
    using inv by (simp add: store_inv_def)
  with store_invD(3-5) [OF inv] show ?thesis by blast
qed

text \<open>A finished run never changes: once a run is completed, failed or abandoned, no history of the
  store alters its record.\<close>

theorem finished_runs_are_final:
  assumes "run_env_ok env view" "store_inv env (view db)" "stored env (view db) i = Some r" "\<not> run_is_active r"
  shows "stored env (view (fst (run_ops env ops db))) i = Some r"
  using run_ops_step [OF assms(1,2), of ops] assms(3,4) by (fastforce simp: store_step_def run_kept_def)

text \<open>C3: A stale claim holder is fenced off: once the generation of a run has moved past \<open>g\<close>, no
  operation that presents \<open>g\<close> for this run succeeds at any later point of any history.\<close>

theorem stale_holder_is_fenced:
  assumes "run_env_ok env view" "store_inv env (view db)" "stored env (view db) i = Some r" "g < rr_claim_generation r"
    and "(op, res) \<in> set (zip ops (snd (run_ops env ops db)))" "op_fence op = Some (i, g)"
  shows "\<not> is_ok res"
  using assms(2-5)
proof (induction ops arbitrary: db r)
  case (Cons first ops)
  obtain db1 res1 where one: "exec_run_op env first db = (db1, res1)" by force
  note step = exec_run_step [OF assms(1) Cons.prems(1) one]
  then obtain r1 where r1: "stored env (view db1) i = Some r1" "run_kept r r1"
    using Cons.prems(2) unfolding store_step_def by blast
  have inv1: "store_inv env (view db1)" using step by (simp add: store_step_def)
  have "g < rr_claim_generation r1" using r1(2) Cons.prems(3) by (auto simp: run_kept_def)
  note later = Cons.IH [OF inv1 r1(1) this]
  from Cons.prems(4) one consider "op = first" "res = res1" | "(op, res) \<in> set (zip ops (snd (run_ops env ops db1)))"
    by (auto simp: case_prod_beta)
  then show ?case
  proof cases
    case 1
    with step assms(6) Cons.prems(2,3) show ?thesis by auto
  next
    case 2
    then show ?thesis by (rule later)
  qed
qed simp

text \<open>A claim is exclusive until its lease ends: while the claim on a run has not expired, nobody can
  claim the run, and the attempt changes nothing.\<close>

theorem live_claim_is_exclusive:
  assumes "run_env_ok env view" "stored env (view db) (cr_run_id req) = Some r"
    and "run_has_active_claim (rr_status r)" "\<not> claim_is_expired_at r utc"
    and "claim_run env utc req db = (db', res)"
  shows "db' = db \<and> \<not> is_ok res \<and>
    (load_required env db (cr_run_id req) = Inr r \<longrightarrow> res = Inl (DuplicateActiveClaim (rr_task_id r) (rr_role r) (rr_run_id r)))"
proof -
  have no: "\<not> can_claim utc r" "rr_status r \<noteq> RunRetryQueued"
    using assms(3,4) by (auto simp: can_claim_def run_has_active_claim_def)
  show ?thesis
  proof (cases "load_required env db (cr_run_id req)")
    case (Inl e)
    then have "claim_run env utc req db = (db, Inl e)" by (simp add: claim_run_def)
    with assms(5) have "db' = db" "res = Inl e" by auto
    with Inl show ?thesis by simp
  next
    case (Inr r')
    with load_stored [OF assms(1) Inr] assms(2,3,5) no show ?thesis by (auto simp: claim_run_def)
  qed
qed

text \<open>A claim that succeeds moves the fence: the run was claimable, the returned record is the stored
  one with the next generation, the caller as owner and the requested lease, no other run
  changes, and the previous generation is fenced off unless the counter is exhausted.\<close>

theorem claim_run_moves_fence:
  assumes "run_env_ok env view" "store_inv env (view db)" "claim_run env utc req db = (db', Inr r')"
  shows "\<exists>r. stored env (view db) (cr_run_id req) = Some r \<and> can_claim utc r \<and> r' = claimed req r \<and>
    stored env (view db') = (stored env (view db))(cr_run_id req \<mapsto> r') \<and>
    (rr_claim_generation r \<noteq> - 1 \<longrightarrow> rr_claim_generation r < rr_claim_generation r')"
  using assms(1,3)
proof (cases rule: claim_run_cases)
  case (taken r b)
  note active = can_claim_active [OF taken(2)]
  from update_step(2) [OF assms(2) taken(5,1) claimed_kept [OF active] active] taken next_generation_grows
  show ?thesis by (auto simp: claimed_def)
qed simp

subsection \<open>Listing the active runs\<close>

lemma load_indexed_stored:
  assumes "run_env_ok env view" "load_indexed env keep db items = Inr rs"
  shows "list_all is_ok items \<and>
    rs = List.map_filter (\<lambda>x. case stored env (view db) (last (split_on (CHR '':'') (fst (projr x)))) of
        None \<Rightarrow> None | Some r \<Rightarrow> if keep r then Some r else None) items"
  using assms(2)
proof (induction items arbitrary: rs)
  case (Cons x items)
  show ?case
  proof (cases x)
    case (Inl e)
    with Cons.prems show ?thesis by simp
  next
    case (Inr kv)
    obtain k v where kv: "kv = (k, v)" by force
    from Cons.prems Inr kv obtain found rs' where g: "get_run_locked env db (last (split_on (CHR '':'') k)) = Inr found"
      and r: "load_indexed env keep db items = Inr rs'"
      and rs: "rs = (case found of None \<Rightarrow> rs' | Some r \<Rightarrow> if keep r then r # rs' else rs')"
      by (auto split: sum.splits)
    from get_run_stored [OF assms(1) g] Cons.IH [OF r] rs Inr kv show ?thesis
      by (simp add: List.map_filter_simps split: option.splits)
  qed
qed (simp add: List.map_filter_simps)

lemma map_filter_member: "r \<in> set (List.map_filter f xs) \<longleftrightarrow> (\<exists>x \<in> set xs. f x = Some r)"
  by (induction xs) (auto simp: List.map_filter_simps split: option.splits)

lemma active_runs_entries:
  assumes "run_env_ok env view" "store_inv env (view db)" "active_runs env db = Inr rs"
  shows "set rs = {r. \<exists>i s. stored env (view db) i = Some s \<and> run_is_active s \<and>
      stored env (view db) (key_escape i) = Some r \<and> run_is_active r}"
    and "sorted (map rr_run_id rs)"
proof -
  let ?items = "re_prefix env db ''index:run:active-role:''"
  obtain rs0 where load: "load_indexed env run_is_active db ?items = Inr rs0" and rs: "rs = sort_key rr_run_id rs0"
    using assms(3) by (auto simp: active_runs_def map_sum_def split: sum.splits)
  note entries = load_indexed_stored [OF assms(1) load]
  have items: "Inr (k, v) \<in> set ?items \<longleftrightarrow> view db k = Some v \<and> starts_with k ''index:run:active-role:''" for k v
    using assms(1) entries unfolding run_env_ok_def by blast
  have keys: "(\<exists>v. Inr (k, v) \<in> set ?items) \<longleftrightarrow>
      (\<exists>i s. stored env (view db) i = Some s \<and> run_is_active s \<and> k = run_active_role_index_key (run_role_str (rr_role s)) i)" for k
    unfolding items using store_invD(4,5) [OF assms(2)] by fastforce
  have "r \<in> set rs0 \<longleftrightarrow> (\<exists>k v. Inr (k, v) \<in> set ?items \<and> stored env (view db) (last (split_on (CHR '':'') k)) = Some r \<and> run_is_active r)" for r
  proof -
    have "r \<in> set rs0 \<longleftrightarrow> (\<exists>x \<in> set ?items. stored env (view db) (last (split_on (CHR '':'') (fst (projr x)))) = Some r \<and> run_is_active r)"
      unfolding entries [THEN conjunct2] map_filter_member by (auto split: option.splits if_splits)
    also have "\<dots> \<longleftrightarrow> (\<exists>k v. Inr (k, v) \<in> set ?items \<and> stored env (view db) (last (split_on (CHR '':'') k)) = Some r \<and> run_is_active r)"
      using entries [THEN conjunct1] by (force simp: list_all_iff is_ok_conv)
    finally show ?thesis .
  qed
  then show "set rs = {r. \<exists>i s. stored env (view db) i = Some s \<and> run_is_active s \<and>
      stored env (view db) (key_escape i) = Some r \<and> run_is_active r}"
    using keys unfolding rs set_sort set_eq_iff mem_Collect_eq by (metis last_part)
  show "sorted (map rr_run_id rs)" unfolding rs by simp
qed

lemma key_escape_plain: "key_escape i = i \<longleftrightarrow> CHR ''%'' \<notin> set i \<and> CHR '':'' \<notin> set i"
proof (induction i)
  case (Cons c i)
  have "length (key_escape s) \<ge> length s" for s
    by (induction s) (auto simp: key_escape_Cons escape_char_def)
  from this [of i] Cons show ?case
    by (auto simp: key_escape_Cons escape_char_def dest!: arg_cong [where f = length])
qed simp

text \<open>\<open>active_runs\<close> lists the active runs in order of their identifiers, and all of them as long as no
  identifier of an active run contains a colon or a percent sign.\<close>

theorem active_runs_lists_plain_ids:
  assumes "run_env_ok env view" "store_inv env (view db)" "active_runs env db = Inr rs"
    and "\<forall>i r. stored env (view db) i = Some r \<and> run_is_active r \<longrightarrow> CHR ''%'' \<notin> set i \<and> CHR '':'' \<notin> set i"
  shows "set rs = {r. \<exists>i. stored env (view db) i = Some r \<and> run_is_active r} \<and> sorted (map rr_run_id rs)"
proof -
  have plain: "key_escape i = i" if "stored env (view db) i = Some r" "run_is_active r" for i r
    using assms(4) that key_escape_plain by blast
  have "{r. \<exists>i s. stored env (view db) i = Some s \<and> run_is_active s \<and> stored env (view db) (key_escape i) = Some r \<and> run_is_active r} =
      {r. \<exists>i. stored env (view db) i = Some r \<and> run_is_active r}" (is "?L = ?R")
  proof
    show "?R \<subseteq> ?L" by clarsimp (metis plain)
  qed auto
  with active_runs_entries [OF assms(1-3)] show ?thesis by simp
qed

text \<open>\<open>active_runs\<close> misses every run whose identifier contains a colon: the identifier is read back from
  the index key in its escaped form and escaped again for the lookup.\<close>

theorem colon_runs_are_invisible:
  assumes "run_env_ok env view" "store_inv env (view db)" "active_runs env db = Inr rs"
    and "stored env (view db) i = Some r" "CHR '':'' \<in> set i"
  shows "r \<notin> set rs"
proof
  assume "r \<in> set rs"
  then obtain j where "stored env (view db) (key_escape j) = Some r" using active_runs_entries(1) [OF assms(1-3)] by auto
  with assms(4) store_invD(1) [OF assms(2)] have "i = key_escape j" by metis
  with assms(5) show False by simp
qed

subsection \<open>A concrete store\<close>

text \<open>
  An association list as the database, with a codec for four records, to show that the
  assumptions can hold: a plain run before and after a second claim, one whose identifier
  contains a colon, and a failed one.
\<close>

definition demo_plain :: run_record where
  "demo_plain = (new_run_record ''r1'' ''t'' WorkerRole 0)
     \<lparr>rr_status := RunClaimed, rr_claim_generation := 2, rr_session_id := Some ''s'', rr_lease_expires_at := Some 50\<rparr>"

definition demo_colon :: run_record where
  "demo_colon = new_run_record ''r:1'' ''t'' WorkerRole 0"

definition demo_failed :: run_record where
  "demo_failed = (new_run_record ''r2'' ''t'' WorkerRole 0)\<lparr>rr_status := RunFailed\<rparr>"

definition demo_claim_request :: claim_request where
  "demo_claim_request = \<lparr>cr_run_id = ''r1'', cr_owner = ''o'', cr_session_id = None, cr_claimed_at = 10, cr_lease_expires_at = 70\<rparr>"

definition demo_reclaimed :: run_record where
  "demo_reclaimed = claimed demo_claim_request demo_plain"

fun db_op :: "batch_op \<Rightarrow> (string \<times> string) list \<Rightarrow> (string \<times> string) list" where
  "db_op (BatchInsert k v) db = (k, v) # db"
| "db_op (BatchRemove k) db = filter (\<lambda>x. fst x \<noteq> k) db"

definition demo_run_env :: "(string \<times> string) list run_env" where
  "demo_run_env =
     \<lparr>re_get = (\<lambda>db k. Inr (map_of db k)),
      re_prefix = (\<lambda>db p. map Inr (filter (\<lambda>x. starts_with (fst x) p) (AList.clearjunk db))),
      re_remove = (\<lambda>k db. Inr (filter (\<lambda>x. fst x \<noteq> k) db)),
      re_commit = (\<lambda>ops db. Inr (fold db_op ops db)),
      re_encode = (\<lambda>r. if r = demo_plain then Inr ''1'' else if r = demo_colon then Inr ''2''
                       else if r = demo_failed then Inr ''3'' else if r = demo_reclaimed then Inr ''4''
                       else Inl ''unsupported''),
      re_decode = (\<lambda>b. if b = ''1'' then Inr demo_plain else if b = ''2'' then Inr demo_colon
                       else if b = ''3'' then Inr demo_failed else if b = ''4'' then Inr demo_reclaimed
                       else Inl ''malformed'')\<rparr>"

lemma map_of_remove_key: "map_of (filter (\<lambda>x. fst x \<noteq> k) db) = (map_of db)(k := None)"
  by (induction db) (auto simp: fun_eq_iff)

lemma map_of_db_op: "map_of (db_op op db) = apply_op op (map_of db)"
  by (cases op) (simp_all add: map_of_remove_key)

lemma map_of_db_ops: "map_of (fold db_op ops db) = apply_batch ops (map_of db)"
  by (induction ops arbitrary: db) (simp_all add: apply_batch_def map_of_db_op)

lemma demo_records_differ: "demo_plain \<noteq> demo_colon" "demo_plain \<noteq> demo_failed" "demo_colon \<noteq> demo_failed"
  "demo_reclaimed \<noteq> demo_plain" "demo_reclaimed \<noteq> demo_colon" "demo_reclaimed \<noteq> demo_failed"
  by (simp_all add: demo_plain_def demo_colon_def demo_failed_def new_run_record_def demo_reclaimed_def claimed_def demo_claim_request_def)

lemma demo_run_env_ok: "run_env_ok demo_run_env map_of"
proof -
  have entry: "map_of db k = Some v \<longleftrightarrow> (k, v) \<in> set (AList.clearjunk db)" for db :: "(string \<times> string) list" and k v
    by (metis distinct_clearjunk map_of_clearjunk map_of_eq_Some_iff)
  have distinct: "distinct (map Inr (filter P (AList.clearjunk db)) :: (string, string \<times> string) result list)" for P and db :: "(string \<times> string) list"
    using distinct_clearjunk [of db] by (simp add: distinct_map distinct_filter)
  show ?thesis
    unfolding run_env_ok_def using demo_records_differ distinct
    by (auto simp: demo_run_env_def map_of_remove_key map_of_db_ops entry image_iff split: if_splits)
qed

definition one_run_db :: "run_record \<Rightarrow> string \<Rightarrow> (string \<times> string) list" where
  "one_run_db r b = map (\<lambda>k. (k, if k = active_task_role_marker r then rr_run_id r else [])) (record_index_keys r) @
     [(run_record_key (rr_run_id r), b)]"

lemma one_run_db:
  assumes "re_decode env b = Inr r"
  shows "store_inv env (map_of (one_run_db r b))" "stored env (map_of (one_run_db r b)) = [rr_run_id r \<mapsto> r]"
proof -
  have "map_of (map (\<lambda>k. (k, f k)) ks @ [(k0, b)]) k = (if k \<in> set ks then Some (f k) else if k = k0 then Some b else None)"
    for f ks and k0 k :: string by (induction ks) auto
  then have view: "map_of (one_run_db r b) = put_record None r b Map.empty"
    by (auto simp: fun_eq_iff one_run_db_def put_record_def)
  have none: "stored env Map.empty i = None" for i by (simp add: stored_def)
  show "store_inv env (map_of (one_run_db r b))"
    unfolding view by (rule store_inv_put [OF store_inv_empty assms]) (simp_all add: none)
  show "stored env (map_of (one_run_db r b)) = [rr_run_id r \<mapsto> r]"
    unfolding view by (subst stored_put [OF assms]) (auto simp: fun_eq_iff none)
qed

lemma demo_decodes: "re_decode demo_run_env ''1'' = Inr demo_plain" "re_decode demo_run_env ''2'' = Inr demo_colon"
  "re_decode demo_run_env ''3'' = Inr demo_failed"
  by (simp_all add: demo_run_env_def)

lemma demo_statuses: "rr_run_id demo_plain = ''r1''" "rr_run_id demo_colon = ''r:1''" "rr_run_id demo_failed = ''r2''"
  "run_is_active demo_plain" "run_is_active demo_colon" "\<not> run_is_active demo_failed" "rr_claim_generation demo_plain = 2"
  "run_has_active_claim (rr_status demo_plain)" "\<not> claim_is_expired_at demo_plain 10"
  by (simp_all add: demo_plain_def demo_colon_def demo_failed_def new_run_record_def run_is_active_def run_is_terminal_def
      run_has_active_claim_def claim_is_expired_at_def)

lemmas demo_stored = one_run_db [OF demo_decodes(1)] one_run_db [OF demo_decodes(2)] one_run_db [OF demo_decodes(3)]

theorem finished_runs_are_final_witness:
  "stored demo_run_env (map_of (fst (run_ops demo_run_env [DoRenew 10 ''r2'' 0, DoClaim 10 (demo_claim_request\<lparr>cr_run_id := ''r2''\<rparr>)]
     (one_run_db demo_failed ''3'')))) ''r2'' = Some demo_failed"
  by (rule finished_runs_are_final [OF demo_run_env_ok demo_stored(5)]) (simp_all add: demo_stored demo_statuses)

theorem stale_holder_is_fenced_witness:
  "\<not> is_ok (hd (snd (run_ops demo_run_env [DoRenew 10 ''r1'' 1] (one_run_db demo_plain ''1''))))"
  by (rule stale_holder_is_fenced [OF demo_run_env_ok demo_stored(1), where i = "''r1''" and r = demo_plain and g = 1
        and op = "DoRenew 10 ''r1'' 1" and ops = "[DoRenew 10 ''r1'' 1]"])
    (simp_all add: demo_stored demo_statuses case_prod_beta)

theorem live_claim_is_exclusive_witness:
  "fst (claim_run demo_run_env 10 demo_claim_request (one_run_db demo_plain ''1'')) = one_run_db demo_plain ''1''"
  using live_claim_is_exclusive [OF demo_run_env_ok, of "one_run_db demo_plain ''1''" demo_claim_request demo_plain 10]
  by (simp add: demo_claim_request_def demo_stored demo_statuses case_prod_beta prod_eq_iff)

lemma one_run_db_get: "map_of (one_run_db r b) (run_record_key (rr_run_id r)) = Some b"
proof -
  have "map_of (map (\<lambda>k. (k, f k)) ks @ [(k0, b)]) k0 = Some b" if "k0 \<notin> set ks" for f ks and k0 :: string
    using that by (induction ks) auto
  then show ?thesis by (simp add: one_run_db_def)
qed

lemma demo_get: "re_get demo_run_env db k = Inr (map_of db k)"
  by (simp add: demo_run_env_def)

theorem claim_run_moves_fence_witness:
  "rr_claim_generation demo_plain < rr_claim_generation demo_reclaimed"
proof -
  let ?db = "one_run_db demo_plain ''1''"
  have "load_required demo_run_env ?db ''r1'' = Inr demo_plain"
    using one_run_db_get [of demo_plain "''1''"] by (simp add: load_required_def get_run_locked_def demo_get demo_decodes demo_statuses)
  moreover have "can_claim 100 demo_plain" "rr_status demo_plain \<noteq> RunRetryQueued"
    by (simp_all add: can_claim_def demo_statuses) (simp_all add: demo_plain_def claim_is_expired_at_def)
  moreover have "re_encode demo_run_env demo_reclaimed = Inr ''4''" using demo_records_differ by (simp add: demo_run_env_def)
  moreover have "re_commit demo_run_env ops db = Inr (fold db_op ops db)" for ops db by (simp add: demo_run_env_def)
  moreover have "cr_run_id demo_claim_request = ''r1''" by (simp add: demo_claim_request_def)
  ultimately have "snd (claim_run demo_run_env 100 demo_claim_request ?db) = Inr demo_reclaimed"
    by (simp add: claim_run_def commit_record_def demo_reclaimed_def [symmetric])
  then have "claim_run demo_run_env 100 demo_claim_request ?db = (fst (claim_run demo_run_env 100 demo_claim_request ?db), Inr demo_reclaimed)"
    by (simp add: prod_eq_iff)
  from claim_run_moves_fence [OF demo_run_env_ok demo_stored(1) this]
  show ?thesis by (auto simp: demo_claim_request_def demo_stored demo_statuses)
qed

lemma demo_listing:
  "active_runs demo_run_env (one_run_db demo_plain ''1'') = Inr [demo_plain]"
  "active_runs demo_run_env (one_run_db demo_colon ''2'') = Inr []"
  by (simp_all add: active_runs_def demo_run_env_def one_run_db_def record_index_keys_def demo_plain_def demo_colon_def new_run_record_def
      run_key_defs key_escape_Cons escape_char_def starts_with_def run_role_str_def run_is_active_def run_is_terminal_def
      active_task_role_marker_def get_run_locked_def)

theorem active_runs_lists_plain_ids_witness:
  "set [demo_plain] = {r. \<exists>i. stored demo_run_env (map_of (one_run_db demo_plain ''1'')) i = Some r \<and> run_is_active r}"
proof -
  have "stored demo_run_env (map_of (one_run_db demo_plain ''1'')) i = Some r \<and> run_is_active r \<longrightarrow>
      CHR ''%'' \<notin> set i \<and> CHR '':'' \<notin> set i" for i r
    by (simp add: demo_stored demo_statuses)
  then show ?thesis
    using active_runs_lists_plain_ids [OF demo_run_env_ok demo_stored(1) demo_listing(1)] by blast
qed

theorem colon_runs_are_invisible_witness:
  "stored demo_run_env (map_of (one_run_db demo_colon ''2'')) ''r:1'' = Some demo_colon \<and> run_is_active demo_colon \<and>
   demo_colon \<notin> set (projr (active_runs demo_run_env (one_run_db demo_colon ''2'')))"
  using colon_runs_are_invisible [OF demo_run_env_ok demo_stored(3) demo_listing(2), of "''r:1''" demo_colon]
  by (simp add: demo_stored demo_statuses demo_listing)

lemma demo_created:
  "stored demo_run_env (map_of (fst (run_ops demo_run_env [DoCreate demo_colon] []))) ''r:1'' = Some demo_colon"
proof -
  have same: "demo_colon\<lparr>rr_updated_at := rr_created_at demo_colon\<rparr> = demo_colon" by (simp add: demo_colon_def new_run_record_def)
  have "re_encode demo_run_env demo_colon = Inr ''2''" using demo_records_differ by (simp add: demo_run_env_def)
  moreover have "re_commit demo_run_env ops db = Inr (fold db_op ops db)" for ops db by (simp add: demo_run_env_def)
  ultimately have "snd (create_run demo_run_env demo_colon []) = Inr demo_colon"
    by (simp add: create_run_def get_run_locked_def demo_get find_active_duplicate_def demo_statuses same commit_record_def)
  then have made: "create_run demo_run_env demo_colon [] = (fst (create_run demo_run_env demo_colon []), Inr demo_colon)"
    by (simp add: prod_eq_iff)
  have empty: "store_inv demo_run_env (map_of [])" using store_inv_empty [of demo_run_env] by simp
  from create_run_step(2) [OF demo_run_env_ok empty made refl] made show ?thesis
    by (simp add: case_prod_beta demo_statuses)
qed

theorem one_active_run_per_lane_witness: "rr_run_id demo_colon = ''r:1''"
  by (rule one_active_run_per_lane [OF demo_run_env_ok _ demo_created demo_created, THEN conjunct2]) (simp_all add: demo_statuses)

theorem run_indexes_consistent_witness:
  "map_of (fst (run_ops demo_run_env [DoCreate demo_colon] [])) (run_active_role_index_key ''worker'' ''r:1'') \<noteq> None"
proof -
  have "run_role_str (rr_role demo_colon) = ''worker''" by (simp add: demo_colon_def new_run_record_def run_role_str_def)
  moreover have "starts_with (run_active_role_index_key ''worker'' ''r:1'') ''index:run:active-role:''"
    by (simp add: run_key_defs starts_with_def)
  ultimately show ?thesis
    using run_indexes_consistent [OF demo_run_env_ok _ refl, of "[]" "[DoCreate demo_colon]"] demo_created demo_statuses(5) by fastforce
qed

end
