(* ===== verification/Worker_Spawning.thy ===== *)
theory Worker_Spawning
  imports Worker_Pool_Props
begin

text \<open>
  Spawning up to the minimum, respawning after a death, and the override parser of
  \<open>worker_pool.rs\<close>. The two respawn theorems state what the code does where it departs from
  its purpose: the index of the replacement is always zero, and the session of a dead worker
  keeps pointing at its replacement.
\<close>

definition alive_set :: "worker_pool \<Rightarrow> worker_id set" where
  "alive_set p = {w. \<exists>i. get_worker p w = Some i \<and> wi_is_alive i}"

lemma alive_count_card:
  assumes "pool_ok p"
  shows "alive_count p = card (alive_set p)" "finite (alive_set p)"
proof -
  let ?ws = "filter (\<lambda>x. wi_is_alive (snd x)) (wp_workers p)"
  have "alive_set p = fst ` set ?ws"
    by (force simp: alive_set_def get_worker_def hm_get_iff [OF pool_okD(1) [OF assms]])
  moreover have "distinct (map fst ?ws)"
    using pool_okD(1) [OF assms] by (simp add: hm_wf_def distinct_map_filter)
  moreover have "alive_count p = length ?ws"
    by (simp add: alive_count_def alive_infos_def filter_map comp_def)
  ultimately show "alive_count p = card (alive_set p)" "finite (alive_set p)"
    by (metis distinct_card length_map set_map, simp)
qed

lemma alive_set_record: "alive_set (fst (record_spawned_worker now plan s p)) = insert (sp_worker_id plan) (alive_set p)"
  by (auto simp: alive_set_def get_worker_def pool_defs Let_def)

lemma alive_set_bury: "alive_set (p\<lparr>wp_workers := hm_modify w bury (wp_workers p)\<rparr>) = alive_set p - {w}"
  by (auto simp: alive_set_def get_worker_def bury_def)

lemma worker_name_inject [simp]: "worker_name a i = worker_name a j \<longleftrightarrow> i = j"
  by (simp add: worker_name_def)

lemma spawn_all_success:
  assumes "\<And>spec. is_ok (gw spec)"
  shows "alive_set (fst (spawn_all gw now plans p)) = alive_set p \<union> sp_worker_id ` set plans \<and>
    snd (spawn_all gw now plans p) = map sp_worker_id plans"
proof (induction plans arbitrary: p)
  case (Cons plan plans)
  obtain s where s: "gw (sp_spec plan) = Inr s"
    using assms [of "sp_spec plan"] by (auto simp: is_ok_conv)
  obtain p' where rec: "record_spawned_worker now plan s p = (p', sp_worker_id plan)"
    by (simp add: record_spawned_worker_def Let_def)
  with alive_set_record [of now plan s p] s Cons.IH [of p'] show ?case
    by (auto simp: spawn_worker_from_plan_def split: prod.splits)
qed simp

text \<open>If the live workers are numbered from zero without gaps and the gateway answers every
  request, \<open>spawn_to_min\<close> starts exactly the missing workers: it returns their identifiers and
  the number of live workers becomes the larger of what it was and the configured minimum.\<close>

theorem spawn_to_min_reaches_min:
  assumes "pool_ok p" and "\<And>spec. is_ok (gw spec)"
    and "alive_set p = worker_name (wc_agent_type (wp_config p)) ` {..<alive_count p}"
    and "spawn_to_min gw now p = (p', spawned)"
  shows "alive_count p' = max (alive_count p) (wc_min_count (wp_config p)) \<and>
    spawned = map (worker_name (wc_agent_type (wp_config p))) [alive_count p..<wc_min_count (wp_config p)]"
proof -
  let ?c = "alive_count p" and ?m = "wc_min_count (wp_config p)"
  let ?name = "worker_name (wc_agent_type (wp_config p))"
  have plans: "map sp_worker_id (plan_spawn_to_min p) = map ?name [?c..<?m]"
    by (rule nth_equalityI) (auto simp: plan_spawn_to_min_def Let_def spawn_plan_def add.commute)
  have "pool_ok p'"
    using pool_ok_spawn_all [OF assms(1), of gw now "plan_spawn_to_min p"] assms(4) by (simp add: spawn_to_min_def)
  moreover have "alive_set p' = ?name ` {..<?c} \<union> set (map ?name [?c..<?m])" "spawned = map ?name [?c..<?m]"
    using spawn_all_success [of gw now "plan_spawn_to_min p" p] assms plans
    by (simp_all add: spawn_to_min_def flip: set_map)
  moreover have "?name ` {..<?c} \<union> set (map ?name [?c..<?m]) = ?name ` {..<max ?c ?m}"
    unfolding set_map image_Un [symmetric] by (rule arg_cong [of _ _ "image ?name"]) auto
  moreover have "inj_on ?name A" for A by (simp add: inj_on_def)
  ultimately show ?thesis by (simp add: alive_count_card card_image)
qed

theorem spawn_to_min_reaches_min_witness:
  "alive_count demo_pool = 2 \<and> snd (spawn_to_min demo_gateway 0
     (new_worker_pool (default_worker_pool_config\<lparr>wc_min_count := 2\<rparr>) 10)) = [''default-0'', ''default-1'']"
proof -
  let ?p = "new_worker_pool (default_worker_pool_config\<lparr>wc_min_count := 2\<rparr>) 10"
  have "spawn_to_min demo_gateway 0 ?p = (demo_pool, [''default-0'', ''default-1''])"
    unfolding demo_pool_def by code_simp
  moreover have "alive_set ?p = worker_name (wc_agent_type (wp_config ?p)) ` {..<alive_count ?p}"
    by (simp add: alive_set_def get_worker_def new_worker_pool_def alive_count_def alive_infos_def)
  ultimately show ?thesis
    using spawn_to_min_reaches_min [OF pool_ok_new, of demo_gateway "default_worker_pool_config\<lparr>wc_min_count := 2\<rparr>" 10 0
        demo_pool "[''default-0'', ''default-1'']"]
    by (simp add: demo_gateway_def new_worker_pool_def default_worker_pool_config_def alive_count_def alive_infos_def)
qed

subsection \<open>Respawning\<close>

lemma parse_worker_name: "parse_u32 (worker_name a n) = None"
  by (rule parse_u32_dash) (simp add: worker_name_def)

lemma reconcile_plan:
  assumes "hm_get (wp_sessions p) s = Some (worker_name a n)" and "get_worker p (worker_name a n) \<noteq> None"
  shows "reconcile_worker_death s p =
    (let p' = p\<lparr>wp_workers := hm_modify (worker_name a n) bury (wp_workers p)\<rparr>
     in (p', if alive_count p' < wc_min_count (wp_config p) then Some (spawn_plan (wp_config p) 0) else None))"
  using assms by (auto simp: reconcile_worker_death_def get_worker_def parse_worker_name Let_def)

lemma handle_death_respawn:
  assumes "hm_get (wp_sessions p) s = Some (worker_name a n)" and "get_worker p (worker_name a n) \<noteq> None"
    and "alive_count (p\<lparr>wp_workers := hm_modify (worker_name a n) bury (wp_workers p)\<rparr>) < wc_min_count (wp_config p)"
    and "gw (sp_spec (spawn_plan (wp_config p) 0)) = Inr s'"
  shows "handle_worker_death gw now s p =
    (fst (record_spawned_worker now (spawn_plan (wp_config p) 0) s'
       (p\<lparr>wp_workers := hm_modify (worker_name a n) bury (wp_workers p)\<rparr>)),
     Inr (Some (worker_name (wc_agent_type (wp_config p)) 0)))"
  using assms(3,4) unfolding handle_worker_death_def reconcile_plan [OF assms(1,2)] Let_def
  by (simp add: spawn_worker_from_plan_def record_spawned_worker_def Let_def spawn_plan_def)

text \<open>A worker identifier is \<open><agent type>-<index>\<close>, which never parses as a number, so the
  replacement is always numbered zero. When a worker other than number zero dies and number
  zero is alive, the replacement takes the place of that live worker: its task is forgotten
  and the pool stays one worker short.\<close>

theorem respawn_overwrites_worker_zero:
  assumes "pool_ok p" and "a = wc_agent_type (wp_config p)" and "n \<noteq> 0"
    and "hm_get (wp_sessions p) s = Some (worker_name a n)"
    and "worker_name a n \<in> alive_set p" and "worker_name a 0 \<in> alive_set p"
    and "alive_count p = wc_min_count (wp_config p)"
    and "gw (sp_spec (spawn_plan (wp_config p) 0)) = Inr s'"
    and "handle_worker_death gw now s p = (p', r)"
  shows "r = Inr (Some (worker_name a 0)) \<and> worker_holds p' (worker_name a 0) = None \<and>
    alive_count p' = wc_min_count (wp_config p) - 1"
proof -
  let ?q = "p\<lparr>wp_workers := hm_modify (worker_name a n) bury (wp_workers p)\<rparr>"
  note card = alive_count_card [OF assms(1)] alive_count_card [OF pool_ok_bury [OF assms(1)], of "worker_name a n"]
  have q: "alive_set ?q = alive_set p - {worker_name a n}" by (rule alive_set_bury)
  have few: "alive_count ?q = wc_min_count (wp_config p) - 1"
    using card assms(5,7) by (simp add: q)
  have pos: "0 < wc_min_count (wp_config p)"
    using card(1,2) assms(5,7) by (metis card_gt_0_iff empty_iff)
  have known: "get_worker p (worker_name a n) \<noteq> None" using assms(5) by (auto simp: alive_set_def)
  have step: "handle_worker_death gw now s p =
      (fst (record_spawned_worker now (spawn_plan (wp_config p) 0) s' ?q), Inr (Some (worker_name a 0)))"
    unfolding assms(2) by (rule handle_death_respawn) (use assms(2,4,8) known few pos in simp_all)
  then have p': "p' = fst (record_spawned_worker now (spawn_plan (wp_config p) 0) s' ?q)"
    and r: "r = Inr (Some (worker_name a 0))" using assms(9) by auto
  have "alive_set p' = alive_set ?q"
    using assms(3,6) unfolding p' alive_set_record q by (auto simp: spawn_plan_def assms(2))
  moreover have "pool_ok p'" unfolding p' by (intro pool_ok_record pool_ok_bury assms(1))
  ultimately have "alive_count p' = wc_min_count (wp_config p) - 1"
    using few card by (simp add: alive_count_card)
  moreover have "worker_holds p' (worker_name a 0) = None"
    unfolding p' by (simp add: provider_defs pool_defs Let_def spawn_plan_def assms(2))
  ultimately show ?thesis using r by simp
qed

lemma demo_death:
  "handle_worker_death demo_gateway 5 ''s:/tmp/brehon/worktrees/default-1'' demo_pool =
     (fst (handle_worker_death demo_gateway 5 ''s:/tmp/brehon/worktrees/default-1'' demo_pool), Inr (Some ''default-0''))"
  by code_simp

lemma demo_pool_facts:
  "hm_get (wp_sessions demo_pool) ''s:/tmp/brehon/worktrees/default-1'' = Some (worker_name ''default'' 1)"
  "alive_count demo_pool = wc_min_count (wp_config demo_pool)" "wc_min_count (wp_config demo_pool) = 2"
  "wc_agent_type (wp_config demo_pool) = ''default''"
  "map_option wi_is_alive (get_worker demo_pool (worker_name ''default'' 0)) = Some True"
  "map_option wi_is_alive (get_worker demo_pool (worker_name ''default'' 1)) = Some True"
  by code_simp+

theorem respawn_overwrites_worker_zero_witness:
  "alive_count (fst (handle_worker_death demo_gateway 5 ''s:/tmp/brehon/worktrees/default-1'' demo_pool)) = 1"
proof -
  have "worker_name ''default'' 1 \<in> alive_set demo_pool" "worker_name ''default'' 0 \<in> alive_set demo_pool"
    using demo_pool_facts(5,6) by (auto simp: alive_set_def)
  then show ?thesis
    using respawn_overwrites_worker_zero [OF reachable_pool_ok [OF demo_pool_reachable],
        of "''default''" 1 _ demo_gateway _ 5, OF _ _ demo_pool_facts(1) _ _ demo_pool_facts(2) _ demo_death]
      demo_pool_facts(3,4)
    by (simp add: demo_gateway_def)
qed

text \<open>The session of a dead worker stays in the session index. After worker zero has been
  replaced, a second death notice for the old session therefore buries the live
  replacement.\<close>

theorem stale_death_notice_kills_replacement:
  assumes "pool_ok p" and "a = wc_agent_type (wp_config p)"
    and "hm_get (wp_sessions p) s = Some (worker_name a 0)"
    and "worker_name a 0 \<in> alive_set p" and "alive_count p \<le> wc_min_count (wp_config p)"
    and "gw (sp_spec (spawn_plan (wp_config p) 0)) = Inr s'"
  shows "worker_name a 0 \<in> alive_set (fst (handle_worker_death gw now s p)) \<and>
    worker_name a 0 \<notin> alive_set (fst (reconcile_worker_death s (fst (handle_worker_death gw now s p))))"
proof -
  let ?q = "p\<lparr>wp_workers := hm_modify (worker_name a 0) bury (wp_workers p)\<rparr>"
  let ?p' = "fst (record_spawned_worker now (spawn_plan (wp_config p) 0) s' ?q)"
  note card = alive_count_card [OF assms(1)] alive_count_card [OF pool_ok_bury [OF assms(1)], of "worker_name a 0"]
  have known: "get_worker p (worker_name a 0) \<noteq> None" using assms(4) by (auto simp: alive_set_def)
  have "alive_count ?q < alive_count p"
    using card assms(4) by (simp only: alive_set_bury card_Diff1_less)
  then have step: "fst (handle_worker_death gw now s p) = ?p'"
    using handle_death_respawn [of p s a 0 gw s' now] assms(3,5,6) known by simp
  have alive: "worker_name a 0 \<in> alive_set ?p'"
    unfolding alive_set_record by (simp add: spawn_plan_def assms(2))
  have "hm_get (wp_sessions ?p') s = Some (worker_name a 0)"
    using assms(3) by (simp add: record_spawned_worker_def Let_def spawn_plan_def assms(2))
  moreover have "get_worker ?p' (worker_name a 0) \<noteq> None" using alive by (auto simp: alive_set_def)
  ultimately have "fst (reconcile_worker_death s ?p') =
      ?p'\<lparr>wp_workers := hm_modify (worker_name a 0) bury (wp_workers ?p')\<rparr>"
    by (simp add: reconcile_plan Let_def)
  then show ?thesis unfolding step using alive by (simp only: alive_set_bury) simp
qed

lemma demo_session_zero:
  "hm_get (wp_sessions demo_pool) ''s:/tmp/brehon/worktrees/default-0'' = Some (worker_name ''default'' 0)"
  by code_simp

theorem stale_death_notice_kills_replacement_witness:
  "''default-0'' \<notin> alive_set (fst (reconcile_worker_death ''s:/tmp/brehon/worktrees/default-0''
     (fst (handle_worker_death demo_gateway 5 ''s:/tmp/brehon/worktrees/default-0'' demo_pool))))"
proof -
  have "worker_name ''default'' 0 = ''default-0''" by code_simp
  moreover have "worker_name ''default'' 0 \<in> alive_set demo_pool"
    using demo_pool_facts(5) by (auto simp: alive_set_def)
  ultimately show ?thesis
    using stale_death_notice_kills_replacement [OF reachable_pool_ok [OF demo_pool_reachable],
        of "''default''", OF _ demo_session_zero] demo_pool_facts
    by (simp add: demo_gateway_def)
qed

subsection \<open>The override parser\<close>

definition render_override :: "worker_pool_override \<Rightarrow> string" where
  "render_override v = po_agent_type v @ '':'' @ show_nat (po_count v)"

definition render_overrides :: "worker_pool_override list \<Rightarrow> string" where
  "render_overrides vs = join_with '','' (map render_override vs)"

definition override_ok :: "worker_pool_override \<Rightarrow> bool" where
  "override_ok v \<longleftrightarrow>
     trim (po_agent_type v) = po_agent_type v \<and> CHR '':'' \<notin> set (po_agent_type v) \<and>
     CHR '','' \<notin> set (po_agent_type v) \<and> po_kind v = Worker \<and> po_count v \<le> u32_max"

lemma trim_render: "override_ok v \<Longrightarrow> trim (render_override v) = render_override v"
proof -
  assume ok: "override_ok v"
  have "plain_char (last (render_override v))"
    using show_nat_chars [of "last (show_nat (po_count v))" "po_count v"] by (simp add: render_override_def)
  moreover have "\<not> is_whitespace (hd (utf8_chars (render_override v)))"
  proof (cases "po_agent_type v = []")
    case True
    then show ?thesis by (simp add: render_override_def trim_eval)
  next
    case False
    show ?thesis
    proof
      assume white: "is_whitespace (hd (utf8_chars (render_override v)))"
      obtain c s where s: "po_agent_type v = c # s" using False by (cases "po_agent_type v") auto
      let ?n = "utf8_len c - 1"
      have "\<not> is_whitespace (hd (utf8_chars (po_agent_type v)))" using ok False by (intro trim_hd) (simp_all add: override_ok_def)
      then have "hd (utf8_chars (render_override v)) \<noteq> hd (utf8_chars (po_agent_type v))" using white by metis
      then have "length s < ?n" by (cases "?n \<le> length s") (auto simp: render_override_def s)
      then have "CHR '':'' \<in> set (hd (utf8_chars (render_override v)))"
        by (cases "?n - length s") (auto simp: render_override_def s)
      moreover have "plain_char CHR '':''" by (simp add: plain_eval)
      ultimately show False using plain_not_white white by blast
    qed
  qed
  ultimately show ?thesis by (intro trim_plain_hd) (simp_all add: render_override_def)
qed

lemma parse_render: "override_ok v \<Longrightarrow> parse_override (render_override v) = Inr v"
proof -
  assume ok: "override_ok v"
  have "CHR '':'' \<notin> set (show_nat (po_count v))" using show_nat_chars by blast
  then have "split_on CHR '':'' (render_override v) = [po_agent_type v, show_nat (po_count v)]"
    using ok by (simp add: render_override_def override_ok_def split_on_append split_on_no_sep)
  with ok show ?thesis by (simp add: parse_override_def override_ok_def parse_u32_show_nat)
qed

lemma render_override_nonempty [simp]: "render_override v \<noteq> []" "[] \<noteq> render_override v"
  by (simp_all add: render_override_def)

lemma parse_parts_render: "list_all override_ok vs \<Longrightarrow> parse_override_parts (map render_override vs) = Inr vs"
  by (induction vs) (simp_all add: trim_render parse_render)

lemma join_with_nonempty: "ws \<noteq> [] \<Longrightarrow> [] \<notin> set ws \<Longrightarrow> join_with sep ws \<noteq> []"
  by (induction sep ws rule: join_with.induct) auto

text \<open>Printing a list of worker overrides and parsing the text gives the list back, for
  agent types without separators or surrounding blanks and counts that fit in 32 bits.\<close>

theorem parse_worker_overrides_roundtrip:
  assumes "list_all override_ok vs"
  shows "parse_worker_overrides (render_overrides vs) = Inr vs"
proof (cases "vs = []")
  case True
  then show ?thesis by (simp add: parse_worker_overrides_def render_overrides_def)
next
  case False
  have "CHR '','' \<notin> set (render_override v)" if "v \<in> set vs" for v
    using that assms show_nat_chars by (auto simp: list_all_iff override_ok_def render_override_def)
  then have "split_on CHR '','' (render_overrides vs) = map render_override vs"
    unfolding render_overrides_def using False by (intro split_on_join) auto
  moreover have "render_overrides vs \<noteq> []"
    unfolding render_overrides_def using False by (intro join_with_nonempty) auto
  ultimately show ?thesis
    using parse_parts_render [OF assms] by (simp add: parse_worker_overrides_def)
qed

theorem parse_worker_overrides_roundtrip_witness:
  "parse_worker_overrides ''claude:3,codex:12'' =
     Inr [\<lparr>po_agent_type = ''claude'', po_kind = Worker, po_count = 3\<rparr>,
          \<lparr>po_agent_type = ''codex'', po_kind = Worker, po_count = 12\<rparr>]"
proof -
  let ?vs = "[\<lparr>po_agent_type = ''claude'', po_kind = Worker, po_count = 3\<rparr>,
          \<lparr>po_agent_type = ''codex'', po_kind = Worker, po_count = 12\<rparr>]"
  have "list_all override_ok ?vs" by (simp add: override_ok_def u32_max_def trim_eval)
  moreover have "render_overrides ?vs = ''claude:3,codex:12''" by code_simp
  ultimately show ?thesis using parse_worker_overrides_roundtrip [of ?vs] by simp
qed

end
