(* ===== verification/Orchestrator_Props.thy ===== *)
theory Orchestrator_Props
  imports Orchestrator Worker_Spawning
begin

text \<open>
  Properties of the orchestrator that span its components: the joint invariant, the safety and
  progress of dispatch, the fate of blocked tasks, and the guarantees of retention and
  shutdown.
\<close>

named_theorems orch_simps \<open>which part of the orchestrator an operation leaves alone\<close>

subsection \<open>The joint invariant\<close>

definition orch_ok :: "orchestrator \<Rightarrow> bool" where
  "orch_ok s \<longleftrightarrow> board_ok (or_board s) \<and> graph_ok (or_graph s) \<and> pool_ok (or_pool s) \<and> distinct (or_completed s)"

lemma update_board_simps [simp, orch_simps]:
  "or_board (update_board f s) = f (or_board s)" "or_graph (update_board f s) = or_graph s"
  "or_pool (update_board f s) = or_pool s" "or_engine (update_board f s) = or_engine s"
  "or_completed (update_board f s) = or_completed s" "or_config (update_board f s) = or_config s"
  by (simp_all add: update_board_def)

lemma board_ok_mutators:
  "board_ok b \<Longrightarrow> board_ok (fst (update_task_status now t st b))"
  "board_ok b \<Longrightarrow> board_ok (fst (board_assign_task now t a ses b))"
  "board_ok b \<Longrightarrow> board_ok (fst (unassign_task now t b))"
  "board_ok b \<Longrightarrow> board_ok (fst (set_blocked now t bs b))"
  "board_ok b \<Longrightarrow> board_ok (fst (clear_blocked now t b))"
  by (simp_all add: update_task_status_def board_assign_task_def unassign_task_def set_blocked_def
      clear_blocked_def board_ok_with_task)

lemma orch_ok_board: "orch_ok s \<Longrightarrow> board_ok (f (or_board s)) \<Longrightarrow> orch_ok (update_board f s)"
  by (simp add: orch_ok_def)

lemma orch_ok_boardD: "orch_ok s \<Longrightarrow> board_ok (or_board s)"
  by (simp add: orch_ok_def)

lemma orch_ok_transition: "orch_ok s \<Longrightarrow> orch_ok (transition_task now t tr s)"
  by (auto simp: transition_task_def orch_ok_def board_ok_mutators split: option.splits sum.splits)

lemma orch_ok_unassign_all:
  "orch_ok s \<Longrightarrow> orch_ok (fold (\<lambda>t. update_board (fst \<circ> unassign_task now t)) ts s)"
  by (induction ts arbitrary: s) (simp_all add: orch_ok_def board_ok_mutators)

lemma orch_ok_process_event: "orch_ok s \<Longrightarrow> orch_ok (process_event now ev s)"
proof (cases "ev_kind ev")
  case (AgentDied a ses r)
  assume "orch_ok s"
  with AgentDied show ?thesis by (auto simp: process_event_def orch_ok_unassign_all split: option.splits)
next
  case (TaskCompleted t)
  assume "orch_ok s"
  with TaskCompleted show ?thesis by (simp add: process_event_def orch_ok_transition)
next
  case (MergeAborted t r)
  assume "orch_ok s"
  with MergeAborted show ?thesis by (simp add: process_event_def orch_ok_transition)
qed (auto simp: process_event_def orch_ok_transition orch_ok_def board_ok_mutators board_ok_add
    graph_ok_add_task split: option.splits)

lemma pool_ok_engine_assign:
  assumes "pool_ok p"
  shows "pool_ok (fst (snd (engine_assign_task h board now task e p)))"
proof -
  obtain e' p' r where run: "engine_assign_task h board now task e p = (e', p', r)" by (metis prod_cases3)
  from engine_assign_spec [OF assms run] assms show ?thesis by (auto simp: run split: if_splits)
qed

lemma orch_ok_process_stream: "orch_ok s \<Longrightarrow> orch_ok (process_stream now evs s)"
proof -
  assume "orch_ok s"
  then have "orch_ok (fold (\<lambda>(ev, _). process_event now ev) evs s)"
    by (induction evs arbitrary: s) (auto simp: orch_ok_process_event)
  then show ?thesis by (auto simp: process_stream_def Let_def orch_ok_def)
qed

lemma orch_ok_add_task: "orch_ok s \<Longrightarrow> orch_ok (orch_add_task h now t title desc deps s)"
proof -
  have "graph_ok g \<Longrightarrow> graph_ok (fold (\<lambda>d g. fst (add_dependency h t d g)) deps g)" for g
    by (induction deps arbitrary: g) (simp_all add: graph_ok_add_dependency)
  then show "orch_ok s \<Longrightarrow> orch_ok (orch_add_task h now t title desc deps s)"
    by (simp add: orch_ok_def orch_add_task_def board_ok_add)
qed

lemma orch_ok_add_dependency: "orch_ok s \<Longrightarrow> orch_ok (fst (orch_add_dependency h t d s))"
  using graph_ok_add_dependency [of "or_graph s" h t d]
  by (auto simp: orch_add_dependency_def orch_ok_def split: prod.splits)

lemma distinct_fold_hs_remove: "distinct xs \<Longrightarrow> distinct (fold hs_remove ys xs)"
  by (induction ys arbitrary: xs) simp_all

lemma orch_ok_apply_bounds: "orch_ok s \<Longrightarrow> orch_ok (apply_bounds h s)"
  by (simp add: apply_bounds_def Let_def orch_ok_def board_ok_bounds distinct_fold_hs_remove)

lemma orch_ok_sweep: "orch_ok s \<Longrightarrow> orch_ok (fst (sweep_retention io s))"
  by (auto simp: sweep_retention_def Let_def orch_ok_def split: prod.splits)

lemma orch_ok_shutdown: "orch_ok s \<Longrightarrow> orch_ok (fst (orch_shutdown kill h s))"
  by (simp add: orch_shutdown_def Let_def orch_stop_def orch_ok_def pool_ok_mark_dead)

subsection \<open>One step of dispatch\<close>

text \<open>What the body of the dispatch loop can do to a task.\<close>

inductive dispatch_step ::
    "dispatch_ports \<Rightarrow> task_entry \<Rightarrow> orchestrator \<Rightarrow> orchestrator \<Rightarrow> assignment list \<Rightarrow> loop_control \<Rightarrow> bool"
  for io task s
where
  step_blocked:
    "\<not> is_ready (or_graph s) (te_id task) (or_completed s) \<Longrightarrow>
     s' = update_board (fst \<circ> set_blocked (dp_now io) (te_id task) bs) s \<Longrightarrow> dispatch_step io task s s' [] Continue"
| step_idle:
    "is_ready (or_graph s) (te_id task) (or_completed s) \<Longrightarrow>
     c \<noteq> Continue \<or> task_has_pending_retry io (te_id task) = Inr True \<or> \<not> check_git_available io s \<Longrightarrow>
     c = Break \<longrightarrow> available_count None (or_pool s) = 0 \<or> unassigned_workers (dp_workers io) (or_pool s) = [] \<Longrightarrow>
     dispatch_step io task s s [] c"
| step_sent:
    "is_ready (or_graph s) (te_id task) (or_completed s) \<Longrightarrow>
     i \<in> set (unassigned_workers (dp_workers io) (or_pool s)) \<Longrightarrow>
     as_task_id a = te_id task \<Longrightarrow> as_worker_id a = wi_id i \<Longrightarrow> as_session_id a = wi_session_id i \<Longrightarrow>
     e' = (or_engine s)\<lparr>ae_history := ae_history (or_engine s) @ [a], ae_indices := ix\<rparr> \<Longrightarrow>
     p' = fst (pool_assign_task None (dp_now io) (wi_id i) (te_id task) (or_pool s)) \<Longrightarrow>
     f = (fst \<circ> unassign_task (dp_now io) (te_id task)) \<or>
     f = (fst \<circ> board_assign_task (dp_now io) (te_id task) (wi_id i) (Some (wi_session_id i))) \<circ>
          (fst \<circ> update_task_status (dp_now io) (te_id task) Assigned) \<Longrightarrow>
     s' = update_board f (s\<lparr>or_engine := e', or_pool := p'\<rparr>) \<Longrightarrow>
     dispatch_step io task s s' [a] Continue"

lemma engine_assign_full:
  assumes "pool_ok p" and "engine_assign_task h board now task e p = (e', p', Inr a)"
  shows "\<exists>i ix. i \<in> set (unassigned_workers h p) \<and> as_task_id a = te_id task \<and> as_worker_id a = wi_id i \<and>
    as_session_id a = wi_session_id i \<and> p' = fst (pool_assign_task board now (wi_id i) (te_id task) p) \<and>
    e' = e\<lparr>ae_history := ae_history e @ [a], ae_indices := ix\<rparr>"
proof -
  from engine_assign_spec [OF assms] obtain i where i: "i \<in> set (unassigned_workers h p)"
    "a = \<lparr>as_task_id = te_id task, as_worker_id = wi_id i, as_session_id = wi_session_id i, as_assigned_at = now\<rparr>"
    by (auto split: if_splits)
  from assms(2) i(2) have "p' = fst (pool_assign_task board now (wi_id i) (te_id task) p)"
    "e' = e\<lparr>ae_history := ae_history e @ [a], ae_indices := ae_indices e'\<rparr>"
    by (auto simp: engine_assign_task_def select_worker_for_task_def round_robin_select_def Let_def
        split: prod.splits sum.splits option.splits if_splits)
  with i show ?thesis by (intro exI [of _ i] exI [of _ "ae_indices e'"]) simp
qed

lemma engine_assign_error:
  assumes "pool_ok p" and "engine_assign_task h board now task e p = (e', p', Inl err)"
  shows "err = NoAvailableWorkers \<and> unassigned_workers h p = [] \<and> e' = e \<and> p' = p"
  using engine_assign_spec [OF assms] by (auto split: if_splits)

lemma dispatch_one_step:
  assumes "orch_ok s" and "dispatch_one io task s = (s', sent, c)"
  shows "dispatch_step io task s s' sent c"
proof -
  let ?t = "te_id task"
  have pool: "pool_ok (or_pool s)" using assms(1) by (simp add: orch_ok_def)
  show ?thesis
  proof (cases "\<not> is_ready (or_graph s) ?t (or_completed s) \<or> available_count None (or_pool s) = 0 \<or>
      task_has_pending_retry io ?t \<noteq> Inr False \<or> \<not> check_git_available io s")
    case True
    with assms(2) show ?thesis
      by (auto simp: dispatch_one_def Let_def intro: step_blocked step_idle
          split: if_splits sum.splits bool.splits)
  next
    case False
    obtain e' p' r where run:
      "engine_assign_task (dp_workers io) None (dp_now io) task (or_engine s) (or_pool s) = (e', p', r)"
      by (metis prod_cases3)
    show ?thesis
    proof (cases r)
      case (Inl err)
      from engine_assign_error [OF pool run [unfolded Inl]] False assms(2) show ?thesis
        by (auto simp: dispatch_one_def Let_def run Inl intro!: step_idle)
    next
      case (Inr a)
      from engine_assign_full [OF pool run [unfolded Inr]] obtain i ix where i:
        "i \<in> set (unassigned_workers (dp_workers io) (or_pool s))" "as_task_id a = ?t" "as_worker_id a = wi_id i"
        "as_session_id a = wi_session_id i"
        "p' = fst (pool_assign_task None (dp_now io) (wi_id i) ?t (or_pool s))"
        "e' = (or_engine s)\<lparr>ae_history := ae_history (or_engine s) @ [a], ae_indices := ix\<rparr>"
        by blast
      note sent = step_sent [of s task i io a _ ix _ _ s', OF _ i(1-4) i(6,5)]
      show ?thesis
      proof (cases "dispatch_task (dp_send io) (dp_uuid io ?t) (dp_now io) a task")
        case (Inl err)
        have "s' = update_board (fst \<circ> unassign_task (dp_now io) ?t) (s\<lparr>or_engine := e', or_pool := p'\<rparr>)"
          "sent = [a]" "c = Continue"
          using False assms(2) by (simp_all add: dispatch_one_def Let_def run \<open>r = Inr a\<close> Inl)
        with sent [OF _ disjI1 [OF refl]] False show ?thesis by simp
      next
        case (Inr u)
        have "s' = update_board ((fst \<circ> board_assign_task (dp_now io) ?t (wi_id i) (Some (wi_session_id i))) \<circ>
            (fst \<circ> update_task_status (dp_now io) ?t Assigned)) (s\<lparr>or_engine := e', or_pool := p'\<rparr>)"
          "sent = [a]" "c = Continue"
          using False assms(2) \<open>as_worker_id a = wi_id i\<close> \<open>as_session_id a = wi_session_id i\<close>
          by (simp_all add: dispatch_one_def Let_def run \<open>r = Inr a\<close> Inr update_board_def)
        with sent [OF _ disjI2 [OF refl]] False show ?thesis by simp
      qed
    qed
  qed
qed

subsection \<open>The whole dispatch\<close>

lemma dispatch_step_frame:
  assumes "dispatch_step io task s s' sent c"
  shows "or_graph s' = or_graph s \<and> or_completed s' = or_completed s \<and> or_config s' = or_config s"
  using assms by cases simp_all

lemma orch_ok_dispatch_step:
  assumes "orch_ok s" and "dispatch_step io task s s' sent c"
  shows "orch_ok s'"
  using assms(2,1) by cases (auto simp: orch_ok_def board_ok_mutators pool_ok_assign)

lemma with_task_other: "x \<noteq> t \<Longrightarrow> get_task (fst (with_task f t b)) x = get_task b x"
  by (simp add: with_task_def get_task_def)

lemmas mutator_defs = update_task_status_def board_assign_task_def unassign_task_def set_blocked_def clear_blocked_def

lemma mutators_other:
  assumes "x \<noteq> t"
  shows "get_task (fst (update_task_status now t st b)) x = get_task b x"
    "get_task (fst (board_assign_task now t a ses b)) x = get_task b x"
    "get_task (fst (unassign_task now t b)) x = get_task b x"
    "get_task (fst (set_blocked now t bs b)) x = get_task b x"
  using assms by (simp_all add: mutator_defs with_task_other)

lemma dispatch_step_other:
  assumes "dispatch_step io task s s' sent c" and "x \<noteq> te_id task"
  shows "get_task (or_board s') x = get_task (or_board s) x"
  using assms by cases (auto simp: mutators_other)

lemma dispatch_step_workers:
  assumes "orch_ok s" and "dispatch_step io task s s' sent c"
  shows "set (unassigned_workers h (or_pool s')) =
    {i \<in> set (unassigned_workers h (or_pool s)). wi_id i \<notin> as_worker_id ` set sent}"
proof -
  have "pool_ok (or_pool s)" using assms(1) by (simp add: orch_ok_def)
  with assms(2) show ?thesis by cases (simp_all add: unassigned_after_assign)
qed

definition sent_ok :: "dispatch_ports \<Rightarrow> task_entry list \<Rightarrow> orchestrator \<Rightarrow> assignment \<Rightarrow> bool" where
  "sent_ok io tasks s a \<longleftrightarrow>
     as_task_id a \<in> te_id ` set tasks \<and> is_ready (or_graph s) (as_task_id a) (or_completed s) \<and>
     (\<exists>i \<in> set (unassigned_workers (dp_workers io) (or_pool s)).
        as_worker_id a = wi_id i \<and> as_session_id a = wi_session_id i)"

lemma dispatch_step_sent:
  assumes "dispatch_step io task s s' sent c"
  shows "list_all (sent_ok io [task] s) sent \<and> distinct (map as_task_id sent) \<and> distinct (map as_worker_id sent)"
  using assms by cases (auto simp: sent_ok_def)

lemma dispatch_loop_safe:
  assumes "orch_ok s" and "distinct (map te_id tasks)" and "dispatch_loop io tasks s = (s', sent, r)"
  shows "orch_ok s' \<and> list_all (sent_ok io tasks s) sent \<and> distinct (map as_task_id sent) \<and>
    distinct (map as_worker_id sent) \<and>
    (\<forall>x. x \<notin> te_id ` set tasks \<longrightarrow> get_task (or_board s') x = get_task (or_board s) x)"
  using assms
proof (induction tasks arbitrary: s s' sent r)
  case (Cons task tasks)
  obtain s1 sent1 c where one: "dispatch_one io task s = (s1, sent1, c)" by (metis prod_cases3)
  note step = dispatch_one_step [OF Cons.prems(1) one]
  note sent1 = dispatch_step_sent [OF step]
  have ok1: "orch_ok s1" by (rule orch_ok_dispatch_step [OF Cons.prems(1) step])
  have weaken: "sent_ok io [task] s a \<Longrightarrow> sent_ok io (task # tasks) s a" for a by (auto simp: sent_ok_def)
  show ?case
  proof (cases c)
    case Continue
    obtain s2 sent2 r2 where loop: "dispatch_loop io tasks s1 = (s2, sent2, r2)" by (metis prod_cases3)
    with one Continue Cons.prems(3) have eq: "s' = s2" "sent = sent1 @ sent2" by simp_all
    note ih = Cons.IH [OF ok1 _ loop]
    have rest: "sent_ok io (task # tasks) s a \<and> as_worker_id a \<notin> as_worker_id ` set sent1"
      if "sent_ok io tasks s1 a" for a
    proof -
      from that obtain i where "i \<in> set (unassigned_workers (dp_workers io) (or_pool s1))"
        "as_worker_id a = wi_id i" "as_session_id a = wi_session_id i"
        by (auto simp: sent_ok_def)
      with dispatch_step_workers [OF Cons.prems(1) step, of "dp_workers io"]
      have "i \<in> set (unassigned_workers (dp_workers io) (or_pool s))" "as_worker_id a \<notin> as_worker_id ` set sent1"
        "as_worker_id a = wi_id i" "as_session_id a = wi_session_id i" by simp_all
      then show ?thesis using that dispatch_step_frame [OF step] unfolding sent_ok_def by auto
    qed
    have "as_task_id ` set sent1 \<inter> as_task_id ` set sent2 = {}"
      using sent1 ih Cons.prems(2) by (auto simp: list_all_iff sent_ok_def)
    moreover have "as_worker_id ` set sent1 \<inter> as_worker_id ` set sent2 = {}"
    proof (rule equals0I, elim IntE imageE)
      fix w a b assume "b \<in> set sent2" "w = as_worker_id b" and w: "a \<in> set sent1" "w = as_worker_id a"
      then have "as_worker_id b \<notin> as_worker_id ` set sent1"
        using ih rest [of b] Cons.prems(2) by (simp add: list_all_iff)
      with \<open>w = as_worker_id b\<close> w show False by (metis imageI)
    qed
    ultimately show ?thesis
      using ih sent1 rest Cons.prems(2) dispatch_step_other [OF step] weaken unfolding eq
      by (auto simp: list_all_iff)
  qed (use Cons.prems(3) one ok1 sent1 weaken dispatch_step_other [OF step] in \<open>auto simp: list_all_iff\<close>)
qed simp

lemma assignable_ids:
  assumes "board_ok b"
  shows "distinct (map te_id (get_assignable_tasks h b))"
    and "e \<in> set (get_assignable_tasks h b) \<longleftrightarrow> get_task b (te_id e) = Some e \<and> is_assignable e"
proof -
  note ok = board_okD [OF assms]
  have "map te_id (hm_values h (tb_tasks b)) = hm_keys h (tb_tasks b)"
    unfolding hm_values_def hm_keys_def using ok(5) hm_get_SomeI [OF ok(1)] by fastforce
  then have "distinct (map te_id (hm_values h (tb_tasks b)))" using ok(1) by simp
  then show "distinct (map te_id (get_assignable_tasks h b))"
    by (simp add: get_assignable_tasks_def distinct_map_filter)
  show "e \<in> set (get_assignable_tasks h b) \<longleftrightarrow> get_task b (te_id e) = Some e \<and> is_assignable e"
    using ok(5) by (auto simp: get_assignable_tasks_def get_task_def set_hm_values [OF ok(1)])
qed

text \<open>C1: Dispatch is safe. Every prompt goes out for a task that was pending and unblocked and
  whose dependencies are all completed, to the session of a live worker that had no task; in one
  round no task is sent twice and no worker gets two tasks, whatever the ports answer. The
  joint invariant of board, graph and pool is kept.\<close>

theorem dispatch_safe:
  assumes "orch_ok s" and "dispatch_ready_tasks io s = (s', sent, r)"
  shows "(\<forall>a \<in> set sent.
      (\<exists>e. get_task (or_board s) (as_task_id a) = Some e \<and> is_assignable e) \<and>
      set (get_dependencies (or_graph s) (as_task_id a)) \<subseteq> set (or_completed s) \<and>
      (\<exists>i. get_worker (or_pool s) (as_worker_id a) = Some i \<and> wi_is_alive i \<and>
        wi_assigned_task i = None \<and> as_session_id a = wi_session_id i)) \<and>
    distinct (map as_task_id sent) \<and> distinct (map as_worker_id sent) \<and> orch_ok s'"
proof -
  have board: "board_ok (or_board s)" and pool: "pool_ok (or_pool s)" using assms(1) by (simp_all add: orch_ok_def)
  note safe = dispatch_loop_safe [OF assms(1) assignable_ids(1) [OF board] assms(2) [unfolded dispatch_ready_tasks_def]]
  have "(\<exists>e. get_task (or_board s) (as_task_id a) = Some e \<and> is_assignable e) \<and>
      set (get_dependencies (or_graph s) (as_task_id a)) \<subseteq> set (or_completed s) \<and>
      (\<exists>i. get_worker (or_pool s) (as_worker_id a) = Some i \<and> wi_is_alive i \<and>
        wi_assigned_task i = None \<and> as_session_id a = wi_session_id i)" if "a \<in> set sent" for a
  proof -
    have "sent_ok io (get_assignable_tasks (dp_entries io) (or_board s)) s a"
      using safe that by (simp add: list_all_iff)
    then show ?thesis
      using assignable_ids(2) [OF board] unassigned_iff [OF pool]
      by (fastforce simp: sent_ok_def is_ready_def list_all_iff)
  qed
  with safe show ?thesis by blast
qed

end
