(* ===== verification/Orchestrator_Behaviour.thy ===== *)
theory Orchestrator_Behaviour
  imports Orchestrator_Props
begin

text \<open>
  Further properties of the orchestrator: progress of dispatch, what happens to blocked and to
  merged tasks, retention and shutdown; with the concrete orchestrator that the witnesses use.
\<close>

subsection \<open>A concrete orchestrator\<close>

definition demo_config :: orchestrator_config where
  "demo_config =
     \<lparr>oc_worker_config = default_worker_pool_config\<lparr>wc_min_count := 2\<rparr>,
      oc_reviewer_config = default_worker_pool_config\<lparr>wc_kind := Reviewer\<rparr>,
      oc_dispatch_parallelism = 5, oc_worktree_isolation = False, oc_branch_prefix = ''brehon/'',
      oc_auto_cleanup_worktrees = True,
      oc_retention = \<lparr>rc_max_events = Some 3, rc_idempotency_ttl_hours = None,
        rc_max_completed_tasks = 4, rc_max_assignment_history = 5, rc_max_tasks = 6,
        rc_sweep_interval_secs = 7\<rparr>,
      oc_retry_policy = default_retry_policy, oc_continuation_policy = default_continuation_policy\<rparr>"

definition demo_orchestrator :: orchestrator where
  "demo_orchestrator =
     (orch_add_task stored_order 0 ''b'' ''B'' [] [''a'']
       (orch_add_task stored_order 0 ''a'' ''A'' [] [] (new_orchestrator demo_config)))\<lparr>or_pool := demo_pool\<rparr>"

definition demo_ports :: dispatch_ports where
  "demo_ports =
     \<lparr>dp_now = 5, dp_uuid = (\<lambda>t. t), dp_send = (\<lambda>s p. Inr ()), dp_runs_for_task = None,
      dp_git_ops = False, dp_entries = stored_order, dp_workers = stored_order, dp_deps = stored_order\<rparr>"

lemma orch_ok_new: "orch_ok (new_orchestrator c)"
  by (simp add: orch_ok_def new_orchestrator_def board_ok_new graph_ok_new pool_ok_new)

lemma orch_ok_demo: "orch_ok demo_orchestrator"
proof -
  have "orch_ok (orch_add_task stored_order 0 ''b'' ''B'' [] [''a'']
      (orch_add_task stored_order 0 ''a'' ''A'' [] [] (new_orchestrator demo_config)))"
    by (intro orch_ok_add_task orch_ok_new)
  then show ?thesis
    using reachable_pool_ok [OF demo_pool_reachable] by (simp add: orch_ok_def demo_orchestrator_def)
qed

lemma demo_dispatch:
  "map (\<lambda>a. (as_task_id a, as_worker_id a)) (fst (snd (dispatch_ready_tasks demo_ports demo_orchestrator))) =
     [(''a'', ''default-0'')]"
  by code_simp

subsection \<open>Progress\<close>

lemma dispatch_one_no_fail:
  "task_has_pending_retry io (te_id task) = Inr b \<Longrightarrow> dispatch_one io task s = (s', sent, c) \<Longrightarrow> c \<noteq> Fail e"
  by (cases b) (auto simp: dispatch_one_def Let_def split: if_splits prod.splits sum.splits orchestrator_error.splits)

lemma unassigned_available:
  assumes "pool_ok p" and "unassigned_workers h p \<noteq> []"
  shows "available_count None p \<noteq> 0"
proof -
  from assms(2) obtain i where "i \<in> set (unassigned_workers h p)" by (cases "unassigned_workers h p") auto
  with unassigned_iff [OF assms(1)] have "(wi_id i, i) \<in> set (wp_workers p)" "worker_idle None i"
    by (auto simp: get_worker_def worker_idle_def dest: hm_get_SomeD)
  then have "i \<in> set (filter (worker_idle None) (map snd (wp_workers p)))" by force
  then show ?thesis unfolding available_count_def by (metis length_0_conv empty_iff empty_set)
qed

lemma dispatch_loop_progress:
  assumes "orch_ok s" and "dispatch_loop io tasks s = (s', sent, r)"
    and "task \<in> set tasks" and "is_ready (or_graph s) (te_id task) (or_completed s)"
    and reads: "\<And>x. \<exists>b. task_has_pending_retry io x = Inr b" and free: "task_has_pending_retry io (te_id task) = Inr False"
    and "check_git_available io s" and "unassigned_workers (dp_workers io) (or_pool s) \<noteq> []"
  shows "sent \<noteq> []"
  using assms(1-4,7,8)
proof (induction tasks arbitrary: s s' sent r)
  case (Cons first tasks)
  obtain s1 sent1 c where one: "dispatch_one io first s = (s1, sent1, c)" by (metis prod_cases3)
  note step = dispatch_one_step [OF Cons.prems(1) one] and frame = dispatch_step_frame [OF dispatch_one_step [OF Cons.prems(1) one]]
  have no_fail: "c \<noteq> Fail e" for e using reads [of "te_id first"] dispatch_one_no_fail one by blast
  have avail: "available_count None (or_pool s) \<noteq> 0"
    using Cons.prems(1,6) unassigned_available by (auto simp: orch_ok_def)
  show ?case
  proof (cases "sent1 = []")
    case True
    from step have pass: "c = Continue \<and> or_pool s1 = or_pool s \<and> task \<noteq> first"
    proof cases
      case step_idle
      with no_fail avail Cons.prems(6) have "c = Continue" by (cases c) auto
      moreover from this step_idle(4) have "task_has_pending_retry io (te_id first) = Inr True"
        using Cons.prems(5) by simp
      ultimately show ?thesis using step_idle free by auto
    qed (use True Cons.prems(4) in auto)
    moreover have "check_git_available io s1" using Cons.prems(5) frame by (simp add: check_git_available_def)
    moreover have "task \<in> set tasks" using Cons.prems(3) pass by auto
    ultimately show ?thesis
      using Cons.IH [of s1] orch_ok_dispatch_step [OF Cons.prems(1) step] Cons.prems frame one
      by (auto split: prod.splits)
  next
    case False
    with Cons.prems(2) one show ?thesis by (cases c) (auto split: prod.splits)
  qed
qed simp

text \<open>C32: Dispatch makes progress: when some pending, unblocked task has all its dependencies
  completed, some live worker has no task, git is available (or not needed), and, if a run store is
  configured, all its reads succeed and none of the task's runs waits for a retry that is not due, at least one prompt
  is sent. (A failing read for an earlier task ends the round.)\<close>

theorem dispatch_progress:
  assumes "orch_ok s" and "dispatch_ready_tasks io s = (s', sent, r)"
    and "get_task (or_board s) t = Some e" and "is_assignable e"
    and "set (get_dependencies (or_graph s) t) \<subseteq> set (or_completed s)"
    and "\<And>runs_for_task x. dp_runs_for_task io = Some runs_for_task \<Longrightarrow> \<exists>runs. runs_for_task x = Inr runs"
    and "task_has_pending_retry io t = Inr False" and "check_git_available io s"
    and "unassigned_workers (dp_workers io) (or_pool s) \<noteq> []"
  shows "sent \<noteq> []"
proof -
  have board: "board_ok (or_board s)" using assms(1) by (simp add: orch_ok_def)
  have id: "te_id e = t" using board_okD(5) [OF board] assms(3) by (simp add: get_task_def)
  have "e \<in> set (get_assignable_tasks (dp_entries io) (or_board s))"
    using assignable_ids(2) [OF board] assms(3,4) id by simp
  moreover have "is_ready (or_graph s) (te_id e) (or_completed s)"
    using assms(5) id by (auto simp: is_ready_def list_all_iff)
  moreover have "\<exists>b. task_has_pending_retry io x = Inr b" for x
    using assms(6) [of _ x] by (auto simp: task_has_pending_retry_def split: option.split)
  ultimately show ?thesis
    using dispatch_loop_progress [OF assms(1) assms(2) [unfolded dispatch_ready_tasks_def]] assms(7-9) id by blast
qed

lemma demo_facts:
  "map_option is_assignable (get_task (or_board demo_orchestrator) ''a'') = Some True"
  "get_dependencies (or_graph demo_orchestrator) ''a'' = []"
  "map wi_id (unassigned_workers stored_order (or_pool demo_orchestrator)) = [''default-0'', ''default-1'']"
  "oc_worktree_isolation (or_config demo_orchestrator) = False"
  by code_simp+

theorem dispatch_safe_witness:
  "\<exists>i. get_worker (or_pool demo_orchestrator) ''default-0'' = Some i \<and> wi_is_alive i \<and> wi_assigned_task i = None"
proof -
  obtain s' sent r where run: "dispatch_ready_tasks demo_ports demo_orchestrator = (s', sent, r)" by (metis prod_cases3)
  with demo_dispatch obtain a where "a \<in> set sent" "as_worker_id a = ''default-0''" by auto
  with dispatch_safe [OF orch_ok_demo run] show ?thesis by auto
qed

theorem dispatch_progress_witness: "fst (snd (dispatch_ready_tasks demo_ports demo_orchestrator)) \<noteq> []"
proof -
  obtain s' sent r where run: "dispatch_ready_tasks demo_ports demo_orchestrator = (s', sent, r)" by (metis prod_cases3)
  obtain e where e: "get_task (or_board demo_orchestrator) ''a'' = Some e" "is_assignable e"
    using demo_facts(1) by auto
  have "sent \<noteq> []"
    by (rule dispatch_progress [OF orch_ok_demo run e])
      (use demo_facts(2-4) in \<open>auto simp: demo_ports_def check_git_available_def task_has_pending_retry_def\<close>)
  with run show ?thesis by simp
qed

subsection \<open>Blocked tasks\<close>

text \<open>The events that cannot change the entry of a blocked task \<open>t\<close>.\<close>

definition quiet_for :: "task_id \<Rightarrow> event_kind \<Rightarrow> bool" where
  "quiet_for t k =
     (case k of TaskAssigned x _ \<Rightarrow> x \<noteq> t | MergeCommitted x \<Rightarrow> x \<noteq> t | AgentDied _ _ _ \<Rightarrow> False | _ \<Rightarrow> True)"

lemma blocked_transition:
  assumes "get_task (or_board s) t = Some e" and "te_status e = Blocked" and "tr \<noteq> Unblock"
  shows "get_task (or_board (transition_task now x tr s)) t = Some e"
proof (cases "x = t")
  case True
  have "apply_transition Blocked tr = Inl (CannotApply tr Blocked)"
    using assms(3) by (cases tr) (simp_all add: lifecycle_defs)
  with True assms(1,2) show ?thesis by (simp add: transition_task_def)
next
  case False
  then show ?thesis
    using assms(1) by (auto simp: transition_task_def mutators_other split: option.splits sum.splits)
qed

lemma transition_graph: "or_graph (transition_task now x tr s) = or_graph s"
  "or_completed (transition_task now x tr s) = or_completed s"
  by (auto simp: transition_task_def split: option.splits sum.splits)

lemma add_other: "x \<noteq> te_id n \<Longrightarrow> get_task (board_add_task n b) x = get_task b x"
  by (simp add: get_task_def board_add_task_def)

lemma blocked_process_event:
  assumes "get_task (or_board s) t = Some e" and "te_status e = Blocked" and "quiet_for t (ev_kind ev)"
  shows "get_task (or_board (process_event now ev s)) t = Some e"
proof (cases "ev_kind ev")
  case (TaskCreated x)
  then show ?thesis
    using assms(1) add_other [of t "new_task_entry now x [] []" "or_board s"]
    by (cases "x = t") (auto simp: process_event_def has_task_def hm_contains_def get_task_def new_task_entry_def)
qed (use assms in \<open>auto simp: process_event_def quiet_for_def blocked_transition mutators_other split: option.splits\<close>)

lemma process_event_graph:
  "get_dependencies (or_graph (process_event now ev s)) t = get_dependencies (or_graph s) t"
  "set (or_completed s) \<subseteq> set (or_completed (process_event now ev s))"
proof -
  have "or_graph (fold (\<lambda>t. update_board (fst \<circ> unassign_task now t)) ts s) = or_graph s \<and>
      or_completed (fold (\<lambda>t. update_board (fst \<circ> unassign_task now t)) ts s) = or_completed s" for ts s
    by (induction ts arbitrary: s) simp_all
  then show "get_dependencies (or_graph (process_event now ev s)) t = get_dependencies (or_graph s) t"
    "set (or_completed s) \<subseteq> set (or_completed (process_event now ev s))"
    by (cases "ev_kind ev"; auto simp: process_event_def transition_graph add_task_effect split: option.splits)+
qed

lemma process_events_frame:
  "get_dependencies (or_graph (fold (process_event now) evs s)) t = get_dependencies (or_graph s) t"
  "set (or_completed s) \<subseteq> set (or_completed (fold (process_event now) evs s))"
  by (induction evs arbitrary: s) (simp_all add: process_event_graph, meson order_trans process_event_graph(2))

lemma process_events_completed:
  "MergeCommitted d \<in> ev_kind ` set evs \<Longrightarrow> d \<in> set (or_completed (fold (process_event now) evs s))"
proof (induction evs arbitrary: s)
  case (Cons ev evs)
  show ?case
  proof (cases "ev_kind ev = MergeCommitted d")
    case True
    then have "d \<in> set (or_completed (process_event now ev s))" by (simp add: process_event_def)
    then show ?thesis using process_events_frame(2) [of "process_event now ev s" now evs] by auto
  next
    case False
    with Cons show ?thesis by auto
  qed
qed simp

lemma blocked_process_events:
  "get_task (or_board s) t = Some e \<Longrightarrow> te_status e = Blocked \<Longrightarrow> \<forall>ev \<in> set evs. quiet_for t (ev_kind ev) \<Longrightarrow>
     get_task (or_board (fold (process_event now) evs s)) t = Some e"
  by (induction evs arbitrary: s) (simp_all add: blocked_process_event)

lemma orch_ok_process_events: "orch_ok s \<Longrightarrow> orch_ok (fold (process_event now) evs s)"
  by (induction evs arbitrary: s) (simp_all add: orch_ok_process_event)

text \<open>No step of the event loop unblocks a task. Once dispatch has marked a task \<open>Blocked\<close>,
  events that do not assign or merge that very task, and the following dispatch, leave its
  entry unchanged and send no prompt for it, even after every one of its dependencies has been
  merged and the task counts as ready.\<close>

theorem blocked_task_never_dispatched:
  assumes "orch_ok s" and "get_task (or_board s) t = Some e" and "te_status e = Blocked"
    and "\<forall>ev \<in> set evs. quiet_for t (ev_kind ev)"
    and "\<forall>d \<in> set (get_dependencies (or_graph s) t). MergeCommitted d \<in> ev_kind ` set evs"
    and "s1 = fold (process_event now) evs s" and "dispatch_ready_tasks io s1 = (s2, sent, r)"
  shows "is_ready (or_graph s1) t (or_completed s1) \<and> get_task (or_board s2) t = Some e \<and>
    t \<notin> as_task_id ` set sent"
proof -
  have ok: "orch_ok s1" unfolding assms(6) by (rule orch_ok_process_events [OF assms(1)])
  then have board: "board_ok (or_board s1)" by (simp add: orch_ok_def)
  have entry: "get_task (or_board s1) t = Some e"
    unfolding assms(6) by (rule blocked_process_events [OF assms(2-4)])
  let ?tasks = "get_assignable_tasks (dp_entries io) (or_board s1)"
  have "t \<notin> te_id ` set ?tasks"
    using assignable_ids(2) [OF board] entry assms(3) by (auto simp: is_assignable_def)
  with dispatch_loop_safe [OF ok assignable_ids(1) [OF board] assms(7) [unfolded dispatch_ready_tasks_def]] entry
  have "get_task (or_board s2) t = Some e" "t \<notin> as_task_id ` set sent"
    by (auto simp: list_all_iff sent_ok_def)
  moreover have "is_ready (or_graph s1) t (or_completed s1)"
    using assms(5) process_events_completed [of _ evs now s]
    unfolding assms(6) is_ready_def process_events_frame(1) by (simp add: list_all_iff)
  ultimately show ?thesis by blast
qed

definition demo_blocked :: orchestrator where
  "demo_blocked = fst (dispatch_ready_tasks demo_ports demo_orchestrator)"

lemma orch_ok_demo_blocked: "orch_ok demo_blocked"
proof -
  have board: "board_ok (or_board demo_orchestrator)" using orch_ok_demo by (simp add: orch_ok_def)
  obtain s' sent r where run: "dispatch_ready_tasks demo_ports demo_orchestrator = (s', sent, r)" by (metis prod_cases3)
  from dispatch_loop_safe [OF orch_ok_demo assignable_ids(1) [OF board] run [unfolded dispatch_ready_tasks_def]] run
  show ?thesis by (simp add: demo_blocked_def)
qed

lemma demo_blocked_facts:
  "map_option te_status (get_task (or_board demo_blocked) ''b'') = Some Blocked"
  "get_dependencies (or_graph demo_blocked) ''b'' = [''a'']"
  by code_simp+

theorem blocked_task_never_dispatched_witness:
  "map_option te_status (get_task (or_board (fst (dispatch_ready_tasks demo_ports
     (process_event 9 \<lparr>ev_kind = MergeCommitted ''a'', ev_timestamp = 9, ev_aggregate_id = ''a''\<rparr> demo_blocked)))) ''b'')
   = Some Blocked"
proof -
  let ?ev = "\<lparr>ev_kind = MergeCommitted ''a'', ev_timestamp = 9, ev_aggregate_id = ''a''\<rparr>"
  let ?s1 = "process_event 9 ?ev demo_blocked"
  obtain e where e: "get_task (or_board demo_blocked) ''b'' = Some e" "te_status e = Blocked"
    using demo_blocked_facts(1) by auto
  obtain s2 sent r where run: "dispatch_ready_tasks demo_ports ?s1 = (s2, sent, r)" by (metis prod_cases3)
  have "get_task (or_board s2) ''b'' = Some e"
    using blocked_task_never_dispatched [OF orch_ok_demo_blocked e, of "[?ev]" ?s1 9 demo_ports s2 sent r]
      run demo_blocked_facts(2) by (simp add: quiet_for_def)
  with e run show ?thesis by simp
qed

subsection \<open>Death of a worker\<close>

definition reset_entry :: "time \<Rightarrow> task_entry \<Rightarrow> task_entry" where
  "reset_entry now e = e\<lparr>te_status := Pending, te_assignee := None, te_session_id := None, te_updated_at := now\<rparr>"

lemma reset_reset [simp]: "reset_entry now (reset_entry now e) = reset_entry now e"
  by (simp add: reset_entry_def)

lemma unassign_all_get:
  "get_task (or_board (fold (\<lambda>t. update_board (fst \<circ> unassign_task now t)) ts s)) x =
     (if x \<in> set ts then map_option (reset_entry now) (get_task (or_board s) x) else get_task (or_board s) x)"
proof (induction ts arbitrary: s)
  case (Cons t ts)
  have "get_task (fst (unassign_task now t b)) x =
      (if x = t then map_option (reset_entry now) (get_task b x) else get_task b x)" for b
    by (auto simp: unassign_task_def with_task_def get_task_def hm_contains_def reset_entry_def)
  with Cons show ?case by (auto simp: option.map_comp comp_def)
qed simp

text \<open>A worker's death resets every task the engine ever assigned to it, because the history
  is never pruned: a task that has been merged goes back to \<open>Pending\<close> although it stays in the
  set of completed tasks.\<close>

theorem worker_death_reopens_merged_task:
  assumes "ev_kind ev = AgentDied agent session reason"
    and "get_worker_by_session (or_pool s) session = Some w"
    and "t \<in> set (engine_worker_death (wi_id w) (or_engine s))"
    and "get_task (or_board s) t = Some e" and "te_status e = Merged" and "t \<in> set (or_completed s)"
  shows "\<exists>e'. get_task (or_board (process_event now ev s)) t = Some e' \<and> te_status e' = Pending \<and>
    te_assignee e' = None \<and> t \<in> set (or_completed (process_event now ev s))"
proof -
  have "get_task (or_board (process_event now ev s)) t = Some (reset_entry now e)"
    using assms(1-4) by (simp add: process_event_def unassign_all_get)
  then show ?thesis
    using process_event_graph(2) [of s now ev] assms(6) by (auto simp: reset_entry_def)
qed

definition demo_merged :: orchestrator where
  "demo_merged = process_event 9 \<lparr>ev_kind = MergeCommitted ''a'', ev_timestamp = 9, ev_aggregate_id = ''a''\<rparr> demo_blocked"

lemma demo_merged_facts:
  "map_option wi_id (get_worker_by_session (or_pool demo_merged) ''s:/tmp/brehon/worktrees/default-0'') = Some ''default-0''"
  "engine_worker_death ''default-0'' (or_engine demo_merged) = [''a'']"
  "map_option te_status (get_task (or_board demo_merged) ''a'') = Some Merged"
  "or_completed demo_merged = [''a'']"
  by code_simp+

theorem worker_death_reopens_merged_task_witness:
  "\<exists>e'. get_task (or_board (process_event 11 \<lparr>ev_kind = AgentDied ''w'' ''s:/tmp/brehon/worktrees/default-0'' ''exit'',
      ev_timestamp = 11, ev_aggregate_id = ''w''\<rparr> demo_merged)) ''a'' = Some e' \<and> te_status e' = Pending"
proof -
  obtain w where w: "get_worker_by_session (or_pool demo_merged) ''s:/tmp/brehon/worktrees/default-0'' = Some w"
    "wi_id w = ''default-0''" using demo_merged_facts(1) by auto
  obtain e where e: "get_task (or_board demo_merged) ''a'' = Some e" "te_status e = Merged"
    using demo_merged_facts(3) by auto
  show ?thesis
    using worker_death_reopens_merged_task [OF _ w(1) _ e, of
        "\<lparr>ev_kind = AgentDied ''w'' ''s:/tmp/brehon/worktrees/default-0'' ''exit'', ev_timestamp = 11,
          ev_aggregate_id = ''w''\<rparr>" "''w''" "''exit''" 11] w(2) demo_merged_facts(2,4)
    by auto
qed

subsection \<open>Retention\<close>

lemma retain_cutoff_le:
  "max_events < high \<Longrightarrow> retain_cutoff high max_events last_id + max_events \<le> high + 1"
  "1 < retain_cutoff high max_events last_id \<Longrightarrow> \<exists>l. last_id = Some l \<and> retain_cutoff high max_events last_id \<le> l + 1"
  by (auto simp: retain_cutoff_def sat_add_def split: option.splits)

lemma retain_call:
  "RetainEvents b \<in> set (fst (sweep_events io s)) \<Longrightarrow>
     \<exists>high max_events. rp_high_water io = Inr high \<and> rc_max_events (oc_retention (or_config s)) = Some max_events \<and>
       max_events < high \<and> b = retain_cutoff high max_events (or_last_processed s) \<and> 1 < b"
  by (auto simp: sweep_events_def Let_def split: option.splits sum.splits if_splits)

text \<open>The retention sweep never asks the store to archive an event that has not been
  processed, and always leaves at least the configured number of events; a sweep that does
  anything comes no sooner than the configured interval after the last successful one.\<close>

theorem sweep_keeps_unprocessed_events:
  assumes "sweep_retention io s = (s', calls)"
  shows "(\<forall>b. RetainEvents b \<in> set calls \<longrightarrow>
      (\<exists>l high max_events. or_last_processed s = Some l \<and> b \<le> l + 1 \<and> rp_high_water io = Inr high \<and>
        rc_max_events (oc_retention (or_config s)) = Some max_events \<and> b + max_events \<le> high + 1)) \<and>
    (\<forall>t. calls \<noteq> [] \<and> or_last_sweep s = Some t \<longrightarrow>
      int (rc_sweep_interval_secs (oc_retention (or_config s))) \<le> rp_now io - t)"
proof -
  have "\<exists>l high max_events. or_last_processed s = Some l \<and> b \<le> l + 1 \<and> rp_high_water io = Inr high \<and>
      rc_max_events (oc_retention (or_config s)) = Some max_events \<and> b + max_events \<le> high + 1"
    if "RetainEvents b \<in> set calls" for b
  proof -
    have "RetainEvents b \<in> set (fst (sweep_events io s))"
      using that assms
      by (auto simp: sweep_retention_def sweep_keys_def Let_def split: if_splits prod.splits option.splits)
    then obtain high max_events where "rp_high_water io = Inr high" "max_events < high" "1 < b"
      "rc_max_events (oc_retention (or_config s)) = Some max_events"
      "b = retain_cutoff high max_events (or_last_processed s)"
      using retain_call by blast
    then show ?thesis
      using retain_cutoff_le(1) [of max_events high "or_last_processed s"]
        retain_cutoff_le(2) [of high max_events "or_last_processed s"] by auto
  qed
  moreover have "int (rc_sweep_interval_secs (oc_retention (or_config s))) \<le> rp_now io - t"
    if "calls \<noteq> []" "or_last_sweep s = Some t" for t
    using that assms by (auto simp: sweep_retention_def Let_def split: if_splits prod.splits)
  ultimately show ?thesis by blast
qed

definition demo_retention :: retention_ports where
  "demo_retention =
     \<lparr>rp_now = 100, rp_high_water = Inr 10, rp_retain_events = (\<lambda>b. Inr b), rp_expire_keys = (\<lambda>k. Inr 0)\<rparr>"

lemma demo_sweep:
  "sweep_retention demo_retention (demo_orchestrator\<lparr>or_last_processed := Some 5\<rparr>) =
     (demo_orchestrator\<lparr>or_last_processed := Some 5, or_last_sweep := Some 100\<rparr>, [RetainEvents 6])"
  by (simp add: sweep_retention_def sweep_events_def sweep_keys_def demo_retention_def demo_orchestrator_def
      orch_add_task_def new_orchestrator_def demo_config_def retain_cutoff_def sat_add_def u64_max_def Let_def)

theorem sweep_keeps_unprocessed_events_witness: "(6 :: nat) \<le> 5 + 1"
  using sweep_keeps_unprocessed_events [OF demo_sweep] by auto

subsection \<open>Shutdown\<close>

definition sessions_indexed :: "worker_pool \<Rightarrow> bool" where
  "sessions_indexed p \<longleftrightarrow>
     (\<forall>w i. get_worker p w = Some i \<and> wi_is_alive i \<longrightarrow> hm_get (wp_sessions p) (wi_session_id i) = Some w)"

lemma alive_after_mark:
  "alive_set (mark_workers_dead_by_sessions ss p) = {w \<in> alive_set p. Some w \<notin> hm_get (wp_sessions p) ` set ss}"
  by (auto simp: alive_set_def get_worker_def mark_workers_dead_by_sessions_def Let_def buried_workers bury_def
      split: if_splits)

lemma alive_workers_iff:
  "pool_ok p \<Longrightarrow> i \<in> set (alive_workers h p) \<longleftrightarrow> get_worker p (wi_id i) = Some i \<and> wi_is_alive i"
  using set_hm_values [OF pool_okD(1), of p h] pool_okD(3) [of p]
  by (auto simp: alive_workers_def get_worker_def)

lemma shutdown_errors:
  "List.map_filter (\<lambda>x. case kill x of Inl err \<Rightarrow> Some (f x err) | Inr _ \<Rightarrow> None) xs = [] \<longleftrightarrow>
     list_all (\<lambda>x. is_ok (kill x)) xs"
  by (induction xs) (auto simp: List.map_filter_simps split: sum.splits)

lemma shutdown_effects:
  fixes kill :: "session_id \<Rightarrow> (string, unit) result"
  shows "\<not> or_running (fst (orch_shutdown kill h s))"
    and "is_ok (snd (orch_shutdown kill h s)) \<longleftrightarrow>
      list_all (\<lambda>x. is_ok (kill x)) (map wi_session_id (alive_workers h (or_pool s)))"
    and "alive_set (or_pool (fst (orch_shutdown kill h s))) = alive_set (mark_workers_dead_by_sessions
      (filter (\<lambda>x. is_ok (kill x)) (map wi_session_id (alive_workers h (or_pool s)))) (or_pool s))"
  subgoal by (simp add: orch_shutdown_def Let_def orch_stop_def)
  subgoal
    using shutdown_errors [of "\<lambda>x err. x @ '': '' @ err" kill "map wi_session_id (alive_workers h (or_pool s))"]
    unfolding orch_shutdown_def Let_def orch_stop_def by simp
  subgoal
    by (cases "filter (\<lambda>x. is_ok (kill x)) (map wi_session_id (alive_workers h (or_pool s))) = []")
      (simp_all add: orch_shutdown_def Let_def orch_stop_def alive_after_mark del: filter_empty_conv set_filter)
  done

text \<open>Shutdown stops the orchestrator and reports success exactly when the gateway ended
  every live session; afterwards the workers that still count as alive are exactly those whose
  session could not be ended.\<close>

theorem shutdown_tracks_kills:
  assumes "orch_ok s" and "sessions_indexed (or_pool s)" and "orch_shutdown kill h s = (s', r)"
  shows "\<not> or_running s' \<and>
    (is_ok r \<longleftrightarrow> (\<forall>w \<in> alive_set (or_pool s). \<forall>i. get_worker (or_pool s) w = Some i \<longrightarrow> is_ok (kill (wi_session_id i)))) \<and>
    alive_set (or_pool s') =
      {w \<in> alive_set (or_pool s). \<forall>i. get_worker (or_pool s) w = Some i \<longrightarrow> \<not> is_ok (kill (wi_session_id i))}"
proof -
  let ?p = "or_pool s" and ?ses = "map wi_session_id (alive_workers h (or_pool s))"
  let ?killed = "filter (\<lambda>x. is_ok (kill x)) ?ses"
  have pool: "pool_ok ?p" using assms(1) by (simp add: orch_ok_def)
  note alive = alive_workers_iff [OF pool, of _ h] and ids = pool_okD(3) [OF pool]
  have stop: "\<not> or_running s'" using shutdown_effects(1) [of kill h s] assms(3) by simp
  have "is_ok r \<longleftrightarrow> list_all (\<lambda>x. is_ok (kill x)) ?ses"
    using shutdown_effects(2) [of kill h s] assms(3) by simp
  also have "\<dots> \<longleftrightarrow> (\<forall>w \<in> alive_set ?p. \<forall>i. get_worker ?p w = Some i \<longrightarrow> is_ok (kill (wi_session_id i)))"
  proof -
    have "w = wi_id i" if "get_worker ?p w = Some i" for w i using ids that by (simp add: get_worker_def)
    then show ?thesis unfolding list_all_iff alive_set_def by (auto simp: alive) (metis alive)+
  qed
  finally have ok: "is_ok r \<longleftrightarrow> \<dots>" .
  have marked: "alive_set (or_pool s') = alive_set (mark_workers_dead_by_sessions ?killed ?p)"
    using shutdown_effects(3) [of kill h s] assms(3) by simp
  have dead: "Some w \<in> hm_get (wp_sessions ?p) ` set ?killed \<longleftrightarrow> is_ok (kill (wi_session_id i))"
    if "get_worker ?p w = Some i" "wi_is_alive i" for w i
  proof
    assume "Some w \<in> hm_get (wp_sessions ?p) ` set ?killed"
    then obtain j where j: "j \<in> set (alive_workers h ?p)" "is_ok (kill (wi_session_id j))"
      "hm_get (wp_sessions ?p) (wi_session_id j) = Some w" by auto
    with alive [of j] assms(2) have "wi_id j = w" by (auto simp: sessions_indexed_def)
    with that j alive [of j] show "is_ok (kill (wi_session_id i))" by auto
  next
    assume "is_ok (kill (wi_session_id i))"
    moreover have "wi_id i = w" using ids that by (simp add: get_worker_def)
    ultimately show "Some w \<in> hm_get (wp_sessions ?p) ` set ?killed"
      using that assms(2) alive [of i] by (force simp: sessions_indexed_def image_iff)
  qed
  have survives: "Some w \<notin> hm_get (wp_sessions ?p) ` set ?killed \<longleftrightarrow>
      (\<forall>i. get_worker ?p w = Some i \<longrightarrow> \<not> is_ok (kill (wi_session_id i)))" if w: "w \<in> alive_set ?p" for w
  proof -
    from w obtain i where i: "get_worker ?p w = Some i" "wi_is_alive i" by (auto simp: alive_set_def)
    show ?thesis unfolding dead [OF i] by (simp add: i)
  qed
  have "alive_set (or_pool s') =
      {w \<in> alive_set ?p. \<forall>i. get_worker ?p w = Some i \<longrightarrow> \<not> is_ok (kill (wi_session_id i))}"
    unfolding marked alive_after_mark by (intro Collect_cong conj_cong refl survives)
  with stop ok show ?thesis by blast
qed

lemma demo_pool_workers:
  "wp_workers demo_pool =
     [(''default-0'', new_worker_info 0 ''default-0'' Worker ''default'' ''s:/tmp/brehon/worktrees/default-0''),
      (''default-1'', new_worker_info 0 ''default-1'' Worker ''default'' ''s:/tmp/brehon/worktrees/default-1'')]"
  by code_simp

lemma demo_pool_sessions:
  "hm_get (wp_sessions demo_pool) ''s:/tmp/brehon/worktrees/default-0'' = Some ''default-0''"
  "hm_get (wp_sessions demo_pool) ''s:/tmp/brehon/worktrees/default-1'' = Some ''default-1''"
  by code_simp+

lemma demo_pool_indexed: "sessions_indexed demo_pool"
  using demo_pool_sessions
  by (auto simp: sessions_indexed_def get_worker_def demo_pool_workers new_worker_info_def split: if_splits)

theorem shutdown_tracks_kills_witness:
  "alive_set (or_pool (fst (orch_shutdown (\<lambda>x. Inr ()) stored_order demo_orchestrator))) = {}"
proof -
  have "sessions_indexed (or_pool demo_orchestrator)" using demo_pool_indexed by (simp add: demo_orchestrator_def)
  from shutdown_tracks_kills [OF orch_ok_demo this prod.collapse [symmetric], of "\<lambda>x. Inr ()" stored_order]
  show ?thesis by (auto simp: alive_set_def)
qed

end
