(* ===== verification/Reconciler_Props.thy ===== *)
theory Reconciler_Props
  imports Reconciler
begin

text \<open>
  What a reconciliation plan contains: which runs it retries, renews, releases and fails, and
  which tasks it gives back. The planner adds and removes actions one by one; the theorems
  describe the resulting plan by conditions on the snapshot alone.
\<close>

subsection \<open>Which repair a run needs\<close>

definition live_session :: "reconciliation_input \<Rightarrow> run_record \<Rightarrow> bool" where
  "live_session inp r = (case rr_session_id r of None \<Rightarrow> False | Some s \<Rightarrow> session_is_alive inp s)"

definition renewable :: "reconciler_config \<Rightarrow> reconciliation_input \<Rightarrow> run_record \<Rightarrow> bool" where
  "renewable cfg inp r \<longleftrightarrow>
     run_has_active_claim (rr_status r) \<and> claim_is_expired_at r (rn_now inp) \<and> live_session inp r \<and>
     session_has_active_operation_for_run inp r \<and> rk_renew_live_expired_claims cfg"

definition claim_lost :: "reconciler_config \<Rightarrow> reconciliation_input \<Rightarrow> run_record \<Rightarrow> bool" where
  "claim_lost cfg inp r \<longleftrightarrow> \<not> renewable cfg inp r \<and> (claim_is_expired_at r (rn_now inp) \<or> \<not> live_session inp r)"

definition task_is_over :: "reconciliation_input \<Rightarrow> run_record \<Rightarrow> bool" where
  "task_is_over inp r \<longleftrightarrow> (\<exists>t \<in> set (rn_tasks inp). te_id t = rr_task_id r \<and> is_terminal (te_status t))"

definition outlives_task :: "reconciliation_input \<Rightarrow> run_record \<Rightarrow> bool" where
  "outlives_task inp r \<longleftrightarrow> run_is_active r \<and> retry_queued_is_actionable r (rn_now inp) \<and> task_is_over inp r"

subsection \<open>The runs a plan mentions\<close>

definition runs_of :: "run_action list \<Rightarrow> run_record set" where
  "runs_of as = ra_run ` set as"

definition one_each :: "run_action list \<Rightarrow> bool" where
  "one_each as \<longleftrightarrow> distinct (map (\<lambda>a. rr_run_id (ra_run a)) as)"

definition same_runs :: "reconciliation_plan \<Rightarrow> reconciliation_plan \<Rightarrow> bool" where
  "same_runs p q \<longleftrightarrow>
     pl_run_retry_attempts p = pl_run_retry_attempts q \<and> pl_run_renewals p = pl_run_renewals q \<and>
     pl_run_releases p = pl_run_releases q \<and> pl_run_failures p = pl_run_failures q"

definition runs_ok :: "run_record list \<Rightarrow> reconciliation_plan \<Rightarrow> bool" where
  "runs_ok runs p \<longleftrightarrow>
     runs_of (pl_run_retry_attempts p) \<subseteq> set runs \<and> runs_of (pl_run_renewals p) \<subseteq> set runs \<and>
     runs_of (pl_run_releases p) \<subseteq> set runs \<and> runs_of (pl_run_failures p) \<subseteq> set runs \<and>
     runs_of (pl_run_failures p) \<inter> runs_of (pl_run_releases p) = {} \<and>
     runs_of (pl_run_failures p) \<inter> runs_of (pl_run_retry_attempts p) = {} \<and>
     one_each (pl_run_retry_attempts p) \<and> one_each (pl_run_renewals p) \<and>
     one_each (pl_run_releases p) \<and> one_each (pl_run_failures p)"

text \<open>The effect of a group of additions on the runs mentioned: retried, renewed, released, failed.\<close>

definition changes_runs ::
    "reconciliation_plan \<Rightarrow> reconciliation_plan \<Rightarrow> run_record set \<Rightarrow> run_record set \<Rightarrow> run_record set \<Rightarrow> run_record set \<Rightarrow> bool" where
  "changes_runs p q T N L F \<longleftrightarrow>
     runs_of (pl_run_retry_attempts q) = runs_of (pl_run_retry_attempts p) - F \<union> T \<and>
     runs_of (pl_run_renewals q) = runs_of (pl_run_renewals p) \<union> N \<and>
     runs_of (pl_run_releases q) = runs_of (pl_run_releases p) - F \<union> L \<and>
     runs_of (pl_run_failures q) = runs_of (pl_run_failures p) \<union> F"

lemma runs_of_simps [simp]: "runs_of [] = {}" "runs_of (as @ bs) = runs_of as \<union> runs_of bs" "runs_of [a] = {ra_run a}"
  by (auto simp: runs_of_def)

lemma runs_of_filter: "runs_of (filter (\<lambda>a. P (ra_run a)) as) = {r \<in> runs_of as. P r}"
  by (auto simp: runs_of_def)

lemma for_run_iff:
  assumes "distinct (map rr_run_id runs)" "runs_of as \<subseteq> set runs" "r \<in> set runs"
  shows "list_ex (for_run (rr_run_id r)) as \<longleftrightarrow> r \<in> runs_of as"
  using assms by (fastforce simp: list_ex_iff for_run_def runs_of_def distinct_map inj_on_def)

lemma remove_for_run:
  assumes "distinct (map rr_run_id runs)" "runs_of as \<subseteq> set runs" "r \<in> set runs"
  shows "runs_of (filter (\<lambda>x. \<not> for_run (rr_run_id r) x) as) = runs_of as - {r}"
  using assms unfolding for_run_def runs_of_filter [of "\<lambda>r'. rr_run_id r' \<noteq> rr_run_id r"] by (auto simp: distinct_map inj_on_def)

lemma one_each_filter: "one_each as \<Longrightarrow> one_each (filter P as)"
  by (simp add: one_each_def distinct_map_filter)

lemma one_each_snoc: "one_each (as @ [a]) \<longleftrightarrow> one_each as \<and> \<not> list_ex (for_run (rr_run_id (ra_run a))) as"
  by (auto simp: one_each_def list_ex_iff for_run_def image_iff)

lemma same_runs_ok: "same_runs q p \<Longrightarrow> runs_ok runs p \<Longrightarrow> runs_ok runs q \<and> changes_runs p q {} {} {} {}"
  by (simp add: same_runs_def runs_ok_def changes_runs_def)

lemma add_retry_runs:
  assumes "distinct (map rr_run_id runs)" "runs_ok runs p" "ra_run a \<in> set runs" "ra_run a \<notin> runs_of (pl_run_failures p)"
  shows "runs_ok runs (add_run_retry_attempt a p)" "changes_runs p (add_run_retry_attempt a p) {ra_run a} {} {} {}"
  using assms for_run_iff [OF assms(1) _ assms(3)]
  by (auto simp: add_run_retry_attempt_def has_terminal_run_action_def runs_ok_def changes_runs_def Let_def one_each_snoc)

lemma add_renewal_runs:
  assumes "distinct (map rr_run_id runs)" "runs_ok runs p" "ra_run a \<in> set runs" "ra_run a \<notin> runs_of (pl_run_failures p)"
  shows "runs_ok runs (add_run_renewal a p)" "changes_runs p (add_run_renewal a p) {} {ra_run a} {} {}"
  using assms for_run_iff [OF assms(1) _ assms(3)]
  by (auto simp: add_run_renewal_def has_terminal_run_action_def runs_ok_def changes_runs_def Let_def one_each_snoc)

lemma add_release_runs:
  assumes "distinct (map rr_run_id runs)" "runs_ok runs p" "ra_run a \<in> set runs" "ra_run a \<notin> runs_of (pl_run_failures p)"
  shows "runs_ok runs (add_run_release a p)" "changes_runs p (add_run_release a p) {} {} {ra_run a} {}"
  using assms for_run_iff [OF assms(1) _ assms(3)]
  by (auto simp: add_run_release_def has_terminal_run_action_def runs_ok_def changes_runs_def Let_def one_each_snoc)

lemma add_failure_runs:
  assumes "distinct (map rr_run_id runs)" "runs_ok runs p" "ra_run a \<in> set runs"
  shows "runs_ok runs (add_run_failure a p)" "changes_runs p (add_run_failure a p) {} {} {} {ra_run a}"
proof -
  note iff = for_run_iff [OF assms(1) _ assms(3)] and rem = remove_for_run [OF assms(1) _ assms(3)]
  from assms(2) have sub: "runs_of (pl_run_failures p) \<subseteq> set runs" "runs_of (pl_run_releases p) \<subseteq> set runs"
    "runs_of (pl_run_retry_attempts p) \<subseteq> set runs" by (simp_all add: runs_ok_def)
  show "runs_ok runs (add_run_failure a p)" "changes_runs p (add_run_failure a p) {} {} {} {ra_run a}"
    using assms(2,3) iff [OF sub(1)]
    by (auto simp: add_run_failure_def runs_ok_def changes_runs_def Let_def rem [OF sub(2)] rem [OF sub(3)]
        one_each_snoc one_each_filter)
qed

lemma changes_trans:
  assumes "changes_runs p q T N L F" "changes_runs q s T' N' L' F'" "T \<inter> F' = {}" "L \<inter> F' = {}"
  shows "changes_runs p s (T \<union> T') (N \<union> N') (L \<union> L') (F \<union> F')"
  using assms unfolding changes_runs_def by blast

lemma fold_changes:
  assumes "\<And>x p. x \<in> set xs \<Longrightarrow> runs_ok runs p \<Longrightarrow> runs_of (pl_run_failures p) \<inter> B x = {} \<Longrightarrow>
      runs_ok runs (f x p) \<and> changes_runs p (f x p) (T x) (N x) (L x) (F x)"
    and "\<And>x y. x \<in> set xs \<Longrightarrow> y \<in> set xs \<Longrightarrow> (T x \<union> L x) \<inter> F y = {}"
    and "sorted_wrt (\<lambda>y x. F y \<inter> B x = {}) xs" and "\<forall>x \<in> set xs. runs_of (pl_run_failures p) \<inter> B x = {}" and "runs_ok runs p"
  shows "runs_ok runs (fold f xs p) \<and>
    changes_runs p (fold f xs p) (\<Union> (T ` set xs)) (\<Union> (N ` set xs)) (\<Union> (L ` set xs)) (\<Union> (F ` set xs))"
  using assms
proof (induction xs arbitrary: p)
  case Nil
  then show ?case by (simp add: changes_runs_def)
next
  case (Cons x xs)
  have first: "runs_ok runs (f x p)" "changes_runs p (f x p) (T x) (N x) (L x) (F x)"
    using Cons.prems(1) [of x p] Cons.prems(4,5) by simp_all
  have "\<forall>y \<in> set xs. runs_of (pl_run_failures (f x p)) \<inter> B y = {}"
    using first(2) Cons.prems(3,4) by (auto simp: changes_runs_def)
  with Cons.prems first(1) have rest: "runs_ok runs (fold f xs (f x p))" "changes_runs (f x p) (fold f xs (f x p))
      (\<Union> (T ` set xs)) (\<Union> (N ` set xs)) (\<Union> (L ` set xs)) (\<Union> (F ` set xs))"
    using Cons.IH [of "f x p"] by simp_all
  have "T x \<inter> \<Union> (F ` set xs) = {}" "L x \<inter> \<Union> (F ` set xs) = {}"
    using Cons.prems(2) [of x] by fastforce+
  from changes_trans [OF first(2) rest(2) this] rest(1) show ?case by simp
qed

subsection \<open>The four passes\<close>

lemma sorted_wrt_distinct: "distinct xs \<Longrightarrow> (\<And>x y. x \<noteq> y \<Longrightarrow> P x y) \<Longrightarrow> sorted_wrt P xs"
  by (induction xs) (auto, metis)

lemma retry_pass:
  assumes "distinct (map rr_run_id (rn_active_runs inp))" "runs_ok (rn_active_runs inp) p" "runs_of (pl_run_failures p) = {}"
  shows "runs_ok (rn_active_runs inp) (reconcile_retry_queued_runs inp p) \<and>
    changes_runs p (reconcile_retry_queued_runs inp p) {r \<in> set (rn_active_runs inp). retry_is_due_at r (rn_now inp)} {} {} {}"
proof -
  let ?xs = "filter (\<lambda>r. rr_status r = RunRetryQueued) (rn_active_runs inp)"
  let ?f = "\<lambda>r p. if retry_is_due_at r (rn_now inp)
    then add_run_retry_attempt \<lparr>ra_run = r, ra_observed_at = rn_now inp, ra_reason = RetryDue\<rparr> p else p"
  have step: "runs_ok (rn_active_runs inp) (?f r q) \<and>
      changes_runs q (?f r q) (if retry_is_due_at r (rn_now inp) then {r} else {}) {} {} {}"
    if "r \<in> set ?xs" "runs_ok (rn_active_runs inp) q" "runs_of (pl_run_failures q) \<inter> {r} = {}" for r q
    using that add_retry_runs [OF assms(1) that(2), of "\<lparr>ra_run = r, ra_observed_at = rn_now inp, ra_reason = RetryDue\<rparr>"]
    by (simp add: changes_runs_def)
  have all: "runs_ok (rn_active_runs inp) (fold ?f ?xs p) \<and>
      changes_runs p (fold ?f ?xs p) (\<Union> ((\<lambda>r. if retry_is_due_at r (rn_now inp) then {r} else {}) ` set ?xs)) (\<Union> ((\<lambda>_. {}) ` set ?xs))
        (\<Union> ((\<lambda>_. {}) ` set ?xs)) (\<Union> ((\<lambda>_. {}) ` set ?xs))"
    by (rule fold_changes [where B = "\<lambda>r. {r}"]) (use step assms in \<open>auto simp: sorted_wrt_distinct distinct_map\<close>)
  have "(\<Union> ((\<lambda>r. if retry_is_due_at r (rn_now inp) then {r} else {}) ` set ?xs)) =
      {r \<in> set (rn_active_runs inp). retry_is_due_at r (rn_now inp)}"
    by (auto simp: retry_is_due_at_def split: if_splits)
  with all show ?thesis unfolding reconcile_retry_queued_runs_def by simp
qed

lemma same_runs_refl [simp]: "same_runs p p"
  by (simp add: same_runs_def)

lemma same_runs_trans: "same_runs q p \<Longrightarrow> same_runs r q \<Longrightarrow> same_runs r p"
  by (simp add: same_runs_def)

lemma same_runs_adds [simp]:
  "same_runs (add_task_update a p) q = same_runs p q" "same_runs (add_worker_cleanup c p) q = same_runs p q"
  "same_runs (add_escalation e p) q = same_runs p q"
  by (simp_all add: same_runs_def add_task_update_def add_worker_cleanup_def add_escalation_def)

lemma same_runs_fold: "(\<And>x p. same_runs (f x p) p) \<Longrightarrow> same_runs (fold f xs p) p"
proof (induction xs arbitrary: p)
  case (Cons x xs)
  from same_runs_trans [OF Cons.prems Cons.IH [OF Cons.prems]] show ?case by simp
qed simp

lemma repair_task_same [simp]: "same_runs (repair_task ws t p) p"
  by (simp add: repair_task_def split: option.split)

lemma dead_workers_same: "same_runs (reconcile_dead_workers inp p) p"
  unfolding reconcile_dead_workers_def Let_def
  by (rule same_runs_trans [OF same_runs_trans [OF same_runs_fold same_runs_fold] same_runs_fold])
    (simp_all split: option.split)

lemma claims_pass:
  assumes "distinct (map rr_run_id (rn_active_runs inp))" "runs_ok (rn_active_runs inp) p" "runs_of (pl_run_failures p) = {}"
  shows "runs_ok (rn_active_runs inp) (reconcile_claims cfg inp p) \<and>
    changes_runs p (reconcile_claims cfg inp p) {} {r \<in> set (rn_active_runs inp). renewable cfg inp r}
      {r \<in> set (rn_active_runs inp). rr_status r = RunClaimed \<and> claim_lost cfg inp r}
      {r \<in> set (rn_active_runs inp). rr_status r = RunRunning \<and> claim_lost cfg inp r}"
proof -
  let ?runs = "rn_active_runs inp"
  let ?xs = "filter (\<lambda>r. run_has_active_claim (rr_status r)) ?runs"
  let ?N = "\<lambda>r. if renewable cfg inp r then {r} else {}"
  let ?L = "\<lambda>r. if rr_status r = RunClaimed \<and> claim_lost cfg inp r then {r} else {}"
  let ?F = "\<lambda>r. if rr_status r = RunRunning \<and> claim_lost cfg inp r then {r} else {}"
  have step: "runs_ok ?runs (reconcile_claim cfg inp r q) \<and> changes_runs q (reconcile_claim cfg inp r q) {} (?N r) (?L r) (?F r)"
    if "r \<in> set ?xs" "runs_ok ?runs q" "runs_of (pl_run_failures q) \<inter> {r} = {}" for r q
  proof -
    let ?act = "\<lambda>reason. \<lparr>ra_run = r, ra_observed_at = rn_now inp, ra_reason = reason\<rparr>"
    have r: "ra_run (?act reason) \<in> set ?runs" "ra_run (?act reason) \<notin> runs_of (pl_run_failures q)" for reason
      using that(1,3) by simp_all
    note adds = add_renewal_runs [OF assms(1) that(2) r] add_release_runs [OF assms(1) that(2) r]
      add_failure_runs [OF assms(1) that(2) r(1)]
    have none: "changes_runs q q {} {} {} {}" by (simp add: changes_runs_def)
    have status: "rr_status r = RunClaimed \<or> rr_status r = RunRunning" using that(1) by (simp add: run_has_active_claim_def)
    show ?thesis
      using adds none status that(2)
      by (auto simp: reconcile_claim_def Let_def renewable_def claim_lost_def live_session_def [symmetric] run_has_active_claim_def)
  qed
  have all: "runs_ok ?runs (fold (reconcile_claim cfg inp) ?xs p) \<and>
      changes_runs p (fold (reconcile_claim cfg inp) ?xs p) (\<Union> ((\<lambda>_. {}) ` set ?xs)) (\<Union> (?N ` set ?xs)) (\<Union> (?L ` set ?xs)) (\<Union> (?F ` set ?xs))"
    by (rule fold_changes [where B = "\<lambda>r. {r}"]) (use step assms in \<open>auto simp: sorted_wrt_distinct distinct_map split: if_splits\<close>)
  have "\<Union> (?N ` set ?xs) = {r \<in> set ?runs. renewable cfg inp r}"
    "\<Union> (?L ` set ?xs) = {r \<in> set ?runs. rr_status r = RunClaimed \<and> claim_lost cfg inp r}"
    "\<Union> (?F ` set ?xs) = {r \<in> set ?runs. rr_status r = RunRunning \<and> claim_lost cfg inp r}"
    by (auto simp: run_has_active_claim_def renewable_def split: if_splits)
  with all show ?thesis unfolding reconcile_claims_def by simp
qed

lemma hm_get_group_runs_fold:
  "hm_get (fold (\<lambda>r m. hm_insert (rr_task_id r) ((case hm_get m (rr_task_id r) of None \<Rightarrow> [] | Some rs \<Rightarrow> rs) @ [r]) m) runs m) t =
     (case filter (\<lambda>r. rr_task_id r = t) runs of [] \<Rightarrow> hm_get m t
      | rs \<Rightarrow> Some ((case hm_get m t of None \<Rightarrow> [] | Some rs \<Rightarrow> rs) @ rs))"
  by (induction runs arbitrary: m) (auto split: list.split option.split)

lemma hm_get_group_runs:
  "(case hm_get (group_runs runs) t of None \<Rightarrow> [] | Some rs \<Rightarrow> rs) = filter (\<lambda>r. rr_task_id r = t) runs"
  by (simp add: group_runs_def hm_get_group_runs_fold split: list.split option.split)

lemma escalations_keep_runs:
  "same_runs (escalate_roles t rs p) p" "same_runs (escalate_sessions t rs p) p" "same_runs (escalate_worker_pool_mismatch inp t p) p"
  by (auto simp: escalate_roles_def escalate_sessions_def escalate_worker_pool_mismatch_def split: option.split
      intro!: same_runs_fold)

lemma escalations_same [simp]:
  "same_runs (escalate_roles t rs p) q = same_runs p q" "same_runs (escalate_sessions t rs p) q = same_runs p q"
  "same_runs (escalate_worker_pool_mismatch inp t p) q = same_runs p q"
  using escalations_keep_runs by (simp_all add: same_runs_def)

lemma open_task_same:
  "\<not> is_terminal (te_status t) \<Longrightarrow> same_runs (reconcile_task_runs cfg inp m t p) p"
  by (simp add: reconcile_task_runs_def Let_def)

lemma mismatch_pass:
  assumes "distinct (map rr_run_id (rn_active_runs inp))" "runs_ok (rn_active_runs inp) p"
  shows "runs_ok (rn_active_runs inp) (reconcile_task_run_mismatches cfg inp p) \<and>
    changes_runs p (reconcile_task_run_mismatches cfg inp p) {} {} {} {r \<in> set (rn_active_runs inp). outlives_task inp r}"
proof -
  let ?runs = "rn_active_runs inp"
  let ?live = "filter (\<lambda>r. run_is_active r \<and> retry_queued_is_actionable r (rn_now inp)) ?runs"
  let ?F = "\<lambda>t. if is_terminal (te_status t) then {r \<in> set ?live. rr_task_id r = te_id t} else {}"
  have step: "runs_ok ?runs (reconcile_task_runs cfg inp (group_runs ?live) t q) \<and>
      changes_runs q (reconcile_task_runs cfg inp (group_runs ?live) t q) {} {} {} (?F t)"
    if "runs_ok ?runs q" for t q
  proof (cases "is_terminal (te_status t)")
    case True
    let ?f = "\<lambda>r. add_run_failure \<lparr>ra_run = r, ra_observed_at = rn_now inp, ra_reason = TerminalTaskHasActiveRun\<rparr>"
    let ?rs = "filter (\<lambda>r. rr_task_id r = te_id t) ?live"
    have fail: "runs_ok ?runs (?f r p') \<and> changes_runs p' (?f r p') {} {} {} {r}" if "r \<in> set ?rs" "runs_ok ?runs p'" for r p'
      using add_failure_runs [OF assms(1) that(2), of "\<lparr>ra_run = r, ra_observed_at = rn_now inp, ra_reason = TerminalTaskHasActiveRun\<rparr>"]
        that(1) by simp
    have "runs_ok ?runs (fold ?f ?rs q) \<and> changes_runs q (fold ?f ?rs q) (\<Union> ((\<lambda>_. {}) ` set ?rs)) (\<Union> ((\<lambda>_. {}) ` set ?rs))
        (\<Union> ((\<lambda>_. {}) ` set ?rs)) (\<Union> ((\<lambda>r. {r}) ` set ?rs))"
      by (rule fold_changes [where B = "\<lambda>_. {}"]) (use fail that in auto)
    with True show ?thesis by (simp add: reconcile_task_runs_def hm_get_group_runs)
  next
    case False
    with same_runs_ok [OF open_task_same that] show ?thesis by simp
  qed
  have all: "runs_ok ?runs (fold (reconcile_task_runs cfg inp (group_runs ?live)) (rn_tasks inp) p) \<and>
      changes_runs p (fold (reconcile_task_runs cfg inp (group_runs ?live)) (rn_tasks inp) p) (\<Union> ((\<lambda>_. {}) ` set (rn_tasks inp)))
        (\<Union> ((\<lambda>_. {}) ` set (rn_tasks inp))) (\<Union> ((\<lambda>_. {}) ` set (rn_tasks inp))) (\<Union> (?F ` set (rn_tasks inp)))"
    by (rule fold_changes [where B = "\<lambda>_. {}"]) (use step assms in auto)
  have "\<Union> (?F ` set (rn_tasks inp)) = {r \<in> set ?runs. outlives_task inp r}"
    by (auto simp: outlives_task_def task_is_over_def split: if_splits)
  with all show ?thesis unfolding reconcile_task_run_mismatches_def Let_def by simp
qed

subsection \<open>Exact run repairs\<close>

lemma over_actionable: "retry_is_due_at r now \<Longrightarrow> run_is_active r \<and> retry_queued_is_actionable r now"
  "rr_status r = RunClaimed \<Longrightarrow> run_is_active r \<and> retry_queued_is_actionable r now"
  by (auto simp: retry_is_due_at_def retry_queued_is_actionable_def run_is_active_def run_is_terminal_def)

lemma reconcile_runs:
  fixes cfg :: reconciler_config and inp :: reconciliation_input
  assumes "distinct (map rr_run_id (rn_active_runs inp))"
  defines "p \<equiv> reconcile cfg inp" and "runs \<equiv> set (rn_active_runs inp)"
  shows "runs_ok (rn_active_runs inp) p"
    and "runs_of (pl_run_retry_attempts p) = {r \<in> runs. retry_is_due_at r (rn_now inp) \<and> \<not> task_is_over inp r}"
    and "runs_of (pl_run_renewals p) = {r \<in> runs. renewable cfg inp r}"
    and "runs_of (pl_run_releases p) = {r \<in> runs. rr_status r = RunClaimed \<and> claim_lost cfg inp r \<and> \<not> task_is_over inp r}"
    and "runs_of (pl_run_failures p) = {r \<in> runs. rr_status r = RunRunning \<and> claim_lost cfg inp r \<or> outlives_task inp r}"
proof -
  let ?rs = "rn_active_runs inp"
  define p1 where "p1 = reconcile_retry_queued_runs inp empty_plan"
  define p2 where "p2 = reconcile_dead_workers inp p1"
  define p3 where "p3 = reconcile_claims cfg inp p2"
  have p: "p = reconcile_task_run_mismatches cfg inp p3" by (simp add: p_def reconcile_def p1_def p2_def p3_def)
  have "runs_ok ?rs empty_plan" "runs_of (pl_run_failures empty_plan) = {}"
    by (simp_all add: runs_ok_def empty_plan_def one_each_def)
  from retry_pass [OF assms(1) this] have s1: "runs_ok ?rs p1"
    "changes_runs empty_plan p1 {r \<in> runs. retry_is_due_at r (rn_now inp)} {} {} {}" by (simp_all add: p1_def runs_def)
  from same_runs_ok [OF dead_workers_same s1(1)] have s2: "runs_ok ?rs p2" "changes_runs p1 p2 {} {} {} {}"
    by (simp_all add: p2_def)
  have "runs_of (pl_run_failures p2) = {}" using s1(2) s2(2) by (simp add: changes_runs_def empty_plan_def)
  from claims_pass [OF assms(1) s2(1) this, of cfg] have s3: "runs_ok ?rs p3"
    "changes_runs p2 p3 {} {r \<in> runs. renewable cfg inp r} {r \<in> runs. rr_status r = RunClaimed \<and> claim_lost cfg inp r}
       {r \<in> runs. rr_status r = RunRunning \<and> claim_lost cfg inp r}" by (simp_all add: p3_def runs_def)
  from mismatch_pass [OF assms(1) s3(1), of cfg] have s4: "runs_ok ?rs p"
    "changes_runs p3 p {} {} {} {r \<in> runs. outlives_task inp r}" by (simp_all add: p runs_def)
  note eqs = s1(2) s2(2) s3(2) s4(2)
  show "runs_ok ?rs p" by (rule s4(1))
  show "runs_of (pl_run_renewals p) = {r \<in> runs. renewable cfg inp r}"
    "runs_of (pl_run_failures p) = {r \<in> runs. rr_status r = RunRunning \<and> claim_lost cfg inp r \<or> outlives_task inp r}"
    using eqs by (auto simp: changes_runs_def empty_plan_def)
  show "runs_of (pl_run_retry_attempts p) = {r \<in> runs. retry_is_due_at r (rn_now inp) \<and> \<not> task_is_over inp r}"
    using eqs over_actionable(1) by (auto simp: changes_runs_def empty_plan_def outlives_task_def retry_is_due_at_def)
  show "runs_of (pl_run_releases p) = {r \<in> runs. rr_status r = RunClaimed \<and> claim_lost cfg inp r \<and> \<not> task_is_over inp r}"
    using eqs over_actionable(2) by (auto simp: changes_runs_def empty_plan_def outlives_task_def)
qed

text \<open>C4: The plan contains exactly the run repairs the snapshot calls for, each run at most once per kind:
  a run is renewed when its claim expired under a live session that still works on it, retried
  when its retry is due, released when its claim is lost before it started, failed when its
  claim is lost while running; runs of a finished task are failed and neither retried nor
  released.\<close>

theorem planned_run_repairs_exact:
  assumes "distinct (map rr_run_id (rn_active_runs inp))"
  shows "let p = reconcile cfg inp; runs = set (rn_active_runs inp) in
    ra_run ` set (pl_run_renewals p) = {r \<in> runs. renewable cfg inp r} \<and>
    ra_run ` set (pl_run_retry_attempts p) = {r \<in> runs. retry_is_due_at r (rn_now inp) \<and> \<not> task_is_over inp r} \<and>
    ra_run ` set (pl_run_releases p) = {r \<in> runs. rr_status r = RunClaimed \<and> claim_lost cfg inp r \<and> \<not> task_is_over inp r} \<and>
    ra_run ` set (pl_run_failures p) = {r \<in> runs. rr_status r = RunRunning \<and> claim_lost cfg inp r \<or> outlives_task inp r} \<and>
    one_each (pl_run_renewals p) \<and> one_each (pl_run_retry_attempts p) \<and> one_each (pl_run_releases p) \<and> one_each (pl_run_failures p)"
  using reconcile_runs [OF assms, of cfg] by (simp add: Let_def runs_of_def runs_ok_def)

subsection \<open>Tasks given back and workers cleaned up\<close>

definition updated_tasks :: "reconciliation_plan \<Rightarrow> task_id set" where
  "updated_tasks p = tu_task_id ` set (pl_task_updates p)"

fun cleanup_target :: "worker_cleanup_action \<Rightarrow> session_id + worker_id" where
  "cleanup_target (HandleWorkerDeath s) = Inl s"
| "cleanup_target (ClearAssignment w _) = Inr w"

definition cleanup_targets :: "reconciliation_plan \<Rightarrow> (session_id + worker_id) set" where
  "cleanup_targets p = cleanup_target ` set (pl_worker_cleanup_actions p)"

definition keeps_worker :: "reconciliation_input \<Rightarrow> task_entry \<Rightarrow> bool" where
  \<comment> \<open>the assignee is a live worker with the session the task was given to\<close>
  "keeps_worker inp t \<longleftrightarrow>
     (\<exists>w \<in> set (rn_workers inp). te_assignee t = Some (ws_worker_id w) \<and> ws_is_alive w \<and> \<not> task_session_is_stale t w)"

definition has_worker_run :: "reconciliation_input \<Rightarrow> task_entry \<Rightarrow> bool" where
  "has_worker_run inp t \<longleftrightarrow>
     (\<exists>r \<in> set (rn_active_runs inp). rr_task_id r = te_id t \<and> rr_role r = WorkerRole \<and> run_is_active r \<and>
        retry_queued_is_actionable r (rn_now inp))"

definition must_unassign :: "reconciler_config \<Rightarrow> reconciliation_input \<Rightarrow> task_entry \<Rightarrow> bool" where
  "must_unassign cfg inp t \<longleftrightarrow>
     is_worker_owned_status (te_status t) \<and> te_assignee t \<noteq> None \<and>
     (\<not> keeps_worker inp t \<or> rk_require_active_worker_runs cfg \<and> \<not> has_worker_run inp t)"

definition holds_task :: "reconciliation_input \<Rightarrow> worker_snapshot \<Rightarrow> bool" where
  \<comment> \<open>the task recorded for the worker exists, is open and names the worker\<close>
  "holds_task inp w \<longleftrightarrow>
     (\<exists>t \<in> set (rn_tasks inp). ws_assigned_task w = Some (te_id t) \<and> \<not> is_terminal (te_status t) \<and>
        te_assignee t = Some (ws_worker_id w))"

lemma hm_get_collect_fold:
  "hm_get (fold (\<lambda>x. hm_insert (key x) x) xs m) k =
     (case filter (\<lambda>x. key x = k) xs of [] \<Rightarrow> hm_get m k | ys \<Rightarrow> Some (last ys))"
  by (induction xs arbitrary: m) (auto split: list.split)

lemma hm_get_collect:
  assumes "distinct (map key xs)"
  shows "hm_get (collect_by key xs) k = Some x \<longleftrightarrow> x \<in> set xs \<and> key x = k"
proof -
  have unique: "filter (\<lambda>y. key y = k) xs = [x]" if "x \<in> set xs" "key x = k" for x
    using assms that by (induction xs) (auto simp: filter_empty_conv image_iff)
  show ?thesis
  proof (cases "filter (\<lambda>x. key x = k) xs")
    case Nil
    then show ?thesis by (auto simp: collect_by_def hm_get_collect_fold filter_empty_conv)
  next
    case (Cons y ys)
    then have "y \<in> set (filter (\<lambda>x. key x = k) xs)" by simp
    then have "y \<in> set xs" "key y = k" by simp_all
    with unique [of x] unique [of y] Cons show ?thesis
      by (auto simp: collect_by_def hm_get_collect_fold)
  qed
qed

lemma fold_grows:
  assumes "\<And>x p. x \<in> set xs \<Longrightarrow> m (f x p) = m p \<union> A x"
  shows "m (fold f xs p) = m p \<union> \<Union> (A ` set xs)"
  using assms by (induction xs arbitrary: p) auto

lemma updated_adds [simp]:
  "updated_tasks (add_task_update a p) = insert (tu_task_id a) (updated_tasks p)"
  "updated_tasks (add_worker_cleanup c p) = updated_tasks p" "updated_tasks (add_escalation e p) = updated_tasks p"
  "updated_tasks (add_run_retry_attempt r p) = updated_tasks p" "updated_tasks (add_run_renewal r p) = updated_tasks p"
  "updated_tasks (add_run_release r p) = updated_tasks p" "updated_tasks (add_run_failure r p) = updated_tasks p"
  by (auto simp: updated_tasks_def add_task_update_def add_worker_cleanup_def add_escalation_def add_run_retry_attempt_def
      add_run_renewal_def add_run_release_def add_run_failure_def list_ex_iff image_iff Let_def) metis

lemma same_target_iff: "same_target x y \<longleftrightarrow> cleanup_target x = cleanup_target y"
  by (cases x; cases y) simp_all

lemma cleanup_adds [simp]:
  "cleanup_targets (add_worker_cleanup c p) = insert (cleanup_target c) (cleanup_targets p)"
  "cleanup_targets (add_task_update a p) = cleanup_targets p" "cleanup_targets (add_escalation e p) = cleanup_targets p"
  "cleanup_targets (add_run_retry_attempt r p) = cleanup_targets p" "cleanup_targets (add_run_renewal r p) = cleanup_targets p"
  "cleanup_targets (add_run_release r p) = cleanup_targets p" "cleanup_targets (add_run_failure r p) = cleanup_targets p"
  by (auto simp: cleanup_targets_def add_task_update_def add_worker_cleanup_def add_escalation_def add_run_retry_attempt_def
      add_run_renewal_def add_run_release_def add_run_failure_def list_ex_iff image_iff Let_def same_target_iff) metis

lemma fold_keeps: "(\<And>x p. m (f x p) = m p) \<Longrightarrow> m (fold f xs p) = m p"
  by (induction xs arbitrary: p) auto

lemma retry_pass_keeps [simp]:
  "updated_tasks (reconcile_retry_queued_runs inp p) = updated_tasks p"
  "cleanup_targets (reconcile_retry_queued_runs inp p) = cleanup_targets p"
  unfolding reconcile_retry_queued_runs_def by (rule fold_keeps, simp)+

lemma claims_pass_keeps [simp]:
  "updated_tasks (reconcile_claims cfg inp p) = updated_tasks p"
  "cleanup_targets (reconcile_claims cfg inp p) = cleanup_targets p"
  unfolding reconcile_claims_def reconcile_claim_def Let_def by (rule fold_keeps, simp split: run_status.split)+

lemma escalations_keep [simp]:
  "updated_tasks (escalate_roles t rs p) = updated_tasks p" "cleanup_targets (escalate_roles t rs p) = cleanup_targets p"
  "updated_tasks (escalate_sessions t rs p) = updated_tasks p" "cleanup_targets (escalate_sessions t rs p) = cleanup_targets p"
  "updated_tasks (escalate_worker_pool_mismatch inp t p) = updated_tasks p"
  "cleanup_targets (escalate_worker_pool_mismatch inp t p) = cleanup_targets p"
  by (auto simp: escalate_roles_def escalate_sessions_def escalate_worker_pool_mismatch_def split: option.splits if_splits
      intro!: fold_keeps)

lemma owned_not_terminal: "is_worker_owned_status s \<Longrightarrow> \<not> is_terminal s"
  by (auto simp: is_worker_owned_status_def is_terminal_def)

lemma mismatch_pass_updates:
  "updated_tasks (reconcile_task_run_mismatches cfg inp p) = updated_tasks p \<union>
     te_id ` {t \<in> set (rn_tasks inp). rk_require_active_worker_runs cfg \<and> is_worker_owned_status (te_status t) \<and>
       te_assignee t \<noteq> None \<and> \<not> has_worker_run inp t}"
proof -
  let ?A = "\<lambda>t. if rk_require_active_worker_runs cfg \<and> is_worker_owned_status (te_status t) \<and>
       te_assignee t \<noteq> None \<and> \<not> has_worker_run inp t then {te_id t} else {}"
  let ?live = "filter (\<lambda>r. run_is_active r \<and> retry_queued_is_actionable r (rn_now inp)) (rn_active_runs inp)"
  have run: "list_ex (\<lambda>r. rr_role r = WorkerRole) (filter (\<lambda>r. rr_task_id r = te_id t) ?live) \<longleftrightarrow> has_worker_run inp t" for t
    by (auto simp: list_ex_iff has_worker_run_def)
  have step: "updated_tasks (reconcile_task_runs cfg inp (group_runs ?live) t q) = updated_tasks q \<union> ?A t" for t q
    by (cases "is_terminal (te_status t)")
      (auto simp: reconcile_task_runs_def Let_def hm_get_group_runs run [simplified] owned_not_terminal intro!: fold_keeps)
  have "updated_tasks (reconcile_task_run_mismatches cfg inp p) = updated_tasks p \<union> \<Union> (?A ` set (rn_tasks inp))"
    unfolding reconcile_task_run_mismatches_def Let_def by (rule fold_grows) (rule step)
  then show ?thesis by (auto split: if_splits)
qed

lemma mismatch_pass_cleanup: "cleanup_targets (reconcile_task_run_mismatches cfg inp p) = cleanup_targets p"
  unfolding reconcile_task_run_mismatches_def reconcile_task_runs_def Let_def
  by (rule fold_keeps) (auto intro!: fold_keeps)

lemma repair_task_updates:
  assumes "distinct (map ws_worker_id (rn_workers inp))"
  shows "updated_tasks (repair_task (collect_by ws_worker_id (rn_workers inp)) t p) = updated_tasks p \<union>
      (if is_worker_owned_status (te_status t) \<and> te_assignee t \<noteq> None \<and> \<not> keeps_worker inp t then {te_id t} else {})"
    and "cleanup_targets (repair_task (collect_by ws_worker_id (rn_workers inp)) t p) = cleanup_targets p \<union>
      {Inr w | w. is_worker_owned_status (te_status t) \<and> te_assignee t = Some w \<and>
         (\<exists>i \<in> set (rn_workers inp). ws_worker_id i = w \<and> ws_is_alive i \<and> task_session_is_stale t i)}"
proof -
  note get = hm_get_collect [OF assms]
  have unique: "i = j" if "i \<in> set (rn_workers inp)" "j \<in> set (rn_workers inp)" "ws_worker_id i = ws_worker_id j" for i j
    using assms that by (auto simp: distinct_map inj_on_def)
  have none: "hm_get (collect_by ws_worker_id (rn_workers inp)) w = None \<longleftrightarrow> (\<forall>i \<in> set (rn_workers inp). ws_worker_id i \<noteq> w)" for w
    using get [of w] by (metis not_None_eq)
  show "updated_tasks (repair_task (collect_by ws_worker_id (rn_workers inp)) t p) = updated_tasks p \<union>
      (if is_worker_owned_status (te_status t) \<and> te_assignee t \<noteq> None \<and> \<not> keeps_worker inp t then {te_id t} else {})"
    by (auto simp: repair_task_def keeps_worker_def get none split: option.split dest: unique)
  show "cleanup_targets (repair_task (collect_by ws_worker_id (rn_workers inp)) t p) = cleanup_targets p \<union>
      {Inr w | w. is_worker_owned_status (te_status t) \<and> te_assignee t = Some w \<and>
         (\<exists>i \<in> set (rn_workers inp). ws_worker_id i = w \<and> ws_is_alive i \<and> task_session_is_stale t i)}"
    by (auto simp: repair_task_def get none split: option.split dest: unique)
qed

lemma clear_reason_iff:
  assumes "distinct (map te_id (rn_tasks inp))"
  shows "clear_reason (collect_by te_id (rn_tasks inp)) w \<noteq> None \<longleftrightarrow> ws_assigned_task w \<noteq> None \<and> \<not> holds_task inp w"
proof -
  note get = hm_get_collect [OF assms]
  have unique: "s = t" if "s \<in> set (rn_tasks inp)" "t \<in> set (rn_tasks inp)" "te_id s = te_id t" for s t
    using assms that by (auto simp: distinct_map inj_on_def)
  have none: "hm_get (collect_by te_id (rn_tasks inp)) k = None \<longleftrightarrow> (\<forall>t \<in> set (rn_tasks inp). te_id t \<noteq> k)" for k
    using get [of k] by (metis not_None_eq)
  show ?thesis by (auto simp: clear_reason_def holds_task_def get none split: option.split dest: unique)
qed

lemma dead_worker_pass:
  assumes "distinct (map ws_worker_id (rn_workers inp))" "distinct (map te_id (rn_tasks inp))"
  shows "updated_tasks (reconcile_dead_workers inp p) = updated_tasks p \<union>
      te_id ` {t \<in> set (rn_tasks inp). is_worker_owned_status (te_status t) \<and> te_assignee t \<noteq> None \<and> \<not> keeps_worker inp t}"
    and "cleanup_targets (reconcile_dead_workers inp p) = cleanup_targets p \<union>
      Inl ` ws_session_id ` {w \<in> set (rn_workers inp). \<not> ws_is_alive w} \<union>
      (\<Union>t \<in> set (rn_tasks inp). {Inr w | w. is_worker_owned_status (te_status t) \<and> te_assignee t = Some w \<and>
         (\<exists>i \<in> set (rn_workers inp). ws_worker_id i = w \<and> ws_is_alive i \<and> task_session_is_stale t i)}) \<union>
      Inr ` ws_worker_id ` {w \<in> set (rn_workers inp). ws_assigned_task w \<noteq> None \<and> \<not> holds_task inp w}"
proof -
  let ?W = "collect_by ws_worker_id (rn_workers inp)" and ?T = "collect_by te_id (rn_tasks inp)"
  let ?f1 = "\<lambda>w. add_worker_cleanup (HandleWorkerDeath (ws_session_id w))"
  let ?f3 = "\<lambda>w p. case clear_reason ?T w of None \<Rightarrow> p | Some reason \<Rightarrow> add_worker_cleanup (ClearAssignment (ws_worker_id w) reason) p"
  let ?dead = "filter (\<lambda>w. \<not> ws_is_alive w) (rn_workers inp)"
  have u1: "updated_tasks (fold ?f1 xs q) = updated_tasks q" for xs q by (rule fold_keeps) simp
  have u3: "updated_tasks (fold ?f3 xs q) = updated_tasks q" for xs q by (rule fold_keeps) (simp split: option.split)
  have u2: "updated_tasks (fold (repair_task ?W) xs q) = updated_tasks q \<union>
      \<Union> ((\<lambda>t. if is_worker_owned_status (te_status t) \<and> te_assignee t \<noteq> None \<and> \<not> keeps_worker inp t then {te_id t} else {}) ` set xs)" for xs q
    by (rule fold_grows) (rule repair_task_updates(1) [OF assms(1)])
  show "updated_tasks (reconcile_dead_workers inp p) = updated_tasks p \<union>
      te_id ` {t \<in> set (rn_tasks inp). is_worker_owned_status (te_status t) \<and> te_assignee t \<noteq> None \<and> \<not> keeps_worker inp t}"
    unfolding reconcile_dead_workers_def Let_def u3 u2 u1 by (auto split: if_splits)
  have c1: "cleanup_targets (fold ?f1 xs q) = cleanup_targets q \<union> \<Union> ((\<lambda>w. {Inl (ws_session_id w)}) ` set xs)" for xs q
    by (rule fold_grows) simp
  have c2: "cleanup_targets (fold (repair_task ?W) xs q) = cleanup_targets q \<union>
      \<Union> ((\<lambda>t. {Inr w | w. is_worker_owned_status (te_status t) \<and> te_assignee t = Some w \<and>
         (\<exists>i \<in> set (rn_workers inp). ws_worker_id i = w \<and> ws_is_alive i \<and> task_session_is_stale t i)}) ` set xs)" for xs q
    by (rule fold_grows) (rule repair_task_updates(2) [OF assms(1)])
  have c3: "cleanup_targets (fold ?f3 xs q) = cleanup_targets q \<union>
      \<Union> ((\<lambda>w. if clear_reason ?T w \<noteq> None then {Inr (ws_worker_id w)} else {}) ` set xs)" for xs q
    by (rule fold_grows) (simp split: option.split)
  show "cleanup_targets (reconcile_dead_workers inp p) = cleanup_targets p \<union>
      Inl ` ws_session_id ` {w \<in> set (rn_workers inp). \<not> ws_is_alive w} \<union>
      (\<Union>t \<in> set (rn_tasks inp). {Inr w | w. is_worker_owned_status (te_status t) \<and> te_assignee t = Some w \<and>
         (\<exists>i \<in> set (rn_workers inp). ws_worker_id i = w \<and> ws_is_alive i \<and> task_session_is_stale t i)}) \<union>
      Inr ` ws_worker_id ` {w \<in> set (rn_workers inp). ws_assigned_task w \<noteq> None \<and> \<not> holds_task inp w}"
    unfolding reconcile_dead_workers_def Let_def c3 c2 c1 clear_reason_iff [OF assms(2)] by (auto split: if_splits)
qed

text \<open>C12: The plan gives back exactly the tasks that lost their worker (the assignee is unknown, dead or
  has another session) and, where active runs are required, those without one; it reports the
  death of exactly the dead workers, and frees exactly the workers whose recorded task is gone,
  finished, assigned to someone else, or held under another session.\<close>

theorem planned_task_repairs_exact:
  assumes "distinct (map ws_worker_id (rn_workers inp))" "distinct (map te_id (rn_tasks inp))"
  shows "let p = reconcile cfg inp; tasks = set (rn_tasks inp); workers = set (rn_workers inp) in
    updated_tasks p = te_id ` {t \<in> tasks. must_unassign cfg inp t} \<and>
    {s. Inl s \<in> cleanup_targets p} = ws_session_id ` {w \<in> workers. \<not> ws_is_alive w} \<and>
    {w. Inr w \<in> cleanup_targets p} = ws_worker_id `
      {w \<in> workers. ws_assigned_task w \<noteq> None \<and> \<not> holds_task inp w \<or>
         ws_is_alive w \<and> (\<exists>t \<in> tasks. is_worker_owned_status (te_status t) \<and> te_assignee t = Some (ws_worker_id w) \<and>
           task_session_is_stale t w)}"
proof -
  have none: "updated_tasks empty_plan = {}" "cleanup_targets empty_plan = {}"
    by (simp_all add: updated_tasks_def cleanup_targets_def empty_plan_def)
  show ?thesis
    unfolding Let_def reconcile_def mismatch_pass_updates mismatch_pass_cleanup claims_pass_keeps
      dead_worker_pass [OF assms] retry_pass_keeps none
    by (auto simp: must_unassign_def image_iff)
qed

subsection \<open>A snapshot\<close>

text \<open>
  Task \<open>a\<close> is in progress with a worker that died; task \<open>b\<close> is merged, its worker is alive and
  still recorded for it, and its run holds an expired claim.
\<close>

definition demo_run_a :: run_record where
  "demo_run_a = (new_run_record ''r-a'' ''a'' WorkerRole 0)
     \<lparr>rr_status := RunRunning, rr_claim_generation := 1, rr_session_id := Some ''s-0'', rr_lease_expires_at := Some 200\<rparr>"

definition demo_run_b :: run_record where
  "demo_run_b = (new_run_record ''r-b'' ''b'' WorkerRole 0)
     \<lparr>rr_status := RunClaimed, rr_claim_generation := 1, rr_session_id := Some ''s-1'', rr_lease_expires_at := Some 50\<rparr>"

definition demo_task_a :: task_entry where
  "demo_task_a = (new_task_entry 0 ''a'' [] [])\<lparr>te_status := InProgress, te_assignee := Some ''w-0'', te_session_id := Some ''s-0''\<rparr>"

definition demo_worker_0 :: worker_snapshot where
  "demo_worker_0 =
     \<lparr>ws_worker_id = ''w-0'', ws_kind = Worker, ws_session_id = ''s-0'', ws_assigned_task = None, ws_is_alive = False\<rparr>"

definition demo_worker_1 :: worker_snapshot where
  "demo_worker_1 =
     \<lparr>ws_worker_id = ''w-1'', ws_kind = Worker, ws_session_id = ''s-1'', ws_assigned_task = Some ''b'', ws_is_alive = True\<rparr>"

definition demo_snapshot :: reconciliation_input where
  "demo_snapshot =
     \<lparr>rn_now = 100,
      rn_tasks =
        [demo_task_a,
         (new_task_entry 0 ''b'' [] [])\<lparr>te_status := Merged, te_assignee := Some ''w-1'', te_session_id := Some ''s-1''\<rparr>],
      rn_workers = [demo_worker_0, demo_worker_1],
      rn_dependencies = [], rn_git_ops = None, rn_active_runs = [demo_run_a, demo_run_b]\<rparr>"

lemmas demo_snapshot_defs = demo_snapshot_def demo_task_a_def demo_worker_0_def demo_worker_1_def new_task_entry_def
  default_reconciler_config_def is_terminal_def

lemma demo_repairs:
  "distinct (map rr_run_id (rn_active_runs demo_snapshot))"
  "renewable default_reconciler_config demo_snapshot demo_run_b" "outlives_task demo_snapshot demo_run_b"
  "claim_lost default_reconciler_config demo_snapshot demo_run_a" "rr_status demo_run_a = RunRunning"
  by (simp_all add: demo_snapshot_defs demo_run_a_def demo_run_b_def new_run_record_def renewable_def
      outlives_task_def claim_lost_def task_is_over_def run_is_active_def run_is_terminal_def
      retry_queued_is_actionable_def live_session_def session_is_alive_def session_has_active_operation_for_run_def
      claim_is_expired_at_def run_has_active_claim_def)

theorem planned_run_repairs_exact_witness:
  "let p = reconcile default_reconciler_config demo_snapshot in
     ra_run ` set (pl_run_failures p) = {demo_run_a, demo_run_b} \<and> demo_run_b \<in> ra_run ` set (pl_run_renewals p)"
  using planned_run_repairs_exact [OF demo_repairs(1), of default_reconciler_config] demo_repairs
  by (auto simp: Let_def demo_snapshot_def)

theorem planned_task_repairs_exact_witness:
  "let p = reconcile default_reconciler_config demo_snapshot in
     ''a'' \<in> updated_tasks p \<and> Inl ''s-0'' \<in> cleanup_targets p \<and> Inr ''w-1'' \<in> cleanup_targets p"
proof -
  have "distinct (map ws_worker_id (rn_workers demo_snapshot))" "distinct (map te_id (rn_tasks demo_snapshot))"
    by (simp_all add: demo_snapshot_defs)
  note exact = planned_task_repairs_exact [OF this, of default_reconciler_config]
  have "must_unassign default_reconciler_config demo_snapshot demo_task_a" "\<not> holds_task demo_snapshot demo_worker_1"
    "te_id demo_task_a = ''a''" "ws_session_id demo_worker_0 = ''s-0''" "ws_worker_id demo_worker_1 = ''w-1''"
    "\<not> ws_is_alive demo_worker_0" "ws_assigned_task demo_worker_1 \<noteq> None"
    by (simp_all add: demo_snapshot_defs must_unassign_def is_worker_owned_status_def keeps_worker_def holds_task_def)
  moreover have "demo_task_a \<in> set (rn_tasks demo_snapshot)" "demo_worker_0 \<in> set (rn_workers demo_snapshot)"
    "demo_worker_1 \<in> set (rn_workers demo_snapshot)" by (simp_all add: demo_snapshot_def)
  ultimately have "''a'' \<in> te_id ` {t \<in> set (rn_tasks demo_snapshot). must_unassign default_reconciler_config demo_snapshot t}"
    "''s-0'' \<in> ws_session_id ` {w \<in> set (rn_workers demo_snapshot). \<not> ws_is_alive w}"
    "\<exists>w \<in> set (rn_workers demo_snapshot). ''w-1'' = ws_worker_id w \<and> ws_assigned_task w \<noteq> None \<and> \<not> holds_task demo_snapshot w"
    by force+
  with exact show ?thesis by (auto simp: Let_def set_eq_iff image_iff)
qed

end
