(* ===== verification/Orchestrator_Tick.thy ===== *)
theory Orchestrator_Tick
  imports Continuation Run_Fencing Orchestrator_Behaviour Reconciler_Props
begin

text \<open>
  The tick of \<open>orchestrator.rs\<close>, which composes event handling, reconciliation, continuation,
  dispatch, bounds and retention, and what it keeps: the orchestrator's own invariant, and
  through the contract of the run store (the locale \<open>run_store\<close>, interpreted on the store of
  \<open>Run_Store\<close>) the invariant of the durable runs.
\<close>

subsection \<open>The tick\<close>

record 'rs tick_ports =
  tk_now :: time
  tk_stream :: "event_id option \<Rightarrow> (orchestrator_error, (event \<times> event_id) list) result"
  tk_reconcile :: reconcile_ports
  tk_continue :: continuation_ports
  tk_dispatch :: "'rs \<Rightarrow> dispatch_ports" \<comment> \<open>dispatch reads the run store as it then is\<close>
  tk_bounds :: "task_id hash_order"
  tk_retention :: retention_ports

record tick_trace =
  tt_events :: "event list"
  tt_prompts :: "(run_record \<times> session_id \<times> prompt_turn) list"
  tt_assignments :: "assignment list"
  tt_retention :: "retention_call list"

definition update_dependencies :: "orchestrator \<Rightarrow> orchestrator" where
  \<comment> \<open>\<open>update_statuses\<close> of the dependency graph does nothing\<close>
  "update_dependencies s = s"

definition tick ::
    "'rs tick_ports \<Rightarrow> 'rs run_store_port option \<Rightarrow> orchestrator \<Rightarrow> 'rs \<Rightarrow>
      orchestrator \<times> 'rs \<times> tick_trace \<times> (orchestrator_error, unit) result" where
  "tick io store s rs =
     (case tk_stream io (or_last_processed s) of
        Inl e \<Rightarrow> (s, rs, \<lparr>tt_events = [], tt_prompts = [], tt_assignments = [], tt_retention = []\<rparr>, Inl e)
      | Inr evs \<Rightarrow>
          (case reconcile_before_dispatch (tk_reconcile io) store (process_stream (tk_now io) evs s) rs of
             (s2, rs2, out2, Inl e) \<Rightarrow>
               (s2, rs2, \<lparr>tt_events = out2, tt_prompts = [], tt_assignments = [], tt_retention = []\<rparr>, Inl e)
           | (s2, rs2, out2, Inr _) \<Rightarrow>
               (case continue_active_runs (tk_continue io) store s2 rs2 of
                  (rs3, sent, out3, Inl e) \<Rightarrow>
                    (s2, rs3, \<lparr>tt_events = out2 @ out3, tt_prompts = sent, tt_assignments = [], tt_retention = []\<rparr>, Inl e)
                | (rs3, sent, out3, Inr _) \<Rightarrow>
                    (case dispatch_ready_tasks (tk_dispatch io rs3) (update_dependencies s2) of
                       (s4, as, Inl e) \<Rightarrow>
                         (s4, rs3, \<lparr>tt_events = out2 @ out3, tt_prompts = sent, tt_assignments = as, tt_retention = []\<rparr>, Inl e)
                     | (s4, as, Inr _) \<Rightarrow>
                         (case sweep_retention (tk_retention io) (apply_bounds (tk_bounds io) s4) of
                            (s6, calls) \<Rightarrow>
                              (s6, rs3, \<lparr>tt_events = out2 @ out3, tt_prompts = sent, tt_assignments = as,
                                 tt_retention = calls\<rparr>, Inr ()))))))"

subsection \<open>The main loop\<close>

definition run_startup_reconciliation ::
    "reconcile_ports \<Rightarrow> 'rs run_store_port option \<Rightarrow> orchestrator \<Rightarrow> 'rs \<Rightarrow>
      orchestrator \<times> 'rs \<times> event list \<times> (orchestrator_error, unit) result" where
  "run_startup_reconciliation io store s rs =
     (case reconcile_before_dispatch io store s rs of (s', rs', out, res) \<Rightarrow> (s', rs', out, map_sum id (\<lambda>_. ()) res))"

text \<open>
  The loop runs once per element of the list, which ends where the shutdown flag is found set. An
  error of a tick is logged and the loop goes on.
\<close>

fun tick_loop ::
    "'rs tick_ports list \<Rightarrow> 'rs run_store_port option \<Rightarrow> orchestrator \<Rightarrow> 'rs \<Rightarrow> orchestrator \<times> 'rs \<times> tick_trace list" where
  "tick_loop [] store s rs = (s, rs, [])"
| "tick_loop (io # ios) store s rs =
     (if \<not> or_running s then (s, rs, [])
      else case tick io store s rs of
             (s1, rs1, trace, _) \<Rightarrow> (case tick_loop ios store s1 rs1 of (s2, rs2, traces) \<Rightarrow> (s2, rs2, trace # traces)))"

definition orch_run ::
    "reconcile_ports \<Rightarrow> time \<Rightarrow> 'rs tick_ports list \<Rightarrow> 'rs run_store_port option \<Rightarrow> orchestrator \<Rightarrow> 'rs \<Rightarrow>
      orchestrator \<times> 'rs \<times> tick_trace list \<times> (orchestrator_error, unit) result" where
  "orch_run start spawned_at ios store s rs =
     (case run_startup_reconciliation start store (s\<lparr>or_running := True\<rparr>) rs of
        (s1, rs1, _, Inl e) \<Rightarrow> (s1, rs1, [], Inl e)
      | (s1, rs1, _, Inr _) \<Rightarrow>
          (case tick_loop ios store (fst (spawn_workers_to_min (rx_spawn start) spawned_at s1)) rs1 of
             (s2, rs2, traces) \<Rightarrow> (s2, rs2, traces, Inr ())))"

subsection \<open>What the passes keep of the orchestrator\<close>

lemma orch_ok_pool: "orch_ok s \<Longrightarrow> pool_ok p \<Longrightarrow> orch_ok (s\<lparr>or_pool := p\<rparr>)"
  by (simp add: orch_ok_def)

lemma orch_ok_dispatch: "orch_ok s \<Longrightarrow> orch_ok (fst (dispatch_ready_tasks io s))"
  using dispatch_loop_safe [of s "get_assignable_tasks (dp_entries io) (or_board s)" io]
    assignable_ids(1) [OF orch_ok_boardD, of s "dp_entries io"]
  by (cases "dispatch_ready_tasks io s") (auto simp: dispatch_ready_tasks_def)

lemma orch_ok_spawn_worker: "orch_ok s \<Longrightarrow> orch_ok (fst (orch_spawn_worker gw now plan s))"
  using pool_ok_record [of "or_pool s" now plan]
  by (auto simp: orch_spawn_worker_def orch_ok_def split: sum.splits prod.splits) (metis fst_conv)

lemma orch_ok_spawn_plans: "orch_ok s \<Longrightarrow> orch_ok (fst (spawn_plans gw now plans s))"
proof (induction plans arbitrary: s)
  case (Cons plan plans)
  from Cons.IH [OF orch_ok_spawn_worker [OF Cons.prems]] show ?case by (simp add: case_prod_beta)
qed simp

lemma orch_ok_task_updates: "orch_ok s \<Longrightarrow> orch_ok (fst (apply_task_updates now plan s rep))"
proof -
  have board: "board_ok (fst (unassign_task now t b))" if "board_ok b" for t b using that by (simp add: board_ok_mutators)
  have "orch_ok s \<Longrightarrow> orch_ok (fst (fold (\<lambda>a (s, rep).
             case unassign_task now (tu_task_id a) (or_board s) of
               (b, Inr _) \<Rightarrow> (s\<lparr>or_board := b\<rparr>, rep\<lparr>rep_task_updates := rep_task_updates rep + 1\<rparr>)
             | (b, Inl _) \<Rightarrow> (s\<lparr>or_board := b\<rparr>, rep)) as (s, rep)))" for as
  proof (induction as arbitrary: s rep)
    case (Cons a as)
    obtain b r where u: "unassign_task now (tu_task_id a) (or_board s) = (b, r)" by force
    have "orch_ok (s\<lparr>or_board := b\<rparr>)" using Cons.prems board [of "or_board s" "tu_task_id a"] u by (simp add: orch_ok_def)
    with Cons.IH u show ?case by (cases r) auto
  qed simp
  then show "orch_ok s \<Longrightarrow> orch_ok (fst (apply_task_updates now plan s rep))"
    unfolding apply_task_updates_def by blast
qed

lemma orch_ok_cleanup: "orch_ok (fst sr) \<Longrightarrow> orch_ok (fst (apply_cleanup gw now a sr))"
proof -
  assume ok: "orch_ok (fst sr)"
  obtain s rep where sr: "sr = (s, rep)" by force
  with ok have s: "orch_ok s" "pool_ok (or_pool s)" by (simp_all add: orch_ok_def)
  show ?thesis
  proof (cases a)
    case (HandleWorkerDeath ses)
    obtain p plan where d: "reconcile_worker_death ses (or_pool s) = (p, plan)" by force
    have p: "orch_ok (s\<lparr>or_pool := p\<rparr>)" using orch_ok_pool [OF s(1)] pool_ok_reconcile [OF s(2), of ses] d by simp
    from orch_ok_spawn_worker [OF p, of gw now] p HandleWorkerDeath sr d show ?thesis
      by (auto simp: apply_cleanup_def Let_def split: option.splits prod.splits) (metis fst_conv)+
  next
    case (ClearAssignment w r)
    obtain p res where c: "clear_assignment w (or_pool s) = (p, res)" by force
    have "orch_ok (s\<lparr>or_pool := p\<rparr>)" using orch_ok_pool [OF s(1)] pool_ok_clear [OF s(2), of w] c by simp
    with ClearAssignment sr c show ?thesis by (cases res) (simp_all add: apply_cleanup_def Let_def)
  qed
qed

lemma orch_ok_cleanups: "orch_ok s \<Longrightarrow> orch_ok (fst (apply_worker_cleanup_actions gw now plan s rep))"
proof -
  have "orch_ok (fst sr) \<Longrightarrow> orch_ok (fst (fold (apply_cleanup gw now) as sr))" for as sr
    by (induction as arbitrary: sr) (simp_all add: orch_ok_cleanup)
  from this [of "(s, rep)"] show "orch_ok s \<Longrightarrow> orch_ok (fst (apply_worker_cleanup_actions gw now plan s rep))"
    by (simp add: apply_worker_cleanup_actions_def)
qed

lemma apply_plan_orchestrator:
  "fst (apply_plan io store plan s rs) =
     fst (apply_worker_cleanup_actions (rx_spawn io) (rx_now io) plan
        (fst (apply_task_updates (rx_now io) plan s empty_report)) (snd (apply_task_updates (rx_now io) plan s empty_report)))"
  by (simp add: apply_plan_def Let_def case_prod_beta split: sum.split prod.split)

lemma orch_ok_reconcile: "orch_ok s \<Longrightarrow> orch_ok (fst (reconcile_before_dispatch io store s rs))"
  by (auto simp: reconcile_before_dispatch_def apply_plan_orchestrator orch_ok_cleanups orch_ok_task_updates split: sum.split)

lemma orch_ok_tick:
  assumes "orch_ok s"
  shows "orch_ok (fst (tick io store s rs))"
proof -
  have rec: "orch_ok s2" if "reconcile_before_dispatch (tk_reconcile io) store (process_stream (tk_now io) evs s) rs = (s2, x)" for evs s2 x
    using orch_ok_reconcile [OF orch_ok_process_stream [OF assms], of "tk_reconcile io" store "tk_now io" evs rs] that by simp
  have disp: "orch_ok s4" if "orch_ok s2" "dispatch_ready_tasks d s2 = (s4, x)" for d s2 s4 x
    using orch_ok_dispatch [OF that(1), of d] that(2) by simp
  have sweep: "orch_ok s6" if "orch_ok s4" "sweep_retention q (apply_bounds h s4) = (s6, x)" for q h s4 s6 x
    using orch_ok_sweep [OF orch_ok_apply_bounds [OF that(1), of h], of q] that(2) by simp
  show ?thesis
    using assms
    by (auto simp: tick_def update_dependencies_def split: sum.split prod.split) (blast intro: rec disp sweep)+
qed

subsection \<open>The contract of the run store\<close>

definition keeps :: "('rs \<Rightarrow> 'rs \<Rightarrow> bool) \<Rightarrow> ('rs, 'a) repair \<Rightarrow> bool" where
  "keeps step m \<longleftrightarrow> (\<forall>rs evs. step rs (fst (fst (m (rs, evs)))))"

text \<open>
  What the orchestrator relies on: every mutator of the store is a step of its contract. Then
  every pass of the orchestrator, however it ends, is a step too.
\<close>

locale run_store =
  fixes port :: "'rs run_store_port" and step :: "'rs \<Rightarrow> 'rs \<Rightarrow> bool"
  assumes step_refl: "step rs rs"
    and step_trans: "step a b \<Longrightarrow> step b c \<Longrightarrow> step a c"
    and step_claim: "step rs (fst (sp_claim_run port creq rs))"
    and step_renew: "step rs (fst (sp_renew_claim port rid gen rs))"
    and step_release: "step rs (fst (sp_release_claim port lreq rs))"
    and step_fail: "step rs (fst (sp_fail_run port freq rs))"
    and step_queue: "step rs (fst (sp_queue_retry port qreq rs))"
    and step_start: "step rs (fst (sp_start_retry_attempt port areq rs))"
    and step_continue: "step rs (fst (sp_record_continuation port nreq rs))"
begin

lemma keeps_finish: "keeps step (finish a)"
  by (simp add: keeps_def finish_def step_refl)

lemma keeps_push: "keeps step (push_event ev)"
  by (simp add: keeps_def push_event_def step_refl)

lemma keeps_required: "keeps step (required port res)"
  by (simp add: keeps_def required_def step_refl)

lemma keeps_error: "keeps step (\<lambda>st. (st, Inl e))"
  by (simp add: keeps_def step_refl)

lemma keeps_call: "(\<And>rs. step rs (fst (f rs))) \<Longrightarrow> keeps step (store_call f)"
  by (simp add: keeps_def store_call_def case_prod_beta)

lemma keeps_and_then: "keeps step m \<Longrightarrow> (\<And>a. keeps step (f a)) \<Longrightarrow> keeps step (and_then m f)"
  unfolding keeps_def
proof (intro allI)
  fix rs evs
  assume m: "\<forall>rs evs. step rs (fst (fst (m (rs, evs))))" and f: "\<And>a. \<forall>rs evs. step rs (fst (fst (f a (rs, evs))))"
  obtain rs1 evs1 res where run: "m (rs, evs) = ((rs1, evs1), res)" by (metis prod.exhaust)
  with m have first: "step rs rs1" by (metis fst_conv)
  show "step rs (fst (fst (and_then m f (rs, evs))))"
    using first step_trans [OF first] f run by (cases res) (simp_all add: and_then_def)
qed

lemmas keeps_intros = keeps_and_then keeps_finish keeps_push keeps_required keeps_error keeps_call

lemma keeps_claim_for_repair: "keeps step (claim_run_for_repair port r owner ses now)"
  unfolding claim_run_for_repair_def by (intro keeps_intros step_claim)

lemma keeps_handle_error: "keeps step (handle_run_store_error port e g mut now)"
  by (cases e) (auto simp: handle_run_store_error_def Let_def step_refl split: option.split intro!: keeps_intros)

lemma keeps_repair_call:
  assumes "\<And>r rs. step rs (fst (call r rs))" and "\<And>r. keeps step (reclaim r)"
  shows "keeps step (repair_call port call done_event reclaim mut now r)"
  unfolding repair_call_def
  by (rule keeps_and_then [OF keeps_call [OF assms(1)]])
    (auto simp: assms keeps_handle_error split: sum.split run_store_error.split intro!: keeps_intros)

lemma keeps_reclaim: "keeps step (keep_owner port now r)" "keeps step (take_over port now r)"
  by (simp_all add: keep_owner_def take_over_def keeps_claim_for_repair)

lemma keeps_when: "(\<And>r. keeps step (f r)) \<Longrightarrow> keeps step (when_reclaim b f r)"
  by (simp add: when_reclaim_def keeps_finish)

lemma keeps_outcome: "keeps step m \<Longrightarrow> keeps step (outcome_of x m)"
  unfolding outcome_of_def by (intro keeps_intros)

lemma keeps_renewal: "keeps step (apply_run_renewal port now a)"
  unfolding apply_run_renewal_def
  by (intro keeps_and_then keeps_when keeps_repair_call keeps_reclaim step_renew)

lemma keeps_release: "keeps step (apply_run_release port now a)"
  unfolding apply_run_release_def Let_def
  by (intro keeps_and_then keeps_when keeps_repair_call keeps_reclaim step_release)

lemma keeps_retry_attempt: "keeps step (apply_run_retry_attempt port now a)"
  unfolding apply_run_retry_attempt_def
  by (rule keeps_and_then [OF keeps_call [OF step_start]]) (auto simp: keeps_handle_error split: sum.split intro!: keeps_intros)

lemma keeps_queue_run_retry: "keeps step (queue_run_retry port a qa ra reason)"
  unfolding queue_run_retry_def Let_def
  by (intro keeps_and_then keeps_when keeps_outcome keeps_repair_call keeps_reclaim step_queue)

lemma keeps_fail_now: "keeps step (fail_run_now port now a)"
  unfolding fail_run_now_def Let_def
  by (intro keeps_and_then keeps_when keeps_outcome keeps_repair_call keeps_reclaim step_fail)

lemma keeps_failure: "keeps step (apply_run_failure port board policy now a)"
  unfolding apply_run_failure_def
  by (auto simp: keeps_queue_run_retry keeps_fail_now split: retry_decision.split intro!: keeps_and_then keeps_push)

lemma keeps_for_each: "(\<And>a. keeps step (f a)) \<Longrightarrow> keeps step (for_each f tally as rep)"
  by (induction as arbitrary: rep) (auto intro!: keeps_and_then keeps_finish)

lemma keeps_run_actions: "keeps step (apply_run_actions port board policy now plan rep)"
  unfolding apply_run_actions_def
  by (intro keeps_and_then keeps_for_each keeps_renewal keeps_release keeps_retry_attempt keeps_failure)

lemma reconcile_is_step: "step rs (fst (snd (reconcile_before_dispatch io (Some port) s rs)))"
  using keeps_run_actions [unfolded keeps_def]
  by (simp add: reconcile_before_dispatch_def apply_plan_def Let_def case_prod_beta step_refl split: sum.split prod.split)

lemma decision_is_step: "step (cs_store st) (cs_store (fst (apply_continuation_decision io port s r st)))"
proof -
  have recorded: "step x y" if "sp_record_continuation port q x = (y, res)" for q x y res
    using step_continue [of x q] that by simp
  show ?thesis
    by (auto simp: apply_continuation_decision_def send_continuation_prompt_def Let_def log_continuation_def count_escalated_def
        step_refl split: continuation_decision.split option.split sum.split prod.split dest: recorded)
qed

lemma continue_each_is_step: "step (cs_store st) (cs_store (fst (continue_each io port s rs st)))"
proof (induction rs arbitrary: st)
  case (Cons r rs)
  obtain st1 res where one: "apply_continuation_decision io port s r st = (st1, res)" by force
  with decision_is_step [of st io s r] step_trans [OF _ Cons.IH [of st1]] show ?case by (cases res) auto
qed (simp add: step_refl)

lemma continue_is_step: "step rs (fst (continue_active_runs io (Some port) s rs))"
proof -
  have "step rs (cs_store st)" if "continue_each io port s xs (start_continuation rs) = (st, res)" for xs st res
    using continue_each_is_step [of "start_continuation rs" io s xs] that by (simp add: start_continuation_def)
  then show ?thesis
    by (auto simp: continue_active_runs_def step_refl split: sum.split prod.split)
qed

lemma tick_is_step: "step rs (fst (snd (tick io (Some port) s rs)))"
proof -
  have rec: "step rs rs2" if "reconcile_before_dispatch q (Some port) s' rs = (s2, rs2, out, res)" for q s' s2 rs2 out res
    using reconcile_is_step [of rs q s'] that by simp
  have cont: "step rs2 rs3" if "continue_active_runs q (Some port) s' rs2 = (rs3, x)" for q s' rs2 rs3 x
    using continue_is_step [of rs2 q s'] that by simp
  show ?thesis
    by (auto simp: tick_def step_refl split: sum.split prod.split) (blast intro: rec cont step_trans)+
qed

end

end
