(* ===== verification/Run_System.thy ===== *)
theory Run_System
  imports Orchestrator_Tick
begin

text \<open>
  The orchestrator together with the durable run store: the store of \<open>Run_Store\<close> as an instance of
  the port, the states the whole system can reach, and a reconciliation pass that cannot
  succeed.
\<close>

subsection \<open>The store behind the port\<close>

text \<open>
  \<open>impl RunStore for FjallEventStore\<close>. Every call reads the wall clock anew: the state of the port
  is the database and the number of readings so far.
\<close>

definition on_clock :: "(nat \<Rightarrow> time) \<Rightarrow> (time \<Rightarrow> 'db \<Rightarrow> ('db, 'a) run_result) \<Rightarrow> 'db \<times> nat \<Rightarrow> ('db \<times> nat, 'a) run_result" where
  "on_clock clock f st = (case f (clock (snd st)) (fst st) of (db', res) \<Rightarrow> ((db', Suc (snd st)), res))"

definition fjall_port :: "'db run_env \<Rightarrow> (nat \<Rightarrow> time) \<Rightarrow> (run_store_error \<Rightarrow> string) \<Rightarrow> ('db \<times> nat) run_store_port" where
  "fjall_port env clock error_text =
     \<lparr>sp_active_runs = (\<lambda>st. active_runs env (fst st)),
      sp_get_run = (\<lambda>i st. get_run env (fst st) i),
      sp_claim_run = (\<lambda>req. on_clock clock (\<lambda>utc. claim_run env utc req)),
      sp_renew_claim = (\<lambda>i g. on_clock clock (\<lambda>utc. run_renew_claim env utc i g)),
      sp_release_claim = (\<lambda>req. on_clock clock (\<lambda>utc. release_claim env utc req)),
      sp_fail_run = (\<lambda>req. on_clock clock (\<lambda>utc. fail_run env utc req)),
      sp_queue_retry = (\<lambda>req. on_clock clock (\<lambda>utc. queue_retry env utc req)),
      sp_start_retry_attempt = (\<lambda>req. on_clock clock (\<lambda>utc. start_retry_attempt env req)),
      sp_record_continuation = (\<lambda>req. on_clock clock (\<lambda>utc. record_continuation env utc req)),
      sp_error_text = error_text\<rparr>"

definition durable_step :: "'db run_env \<Rightarrow> ('db \<Rightarrow> string \<rightharpoonup> string) \<Rightarrow> 'db \<times> nat \<Rightarrow> 'db \<times> nat \<Rightarrow> bool" where
  "durable_step env view st st' \<longleftrightarrow>
     (run_env_ok env view \<longrightarrow> store_inv env (view (fst st)) \<longrightarrow> store_step env (view (fst st)) (view (fst st')))"

lemma durable_step_exec:
  "durable_step env view st (fst (on_clock clock (\<lambda>utc. exec_run_op env (op utc)) st))"
  using exec_run_step [of env view "fst st" "op (clock (snd st))" "fst (exec_run_op env (op (clock (snd st))) (fst st))"
      "snd (exec_run_op env (op (clock (snd st))) (fst st))"]
  by (simp add: durable_step_def on_clock_def case_prod_beta)

lemma exec_run_op_eta:
  "exec_run_op env (DoClaim utc creq) = claim_run env utc creq" "exec_run_op env (DoRenew utc i g) = run_renew_claim env utc i g"
  "exec_run_op env (DoRelease utc lreq) = release_claim env utc lreq" "exec_run_op env (DoFail utc freq) = fail_run env utc freq"
  "exec_run_op env (DoQueueRetry utc qreq) = queue_retry env utc qreq"
  "exec_run_op env (DoContinue utc nreq) = record_continuation env utc nreq"
  by (simp_all add: fun_eq_iff)

lemma durable_step_start:
  "durable_step env view st (fst (on_clock clock (\<lambda>utc. start_retry_attempt env req) st))"
  using exec_run_step [of env view "fst st" "DoStartRetry req" "fst (exec_run_op env (DoStartRetry req) (fst st))"
      "snd (exec_run_op env (DoStartRetry req) (fst st))"]
  by (simp add: durable_step_def on_clock_def case_prod_beta)

interpretation fjall: run_store "fjall_port env clock error_text" "durable_step env view"
  for env :: "'db run_env" and clock error_text view
proof
  fix rs a b c :: "'db \<times> nat"
  show "durable_step env view rs rs" by (simp add: durable_step_def store_step_refl)
  show "durable_step env view a c" if "durable_step env view a b" "durable_step env view b c"
    using that unfolding durable_step_def by (meson store_step_def store_step_trans)
  show "durable_step env view rs (fst (sp_claim_run (fjall_port env clock error_text) req rs))" for req
    using durable_step_exec [of env view rs clock "\<lambda>utc. DoClaim utc req"] by (simp add: fjall_port_def exec_run_op_eta)
  show "durable_step env view rs (fst (sp_renew_claim (fjall_port env clock error_text) i g rs))" for i g
    using durable_step_exec [of env view rs clock "\<lambda>utc. DoRenew utc i g"] by (simp add: fjall_port_def exec_run_op_eta)
  show "durable_step env view rs (fst (sp_release_claim (fjall_port env clock error_text) req rs))" for req
    using durable_step_exec [of env view rs clock "\<lambda>utc. DoRelease utc req"] by (simp add: fjall_port_def exec_run_op_eta)
  show "durable_step env view rs (fst (sp_fail_run (fjall_port env clock error_text) req rs))" for req
    using durable_step_exec [of env view rs clock "\<lambda>utc. DoFail utc req"] by (simp add: fjall_port_def exec_run_op_eta)
  show "durable_step env view rs (fst (sp_queue_retry (fjall_port env clock error_text) req rs))" for req
    using durable_step_exec [of env view rs clock "\<lambda>utc. DoQueueRetry utc req"] by (simp add: fjall_port_def exec_run_op_eta)
  show "durable_step env view rs (fst (sp_start_retry_attempt (fjall_port env clock error_text) req rs))" for req
    using durable_step_start [of env view rs clock req] by (simp add: fjall_port_def exec_run_op_eta)
  show "durable_step env view rs (fst (sp_record_continuation (fjall_port env clock error_text) req rs))" for req
    using durable_step_exec [of env view rs clock "\<lambda>utc. DoContinue utc req"] by (simp add: fjall_port_def exec_run_op_eta)
qed

subsection \<open>Reachable systems\<close>

text \<open>
  Every interleaving of what the running system does: ticks and reconciliation passes of the
  orchestrator against the store, workers spawned, dying or freed, new tasks and dependencies,
  shutdown, and operations of other clients on the run store.
\<close>

inductive system_reachable ::
    "'db run_env \<Rightarrow> ('db \<Rightarrow> string \<rightharpoonup> string) \<Rightarrow> orchestrator_config \<Rightarrow> orchestrator \<Rightarrow> 'db \<Rightarrow> bool" for env view c where
  sys_new: "view db = Map.empty \<Longrightarrow> system_reachable env view c (new_orchestrator c) db"
| sys_start: "system_reachable env view c s db \<Longrightarrow> system_reachable env view c (s\<lparr>or_running := True\<rparr>) db"
| sys_tick: "system_reachable env view c s db \<Longrightarrow>
    tick io (Some (fjall_port env clock msg)) s (db, n) = (s', (db', n'), trace, res) \<Longrightarrow> system_reachable env view c s' db'"
| sys_reconcile: "system_reachable env view c s db \<Longrightarrow>
    reconcile_before_dispatch rio (Some (fjall_port env clock msg)) s (db, n) = (s', (db', n'), out, res') \<Longrightarrow>
    system_reachable env view c s' db'"
| sys_spawn: "system_reachable env view c s db \<Longrightarrow> system_reachable env view c (fst (spawn_workers_to_min gw now s)) db"
| sys_task: "system_reachable env view c s db \<Longrightarrow> system_reachable env view c (orch_add_task h now t title desc deps s) db"
| sys_dependency: "system_reachable env view c s db \<Longrightarrow> system_reachable env view c (fst (orch_add_dependency h t d s)) db"
| sys_death: "system_reachable env view c s db \<Longrightarrow>
    system_reachable env view c (s\<lparr>or_pool := fst (handle_worker_death gw now ses (or_pool s))\<rparr>) db"
| sys_free: "system_reachable env view c s db \<Longrightarrow>
    system_reachable env view c (s\<lparr>or_pool := fst (clear_assignment w (or_pool s))\<rparr>) db"
| sys_kill: "system_reachable env view c s db \<Longrightarrow> system_reachable env view c (fst (orch_shutdown kill wh s)) db"
| sys_runs: "system_reachable env view c s db \<Longrightarrow> exec_run_op env op db = (db', res'') \<Longrightarrow> system_reachable env view c s db'"

lemma system_ok:
  assumes "system_reachable env view c s db" and "run_env_ok env view"
  shows "orch_ok s \<and> store_inv env (view db)"
  using assms(1)
proof (induction rule: system_reachable.induct)
  case (sys_new db)
  then show ?case using store_inv_empty [of env] by (simp add: orch_ok_new)
next
  case (sys_tick s db io clock msg n s' db' n' trace res)
  from fjall.tick_is_step [of env view "(db, n)" io clock msg s] sys_tick assms(2)
    orch_ok_tick [of s io "Some (fjall_port env clock msg)" "(db, n)"] show ?case
    by (simp add: durable_step_def store_step_def)
next
  case (sys_reconcile s db rio clock msg n s' db' n' out res')
  from fjall.reconcile_is_step [of env view "(db, n)" rio clock msg s] sys_reconcile assms(2)
    orch_ok_reconcile [of s rio "Some (fjall_port env clock msg)" "(db, n)"] show ?case
    by (simp add: durable_step_def store_step_def)
next
  case (sys_runs s db op db' res'')
  with exec_run_step [OF assms(2), of db op db' res''] show ?case by (simp add: store_step_def)
next
  case (sys_start s db)
  then show ?case by (simp add: orch_ok_def)
next
  case (sys_death s db gw now ses)
  then show ?case by (simp add: orch_ok_pool pool_ok_death orch_ok_def)
next
  case (sys_free s db w)
  then show ?case by (simp add: orch_ok_pool pool_ok_clear orch_ok_def)
qed (simp_all add: orch_ok_add_task orch_ok_add_dependency orch_ok_shutdown spawn_workers_to_min_def orch_ok_spawn_plans)

text \<open>The main loop of the orchestrator stays within these states.\<close>

lemma tick_loop_reachable:
  assumes "system_reachable env view c s db" "tick_loop ios (Some (fjall_port env clock msg)) s (db, n) = (s', (db', n'), traces)"
  shows "system_reachable env view c s' db'"
  using assms
proof (induction ios arbitrary: s db n traces)
  case (Cons io ios)
  obtain s1 db1 n1 trace res where one: "tick io (Some (fjall_port env clock msg)) s (db, n) = (s1, (db1, n1), trace, res)"
    by (metis prod.exhaust)
  with Cons.prems Cons.IH [OF sys_tick [OF Cons.prems(1) one]] show ?case by (auto split: if_splits prod.splits)
qed simp

lemma run_reachable:
  assumes "system_reachable env view c s db"
    and "orch_run start at ios (Some (fjall_port env clock msg)) s (db, n) = (s', (db', n'), traces, res)"
  shows "system_reachable env view c s' db'"
proof -
  let ?port = "Some (fjall_port env clock msg)"
  obtain s1 db1 n1 out res1 where first: "reconcile_before_dispatch start ?port (s\<lparr>or_running := True\<rparr>) (db, n) = (s1, (db1, n1), out, res1)"
    by (metis prod.exhaust)
  note r1 = sys_reconcile [OF sys_start [OF assms(1)] first]
  show ?thesis
  proof (cases res1)
    case (Inl e)
    with assms(2) first r1 show ?thesis by (simp add: orch_run_def run_startup_reconciliation_def)
  next
    case (Inr rep)
    with assms(2) first tick_loop_reachable [OF sys_spawn [OF r1, of "rx_spawn start" at]] show ?thesis
      by (auto simp: orch_run_def run_startup_reconciliation_def split: prod.splits)
  qed
qed

subsection \<open>A pass that cannot succeed\<close>

definition held_until :: "'db run_env \<Rightarrow> (string \<rightharpoonup> string) \<Rightarrow> run_id \<Rightarrow> time \<Rightarrow> bool" where
  "held_until env m i t \<longleftrightarrow>
     store_inv env m \<and> (\<exists>r. stored env m i = Some r \<and> run_has_active_claim (rr_status r) \<and> rr_lease_expires_at r = Some t)"

lemma claim_for_repair_cases:
  assumes "run_env_ok env view" "store_inv env (view db)"
    and "claim_run_for_repair (fjall_port env clock msg) r owner ses now ((db, n), evs) = (st, res)"
  obtains (refused) e where "res = Inl e"
    | (taken) p c db' evs' where "res = Inr c" "st = ((db', Suc n), evs')" "stored env (view db) (rr_run_id r) = Some p"
        "can_claim (clock n) p" "stored env (view db') (rr_run_id r) = Some c" "store_inv env (view db')" "rr_run_id c = rr_run_id r"
proof -
  let ?req = "\<lparr>cr_run_id = rr_run_id r, cr_owner = owner, cr_session_id = ses, cr_claimed_at = now,
      cr_lease_expires_at = now + repair_lease_seconds * 1000\<rparr>"
  obtain db' cres where claim: "claim_run env (clock n) ?req db = (db', cres)" by force
  from assms(1) claim show ?thesis
  proof (cases rule: claim_run_cases)
    case (refused e)
    with claim assms(3) that(1) show ?thesis
      by (auto simp: claim_run_for_repair_def and_then_def store_call_def required_def fjall_port_def on_clock_def)
  next
    case (taken p b)
    note active = can_claim_active [OF taken(2)]
    note step = update_step [OF assms(2) taken(5,1) claimed_kept [OF active] active]
    have "rr_run_id (claimed ?req p) = rr_run_id r" using store_invD(1) [OF assms(2) taken(1)] by (simp add: claimed_def)
    with step taken claim assms(3) show ?thesis
      by (intro that(2) [of "claimed ?req p" db' _ p])
        (auto simp: claim_run_for_repair_def and_then_def store_call_def required_def fjall_port_def on_clock_def
          push_event_def finish_def store_step_def)
  qed
qed

lemma held_claim_refused:
  assumes "run_env_ok env view" "held_until env (view db) (rr_run_id r) t" "clock n < t"
  shows "\<not> is_ok (snd (claim_run_for_repair (fjall_port env clock msg) r owner ses now ((db, n), evs)))"
proof -
  obtain st res where claim: "claim_run_for_repair (fjall_port env clock msg) r owner ses now ((db, n), evs) = (st, res)" by (metis prod.exhaust)
  have "store_inv env (view db)" using assms(2) by (simp add: held_until_def)
  from assms(1) this claim show ?thesis
  proof (cases rule: claim_for_repair_cases)
    case (refused e)
    with claim show ?thesis by simp
  next
    case (taken p c db' evs')
    then have "\<not> can_claim (clock n) p" using assms(2,3)
      by (auto simp: held_until_def can_claim_def run_has_active_claim_def claim_is_expired_at_def)
    with taken show ?thesis by simp
  qed
qed

lemma renew_outcome:
  assumes "run_env_ok env view" "store_inv env (view db)" "stored env (view db) i = Some r" "rr_claim_generation r = g"
    and "run_renew_claim env utc i g db = (db', res)"
  obtains (renewed_lease) u where "res = Inr u" "held_until env (view db') i (utc + 60000)"
    | (refused) e where "res = Inl e" "db' = db" "\<And>rid x y. e \<noteq> StaleGeneration rid x y"
proof -
  from assms(5) have call: "with_current_claim env utc i g (\<lambda>_. RunClaimed)
       (\<lambda>r. Inr (r\<lparr>rr_lease_expires_at := Some (utc + default_renewal_seconds * 1000), rr_updated_at := utc\<rparr>)) db = (db', res)"
    by (simp add: run_renew_claim_def)
  from assms(1) this show ?thesis
  proof (cases rule: current_claim_cases)
    case (refused e)
    have "load_required env db i = Inr x \<Longrightarrow> x = r" for x using load_stored [OF assms(1), of db i x] assms(3) by simp
    then have "e \<noteq> StaleGeneration rid x y" for rid x y
      using call refused assms(4)
      by (auto simp: with_current_claim_def ensure_generation_def ensure_unexpired_def load_required_def get_run_locked_def
          commit_record_def split: sum.splits option.splits if_splits)
    with refused that(2) show ?thesis by blast
  next
    case (updated r0 u b)
    note active = active_claim_active [OF updated(3) refl]
    have kept: "run_kept r0 u" using updated(5) active by (auto simp: run_kept_def)
    note step = update_step [OF assms(2) updated(7,1) kept active]
    from step updated show ?thesis
      by (intro that(1) [of u]) (auto simp: held_until_def store_step_def default_renewal_seconds_def)
  qed
qed

lemma keep_owner_ok:
  assumes "run_env_ok env view" "store_inv env (view d0)" "is_ok (snd (keep_owner (fjall_port env clock msg) now r ((d0, m), es0)))"
  shows "\<exists>c d es. keep_owner (fjall_port env clock msg) now r ((d0, m), es0) = (((d, Suc m), es), Inr c) \<and>
      stored env (view d) (rr_run_id r) = Some c \<and> store_inv env (view d) \<and> rr_run_id c = rr_run_id r"
proof -
  obtain st res where k: "keep_owner (fjall_port env clock msg) now r ((d0, m), es0) = (st, res)" by (metis prod.exhaust)
  from assms(1,2) k [unfolded keep_owner_def] show ?thesis
    by (cases rule: claim_for_repair_cases) (use k assms(3) in auto)
qed

lemma port_renew:
  "sp_renew_claim (fjall_port env clock msg) i g (d, m) =
     (case run_renew_claim env (clock m) i g d of (d', x) \<Rightarrow> ((d', Suc m), x))"
  by (simp add: fjall_port_def on_clock_def)

text \<open>A renewal that goes through, at the first or the second try, leaves a lease counted from its last
  clock reading.\<close>

lemma renewal_holds:
  assumes "run_env_ok env view" "store_inv env (view db)" "claim_is_expired_at (ra_run a) now"
    and "apply_run_renewal (fjall_port env clock msg) now a ((db, n), evs) = (((db', n'), evs'), Inr b)"
  shows "\<exists>k. n' = Suc k \<and> held_until env (view db') (rr_run_id (ra_run a)) (clock k + 60000)"
proof -
  let ?port = "fjall_port env clock msg" and ?i = "rr_run_id (ra_run a)"
  let ?call = "\<lambda>r. sp_renew_claim ?port (rr_run_id r) (rr_claim_generation r)"
  note renew = port_renew [of env clock msg] and reclaim = keep_owner_ok [OF assms(1)]
  have first: "is_ok (snd (keep_owner ?port now (ra_run a) ((db, n), evs)))"
    using assms(3,4) by (auto simp: apply_run_renewal_def when_reclaim_def and_then_def is_ok_conv split: prod.splits sum.splits)
  then obtain c d es where c: "keep_owner ?port now (ra_run a) ((db, n), evs) = (((d, Suc n), es), Inr c)"
    "stored env (view d) ?i = Some c" "store_inv env (view d)" "rr_run_id c = ?i"
    using reclaim [OF assms(2)] by blast
  have rest: "repair_call ?port ?call (\<lambda>u. run_claim_renewed_event u now) (keep_owner ?port now) ''renew_claim'' now c ((d, Suc n), es) =
      (((db', n'), evs'), Inr b)"
    using assms(3,4) c(1) by (simp add: apply_run_renewal_def when_reclaim_def and_then_def)
  obtain d1 res1 where r1: "run_renew_claim env (clock (Suc n)) (rr_run_id c) (rr_claim_generation c) d = (d1, res1)" by force
  from assms(1) c(3) c(2)[folded c(4)] refl r1 show ?thesis
  proof (cases rule: renew_outcome)
    case (renewed_lease u)
    with rest r1 renew [of "rr_run_id c" "rr_claim_generation c" d "Suc n"] c(4) show ?thesis
      by (auto simp: repair_call_def and_then_def store_call_def push_event_def finish_def)
  next
    case (refused e)
    obtain rid g where e: "e = LeaseExpired rid g"
      using rest r1 renew [of "rr_run_id c" "rr_claim_generation c" d "Suc n"] refused
      by (cases e) (auto simp: repair_call_def and_then_def store_call_def handle_run_store_error_def)
    have again: "and_then (keep_owner ?port now c) (\<lambda>c. and_then (store_call (?call c)) (\<lambda>res2.
        and_then (required ?port res2) (\<lambda>updated. and_then (push_event (run_claim_renewed_event updated now)) (\<lambda>_. finish True))))
        ((d, Suc (Suc n)), es) = (((db', n'), evs'), Inr b)"
      using rest r1 renew [of "rr_run_id c" "rr_claim_generation c" d "Suc n"] refused e
      unfolding repair_call_def and_then_def [of "store_call (?call c)"] by (simp add: store_call_def)
    then have "is_ok (snd (keep_owner ?port now c ((d, Suc (Suc n)), es)))"
      by (auto simp: and_then_def is_ok_conv split: prod.splits sum.splits)
    from reclaim [OF c(3) this] c(4) obtain c2 d2 es2 where
      c2: "keep_owner ?port now c ((d, Suc (Suc n)), es) = (((d2, Suc (Suc (Suc n))), es2), Inr c2)"
        "stored env (view d2) (rr_run_id c2) = Some c2" "store_inv env (view d2)" "rr_run_id c2 = ?i" by auto
    obtain d3 res3 where r3: "run_renew_claim env (clock (Suc (Suc (Suc n)))) (rr_run_id c2) (rr_claim_generation c2) d2 = (d3, res3)" by force
    from assms(1) c2(3,2) refl r3 show ?thesis
      by (cases rule: renew_outcome)
        (use again c2 r3 renew [of "rr_run_id c2" "rr_claim_generation c2" d2 "Suc (Suc (Suc n))"] in
          \<open>auto simp: and_then_def store_call_def required_def push_event_def finish_def\<close>)
  qed
qed

lemma failure_refused:
  assumes "run_env_ok env view" "held_until env (view db) (rr_run_id (ra_run a)) t" "clock n < t" "needs_claim now (ra_run a)"
  shows "\<not> is_ok (snd (apply_run_failure (fjall_port env clock msg) board policy now a ((db, n), evs)))"
proof -
  have "\<not> is_ok (snd (and_then (when_reclaim (needs_claim now (ra_run a)) (take_over (fjall_port env clock msg) now) (ra_run a)) f ((db, n), es)))"
    for es and f :: "run_record \<Rightarrow> ('a \<times> nat, run_failure_outcome option) repair"
    using held_claim_refused [where view = view and db = db and r = "ra_run a" and clock = clock and n = n,
        OF assms(1-3), of msg reconciler_owner None now es] assms(4)
    by (auto simp: when_reclaim_def and_then_def take_over_def is_ok_conv split: prod.splits sum.splits)
  from this show ?thesis
    by (auto simp: apply_run_failure_def queue_run_retry_def fail_run_now_def Let_def and_then_def [of "push_event e" for e] push_event_def
        split: retry_decision.split)
qed

lemma one_action: "one_each as \<Longrightarrow> runs_of as = {r} \<Longrightarrow> \<exists>a. as = [a] \<and> ra_run a = r"
proof -
  assume as: "one_each as" "runs_of as = {r}"
  then obtain a as' where c: "as = a # as'" "ra_run a = r" by (cases as) (auto simp: runs_of_def)
  have "as' = []"
  proof (cases as')
    case (Cons b bs)
    then have "ra_run b = ra_run a" using as(2) c by (simp add: runs_of_def)
    with as(1) c(1) Cons show ?thesis by (simp add: one_each_def)
  qed
  with c show "\<exists>a. as = [a] \<and> ra_run a = r" by simp
qed

text \<open>A run of a finished task whose claim expired while its worker is still recorded for it is planned
  for renewal and for failure. Applied to the store, the renewal takes the claim and the failure
  then finds it held: with less than a minute between two readings of the clock, the
  reconciliation pass always ends with an error, and every event it collected is lost.\<close>

theorem renewal_blocks_failure:
  fixes env :: "'db run_env" and s :: orchestrator
  assumes "run_env_ok env view" "store_inv env (view db)" "active_runs env db = Inr [r]"
    and "inp = from_current_state (rx_workers io) (rx_now io) (or_board s) (or_pool s) (or_graph s) [r]"
    and "renewable default_reconciler_config inp r" "outlives_task inp r"
    and "\<forall>k. clock (Suc k) < clock k + 60000"
    and "reconcile_before_dispatch io (Some (fjall_port env clock msg)) s (db, n) = (s', st, out, res)"
  shows "\<not> is_ok res \<and> out = []"
proof -
  let ?port = "fjall_port env clock msg" and ?now = "rx_now io" and ?p = "reconcile default_reconciler_config inp"
  have inp: "rn_active_runs inp = [r]" "rn_now inp = ?now" using assms(4) by (simp_all add: from_current_state_def)
  have over: "task_is_over inp r" and expired: "claim_is_expired_at r ?now" and status: "rr_status r \<noteq> RunRetryQueued"
    using assms(5,6) inp(2) by (auto simp: renewable_def outlives_task_def run_has_active_claim_def)
  note plan = reconcile_runs [where inp = inp and cfg = default_reconciler_config, unfolded inp, simplified]
  have none: "{ra. ra = r \<and> P ra \<and> \<not> task_is_over inp ra} = {}" "{ra. ra = r \<and> P ra \<and> Q ra \<and> \<not> task_is_over inp ra} = {}" for P Q
    using over by blast+
  have empty: "pl_run_retry_attempts ?p = []" "pl_run_releases ?p = []"
    using plan(2,4) unfolding none by (simp_all add: runs_of_def)
  obtain a1 a2 where acts: "pl_run_renewals ?p = [a1]" "ra_run a1 = r" "pl_run_failures ?p = [a2]" "ra_run a2 = r"
    using one_action [of "pl_run_renewals ?p" r] one_action [of "pl_run_failures ?p" r] plan(1,3,5) assms(5,6)
    by (auto simp: runs_ok_def)
  have fails: "\<not> is_ok (snd (apply_run_actions ?port board policy ?now ?p rep ((db, n), evs)))" for board policy rep evs
  proof (cases "snd (apply_run_renewal ?port ?now a1 ((db, n), evs))")
    case (Inl e)
    then show ?thesis using empty acts by (auto simp: apply_run_actions_def and_then_def finish_def split: prod.splits)
  next
    case (Inr b)
    then obtain db' n' evs' where ren: "apply_run_renewal ?port ?now a1 ((db, n), evs) = (((db', n'), evs'), Inr b)"
      by (metis prod.collapse)
    from renewal_holds [OF assms(1,2) _ ren] expired acts(2) obtain k where
      k: "n' = Suc k" "held_until env (view db') (rr_run_id (ra_run a2)) (clock k + 60000)" using acts(4) by auto
    have "needs_claim ?now (ra_run a2)" using expired acts(4) by (simp add: needs_claim_def)
    from failure_refused [OF assms(1) k(2) _ this, of clock n' msg board policy evs'] assms(7) k(1)
    show ?thesis using empty acts ren
      by (auto simp: apply_run_actions_def and_then_def finish_def split: prod.splits sum.splits)
  qed
  have load: "load_active_runs (Some ?port) (db, n) = Inr [r]" using assms(3) by (simp add: load_active_runs_def fjall_port_def)
  have "apply_run_actions ?port board policy ?now ?p rep ((db, n), []) \<noteq> (x, Inr y)" for board policy rep x y
    using fails [of board policy rep "[]"] by (metis is_ok_simps(2) snd_conv)
  then show ?thesis using assms(8) unfolding reconcile_before_dispatch_def load
    by (auto simp: apply_plan_def Let_def assms(4) [symmetric] split: prod.splits sum.splits)
qed

definition demo_merged :: orchestrator where
  "demo_merged = (new_orchestrator demo_config)
     \<lparr>or_board := new_task_board
        \<lparr>tb_tasks := [(''t'', (new_task_entry 0 ''t'' [] [])\<lparr>te_status := Merged\<rparr>)], tb_order := [''t'']\<rparr>,
      or_pool := (or_pool (new_orchestrator demo_config))
        \<lparr>wp_workers := [(''w'', (new_worker_info 0 ''w'' Worker ''default'' ''s'')\<lparr>wi_assigned_task := Some ''t''\<rparr>)]\<rparr>\<rparr>"

definition demo_pass :: reconcile_ports where
  "demo_pass = \<lparr>rx_now = 100, rx_spawn = (\<lambda>spec. Inl ''busy''), rx_workers = stored_order, rx_append = (\<lambda>e. Inr ())\<rparr>"

theorem renewal_blocks_failure_witness:
  "\<not> is_ok (snd (snd (snd (reconcile_before_dispatch demo_pass (Some (fjall_port demo_run_env (\<lambda>k. 100) (\<lambda>e. ''busy'')))
     demo_merged (one_run_db demo_plain ''1'', 0)))))"
proof -
  let ?inp = "from_current_state (rx_workers demo_pass) (rx_now demo_pass) (or_board demo_merged) (or_pool demo_merged)
    (or_graph demo_merged) [demo_plain]"
  obtain s' st out res where run: "reconcile_before_dispatch demo_pass (Some (fjall_port demo_run_env (\<lambda>k. 100) (\<lambda>e. ''busy'')))
     demo_merged (one_run_db demo_plain ''1'', 0) = (s', st, out, res)" by (metis prod.exhaust)
  have inp: "rn_now ?inp = 100" "rn_tasks ?inp = [(new_task_entry 0 ''t'' [] [])\<lparr>te_status := Merged\<rparr>]"
    "rn_workers ?inp = [\<lparr>ws_worker_id = ''w'', ws_kind = Worker, ws_session_id = ''s'', ws_assigned_task = Some ''t'', ws_is_alive = True\<rparr>]"
    by (simp_all add: from_current_state_def demo_pass_def demo_merged_def all_tasks_def List.map_filter_simps hm_get_def
        from_worker_info_def new_worker_info_def hm_values_def)
  have "renewable default_reconciler_config ?inp demo_plain" "outlives_task ?inp demo_plain"
    unfolding renewable_def outlives_task_def live_session_def session_is_alive_def session_has_active_operation_for_run_def
      task_is_over_def inp
    by (simp_all add: default_reconciler_config_def demo_plain_def new_run_record_def new_task_entry_def is_terminal_def
        claim_is_expired_at_def run_has_active_claim_def run_is_active_def run_is_terminal_def retry_queued_is_actionable_def)
  from renewal_blocks_failure [OF demo_run_env_ok demo_stored(1) demo_listing(1) refl this _ run] run show ?thesis by simp
qed

end
