(* ===== verification/Continuation_Props.thy ===== *)
theory Continuation_Props
  imports Run_System "HOL-Library.Sublist"
begin

text \<open>
  What a continuation pass sends. The per-run decision is the one of \<open>Retry_Policy\<close>; here it is
  read back in terms of the task board, the run record and the gateway.
\<close>

definition may_continue :: "continuation_ports \<Rightarrow> orchestrator \<Rightarrow> run_record \<Rightarrow> session_id \<Rightarrow> bool" where
  "may_continue io s r ses \<longleftrightarrow>
     (let policy = oc_continuation_policy (or_config s) in
      cp_enabled policy \<and> rr_session_id r = Some ses \<and> cx_health io ses = Inr StatusHealthy \<and>
      (\<exists>t. get_task (or_board s) (rr_task_id r) = Some t \<and> te_id t = rr_task_id r \<and>
         te_status t \<in> {Assigned, InProgress} \<and> te_session_id t = Some ses) \<and>
      rr_continuation_turns r < cp_max_turns_per_run policy \<and>
      uint (cp_idle_prompt_after_secs policy) * 1000 \<le> cx_now io - idle_since r)"

lemma idle_long_enough:
  assumes "w \<le> (word_of_int (max 0 (d div 1000)) :: 64 word)" "w \<noteq> 0"
  shows "uint w * 1000 \<le> d"
proof -
  have "uint w \<le> uint (word_of_int (max 0 (d div 1000)) :: 64 word)" using assms(1) by (simp add: word_le_def)
  also have "\<dots> \<le> max 0 (d div 1000)" by (simp add: uint_word_of_int zmod_le_nonneg_dividend)
  finally have "uint w \<le> max 0 (d div 1000)" .
  moreover have "uint w \<noteq> 0" using assms(2) by (simp add: unsigned_eq_0_iff)
  ultimately have "uint w \<le> d div 1000" using unsigned_greater_eq [where 'a = int and w = w] by linarith
  then show ?thesis by linarith
qed

lemma continue_may:
  assumes "decide_continuation (continuation_input_for r (get_task (or_board s) (rr_task_id r)) (session_health_of_run io r) (cx_now io))
      (oc_continuation_policy (or_config s)) = ContinueNow n why"
    and "rr_session_id r = Some ses"
  shows "may_continue io s r ses \<and> n = saturating_add (rr_continuation_turns r) 1"
proof -
  let ?policy = "oc_continuation_policy (or_config s)"
  let ?inp = "continuation_input_for r (get_task (or_board s) (rr_task_id r)) (session_health_of_run io r) (cx_now io)"
  from assms(1) have turn: "decide_turn ?inp ?policy = ContinueNow n why" and on: "cp_enabled ?policy" "cp_idle_prompt_after_secs ?policy \<noteq> 0"
    "ci_task_status ?inp \<in> {Assigned, InProgress}"
    by (auto simp: decide_continuation_def split: if_splits run_status.splits)
  note d = decide_turn_continues [OF turn]
  obtain t where t: "get_task (or_board s) (rr_task_id r) = Some t" "te_id t = rr_task_id r" "te_session_id t = Some ses"
    using d assms(2) by (auto simp: continuation_input_for_def Let_def split: option.splits bind_splits)
  have "cx_health io ses = Inr StatusHealthy"
    using d assms(2) by (auto simp: continuation_input_for_def Let_def session_health_of_run_def split: sum.splits health_status.splits)
  moreover have "uint (cp_idle_prompt_after_secs ?policy) * 1000 \<le> cx_now io - idle_since r"
    by (rule idle_long_enough [OF _ on(2)]) (use d in \<open>simp add: continuation_input_for_def Let_def\<close>)
  ultimately show ?thesis
    using d on t assms(2) by (simp add: may_continue_def Let_def) (simp add: continuation_input_for_def Let_def)
qed

lemma decision_sends:
  assumes "apply_continuation_decision io port s r st = (st', res)"
  shows "cs_sent st' = cs_sent st \<or> (\<exists>ses prompt. cs_sent st' = cs_sent st @ [(r, ses, prompt)] \<and> may_continue io s r ses)"
  using assms
  by (auto simp: apply_continuation_decision_def send_continuation_prompt_def Let_def log_continuation_def count_escalated_def continue_may
      split: continuation_decision.splits option.splits sum.splits prod.splits)

lemma continue_each_sends:
  assumes "continue_each io port s runs st = (st', res)"
  shows "\<exists>more. cs_sent st' = cs_sent st @ more \<and> subseq (map fst more) runs \<and> (\<forall>x \<in> set more. may_continue io s (fst x) (fst (snd x)))"
  using assms
proof (induction runs arbitrary: st)
  case (Cons r runs)
  obtain st1 res1 where one: "apply_continuation_decision io port s r st = (st1, res1)" by force
  show ?case
  proof (cases res1)
    case (Inl e)
    with Cons.prems one have "st' = st1" by simp
    with decision_sends [OF one] show ?thesis by force
  next
    case (Inr u)
    with Cons.prems one have "continue_each io port s runs st1 = (st', res)" by simp
    from Cons.IH [OF this] obtain more where "cs_sent st' = cs_sent st1 @ more" "subseq (map fst more) runs"
      "\<forall>x \<in> set more. may_continue io s (fst x) (fst (snd x))" by blast
    with decision_sends [OF one] show ?thesis
      by (elim disjE exE conjE) (force intro: exI [of _ more], rule exI [of _ "(r, ses, prompt) # more" for ses prompt], force)
  qed
qed simp

text \<open>C25: Every prompt of a continuation pass goes to the session of a run that holds its claim, at most once
  per listed run and in the order of the list, and only while the policy is enabled, the gateway
  reports the session healthy, the task is assigned or in progress on that same session, turns
  remain under the cap and the run has been idle for the configured time.\<close>

theorem continuation_pass_guarded:
  assumes "sp_active_runs port rs = Inr runs"
    and "continue_active_runs io (Some port) s rs = (rs', sent, out, res)"
  shows "subseq (map fst sent) (filter (\<lambda>r. run_has_active_claim (rr_status r)) runs) \<and>
    (\<forall>x \<in> set sent. may_continue io s (fst x) (fst (snd x)))"
proof -
  obtain st r where pass: "continue_each io port s (filter (\<lambda>r. run_has_active_claim (rr_status r)) runs) (start_continuation rs) = (st, r)" by force
  have "sent = cs_sent st" using assms pass
    by (auto simp: continue_active_runs_def split: sum.splits prod.splits)
  with continue_each_sends [OF pass] show ?thesis by (auto simp: start_continuation_def)
qed

definition demo_working :: orchestrator where
  "demo_working = demo_merged\<lparr>or_board := (or_board demo_merged)
     \<lparr>tb_tasks := [(''t'', (new_task_entry 0 ''t'' [] [])\<lparr>te_status := InProgress, te_session_id := Some ''s''\<rparr>)]\<rparr>\<rparr>"

definition demo_prompting :: continuation_ports where
  "demo_prompting = \<lparr>cx_now = 900000, cx_health = (\<lambda>s. Inr StatusHealthy), cx_send = (\<lambda>s p. Inr ()), cx_uuid = (\<lambda>r. ''p''),
     cx_append = (\<lambda>e. Inr ())\<rparr>"

lemma demo_prompted:
  "map fst (fst (snd (continue_active_runs demo_prompting (Some (fjall_port demo_run_env (\<lambda>k. 10) (\<lambda>e. [])))
     demo_working (one_run_db demo_plain ''1'', 0)))) = [demo_plain]"
proof -
  have "decide_continuation (continuation_input_for demo_plain (get_task (or_board demo_working) (rr_task_id demo_plain))
      (session_health_of_run demo_prompting demo_plain) (cx_now demo_prompting)) (oc_continuation_policy (or_config demo_working)) =
      ContinueNow 1 ''active run is eligible for continuation''"
    by (simp add: decide_continuation_def decide_turn_def continuation_input_for_def demo_plain_def new_run_record_def demo_working_def
        demo_merged_def new_orchestrator_def demo_config_def default_continuation_policy_def get_task_def hm_get_def new_task_entry_def
        session_health_of_run_def demo_prompting_def idle_since_def is_terminal_def review_state_for_task_def saturating_add_def)
  moreover have "rr_session_id demo_plain = Some ''s''" by (simp add: demo_plain_def)
  ultimately show ?thesis
    using demo_listing(1) demo_statuses(8)
    by (simp add: continue_active_runs_def fjall_port_def apply_continuation_decision_def send_continuation_prompt_def
        Let_def demo_prompting_def start_continuation_def log_continuation_def split: prod.split sum.split)
qed

theorem continuation_pass_guarded_witness: "may_continue demo_prompting demo_working demo_plain ''s''"
proof -
  let ?port = "fjall_port demo_run_env (\<lambda>k. 10) (\<lambda>e. [])"
  obtain rs' sent out res where run: "continue_active_runs demo_prompting (Some ?port) demo_working (one_run_db demo_plain ''1'', 0) =
      (rs', sent, out, res)" by (metis prod.exhaust)
  have "sp_active_runs ?port (one_run_db demo_plain ''1'', 0) = Inr [demo_plain]" using demo_listing(1) by (simp add: fjall_port_def)
  note guarded = continuation_pass_guarded [OF this run]
  from demo_prompted run obtain x where "sent = [x]" "fst x = demo_plain" by auto
  with guarded have "may_continue demo_prompting demo_working demo_plain (fst (snd x))" by auto
  moreover from this have "fst (snd x) = ''s''" by (auto simp: may_continue_def Let_def demo_plain_def)
  ultimately show ?thesis by simp
qed

end
