(* ===== verification/Event_Log.thy ===== *)
theory Event_Log
  imports Lease_Queue Events
begin

text \<open>
  \<open>crates/brehon-store-fjall/src/store.rs\<close> and \<open>queries.rs\<close> with the keys of \<open>keys.rs\<close>: the event log.
  Events are stored under their sequence number, with index entries by task, review and agent;
  old events move to an archive partition. The database and the JSON codec are the record
  \<open>log_env\<close> with the hypothesis \<open>log_env_ok\<close>; the contents of the view partition, a projection of
  the log kept by \<open>views.rs\<close>, are passed in by the caller. All appending operations hold one lock,
  so each is a step of its own.
\<close>

subsection \<open>Keys and numbers\<close>

definition log_key :: "nat \<Rightarrow> string" where
  "log_key n = ''log:'' @ pad20 n"

definition archive_key :: "nat \<Rightarrow> string" where
  "archive_key n = ''archive:'' @ pad20 n"

definition agent_index_prefix :: "string \<Rightarrow> string" where
  "agent_index_prefix a = ''index:agent:'' @ a @ '':''"

definition agent_index_key :: "string \<Rightarrow> nat \<Rightarrow> string" where
  "agent_index_key a n = ''index:agent:'' @ a @ '':'' @ pad20 n"

definition task_index_prefix :: "string \<Rightarrow> string" where
  "task_index_prefix t = ''index:task:'' @ t @ '':''"

definition task_index_key :: "string \<Rightarrow> nat \<Rightarrow> string" where
  "task_index_key t n = ''index:task:'' @ t @ '':'' @ pad20 n"

definition review_index_prefix :: "string \<Rightarrow> string" where
  "review_index_prefix r = ''index:review:'' @ r @ '':''"

definition review_index_key :: "string \<Rightarrow> nat \<Rightarrow> string" where
  "review_index_key r n = ''index:review:'' @ r @ '':'' @ pad20 n"

definition idempotency_key :: "string \<Rightarrow> string" where
  "idempotency_key k = ''meta:idempotency:'' @ k"

definition queue_materialization_key :: "string \<Rightarrow> string" where
  "queue_materialization_key k = ''meta:queue-materialized:'' @ k"

definition parse_u64 :: "string \<Rightarrow> nat option" where
  \<comment> \<open>\<open>str::parse::<u64>\<close>\<close>
  "parse_u64 s =
     (let ds = (if s \<noteq> [] \<and> hd s = CHR ''+'' then tl s else s)
      in if ds = [] \<or> \<not> list_all is_digit ds then None
         else if parse_digits ds \<le> u64_max then Some (parse_digits ds) else None)"

definition parse_seq_from_log_key :: "string \<Rightarrow> nat option" where
  "parse_seq_from_log_key k = (if starts_with k ''log:'' then parse_u64 (drop 4 k) else None)"

definition parse_seq_from_index_key :: "string \<Rightarrow> nat option" where
  "parse_seq_from_index_key k = parse_u64 (last (split_on (CHR '':'') k))"

definition to_be_bytes :: "nat \<Rightarrow> string" where
  "to_be_bytes n = map (\<lambda>i. char_of (n div 256 ^ (7 - i) mod 256)) [0..<8]"

definition from_be_bytes :: "string \<Rightarrow> nat option" where
  \<comment> \<open>\<open>None\<close> where the conversion to an array of eight bytes fails\<close>
  "from_be_bytes bs = (if length bs = 8 then Some (foldl (\<lambda>n c. n * 256 + of_char c) 0 bs) else None)"

subsection \<open>The database and the codec\<close>

datatype partition = EventsPart | MetaPart | ArchivePart | QueuePart | ViewsPart

type_synonym contents = "partition \<Rightarrow> string \<rightharpoonup> string"

datatype log_op = LogInsert partition string string | LogRemove partition string

fun apply_log_op :: "log_op \<Rightarrow> contents \<Rightarrow> contents" where
  "apply_log_op (LogInsert p k v) m = m(p := (m p)(k \<mapsto> v))"
| "apply_log_op (LogRemove p k) m = m(p := (m p)(k := None))"

definition apply_log_ops :: "log_op list \<Rightarrow> contents \<Rightarrow> contents" where
  "apply_log_ops ops m = fold apply_log_op ops m"

record 'db log_env =
  lg_get :: "'db \<Rightarrow> partition \<Rightarrow> string \<Rightarrow> (string, string option) result"
  lg_prefix :: "'db \<Rightarrow> partition \<Rightarrow> string \<Rightarrow> (string, string \<times> string) result list"
  lg_last :: "'db \<Rightarrow> partition \<Rightarrow> string \<Rightarrow> (string, (string \<times> string) option) result"
  lg_commit :: "log_op list \<Rightarrow> 'db \<Rightarrow> (string, 'db) result"
  lg_encode :: "event_envelope \<Rightarrow> (string, string) result"
  lg_decode :: "string \<Rightarrow> (string, event_envelope) result"

text \<open>
  What the store relies on: reads see the committed contents, a prefix scan yields the entries
  with that prefix in key order (an initial part of them before an error), a scan from the back
  starts at the last of them, a batch is applied as a whole or not at all, and decoding undoes
  encoding.
\<close>

definition scan_ok :: "(string \<rightharpoonup> string) \<Rightarrow> string \<Rightarrow> (string, string \<times> string) result list \<Rightarrow> bool" where
  "scan_ok m pre es \<longleftrightarrow>
     (\<exists>kvs. sorted_wrt (<) (map fst kvs) \<and> (\<forall>k v. (k, v) \<in> set kvs \<longleftrightarrow> m k = Some v \<and> starts_with k pre) \<and>
       (es = map Inr kvs \<or> (\<exists>n e rest. es = map Inr (take n kvs) @ Inl e # rest)))"

definition log_env_ok :: "'db log_env \<Rightarrow> ('db \<Rightarrow> contents) \<Rightarrow> bool" where
  "log_env_ok env view \<longleftrightarrow>
     (\<forall>db p k r. lg_get env db p k = Inr r \<longrightarrow> r = view db p k) \<and>
     (\<forall>db p pre. scan_ok (view db p) pre (lg_prefix env db p pre)) \<and>
     (\<forall>db p pre r. lg_last env db p pre = Inr r \<longrightarrow>
        (case r of
           None \<Rightarrow> \<forall>k. starts_with k pre \<longrightarrow> view db p k = None
         | Some (k, v) \<Rightarrow> view db p k = Some v \<and> starts_with k pre \<and>
             (\<forall>k'. starts_with k' pre \<and> view db p k' \<noteq> None \<longrightarrow> k' \<le> k))) \<and>
     (\<forall>ops db db'. lg_commit env ops db = Inr db' \<longrightarrow> view db' = apply_log_ops ops (view db)) \<and>
     (\<forall>e b. lg_encode env e = Inr b \<longrightarrow> lg_decode env b = Inr e)"

subsection \<open>Appending\<close>

record 'db event_store =
  es_db :: 'db
  es_seq :: nat \<comment> \<open>the in-memory counter\<close>

type_synonym ('db, 'a) store_result = "'db event_store \<times> (store_error, 'a) result"

definition log_get :: "'db log_env \<Rightarrow> 'db \<Rightarrow> partition \<Rightarrow> string \<Rightarrow> (store_error, string option) result" where
  "log_get env db p k = map_sum StoreStorage id (lg_get env db p k)"

definition check_idempotency :: "'db log_env \<Rightarrow> 'db \<Rightarrow> string option \<Rightarrow> (store_error, event_id option) result" where
  "check_idempotency env db key =
     (case key of
        None \<Rightarrow> Inr None
      | Some k \<Rightarrow>
          (case log_get env db MetaPart (idempotency_key k) of
             Inl e \<Rightarrow> Inl e
           | Inr None \<Rightarrow> Inr None
           | Inr (Some bytes) \<Rightarrow>
               (case from_be_bytes bytes of
                  None \<Rightarrow> Inl (StoreStorage ''Invalid idempotency key format'')
                | Some n \<Rightarrow> Inr (Some n))))"

definition queue_materialized :: "'db log_env \<Rightarrow> 'db \<Rightarrow> string \<Rightarrow> (store_error, bool) result" where
  "queue_materialized env db k = map_sum id (\<lambda>v. v \<noteq> None) (log_get env db MetaPart (queue_materialization_key k))"

definition build_event_envelope :: "event \<Rightarrow> event_id \<Rightarrow> string option \<Rightarrow> event_envelope" where
  "build_event_envelope ev n key =
     \<lparr>ee_event = ev, ee_event_id = n, ee_correlation_id = None, ee_causation_id = None, ee_idempotency_key = key\<rparr>"

definition make_index_keys :: "event \<Rightarrow> nat \<Rightarrow> string list" where
  "make_index_keys ev n =
     (case event_task_id (ev_kind ev) of None \<Rightarrow> [] | Some t \<Rightarrow> [task_index_key t n]) @
     (case event_review_id (ev_kind ev) of None \<Rightarrow> [] | Some r \<Rightarrow> [review_index_key r n]) @
     (case event_agent_id (ev_kind ev) of None \<Rightarrow> [] | Some a \<Rightarrow> [agent_index_key a n])"

definition set_index_start_seq_if_needed :: "'db log_env \<Rightarrow> 'db \<Rightarrow> nat \<Rightarrow> (store_error, log_op list) result" where
  "set_index_start_seq_if_needed env db n =
     (case log_get env db MetaPart ''meta:index_start_seq'' of
        Inl e \<Rightarrow> Inl e
      | Inr None \<Rightarrow> Inr [LogInsert MetaPart ''meta:index_start_seq'' (to_be_bytes n)]
      | Inr (Some _) \<Rightarrow> Inr [])"

definition index_ops :: "'db log_env \<Rightarrow> 'db \<Rightarrow> event \<Rightarrow> nat \<Rightarrow> (store_error, log_op list) result" where
  \<comment> \<open>the index entries of an event and, with the first of them, the start of the index\<close>
  "index_ops env db ev n =
     (let keys = make_index_keys ev n; puts = map (\<lambda>k. LogInsert EventsPart k []) keys in
      if keys = [] then Inr []
      else map_sum id (\<lambda>start. puts @ start) (set_index_start_seq_if_needed env db n))"

definition commit_log :: "'db log_env \<Rightarrow> log_op list \<Rightarrow> nat \<Rightarrow> 'a \<Rightarrow> 'db event_store \<Rightarrow> ('db, 'a) store_result" where
  \<comment> \<open>the batch and the counter; a failed commit restores the counter\<close>
  "commit_log env ops seq a st =
     (case lg_commit env ops (es_db st) of
        Inl e \<Rightarrow> (st, Inl (StoreStorage e))
      | Inr db' \<Rightarrow> (\<lparr>es_db = db', es_seq = seq\<rparr>, Inr a))"

definition append_new ::
    "'db log_env \<Rightarrow> event \<Rightarrow> string option \<Rightarrow> (nat \<Rightarrow> log_op list) \<Rightarrow> 'db event_store \<Rightarrow> ('db, event_id) store_result" where
  \<comment> \<open>the closure shared by the two appends of one event\<close>
  "append_new env ev key extra st =
     (let seq = es_seq st + 1 in
      case lg_encode env (build_event_envelope ev seq key) of
        Inl e \<Rightarrow> (st, Inl (StoreSerialization e))
      | Inr bytes \<Rightarrow>
          (case index_ops env (es_db st) ev seq of
             Inl e \<Rightarrow> (st, Inl e)
           | Inr index \<Rightarrow>
               commit_log env
                 (LogInsert EventsPart (log_key seq) bytes # index @ [LogInsert MetaPart ''meta:seq'' (to_be_bytes seq)] @
                  (case key of None \<Rightarrow> [] | Some k \<Rightarrow> [LogInsert MetaPart (idempotency_key k) (to_be_bytes seq)]) @ extra seq)
                 seq seq st))"

definition append_event_inner :: "'db log_env \<Rightarrow> event \<Rightarrow> string option \<Rightarrow> 'db event_store \<Rightarrow> ('db, event_id) store_result" where
  "append_event_inner env ev key st =
     (case check_idempotency env (es_db st) key of
        Inl e \<Rightarrow> (st, Inl e)
      | Inr (Some n) \<Rightarrow> (st\<lparr>es_seq := max (es_seq st) n\<rparr>, Inr n)
      | Inr None \<Rightarrow> append_new env ev key (\<lambda>_. []) st)"

definition enqueue_ops :: "string \<Rightarrow> string \<Rightarrow> string option \<Rightarrow> nat \<Rightarrow> log_op list" where
  "enqueue_ops q item key n =
     LogInsert QueuePart (queue_key q n) item #
     (case key of None \<Rightarrow> [] | Some k \<Rightarrow> [LogInsert MetaPart (queue_materialization_key k) (to_be_bytes n)])"

definition append_and_enqueue ::
    "'db log_env \<Rightarrow> event \<Rightarrow> string \<Rightarrow> string \<Rightarrow> string option \<Rightarrow> 'db event_store \<Rightarrow> ('db, event_id) store_result" where
  "append_and_enqueue env ev q item key st =
     (case check_idempotency env (es_db st) key of
        Inl e \<Rightarrow> (st, Inl e)
      | Inr None \<Rightarrow> append_new env ev key (enqueue_ops q item key) st
      | Inr (Some n) \<Rightarrow>
          (case queue_materialized env (es_db st) (the key) of
             Inl e \<Rightarrow> (st, Inl e)
           | Inr True \<Rightarrow> (st\<lparr>es_seq := max (es_seq st) n\<rparr>, Inr n)
           | Inr False \<Rightarrow>
               (case index_ops env (es_db st) ev n of
                  Inl e \<Rightarrow> (st, Inl e)
                | Inr index \<Rightarrow> commit_log env (enqueue_ops q item key n @ index) (max (es_seq st) n) n st)))"

fun stage_events ::
    "'db log_env \<Rightarrow> event list \<Rightarrow> nat \<Rightarrow> (store_error, log_op list) result" where
  \<comment> \<open>the log and index entries of a list of events, numbered from \<open>n + 1\<close>\<close>
  "stage_events env [] n = Inr []"
| "stage_events env (ev # evs) n =
     (case lg_encode env (build_event_envelope ev (n + 1) None) of
        Inl e \<Rightarrow> Inl (StoreSerialization e)
      | Inr bytes \<Rightarrow>
          map_sum id (\<lambda>ops. LogInsert EventsPart (log_key (n + 1)) bytes #
             map (\<lambda>k. LogInsert EventsPart k []) (make_index_keys ev (n + 1)) @ ops) (stage_events env evs (n + 1)))"

fun first_indexed :: "event list \<Rightarrow> nat \<Rightarrow> nat option" where
  "first_indexed [] n = None"
| "first_indexed (ev # evs) n = (if make_index_keys ev (n + 1) = [] then first_indexed evs (n + 1) else Some (n + 1))"

definition append_atomic ::
    "'db log_env \<Rightarrow> event list \<Rightarrow> bool \<Rightarrow> ('db \<Rightarrow> (store_error, (string \<times> string) list) result) \<Rightarrow> 'db event_store \<Rightarrow>
      ('db, event_id list) store_result" where
  \<comment> \<open>\<open>stage_views\<close> are the entries of the view partition, \<open>has_views\<close> whether there were any updates\<close>
  "append_atomic env evs has_views stage_views st =
     (if evs = [] then (st, Inr [])
      else let final = es_seq st + length evs in
        (case stage_events env evs (es_seq st) of
           Inl e \<Rightarrow> (st, Inl e)
         | Inr ops \<Rightarrow>
             (case (case first_indexed evs (es_seq st) of
                      None \<Rightarrow> Inr [] | Some n \<Rightarrow> set_index_start_seq_if_needed env (es_db st) n) of
                Inl e \<Rightarrow> (st, Inl e)
              | Inr start \<Rightarrow>
                  (case stage_views (es_db st) of
                     Inl e \<Rightarrow> (st, Inl e)
                   | Inr views \<Rightarrow>
                       commit_log env
                         (ops @ start @ [LogInsert MetaPart ''meta:seq'' (to_be_bytes final)] @
                          (if has_views then [LogInsert MetaPart ''meta:views:last_event_id'' (to_be_bytes final)] else []) @
                          map (\<lambda>(k, v). LogInsert ViewsPart k v) views)
                         final [es_seq st + 1..<final + 1] st))))"

subsection \<open>Retention\<close>

fun archive_ops :: "nat \<Rightarrow> (string, string \<times> string) result list \<Rightarrow> (store_error, log_op list \<times> nat) result" where
  \<comment> \<open>the log entries up to the cutoff; the scan stops at the first one beyond it\<close>
  "archive_ops cutoff [] = Inr ([], 0)"
| "archive_ops cutoff (Inl e # items) = Inl (StoreStorage e)"
| "archive_ops cutoff (Inr (k, v) # items) =
     (case parse_seq_from_log_key k of
        None \<Rightarrow> archive_ops cutoff items
      | Some n \<Rightarrow>
          if n \<le> cutoff
          then map_sum id (\<lambda>(ops, m). (LogInsert ArchivePart (archive_key n) v # LogRemove EventsPart k # ops, m + 1))
                 (archive_ops cutoff items)
          else Inr ([], 0))"

fun index_removals :: "nat \<Rightarrow> (string, string \<times> string) result list \<Rightarrow> (store_error, log_op list) result" where
  "index_removals cutoff [] = Inr []"
| "index_removals cutoff (Inl e # items) = Inl (StoreStorage e)"
| "index_removals cutoff (Inr (k, v) # items) =
     map_sum id (\<lambda>ops. case parse_seq_from_index_key k of
         Some n \<Rightarrow> if n \<le> cutoff then LogRemove EventsPart k # ops else ops
       | None \<Rightarrow> ops) (index_removals cutoff items)"

definition archive_events_before :: "'db log_env \<Rightarrow> nat \<Rightarrow> 'db event_store \<Rightarrow> ('db, nat) store_result" where
  "archive_events_before env cutoff st =
     (case archive_ops cutoff (lg_prefix env (es_db st) EventsPart ''log:'') of
        Inl e \<Rightarrow> (st, Inl e)
      | Inr (ops, archived) \<Rightarrow>
          (case index_removals cutoff (lg_prefix env (es_db st) EventsPart ''index:'') of
             Inl e \<Rightarrow> (st, Inl e)
           | Inr removals \<Rightarrow>
               commit_log env (ops @ removals @ [LogInsert MetaPart ''meta:index_start_seq'' (to_be_bytes (cutoff + 1))])
                 (es_seq st) archived st))"

definition retain_events :: "'db log_env \<Rightarrow> event_id \<Rightarrow> 'db event_store \<Rightarrow> ('db, nat) store_result" where
  "retain_events env before st = archive_events_before env (before - 1) st"

fun collect_keys :: "(string \<Rightarrow> (store_error, bool) result) \<Rightarrow> (string, string \<times> string) result list \<Rightarrow> (store_error, string list) result" where
  \<comment> \<open>the keys whose value is marked for removal\<close>
  "collect_keys mark [] = Inr []"
| "collect_keys mark (Inl e # items) = Inl (StoreStorage e)"
| "collect_keys mark (Inr (k, v) # items) =
     (case mark v of
        Inl e \<Rightarrow> Inl e
      | Inr b \<Rightarrow> map_sum id (\<lambda>ks. if b then k # ks else ks) (collect_keys mark items))"

definition remove_meta_keys :: "'db log_env \<Rightarrow> string list \<Rightarrow> 'db event_store \<Rightarrow> ('db, nat) store_result" where
  "remove_meta_keys env ks st =
     (if ks = [] then (st, Inr 0) else commit_log env (map (LogRemove MetaPart) ks) (es_seq st) (length ks) st)"

definition prune_idempotency_keys :: "'db log_env \<Rightarrow> nat \<Rightarrow> 'db event_store \<Rightarrow> ('db, nat) store_result" where
  "prune_idempotency_keys env cutoff st =
     (case collect_keys (\<lambda>v. if length v < 8 then Inr False
             else (case from_be_bytes (take 8 v) of
                     None \<Rightarrow> Inl (StoreStorage ''Invalid idempotency value'') | Some n \<Rightarrow> Inr (n \<le> cutoff)))
             (lg_prefix env (es_db st) MetaPart ''meta:idempotency:'') of
        Inl e \<Rightarrow> (st, Inl e)
      | Inr ks \<Rightarrow> remove_meta_keys env ks st)"

definition event_timestamp :: "'db log_env \<Rightarrow> 'db \<Rightarrow> nat \<Rightarrow> time option" where
  "event_timestamp env db n =
     (let stamp = (\<lambda>bytes. case lg_decode env bytes of Inl _ \<Rightarrow> None | Inr e \<Rightarrow> Some (ev_timestamp (ee_event e))) in
      case lg_get env db EventsPart (log_key n) of
        Inr (Some bytes) \<Rightarrow> stamp bytes
      | _ \<Rightarrow>
          (case lg_get env db ArchivePart (archive_key n) of
             Inr (Some bytes) \<Rightarrow> stamp bytes
           | _ \<Rightarrow> None))"

definition expire_idempotency_keys :: "'db log_env \<Rightarrow> time \<Rightarrow> 'db event_store \<Rightarrow> ('db, nat) store_result" where
  "expire_idempotency_keys env cutoff st =
     (case collect_keys (\<lambda>v. if length v < 8 then Inr False
             else (case from_be_bytes (take 8 v) of
                     None \<Rightarrow> Inl (StoreStorage ''Invalid idempotency value'')
                   | Some n \<Rightarrow> Inr (case event_timestamp env (es_db st) n of Some ts \<Rightarrow> ts < cutoff | None \<Rightarrow> True)))
             (lg_prefix env (es_db st) MetaPart ''meta:idempotency:'') of
        Inl e \<Rightarrow> (st, Inl e)
      | Inr ks \<Rightarrow> remove_meta_keys env ks st)"

subsection \<open>Reading\<close>

fun ok_prefix :: "('e, 'a) result list \<Rightarrow> ('e, 'a list) result" where
  \<comment> \<open>all items, or the first error\<close>
  "ok_prefix [] = Inr []"
| "ok_prefix (Inl e # items) = Inl e"
| "ok_prefix (Inr a # items) = map_sum id ((#) a) (ok_prefix items)"

definition event_count :: "'db log_env \<Rightarrow> 'db event_store \<Rightarrow> (store_error, nat) result" where
  "event_count env st = map_sum StoreStorage length (ok_prefix (lg_prefix env (es_db st) EventsPart ''log:''))"

definition load_high_water_mark :: "'db log_env \<Rightarrow> 'db \<Rightarrow> (store_error, nat) result" where
  "load_high_water_mark env db =
     (case lg_last env db EventsPart ''log:'' of
        Inl e \<Rightarrow> Inl (StoreStorage e)
      | Inr None \<Rightarrow> Inr 0
      | Inr (Some (k, v)) \<Rightarrow> Inr (case parse_seq_from_log_key k of None \<Rightarrow> 0 | Some n \<Rightarrow> n))"

definition load_seq :: "'db log_env \<Rightarrow> 'db \<Rightarrow> (store_error, nat) result" where
  "load_seq env db =
     (case log_get env db MetaPart ''meta:seq'' of
        Inl e \<Rightarrow> Inl e
      | Inr stored_seq \<Rightarrow>
          (case (case stored_seq of
                   None \<Rightarrow> Inr 0
                 | Some bytes \<Rightarrow> (case from_be_bytes bytes of
                     None \<Rightarrow> Inl (StoreStorage ''Invalid sequence number format'') | Some n \<Rightarrow> Inr n)) of
             Inl e \<Rightarrow> Inl e
           | Inr persisted \<Rightarrow> map_sum id (max persisted) (load_high_water_mark env db)))"

definition high_water_mark :: "'db event_store \<Rightarrow> event_id" where
  "high_water_mark st = es_seq st"

definition read_entry :: "'db log_env \<Rightarrow> 'db \<Rightarrow> nat \<Rightarrow> (store_error, event_envelope option) result" where
  "read_entry env db n =
     (case (case log_get env db EventsPart (log_key n) of
              Inl e \<Rightarrow> Inl e
            | Inr (Some bytes) \<Rightarrow> Inr (Some bytes)
            | Inr None \<Rightarrow> log_get env db ArchivePart (archive_key n)) of
        Inl e \<Rightarrow> Inl e
      | Inr None \<Rightarrow> Inr None
      | Inr (Some bytes) \<Rightarrow> map_sum StoreStorage Some (lg_decode env bytes))"

fun read_entries :: "'db log_env \<Rightarrow> 'db \<Rightarrow> nat list \<Rightarrow> (store_error, (event \<times> event_id) list) result" where
  "read_entries env db [] = Inr []"
| "read_entries env db (n # ns) =
     (case read_entry env db n of
        Inl e \<Rightarrow> Inl e
      | Inr found \<Rightarrow>
          map_sum id (\<lambda>evs. case found of None \<Rightarrow> evs | Some e \<Rightarrow> (ee_event e, ee_event_id e) # evs) (read_entries env db ns))"

definition stream ::
    "'db log_env \<Rightarrow> event_id option \<Rightarrow> nat \<Rightarrow> 'db event_store \<Rightarrow> (store_error, (event \<times> event_id) list) result option" where
  \<comment> \<open>the sums are checked 64-bit additions: \<open>None\<close> is the panic of an overflow\<close>
  "stream env since limit st =
     (let start = (case since of None \<Rightarrow> 1 | Some n \<Rightarrow> n + 1) in
      if u64_max < start then None
      else if es_seq st < start then Some (Inr [])
      else if u64_max < start + limit \<or> u64_max < es_seq st + 1 then None
      else Some (read_entries env (es_db st) [start..<min (start + limit) (es_seq st + 1)]))"

subsection \<open>Queries\<close>

record event_filter =
  ef_aggregate_id :: "string option"
  ef_kinds :: "event_kind list option"
  ef_agent_id :: "string option"
  ef_task_id :: "string option"
  ef_review_id :: "string option"
  ef_session_id :: "string option"
  ef_since :: "time option"
  ef_until :: "time option"
  ef_limit :: "nat option"

definition timestamp_secs :: "time \<Rightarrow> int" where
  "timestamp_secs t = t div 1000"

definition cap :: "nat option \<Rightarrow> 'a list \<Rightarrow> 'a list" where
  "cap limit xs = (case limit of None \<Rightarrow> xs | Some n \<Rightarrow> take n xs)"

definition coarse_match :: "event_filter \<Rightarrow> (event \<Rightarrow> bool) \<Rightarrow> event \<Rightarrow> bool" where
  \<comment> \<open>the tests inside a scan: times are compared by whole seconds\<close>
  "coarse_match f condition ev \<longleftrightarrow>
     (case ef_since f of None \<Rightarrow> True | Some t \<Rightarrow> timestamp_secs t \<le> timestamp_secs (ev_timestamp ev)) \<and>
     (case ef_until f of None \<Rightarrow> True | Some t \<Rightarrow> timestamp_secs (ev_timestamp ev) \<le> timestamp_secs t) \<and>
     condition ev \<and>
     (case ef_kinds f of None \<Rightarrow> True | Some ks \<Rightarrow> ev_kind ev \<in> set ks)"

definition apply_filters :: "event_filter \<Rightarrow> event list \<Rightarrow> event list" where
  "apply_filters f evs =
     filter (\<lambda>ev. (case ef_kinds f of None \<Rightarrow> True | Some ks \<Rightarrow> ev_kind ev \<in> set ks) \<and>
        (case ef_since f of None \<Rightarrow> True | Some t \<Rightarrow> t \<le> ev_timestamp ev) \<and>
        (case ef_until f of None \<Rightarrow> True | Some t \<Rightarrow> ev_timestamp ev \<le> t)) evs"

definition decode_event :: "'db log_env \<Rightarrow> string \<Rightarrow> (store_error, event) result" where
  "decode_event env v = map_sum StoreSerialization ee_event (lg_decode env v)"

fun scan_log ::
    "'db log_env \<Rightarrow> (string \<Rightarrow> bool option) \<Rightarrow> (event \<Rightarrow> bool) \<Rightarrow> nat option \<Rightarrow> (string, string \<times> string) result list \<Rightarrow>
      (store_error, event list) result" where
  \<comment> \<open>the loop of the scans over the log: \<open>visit\<close> tells whether an entry is looked at, skipped (\<open>Some
    False\<close>) or ends the loop (\<open>None\<close>); the limit counts the events kept\<close>
  "scan_log env visit keep limit [] = Inr []"
| "scan_log env visit keep limit (item # items) =
     (if limit = Some 0 then Inr []
      else (case item of
          Inl e \<Rightarrow> Inl (StoreStorage e)
        | Inr (k, v) \<Rightarrow>
            (case visit k of
               None \<Rightarrow> Inr []
             | Some False \<Rightarrow> scan_log env visit keep limit items
             | Some True \<Rightarrow>
                 (case decode_event env v of
                    Inl e \<Rightarrow> Inl e
                  | Inr ev \<Rightarrow>
                      if keep ev
                      then map_sum id ((#) ev) (scan_log env visit keep (map_option (\<lambda>n. n - 1) limit) items)
                      else scan_log env visit keep limit items))))"

definition scan_all_events :: "'db log_env \<Rightarrow> event_filter \<Rightarrow> 'db \<Rightarrow> (store_error, event list) result" where
  \<comment> \<open>the limit counts all entries of the log\<close>
  "scan_all_events env f db = scan_log env (\<lambda>k. Some True) (\<lambda>ev. True) (ef_limit f) (lg_prefix env db EventsPart ''log:'')"

definition scan_all_events_with_condition ::
    "'db log_env \<Rightarrow> event_filter \<Rightarrow> (event \<Rightarrow> bool) \<Rightarrow> 'db \<Rightarrow> (store_error, event list) result" where
  "scan_all_events_with_condition env f condition db =
     scan_log env (\<lambda>k. Some True) (coarse_match f condition) (ef_limit f) (lg_prefix env db EventsPart ''log:'')"

definition scan_all_events_before_seq ::
    "'db log_env \<Rightarrow> event_filter \<Rightarrow> nat \<Rightarrow> (event \<Rightarrow> bool) \<Rightarrow> 'db \<Rightarrow> (store_error, event list) result" where
  "scan_all_events_before_seq env f max_seq condition db =
     scan_log env (\<lambda>k. case parse_seq_from_log_key k of None \<Rightarrow> Some False | Some n \<Rightarrow> if max_seq \<le> n then None else Some True)
       (coarse_match f condition) (ef_limit f) (lg_prefix env db EventsPart ''log:'')"

fun scan_index ::
    "'db log_env \<Rightarrow> (event \<Rightarrow> bool) \<Rightarrow> nat \<Rightarrow> nat option \<Rightarrow> 'db \<Rightarrow> (string, string \<times> string) result list \<Rightarrow>
      (store_error, event list) result" where
  "scan_index env keep min_seq limit db [] = Inr []"
| "scan_index env keep min_seq limit db (item # items) =
     (if limit = Some 0 then Inr []
      else (case item of
          Inl e \<Rightarrow> Inl (StoreStorage e)
        | Inr (k, v) \<Rightarrow>
            (case parse_seq_from_index_key k of
               None \<Rightarrow> scan_index env keep min_seq limit db items
             | Some n \<Rightarrow>
                 if n < min_seq then scan_index env keep min_seq limit db items
                 else (case log_get env db EventsPart (log_key n) of
                         Inl e \<Rightarrow> Inl e
                       | Inr None \<Rightarrow> scan_index env keep min_seq limit db items
                       | Inr (Some bytes) \<Rightarrow>
                           (case decode_event env bytes of
                              Inl e \<Rightarrow> Inl e
                            | Inr ev \<Rightarrow>
                                if keep ev
                                then map_sum id ((#) ev) (scan_index env keep min_seq (map_option (\<lambda>n. n - 1) limit) db items)
                                else scan_index env keep min_seq limit db items)))))"

definition query_by_index_prefix ::
    "'db log_env \<Rightarrow> string \<Rightarrow> event_filter \<Rightarrow> nat \<Rightarrow> (event \<Rightarrow> bool) \<Rightarrow> 'db \<Rightarrow> (store_error, event list) result" where
  "query_by_index_prefix env pre f min_seq condition db =
     scan_index env (coarse_match f condition) min_seq (ef_limit f) db (lg_prefix env db EventsPart pre)"

definition index_start_seq :: "'db log_env \<Rightarrow> 'db \<Rightarrow> (store_error, nat) result" where
  "index_start_seq env db =
     (case log_get env db MetaPart ''meta:index_start_seq'' of
        Inl e \<Rightarrow> Inl e
      | Inr None \<Rightarrow> Inr 0
      | Inr (Some bytes) \<Rightarrow>
          (case from_be_bytes bytes of
             None \<Rightarrow> Inl (StoreStorage ''Invalid index watermark format'') | Some n \<Rightarrow> Inr n))"

definition has_index_data_for_prefix :: "'db log_env \<Rightarrow> string \<Rightarrow> 'db \<Rightarrow> (store_error, bool) result" where
  "has_index_data_for_prefix env pre db =
     (case lg_prefix env db EventsPart pre of
        [] \<Rightarrow> Inr False
      | Inl e # _ \<Rightarrow> Inl (StoreStorage e)
      | Inr _ # _ \<Rightarrow> Inr True)"

text \<open>The common body of the queries by task, review and agent.\<close>

definition query_indexed ::
    "'db log_env \<Rightarrow> string \<Rightarrow> (event \<Rightarrow> bool) \<Rightarrow> event_filter \<Rightarrow> 'db \<Rightarrow> (store_error, event list) result" where
  "query_indexed env pre condition f db =
     (let f' = f\<lparr>ef_limit := None\<rparr> in
      case index_start_seq env db of
        Inl e \<Rightarrow> Inl e
      | Inr start \<Rightarrow>
          if start = 0 then scan_all_events_with_condition env f' condition db
          else (case scan_all_events_before_seq env f' start condition db of
                  Inl e \<Rightarrow> Inl e
                | Inr old \<Rightarrow>
                    (case has_index_data_for_prefix env pre db of
                       Inl e \<Rightarrow> Inl e
                     | Inr False \<Rightarrow> Inr (cap (ef_limit f) old)
                     | Inr True \<Rightarrow>
                         map_sum id (\<lambda>indexed. cap (ef_limit f) (old @ indexed)) (query_by_index_prefix env pre f' start condition db))))"

fun task_condition :: "string \<Rightarrow> event_kind \<Rightarrow> bool" where
  "task_condition t (TaskCreated x) \<longleftrightarrow> x = t"
| "task_condition t (TaskAssigned x _) \<longleftrightarrow> x = t"
| "task_condition t (TaskCompleted x) \<longleftrightarrow> x = t"
| "task_condition t (RunCreatedEvent _ x _ _) \<longleftrightarrow> x = t"
| "task_condition t (RunClaimedEvent _ x _ _ _ _ _) \<longleftrightarrow> x = t"
| "task_condition t (RunClaimRenewedEvent _ x _ _ _ _) \<longleftrightarrow> x = t"
| "task_condition t (RunStartedEvent _ x _ _ _) \<longleftrightarrow> x = t"
| "task_condition t (RunActivityObserved _ x _ _ _ _) \<longleftrightarrow> x = t"
| "task_condition t (RunReleasedEvent _ x _ _ _ _) \<longleftrightarrow> x = t"
| "task_condition t (RunRetryQueuedEvent _ x _ _ _ _ _) \<longleftrightarrow> x = t"
| "task_condition t (RunCompletedEvent _ x _ _ _) \<longleftrightarrow> x = t"
| "task_condition t (RunFailedEvent _ x _ _ _ _) \<longleftrightarrow> x = t"
| "task_condition t (RunAbandonedEvent _ x _ _ _ _) \<longleftrightarrow> x = t"
| "task_condition t (StaleRunMutationRejected _ x _ _ _ _) \<longleftrightarrow> x = t"
| "task_condition t (ReviewRequested x _) \<longleftrightarrow> x = t"
| "task_condition t (MergePrepared x _) \<longleftrightarrow> x = t"
| "task_condition t (MergeCommitted x) \<longleftrightarrow> x = t"
| "task_condition t (MergeAborted x _) \<longleftrightarrow> x = t"
| "task_condition t _ \<longleftrightarrow> False"

fun review_condition :: "string \<Rightarrow> event_kind \<Rightarrow> bool" where
  "review_condition r (ReviewRequested _ x) \<longleftrightarrow> x = r"
| "review_condition r (ReviewScoreReceived x _ _) \<longleftrightarrow> x = r"
| "review_condition r (ReviewApproved x) \<longleftrightarrow> x = r"
| "review_condition r (ReviewRejected x) \<longleftrightarrow> x = r"
| "review_condition r (ReviewChangesRequested x) \<longleftrightarrow> x = r"
| "review_condition r _ \<longleftrightarrow> False"

fun agent_condition :: "string \<Rightarrow> event_kind \<Rightarrow> bool" where
  "agent_condition a (AgentSpawned x _ _) \<longleftrightarrow> x = a"
| "agent_condition a (AgentDied x _ _) \<longleftrightarrow> x = a"
| "agent_condition a (TaskAssigned _ x) \<longleftrightarrow> x = a"
| "agent_condition a _ \<longleftrightarrow> False"

definition query_by_aggregate :: "'db log_env \<Rightarrow> string \<Rightarrow> event_filter \<Rightarrow> 'db \<Rightarrow> (store_error, event list) result" where
  "query_by_aggregate env a f db = scan_all_events_with_condition env f (\<lambda>ev. ev_aggregate_id ev = a) db"

definition query_by_task :: "'db log_env \<Rightarrow> string \<Rightarrow> event_filter \<Rightarrow> 'db \<Rightarrow> (store_error, event list) result" where
  "query_by_task env t = query_indexed env (task_index_prefix t) (\<lambda>ev. task_condition t (ev_kind ev))"

definition query_by_review :: "'db log_env \<Rightarrow> string \<Rightarrow> event_filter \<Rightarrow> 'db \<Rightarrow> (store_error, event list) result" where
  "query_by_review env r = query_indexed env (review_index_prefix r) (\<lambda>ev. review_condition r (ev_kind ev))"

definition query_by_agent :: "'db log_env \<Rightarrow> string \<Rightarrow> event_filter \<Rightarrow> 'db \<Rightarrow> (store_error, event list) result" where
  "query_by_agent env a = query_indexed env (agent_index_prefix a) (\<lambda>ev. agent_condition a (ev_kind ev))"

definition query :: "'db log_env \<Rightarrow> event_filter \<Rightarrow> 'db event_store \<Rightarrow> (store_error, event list) result" where
  "query env f st =
     map_sum id (\<lambda>evs. cap (ef_limit f) (apply_filters f evs))
       (case ef_aggregate_id f of
          Some a \<Rightarrow> query_by_aggregate env a f (es_db st)
        | None \<Rightarrow>
            (case ef_task_id f of
               Some t \<Rightarrow> query_by_task env t f (es_db st)
             | None \<Rightarrow>
                 (case ef_review_id f of
                    Some r \<Rightarrow> query_by_review env r f (es_db st)
                  | None \<Rightarrow>
                      (case ef_agent_id f of
                         Some a \<Rightarrow> query_by_agent env a f (es_db st)
                       | None \<Rightarrow> scan_all_events env f (es_db st)))))"

end
