(* ===== verification/Event_Log_Props.thy ===== *)
theory Event_Log_Props
  imports Event_Log Lease_Queue_Props
begin

text \<open>
  The event log refines a list of events: appending adds to its end under the next number,
  retention and expiry leave it unchanged, streaming reads consecutive parts of it, also after
  a restart; and queries through the index agree with a scan of the log.
\<close>

subsection \<open>Numbers and keys\<close>

lemma be_digits:
  fixes n :: nat
  shows "foldl (\<lambda>a c. a * 256 + of_char c) 0 (map (\<lambda>i. char_of (n div 256 ^ (k - i) mod 256)) [0..<Suc k]) = n mod 256 ^ Suc k"
proof (induction k arbitrary: n)
  case (Suc k)
  let ?f = "\<lambda>i. char_of (n div 256 ^ (Suc k - i) mod 256) :: char"
  have shifted: "map ?f [0..<Suc k] = map (\<lambda>i. char_of (n div 256 div 256 ^ (k - i) mod 256)) [0..<Suc k]"
    by (rule map_cong [OF refl]) (auto simp del: upt_Suc simp add: Suc_diff_le div_mult2_eq)
  have split: "map ?f [0..<Suc (Suc k)] = map ?f [0..<Suc k] @ [char_of (n mod 256)]"
    by (simp only: upt_Suc_append [of 0 "Suc k"] zero_le map_append) simp
  have "n mod 256 ^ Suc (Suc k) = 256 * (n div 256 mod 256 ^ Suc k) + n mod 256"
    by (simp only: power_Suc [of _ "Suc k"] mod_mult2_eq)
  then show ?case unfolding split foldl_append shifted Suc.IH by simp
qed simp

lemma from_to_be_bytes: "from_be_bytes (to_be_bytes n) = Some (n mod 2 ^ 64)"
  using be_digits [of n 7] by (simp add: from_be_bytes_def to_be_bytes_def del: upt_Suc)

lemma length_to_be_bytes [simp]: "length (to_be_bytes n) = 8"
  by (simp add: to_be_bytes_def)

lemma from_to_be_bytes_exact: "n \<le> u64_max \<Longrightarrow> from_be_bytes (to_be_bytes n) = Some n"
  by (simp add: from_to_be_bytes u64_max_def)

lemma parse_pad20: "parse_digits (pad20 n) = n"
proof -
  have "parse_digits (replicate k (CHR ''0'') @ s) = parse_digits s" for k s
    by (induction k) (simp_all add: parse_digits_Cons digit_val_def)
  then show ?thesis by (simp add: pad20_def)
qed

lemma pad20_inject [simp]: "pad20 a = pad20 b \<longleftrightarrow> a = b"
  by (metis parse_pad20)

lemma pad20_digits: "list_all is_digit (pad20 n)"
  using show_nat_digits [of n] by (auto simp: pad20_def list_all_iff is_digit_def)

lemma pad20_nonempty [simp]: "pad20 n \<noteq> []"
  by (simp add: pad20_def)

lemma pad20_no_colon [simp]: "CHR '':'' \<notin> set (pad20 n)"
  using pad20_digits [of n] digit_not by (auto simp: list_all_iff)

lemma parse_u64_pad20: "n \<le> u64_max \<Longrightarrow> parse_u64 (pad20 n) = Some n"
proof -
  have "hd (pad20 n) \<noteq> CHR ''+''" using pad20_digits [of n] digit_not by (cases "pad20 n") auto
  then show "n \<le> u64_max \<Longrightarrow> parse_u64 (pad20 n) = Some n" by (simp add: parse_u64_def pad20_digits parse_pad20)
qed

lemma log_key_inject [simp]: "log_key a = log_key b \<longleftrightarrow> a = b"
  by (simp add: log_key_def)

lemma archive_key_inject [simp]: "archive_key a = archive_key b \<longleftrightarrow> a = b"
  by (simp add: archive_key_def)

lemma log_key_prefix [simp]: "starts_with (log_key n) ''log:''"
  by (simp add: log_key_def starts_with_def)

lemma parse_log_key: "n \<le> u64_max \<Longrightarrow> parse_seq_from_log_key (log_key n) = Some n"
  by (simp add: parse_seq_from_log_key_def) (simp add: log_key_def parse_u64_pad20)

lemma log_key_less: "a \<le> u64_max \<Longrightarrow> b \<le> u64_max \<Longrightarrow> log_key a < log_key b \<longleftrightarrow> a < b"
  using digits_order [of "pad20 a" "pad20 b"] pad20_facts [of a] pad20_facts [of b]
  unfolding log_key_def append_less_append by simp

lemmas index_key_defs = task_index_key_def review_index_key_def agent_index_key_def

lemma split_last: "c \<notin> set w \<Longrightarrow> last (split_on c (s @ c # w)) = w"
proof -
  assume w: "c \<notin> set w"
  have "\<exists>u x. split_on c (s @ c # w) = u # x \<and> x \<noteq> [] \<and> last x = w"
    by (induction s) (auto simp: split_on_no_sep [OF w])
  then show "last (split_on c (s @ c # w)) = w" by auto
qed

lemma index_key_form: "k \<in> set (make_index_keys ev n) \<Longrightarrow> \<exists>s. k = s @ CHR '':'' # pad20 n"
proof -
  have form: "\<exists>s. p @ x @ '':'' @ pad20 n = s @ CHR '':'' # pad20 n" for p x :: string by (rule exI [of _ "p @ x"]) simp
  assume "k \<in> set (make_index_keys ev n)"
  then consider x where "k = ''index:task:'' @ x @ '':'' @ pad20 n" | x where "k = ''index:review:'' @ x @ '':'' @ pad20 n"
    | x where "k = ''index:agent:'' @ x @ '':'' @ pad20 n"
    by (auto simp: make_index_keys_def index_key_defs split: option.splits)
  then show ?thesis using form by cases metis+
qed

lemma parse_index_keys: "n \<le> u64_max \<Longrightarrow> k \<in> set (make_index_keys ev n) \<Longrightarrow> parse_seq_from_index_key k = Some n"
  using index_key_form [of k ev n] split_last [of "CHR '':''" "pad20 n"] parse_u64_pad20 [of n]
  by (auto simp: parse_seq_from_index_key_def)

lemma index_keys_prefix: "k \<in> set (make_index_keys ev n) \<Longrightarrow> starts_with k ''index:''"
  by (auto simp: make_index_keys_def index_key_defs starts_with_def split: option.splits)

lemma index_not_log: "k \<in> set (make_index_keys ev n) \<Longrightarrow> \<not> starts_with k ''log:'' \<and> k \<noteq> log_key j"
  by (auto simp: make_index_keys_def index_key_defs starts_with_def log_key_def split: option.splits)

lemma meta_keys [simp]:
  "idempotency_key k \<noteq> ''meta:seq''" "idempotency_key k \<noteq> ''meta:index_start_seq''" "idempotency_key k \<noteq> ''meta:views:last_event_id''"
  "queue_materialization_key k \<noteq> ''meta:seq''" "queue_materialization_key k \<noteq> ''meta:index_start_seq''"
  "queue_materialization_key k \<noteq> ''meta:views:last_event_id''"
  "idempotency_key a \<noteq> queue_materialization_key b" "queue_materialization_key b \<noteq> idempotency_key a"
  "idempotency_key a = idempotency_key b \<longleftrightarrow> a = b" "queue_materialization_key a = queue_materialization_key b \<longleftrightarrow> a = b"
  by (simp_all add: idempotency_key_def queue_materialization_key_def)

subsection \<open>The invariant\<close>

definition hot :: "'db log_env \<Rightarrow> (string \<rightharpoonup> string) \<Rightarrow> nat \<Rightarrow> event_envelope option" where
  "hot env me n = (case me (log_key n) of None \<Rightarrow> None | Some b \<Rightarrow> (case lg_decode env b of Inl _ \<Rightarrow> None | Inr e \<Rightarrow> Some e))"

definition entry :: "'db log_env \<Rightarrow> (string \<rightharpoonup> string) \<Rightarrow> (string \<rightharpoonup> string) \<Rightarrow> nat \<Rightarrow> event_envelope option" where
  "entry env me ma n =
     (case (case me (log_key n) of Some b \<Rightarrow> Some b | None \<Rightarrow> ma (archive_key n)) of
        None \<Rightarrow> None
      | Some b \<Rightarrow> (case lg_decode env b of Inl _ \<Rightarrow> None | Inr e \<Rightarrow> Some e))"

definition events_inv :: "'db log_env \<Rightarrow> (string \<rightharpoonup> string) \<Rightarrow> (string \<rightharpoonup> string) \<Rightarrow> nat \<Rightarrow> bool" where
  "events_inv env me ma seq \<longleftrightarrow>
     (\<forall>n. me (log_key n) \<noteq> None \<or> ma (archive_key n) \<noteq> None \<longrightarrow> 1 \<le> n \<and> n \<le> seq) \<and>
     (\<forall>n. 1 \<le> n \<and> n \<le> seq \<longrightarrow> (\<exists>e. entry env me ma n = Some e \<and> ee_event_id e = n)) \<and>
     (\<forall>k. starts_with k ''log:'' \<and> me k \<noteq> None \<longrightarrow> (\<exists>n. k = log_key n)) \<and>
     (\<forall>k. starts_with k ''index:'' \<longrightarrow>
        (me k \<noteq> None \<longleftrightarrow> (\<exists>n e. hot env me n = Some e \<and> k \<in> set (make_index_keys (ee_event e) n))))"

definition meta_inv :: "(string \<Rightarrow> bool) \<Rightarrow> (string \<rightharpoonup> string) \<Rightarrow> nat \<Rightarrow> (nat \<Rightarrow> event_envelope option) \<Rightarrow> bool" where
  "meta_inv plain mm seq ent \<longleftrightarrow>
     mm ''meta:seq'' = (if seq = 0 then None else Some (to_be_bytes seq)) \<and>
     (\<forall>b. mm ''meta:index_start_seq'' = Some b \<longrightarrow> length b = 8) \<and>
     (\<forall>k b. mm (idempotency_key k) = Some b \<longrightarrow>
        (plain k \<or> mm (queue_materialization_key k) \<noteq> None) \<and>
        (\<exists>n e. b = to_be_bytes n \<and> n \<le> seq \<and> ent n = Some e \<and> ee_idempotency_key e = Some k))"

definition log_inv :: "'db log_env \<Rightarrow> (string \<Rightarrow> bool) \<Rightarrow> contents \<Rightarrow> nat \<Rightarrow> bool" where
  "log_inv env plain m seq \<longleftrightarrow>
     events_inv env (m EventsPart) (m ArchivePart) seq \<and>
     meta_inv plain (m MetaPart) seq (entry env (m EventsPart) (m ArchivePart))"

text \<open>The abstract log.\<close>

definition events_of :: "'db log_env \<Rightarrow> contents \<Rightarrow> nat \<Rightarrow> event list" where
  "events_of env m seq = map (\<lambda>n. ee_event (the (entry env (m EventsPart) (m ArchivePart) n))) [1..<Suc seq]"

lemma length_events_of [simp]: "length (events_of env m seq) = seq"
  by (simp add: events_of_def)

lemma log_inv_empty: "log_inv env plain (\<lambda>p. Map.empty) 0"
  by (simp add: log_inv_def events_inv_def meta_inv_def entry_def hot_def)

lemma events_of_empty [simp]: "events_of env m 0 = []"
  by (simp add: events_of_def)

definition put_entry :: "string \<Rightarrow> event \<Rightarrow> nat \<Rightarrow> (string \<rightharpoonup> string) \<Rightarrow> (string \<rightharpoonup> string)" where
  "put_entry bytes ev n me = (\<lambda>k. if k = log_key n then Some bytes else if k \<in> set (make_index_keys ev n) then Some [] else me k)"

lemma log_key_not_index [simp]: "log_key j \<notin> set (make_index_keys ev n)"
  using index_not_log by blast

lemma put_entry_log [simp]: "put_entry bytes ev n me (log_key j) = (if j = n then Some bytes else me (log_key j))"
  by (simp add: put_entry_def)

lemma put_entry_reads:
  assumes "lg_decode env bytes = Inr e"
  shows "entry env (put_entry bytes ev n me) ma = (entry env me ma)(n \<mapsto> e)" "hot env (put_entry bytes ev n me) = (hot env me)(n \<mapsto> e)"
  using assms by (auto simp: fun_eq_iff entry_def hot_def)

lemma index_not_log_prefix: "starts_with k ''index:'' \<Longrightarrow> k \<noteq> log_key n \<and> \<not> starts_with k ''log:''"
  by (auto simp: starts_with_conv log_key_def)

lemma events_invD:
  assumes "events_inv env me ma seq"
  shows "me (log_key n) \<noteq> None \<Longrightarrow> 1 \<le> n \<and> n \<le> seq" "ma (archive_key n) \<noteq> None \<Longrightarrow> 1 \<le> n \<and> n \<le> seq"
    and "1 \<le> n \<Longrightarrow> n \<le> seq \<Longrightarrow> \<exists>e. entry env me ma n = Some e \<and> ee_event_id e = n"
    and "starts_with k ''log:'' \<Longrightarrow> me k \<noteq> None \<Longrightarrow> \<exists>n. k = log_key n"
    and "starts_with k ''index:'' \<Longrightarrow>
      me k \<noteq> None \<longleftrightarrow> (\<exists>n e. hot env me n = Some e \<and> k \<in> set (make_index_keys (ee_event e) n))"
  using assms unfolding events_inv_def by blast+

lemma ex_map_upd:
  "m a = None \<Longrightarrow> (\<exists>n x. (m(a \<mapsto> v)) n = Some x \<and> P n x) \<longleftrightarrow> P a v \<or> (\<exists>n x. m n = Some x \<and> P n x)"
  by (metis fun_upd_other fun_upd_same option.distinct(1) option.inject)

lemma events_inv_put:
  assumes inv: "events_inv env me ma seq" and dec: "lg_decode env bytes = Inr e" "ee_event e = ev" "ee_event_id e = Suc seq"
  shows "events_inv env (put_entry bytes ev (Suc seq) me) ma (Suc seq)"
proof -
  have free: "me (log_key (Suc seq)) = None" using events_invD(1) [OF inv, of "Suc seq"] by (cases "me (log_key (Suc seq))") auto
  then have cold: "hot env me (Suc seq) = None" by (simp add: hot_def)
  note reads = put_entry_reads [OF dec(1), of ev "Suc seq" me]
  let ?me = "put_entry bytes ev (Suc seq) me"
  have "\<forall>n. ?me (log_key n) \<noteq> None \<or> ma (archive_key n) \<noteq> None \<longrightarrow> 1 \<le> n \<and> n \<le> Suc seq"
    using events_invD(1,2) [OF inv] by (auto simp: le_Suc_eq)
  moreover have "\<exists>e'. entry env ?me ma n = Some e' \<and> ee_event_id e' = n" if "1 \<le> n" "n \<le> Suc seq" for n
    using events_invD(3) [OF inv, of n] that dec(3) unfolding reads by (cases "n = Suc seq") auto
  moreover have "\<exists>n. k = log_key n" if "starts_with k ''log:''" "?me k \<noteq> None" for k
    using that index_not_log [of k ev "Suc seq"] events_invD(4) [OF inv, of k] by (auto simp: put_entry_def split: if_splits)
  moreover have "?me k \<noteq> None \<longleftrightarrow> (\<exists>n e. hot env ?me n = Some e \<and> k \<in> set (make_index_keys (ee_event e) n))"
    if k: "starts_with k ''index:''" for k
  proof -
    have "?me k \<noteq> None \<longleftrightarrow> k \<in> set (make_index_keys ev (Suc seq)) \<or> me k \<noteq> None"
      using index_not_log_prefix [OF k] by (auto simp: put_entry_def)
    then show ?thesis unfolding reads ex_map_upd [where m = "hot env me" and a = "Suc seq", OF cold] using events_invD(5) [OF inv k] dec(2) by simp
  qed
  ultimately show ?thesis unfolding events_inv_def by blast
qed

lemma events_of_put:
  assumes "m' ArchivePart = m ArchivePart" "m' EventsPart = put_entry bytes ev (Suc seq) (m EventsPart)"
    and "lg_decode env bytes = Inr e" "ee_event e = ev"
  shows "events_of env m' (Suc seq) = events_of env m seq @ [ev]"
proof -
  have "map (\<lambda>n. ee_event (the (((entry env (m EventsPart) (m ArchivePart))(Suc seq \<mapsto> e)) n))) [1..<Suc seq] = events_of env m seq"
    unfolding events_of_def by (rule map_cong) auto
  then show ?thesis
    unfolding events_of_def [of env m'] assms(1,2) put_entry_reads [OF assms(3)] using assms(4) by simp
qed

subsection \<open>Batches\<close>

lemma apply_log_ops_simps [simp]:
  "apply_log_ops [] m = m" "apply_log_ops (op # ops) m = apply_log_ops ops (apply_log_op op m)"
  "apply_log_ops (ops @ ops') m = apply_log_ops ops' (apply_log_ops ops m)"
  by (simp_all add: apply_log_ops_def)

lemma apply_puts [simp]:
  "apply_log_ops (map (\<lambda>k. LogInsert p k v) ks) m = m(p := (\<lambda>k. if k \<in> set ks then Some v else m p k))"
proof (induction ks arbitrary: m)
  case (Cons k ks)
  show ?case unfolding list.map apply_log_ops_simps apply_log_op.simps Cons.IH by (auto simp: fun_eq_iff)
qed (simp add: fun_eq_iff)

lemma apply_removals [simp]: "apply_log_ops (map (LogRemove p) ks) m = m(p := (\<lambda>k. if k \<in> set ks then None else m p k))"
proof (induction ks arbitrary: m)
  case (Cons k ks)
  show ?case unfolding list.map apply_log_ops_simps apply_log_op.simps Cons.IH by (auto simp: fun_eq_iff)
qed (simp add: fun_eq_iff)

lemma apply_inserts_other: "q \<noteq> p \<Longrightarrow> apply_log_ops (map (\<lambda>(k, v). LogInsert p k v) kvs) m q = m q"
  by (induction kvs arbitrary: m) auto

lemma log_env_okD:
  assumes "log_env_ok env view"
  shows "lg_get env db p k = Inr r \<Longrightarrow> r = view db p k"
    and "scan_ok (view db p) pre (lg_prefix env db p pre)"
    and "lg_commit env ops db = Inr db' \<Longrightarrow> view db' = apply_log_ops ops (view db)"
    and "lg_encode env e = Inr b \<Longrightarrow> lg_decode env b = Inr e"
  using assms unfolding log_env_ok_def by blast+

lemma log_get_view: "log_env_ok env view \<Longrightarrow> log_get env db p k = Inr r \<Longrightarrow> r = view db p k"
  using log_env_okD(1) by (fastforce simp: log_get_def map_sum_def split: sum.splits)

lemma commit_log_cases:
  assumes "log_env_ok env view" "commit_log env ops seq a st = (st', res)"
  obtains (failed) e where "st' = st" "res = Inl e"
    | (written) "es_seq st' = seq" "res = Inr a" "view (es_db st') = apply_log_ops ops (view (es_db st))"
  using assms(2) log_env_okD(3) [OF assms(1)] by (auto simp: commit_log_def split: sum.splits)

lemma index_start_cases:
  assumes "set_index_start_seq_if_needed env db n = Inr start"
  shows "start = [] \<or> start = [LogInsert MetaPart ''meta:index_start_seq'' (to_be_bytes n)]"
  using assms by (auto simp: set_index_start_seq_if_needed_def split: sum.splits option.splits)

lemma index_ops_cases:
  assumes "index_ops env db ev n = Inr index"
  obtains start where "index = map (\<lambda>k. LogInsert EventsPart k []) (make_index_keys ev n) @ start"
    "start = [] \<or> start = [LogInsert MetaPart ''meta:index_start_seq'' (to_be_bytes n)]"
  using assms index_start_cases [of env db n]
  by (fastforce simp: index_ops_def Let_def map_sum_def split: if_splits sum.splits)

subsection \<open>Steps of the log\<close>

text \<open>Every operation adds some events to the abstract log and keeps all entries.\<close>

definition log_step :: "'db log_env \<Rightarrow> (string \<Rightarrow> bool) \<Rightarrow> contents \<Rightarrow> nat \<Rightarrow> contents \<Rightarrow> nat \<Rightarrow> event list \<Rightarrow> bool" where
  "log_step env plain m seq m' seq' evs \<longleftrightarrow>
     log_inv env plain m' seq' \<and> seq' = seq + length evs \<and> events_of env m' seq' = events_of env m seq @ evs \<and>
     (\<forall>n e. entry env (m EventsPart) (m ArchivePart) n = Some e \<longrightarrow> entry env (m' EventsPart) (m' ArchivePart) n = Some e)"

lemma log_step_refl: "log_inv env plain m seq \<Longrightarrow> log_step env plain m seq m seq []"
  by (simp add: log_step_def)

lemma log_step_trans:
  "log_step env plain m seq m1 seq1 evs \<Longrightarrow> log_step env plain m1 seq1 m2 seq2 evs2 \<Longrightarrow> log_step env plain m seq m2 seq2 (evs @ evs2)"
  by (auto simp: log_step_def)

lemma meta_inv_add:
  assumes "meta_inv plain mm seq ent" "seq < seq'" "\<And>n e. ent n = Some e \<Longrightarrow> ent' n = Some e"
    and "mm' ''meta:seq'' = Some (to_be_bytes seq')"
    and "\<And>k. mm' (idempotency_key k) = (if key = Some k then Some (to_be_bytes seq') else mm (idempotency_key k))"
    and "\<And>k. \<not> plain k \<Longrightarrow> mm (queue_materialization_key k) \<noteq> None \<or> key = Some k \<Longrightarrow> mm' (queue_materialization_key k) \<noteq> None"
    and "\<And>k. key = Some k \<Longrightarrow> \<exists>e. ent' seq' = Some e \<and> ee_idempotency_key e = Some k"
    and "\<And>b. mm' ''meta:index_start_seq'' = Some b \<Longrightarrow> mm ''meta:index_start_seq'' = Some b \<or> length b = 8"
  shows "meta_inv plain mm' seq' ent'"
proof -
  have "(plain k \<or> mm' (queue_materialization_key k) \<noteq> None) \<and> (\<exists>n e. b = to_be_bytes n \<and> n \<le> seq' \<and> ent' n = Some e \<and> ee_idempotency_key e = Some k)"
    if "mm' (idempotency_key k) = Some b" for k b
  proof (cases "key = Some k")
    case True
    with that assms(5-7) [of k] show ?thesis by auto
  next
    case False
    with that assms(5) have "mm (idempotency_key k) = Some b" by simp
    with assms(1) obtain n e where "plain k \<or> mm (queue_materialization_key k) \<noteq> None" "b = to_be_bytes n" "n \<le> seq" "ent n = Some e"
      "ee_idempotency_key e = Some k" unfolding meta_inv_def by blast
    then show ?thesis using assms(2) assms(3) [of n e] assms(6) [of k] by (intro conjI exI [of _ n] exI [of _ e]) auto
  qed
  moreover have "length b = 8" if "mm' ''meta:index_start_seq'' = Some b" for b
    using assms(8) [OF that] assms(1) unfolding meta_inv_def by blast
  ultimately show ?thesis using assms(2,4) unfolding meta_inv_def by simp
qed

lemma log_put_step:
  assumes inv: "log_inv env plain m seq" and dec: "lg_decode env bytes = Inr (build_event_envelope ev (Suc seq) key)"
    and parts: "m' EventsPart = put_entry bytes ev (Suc seq) (m EventsPart)" "m' ArchivePart = m ArchivePart"
    and meta: "m' MetaPart ''meta:seq'' = Some (to_be_bytes (Suc seq))"
      "\<And>k. m' MetaPart (idempotency_key k) = (if key = Some k then Some (to_be_bytes (Suc seq)) else m MetaPart (idempotency_key k))"
      "\<And>k. \<not> plain k \<Longrightarrow> m MetaPart (queue_materialization_key k) \<noteq> None \<or> key = Some k \<Longrightarrow> m' MetaPart (queue_materialization_key k) \<noteq> None"
      "\<And>b. m' MetaPart ''meta:index_start_seq'' = Some b \<Longrightarrow> m MetaPart ''meta:index_start_seq'' = Some b \<or> length b = 8"
  shows "log_step env plain m seq m' (Suc seq) [ev]"
proof -
  let ?e = "build_event_envelope ev (Suc seq) key" and ?ent = "entry env (m EventsPart) (m ArchivePart)"
  have ev: "ee_event ?e = ev" "ee_event_id ?e = Suc seq" "ee_idempotency_key ?e = key" by (simp_all add: build_event_envelope_def)
  have old: "events_inv env (m EventsPart) (m ArchivePart) seq" "meta_inv plain (m MetaPart) seq ?ent" using inv by (simp_all add: log_inv_def)
  have ent: "entry env (m' EventsPart) (m' ArchivePart) = ?ent(Suc seq \<mapsto> ?e)"
    unfolding parts by (rule put_entry_reads(1) [OF dec])
  have none: "?ent (Suc seq) = None" using events_invD(1,2) [OF old(1), of "Suc seq"] by (auto simp: entry_def split: option.splits)
  then have keep: "(?ent(Suc seq \<mapsto> ?e)) n = Some e" if "?ent n = Some e" for n e using that by auto
  have "meta_inv plain (m' MetaPart) (Suc seq) (?ent(Suc seq \<mapsto> ?e))"
    by (rule meta_inv_add [OF old(2) _ keep meta(1,2,3) _ meta(4)]) (use ev in auto)
  then have "log_inv env plain m' (Suc seq)"
    using events_inv_put [OF old(1) dec ev(1,2)] unfolding log_inv_def ent by (simp add: parts)
  with keep show ?thesis
    unfolding log_step_def ent using events_of_put [OF parts(2,1) dec ev(1)] by simp
qed

lemma append_new_step:
  assumes ok: "log_env_ok env view" and inv: "log_inv env plain (view (es_db st)) (es_seq st)"
    and run: "append_new env ev key extra st = (st', res)"
    and extra: "extra = (\<lambda>_. []) \<and> (\<forall>k. key = Some k \<longrightarrow> plain k) \<or> extra = enqueue_ops q item key"
  shows "(\<exists>e. res = Inl e \<and> st' = st) \<or>
    res = Inr (Suc (es_seq st)) \<and>
      log_step env plain (view (es_db st)) (es_seq st) (view (es_db st')) (es_seq st') [ev]"
proof (cases "\<exists>e. res = Inl e \<and> st' = st")
  case False
  let ?s = "Suc (es_seq st)" and ?m = "view (es_db st)"
  from run False obtain bytes index where enc: "lg_encode env (build_event_envelope ev ?s key) = Inr bytes"
    and index: "index_ops env (es_db st) ev ?s = Inr index"
    and commit: "commit_log env (LogInsert EventsPart (log_key ?s) bytes # index @ [LogInsert MetaPart ''meta:seq'' (to_be_bytes ?s)] @
        (case key of None \<Rightarrow> [] | Some k \<Rightarrow> [LogInsert MetaPart (idempotency_key k) (to_be_bytes ?s)]) @ extra ?s) ?s ?s st = (st', res)"
    by (auto simp: append_new_def Let_def split: sum.splits)
  from index obtain start where start: "index = map (\<lambda>k. LogInsert EventsPart k []) (make_index_keys ev ?s) @ start"
    "start = [] \<or> start = [LogInsert MetaPart ''meta:index_start_seq'' (to_be_bytes ?s)]" by (rule index_ops_cases)
  note dec = log_env_okD(4) [OF ok enc]
  from ok commit show ?thesis
  proof (cases rule: commit_log_cases)
    case (failed e)
    with False show ?thesis by simp
  next
    case written
    have "log_step env plain ?m (es_seq st) (view (es_db st')) ?s [ev]"
    proof (rule log_put_step [OF inv dec])
      show "view (es_db st') EventsPart = put_entry bytes ev ?s (?m EventsPart)"
        unfolding written(3) start(1) put_entry_def using start(2) extra
        by (auto simp: fun_eq_iff enqueue_ops_def split: option.split)
    qed (use start(2) extra in \<open>auto simp: written(3) start(1) enqueue_ops_def split: option.splits if_splits\<close>)
    with written show ?thesis by simp
  qed
qed simp

text \<open>What an operation adds to the log, by its result.\<close>

definition append_outcome :: "'db log_env \<Rightarrow> (string \<Rightarrow> bool) \<Rightarrow> ('db \<Rightarrow> contents) \<Rightarrow> event \<Rightarrow> string option \<Rightarrow> 'db event_store \<Rightarrow>
    'db event_store \<times> (store_error, event_id) result \<Rightarrow> bool" where
  \<comment> \<open>an error and no change, one more event, or the event already recorded under the key\<close>
  "append_outcome env plain view ev key st out \<longleftrightarrow>
     (case out of (st', res) \<Rightarrow>
        (\<exists>e. res = Inl e \<and> st' = st) \<or>
        res = Inr (Suc (es_seq st)) \<and> log_step env plain (view (es_db st)) (es_seq st) (view (es_db st')) (es_seq st') [ev] \<or>
        (\<exists>n k e. res = Inr n \<and> 1 \<le> n \<and> n \<le> es_seq st \<and> st' = st \<and> key = Some k \<and>
           entry env (view (es_db st) EventsPart) (view (es_db st) ArchivePart) n = Some e \<and> ee_idempotency_key e = Some k))"

lemma check_idempotency_cases:
  assumes "log_env_ok env view" "log_inv env plain (view db) seq" "seq \<le> u64_max" "check_idempotency env db key = Inr (Some n)"
  obtains k e where "key = Some k" "1 \<le> n" "n \<le> seq" "entry env (view db EventsPart) (view db ArchivePart) n = Some e"
    "ee_idempotency_key e = Some k" "plain k \<or> view db MetaPart (queue_materialization_key k) \<noteq> None"
proof -
  from assms(4) obtain k b where k: "key = Some k" "log_get env db MetaPart (idempotency_key k) = Inr (Some b)" "from_be_bytes b = Some n"
    by (auto simp: check_idempotency_def split: option.splits sum.splits)
  from log_get_view [OF assms(1) k(2)] have "view db MetaPart (idempotency_key k) = Some b" by simp
  with assms(2) obtain j e where j: "b = to_be_bytes j" "j \<le> seq" "entry env (view db EventsPart) (view db ArchivePart) j = Some e"
    "ee_idempotency_key e = Some k" "plain k \<or> view db MetaPart (queue_materialization_key k) \<noteq> None"
    unfolding log_inv_def meta_inv_def by blast
  have "j = n" using k(3) j(1,2) assms(3) from_to_be_bytes_exact [of j] by simp
  moreover have "1 \<le> j" using j(3) assms(2) events_invD(1,2) [of env "view db EventsPart" "view db ArchivePart" seq j]
    by (auto simp: log_inv_def entry_def split: option.splits)
  ultimately show ?thesis using that k(1) j by blast
qed

lemma append_event_step:
  assumes ok: "log_env_ok env view" and inv: "log_inv env plain (view (es_db st)) (es_seq st)" and bound: "es_seq st \<le> u64_max"
    and plain: "\<And>k. key = Some k \<Longrightarrow> plain k"
  shows "append_outcome env plain view ev key st (append_event_inner env ev key st)"
proof (cases "check_idempotency env (es_db st) key")
  case (Inl e)
  then show ?thesis by (auto simp: append_event_inner_def append_outcome_def)
next
  case (Inr found)
  show ?thesis
  proof (cases found)
    case None
    obtain st' res where run: "append_new env ev key (\<lambda>_. []) st = (st', res)" by force
    with Inr None append_new_step [OF ok inv run] plain show ?thesis
      by (simp add: append_event_inner_def append_outcome_def) blast
  next
    case (Some n)
    with Inr obtain k e where k: "key = Some k" "1 \<le> n" "n \<le> es_seq st"
      "entry env (view (es_db st) EventsPart) (view (es_db st) ArchivePart) n = Some e" "ee_idempotency_key e = Some k"
      using check_idempotency_cases [OF ok inv bound, of key n] by metis
    then have "max (es_seq st) n = es_seq st" by simp
    with Inr Some k show ?thesis by (simp add: append_event_inner_def append_outcome_def)
  qed
qed

lemma enqueue_step:
  assumes ok: "log_env_ok env view" and inv: "log_inv env plain (view (es_db st)) (es_seq st)" and bound: "es_seq st \<le> u64_max"
    and queued: "\<And>k. key = Some k \<Longrightarrow> \<not> plain k"
  shows "append_outcome env plain view ev key st (append_and_enqueue env ev q item key st)"
proof (cases "check_idempotency env (es_db st) key")
  case (Inl e)
  then show ?thesis by (auto simp: append_and_enqueue_def append_outcome_def)
next
  case (Inr found)
  show ?thesis
  proof (cases found)
    case None
    obtain st' res where run: "append_new env ev key (enqueue_ops q item key) st = (st', res)" by force
    with Inr None append_new_step [OF ok inv run, of q item] show ?thesis
      by (simp add: append_and_enqueue_def append_outcome_def) blast
  next
    case (Some n)
    with Inr obtain k e where k: "key = Some k" "1 \<le> n" "n \<le> es_seq st"
      "entry env (view (es_db st) EventsPart) (view (es_db st) ArchivePart) n = Some e" "ee_idempotency_key e = Some k"
      "plain k \<or> view (es_db st) MetaPart (queue_materialization_key k) \<noteq> None"
      using check_idempotency_cases [OF ok inv bound, of key n] by metis
    have "max (es_seq st) n = es_seq st" using k(3) by simp
    moreover have "queue_materialized env (es_db st) k = Inr b \<Longrightarrow> b" for b
      using k(6) queued [OF k(1)] log_get_view [OF ok, of "es_db st" MetaPart "queue_materialization_key k"]
      by (auto simp: queue_materialized_def map_sum_def split: sum.splits)
    ultimately show ?thesis using Inr Some k
      by (auto simp: append_and_enqueue_def append_outcome_def split: sum.split bool.split)
  qed
qed

lemma staged_events:
  assumes ok: "log_env_ok env view"
  shows "stage_events env evs seq = Inr ops \<Longrightarrow> events_inv env (m EventsPart) (m ArchivePart) seq \<Longrightarrow> m1 = apply_log_ops ops m \<Longrightarrow>
    events_inv env (m1 EventsPart) (m1 ArchivePart) (seq + length evs) \<and> m1 ArchivePart = m ArchivePart \<and> m1 MetaPart = m MetaPart \<and>
    events_of env m1 (seq + length evs) = events_of env m seq @ evs \<and>
    (\<forall>n e. entry env (m EventsPart) (m ArchivePart) n = Some e \<longrightarrow> entry env (m1 EventsPart) (m1 ArchivePart) n = Some e)"
proof (induction evs arbitrary: seq ops m)
  case (Cons ev evs)
  from Cons.prems(1) obtain bytes rest where enc: "lg_encode env (build_event_envelope ev (Suc seq) None) = Inr bytes"
    and rest: "stage_events env evs (Suc seq) = Inr rest"
    and ops: "ops = LogInsert EventsPart (log_key (Suc seq)) bytes #
        map (\<lambda>k. LogInsert EventsPart k []) (make_index_keys ev (Suc seq)) @ rest"
    by (auto simp: map_sum_def split: sum.splits)
  let ?e = "build_event_envelope ev (Suc seq) None" and ?ent = "entry env (m EventsPart) (m ArchivePart)"
  let ?me = "put_entry bytes ev (Suc seq) (m EventsPart)"
  have ev: "ee_event ?e = ev" "ee_event_id ?e = Suc seq" by (simp_all add: build_event_envelope_def)
  note dec = log_env_okD(4) [OF ok enc]
  define m2 where "m2 = m(EventsPart := ?me)"
  have m2: "m2 EventsPart = ?me" "m2 ArchivePart = m ArchivePart" "m2 MetaPart = m MetaPart" by (simp_all add: m2_def)
  have "apply_log_ops (map (\<lambda>k. LogInsert EventsPart k []) (make_index_keys ev (Suc seq)))
        (apply_log_op (LogInsert EventsPart (log_key (Suc seq)) bytes) m) = m2"
    by (auto simp: fun_eq_iff put_entry_def m2_def)
  then have m1: "m1 = apply_log_ops rest m2"
    unfolding Cons.prems(3) ops by (simp del: apply_log_op.simps apply_puts)
  have none: "?ent (Suc seq) = None"
    using events_invD(1,2) [OF Cons.prems(2), of "Suc seq"] by (auto simp: entry_def split: option.splits)
  then have keep: "entry env (m2 EventsPart) (m2 ArchivePart) n = Some e" if "?ent n = Some e" for n e
    using that put_entry_reads(1) [OF dec, of ev "Suc seq" "m EventsPart" "m ArchivePart"] m2 by auto
  have inv1: "events_inv env (m2 EventsPart) (m2 ArchivePart) (Suc seq)"
    using events_inv_put [OF Cons.prems(2) dec ev] m2 by simp
  have "events_of env m2 (Suc seq) = events_of env m seq @ [ev]"
    by (rule events_of_put [OF m2(2,1) dec ev(1)])
  with Cons.IH [OF rest inv1 m1] m2 keep show ?case by auto
qed auto

lemma atomic_step:
  assumes ok: "log_env_ok env view" and inv: "log_inv env plain (view (es_db st)) (es_seq st)"
    and run: "append_atomic env evs has_views stage_views st = (st', res)"
  shows "(\<exists>e. res = Inl e \<and> st' = st) \<or>
    res = Inr [Suc (es_seq st)..<Suc (es_seq st + length evs)] \<and>
      log_step env plain (view (es_db st)) (es_seq st) (view (es_db st')) (es_seq st') evs"
proof (cases "evs = [] \<or> (\<exists>e. res = Inl e \<and> st' = st)")
  case True
  with run log_step_refl [OF inv] show ?thesis by (auto simp: append_atomic_def)
next
  case False
  let ?f = "es_seq st + length evs" and ?m = "view (es_db st)"
  let ?start = "case first_indexed evs (es_seq st) of None \<Rightarrow> Inr [] | Some n \<Rightarrow> set_index_start_seq_if_needed env (es_db st) n"
  note run' = run [unfolded append_atomic_def Let_def]
  obtain ops where stage: "stage_events env evs (es_seq st) = Inr ops"
    using run' False by (cases "stage_events env evs (es_seq st)") auto
  obtain start where st: "?start = Inr start" using run' False stage by (cases ?start) auto
  obtain views where views: "stage_views (es_db st) = Inr views" using run' False stage st by (cases "stage_views (es_db st)") auto
  have start: "start = [] \<or> (\<exists>n. start = [LogInsert MetaPart ''meta:index_start_seq'' (to_be_bytes n)])"
    using st index_start_cases by (fastforce split: option.splits)
  have commit: "commit_log env (ops @ start @ [LogInsert MetaPart ''meta:seq'' (to_be_bytes ?f)] @
        (if has_views then [LogInsert MetaPart ''meta:views:last_event_id'' (to_be_bytes ?f)] else []) @
        map (\<lambda>(k, v). LogInsert ViewsPart k v) views) ?f [Suc (es_seq st)..<Suc ?f] st = (st', res)"
    using run' False stage st views by simp
  from ok commit show ?thesis
  proof (cases rule: commit_log_cases)
    case (failed e)
    with False show ?thesis by simp
  next
    case written
    let ?m' = "view (es_db st')" and ?m1 = "apply_log_ops ops ?m"
    have parts: "?m' EventsPart = ?m1 EventsPart" "?m' ArchivePart = ?m1 ArchivePart"
      unfolding written(3) using start by (auto simp: apply_inserts_other)
    have old: "events_inv env (?m EventsPart) (?m ArchivePart) (es_seq st)"
      "meta_inv plain (?m MetaPart) (es_seq st) (entry env (?m EventsPart) (?m ArchivePart))" using inv by (simp_all add: log_inv_def)
    note staged = staged_events [OF ok stage old(1) refl]
    have meta: "?m' MetaPart ''meta:seq'' = Some (to_be_bytes ?f)" "?m' MetaPart (idempotency_key k) = ?m MetaPart (idempotency_key k)"
      "?m' MetaPart (queue_materialization_key k) = ?m MetaPart (queue_materialization_key k)"
      "?m' MetaPart ''meta:index_start_seq'' = Some b \<Longrightarrow> ?m MetaPart ''meta:index_start_seq'' = Some b \<or> length b = 8" for k b
      unfolding written(3) using start staged by (auto simp: apply_inserts_other split: if_splits)
    have "meta_inv plain (?m' MetaPart) ?f (entry env (?m' EventsPart) (?m' ArchivePart))"
      by (rule meta_inv_add [OF old(2), where key = None]) (use False staged meta parts in auto)
    moreover have "events_of env ?m' ?f = events_of env ?m1 ?f" by (simp add: events_of_def parts)
    ultimately have "log_step env plain ?m (es_seq st) ?m' ?f evs" using staged unfolding log_step_def log_inv_def parts by auto
    with written(1,2) show ?thesis by simp
  qed
qed

subsection \<open>Retention\<close>

text \<open>A scan over the entries \<open>kvs\<close>: all of them, or some of them and an error.\<close>

definition scanned :: "'a list \<Rightarrow> ('e, 'a) result list \<Rightarrow> bool" where
  "scanned kvs es \<longleftrightarrow> es = map Inr kvs \<or> (\<exists>n e rest. es = map Inr (take n kvs) @ Inl e # rest)"

lemma scanned_Nil: "scanned [] es \<Longrightarrow> es = [] \<or> (\<exists>e rest. es = Inl e # rest)"
  by (auto simp: scanned_def)

lemma scanned_Cons: "scanned (kv # kvs) es \<Longrightarrow> (\<exists>e rest. es = Inl e # rest) \<or> (\<exists>items. es = Inr kv # items \<and> scanned kvs items)"
proof -
  assume "scanned (kv # kvs) es"
  then consider "es = map Inr (kv # kvs)" | n e rest where "es = map Inr (take n (kv # kvs)) @ Inl e # rest"
    by (auto simp: scanned_def)
  then show ?thesis
  proof cases
    case (2 n e rest)
    then show ?thesis by (cases n) (auto simp: scanned_def)
  qed (auto simp: scanned_def)
qed

lemma archive_ops_exact:
  assumes "sorted_wrt (<) (map fst kvs)" "\<And>k v. (k, v) \<in> set kvs \<Longrightarrow> \<exists>n \<le> u64_max. k = log_key n"
    and "scanned kvs es"
    and "archive_ops cutoff es = Inr (ops, moved)"
  shows "ops = concat (map (\<lambda>(k, v). case parse_seq_from_log_key k of
      Some n \<Rightarrow> if n \<le> cutoff then [LogInsert ArchivePart (archive_key n) v, LogRemove EventsPart k] else [] | None \<Rightarrow> []) kvs)"
  using assms
proof (induction kvs arbitrary: es ops moved)
  case Nil
  then show ?case by (auto dest!: scanned_Nil)
next
  case (Cons kv kvs)
  obtain k v where kv: "kv = (k, v)" by force
  obtain n where n: "n \<le> u64_max" "k = log_key n" using Cons.prems(2) [of k v] kv by auto
  note parse = parse_log_key [OF n(1)]
  from scanned_Cons [OF Cons.prems(3)] Cons.prems(4) kv obtain items where es: "es = Inr (k, v) # items" "scanned kvs items" by auto
  have tail: "sorted_wrt (<) (map fst kvs)" "\<And>k v. (k, v) \<in> set kvs \<Longrightarrow> \<exists>n \<le> u64_max. k = log_key n"
    using Cons.prems(1,2) kv by auto
  show ?case
  proof (cases "n \<le> cutoff")
    case True
    with Cons.prems(4) es parse n(2) obtain ops' c' where "archive_ops cutoff items = Inr (ops', c')"
      "ops = LogInsert ArchivePart (archive_key n) v # LogRemove EventsPart k # ops'"
      by (auto simp: map_sum_def split: sum.splits)
    with Cons.IH [OF tail es(2)] True parse n(2) kv show ?thesis by simp
  next
    case False
    have "cutoff < j" if "(log_key j, w) \<in> set kvs" "j \<le> u64_max" for j w
    proof -
      have "log_key n < log_key j" using Cons.prems(1) kv that(1) n(2) by force
      with log_key_less [OF n(1) that(2)] False show ?thesis by simp
    qed
    then have "(case parse_seq_from_log_key k of
          Some n \<Rightarrow> if n \<le> cutoff then [LogInsert ArchivePart (archive_key n) v, LogRemove EventsPart k] else [] | None \<Rightarrow> []) = []"
      if "(k, v) \<in> set kvs" for k v using tail(2) [OF that] that parse_log_key by fastforce
    with Cons.prems(4) es parse n(2) kv False show ?thesis by auto
  qed
qed

lemma index_removals_exact:
  assumes "scanned kvs es" "index_removals cutoff es = Inr ops"
  shows "ops = map (LogRemove EventsPart) (filter (\<lambda>k. case parse_seq_from_index_key k of Some n \<Rightarrow> n \<le> cutoff | None \<Rightarrow> False) (map fst kvs))"
  using assms
proof (induction kvs arbitrary: es ops)
  case (Cons kv kvs)
  obtain k v where kv: "kv = (k, v)" by force
  from scanned_Cons [OF Cons.prems(1)] Cons.prems(2) kv obtain items where es: "es = Inr (k, v) # items" "scanned kvs items" by auto
  from Cons.prems(2) es obtain ops' where "index_removals cutoff items = Inr ops'"
    "ops = (case parse_seq_from_index_key k of Some n \<Rightarrow> if n \<le> cutoff then LogRemove EventsPart k # ops' else ops' | None \<Rightarrow> ops')"
    by (auto simp: map_sum_def split: sum.splits)
  with Cons.IH [OF es(2)] kv show ?case by (auto split: option.split)
qed (auto dest: scanned_Nil)

lemma scanned_prefix:
  assumes "log_env_ok env view"
  obtains kvs where "sorted_wrt (<) (map fst kvs)" "\<And>k v. (k, v) \<in> set kvs \<longleftrightarrow> view db p k = Some v \<and> starts_with k pre"
    "scanned kvs (lg_prefix env db p pre)"
  using log_env_okD(2) [OF assms, of db p pre] unfolding scan_ok_def scanned_def by blast

abbreviation move_entry :: "nat \<Rightarrow> string \<times> string \<Rightarrow> log_op list" where
  "move_entry cutoff \<equiv> \<lambda>(k, v). case parse_seq_from_log_key k of
     Some n \<Rightarrow> if n \<le> cutoff then [LogInsert ArchivePart (archive_key n) v, LogRemove EventsPart k] else [] | None \<Rightarrow> []"

lemma moved_entries:
  fixes kvs :: "(string \<times> string) list" and cutoff :: nat
  assumes "distinct (map fst kvs)" "\<forall>k \<in> set (map fst kvs). \<exists>n \<le> u64_max. k = log_key n"
  defines "mv \<equiv> \<lambda>m. apply_log_ops (concat (map (move_entry cutoff) kvs)) m"
  shows "mv m EventsPart k = (if \<exists>n v. (k, v) \<in> set kvs \<and> k = log_key n \<and> n \<le> cutoff then None else m EventsPart k)"
    and "mv m ArchivePart (archive_key n) =
      (if n \<le> cutoff then (case map_of kvs (log_key n) of Some v \<Rightarrow> Some v | None \<Rightarrow> m ArchivePart (archive_key n)) else m ArchivePart (archive_key n))"
    and "mv m MetaPart = m MetaPart"
proof -
  have "(\<forall>k. mv m EventsPart k = (if \<exists>n v. (k, v) \<in> set kvs \<and> k = log_key n \<and> n \<le> cutoff then None else m EventsPart k)) \<and>
    (\<forall>n. mv m ArchivePart (archive_key n) =
      (if n \<le> cutoff then (case map_of kvs (log_key n) of Some v \<Rightarrow> Some v | None \<Rightarrow> m ArchivePart (archive_key n)) else m ArchivePart (archive_key n))) \<and>
    mv m MetaPart = m MetaPart"
    using assms(1,2) unfolding mv_def
  proof (induction kvs arbitrary: m)
    case (Cons kv kvs)
    obtain j v where kv: "kv = (log_key j, v)" "j \<le> u64_max" using Cons.prems(2) by (cases kv) auto
    have tail: "distinct (map fst kvs)" using Cons.prems(1) by simp
    have keys: "\<forall>k \<in> set (map fst kvs). \<exists>n \<le> u64_max. k = log_key n" using Cons.prems(2) by simp
    have fresh: "map_of kvs (log_key j) = None" using Cons.prems(1) kv by (simp add: map_of_eq_None_iff)
    show ?case using kv fresh Cons.IH [OF tail keys] by (simp add: parse_log_key split: option.split) auto
  qed auto
  then show "mv m EventsPart k = (if \<exists>n v. (k, v) \<in> set kvs \<and> k = log_key n \<and> n \<le> cutoff then None else m EventsPart k)"
    and "mv m ArchivePart (archive_key n) =
      (if n \<le> cutoff then (case map_of kvs (log_key n) of Some v \<Rightarrow> Some v | None \<Rightarrow> m ArchivePart (archive_key n)) else m ArchivePart (archive_key n))"
    and "mv m MetaPart = m MetaPart" by blast+
qed

lemma archive_contents:
  assumes ok: "log_env_ok env view" and inv: "log_inv env plain (view (es_db st)) (es_seq st)" and bound: "es_seq st \<le> u64_max"
    and run: "archive_events_before env cutoff st = (st', Inr archived)"
  defines "me \<equiv> view (es_db st) EventsPart" and "ma \<equiv> view (es_db st) ArchivePart"
  defines "me' \<equiv> view (es_db st') EventsPart" and "ma' \<equiv> view (es_db st') ArchivePart"
  shows "es_seq st' = es_seq st"
    "me' (log_key n) = (if n \<le> cutoff then None else me (log_key n))"
    "ma' (archive_key n) = (if n \<le> cutoff \<and> me (log_key n) \<noteq> None then me (log_key n) else ma (archive_key n))"
    "starts_with k ''index:'' \<Longrightarrow> me' k = (case parse_seq_from_index_key k of Some n \<Rightarrow> if n \<le> cutoff then None else me k | None \<Rightarrow> me k)"
    "me' k \<noteq> None \<Longrightarrow> me k \<noteq> None"
    "view (es_db st') MetaPart = (view (es_db st) MetaPart)(''meta:index_start_seq'' \<mapsto> to_be_bytes (Suc cutoff))"
proof -
  let ?m = "view (es_db st)"
  have ev: "events_inv env me ma (es_seq st)" using inv by (simp add: log_inv_def me_def ma_def)
  from run obtain ops moved_n removals where runs: "archive_ops cutoff (lg_prefix env (es_db st) EventsPart ''log:'') = Inr (ops, moved_n)"
    "index_removals cutoff (lg_prefix env (es_db st) EventsPart ''index:'') = Inr removals"
    "commit_log env (ops @ removals @ [LogInsert MetaPart ''meta:index_start_seq'' (to_be_bytes (Suc cutoff))]) (es_seq st) moved_n st = (st', Inr archived)"
    by (auto simp: archive_events_before_def split: sum.splits)
  obtain kvs where kvs: "sorted_wrt (<) (map fst kvs)" "\<And>k v. (k, v) \<in> set kvs \<longleftrightarrow> me k = Some v \<and> starts_with k ''log:''"
    "scanned kvs (lg_prefix env (es_db st) EventsPart ''log:'')"
    unfolding me_def using scanned_prefix [OF ok, of "es_db st" EventsPart "''log:''"] by metis
  obtain iks where iks: "sorted_wrt (<) (map fst iks)" "\<And>k v. (k, v) \<in> set iks \<longleftrightarrow> me k = Some v \<and> starts_with k ''index:''"
    "scanned iks (lg_prefix env (es_db st) EventsPart ''index:'')"
    unfolding me_def using scanned_prefix [OF ok, of "es_db st" EventsPart "''index:''"] by metis
  have keys: "\<exists>n \<le> u64_max. k = log_key n" if "(k, v) \<in> set kvs" for k v
    using that kvs(2) events_invD(1,4) [OF ev] bound by (metis le_trans option.distinct(1))
  have dist: "distinct (map fst kvs)" using kvs(1) strict_sorted_iff by blast
  have ops: "ops = concat (map (move_entry cutoff) kvs)" by (rule archive_ops_exact [OF kvs(1) keys kvs(3) runs(1)])
  have moved: "apply_log_ops ops ?m EventsPart k = (if \<exists>n v. (k, v) \<in> set kvs \<and> k = log_key n \<and> n \<le> cutoff then None else me k)"
    "apply_log_ops ops ?m ArchivePart (archive_key n) =
      (if n \<le> cutoff then (case map_of kvs (log_key n) of Some v \<Rightarrow> Some v | None \<Rightarrow> ma (archive_key n)) else ma (archive_key n))"
    "apply_log_ops ops ?m MetaPart = ?m MetaPart" for k n
    unfolding ops me_def ma_def by (rule moved_entries [OF dist]; use keys in fastforce)+
  let ?gone = "\<lambda>k. case parse_seq_from_index_key k of Some n \<Rightarrow> n \<le> cutoff | None \<Rightarrow> False"
  have removals: "removals = map (LogRemove EventsPart) (filter ?gone (map fst iks))"
    by (rule index_removals_exact [OF iks(3) runs(2)])
  have seq: "es_seq st' = es_seq st" and view': "view (es_db st') =
      apply_log_ops (ops @ removals @ [LogInsert MetaPart ''meta:index_start_seq'' (to_be_bytes (Suc cutoff))]) ?m"
    by (use runs(3) in \<open>auto elim!: commit_log_cases [OF ok]\<close>)
  have lookup: "map_of kvs (log_key n) = me (log_key n)" for n
    using dist kvs(2) [of "log_key n"] by (cases "me (log_key n)") (auto simp: map_of_eq_None_iff)
  have gone: "k \<in> set (filter ?gone (map fst iks)) \<longleftrightarrow> starts_with k ''index:'' \<and> me k \<noteq> None \<and> ?gone k" for k
    using iks(2) by (force simp: image_iff)
  have me': "me' k = (if starts_with k ''index:'' \<and> me k \<noteq> None \<and> ?gone k then None else apply_log_ops ops ?m EventsPart k)" for k
    unfolding me'_def view' removals apply_log_ops_simps apply_removals using gone by simp
  show "es_seq st' = es_seq st" by (rule seq)
  show "me' (log_key n) = (if n \<le> cutoff then None else me (log_key n))"
    unfolding me' moved(1) using index_not_log_prefix [of "log_key n" n] kvs(2) [of "log_key n"] by (auto simp: me_def)
  show "ma' (archive_key n) = (if n \<le> cutoff \<and> me (log_key n) \<noteq> None then me (log_key n) else ma (archive_key n))"
    unfolding ma'_def view' removals using moved(2) [of n] by (auto simp: lookup ma_def split: option.split)
  show "me' k = (case parse_seq_from_index_key k of Some n \<Rightarrow> if n \<le> cutoff then None else me k | None \<Rightarrow> me k)"
    if "starts_with k ''index:''"
    unfolding me' moved(1) using that index_not_log_prefix [OF that] kvs(2) [of k] by (auto simp: me_def split: option.split)
  show "me' k \<noteq> None \<Longrightarrow> me k \<noteq> None" unfolding me' moved(1) by (auto simp: me_def split: if_splits)
  show "view (es_db st') MetaPart = (?m MetaPart)(''meta:index_start_seq'' \<mapsto> to_be_bytes (Suc cutoff))"
    unfolding view' removals using moved(3) by simp
qed

lemma archive_step:
  assumes ok: "log_env_ok env view" and inv: "log_inv env plain (view (es_db st)) (es_seq st)" and bound: "es_seq st \<le> u64_max"
    and run: "archive_events_before env cutoff st = (st', Inr archived)"
  shows "log_step env plain (view (es_db st)) (es_seq st) (view (es_db st')) (es_seq st') []"
proof -
  let ?m = "view (es_db st)" and ?m' = "view (es_db st')"
  note contents = archive_contents [OF ok inv bound run]
  have ev: "events_inv env (?m EventsPart) (?m ArchivePart) (es_seq st)" using inv by (simp add: log_inv_def)
  have ent: "entry env (?m' EventsPart) (?m' ArchivePart) = entry env (?m EventsPart) (?m ArchivePart)"
    using contents(2,3) by (auto simp: fun_eq_iff entry_def split: option.splits)
  have hot': "hot env (?m' EventsPart) n = (if n \<le> cutoff then None else hot env (?m EventsPart) n)" for n
    using contents(2) by (simp add: hot_def)
  have "?m' EventsPart k \<noteq> None \<longleftrightarrow> (\<exists>n e. hot env (?m' EventsPart) n = Some e \<and> k \<in> set (make_index_keys (ee_event e) n))"
    if k: "starts_with k ''index:''" for k
  proof -
    have "parse_seq_from_index_key k = Some n" if "hot env (?m EventsPart) n = Some e" "k \<in> set (make_index_keys (ee_event e) n)" for n e
      using that events_invD(1) [OF ev, of n] bound parse_index_keys [of n k "ee_event e"]
      by (auto simp: hot_def split: option.splits)
    then show ?thesis unfolding contents(4) [OF k] hot' using events_invD(5) [OF ev k]
      by (cases "parse_seq_from_index_key k") (auto split: if_splits)
  qed
  moreover have "1 \<le> n \<and> n \<le> es_seq st" if "?m' EventsPart (log_key n) \<noteq> None \<or> ?m' ArchivePart (archive_key n) \<noteq> None" for n
    using that events_invD(1,2) [OF ev, of n] contents(2,3) [of n] by (auto split: if_splits)
  moreover have "\<exists>n. k = log_key n" if "starts_with k ''log:''" "?m' EventsPart k \<noteq> None" for k
    using that contents(5) events_invD(4) [OF ev] by blast
  ultimately have "events_inv env (?m' EventsPart) (?m' ArchivePart) (es_seq st)"
    using events_invD(3) [OF ev] unfolding events_inv_def ent by blast
  then show ?thesis using inv
    unfolding log_step_def log_inv_def events_of_def ent contents(6) contents(1) meta_inv_def by simp
qed

text \<open>Expiry removes only idempotency keys.\<close>

lemma collected_keys:
  "scanned kvs es \<Longrightarrow> collect_keys mark es = Inr ks \<Longrightarrow> set ks \<subseteq> fst ` set kvs"
proof (induction kvs arbitrary: es ks)
  case (Cons kv kvs)
  obtain k v where kv: "kv = (k, v)" by force
  from scanned_Cons [OF Cons.prems(1)] Cons.prems(2) kv obtain items where es: "es = Inr (k, v) # items" "scanned kvs items" by auto
  with Cons.prems(2) obtain ks' where "collect_keys mark items = Inr ks'" "set ks \<subseteq> insert k (set ks')"
    by (auto simp: map_sum_def split: sum.splits if_splits)
  with Cons.IH [OF es(2)] kv show ?case by auto
qed (auto dest: scanned_Nil)

lemma remove_keys_step:
  assumes ok: "log_env_ok env view" and inv: "log_inv env plain (view (es_db st)) (es_seq st)"
    and ks: "collect_keys mark (lg_prefix env (es_db st) MetaPart ''meta:idempotency:'') = Inr ks"
    and run: "remove_meta_keys env ks st = (st', Inr removed)"
  shows "log_step env plain (view (es_db st)) (es_seq st) (view (es_db st')) (es_seq st') []"
proof -
  let ?m = "view (es_db st)" and ?m' = "view (es_db st')"
  obtain kvs where kvs: "\<And>k v. (k, v) \<in> set kvs \<longleftrightarrow> ?m MetaPart k = Some v \<and> starts_with k ''meta:idempotency:''"
    "scanned kvs (lg_prefix env (es_db st) MetaPart ''meta:idempotency:'')"
    using scanned_prefix [OF ok, of "es_db st" MetaPart "''meta:idempotency:''"] by metis
  have prefix: "starts_with k ''meta:idempotency:''" if "k \<in> set ks" for k
    using collected_keys [OF kvs(2) ks] that kvs(1) by fastforce
  have seq: "es_seq st' = es_seq st" and view': "?m' = ?m(MetaPart := (\<lambda>k. if k \<in> set ks then None else ?m MetaPart k))"
    using run by (auto simp: remove_meta_keys_def fun_eq_iff split: if_splits elim!: commit_log_cases [OF ok])
  have "\<not> starts_with ''meta:seq'' ''meta:idempotency:''" "\<not> starts_with (queue_materialization_key k) ''meta:idempotency:''" for k
    by (simp_all add: starts_with_def queue_materialization_key_def)
  then have "''meta:seq'' \<notin> set ks" "queue_materialization_key k \<notin> set ks" for k using prefix by blast+
  then show ?thesis using inv
    unfolding log_step_def log_inv_def events_of_def view' seq meta_inv_def by auto
qed

end
