(* ===== verification/Event_Log_Instance.thy ===== *)
theory Event_Log_Instance
  imports Event_Log_Props
begin

text \<open>
  A database and a codec that satisfy \<open>log_env_ok\<close>: association lists for the partitions, and
  bytes for the envelopes of a few events. The witnesses of the event log run on it.
\<close>

type_synonym demo_db = "partition \<Rightarrow> (string \<times> string) list"

definition demo_created :: event where
  "demo_created = \<lparr>ev_kind = TaskCreated ''T1'', ev_timestamp = 1000, ev_aggregate_id = ''T1''\<rparr>"

definition demo_assigned :: event where
  "demo_assigned = \<lparr>ev_kind = TaskAssigned ''T1'' ''A1'', ev_timestamp = 2000, ev_aggregate_id = ''T1''\<rparr>"

definition demo_envelopes :: "(event_envelope \<times> string) list" where
  "demo_envelopes =
     [(build_event_envelope demo_created 1 None, ''1''),
      (build_event_envelope demo_assigned 2 (Some ''k''), ''2''),
      (build_event_envelope demo_created 3 None, ''3'')]"

fun demo_op :: "log_op \<Rightarrow> demo_db \<Rightarrow> demo_db" where
  "demo_op (LogInsert p k v) db = db(p := AList.update k v (db p))"
| "demo_op (LogRemove p k) db = db(p := AList.delete k (db p))"

definition demo_scan :: "demo_db \<Rightarrow> partition \<Rightarrow> string \<Rightarrow> (string \<times> string) list" where
  "demo_scan db p pre = sort_key fst (filter (\<lambda>(k, v). starts_with k pre) (AList.clearjunk (db p)))"

definition demo_log :: "demo_db log_env" where
  "demo_log =
     \<lparr>lg_get = (\<lambda>db p k. Inr (map_of (db p) k)),
      lg_prefix = (\<lambda>db p pre. map Inr (demo_scan db p pre)),
      lg_last = (\<lambda>db p pre. Inr (if demo_scan db p pre = [] then None else Some (last (demo_scan db p pre)))),
      lg_commit = (\<lambda>ops db. Inr (fold demo_op ops db)),
      lg_encode = (\<lambda>e. case map_of demo_envelopes e of None \<Rightarrow> Inl ''unsupported'' | Some b \<Rightarrow> Inr b),
      lg_decode = (\<lambda>b. case map_of (map prod.swap demo_envelopes) b of None \<Rightarrow> Inl ''malformed'' | Some e \<Rightarrow> Inr e)\<rparr>"

definition demo_view :: "demo_db \<Rightarrow> contents" where
  "demo_view db p = map_of (db p)"

definition demo_empty :: demo_db where
  "demo_empty p = []"

lemma demo_view_empty: "demo_view demo_empty = (\<lambda>p. Map.empty)"
  by (simp add: demo_view_def demo_empty_def fun_eq_iff)

lemma demo_view_op: "demo_view (demo_op op db) = apply_log_op op (demo_view db)"
  by (cases op) (auto simp: demo_view_def fun_eq_iff update_conv' delete_conv')

lemma demo_view_ops: "demo_view (fold demo_op ops db) = apply_log_ops ops (demo_view db)"
  by (induction ops arbitrary: db) (simp_all add: demo_view_op del: demo_op.simps apply_log_op.simps)

lemma demo_scan_exact:
  "sorted_wrt (<) (map fst (demo_scan db p pre))" "(k, v) \<in> set (demo_scan db p pre) \<longleftrightarrow> demo_view db p k = Some v \<and> starts_with k pre"
proof -
  have dist: "distinct (map fst (AList.clearjunk (db p)))" by (rule distinct_clearjunk)
  from distinct_map_filter [OF this] have "distinct (map fst (demo_scan db p pre))" unfolding demo_scan_def distinct_map by simp
  then show "sorted_wrt (<) (map fst (demo_scan db p pre))" by (simp add: strict_sorted_iff demo_scan_def)
  show "(k, v) \<in> set (demo_scan db p pre) \<longleftrightarrow> demo_view db p k = Some v \<and> starts_with k pre"
    using map_of_eq_Some_iff [OF dist, of k v] by (auto simp: demo_scan_def demo_view_def map_of_clearjunk)
qed

lemma last_sorted:
  fixes xs :: "(string \<times> string) list"
  assumes "sorted_wrt (<) (map fst xs)" "x \<in> set xs"
  shows "fst x \<le> fst (last xs)"
  using assms by (induction xs) (auto simp: less_imp_le)

lemma demo_log_ok: "log_env_ok demo_log demo_view"
proof -
  have scan: "scan_ok (demo_view db p) pre (map Inr (demo_scan db p pre))" for db p pre
    unfolding scan_ok_def by (intro exI [of _ "demo_scan db p pre"]) (auto simp: demo_scan_exact)
  have none: "demo_view db p k = None" if "demo_scan db p pre = []" "starts_with k pre" for db p pre k
    using demo_scan_exact(2) [of k _ db p pre] that by (cases "demo_view db p k") auto
  have some: "demo_view db p (fst x) = Some (snd x) \<and> starts_with (fst x) pre \<and>
      (\<forall>k'. starts_with k' pre \<and> demo_view db p k' \<noteq> None \<longrightarrow> k' \<le> fst x)"
    if "x = last (demo_scan db p pre)" "demo_scan db p pre \<noteq> []" for db p pre x
  proof -
    have "x \<in> set (demo_scan db p pre)" using that by simp
    moreover have "k' \<le> fst x" if "starts_with k' pre" "demo_view db p k' \<noteq> None" for k'
      using last_sorted [OF demo_scan_exact(1), of "(k', the (demo_view db p k'))" db p pre] that
        demo_scan_exact(2) [of k' "the (demo_view db p k')" db p pre] \<open>x = last (demo_scan db p pre)\<close> by auto
    ultimately show ?thesis using demo_scan_exact(2) [of "fst x" "snd x" db p pre] by simp
  qed
  have codec: "lg_decode demo_log b = Inr e" if "lg_encode demo_log e = Inr b" for e b
    using that by (auto simp: demo_log_def demo_envelopes_def split: if_splits)
  show ?thesis
    unfolding log_env_ok_def
  proof (intro conjI allI impI)
    fix db p pre r assume "lg_last demo_log db p pre = Inr r"
    then show "case r of None \<Rightarrow> \<forall>k. starts_with k pre \<longrightarrow> demo_view db p k = None
        | Some (k, v) \<Rightarrow> demo_view db p k = Some v \<and> starts_with k pre \<and>
            (\<forall>k'. starts_with k' pre \<and> demo_view db p k' \<noteq> None \<longrightarrow> k' \<le> k)"
      using some [OF refl, of db p pre] none [of db p pre]
      by (cases "last (demo_scan db p pre)") (auto simp: demo_log_def split: if_splits)
  qed (auto simp: demo_log_def demo_view_def [symmetric] demo_view_ops scan intro: codec [unfolded demo_log_def, simplified])
qed

text \<open>The operations of the concrete store through its contents.\<close>

lemma demo_log_simps [simp]:
  "lg_get demo_log db p k = Inr (demo_view db p k)"
  "lg_commit demo_log ops db = Inr (fold demo_op ops db)"
  "lg_last demo_log db p pre = Inr (if demo_scan db p pre = [] then None else Some (last (demo_scan db p pre)))"
  "lg_encode demo_log (build_event_envelope demo_created (Suc 0) None) = Inr ''1''"
  "lg_encode demo_log (build_event_envelope demo_assigned (Suc (Suc 0)) (Some ''k'')) = Inr ''2''"
  "lg_encode demo_log (build_event_envelope demo_created (Suc (Suc (Suc 0))) None) = Inr ''3''"
  by (simp_all add: demo_log_def demo_view_def demo_envelopes_def numeral_2_eq_2 numeral_3_eq_3 build_event_envelope_def demo_created_def demo_assigned_def)

lemma demo_kinds [simp]: "ev_kind demo_created = TaskCreated ''T1''" "ev_kind demo_assigned = TaskAssigned ''T1'' ''A1''"
  by (simp_all add: demo_created_def demo_assigned_def)

end
