(* ===== verification/Event_Log_History.thy ===== *)
theory Event_Log_History
  imports Event_Log_Instance
begin

text \<open>
  Histories of the event log: sequences of the writing operations of \<open>store.rs\<close>, each with
  its result. Whatever failed in between, the store holds the acknowledged events in the order
  of their acknowledgement, archived or not, and a restart resumes after the last of them.
\<close>

datatype 'db log_action =
  LogAppend event "string option"
| LogEnqueue event string string "string option"
| LogAtomic "event list" bool "'db \<Rightarrow> (store_error, (string \<times> string) list) result"
| LogRetain event_id
| LogPrune nat
| LogExpire time

fun log_exec :: "'db log_env \<Rightarrow> 'db log_action \<Rightarrow> 'db event_store \<Rightarrow> ('db, event_id list) store_result" where
  "log_exec env (LogAppend ev key) st = map_prod id (map_sum id (\<lambda>n. [n])) (append_event_inner env ev key st)"
| "log_exec env (LogEnqueue ev q item key) st = map_prod id (map_sum id (\<lambda>n. [n])) (append_and_enqueue env ev q item key st)"
| "log_exec env (LogAtomic evs has_views stage_views) st = append_atomic env evs has_views stage_views st"
| "log_exec env (LogRetain before) st = map_prod id (map_sum id (\<lambda>_. [])) (retain_events env before st)"
| "log_exec env (LogPrune cutoff) st = map_prod id (map_sum id (\<lambda>_. [])) (prune_idempotency_keys env cutoff st)"
| "log_exec env (LogExpire cutoff) st = map_prod id (map_sum id (\<lambda>_. [])) (expire_idempotency_keys env cutoff st)"

fun action_events :: "'db log_action \<Rightarrow> event list" where
  "action_events (LogAppend ev _) = [ev]"
| "action_events (LogEnqueue ev _ _ _) = [ev]"
| "action_events (LogAtomic evs _ _) = evs"
| "action_events _ = []"

fun action_key :: "'db log_action \<Rightarrow> string option" where
  "action_key (LogAppend _ key) = key"
| "action_key (LogEnqueue _ _ _ key) = key"
| "action_key _ = None"

text \<open>Idempotency keys of plain appends and of enqueuing appends are kept apart.\<close>

fun action_ok :: "(string \<Rightarrow> bool) \<Rightarrow> 'db log_action \<Rightarrow> bool" where
  "action_ok plain (LogAppend _ key) = pred_option plain key"
| "action_ok plain (LogEnqueue _ _ _ key) = pred_option (\<lambda>k. \<not> plain k) key"
| "action_ok plain _ = True"

fun action_expires :: "'db log_action \<Rightarrow> bool" where
  "action_expires (LogPrune _) = True"
| "action_expires (LogExpire _) = True"
| "action_expires _ = False"

text \<open>The events an operation acknowledged as new: those it numbered from the counter on.\<close>

definition acked :: "'db log_action \<Rightarrow> nat \<Rightarrow> (store_error, event_id list) result \<Rightarrow> event list" where
  "acked a seq res =
     (case res of Inl _ \<Rightarrow> [] | Inr ids \<Rightarrow> if ids = [Suc seq..<Suc (seq + length (action_events a))] then action_events a else [])"

primrec log_run :: "'db log_env \<Rightarrow> 'db log_action list \<Rightarrow> 'db event_store \<Rightarrow> 'db event_store \<times> event list" where
  "log_run env [] st = (st, [])"
| "log_run env (a # as) st =
     (let (st1, res) = log_exec env a st; (st2, evs) = log_run env as st1 in (st2, acked a (es_seq st) res @ evs))"

definition action_total :: "'db log_action list \<Rightarrow> nat" where
  "action_total as = sum_list (map (\<lambda>a. length (action_events a)) as)"

lemma keyed_exec_step:
  assumes ok: "log_env_ok env view" and inv: "log_inv env plain (view (es_db st)) (es_seq st)" and bound: "es_seq st \<le> u64_max"
    and out: "append_outcome env plain view ev key st out" and run: "map_prod id (map_sum id (\<lambda>n. [n])) out = (st', res)"
    and a: "action_events a = [ev]"
  shows "log_step env plain (view (es_db st)) (es_seq st) (view (es_db st')) (es_seq st') (acked a (es_seq st) res)"
proof -
  obtain r where r: "out = (st', r)" "res = map_sum id (\<lambda>n. [n]) r" using run by (cases out) auto
  with out consider e where "r = Inl e" "st' = st" | "r = Inr (Suc (es_seq st))"
      "log_step env plain (view (es_db st)) (es_seq st) (view (es_db st')) (es_seq st') [ev]"
    | n where "r = Inr n" "n \<le> es_seq st" "st' = st" unfolding append_outcome_def by auto
  then show ?thesis using r(2) a log_step_refl [OF inv] by cases (auto simp: acked_def)
qed

lemma expire_exec_step:
  assumes ok: "log_env_ok env view" and inv: "log_inv env plain (view (es_db st)) (es_seq st)"
    and run: "(case collect_keys mark (lg_prefix env (es_db st) MetaPart ''meta:idempotency:'') of
        Inl e \<Rightarrow> (st, Inl e) | Inr ks \<Rightarrow> remove_meta_keys env ks st) = out"
  shows "log_step env plain (view (es_db st)) (es_seq st) (view (es_db (fst out))) (es_seq (fst out)) []"
proof (cases "\<exists>ks n. collect_keys mark (lg_prefix env (es_db st) MetaPart ''meta:idempotency:'') = Inr ks \<and> snd out = Inr n")
  case True
  with run show ?thesis by (cases out) (auto intro: remove_keys_step [OF ok inv])
next
  case False
  with run have "fst out = st"
    by (auto simp: remove_meta_keys_def commit_log_def split: sum.splits if_splits)
  then show ?thesis using log_step_refl [OF inv] by simp
qed

lemma acked_none [simp]: "action_events a = [] \<Longrightarrow> acked a seq res = []"
  by (simp add: acked_def split: sum.split)

lemma archive_exec_step:
  assumes ok: "log_env_ok env view" and inv: "log_inv env plain (view (es_db st)) (es_seq st)" and bound: "es_seq st \<le> u64_max"
    and run: "archive_events_before env cutoff st = (st', res)"
  shows "log_step env plain (view (es_db st)) (es_seq st) (view (es_db st')) (es_seq st') []"
proof (cases res)
  case (Inl e)
  with run have "st' = st" by (auto simp: archive_events_before_def commit_log_def split: sum.splits)
  then show ?thesis using log_step_refl [OF inv] by simp
next
  case (Inr n)
  with archive_step [OF ok inv bound] run show ?thesis by simp
qed

lemma log_exec_step:
  assumes ok: "log_env_ok env view" and inv: "log_inv env plain (view (es_db st)) (es_seq st)" and bound: "es_seq st \<le> u64_max"
    and a: "action_ok plain a" and run: "log_exec env a st = (st', res)"
  shows "log_step env plain (view (es_db st)) (es_seq st) (view (es_db st')) (es_seq st') (acked a (es_seq st) res)"
proof (cases a)
  case (LogAppend ev key)
  show ?thesis
    by (rule keyed_exec_step [OF ok inv bound append_event_step [OF ok inv bound, of key ev]])
      (use a run LogAppend in auto)
next
  case (LogEnqueue ev q item key)
  show ?thesis
    by (rule keyed_exec_step [OF ok inv bound enqueue_step [OF ok inv bound, of key ev q item]])
      (use a run LogEnqueue in auto)
next
  case (LogAtomic evs has_views stage_views)
  with run atomic_step [OF ok inv, of evs has_views stage_views st' res] log_step_refl [OF inv] show ?thesis
    by (auto simp: acked_def split: sum.splits)
next
  case (LogRetain before)
  with run archive_exec_step [OF ok inv bound, of "before - 1" st'] show ?thesis
    by (cases "archive_events_before env (before - 1) st") (simp add: retain_events_def)
next
  case (LogPrune cutoff)
  with run have "st' = fst (prune_idempotency_keys env cutoff st)" by (cases "prune_idempotency_keys env cutoff st") simp
  with LogPrune expire_exec_step [OF ok inv prune_idempotency_keys_def [symmetric]] show ?thesis by simp
next
  case (LogExpire cutoff)
  with run have "st' = fst (expire_idempotency_keys env cutoff st)" by (cases "expire_idempotency_keys env cutoff st") simp
  with LogExpire expire_exec_step [OF ok inv expire_idempotency_keys_def [symmetric]] show ?thesis by simp
qed

lemma log_run_step:
  assumes "log_env_ok env view" "log_inv env plain (view (es_db st)) (es_seq st)" "list_all (action_ok plain) as"
    and "es_seq st + action_total as \<le> u64_max" "log_run env as st = (st', evs)"
  shows "log_step env plain (view (es_db st)) (es_seq st) (view (es_db st')) (es_seq st') evs"
  using assms(2-)
proof (induction as arbitrary: st evs)
  case Nil
  then show ?case using log_step_refl by auto
next
  case (Cons a as)
  obtain st1 res where run: "log_exec env a st = (st1, res)" by force
  obtain evs2 where rest: "log_run env as st1 = (st', evs2)" "evs = acked a (es_seq st) res @ evs2"
    using Cons.prems(4) run by (cases "log_run env as st1") auto
  have step: "log_step env plain (view (es_db st)) (es_seq st) (view (es_db st1)) (es_seq st1) (acked a (es_seq st) res)"
    by (rule log_exec_step [OF assms(1) Cons.prems(1) _ _ run]) (use Cons.prems(2,3) in auto)
  have "length (acked a (es_seq st) res) \<le> length (action_events a)" by (simp add: acked_def split: sum.split)
  with step Cons.prems(3) have "es_seq st1 + action_total as \<le> u64_max" "log_inv env plain (view (es_db st1)) (es_seq st1)"
    by (auto simp: log_step_def action_total_def)
  with Cons.IH rest Cons.prems(2) have "log_step env plain (view (es_db st1)) (es_seq st1) (view (es_db st')) (es_seq st') evs2" by simp
  with step rest(2) show ?case using log_step_trans by metis
qed

subsection \<open>Reading the log back\<close>

lemma read_entry_exact:
  assumes ok: "log_env_ok env view" and ent: "entry env (view db EventsPart) (view db ArchivePart) n = Some e"
  shows "read_entry env db n = Inr (Some e) \<or>
    (\<exists>err p k x. read_entry env db n = Inl err \<and> lg_get env db p k = Inl x)"
proof (cases "log_get env db EventsPart (log_key n)")
  case (Inl err)
  then show ?thesis by (auto simp: read_entry_def log_get_def map_sum_def split: sum.splits)
next
  case (Inr r)
  note hot = log_get_view [OF ok Inr]
  show ?thesis
  proof (cases r)
    case None
    then show ?thesis using Inr hot ent log_get_view [OF ok, of db ArchivePart "archive_key n"]
      by (cases "log_get env db ArchivePart (archive_key n)")
        (auto simp: read_entry_def entry_def log_get_def map_sum_def split: sum.splits option.splits)
  next
    case (Some b)
    with Inr hot ent show ?thesis by (auto simp: read_entry_def entry_def split: option.splits sum.splits)
  qed
qed

lemma read_entries_exact:
  assumes ok: "log_env_ok env view" and inv: "log_inv env plain (view db) seq" and ns: "\<forall>n \<in> set ns. 1 \<le> n \<and> n \<le> seq"
  shows "read_entries env db ns = Inr (map (\<lambda>n. (events_of env (view db) seq ! (n - 1), n)) ns) \<or>
    (\<exists>err p k x. read_entries env db ns = Inl err \<and> lg_get env db p k = Inl x)"
  using ns
proof (induction ns)
  case (Cons n ns)
  then have n: "1 \<le> n" "n \<le> seq" by auto
  from inv n obtain e where e: "entry env (view db EventsPart) (view db ArchivePart) n = Some e" "ee_event_id e = n"
    unfolding log_inv_def events_inv_def by blast
  have "events_of env (view db) seq ! (n - 1) = ee_event e"
    using n e(1) by (simp add: events_of_def del: upt_Suc)
  with read_entry_exact [OF ok e(1)] e(2) Cons show ?case by auto
qed simp

lemma log_env_last:
  assumes "log_env_ok env view" "lg_last env db p pre = Inr r"
  shows "case r of
      None \<Rightarrow> \<forall>k. starts_with k pre \<longrightarrow> view db p k = None
    | Some (k, v) \<Rightarrow> view db p k = Some v \<and> starts_with k pre"
  using assms unfolding log_env_ok_def by (fastforce split: option.splits)

lemma load_seq_exact:
  assumes ok: "log_env_ok env view" and inv: "log_inv env plain (view db) seq" and bound: "seq \<le> u64_max"
    and load: "load_seq env db = Inr n"
  shows "n = seq"
proof -
  have meta: "view db MetaPart ''meta:seq'' = (if seq = 0 then None else Some (to_be_bytes seq))"
    and ev: "events_inv env (view db EventsPart) (view db ArchivePart) seq"
    using inv by (simp_all add: log_inv_def meta_inv_def)
  obtain stored_seq where get: "log_get env db MetaPart ''meta:seq'' = Inr stored_seq"
    using load by (auto simp: load_seq_def split: sum.splits)
  have "(case stored_seq of None \<Rightarrow> Inr 0 | Some bytes \<Rightarrow> (case from_be_bytes bytes of
      None \<Rightarrow> Inl (StoreStorage ''Invalid sequence number format'') | Some n \<Rightarrow> Inr n)) = (Inr seq :: (store_error, nat) result)"
    using log_get_view [OF ok get] meta from_to_be_bytes_exact [OF bound] by simp
  with load get obtain h where h: "load_high_water_mark env db = Inr h" "n = max seq h"
    by (auto simp: load_seq_def map_sum_def split: sum.splits)
  have "h \<le> seq"
  proof (cases "\<exists>k v. lg_last env db EventsPart ''log:'' = Inr (Some (k, v))")
    case True
    then obtain k v where k: "lg_last env db EventsPart ''log:'' = Inr (Some (k, v))" by blast
    with log_env_last [OF ok k] events_invD(1,4) [OF ev] obtain j where "k = log_key j" "j \<le> seq" by fastforce
    with h(1) k bound parse_log_key [of j] show ?thesis by (simp add: load_high_water_mark_def)
  next
    case False
    with h(1) show ?thesis by (auto simp: load_high_water_mark_def split: sum.splits option.splits)
  qed
  with h(2) show ?thesis by simp
qed

definition fresh_store :: "'db \<Rightarrow> 'db event_store" where
  \<comment> \<open>an opened store over an empty database\<close>
  "fresh_store db = \<lparr>es_db = db, es_seq = 0\<rparr>"

lemma run_length: "length (snd (log_run env as s)) \<le> action_total as"
proof (induction as arbitrary: s)
  case (Cons a as)
  obtain s1 r where "log_exec env a s = (s1, r)" by force
  moreover have "length (acked a (es_seq s) r) \<le> length (action_events a)" by (simp add: acked_def split: sum.split)
  ultimately show ?case using Cons.IH [of s1] by (auto simp: action_total_def split: prod.splits)
qed simp

lemma fresh_history:
  assumes "log_env_ok env view" "view db0 = (\<lambda>p. Map.empty)" "list_all (action_ok plain) as" "action_total as \<le> u64_max"
    and "log_run env as (fresh_store db0) = (st, evs)"
  shows "log_inv env plain (view (es_db st)) (es_seq st)" "es_seq st = length evs" "events_of env (view (es_db st)) (es_seq st) = evs"
    "length evs \<le> action_total as"
proof -
  have step: "log_step env plain (view db0) 0 (view (es_db st)) (es_seq st) evs"
    using log_run_step [OF assms(1) _ assms(3), of "fresh_store db0" st evs] assms(2,4,5) log_inv_empty [of env plain]
    by (simp add: fresh_store_def)
  then show "log_inv env plain (view (es_db st)) (es_seq st)" "es_seq st = length evs" "events_of env (view (es_db st)) (es_seq st) = evs"
    unfolding log_step_def events_of_empty append_Nil add_0 by blast+
  show "length evs \<le> action_total as" using run_length [of env as "fresh_store db0"] assms(5) by simp
qed

lemma consecutive_part:
  "map (\<lambda>n. (evs ! (n - 1), n)) [Suc s..<min (Suc s + limit) (Suc (length evs))] = take limit (drop s (map prod.swap (enumerate 1 evs)))"
proof (rule nth_equalityI, goal_cases)
  case (2 i)
  then have "i < limit" "s + i < length evs" by (auto simp: min_def simp del: upt_Suc split: if_splits)
  with 2 show ?case by (simp add: nth_enumerate_eq del: upt_Suc)
qed (auto simp: min_def simp del: upt_Suc)

text \<open>The requests whose bounds do not fit in 64 bits.\<close>

definition stream_overflows :: "event_id option \<Rightarrow> nat \<Rightarrow> nat \<Rightarrow> bool" where
  "stream_overflows since limit seq \<longleftrightarrow>
     (let start = (case since of None \<Rightarrow> 0 | Some n \<Rightarrow> n) + 1 in
      u64_max < start \<or> (start \<le> seq \<and> (u64_max < start + limit \<or> u64_max < seq + 1)))"

lemma stream_exact:
  assumes ok: "log_env_ok env view" and inv: "log_inv env plain (view (es_db st)) (es_seq st)"
    and evs: "events_of env (view (es_db st)) (es_seq st) = evs"
  shows "if stream_overflows since limit (length evs) then stream env since limit st = None
    else stream env since limit st =
        Some (Inr (take limit (drop (case since of None \<Rightarrow> 0 | Some n \<Rightarrow> n) (map prod.swap (enumerate 1 evs))))) \<or>
      (\<exists>err p k x. stream env since limit st = Some (Inl err) \<and> lg_get env (es_db st) p k = Inl x)"
proof -
  let ?s = "case since of None \<Rightarrow> 0 | Some n \<Rightarrow> n"
  let ?ns = "[Suc ?s..<min (Suc ?s + limit) (Suc (es_seq st))]"
  have len: "es_seq st = length evs" using evs length_events_of by metis
  have stream: "stream env since limit st =
      (if stream_overflows since limit (es_seq st) then None
       else if es_seq st < Suc ?s then Some (Inr []) else Some (read_entries env (es_db st) ?ns))"
    by (cases since) (auto simp: stream_def stream_overflows_def Let_def)
  note part = consecutive_part [of evs ?s limit, folded len]
  show ?thesis
  proof (cases "stream_overflows since limit (es_seq st) \<or> es_seq st < Suc ?s")
    case True
    then show ?thesis unfolding stream using len by auto
  next
    case False
    have "\<forall>n \<in> set ?ns. 1 \<le> n \<and> n \<le> es_seq st" by auto
    from read_entries_exact [OF ok inv this] have "read_entries env (es_db st) ?ns =
          Inr (take limit (drop ?s (map prod.swap (enumerate 1 evs)))) \<or>
        (\<exists>err p k x. read_entries env (es_db st) ?ns = Inl err \<and> lg_get env (es_db st) p k = Inl x)"
      unfolding evs part .
    then show ?thesis using False len by (auto simp: stream)
  qed
qed

text \<open>
  C14: after any history of appends, atomic batches, retention and expiry on an empty store,
  with failures anywhere, a subscriber reads exactly the acknowledged events, consecutively
  numbered from the one after \<open>since\<close>, at most \<open>limit\<close> of them and whether or not they have been
  archived; a read returns an error only when the database fails, and it panics exactly when the
  bounds of the requested range do not fit in 64 bits: a position of \<open>u64::MAX\<close>, or, while there
  are events after the position, a limit such as \<open>usize::MAX\<close>.
\<close>

theorem stream_history:
  assumes "log_env_ok env view" "view db0 = (\<lambda>p. Map.empty)" "list_all (action_ok plain) as" "action_total as \<le> u64_max"
    and "log_run env as (fresh_store db0) = (st, evs)"
  shows "if stream_overflows since limit (length evs) then stream env since limit st = None
    else stream env since limit st =
        Some (Inr (take limit (drop (case since of None \<Rightarrow> 0 | Some n \<Rightarrow> n) (map prod.swap (enumerate 1 evs))))) \<or>
      (\<exists>err p k x. stream env since limit st = Some (Inl err) \<and> lg_get env (es_db st) p k = Inl x)"
  using stream_exact [OF assms(1) fresh_history(1,3) [OF assms]] .

text \<open>
  C15: a store reopened after any such history continues with the number after the last
  acknowledged event, also when all events have been archived.
\<close>

theorem restart_resumes:
  assumes "log_env_ok env view" "view db0 = (\<lambda>p. Map.empty)" "list_all (action_ok plain) as" "action_total as \<le> u64_max"
    and "log_run env as (fresh_store db0) = (st, evs)" "load_seq env (es_db st) = Inr n"
  shows "n = es_seq st \<and> n = length evs \<and> high_water_mark st = n"
  using load_seq_exact [OF assms(1) fresh_history(1) [OF assms(1-5)] _ assms(6)] fresh_history(2,4) [OF assms(1-5)] assms(4)
  by (simp add: high_water_mark_def)

subsection \<open>Idempotency\<close>

definition recorded :: "contents \<Rightarrow> string \<Rightarrow> nat \<Rightarrow> bool" where
  "recorded m k n \<longleftrightarrow> m MetaPart (idempotency_key k) = Some (to_be_bytes n)"

lemma append_new_records:
  assumes ok: "log_env_ok env view" and run: "append_new env ev key extra st = (st', Inr n)"
    and extra: "extra = (\<lambda>_. []) \<or> extra = enqueue_ops q item key"
  shows "view (es_db st') MetaPart (idempotency_key k) =
    (if key = Some k then Some (to_be_bytes n) else view (es_db st) MetaPart (idempotency_key k))"
proof -
  let ?s = "Suc (es_seq st)" and ?m = "view (es_db st)"
  from run obtain bytes index where index: "index_ops env (es_db st) ev ?s = Inr index"
    and commit: "commit_log env (LogInsert EventsPart (log_key ?s) bytes # index @ [LogInsert MetaPart ''meta:seq'' (to_be_bytes ?s)] @
        (case key of None \<Rightarrow> [] | Some k \<Rightarrow> [LogInsert MetaPart (idempotency_key k) (to_be_bytes ?s)]) @ extra ?s) ?s ?s st = (st', Inr n)"
    by (auto simp: append_new_def Let_def split: sum.splits)
  from index obtain start where start: "index = map (\<lambda>k. LogInsert EventsPart k []) (make_index_keys ev ?s) @ start"
    "start = [] \<or> start = [LogInsert MetaPart ''meta:index_start_seq'' (to_be_bytes ?s)]" by (rule index_ops_cases)
  from ok commit show ?thesis
    by (cases rule: commit_log_cases) (use extra start in \<open>auto simp: enqueue_ops_def split: option.splits\<close>)
qed

lemma check_records:
  assumes "log_env_ok env view" "check_idempotency env db (Some k) = Inr None"
  shows "view db MetaPart (idempotency_key k) = None"
  using assms(2) log_get_view [OF assms(1)] by (fastforce simp: check_idempotency_def split: sum.splits option.splits)

lemma check_recorded:
  assumes "log_env_ok env view" "recorded (view db) k n" "n \<le> u64_max"
  shows "check_idempotency env db (Some k) = Inr (Some n) \<or>
    (\<exists>x. lg_get env db MetaPart (idempotency_key k) = Inl x \<and> check_idempotency env db (Some k) = Inl (StoreStorage x))"
proof (cases "log_get env db MetaPart (idempotency_key k)")
  case (Inr r)
  from log_get_view [OF assms(1) Inr] assms(2) Inr from_to_be_bytes_exact [OF assms(3)] show ?thesis
    by (simp add: check_idempotency_def recorded_def)
next
  case (Inl e)
  then show ?thesis by (auto simp: check_idempotency_def log_get_def map_sum_def split: sum.splits)
qed

lemma append_new_failed: "append_new env ev key extra st = (st', Inl e) \<Longrightarrow> st' = st"
  by (auto simp: append_new_def commit_log_def Let_def split: sum.splits)

lemma append_new_keeps:
  assumes ok: "log_env_ok env view" and run: "append_new env ev key extra st = (st', res)"
    and extra: "extra = (\<lambda>_. []) \<or> extra = enqueue_ops q item key" and check: "check_idempotency env (es_db st) key = Inr None"
    and rec: "recorded (view (es_db st)) k n"
  shows "recorded (view (es_db st')) k n"
proof -
  have "key \<noteq> Some k" using check check_records [OF ok, of "es_db st" k] rec by (auto simp: recorded_def)
  then show ?thesis using run rec append_new_records [OF ok _ extra, of ev st st'] append_new_failed [of env ev key extra st st']
    by (cases res) (auto simp: recorded_def)
qed

lemma stage_meta: "stage_events env evs seq = Inr ops \<Longrightarrow> apply_log_ops ops m MetaPart = m MetaPart"
  by (induction evs arbitrary: seq ops m) (auto simp: map_sum_def split: sum.splits)

lemma atomic_keeps:
  assumes ok: "log_env_ok env view" and run: "append_atomic env evs has_views stage_views st = (st', res)"
    and rec: "recorded (view (es_db st)) k n"
  shows "recorded (view (es_db st')) k n"
proof (cases "st' = st")
  case False
  with run obtain ops start views where stage: "stage_events env evs (es_seq st) = Inr ops"
    and start: "(case first_indexed evs (es_seq st) of None \<Rightarrow> Inr [] | Some n \<Rightarrow> set_index_start_seq_if_needed env (es_db st) n) = Inr start"
    and commit: "commit_log env (ops @ start @ [LogInsert MetaPart ''meta:seq'' (to_be_bytes (es_seq st + length evs))] @
        (if has_views then [LogInsert MetaPart ''meta:views:last_event_id'' (to_be_bytes (es_seq st + length evs))] else []) @
        map (\<lambda>(k, v). LogInsert ViewsPart k v) views) (es_seq st + length evs) [Suc (es_seq st)..<Suc (es_seq st + length evs)] st = (st', res)"
    by (auto simp: append_atomic_def Let_def split: if_splits sum.splits)
  have "start = [] \<or> (\<exists>n. start = [LogInsert MetaPart ''meta:index_start_seq'' (to_be_bytes n)])"
    using start index_start_cases by (fastforce split: option.splits)
  with ok commit rec False show ?thesis
    by (cases rule: commit_log_cases) (auto simp: recorded_def apply_inserts_other stage_meta [OF stage])
qed (use rec in simp)

lemma enqueue_keeps:
  assumes ok: "log_env_ok env view" and run: "append_and_enqueue env ev q item key st = (st', res)"
    and rec: "recorded (view (es_db st)) k n"
  shows "recorded (view (es_db st')) k n"
proof (cases "check_idempotency env (es_db st) key = Inr None")
  case True
  with run append_new_keeps [OF ok _ _ True rec, of ev "enqueue_ops q item key" st' res q item] show ?thesis
    by (simp add: append_and_enqueue_def)
next
  case False
  show ?thesis
  proof (cases "es_db st' = es_db st")
    case False
    with run \<open>check_idempotency env (es_db st) key \<noteq> Inr None\<close> obtain j index where index: "index_ops env (es_db st) ev j = Inr index"
      and commit: "commit_log env (enqueue_ops q item key j @ index) (max (es_seq st) j) j st = (st', res)"
      by (auto simp: append_and_enqueue_def split: sum.splits option.splits bool.splits)
    from index obtain start where start: "index = map (\<lambda>k. LogInsert EventsPart k []) (make_index_keys ev j) @ start"
      "start = [] \<or> start = [LogInsert MetaPart ''meta:index_start_seq'' (to_be_bytes j)]" by (rule index_ops_cases)
    from ok commit show ?thesis
      by (cases rule: commit_log_cases) (use start rec in \<open>auto simp: recorded_def enqueue_ops_def split: option.splits\<close>)
  qed (use rec in simp)
qed

lemma exec_keeps:
  assumes ok: "log_env_ok env view" and inv: "log_inv env plain (view (es_db st)) (es_seq st)" and bound: "es_seq st \<le> u64_max"
    and a: "\<not> action_expires a" and run: "log_exec env a st = (st', res)" and rec: "recorded (view (es_db st)) k n"
  shows "recorded (view (es_db st')) k n"
proof (cases a)
  case (LogAppend ev key)
  then obtain r where r: "append_event_inner env ev key st = (st', r)" using run by (cases "append_event_inner env ev key st") auto
  show ?thesis
  proof (cases "check_idempotency env (es_db st) key = Inr None")
    case True
    with r append_new_keeps [OF ok _ _ True rec, of ev "\<lambda>_. []" st' r] show ?thesis by (simp add: append_event_inner_def)
  next
    case False
    with r rec show ?thesis by (auto simp: append_event_inner_def split: sum.splits option.splits)
  qed
next
  case (LogEnqueue ev q item key)
  then show ?thesis using run enqueue_keeps [OF ok _ rec, of ev q item key st'] by (cases "append_and_enqueue env ev q item key st") auto
next
  case (LogAtomic evs has_views stage_views)
  with run atomic_keeps [OF ok _ rec] show ?thesis by simp
next
  case (LogRetain before)
  then obtain r where r: "archive_events_before env (before - 1) st = (st', r)"
    using run by (cases "archive_events_before env (before - 1) st") (auto simp: retain_events_def)
  show ?thesis
  proof (cases r)
    case (Inl e)
    with r rec show ?thesis by (auto simp: archive_events_before_def commit_log_def split: sum.splits)
  next
    case (Inr archived)
    with archive_contents(6) [OF ok inv bound] r rec show ?thesis by (simp add: recorded_def)
  qed
qed (use a in simp_all)

lemma run_keeps:
  assumes ok: "log_env_ok env view"
  shows "log_inv env plain (view (es_db st)) (es_seq st) \<Longrightarrow> list_all (action_ok plain) as \<Longrightarrow>
    es_seq st + action_total as \<le> u64_max \<Longrightarrow> list_all (\<lambda>a. \<not> action_expires a) as \<Longrightarrow> log_run env as st = (st', evs) \<Longrightarrow>
    recorded (view (es_db st)) k n \<Longrightarrow> recorded (view (es_db st')) k n"
proof (induction as arbitrary: st evs)
  case (Cons a as)
  obtain st1 res where run: "log_exec env a st = (st1, res)" by force
  obtain evs2 where rest: "log_run env as st1 = (st', evs2)" using Cons.prems(5) run by (cases "log_run env as st1") auto
  have step: "log_step env plain (view (es_db st)) (es_seq st) (view (es_db st1)) (es_seq st1) (acked a (es_seq st) res)"
    by (rule log_exec_step [OF ok Cons.prems(1) _ _ run]) (use Cons.prems(2,3) in auto)
  have "length (acked a (es_seq st) res) \<le> length (action_events a)" by (simp add: acked_def split: sum.split)
  with step Cons.prems(3) have "es_seq st1 + action_total as \<le> u64_max" "log_inv env plain (view (es_db st1)) (es_seq st1)"
    by (auto simp: log_step_def action_total_def)
  moreover have "recorded (view (es_db st1)) k n"
    by (rule exec_keeps [OF ok Cons.prems(1) _ _ run Cons.prems(6)]) (use Cons.prems(3,4) in auto)
  ultimately show ?case using Cons.IH [OF _ _ _ _ rest] Cons.prems(2,4) by simp
qed auto

lemma check_found:
  assumes ok: "log_env_ok env view" and inv: "log_inv env plain (view db) seq" and bound: "seq \<le> u64_max"
    and check: "check_idempotency env db (Some k) = Inr (Some n)"
  shows "recorded (view db) k n"
proof -
  from check obtain b where b: "log_get env db MetaPart (idempotency_key k) = Inr (Some b)" "from_be_bytes b = Some n"
    by (auto simp: check_idempotency_def split: sum.splits option.splits)
  note get = log_get_view [OF ok b(1), symmetric]
  then obtain j where "b = to_be_bytes j" "j \<le> seq" using inv unfolding log_inv_def meta_inv_def by blast
  with b(2) get bound from_to_be_bytes_exact [of j] show ?thesis by (simp add: recorded_def)
qed

lemma keyed_records:
  assumes ok: "log_env_ok env view" and inv: "log_inv env plain (view (es_db st)) (es_seq st)" and bound: "es_seq st \<le> u64_max"
    and key: "action_key a = Some k" and run: "log_exec env a st = (st', Inr [n])"
  shows "recorded (view (es_db st')) k n"
proof (cases "check_idempotency env (es_db st) (Some k)")
  case (Inl e)
  with key run show ?thesis by (cases a) (auto simp: append_event_inner_def append_and_enqueue_def)
next
  case (Inr found)
  show ?thesis
  proof (cases found)
    case None
    have fresh: "append_new env ev (Some k) extra st = (st', r) \<Longrightarrow> map_sum id (\<lambda>n. [n]) r = Inr [n] \<Longrightarrow>
        extra = (\<lambda>_. []) \<or> extra = enqueue_ops q item (Some k) \<Longrightarrow> ?thesis" for ev extra r q item
      using append_new_records [OF ok, of ev "Some k" extra st st' n q item k] by (cases r) (auto simp: recorded_def)
    show ?thesis
    proof (cases a)
      case (LogAppend ev key')
      with key run Inr None fresh [of ev "\<lambda>_. []"] show ?thesis
        by (cases "append_new env ev (Some k) (\<lambda>_. []) st") (simp add: append_event_inner_def)
    next
      case (LogEnqueue ev q item key')
      with key run Inr None fresh [of ev "enqueue_ops q item (Some k)" _ q item] show ?thesis
        by (cases "append_new env ev (Some k) (enqueue_ops q item (Some k)) st") (simp add: append_and_enqueue_def)
    qed (use key in simp_all)
  next
    case (Some j)
    with Inr have rec: "recorded (view (es_db st)) k j" using check_found [OF ok inv bound] by simp
    have "j = n" using Inr Some key run
      by (cases a) (auto simp: append_event_inner_def append_and_enqueue_def commit_log_def map_sum_def split: sum.splits bool.splits)
    moreover have "\<not> action_expires a" using key by (cases a) auto
    ultimately show ?thesis using exec_keeps [OF ok inv bound _ run rec] by simp
  qed
qed

lemma keyed_bound:
  assumes ok: "log_env_ok env view" and inv: "log_inv env plain (view (es_db st)) (es_seq st)" and bound: "es_seq st \<le> u64_max"
    and a: "action_ok plain a" "action_key a = Some k" and run: "log_exec env a st = (st', Inr [n])"
  shows "n \<le> es_seq st'"
proof -
  obtain ev q item where ev: "a = LogAppend ev (Some k) \<or> a = LogEnqueue ev q item (Some k)" using a(2) by (cases a) auto
  define out where "out = (case a of LogAppend _ _ \<Rightarrow> append_event_inner env ev (Some k) st | _ \<Rightarrow> append_and_enqueue env ev q item (Some k) st)"
  have "append_outcome env plain view ev (Some k) st out"
    using ev append_event_step [OF ok inv bound, of "Some k" ev] enqueue_step [OF ok inv bound, of "Some k" ev q item] a(1)
    by (auto simp: out_def)
  moreover have "(st', Inr [n]) = map_prod id (map_sum id (\<lambda>n. [n])) out" using ev run by (auto simp: out_def)
  ultimately show ?thesis by (cases out) (auto simp: append_outcome_def log_step_def)
qed

definition key_read_failed :: "'db log_env \<Rightarrow> 'db \<Rightarrow> string \<Rightarrow> (store_error, 'a) result \<Rightarrow> bool" where
  \<comment> \<open>the error of reading one of the two records of an idempotency key\<close>
  "key_read_failed env db k res \<longleftrightarrow>
     (\<exists>x j. lg_get env db MetaPart j = Inl x \<and> j \<in> {idempotency_key k, queue_materialization_key k} \<and> res = Inl (StoreStorage x))"

lemma keyed_again:
  assumes ok: "log_env_ok env view" and inv: "log_inv env plain (view (es_db st)) (es_seq st)" and bound: "es_seq st \<le> u64_max"
    and a: "action_ok plain a" "action_key a = Some k" and run: "log_exec env a st = (st', res)"
    and rec: "recorded (view (es_db st)) k n" and n: "n \<le> es_seq st"
  shows "st' = st \<and> (res = Inr [n] \<or> key_read_failed env (es_db st) k res)"
proof -
  have check: "check_idempotency env (es_db st) (Some k) = Inr (Some n) \<or>
      (\<exists>x. lg_get env (es_db st) MetaPart (idempotency_key k) = Inl x \<and> check_idempotency env (es_db st) (Some k) = Inl (StoreStorage x))"
    by (rule check_recorded [OF ok rec]) (use n bound in simp)
  obtain ev q item where ev: "a = LogAppend ev (Some k) \<or> a = LogEnqueue ev q item (Some k)" using a(2) by (cases a) auto
  define out where "out = (case a of LogAppend _ _ \<Rightarrow> append_event_inner env ev (Some k) st | _ \<Rightarrow> append_and_enqueue env ev q item (Some k) st)"
  have "append_outcome env plain view ev (Some k) st out"
    using ev append_event_step [OF ok inv bound, of "Some k" ev] enqueue_step [OF ok inv bound, of "Some k" ev q item] a(1)
    by (auto simp: out_def)
  moreover have "(st', res) = map_prod id (map_sum id (\<lambda>n. [n])) out" using ev run by (auto simp: out_def)
  moreover have "snd out = Inr n \<or> key_read_failed env (es_db st) k (snd out)"
  proof (cases a)
    case (LogAppend ev' key')
    with ev check show ?thesis by (auto simp: out_def append_event_inner_def key_read_failed_def)
  next
    case (LogEnqueue ev' q' item' key')
    with a have "\<not> plain k" by simp
    then have "view (es_db st) MetaPart (queue_materialization_key k) \<noteq> None"
      using inv rec unfolding log_inv_def meta_inv_def recorded_def by blast
    then have "queue_materialized env (es_db st) k = Inr True \<or>
        (\<exists>x. lg_get env (es_db st) MetaPart (queue_materialization_key k) = Inl x \<and> queue_materialized env (es_db st) k = Inl (StoreStorage x))"
      using log_get_view [OF ok, of "es_db st" MetaPart "queue_materialization_key k"]
      by (cases "lg_get env (es_db st) MetaPart (queue_materialization_key k)") (auto simp: queue_materialized_def log_get_def)
    with LogEnqueue ev check show ?thesis by (auto simp: out_def append_and_enqueue_def key_read_failed_def)
  qed (use ev in auto)
  ultimately show ?thesis using n by (cases out) (auto simp: append_outcome_def key_read_failed_def)
qed

text \<open>
  C16: an idempotency key is honoured: once an append or an enqueuing append under a key has
  been acknowledged, every later one under the same key changes nothing and returns the same
  number, whatever was appended or archived in between; it fails only with the error of the
  database on reading the records of that key. This holds as long as no key was expired in between and
  no key is used both for plain and for enqueuing appends (an enqueuing append under the key of a plain one
  still adds the queue entry).
\<close>

theorem idempotent_append:
  assumes "log_env_ok env view" "view db0 = (\<lambda>p. Map.empty)" "list_all (action_ok plain) (as @ [a] @ as' @ [b])"
    and "action_total (as @ [a] @ as') \<le> u64_max" "list_all (\<lambda>a. \<not> action_expires a) as'"
    and "log_run env as (fresh_store db0) = (st, evs)" "log_exec env a st = (st1, Inr [n])" "log_run env as' st1 = (st2, evs')"
    and "log_exec env b st2 = (st3, res)" "action_key a = Some k" "action_key b = Some k"
  shows "st3 = st2 \<and> (res = Inr [n] \<or> key_read_failed env (es_db st2) k res)"
proof -
  note ok = assms(1)
  have tot: "action_total as + length (action_events a) + action_total as' \<le> u64_max" using assms(4) by (simp add: action_total_def)
  then have "action_total as \<le> u64_max" by simp
  note hist = fresh_history [OF ok assms(2) _ this assms(6), where plain = plain]
  have inv: "log_inv env plain (view (es_db st)) (es_seq st)" and bound: "es_seq st + length (action_events a) + action_total as' \<le> u64_max"
    using hist assms(3) tot by simp_all
  have step: "log_step env plain (view (es_db st)) (es_seq st) (view (es_db st1)) (es_seq st1) (acked a (es_seq st) (Inr [n]))"
    by (rule log_exec_step [OF ok inv _ _ assms(7)]) (use bound assms(3) in auto)
  have "length (acked a (es_seq st) (Inr [n])) \<le> length (action_events a)" by (simp add: acked_def)
  with step bound have st1: "log_inv env plain (view (es_db st1)) (es_seq st1)" "es_seq st1 + action_total as' \<le> u64_max"
    by (auto simp: log_step_def)
  have rec: "recorded (view (es_db st1)) k n" using keyed_records [OF ok inv _ assms(10,7)] bound by simp
  have step': "log_step env plain (view (es_db st1)) (es_seq st1) (view (es_db st2)) (es_seq st2) evs'"
    by (rule log_run_step [OF ok st1(1) _ st1(2) assms(8)]) (use assms(3) in simp)
  have rec2: "recorded (view (es_db st2)) k n"
    by (rule run_keeps [OF ok st1(1) _ st1(2) assms(5,8) rec]) (use assms(3) in simp)
  have "es_seq st2 \<le> u64_max" using step' st1(2) run_length [of env as' st1] assms(8) by (simp add: log_step_def)
  moreover have "n \<le> es_seq st2" using keyed_bound [OF ok inv _ _ assms(10,7)] bound assms(3) step' by (simp add: log_step_def)
  moreover have "log_inv env plain (view (es_db st2)) (es_seq st2)" using step' unfolding log_step_def by blast
  ultimately show ?thesis using keyed_again [OF ok _ _ _ assms(11,9) rec2, where plain = plain] assms(3) by simp
qed

subsection \<open>A history of the concrete store\<close>

definition demo_actions :: "demo_db log_action list" where
  "demo_actions = [LogAppend demo_created None, LogEnqueue demo_assigned ''q'' ''item'' (Some ''k''), LogRetain 2]"

lemmas demo_steps = append_event_inner_def append_new_def append_and_enqueue_def check_idempotency_def index_ops_def make_index_keys_def
  set_index_start_seq_if_needed_def log_get_def commit_log_def Let_def

lemma demo_keys [simp]: "log_key n \<noteq> task_index_key t m" "log_key n \<noteq> agent_index_key a m" "log_key n \<noteq> review_index_key r m"
  by (simp_all add: log_key_def index_key_defs)

lemma demo_first:
  obtains st1 where "append_event_inner demo_log demo_created None (fresh_store demo_empty) = (st1, Inr 1)" "es_seq st1 = 1"
    "demo_view (es_db st1) MetaPart (idempotency_key ''k'') = None" "demo_view (es_db st1) MetaPart ''meta:index_start_seq'' = Some (to_be_bytes 1)"
    "demo_view (es_db st1) EventsPart (log_key 1) = Some ''1''"
proof
  let ?out = "append_event_inner demo_log demo_created None (fresh_store demo_empty)"
  show "?out = (fst ?out, Inr 1)" "es_seq (fst ?out) = 1"
    "demo_view (es_db (fst ?out)) MetaPart (idempotency_key ''k'') = None"
    "demo_view (es_db (fst ?out)) MetaPart ''meta:index_start_seq'' = Some (to_be_bytes 1)"
    "demo_view (es_db (fst ?out)) EventsPart (log_key 1) = Some ''1''"
    by (simp_all add: demo_steps fresh_store_def demo_view_op demo_view_empty del: demo_op.simps)
qed

lemma demo_second:
  assumes "es_seq st1 = 1" "demo_view (es_db st1) MetaPart (idempotency_key ''k'') = None"
    "demo_view (es_db st1) MetaPart ''meta:index_start_seq'' = Some (to_be_bytes 1)" "demo_view (es_db st1) EventsPart (log_key 1) = Some ''1''"
  shows "\<exists>st2. append_and_enqueue demo_log demo_assigned ''q'' ''item'' (Some ''k'') st1 = (st2, Inr 2) \<and>
    demo_view (es_db st2) EventsPart (log_key 1) = Some ''1'' \<and> demo_view (es_db st2) EventsPart (log_key 2) = Some ''2''"
  using assms by (simp add: demo_steps numeral_2_eq_2 enqueue_ops_def demo_view_op del: demo_op.simps)

lemma demo_two:
  obtains st1 st2 where "log_run demo_log [LogAppend demo_created None] (fresh_store demo_empty) = (st1, [demo_created])"
    "log_exec demo_log (LogEnqueue demo_assigned ''q'' ''item'' (Some ''k'')) st1 = (st2, Inr [2])"
    "log_run demo_log (take 2 demo_actions) (fresh_store demo_empty) = (st2, [demo_created, demo_assigned])"
    "demo_view (es_db st2) EventsPart (log_key 1) = Some ''1''" "demo_view (es_db st2) EventsPart (log_key 2) = Some ''2''"
proof -
  obtain st1 where st1: "append_event_inner demo_log demo_created None (fresh_store demo_empty) = (st1, Inr 1)" "es_seq st1 = 1"
    "demo_view (es_db st1) MetaPart (idempotency_key ''k'') = None" "demo_view (es_db st1) MetaPart ''meta:index_start_seq'' = Some (to_be_bytes 1)"
    "demo_view (es_db st1) EventsPart (log_key 1) = Some ''1''"
    by (rule demo_first)
  from demo_second [OF st1(2-)] obtain st2 where st2: "append_and_enqueue demo_log demo_assigned ''q'' ''item'' (Some ''k'') st1 = (st2, Inr 2)"
    "demo_view (es_db st2) EventsPart (log_key 1) = Some ''1''" "demo_view (es_db st2) EventsPart (log_key 2) = Some ''2''" by blast
  show ?thesis
    by (rule that [of st1 st2, OF _ _ _ st2(2,3)])
      (use st1 st2(1) in \<open>simp_all add: demo_actions_def acked_def fresh_store_def numeral_2_eq_2\<close>)
qed

lemma demo_run:
  obtains st where "log_run demo_log demo_actions (fresh_store demo_empty) = (st, [demo_created, demo_assigned])"
proof -
  obtain st2 where st2: "log_run demo_log (take 2 demo_actions) (fresh_store demo_empty) = (st2, [demo_created, demo_assigned])"
    by (rule demo_two)
  have app: "log_run env (as @ bs) st = (let (st1, evs1) = log_run env as st; (st2, evs2) = log_run env bs st1 in (st2, evs1 @ evs2))"
    for env as bs and st :: "demo_db event_store"
    by (induction as arbitrary: st) (auto split: prod.splits)
  have "demo_actions = take 2 demo_actions @ [LogRetain 2]" by (simp add: demo_actions_def)
  with st2 that show ?thesis
    using app [of demo_log "take 2 demo_actions" "[LogRetain 2]" "fresh_store demo_empty"]
    by (cases "retain_events demo_log 2 st2") simp
qed

definition demo_plain_key :: "string \<Rightarrow> bool" where
  "demo_plain_key k \<longleftrightarrow> k \<noteq> ''k''"

lemma demo_actions_ok: "list_all (action_ok demo_plain_key) demo_actions" "action_total demo_actions \<le> u64_max"
  by (simp_all add: demo_actions_def demo_plain_key_def action_total_def u64_max_def)

theorem stream_history_witness:
  "stream demo_log (Some 1) 10 (fst (log_run demo_log demo_actions (fresh_store demo_empty))) = Some (Inr [(demo_assigned, 2)])"
proof -
  obtain st where run: "log_run demo_log demo_actions (fresh_store demo_empty) = (st, [demo_created, demo_assigned])" by (rule demo_run)
  from stream_history [OF demo_log_ok demo_view_empty demo_actions_ok run, of "Some 1" 10] run show ?thesis
    by (simp add: stream_overflows_def u64_max_def)
qed

theorem restart_resumes_witness:
  "load_seq demo_log (es_db (fst (log_run demo_log demo_actions (fresh_store demo_empty)))) = Inr 2"
proof -
  obtain st where run: "log_run demo_log demo_actions (fresh_store demo_empty) = (st, [demo_created, demo_assigned])" by (rule demo_run)
  have seq: "es_seq st = 2" and inv: "log_inv demo_log demo_plain_key (demo_view (es_db st)) (es_seq st)"
    using fresh_history [OF demo_log_ok demo_view_empty demo_actions_ok run] by auto
  then have "demo_view (es_db st) MetaPart ''meta:seq'' = Some (to_be_bytes 2)" by (simp add: log_inv_def meta_inv_def)
  moreover obtain h where "load_high_water_mark demo_log (es_db st) = Inr h"
    by (cases "demo_scan (es_db st) EventsPart ''log:'' = []"; cases "last (demo_scan (es_db st) EventsPart ''log:'')")
      (simp_all add: load_high_water_mark_def)
  ultimately obtain n where n: "load_seq demo_log (es_db st) = Inr n"
    using from_to_be_bytes_exact [of 2] by (auto simp: load_seq_def log_get_def u64_max_def)
  from restart_resumes [OF demo_log_ok demo_view_empty demo_actions_ok run n] n run seq show ?thesis by simp
qed

theorem idempotent_append_witness:
  "let st = fst (log_run demo_log (take 2 demo_actions) (fresh_store demo_empty))
   in log_exec demo_log (LogEnqueue demo_created ''q'' ''again'' (Some ''k'')) st = (st, Inr [2])"
proof -
  let ?b = "LogEnqueue demo_created ''q'' ''again'' (Some ''k'') :: demo_db log_action"
  obtain st1 st2 where run: "log_run demo_log [LogAppend demo_created None] (fresh_store demo_empty) = (st1, [demo_created])"
    and exec: "log_exec demo_log (LogEnqueue demo_assigned ''q'' ''item'' (Some ''k'')) st1 = (st2, Inr [2])"
    and both: "log_run demo_log (take 2 demo_actions) (fresh_store demo_empty) = (st2, [demo_created, demo_assigned])"
    by (rule demo_two)
  have ok: "list_all (action_ok demo_plain_key) ([LogAppend demo_created None] @ [LogEnqueue demo_assigned ''q'' ''item'' (Some ''k'')] @ [] @ [?b])"
    "action_total ([LogAppend demo_created None] @ [LogEnqueue demo_assigned ''q'' ''item'' (Some ''k'')] @ ([] :: demo_db log_action list)) \<le> u64_max"
    by (simp_all add: demo_plain_key_def action_total_def u64_max_def)
  obtain st3 res where again: "log_exec demo_log ?b st2 = (st3, res)" by force
  have "st3 = st2" "res = Inr [2]"
    using idempotent_append [OF demo_log_ok demo_view_empty ok _ run exec _ again, of "[]" "''k''"] by (simp_all add: key_read_failed_def)
  with both again show ?thesis by simp
qed

end
