(* ===== verification/Event_Queries.thy ===== *)
theory Event_Queries
  imports Event_Log_History
begin

text \<open>
  The queries of \<open>queries.rs\<close> against a reference: the events that are still in the log, in order,
  filtered as \<open>EventFilter\<close> documents it and cut to the limit; where the store departs from that, the
  reference says so. The queries by task, review and agent go through the
  index; what an index has to provide is the locale \<open>index_selector\<close>.
\<close>

subsection \<open>The events in the log\<close>

definition live_numbers :: "(string \<rightharpoonup> string) \<Rightarrow> nat \<Rightarrow> nat list" where
  "live_numbers me seq = filter (\<lambda>n. me (log_key n) \<noteq> None) [1..<Suc seq]"

definition live_event :: "'db log_env \<Rightarrow> (string \<rightharpoonup> string) \<Rightarrow> nat \<Rightarrow> event" where
  "live_event env me n = ee_event (the (hot env me n))"

definition live_events :: "'db log_env \<Rightarrow> contents \<Rightarrow> nat \<Rightarrow> event list" where
  "live_events env m seq = map (live_event env (m EventsPart)) (live_numbers (m EventsPart) seq)"

lemma live_decodes:
  assumes "events_inv env me ma seq" "me (log_key n) = Some b"
  obtains e where "lg_decode env b = Inr e" "hot env me n = Some e" "live_event env me n = ee_event e"
proof -
  from events_invD(1) [OF assms(1), of n] assms(2) have "1 \<le> n" "n \<le> seq" by auto
  from events_invD(3) [OF assms(1) this] assms(2) obtain e where "lg_decode env b = Inr e"
    by (auto simp: entry_def split: sum.splits)
  with that assms(2) show ?thesis by (simp add: hot_def live_event_def)
qed

lemma sorted_keys:
  assumes "sorted_wrt (<) ns" "\<And>n. n \<in> set ns \<Longrightarrow> n \<le> u64_max"
  shows "sorted_wrt (<) (map log_key ns)"
  using assms by (induction ns) (auto simp: log_key_less)

lemma log_entries:
  assumes inv: "events_inv env me ma seq" and bound: "seq \<le> u64_max" and kvs: "sorted_wrt (<) (map fst kvs)"
    "\<And>k v. (k, v) \<in> set kvs \<longleftrightarrow> me k = Some v \<and> starts_with k ''log:''"
  shows "kvs = map (\<lambda>n. (log_key n, the (me (log_key n)))) (live_numbers me seq)"
proof -
  have "sorted_wrt (<) (map log_key (live_numbers me seq))"
    by (rule sorted_keys) (use bound in \<open>auto simp: live_numbers_def sorted_wrt_filter simp del: upt_Suc\<close>)
  moreover have "set (map fst kvs) = set (map log_key (live_numbers me seq))"
  proof (intro equalityI subsetI)
    fix k assume "k \<in> set (map fst kvs)"
    then obtain v where v: "me k = Some v" "starts_with k ''log:''" using kvs(2) by fastforce
    with events_invD(4) [OF inv, of k] obtain n where n: "k = log_key n" by auto
    with events_invD(1) [OF inv, of n] v show "k \<in> set (map log_key (live_numbers me seq))"
      by (auto simp: live_numbers_def image_iff less_Suc_eq_le simp del: upt_Suc)
  next
    fix k assume "k \<in> set (map log_key (live_numbers me seq))"
    then obtain n v where "k = log_key n" "me k = Some v" by (auto simp: live_numbers_def)
    with kvs(2) [of k v] show "k \<in> set (map fst kvs)" by force
  qed
  ultimately have keys: "map fst kvs = map log_key (live_numbers me seq)" using strict_sorted_equal [OF kvs(1)] by simp
  have "kvs = map (\<lambda>k. (k, the (me k))) (map fst kvs)" unfolding map_map by (rule map_idI [symmetric]) (use kvs(2) in force)
  then show ?thesis unfolding keys by (simp add: comp_def)
qed

subsection \<open>Scans of the log\<close>

lemma cap_simps [simp]:
  "cap limit [] = []" "cap (Some 0) xs = []" "cap None xs = xs"
  "limit \<noteq> Some 0 \<Longrightarrow> cap limit (x # xs) = x # cap (map_option (\<lambda>n. n - 1) limit) xs"
  by (auto simp: cap_def take_Cons' split: option.split)

lemma scan_log_exact:
  assumes "scanned (map (\<lambda>n. (log_key n, the (me (log_key n)))) ns) es"
    and "\<And>n. n \<in> set ns \<Longrightarrow> visit (log_key n) \<noteq> Some False \<and> decode_event env (the (me (log_key n))) = Inr (ev n)"
    and "scan_log env visit keep limit es = Inr out"
  shows "out = cap limit (filter keep (map ev (takeWhile (\<lambda>n. visit (log_key n) = Some True) ns)))"
  using assms
proof (induction ns arbitrary: es limit out)
  case Nil
  then show ?case by (cases "limit = Some 0") (auto dest!: scanned_Nil)
next
  case (Cons n ns)
  show ?case
  proof (cases "limit = Some 0")
    case True
    with Cons.prems(3) show ?thesis by (cases es) auto
  next
    case False
    from scanned_Cons [OF Cons.prems(1) [unfolded list.map]] Cons.prems(3) False obtain items
      where es: "es = Inr (log_key n, the (me (log_key n))) # items" "scanned (map (\<lambda>n. (log_key n, the (me (log_key n)))) ns) items"
      by auto
    have dec: "decode_event env (the (me (log_key n))) = Inr (ev n)" and rest: "\<And>n. n \<in> set ns \<Longrightarrow>
        visit (log_key n) \<noteq> Some False \<and> decode_event env (the (me (log_key n))) = Inr (ev n)" using Cons.prems(2) by auto
    show ?thesis
    proof (cases "visit (log_key n)")
      case None
      with Cons.prems(3) es False show ?thesis by simp
    next
      case (Some b)
      with Cons.prems(2) have b: "visit (log_key n) = Some True" by fastforce
      show ?thesis
      proof (cases "keep (ev n)")
        case True
        with Cons.prems(3) es False b dec obtain out' where "scan_log env visit keep (map_option (\<lambda>n. n - 1) limit) items = Inr out'" "out = ev n # out'"
          by (auto simp: map_sum_def split: sum.splits)
        with Cons.IH [OF es(2) rest] True b False show ?thesis by simp
      next
        case noKeep: False
        with Cons.prems(3) es False b dec have "scan_log env visit keep limit items = Inr out" by simp
        with Cons.IH [OF es(2) rest] noKeep b show ?thesis by simp
      qed
    qed
  qed
qed

lemma scanned_log:
  assumes ok: "log_env_ok env view" and inv: "log_inv env plain (view db) seq" and bound: "seq \<le> u64_max"
  shows "scanned (map (\<lambda>n. (log_key n, the (view db EventsPart (log_key n)))) (live_numbers (view db EventsPart) seq))
      (lg_prefix env db EventsPart ''log:'')"
proof -
  obtain kvs where "sorted_wrt (<) (map fst kvs)" "\<And>k v. (k, v) \<in> set kvs \<longleftrightarrow> view db EventsPart k = Some v \<and> starts_with k ''log:''"
    "scanned kvs (lg_prefix env db EventsPart ''log:'')"
    using scanned_prefix [OF ok, of db EventsPart "''log:''"] by metis
  then show ?thesis using log_entries [OF _ bound, of env "view db EventsPart" "view db ArchivePart" kvs] inv
    by (simp add: log_inv_def)
qed

lemma scan_visits:
  assumes ok: "log_env_ok env view" and inv: "log_inv env plain (view db) seq" and bound: "seq \<le> u64_max"
    and visit: "\<And>n. 1 \<le> n \<Longrightarrow> n \<le> seq \<Longrightarrow> visit (log_key n) = (if go n then Some True else None)"
    and run: "scan_log env visit keep limit (lg_prefix env db EventsPart ''log:'') = Inr out"
  shows "out = cap limit (filter keep (map (live_event env (view db EventsPart)) (takeWhile go (live_numbers (view db EventsPart) seq))))"
proof -
  let ?ns = "live_numbers (view db EventsPart) seq"
  have ev: "events_inv env (view db EventsPart) (view db ArchivePart) seq" using inv by (simp add: log_inv_def)
  have ns: "1 \<le> n \<and> n \<le> seq" if "n \<in> set ?ns" for n using that by (auto simp: live_numbers_def)
  have "decode_event env (the (view db EventsPart (log_key n))) = Inr (live_event env (view db EventsPart) n)"
    if n: "n \<in> set ?ns" for n
  proof -
    obtain b where b: "view db EventsPart (log_key n) = Some b" using n by (auto simp: live_numbers_def)
    then show ?thesis using live_decodes [OF ev b] by (metis decode_event_def map_sum.simps(2) option.sel)
  qed
  then have "out = cap limit (filter keep (map (live_event env (view db EventsPart)) (takeWhile (\<lambda>n. visit (log_key n) = Some True) ?ns)))"
    by (intro scan_log_exact [OF scanned_log [OF ok inv bound] _ run]) (use visit ns in auto)
  moreover have "takeWhile (\<lambda>n. visit (log_key n) = Some True) ?ns = takeWhile go ?ns"
    by (rule takeWhile_cong [OF refl]) (use visit ns in auto)
  ultimately show ?thesis by simp
qed

lemma scan_condition_exact:
  assumes "log_env_ok env view" "log_inv env plain (view db) seq" "seq \<le> u64_max"
    and "scan_all_events_with_condition env f condition db = Inr out"
  shows "out = cap (ef_limit f) (filter (coarse_match f condition) (live_events env (view db) seq))"
proof -
  have all: "takeWhile (\<lambda>n. True) ns = ns" for ns :: "nat list" by (induction ns) auto
  show ?thesis using scan_visits [OF assms(1-3), of "\<lambda>k. Some True" "\<lambda>n. True"] assms(4)
    by (simp add: scan_all_events_with_condition_def live_events_def all)
qed

lemma takeWhile_sorted: "sorted_wrt (<) ns \<Longrightarrow> takeWhile (\<lambda>n. n < b) ns = filter (\<lambda>n. n < b) ns" for b :: nat
proof (induction ns)
  case (Cons a ns)
  then have "\<not> a < b \<Longrightarrow> filter (\<lambda>n. n < b) ns = []" by (auto simp: filter_empty_conv)
  with Cons show ?case by auto
qed simp

lemma sorted_live: "sorted_wrt (<) (live_numbers me seq)"
  by (simp add: live_numbers_def sorted_wrt_filter del: upt_Suc)

lemma scan_before_exact:
  assumes "log_env_ok env view" "log_inv env plain (view db) seq" "seq \<le> u64_max"
    and "scan_all_events_before_seq env f b condition db = Inr out"
  shows "out = cap (ef_limit f) (filter (coarse_match f condition) (map (live_event env (view db EventsPart))
    (filter (\<lambda>n. n < b) (live_numbers (view db EventsPart) seq))))"
  using scan_visits [OF assms(1-3) _ assms(4) [unfolded scan_all_events_before_seq_def], of "\<lambda>n. n < b"] assms(3)
  by (simp add: takeWhile_sorted [OF sorted_live] parse_log_key)

subsection \<open>Queries through the index\<close>

text \<open>
  What a query relies on: the events it selects are indexed under its prefix, with one entry
  each that ends in the number of the event.
\<close>

locale index_selector =
  fixes pre :: string and selects :: "event \<Rightarrow> bool"
  assumes prefix: "starts_with k pre \<Longrightarrow> starts_with k ''index:''"
    and indexed: "selects ev \<Longrightarrow> k \<in> set (make_index_keys ev n) \<and> starts_with k pre \<longleftrightarrow> k = pre @ pad20 n"
begin

lemma index_numbers:
  fixes env :: "'db log_env" and b :: nat
  assumes inv: "events_inv env me ma seq" and bound: "seq \<le> u64_max"
    and keys: "sorted_wrt (<) ks" "\<And>k. k \<in> set ks \<longleftrightarrow> me k \<noteq> None \<and> starts_with k pre"
    and num: "\<And>k. k \<in> set ks \<Longrightarrow> parse_seq_from_index_key k = Some (num k)"
    and keep: "\<And>ev. keep ev \<Longrightarrow> selects ev"
  defines "P \<equiv> \<lambda>n. keep (live_event env me n) \<and> b \<le> n"
  shows "filter P (map num ks) = filter P (live_numbers me seq)"
proof -
  have key: "\<exists>e. hot env me (num k) = Some e \<and> k \<in> set (make_index_keys (ee_event e) (num k)) \<and> num k \<in> set (live_numbers me seq) \<and>
      live_event env me (num k) = ee_event e" if k: "k \<in> set ks" for k
  proof -
    from k keys(2) prefix events_invD(5) [OF inv] obtain n e where n: "hot env me n = Some e" "k \<in> set (make_index_keys (ee_event e) n)" by metis
    then have b: "me (log_key n) \<noteq> None" by (auto simp: hot_def split: option.splits)
    with events_invD(1) [OF inv, of n] bound parse_index_keys [OF _ n(2)] num [OF k] have "num k = n" "1 \<le> n" "n \<le> seq" by auto
    with n b show ?thesis by (auto simp: live_numbers_def live_event_def less_Suc_eq_le simp del: upt_Suc)
  qed
  have form: "k = pre @ pad20 (num k)" if "k \<in> set ks" "P (num k)" for k
    using key [OF that(1)] that keep keys(2) [of k] indexed unfolding P_def by metis
  have small: "num k \<le> u64_max" if "k \<in> set ks" for k using key [OF that] bound by (auto simp: live_numbers_def)
  have "sorted_wrt (<) (map num (filter (\<lambda>k. P (num k)) ks))"
    unfolding sorted_wrt_map
  proof (rule sorted_wrt_mono_rel [rotated], rule sorted_wrt_filter [OF keys(1)])
    fix x y assume "x \<in> set (filter (\<lambda>k. P (num k)) ks)" "y \<in> set (filter (\<lambda>k. P (num k)) ks)" "x < y"
    with form small have "pre @ pad20 (num x) < pre @ pad20 (num y)" "num x \<le> u64_max" "num y \<le> u64_max" by fastforce+
    then show "num x < num y"
      using digits_order [of "pad20 (num x)" "pad20 (num y)"] pad20_facts [of "num x"] pad20_facts [of "num y"]
      unfolding append_less_append by simp
  qed
  moreover have "sorted_wrt (<) (filter P (live_numbers me seq))" by (rule sorted_wrt_filter [OF sorted_live])
  moreover have "set (map num (filter (\<lambda>k. P (num k)) ks)) = set (filter P (live_numbers me seq))"
  proof (intro equalityI subsetI)
    fix n assume "n \<in> set (filter P (live_numbers me seq))"
    then have n: "P n" "me (log_key n) \<noteq> None" "n \<le> seq" by (auto simp: live_numbers_def)
    then obtain bytes where b: "me (log_key n) = Some bytes" by auto
    obtain e where e: "hot env me n = Some e" "live_event env me n = ee_event e" using live_decodes [OF inv b] by metis
    let ?k = "pre @ pad20 n"
    have k: "?k \<in> set (make_index_keys (ee_event e) n)" "starts_with ?k pre" using indexed [of "ee_event e" ?k n] n(1) e(2) keep by (simp_all add: P_def)
    then have "?k \<in> set ks" using keys(2) [of ?k] events_invD(5) [OF inv prefix, of ?k] e(1) by blast
    moreover from num [OF this] have "num ?k = n" using parse_index_keys [OF _ k(1)] n(3) bound by simp
    ultimately show "n \<in> set (map num (filter (\<lambda>k. P (num k)) ks))" using n(1) by force
  qed (use key in auto)
  ultimately have "map num (filter (\<lambda>k. P (num k)) ks) = filter P (live_numbers me seq)" by (metis strict_sorted_equal)
  then show ?thesis by (simp add: filter_map comp_def)
qed

end

lemma scan_index_exact:
  assumes "log_env_ok env view" "scanned kvs es"
    and "\<And>k. k \<in> fst ` set kvs \<Longrightarrow> parse_seq_from_index_key k = Some (num k) \<and>
      (\<exists>bytes. view db EventsPart (log_key (num k)) = Some bytes \<and> decode_event env bytes = Inr (ev (num k)))"
    and "scan_index env keep b None db es = Inr out"
  shows "out = filter keep (map ev (filter (\<lambda>n. b \<le> n) (map num (map fst kvs))))"
  using assms(2-)
proof (induction kvs arbitrary: es out)
  case Nil
  then show ?case by (auto dest!: scanned_Nil)
next
  case (Cons kv kvs)
  obtain k v where kv: "kv = (k, v)" by force
  from scanned_Cons [OF Cons.prems(1)] Cons.prems(3) kv obtain items where es: "es = Inr (k, v) # items" "scanned kvs items" by auto
  from Cons.prems(2) [of k] kv obtain bytes where k: "parse_seq_from_index_key k = Some (num k)"
    "view db EventsPart (log_key (num k)) = Some bytes" "decode_event env bytes = Inr (ev (num k))" by auto
  have rest: "\<And>k. k \<in> fst ` set kvs \<Longrightarrow> parse_seq_from_index_key k = Some (num k) \<and>
      (\<exists>bytes. view db EventsPart (log_key (num k)) = Some bytes \<and> decode_event env bytes = Inr (ev (num k)))"
    using Cons.prems(2) by simp
  show ?case
  proof (cases "num k < b")
    case True
    with Cons.prems(3) es(1) k(1) have "scan_index env keep b None db items = Inr out" by simp
    with Cons.IH [OF es(2) rest] True kv show ?thesis by simp
  next
    case False
    with Cons.prems(3) es(1) k(1) obtain r where r: "log_get env db EventsPart (log_key (num k)) = Inr r"
      by (auto split: sum.splits)
    with log_get_view [OF assms(1) r] k have r': "log_get env db EventsPart (log_key (num k)) = Inr (Some bytes)" by simp
    show ?thesis
    proof (cases "keep (ev (num k))")
      case True
      with False Cons.prems(3) es(1) k r' obtain out' where "scan_index env keep b None db items = Inr out'" "out = ev (num k) # out'"
        by (auto simp: map_sum_def split: sum.splits)
      with Cons.IH [OF es(2) rest] True False kv show ?thesis by simp
    next
      case noKeep: False
      with False Cons.prems(3) es(1) k r' have "scan_index env keep b None db items = Inr out" by simp
      with Cons.IH [OF es(2) rest] noKeep False kv show ?thesis by simp
    qed
  qed
qed

lemma filter_map_numbers:
  "filter (\<lambda>n. keep (g n) \<and> b \<le> n) ns = filter (\<lambda>n. keep (g n) \<and> b \<le> n) ms \<Longrightarrow>
   filter keep (map g (filter (\<lambda>n. b \<le> n) ns)) = filter keep (map g (filter (\<lambda>n. b \<le> n) ms))" for b :: nat
  by (simp add: filter_map comp_def conj_commute)

lemma coarse_match_selects: "coarse_match f condition ev \<Longrightarrow> condition ev"
  by (simp add: coarse_match_def)

lemma coarse_match_limit [simp]: "coarse_match (f\<lparr>ef_limit := l\<rparr>) condition = coarse_match f condition"
  by (simp add: coarse_match_def fun_eq_iff)

lemma split_at: "sorted_wrt (<) ns \<Longrightarrow> filter (\<lambda>n. n < b) ns @ filter (\<lambda>n. b \<le> n) ns = ns" for b :: nat
proof (induction ns)
  case (Cons a ns)
  then have "\<not> a < b \<Longrightarrow> filter (\<lambda>n. n < b) ns = []" "a < b \<or> b \<le> a" by (auto simp: filter_empty_conv)
  with Cons show ?case by auto
qed simp

context index_selector
begin

lemma index_query_exact:
  assumes ok: "log_env_ok env view" and inv: "log_inv env plain (view db) seq" and bound: "seq \<le> u64_max"
    and run: "query_by_index_prefix env pre (f\<lparr>ef_limit := None\<rparr>) b selects db = Inr out"
  shows "out = filter (coarse_match f selects) (map (live_event env (view db EventsPart))
    (filter (\<lambda>n. b \<le> n) (live_numbers (view db EventsPart) seq)))"
proof -
  let ?me = "view db EventsPart"
  have ev: "events_inv env ?me (view db ArchivePart) seq" using inv by (simp add: log_inv_def)
  obtain kvs where kvs: "sorted_wrt (<) (map fst kvs)" "\<And>k v. (k, v) \<in> set kvs \<longleftrightarrow> ?me k = Some v \<and> starts_with k pre"
    "scanned kvs (lg_prefix env db EventsPart pre)"
    using scanned_prefix [OF ok, of db EventsPart pre] by metis
  define num where "num k = the (parse_seq_from_index_key k)" for k
  have keys: "k \<in> set (map fst kvs) \<longleftrightarrow> ?me k \<noteq> None \<and> starts_with k pre" for k using kvs(2) by force
  have entry: "parse_seq_from_index_key k = Some (num k) \<and>
      (\<exists>bytes. ?me (log_key (num k)) = Some bytes \<and> decode_event env bytes = Inr (live_event env ?me (num k)))"
    if "k \<in> fst ` set kvs" for k
  proof -
    from that keys prefix events_invD(5) [OF ev] obtain n e where n: "hot env ?me n = Some e" "k \<in> set (make_index_keys (ee_event e) n)"
      by (metis image_set)
    then obtain bytes where bytes: "?me (log_key n) = Some bytes" by (auto simp: hot_def split: option.splits)
    with events_invD(1) [OF ev, of n] bound have "parse_seq_from_index_key k = Some n" using parse_index_keys [OF _ n(2)] by auto
    with bytes live_decodes [OF ev bytes] show ?thesis by (metis decode_event_def map_sum.simps(2) num_def option.sel)
  qed
  have "out = filter (coarse_match f selects) (map (live_event env ?me) (filter (\<lambda>n. b \<le> n) (map num (map fst kvs))))"
    using scan_index_exact [OF ok kvs(3) entry] run by (simp add: query_by_index_prefix_def)
  also have "\<dots> = filter (coarse_match f selects) (map (live_event env ?me) (filter (\<lambda>n. b \<le> n) (live_numbers ?me seq)))"
    by (rule filter_map_numbers, rule index_numbers [OF ev bound kvs(1) keys])
      (use entry coarse_match_selects in auto)
  finally show ?thesis .
qed

lemma no_index_data:
  assumes ok: "log_env_ok env view" and inv: "log_inv env plain (view db) seq" and bound: "seq \<le> u64_max"
    and none: "has_index_data_for_prefix env pre db = Inr False" and n: "n \<in> set (live_numbers (view db EventsPart) seq)"
  shows "\<not> selects (live_event env (view db EventsPart) n)"
proof
  let ?me = "view db EventsPart" and ?k = "pre @ pad20 n"
  assume sel: "selects (live_event env ?me n)"
  have ev: "events_inv env ?me (view db ArchivePart) seq" using inv by (simp add: log_inv_def)
  obtain b where b: "?me (log_key n) = Some b" using n by (auto simp: live_numbers_def)
  obtain e where e: "hot env ?me n = Some e" "live_event env ?me n = ee_event e" using live_decodes [OF ev b] by metis
  have "?k \<in> set (make_index_keys (ee_event e) n)" "starts_with ?k pre" using indexed [of "ee_event e" ?k n] sel e by auto
  then have k: "?me ?k \<noteq> None" "starts_with ?k pre" using events_invD(5) [OF ev prefix, of ?k] e(1) by blast+
  obtain kvs where kvs: "\<And>k v. (k, v) \<in> set kvs \<longleftrightarrow> ?me k = Some v \<and> starts_with k pre" "scanned kvs (lg_prefix env db EventsPart pre)"
    using scanned_prefix [OF ok, of db EventsPart pre] by metis
  with k obtain v where "(?k, v) \<in> set kvs" by auto
  then obtain kv rest where "kvs = kv # rest" by (cases kvs) auto
  with kvs(2) none show False by (auto simp: has_index_data_for_prefix_def dest!: scanned_Cons)
qed

lemma query_indexed_exact:
  assumes ok: "log_env_ok env view" and inv: "log_inv env plain (view db) seq" and bound: "seq \<le> u64_max"
    and run: "query_indexed env pre selects f db = Inr out"
  defines "found \<equiv> filter (coarse_match f selects) (live_events env (view db) seq)"
  shows "out = found \<or> out = cap (ef_limit f) found"
proof -
  let ?f = "f\<lparr>ef_limit := None\<rparr>" and ?me = "view db EventsPart" and ?ns = "live_numbers (view db EventsPart) seq"
  let ?keep = "coarse_match f selects" and ?ev = "live_event env (view db EventsPart)"
  obtain start where start: "index_start_seq env db = Inr start" using run by (auto simp: query_indexed_def Let_def split: sum.splits)
  show ?thesis
  proof (cases "start = 0")
    case True
    with run start have "scan_all_events_with_condition env ?f selects db = Inr out" by (simp add: query_indexed_def)
    with scan_condition_exact [OF ok inv bound] show ?thesis by (fastforce simp: found_def)
  next
    case False
    obtain old where old: "scan_all_events_before_seq env ?f start selects db = Inr old"
      using run start False by (auto simp: query_indexed_def Let_def split: sum.splits)
    have old': "old = filter ?keep (map ?ev (filter (\<lambda>n. n < start) ?ns))" using scan_before_exact [OF ok inv bound old] by simp
    have whole: "found = old @ filter ?keep (map ?ev (filter (\<lambda>n. start \<le> n) ?ns))"
      using arg_cong [OF split_at [OF sorted_live], of "\<lambda>ns. filter ?keep (map ?ev ns)", of start ?me seq]
      by (simp add: old' found_def live_events_def)
    obtain has where has: "has_index_data_for_prefix env pre db = Inr has"
      using run start False old by (auto simp: query_indexed_def Let_def split: sum.splits)
    show ?thesis
    proof (cases has)
      case True
      with run start False old has obtain more where more: "query_by_index_prefix env pre ?f start selects db = Inr more"
        "out = cap (ef_limit f) (old @ more)" by (auto simp: query_indexed_def Let_def map_sum_def split: sum.splits)
      with index_query_exact [OF ok inv bound more(1)] whole show ?thesis by simp
    next
      case none: False
      have "filter ?keep (map ?ev (filter (\<lambda>n. start \<le> n) ?ns)) = []"
        using no_index_data [OF ok inv bound] has none coarse_match_selects by (auto simp: filter_empty_conv)
      with run start False old has none whole show ?thesis by (simp add: query_indexed_def)
    qed
  qed
qed

end

text \<open>The three indexes.\<close>

lemmas index_prefix_defs = task_index_prefix_def review_index_prefix_def agent_index_prefix_def

lemma task_condition_id: "task_condition t kind \<Longrightarrow> event_task_id kind = Some t"
  by (cases kind) auto

lemma review_condition_id: "review_condition r kind \<Longrightarrow> event_review_id kind = Some r"
  by (cases kind) auto

lemma agent_condition_id: "agent_condition a kind \<Longrightarrow> event_agent_id kind = Some a"
  by (cases kind) auto

interpretation task_index: index_selector "task_index_prefix t" "\<lambda>ev. task_condition t (ev_kind ev)" for t
  by unfold_locales
    (auto simp: make_index_keys_def index_prefix_defs index_key_defs starts_with_conv dest!: task_condition_id split: option.splits)

interpretation review_index: index_selector "review_index_prefix r" "\<lambda>ev. review_condition r (ev_kind ev)" for r
  by unfold_locales
    (auto simp: make_index_keys_def index_prefix_defs index_key_defs starts_with_conv dest!: review_condition_id split: option.splits)

interpretation agent_index: index_selector "agent_index_prefix a" "\<lambda>ev. agent_condition a (ev_kind ev)" for a
  by unfold_locales
    (auto simp: make_index_keys_def index_prefix_defs index_key_defs starts_with_conv dest!: agent_condition_id split: option.splits)

subsection \<open>Queries against the reference\<close>

definition query_condition :: "event_filter \<Rightarrow> event \<Rightarrow> bool" where
  \<comment> \<open>the first selector of a filter\<close>
  "query_condition f ev =
     (case ef_aggregate_id f of
        Some a \<Rightarrow> ev_aggregate_id ev = a
      | None \<Rightarrow> (case ef_task_id f of
          Some t \<Rightarrow> task_condition t (ev_kind ev)
        | None \<Rightarrow> (case ef_review_id f of
            Some r \<Rightarrow> review_condition r (ev_kind ev)
          | None \<Rightarrow> (case ef_agent_id f of Some a \<Rightarrow> agent_condition a (ev_kind ev) | None \<Rightarrow> True))))"

definition exact_match :: "event_filter \<Rightarrow> event \<Rightarrow> bool" where
  "exact_match f ev \<longleftrightarrow> query_condition f ev \<and>
     (case ef_kinds f of None \<Rightarrow> True | Some ks \<Rightarrow> ev_kind ev \<in> set ks) \<and>
     (case ef_since f of None \<Rightarrow> True | Some t \<Rightarrow> t \<le> ev_timestamp ev) \<and>
     (case ef_until f of None \<Rightarrow> True | Some t \<Rightarrow> ev_timestamp ev \<le> t)"

definition exact_limit :: "event_filter \<Rightarrow> bool" where
  \<comment> \<open>no limit, or a selector, a start at a whole second and no end\<close>
  "exact_limit f \<longleftrightarrow> ef_limit f = None \<or>
     (ef_aggregate_id f \<noteq> None \<or> ef_task_id f \<noteq> None \<or> ef_review_id f \<noteq> None \<or> ef_agent_id f \<noteq> None) \<and>
     (case ef_since f of None \<Rightarrow> True | Some t \<Rightarrow> t mod 1000 = 0) \<and> ef_until f = None"

lemma cap_cap [simp]: "cap l (cap l xs) = cap l xs"
  by (cases l) (simp_all add: cap_def)

lemma whole_second: "t mod 1000 = 0 \<Longrightarrow> timestamp_secs t \<le> timestamp_secs u \<longleftrightarrow> t \<le> u"
proof -
  assume "t mod 1000 = 0"
  then have t: "t = 1000 * (t div 1000)" using mult_div_mod_eq [of 1000 t] by simp
  have u: "1000 * (u div 1000) \<le> u" by simp
  show ?thesis using zdiv_mono1 [of t u 1000] t u unfolding timestamp_secs_def by linarith
qed

lemma timestamp_secs_mono: "t \<le> u \<Longrightarrow> timestamp_secs t \<le> timestamp_secs u"
  by (simp add: timestamp_secs_def zdiv_mono1)

lemma apply_filters_coarse:
  "apply_filters f (filter (coarse_match f (query_condition f)) evs) = filter (exact_match f) evs"
  unfolding apply_filters_def filter_filter
  by (rule filter_cong [OF refl]) (auto simp: coarse_match_def exact_match_def timestamp_secs_mono split: option.splits)

lemma apply_filters_id:
  assumes "case ef_since f of None \<Rightarrow> True | Some t \<Rightarrow> t mod 1000 = 0" "ef_until f = None"
    and "set evs \<subseteq> {ev. coarse_match f condition ev}"
  shows "apply_filters f evs = evs"
  unfolding apply_filters_def using assms
  by (intro filter_True) (auto simp: coarse_match_def whole_second split: option.splits)

lemma set_cap: "set (cap l xs) \<subseteq> set xs"
  by (cases l) (auto simp: cap_def dest: in_set_takeD)

lemma filtered_cap:
  assumes f: "ef_limit f = None \<or> (case ef_since f of None \<Rightarrow> True | Some t \<Rightarrow> t mod 1000 = 0) \<and> ef_until f = None"
    and out: "out = filter (coarse_match f (query_condition f)) evs \<or> out = cap (ef_limit f) (filter (coarse_match f (query_condition f)) evs)"
  shows "cap (ef_limit f) (apply_filters f out) = cap (ef_limit f) (filter (exact_match f) evs)"
proof -
  let ?found = "filter (coarse_match f (query_condition f)) evs"
  show ?thesis
  proof (cases "out = ?found")
    case True
    then show ?thesis by (simp add: apply_filters_coarse)
  next
    case False
    with out f have since: "case ef_since f of None \<Rightarrow> True | Some t \<Rightarrow> t mod 1000 = 0" "ef_until f = None"
      and capped: "out = cap (ef_limit f) ?found" by auto
    have "apply_filters f out = out"
      by (rule apply_filters_id [OF since, where condition = "query_condition f"]) (use capped set_cap [of "ef_limit f" ?found] in auto)
    moreover have "?found = filter (exact_match f) evs"
      using apply_filters_coarse [of f evs] apply_filters_id [OF since, of ?found "query_condition f"] by fastforce
    ultimately show ?thesis using capped by simp
  qed
qed

lemma scan_all_exact:
  assumes "log_env_ok env view" "log_inv env plain (view db) seq" "seq \<le> u64_max" "scan_all_events env f db = Inr out"
  shows "out = cap (ef_limit f) (live_events env (view db) seq)"
proof -
  have all: "takeWhile (\<lambda>n. True) ns = ns" for ns :: "nat list" by (induction ns) auto
  show ?thesis using scan_visits [OF assms(1-3) _ assms(4) [unfolded scan_all_events_def], of "\<lambda>n. True"]
    by (simp add: live_events_def all)
qed

lemma query_against_log:
  assumes ok: "log_env_ok env view" and inv: "log_inv env plain (view (es_db st)) (es_seq st)" and bound: "es_seq st \<le> u64_max"
    and f: "exact_limit f" and run: "query env f st = Inr out"
  shows "out = cap (ef_limit f) (filter (exact_match f) (live_events env (view (es_db st)) (es_seq st)))"
proof -
  let ?live = "live_events env (view (es_db st)) (es_seq st)" and ?db = "es_db st"
  let ?inner = "case ef_aggregate_id f of
      Some a \<Rightarrow> query_by_aggregate env a f ?db
    | None \<Rightarrow> (case ef_task_id f of
        Some t \<Rightarrow> query_by_task env t f ?db
      | None \<Rightarrow> (case ef_review_id f of
          Some r \<Rightarrow> query_by_review env r f ?db
        | None \<Rightarrow> (case ef_agent_id f of
            Some a \<Rightarrow> query_by_agent env a f ?db
          | None \<Rightarrow> scan_all_events env f ?db)))"
  obtain evs where evs: "?inner = Inr evs" "out = cap (ef_limit f) (apply_filters f evs)"
    using run by (cases ?inner) (auto simp: query_def)
  have exact: "ef_limit f = None \<or> (case ef_since f of None \<Rightarrow> True | Some t \<Rightarrow> t mod 1000 = 0) \<and> ef_until f = None"
    using f by (auto simp: exact_limit_def)
  consider a where "ef_aggregate_id f = Some a"
    | t where "ef_aggregate_id f = None" "ef_task_id f = Some t"
    | r where "ef_aggregate_id f = None" "ef_task_id f = None" "ef_review_id f = Some r"
    | a where "ef_aggregate_id f = None" "ef_task_id f = None" "ef_review_id f = None" "ef_agent_id f = Some a"
    | "ef_aggregate_id f = None" "ef_task_id f = None" "ef_review_id f = None" "ef_agent_id f = None" by fastforce
  then have "(evs = filter (coarse_match f (query_condition f)) ?live \<or> evs = cap (ef_limit f) (filter (coarse_match f (query_condition f)) ?live))
    \<or> evs = ?live \<and> query_condition f = (\<lambda>ev. True)"
  proof cases
    case (1 a)
    then have "query_condition f = (\<lambda>ev. ev_aggregate_id ev = a)" by (simp add: query_condition_def fun_eq_iff)
    with 1 evs scan_condition_exact [OF ok inv bound] show ?thesis by (simp add: query_by_aggregate_def)
  next
    case (2 t)
    then have "query_condition f = (\<lambda>ev. task_condition t (ev_kind ev))" by (simp add: query_condition_def fun_eq_iff)
    with 2 evs task_index.query_indexed_exact [OF ok inv bound] show ?thesis by (simp add: query_by_task_def)
  next
    case (3 r)
    then have "query_condition f = (\<lambda>ev. review_condition r (ev_kind ev))" by (simp add: query_condition_def fun_eq_iff)
    with 3 evs review_index.query_indexed_exact [OF ok inv bound] show ?thesis by (simp add: query_by_review_def)
  next
    case (4 a)
    then have "query_condition f = (\<lambda>ev. agent_condition a (ev_kind ev))" by (simp add: query_condition_def fun_eq_iff)
    with 4 evs agent_index.query_indexed_exact [OF ok inv bound] show ?thesis by (simp add: query_by_agent_def)
  next
    case 5
    then have "query_condition f = (\<lambda>ev. True)" "ef_limit f = None" using f by (auto simp: query_condition_def fun_eq_iff exact_limit_def)
    with 5 evs(1) scan_all_exact [OF ok inv bound, of f evs] show ?thesis by simp
  qed
  then show ?thesis
  proof
    assume "evs = ?live \<and> query_condition f = (\<lambda>ev. True)"
    then have "apply_filters f evs = filter (exact_match f) ?live" by (simp add: apply_filters_def exact_match_def [abs_def])
    with evs(2) show ?thesis by simp
  qed (use filtered_cap [OF exact] evs(2) in simp)
qed

subsection \<open>Queries fail only when the database does\<close>

definition reads_ok :: "'db log_env \<Rightarrow> 'db \<Rightarrow> bool" where
  "reads_ok env db \<longleftrightarrow> (\<forall>p k. \<exists>r. lg_get env db p k = Inr r) \<and> (\<forall>p pre e. Inl e \<notin> set (lg_prefix env db p pre))"

lemma reads_okD:
  assumes "reads_ok env db"
  shows "\<exists>r. log_get env db p k = Inr r" "scanned kvs (lg_prefix env db p pre) \<Longrightarrow> lg_prefix env db p pre = map Inr kvs"
proof -
  have "\<exists>r. lg_get env db p k = Inr r" using assms by (simp add: reads_ok_def)
  then show "\<exists>r. log_get env db p k = Inr r" by (auto simp: log_get_def)
  show "scanned kvs (lg_prefix env db p pre) \<Longrightarrow> lg_prefix env db p pre = map Inr kvs"
    using assms unfolding scanned_def reads_ok_def by (metis in_set_conv_decomp)
qed

lemma scan_log_total:
  assumes "\<And>n. n \<in> set ns \<Longrightarrow> \<exists>ev. decode_event env (the (me (log_key n))) = Inr ev"
  shows "\<exists>out. scan_log env visit keep limit (map Inr (map (\<lambda>n. (log_key n, the (me (log_key n)))) ns)) = Inr out"
  using assms
proof (induction ns arbitrary: limit)
  case (Cons n ns)
  obtain ev where dec: "decode_event env (the (me (log_key n))) = Inr ev" using Cons.prems [of n] by auto
  have rest: "\<exists>out. scan_log env visit keep l (map Inr (map (\<lambda>n. (log_key n, the (me (log_key n)))) ns)) = Inr out" for l
    by (rule Cons.IH) (use Cons.prems in simp)
  obtain out1 out2 where "scan_log env visit keep limit (map Inr (map (\<lambda>n. (log_key n, the (me (log_key n)))) ns)) = Inr out1"
    "scan_log env visit keep (map_option (\<lambda>n. n - 1) limit) (map Inr (map (\<lambda>n. (log_key n, the (me (log_key n)))) ns)) = Inr out2"
    using rest by metis
  then show ?case using dec by (simp split: option.split bool.split)
qed simp

lemma live_decode:
  assumes "log_inv env plain (view db) seq" "n \<in> set (live_numbers (view db EventsPart) seq)"
  shows "decode_event env (the (view db EventsPart (log_key n))) = Inr (live_event env (view db EventsPart) n)"
proof -
  obtain b where b: "view db EventsPart (log_key n) = Some b" using assms(2) by (auto simp: live_numbers_def)
  then show ?thesis using live_decodes [of env "view db EventsPart" "view db ArchivePart" seq n b] assms(1)
    by (metis decode_event_def log_inv_def map_sum.simps(2) option.sel)
qed

lemma scan_total:
  assumes "log_env_ok env view" "log_inv env plain (view db) seq" "seq \<le> u64_max" "reads_ok env db"
  shows "\<exists>out. scan_log env visit keep limit (lg_prefix env db EventsPart ''log:'') = Inr out"
  unfolding reads_okD(2) [OF assms(4) scanned_log [OF assms(1-3)]]
  by (rule scan_log_total) (use live_decode [where view = view and db = db, OF assms(2)] in blast)

lemma scan_index_total:
  assumes "\<And>n bytes. log_get env db EventsPart (log_key n) = Inr (Some bytes) \<Longrightarrow> \<exists>ev. decode_event env bytes = Inr ev" and "reads_ok env db"
  shows "\<exists>out. scan_index env keep b limit db (map Inr kvs) = Inr out"
proof (induction kvs arbitrary: limit)
  case (Cons kv kvs)
  obtain k v where kv: "kv = (k, v)" by force
  note rest = Cons.IH
  show ?case
  proof (cases "parse_seq_from_index_key k")
    case (Some n)
    obtain r where r: "log_get env db EventsPart (log_key n) = Inr r" using reads_okD(1) [OF assms(2)] by blast
    show ?thesis
    proof (cases r)
      case (Some bytes)
      with assms(1) [of n bytes] r obtain ev where "decode_event env bytes = Inr ev" by auto
      then show ?thesis using kv r Some \<open>parse_seq_from_index_key k = Some n\<close> rest [of limit] rest [of "map_option (\<lambda>n. n - 1) limit"] by auto
    qed (use kv r \<open>parse_seq_from_index_key k = Some n\<close> rest [of limit] in auto)
  qed (use kv rest [of limit] in auto)
qed simp

lemma query_indexed_total:
  assumes ok: "log_env_ok env view" and inv: "log_inv env plain (view db) seq" and bound: "seq \<le> u64_max" and reads: "reads_ok env db"
  shows "\<exists>out. query_indexed env pre condition f db = Inr out"
proof -
  have ev: "events_inv env (view db EventsPart) (view db ArchivePart) seq" using inv by (simp add: log_inv_def)
  obtain r where r: "log_get env db MetaPart ''meta:index_start_seq'' = Inr r" using reads_okD(1) [OF reads] by blast
  have "length b = 8" if "r = Some b" for b
    using log_get_view [OF ok r] that inv by (auto simp: log_inv_def meta_inv_def)
  then obtain start where start: "index_start_seq env db = Inr start"
    using r by (cases r) (auto simp: index_start_seq_def from_be_bytes_def)
  obtain kvs where kvs: "lg_prefix env db EventsPart pre = map Inr kvs"
    using scanned_prefix [OF ok, of db EventsPart pre] reads_okD(2) [OF reads] by metis
  have prefix: "\<exists>out. query_by_index_prefix env pre f' b condition db = Inr out" for f' b
    unfolding query_by_index_prefix_def kvs
  proof (rule scan_index_total [OF _ reads])
    fix n bytes assume "log_get env db EventsPart (log_key n) = Inr (Some bytes)"
    from log_get_view [OF ok this] have "view db EventsPart (log_key n) = Some bytes" by simp
    from live_decodes [OF ev this] show "\<exists>ev. decode_event env bytes = Inr ev" by (metis decode_event_def map_sum.simps(2))
  qed
  have scans: "\<exists>out. scan_all_events_before_seq env f' b condition db = Inr out"
    "\<exists>out. scan_all_events_with_condition env f' condition db = Inr out" for f' b
    unfolding scan_all_events_before_seq_def scan_all_events_with_condition_def by (rule scan_total [OF ok inv bound reads])+
  obtain has where has: "has_index_data_for_prefix env pre db = Inr has"
    by (cases kvs) (auto simp: has_index_data_for_prefix_def kvs)
  let ?f = "f\<lparr>ef_limit := None\<rparr>"
  obtain out1 out2 out3 where "query_by_index_prefix env pre ?f start condition db = Inr out1"
    "scan_all_events_before_seq env ?f start condition db = Inr out2" "scan_all_events_with_condition env ?f condition db = Inr out3"
    using prefix scans by metis
  then show ?thesis using start has by (cases has) (auto simp: query_indexed_def Let_def)
qed

lemma query_total:
  assumes ok: "log_env_ok env view" and inv: "log_inv env plain (view (es_db st)) (es_seq st)" and bound: "es_seq st \<le> u64_max"
    and reads: "reads_ok env (es_db st)"
  shows "\<exists>out. query env f st = Inr out"
proof -
  note total = scan_total [OF ok inv bound reads] query_indexed_total [OF ok inv bound reads]
  have part: "\<exists>evs. query_by_aggregate env a f (es_db st) = Inr evs" "\<exists>evs. query_by_task env t f (es_db st) = Inr evs"
    "\<exists>evs. query_by_review env r f (es_db st) = Inr evs" "\<exists>evs. query_by_agent env b f (es_db st) = Inr evs"
    "\<exists>evs. scan_all_events env f (es_db st) = Inr evs" for a t r b
    unfolding query_by_aggregate_def scan_all_events_with_condition_def query_by_task_def query_by_review_def query_by_agent_def scan_all_events_def
    by (rule total)+
  have mapped: "\<exists>evs. x = Inr evs \<Longrightarrow> \<exists>out. map_sum id g x = Inr out" for x :: "(store_error, event list) result" and g :: "event list \<Rightarrow> event list"
    by auto
  show ?thesis unfolding query_def by (rule mapped) (simp add: part split: option.split)
qed

subsection \<open>The documented meaning of a filter\<close>

text \<open>
  \<open>EventFilter\<close> lists its fields as conditions of their own: the aggregate, the task, the review, the
  agent and the session an event belongs to, its kind and its time; an event matches when it
  meets all those given. The session is the field of that name, of the kinds that have one.
\<close>

fun event_session_id :: "event_kind \<Rightarrow> session_id option" where
  "event_session_id (AgentSpawned _ s _) = Some s"
| "event_session_id (AgentDied _ s _) = Some s"
| "event_session_id (PromptSent s _ _) = Some s"
| "event_session_id (PromptCancelled s _ _) = Some s"
| "event_session_id (ResponseReceived s _ _) = Some s"
| "event_session_id (PermissionRequested s _ _) = Some s"
| "event_session_id (PermissionResolved s _ _) = Some s"
| "event_session_id (OperationStarted s _) = Some s"
| "event_session_id (OperationCompleted s _ _) = Some s"
| "event_session_id (NudgeSent s _ _) = Some s"
| "event_session_id (NudgeAcknowledged s _) = Some s"
| "event_session_id (NudgeActedOn s _ _) = Some s"
| "event_session_id (NudgeTimedOut s _ _ _) = Some s"
| "event_session_id (StuckDetected s _ _) = Some s"
| "event_session_id (RunClaimedEvent _ _ _ _ s _ _) = s"
| "event_session_id _ = None"

definition selected :: "'a option \<Rightarrow> 'a option \<Rightarrow> bool" where
  "selected wanted given \<longleftrightarrow> wanted = None \<or> given = wanted"

definition documented_match :: "event_filter \<Rightarrow> event \<Rightarrow> bool" where
  "documented_match f ev \<longleftrightarrow>
     selected (ef_aggregate_id f) (Some (ev_aggregate_id ev)) \<and>
     selected (ef_task_id f) (event_task_id (ev_kind ev)) \<and>
     selected (ef_review_id f) (event_review_id (ev_kind ev)) \<and>
     selected (ef_agent_id f) (event_agent_id (ev_kind ev)) \<and>
     selected (ef_session_id f) (event_session_id (ev_kind ev)) \<and>
     (case ef_kinds f of None \<Rightarrow> True | Some ks \<Rightarrow> ev_kind ev \<in> set ks) \<and>
     (case ef_since f of None \<Rightarrow> True | Some t \<Rightarrow> t \<le> ev_timestamp ev) \<and>
     (case ef_until f of None \<Rightarrow> True | Some t \<Rightarrow> ev_timestamp ev \<le> t)"

text \<open>Where the store departs from it: it uses one selector and no session, and by task or
  by review it never returns the following kinds, although they belong to a task or a review.\<close>

definition one_selector :: "event_filter \<Rightarrow> bool" where
  "one_selector f \<longleftrightarrow> ef_session_id f = None \<and>
     length (filter (\<lambda>x. x \<noteq> None) [ef_aggregate_id f, ef_task_id f, ef_review_id f, ef_agent_id f]) \<le> 1"

fun overlooked_by_task :: "event_kind \<Rightarrow> bool" where
  "overlooked_by_task (WorkerReassigned _ _ _ _ _) = True"
| "overlooked_by_task (ProofEvent _ _ _) = True"
| "overlooked_by_task (ProofIntegrationRecorded _ _ _ _) = True"
| "overlooked_by_task (ProofBlockerRecorded _ _ _ _) = True"
| "overlooked_by_task (FeedbackTriggerDetected _ _ _ _ _ _ _ _ _ _) = True"
| "overlooked_by_task (FeedbackEvent _ _) = True"
| "overlooked_by_task _ = False"

fun overlooked_by_review :: "event_kind \<Rightarrow> bool" where
  "overlooked_by_review (ProofEvent _ _ _) = True"
| "overlooked_by_review _ = False"

definition overlooked :: "event_filter \<Rightarrow> event \<Rightarrow> bool" where
  "overlooked f ev \<longleftrightarrow>
     ef_task_id f \<noteq> None \<and> overlooked_by_task (ev_kind ev) \<or> ef_review_id f \<noteq> None \<and> overlooked_by_review (ev_kind ev)"

lemma task_condition_iff: "task_condition t k \<longleftrightarrow> event_task_id k = Some t \<and> \<not> overlooked_by_task k"
  by (cases k) auto

lemma review_condition_iff: "review_condition r k \<longleftrightarrow> event_review_id k = Some r \<and> \<not> overlooked_by_review k"
  by (cases k) auto

lemma agent_condition_iff: "agent_condition a k \<longleftrightarrow> event_agent_id k = Some a"
  by (cases k) auto

lemma exact_match_documented: "one_selector f \<Longrightarrow> exact_match f ev \<longleftrightarrow> documented_match f ev \<and> \<not> overlooked f ev"
proof -
  assume one: "one_selector f"
  have "query_condition f ev \<longleftrightarrow>
     selected (ef_aggregate_id f) (Some (ev_aggregate_id ev)) \<and> selected (ef_task_id f) (event_task_id (ev_kind ev)) \<and>
     selected (ef_review_id f) (event_review_id (ev_kind ev)) \<and> selected (ef_agent_id f) (event_agent_id (ev_kind ev)) \<and> \<not> overlooked f ev"
    using one unfolding query_condition_def one_selector_def selected_def overlooked_def
    by (auto simp: task_condition_iff review_condition_iff agent_condition_iff split: option.splits if_splits)
  with one show ?thesis unfolding exact_match_def documented_match_def one_selector_def selected_def by blast
qed

text \<open>
  C17: a query answers from the index what its documented meaning gives on the log: for a filter with at most
  one of the selectors aggregate, task, review and agent, and no session, after any history, the answer is the
  events not yet archived that match the filter, in the order of the log, up to the limit, except
  that a query by task leaves out reassignments, proof and feedback events, and one by review proof events; it fails only
  when the database does. The time range is compared by whole seconds before the limit is
  applied, so the limit is exact for a filter without limit, or with a selector, a start at a whole second and no end.
\<close>

theorem query_exact:
  assumes "log_env_ok env view" "view db0 = (\<lambda>p. Map.empty)" "list_all (action_ok plain) as" "action_total as \<le> u64_max"
    and "log_run env as (fresh_store db0) = (st, evs)" "exact_limit f" "one_selector f"
  shows "query env f st =
      Inr (cap (ef_limit f) (filter (\<lambda>ev. documented_match f ev \<and> \<not> overlooked f ev) (live_events env (view (es_db st)) (es_seq st)))) \<or>
    (\<exists>err. query env f st = Inl err \<and> \<not> reads_ok env (es_db st))"
proof -
  have inv: "log_inv env plain (view (es_db st)) (es_seq st)" "es_seq st \<le> u64_max"
    using fresh_history [OF assms(1-5)] assms(4) by auto
  have "exact_match f = (\<lambda>ev. documented_match f ev \<and> \<not> overlooked f ev)"
    by (rule ext) (rule exact_match_documented [OF assms(7)])
  then show ?thesis
    using query_against_log [OF assms(1) inv assms(6)] query_total [OF assms(1) inv, of f] by (cases "query env f st") auto
qed

text \<open>
  a query with a limit and no selector looks only at the first \<open>limit\<close> events of the log and
  filters them afterwards, so it may miss matching events although the limit is not reached.
\<close>

theorem query_limit_before_filter:
  assumes "log_env_ok env view" "view db0 = (\<lambda>p. Map.empty)" "list_all (action_ok plain) as" "action_total as \<le> u64_max"
    and "log_run env as (fresh_store db0) = (st, evs)" "query env f st = Inr out" "ef_limit f = Some l"
    and "ef_aggregate_id f = None" "ef_task_id f = None" "ef_review_id f = None" "ef_agent_id f = None"
  shows "out = filter (exact_match f) (take l (live_events env (view (es_db st)) (es_seq st)))"
proof -
  let ?live = "live_events env (view (es_db st)) (es_seq st)"
  obtain evs' where evs: "scan_all_events env f (es_db st) = Inr evs'" "out = take l (apply_filters f evs')"
    using assms(6-) by (cases "scan_all_events env f (es_db st)") (auto simp: query_def cap_def)
  have "evs' = take l ?live"
    using scan_all_exact [OF assms(1) fresh_history(1) [OF assms(1-5)] _ evs(1)] fresh_history(2,4) [OF assms(1-5)] assms(4,7)
    by (simp add: cap_def)
  moreover have "apply_filters f evs' = filter (exact_match f) evs'"
    using assms(8-) by (simp add: apply_filters_def exact_match_def [abs_def] query_condition_def)
  moreover have "length (filter (exact_match f) (take l ?live)) \<le> l" by (rule le_trans [OF length_filter_le]) simp
  ultimately show ?thesis using evs(2) by simp
qed

definition demo_filter :: event_filter where
  "demo_filter = \<lparr>ef_aggregate_id = None, ef_kinds = None, ef_agent_id = None, ef_task_id = None, ef_review_id = None,
     ef_session_id = None, ef_since = None, ef_until = None, ef_limit = Some 1\<rparr>"

lemma demo_live:
  assumes "demo_view (es_db st2) EventsPart (log_key 1) = Some ''1''" "demo_view (es_db st2) EventsPart (log_key 2) = Some ''2''"
  shows "live_events demo_log (demo_view (es_db st2)) 2 = [demo_created, demo_assigned]"
proof -
  have "lg_decode demo_log ''1'' = Inr (build_event_envelope demo_created 1 None)"
    "lg_decode demo_log ''2'' = Inr (build_event_envelope demo_assigned 2 (Some ''k''))"
    by (simp_all add: demo_log_def demo_envelopes_def)
  with assms show ?thesis
    by (simp add: live_events_def live_numbers_def live_event_def hot_def build_event_envelope_def numeral_2_eq_2)
qed

lemma demo_reads: "reads_ok demo_log db"
  by (auto simp: reads_ok_def demo_log_def)

lemma demo_two_ok: "list_all (action_ok demo_plain_key) (take 2 demo_actions)" "action_total (take 2 demo_actions) \<le> u64_max"
  by (simp_all add: demo_actions_def demo_plain_key_def action_total_def u64_max_def)

theorem query_exact_witness:
  "query demo_log (demo_filter\<lparr>ef_agent_id := Some ''A1'', ef_since := Some 2000\<rparr>)
     (fst (log_run demo_log (take 2 demo_actions) (fresh_store demo_empty))) = Inr [demo_assigned]"
proof -
  obtain st1 st2 where run: "log_run demo_log (take 2 demo_actions) (fresh_store demo_empty) = (st2, [demo_created, demo_assigned])"
    and live: "demo_view (es_db st2) EventsPart (log_key 1) = Some ''1''" "demo_view (es_db st2) EventsPart (log_key 2) = Some ''2''"
    by (rule demo_two)
  have seq: "es_seq st2 = 2" using fresh_history(2) [OF demo_log_ok demo_view_empty demo_two_ok run] by simp
  let ?f = "demo_filter\<lparr>ef_agent_id := Some ''A1'', ef_since := Some 2000\<rparr>"
  have f: "exact_limit ?f" "one_selector ?f" by (simp_all add: exact_limit_def one_selector_def demo_filter_def)
  from query_exact [OF demo_log_ok demo_view_empty demo_two_ok run f] demo_reads run seq demo_live [OF live] show ?thesis
    by (simp add: documented_match_def overlooked_def selected_def demo_filter_def cap_def demo_created_def demo_assigned_def)
qed

theorem query_limit_before_filter_witness:
  "query demo_log (demo_filter\<lparr>ef_kinds := Some [TaskAssigned ''T1'' ''A1'']\<rparr>)
     (fst (log_run demo_log (take 2 demo_actions) (fresh_store demo_empty))) = Inr []"
proof -
  obtain st1 st2 where run: "log_run demo_log (take 2 demo_actions) (fresh_store demo_empty) = (st2, [demo_created, demo_assigned])"
    and live: "demo_view (es_db st2) EventsPart (log_key 1) = Some ''1''" "demo_view (es_db st2) EventsPart (log_key 2) = Some ''2''"
    by (rule demo_two)
  note hist = fresh_history [OF demo_log_ok demo_view_empty demo_two_ok run]
  have seq: "es_seq st2 = 2" "es_seq st2 \<le> u64_max" using hist(2) by (simp_all add: u64_max_def)
  let ?f = "demo_filter\<lparr>ef_kinds := Some [TaskAssigned ''T1'' ''A1'']\<rparr>"
  obtain out where out: "query demo_log ?f st2 = Inr out" using query_total [OF demo_log_ok hist(1) seq(2) demo_reads] by blast
  from query_limit_before_filter [OF demo_log_ok demo_view_empty demo_two_ok run out, of 1] run seq demo_live [OF live] out show ?thesis
    by (simp add: exact_match_def query_condition_def demo_filter_def demo_created_def demo_assigned_def)
qed

end
