(* ===== verification/Event_Appending.thy ===== *)
theory Event_Appending
  imports Events
begin

text \<open>
  The contract of an event store towards those who only append: an accepted event becomes the
  last one of the log under the next number, a refused one changes nothing.
\<close>

fun append_each :: "(event \<Rightarrow> 'es \<Rightarrow> 'es \<times> (string, event_id) result) \<Rightarrow> event list \<Rightarrow> 'es \<Rightarrow> 'es \<times> (string, unit) result" where
  \<comment> \<open>appends in order, each with the operator \<open>?\<close>\<close>
  "append_each app [] es = (es, Inr ())"
| "append_each app (ev # evs) es =
     (case app ev es of (es', Inl e) \<Rightarrow> (es', Inl e) | (es', Inr n) \<Rightarrow> append_each app evs es')"

locale event_appender =
  fixes app :: "event \<Rightarrow> 'es \<Rightarrow> 'es \<times> (string, event_id) result"
    and events :: "'es \<Rightarrow> event list"
    and valid :: "'es \<Rightarrow> bool"
  assumes append_law: "valid es \<Longrightarrow> app ev es = (es', r) \<Longrightarrow>
      valid es' \<and> (case r of Inl e \<Rightarrow> events es' = events es | Inr n \<Rightarrow> events es' = events es @ [ev] \<and> n = Suc (length (events es)))"
begin

lemma each_law:
  assumes "valid es" "append_each app evs es = (es', r)"
  shows "valid es' \<and> (\<exists>k \<le> length evs. events es' = events es @ take k evs \<and> (r = Inr () \<longrightarrow> k = length evs))"
  using assms
proof (induction evs arbitrary: es)
  case (Cons ev evs)
  obtain es1 r1 where a: "app ev es = (es1, r1)" by force
  note law = append_law [OF Cons.prems(1) a]
  show ?case
  proof (cases r1)
    case (Inl e)
    with Cons.prems(2) a law show ?thesis by auto
  next
    case (Inr n)
    with Cons.prems(2) a have rest: "append_each app evs es1 = (es', r)" by simp
    from law Inr have "valid es1" by simp
    from Cons.IH [OF this rest] obtain k where k: "k \<le> length evs" "valid es'" "events es' = events es1 @ take k evs"
      "r = Inr () \<longrightarrow> k = length evs" by blast
    with law Inr show ?thesis by (intro conjI exI [of _ "Suc k"]) auto
  qed
qed simp

end

end
