(* ===== verification/Utf8_Text.thy ===== *)
theory Utf8_Text
  imports Rust_Strings
begin

text \<open>
  \<open>String::from_utf8_lossy\<close>, which decodes bytes and puts the replacement character for every
  maximal part of an invalid sequence.
\<close>

subsection \<open>Decoding bytes\<close>

definition replacement_char :: string where
  "replacement_char = [CHR 0xEF, CHR 0xBF, CHR 0xBD]"

definition byte_in :: "nat \<Rightarrow> nat \<Rightarrow> char \<Rightarrow> bool" where
  "byte_in lo hi c \<longleftrightarrow> (let v = of_char c :: nat in lo \<le> v \<and> v \<le> hi)"

definition second_byte :: "nat \<Rightarrow> (nat \<times> nat \<times> nat) option" where
  \<comment> \<open>the range of the second byte and the number of further ones, by the first byte\<close>
  "second_byte v =
     (if 0xC2 \<le> v \<and> v \<le> 0xDF then Some (0x80, 0xBF, 0)
      else if v = 0xE0 then Some (0xA0, 0xBF, 1)
      else if v = 0xED then Some (0x80, 0x9F, 1)
      else if 0xE1 \<le> v \<and> v \<le> 0xEF then Some (0x80, 0xBF, 1)
      else if v = 0xF0 then Some (0x90, 0xBF, 2)
      else if 0xF1 \<le> v \<and> v \<le> 0xF3 then Some (0x80, 0xBF, 2)
      else if v = 0xF4 then Some (0x80, 0x8F, 2)
      else None)"

definition decode_char :: "char \<Rightarrow> string \<Rightarrow> nat \<times> bool" where
  \<comment> \<open>how many further bytes the first sequence takes, and whether it is a character\<close>
  "decode_char c s =
     (let v = of_char c :: nat in
      if v < 128 then (0, True)
      else case second_byte v of
        None \<Rightarrow> (0, False)
      | Some (lo, hi, n) \<Rightarrow>
          if s = [] \<or> \<not> byte_in lo hi (hd s) then (0, False)
          else let k = length (takeWhile (byte_in 0x80 0xBF) (take n (tl s))) in (Suc k, k = n))"

function from_utf8_lossy :: "string \<Rightarrow> string" where
  "from_utf8_lossy [] = []"
| "from_utf8_lossy (c # s) =
     (case decode_char c s of
        (n, valid) \<Rightarrow> (if valid then c # take n s else replacement_char) @ from_utf8_lossy (drop n s))"
  by pat_completeness auto
termination by (relation "measure length") auto

lemma from_utf8_lossy_ascii: "list_all (\<lambda>c. (of_char c :: nat) < 128) s \<Longrightarrow> from_utf8_lossy s = s"
  by (induction s) (simp_all add: decode_char_def)

end
