(* ===== verification/Feedback_Triggers.thy ===== *)
theory Feedback_Triggers
  imports Event_Appending Utf8_Text
begin

text \<open>
  \<open>crates/brehon-supervisor/src/feedback/trigger.rs\<close>: the triggers that call for a decision of the
  supervisor, derived from a range of events and from snapshots, without duplicates. Strings are
  their UTF-8 bytes; lengths in characters count the characters those encode.
\<close>

subsection \<open>Characters\<close>

definition ellipsis :: string where
  "ellipsis = [CHR 0xE2, CHR 0x80, CHR 0xA6]"

definition compact :: "string \<Rightarrow> nat \<Rightarrow> string" where
  "compact s max_chars =
     (let cs = utf8_chars (trim s) in
      if length cs \<le> max_chars then trim s else concat (take (max_chars - 1) cs) @ ellipsis)"

definition sanitize_id_component :: "string \<Rightarrow> string" where
  "sanitize_id_component s =
     map (\<lambda>cs. case cs of
         [c] \<Rightarrow> (let b = (of_char c :: nat) in
                 if 48 \<le> b \<and> b \<le> 57 \<or> 65 \<le> b \<and> b \<le> 90 \<or> 97 \<le> b \<and> b \<le> 122 \<or> c = CHR ''-'' \<or> c = CHR ''_'' then c else CHR ''_'')
       | _ \<Rightarrow> CHR ''_'') (utf8_chars s)"

subsection \<open>Snapshots and policy\<close>

record trigger_policy =
  tp_stuck_on_nudge_timeout :: bool
  tp_failure_on_retry_exhausted :: bool

definition default_trigger_policy :: trigger_policy where
  "default_trigger_policy = \<lparr>tp_stuck_on_nudge_timeout = True, tp_failure_on_retry_exhausted = True\<rparr>"

record reviewer_followup_snapshot =
  fs_followup_id :: string
  fs_task_id :: string
  fs_review_id :: "string option"
  fs_severity :: string
  fs_summary :: string

record run_activity_snapshot =
  as_run_id :: "run_id option"
  as_task_id :: "task_id option"
  as_session_id :: "session_id option"
  as_stale_since :: "time option"
  as_stale_reason :: string

record permission_snapshot =
  ps_permission_id :: string
  ps_session_id :: session_id
  ps_task_id :: "task_id option"
  ps_status :: string
  ps_action :: string

record nudge_snapshot =
  ns_session_id :: session_id
  ns_task_id :: "task_id option"
  ns_run_id :: "run_id option"
  ns_nudge_kind :: string
  ns_elapsed_secs :: nat

record detector_input =
  di_events :: "(event_id \<times> event) list"
  di_open_followups :: "reviewer_followup_snapshot list"
  di_stuck_runs :: "run_activity_snapshot list"
  di_pending_permissions :: "permission_snapshot list"
  di_timed_out_nudges :: "nudge_snapshot list"
  di_known_dedup_keys :: "string list"
  di_policy :: trigger_policy

subsection \<open>Building a trigger\<close>

definition derive_trigger_id ::
    "feedback_trigger_kind \<Rightarrow> task_id option \<Rightarrow> run_id option \<Rightarrow> review_id option \<Rightarrow> json \<Rightarrow> string" where
  "derive_trigger_id kind t r rv payload =
     (let scope = (if kind = ReviewerFollowupTrigger then or_dash (followup_scope payload) else ''-'') in
      ''fb-'' @ trigger_kind_str kind @ ''-'' @ or_dash t @ ''-'' @ or_dash r @ ''-'' @ or_dash rv @ ''-'' @ sanitize_id_component scope)"

definition make_trigger ::
    "feedback_trigger_kind \<Rightarrow> task_id option \<Rightarrow> run_id option \<Rightarrow> review_id option \<Rightarrow> event_id list \<Rightarrow>
      (event_id \<times> event_id) option \<Rightarrow> time \<Rightarrow> string \<Rightarrow> json \<Rightarrow> feedback_trigger" where
  "make_trigger kind t r rv sources covered created summary payload =
     \<lparr>ft_trigger_id = derive_trigger_id kind t r rv payload, ft_kind = kind, ft_task_id = t, ft_run_id = r, ft_review_id = rv,
      ft_source_event_ids = sources, ft_covered_event_range = covered, ft_summary = summary, ft_payload = payload,
      ft_created_at = created\<rparr>"

definition covered_range :: "(event_id \<times> event) list \<Rightarrow> (event_id \<times> event_id) option" where
  "covered_range evs =
     (if evs = [] then None
      else let first = fst (hd evs); final = fst (last evs) in if first \<le> final then Some (first, final) else Some (final, first))"

definition task_id_from_aggregate :: "string \<Rightarrow> task_id option" where
  "task_id_from_aggregate s = (if trim s = [] then None else Some (trim s))"

definition event_triggers ::
    "trigger_policy \<Rightarrow> (event_id \<times> event_id) option \<Rightarrow> event_id \<times> event \<Rightarrow> feedback_trigger list" where
  \<comment> \<open>the match on one event\<close>
  "event_triggers pol covered = (\<lambda>(n, ev).
     case ev_kind ev of
       ReviewChangesRequested rv \<Rightarrow>
         [make_trigger ReviewChangesTrigger None None (Some rv) [n] covered (ev_timestamp ev)
            (''Review '' @ rv @ '' consolidated as changes_requested.'') (JObj [(''review_id'', JStr rv)])]
     | ReviewRejected rv \<Rightarrow>
         [make_trigger ReviewChangesTrigger None None (Some rv) [n] covered (ev_timestamp ev)
            (''Review '' @ rv @ '' consolidated as rejected.'') (JObj [(''review_id'', JStr rv)])]
     | RunFailedEvent r t role gen reason at \<Rightarrow>
         [make_trigger WorkerFailedTrigger (Some t) (Some r) None [n] covered at
            (''Run '' @ r @ '' failed: '' @ reason) (JObj [(''generation'', JNum (unat gen)), (''reason'', JStr reason)])]
     | RunAbandonedEvent r t role gen reason at \<Rightarrow>
         (if tp_failure_on_retry_exhausted pol
          then [make_trigger WorkerFailedTrigger (Some t) (Some r) None [n] covered at
                 (''Run '' @ r @ '' abandoned: '' @ reason) (JObj [(''reason'', JStr reason)])] else [])
     | StaleRunMutationRejected r t role attempted current mutation \<Rightarrow>
         [make_trigger StaleClaimTrigger (Some t) (Some r) None [n] covered (ev_timestamp ev)
            (''Stale run mutation '' @ [CHR 0x27] @ mutation @ [CHR 0x27] @ '' rejected for run '' @ r @ '': attempt gen '' @
             show_nat (unat attempted) @ '' vs current gen '' @ show_nat (unat current) @ ''.'')
            (JObj [(''mutation'', JStr mutation), (''attempted_generation'', JNum (unat attempted)),
                   (''current_generation'', JNum (unat current))])]
     | ProofBlockerRecorded bundle t blocker at \<Rightarrow>
         (if pb_status blocker = BlockerOpen
          then [make_trigger WorkerBlockedTrigger (Some t) None None [n] covered (ev_timestamp ev)
                 (''Open proof blocker on task '' @ t @ '': '' @ compact (pb_summary blocker) 200)
                 (JObj [(''blocker_id'', json_opt (pb_blocker_id blocker)), (''source'', json_opt (pb_source blocker))])] else [])
     | ProofIntegrationRecorded bundle t i at \<Rightarrow>
         (if pi_conflicts i \<noteq> [] \<or> pi_status i = ''aborted'' \<or> pi_status i = ''conflict''
          then [make_trigger IntegrationConflictTrigger (Some t) None None [n] covered (ev_timestamp ev)
                 (''Integration on task '' @ t @ '' recorded status '' @ [CHR 0x27] @ pi_status i @ [CHR 0x27] @ '' with '' @
                  show_nat (length (pi_conflicts i)) @ '' conflict file(s).'')
                 (JObj [(''status'', JStr (pi_status i)), (''conflicts'', JArr (map JStr (pi_conflicts i))),
                        (''branch'', json_opt (pi_branch i)), (''base_branch'', json_opt (pi_base_branch i))])] else [])
     | EscalationTriggered reason context \<Rightarrow>
         [make_trigger CloseGateBlockedTrigger (task_id_from_aggregate (ev_aggregate_id ev)) None None [n] covered (ev_timestamp ev)
            (''Escalation triggered: '' @ compact reason 80 @ '' '' @ [CHR 0xE2, CHR 0x80, CHR 0x94] @ '' '' @ compact context 120)
            (JObj [(''reason'', JStr reason)])]
     | _ \<Rightarrow> [])"

definition followup_trigger :: "time \<Rightarrow> (event_id \<times> event_id) option \<Rightarrow> reviewer_followup_snapshot \<Rightarrow> feedback_trigger" where
  "followup_trigger now covered f =
     make_trigger ReviewerFollowupTrigger (Some (fs_task_id f)) None (fs_review_id f) [] covered now
       (''Open reviewer follow-up '' @ fs_followup_id f @ '' on task '' @ fs_task_id f @ '': '' @ compact (fs_summary f) 160)
       (JObj [(''followup_id'', JStr (fs_followup_id f)), (''severity'', JStr (fs_severity f))])"

definition stuck_run_trigger ::
    "time \<Rightarrow> (time \<Rightarrow> string) \<Rightarrow> (event_id \<times> event_id) option \<Rightarrow> run_activity_snapshot \<Rightarrow> feedback_trigger" where
  \<comment> \<open>\<open>rfc3339\<close> is the formatting of a time\<close>
  "stuck_run_trigger now rfc3339 covered a =
     (let unknown = (\<lambda>x. case x of None \<Rightarrow> ''(unknown)'' | Some v \<Rightarrow> v) in
      make_trigger WorkerStuckTrigger (as_task_id a) (as_run_id a) None [] covered
        (case as_stale_since a of None \<Rightarrow> now | Some t \<Rightarrow> t)
        (''Run '' @ unknown (as_run_id a) @ '' on task '' @ unknown (as_task_id a) @ '' appears stuck: '' @ compact (as_stale_reason a) 120)
        (JObj ((case as_session_id a of None \<Rightarrow> [] | Some s \<Rightarrow> [(''session_id'', JStr s)]) @
               (case as_stale_since a of None \<Rightarrow> [] | Some t \<Rightarrow> [(''stale_since'', JStr (rfc3339 t))]))))"

definition nudge_trigger :: "time \<Rightarrow> (event_id \<times> event_id) option \<Rightarrow> nudge_snapshot \<Rightarrow> feedback_trigger" where
  "nudge_trigger now covered n =
     make_trigger WorkerStuckTrigger (ns_task_id n) (ns_run_id n) None [] covered now
       (''Nudge '' @ [CHR 0x27] @ ns_nudge_kind n @ [CHR 0x27] @ '' timed out after '' @ show_nat (ns_elapsed_secs n) @ ''s on session '' @
        ns_session_id n @ ''.'')
       (JObj [(''session_id'', JStr (ns_session_id n)), (''nudge_kind'', JStr (ns_nudge_kind n)),
              (''elapsed_secs'', JNum (ns_elapsed_secs n))])"

definition permission_trigger :: "time \<Rightarrow> (event_id \<times> event_id) option \<Rightarrow> permission_snapshot \<Rightarrow> feedback_trigger" where
  "permission_trigger now covered p =
     make_trigger PermissionBlockedTrigger (ps_task_id p) None None [] covered now
       (''Permission '' @ [CHR 0x27] @ ps_permission_id p @ [CHR 0x27] @ '' status '' @ ps_status p @ '' on session '' @ ps_session_id p @
        '' for action '' @ compact (ps_action p) 80 @ ''.'')
       (JObj [(''permission_id'', JStr (ps_permission_id p)), (''status'', JStr (ps_status p)), (''session_id'', JStr (ps_session_id p))])"

subsection \<open>Detection\<close>

definition derive_triggers :: "time \<Rightarrow> (time \<Rightarrow> string) \<Rightarrow> detector_input \<Rightarrow> feedback_trigger list" where
  \<comment> \<open>before the removal of duplicates\<close>
  "derive_triggers now rfc3339 inp =
     (let covered = covered_range (di_events inp); pol = di_policy inp in
      concat (map (event_triggers pol covered) (di_events inp)) @
      map (followup_trigger now covered) (di_open_followups inp) @
      map (stuck_run_trigger now rfc3339 covered) (di_stuck_runs inp) @
      (if tp_stuck_on_nudge_timeout pol then map (nudge_trigger now covered) (di_timed_out_nudges inp) else []) @
      map (permission_trigger now covered) (di_pending_permissions inp))"

fun dedup_triggers :: "string list \<Rightarrow> feedback_trigger list \<Rightarrow> feedback_trigger list" where
  \<comment> \<open>the first trigger of every key that is not known\<close>
  "dedup_triggers known [] = []"
| "dedup_triggers known (t # ts) =
     (if dedup_key t \<in> set known then dedup_triggers known ts else t # dedup_triggers (dedup_key t # known) ts)"

definition detect_triggers :: "time \<Rightarrow> (time \<Rightarrow> string) \<Rightarrow> detector_input \<Rightarrow> feedback_trigger list" where
  "detect_triggers now rfc3339 inp = dedup_triggers (di_known_dedup_keys inp) (derive_triggers now rfc3339 inp)"

subsection \<open>New triggers\<close>

lemma dedup_triggers_new:
  "distinct (map dedup_key (dedup_triggers known ts)) \<and> set (map dedup_key (dedup_triggers known ts)) \<inter> set known = {}"
  by (induction ts arbitrary: known) (fastforce split: if_splits)+

end
