(* ===== verification/Feedback_Lifecycle.thy ===== *)
theory Feedback_Lifecycle
  imports Feedback_Triggers "HOL-Library.Char_ord" "HOL-Library.List_Lexorder"
begin

text \<open>
  The answer to a feedback trigger, \<open>crates/brehon-supervisor/src/feedback\<close>: the bounded brief
  (\<open>brief.rs\<close>), the validation of an outcome (\<open>outcome.rs\<close>), the plan that carries it out
  (\<open>apply.rs\<close>) and the recorded lifecycle (\<open>lifecycle.rs\<close>), with the types of
  \<open>brehon-types/src/feedback.rs\<close>. The event store and the executor of plans are arguments; the
  file written by \<open>cache.rs\<close> is part of the result.
\<close>

subsection \<open>Policy, brief, outcome\<close>

definition feedback_contract_version :: nat where
  "feedback_contract_version = 1"

record feedback_policy =
  fp_allowed_outcomes :: "feedback_outcome_kind list" \<comment> \<open>a \<open>BTreeSet\<close>, in ascending order\<close>
  fp_rationale_min_chars :: nat
  fp_rationale_max_chars :: nat
  fp_max_brief_bytes :: nat
  fp_allow_drain :: bool
  fp_allow_safe_mode :: bool

definition conservative_policy :: feedback_policy where
  "conservative_policy =
     \<lparr>fp_allowed_outcomes = filter (\<lambda>k. k \<noteq> EnterDrainOutcome \<and> k \<noteq> EnterSafeModeOutcome) all_outcomes,
      fp_rationale_min_chars = 8, fp_rationale_max_chars = 4000, fp_max_brief_bytes = 16 * 1024,
      fp_allow_drain = False, fp_allow_safe_mode = False\<rparr>"

definition policy_allows :: "feedback_policy \<Rightarrow> feedback_outcome_kind \<Rightarrow> bool" where
  "policy_allows p k =
     (if k \<notin> set (fp_allowed_outcomes p) then False
      else if k = EnterDrainOutcome then fp_allow_drain p
      else if k = EnterSafeModeOutcome then fp_allow_safe_mode p
      else True)"

record brief_section =
  bs_heading :: string
  bs_body :: string
  bs_truncated :: bool
  bs_missing :: bool

record feedback_brief =
  fb_turn_id :: string
  fb_contract_version :: nat
  fb_trigger :: feedback_trigger
  fb_sections :: "brief_section list"
  fb_total_bytes :: nat
  fb_truncated :: bool
  fb_has_missing_context :: bool
  fb_allowed_outcomes :: "feedback_outcome_kind list"
  fb_rationale_max_chars :: nat
  fb_rationale_min_chars :: nat
  fb_built_at :: time

record feedback_outcome =
  fo_contract_version :: nat
  fo_turn_id :: string
  fo_trigger_id :: string
  fo_kind :: feedback_outcome_kind
  fo_rationale :: string
  fo_followup_id :: "string option"
  fo_task_id :: "task_id option"
  fo_run_id :: "run_id option"
  fo_supervisor_id :: "string option"
  fo_payload :: json

record feedback_decision =
  fd_brief :: feedback_brief
  fd_outcome :: feedback_outcome
  fd_decided_at :: time

subsection \<open>The proof summary of a brief\<close>

record proof_summary =
  sm_proof_bundle_id :: "string option"
  sm_status :: string
  sm_command_count :: nat
  sm_test_count :: nat
  sm_failed_tests :: nat
  sm_check_count :: nat
  sm_commits :: "string list"
  sm_diff_summary :: "string option"
  sm_reviews :: "string list"
  sm_review_verdicts :: "string list"
  sm_review_findings :: "string list"
  sm_followups :: "string list"
  sm_integration_status :: "string option"
  sm_integration_branch :: "string option"
  sm_integration_base :: "string option"
  sm_integration_commit :: "string option"
  sm_integration_conflicts :: "string list"
  sm_open_blockers :: "string list"
  sm_missing :: "string list"
  sm_absent :: bool

definition nl :: string where
  "nl = [CHR 0x0A]"

definition render_list :: "string \<Rightarrow> string \<Rightarrow> string list \<Rightarrow> string" where
  "render_list label sep xs = (if xs = [] then [] else label @ join_with sep xs @ nl)"

definition render_text :: "proof_summary \<Rightarrow> string" where
  "render_text m =
     (let opt = (\<lambda>label x. case x of None \<Rightarrow> [] | Some v \<Rightarrow> label @ v) in
      if sm_absent m then ''Proof bundle: none recorded.''
      else (case sm_proof_bundle_id m of
              Some i \<Rightarrow> ''Proof bundle '' @ i @ '' ('' @ sm_status m @ ''):'' @ nl
            | None \<Rightarrow> ''Proof bundle ('' @ sm_status m @ ''):'' @ nl) @
        ''- commands: '' @ show_nat (sm_command_count m) @ '', tests: '' @ show_nat (sm_test_count m) @ '' ('' @
        show_nat (sm_failed_tests m) @ '' failed), checks: '' @ show_nat (sm_check_count m) @ nl @
        render_list ''- commits: '' '', '' (sm_commits m) @
        (case sm_diff_summary m of None \<Rightarrow> [] | Some d \<Rightarrow> ''- diff: '' @ d @ nl) @
        (if sm_reviews m = [] then []
         else ''- reviews: '' @ join_with '', '' (sm_reviews m) @ '' (verdicts: '' @
           (if sm_review_verdicts m = [] then ''none'' else join_with '', '' (sm_review_verdicts m)) @ '')'' @ nl) @
        (case sm_integration_status m of
           None \<Rightarrow> []
         | Some st \<Rightarrow>
             ''- integration: '' @ st @ opt '' branch='' (sm_integration_branch m) @ opt '' base='' (sm_integration_base m) @
             opt '' commit='' (sm_integration_commit m) @ nl @ render_list ''  conflicts: '' '', '' (sm_integration_conflicts m)) @
        render_list ''- open blockers: '' ''; '' (sm_open_blockers m) @
        render_list ''- review findings: '' ''; '' (sm_review_findings m) @
        render_list ''- followups: '' ''; '' (sm_followups m) @
        render_list ''- missing or incomplete: '' ''; '' (sm_missing m))"

subsection \<open>Building the brief\<close>

record brief_context =
  bc_task_summary :: "string option"
  bc_active_run :: "string option"
  bc_review_state :: "string option"
  bc_proof :: "proof_summary option"
  bc_recent_events :: "string list"
  bc_policy_notes :: "string list"
  bc_turn_id :: "string option"

fun take_bytes :: "nat \<Rightarrow> string list \<Rightarrow> string" where
  "take_bytes m [] = []"
| "take_bytes m (c # cs) = (if m < length c then [] else c @ take_bytes (m - length c) cs)"

definition char_safe_truncate :: "string \<Rightarrow> nat \<Rightarrow> string" where
  "char_safe_truncate s max_bytes = (if length s \<le> max_bytes then s else take_bytes max_bytes (utf8_chars s))"

definition push_section :: "string \<Rightarrow> string \<Rightarrow> bool \<Rightarrow> brief_section list \<times> nat \<times> bool \<Rightarrow> brief_section list \<times> nat \<times> bool" where
  \<comment> \<open>the sections so far, the bytes left and whether anything was cut\<close>
  "push_section heading raw missing = (\<lambda>(sections, budget, truncated_any).
     if budget = 0
     then (sections @ [\<lparr>bs_heading = heading, bs_body = [], bs_truncated = True, bs_missing = missing\<rparr>], 0, True)
     else let trimmed = trim raw;
              (body, truncated) =
                (if length trimmed \<le> budget then (trimmed, False)
                 else if budget \<le> length ellipsis then (char_safe_truncate trimmed budget, True)
                 else (char_safe_truncate trimmed (budget - length ellipsis) @ ellipsis, True))
          in (sections @ [\<lparr>bs_heading = heading, bs_body = body, bs_truncated = truncated, bs_missing = missing\<rparr>],
              budget - length body, truncated_any \<or> truncated))"

definition format_event_ids :: "event_id list \<Rightarrow> string" where
  "format_event_ids ids = (if ids = [] then ''none'' else join_with '', '' (map show_nat ids))"

definition format_range :: "(event_id \<times> event_id) option \<Rightarrow> string" where
  "format_range r = (case r of Some (l, h) \<Rightarrow> ''['' @ show_nat l @ ''..'' @ show_nat h @ '']'' | None \<Rightarrow> ''(none)'')"

definition format_outcomes :: "feedback_outcome_kind list \<Rightarrow> string" where
  "format_outcomes ks = join_with '', '' (sort (map outcome_kind_str ks))"

definition synthesize_turn_id :: "feedback_trigger \<Rightarrow> string" where
  "synthesize_turn_id t =
     ''turn-'' @ ft_trigger_id t @ ''-'' @
     (case ft_covered_event_range t of Some (l, h) \<Rightarrow> show_nat l @ ''-'' @ show_nat h | None \<Rightarrow> ''no-range'')"

definition show_bool :: "bool \<Rightarrow> string" where
  "show_bool b = (if b then ''true'' else ''false'')"

definition policy_body :: "feedback_policy \<Rightarrow> string list \<Rightarrow> string" where
  "policy_body p notes =
     join_with nl
       ([''rationale_min='' @ show_nat (fp_rationale_min_chars p) @ '' rationale_max='' @ show_nat (fp_rationale_max_chars p),
         ''max_brief_bytes='' @ show_nat (fp_max_brief_bytes p) @ '' allow_drain='' @ show_bool (fp_allow_drain p) @
           '' allow_safe_mode='' @ show_bool (fp_allow_safe_mode p),
         ''allowed_outcomes='' @ format_outcomes (fp_allowed_outcomes p)] @ notes)"

definition brief_parts :: "feedback_trigger \<Rightarrow> brief_context \<Rightarrow> feedback_policy \<Rightarrow> (string \<times> string \<times> bool) list" where
  \<comment> \<open>heading, text and whether it stands for missing context, in order\<close>
  "brief_parts t c p =
     (let given = (\<lambda>heading x none. case x of Some s \<Rightarrow> (heading, s, False) | None \<Rightarrow> (heading, none, True)) in
      [(''trigger'', ''kind: '' @ trigger_kind_str (ft_kind t) @ nl @ ''summary: '' @ ft_summary t @ nl @ ''source_events: '' @
          format_event_ids (ft_source_event_ids t) @ nl @ ''event_range: '' @ format_range (ft_covered_event_range t), False),
       given ''task'' (bc_task_summary c) ''(no task summary available)'',
       given ''active_run'' (bc_active_run c) ''(no active run snapshot)'',
       given ''review'' (bc_review_state c) ''(no review state snapshot)'',
       given ''proof'' (map_option render_text (bc_proof c)) ''(no proof bundle attached)'',
       (if bc_recent_events c = [] then (''recent_events'', ''(no recent event summaries supplied)'', True)
        else (''recent_events'', join_with nl (bc_recent_events c), False)),
       (''policy'', policy_body p (bc_policy_notes c), False)])"

definition build_brief :: "time \<Rightarrow> feedback_trigger \<Rightarrow> brief_context \<Rightarrow> feedback_policy \<Rightarrow> feedback_brief" where
  "build_brief now t c p =
     (case fold (\<lambda>(heading, raw, missing). push_section heading raw missing) (brief_parts t c p) ([], fp_max_brief_bytes p, False) of
        (sections, budget, truncated_any) \<Rightarrow>
          \<lparr>fb_turn_id = (case bc_turn_id c of Some i \<Rightarrow> i | None \<Rightarrow> synthesize_turn_id t),
           fb_contract_version = feedback_contract_version, fb_trigger = t, fb_sections = sections,
           fb_total_bytes = sum_list (map (\<lambda>s. length (bs_body s)) sections), fb_truncated = truncated_any,
           fb_has_missing_context = list_ex bs_missing sections,
           fb_allowed_outcomes = filter (policy_allows p) (fp_allowed_outcomes p),
           fb_rationale_max_chars = fp_rationale_max_chars p, fb_rationale_min_chars = fp_rationale_min_chars p,
           fb_built_at = now\<rparr>)"

subsection \<open>Validating an outcome\<close>

datatype outcome_validation =
    OutcomeAccepted feedback_decision
  | OutcomeRejected feedback_rejection string

fun outcome_allowed_for_trigger :: "feedback_trigger_kind \<Rightarrow> feedback_outcome_kind \<Rightarrow> bool" where
  "outcome_allowed_for_trigger t NoActionOutcome = True"
| "outcome_allowed_for_trigger t ClarificationOutcome = True"
| "outcome_allowed_for_trigger t EscalateOutcome = True"
| "outcome_allowed_for_trigger t EnterDrainOutcome = True"
| "outcome_allowed_for_trigger t EnterSafeModeOutcome = True"
| "outcome_allowed_for_trigger t PromoteFollowupOutcome = (t = ReviewerFollowupTrigger)"
| "outcome_allowed_for_trigger t WaiveFollowupOutcome = (t = ReviewerFollowupTrigger)"
| "outcome_allowed_for_trigger t RequestReworkOutcome =
     (t \<in> {ReviewerFollowupTrigger, ReviewChangesTrigger, WorkerFailedTrigger, WorkerStuckTrigger, WorkerBlockedTrigger})"
| "outcome_allowed_for_trigger t RetryRunOutcome = (t \<in> {WorkerFailedTrigger, WorkerStuckTrigger, StaleClaimTrigger})"
| "outcome_allowed_for_trigger t NudgeWorkerOutcome =
     (t \<in> {WorkerFailedTrigger, WorkerStuckTrigger, WorkerBlockedTrigger, PermissionBlockedTrigger, StaleClaimTrigger})"
| "outcome_allowed_for_trigger t ConflictResolutionOutcome = (t = IntegrationConflictTrigger)"
| "outcome_allowed_for_trigger t IntegrationRepairOutcome = (t = IntegrationConflictTrigger)"

definition non_empty_string :: "string option \<Rightarrow> string option" where
  "non_empty_string x = (case x of None \<Rightarrow> None | Some s \<Rightarrow> if trim s = [] then None else Some (trim s))"

definition required_fields_missing :: "feedback_outcome \<Rightarrow> string option" where
  "required_fields_missing out =
     (let k = fo_kind out in
      if (k = PromoteFollowupOutcome \<or> k = WaiveFollowupOutcome) \<and> (case fo_followup_id out of None \<Rightarrow> True | Some s \<Rightarrow> trim s = [])
      then Some (''Outcome kind '' @ outcome_kind_str k @ '' requires a non-empty followup_id.'')
      else if k = RetryRunOutcome \<and> fo_run_id out = None \<and> fo_task_id out = None
      then Some ''Outcome kind retry_run requires either run_id or task_id.''
      else if k = RequestReworkOutcome \<and> fo_task_id out = None then Some ''Outcome kind request_rework requires task_id.''
      else if (k = ConflictResolutionOutcome \<or> k = IntegrationRepairOutcome) \<and> fo_task_id out = None
      then Some (''Outcome kind '' @ outcome_kind_str k @ '' requires task_id of the conflicting task.'')
      else None)"

definition validate_outcome :: "time \<Rightarrow> feedback_brief \<Rightarrow> feedback_outcome \<Rightarrow> feedback_policy \<Rightarrow> outcome_validation" where
  "validate_outcome now b out p =
     (let k = fo_kind out; chars = length (utf8_chars (fo_rationale out)) in
      if fo_contract_version out \<noteq> fb_contract_version b \<or> fo_contract_version out \<noteq> feedback_contract_version
      then OutcomeRejected ContractVersionMismatch
        (''Outcome contract_version='' @ show_nat (fo_contract_version out) @ '' but brief expects '' @ show_nat (fb_contract_version b) @
         '' (current FEEDBACK_CONTRACT_VERSION='' @ show_nat feedback_contract_version @ '').'')
      else if fo_turn_id out \<noteq> fb_turn_id b
      then OutcomeRejected TurnIdMismatch
        (''Outcome turn_id '' @ fo_turn_id out @ '' did not match brief turn_id '' @ fb_turn_id b)
      else if fo_trigger_id out \<noteq> ft_trigger_id (fb_trigger b)
      then OutcomeRejected TriggerIdMismatch
        (''Outcome trigger_id '' @ fo_trigger_id out @ '' did not match brief trigger_id '' @ ft_trigger_id (fb_trigger b))
      else if \<not> policy_allows p k
      then OutcomeRejected OutcomeKindDenied (''Outcome kind '' @ outcome_kind_str k @ '' is not permitted by current FeedbackPolicy.'')
      else if k \<notin> set (fb_allowed_outcomes b)
      then OutcomeRejected OutcomeKindDenied
        (''Outcome kind '' @ outcome_kind_str k @ '' is not in the brief'' @ [CHR 0x27] @ ''s allow-list.'')
      else if \<not> outcome_allowed_for_trigger (ft_kind (fb_trigger b)) k
      then OutcomeRejected TriggerKindMismatch
        (''Outcome kind '' @ outcome_kind_str k @ '' is not valid for trigger kind '' @ trigger_kind_str (ft_kind (fb_trigger b)) @ ''.'')
      else if fp_rationale_max_chars p < chars
      then OutcomeRejected RationaleTooLong
        (''Rationale length '' @ show_nat chars @ '' exceeds policy max '' @ show_nat (fp_rationale_max_chars p) @ ''.'')
      else if outcome_is_mutating k \<and> chars < fp_rationale_min_chars p
      then OutcomeRejected MissingRationale
        (''Mutating outcome '' @ outcome_kind_str k @ '' requires rationale of at least '' @ show_nat (fp_rationale_min_chars p) @
         '' chars (got '' @ show_nat chars @ '').'')
      else (case required_fields_missing out of
              Some reason \<Rightarrow> OutcomeRejected MissingRequiredField reason
            | None \<Rightarrow> OutcomeAccepted \<lparr>fd_brief = b, fd_outcome = out, fd_decided_at = now\<rparr>))"

subsection \<open>Planning its application\<close>

datatype feedback_plan =
    PlanNoAction string
  | PlanNudgeWorker "task_id option" "run_id option" string
  | PlanPromoteFollowup task_id string string
  | PlanWaiveFollowup task_id string string
  | PlanRequestRework task_id string
  | PlanRetryRun "task_id option" "run_id option" string
  | PlanConflictResolution task_id string
  | PlanIntegrationRepair task_id string
  | PlanClarification "task_id option" string
  | PlanEnterDrain string
  | PlanEnterSafeMode string
  | PlanEscalate "task_id option" string

fun plan_label :: "feedback_plan \<Rightarrow> string" where
  "plan_label (PlanNoAction _) = ''no_action''"
| "plan_label (PlanNudgeWorker _ _ _) = ''nudge_worker''"
| "plan_label (PlanPromoteFollowup _ _ _) = ''promote_followup''"
| "plan_label (PlanWaiveFollowup _ _ _) = ''waive_followup''"
| "plan_label (PlanRequestRework _ _) = ''request_rework''"
| "plan_label (PlanRetryRun _ _ _) = ''retry_run''"
| "plan_label (PlanConflictResolution _ _) = ''queue_conflict_resolution''"
| "plan_label (PlanIntegrationRepair _ _) = ''request_integration_repair''"
| "plan_label (PlanClarification _ _) = ''request_operator_clarification''"
| "plan_label (PlanEnterDrain _) = ''enter_drain''"
| "plan_label (PlanEnterSafeMode _) = ''enter_safe_mode''"
| "plan_label (PlanEscalate _ _) = ''escalate''"

definition missing_field_escalation :: "task_id option \<Rightarrow> string \<Rightarrow> feedback_outcome \<Rightarrow> feedback_plan" where
  "missing_field_escalation t field out =
     PlanEscalate t (''Validated outcome '' @ outcome_kind_str (fo_kind out) @ '' could not be applied because '' @ field @ '' was missing.'')"

definition or_else :: "'a option \<Rightarrow> 'a option \<Rightarrow> 'a option" where
  "or_else x y = (case x of None \<Rightarrow> y | Some v \<Rightarrow> Some v)"

definition plan_followup ::
    "string \<Rightarrow> (task_id \<Rightarrow> string \<Rightarrow> string \<Rightarrow> feedback_plan) \<Rightarrow> feedback_trigger_kind \<Rightarrow> task_id option \<Rightarrow> feedback_outcome \<Rightarrow> feedback_plan" where
  \<comment> \<open>the two branches for reviewer follow-ups\<close>
  "plan_followup verb plan kind t out =
     (if kind \<noteq> ReviewerFollowupTrigger
      then PlanEscalate t (''Cannot '' @ verb @ '' reviewer follow-up from trigger kind '' @ trigger_kind_str kind @ ''.'')
      else (case t of
          None \<Rightarrow> missing_field_escalation None ''task_id'' out
        | Some task \<Rightarrow>
            (case non_empty_string (fo_followup_id out) of
               None \<Rightarrow> missing_field_escalation (Some task) ''followup_id'' out
             | Some followup \<Rightarrow> plan task followup (fo_rationale out))))"

definition plan_for_task :: "(task_id \<Rightarrow> string \<Rightarrow> feedback_plan) \<Rightarrow> task_id option \<Rightarrow> feedback_outcome \<Rightarrow> feedback_plan" where
  "plan_for_task plan t out =
     (case t of None \<Rightarrow> missing_field_escalation None ''task_id'' out | Some task \<Rightarrow> plan task (fo_rationale out))"

definition plan_application :: "feedback_decision \<Rightarrow> feedback_plan" where
  "plan_application d =
     (let out = fd_outcome d; tr = fb_trigger (fd_brief d); why = fo_rationale out;
          t = or_else (fo_task_id out) (ft_task_id tr); r = or_else (fo_run_id out) (ft_run_id tr) in
      case fo_kind out of
        NoActionOutcome \<Rightarrow> PlanNoAction why
      | NudgeWorkerOutcome \<Rightarrow> PlanNudgeWorker t r why
      | PromoteFollowupOutcome \<Rightarrow> plan_followup ''promote'' PlanPromoteFollowup (ft_kind tr) t out
      | WaiveFollowupOutcome \<Rightarrow> plan_followup ''waive'' PlanWaiveFollowup (ft_kind tr) t out
      | RequestReworkOutcome \<Rightarrow> plan_for_task PlanRequestRework t out
      | RetryRunOutcome \<Rightarrow> PlanRetryRun t r why
      | ConflictResolutionOutcome \<Rightarrow> plan_for_task PlanConflictResolution t out
      | IntegrationRepairOutcome \<Rightarrow> plan_for_task PlanIntegrationRepair t out
      | ClarificationOutcome \<Rightarrow> PlanClarification t why
      | EnterDrainOutcome \<Rightarrow> PlanEnterDrain why
      | EnterSafeModeOutcome \<Rightarrow> PlanEnterSafeMode why
      | EscalateOutcome \<Rightarrow> PlanEscalate t why)"

fun event_only_executor :: "feedback_plan \<Rightarrow> (string, string) result" where
  "event_only_executor (PlanNoAction why) = Inr (''no action recorded: '' @ why)"
| "event_only_executor (PlanClarification _ why) = Inr (''operator clarification requested: '' @ why)"
| "event_only_executor (PlanEscalate _ why) = Inr (''escalated: '' @ why)"
| "event_only_executor (PlanEnterDrain why) = Inr (''drain requested: '' @ why)"
| "event_only_executor plan = Inl (''no feedback action executor configured for '' @ plan_label plan)"

subsection \<open>The recorded lifecycle\<close>

record 'es feedback_ports =
  fx_now :: time
  fx_append :: "event \<Rightarrow> 'es \<Rightarrow> 'es \<times> (string, event_id) result"
  fx_apply :: "feedback_plan \<Rightarrow> (string, string) result"
  fx_rfc3339 :: "time \<Rightarrow> string"

datatype lifecycle_result =
    LifecycleRejected feedback_rejection string
  | LifecycleApplied string
  | LifecycleFailed string

record task_feedback_summary =
  fs_active_triggers :: "(string \<times> string \<times> string \<times> string) list"
  fs_recent_decisions :: "(string \<times> string \<times> string \<times> string \<times> string) list"
  fs_pending_clarifications :: "(string \<times> string \<times> string) list"
  fs_escalations :: "(string \<times> string \<times> string) list"
  fs_drain_active :: bool
  fs_safe_mode_active :: bool
  fs_updated_at :: "string option"

definition feedback_event :: "time \<Rightarrow> event_kind \<Rightarrow> task_id option \<Rightarrow> string \<Rightarrow> event" where
  "feedback_event now kind t fallback =
     \<lparr>ev_kind = kind, ev_timestamp = now, ev_aggregate_id = (case t of Some x \<Rightarrow> x | None \<Rightarrow> fallback)\<rparr>"

definition brief_ref :: "feedback_brief \<Rightarrow> feedback_ref" where
  "brief_ref b =
     (let t = fb_trigger b in
      \<lparr>fr_trigger_id = ft_trigger_id t, fr_turn_id = fb_turn_id b, fr_task_id = ft_task_id t,
       fr_source_event_ids = ft_source_event_ids t, fr_covered_event_range = ft_covered_event_range t\<rparr>)"

definition brief_event :: "time \<Rightarrow> feedback_brief \<Rightarrow> event_kind \<Rightarrow> event" where
  "brief_event now b kind = feedback_event now kind (ft_task_id (fb_trigger b)) (ft_trigger_id (fb_trigger b))"

definition stage_event :: "time \<Rightarrow> feedback_brief \<Rightarrow> feedback_stage \<Rightarrow> event" where
  "stage_event now b stage = brief_event now b (FeedbackEvent (brief_ref b) stage)"

definition record_brief_built :: "'es feedback_ports \<Rightarrow> feedback_brief \<Rightarrow> 'es \<Rightarrow> 'es \<times> (string, event_id) result" where
  "record_brief_built io b es =
     fx_append io (stage_event (fx_now io) b
       (FeedbackBriefBuilt (ft_run_id (fb_trigger b)) (fb_contract_version b) (fb_total_bytes b) (length (fb_sections b))
          (fb_truncated b) (fb_has_missing_context b) (fx_now io))) es"

definition decision_summary :: "feedback_outcome \<Rightarrow> string" where
  "decision_summary out =
     (let part = (\<lambda>label x. case x of None \<Rightarrow> [] | Some v \<Rightarrow> [label @ v]) in
      join_with '' '' (outcome_kind_str (fo_kind out) # part ''task='' (fo_task_id out) @ part ''run='' (fo_run_id out) @
        part ''followup='' (fo_followup_id out)))"

fun native_effects :: "time \<Rightarrow> feedback_brief \<Rightarrow> feedback_outcome \<Rightarrow> feedback_plan \<Rightarrow> event list" where
  \<comment> \<open>\<open>emit_event_native_effects\<close>\<close>
  "native_effects now b out (PlanEnterDrain why) =
     [brief_event now b (SystemDraining (''feedback '' @ ft_trigger_id (fb_trigger b) @ '': '' @ why))]"
| "native_effects now b out (PlanClarification t why) =
     [brief_event now b (EscalationTriggered (outcome_kind_str (fo_kind out)) (''feedback '' @ ft_trigger_id (fb_trigger b) @ '': '' @ why))]"
| "native_effects now b out (PlanEscalate t why) =
     [brief_event now b (EscalationTriggered (outcome_kind_str (fo_kind out)) (''feedback '' @ ft_trigger_id (fb_trigger b) @ '': '' @ why))]"
| "native_effects now b out _ = []"

definition summary_cache ::
    "(time \<Rightarrow> string) \<Rightarrow> time \<Rightarrow> feedback_brief \<Rightarrow> feedback_outcome \<Rightarrow> (task_id \<times> task_feedback_summary) option" where
  \<comment> \<open>what \<open>write_summary_cache\<close> writes for the task\<close>
  "summary_cache rfc3339 now b out =
     (let t = fb_trigger b; k = fo_kind out; row = (ft_trigger_id t, fo_rationale out, rfc3339 now) in
      map_option (\<lambda>task. (task,
        \<lparr>fs_active_triggers = [(ft_trigger_id t, trigger_kind_str (ft_kind t), ft_summary t, rfc3339 (ft_created_at t))],
         fs_recent_decisions = [(ft_trigger_id t, fb_turn_id b, outcome_kind_str k, decision_summary out, rfc3339 now)],
         fs_pending_clarifications = (if k = ClarificationOutcome then [row] else []),
         fs_escalations = (if k = EscalateOutcome then [row] else []),
         fs_drain_active = (k = EnterDrainOutcome), fs_safe_mode_active = (k = EnterSafeModeOutcome),
         fs_updated_at = Some (rfc3339 now)\<rparr>)) (ft_task_id t))"

definition record_validate_and_apply_outcome ::
    "'es feedback_ports \<Rightarrow> feedback_brief \<Rightarrow> feedback_outcome \<Rightarrow> feedback_policy \<Rightarrow> 'es \<Rightarrow>
      'es \<times> feedback_plan list \<times> (task_id \<times> task_feedback_summary) option \<times> (string, lifecycle_result) result" where
  \<comment> \<open>with the plans handed to the executor and the summary written\<close>
  "record_validate_and_apply_outcome io b out p es =
     (let now = fx_now io; k = fo_kind out; stage = stage_event now b in
      case append_each (fx_append io) [stage (FeedbackTurnStarted (fo_supervisor_id out) now), stage (FeedbackOutcomeReceived k now)] es of
        (es1, Inl e) \<Rightarrow> (es1, [], None, Inl e)
      | (es1, Inr _) \<Rightarrow>
          (case validate_outcome now b out p of
             OutcomeRejected reason message \<Rightarrow>
               (case append_each (fx_append io) [stage (FeedbackOutcomeRejected (Some k) reason message now)] es1 of
                  (es2, r) \<Rightarrow> (es2, [], None, map_sum id (\<lambda>_. LifecycleRejected reason message) r))
           | OutcomeAccepted d \<Rightarrow>
               (case append_each (fx_append io) [stage (FeedbackOutcomeValidated k now),
                      stage (FeedbackDecisionRecorded k (fd_decided_at d) (decision_summary out))] es1 of
                  (es2, Inl e) \<Rightarrow> (es2, [], None, Inl e)
                | (es2, Inr _) \<Rightarrow>
                    (let plan = plan_application d in
                     case fx_apply io plan of
                       Inr done_summary \<Rightarrow>
                         (case append_each (fx_append io) (native_effects now b out plan @ [stage (FeedbackApplied k done_summary now)]) es2 of
                            (es3, Inl e) \<Rightarrow> (es3, [plan], None, Inl e)
                          | (es3, Inr _) \<Rightarrow>
                              (es3, [plan], summary_cache (fx_rfc3339 io) now b out, Inr (LifecycleApplied done_summary)))
                     | Inl err \<Rightarrow>
                         (case append_each (fx_append io) [stage (FeedbackFailed k err now)] es2 of
                            (es3, r) \<Rightarrow> (es3, [plan], None, map_sum id (\<lambda>_. LifecycleFailed err) r))))))"

end
