(* ===== verification/Feedback_Props.thy ===== *)
theory Feedback_Props
  imports Feedback_Lifecycle
begin

text \<open>
  What the feedback library guarantees: triggers are reported once per key, a brief stays within its
  byte budget and says when it was cut, and an outcome is carried out only if it answers the brief
  and the policy allows it.
\<close>

subsection \<open>Characters and truncation\<close>

lemma take_bytes_length: "length (take_bytes m cs) \<le> m"
proof (induction cs arbitrary: m)
  case (Cons c cs)
  have "length (take_bytes (m - length c) cs) \<le> m - length c" by (rule Cons.IH)
  then have "\<not> m < length c \<Longrightarrow> length (c @ take_bytes (m - length c) cs) \<le> m" by simp
  then show ?case by simp
qed simp

lemma take_bytes_prefix: "\<exists>k. take_bytes m cs = concat (take k cs)"
proof (induction cs arbitrary: m)
  case (Cons c cs)
  show ?case
  proof (cases "m < length c")
    case True
    then show ?thesis by (intro exI [of _ 0]) simp
  next
    case False
    obtain k where "take_bytes (m - length c) cs = concat (take k cs)" using Cons by blast
    with False show ?thesis by (intro exI [of _ "Suc k"]) simp
  qed
qed simp

lemma char_safe_truncate_length: "length (char_safe_truncate s m) \<le> m"
  by (simp add: char_safe_truncate_def take_bytes_length)

lemma char_safe_truncate_prefix: "\<exists>k. char_safe_truncate s m = concat (take k (utf8_chars s))"
proof (cases "length s \<le> m")
  case True
  then show ?thesis by (intro exI [of _ "length (utf8_chars s)"]) (simp add: char_safe_truncate_def)
qed (simp add: char_safe_truncate_def take_bytes_prefix)

subsection \<open>Briefs\<close>

text \<open>How a section stands for its text: whole characters of it, with a mark where it was cut.\<close>

definition section_of :: "string \<times> string \<times> bool \<Rightarrow> brief_section \<Rightarrow> bool" where
  "section_of = (\<lambda>(heading, raw, missing) s. bs_heading s = heading \<and> bs_missing s = missing \<and>
     (if bs_truncated s then \<exists>k. bs_body s = concat (take k (utf8_chars (trim raw))) \<or> bs_body s = concat (take k (utf8_chars (trim raw))) @ ellipsis
      else bs_body s = trim raw))"

definition brief_bytes :: "brief_section list \<Rightarrow> nat" where
  "brief_bytes sections = sum_list (map (\<lambda>s. length (bs_body s)) sections)"

definition text_bytes :: "(string \<times> string \<times> bool) list \<Rightarrow> nat" where
  "text_bytes parts = sum_list (map (\<lambda>(heading, raw, missing). length (trim raw)) parts)"

lemma length_ellipsis [simp]: "length ellipsis = 3"
  by (simp add: ellipsis_def)

lemma push_section_step:
  obtains sec where "push_section heading raw missing (sections, budget, any) = (sections @ [sec], budget - length (bs_body sec), any \<or> bs_truncated sec)"
    "section_of (heading, raw, missing) sec" "length (bs_body sec) \<le> budget"
    "bs_truncated sec \<longleftrightarrow> budget = 0 \<or> budget < length (trim raw)"
proof -
  consider "budget = 0" | "budget \<noteq> 0" "length (trim raw) \<le> budget" | "budget \<noteq> 0" "budget < length (trim raw)" "budget \<le> 3"
    | "3 < budget" "budget < length (trim raw)" by linarith
  then show ?thesis
  proof cases
    case 1
    show ?thesis by (rule that [of "\<lparr>bs_heading = heading, bs_body = [], bs_truncated = True, bs_missing = missing\<rparr>"])
        (use 1 in \<open>auto simp: push_section_def section_of_def intro: exI [of _ 0]\<close>)
  next
    case 2
    show ?thesis by (rule that [of "\<lparr>bs_heading = heading, bs_body = trim raw, bs_truncated = False, bs_missing = missing\<rparr>"])
        (use 2 in \<open>auto simp: push_section_def section_of_def Let_def\<close>)
  next
    case 3
    show ?thesis
      by (rule that [of "\<lparr>bs_heading = heading, bs_body = char_safe_truncate (trim raw) budget, bs_truncated = True, bs_missing = missing\<rparr>"])
        (use 3 char_safe_truncate_prefix [of "trim raw" budget] in
          \<open>auto simp: push_section_def section_of_def Let_def char_safe_truncate_length\<close>)
  next
    case 4
    have "length (char_safe_truncate (trim raw) (budget - 3)) + 3 \<le> budget"
      using char_safe_truncate_length [of "trim raw" "budget - 3"] 4 by linarith
    then show ?thesis
      by (intro that [of "\<lparr>bs_heading = heading, bs_body = char_safe_truncate (trim raw) (budget - 3) @ ellipsis, bs_truncated = True,
            bs_missing = missing\<rparr>"])
        (use 4 char_safe_truncate_prefix [of "trim raw" "budget - 3"] in \<open>auto simp: push_section_def section_of_def Let_def\<close>)
  qed
qed

lemma sections_step:
  assumes "fold (\<lambda>(heading, raw, missing). push_section heading raw missing) parts (sections, budget, any) = (sections', budget', any')"
    and "parts = [] \<or> trim (fst (snd (last parts))) \<noteq> []"
  shows "\<exists>new. sections' = sections @ new \<and> list_all2 section_of parts new \<and> brief_bytes new + budget' = budget \<and>
    (any' \<longleftrightarrow> any \<or> list_ex bs_truncated new) \<and> (list_ex bs_truncated new \<longleftrightarrow> budget < text_bytes parts)"
  using assms
proof (induction parts arbitrary: sections budget any)
  case Nil
  then show ?case by (auto simp: brief_bytes_def text_bytes_def)
next
  case (Cons part parts)
  obtain heading raw missing where part: "part = (heading, raw, missing)" by (metis prod.exhaust)
  obtain sec where sec: "push_section heading raw missing (sections, budget, any) = (sections @ [sec], budget - length (bs_body sec), any \<or> bs_truncated sec)"
    "section_of (heading, raw, missing) sec" "length (bs_body sec) \<le> budget"
    "bs_truncated sec \<longleftrightarrow> budget = 0 \<or> budget < length (trim raw)"
    by (rule push_section_step)
  from Cons.prems(1) sec(1) part have rest: "fold (\<lambda>(heading, raw, missing). push_section heading raw missing) parts
      (sections @ [sec], budget - length (bs_body sec), any \<or> bs_truncated sec) = (sections', budget', any')" by simp
  have tail: "parts = [] \<or> trim (fst (snd (last parts))) \<noteq> []" using Cons.prems(2) by auto
  from Cons.IH [OF rest tail] obtain new where new: "sections' = (sections @ [sec]) @ new" "list_all2 section_of parts new"
    "brief_bytes new + budget' = budget - length (bs_body sec)" "any' \<longleftrightarrow> (any \<or> bs_truncated sec) \<or> list_ex bs_truncated new"
    "list_ex bs_truncated new \<longleftrightarrow> budget - length (bs_body sec) < text_bytes parts" by blast
  have last_pos: "0 < text_bytes (part # parts)"
  proof -
    have "last (part # parts) \<in> set (part # parts)" by simp
    then have "length (trim (fst (snd (last (part # parts))))) \<le> text_bytes (part # parts)"
      unfolding text_bytes_def by (intro member_le_sum_list) (auto simp: case_prod_beta image_iff)
    moreover have "trim (fst (snd (last (part # parts)))) \<noteq> []" using Cons.prems(2) by simp
    ultimately show ?thesis by (metis length_greater_0_conv order_less_le_trans)
  qed
  have texts: "text_bytes (part # parts) = length (trim raw) + text_bytes parts" by (simp add: text_bytes_def part)
  have "bs_truncated sec \<or> list_ex bs_truncated new \<longleftrightarrow> budget < text_bytes (part # parts)"
  proof (cases "bs_truncated sec")
    case True
    with sec(4) last_pos texts show ?thesis by auto
  next
    case False
    with sec(2) have "bs_body sec = trim raw" by (simp add: section_of_def)
    with False new(5) sec(3) texts show ?thesis by auto
  qed
  with new sec(2,3) part show ?case
    by (intro exI [of _ "sec # new"]) (auto simp: brief_bytes_def)
qed

lemma policy_body_nonempty: "trim (policy_body p notes) \<noteq> []"
proof -
  obtain rest where "policy_body p notes = CHR ''r'' # rest" by (simp add: policy_body_def)
  moreover have "trim (CHR ''r'' # xs) \<noteq> []" for xs
    using plain_not_white [of "CHR ''r''" "hd (utf8_chars (CHR ''r'' # xs))"] by (simp add: trim_empty_iff plain_eval)
  ultimately show ?thesis by simp
qed

text \<open>
  C24: a brief never exceeds the byte budget of the policy: it has its seven sections in order, each the
  trimmed text or, where it was cut, whole characters of it and at most one ellipsis, and it is
  marked truncated exactly when the texts together are longer than the budget.
\<close>

theorem brief_bounded:
  fixes t c p
  defines "parts \<equiv> brief_parts t c p"
  shows "fb_total_bytes (build_brief now t c p) \<le> fp_max_brief_bytes p \<and>
    map bs_heading (fb_sections (build_brief now t c p)) = [''trigger'', ''task'', ''active_run'', ''review'', ''proof'', ''recent_events'', ''policy''] \<and>
    list_all2 section_of parts (fb_sections (build_brief now t c p)) \<and>
    (fb_truncated (build_brief now t c p) \<longleftrightarrow> fp_max_brief_bytes p < text_bytes parts)"
proof -
  obtain sections budget cut' where run: "fold (\<lambda>(heading, raw, missing). push_section heading raw missing) parts
      ([], fp_max_brief_bytes p, False) = (sections, budget, cut')" by (metis prod.exhaust)
  have "trim (fst (snd (last parts))) \<noteq> []" by (simp add: parts_def brief_parts_def Let_def policy_body_nonempty)
  with sections_step [OF run] have new: "list_all2 section_of parts sections" "brief_bytes sections + budget = fp_max_brief_bytes p"
    "cut' \<longleftrightarrow> fp_max_brief_bytes p < text_bytes parts" by auto
  have "map bs_heading sections = map fst parts"
    using new(1) by (induction rule: list_all2_induct) (auto simp: section_of_def split: prod.splits)
  moreover have "map fst parts = [''trigger'', ''task'', ''active_run'', ''review'', ''proof'', ''recent_events'', ''policy'']"
    by (simp add: parts_def brief_parts_def Let_def split: option.split)
  ultimately show ?thesis using new run by (simp add: build_brief_def parts_def brief_bytes_def)
qed

subsection \<open>Outcomes\<close>

text \<open>When an outcome may be carried out.\<close>

definition has_required_fields :: "feedback_outcome \<Rightarrow> bool" where
  "has_required_fields out \<longleftrightarrow>
     (case fo_kind out of
        PromoteFollowupOutcome \<Rightarrow> non_empty_string (fo_followup_id out) \<noteq> None
      | WaiveFollowupOutcome \<Rightarrow> non_empty_string (fo_followup_id out) \<noteq> None
      | RetryRunOutcome \<Rightarrow> fo_run_id out \<noteq> None \<or> fo_task_id out \<noteq> None
      | RequestReworkOutcome \<Rightarrow> fo_task_id out \<noteq> None
      | ConflictResolutionOutcome \<Rightarrow> fo_task_id out \<noteq> None
      | IntegrationRepairOutcome \<Rightarrow> fo_task_id out \<noteq> None
      | _ \<Rightarrow> True)"

definition outcome_permitted :: "feedback_brief \<Rightarrow> feedback_outcome \<Rightarrow> feedback_policy \<Rightarrow> bool" where
  "outcome_permitted b out p \<longleftrightarrow>
     fo_contract_version out = feedback_contract_version \<and> fb_contract_version b = feedback_contract_version \<and>
     fo_turn_id out = fb_turn_id b \<and> fo_trigger_id out = ft_trigger_id (fb_trigger b) \<and>
     policy_allows p (fo_kind out) \<and> fo_kind out \<in> set (fb_allowed_outcomes b) \<and>
     outcome_allowed_for_trigger (ft_kind (fb_trigger b)) (fo_kind out) \<and>
     length (utf8_chars (fo_rationale out)) \<le> fp_rationale_max_chars p \<and>
     (if outcome_is_mutating (fo_kind out) then fp_rationale_min_chars p \<le> length (utf8_chars (fo_rationale out)) else True) \<and>
     has_required_fields out"

lemma required_fields_iff: "required_fields_missing out = None \<longleftrightarrow> has_required_fields out"
  unfolding required_fields_missing_def has_required_fields_def Let_def
  by (cases "fo_kind out") (auto simp: non_empty_string_def split: option.splits)

lemma validate_accepted_iff:
  "validate_outcome now b out p = OutcomeAccepted d \<longleftrightarrow> outcome_permitted b out p \<and> d = \<lparr>fd_brief = b, fd_outcome = out, fd_decided_at = now\<rparr>"
proof (cases "required_fields_missing out")
  case None
  then have "has_required_fields out" using required_fields_iff by blast
  with None show ?thesis unfolding validate_outcome_def outcome_permitted_def Let_def by (auto split: if_splits)
next
  case (Some reason)
  then have "\<not> has_required_fields out" using required_fields_iff [of out] by auto
  with Some show ?thesis unfolding validate_outcome_def outcome_permitted_def Let_def by auto
qed

lemma validate_cases:
  obtains reason message where "\<not> outcome_permitted b out p" "validate_outcome now b out p = OutcomeRejected reason message"
  | "outcome_permitted b out p" "validate_outcome now b out p = OutcomeAccepted \<lparr>fd_brief = b, fd_outcome = out, fd_decided_at = now\<rparr>"
  using validate_accepted_iff [of now b out p] by (cases "validate_outcome now b out p") blast+

text \<open>The plan that carries out a permitted outcome, and the mode changes it may contain.\<close>

definition outcome_plan :: "time \<Rightarrow> feedback_brief \<Rightarrow> feedback_outcome \<Rightarrow> feedback_plan" where
  "outcome_plan now b out = plan_application \<lparr>fd_brief = b, fd_outcome = out, fd_decided_at = now\<rparr>"

lemma plan_application_drain:
  "plan_application d = PlanEnterDrain why \<longleftrightarrow> fo_kind (fd_outcome d) = EnterDrainOutcome \<and> why = fo_rationale (fd_outcome d)"
  "plan_application d = PlanEnterSafeMode why \<longleftrightarrow> fo_kind (fd_outcome d) = EnterSafeModeOutcome \<and> why = fo_rationale (fd_outcome d)"
  by (auto simp: plan_application_def plan_followup_def plan_for_task_def missing_field_escalation_def Let_def
    split: feedback_outcome_kind.splits option.splits if_splits)

lemma append_each_completes:
  assumes "\<And>ev es. is_ok (snd (app ev es))"
  shows "\<exists>es'. append_each app evs es = (es', Inr ())"
proof (induction evs arbitrary: es)
  case (Cons ev evs)
  obtain es1 n where "app ev es = (es1, Inr n)" using assms [of ev es] by (cases "app ev es") (auto simp: is_ok_conv)
  with Cons show ?case by simp
qed simp

lemma lifecycle_plans:
  assumes "record_validate_and_apply_outcome io b out p es = (es', plans, cache, r)"
  shows "plans = [] \<or> plans = [outcome_plan (fx_now io) b out] \<and> outcome_permitted b out p"
proof (rule validate_cases [where now = "fx_now io" and b = b and out = out and p = p])
  fix reason message
  assume "validate_outcome (fx_now io) b out p = OutcomeRejected reason message"
  with assms show ?thesis by (auto simp: record_validate_and_apply_outcome_def Let_def split: prod.splits sum.splits)
next
  assume "outcome_permitted b out p"
    "validate_outcome (fx_now io) b out p = OutcomeAccepted \<lparr>fd_brief = b, fd_outcome = out, fd_decided_at = fx_now io\<rparr>"
  with assms show ?thesis
    by (auto simp: record_validate_and_apply_outcome_def outcome_plan_def Let_def simp del: append_each.simps split: prod.splits sum.splits)
qed

lemma lifecycle_executes:
  assumes "\<And>ev es. is_ok (snd (fx_append io ev es))" "outcome_permitted b out p"
    and "record_validate_and_apply_outcome io b out p es = (es', plans, cache, r)"
  shows "plans = [outcome_plan (fx_now io) b out]"
proof -
  have ok: "\<exists>es'. append_each (fx_append io) evs es = (es', Inr ())" for evs es by (rule append_each_completes) (rule assms(1))
  have accepted: "validate_outcome (fx_now io) b out p = OutcomeAccepted \<lparr>fd_brief = b, fd_outcome = out, fd_decided_at = fx_now io\<rparr>"
    using assms(2) validate_accepted_iff by blast
  let ?stage = "stage_event (fx_now io) b"
  obtain es1 where 1: "append_each (fx_append io) [?stage (FeedbackTurnStarted (fo_supervisor_id out) (fx_now io)),
      ?stage (FeedbackOutcomeReceived (fo_kind out) (fx_now io))] es = (es1, Inr ())" using ok by blast
  obtain es2 where 2: "append_each (fx_append io) [?stage (FeedbackOutcomeValidated (fo_kind out) (fx_now io)),
      ?stage (FeedbackDecisionRecorded (fo_kind out) (fx_now io) (decision_summary out))] es1 = (es2, Inr ())" using ok by blast
  from assms(3) accepted show ?thesis
    by (auto simp: record_validate_and_apply_outcome_def outcome_plan_def Let_def 1 2 simp del: append_each.simps split: prod.splits sum.splits)
qed

text \<open>
  C18: an outcome is carried out only if it is permitted: whatever fails on the way, the executor gets
  either nothing or the one plan of an outcome that answers this brief, is allowed by policy, brief and
  kind of trigger, and has its rationale and fields; drain and safe mode need the policy's consent. If the
  store accepts the events, a permitted outcome is handed to the executor.
\<close>

theorem outcome_gate:
  assumes "record_validate_and_apply_outcome io b out p es = (es', plans, cache, r)"
  shows "(plans = [] \<or> plans = [outcome_plan (fx_now io) b out] \<and> outcome_permitted b out p) \<and>
    list_all (\<lambda>plan. case plan of PlanEnterDrain why \<Rightarrow> fp_allow_drain p | PlanEnterSafeMode why \<Rightarrow> fp_allow_safe_mode p | _ \<Rightarrow> True) plans \<and>
    ((\<forall>ev es. is_ok (snd (fx_append io ev es))) \<and> outcome_permitted b out p \<longrightarrow> plans = [outcome_plan (fx_now io) b out])"
proof -
  have "case outcome_plan (fx_now io) b out of PlanEnterDrain why \<Rightarrow> fp_allow_drain p | PlanEnterSafeMode why \<Rightarrow> fp_allow_safe_mode p | _ \<Rightarrow> True"
    if "outcome_permitted b out p"
    using that plan_application_drain [of "\<lparr>fd_brief = b, fd_outcome = out, fd_decided_at = fx_now io\<rparr>"]
    by (auto simp: outcome_plan_def outcome_permitted_def policy_allows_def split: feedback_plan.splits if_splits)
  with lifecycle_plans [OF assms] lifecycle_executes [OF _ _ assms] show ?thesis by auto
qed

lemma build_brief_fields [simp]:
  "fb_turn_id (build_brief now t c p) = (case bc_turn_id c of Some i \<Rightarrow> i | None \<Rightarrow> synthesize_turn_id t)"
  "fb_contract_version (build_brief now t c p) = feedback_contract_version" "fb_trigger (build_brief now t c p) = t"
  "fb_allowed_outcomes (build_brief now t c p) = filter (policy_allows p) (fp_allowed_outcomes p)"
  by (simp_all add: build_brief_def split: prod.split)

text \<open>
  without an explicit turn identifier the one of a brief depends only on the trigger, so an outcome
  that answered an earlier brief of a trigger is accepted again for every later brief of it under the
  same policy.
\<close>

theorem stale_outcome_accepted:
  assumes "validate_outcome now1 (build_brief now t c p) out p = OutcomeAccepted d" "bc_turn_id c = None" "bc_turn_id c' = None"
  shows "\<exists>d'. validate_outcome now2 (build_brief now' t c' p) out p = OutcomeAccepted d' \<and> fb_turn_id (fd_brief d') = fb_turn_id (fd_brief d)"
proof -
  have same: "fb_turn_id (build_brief now t c p) = fb_turn_id (build_brief now' t c' p)"
    "fb_trigger (build_brief now t c p) = fb_trigger (build_brief now' t c' p)"
    "fb_allowed_outcomes (build_brief now t c p) = fb_allowed_outcomes (build_brief now' t c' p)"
    "fb_contract_version (build_brief now t c p) = fb_contract_version (build_brief now' t c' p)"
    using assms(2,3) by simp_all
  from assms(1) have "outcome_permitted (build_brief now t c p) out p" "fd_brief d = build_brief now t c p"
    by (simp_all add: validate_accepted_iff)
  then show ?thesis using same by (simp add: validate_accepted_iff outcome_permitted_def)
qed

subsection \<open>A concrete turn\<close>

definition drain_policy :: feedback_policy where
  "drain_policy = conservative_policy\<lparr>fp_allowed_outcomes := all_outcomes, fp_allow_drain := True\<rparr>"

definition drain_trigger :: feedback_trigger where
  "drain_trigger = make_trigger WorkerFailedTrigger (Some ''T1'') (Some ''RUN1'') None [1] (Some (1, 1)) 0 ''Run RUN1 failed: boom'' JNull"

definition empty_context :: brief_context where
  "empty_context = \<lparr>bc_task_summary = None, bc_active_run = None, bc_review_state = None, bc_proof = None, bc_recent_events = [],
     bc_policy_notes = [], bc_turn_id = None\<rparr>"

definition drain_brief :: feedback_brief where
  "drain_brief = build_brief 0 drain_trigger empty_context drain_policy"

definition drain_outcome :: feedback_outcome where
  "drain_outcome = \<lparr>fo_contract_version = 1, fo_turn_id = synthesize_turn_id drain_trigger, fo_trigger_id = ft_trigger_id drain_trigger,
     fo_kind = EnterDrainOutcome, fo_rationale = ''too many failures'', fo_followup_id = None, fo_task_id = None, fo_run_id = None,
     fo_supervisor_id = None, fo_payload = JNull\<rparr>"

lemma drain_permitted: "outcome_permitted (build_brief now drain_trigger empty_context drain_policy) drain_outcome drain_policy"
proof -
  have "length (utf8_chars (fo_rationale drain_outcome)) = 17" by (simp add: drain_outcome_def utf8_len_def)
  then show ?thesis
    by (simp add: outcome_permitted_def drain_outcome_def drain_policy_def conservative_policy_def all_outcomes_def policy_allows_def
      empty_context_def feedback_contract_version_def has_required_fields_def)
qed

definition list_ports :: "event list feedback_ports" where
  "list_ports = \<lparr>fx_now = 0, fx_append = (\<lambda>ev es. (es @ [ev], Inr (Suc (length es)))), fx_apply = event_only_executor, fx_rfc3339 = (\<lambda>_. ''time'')\<rparr>"

theorem outcome_gate_witness:
  "fst (snd (record_validate_and_apply_outcome list_ports drain_brief drain_outcome drain_policy [])) = [PlanEnterDrain ''too many failures''] \<and>
   fp_allow_drain drain_policy"
proof -
  obtain es plans cache r where run: "record_validate_and_apply_outcome list_ports drain_brief drain_outcome drain_policy [] = (es, plans, cache, r)"
    by (metis prod.exhaust)
  have "plans = [outcome_plan (fx_now list_ports) drain_brief drain_outcome]"
    using outcome_gate [OF run] drain_permitted by (simp add: list_ports_def drain_brief_def)
  with run show ?thesis by (simp add: outcome_plan_def plan_application_def drain_outcome_def drain_policy_def)
qed

theorem stale_outcome_accepted_witness:
  "\<exists>d. validate_outcome 5 (build_brief 4 drain_trigger (empty_context\<lparr>bc_task_summary := Some ''merged''\<rparr>) drain_policy) drain_outcome drain_policy = OutcomeAccepted d"
proof -
  obtain d where "validate_outcome 1 (build_brief 0 drain_trigger empty_context drain_policy) drain_outcome drain_policy = OutcomeAccepted d"
    using drain_permitted validate_accepted_iff by blast
  from stale_outcome_accepted [OF this, of "empty_context\<lparr>bc_task_summary := Some ''merged''\<rparr>" 5 4] show ?thesis by (auto simp: empty_context_def)
qed

end
