(* ===== verification/Supervisor_Monitor.thy ===== *)
theory Supervisor_Monitor
  imports Assignment
begin

text \<open>
  \<open>crates/brehon-supervisor/src/event_monitor.rs\<close>: the supervisor's view of agents, tasks and
  nudges, kept by replaying events. \<open>Utc::now()\<close> is an argument; hash maps are iterated in an
  arbitrary order.
\<close>

datatype nudge_delivery_state = Delivered | Acknowledged | ActedOn | TimedOut

datatype system_state = Recovering | Running | Draining | SafeMode | Stopped

record active_nudge =
  an_nudge_id :: string
  an_nudge_kind :: string
  an_delivery_state :: nudge_delivery_state
  an_sent_at :: time
  an_acknowledged_at :: "time option"
  an_acted_on_at :: "time option"
  an_timed_out_at :: "time option"

definition show_int :: "int \<Rightarrow> string" where
  "show_int n = (if n < 0 then CHR ''-'' # show_nat (nat (- n)) else show_nat (nat n))"

definition new_active_nudge :: "string \<Rightarrow> time \<Rightarrow> session_id \<Rightarrow> active_nudge" where
  "new_active_nudge kind sent_at session =
     \<lparr>an_nudge_id = session @ ''-'' @ kind @ ''-'' @ show_int (sent_at div 1000), an_nudge_kind = kind,
      an_delivery_state = Delivered, an_sent_at = sent_at, an_acknowledged_at = None, an_acted_on_at = None,
      an_timed_out_at = None\<rparr>"

record agent_state =
  ag_agent_id :: string
  ag_session_id :: session_id
  ag_role :: string
  ag_is_alive :: bool
  ag_current_task_id :: "task_id option"
  ag_last_event_at :: time
  ag_current_operation :: "string option"
  ag_last_message_content :: "string option"
  ag_message_history :: "(time \<times> string) list"
  ag_active_nudge :: "active_nudge option"

definition new_agent_state :: "time \<Rightarrow> string \<Rightarrow> session_id \<Rightarrow> string \<Rightarrow> agent_state" where
  "new_agent_state now agent session role =
     \<lparr>ag_agent_id = agent, ag_session_id = session, ag_role = role, ag_is_alive = True, ag_current_task_id = None,
      ag_last_event_at = now, ag_current_operation = None, ag_last_message_content = None, ag_message_history = [],
      ag_active_nudge = None\<rparr>"

definition is_in_operation :: "agent_state \<Rightarrow> bool" where
  "is_in_operation a \<longleftrightarrow> ag_current_operation a \<noteq> None"

definition idle_duration :: "time \<Rightarrow> agent_state \<Rightarrow> nat" where
  \<comment> \<open>in milliseconds; a negative difference counts as zero\<close>
  "idle_duration now a = nat (now - ag_last_event_at a)"

definition record_message :: "time \<Rightarrow> string \<Rightarrow> agent_state \<Rightarrow> agent_state" where
  "record_message now content a =
     a\<lparr>ag_last_message_content := Some content, ag_message_history := push_bounded 100 (ag_message_history a) (now, content)\<rparr>"

definition recent_messages :: "time \<Rightarrow> nat \<Rightarrow> agent_state \<Rightarrow> string list" where
  "recent_messages now minutes a =
     map snd (filter (\<lambda>(ts, _). now - int minutes * 60000 \<le> ts) (ag_message_history a))"

record task_state =
  ts_task_id :: task_id
  ts_status :: task_status
  ts_assignee :: "string option"
  ts_session_id :: "session_id option"
  ts_last_event_at :: time

definition new_task_state :: "time \<Rightarrow> task_id \<Rightarrow> task_state" where
  "new_task_state now t =
     \<lparr>ts_task_id = t, ts_status = Pending, ts_assignee = None, ts_session_id = None, ts_last_event_at = now\<rparr>"

record supervisor_state =
  ss_agents :: "(session_id, agent_state) hmap"
  ss_tasks :: "(task_id, task_state) hmap"
  ss_last_event_id :: "event_id option"
  ss_system_state :: system_state

type_synonym agent_order = "(session_id \<times> agent_state) hash_order"
type_synonym task_order = "(task_id \<times> task_state) hash_order"

definition new_supervisor_state :: supervisor_state where
  "new_supervisor_state = \<lparr>ss_agents = [], ss_tasks = [], ss_last_event_id = None, ss_system_state = Running\<rparr>"

definition active_agents :: "agent_order \<Rightarrow> supervisor_state \<Rightarrow> agent_state list" where
  "active_agents h s = filter ag_is_alive (hm_values h (ss_agents s))"

definition agents_in_operation :: "agent_order \<Rightarrow> supervisor_state \<Rightarrow> agent_state list" where
  "agents_in_operation h s = filter (\<lambda>a. ag_is_alive a \<and> is_in_operation a) (hm_values h (ss_agents s))"

definition agents_by_role :: "agent_order \<Rightarrow> string \<Rightarrow> supervisor_state \<Rightarrow> agent_state list" where
  "agents_by_role h role s = filter (\<lambda>a. ag_is_alive a \<and> ag_role a = role) (hm_values h (ss_agents s))"

definition stuck_candidates :: "agent_order \<Rightarrow> time \<Rightarrow> nat \<Rightarrow> supervisor_state \<Rightarrow> agent_state list" where
  "stuck_candidates h now minutes s =
     filter (\<lambda>a. ag_is_alive a \<and> \<not> is_in_operation a \<and> minutes * 60 * 1000 < idle_duration now a) (hm_values h (ss_agents s))"

definition active_nudge_for_session :: "session_id \<Rightarrow> supervisor_state \<Rightarrow> active_nudge option" where
  "active_nudge_for_session sid s = (case hm_get (ss_agents s) sid of None \<Rightarrow> None | Some a \<Rightarrow> ag_active_nudge a)"

definition nudge_state_for_session :: "session_id \<Rightarrow> supervisor_state \<Rightarrow> nudge_delivery_state option" where
  "nudge_state_for_session sid s = map_option an_delivery_state (active_nudge_for_session sid s)"

definition nudge_timeout_event :: "time \<Rightarrow> nat \<Rightarrow> session_id \<times> agent_state \<Rightarrow> event option" where
  "nudge_timeout_event now timeout = (\<lambda>(sid, a).
     case ag_active_nudge a of
       None \<Rightarrow> None
     | Some n \<Rightarrow>
         (let elapsed = nat (now - an_sent_at n) in
          if an_delivery_state n \<noteq> Delivered \<and> an_delivery_state n \<noteq> Acknowledged \<or> elapsed < timeout then None
          else Some \<lparr>ev_kind = NudgeTimedOut sid (an_nudge_id n) (an_nudge_kind n) (elapsed div 1000),
                     ev_timestamp = now, ev_aggregate_id = sid\<rparr>))"

definition nudge_timeout_events :: "agent_order \<Rightarrow> time \<Rightarrow> nat \<Rightarrow> supervisor_state \<Rightarrow> event list" where
  "nudge_timeout_events h now timeout s = List.map_filter (nudge_timeout_event now timeout) (iterate h (ss_agents s))"

subsection \<open>Replaying an event\<close>

definition on_agent :: "session_id \<Rightarrow> (agent_state \<Rightarrow> agent_state) \<Rightarrow> supervisor_state \<Rightarrow> supervisor_state" where
  "on_agent sid f s = s\<lparr>ss_agents := hm_modify sid f (ss_agents s)\<rparr>"

definition on_task :: "task_id \<Rightarrow> (task_state \<Rightarrow> task_state) \<Rightarrow> supervisor_state \<Rightarrow> supervisor_state" where
  "on_task t f s = s\<lparr>ss_tasks := hm_modify t f (ss_tasks s)\<rparr>"

definition on_nudge :: "(active_nudge \<Rightarrow> bool) \<Rightarrow> (active_nudge \<Rightarrow> active_nudge) \<Rightarrow> agent_state \<Rightarrow> agent_state" where
  "on_nudge p f a = a\<lparr>ag_active_nudge := map_option (\<lambda>n. if p n then f n else n) (ag_active_nudge a)\<rparr>"

definition nudge_reply :: "time \<Rightarrow> session_id \<Rightarrow> nudge_delivery_state \<Rightarrow> (string \<Rightarrow> event_kind) \<Rightarrow> supervisor_state \<Rightarrow> event list" where
  \<comment> \<open>the event a reaction of an agent emits when its nudge is in the given state\<close>
  "nudge_reply now sid expected kind s =
     (case active_nudge_for_session sid s of
        None \<Rightarrow> []
      | Some n \<Rightarrow>
          if an_delivery_state n = expected
          then [\<lparr>ev_kind = kind (an_nudge_kind n), ev_timestamp = now, ev_aggregate_id = sid\<rparr>] else [])"

definition assign_agent :: "agent_order \<Rightarrow> string \<Rightarrow> task_id \<Rightarrow> supervisor_state \<Rightarrow> supervisor_state" where
  \<comment> \<open>the first live agent of that name\<close>
  "assign_agent h agent t s =
     (case filter (\<lambda>(sid, a). ag_agent_id a = agent \<and> ag_is_alive a) (iterate h (ss_agents s)) of
        [] \<Rightarrow> s
      | (sid, a) # _ \<Rightarrow> on_agent sid (\<lambda>a. a\<lparr>ag_current_task_id := Some t\<rparr>) s)"

definition monitor_process_event ::
    "agent_order \<Rightarrow> time \<Rightarrow> event \<Rightarrow> event_id \<Rightarrow> supervisor_state \<Rightarrow> supervisor_state \<times> event list" where
  "monitor_process_event h now ev n s0 =
     (let s = s0\<lparr>ss_last_event_id := Some n\<rparr>; at = ev_timestamp ev in
      case ev_kind ev of
        AgentSpawned agent sid role \<Rightarrow>
          (s\<lparr>ss_agents := hm_insert sid (new_agent_state now agent sid role) (ss_agents s)\<rparr>, [])
      | AgentDied agent sid reason \<Rightarrow> (on_agent sid (\<lambda>a. a\<lparr>ag_is_alive := False\<rparr>) s, [])
      | PromptSent sid prompt content \<Rightarrow>
          (on_agent sid (\<lambda>a. record_message now content (a\<lparr>ag_last_event_at := now\<rparr>)) s, [])
      | ResponseReceived sid prompt tokens \<Rightarrow>
          (on_agent sid (\<lambda>a. a\<lparr>ag_last_event_at := now\<rparr>) s, nudge_reply now sid Delivered (NudgeAcknowledged sid) s)
      | OperationStarted sid operation \<Rightarrow>
          (on_agent sid (\<lambda>a. a\<lparr>ag_last_event_at := now, ag_current_operation := Some operation\<rparr>) s,
           nudge_reply now sid Acknowledged (\<lambda>kind. NudgeActedOn sid kind ''operation'') s)
      | OperationCompleted sid operation success \<Rightarrow>
          (on_agent sid (\<lambda>a. a\<lparr>ag_last_event_at := now, ag_current_operation := None\<rparr>) s,
           nudge_reply now sid Acknowledged (\<lambda>kind. NudgeActedOn sid kind ''operation_completed'') s)
      | TaskCreated t \<Rightarrow> (s\<lparr>ss_tasks := hm_insert t (new_task_state now t) (ss_tasks s)\<rparr>, [])
      | TaskAssigned t agent \<Rightarrow>
          (assign_agent h agent t
             (on_task t (\<lambda>x. x\<lparr>ts_status := Assigned, ts_assignee := Some agent, ts_last_event_at := now\<rparr>) s), [])
      | TaskCompleted t \<Rightarrow> (on_task t (\<lambda>x. x\<lparr>ts_status := InReview, ts_last_event_at := now\<rparr>) s, [])
      | NudgeSent sid kind content \<Rightarrow>
          (on_agent sid (\<lambda>a. a\<lparr>ag_last_event_at := at, ag_active_nudge := Some (new_active_nudge kind at sid)\<rparr>) s, [])
      | NudgeAcknowledged sid kind \<Rightarrow>
          (on_agent sid (\<lambda>a. on_nudge (\<lambda>n. an_delivery_state n = Delivered \<and> an_nudge_kind n = kind)
             (\<lambda>n. n\<lparr>an_delivery_state := Acknowledged, an_acknowledged_at := Some at\<rparr>) (a\<lparr>ag_last_event_at := at\<rparr>)) s, [])
      | NudgeActedOn sid kind progress \<Rightarrow>
          (on_agent sid (\<lambda>a. on_nudge (\<lambda>n. an_delivery_state n = Acknowledged \<and> an_nudge_kind n = kind)
             (\<lambda>n. n\<lparr>an_delivery_state := ActedOn, an_acted_on_at := Some at\<rparr>) (a\<lparr>ag_last_event_at := at\<rparr>)) s, [])
      | NudgeTimedOut sid nudge kind elapsed \<Rightarrow>
          (on_agent sid (\<lambda>a. on_nudge (\<lambda>n. (an_delivery_state n = Delivered \<or> an_delivery_state n = Acknowledged) \<and>
               an_nudge_id n = nudge \<and> an_nudge_kind n = kind)
             (\<lambda>n. n\<lparr>an_delivery_state := TimedOut, an_timed_out_at := Some at\<rparr>) (a\<lparr>ag_last_event_at := at\<rparr>)) s, [])
      | StuckDetected sid minutes pattern \<Rightarrow> (on_agent sid (\<lambda>a. a\<lparr>ag_last_event_at := now\<rparr>) s, [])
      | SystemDraining reason \<Rightarrow> (s\<lparr>ss_system_state := Draining\<rparr>, [])
      | _ \<Rightarrow> (s, []))"

subsection \<open>Bounds\<close>

definition evict :: "('k \<times> 'v) hash_order \<Rightarrow> ('v \<Rightarrow> bool) \<Rightarrow> nat \<Rightarrow> ('k, 'v) hmap \<Rightarrow> ('k, 'v) hmap" where
  "evict h p limit m =
     (let ks = map fst (filter (\<lambda>(k, v). p v) (iterate h m)) in
      if limit < length ks then fold hm_remove (take (length ks - limit) ks) m else m)"

definition monitor_apply_bounds :: "agent_order \<Rightarrow> task_order \<Rightarrow> nat \<Rightarrow> nat \<Rightarrow> supervisor_state \<Rightarrow> supervisor_state" where
  "monitor_apply_bounds h ht max_dead max_completed s =
     s\<lparr>ss_agents := evict h (\<lambda>a. \<not> ag_is_alive a) max_dead (ss_agents s),
       ss_tasks := evict ht (\<lambda>t. ts_status t = Merged) max_completed (ss_tasks s)\<rparr>"

end
