(* ===== verification/Supervisor_Checks.thy ===== *)
theory Supervisor_Checks
  imports Supervisor_Monitor
begin

text \<open>
  The parts the supervisor consults on every tick, from \<open>crates/brehon-supervisor/src\<close>:
  \<open>stuck_detection.rs\<close>, \<open>nudge.rs\<close>, \<open>budget_tracker.rs\<close>, \<open>escalation.rs\<close>, \<open>heartbeat.rs\<close> and
  \<open>autonomy.rs\<close>. Costs are floating-point and not modelled (the supervisor records usage without a
  model name, so no cost is ever added); the soft threshold, a floating-point product, is an argument.
\<close>

subsection \<open>Stuck detection\<close>

datatype recommended_action = RecNudgeWorker | RecRequestReview | RecReassign | RecCheckReview | RecEscalate

record stuck_detection_config =
  sd_time_threshold_minutes :: nat
  sd_pattern_threshold :: nat
  sd_pattern_window_minutes :: nat
  sd_operation_aware :: bool

definition default_stuck_detection_config :: stuck_detection_config where
  "default_stuck_detection_config =
     \<lparr>sd_time_threshold_minutes = 10, sd_pattern_threshold = 3, sd_pattern_window_minutes = 5, sd_operation_aware = True\<rparr>"

record stuck_info =
  si_session_id :: session_id
  si_agent_id :: string
  si_idle_minutes :: nat
  si_pattern :: "string option"
  si_is_in_operation :: bool
  si_task_id :: "task_id option"
  si_task_status :: "string option"
  si_recommended_action :: "recommended_action option"

definition classify_pattern :: "string \<Rightarrow> string" where
  "classify_pattern message =
     (let lower = to_lowercase message in
      if str_contains lower ''error'' \<or> str_contains lower ''failed'' then ''error_loop''
      else if str_contains lower ''retrying'' \<or> str_contains lower ''trying again'' then ''retry_loop''
      else if str_contains lower ''waiting'' \<or> str_contains lower ''pending'' then ''waiting_loop''
      else if str_contains lower ''timeout'' then ''timeout_loop''
      else ''repeated_message:'' @ take 50 message)"

definition message_counts :: "string list \<Rightarrow> (string, nat) hmap" where
  "message_counts messages = fold (\<lambda>m acc. hm_modify m Suc (hm_or_insert m 0 acc)) messages []"

definition detect_pattern :: "(string \<times> nat) hash_order \<Rightarrow> stuck_detection_config \<Rightarrow> time \<Rightarrow> agent_state \<Rightarrow> string option" where
  "detect_pattern h cfg now a =
     (if sd_pattern_threshold cfg < 2 then None
      else let recent = recent_messages now (sd_pattern_window_minutes cfg) a in
        if length recent < sd_pattern_threshold cfg then None
        else (case filter (\<lambda>(m, n). sd_pattern_threshold cfg \<le> n) (iterate h (message_counts recent)) of
                [] \<Rightarrow> None
              | (m, n) # _ \<Rightarrow> Some (classify_pattern m)))"

definition is_exempt_from_time_check :: "stuck_detection_config \<Rightarrow> agent_state \<Rightarrow> bool" where
  "is_exempt_from_time_check cfg a = (if \<not> sd_operation_aware cfg then False else is_in_operation a)"

definition idle_minutes :: "time \<Rightarrow> agent_state \<Rightarrow> nat" where
  "idle_minutes now a = idle_duration now a div 1000 div 60"

definition stuck_info_of :: "(string \<times> nat) hash_order \<Rightarrow> stuck_detection_config \<Rightarrow> time \<Rightarrow> agent_state \<Rightarrow> stuck_info option" where
  \<comment> \<open>one round of the loop\<close>
  "stuck_info_of h cfg now a =
     (if \<not> ag_is_alive a then None
      else let idle = idle_minutes now a; pattern = detect_pattern h cfg now a in
        if sd_time_threshold_minutes cfg \<le> idle \<and> \<not> is_exempt_from_time_check cfg a \<or> pattern \<noteq> None
        then Some \<lparr>si_session_id = ag_session_id a, si_agent_id = ag_agent_id a, si_idle_minutes = idle, si_pattern = pattern,
                   si_is_in_operation = is_in_operation a, si_task_id = None, si_task_status = None, si_recommended_action = None\<rparr>
        else None)"

definition detect_stuck :: "(string \<times> nat) hash_order \<Rightarrow> stuck_detection_config \<Rightarrow> time \<Rightarrow> agent_state list \<Rightarrow> stuck_info list" where
  "detect_stuck h cfg now agents = List.map_filter (stuck_info_of h cfg now) agents"

record task_context =
  tc_task_id :: task_id
  tc_status :: string
  tc_assignee_agent_id :: "string option"
  tc_has_active_review :: bool
  tc_updated_at :: time

definition determine_action :: "stuck_detection_config \<Rightarrow> string \<Rightarrow> nat \<Rightarrow> bool \<Rightarrow> bool \<Rightarrow> recommended_action option" where
  "determine_action cfg status idle in_operation active_review =
     (let normalized = remove_char (CHR ''_'') (to_lowercase status) in
      if normalized = ''inprogress'' then (if in_operation then None else Some RecNudgeWorker)
      else if normalized = ''inreview'' then (if active_review then Some RecCheckReview else Some RecRequestReview)
      else if normalized = ''approved'' then (if sd_time_threshold_minutes cfg \<le> idle then Some RecEscalate else None)
      else None)"

definition task_map :: "task_context list \<Rightarrow> (string, task_context) hmap" where
  \<comment> \<open>a later task of the same assignee replaces an earlier one\<close>
  "task_map tasks = fold (\<lambda>t m. case tc_assignee_agent_id t of None \<Rightarrow> m | Some a \<Rightarrow> hm_insert a t m) tasks []"

definition with_task_context :: "stuck_detection_config \<Rightarrow> (string, task_context) hmap \<Rightarrow> stuck_info \<Rightarrow> stuck_info" where
  "with_task_context cfg m i =
     (case (case hm_get m (si_agent_id i) of Some t \<Rightarrow> Some t | None \<Rightarrow> hm_get m (si_session_id i)) of
        None \<Rightarrow> i
      | Some t \<Rightarrow> i\<lparr>si_task_id := Some (tc_task_id t), si_task_status := Some (tc_status t),
          si_recommended_action := determine_action cfg (tc_status t) (si_idle_minutes i) (si_is_in_operation i) (tc_has_active_review t)\<rparr>)"

definition detect_stuck_with_tasks ::
    "(string \<times> nat) hash_order \<Rightarrow> stuck_detection_config \<Rightarrow> time \<Rightarrow> agent_state list \<Rightarrow> task_context list \<Rightarrow> stuck_info list" where
  "detect_stuck_with_tasks h cfg now agents tasks = map (with_task_context cfg (task_map tasks)) (detect_stuck h cfg now agents)"

definition orphan_info :: "time \<Rightarrow> agent_state list \<Rightarrow> task_context \<Rightarrow> stuck_info option" where
  "orphan_info now agents t =
     (case tc_assignee_agent_id t of
        None \<Rightarrow> None
      | Some owner \<Rightarrow>
          if list_ex (\<lambda>a. ag_is_alive a \<and> (ag_agent_id a = owner \<or> ag_session_id a = owner)) agents then None
          else (let status = remove_char (CHR ''_'') (to_lowercase (tc_status t));
                    act = (if status = ''inprogress'' \<or> status = ''inreview'' then Some RecReassign
                              else if status = ''approved'' then Some RecEscalate else None)
                in if act = None then None
                   else Some \<lparr>si_session_id = owner, si_agent_id = owner, si_idle_minutes = nat (now - tc_updated_at t) div 60000,
                     si_pattern = None, si_is_in_operation = False, si_task_id = Some (tc_task_id t),
                     si_task_status = Some (tc_status t), si_recommended_action = act\<rparr>))"

definition reconcile_orphaned_tasks :: "time \<Rightarrow> agent_state list \<Rightarrow> task_context list \<Rightarrow> stuck_info list" where
  "reconcile_orphaned_tasks now agents tasks = List.map_filter (orphan_info now agents) tasks"

subsection \<open>Nudges\<close>

datatype nudge_kind = SoftNudge | GuidanceNudge | RedirectNudge | ResumeNudge

definition nudge_kind_str :: "nudge_kind \<Rightarrow> string" where
  "nudge_kind_str k =
     (case k of SoftNudge \<Rightarrow> ''soft'' | GuidanceNudge \<Rightarrow> ''guidance'' | RedirectNudge \<Rightarrow> ''redirect'' | ResumeNudge \<Rightarrow> ''resume'')"

definition nudge_template :: "nudge_kind \<Rightarrow> string" where
  \<comment> \<open>the first template of each kind, the only one the generator uses\<close>
  "nudge_template k =
     (case k of
        SoftNudge \<Rightarrow> ''Are you still working on this task? Please provide a status update.''
      | GuidanceNudge \<Rightarrow> ''I noticed you might be stuck. Consider reviewing the requirements again and breaking down the task into smaller steps.''
      | RedirectNudge \<Rightarrow> ''This approach isn'' @ [CHR 0x27] @ ''t progressing well. Please stop the current work and try a simpler solution first.''
      | ResumeNudge \<Rightarrow> ''The operation has completed. You can now continue with your work.'')"

definition nudge_generate :: "nudge_kind \<Rightarrow> string option \<Rightarrow> string" where
  "nudge_generate k context =
     (case context of
        None \<Rightarrow> nudge_template k
      | Some c \<Rightarrow> nudge_template k @ [CHR 0x0A, CHR 0x0A] @ ''Context: '' @ c)"

definition generate_with_pattern :: "nudge_kind \<Rightarrow> string option \<Rightarrow> string" where
  "generate_with_pattern k pattern =
     (case pattern of
        None \<Rightarrow> nudge_generate k None
      | Some p \<Rightarrow>
          if str_contains p ''error''
          then ''I noticed you'' @ [CHR 0x27] @ ''re encountering repeated errors ('' @ p @
            ''). Please carefully review the error message and consider if there'' @ [CHR 0x27] @ ''s a different approach.''
          else if str_contains p ''retry''
          then ''You seem to be stuck in a retry loop. Consider whether the current approach is viable, or if you need to try something different.''
          else nudge_generate k (Some (''Pattern detected: '' @ p)))"

record nudge_history_entry =
  nh_kind :: nudge_kind
  nh_session_id :: session_id
  nh_content :: string
  nh_sent_at :: time
  nh_success :: bool

record nudge_sender =
  ns_history :: "nudge_history_entry list"
  ns_history_limit :: nat

definition new_nudge_sender :: nudge_sender where
  "new_nudge_sender = \<lparr>ns_history = [], ns_history_limit = 1000\<rparr>"

definition prepare_nudge_with_pattern :: "string \<Rightarrow> time \<Rightarrow> nudge_kind \<Rightarrow> string option \<Rightarrow> prompt_turn" where
  "prepare_nudge_with_pattern uuid now k pattern =
     \<lparr>pt_prompt_id = uuid, pt_content = generate_with_pattern k pattern, pt_sent_at = now\<rparr>"

definition record_prepared_nudge :: "time \<Rightarrow> session_id \<Rightarrow> nudge_kind \<Rightarrow> prompt_turn \<Rightarrow> bool \<Rightarrow> nudge_sender \<Rightarrow> nudge_sender" where
  "record_prepared_nudge now sid k p success ns =
     (let e = \<lparr>nh_kind = k, nh_session_id = sid, nh_content = pt_content p, nh_sent_at = now, nh_success = success\<rparr> in
      ns\<lparr>ns_history := (if ns_history_limit ns = 0 then ns_history ns @ [e]
                       else push_bounded (ns_history_limit ns) (ns_history ns) e)\<rparr>)"

definition last_nudge_for_session :: "session_id \<Rightarrow> nudge_sender \<Rightarrow> nudge_history_entry option" where
  "last_nudge_for_session sid ns = List.find (\<lambda>e. nh_session_id e = sid) (rev (ns_history ns))"

definition nudge_count_for_session :: "session_id \<Rightarrow> nudge_sender \<Rightarrow> nat" where
  "nudge_count_for_session sid ns = length (filter (\<lambda>e. nh_session_id e = sid) (ns_history ns))"

subsection \<open>Budget\<close>

record budget_policy =
  bp_max_total_tokens :: "nat option"
  bp_soft_threshold_percent :: nat
  bp_hard_limit :: bool

record budget_tracker =
  bt_total_tokens :: nat
  bt_tokens_by_agent :: "(string \<times> nat) list"
  bt_updated_at :: time
  bt_policy :: budget_policy
  bt_soft_threshold_triggered :: bool
  bt_max_per_agent_records :: nat

definition new_budget_tracker :: "time \<Rightarrow> budget_policy \<Rightarrow> budget_tracker" where
  "new_budget_tracker now p =
     \<lparr>bt_total_tokens = 0, bt_tokens_by_agent = [], bt_updated_at = now, bt_policy = p,
      bt_soft_threshold_triggered = False, bt_max_per_agent_records = 1000\<rparr>"

definition is_soft_threshold_reached :: "(nat \<Rightarrow> nat \<Rightarrow> nat) \<Rightarrow> budget_policy \<Rightarrow> nat \<Rightarrow> bool" where
  \<comment> \<open>\<open>soft max percent\<close> is the floating-point threshold\<close>
  "is_soft_threshold_reached soft p n \<longleftrightarrow>
     (case bp_max_total_tokens p of None \<Rightarrow> False | Some m \<Rightarrow> soft m (bp_soft_threshold_percent p) \<le> n)"

definition is_hard_limit_reached :: "budget_policy \<Rightarrow> nat \<Rightarrow> bool" where
  "is_hard_limit_reached p n \<longleftrightarrow> (case bp_max_total_tokens p of None \<Rightarrow> False | Some m \<Rightarrow> m \<le> n)"

definition soft_notification :: "budget_policy \<Rightarrow> nat \<Rightarrow> string" where
  "soft_notification p tokens =
     ''Budget at '' @ show_nat (bp_soft_threshold_percent p) @ ''% threshold ('' @ show_nat tokens @ '' tokens used)''"

definition record_usage :: "(nat \<Rightarrow> nat \<Rightarrow> nat) \<Rightarrow> time \<Rightarrow> string \<Rightarrow> nat \<Rightarrow> budget_tracker \<Rightarrow> budget_tracker \<times> string list" where
  \<comment> \<open>the tracker and the notifications; the message of the soft threshold has the tokens of this usage\<close>
  "record_usage soft now agent tokens t =
     (let t1 = t\<lparr>bt_total_tokens := sat_add u64_max (bt_total_tokens t) tokens,
            bt_tokens_by_agent := push_bounded (bt_max_per_agent_records t) (bt_tokens_by_agent t) (agent, tokens),
            bt_updated_at := now\<rparr> in
      if is_soft_threshold_reached soft (bt_policy t) (bt_total_tokens t1) \<and> \<not> bt_soft_threshold_triggered t
      then (t1\<lparr>bt_soft_threshold_triggered := True\<rparr>, [soft_notification (bt_policy t) tokens])
      else (t1, []))"

definition budget_process_event :: "(nat \<Rightarrow> nat \<Rightarrow> nat) \<Rightarrow> time \<Rightarrow> event \<Rightarrow> budget_tracker \<Rightarrow> budget_tracker" where
  "budget_process_event soft now ev t =
     (case ev_kind ev of ResponseReceived sid prompt tokens \<Rightarrow> fst (record_usage soft now sid tokens t) | _ \<Rightarrow> t)"

definition budget_reset :: "time \<Rightarrow> budget_tracker \<Rightarrow> budget_tracker" where
  "budget_reset now t = t\<lparr>bt_total_tokens := 0, bt_tokens_by_agent := [], bt_updated_at := now, bt_soft_threshold_triggered := False\<rparr>"

definition is_over_budget :: "budget_tracker \<Rightarrow> bool" where
  "is_over_budget t = is_hard_limit_reached (bt_policy t) (bt_total_tokens t)"

definition tokens_by_agent :: "budget_tracker \<Rightarrow> (string, nat) hmap" where
  "tokens_by_agent t =
     fold (\<lambda>(a, n) m. hm_modify a (\<lambda>x. sat_add u64_max x n) (hm_or_insert a 0 m)) (bt_tokens_by_agent t) []"

subsection \<open>Escalation\<close>

record escalation_record =
  er_reason :: string
  er_context :: string
  er_retry_count :: nat
  er_escalated_at :: time
  er_resolved :: bool

record escalation_manager =
  em_max_retries :: nat
  em_escalations :: "escalation_record list"
  em_retry_counts :: "(string, nat) hmap"

definition should_escalate :: "string \<Rightarrow> escalation_manager \<Rightarrow> bool" where
  "should_escalate d m \<longleftrightarrow> em_max_retries m \<le> (case hm_get (em_retry_counts m) d of None \<Rightarrow> 0 | Some n \<Rightarrow> n)"

definition record_retry :: "string \<Rightarrow> escalation_manager \<Rightarrow> escalation_manager \<times> nat" where
  "record_retry d m =
     (let counts = hm_modify d Suc (hm_or_insert d 0 (em_retry_counts m)) in
      (m\<lparr>em_retry_counts := counts\<rparr>, the (hm_get counts d)))"

definition reset_retry :: "string \<Rightarrow> escalation_manager \<Rightarrow> escalation_manager" where
  "reset_retry d m = m\<lparr>em_retry_counts := hm_remove d (em_retry_counts m)\<rparr>"

definition escalate ::
    "time \<Rightarrow> ((string \<Rightarrow> (string, unit) result) \<times> (string \<Rightarrow> (string, unit) result)) option \<Rightarrow> string \<Rightarrow> string \<Rightarrow> escalation_manager \<Rightarrow> escalation_manager \<times> (string, unit) result" where
  \<comment> \<open>the ports show the dialog and the toast\<close>
  "escalate now notify reason context m =
     (let rec = \<lparr>er_reason = reason, er_context = context, er_retry_count = sum_list (map snd (em_retry_counts m)),
            er_escalated_at = now, er_resolved = False\<rparr>;
          m1 = m\<lparr>em_escalations := em_escalations m @ [rec]\<rparr>;
          nl = [CHR 0x0A, CHR 0x0A]
      in (m1, case notify of
            None \<Rightarrow> Inr ()
          | Some (dialog, toast) \<Rightarrow>
              (case dialog (''ESCALATION REQUIRED'' @ nl @ ''Reason: '' @ reason @ nl @ ''Context:'' @ [CHR 0x0A] @ context) of
                 Inl e \<Rightarrow> Inl e | Inr _ \<Rightarrow> toast reason)))"

fun resolve_first :: "string \<Rightarrow> escalation_record list \<Rightarrow> escalation_record list" where
  "resolve_first reason [] = []"
| "resolve_first reason (r # rs) =
     (if \<not> er_resolved r \<and> er_reason r = reason then r\<lparr>er_resolved := True\<rparr> # rs else r # resolve_first reason rs)"

definition escalation_resolve :: "string \<Rightarrow> escalation_manager \<Rightarrow> escalation_manager" where
  "escalation_resolve reason m = m\<lparr>em_escalations := rev (resolve_first reason (rev (em_escalations m)))\<rparr>"

definition pending_escalations :: "escalation_manager \<Rightarrow> escalation_record list" where
  "pending_escalations m = filter (\<lambda>r. \<not> er_resolved r) (em_escalations m)"

definition clear_escalations :: "escalation_manager \<Rightarrow> escalation_manager" where
  "clear_escalations m = m\<lparr>em_escalations := [], em_retry_counts := []\<rparr>"

subsection \<open>Heartbeat and autonomy\<close>

datatype decision_confidence = ConfidenceLow | ConfidenceMedium | ConfidenceHigh

record heartbeat_config =
  hc_interval_minutes :: nat
  hc_enabled :: bool

record heartbeat_state =
  hb_last_heartbeat :: "time option"
  hb_last_confidence :: "decision_confidence option"
  hb_consecutive_low_confidence :: nat
  hb_total_checkouts :: nat

definition new_heartbeat_state :: heartbeat_state where
  "new_heartbeat_state =
     \<lparr>hb_last_heartbeat = None, hb_last_confidence = None, hb_consecutive_low_confidence = 0, hb_total_checkouts = 0\<rparr>"

definition should_run_heartbeat :: "time \<Rightarrow> heartbeat_config \<Rightarrow> heartbeat_state \<Rightarrow> bool" where
  "should_run_heartbeat now cfg s =
     (if \<not> hc_enabled cfg then False
      else (case hb_last_heartbeat s of None \<Rightarrow> True | Some l \<Rightarrow> int (hc_interval_minutes cfg) * 60000 \<le> now - l))"

definition record_heartbeat :: "time \<Rightarrow> decision_confidence \<Rightarrow> heartbeat_state \<Rightarrow> heartbeat_state" where
  "record_heartbeat now c s =
     s\<lparr>hb_last_heartbeat := Some now, hb_last_confidence := Some c, hb_total_checkouts := hb_total_checkouts s + 1,
       hb_consecutive_low_confidence := (if c = ConfidenceLow then hb_consecutive_low_confidence s + 1 else 0)\<rparr>"

definition needs_escalation :: "nat \<Rightarrow> heartbeat_state \<Rightarrow> bool" where
  "needs_escalation threshold s \<longleftrightarrow> threshold \<le> hb_consecutive_low_confidence s"

datatype autonomy_level = FullAutonomy | Guided | Minimal

datatype decision_kind =
    PlanExecution | AssignWorker | StuckGuidance | ReviewDeadlock | MergeConflict | HeartbeatCheck | NextAction | ErrorHandler

definition should_invoke_ai_for_assignment :: "autonomy_level \<Rightarrow> task_status \<Rightarrow> bool" where
  "should_invoke_ai_for_assignment l status = (case l of FullAutonomy \<Rightarrow> True | Guided \<Rightarrow> status = Pending | Minimal \<Rightarrow> False)"

definition should_invoke_ai_for_planning :: "autonomy_level \<Rightarrow> bool" where
  "should_invoke_ai_for_planning l \<longleftrightarrow> l = FullAutonomy \<or> l = Guided"

definition should_invoke_ai_for_heartbeat :: "autonomy_level \<Rightarrow> bool" where
  "should_invoke_ai_for_heartbeat l \<longleftrightarrow> l = FullAutonomy \<or> l = Guided"

definition should_invoke_ai_for_sanity_check :: "autonomy_level \<Rightarrow> bool" where
  "should_invoke_ai_for_sanity_check l \<longleftrightarrow> l = FullAutonomy"

definition should_invoke_ai_for_stuck :: "autonomy_level \<Rightarrow> bool" where
  "should_invoke_ai_for_stuck l = True"

definition should_invoke_ai_for_failure :: "autonomy_level \<Rightarrow> bool" where
  "should_invoke_ai_for_failure l = True"

definition should_invoke_ai_for_deadlock :: "autonomy_level \<Rightarrow> bool" where
  "should_invoke_ai_for_deadlock l = True"

definition should_invoke_ai_for :: "autonomy_level \<Rightarrow> decision_kind \<Rightarrow> bool" where
  "should_invoke_ai_for l k =
     (case k of
        PlanExecution \<Rightarrow> should_invoke_ai_for_planning l
      | AssignWorker \<Rightarrow> should_invoke_ai_for_assignment l Pending
      | StuckGuidance \<Rightarrow> should_invoke_ai_for_stuck l
      | ReviewDeadlock \<Rightarrow> should_invoke_ai_for_deadlock l
      | MergeConflict \<Rightarrow> should_invoke_ai_for_failure l
      | HeartbeatCheck \<Rightarrow> should_invoke_ai_for_heartbeat l
      | NextAction \<Rightarrow> should_invoke_ai_for_planning l
      | ErrorHandler \<Rightarrow> should_invoke_ai_for_failure l)"

end
