(* ===== verification/Supervisor.thy ===== *)
theory Supervisor
  imports Supervisor_Checks Feedback_Lifecycle
begin

text \<open>
  \<open>crates/brehon-supervisor/src/supervisor.rs\<close>: a tick polls the event store, replays the events,
  records feedback triggers, times nudges out, nudges stuck agents, runs the heartbeat and
  enforces the budget. The event store, the gateway, the decision engine, the clock and the
  formatting of times are ports; the state of the event store is passed along. A panic of a tick is
  not modelled.
\<close>

subsection \<open>State and ports\<close>

record supervisor_config =
  sc_autonomy :: autonomy_level
  sc_stuck_detection :: stuck_detection_config
  sc_heartbeat :: heartbeat_config
  sc_budget :: budget_policy
  sc_event_batch_size :: nat
  sc_max_dead_agents :: nat
  sc_max_completed_tasks :: nat
  sc_nudge_timeout :: nat \<comment> \<open>milliseconds\<close>

definition default_supervisor_config :: supervisor_config where
  "default_supervisor_config =
     \<lparr>sc_autonomy = Guided, sc_stuck_detection = default_stuck_detection_config,
      sc_heartbeat = \<lparr>hc_interval_minutes = 5, hc_enabled = True\<rparr>,
      sc_budget = \<lparr>bp_max_total_tokens = None, bp_soft_threshold_percent = 80, bp_hard_limit = True\<rparr>,
      sc_event_batch_size = 100, sc_max_dead_agents = 100, sc_max_completed_tasks = 1000, sc_nudge_timeout = 120000\<rparr>"

record supervisor =
  sv_config :: supervisor_config
  sv_state :: system_state
  sv_running :: bool
  sv_last_processed_event :: "event_id option"
  sv_known_dedup_keys :: "string list"
  sv_monitor :: supervisor_state
  sv_budget :: budget_tracker
  sv_nudges :: nudge_sender
  sv_heartbeat :: heartbeat_state

record 'es supervisor_ports =
  sp_now :: time
  sp_append :: "event \<Rightarrow> 'es \<Rightarrow> 'es \<times> (string, event_id) result"
  sp_stream :: "event_id option \<Rightarrow> nat \<Rightarrow> 'es \<Rightarrow> (string, (event \<times> event_id) list) result"
  sp_send :: gateway_send
  sp_uuid :: "session_id \<Rightarrow> string"
  sp_decide :: "string \<Rightarrow> (string, decision_confidence) result"
  sp_rfc3339 :: "time \<Rightarrow> string"
  sp_soft_threshold :: "nat \<Rightarrow> nat \<Rightarrow> nat"
  sp_agents :: agent_order
  sp_tasks :: task_order
  sp_counts :: "(string \<times> nat) hash_order"

definition new_supervisor :: "time \<Rightarrow> supervisor_config \<Rightarrow> supervisor" where
  \<comment> \<open>as \<open>run\<close> starts it\<close>
  "new_supervisor now cfg =
     \<lparr>sv_config = cfg, sv_state = Running, sv_running = True, sv_last_processed_event = None, sv_known_dedup_keys = [],
      sv_monitor = new_supervisor_state, sv_budget = new_budget_tracker now (sc_budget cfg), sv_nudges = new_nudge_sender,
      sv_heartbeat = new_heartbeat_state\<rparr>"

subsection \<open>Events\<close>

abbreviation append_emitted :: "'es supervisor_ports \<Rightarrow> event list \<Rightarrow> 'es \<Rightarrow> 'es \<times> (string, unit) result" where
  "append_emitted io \<equiv> append_each (sp_append io)"

definition supervisor_process_event ::
    "'es supervisor_ports \<Rightarrow> event \<times> event_id \<Rightarrow> supervisor \<times> 'es \<Rightarrow> supervisor \<times> 'es \<times> (string, unit) result" where
  "supervisor_process_event io = (\<lambda>(ev, n) (s, es).
     case monitor_process_event (sp_agents io) (sp_now io) ev n (sv_monitor s) of (m, emit) \<Rightarrow>
       (let s1 = s\<lparr>sv_monitor := m, sv_budget := budget_process_event (sp_soft_threshold io) (sp_now io) ev (sv_budget s)\<rparr> in
        case append_emitted io emit es of
          (es', Inl e) \<Rightarrow> (s1, es', Inl e)
        | (es', Inr _) \<Rightarrow>
            (case ev_kind ev of
               SystemDraining reason \<Rightarrow> s1\<lparr>sv_state := Draining\<rparr>
             | FeedbackTriggerDetected trigger key kind task run review sources covered summary at \<Rightarrow>
                 s1\<lparr>sv_known_dedup_keys := hs_insert key (sv_known_dedup_keys s1)\<rparr>
             | _ \<Rightarrow> s1, es', Inr ())))"

definition process_polled :: "'es supervisor_ports \<Rightarrow> (event \<times> event_id) list \<Rightarrow> supervisor \<times> 'es \<Rightarrow> supervisor \<times> 'es" where
  \<comment> \<open>an error of one event is logged\<close>
  "process_polled io evs se = fold (\<lambda>e se. case supervisor_process_event io e se of (s, es, r) \<Rightarrow> (s, es)) evs se"

definition trigger_event :: "time \<Rightarrow> feedback_trigger \<Rightarrow> event" where
  "trigger_event now t =
     feedback_event now
       (FeedbackTriggerDetected (ft_trigger_id t) (dedup_key t) (ft_kind t) (ft_task_id t) (ft_run_id t) (ft_review_id t)
          (ft_source_event_ids t) (ft_covered_event_range t) (ft_summary t) now) (ft_task_id t) (ft_trigger_id t)"

definition supervisor_triggers :: "'es supervisor_ports \<Rightarrow> (event \<times> event_id) list \<Rightarrow> supervisor \<Rightarrow> feedback_trigger list" where
  \<comment> \<open>the call of the detector, which gets no snapshots\<close>
  "supervisor_triggers io evs s =
     detect_triggers (sp_now io) (sp_rfc3339 io)
       \<lparr>di_events = map prod.swap evs, di_open_followups = [], di_stuck_runs = [], di_pending_permissions = [],
        di_timed_out_nudges = [], di_known_dedup_keys = sv_known_dedup_keys s, di_policy = default_trigger_policy\<rparr>"

definition detect_feedback_triggers ::
    "'es supervisor_ports \<Rightarrow> (event \<times> event_id) list \<Rightarrow> supervisor \<Rightarrow> 'es \<Rightarrow> supervisor \<times> 'es \<times> (string, unit) result" where
  "detect_feedback_triggers io evs s es =
     (if evs = [] then (s, es, Inr ())
      else let triggers = supervisor_triggers io evs s in
        (case append_emitted io (map (trigger_event (sp_now io)) triggers) es of
           (es', Inl e) \<Rightarrow> (s, es', Inl e)
         | (es', Inr _) \<Rightarrow>
             (s\<lparr>sv_known_dedup_keys := fold (\<lambda>t. hs_insert (dedup_key t)) triggers (sv_known_dedup_keys s)\<rparr>, es', Inr ())))"

subsection \<open>Own events\<close>

definition record_own_event ::
    "'es supervisor_ports \<Rightarrow> event \<Rightarrow> supervisor \<Rightarrow> 'es \<Rightarrow> supervisor \<times> 'es \<times> (string, unit) result" where
  \<comment> \<open>an event the supervisor appends and replays at once, under the number it got\<close>
  "record_own_event io ev s es =
     (case sp_append io ev es of
        (es', Inl e) \<Rightarrow> (s, es', Inl e)
      | (es', Inr n) \<Rightarrow>
          (s\<lparr>sv_monitor := fst (monitor_process_event (sp_agents io) (sp_now io) ev n (sv_monitor s)),
             sv_last_processed_event := Some n\<rparr>, es', Inr ()))"

fun record_own_events ::
    "'es supervisor_ports \<Rightarrow> event list \<Rightarrow> supervisor \<Rightarrow> 'es \<Rightarrow> supervisor \<times> 'es \<times> (string, unit) result" where
  "record_own_events io [] s es = (s, es, Inr ())"
| "record_own_events io (ev # evs) s es =
     (case record_own_event io ev s es of
        (s', es', Inl e) \<Rightarrow> (s', es', Inl e)
      | (s', es', Inr _) \<Rightarrow> record_own_events io evs s' es')"

definition check_nudge_timeouts :: "'es supervisor_ports \<Rightarrow> supervisor \<Rightarrow> 'es \<Rightarrow> supervisor \<times> 'es \<times> (string, unit) result" where
  "check_nudge_timeouts io s es =
     record_own_events io
       (nudge_timeout_events (sp_agents io) (sp_now io) (sc_nudge_timeout (sv_config s)) (sv_monitor s)) s es"

definition nudge_one ::
    "'es supervisor_ports \<Rightarrow> stuck_info \<Rightarrow> supervisor \<Rightarrow> 'es \<Rightarrow>
      supervisor \<times> 'es \<times> (session_id \<times> prompt_turn) list \<times> (string, unit) result" where
  \<comment> \<open>one round of the loop, with the prompt if it was delivered\<close>
  "nudge_one io i s es =
     (if should_invoke_ai_for_stuck (sc_autonomy (sv_config s)) \<and> \<not> si_is_in_operation i
      then let sid = si_session_id i;
               kind = (if 30 < si_idle_minutes i then GuidanceNudge else SoftNudge);
               prompt = prepare_nudge_with_pattern (sp_uuid io sid) (sp_now io) kind (si_pattern i);
               sent = sp_send io sid prompt;
               s1 = s\<lparr>sv_nudges := record_prepared_nudge (sp_now io) sid kind prompt (is_ok sent) (sv_nudges s)\<rparr>
           in (case sent of
                 Inl e \<Rightarrow> (s1, es, [], Inl e)
               | Inr _ \<Rightarrow>
                   (case record_own_event io
                       \<lparr>ev_kind = NudgeSent sid (nudge_kind_str kind) (pt_content prompt), ev_timestamp = sp_now io, ev_aggregate_id = sid\<rparr>
                       s1 es of
                      (s2, es', r) \<Rightarrow> (s2, es', [(sid, prompt)], r)))
      else (s, es, [], Inr ()))"

fun nudge_each ::
    "'es supervisor_ports \<Rightarrow> stuck_info list \<Rightarrow> supervisor \<Rightarrow> 'es \<Rightarrow>
      supervisor \<times> 'es \<times> (session_id \<times> prompt_turn) list \<times> (string, unit) result" where
  "nudge_each io [] s es = (s, es, [], Inr ())"
| "nudge_each io (i # rest) s es =
     (case nudge_one io i s es of
        (s1, es1, ps, Inl e) \<Rightarrow> (s1, es1, ps, Inl e)
      | (s1, es1, ps, Inr _) \<Rightarrow>
          (case nudge_each io rest s1 es1 of (s2, es2, ps2, r) \<Rightarrow> (s2, es2, ps @ ps2, r)))"

definition check_stuck_agents ::
    "'es supervisor_ports \<Rightarrow> supervisor \<Rightarrow> 'es \<Rightarrow> supervisor \<times> 'es \<times> (session_id \<times> prompt_turn) list \<times> (string, unit) result" where
  "check_stuck_agents io s es =
     nudge_each io
       (detect_stuck (sp_counts io) (sc_stuck_detection (sv_config s)) (sp_now io) (active_agents (sp_agents io) (sv_monitor s))) s es"

subsection \<open>Heartbeat and budget\<close>

definition heartbeat_context :: "'es supervisor_ports \<Rightarrow> supervisor_state \<Rightarrow> string" where
  "heartbeat_context io m =
     (let with_status = (\<lambda>st. length (filter (\<lambda>t. ts_status t = st) (hm_values (sp_tasks io) (ss_tasks m)))) in
      ''Active agents: '' @ show_nat (length (active_agents (sp_agents io) m)) @ nl @
      ''Active tasks: '' @ show_nat (with_status InProgress) @ nl @
      ''Pending tasks: '' @ show_nat (with_status Pending) @ nl @
      ''Stuck agents: '' @ show_nat (length (stuck_candidates (sp_agents io) (sp_now io) 100 m)) @ nl @
      ''Recent events: 0'' @ nl @ ''Budget used: 0.0%'' @ nl @ ''System state: running'')"

definition run_heartbeat :: "'es supervisor_ports \<Rightarrow> supervisor \<Rightarrow> supervisor \<times> (string, unit) result" where
  "run_heartbeat io s =
     (case sp_decide io (heartbeat_context io (sv_monitor s)) of
        Inl e \<Rightarrow> (s, Inl e)
      | Inr c \<Rightarrow> (s\<lparr>sv_heartbeat := record_heartbeat (sp_now io) c (sv_heartbeat s)\<rparr>, Inr ()))"

definition handle_budget_exceeded :: "'es supervisor_ports \<Rightarrow> supervisor \<Rightarrow> 'es \<Rightarrow> supervisor \<times> 'es \<times> (string, unit) result" where
  "handle_budget_exceeded io s es =
     (case sp_append io \<lparr>ev_kind = SystemDraining ''Budget exceeded'', ev_timestamp = sp_now io, ev_aggregate_id = ''system''\<rparr> es of
        (es', Inl e) \<Rightarrow> (s\<lparr>sv_state := Draining\<rparr>, es', Inl e)
      | (es', Inr n) \<Rightarrow> (s\<lparr>sv_state := Draining\<rparr>, es', Inr ()))"

subsection \<open>The tick\<close>

definition tick_checks ::
    "'es supervisor_ports \<Rightarrow> supervisor \<Rightarrow> 'es \<Rightarrow> supervisor \<times> 'es \<times> (session_id \<times> prompt_turn) list \<times> (string, bool) result" where
  \<comment> \<open>from the heartbeat on\<close>
  "tick_checks io s es =
     (case (if should_invoke_ai_for_heartbeat (sc_autonomy (sv_config s)) \<and>
               should_run_heartbeat (sp_now io) (sc_heartbeat (sv_config s)) (sv_heartbeat s)
            then run_heartbeat io s else (s, Inr ())) of
        (s1, Inl e) \<Rightarrow> (s1, es, [], Inl e)
      | (s1, Inr _) \<Rightarrow>
          (case (if is_over_budget (sv_budget s1) then handle_budget_exceeded io s1 es else (s1, es, Inr ())) of
             (s2, es', Inl e) \<Rightarrow> (s2, es', [], Inl e)
           | (s2, es', Inr _) \<Rightarrow>
               (s2\<lparr>sv_monitor := monitor_apply_bounds (sp_agents io) (sp_tasks io) (sc_max_dead_agents (sv_config s2))
                    (sc_max_completed_tasks (sv_config s2)) (sv_monitor s2)\<rparr>, es', [], Inr True)))"

definition tick_polled ::
    "'es supervisor_ports \<Rightarrow> (event \<times> event_id) list \<Rightarrow> supervisor \<Rightarrow> 'es \<Rightarrow>
      supervisor \<times> 'es \<times> (session_id \<times> prompt_turn) list \<times> (string, bool) result" where
  "tick_polled io evs s es =
     (case process_polled io evs (s, es) of (s1, es1) \<Rightarrow>
        (let s2 = (if evs = [] then s1 else s1\<lparr>sv_last_processed_event := ss_last_event_id (sv_monitor s1)\<rparr>) in
         case detect_feedback_triggers io evs s2 es1 of
           (s3, es3, Inl e) \<Rightarrow> (s3, es3, [], Inl e)
         | (s3, es3, Inr _) \<Rightarrow>
             (case check_nudge_timeouts io s3 es3 of
                (s4, es4, Inl e) \<Rightarrow> (s4, es4, [], Inl e)
              | (s4, es4, Inr _) \<Rightarrow>
                  (case check_stuck_agents io s4 es4 of
                     (s5, es5, sent, Inl e) \<Rightarrow> (s5, es5, sent, Inl e)
                   | (s5, es5, sent, Inr _) \<Rightarrow>
                       (case tick_checks io s5 es5 of (s6, es6, sent2, r) \<Rightarrow> (s6, es6, sent @ sent2, r))))))"

definition supervisor_tick ::
    "'es supervisor_ports \<Rightarrow> supervisor \<Rightarrow> 'es \<Rightarrow> supervisor \<times> 'es \<times> (session_id \<times> prompt_turn) list \<times> (string, bool) result" where
  "supervisor_tick io s es =
     (if sv_state s = Draining
      then if agents_in_operation (sp_agents io) (sv_monitor s) = []
           then (s\<lparr>sv_running := False\<rparr>, es, [], Inr False) else (s, es, [], Inr True)
      else (case sp_stream io (ss_last_event_id (sv_monitor s)) (sc_event_batch_size (sv_config s)) es of
              Inl e \<Rightarrow> (s, es, [], Inl e)
            | Inr evs \<Rightarrow> tick_polled io evs s es))"

fun supervisor_loop :: "'es supervisor_ports list \<Rightarrow> supervisor \<Rightarrow> 'es \<Rightarrow> supervisor \<times> 'es \<times> (session_id \<times> prompt_turn) list" where
  \<comment> \<open>one entry per round until a shutdown is requested\<close>
  "supervisor_loop [] s es = (s, es, [])"
| "supervisor_loop (io # ios) s es =
     (if \<not> sv_running s then (s, es, [])
      else (case supervisor_tick io s es of
          (s1, es1, sent, r) \<Rightarrow>
            if r = Inr False \<or> \<not> is_ok r \<and> sv_state s1 = Draining then (s1, es1, sent)
            else (case supervisor_loop ios s1 es1 of (s2, es2, sent2) \<Rightarrow> (s2, es2, sent @ sent2))))"

subsection \<open>Start\<close>

partial_function (option) hydrate_keys ::
    "'es supervisor_ports \<Rightarrow> event_id option \<Rightarrow> string list \<Rightarrow> 'es \<Rightarrow> (string, string list) result option" where
  "hydrate_keys io since known es =
     (case sp_stream io since 1000 es of
        Inl e \<Rightarrow> Some (Inl e)
      | Inr evs \<Rightarrow>
          if evs = [] then Some (Inr known)
          else hydrate_keys io (Some (snd (last evs)))
            (fold (\<lambda>(ev, n) known. case ev_kind ev of
                FeedbackTriggerDetected trigger key kind task run review sources covered summary at \<Rightarrow> hs_insert key known
              | _ \<Rightarrow> known) evs known) es)"

definition supervisor_run ::
    "'es supervisor_ports \<Rightarrow> 'es supervisor_ports list \<Rightarrow> supervisor_config \<Rightarrow> 'es \<Rightarrow>
      (string, supervisor \<times> 'es \<times> (session_id \<times> prompt_turn) list) result option" where
  "supervisor_run io ios cfg es =
     (case hydrate_keys io None [] es of
        None \<Rightarrow> None
      | Some (Inl e) \<Rightarrow> Some (Inl e)
      | Some (Inr known) \<Rightarrow> Some (Inr (supervisor_loop ios ((new_supervisor (sp_now io) cfg)\<lparr>sv_known_dedup_keys := known\<rparr>) es)))"

end
