(* ===== verification/Supervisor_Props.thy ===== *)
theory Supervisor_Props
  imports Supervisor
begin

text \<open>
  What the supervisor keeps and does: the lifecycle of nudges and the shape of the monitored
  state, the budget, the drain, and what a failed prompt prevents.
\<close>

subsection \<open>The monitored state\<close>

definition nudge_ok :: "active_nudge \<Rightarrow> bool" where
  "nudge_ok n \<longleftrightarrow>
     (case an_delivery_state n of
        Delivered \<Rightarrow> an_acknowledged_at n = None \<and> an_acted_on_at n = None \<and> an_timed_out_at n = None
      | Acknowledged \<Rightarrow> an_acknowledged_at n \<noteq> None \<and> an_acted_on_at n = None \<and> an_timed_out_at n = None
      | ActedOn \<Rightarrow> an_acknowledged_at n \<noteq> None \<and> an_acted_on_at n \<noteq> None \<and> an_timed_out_at n = None
      | TimedOut \<Rightarrow> an_acted_on_at n = None \<and> an_timed_out_at n \<noteq> None)"

definition agent_ok :: "session_id \<Rightarrow> agent_state \<Rightarrow> bool" where
  "agent_ok sid a \<longleftrightarrow> ag_session_id a = sid \<and> length (ag_message_history a) \<le> 100 \<and> pred_option nudge_ok (ag_active_nudge a)"

definition task_ok :: "task_id \<Rightarrow> task_state \<Rightarrow> bool" where
  "task_ok t x \<longleftrightarrow> ts_task_id x = t \<and> ts_status x \<in> {Pending, Assigned, InReview}"

definition monitor_ok :: "supervisor_state \<Rightarrow> bool" where
  "monitor_ok s \<longleftrightarrow> hm_wf (ss_agents s) \<and> hm_wf (ss_tasks s) \<and>
     (\<forall>sid a. hm_get (ss_agents s) sid = Some a \<longrightarrow> agent_ok sid a) \<and>
     (\<forall>t x. hm_get (ss_tasks s) t = Some x \<longrightarrow> task_ok t x)"

lemma monitor_ok_new: "monitor_ok new_supervisor_state"
  by (simp add: monitor_ok_def new_supervisor_state_def)

lemma monitor_ok_last [simp]: "monitor_ok (s\<lparr>ss_last_event_id := x\<rparr>) = monitor_ok s" "monitor_ok (s\<lparr>ss_system_state := y\<rparr>) = monitor_ok s"
  by (simp_all add: monitor_ok_def)

lemma monitor_ok_on_agent: "monitor_ok s \<Longrightarrow> (\<And>a. agent_ok sid a \<Longrightarrow> agent_ok sid (f a)) \<Longrightarrow> monitor_ok (on_agent sid f s)"
  by (auto simp: monitor_ok_def on_agent_def split: if_splits)

lemma monitor_ok_on_task: "monitor_ok s \<Longrightarrow> (\<And>x. task_ok t x \<Longrightarrow> task_ok t (f x)) \<Longrightarrow> monitor_ok (on_task t f s)"
  by (auto simp: monitor_ok_def on_task_def split: if_splits)

lemma monitor_ok_spawn: "monitor_ok s \<Longrightarrow> agent_ok sid a \<Longrightarrow> monitor_ok (s\<lparr>ss_last_event_id := l, ss_agents := hm_insert sid a (ss_agents s)\<rparr>)"
  by (auto simp: monitor_ok_def split: if_splits)

lemma monitor_ok_create: "monitor_ok s \<Longrightarrow> task_ok t x \<Longrightarrow> monitor_ok (s\<lparr>ss_last_event_id := l, ss_tasks := hm_insert t x (ss_tasks s)\<rparr>)"
  by (auto simp: monitor_ok_def split: if_splits)

lemma monitor_ok_assign: "monitor_ok s \<Longrightarrow> monitor_ok (assign_agent h agent t s)"
  by (auto simp: assign_agent_def agent_ok_def intro!: monitor_ok_on_agent split: list.split)

lemma agent_ok_on_nudge:
  "agent_ok sid a \<Longrightarrow> (\<And>n. nudge_ok n \<Longrightarrow> p n \<Longrightarrow> nudge_ok (f n)) \<Longrightarrow> agent_ok sid (on_nudge p f a)"
  by (cases "ag_active_nudge a") (auto simp: agent_ok_def on_nudge_def)

lemma monitor_ok_process: "monitor_ok s \<Longrightarrow> monitor_ok (fst (monitor_process_event h now ev n s))"
  unfolding monitor_process_event_def Let_def
  by (cases "ev_kind ev")
    (auto simp: new_agent_state_def new_task_state_def task_ok_def record_message_def new_active_nudge_def nudge_ok_def agent_ok_def push_bounded_le
      intro!: monitor_ok_on_agent monitor_ok_on_task monitor_ok_spawn monitor_ok_create monitor_ok_assign
        agent_ok_on_nudge [unfolded agent_ok_def, simplified])

lemma hm_wf_fold_removes: "hm_wf m \<Longrightarrow> hm_wf (fold hm_remove ks m)"
  by (induction ks arbitrary: m) auto

lemma hm_get_fold_removes: "hm_get (fold hm_remove ks m) k = Some v \<Longrightarrow> hm_get m k = Some v"
  by (induction ks arbitrary: m) (force split: if_splits)+

lemma evict_sub: "hm_get (evict h p l m) k = Some v \<Longrightarrow> hm_get m k = Some v"
  by (auto simp: evict_def Let_def dest: hm_get_fold_removes split: if_splits)

lemma monitor_ok_bounds: "monitor_ok s \<Longrightarrow> monitor_ok (monitor_apply_bounds h ht d c s)"
  unfolding monitor_ok_def monitor_apply_bounds_def
  by (auto dest!: evict_sub) (auto simp: evict_def Let_def hm_wf_fold_removes)

inductive monitor_reachable :: "supervisor_state \<Rightarrow> bool" where
  new: "monitor_reachable new_supervisor_state"
| replay: "monitor_reachable s \<Longrightarrow> monitor_reachable (fst (monitor_process_event h now ev n s))"
| bounds: "monitor_reachable s \<Longrightarrow> monitor_reachable (monitor_apply_bounds h ht d c s)"

lemma monitor_reachable_ok: "monitor_reachable s \<Longrightarrow> monitor_ok s"
  by (induction rule: monitor_reachable.induct) (auto intro: monitor_ok_new monitor_ok_process monitor_ok_bounds)

lemma last_event_id_replay [simp]: "ss_last_event_id (fst (monitor_process_event h now ev n s)) = Some n"
  by (simp add: monitor_process_event_def Let_def on_agent_def on_task_def assign_agent_def split: event_kind.split list.split)

text \<open>The legal moves of a nudge.\<close>

inductive nudge_move :: "event_kind \<Rightarrow> active_nudge \<Rightarrow> active_nudge \<Rightarrow> bool" for kind where
  "kind = NudgeAcknowledged sid (an_nudge_kind n) \<Longrightarrow> an_delivery_state n = Delivered \<Longrightarrow>
     nudge_move kind n (n\<lparr>an_delivery_state := Acknowledged, an_acknowledged_at := Some at\<rparr>)"
| "kind = NudgeActedOn sid (an_nudge_kind n) progress \<Longrightarrow> an_delivery_state n = Acknowledged \<Longrightarrow>
     nudge_move kind n (n\<lparr>an_delivery_state := ActedOn, an_acted_on_at := Some at\<rparr>)"
| "kind = NudgeTimedOut sid (an_nudge_id n) (an_nudge_kind n) elapsed \<Longrightarrow> an_delivery_state n \<in> {Delivered, Acknowledged} \<Longrightarrow>
     nudge_move kind n (n\<lparr>an_delivery_state := TimedOut, an_timed_out_at := Some at\<rparr>)"

inductive_cases nudge_moveE: "nudge_move kind n n'"

lemma nudge_assign [simp]: "active_nudge_for_session sid (assign_agent h agent t s) = active_nudge_for_session sid s"
  by (auto simp: assign_agent_def on_agent_def active_nudge_for_session_def split: list.split option.split)

lemma nudge_replay:
  assumes "active_nudge_for_session sid s = Some n" "active_nudge_for_session sid (fst (monitor_process_event h now ev i s)) = Some n'"
  shows "n' = n \<or> nudge_move (ev_kind ev) n n' \<or> (\<exists>kind content. ev_kind ev = NudgeSent sid kind content \<and> n' = new_active_nudge kind (ev_timestamp ev) sid)"
proof -
  obtain a where a: "hm_get (ss_agents s) sid = Some a" "ag_active_nudge a = Some n"
    using assms(1) by (auto simp: active_nudge_for_session_def split: option.splits)
  show ?thesis
  proof (cases "\<exists>t agent. ev_kind ev = TaskAssigned t agent")
    case True
    then obtain t agent where "ev_kind ev = TaskAssigned t agent" by blast
    with assms show ?thesis by (simp add: monitor_process_event_def Let_def) (simp add: active_nudge_for_session_def on_task_def)
  next
    case False
    with assms(2) a show ?thesis unfolding monitor_process_event_def Let_def
      by (cases "ev_kind ev")
        (auto simp: active_nudge_for_session_def on_agent_def on_task_def on_nudge_def record_message_def new_agent_state_def
          intro: nudge_move.intros split: if_splits)
  qed
qed

subsection \<open>What a tick changes\<close>

definition event_tokens :: "event \<Rightarrow> nat" where
  "event_tokens ev = (case ev_kind ev of ResponseReceived sid prompt tokens \<Rightarrow> tokens | _ \<Rightarrow> 0)"

definition drains :: "event \<Rightarrow> bool" where
  "drains ev \<longleftrightarrow> (case ev_kind ev of SystemDraining reason \<Rightarrow> True | _ \<Rightarrow> False)"

text \<open>The fields that replaying events leaves alone.\<close>

definition frame :: "supervisor \<Rightarrow> supervisor \<Rightarrow> bool" where
  "frame s s' \<longleftrightarrow> sv_config s' = sv_config s \<and> sv_running s' = sv_running s \<and> bt_policy (sv_budget s') = bt_policy (sv_budget s) \<and>
     (monitor_reachable (sv_monitor s) \<longrightarrow> monitor_reachable (sv_monitor s'))"

lemma frame_refl [simp]: "frame s s"
  by (simp add: frame_def)

lemma frame_trans: "frame s s' \<Longrightarrow> frame s' s'' \<Longrightarrow> frame s s''"
  by (simp add: frame_def)

lemma budget_effect:
  "bt_total_tokens t \<le> u64_max \<Longrightarrow>
     bt_total_tokens (budget_process_event soft now ev t) = min u64_max (bt_total_tokens t + event_tokens ev)"
  "bt_policy (budget_process_event soft now ev t) = bt_policy t"
  by (auto simp: budget_process_event_def record_usage_def event_tokens_def sat_add_def Let_def split: event_kind.split)

lemma no_drain_emission: "drains ev \<Longrightarrow> snd (monitor_process_event h now ev n m) = []"
  by (auto simp: drains_def monitor_process_event_def Let_def split: event_kind.splits)

lemma process_event_effect:
  assumes "supervisor_process_event io (ev, n) (s, es) = (s', es', r)"
  shows "frame s s'" "sv_budget s' = budget_process_event (sp_soft_threshold io) (sp_now io) ev (sv_budget s)"
    "sv_state s' = (if drains ev then Draining else sv_state s)"
    "sv_monitor s' = fst (monitor_process_event (sp_agents io) (sp_now io) ev n (sv_monitor s))"
proof -
  obtain m emit where m: "monitor_process_event (sp_agents io) (sp_now io) ev n (sv_monitor s) = (m, emit)" by force
  obtain es1 r1 where a: "append_emitted io emit es = (es1, r1)" by force
  let ?s1 = "s\<lparr>sv_monitor := m, sv_budget := budget_process_event (sp_soft_threshold io) (sp_now io) ev (sv_budget s)\<rparr>"
  have s': "s' = (case r1 of Inl e \<Rightarrow> ?s1
      | Inr _ \<Rightarrow> (case ev_kind ev of
               SystemDraining reason \<Rightarrow> ?s1\<lparr>sv_state := Draining\<rparr>
             | FeedbackTriggerDetected trigger key kind task run review sources covered summary at \<Rightarrow>
                 ?s1\<lparr>sv_known_dedup_keys := hs_insert key (sv_known_dedup_keys ?s1)\<rparr>
             | _ \<Rightarrow> ?s1))"
    using assms m a by (auto simp: supervisor_process_event_def Let_def split: sum.splits)
  have ok: "drains ev \<Longrightarrow> r1 = Inr ()" using no_drain_emission [of ev "sp_agents io" "sp_now io" n "sv_monitor s"] m a by auto
  have reach: "monitor_reachable (sv_monitor s) \<Longrightarrow> monitor_reachable m"
    using monitor_reachable.replay [of "sv_monitor s" "sp_agents io" "sp_now io" ev n] m by simp
  have fields: "sv_config s' = sv_config s \<and> sv_running s' = sv_running s \<and> sv_monitor s' = m \<and>
      sv_budget s' = budget_process_event (sp_soft_threshold io) (sp_now io) ev (sv_budget s)"
    unfolding s' by (cases r1; cases "ev_kind ev") simp_all
  show "sv_state s' = (if drains ev then Draining else sv_state s)"
    unfolding s' using ok by (cases r1; cases "ev_kind ev") (simp_all add: drains_def)
  show "frame s s'" using fields reach by (simp add: frame_def budget_effect)
  show "sv_budget s' = budget_process_event (sp_soft_threshold io) (sp_now io) ev (sv_budget s)"
    "sv_monitor s' = fst (monitor_process_event (sp_agents io) (sp_now io) ev n (sv_monitor s))" using fields m by simp_all
qed

lemma min_min_add: "min a (min a (x + y) + z) = min a (x + (y + z))" for a :: nat
  by simp

lemma process_polled_effect:
  assumes "process_polled io evs (s, es) = (s', es')"
  shows "frame s s'" "sv_state s' = (if list_ex (\<lambda>(ev, n). drains ev) evs then Draining else sv_state s)"
    "bt_total_tokens (sv_budget s) \<le> u64_max \<Longrightarrow>
       bt_total_tokens (sv_budget s') = min u64_max (bt_total_tokens (sv_budget s) + sum_list (map (\<lambda>(ev, n). event_tokens ev) evs))"
proof -
  have "frame s s' \<and> sv_state s' = (if list_ex (\<lambda>(ev, n). drains ev) evs then Draining else sv_state s) \<and>
    (bt_total_tokens (sv_budget s) \<le> u64_max \<longrightarrow>
       bt_total_tokens (sv_budget s') = min u64_max (bt_total_tokens (sv_budget s) + sum_list (map (\<lambda>(ev, n). event_tokens ev) evs)))"
    using assms
  proof (induction evs arbitrary: s es)
    case Nil
    then show ?case by (simp add: process_polled_def)
  next
    case (Cons e evs)
    obtain ev n where e: "e = (ev, n)" by force
    obtain s1 es1 r1 where step: "supervisor_process_event io (ev, n) (s, es) = (s1, es1, r1)" by (metis prod.exhaust)
    then have rest: "process_polled io evs (s1, es1) = (s', es')" using Cons.prems e by (simp add: process_polled_def)
    note eff = process_event_effect [OF step]
    have "bt_total_tokens (sv_budget s1) = min u64_max (bt_total_tokens (sv_budget s) + event_tokens ev)"
      if "bt_total_tokens (sv_budget s) \<le> u64_max" using eff(2) budget_effect(1) [OF that] by simp
    with Cons.IH [OF rest] eff(1,3) e show ?case
      by (auto intro: frame_trans simp: min_min_add)
  qed
  then show "frame s s'" "sv_state s' = (if list_ex (\<lambda>(ev, n). drains ev) evs then Draining else sv_state s)"
    "bt_total_tokens (sv_budget s) \<le> u64_max \<Longrightarrow>
       bt_total_tokens (sv_budget s') = min u64_max (bt_total_tokens (sv_budget s) + sum_list (map (\<lambda>(ev, n). event_tokens ev) evs))"
    by blast+
qed

text \<open>The later parts of a tick keep the budget and the state too.\<close>

definition steady :: "supervisor \<Rightarrow> supervisor \<Rightarrow> bool" where
  "steady s s' \<longleftrightarrow> frame s s' \<and> sv_state s' = sv_state s \<and> sv_budget s' = sv_budget s"

lemma steady_refl [simp]: "steady s s"
  by (simp add: steady_def)

lemma steady_trans: "steady s s' \<Longrightarrow> steady s' s'' \<Longrightarrow> steady s s''"
  by (auto simp: steady_def intro: frame_trans)

lemma steady_triggers: "detect_feedback_triggers io evs s es = (s', es', r) \<Longrightarrow> steady s s'"
  by (auto simp: detect_feedback_triggers_def Let_def steady_def frame_def split: if_splits prod.splits sum.splits)

lemma steady_own: "record_own_event io ev s es = (s', es', r) \<Longrightarrow> steady s s'"
  by (auto simp: record_own_event_def steady_def frame_def intro: monitor_reachable.replay split: prod.splits sum.splits)

lemma steady_owns: "record_own_events io evs s es = (s', es', r) \<Longrightarrow> steady s s'"
proof (induction evs arbitrary: s es)
  case (Cons ev evs)
  obtain s1 es1 r1 where step: "record_own_event io ev s es = (s1, es1, r1)" by (metis prod.exhaust)
  then show ?case using Cons steady_own [OF step] by (auto intro: steady_trans split: sum.splits)
qed simp

lemma steady_nudge: "nudge_one io i s es = (s', es', sent, r) \<Longrightarrow> steady s s'"
proof -
  have nudges: "steady s (s\<lparr>sv_nudges := x\<rparr>)" for x by (simp add: steady_def frame_def)
  assume "nudge_one io i s es = (s', es', sent, r)"
  then show "steady s s'" using nudges steady_trans [OF nudges steady_own]
    by (fastforce simp: nudge_one_def Let_def split: if_splits sum.splits prod.splits)
qed

lemma steady_nudges: "nudge_each io stuck s es = (s', es', sent, r) \<Longrightarrow> steady s s'"
proof (induction stuck arbitrary: s es s' es' sent r)
  case (Cons i rest)
  obtain s1 es1 ps r1 where step: "nudge_one io i s es = (s1, es1, ps, r1)" by (metis prod.exhaust)
  obtain s2 es2 ps2 r2 where more: "nudge_each io rest s1 es1 = (s2, es2, ps2, r2)" by (metis prod.exhaust)
  show ?case using Cons.prems step more steady_nudge [OF step] Cons.IH [OF more] by (auto intro: steady_trans split: sum.splits)
qed simp

lemma steady_timeouts: "check_nudge_timeouts io s es = (s', es', r) \<Longrightarrow> steady s s'"
  by (simp add: check_nudge_timeouts_def steady_owns)

lemma steady_stuck: "check_stuck_agents io s es = (s', es', sent, r) \<Longrightarrow> steady s s'"
  by (simp add: check_stuck_agents_def steady_nudges)

lemma steady_heartbeat: "run_heartbeat io s = (s', r) \<Longrightarrow> steady s s'"
  by (auto simp: run_heartbeat_def steady_def frame_def split: sum.splits)

lemma tick_checks_effect:
  assumes "tick_checks io s es = (s', es', sent, r)"
  shows "frame s s'" "sv_budget s' = sv_budget s" "sv_state s' = sv_state s \<or> sv_state s' = Draining \<and> is_over_budget (sv_budget s)"
    "r = Inr b \<Longrightarrow> is_over_budget (sv_budget s) \<Longrightarrow> sv_state s' = Draining" "sent = []" "r \<noteq> Inr False"
proof -
  let ?hb = "if should_invoke_ai_for_heartbeat (sc_autonomy (sv_config s)) \<and>
      should_run_heartbeat (sp_now io) (sc_heartbeat (sv_config s)) (sv_heartbeat s) then run_heartbeat io s else (s, Inr ())"
  obtain s1 r1 where hb: "?hb = (s1, r1)" by force
  have st: "steady s s1" using hb steady_heartbeat by (auto split: if_splits)
  have drained: "frame s1 (s1\<lparr>sv_state := x\<rparr>)" for x by (simp add: frame_def)
  have bounds: "frame t (t\<lparr>sv_monitor := monitor_apply_bounds h ht d c (sv_monitor t)\<rparr>)" for t h ht d c
    by (simp add: frame_def monitor_reachable.bounds)
  note effect = assms [unfolded tick_checks_def hb, simplified]
  show "frame s s'" using effect st drained bounds frame_trans [OF drained bounds]
    by (auto simp: steady_def handle_budget_exceeded_def intro: frame_trans split: sum.splits if_splits prod.splits)
  show "sv_budget s' = sv_budget s" "sv_state s' = sv_state s \<or> sv_state s' = Draining \<and> is_over_budget (sv_budget s)"
    "r = Inr b \<Longrightarrow> is_over_budget (sv_budget s) \<Longrightarrow> sv_state s' = Draining" "sent = []" "r \<noteq> Inr False"
    using effect st by (auto simp: steady_def handle_budget_exceeded_def split: sum.splits if_splits prod.splits)
qed

lemma tick_polled_cases:
  assumes "tick_polled io evs s es = (s', es', sent, r)"
  obtains (stopped) s1 es1 e where "process_polled io evs (s, es) = (s1, es1)" "steady s1 s'" "r = Inl e"
    | (checked) s1 es1 s5 es5 sent5 sent6 where "process_polled io evs (s, es) = (s1, es1)" "steady s1 s5"
      "tick_checks io s5 es5 = (s', es', sent6, r)" "sent = sent5 @ sent6"
proof -
  obtain s1 es1 where p: "process_polled io evs (s, es) = (s1, es1)" by force
  define s2 where "s2 = (if evs = [] then s1 else s1\<lparr>sv_last_processed_event := ss_last_event_id (sv_monitor s1)\<rparr>)"
  have st2: "steady s1 s2" by (simp add: s2_def steady_def frame_def)
  obtain s3 es3 r3 where t: "detect_feedback_triggers io evs s2 es1 = (s3, es3, r3)" by (metis prod.exhaust)
  obtain s4 es4 r4 where n: "check_nudge_timeouts io s3 es3 = (s4, es4, r4)" by (metis prod.exhaust)
  obtain s5 es5 sent5 r5 where k: "check_stuck_agents io s4 es4 = (s5, es5, sent5, r5)" by (metis prod.exhaust)
  obtain s6 es6 sent6 r6 where c: "tick_checks io s5 es5 = (s6, es6, sent6, r6)" by (metis prod.exhaust)
  have st3: "steady s1 s3" by (rule steady_trans [OF st2 steady_triggers [OF t]])
  have st4: "steady s1 s4" by (rule steady_trans [OF st3 steady_timeouts [OF n]])
  have st5: "steady s1 s5" by (rule steady_trans [OF st4 steady_stuck [OF k]])
  note run = assms [unfolded tick_polled_def p Let_def, simplified, folded s2_def, unfolded t]
  show ?thesis
  proof (cases "r3 = Inr () \<and> r4 = Inr () \<and> r5 = Inr ()")
    case True
    with run n k c have "tick_checks io s5 es5 = (s', es', sent6, r)" "sent = sent5 @ sent6" by simp_all
    then show ?thesis by (rule checked [OF p st5])
  next
    case False
    with run n k st3 st4 st5 have "steady s1 s' \<and> (\<exists>e. r = Inl e)" by (auto split: sum.splits)
    then show ?thesis using stopped [OF p] by blast
  qed
qed

lemma tick_polled_frame: "tick_polled io evs s es = (s', es', sent, r) \<Longrightarrow> frame s s'"
  by (elim tick_polled_cases)
    (auto dest: process_polled_effect(1) tick_checks_effect(1) simp: steady_def intro: frame_trans)

lemma tick_reachable:
  "supervisor_tick io s es = (s', es', sent, r) \<Longrightarrow> monitor_reachable (sv_monitor s) \<Longrightarrow> monitor_reachable (sv_monitor s')"
  using tick_polled_frame by (fastforce simp: supervisor_tick_def frame_def split: if_splits sum.splits)

lemma loop_reachable:
  "supervisor_loop ios s es = (s', es', sent) \<Longrightarrow> monitor_reachable (sv_monitor s) \<Longrightarrow> monitor_reachable (sv_monitor s')"
proof (induction ios arbitrary: s es s' es' sent)
  case (Cons io ios)
  obtain s1 es1 sent1 r where tick: "supervisor_tick io s es = (s1, es1, sent1, r)" by (metis prod.exhaust)
  obtain s2 es2 sent2 where rest: "supervisor_loop ios s1 es1 = (s2, es2, sent2)" by (metis prod.exhaust)
  show ?case using Cons.prems tick rest tick_reachable [OF tick] Cons.IH [OF rest] by (auto split: if_splits)
qed simp

lemma loop_monitor_ok:
  assumes "supervisor_loop ios (new_supervisor now cfg) es = (s, es', sent)"
  shows "monitor_reachable (sv_monitor s)" "monitor_ok (sv_monitor s)"
  using loop_reachable [OF assms] monitor_reachable.new monitor_reachable_ok by (simp_all add: new_supervisor_def)

lemma tick_polled_effect:
  assumes tick: "tick_polled io evs s es = (s', es', sent, r)" and small: "bt_total_tokens (sv_budget s) \<le> u64_max"
  defines "tokens \<equiv> min u64_max (bt_total_tokens (sv_budget s) + sum_list (map (\<lambda>(ev, n). event_tokens ev) evs))"
  shows "frame s s'" "bt_total_tokens (sv_budget s') = tokens"
    "sv_state s' = sv_state s \<or> sv_state s' = Draining \<and> (list_ex (\<lambda>(ev, n). drains ev) evs \<or> is_hard_limit_reached (bt_policy (sv_budget s)) tokens)"
    "r = Inr b \<Longrightarrow> list_ex (\<lambda>(ev, n). drains ev) evs \<or> is_hard_limit_reached (bt_policy (sv_budget s)) tokens \<Longrightarrow> sv_state s' = Draining"
    "r \<noteq> Inr False"
proof -
  let ?drain = "list_ex (\<lambda>(ev, n). drains ev) evs" and ?over = "is_hard_limit_reached (bt_policy (sv_budget s)) tokens"
  have "frame s s' \<and> bt_total_tokens (sv_budget s') = tokens \<and> (sv_state s' = sv_state s \<or> sv_state s' = Draining \<and> (?drain \<or> ?over)) \<and>
    (\<forall>b. r = Inr b \<longrightarrow> ?drain \<or> ?over \<longrightarrow> sv_state s' = Draining) \<and> r \<noteq> Inr False"
    using tick
  proof (cases rule: tick_polled_cases)
    case (stopped s1 es1 e)
    note eff = process_polled_effect [OF stopped(1)]
    from stopped(2,3) eff(1,2) eff(3) [OF small] show ?thesis by (auto simp: steady_def tokens_def intro: frame_trans)
  next
    case (checked s1 es1 s5 es5 sent5 sent6)
    note eff = process_polled_effect [OF checked(1)] and ch = tick_checks_effect [OF checked(3)]
    have over: "is_over_budget (sv_budget s5) = ?over"
      using checked(2) eff(1) eff(3) [OF small] by (simp add: is_over_budget_def steady_def frame_def tokens_def)
    have "frame s s'" using eff(1) checked(2) ch(1) by (auto simp: steady_def intro: frame_trans)
    moreover have "bt_total_tokens (sv_budget s') = tokens" using ch(2) checked(2) eff(3) [OF small] by (simp add: steady_def tokens_def)
    ultimately show ?thesis using ch(3,4,6) over eff(2) checked(2) by (auto simp: steady_def split: if_splits)
  qed
  then show "frame s s'" "bt_total_tokens (sv_budget s') = tokens" "sv_state s' = sv_state s \<or> sv_state s' = Draining \<and> (?drain \<or> ?over)"
    "r = Inr b \<Longrightarrow> ?drain \<or> ?over \<Longrightarrow> sv_state s' = Draining" "r \<noteq> Inr False" by blast+
qed

text \<open>
  C21: the token budget is enforced: a tick adds the tokens of the responses it reads to the total
  (saturating), and one that completes leaves the supervisor draining exactly when it read a drain
  event or the total has reached the limit of the policy.
\<close>

theorem budget_enforced:
  assumes "sv_state s \<noteq> Draining" "bt_total_tokens (sv_budget s) \<le> u64_max"
    and "sp_stream io (ss_last_event_id (sv_monitor s)) (sc_event_batch_size (sv_config s)) es = Inr evs"
    and "supervisor_tick io s es = (s', es', sent, Inr b)"
  defines "tokens \<equiv> min u64_max (bt_total_tokens (sv_budget s) + sum_list (map (\<lambda>(ev, n). event_tokens ev) evs))"
  shows "b \<and> bt_total_tokens (sv_budget s') = tokens \<and>
    (sv_state s' = Draining \<longleftrightarrow> list_ex (\<lambda>(ev, n). drains ev) evs \<or> is_hard_limit_reached (bt_policy (sv_budget s)) tokens)"
proof -
  have "tick_polled io evs s es = (s', es', sent, Inr b)" using assms(1,3,4) by (simp add: supervisor_tick_def)
  note eff = tick_polled_effect [OF this assms(2), folded tokens_def]
  have b using eff(5) by (cases b) auto
  with eff(2,3) eff(4) [OF refl] assms(1) show ?thesis by metis
qed

text \<open>
  once the supervisor drains it no longer reads events, so an agent that is in an operation
  at that moment is in it forever: no round of the main loop changes anything and the loop ends only
  from outside, also after the operation has completed.
\<close>

theorem drain_never_completes:
  assumes "sv_state s = Draining" "sv_running s" "hm_wf (ss_agents (sv_monitor s))"
    and "hm_get (ss_agents (sv_monitor s)) sid = Some a" "ag_is_alive a" "is_in_operation a"
  shows "supervisor_loop ios s es = (s, es, [])"
proof (induction ios)
  case (Cons io ios)
  have "a \<in> set (agents_in_operation (sp_agents io) (sv_monitor s))"
    using assms(3-) by (auto simp: agents_in_operation_def set_hm_values)
  then have "agents_in_operation (sp_agents io) (sv_monitor s) \<noteq> []" by auto
  with assms(1,2) Cons show ?case by (simp add: supervisor_tick_def)
qed simp

text \<open>
  C22: whatever events, answers and failures the main loop meets, every monitored agent is kept
  under its session with at most a hundred messages, its nudge carries exactly the timestamps of
  its delivery state, and an event moves a nudge only from delivered to acknowledged to acted on or
  from the first two to timed out, or replaces it by a newly sent one.
\<close>

theorem nudge_lifecycle:
  assumes "supervisor_loop ios (new_supervisor start cfg) es = (s, es', sent)"
    and "active_nudge_for_session sid (sv_monitor s) = Some n"
    and "active_nudge_for_session sid (fst (monitor_process_event h now ev i (sv_monitor s))) = Some n'"
  shows "monitor_ok (sv_monitor s) \<and> nudge_ok n \<and> nudge_ok n' \<and>
    (n' = n \<or> nudge_move (ev_kind ev) n n' \<or>
     (\<exists>kind content. ev_kind ev = NudgeSent sid kind content \<and> n' = new_active_nudge kind (ev_timestamp ev) sid))"
proof -
  note ok = loop_monitor_ok(2) [OF assms(1)]
  have nudge: "nudge_ok x" if "monitor_ok m" "active_nudge_for_session sid m = Some x" for m x
    using that by (fastforce simp: monitor_ok_def active_nudge_for_session_def agent_ok_def split: option.splits)
  show ?thesis using nudge [OF ok assms(2)] nudge [OF monitor_ok_process [OF ok] assms(3)] nudge_replay [OF assms(2,3)] ok by blast
qed

text \<open>
  no event makes a monitored task merged or in progress, so the bound on completed tasks never
  removes one, whatever the limit, and the heartbeat always reports no active task.
\<close>

theorem monitored_tasks_never_evicted:
  assumes "supervisor_loop ios (new_supervisor start cfg) es = (s, es', sent)"
  shows "ss_tasks (monitor_apply_bounds h ht d c (sv_monitor s)) = ss_tasks (sv_monitor s) \<and>
    filter (\<lambda>t. ts_status t = InProgress) (hm_values ht (ss_tasks (sv_monitor s))) = []"
proof -
  note ok = loop_monitor_ok(2) [OF assms]
  have status: "ts_status x \<noteq> Merged \<and> ts_status x \<noteq> InProgress" if "(t, x) \<in> set (ss_tasks (sv_monitor s))" for t x
    using ok that hm_get_SomeI [of "ss_tasks (sv_monitor s)" t x] unfolding monitor_ok_def task_ok_def by fastforce
  then have "filter (\<lambda>(k, v). ts_status v = Merged) (iterate ht (ss_tasks (sv_monitor s))) = []"
    by (auto simp: filter_empty_conv)
  with status show ?thesis
    by (auto simp: monitor_apply_bounds_def evict_def hm_values_def filter_empty_conv)
qed

lemma failing_nudge:
  assumes "i \<in> set stuck" "\<not> si_is_in_operation i" "\<And>p. \<exists>e. sp_send io (si_session_id i) p = Inl e"
  shows "\<exists>s' es' sent e. nudge_each io stuck s es = (s', es', sent, Inl e)"
  using assms(1)
proof (induction stuck arbitrary: s es)
  case (Cons j rest)
  obtain s1 es1 ps r1 where step: "nudge_one io j s es = (s1, es1, ps, r1)" by (metis prod.exhaust)
  show ?case
  proof (cases r1)
    case (Inr u)
    have "j \<noteq> i"
    proof
      assume "j = i"
      obtain e where "sp_send io (si_session_id i) (prepare_nudge_with_pattern (sp_uuid io (si_session_id i)) (sp_now io)
          (if 30 < si_idle_minutes i then GuidanceNudge else SoftNudge) (si_pattern i)) = Inl e" using assms(3) by blast
      with step Inr \<open>j = i\<close> assms(2) show False by (simp add: nudge_one_def should_invoke_ai_for_stuck_def Let_def)
    qed
    with Cons step Inr show ?thesis using Cons.IH [of s1 es1] by fastforce
  qed (use step in simp)
qed simp

text \<open>
  a prompt that cannot be delivered to one stuck agent ends the tick before the budget is
  looked at, so with no event to read the supervisor does not drain however far over budget it is.
\<close>

theorem failed_nudge_blocks_budget:
  assumes "sv_state s \<noteq> Draining" "sp_stream io (ss_last_event_id (sv_monitor s)) (sc_event_batch_size (sv_config s)) es = Inr []"
    and "nudge_timeout_events (sp_agents io) (sp_now io) (sc_nudge_timeout (sv_config s)) (sv_monitor s) = []"
    and "i \<in> set (detect_stuck (sp_counts io) (sc_stuck_detection (sv_config s)) (sp_now io) (active_agents (sp_agents io) (sv_monitor s)))"
    and "\<not> si_is_in_operation i" "\<And>p. \<exists>e. sp_send io (si_session_id i) p = Inl e"
  shows "\<exists>s' es' sent e. supervisor_tick io s es = (s', es', sent, Inl e) \<and> sv_state s' = sv_state s \<and> sv_budget s' = sv_budget s"
proof -
  obtain s' es' sent e where n: "check_stuck_agents io s es = (s', es', sent, Inl e)"
    using failing_nudge [OF assms(4-6)] unfolding check_stuck_agents_def by blast
  then have "supervisor_tick io s es = (s', es', sent, Inl e)"
    using assms(1-3) by (simp add: supervisor_tick_def tick_polled_def process_polled_def detect_feedback_triggers_def check_nudge_timeouts_def)
  with steady_stuck [OF n] show ?thesis by (auto simp: steady_def)
qed

subsection \<open>Stuck detection\<close>

lemma message_counts_get: "hm_get (message_counts ms) m = (if m \<in> set ms then Some (count_list ms m) else None)"
proof -
  have "hm_get (fold (\<lambda>m acc. hm_modify m Suc (hm_or_insert m 0 acc)) ms acc) m =
      (if m \<in> set ms \<or> hm_get acc m \<noteq> None then Some ((case hm_get acc m of None \<Rightarrow> 0 | Some n \<Rightarrow> n) + count_list ms m) else None)" for acc
    by (induction ms arbitrary: acc) (auto split: option.splits)
  from this [of "[]"] show ?thesis by (simp add: message_counts_def)
qed

lemma message_counts_wf: "hm_wf (message_counts ms)"
proof -
  have "hm_wf acc \<Longrightarrow> hm_wf (fold (\<lambda>m acc. hm_modify m Suc (hm_or_insert m 0 acc)) ms acc)" for acc :: "(string, nat) hmap"
    by (induction ms arbitrary: acc) auto
  then show ?thesis by (simp add: message_counts_def)
qed

definition repeats :: "stuck_detection_config \<Rightarrow> time \<Rightarrow> agent_state \<Rightarrow> bool" where
  "repeats cfg now a \<longleftrightarrow> 2 \<le> sd_pattern_threshold cfg \<and>
     (\<exists>m \<in> set (recent_messages now (sd_pattern_window_minutes cfg) a).
        sd_pattern_threshold cfg \<le> count_list (recent_messages now (sd_pattern_window_minutes cfg) a) m)"

lemma detect_pattern_iff: "detect_pattern h cfg now a \<noteq> None \<longleftrightarrow> repeats cfg now a"
proof -
  let ?ms = "recent_messages now (sd_pattern_window_minutes cfg) a" and ?k = "sd_pattern_threshold cfg"
  have len: "count_list ?ms m \<le> length ?ms" for m by (rule count_le_length)
  define matches where "matches = filter (\<lambda>(m, n). ?k \<le> n) (iterate h (message_counts ?ms))"
  have "matches \<noteq> [] \<longleftrightarrow> (\<exists>m \<in> set ?ms. ?k \<le> count_list ?ms m)"
  proof -
    have mem: "(m, n) \<in> set (message_counts ?ms) \<longleftrightarrow> m \<in> set ?ms \<and> n = count_list ?ms m" for m n
      using hm_get_iff [OF message_counts_wf, of ?ms m n] by (auto simp: message_counts_get split: if_splits)
    show ?thesis by (simp add: matches_def filter_empty_conv Bex_def split_paired_Ex mem)
  qed
  moreover have "detect_pattern h cfg now a \<noteq> None \<longleftrightarrow> 2 \<le> ?k \<and> ?k \<le> length ?ms \<and> matches \<noteq> []"
    unfolding detect_pattern_def Let_def matches_def [symmetric] by (cases matches) auto
  ultimately show ?thesis using le_trans [OF _ len] unfolding repeats_def by blast
qed

text \<open>
  the stuck agents are, in order, exactly the live ones that have been idle for the
  threshold outside an operation (when operations count) or repeated one message often enough within
  the window, whatever the order in which the message counts are visited.
\<close>

theorem detect_stuck_exact:
  "map si_session_id (detect_stuck h cfg now agents) =
     map ag_session_id (filter (\<lambda>a. ag_is_alive a \<and>
       (sd_time_threshold_minutes cfg \<le> idle_minutes now a \<and> \<not> (sd_operation_aware cfg \<and> is_in_operation a) \<or> repeats cfg now a)) agents)"
proof -
  have pattern: "(detect_pattern h cfg now a = None) = (\<not> repeats cfg now a)" for a using detect_pattern_iff [of h cfg now a] by blast
  show ?thesis unfolding detect_stuck_def
    by (induction agents) (auto simp: List.map_filter_simps stuck_info_of_def is_exempt_from_time_check_def Let_def pattern simp del: not_None_eq)
qed

subsection \<open>Completion\<close>

lemma emitted_complete:
  assumes "\<And>ev es. is_ok (snd (sp_append io ev es))"
  shows "\<exists>es'. append_emitted io evs es = (es', Inr ())"
proof (induction evs arbitrary: es)
  case (Cons ev evs)
  obtain es1 n where "sp_append io ev es = (es1, Inr n)" using assms [of ev es] by (cases "sp_append io ev es") (auto simp: is_ok_conv)
  with Cons show ?case by simp
qed simp

lemma own_event_completes:
  "is_ok (snd (sp_append io ev es)) \<Longrightarrow> \<exists>s' es'. record_own_event io ev s es = (s', es', Inr ())"
  by (auto simp: record_own_event_def is_ok_conv split: prod.splits sum.splits)

lemma timeouts_complete:
  assumes "\<And>ev es. is_ok (snd (sp_append io ev es))"
  shows "\<exists>s' es'. record_own_events io evs s es = (s', es', Inr ())"
proof (induction evs arbitrary: s es)
  case (Cons ev evs)
  with own_event_completes [OF assms, where ev = ev and es = es and s = s] show ?case by auto
qed simp

lemma nudge_completes:
  assumes "\<And>ev es. is_ok (snd (sp_append io ev es))" "\<And>sid p. is_ok (sp_send io sid p)"
  shows "\<exists>s' es' sent. nudge_one io i s es = (s', es', sent, Inr ())"
proof (cases "si_is_in_operation i")
  case False
  let ?kind = "if 30 < si_idle_minutes i then GuidanceNudge else SoftNudge"
  obtain u where "sp_send io (si_session_id i) (prepare_nudge_with_pattern (sp_uuid io (si_session_id i)) (sp_now io) ?kind (si_pattern i)) = Inr u"
    using assms(2) unfolding is_ok_conv by blast
  with False show ?thesis using own_event_completes [OF assms(1)]
    by (simp add: nudge_one_def should_invoke_ai_for_stuck_def Let_def split: prod.split) (metis Pair_inject)
qed (simp add: nudge_one_def)

lemma nudges_complete:
  assumes "\<And>ev es. is_ok (snd (sp_append io ev es))" "\<And>sid p. is_ok (sp_send io sid p)"
  shows "\<exists>s' es' sent. nudge_each io stuck s es = (s', es', sent, Inr ())"
proof (induction stuck arbitrary: s es)
  case (Cons i stuck)
  obtain s1 es1 sent1 where "nudge_one io i s es = (s1, es1, sent1, Inr ())" using nudge_completes [OF assms] by blast
  moreover obtain s2 es2 sent2 where "nudge_each io stuck s1 es1 = (s2, es2, sent2, Inr ())" using Cons by blast
  ultimately show ?case by simp
qed simp

lemma checks_complete:
  assumes "\<And>ev es. is_ok (snd (sp_append io ev es))" "\<And>c. is_ok (sp_decide io c)"
  shows "\<exists>s' es' sent. tick_checks io s es = (s', es', sent, Inr True)"
proof -
  have "\<exists>s'. run_heartbeat io s = (s', Inr ())" for s
    using assms(2) [of "heartbeat_context io (sv_monitor s)"] by (auto simp: run_heartbeat_def is_ok_conv)
  then obtain s1 where "(if should_invoke_ai_for_heartbeat (sc_autonomy (sv_config s)) \<and>
      should_run_heartbeat (sp_now io) (sc_heartbeat (sv_config s)) (sv_heartbeat s) then run_heartbeat io s else (s, Inr ())) = (s1, Inr ())"
    by (cases "should_invoke_ai_for_heartbeat (sc_autonomy (sv_config s)) \<and>
      should_run_heartbeat (sp_now io) (sc_heartbeat (sv_config s)) (sv_heartbeat s)") auto
  moreover have "\<exists>s' es'. handle_budget_exceeded io s1 es = (s', es', Inr ())"
    using assms(1) [of "\<lparr>ev_kind = SystemDraining ''Budget exceeded'', ev_timestamp = sp_now io, ev_aggregate_id = ''system''\<rparr>" es]
    by (auto simp: handle_budget_exceeded_def is_ok_conv split: prod.splits)
  then obtain s2 es2 where "(if is_over_budget (sv_budget s1) then handle_budget_exceeded io s1 es else (s1, es, Inr ())) = (s2, es2, Inr ())"
    by (cases "is_over_budget (sv_budget s1)") auto
  ultimately show ?thesis by (simp only: tick_checks_def) simp
qed

text \<open>A tick fails only when a port does.\<close>

lemma tick_completes:
  assumes "\<And>ev es. is_ok (snd (sp_append io ev es))" "\<And>since limit es. is_ok (sp_stream io since limit es)"
    and "\<And>sid p. is_ok (sp_send io sid p)" "\<And>c. is_ok (sp_decide io c)"
  shows "\<exists>s' es' sent b. supervisor_tick io s es = (s', es', sent, Inr b)"
proof (cases "sv_state s = Draining")
  case False
  obtain evs where evs: "sp_stream io (ss_last_event_id (sv_monitor s)) (sc_event_batch_size (sv_config s)) es = Inr evs"
    using assms(2) unfolding is_ok_conv by blast
  obtain s1 es1 where p: "process_polled io evs (s, es) = (s1, es1)" by force
  define s2 where "s2 = (if evs = [] then s1 else s1\<lparr>sv_last_processed_event := ss_last_event_id (sv_monitor s1)\<rparr>)"
  obtain es' where "append_emitted io (map (trigger_event (sp_now io)) (supervisor_triggers io evs s2)) es1 = (es', Inr ())"
    using emitted_complete [OF assms(1)] by blast
  then obtain s3 es3 where t: "detect_feedback_triggers io evs s2 es1 = (s3, es3, Inr ())"
    by (cases "evs = []") (simp_all add: detect_feedback_triggers_def Let_def)
  obtain s4 es4 where n: "check_nudge_timeouts io s3 es3 = (s4, es4, Inr ())"
    unfolding check_nudge_timeouts_def using timeouts_complete [OF assms(1)] by metis
  obtain s5 es5 sent5 where k: "check_stuck_agents io s4 es4 = (s5, es5, sent5, Inr ())"
    unfolding check_stuck_agents_def using nudges_complete [OF assms(1,3)] by metis
  obtain s6 es6 sent6 where c: "tick_checks io s5 es5 = (s6, es6, sent6, Inr True)" using checks_complete [OF assms(1,4)] by metis
  have "tick_polled io evs s es = (s6, es6, sent5 @ sent6, Inr True)"
    unfolding tick_polled_def p prod.case Let_def s2_def [symmetric] t by (simp add: n k c)
  with evs False have "supervisor_tick io s es = (s6, es6, sent5 @ sent6, Inr True)" by (simp add: supervisor_tick_def)
  then show ?thesis by blast
next
  case True
  then show ?thesis by (cases "agents_in_operation (sp_agents io) (sv_monitor s) = []") (simp_all add: supervisor_tick_def, blast+)
qed

subsection \<open>Concrete runs\<close>

text \<open>A supervisor of one live agent, on a list of events, with a gateway that answers as given.\<close>

definition demo_ports :: "(session_id \<Rightarrow> (string, unit) result) \<Rightarrow> event list supervisor_ports" where
  "demo_ports send =
     \<lparr>sp_now = 0, sp_append = (\<lambda>ev es. (es @ [ev], Inr (Suc (length es)))),
      sp_stream = (\<lambda>since limit es. Inr (take limit (drop (case since of None \<Rightarrow> 0 | Some n \<Rightarrow> n) (zip es [1..<Suc (length es)])))),
      sp_send = (\<lambda>sid _. send sid), sp_uuid = (\<lambda>sid. ''uuid''), sp_decide = (\<lambda>_. Inr ConfidenceHigh),
      sp_rfc3339 = (\<lambda>_. ''time''), sp_soft_threshold = (\<lambda>limit percent. limit * percent div 100),
      sp_agents = stored_order, sp_tasks = stored_order, sp_counts = stored_order\<rparr>"

definition demo_agent :: agent_state where
  "demo_agent = new_agent_state 0 ''A1'' ''S1'' ''worker''"

definition demo_supervisor :: supervisor where
  "demo_supervisor =
     (new_supervisor 0 (default_supervisor_config
        \<lparr>sc_stuck_detection := default_stuck_detection_config\<lparr>sd_time_threshold_minutes := 0\<rparr>,
         sc_heartbeat := \<lparr>hc_interval_minutes = 5, hc_enabled = False\<rparr>,
         sc_budget := \<lparr>bp_max_total_tokens = Some 10, bp_soft_threshold_percent = 80, bp_hard_limit = True\<rparr>\<rparr>))
     \<lparr>sv_monitor := new_supervisor_state\<lparr>ss_agents := [(''S1'', demo_agent)]\<rparr>\<rparr>"

definition demo_event :: "event_kind \<Rightarrow> event" where
  "demo_event kind = \<lparr>ev_kind = kind, ev_timestamp = 0, ev_aggregate_id = ''system''\<rparr>"

lemmas demo_defs = demo_ports_def demo_agent_def demo_supervisor_def demo_event_def new_supervisor_def new_supervisor_state_def
  new_agent_state_def default_supervisor_config_def default_stuck_detection_config_def new_budget_tracker_def

lemma demo_completes: "\<exists>s' es' sent b. supervisor_tick (demo_ports (\<lambda>_. Inr ())) s es = (s', es', sent, Inr b)"
  using tick_completes [of "demo_ports (\<lambda>_. Inr ())"] by (simp add: demo_ports_def)

theorem budget_enforced_witness:
  "sv_state (fst (supervisor_tick (demo_ports (\<lambda>_. Inr ())) demo_supervisor [demo_event (ResponseReceived ''S2'' ''p'' 12)])) = Draining"
proof -
  let ?ev = "demo_event (ResponseReceived ''S2'' ''p'' 12)"
  obtain s' es' sent b where tick: "supervisor_tick (demo_ports (\<lambda>_. Inr ())) demo_supervisor [?ev] = (s', es', sent, Inr b)"
    using demo_completes by metis
  have "sp_stream (demo_ports (\<lambda>_. Inr ())) (ss_last_event_id (sv_monitor demo_supervisor)) (sc_event_batch_size (sv_config demo_supervisor)) [?ev] = Inr [(?ev, 1)]"
    by (simp add: demo_defs)
  from budget_enforced [OF _ _ this tick] tick show ?thesis
    by (simp add: demo_defs is_hard_limit_reached_def event_tokens_def u64_max_def)
qed

theorem drain_never_completes_witness:
  "let s = demo_supervisor\<lparr>sv_state := Draining, sv_monitor := new_supervisor_state\<lparr>ss_agents := [(''S1'', demo_agent\<lparr>ag_current_operation := Some ''build''\<rparr>)]\<rparr>\<rparr>
   in supervisor_loop [demo_ports (\<lambda>_. Inr ()), demo_ports (\<lambda>_. Inr ())] s [demo_event (OperationCompleted ''S1'' ''build'' True)] =
     (s, [demo_event (OperationCompleted ''S1'' ''build'' True)], [])"
  unfolding Let_def
  by (rule drain_never_completes [where sid = "''S1''" and a = "demo_agent\<lparr>ag_current_operation := Some ''build''\<rparr>"])
    (simp_all add: demo_defs is_in_operation_def hm_wf_def)

theorem failed_nudge_blocks_budget_witness:
  "sv_state (fst (supervisor_tick (demo_ports (\<lambda>_. Inl ''closed'')) (demo_supervisor\<lparr>sv_budget := (sv_budget demo_supervisor)\<lparr>bt_total_tokens := 12\<rparr>\<rparr>) [])) = Running"
proof -
  let ?s = "demo_supervisor\<lparr>sv_budget := (sv_budget demo_supervisor)\<lparr>bt_total_tokens := 12\<rparr>\<rparr>" and ?io = "demo_ports (\<lambda>_. Inl ''closed'')"
  let ?i = "\<lparr>si_session_id = ''S1'', si_agent_id = ''A1'', si_idle_minutes = 0, si_pattern = None, si_is_in_operation = False,
    si_task_id = None, si_task_status = None, si_recommended_action = None\<rparr>"
  have stuck: "?i \<in> set (detect_stuck (sp_counts ?io) (sc_stuck_detection (sv_config ?s)) (sp_now ?io) (active_agents (sp_agents ?io) (sv_monitor ?s)))"
    by (simp add: demo_defs detect_stuck_def active_agents_def hm_values_def List.map_filter_simps stuck_info_of_def is_exempt_from_time_check_def
      detect_pattern_def recent_messages_def idle_minutes_def idle_duration_def is_in_operation_def)
  have "\<exists>s' es' sent e. supervisor_tick ?io ?s [] = (s', es', sent, Inl e) \<and> sv_state s' = sv_state ?s \<and> sv_budget s' = sv_budget ?s"
    by (rule failed_nudge_blocks_budget [OF _ _ _ stuck])
      (simp_all add: demo_defs nudge_timeout_events_def nudge_timeout_event_def List.map_filter_simps)
  then show ?thesis by (auto simp: demo_defs)
qed

theorem monitored_tasks_never_evicted_witness:
  "let m = sv_monitor (fst (supervisor_loop [demo_ports (\<lambda>_. Inr ())] (new_supervisor 0 default_supervisor_config) [demo_event (TaskCreated ''T1'')]))
   in ss_tasks (monitor_apply_bounds stored_order stored_order 0 0 m) = ss_tasks m"
proof -
  obtain s es sent where "supervisor_loop [demo_ports (\<lambda>_. Inr ())] (new_supervisor 0 default_supervisor_config) [demo_event (TaskCreated ''T1'')] = (s, es, sent)"
    by (metis prod.exhaust)
  from monitored_tasks_never_evicted [OF this, of stored_order stored_order 0 0] this show ?thesis by simp
qed

lemmas demo_tick_defs = supervisor_tick_def tick_polled_def process_polled_def supervisor_process_event_def monitor_process_event_def
  budget_process_event_def detect_feedback_triggers_def supervisor_triggers_def detect_triggers_def derive_triggers_def event_triggers_def
  check_nudge_timeouts_def nudge_timeout_events_def nudge_timeout_event_def
  check_stuck_agents_def detect_stuck_def active_agents_def hm_values_def List.map_filter_simps stuck_info_of_def is_exempt_from_time_check_def
  detect_pattern_def recent_messages_def idle_minutes_def idle_duration_def is_in_operation_def tick_checks_def
  should_run_heartbeat_def is_over_budget_def is_hard_limit_reached_def monitor_apply_bounds_def evict_def

definition demo_nudged :: supervisor where
  "demo_nudged = fst (supervisor_loop [demo_ports (\<lambda>_. Inr ())]
     (new_supervisor 0 (default_supervisor_config\<lparr>sc_heartbeat := \<lparr>hc_interval_minutes = 5, hc_enabled = False\<rparr>\<rparr>))
     [demo_event (AgentSpawned ''A1'' ''S1'' ''worker''), demo_event (NudgeSent ''S1'' ''soft'' ''hello'')])"

lemma demo_nudge: "active_nudge_for_session ''S1'' (sv_monitor demo_nudged) = Some (new_active_nudge ''soft'' 0 ''S1'')"
  unfolding demo_nudged_def
  by (simp add: demo_tick_defs demo_defs Let_def numeral_2_eq_2 on_agent_def new_active_nudge_def active_nudge_for_session_def
    hm_modify_def hm_insert_def hm_get_def)

theorem nudge_lifecycle_witness:
  "\<exists>n'. active_nudge_for_session ''S1'' (fst (monitor_process_event stored_order 5 (demo_event (NudgeAcknowledged ''S1'' ''soft'')) 3 (sv_monitor demo_nudged))) = Some n' \<and>
     nudge_ok n' \<and> an_delivery_state n' = Acknowledged"
proof -
  let ?ev = "demo_event (NudgeAcknowledged ''S1'' ''soft'')"
  obtain es sent where loop: "supervisor_loop [demo_ports (\<lambda>_. Inr ())]
     (new_supervisor 0 (default_supervisor_config\<lparr>sc_heartbeat := \<lparr>hc_interval_minutes = 5, hc_enabled = False\<rparr>\<rparr>))
     [demo_event (AgentSpawned ''A1'' ''S1'' ''worker''), demo_event (NudgeSent ''S1'' ''soft'' ''hello'')] = (demo_nudged, es, sent)"
    unfolding demo_nudged_def by (metis prod.collapse)
  obtain n' where n': "active_nudge_for_session ''S1'' (fst (monitor_process_event stored_order 5 ?ev 3 (sv_monitor demo_nudged))) = Some n'"
    and "an_delivery_state n' = Acknowledged"
    using demo_nudge by (fastforce simp: monitor_process_event_def demo_event_def on_agent_def on_nudge_def new_active_nudge_def active_nudge_for_session_def split: option.splits)
  with nudge_lifecycle [OF loop demo_nudge n'] show ?thesis by blast
qed

end
