(* ===== verification/Supervisor_Log.thy ===== *)
theory Supervisor_Log
  imports Supervisor_Props Event_Log_History
begin

text \<open>
  The supervisor on top of an event store: the contract it relies on as a locale, what follows
  for the ticks, and the interpretation of the contract on the store of \<open>store.rs\<close>.
\<close>

subsection \<open>The contract\<close>

definition page :: "event list \<Rightarrow> event_id option \<Rightarrow> nat \<Rightarrow> (event \<times> event_id) list" where
  "page evs since limit =
     (let s = (case since of None \<Rightarrow> 0 | Some n \<Rightarrow> n) in
      map (\<lambda>n. (evs ! (n - 1), n)) [Suc s..<Suc (min (s + limit) (length evs))])"

definition trigger_key :: "event \<Rightarrow> string option" where
  "trigger_key ev =
     (case ev_kind ev of
        FeedbackTriggerDetected trigger key kind task run review sources covered summary at \<Rightarrow> Some key
      | _ \<Rightarrow> None)"

definition trigger_keys :: "event list \<Rightarrow> string list" where
  "trigger_keys evs = List.map_filter trigger_key evs"

lemma trigger_keys_simps [simp]:
  "trigger_keys [] = []"
  "trigger_keys (ev # evs) = (case trigger_key ev of None \<Rightarrow> trigger_keys evs | Some k \<Rightarrow> k # trigger_keys evs)"
  "trigger_keys (evs @ evs') = trigger_keys evs @ trigger_keys evs'"
  by (simp_all add: trigger_keys_def List.map_filter_def split: option.split)

lemma trigger_key_trigger_event [simp]: "trigger_key (trigger_event now t) = Some (dedup_key t)"
  by (simp add: trigger_key_def trigger_event_def feedback_event_def)

text \<open>The parts of a tick that completes.\<close>

lemma tick_polled_completes:
  assumes "tick_polled io evs s es = (s', es', sent, Inr b)"
  obtains s1 es1 s2 s3 es3 s4 es4 s5 es5 sent1 sent2 where
    "process_polled io evs (s, es) = (s1, es1)"
    "s2 = (if evs = [] then s1 else s1\<lparr>sv_last_processed_event := ss_last_event_id (sv_monitor s1)\<rparr>)"
    "detect_feedback_triggers io evs s2 es1 = (s3, es3, Inr ())" "check_nudge_timeouts io s3 es3 = (s4, es4, Inr ())"
    "check_stuck_agents io s4 es4 = (s5, es5, sent1, Inr ())" "tick_checks io s5 es5 = (s', es', sent2, Inr b)" "sent = sent1 @ sent2"
  using assms by (auto simp: tick_polled_def Let_def split: prod.splits sum.splits)

lemma tick_checks_keeps:
  assumes "tick_checks io s es = (s', es', sent, r)"
  shows "sent = []" "sv_known_dedup_keys s' = sv_known_dedup_keys s" "ss_last_event_id (sv_monitor s') = ss_last_event_id (sv_monitor s)"
  using assms by (auto simp: tick_checks_def run_heartbeat_def handle_budget_exceeded_def monitor_apply_bounds_def split: if_splits sum.splits prod.splits)

lemma emitted_no_trigger: "x \<in> set (snd (monitor_process_event h now ev n s)) \<Longrightarrow> trigger_key x = None"
  by (auto simp: monitor_process_event_def nudge_reply_def trigger_key_def Let_def split: event_kind.splits option.splits if_splits)

lemma timeout_no_trigger: "x \<in> set (nudge_timeout_events h now timeout s) \<Longrightarrow> trigger_key x = None"
  by (auto simp: nudge_timeout_events_def nudge_timeout_event_def List.map_filter_def trigger_key_def Let_def split: option.splits if_splits)

lemma no_trigger_keys: "(\<And>x. x \<in> set xs \<Longrightarrow> trigger_key x = None) \<Longrightarrow> trigger_keys xs = []"
  by (induction xs) auto

lemma supervisor_triggers_new:
  "distinct (map dedup_key (supervisor_triggers io evs s)) \<and> set (map dedup_key (supervisor_triggers io evs s)) \<inter> set (sv_known_dedup_keys s) = {}"
  unfolding supervisor_triggers_def detect_triggers_def using dedup_triggers_new by simp

lemma trigger_keys_events: "trigger_keys (map (trigger_event now) ts) = map dedup_key ts"
  by (induction ts) auto

text \<open>Every trigger of the log is known and recorded once; and a growth of the log that keeps it so.\<close>

definition keys_tracked :: "supervisor \<Rightarrow> event list \<Rightarrow> bool" where
  "keys_tracked s evs \<longleftrightarrow> set (trigger_keys evs) \<subseteq> set (sv_known_dedup_keys s) \<and> distinct (trigger_keys evs)"

definition grown :: "supervisor \<Rightarrow> event list \<Rightarrow> supervisor \<Rightarrow> event list \<Rightarrow> bool" where
  "grown s evs s' evs' \<longleftrightarrow>
     (\<exists>xs. evs' = evs @ xs \<and> trigger_keys xs = []) \<and> set (sv_known_dedup_keys s) \<subseteq> set (sv_known_dedup_keys s')"

lemma grown_refl [simp]: "grown s evs s evs"
  by (simp add: grown_def)

lemma grown_trans: "grown s evs s1 evs1 \<Longrightarrow> grown s1 evs1 s2 evs2 \<Longrightarrow> grown s evs s2 evs2"
  by (fastforce simp: grown_def)

lemma grown_tracked: "grown s evs s' evs' \<Longrightarrow> keys_tracked s evs \<Longrightarrow> keys_tracked s' evs'"
  by (auto simp: grown_def keys_tracked_def)

lemma grown_length: "grown s evs s' evs' \<Longrightarrow> length evs \<le> length evs'"
  by (auto simp: grown_def)

locale event_source = event_appender "sp_append io" events valid
  for io :: "'es supervisor_ports" and events :: "'es \<Rightarrow> event list" and valid :: "'es \<Rightarrow> bool" +
  fixes broken :: "event_id option \<Rightarrow> nat \<Rightarrow> 'es \<Rightarrow> bool"
  assumes stream_law: "valid es \<Longrightarrow>
      (case sp_stream io since limit es of Inl e \<Rightarrow> broken since limit es | Inr evs \<Rightarrow> evs = page (events es) since limit)"
begin

lemma own_event_law:
  assumes "valid es" "record_own_event io ev s es = (s', es', r)"
  shows "valid es'" "sv_known_dedup_keys s' = sv_known_dedup_keys s"
    "r = Inl e \<Longrightarrow> s' = s \<and> events es' = events es"
    "r = Inr () \<Longrightarrow> events es' = events es @ [ev] \<and> ss_last_event_id (sv_monitor s') = Some (length (events es'))"
  using assms append_law [OF assms(1), of ev] by (auto simp: record_own_event_def last_event_id_replay split: prod.splits sum.splits)

lemma process_event_law:
  assumes "valid es" "supervisor_process_event io (ev, n) (s, es) = (s', es', r)"
  shows "valid es' \<and> grown s (events es) s' (events es')"
proof -
  obtain m emit where m: "monitor_process_event (sp_agents io) (sp_now io) ev n (sv_monitor s) = (m, emit)" by force
  obtain es1 r1 where a: "append_emitted io emit es = (es1, r1)" by force
  from each_law [OF assms(1) a] obtain k where k: "valid es1" "events es1 = events es @ take k emit" by blast
  have "trigger_keys (take k emit) = []"
    by (rule no_trigger_keys) (metis emitted_no_trigger in_set_takeD m snd_conv)
  moreover have "es' = es1" "set (sv_known_dedup_keys s) \<subseteq> set (sv_known_dedup_keys s')"
    using assms(2) m a by (auto simp: supervisor_process_event_def Let_def split: sum.splits event_kind.splits)
  ultimately show ?thesis using k by (auto simp: grown_def)
qed

lemma process_polled_law:
  assumes "valid es" "process_polled io evs (s, es) = (s', es')"
  shows "valid es' \<and> grown s (events es) s' (events es')"
  using assms
proof (induction evs arbitrary: s es)
  case (Cons e evs)
  obtain s1 es1 r1 where step: "supervisor_process_event io e (s, es) = (s1, es1, r1)" by (metis prod.exhaust)
  then have rest: "process_polled io evs (s1, es1) = (s', es')" using Cons.prems by (simp add: process_polled_def)
  have "valid es1 \<and> grown s (events es) s1 (events es1)"
    using process_event_law [OF Cons.prems(1), of "fst e" "snd e"] step by simp
  with Cons.IH [OF _ rest] show ?case by (blast intro: grown_trans)
qed (simp add: process_polled_def)

lemma triggers_law:
  assumes "valid es" "detect_feedback_triggers io evs s es = (s', es', Inr ())"
  shows "valid es' \<and> length (events es) \<le> length (events es') \<and> (keys_tracked s (events es) \<longrightarrow> keys_tracked s' (events es'))"
proof (cases "evs = []")
  case False
  define ts where "ts = supervisor_triggers io evs s"
  from assms(2) False have a: "append_emitted io (map (trigger_event (sp_now io)) ts) es = (es', Inr ())"
    and s': "sv_known_dedup_keys s' = fold (\<lambda>t. hs_insert (dedup_key t)) ts (sv_known_dedup_keys s)"
    by (auto simp: detect_feedback_triggers_def ts_def Let_def split: prod.splits sum.splits)
  from each_law [OF assms(1) a] have es': "valid es'" "events es' = events es @ map (trigger_event (sp_now io)) ts" by auto
  have "set (fold (\<lambda>t. hs_insert (dedup_key t)) ts known) = set known \<union> set (map dedup_key ts)" for known
    by (induction ts arbitrary: known) auto
  with es' s' supervisor_triggers_new [of io evs s, folded ts_def] show ?thesis
    by (auto simp: keys_tracked_def trigger_keys_events)
qed (use assms in \<open>simp add: detect_feedback_triggers_def\<close>)

lemma own_events_law:
  assumes "valid es" "record_own_events io evs s es = (s', es', r)" "\<And>x. x \<in> set evs \<Longrightarrow> trigger_key x = None"
  shows "valid es' \<and> grown s (events es) s' (events es')"
  using assms
proof (induction evs arbitrary: s es)
  case (Cons ev evs)
  obtain s1 es1 r1 where step: "record_own_event io ev s es = (s1, es1, r1)" by (metis prod.exhaust)
  note law = own_event_law [OF Cons.prems(1) step]
  have grown: "grown s (events es) s1 (events es1)" using law(2-4) Cons.prems(3) by (cases r1) (auto simp: grown_def)
  show ?case
  proof (cases r1)
    case (Inr u)
    with step Cons.prems(2) have "record_own_events io evs s1 es1 = (s', es', r)" by simp
    with Cons.IH [OF law(1) this] Cons.prems(3) grown show ?thesis by (auto intro: grown_trans)
  qed (use step Cons.prems(2) law(1) grown in auto)
qed simp

lemma nudge_one_law:
  assumes "valid es" "nudge_one io i s es = (s', es', sent, r)"
  shows "valid es' \<and> grown s (events es) s' (events es')"
    "r = Inr () \<Longrightarrow> if sent = [] then sv_monitor s' = sv_monitor s else ss_last_event_id (sv_monitor s') = Some (Suc (length (events es)))"
proof -
  have "(valid es' \<and> grown s (events es) s' (events es')) \<and>
    (r = Inr () \<longrightarrow> (if sent = [] then sv_monitor s' = sv_monitor s else ss_last_event_id (sv_monitor s') = Some (Suc (length (events es)))))"
  proof (cases "should_invoke_ai_for_stuck (sc_autonomy (sv_config s)) \<and> \<not> si_is_in_operation i")
    case False
    with assms show ?thesis by (auto simp: nudge_one_def)
  next
    case True
    let ?sid = "si_session_id i" and ?kind = "if 30 < si_idle_minutes i then GuidanceNudge else SoftNudge"
    define prompt where "prompt = prepare_nudge_with_pattern (sp_uuid io ?sid) (sp_now io) ?kind (si_pattern i)"
    define s1 where "s1 = s\<lparr>sv_nudges := record_prepared_nudge (sp_now io) ?sid ?kind prompt (is_ok (sp_send io ?sid prompt)) (sv_nudges s)\<rparr>"
    define ev where "ev = \<lparr>ev_kind = NudgeSent ?sid (nudge_kind_str ?kind) (pt_content prompt), ev_timestamp = sp_now io, ev_aggregate_id = ?sid\<rparr>"
    have run: "nudge_one io i s es = (case sp_send io ?sid prompt of Inl e \<Rightarrow> (s1, es, [], Inl e)
        | Inr _ \<Rightarrow> (case record_own_event io ev s1 es of (s2, es', r) \<Rightarrow> (s2, es', [(?sid, prompt)], r)))"
      unfolding nudge_one_def if_P [OF True] Let_def prompt_def s1_def ev_def ..
    obtain s2 es2 r2 where own: "record_own_event io ev s1 es = (s2, es2, r2)" by (metis prod.exhaust)
    note law = own_event_law [OF assms(1) own]
    have key: "trigger_key ev = None" "sv_known_dedup_keys s1 = sv_known_dedup_keys s" by (simp_all add: ev_def s1_def trigger_key_def)
    show ?thesis
    proof (cases "sp_send io ?sid prompt")
      case (Inl e)
      with run assms key show ?thesis by (auto simp: grown_def)
    next
      case (Inr u)
      with run own assms(2) have "s' = s2" "es' = es2" "sent = [(?sid, prompt)]" "r = r2" by auto
      with law key show ?thesis by (cases r2) (auto simp: grown_def)
    qed
  qed
  then show "valid es' \<and> grown s (events es) s' (events es')"
    "r = Inr () \<Longrightarrow> if sent = [] then sv_monitor s' = sv_monitor s else ss_last_event_id (sv_monitor s') = Some (Suc (length (events es)))"
    by blast+
qed

lemma nudge_each_law:
  assumes "valid es" "nudge_each io stuck s es = (s', es', sent, r)"
  shows "valid es' \<and> grown s (events es) s' (events es') \<and>
    (r = Inr () \<longrightarrow> (if sent = [] then sv_monitor s' = sv_monitor s
       else \<exists>n. ss_last_event_id (sv_monitor s') = Some n \<and> length (events es) < n))"
  using assms
proof (induction stuck arbitrary: s es sent s' es' r)
  case (Cons i rest)
  obtain s1 es1 sent1 r1 where step: "nudge_one io i s es = (s1, es1, sent1, r1)" by (metis prod.exhaust)
  obtain s2 es2 sent2 r2 where others: "nudge_each io rest s1 es1 = (s2, es2, sent2, r2)" by (metis prod.exhaust)
  note law = nudge_one_law [OF Cons.prems(1) step]
  show ?case
  proof (cases r1)
    case (Inl e)
    with step Cons.prems(2) law(1) show ?thesis by auto
  next
    case (Inr u)
    with step others Cons.prems(2) have "s' = s2" "es' = es2" "sent = sent1 @ sent2" "r = r2" by auto
    moreover note Cons.IH [OF conjunct1 [OF law(1)] others] law(2) [unfolded Inr, simplified] law(1)
    ultimately show ?thesis using grown_length [OF conjunct2 [OF law(1)]] by (fastforce intro: grown_trans split: if_splits)
  qed
qed simp

lemma checks_law:
  assumes "valid es" "tick_checks io s es = (s', es', sent, r)"
  shows "valid es' \<and> grown s (events es) s' (events es')"
proof -
  let ?ev = "\<lparr>ev_kind = SystemDraining ''Budget exceeded'', ev_timestamp = sp_now io, ev_aggregate_id = ''system''\<rparr>"
  obtain es1 r1 where a: "sp_append io ?ev es = (es1, r1)" by force
  have "es' = es \<or> es' = es1"
    using assms(2) a by (auto simp: tick_checks_def handle_budget_exceeded_def split: if_splits sum.splits prod.splits)
  moreover have "trigger_key ?ev = None" by (simp add: trigger_key_def)
  ultimately show ?thesis
    using append_law [OF assms(1) a] assms(1) tick_checks_keeps(2) [OF assms(2)] by (auto simp: grown_def split: sum.splits)
qed

lemma tick_polled_law:
  assumes "valid es" "tick_polled io evs s es = (s', es', sent, Inr b)"
  shows "valid es'" "keys_tracked s (events es) \<Longrightarrow> keys_tracked s' (events es')"
    "sent \<noteq> [] \<Longrightarrow> \<exists>n. ss_last_event_id (sv_monitor s') = Some n \<and> length (events es) < n"
proof -
  from assms(2) obtain s1 es1 s2 s3 es3 s4 es4 s5 es5 sent1 sent2 where
    p: "process_polled io evs (s, es) = (s1, es1)"
    and s2: "s2 = (if evs = [] then s1 else s1\<lparr>sv_last_processed_event := ss_last_event_id (sv_monitor s1)\<rparr>)"
    and t: "detect_feedback_triggers io evs s2 es1 = (s3, es3, Inr ())" and n: "check_nudge_timeouts io s3 es3 = (s4, es4, Inr ())"
    and k: "check_stuck_agents io s4 es4 = (s5, es5, sent1, Inr ())" and c: "tick_checks io s5 es5 = (s', es', sent2, Inr b)"
    and sent: "sent = sent1 @ sent2"
    by (rule tick_polled_completes)
  note p = process_polled_law [OF assms(1) p]
  note t = triggers_law [OF conjunct1 [OF p] t]
  have n: "valid es4 \<and> grown s3 (events es3) s4 (events es4)"
    by (rule own_events_law [OF conjunct1 [OF t] n [unfolded check_nudge_timeouts_def]]) (rule timeout_no_trigger)
  note k = nudge_each_law [OF conjunct1 [OF n] k [unfolded check_stuck_agents_def]]
  note c = checks_law [OF conjunct1 [OF k] c] tick_checks_keeps [OF c]
  show "valid es'" using c(1) by simp
  show "keys_tracked s' (events es')" if "keys_tracked s (events es)"
  proof -
    have "keys_tracked s1 (events es1)" using grown_tracked p that by blast
    then have "keys_tracked s2 (events es1)" by (simp add: s2 keys_tracked_def)
    with t n k c(1) show ?thesis by (blast intro: grown_tracked)
  qed
  show "\<exists>n. ss_last_event_id (sv_monitor s') = Some n \<and> length (events es) < n" if "sent \<noteq> []"
  proof -
    have "length (events es) \<le> length (events es4)" using p t n grown_length by (meson le_trans)
    with that k c(2-) sent show ?thesis by auto
  qed
qed

text \<open>Reading all events from the start.\<close>

lemma hydrate_law:
  assumes "valid es"
  defines "from \<equiv> \<lambda>since. case since of None \<Rightarrow> 0 | Some n \<Rightarrow> n"
  shows "(\<exists>e. hydrate_keys io since known es = Some (Inl e) \<and> (\<exists>at. from at \<le> max (from since) (length (events es)) \<and> broken at 1000 es)) \<or>
    (\<exists>keys. hydrate_keys io since known es = Some (Inr keys) \<and> set keys = set known \<union> set (trigger_keys (drop (from since) (events es))))"
proof (induction "length (events es) - from since" arbitrary: since known rule: less_induct)
  case less
  let ?evs = "page (events es) since 1000" and ?len = "length (events es)"
  show ?case
  proof (cases "sp_stream io since 1000 es")
    case (Inl e)
    then have "broken since 1000 es" using stream_law [OF assms(1), of since 1000] by simp
    then have "\<exists>at. from at \<le> max (from since) ?len \<and> broken at 1000 es" by (intro exI [of _ since]) simp
    with Inl show ?thesis by (subst (1 2) hydrate_keys.simps) simp
  next
    case (Inr evs)
    then have evs: "evs = ?evs" using stream_law [OF assms(1), of since 1000] by simp
    show ?thesis
    proof (cases "?len \<le> from since")
      case True
      then have "evs = []" unfolding evs by (simp add: page_def from_def split: option.splits)
      with Inr True show ?thesis by (subst (1 2) hydrate_keys.simps) simp
    next
      case False
      define stop where "stop = min (from since + 1000) ?len"
      have page: "evs = map (\<lambda>n. (events es ! (n - 1), n)) [Suc (from since)..<Suc stop]"
        unfolding evs page_def from_def Let_def stop_def ..
      have ends: "from since < stop" "stop \<le> ?len" using False by (auto simp: stop_def)
      then have evs_last: "evs \<noteq> []" "snd (last evs) = stop" by (simp_all add: page)
      have pick: "map fst evs = take (stop - from since) (drop (from since) (events es))"
        by (rule nth_equalityI) (use ends in \<open>auto simp: page simp del: upt_Suc\<close>)
      define known' where "known' = fold (\<lambda>(ev, n) known. case ev_kind ev of
                FeedbackTriggerDetected trigger key kind task run review sources covered summary at \<Rightarrow> hs_insert key known
              | _ \<Rightarrow> known) evs known"
      have known': "set known' = set known \<union> set (trigger_keys (map fst evs))"
        unfolding known'_def by (induction evs arbitrary: known) (auto simp: trigger_key_def split: event_kind.splits)
      have parts: "drop (from since) (events es) = map fst evs @ drop stop (events es)"
        unfolding pick using ends by (metis append_take_drop_id drop_drop le_add_diff_inverse2 less_imp_le)
      have "?len - from (Some stop) < ?len - from since" using ends False by (simp add: from_def)
      note rest = less.hyps [OF this, of known']
      have run: "hydrate_keys io since known es = hydrate_keys io (Some stop) known' es"
        using Inr evs_last by (subst hydrate_keys.simps) (simp add: known'_def)
      have reach: "max (from (Some stop)) ?len \<le> max (from since) ?len" using ends by (simp add: from_def)
      from rest show ?thesis unfolding run parts trigger_keys_simps set_append known'
        by (elim disjE) (use reach in \<open>auto simp: Un_assoc from_def intro: order_trans\<close>)
    qed
  qed
qed

end

subsection \<open>The store as the source\<close>

definition log_append :: "'db log_env \<Rightarrow> (store_error \<Rightarrow> string) \<Rightarrow> event \<Rightarrow> 'db event_store \<Rightarrow> 'db event_store \<times> (string, event_id) result" where
  "log_append env msg ev st = map_prod id (map_sum msg id) (append_event_inner env ev None st)"

text \<open>A panic of the store unwinds through the caller, which ends the turn as an error does.\<close>

definition on_log :: "'db log_env \<Rightarrow> (store_error \<Rightarrow> string) \<Rightarrow> 'db event_store supervisor_ports \<Rightarrow> 'db event_store supervisor_ports" where
  "on_log env msg io =
     io\<lparr>sp_append := log_append env msg,
        sp_stream := (\<lambda>since limit st. case stream env since limit st of None \<Rightarrow> Inl ''panicked'' | Some r \<Rightarrow> map_sum msg id r)\<rparr>"

definition log_events :: "'db log_env \<Rightarrow> ('db \<Rightarrow> contents) \<Rightarrow> 'db event_store \<Rightarrow> event list" where
  "log_events env view st = events_of env (view (es_db st)) (es_seq st)"

definition log_valid :: "'db log_env \<Rightarrow> (string \<Rightarrow> bool) \<Rightarrow> ('db \<Rightarrow> contents) \<Rightarrow> 'db event_store \<Rightarrow> bool" where
  "log_valid env plain view st \<longleftrightarrow> log_env_ok env view \<and> log_inv env plain (view (es_db st)) (es_seq st)"

definition log_broken :: "'db log_env \<Rightarrow> event_id option \<Rightarrow> nat \<Rightarrow> 'db event_store \<Rightarrow> bool" where
  "log_broken env since limit st \<longleftrightarrow>
     stream_overflows since limit (es_seq st) \<or> (\<exists>p k x. lg_get env (es_db st) p k = Inl x)"

lemma length_log_events [simp]: "length (log_events env view st) = es_seq st"
  by (simp add: log_events_def)

lemma page_stream: "page evs since limit = take limit (drop (case since of None \<Rightarrow> 0 | Some n \<Rightarrow> n) (map prod.swap (enumerate 1 evs)))"
  using consecutive_part [of evs "case since of None \<Rightarrow> 0 | Some n \<Rightarrow> n" limit]
  by (simp add: page_def min_Suc_Suc [symmetric] del: upt_Suc min_Suc_Suc)

interpretation log_appender: event_appender "log_append env msg" "log_events env view" "log_valid env plain view"
  for env msg view plain
proof
  fix es ev es' r
  assume valid: "log_valid env plain view es" and run: "log_append env msg ev es = (es', r)"
  obtain r1 where a: "append_new env ev None (\<lambda>_. []) es = (es', r1)" "r = map_sum msg id r1"
    using run by (cases "append_new env ev None (\<lambda>_. []) es") (auto simp: log_append_def append_event_inner_def check_idempotency_def)
  have ok: "log_env_ok env view" and inv: "log_inv env plain (view (es_db es)) (es_seq es)" using valid by (simp_all add: log_valid_def)
  from append_new_step [OF ok inv a(1)] consider e where "r1 = Inl e" "es' = es"
    | "r1 = Inr (Suc (es_seq es))" "log_step env plain (view (es_db es)) (es_seq es) (view (es_db es')) (es_seq es') [ev]" by auto
  then show "log_valid env plain view es' \<and> (case r of Inl e \<Rightarrow> log_events env view es' = log_events env view es
      | Inr n \<Rightarrow> log_events env view es' = log_events env view es @ [ev] \<and> n = Suc (length (log_events env view es)))"
    using valid a(2) ok by cases (auto simp: log_valid_def log_step_def log_events_def)
qed

lemma on_log_append [simp]: "sp_append (on_log env msg io) = log_append env msg"
  by (simp add: on_log_def)

interpretation log_source: event_source "on_log env msg io" "log_events env view" "log_valid env plain view" "log_broken env"
  for env msg io view plain
proof (unfold_locales, unfold on_log_append, goal_cases)
  case (1 es ev es' r)
  then show ?case by (rule log_appender.append_law)
next
  case (2 es since limit)
  then have "log_env_ok env view" "log_inv env plain (view (es_db es)) (es_seq es)" by (simp_all add: log_valid_def)
  from stream_exact [OF this refl, of since limit]
  show ?case
    by (cases "stream_overflows since limit (es_seq es)") (auto simp: on_log_def log_broken_def log_events_def page_stream, blast)
qed

text \<open>
  a tick that delivers a nudge moves the reading position past everything the store holds:
  an event that was stored before the tick but lies beyond its batch is read neither by this tick nor
  by any later one.
\<close>

theorem own_events_skip_log:
  assumes "log_valid env plain view st" "log_valid env plain view later"
    and "sv_state s \<noteq> Draining" "supervisor_tick (on_log env msg io) s st = (s', st', sent, Inr b)" "sent \<noteq> []"
    and "stream env (ss_last_event_id (sv_monitor s)) (sc_event_batch_size (sv_config s)) st = Some (Inr evs)"
    and "stream env (ss_last_event_id (sv_monitor s')) limit later = Some (Inr evs')"
    and "(case ss_last_event_id (sv_monitor s) of None \<Rightarrow> 0 | Some n \<Rightarrow> n) + sc_event_batch_size (sv_config s) < m" "m \<le> es_seq st"
  shows "m \<notin> snd ` set evs \<and> m \<notin> snd ` set evs'"
proof -
  have page: "evs = page (log_events env view st) since limit"
    if "stream env since limit st = Some (Inr evs)" "log_valid env plain view st" for evs since limit st
    using log_source.stream_law [OF that(2), where msg = msg and io = io and since = since and limit = limit] that(1) by (simp add: on_log_def)
  have "sp_stream (on_log env msg io) (ss_last_event_id (sv_monitor s)) (sc_event_batch_size (sv_config s)) st = Inr evs"
    using assms(6) by (simp add: on_log_def)
  then have "tick_polled (on_log env msg io) evs s st = (s', st', sent, Inr b)" using assms(3,4) by (simp add: supervisor_tick_def)
  from log_source.tick_polled_law(3) [OF assms(1) this assms(5)] obtain n where "ss_last_event_id (sv_monitor s') = Some n" "es_seq st < n" by auto
  with assms(8,9) page [OF assms(6,1)] page [OF assms(7,2)] show ?thesis
    by (auto simp: page_def Let_def simp del: upt_Suc)
qed

text \<open>
  at start the supervisor reads the whole log in batches: the reading ends, with an error only if
  the database failed or the numbers of the events have reached the end of the 64-bit range, and the known deduplication keys are then exactly those of the recorded feedback triggers.
\<close>

theorem hydrate_exact:
  assumes "log_valid env plain view st"
  shows "(\<exists>e. hydrate_keys (on_log env msg io) None [] st = Some (Inl e) \<and>
      (u64_max < es_seq st + 1001 \<or> (\<exists>p k x. lg_get env (es_db st) p k = Inl x))) \<or>
    (\<exists>keys. hydrate_keys (on_log env msg io) None [] st = Some (Inr keys) \<and> set keys = set (trigger_keys (log_events env view st)))"
proof -
  have "u64_max < es_seq st + 1001 \<or> (\<exists>p k x. lg_get env (es_db st) p k = Inl x)"
    if "log_broken env at 1000 st" "(case at of None \<Rightarrow> 0 | Some n \<Rightarrow> n) \<le> es_seq st" for at
    using that by (auto simp: log_broken_def stream_overflows_def Let_def)
  with log_source.hydrate_law [OF assms, where msg = msg and io = io and since = None and known = "[]"] show ?thesis by auto
qed

text \<open>
  C23: a feedback trigger is recorded once: if every trigger of the log is known and none is there
  twice, the same holds after any completed tick, whatever triggers are derived from the events.
\<close>

theorem feedback_recorded_once:
  assumes "log_valid env plain view st" "supervisor_tick (on_log env msg io) s st = (s', st', sent, Inr b)"
    and "keys_tracked s (log_events env view st)"
  shows "log_valid env plain view st' \<and> keys_tracked s' (log_events env view st')"
proof (cases "sv_state s = Draining")
  case True
  with assms show ?thesis by (auto simp: supervisor_tick_def keys_tracked_def split: if_splits)
next
  case False
  with assms(2) obtain evs where "tick_polled (on_log env msg io) evs s st = (s', st', sent, Inr b)"
    by (auto simp: supervisor_tick_def split: sum.splits)
  from log_source.tick_polled_law(1,2) [OF assms(1) this] assms(3) show ?thesis by blast
qed

subsection \<open>Runs on a concrete store\<close>

text \<open>The database of \<open>Event_Log_Instance\<close> with a codec for a given table of envelopes.\<close>

definition table_log :: "(event_envelope \<times> string) list \<Rightarrow> demo_db log_env" where
  "table_log t = demo_log
     \<lparr>lg_encode := (\<lambda>e. case map_of t e of None \<Rightarrow> Inl ''unsupported'' | Some b \<Rightarrow> Inr b),
      lg_decode := (\<lambda>b. case map_of (map prod.swap t) b of None \<Rightarrow> Inl ''malformed'' | Some e \<Rightarrow> Inr e)\<rparr>"

lemma map_of_swap: "distinct (map snd t) \<Longrightarrow> map_of t k = Some v \<Longrightarrow> map_of (map prod.swap t) v = Some k"
  by (rule map_of_is_SomeI) (simp_all add: comp_def, force dest: map_of_SomeD)

lemma table_log_ok: "distinct (map snd t) \<Longrightarrow> log_env_ok (table_log t) demo_view"
  using demo_log_ok unfolding log_env_ok_def table_log_def by (auto dest: map_of_swap split: option.splits)

lemma table_log_unbroken [simp]: "log_broken (table_log t) since limit st = stream_overflows since limit (es_seq st)"
  by (simp add: log_broken_def table_log_def)

lemma table_append:
  assumes "map_of t (build_event_envelope ev (Suc (es_seq st)) None) = Some bytes"
  shows "\<exists>st'. append_event_inner (table_log t) ev None st = (st', Inr (Suc (es_seq st)))"
  using assms by (simp add: append_event_inner_def check_idempotency_def append_new_def index_ops_def set_index_start_seq_if_needed_def
    log_get_def commit_log_def table_log_def Let_def split: option.split)

lemma table_stream:
  assumes "log_valid (table_log t) plain demo_view st" "\<not> stream_overflows since limit (es_seq st)"
  shows "stream (table_log t) since limit st = Some (Inr (page (log_events (table_log t) demo_view st) since limit))"
  using log_source.stream_law [OF assms(1), where msg = "\<lambda>_. []" and io = "undefined" and since = since and limit = limit] assms(2)
  by (cases "stream (table_log t) since limit st"; cases "the (stream (table_log t) since limit st)") (simp_all add: on_log_def)

lemma small_no_overflow: "since = None \<or> since = Some n \<and> n < 1000 \<Longrightarrow> limit < 1000 \<Longrightarrow> seq < 1000 \<Longrightarrow> \<not> stream_overflows since limit seq"
  by (auto simp: stream_overflows_def u64_max_def)

lemma fresh_valid: "log_env_ok env demo_view \<Longrightarrow> log_valid env plain demo_view (fresh_store demo_empty)"
  by (simp add: log_valid_def fresh_store_def demo_view_empty log_inv_empty)

lemma table_extend:
  assumes "log_valid (table_log t) plain demo_view st" "map_of t (build_event_envelope ev (Suc (es_seq st)) None) = Some bytes"
  obtains st' where "append_event_inner (table_log t) ev None st = (st', Inr (Suc (es_seq st)))" "log_valid (table_log t) plain demo_view st'"
    "log_events (table_log t) demo_view st' = log_events (table_log t) demo_view st @ [ev]" "es_seq st' = Suc (es_seq st)"
proof -
  obtain st' where run: "append_event_inner (table_log t) ev None st = (st', Inr (Suc (es_seq st)))" using table_append [OF assms(2)] by blast
  then have "log_append (table_log t) (\<lambda>_. []) ev st = (st', Inr (Suc (es_seq st)))" by (simp add: log_append_def)
  from log_appender.append_law [OF assms(1) this] have "log_valid (table_log t) plain demo_view st'"
    and evs: "log_events (table_log t) demo_view st' = log_events (table_log t) demo_view st @ [ev]" by simp_all
  moreover have "es_seq st' = Suc (es_seq st)" using arg_cong [OF evs, of length] by simp
  ultimately show ?thesis using that run by blast
qed

text \<open>
  The first run: an agent and a request to drain are stored; a tick that reads one event at a time meets the
  agent, finds it stuck and nudges it. The second: a rejected review and a request for changes give the same trigger.
\<close>

definition skip_ports :: "'es supervisor_ports" where
  "skip_ports =
     \<lparr>sp_now = 0, sp_append = (\<lambda>ev es. (es, Inl ''none'')), sp_stream = (\<lambda>since limit es. Inl ''none''),
      sp_send = (\<lambda>sid _. Inr ()), sp_uuid = (\<lambda>sid. ''uuid''), sp_decide = (\<lambda>_. Inr ConfidenceHigh),
      sp_rfc3339 = (\<lambda>_. ''time''), sp_soft_threshold = (\<lambda>limit percent. limit * percent div 100),
      sp_agents = stored_order, sp_tasks = stored_order, sp_counts = stored_order\<rparr>"

definition skip_supervisor :: supervisor where
  "skip_supervisor = new_supervisor 0 (default_supervisor_config
        \<lparr>sc_stuck_detection := default_stuck_detection_config\<lparr>sd_time_threshold_minutes := 0\<rparr>,
         sc_heartbeat := \<lparr>hc_interval_minutes = 5, hc_enabled = False\<rparr>, sc_event_batch_size := 1\<rparr>)"

definition skip_nudge :: event where
  "skip_nudge = \<lparr>ev_kind = NudgeSent ''S1'' (nudge_kind_str SoftNudge) (pt_content (prepare_nudge_with_pattern ''uuid'' 0 SoftNudge None)),
     ev_timestamp = 0, ev_aggregate_id = ''S1''\<rparr>"

definition skip_table :: "(event_envelope \<times> string) list" where
  "skip_table =
     [(build_event_envelope (demo_event (AgentSpawned ''A1'' ''S1'' ''worker'')) 1 None, ''1''),
      (build_event_envelope (demo_event (SystemDraining ''maintenance'')) 2 None, ''2''),
      (build_event_envelope skip_nudge 3 None, ''3'')]"

lemma skip_codes:
  "map_of skip_table (build_event_envelope (demo_event (AgentSpawned ''A1'' ''S1'' ''worker'')) (Suc 0) None) = Some ''1''"
  "map_of skip_table (build_event_envelope (demo_event (SystemDraining ''maintenance'')) (Suc (Suc 0)) None) = Some ''2''"
  "map_of skip_table (build_event_envelope skip_nudge (Suc (Suc (Suc 0))) None) = Some ''3''"
  by (simp_all add: skip_table_def build_event_envelope_def numeral_2_eq_2 numeral_3_eq_3)

lemma skip_run:
  obtains st st' s' sent where "log_valid (table_log skip_table) (\<lambda>_. True) demo_view st" "es_seq st = 2"
    "log_valid (table_log skip_table) (\<lambda>_. True) demo_view st'"
    "supervisor_tick (on_log (table_log skip_table) (\<lambda>_. ''error'') skip_ports) skip_supervisor st = (s', st', sent, Inr True)"
    "sent \<noteq> []" "ss_last_event_id (sv_monitor s') = Some 3" "es_seq st' = 3"
    "stream (table_log skip_table) None 1 st = Some (Inr [(demo_event (AgentSpawned ''A1'' ''S1'' ''worker''), 1)])"
proof -
  let ?env = "table_log skip_table" and ?io = "on_log (table_log skip_table) (\<lambda>_. ''error'') skip_ports"
  have ok: "log_valid ?env (\<lambda>_. True) demo_view (fresh_store demo_empty)" by (rule fresh_valid, rule table_log_ok) (simp add: skip_table_def)
  have fresh: "es_seq (fresh_store demo_empty) = 0" "log_events ?env demo_view (fresh_store demo_empty) = []"
    by (simp_all add: fresh_store_def log_events_def)
  obtain st1 where st1: "log_valid ?env (\<lambda>_. True) demo_view st1" "es_seq st1 = Suc 0"
    "log_events ?env demo_view st1 = [demo_event (AgentSpawned ''A1'' ''S1'' ''worker'')]"
    using table_extend [OF ok, of "demo_event (AgentSpawned ''A1'' ''S1'' ''worker'')" "''1''"] skip_codes(1) fresh by auto
  obtain st where st: "log_valid ?env (\<lambda>_. True) demo_view st" "es_seq st = Suc (Suc 0)"
    "log_events ?env demo_view st = [demo_event (AgentSpawned ''A1'' ''S1'' ''worker''), demo_event (SystemDraining ''maintenance'')]"
    using table_extend [OF st1(1), of "demo_event (SystemDraining ''maintenance'')" "''2''"] skip_codes(2) st1 by auto
  obtain st' where st': "append_event_inner ?env skip_nudge None st = (st', Inr 3)" "log_valid ?env (\<lambda>_. True) demo_view st'"
    "es_seq st' = 3"
    using table_extend [OF st(1), of skip_nudge "''3''"] skip_codes(3) st by (auto simp: numeral_3_eq_3)
  have "\<not> stream_overflows None 1 (es_seq st)" by (rule small_no_overflow) (simp_all add: st(2))
  note page_at = table_stream [OF st(1) this]
  have page: "stream ?env None 1 st = Some (Inr [(demo_event (AgentSpawned ''A1'' ''S1'' ''worker''), 1)])"
    unfolding page_at st(3) by (simp add: page_def)
  have "\<exists>s' sent. supervisor_tick ?io skip_supervisor st = (s', st', sent, Inr True) \<and> sent \<noteq> [] \<and> ss_last_event_id (sv_monitor s') = Some 3"
    by (simp add: on_log_def log_append_def skip_ports_def skip_supervisor_def demo_tick_defs demo_defs Let_def page [unfolded One_nat_def] nudge_one_def should_invoke_ai_for_stuck_def
      record_own_event_def st'(1) [unfolded skip_nudge_def] hm_insert_def on_agent_def hm_modify_def)
  then show ?thesis using that st(1,2) st'(2,3) page by auto
qed

theorem own_events_skip_log_witness:
  "\<exists>st s' st' sent. es_seq st = 2 \<and>
     supervisor_tick (on_log (table_log skip_table) (\<lambda>_. ''error'') skip_ports) skip_supervisor st = (s', st', sent, Inr True) \<and>
     2 \<notin> snd ` set (projr (the (stream (table_log skip_table) None 1 st))) \<and>
     2 \<notin> snd ` set (projr (the (stream (table_log skip_table) (ss_last_event_id (sv_monitor s')) 100 st')))"
proof -
  obtain st st' s' sent where run: "log_valid (table_log skip_table) (\<lambda>_. True) demo_view st" "es_seq st = 2"
    "log_valid (table_log skip_table) (\<lambda>_. True) demo_view st'"
    "supervisor_tick (on_log (table_log skip_table) (\<lambda>_. ''error'') skip_ports) skip_supervisor st = (s', st', sent, Inr True)"
    "sent \<noteq> []" "ss_last_event_id (sv_monitor s') = Some 3" "es_seq st' = 3"
    "stream (table_log skip_table) None 1 st = Some (Inr [(demo_event (AgentSpawned ''A1'' ''S1'' ''worker''), 1)])"
    by (rule skip_run)
  have start: "sv_state skip_supervisor \<noteq> Draining" "ss_last_event_id (sv_monitor skip_supervisor) = None"
    "sc_event_batch_size (sv_config skip_supervisor) = 1"
    by (simp_all add: skip_supervisor_def new_supervisor_def new_supervisor_state_def)
  obtain evs' where later: "stream (table_log skip_table) (ss_last_event_id (sv_monitor s')) 100 st' = Some (Inr evs')"
    using table_stream [OF run(3) small_no_overflow [of "Some 3" 3 100]] run(6,7) by auto
  from own_events_skip_log [OF run(1,3) start(1) run(4,5) run(8) [folded start(2,3)] later, of 2] start run later show ?thesis by fastforce
qed

definition feedback_supervisor :: supervisor where
  "feedback_supervisor = new_supervisor 0 (default_supervisor_config\<lparr>sc_heartbeat := \<lparr>hc_interval_minutes = 5, hc_enabled = False\<rparr>\<rparr>)"

definition feedback_rejected :: event where
  "feedback_rejected = demo_event (ReviewRejected ''R1'')"

definition feedback_changes :: event where
  "feedback_changes = demo_event (ReviewChangesRequested ''R1'')"

definition feedback_demo :: feedback_trigger where
  "feedback_demo =
     make_trigger ReviewChangesTrigger None None (Some ''R1'') [1] (Some (1, 2)) 0 ''Review R1 consolidated as rejected.''
       (JObj [(''review_id'', JStr ''R1'')])"

definition feedback_table :: "(event_envelope \<times> string) list" where
  "feedback_table =
     [(build_event_envelope feedback_rejected 1 None, ''1''), (build_event_envelope feedback_changes 2 None, ''2''),
      (build_event_envelope (trigger_event 0 feedback_demo) 3 None, ''3'')]"

lemma feedback_codes:
  "map_of feedback_table (build_event_envelope feedback_rejected (Suc 0) None) = Some ''1''"
  "map_of feedback_table (build_event_envelope feedback_changes (Suc (Suc 0)) None) = Some ''2''"
  "map_of feedback_table (build_event_envelope (trigger_event 0 feedback_demo) (Suc (Suc (Suc 0))) None) = Some ''3''"
  by (simp_all add: feedback_table_def build_event_envelope_def numeral_2_eq_2 numeral_3_eq_3)

lemma feedback_detected:
  "supervisor_triggers (on_log env msg skip_ports) [(feedback_rejected, 1), (feedback_changes, 2)] s =
     (if dedup_key feedback_demo \<in> set (sv_known_dedup_keys s) then [] else [feedback_demo])"
  by (simp add: supervisor_triggers_def detect_triggers_def derive_triggers_def event_triggers_def feedback_rejected_def feedback_changes_def
    demo_event_def covered_range_def feedback_demo_def make_trigger_def dedup_key_def dedup_payload_scope_def
    default_trigger_policy_def Let_def numeral_2_eq_2)

lemma feedback_run:
  obtains st st' s' sent where "log_valid (table_log feedback_table) (\<lambda>_. True) demo_view st"
    "log_events (table_log feedback_table) demo_view st = [feedback_rejected, feedback_changes]"
    "log_valid (table_log feedback_table) (\<lambda>_. True) demo_view st'"
    "log_events (table_log feedback_table) demo_view st' = [feedback_rejected, feedback_changes, trigger_event 0 feedback_demo]"
    "supervisor_tick (on_log (table_log feedback_table) (\<lambda>_. ''error'') skip_ports) feedback_supervisor st = (s', st', sent, Inr True)"
proof -
  let ?env = "table_log feedback_table" and ?io = "on_log (table_log feedback_table) (\<lambda>_. ''error'') skip_ports"
  have ok: "log_valid ?env (\<lambda>_. True) demo_view (fresh_store demo_empty)" by (rule fresh_valid, rule table_log_ok) (simp add: feedback_table_def)
  have fresh: "es_seq (fresh_store demo_empty) = 0" "log_events ?env demo_view (fresh_store demo_empty) = []"
    by (simp_all add: fresh_store_def log_events_def)
  obtain st1 where st1: "log_valid ?env (\<lambda>_. True) demo_view st1" "es_seq st1 = Suc 0" "log_events ?env demo_view st1 = [feedback_rejected]"
    using table_extend [OF ok, of feedback_rejected "''1''"] feedback_codes(1) fresh by auto
  obtain st where st: "log_valid ?env (\<lambda>_. True) demo_view st" "es_seq st = Suc (Suc 0)"
    "log_events ?env demo_view st = [feedback_rejected, feedback_changes]"
    using table_extend [OF st1(1), of feedback_changes "''2''"] feedback_codes(2) st1 by auto
  obtain st' where st': "append_event_inner ?env (trigger_event 0 feedback_demo) None st = (st', Inr 3)" "log_valid ?env (\<lambda>_. True) demo_view st'"
    "log_events ?env demo_view st' = [feedback_rejected, feedback_changes, trigger_event 0 feedback_demo]"
    using table_extend [OF st(1), of "trigger_event 0 feedback_demo" "''3''"] feedback_codes(3) st by (auto simp: numeral_3_eq_3)
  have "\<not> stream_overflows None 100 (es_seq st)" by (rule small_no_overflow) (simp_all add: st(2))
  note page_at = table_stream [OF st(1) this]
  have page: "stream ?env None 100 st = Some (Inr [(feedback_rejected, 1), (feedback_changes, 2)])"
    unfolding page_at st(3) by (simp add: page_def numeral_2_eq_2 upt_rec)
  let ?evs = "[(feedback_rejected, 1), (feedback_changes, 2)]"
  define s1 where "s1 = feedback_supervisor\<lparr>sv_monitor := new_supervisor_state\<lparr>ss_last_event_id := Some 2\<rparr>\<rparr>"
  have replay: "process_polled ?io ?evs (feedback_supervisor, st) = (s1, st)"
    by (simp add: process_polled_def supervisor_process_event_def monitor_process_event_def budget_process_event_def feedback_rejected_def
      feedback_changes_def demo_event_def s1_def feedback_supervisor_def new_supervisor_def new_supervisor_state_def)
  have "\<exists>s' sent. tick_polled ?io ?evs feedback_supervisor st = (s', st', sent, Inr True)"
    unfolding tick_polled_def replay prod.case Let_def detect_feedback_triggers_def feedback_detected
    by (simp add: s1_def feedback_supervisor_def new_supervisor_def on_log_def log_append_def skip_ports_def st'(1) demo_tick_defs demo_defs Let_def)
  then have "\<exists>s' sent. supervisor_tick ?io feedback_supervisor st = (s', st', sent, Inr True)"
    by (simp add: supervisor_tick_def feedback_supervisor_def new_supervisor_def default_supervisor_config_def new_supervisor_state_def on_log_def page)
  then show ?thesis using that st(1,3) st'(2,3) by auto
qed

theorem hydrate_exact_witness:
  "\<exists>st keys. hydrate_keys (on_log (table_log feedback_table) (\<lambda>_. ''error'') skip_ports) None [] st = Some (Inr keys) \<and>
     set keys = {dedup_key feedback_demo}"
proof -
  obtain st where st: "log_valid (table_log feedback_table) (\<lambda>_. True) demo_view st"
    "log_events (table_log feedback_table) demo_view st = [feedback_rejected, feedback_changes, trigger_event 0 feedback_demo]"
    using feedback_run by blast
  have "trigger_key feedback_rejected = None" "trigger_key feedback_changes = None"
    by (simp_all add: trigger_key_def feedback_rejected_def feedback_changes_def demo_event_def)
  moreover have "es_seq st = 3" using arg_cong [OF st(2), of length] by simp
  moreover have "lg_get (table_log feedback_table) (es_db st) p k \<noteq> Inl x" for p k x by (simp add: table_log_def)
  ultimately show ?thesis using hydrate_exact [OF st(1), where msg = "\<lambda>_. ''error''" and io = skip_ports] st(2)
    by (auto simp: u64_max_def)
qed

theorem feedback_recorded_once_witness:
  "\<exists>st s' st' sent. supervisor_tick (on_log (table_log feedback_table) (\<lambda>_. ''error'') skip_ports) feedback_supervisor st = (s', st', sent, Inr True) \<and>
     trigger_keys (log_events (table_log feedback_table) demo_view st') = [dedup_key feedback_demo] \<and>
     keys_tracked s' (log_events (table_log feedback_table) demo_view st')"
proof -
  obtain st st' s' sent where run: "log_valid (table_log feedback_table) (\<lambda>_. True) demo_view st"
    "log_events (table_log feedback_table) demo_view st = [feedback_rejected, feedback_changes]"
    "log_valid (table_log feedback_table) (\<lambda>_. True) demo_view st'"
    "log_events (table_log feedback_table) demo_view st' = [feedback_rejected, feedback_changes, trigger_event 0 feedback_demo]"
    "supervisor_tick (on_log (table_log feedback_table) (\<lambda>_. ''error'') skip_ports) feedback_supervisor st = (s', st', sent, Inr True)"
    by (rule feedback_run)
  have none: "trigger_key feedback_rejected = None" "trigger_key feedback_changes = None"
    by (simp_all add: trigger_key_def feedback_rejected_def feedback_changes_def demo_event_def)
  then have "keys_tracked feedback_supervisor (log_events (table_log feedback_table) demo_view st)" by (simp add: keys_tracked_def run(2))
  from feedback_recorded_once [OF run(1,5) this] run none show ?thesis by fastforce
qed

end
