(* ===== verification/Feedback_Log.thy ===== *)
theory Feedback_Log
  imports Feedback_Props Supervisor_Log
begin

text \<open>
  Feedback turns on the event store, and the supervisor that reads what they record.
\<close>

subsection \<open>The trace of a turn\<close>

definition turn_trace :: "'es feedback_ports \<Rightarrow> feedback_brief \<Rightarrow> feedback_outcome \<Rightarrow> feedback_policy \<Rightarrow> event list" where
  "turn_trace io b out p =
     (let now = fx_now io; k = fo_kind out; stage = stage_event now b; plan = outcome_plan now b out in
      [stage (FeedbackTurnStarted (fo_supervisor_id out) now), stage (FeedbackOutcomeReceived k now)] @
      (case validate_outcome now b out p of
         OutcomeRejected reason message \<Rightarrow> [stage (FeedbackOutcomeRejected (Some k) reason message now)]
       | OutcomeAccepted d \<Rightarrow>
           [stage (FeedbackOutcomeValidated k now), stage (FeedbackDecisionRecorded k now (decision_summary out))] @
           (case fx_apply io plan of
              Inr done_summary \<Rightarrow> native_effects now b out plan @ [stage (FeedbackApplied k done_summary now)]
            | Inl err \<Rightarrow> [stage (FeedbackFailed k err now)])))"

lemma turn_trace_cong: "fx_now io = fx_now io' \<Longrightarrow> fx_apply io = fx_apply io' \<Longrightarrow> turn_trace io b out p = turn_trace io' b out p"
  by (simp only: turn_trace_def)

lemma append_each_append:
  "append_each app (xs @ ys) es = (case append_each app xs es of (es1, Inl e) \<Rightarrow> (es1, Inl e) | (es1, Inr u) \<Rightarrow> append_each app ys es1)"
  by (induction xs arbitrary: es) (auto split: prod.splits sum.splits)

lemma map_sum_unit [simp]: "map_sum id (\<lambda>_. ()) (map_sum id f x) = x" for x :: "(string, unit) result"
  by (cases x) simp_all

lemma map_sum_Inr [simp]: "map_sum id f x = Inr y \<longleftrightarrow> (\<exists>u. x = Inr u \<and> y = f u)"
  by (cases x) auto

text \<open>A turn does to the store what appending its trace does, up to the first refusal.\<close>

lemma turn_appends_trace:
  assumes "record_validate_and_apply_outcome io b out p es = (es', plans, cache, r)"
  shows "append_each (fx_append io) (turn_trace io b out p) es = (es', map_sum id (\<lambda>_. ()) r)"
proof (rule validate_cases [where now = "fx_now io" and b = b and out = out and p = p])
  fix reason message
  assume "validate_outcome (fx_now io) b out p = OutcomeRejected reason message"
  with assms show ?thesis
    unfolding turn_trace_def append_each_append record_validate_and_apply_outcome_def Let_def
    by (auto simp del: append_each.simps split: prod.splits sum.splits)
next
  assume accepted: "validate_outcome (fx_now io) b out p = OutcomeAccepted \<lparr>fd_brief = b, fd_outcome = out, fd_decided_at = fx_now io\<rparr>"
  from assms show ?thesis
    unfolding turn_trace_def record_validate_and_apply_outcome_def Let_def accepted outcome_validation.case append_each_append outcome_plan_def
    by (auto simp: append_each_append simp del: append_each.simps split: prod.splits sum.splits)
qed

lemma applied_turn:
  assumes "record_validate_and_apply_outcome io b out p es = (es', plans, cache, Inr (LifecycleApplied x))"
  shows "outcome_permitted b out p" "fx_apply io (outcome_plan (fx_now io) b out) = Inr x"
proof -
  have "outcome_permitted b out p \<and> fx_apply io (outcome_plan (fx_now io) b out) = Inr x"
    using assms unfolding record_validate_and_apply_outcome_def Let_def outcome_plan_def
    by (rule_tac validate_cases [where now = "fx_now io" and b = b and out = out and p = p])
      (auto simp del: append_each.simps split: prod.splits sum.splits)
  then show "outcome_permitted b out p" "fx_apply io (outcome_plan (fx_now io) b out) = Inr x" by simp_all
qed

text \<open>
  C19: on the event store a feedback turn leaves exactly its trace, in order: the start of the turn, the
  outcome, its rejection or its validation and decision, and then the effects and the application or the
  failure; when the store refuses an event, the turn fails and the log ends with the events before it.
\<close>

theorem feedback_turn_recorded:
  assumes "log_valid env plain view st" "fx_append io = log_append env msg"
    and "record_validate_and_apply_outcome io b out p st = (st', plans, cache, r)"
  shows "log_valid env plain view st' \<and>
    (\<exists>k. log_events env view st' = log_events env view st @ take k (turn_trace io b out p) \<and> (is_ok r \<longrightarrow> k = length (turn_trace io b out p)))"
proof -
  have run: "append_each (log_append env msg) (turn_trace io b out p) st = (st', map_sum id (\<lambda>_. ()) r)"
    using turn_appends_trace [OF assms(3)] assms(2) by simp
  from log_appender.each_law [OF assms(1) run] show ?thesis by (cases r) auto
qed

definition position :: "supervisor \<Rightarrow> nat" where
  \<comment> \<open>the number of the last event read\<close>
  "position s = (case ss_last_event_id (sv_monitor s) of None \<Rightarrow> 0 | Some n \<Rightarrow> n)"

lemma page_covers:
  assumes "(case since of None \<Rightarrow> 0 | Some n \<Rightarrow> n) \<le> length evs"
    and "length evs + length xs \<le> (case since of None \<Rightarrow> 0 | Some n \<Rightarrow> n) + limit"
  shows "set xs \<subseteq> set (map fst (page (evs @ xs) since limit))"
proof -
  have "map fst (page (evs @ xs) since limit) = take limit (drop (case since of None \<Rightarrow> 0 | Some n \<Rightarrow> n) (evs @ xs))"
    by (simp add: page_stream take_map [symmetric] drop_map [symmetric] comp_def)
  with assms show ?thesis by simp
qed

text \<open>
  C20: a drain that feedback decides is honoured: when the turn of a permitted drain outcome is recorded
  as applied, a supervisor whose reading position is not past the beginning of that turn and whose batch
  reaches from there to the end of the turn (six events) is draining after its next completed tick, and
  the policy allowed it. A supervisor that lags further behind drains at a later tick or, when its own
  events move its position past the request, not at all.
\<close>

theorem feedback_drain_honoured:
  assumes "log_valid env plain view st" "fx_append io = log_append env msg" "fo_kind out = EnterDrainOutcome"
    and turn: "record_validate_and_apply_outcome io b out p st = (st1, plans, cache, Inr (LifecycleApplied x))"
    and state: "sv_state s \<noteq> Draining" "bt_total_tokens (sv_budget s) \<le> u64_max"
    and pos: "position s \<le> es_seq st" "es_seq st + 6 \<le> position s + sc_event_batch_size (sv_config s)"
    and tick: "supervisor_tick (on_log env msg sio) s st1 = (s', st2, sent, Inr cont)"
  shows "sv_state s' = Draining \<and> fp_allow_drain p"
proof -
  let ?trace = "turn_trace io b out p"
  have run: "append_each (log_append env msg) ?trace st = (st1, Inr ())" using turn_appends_trace [OF turn] assms(2) by simp
  from log_appender.each_law [OF assms(1) run] have valid: "log_valid env plain view st1"
    and log: "log_events env view st1 = log_events env view st @ ?trace" by auto
  note applied = applied_turn [OF turn]
  have plan: "outcome_plan (fx_now io) b out = PlanEnterDrain (fo_rationale out)"
    by (simp add: outcome_plan_def plan_application_drain assms(3))
  have "validate_outcome (fx_now io) b out p = OutcomeAccepted \<lparr>fd_brief = b, fd_outcome = out, fd_decided_at = fx_now io\<rparr>"
    using applied(1) validate_accepted_iff by blast
  then have short: "length ?trace = 6" and ev: "\<exists>ev \<in> set ?trace. drains ev"
    using applied(2) plan by (simp_all add: turn_trace_def Let_def drains_def brief_event_def feedback_event_def)
  from tick state(1) obtain evs where evs: "sp_stream (on_log env msg sio) (ss_last_event_id (sv_monitor s)) (sc_event_batch_size (sv_config s)) st1 = Inr evs"
    and polled: "tick_polled (on_log env msg sio) evs s st1 = (s', st2, sent, Inr cont)"
    by (auto simp: supervisor_tick_def split: sum.splits)
  have "evs = page (log_events env view st1) (ss_last_event_id (sv_monitor s)) (sc_event_batch_size (sv_config s))"
    using log_source.stream_law [OF valid, where msg = msg and io = sio and since = "ss_last_event_id (sv_monitor s)" and limit = "sc_event_batch_size (sv_config s)"]
      evs by simp
  then have "set ?trace \<subseteq> set (map fst evs)"
    using page_covers [of "ss_last_event_id (sv_monitor s)" "log_events env view st" ?trace] short pos log by (simp add: position_def)
  with ev have "\<exists>ev \<in> set (map fst evs). drains ev" by blast
  then have "list_ex (\<lambda>(ev, n). drains ev) evs" by (force simp: list_ex_iff)
  with tick_polled_effect(4) [OF polled state(2) refl] have "sv_state s' = Draining" by simp
  moreover have "fp_allow_drain p" using applied(1) assms(3) by (simp add: outcome_permitted_def policy_allows_def split: if_splits)
  ultimately show ?thesis by simp
qed

subsection \<open>A turn on a concrete store\<close>

definition trace_table :: "event list \<Rightarrow> (event_envelope \<times> string) list" where
  "trace_table evs = map (\<lambda>(n, ev). (build_event_envelope ev n None, replicate n CHR ''x'')) (enumerate 1 evs)"

lemma trace_table_codes: "distinct (map snd (trace_table evs))"
proof -
  have "map snd (trace_table evs) = map (\<lambda>n. replicate n CHR ''x'') (map fst (enumerate 1 evs))"
    by (simp only: trace_table_def map_map comp_def case_prod_beta snd_conv)
  moreover have "inj_on (\<lambda>n. replicate n CHR ''x'') A" for A by (rule inj_onI) (metis length_replicate)
  ultimately show ?thesis by (simp add: distinct_map del: map_map upt_Suc)
qed

lemma trace_table_Some:
  assumes "n < length evs"
  shows "\<exists>bytes. map_of (trace_table evs) (build_event_envelope (evs ! n) (Suc n) None) = Some bytes"
proof -
  have "(Suc n, evs ! n) \<in> set (enumerate 1 evs)" using assms by (auto simp: in_set_enumerate_eq)
  then have "build_event_envelope (evs ! n) (Suc n) None \<in> fst ` set (trace_table evs)" unfolding trace_table_def by force
  then show ?thesis by (metis map_of_eq_None_iff not_None_eq)
qed

lemma table_each:
  assumes "log_valid (table_log t) plain demo_view st"
    and "\<And>n. n < length evs \<Longrightarrow> \<exists>bytes. map_of t (build_event_envelope (evs ! n) (Suc (es_seq st + n)) None) = Some bytes"
  shows "\<exists>st'. append_each (log_append (table_log t) msg) evs st = (st', Inr ())"
  using assms
proof (induction evs arbitrary: st)
  case (Cons ev evs)
  obtain bytes where "map_of t (build_event_envelope ev (Suc (es_seq st)) None) = Some bytes" using Cons.prems(2) [of 0] by auto
  from table_extend [OF Cons.prems(1) this] obtain st1 where st1: "append_event_inner (table_log t) ev None st = (st1, Inr (Suc (es_seq st)))"
    "log_valid (table_log t) plain demo_view st1" "es_seq st1 = Suc (es_seq st)" by metis
  have "\<exists>bytes. map_of t (build_event_envelope (evs ! n) (Suc (es_seq st1 + n)) None) = Some bytes" if "n < length evs" for n
    using Cons.prems(2) [of "Suc n"] that st1(3) by simp
  from Cons.IH [OF st1(2) this] st1(1) show ?case by (simp add: log_append_def)
qed simp

definition turn_ports :: "demo_db log_env \<Rightarrow> demo_db event_store feedback_ports" where
  "turn_ports env = \<lparr>fx_now = 0, fx_append = log_append env (\<lambda>_. ''error''), fx_apply = event_only_executor, fx_rfc3339 = (\<lambda>_. ''time'')\<rparr>"

definition drain_trace :: "event list" where
  "drain_trace = turn_trace list_ports drain_brief drain_outcome drain_policy"

lemma drain_trace_ports: "turn_trace (turn_ports env) drain_brief drain_outcome drain_policy = drain_trace"
  unfolding drain_trace_def by (rule turn_trace_cong) (simp_all add: turn_ports_def list_ports_def)

lemma drain_turn:
  obtains st' plans cache where "log_valid (table_log (trace_table drain_trace)) (\<lambda>_. True) demo_view (fresh_store demo_empty)"
    "record_validate_and_apply_outcome (turn_ports (table_log (trace_table drain_trace))) drain_brief drain_outcome drain_policy (fresh_store demo_empty) =
       (st', plans, cache, Inr (LifecycleApplied ''drain requested: too many failures''))"
proof -
  let ?env = "table_log (trace_table drain_trace)"
  have ok: "log_valid ?env (\<lambda>_. True) demo_view (fresh_store demo_empty)" by (rule fresh_valid, rule table_log_ok, rule trace_table_codes)
  obtain st' plans cache r where run: "record_validate_and_apply_outcome (turn_ports ?env) drain_brief drain_outcome drain_policy (fresh_store demo_empty) =
      (st', plans, cache, r)" by (metis prod.exhaust)
  have "\<exists>st'. append_each (log_append ?env (\<lambda>_. ''error'')) drain_trace (fresh_store demo_empty) = (st', Inr ())"
    by (rule table_each [OF ok]) (use trace_table_Some [of _ drain_trace] in \<open>simp add: fresh_store_def\<close>)
  with turn_appends_trace [OF run] drain_trace_ports have "map_sum id (\<lambda>_. ()) r = Inr ()" by (auto simp: turn_ports_def)
  then obtain lr where r: "r = Inr lr" by auto
  have accepted: "validate_outcome 0 drain_brief drain_outcome drain_policy =
      OutcomeAccepted \<lparr>fd_brief = drain_brief, fd_outcome = drain_outcome, fd_decided_at = 0\<rparr>"
    unfolding validate_accepted_iff drain_brief_def by (simp add: drain_permitted)
  have plan: "event_only_executor (plan_application \<lparr>fd_brief = drain_brief, fd_outcome = drain_outcome, fd_decided_at = 0\<rparr>) =
      Inr ''drain requested: too many failures''"
    by (simp add: plan_application_def drain_outcome_def)
  from run [unfolded record_validate_and_apply_outcome_def Let_def turn_ports_def, simplified, unfolded accepted, simplified, unfolded plan] r
  have "lr = LifecycleApplied ''drain requested: too many failures''" by (auto simp del: append_each.simps split: prod.splits sum.splits)
  with that ok run r show ?thesis by blast
qed

theorem feedback_turn_recorded_witness:
  "\<exists>st' plans cache r. record_validate_and_apply_outcome (turn_ports (table_log (trace_table drain_trace))) drain_brief drain_outcome drain_policy
       (fresh_store demo_empty) = (st', plans, cache, Inr r) \<and> log_events (table_log (trace_table drain_trace)) demo_view st' = drain_trace"
proof -
  obtain st' plans cache where ok: "log_valid (table_log (trace_table drain_trace)) (\<lambda>_. True) demo_view (fresh_store demo_empty)"
    and run: "record_validate_and_apply_outcome (turn_ports (table_log (trace_table drain_trace))) drain_brief drain_outcome drain_policy (fresh_store demo_empty) =
       (st', plans, cache, Inr (LifecycleApplied ''drain requested: too many failures''))"
    by (rule drain_turn)
  have "fx_append (turn_ports (table_log (trace_table drain_trace))) = log_append (table_log (trace_table drain_trace)) (\<lambda>_. ''error'')"
    by (simp add: turn_ports_def)
  from feedback_turn_recorded [OF ok this run] run show ?thesis by (auto simp: drain_trace_ports log_events_def fresh_store_def)
qed

lemma drain_trace_six:
  "drain_trace = [stage_event 0 drain_brief (FeedbackTurnStarted None 0), stage_event 0 drain_brief (FeedbackOutcomeReceived EnterDrainOutcome 0),
     stage_event 0 drain_brief (FeedbackOutcomeValidated EnterDrainOutcome 0),
     stage_event 0 drain_brief (FeedbackDecisionRecorded EnterDrainOutcome 0 (decision_summary drain_outcome)),
     brief_event 0 drain_brief (SystemDraining (''feedback '' @ ft_trigger_id drain_trigger @ '': too many failures'')),
     stage_event 0 drain_brief (FeedbackApplied EnterDrainOutcome ''drain requested: too many failures'' 0)]"
proof -
  have accepted: "validate_outcome 0 drain_brief drain_outcome drain_policy =
      OutcomeAccepted \<lparr>fd_brief = drain_brief, fd_outcome = drain_outcome, fd_decided_at = 0\<rparr>"
    unfolding validate_accepted_iff drain_brief_def by (simp add: drain_permitted)
  show ?thesis
    unfolding drain_trace_def turn_trace_def Let_def list_ports_def feedback_ports.simps accepted
    by (simp add: outcome_plan_def plan_application_def drain_outcome_def drain_brief_def)
qed

lemma drain_polled:
  "\<exists>s' st2 sent. tick_polled (on_log env msg skip_ports) (zip drain_trace [1, 2, 3, 4, 5, 6])
     (feedback_supervisor\<lparr>sv_monitor := new_supervisor_state\<lparr>ss_last_event_id := Some 0\<rparr>\<rparr>) st = (s', st2, sent, Inr True)"
  unfolding drain_trace_six
  by (simp add: on_log_def skip_ports_def feedback_supervisor_def demo_tick_defs demo_defs Let_def stage_event_def brief_event_def
    feedback_event_def covered_range_def default_trigger_policy_def)

lemma drain_read:
  assumes "log_valid (table_log t) (\<lambda>_. True) demo_view st" "log_events (table_log t) demo_view st = drain_trace"
  shows "\<exists>s' st2 sent. supervisor_tick (on_log (table_log t) msg skip_ports)
     (feedback_supervisor\<lparr>sv_monitor := new_supervisor_state\<lparr>ss_last_event_id := Some 0\<rparr>\<rparr>) st = (s', st2, sent, Inr True)"
proof -
  have "es_seq st = 6" using arg_cong [OF assms(2), of length] by (simp add: drain_trace_six)
  then have "\<not> stream_overflows (Some 0) 100 (es_seq st)" by (intro small_no_overflow [of _ 0]) simp_all
  note page_at = table_stream [OF assms(1) this]
  have "stream (table_log t) (Some 0) 100 st = Some (Inr (zip drain_trace [1, 2, 3, 4, 5, 6]))"
    unfolding page_at assms(2) drain_trace_six by (simp add: page_def upt_rec)
  then have "supervisor_tick (on_log (table_log t) msg skip_ports)
      (feedback_supervisor\<lparr>sv_monitor := new_supervisor_state\<lparr>ss_last_event_id := Some 0\<rparr>\<rparr>) st =
    tick_polled (on_log (table_log t) msg skip_ports) (zip drain_trace [1, 2, 3, 4, 5, 6])
      (feedback_supervisor\<lparr>sv_monitor := new_supervisor_state\<lparr>ss_last_event_id := Some 0\<rparr>\<rparr>) st"
    by (simp add: supervisor_tick_def on_log_def feedback_supervisor_def new_supervisor_def default_supervisor_config_def new_supervisor_state_def)
  with drain_polled show ?thesis by simp
qed

theorem feedback_drain_honoured_witness:
  "\<exists>st1 s' st2 sent. supervisor_tick (on_log (table_log (trace_table drain_trace)) (\<lambda>_. ''error'') skip_ports)
     (feedback_supervisor\<lparr>sv_monitor := new_supervisor_state\<lparr>ss_last_event_id := Some 0\<rparr>\<rparr>) st1 = (s', st2, sent, Inr True) \<and> sv_state s' = Draining"
proof -
  let ?env = "table_log (trace_table drain_trace)" and ?s = "feedback_supervisor\<lparr>sv_monitor := new_supervisor_state\<lparr>ss_last_event_id := Some 0\<rparr>\<rparr>"
  obtain st1 plans cache where ok: "log_valid ?env (\<lambda>_. True) demo_view (fresh_store demo_empty)"
    and run: "record_validate_and_apply_outcome (turn_ports ?env) drain_brief drain_outcome drain_policy (fresh_store demo_empty) =
       (st1, plans, cache, Inr (LifecycleApplied ''drain requested: too many failures''))"
    by (rule drain_turn)
  have app: "fx_append (turn_ports ?env) = log_append ?env (\<lambda>_. ''error'')" by (simp add: turn_ports_def)
  have each: "append_each (log_append ?env (\<lambda>_. ''error'')) drain_trace (fresh_store demo_empty) = (st1, Inr ())"
    using turn_appends_trace [OF run] drain_trace_ports app by simp
  from log_appender.each_law [OF ok each] have st1: "log_valid ?env (\<lambda>_. True) demo_view st1" "log_events ?env demo_view st1 = drain_trace"
    by (auto simp: log_events_def fresh_store_def)
  from drain_read [OF st1] obtain s' st2 sent where
    tick: "supervisor_tick (on_log ?env (\<lambda>_. ''error'') skip_ports) ?s st1 = (s', st2, sent, Inr True)" by blast
  have "sv_state s' = Draining \<and> fp_allow_drain drain_policy"
    by (rule feedback_drain_honoured [OF ok app _ run _ _ _ _ tick])
      (simp_all add: drain_outcome_def feedback_supervisor_def new_supervisor_def new_budget_tracker_def default_supervisor_config_def fresh_store_def
        position_def new_supervisor_state_def)
  with tick show ?thesis by blast
qed

end
