(* ===== verification/Feedback_Recovery.thy ===== *)
theory Feedback_Recovery
  imports Feedback_Props Retry_Policy
begin

text \<open>
  The two planners for accepted outcomes of particular triggers in
  \<open>crates/brehon-supervisor/src/feedback\<close>: recovery of a failed worker (\<open>worker_failure.rs\<close>) under
  the retry policy of the configuration, and the resolution of an integration conflict
  (\<open>integration_conflict.rs\<close>), with their relation to the validation of outcomes and to the retry
  decision of the orchestrator.
\<close>

subsection \<open>Worker failures\<close>

datatype escalate_cause = SupervisorChoice | RetryExhausted | RecoveryFieldMissing | UnsupportedOutcome

datatype worker_failure_recovery =
    RecoverRetry "task_id option" "run_id option" "32 word" "32 word" string
  | RecoverNudge "task_id option" "run_id option" string
  | RecoverRework task_id string
  | RecoverEscalate "task_id option" string escalate_cause
  | RecoverDrain string
  | RecoverSafeMode string
  | RecoverNoAction

definition decision_task :: "feedback_decision \<Rightarrow> task_id option" where
  "decision_task d = or_else (fo_task_id (fd_outcome d)) (ft_task_id (fb_trigger (fd_brief d)))"

definition decision_run :: "feedback_decision \<Rightarrow> run_id option" where
  "decision_run d = or_else (fo_run_id (fd_outcome d)) (ft_run_id (fb_trigger (fd_brief d)))"

definition retry_recovery ::
    "feedback_decision \<Rightarrow> 32 word \<Rightarrow> retry_policy_config \<Rightarrow> worker_failure_recovery" where
  \<comment> \<open>the \<open>RetryRun\<close> arm\<close>
  "retry_recovery d current policy =
     (let t = decision_task d; r = decision_run d; why = fo_rationale (fd_outcome d) in
      if t = None \<and> r = None
      then RecoverEscalate t ''Outcome kind retry_run requires either run_id or task_id.'' RecoveryFieldMissing
      else if \<not> rp_enabled policy \<or> rp_max_attempts policy \<le> current
      then RecoverEscalate t
             (''Retry exhausted: attempt '' @ show_nat (unat current) @ '' of max '' @ show_nat (unat (rp_max_attempts policy)) @
              '' (retry_enabled='' @ show_bool (rp_enabled policy) @ ''). '' @ why) RetryExhausted
      else RecoverRetry t r current (rp_max_attempts policy) why)"

definition plan_worker_failure_recovery ::
    "feedback_decision \<Rightarrow> 32 word \<Rightarrow> retry_policy_config \<Rightarrow> worker_failure_recovery" where
  "plan_worker_failure_recovery d current policy =
     (let out = fd_outcome d; t = decision_task d; r = decision_run d; why = fo_rationale out in
      case fo_kind out of
        RetryRunOutcome \<Rightarrow> retry_recovery d current policy
      | NudgeWorkerOutcome \<Rightarrow> RecoverNudge t r why
      | RequestReworkOutcome \<Rightarrow>
          (case t of
             None \<Rightarrow> RecoverEscalate None ''Outcome kind request_rework requires task_id.'' RecoveryFieldMissing
           | Some task \<Rightarrow> RecoverRework task why)
      | EscalateOutcome \<Rightarrow> RecoverEscalate t why SupervisorChoice
      | EnterDrainOutcome \<Rightarrow> RecoverDrain why
      | EnterSafeModeOutcome \<Rightarrow> RecoverSafeMode why
      | NoActionOutcome \<Rightarrow> RecoverNoAction
      | k \<Rightarrow> RecoverEscalate t (''Outcome kind '' @ outcome_kind_str k @ '' is not supported on worker_failed triggers.'')
               UnsupportedOutcome)"

subsection \<open>Integration conflicts\<close>

datatype conflict_escalate_cause = ConflictChoice | ConflictUnsupported | ConflictFieldMissing | ConflictKindMismatch

datatype conflict_resolution_plan =
    QueueResolutionTask task_id string string
  | RequestRepair task_id string string
  | ConflictEscalate "task_id option" string conflict_escalate_cause
  | ConflictNoAction

definition conflict_dedup_key :: "task_id \<Rightarrow> string" where
  "conflict_dedup_key t = ''integration_conflict:'' @ t"

definition conflict_task_plan ::
    "(task_id \<Rightarrow> string \<Rightarrow> string \<Rightarrow> conflict_resolution_plan) \<Rightarrow> string \<Rightarrow> feedback_decision \<Rightarrow> conflict_resolution_plan" where
  \<comment> \<open>the arms that need a task\<close>
  "conflict_task_plan plan missing d =
     (case decision_task d of
        None \<Rightarrow> ConflictEscalate None missing ConflictFieldMissing
      | Some task \<Rightarrow> plan task (conflict_dedup_key task) (fo_rationale (fd_outcome d)))"

definition plan_integration_conflict :: "feedback_decision \<Rightarrow> conflict_resolution_plan" where
  "plan_integration_conflict d =
     (let tr = fb_trigger (fd_brief d); out = fd_outcome d; t = decision_task d in
      if ft_kind tr \<noteq> IntegrationConflictTrigger
      then ConflictEscalate (ft_task_id tr)
             (''Integration-conflict planner invoked for trigger kind '' @ trigger_kind_str (ft_kind tr) @ ''.'') ConflictKindMismatch
      else case fo_kind out of
        ConflictResolutionOutcome \<Rightarrow>
          conflict_task_plan QueueResolutionTask ''Outcome kind queue_conflict_resolution requires task_id.'' d
      | IntegrationRepairOutcome \<Rightarrow>
          conflict_task_plan RequestRepair ''Outcome kind request_integration_repair requires task_id.'' d
      | EscalateOutcome \<Rightarrow> ConflictEscalate t (fo_rationale out) ConflictChoice
      | ClarificationOutcome \<Rightarrow> ConflictEscalate t (fo_rationale out) ConflictChoice
      | NoActionOutcome \<Rightarrow> ConflictNoAction
      | k \<Rightarrow> ConflictEscalate t
               (''Outcome kind '' @ outcome_kind_str k @ '' is not supported on integration_conflict triggers.'') ConflictUnsupported)"

subsection \<open>Agreement with the retry policy and the validation\<close>

fun escalates_for :: "escalate_cause \<Rightarrow> worker_failure_recovery \<Rightarrow> bool" where
  "escalates_for c (RecoverEscalate t why c') = (c = c')"
| "escalates_for c _ = False"

fun conflict_escalates_for :: "conflict_escalate_cause \<Rightarrow> conflict_resolution_plan \<Rightarrow> bool" where
  "conflict_escalates_for c (ConflictEscalate t why c') = (c = c')"
| "conflict_escalates_for c _ = False"

fun is_recovery_retry :: "worker_failure_recovery \<Rightarrow> bool" where
  "is_recovery_retry (RecoverRetry _ _ _ _ _) = True"
| "is_recovery_retry _ = False"

fun retries :: "retry_decision \<Rightarrow> bool" where
  "retries (RetryNow _ _) = True"
| "retries (RetryLater _ _ _ _) = True"
| "retries _ = False"

definition retryable_input :: "retry_input \<Rightarrow> bool" where
  \<comment> \<open>a live run with a failure worth retrying and nothing that decides before the attempt limit\<close>
  "retryable_input inp \<longleftrightarrow>
     \<not> is_terminal (ri_task_status inp) \<and> ri_run_status inp \<in> {RunClaimed, RunRunning, RunFailed} \<and>
     ri_operator_override inp = None \<and> ri_failure_kind inp \<in> {Transient, Interrupted} \<and>
     ri_permission_state inp \<notin> {Some Denied, Some PermissionPending} \<and> ri_review_status inp \<noteq> Some NeedsOperator"

lemma or_else_None [simp]: "or_else x y = None \<longleftrightarrow> x = None \<and> y = None"
  by (simp add: or_else_def split: option.split)

lemma decide_retry_retryable:
  "retryable_input inp \<Longrightarrow>
     retries (decide_retry inp policy) \<longleftrightarrow>
       rp_enabled policy \<and> ri_attempt_count inp \<noteq> 0 \<and> ri_attempt_count inp < rp_max_attempts policy"
  by (auto simp: retryable_input_def decide_retry_def decide_policy_def decide_failure_def Let_def not_le
      split: if_splits)

lemma recovery_retry_iff:
  "is_recovery_retry (plan_worker_failure_recovery d current policy) \<longleftrightarrow>
     fo_kind (fd_outcome d) = RetryRunOutcome \<and> (decision_task d \<noteq> None \<or> decision_run d \<noteq> None) \<and>
     rp_enabled policy \<and> current < rp_max_attempts policy"
  by (auto simp: plan_worker_failure_recovery_def retry_recovery_def Let_def not_le
      split: feedback_outcome_kind.split option.split)

lemma accepted_decision:
  assumes "validate_outcome now b out p = OutcomeAccepted d"
  shows "d = \<lparr>fd_brief = b, fd_outcome = out, fd_decided_at = now\<rparr>"
    and "outcome_allowed_for_trigger (ft_kind (fb_trigger b)) (fo_kind out)"
    and "has_required_fields out"
  using assms by (simp_all add: validate_accepted_iff outcome_permitted_def)

lemma accepted_ids:
  assumes "validate_outcome now b out p = OutcomeAccepted d"
  shows "fo_kind out = RetryRunOutcome \<Longrightarrow> decision_task d \<noteq> None \<or> decision_run d \<noteq> None"
    and "fo_kind out \<in> {RequestReworkOutcome, ConflictResolutionOutcome, IntegrationRepairOutcome} \<Longrightarrow> decision_task d \<noteq> None"
  using accepted_decision(1,3) [OF assms] by (auto simp: has_required_fields_def decision_task_def decision_run_def)

text \<open>An accepted answer to a failed worker is carried over to the retry policy without loss. The
  recovery plan never lacks a field; it retries exactly when the answer is \<open>retry_run\<close>, the policy
  is enabled and the attempt is below the limit, and then the orchestrator, asked about the same
  attempt of a live run with a transient or interrupted failure, retries too; when the plan reports
  the retries exhausted, the orchestrator does not retry. The only accepted answer the planner does
  not support is the request for a clarification, which it turns into an escalation.\<close>

theorem recovery_respects_retry_policy:
  assumes acc: "validate_outcome now b out p = OutcomeAccepted d"
    and kind: "ft_kind (fb_trigger b) = WorkerFailedTrigger"
    and live: "retryable_input inp" and attempt: "ri_attempt_count inp \<noteq> 0"
    and plan: "plan = plan_worker_failure_recovery d (ri_attempt_count inp) policy"
  shows "\<not> escalates_for RecoveryFieldMissing plan \<and>
    (is_recovery_retry plan \<longleftrightarrow> fo_kind out = RetryRunOutcome \<and> retries (decide_retry inp policy)) \<and>
    (escalates_for RetryExhausted plan \<longleftrightarrow> fo_kind out = RetryRunOutcome \<and> \<not> retries (decide_retry inp policy)) \<and>
    (escalates_for UnsupportedOutcome plan \<longleftrightarrow> fo_kind out = ClarificationOutcome)"
proof -
  note d = accepted_decision(1) [OF acc]
  note allowed = accepted_decision(2) [OF acc, unfolded kind]
  note ids = accepted_ids [OF acc]
  note unfold_plan = plan plan_worker_failure_recovery_def retry_recovery_def Let_def
  have retry: "retries (decide_retry inp policy) \<longleftrightarrow> rp_enabled policy \<and> ri_attempt_count inp < rp_max_attempts policy"
    using decide_retry_retryable [OF live, of policy] attempt by simp
  have out: "fd_outcome d = out" by (simp add: d)
  have "\<not> escalates_for RecoveryFieldMissing plan"
    using ids unfolding unfold_plan out by (cases "fo_kind out") (auto split: option.split)
  moreover have "is_recovery_retry plan \<longleftrightarrow> fo_kind out = RetryRunOutcome \<and> retries (decide_retry inp policy)"
    using ids(1) unfolding plan recovery_retry_iff retry out by blast
  moreover have "escalates_for RetryExhausted plan \<longleftrightarrow> fo_kind out = RetryRunOutcome \<and> \<not> retries (decide_retry inp policy)"
    using ids(1) unfolding retry unfold_plan out by (cases "fo_kind out") (auto simp: not_le split: option.split)
  moreover have "escalates_for UnsupportedOutcome plan \<longleftrightarrow> fo_kind out = ClarificationOutcome"
    using allowed unfolding unfold_plan out by (cases "fo_kind out") (auto split: option.split)
  ultimately show ?thesis by blast
qed

lemma plan_application_task_iff:
  "plan_application d = PlanConflictResolution t why \<longleftrightarrow>
     fo_kind (fd_outcome d) = ConflictResolutionOutcome \<and> decision_task d = Some t \<and> why = fo_rationale (fd_outcome d)"
  "plan_application d = PlanIntegrationRepair t why \<longleftrightarrow>
     fo_kind (fd_outcome d) = IntegrationRepairOutcome \<and> decision_task d = Some t \<and> why = fo_rationale (fd_outcome d)"
  unfolding plan_application_def Let_def decision_task_def [symmetric]
  by (cases "fo_kind (fd_outcome d)";
      cases "decision_task d"; auto simp: plan_for_task_def plan_followup_def missing_field_escalation_def split: option.split)+

lemma conflict_plan_iff:
  assumes "ft_kind (fb_trigger (fd_brief d)) = IntegrationConflictTrigger"
  shows "plan_integration_conflict d = QueueResolutionTask t key why \<longleftrightarrow>
     fo_kind (fd_outcome d) = ConflictResolutionOutcome \<and> decision_task d = Some t \<and> key = conflict_dedup_key t \<and>
     why = fo_rationale (fd_outcome d)"
    and "plan_integration_conflict d = RequestRepair t key why \<longleftrightarrow>
     fo_kind (fd_outcome d) = IntegrationRepairOutcome \<and> decision_task d = Some t \<and> key = conflict_dedup_key t \<and>
     why = fo_rationale (fd_outcome d)"
  unfolding plan_integration_conflict_def Let_def conflict_task_plan_def
  using assms by (cases "fo_kind (fd_outcome d)"; cases "decision_task d"; auto)+

text \<open>An accepted answer to an integration conflict keeps its task: the planner never misses a
  field or the kind of trigger, it queues a resolution or asks for a repair for exactly the task
  that the general plan of the feedback turn names, under a key that determines the task, so that
  two answers share a key only if they are about the same task. Of the accepted answers only drain
  and safe mode are not supported: the planner turns them into escalations.\<close>

theorem conflict_plan_keeps_task:
  assumes acc: "validate_outcome now b out p = OutcomeAccepted d"
    and kind: "ft_kind (fb_trigger b) = IntegrationConflictTrigger"
  shows "\<not> conflict_escalates_for ConflictFieldMissing (plan_integration_conflict d) \<and>
    \<not> conflict_escalates_for ConflictKindMismatch (plan_integration_conflict d) \<and>
    (conflict_escalates_for ConflictUnsupported (plan_integration_conflict d) \<longleftrightarrow>
       fo_kind out \<in> {EnterDrainOutcome, EnterSafeModeOutcome}) \<and>
    (plan_integration_conflict d = QueueResolutionTask t key why \<longleftrightarrow>
       plan_application d = PlanConflictResolution t why \<and> key = conflict_dedup_key t) \<and>
    (plan_integration_conflict d = RequestRepair t key why \<longleftrightarrow>
       plan_application d = PlanIntegrationRepair t why \<and> key = conflict_dedup_key t) \<and>
    (conflict_dedup_key t = conflict_dedup_key t' \<longleftrightarrow> t = t')"
proof -
  note d = accepted_decision(1) [OF acc]
  note allowed = accepted_decision(2) [OF acc, unfolded kind]
  note ids = accepted_ids(2) [OF acc]
  have out: "fd_outcome d = out" and trigger: "ft_kind (fb_trigger (fd_brief d)) = IntegrationConflictTrigger"
    by (simp_all add: d kind)
  have "conflict_dedup_key t = conflict_dedup_key t' \<longleftrightarrow> t = t'" by (simp add: conflict_dedup_key_def)
  moreover have "\<not> conflict_escalates_for ConflictFieldMissing (plan_integration_conflict d)"
    "\<not> conflict_escalates_for ConflictKindMismatch (plan_integration_conflict d)"
    "conflict_escalates_for ConflictUnsupported (plan_integration_conflict d) \<longleftrightarrow>
       fo_kind out \<in> {EnterDrainOutcome, EnterSafeModeOutcome}"
    using ids allowed unfolding plan_integration_conflict_def conflict_task_plan_def Let_def out trigger
    by (cases "fo_kind out"; auto)+
  moreover note conflict_plan_iff [OF trigger, of t key why] plan_application_task_iff [of d t why]
  ultimately show ?thesis by blast
qed

subsection \<open>Concrete answers\<close>

definition retry_outcome :: feedback_outcome where
  "retry_outcome = drain_outcome\<lparr>fo_kind := RetryRunOutcome, fo_run_id := Some ''RUN1''\<rparr>"

definition retry_attempt :: "32 word \<Rightarrow> retry_input" where
  "retry_attempt n = \<lparr>ri_run_status = RunFailed, ri_failure_kind = Transient, ri_attempt_count = n, ri_task_status = InProgress,
     ri_review_status = None, ri_permission_state = None, ri_operator_override = None\<rparr>"

definition conflict_trigger :: feedback_trigger where
  "conflict_trigger = drain_trigger\<lparr>ft_kind := IntegrationConflictTrigger\<rparr>"

definition conflict_outcome :: feedback_outcome where
  "conflict_outcome = drain_outcome\<lparr>fo_kind := ConflictResolutionOutcome, fo_task_id := Some ''T1''\<rparr>"

lemma answer_permitted:
  assumes "fo_contract_version out = 1" "fo_turn_id out = synthesize_turn_id t" "fo_trigger_id out = ft_trigger_id t"
    and "fo_rationale out = fo_rationale drain_outcome" "outcome_allowed_for_trigger (ft_kind t) (fo_kind out)" "has_required_fields out"
    and "fo_kind out \<noteq> EnterSafeModeOutcome"
  shows "validate_outcome now (build_brief 0 t empty_context drain_policy) out drain_policy =
     OutcomeAccepted \<lparr>fd_brief = build_brief 0 t empty_context drain_policy, fd_outcome = out, fd_decided_at = now\<rparr>"
proof -
  have "length (utf8_chars (fo_rationale out)) = 17" using assms(4) by (simp add: drain_outcome_def utf8_len_def)
  moreover have "policy_allows drain_policy (fo_kind out)" "fo_kind out \<in> set (fp_allowed_outcomes drain_policy)"
    using assms(7) by (cases "fo_kind out"; simp add: policy_allows_def drain_policy_def all_outcomes_def)+
  moreover have "bc_turn_id empty_context = None" "fp_rationale_max_chars drain_policy = 4000" "fp_rationale_min_chars drain_policy = 8"
    by (simp_all add: empty_context_def drain_policy_def conservative_policy_def)
  ultimately show ?thesis using assms(1,2,3,5,6)
    by (simp add: validate_accepted_iff outcome_permitted_def feedback_contract_version_def)
qed

lemma retry_accepted:
  "validate_outcome 1 drain_brief retry_outcome drain_policy =
     OutcomeAccepted \<lparr>fd_brief = drain_brief, fd_outcome = retry_outcome, fd_decided_at = 1\<rparr>"
  unfolding drain_brief_def
  by (rule answer_permitted) (simp_all add: retry_outcome_def drain_outcome_def drain_trigger_def make_trigger_def has_required_fields_def)

lemma conflict_accepted:
  "validate_outcome 1 (build_brief 0 conflict_trigger empty_context drain_policy) conflict_outcome drain_policy =
     OutcomeAccepted \<lparr>fd_brief = build_brief 0 conflict_trigger empty_context drain_policy, fd_outcome = conflict_outcome,
       fd_decided_at = 1\<rparr>"
  by (rule answer_permitted)
    (simp_all add: conflict_trigger_def conflict_outcome_def drain_outcome_def synthesize_turn_id_def has_required_fields_def)

theorem recovery_respects_retry_policy_witness:
  "is_recovery_retry (plan_worker_failure_recovery \<lparr>fd_brief = drain_brief, fd_outcome = retry_outcome, fd_decided_at = 1\<rparr> 1 default_retry_policy) \<and>
   escalates_for RetryExhausted
     (plan_worker_failure_recovery \<lparr>fd_brief = drain_brief, fd_outcome = retry_outcome, fd_decided_at = 1\<rparr> 2 default_retry_policy)"
proof -
  have kind: "ft_kind (fb_trigger drain_brief) = WorkerFailedTrigger"
    by (simp add: drain_brief_def drain_trigger_def make_trigger_def)
  have live: "retryable_input (retry_attempt n)" "ri_attempt_count (retry_attempt n) = n" for n
    by (simp_all add: retryable_input_def retry_attempt_def is_terminal_def)
  have first: "retries (decide_retry (retry_attempt 1) default_retry_policy)"
    and last: "\<not> retries (decide_retry (retry_attempt 2) default_retry_policy)"
    by (simp_all add: decide_retry_retryable live default_retry_policy_def)
  have retry: "fo_kind retry_outcome = RetryRunOutcome" by (simp add: retry_outcome_def)
  from recovery_respects_retry_policy [OF retry_accepted kind live(1) _ refl, of 1 default_retry_policy] first retry
  have one: "is_recovery_retry (plan_worker_failure_recovery \<lparr>fd_brief = drain_brief, fd_outcome = retry_outcome, fd_decided_at = 1\<rparr> 1 default_retry_policy)"
    by (simp add: live)
  from recovery_respects_retry_policy [OF retry_accepted kind live(1) _ refl, of 2 default_retry_policy] last retry
  show ?thesis using one by (simp add: live)
qed

theorem conflict_plan_keeps_task_witness:
  "plan_integration_conflict \<lparr>fd_brief = build_brief 0 conflict_trigger empty_context drain_policy, fd_outcome = conflict_outcome, fd_decided_at = 1\<rparr> =
     QueueResolutionTask ''T1'' ''integration_conflict:T1'' ''too many failures''"
proof -
  let ?d = "\<lparr>fd_brief = build_brief 0 conflict_trigger empty_context drain_policy, fd_outcome = conflict_outcome, fd_decided_at = 1\<rparr>"
  have "ft_kind (fb_trigger (build_brief 0 conflict_trigger empty_context drain_policy)) = IntegrationConflictTrigger"
    by (simp add: conflict_trigger_def)
  moreover have "plan_application ?d = PlanConflictResolution ''T1'' ''too many failures''"
    by (simp add: plan_application_def plan_for_task_def conflict_outcome_def drain_outcome_def or_else_def)
  moreover have "conflict_dedup_key ''T1'' = ''integration_conflict:T1''" by (simp add: conflict_dedup_key_def)
  ultimately show ?thesis
    using conflict_plan_keeps_task [OF conflict_accepted, of "''T1''" "''integration_conflict:T1''" "''too many failures''"] by simp
qed

end
