(* ===== verification/Runtime_Types.thy ===== *)
theory Runtime_Types
  imports Rust_Strings "HOL-Library.Word"
begin

text \<open>
  \<open>crates/brehon-types/src/runtime.rs\<close>: the events and commands of the runtime side channel, the
  requests and decisions of the policy gate and the types of terminal hosts. Byte vectors are
  strings, generations are 64-bit words, other counters and timestamps natural numbers. Errors
  of ports are their texts (\<open>PortError::Runtime\<close> prints the prefix \<open>Runtime error: \<close>).
\<close>

subsection \<open>Identity\<close>

type_synonym generation = "64 word"

datatype runtime_source =
    SourceMux
  | SourceDaemon
  | SourceEmbeddedTui
  | SourceWeb
  | SourceNativeGui
  | SourceHeadless
  | SourceDetector
  | SourcePolicy
  | SourceOther string

datatype runtime_pane_state = PaneReady | PaneBusy | PaneBlocked | PaneDead | PaneUnknown

datatype runtime_pane_kind =
    SupervisorPane
  | WorkerPane
  | ReviewerPane
  | AdvisorPane
  | ResearchPane
  | DirectorPane
  | ShellPane
  | UnknownPane
  | OtherPane string

record runtime_meta =
  rm_event_id :: "string option"
  rm_session_id :: string
  rm_pane_id :: string
  rm_generation :: generation
  rm_correlation_id :: "string option"
  rm_timestamp_ms :: nat
  rm_source :: runtime_source

definition new_meta :: "string \<Rightarrow> string \<Rightarrow> generation \<Rightarrow> runtime_source \<Rightarrow> nat \<Rightarrow> runtime_meta" where
  "new_meta session pane gen source now =
     \<lparr>rm_event_id = None, rm_session_id = session, rm_pane_id = pane, rm_generation = gen, rm_correlation_id = None,
      rm_timestamp_ms = now, rm_source = source\<rparr>"

definition with_correlation_id :: "string \<Rightarrow> runtime_meta \<Rightarrow> runtime_meta" where
  "with_correlation_id c m = m\<lparr>rm_correlation_id := Some c\<rparr>"

record terminal_capabilities =
  tc_source :: runtime_source
  tc_interactive_pty :: bool
  tc_scrollback :: bool
  tc_structured_activity :: bool
  tc_absolute_resize :: bool
  tc_out_of_process_lifecycle :: bool
  tc_replay :: bool

record pane_spawn_spec =
  sp_session_id :: string
  sp_pane_id :: string
  sp_kind :: runtime_pane_kind
  sp_title :: "string option"
  sp_cwd :: "string option"
  sp_command :: "string list"
  sp_env :: "(string \<times> string) list"
  sp_rows :: nat
  sp_cols :: nat

record pane_handle =
  ph_session_id :: string
  ph_pane_id :: string
  ph_generation :: generation
  ph_source :: runtime_source

subsection \<open>Commands and decisions\<close>

datatype prompt_delivery_mode = AttemptDelivery | EnqueueDelivery | DirectDelivery

datatype runtime_command_kind =
    CmdSendPrompt string string "string option" prompt_delivery_mode
  | CmdBroadcastPrompt string string "string list"
  | CmdTerminalInput string
  | CmdInterrupt string
  | CmdResetPane string
  | CmdRecyclePane string
  | CmdQuarantinePane string
  | CmdSpawnPane runtime_pane_kind "string option" "string option" "string option" "string list" "(string \<times> string) list"
      "nat option" "nat option"
  | CmdResizePane nat nat
  | CmdClosePane string
  | CmdResolveApproval string bool

record runtime_command_target =
  ct_session_id :: string
  ct_pane_id :: "string option"
  ct_generation :: "generation option"

record runtime_command =
  rc_command_id :: string
  rc_target :: runtime_command_target
  rc_issued_at_ms :: nat
  rc_kind :: runtime_command_kind

datatype runtime_operation =
    OpSendPrompt
  | OpBroadcastPrompt
  | OpTerminalInput
  | OpInterrupt
  | OpResetPane
  | OpRecyclePane
  | OpQuarantinePane
  | OpSpawnPane
  | OpResizePane
  | OpClosePane
  | OpResolveApproval
  | OpOther string

datatype runtime_policy_decision =
    PolicyAllow
  | PolicyDeny string
  | PolicyDefer nat string
  | PolicyRequireApproval string

record runtime_policy_context =
  pc_pane_state :: "runtime_pane_state option"
  pc_queued_prompts :: "nat option"
  pc_broadcast_fanout :: "nat option"
  pc_recent_failures :: "nat option"
  pc_rate_limited_until_ms :: "nat option"
  pc_approval_required :: bool

definition default_policy_context :: runtime_policy_context where
  "default_policy_context =
     \<lparr>pc_pane_state = None, pc_queued_prompts = None, pc_broadcast_fanout = None, pc_recent_failures = None,
      pc_rate_limited_until_ms = None, pc_approval_required = False\<rparr>"

datatype runtime_command_status = CommandAccepted | CommandApplied | CommandRejected | CommandDeferred

record runtime_command_result =
  cr_command_id :: string
  cr_status :: runtime_command_status
  cr_message :: "string option"

subsection \<open>Events\<close>

datatype pane_block_kind = PermissionRequestBlock | TerminalPromptBlock | ProviderContextLimitBlock

record pane_block_info =
  bi_kind :: pane_block_kind
  bi_summary :: string
  bi_command_or_tool :: "string option"
  bi_request_id :: "string option"
  bi_task_id :: "string option"
  bi_excerpt :: "string option"

datatype runtime_activity_kind =
    ActivityOutput
  | ActivityToolStarted
  | ActivityToolCompleted
  | ActivityOperationStarted
  | ActivityOperationCompleted
  | ActivityPermissionRequested
  | ActivityPermissionResolved
  | ActivityHeartbeat
  | ActivityOther string

datatype detection_severity = DetectionInfo | DetectionWarning | DetectionBlocking

record detection_event =
  dv_detection_id :: string
  dv_rule_id :: string
  dv_severity :: detection_severity
  dv_message :: string
  dv_span :: "(nat \<times> nat) option"

datatype workflow_action_status = ActionDryRun | ActionRequested | ActionApplied | ActionFailed | ActionSkipped

record workflow_action_event =
  wa_workflow_id :: string
  wa_action_id :: string
  wa_operation :: runtime_operation
  wa_status :: workflow_action_status
  wa_reason :: string
  wa_command_id :: "string option"

datatype runtime_event_kind =
    PaneOutput string "string option"
  | PaneStateChanged "runtime_pane_state option" runtime_pane_state "string option" "pane_block_info option"
  | PromptQueued string nat
  | PromptDelivered string
  | PromptRejected string string
  | AgentTurnStarted "string option" "string option"
  | AgentTurnEnded "string option" "string option"
  | ActivityObserved runtime_activity_kind "string option"
  | DetectionObserved detection_event
  | PolicyDecided string runtime_operation runtime_policy_decision
  | WorkflowActed workflow_action_event
  | PaneSpawned runtime_pane_kind "string option"
  | PaneExited "int option" "string option"

record runtime_event =
  re_meta :: runtime_meta
  re_kind :: runtime_event_kind

definition new_event :: "runtime_meta \<Rightarrow> runtime_event_kind \<Rightarrow> runtime_event" where
  "new_event m k = \<lparr>re_meta = m, re_kind = k\<rparr>"

type_synonym pane_key = "string \<times> string"

definition event_key :: "runtime_event \<Rightarrow> pane_key" where
  "event_key ev = (rm_session_id (re_meta ev), rm_pane_id (re_meta ev))"

definition event_generation :: "runtime_event \<Rightarrow> generation" where
  "event_generation ev = rm_generation (re_meta ev)"

definition runtime_error :: "string \<Rightarrow> string" where
  \<comment> \<open>the text of \<open>PortError::Runtime\<close>\<close>
  "runtime_error message = ''Runtime error: '' @ message"

definition show_generation :: "generation \<Rightarrow> string" where
  "show_generation g = show_nat (unat g)"

subsection \<open>File names\<close>

definition filename_char :: "char \<Rightarrow> bool" where
  "filename_char c \<longleftrightarrow>
     (let v = of_char c :: nat in
      (65 \<le> v \<and> v \<le> 90) \<or> (97 \<le> v \<and> v \<le> 122) \<or> (48 \<le> v \<and> v \<le> 57) \<or> c = CHR ''-'' \<or> c = CHR ''_'')"

lemma event_fields [simp]:
  "re_meta (new_event m k) = m" "re_kind (new_event m k) = k"
  "event_key (new_event (new_meta s p g src now) k) = (s, p)"
  "event_generation (new_event (new_meta s p g src now) k) = g"
  "event_key (new_event (with_correlation_id c m) k) = event_key (new_event m k)"
  "event_generation (new_event (with_correlation_id c m) k) = event_generation (new_event m k)"
  by (simp_all add: new_event_def new_meta_def with_correlation_id_def event_key_def event_generation_def)

lemma event_sources [simp]:
  "rm_source (new_meta s p g src now) = src" "rm_source (with_correlation_id c m) = rm_source m"
  "rm_timestamp_ms (new_meta s p g src now) = now" "rm_timestamp_ms (with_correlation_id c m) = rm_timestamp_ms m"
  by (simp_all add: new_meta_def with_correlation_id_def)

lemma generation_Suc: "g \<noteq> - 1 \<Longrightarrow> g < g + 1" for g :: generation
proof -
  assume "g \<noteq> - 1"
  then have "unat g \<noteq> 2 ^ 64 - 1" using word_unat_eq_iff [of g "- 1"] unsigned_minus_1_eq_mask [where 'a = nat and 'b = 64]
    by (simp add: mask_eq_exp_minus_1)
  moreover have "unat g < 2 ^ 64" using unsigned_less [where 'a = nat and w = g] by simp
  ultimately have "unat g + unat (1 :: generation) < 2 ^ LENGTH(64)" by simp
  then have "unat (g + 1) = unat g + 1" by (simp add: unat_add_lem [THEN iffD1])
  then show ?thesis by (simp add: word_less_nat_alt)
qed

end
