(* ===== verification/Runtime_Policy.thy ===== *)
theory Runtime_Policy
  imports Runtime_Types
begin

text \<open>
  \<open>crates/brehon-policy/src/lib.rs\<close>: the policy gate every runtime command passes before it is
  executed, and the exact conditions under which it lets a command through.
\<close>

record runtime_policy_config =
  rp_max_queued_prompts :: nat
  rp_max_broadcast_fanout :: nat
  rp_max_recent_failures :: nat
  rp_default_defer_ms :: nat

definition default_runtime_policy :: runtime_policy_config where
  "default_runtime_policy =
     \<lparr>rp_max_queued_prompts = 8, rp_max_broadcast_fanout = 16, rp_max_recent_failures = 3, rp_default_defer_ms = 30000\<rparr>"

fun command_requires_unblocked_pane :: "runtime_command_kind \<Rightarrow> bool" where
  "command_requires_unblocked_pane (CmdSendPrompt _ _ _ _) = True"
| "command_requires_unblocked_pane (CmdTerminalInput _) = True"
| "command_requires_unblocked_pane (CmdInterrupt _) = True"
| "command_requires_unblocked_pane _ = False"

fun command_requires_live_pane :: "runtime_command_kind \<Rightarrow> bool" where
  "command_requires_live_pane (CmdSendPrompt _ _ _ _) = True"
| "command_requires_live_pane (CmdTerminalInput _) = True"
| "command_requires_live_pane (CmdInterrupt _) = True"
| "command_requires_live_pane (CmdResizePane _ _) = True"
| "command_requires_live_pane _ = False"

fun evaluate_kind :: "runtime_policy_config \<Rightarrow> runtime_policy_context \<Rightarrow> runtime_command_kind \<Rightarrow> runtime_policy_decision" where
  \<comment> \<open>the final match of \<open>evaluate_sync\<close>\<close>
  "evaluate_kind cfg ctx (CmdSendPrompt _ _ _ delivery) =
     (if pc_pane_state ctx = Some PaneBusy \<and> delivery = DirectDelivery
      then PolicyDeny ''direct prompt delivery to a busy pane is not allowed''
      else (case pc_queued_prompts ctx of
              Some queued \<Rightarrow>
                if rp_max_queued_prompts cfg \<le> queued
                then PolicyDefer (rp_default_defer_ms cfg)
                       (''pane prompt queue is full ('' @ show_nat queued @ ''/'' @ show_nat (rp_max_queued_prompts cfg) @ '')'')
                else PolicyAllow
            | None \<Rightarrow> PolicyAllow))"
| "evaluate_kind cfg ctx (CmdBroadcastPrompt _ _ pane_ids) =
     (let fanout = (case pc_broadcast_fanout ctx of Some n \<Rightarrow> n | None \<Rightarrow> length pane_ids) in
      if rp_max_broadcast_fanout cfg < fanout
      then PolicyDeny (''broadcast fanout '' @ show_nat fanout @ '' exceeds limit '' @ show_nat (rp_max_broadcast_fanout cfg))
      else PolicyAllow)"
| "evaluate_kind cfg ctx _ = PolicyAllow"

definition rate_limited :: "runtime_command \<Rightarrow> runtime_policy_context \<Rightarrow> nat option" where
  \<comment> \<open>the rest of a cooldown that is not over when the command is issued\<close>
  "rate_limited c ctx =
     (case pc_rate_limited_until_ms ctx of
        Some until \<Rightarrow> if rc_issued_at_ms c < until then Some (until - rc_issued_at_ms c) else None
      | None \<Rightarrow> None)"

definition circuit_open :: "runtime_policy_config \<Rightarrow> runtime_policy_context \<Rightarrow> nat option" where
  "circuit_open cfg ctx =
     (case pc_recent_failures ctx of
        Some n \<Rightarrow> if rp_max_recent_failures cfg \<le> n then Some n else None
      | None \<Rightarrow> None)"

definition evaluate_sync :: "runtime_policy_config \<Rightarrow> runtime_command \<Rightarrow> runtime_policy_context \<Rightarrow> runtime_policy_decision" where
  "evaluate_sync cfg c ctx =
     (if pc_approval_required ctx then PolicyRequireApproval ''operation requires explicit approval''
      else case rate_limited c ctx of
        Some rest \<Rightarrow> PolicyDefer rest ''pane is in rate-limit cooldown''
      | None \<Rightarrow>
          if pc_pane_state ctx = Some PaneDead \<and> command_requires_live_pane (rc_kind c)
          then PolicyDeny ''operation requires a live pane''
          else if pc_pane_state ctx = Some PaneBlocked \<and> command_requires_unblocked_pane (rc_kind c)
          then PolicyDeny ''operation requires a pane that is not prompt-blocked''
          else (case circuit_open cfg ctx of
              Some n \<Rightarrow> PolicyDeny (''recent failure count '' @ show_nat n @ '' reached circuit breaker threshold '' @
                          show_nat (rp_max_recent_failures cfg))
            | None \<Rightarrow> evaluate_kind cfg ctx (rc_kind c)))"

definition basic_policy_gate :: "runtime_policy_config \<Rightarrow> runtime_command \<Rightarrow> runtime_policy_context \<Rightarrow> (string, runtime_policy_decision) result" where
  "basic_policy_gate cfg c ctx = Inr (evaluate_sync cfg c ctx)"

subsection \<open>What the gate lets through\<close>

definition pane_accepts :: "runtime_pane_state option \<Rightarrow> runtime_command_kind \<Rightarrow> bool" where
  "pane_accepts st k \<longleftrightarrow>
     (case st of
        Some PaneDead \<Rightarrow> \<not> command_requires_live_pane k
      | Some PaneBlocked \<Rightarrow> \<not> command_requires_unblocked_pane k
      | Some PaneBusy \<Rightarrow> (case k of CmdSendPrompt _ _ _ delivery \<Rightarrow> delivery \<noteq> DirectDelivery | _ \<Rightarrow> True)
      | _ \<Rightarrow> True)"

definition within_limits :: "runtime_policy_config \<Rightarrow> runtime_policy_context \<Rightarrow> runtime_command_kind \<Rightarrow> bool" where
  "within_limits cfg ctx k \<longleftrightarrow>
     (case k of
        CmdSendPrompt _ _ _ _ \<Rightarrow> (case pc_queued_prompts ctx of Some n \<Rightarrow> n < rp_max_queued_prompts cfg | None \<Rightarrow> True)
      | CmdBroadcastPrompt _ _ pane_ids \<Rightarrow>
          (case pc_broadcast_fanout ctx of Some n \<Rightarrow> n | None \<Rightarrow> length pane_ids) \<le> rp_max_broadcast_fanout cfg
      | _ \<Rightarrow> True)"

lemma evaluate_allow_iff:
  "evaluate_sync cfg c ctx = PolicyAllow \<longleftrightarrow>
     \<not> pc_approval_required ctx \<and> rate_limited c ctx = None \<and> circuit_open cfg ctx = None \<and>
     pane_accepts (pc_pane_state ctx) (rc_kind c) \<and> within_limits cfg ctx (rc_kind c)"
  by (cases "rc_kind c")
    (auto simp: evaluate_sync_def pane_accepts_def within_limits_def Let_def
      split: option.split runtime_pane_state.split)

lemma approval_iff: "evaluate_sync cfg c ctx = PolicyRequireApproval why \<Longrightarrow> pc_approval_required ctx"
  by (cases "rc_kind c") (auto simp: evaluate_sync_def Let_def split: option.splits if_splits)

end
