(* ===== verification/Runtime_Daemon.thy ===== *)
theory Runtime_Daemon
  imports Runtime_Policy "HOL-Library.Char_ord" "HOL-Library.List_Lexorder"
begin

text \<open>
  \<open>crates/brehon-daemon/src/lib.rs\<close>: the pane registry rebuilt from runtime events, the routing of
  commands through the policy gate to the command port, and pending approvals with their file.
  The broadcast bus, the audit log and the approval file are kept as what was written to them. The
  gate, the port, identifiers, the clock and the outcomes of file operations are given by an
  environment; \<open>dm_io\<close> counts the questions put to it, so every answer may be different. The port
  may publish events to the daemon, so it works on the daemon's state, which carries the state of
  the host behind it. Operations run one after the other.
\<close>

subsection \<open>State\<close>

record registry_entry =
  pe_session_id :: string
  pe_pane_id :: string
  pe_generation :: generation
  pe_state :: runtime_pane_state
  pe_kind :: runtime_pane_kind
  pe_source :: "runtime_source option"
  pe_title :: "string option"
  pe_last_event_ms :: nat
  pe_last_output_ms :: "nat option"
  pe_exit_code :: "int option"
  pe_exit_reason :: "string option"
  pe_blocked :: "pane_block_info option"

type_synonym registry = "(pane_key, registry_entry) hmap"

record pending_approval =
  pa_approval_id :: string
  pa_requested_at_ms :: nat
  pa_reason :: string
  pa_command :: runtime_command
  pa_context :: runtime_policy_context

record approval_store =
  as_schema_version :: nat
  as_session_id :: "string option"
  as_written_at_ms :: nat
  as_approvals :: "pending_approval list"

record daemon_counters =
  dc_published_events :: nat
  dc_routed_commands :: nat
  dc_rejected_commands :: nat
  dc_deferred_commands :: nat
  dc_approval_required_commands :: nat
  dc_audit_write_errors :: nat

definition zero_counters :: daemon_counters where
  "zero_counters =
     \<lparr>dc_published_events = 0, dc_routed_commands = 0, dc_rejected_commands = 0, dc_deferred_commands = 0,
      dc_approval_required_commands = 0, dc_audit_write_errors = 0\<rparr>"

record 'h daemon =
  dm_registry :: registry
  dm_approvals :: "(string, pending_approval) hmap"
  dm_counters :: daemon_counters
  dm_stopped :: bool
  dm_bus :: "runtime_event list"
  dm_audit :: "runtime_event list"
  dm_store :: "approval_store option"
  dm_io :: nat
  dm_host :: 'h

datatype audit_outcome = AuditWritten | AuditRefused | AuditUnflushed

record 'h daemon_env =
  de_policy_gate :: "(runtime_command \<Rightarrow> runtime_policy_context \<Rightarrow> (string, runtime_policy_decision) result) option"
  de_command_port :: "(runtime_command \<Rightarrow> 'h daemon \<Rightarrow> 'h daemon \<times> (string, runtime_command_result) result) option"
  de_audit_log :: bool
  de_audit :: "nat \<Rightarrow> audit_outcome"
  de_approval_file :: bool
  de_store_session :: "string option"
  de_store_write :: "nat \<Rightarrow> (string, unit) result"
  de_uuid :: "nat \<Rightarrow> string"
  de_clock :: "nat \<Rightarrow> nat"
  de_order :: "(string \<times> pending_approval) hash_order"

definition new_daemon :: "'h \<Rightarrow> 'h daemon" where
  "new_daemon h =
     \<lparr>dm_registry = [], dm_approvals = [], dm_counters = zero_counters, dm_stopped = False, dm_bus = [], dm_audit = [],
      dm_store = None, dm_io = 0, dm_host = h\<rparr>"

definition bump :: "nat \<Rightarrow> nat" where
  "bump n = sat_add u64_max n 1"

definition daemon_shutdown :: "'h daemon \<Rightarrow> 'h daemon" where
  "daemon_shutdown d = d\<lparr>dm_stopped := True\<rparr>"

subsection \<open>The pane registry\<close>

fun registry_event_updates_pane_source :: "runtime_event_kind \<Rightarrow> bool" where
  "registry_event_updates_pane_source (PaneSpawned _ _) = True"
| "registry_event_updates_pane_source (PaneStateChanged _ _ _ _) = True"
| "registry_event_updates_pane_source (PaneExited _ _) = True"
| "registry_event_updates_pane_source (PaneOutput _ _) = True"
| "registry_event_updates_pane_source (AgentTurnStarted _ _) = True"
| "registry_event_updates_pane_source (AgentTurnEnded _ _) = True"
| "registry_event_updates_pane_source (PromptDelivered _) = True"
| "registry_event_updates_pane_source (PromptRejected _ _) = True"
| "registry_event_updates_pane_source (ActivityObserved _ _) = True"
| "registry_event_updates_pane_source _ = False"

definition runtime_source_is_terminal_host :: "runtime_source \<Rightarrow> bool" where
  "runtime_source_is_terminal_host s \<longleftrightarrow> s \<in> {SourceEmbeddedTui, SourceWeb, SourceNativeGui, SourceHeadless}"

fun is_lifecycle_event :: "runtime_event_kind \<Rightarrow> bool" where
  \<comment> \<open>the kinds a shadow of the mux may not overwrite\<close>
  "is_lifecycle_event (PaneSpawned _ _) = True"
| "is_lifecycle_event (PaneStateChanged _ _ _ _) = True"
| "is_lifecycle_event (PaneExited _ _) = True"
| "is_lifecycle_event (PaneOutput _ _) = True"
| "is_lifecycle_event _ = False"

definition registry_event_is_mux_shadow :: "registry_entry \<Rightarrow> runtime_event \<Rightarrow> bool" where
  "registry_event_is_mux_shadow e ev \<longleftrightarrow>
     rm_source (re_meta ev) = SourceMux \<and> event_generation ev \<le> pe_generation e \<and>
     (case pe_source e of Some s \<Rightarrow> runtime_source_is_terminal_host s | None \<Rightarrow> False) \<and> is_lifecycle_event (re_kind ev)"

definition new_entry :: "runtime_event \<Rightarrow> registry_entry" where
  "new_entry ev =
     \<lparr>pe_session_id = rm_session_id (re_meta ev), pe_pane_id = rm_pane_id (re_meta ev), pe_generation = event_generation ev,
      pe_state = PaneUnknown, pe_kind = UnknownPane, pe_source = Some (rm_source (re_meta ev)), pe_title = None,
      pe_last_event_ms = rm_timestamp_ms (re_meta ev), pe_last_output_ms = None, pe_exit_code = None, pe_exit_reason = None,
      pe_blocked = None\<rparr>"

definition turn_state :: "runtime_pane_state \<Rightarrow> registry_entry \<Rightarrow> registry_entry" where
  "turn_state st e = (if pe_state e \<noteq> PaneBlocked \<and> pe_blocked e = None then e\<lparr>pe_state := st, pe_blocked := None\<rparr> else e)"

fun apply_entry_kind :: "nat \<Rightarrow> runtime_event_kind \<Rightarrow> registry_entry \<Rightarrow> registry_entry" where
  "apply_entry_kind now (PaneSpawned kind title) e =
     e\<lparr>pe_kind := kind, pe_title := title, pe_state := PaneReady, pe_exit_code := None, pe_exit_reason := None, pe_blocked := None\<rparr>"
| "apply_entry_kind now (PaneStateChanged _ st _ blocked) e =
     e\<lparr>pe_state := st, pe_blocked := (if st = PaneBlocked then blocked else None)\<rparr>"
| "apply_entry_kind now (PaneExited code reason) e =
     e\<lparr>pe_state := PaneDead, pe_exit_code := code, pe_exit_reason := reason, pe_blocked := None\<rparr>"
| "apply_entry_kind now (PaneOutput _ _) e = e\<lparr>pe_last_output_ms := Some now\<rparr>"
| "apply_entry_kind now (AgentTurnStarted _ _) e = turn_state PaneBusy e"
| "apply_entry_kind now (AgentTurnEnded _ _) e = turn_state PaneReady e"
| "apply_entry_kind now _ e = e"

definition update_entry :: "runtime_event \<Rightarrow> registry_entry \<Rightarrow> registry_entry" where
  "update_entry ev e =
     (if registry_event_is_mux_shadow e ev then e
      else let now = rm_timestamp_ms (re_meta ev);
               e1 = (if pe_generation e < event_generation ev
                     then e\<lparr>pe_state := PaneUnknown, pe_last_output_ms := None, pe_exit_code := None, pe_exit_reason := None,
                            pe_blocked := None\<rparr>
                     else e);
               e2 = e1\<lparr>pe_generation := event_generation ev\<rparr>;
               e3 = (if registry_event_updates_pane_source (re_kind ev) then e2\<lparr>pe_source := Some (rm_source (re_meta ev))\<rparr> else e2)
           in apply_entry_kind now (re_kind ev) (e3\<lparr>pe_last_event_ms := now\<rparr>))"

definition apply_registry_event :: "runtime_event \<Rightarrow> registry \<Rightarrow> registry" where
  "apply_registry_event ev reg =
     (case hm_get reg (event_key ev) of
        Some e \<Rightarrow> if event_generation ev < pe_generation e then reg else hm_insert (event_key ev) (update_entry ev e) reg
      | None \<Rightarrow> hm_insert (event_key ev) (update_entry ev (new_entry ev)) reg)"

subsection \<open>Publishing\<close>

definition append_audit_event :: "'h daemon_env \<Rightarrow> runtime_event \<Rightarrow> 'h daemon \<Rightarrow> 'h daemon" where
  "append_audit_event env ev d =
     (if \<not> de_audit_log env then d
      else let d1 = d\<lparr>dm_io := Suc (dm_io d)\<rparr>;
               counted = (\<lambda>d. d\<lparr>dm_counters := (dm_counters d)\<lparr>dc_audit_write_errors := bump (dc_audit_write_errors (dm_counters d))\<rparr>\<rparr>)
           in case de_audit env (dm_io d) of
                AuditWritten \<Rightarrow> d1\<lparr>dm_audit := dm_audit d1 @ [ev]\<rparr>
              | AuditRefused \<Rightarrow> counted d1
              | AuditUnflushed \<Rightarrow> counted (d1\<lparr>dm_audit := dm_audit d1 @ [ev]\<rparr>))"

definition publish_event :: "'h daemon_env \<Rightarrow> runtime_event \<Rightarrow> 'h daemon \<Rightarrow> 'h daemon \<times> (string, unit) result" where
  "publish_event env ev d =
     (if dm_stopped d then (d, Inl (runtime_error ''runtime daemon is stopped''))
      else let d1 = append_audit_event env ev (d\<lparr>dm_registry := apply_registry_event ev (dm_registry d)\<rparr>)
           in (d1\<lparr>dm_bus := dm_bus d1 @ [ev],
                  dm_counters := (dm_counters d1)\<lparr>dc_published_events := bump (dc_published_events (dm_counters d1))\<rparr>\<rparr>, Inr ()))"

fun publish_batch :: "'h daemon_env \<Rightarrow> runtime_event list \<Rightarrow> 'h daemon \<Rightarrow> 'h daemon \<times> (string, unit) result" where
  "publish_batch env [] d = (d, Inr ())"
| "publish_batch env (ev # evs) d =
     (case publish_event env ev d of
        (d1, Inl e) \<Rightarrow> (d1, Inl e)
      | (d1, Inr _) \<Rightarrow> publish_batch env evs d1)"

fun runtime_operation_for_command :: "runtime_command_kind \<Rightarrow> runtime_operation" where
  "runtime_operation_for_command (CmdSendPrompt _ _ _ _) = OpSendPrompt"
| "runtime_operation_for_command (CmdBroadcastPrompt _ _ _) = OpBroadcastPrompt"
| "runtime_operation_for_command (CmdTerminalInput _) = OpTerminalInput"
| "runtime_operation_for_command (CmdInterrupt _) = OpInterrupt"
| "runtime_operation_for_command (CmdResetPane _) = OpResetPane"
| "runtime_operation_for_command (CmdRecyclePane _) = OpRecyclePane"
| "runtime_operation_for_command (CmdQuarantinePane _) = OpQuarantinePane"
| "runtime_operation_for_command (CmdSpawnPane _ _ _ _ _ _ _ _) = OpSpawnPane"
| "runtime_operation_for_command (CmdResizePane _ _) = OpResizePane"
| "runtime_operation_for_command (CmdClosePane _) = OpClosePane"
| "runtime_operation_for_command (CmdResolveApproval _ _) = OpResolveApproval"

definition policy_decision_event :: "nat \<Rightarrow> string \<Rightarrow> runtime_command \<Rightarrow> runtime_policy_decision \<Rightarrow> runtime_event" where
  "policy_decision_event now uuid c decision =
     (let target = rc_target c;
          pane = (case ct_pane_id target of Some p \<Rightarrow> p | None \<Rightarrow> ''runtime'');
          gen = (case ct_generation target of Some g \<Rightarrow> g | None \<Rightarrow> 0)
      in new_event (with_correlation_id (rc_command_id c) (new_meta (ct_session_id target) pane gen SourcePolicy now))
           (PolicyDecided (''decision-'' @ uuid) (runtime_operation_for_command (rc_kind c)) decision))"

definition publish_policy_decision ::
    "'h daemon_env \<Rightarrow> runtime_command \<Rightarrow> runtime_policy_decision \<Rightarrow> 'h daemon \<Rightarrow> 'h daemon \<times> (string, unit) result" where
  "publish_policy_decision env c decision d =
     publish_event env (policy_decision_event (de_clock env (dm_io d)) (de_uuid env (dm_io d)) c decision) (d\<lparr>dm_io := Suc (dm_io d)\<rparr>)"

subsection \<open>Deciding\<close>

definition registry_entry_for_command :: "runtime_command \<Rightarrow> 'h daemon \<Rightarrow> registry_entry option" where
  "registry_entry_for_command c d =
     (case ct_pane_id (rc_target c) of
        None \<Rightarrow> None
      | Some pane \<Rightarrow> hm_get (dm_registry d) (ct_session_id (rc_target c), pane))"

definition registry_generation_decision :: "runtime_command \<Rightarrow> 'h daemon \<Rightarrow> runtime_policy_decision option" where
  "registry_generation_decision c d =
     (case ct_generation (rc_target c) of
        None \<Rightarrow> None
      | Some requested \<Rightarrow>
          (case registry_entry_for_command c d of
             None \<Rightarrow> None
           | Some e \<Rightarrow>
               if requested = pe_generation e then None
               else Some (PolicyDeny (''pane generation mismatch: requested '' @ show_generation requested @ '', current '' @ show_generation (pe_generation e)))))"

definition hydrate_policy_context :: "runtime_command \<Rightarrow> runtime_policy_context \<Rightarrow> 'h daemon \<Rightarrow> runtime_policy_context" where
  "hydrate_policy_context c ctx d =
     (case pc_pane_state ctx of
        Some _ \<Rightarrow> ctx
      | None \<Rightarrow>
          (case registry_entry_for_command c d of
             Some e \<Rightarrow> ctx\<lparr>pc_pane_state := Some (pe_state e)\<rparr>
           | None \<Rightarrow> ctx))"

definition evaluate_policy :: "'h daemon_env \<Rightarrow> runtime_command \<Rightarrow> runtime_policy_context \<Rightarrow> runtime_policy_decision" where
  "evaluate_policy env c ctx =
     (case de_policy_gate env of
        None \<Rightarrow> PolicyAllow
      | Some gate \<Rightarrow>
          (case gate c ctx of
             Inr decision \<Rightarrow> decision
           | Inl e \<Rightarrow> PolicyDeny (''policy evaluation failed: '' @ e)))"

definition decide_command :: "'h daemon_env \<Rightarrow> runtime_command \<Rightarrow> runtime_policy_context \<Rightarrow> 'h daemon \<Rightarrow> runtime_policy_decision" where
  "decide_command env c ctx d =
     (case registry_generation_decision c d of
        Some decision \<Rightarrow> decision
      | None \<Rightarrow> evaluate_policy env c ctx)"

subsection \<open>Approvals\<close>

definition count_rejected :: "'h daemon \<Rightarrow> 'h daemon" where
  "count_rejected d = d\<lparr>dm_counters := (dm_counters d)\<lparr>dc_rejected_commands := bump (dc_rejected_commands (dm_counters d))\<rparr>\<rparr>"

definition count_deferred :: "'h daemon \<Rightarrow> 'h daemon" where
  "count_deferred d = d\<lparr>dm_counters := (dm_counters d)\<lparr>dc_deferred_commands := bump (dc_deferred_commands (dm_counters d))\<rparr>\<rparr>"

definition count_approval_required :: "'h daemon \<Rightarrow> 'h daemon" where
  "count_approval_required d =
     d\<lparr>dm_counters := (dm_counters d)\<lparr>dc_approval_required_commands := bump (dc_approval_required_commands (dm_counters d))\<rparr>\<rparr>"

definition approval_schema_version :: nat where
  "approval_schema_version = 1"

definition approval_registry_snapshot :: "'h daemon_env \<Rightarrow> 'h daemon \<Rightarrow> pending_approval list" where
  "approval_registry_snapshot env d = sort_key pa_approval_id (hm_values (de_order env) (dm_approvals d))"

definition persist_approval_store :: "'h daemon_env \<Rightarrow> 'h daemon \<Rightarrow> 'h daemon \<times> (string, unit) result" where
  "persist_approval_store env d =
     (if \<not> de_approval_file env then (d, Inr ())
      else let d1 = d\<lparr>dm_io := Suc (dm_io d)\<rparr>;
               store = \<lparr>as_schema_version = approval_schema_version, as_session_id = de_store_session env,
                        as_written_at_ms = de_clock env (dm_io d), as_approvals = approval_registry_snapshot env d\<rparr>
           in case de_store_write env (dm_io d) of
                Inl e \<Rightarrow> (d1, Inl e)
              | Inr _ \<Rightarrow> (d1\<lparr>dm_store := Some store\<rparr>, Inr ()))"

definition approval_id :: "'h daemon_env \<Rightarrow> nat \<Rightarrow> string" where
  "approval_id env n = ''approval-'' @ de_uuid env n"

definition store_pending_approval ::
    "'h daemon_env \<Rightarrow> runtime_command \<Rightarrow> runtime_policy_context \<Rightarrow> string \<Rightarrow> 'h daemon \<Rightarrow> 'h daemon \<times> (string, string) result" where
  "store_pending_approval env c ctx reason d =
     (let aid = approval_id env (dm_io d);
          entry = \<lparr>pa_approval_id = aid, pa_requested_at_ms = de_clock env (dm_io d), pa_reason = reason, pa_command = c, pa_context = ctx\<rparr>;
          d1 = d\<lparr>dm_io := Suc (dm_io d), dm_approvals := hm_insert aid entry (dm_approvals d)\<rparr>
      in case persist_approval_store env d1 of
           (d2, Inl e) \<Rightarrow> (d2\<lparr>dm_approvals := hm_remove aid (dm_approvals d2)\<rparr>, Inl e)
         | (d2, Inr _) \<Rightarrow> (d2, Inr aid))"

definition command_result :: "string \<Rightarrow> runtime_command_status \<Rightarrow> string \<Rightarrow> runtime_command_result" where
  "command_result cid status message = \<lparr>cr_command_id = cid, cr_status = status, cr_message = Some message\<rparr>"

definition execute_command ::
    "'h daemon_env \<Rightarrow> string \<Rightarrow> runtime_command \<Rightarrow> 'h daemon \<Rightarrow> 'h daemon \<times> runtime_command list \<times> (string, runtime_command_result) result" where
  \<comment> \<open>the configured port, or acceptance without one; the commands given to the port\<close>
  "execute_command env prefix c d =
     (case de_command_port env of
        Some port \<Rightarrow> (case port c d of (d', r) \<Rightarrow> (d', [c], r))
      | None \<Rightarrow> (d, [], Inr (command_result (rc_command_id c) CommandAccepted (prefix @ ''command accepted by daemon sidecar; no command port configured''))))"

definition quoted :: "string \<Rightarrow> string" where
  "quoted s = [CHR 0x27] @ s @ [CHR 0x27]"

definition resolved_command ::
    "'h daemon_env \<Rightarrow> string \<Rightarrow> string \<Rightarrow> pending_approval \<Rightarrow> 'h daemon \<Rightarrow> 'h daemon \<times> runtime_command list \<times> (string, runtime_command_result) result" where
  \<comment> \<open>the part of \<open>resolve_approval\<close> after a granted approval has been taken from the store\<close>
  "resolved_command env cid aid p d =
     (let c = pa_command p;
          ctx = (hydrate_policy_context c (pa_context p) d)\<lparr>pc_approval_required := False\<rparr>;
          decision = decide_command env c ctx d;
          granted = ''approval '' @ quoted aid @ '' was granted, but policy ''
      in case publish_policy_decision env c decision d of
           (d1, Inl e) \<Rightarrow> (d1, [], Inl e)
         | (d1, Inr _) \<Rightarrow>
             (case decision of
                PolicyAllow \<Rightarrow>
                  (case execute_command env ''approved '' c d1 of
                     (d2, sent, Inl e) \<Rightarrow> (d2, sent, Inl e)
                   | (d2, sent, Inr r) \<Rightarrow>
                       (d2, sent, Inr (command_result cid (cr_status r)
                          (''approval '' @ quoted aid @ '' applied to '' @ cr_command_id r @ '': '' @
                           (case cr_message r of Some m \<Rightarrow> m | None \<Rightarrow> ''no command message'')))))
              | PolicyDeny why \<Rightarrow> (count_rejected d1, [], Inr (command_result cid CommandRejected (granted @ ''rejected the command: '' @ why)))
              | PolicyDefer ms why \<Rightarrow>
                  (count_deferred d1, [], Inr (command_result cid CommandDeferred
                     (granted @ ''deferred the command: '' @ why @ ''; retry after '' @ show_nat ms @ ''ms'')))
              | PolicyRequireApproval why \<Rightarrow>
                  (case store_pending_approval env c ctx why (count_approval_required d1) of
                     (d2, Inl e) \<Rightarrow> (d2, [], Inl e)
                   | (d2, Inr new_id) \<Rightarrow>
                       (d2, [], Inr (command_result cid CommandDeferred
                          (granted @ ''requested approval again ('' @ new_id @ ''): '' @ why))))))"

definition resolve_approval ::
    "'h daemon_env \<Rightarrow> string \<Rightarrow> string \<Rightarrow> bool \<Rightarrow> 'h daemon \<Rightarrow> 'h daemon \<times> runtime_command list \<times> (string, runtime_command_result) result" where
  "resolve_approval env cid aid approved d =
     (case hm_get (dm_approvals d) aid of
        None \<Rightarrow> (count_rejected d, [], Inr (command_result cid CommandRejected (''approval '' @ quoted aid @ '' was not found'')))
      | Some p \<Rightarrow>
          (case persist_approval_store env (d\<lparr>dm_approvals := hm_remove aid (dm_approvals d)\<rparr>) of
             (d1, Inl e) \<Rightarrow> (d1\<lparr>dm_approvals := hm_insert aid p (dm_approvals d1)\<rparr>, [], Inl e)
           | (d1, Inr _) \<Rightarrow>
               if approved then resolved_command env cid aid p d1
               else (case publish_policy_decision env (pa_command p) (PolicyDeny (''operator denied approval '' @ quoted aid)) (count_rejected d1) of
                       (d2, Inl e) \<Rightarrow> (d2, [], Inl e)
                     | (d2, Inr _) \<Rightarrow> (d2, [], Inr (command_result cid CommandRejected (''approval '' @ quoted aid @ '' denied''))))))"

subsection \<open>Routing\<close>

definition carry_out ::
    "'h daemon_env \<Rightarrow> runtime_command \<Rightarrow> runtime_policy_context \<Rightarrow> runtime_policy_decision \<Rightarrow> 'h daemon \<Rightarrow> 'h daemon \<times> runtime_command list \<times> (string, runtime_command_result) result" where
  \<comment> \<open>the final match of \<open>route_command\<close>\<close>
  "carry_out env c ctx decision d =
     (case decision of
        PolicyAllow \<Rightarrow> execute_command env [] c d
      | PolicyDeny why \<Rightarrow> (count_rejected d, [], Inr (command_result (rc_command_id c) CommandRejected why))
      | PolicyDefer ms why \<Rightarrow>
          (count_deferred d, [], Inr (command_result (rc_command_id c) CommandDeferred (why @ ''; retry after '' @ show_nat ms @ ''ms'')))
      | PolicyRequireApproval why \<Rightarrow>
          (case store_pending_approval env c ctx why (count_approval_required d) of
             (d1, Inl e) \<Rightarrow> (d1, [], Inl e)
           | (d1, Inr aid) \<Rightarrow>
               (d1, [], Inr (command_result (rc_command_id c) CommandDeferred (''approval required ('' @ aid @ ''): '' @ why)))))"

definition route_command ::
    "'h daemon_env \<Rightarrow> runtime_command \<Rightarrow> runtime_policy_context \<Rightarrow> 'h daemon \<Rightarrow> 'h daemon \<times> runtime_command list \<times> (string, runtime_command_result) result" where
  "route_command env c ctx d =
     (if dm_stopped d then (d, [], Inl (runtime_error ''runtime daemon is stopped''))
      else let d0 = d\<lparr>dm_counters := (dm_counters d)\<lparr>dc_routed_commands := bump (dc_routed_commands (dm_counters d))\<rparr>\<rparr> in
        case rc_kind c of
          CmdResolveApproval aid approved \<Rightarrow>
            (case publish_policy_decision env c PolicyAllow d0 of
               (d1, Inl e) \<Rightarrow> (d1, [], Inl e)
             | (d1, Inr _) \<Rightarrow> resolve_approval env (rc_command_id c) aid approved d1)
        | _ \<Rightarrow>
            (let context = hydrate_policy_context c ctx d0; decision = decide_command env c context d0
             in case publish_policy_decision env c decision d0 of
                  (d1, Inl e) \<Rightarrow> (d1, [], Inl e)
                | (d1, Inr _) \<Rightarrow> carry_out env c context decision d1))"

subsection \<open>Restoring approvals\<close>

datatype approval_file = ApprovalMissing | ApprovalUnreadable string | ApprovalUndecodable string | ApprovalDecoded approval_store

definition approval_matches_session :: "pending_approval \<Rightarrow> string option \<Rightarrow> bool" where
  "approval_matches_session p session =
     (case session of None \<Rightarrow> True | Some s \<Rightarrow> ct_session_id (rc_target (pa_command p)) = s)"

definition load_entries :: "string option \<Rightarrow> pending_approval list \<Rightarrow> (string, pending_approval) hmap \<times> nat" where
  \<comment> \<open>the approvals of the session, and how many belong to others\<close>
  "load_entries session ps =
     fold (\<lambda>p (m, ignored). if approval_matches_session p session then (hm_insert (pa_approval_id p) p m, ignored)
             else (m, ignored + 1)) ps ([], 0)"

definition load_persisted_approvals ::
    "'h daemon_env \<Rightarrow> string \<Rightarrow> approval_file \<Rightarrow> 'h daemon \<Rightarrow> 'h daemon \<times> (string, nat \<times> nat) result" where
  \<comment> \<open>the name of the file for messages, its contents; loaded and ignored approvals\<close>
  "load_persisted_approvals env path file d =
     (if \<not> de_approval_file env then (d, Inr (0, 0))
      else case file of
        ApprovalMissing \<Rightarrow>
          (case persist_approval_store env d of (d1, Inl e) \<Rightarrow> (d1, Inl e) | (d1, Inr _) \<Rightarrow> (d1, Inr (0, 0)))
      | ApprovalUnreadable e \<Rightarrow> (d, Inl (runtime_error (''failed to read pending approval store '' @ path @ '': '' @ e)))
      | ApprovalUndecodable e \<Rightarrow> (d, Inl (runtime_error (''failed to decode pending approval store '' @ path @ '': '' @ e)))
      | ApprovalDecoded store \<Rightarrow>
          if as_schema_version store \<noteq> approval_schema_version
          then (d, Inl (runtime_error (''unsupported pending approval store schema '' @ show_nat (as_schema_version store) @ '' in '' @ path)))
          else if de_store_session env \<noteq> None \<and> as_session_id store \<noteq> de_store_session env
          then (case persist_approval_store env (d\<lparr>dm_approvals := []\<rparr>) of
                  (d1, Inl e) \<Rightarrow> (d1, Inl e)
                | (d1, Inr _) \<Rightarrow> (d1, Inr (0, length (as_approvals store))))
          else (case load_entries (de_store_session env) (as_approvals store) of
                  (m, ignored) \<Rightarrow>
                    (if ignored = 0 then (d\<lparr>dm_approvals := m\<rparr>, Inr (length m, 0))
                     else (case persist_approval_store env (d\<lparr>dm_approvals := m\<rparr>) of
                             (d1, Inl e) \<Rightarrow> (d1, Inl e)
                           | (d1, Inr _) \<Rightarrow> (d1, Inr (length m, ignored))))))"

definition start_daemon :: "'h daemon_env \<Rightarrow> string \<Rightarrow> approval_file \<Rightarrow> 'h \<Rightarrow> 'h daemon \<times> (string, nat \<times> nat) result" where
  \<comment> \<open>\<open>new_with_persisted_approvals\<close>; what the file holds is on disk before the daemon starts\<close>
  "start_daemon env path file h =
     load_persisted_approvals env path file
       ((new_daemon h)\<lparr>dm_store := (case file of ApprovalDecoded store \<Rightarrow> Some store | _ \<Rightarrow> None)\<rparr>)"

subsection \<open>Replaying the audit log\<close>

fun read_audit_lines ::
    "(string \<Rightarrow> (string, runtime_event) result) \<Rightarrow> string \<Rightarrow> nat \<Rightarrow> string list \<Rightarrow> (string, runtime_event list) result" where
  "read_audit_lines decode path n [] = Inr []"
| "read_audit_lines decode path n (line # ls) =
     (if trim line = [] then read_audit_lines decode path (Suc n) ls
      else case decode line of
        Inl e \<Rightarrow> Inl (runtime_error (''failed to decode runtime audit log '' @ path @ '' line '' @ show_nat (Suc n) @ '': '' @ e))
      | Inr ev \<Rightarrow>
          (case read_audit_lines decode path (Suc n) ls of
             Inl e \<Rightarrow> Inl e
           | Inr evs \<Rightarrow> Inr (ev # evs)))"

definition replay_audit_log ::
    "'h daemon_env \<Rightarrow> (string \<Rightarrow> (string, runtime_event) result) \<Rightarrow> string \<Rightarrow> string list \<Rightarrow> 'h daemon \<Rightarrow> 'h daemon \<times> (string, nat) result" where
  "replay_audit_log env decode path ls d =
     (case read_audit_lines decode path 0 ls of
        Inl e \<Rightarrow> (d, Inl e)
      | Inr evs \<Rightarrow>
          (case publish_batch env evs d of
             (d1, Inl e) \<Rightarrow> (d1, Inl e)
           | (d1, Inr _) \<Rightarrow> (d1, Inr (length evs))))"

end
