(* ===== verification/Runtime_Daemon_Props.thy ===== *)
theory Runtime_Daemon_Props
  imports Runtime_Daemon
begin

text \<open>
  What the runtime daemon guarantees: only commands that pass the registry and the gate reach the
  port, the audit log determines the registry, approvals survive a restart and are used once; and
  two ways in which its own bookkeeping defeats the checks.
\<close>

subsection \<open>Publishing\<close>

lemma append_audit_fields [simp]:
  "dm_registry (append_audit_event env ev d) = dm_registry d" "dm_approvals (append_audit_event env ev d) = dm_approvals d"
  "dm_stopped (append_audit_event env ev d) = dm_stopped d" "dm_bus (append_audit_event env ev d) = dm_bus d"
  "dm_store (append_audit_event env ev d) = dm_store d" "dm_host (append_audit_event env ev d) = dm_host d"
  "dm_io d \<le> dm_io (append_audit_event env ev d)"
  by (simp_all add: append_audit_event_def Let_def split: audit_outcome.split)

definition audit_faithful :: "'h daemon_env \<Rightarrow> bool" where
  \<comment> \<open>there is an audit log and every line gets into it\<close>
  "audit_faithful env \<longleftrightarrow> de_audit_log env \<and> (\<forall>n. de_audit env n \<noteq> AuditRefused)"

lemma append_audit_faithful: "audit_faithful env \<Longrightarrow> dm_audit (append_audit_event env ev d) = dm_audit d @ [ev]"
  unfolding audit_faithful_def append_audit_event_def Let_def by (cases "de_audit env (dm_io d)") auto

lemma publish_running:
  assumes "publish_event env ev d = (d', r)" "\<not> dm_stopped d"
  shows "r = Inr ()" "dm_registry d' = apply_registry_event ev (dm_registry d)" "dm_bus d' = dm_bus d @ [ev]"
    "dm_approvals d' = dm_approvals d" "dm_store d' = dm_store d" "dm_host d' = dm_host d" "\<not> dm_stopped d'" "dm_io d \<le> dm_io d'"
    "audit_faithful env \<Longrightarrow> dm_audit d' = dm_audit d @ [ev]"
proof -
  note facts = append_audit_fields(7) [of "d\<lparr>dm_registry := apply_registry_event ev (dm_registry d)\<rparr>" env ev]
    append_audit_faithful [of env ev "d\<lparr>dm_registry := apply_registry_event ev (dm_registry d)\<rparr>"]
  show "r = Inr ()" "dm_registry d' = apply_registry_event ev (dm_registry d)" "dm_bus d' = dm_bus d @ [ev]"
    "dm_approvals d' = dm_approvals d" "dm_store d' = dm_store d" "dm_host d' = dm_host d" "\<not> dm_stopped d'" "dm_io d \<le> dm_io d'"
    "audit_faithful env \<Longrightarrow> dm_audit d' = dm_audit d @ [ev]"
    using assms facts by (auto simp: publish_event_def Let_def)
qed

lemma publish_stopped: "dm_stopped d \<Longrightarrow> publish_event env ev d = (d, Inl (runtime_error ''runtime daemon is stopped''))"
  by (simp add: publish_event_def)

text \<open>From one state to a later one: the events published in between are on the bus, in the registry
  and, if it is faithful, in the audit log.\<close>

definition advances :: "'h daemon_env \<Rightarrow> 'h daemon \<Rightarrow> 'h daemon \<Rightarrow> bool" where
  "advances env d d' \<longleftrightarrow>
     dm_io d \<le> dm_io d' \<and>
     (\<exists>evs. dm_bus d' = dm_bus d @ evs \<and> dm_registry d' = fold apply_registry_event evs (dm_registry d) \<and>
        (audit_faithful env \<longrightarrow> dm_audit d' = dm_audit d @ evs))"

definition same_approvals :: "'h daemon \<Rightarrow> 'h daemon \<Rightarrow> bool" where
  "same_approvals d d' \<longleftrightarrow> dm_approvals d' = dm_approvals d \<and> dm_store d' = dm_store d \<and> dm_stopped d' = dm_stopped d"

lemma advances_refl [simp]: "advances env d d"
  by (simp add: advances_def)

lemma advances_trans: "advances env d d' \<Longrightarrow> advances env d' d'' \<Longrightarrow> advances env d d''"
  unfolding advances_def by (elim conjE exE) (intro conjI exI, auto)

lemma same_approvals_refl [simp]: "same_approvals d d"
  by (simp add: same_approvals_def)

lemma same_approvals_trans: "same_approvals d d' \<Longrightarrow> same_approvals d' d'' \<Longrightarrow> same_approvals d d''"
  by (simp add: same_approvals_def)

lemma advances_quiet:
  "dm_io d \<le> dm_io d' \<Longrightarrow> dm_bus d' = dm_bus d \<Longrightarrow> dm_registry d' = dm_registry d \<Longrightarrow> dm_audit d' = dm_audit d \<Longrightarrow> advances env d d'"
  by (simp add: advances_def)

lemma publish_advances:
  assumes "publish_event env ev d = (d', r)"
  shows "advances env d d' \<and> same_approvals d d'"
proof (cases "dm_stopped d")
  case True
  with assms show ?thesis by (simp add: publish_stopped)
next
  case False
  note pub = publish_running [OF assms False]
  have "advances env d d'"
    unfolding advances_def using pub(2,3,8,9) by (intro conjI exI [of _ "[ev]"]) auto
  with pub False show ?thesis by (simp add: same_approvals_def)
qed

lemma publish_decision_advances:
  assumes "publish_policy_decision env c decision d = (d', r)"
  shows "advances env d d' \<and> same_approvals d d'"
proof -
  let ?d = "d\<lparr>dm_io := Suc (dm_io d)\<rparr>"
  from publish_advances [OF assms [unfolded publish_policy_decision_def]] have "advances env ?d d'" "same_approvals ?d d'" by blast+
  moreover have "advances env d ?d" by (rule advances_quiet) simp_all
  ultimately show ?thesis using advances_trans by (auto simp: same_approvals_def)
qed

lemma count_advances [simp]:
  "advances env d (count_rejected d)" "advances env d (count_deferred d)" "advances env d (count_approval_required d)"
  "same_approvals d (count_rejected d)" "same_approvals d (count_deferred d)" "same_approvals d (count_approval_required d)"
  by (simp_all add: advances_def count_rejected_def count_deferred_def count_approval_required_def same_approvals_def)

subsection \<open>Ports that work by publishing\<close>

inductive publishes :: "'h daemon_env \<Rightarrow> 'h daemon \<Rightarrow> 'h daemon \<Rightarrow> bool" for env d where
  publishes_none: "publishes env d d"
| publishes_event: "publishes env d d1 \<Longrightarrow> publish_event env ev d1 = (d2, r) \<Longrightarrow> publishes env d d2"
| publishes_host: "publishes env d d1 \<Longrightarrow> publishes env d (d1\<lparr>dm_host := h\<rparr>)"

definition port_publishes :: "'h daemon_env \<Rightarrow> bool" where
  \<comment> \<open>the port touches the daemon only through its event sink\<close>
  "port_publishes env \<longleftrightarrow> (\<forall>port c d. de_command_port env = Some port \<longrightarrow> publishes env d (fst (port c d)))"

lemma publishes_advances: "publishes env d d' \<Longrightarrow> advances env d d' \<and> same_approvals d d'"
proof (induction rule: publishes.induct)
  case (publishes_event d1 ev d2 r)
  from publish_advances [OF publishes_event.hyps(2)] publishes_event.IH show ?case
    using advances_trans same_approvals_trans by blast
next
  case (publishes_host d1 h)
  have "advances env d1 (d1\<lparr>dm_host := h\<rparr>)" "same_approvals d1 (d1\<lparr>dm_host := h\<rparr>)"
    by (auto intro: advances_quiet simp: same_approvals_def)
  with publishes_host.IH show ?case using advances_trans same_approvals_trans by blast
qed simp_all

lemma execute_advances:
  assumes "execute_command env prefix c d = (d', sent, r)" "port_publishes env"
  shows "advances env d d' \<and> same_approvals d d'"
proof (cases "de_command_port env")
  case None
  with assms(1) show ?thesis by (simp add: execute_command_def)
next
  case (Some port)
  obtain d1 r1 where one: "port c d = (d1, r1)" by fastforce
  with Some assms(2) have "publishes env d d1" unfolding port_publishes_def by (metis fst_conv)
  with publishes_advances Some one assms(1) show ?thesis by (auto simp: execute_command_def)
qed

subsection \<open>The approval file\<close>

definition keys_ok :: "'h daemon \<Rightarrow> bool" where
  "keys_ok d \<longleftrightarrow> hm_wf (dm_approvals d) \<and> (\<forall>aid p. hm_get (dm_approvals d) aid = Some p \<longrightarrow> pa_approval_id p = aid)"

definition session_approvals :: "'h daemon_env \<Rightarrow> 'h daemon \<Rightarrow> string \<Rightarrow> pending_approval option" where
  \<comment> \<open>the pending approvals a restart under the same session keeps\<close>
  "session_approvals env d aid =
     (case hm_get (dm_approvals d) aid of
        Some p \<Rightarrow> if approval_matches_session p (de_store_session env) then Some p else None
      | None \<Rightarrow> None)"

definition store_matches :: "'h daemon_env \<Rightarrow> 'h daemon \<Rightarrow> bool" where
  "store_matches env d \<longleftrightarrow>
     (\<exists>store. dm_store d = Some store \<and> as_schema_version store = approval_schema_version \<and>
        (de_store_session env \<noteq> None \<longrightarrow> as_session_id store = de_store_session env) \<and>
        hm_get (fst (load_entries (de_store_session env) (as_approvals store))) = session_approvals env d)"

lemma load_entries_snoc:
  "load_entries session (ps @ [p]) =
     (case load_entries session ps of
        (m, ignored) \<Rightarrow> if approval_matches_session p session then (hm_insert (pa_approval_id p) p m, ignored) else (m, ignored + 1))"
  by (simp add: load_entries_def)

lemma load_entries_wf: "hm_wf (fst (load_entries session ps))"
  by (induction ps rule: rev_induct) (auto simp: load_entries_snoc load_entries_def split: prod.splits)

lemma load_entries_ids: "hm_get (fst (load_entries session ps)) aid = Some p \<Longrightarrow> pa_approval_id p = aid \<and> p \<in> set ps"
  by (induction ps rule: rev_induct) (auto simp: load_entries_snoc load_entries_def split: prod.splits if_splits)

lemma load_entries_get:
  "distinct (map pa_approval_id ps) \<Longrightarrow>
     hm_get (fst (load_entries session ps)) aid = Some p \<longleftrightarrow>
       p \<in> set ps \<and> pa_approval_id p = aid \<and> approval_matches_session p session"
proof (induction ps rule: rev_induct)
  case (snoc q ps)
  obtain m ignored where load: "load_entries session ps = (m, ignored)" by fastforce
  from snoc.prems have fresh: "\<forall>x \<in> set ps. pa_approval_id x \<noteq> pa_approval_id q" by (force simp: image_iff)
  with snoc load show ?case by (auto simp: load_entries_snoc split: if_splits)
qed (simp add: load_entries_def)

lemma load_entries_none_ignored:
  "snd (load_entries session ps) = 0 \<longleftrightarrow> (\<forall>p \<in> set ps. approval_matches_session p session)"
  by (induction ps rule: rev_induct) (auto simp: load_entries_snoc load_entries_def split: prod.splits)

lemma snapshot_ids: "keys_ok d \<Longrightarrow> distinct (map pa_approval_id (approval_registry_snapshot env d))"
proof -
  assume ok: "keys_ok d"
  then have ids: "map pa_approval_id (map snd (dm_approvals d)) = map fst (dm_approvals d)"
    by (auto simp: keys_ok_def hm_get_iff)
  have "distinct (map pa_approval_id (map snd (dm_approvals d)))" unfolding ids using ok by (simp add: keys_ok_def hm_wf_def)
  moreover have "mset (map pa_approval_id (approval_registry_snapshot env d)) = mset (map pa_approval_id (map snd (dm_approvals d)))"
    by (simp add: approval_registry_snapshot_def multiset.map_comp)
  ultimately show ?thesis by (metis mset_eq_imp_distinct_iff)
qed

lemma set_snapshot: "keys_ok d \<Longrightarrow> p \<in> set (approval_registry_snapshot env d) \<longleftrightarrow> hm_get (dm_approvals d) (pa_approval_id p) = Some p"
  unfolding approval_registry_snapshot_def keys_ok_def by (auto simp: set_hm_values)

lemma persist_law:
  assumes "persist_approval_store env d = (d', r)"
  shows "advances env d d'" "dm_approvals d' = dm_approvals d" "dm_stopped d' = dm_stopped d" "\<not> is_ok r \<Longrightarrow> dm_store d' = dm_store d"
    "is_ok r \<Longrightarrow> keys_ok d \<Longrightarrow> de_approval_file env \<Longrightarrow> store_matches env d'"
proof -
  show "advances env d d'" "dm_approvals d' = dm_approvals d" "dm_stopped d' = dm_stopped d"
    using assms by (auto simp: persist_approval_store_def advances_def Let_def split: if_splits sum.splits)
  show "dm_store d' = dm_store d" if "\<not> is_ok r"
    using assms that by (cases r) (auto simp: persist_approval_store_def Let_def split: if_splits sum.splits)
  assume ok: "is_ok r" "keys_ok d" "de_approval_file env"
  let ?store = "\<lparr>as_schema_version = approval_schema_version, as_session_id = de_store_session env,
    as_written_at_ms = de_clock env (dm_io d), as_approvals = approval_registry_snapshot env d\<rparr>"
  have "dm_store d' = Some ?store"
    using assms ok by (cases r) (auto simp: persist_approval_store_def Let_def split: sum.splits)
  moreover have "hm_get (fst (load_entries (de_store_session env) (approval_registry_snapshot env d))) = session_approvals env d"
  proof
    fix aid
    have "hm_get (fst (load_entries (de_store_session env) (approval_registry_snapshot env d))) aid = Some p \<longleftrightarrow>
      session_approvals env d aid = Some p" for p
    proof -
      have "session_approvals env d aid = Some p \<longleftrightarrow>
        hm_get (dm_approvals d) aid = Some p \<and> approval_matches_session p (de_store_session env)"
        by (auto simp: session_approvals_def split: option.split)
      also have "\<dots> \<longleftrightarrow> hm_get (dm_approvals d) (pa_approval_id p) = Some p \<and> pa_approval_id p = aid \<and> approval_matches_session p (de_store_session env)"
        using ok(2) by (auto simp: keys_ok_def)
      also have "\<dots> \<longleftrightarrow> p \<in> set (approval_registry_snapshot env d) \<and> pa_approval_id p = aid \<and> approval_matches_session p (de_store_session env)"
        by (simp only: set_snapshot [OF ok(2)])
      finally show ?thesis unfolding load_entries_get [OF snapshot_ids [OF ok(2)]] by blast
    qed
    then show "hm_get (fst (load_entries (de_store_session env) (approval_registry_snapshot env d))) aid = session_approvals env d aid"
      by (metis not_Some_eq)
  qed
  moreover have "session_approvals env d' = session_approvals env d"
    using \<open>dm_approvals d' = dm_approvals d\<close> by (simp add: session_approvals_def fun_eq_iff)
  ultimately show "store_matches env d'" by (simp add: store_matches_def)
qed

subsection \<open>Approvals over a history\<close>

definition fresh_ids :: "'h daemon_env \<Rightarrow> 'h daemon \<Rightarrow> bool" where
  \<comment> \<open>identifiers still to come are not in use\<close>
  "fresh_ids env d \<longleftrightarrow> (\<forall>aid n. hm_get (dm_approvals d) aid \<noteq> None \<and> dm_io d \<le> n \<longrightarrow> aid \<noteq> approval_id env n)"

definition approvals_ok :: "'h daemon_env \<Rightarrow> 'h daemon \<Rightarrow> bool" where
  "approvals_ok env d \<longleftrightarrow> keys_ok d \<and> (de_approval_file env \<longrightarrow> store_matches env d)"

definition only_new_approvals :: "'h daemon_env \<Rightarrow> 'h daemon \<Rightarrow> 'h daemon \<Rightarrow> bool" where
  \<comment> \<open>every approval of the second state is one of the first or carries an identifier drawn in between\<close>
  "only_new_approvals env d d' \<longleftrightarrow>
     dm_io d \<le> dm_io d' \<and>
     (\<forall>aid. hm_get (dm_approvals d') aid \<noteq> None \<longrightarrow>
        hm_get (dm_approvals d) aid \<noteq> None \<or> (\<exists>n. dm_io d \<le> n \<and> n < dm_io d' \<and> aid = approval_id env n))"

definition moves :: "'h daemon_env \<Rightarrow> 'h daemon \<Rightarrow> 'h daemon \<Rightarrow> bool" where
  "moves env d d' \<longleftrightarrow> advances env d d' \<and> only_new_approvals env d d' \<and> (approvals_ok env d \<longrightarrow> approvals_ok env d')"

lemma only_new_trans: "only_new_approvals env d d' \<Longrightarrow> only_new_approvals env d' d'' \<Longrightarrow> only_new_approvals env d d''"
  unfolding only_new_approvals_def by (meson le_trans order_less_le_trans)

lemma moves_trans: "moves env d d' \<Longrightarrow> moves env d' d'' \<Longrightarrow> moves env d d''"
  unfolding moves_def using advances_trans only_new_trans by blast

lemma approvals_ok_same: "same_approvals d d' \<Longrightarrow> approvals_ok env d \<Longrightarrow> approvals_ok env d'"
  by (simp add: approvals_ok_def keys_ok_def store_matches_def session_approvals_def same_approvals_def fun_eq_iff)

lemma moves_same: "advances env d d' \<Longrightarrow> same_approvals d d' \<Longrightarrow> moves env d d'"
  unfolding moves_def using approvals_ok_same by (auto simp: only_new_approvals_def same_approvals_def advances_def)

lemma moves_count [simp]:
  "moves env d (count_rejected d)" "moves env d (count_deferred d)" "moves env d (count_approval_required d)" "moves env d d"
  by (simp_all add: moves_same)

lemma publish_decision_moves: "publish_policy_decision env c decision d = (d', r) \<Longrightarrow> moves env d d'"
  using publish_decision_advances moves_same by blast

lemma execute_moves: "execute_command env prefix c d = (d', sent, r) \<Longrightarrow> port_publishes env \<Longrightarrow> moves env d d'"
  using execute_advances moves_same by blast

lemma keys_ok_change:
  "keys_ok d \<Longrightarrow> keys_ok (d\<lparr>dm_io := n, dm_approvals := hm_remove aid (dm_approvals d)\<rparr>)"
  "keys_ok d \<Longrightarrow> pa_approval_id p = aid \<Longrightarrow> keys_ok (d\<lparr>dm_io := n, dm_approvals := hm_insert aid p (dm_approvals d)\<rparr>)"
  by (auto simp: keys_ok_def split: if_splits)

lemma store_matches_back:
  assumes "store_matches env d" "dm_store d' = dm_store d" "hm_get (dm_approvals d') = hm_get (dm_approvals d)"
  shows "store_matches env d'"
  using assms by (simp add: store_matches_def session_approvals_def fun_eq_iff)

lemma store_pending_moves:
  assumes run: "store_pending_approval env c ctx why d = (d', r)" and fresh: "fresh_ids env d"
  shows "moves env d d'"
proof -
  let ?aid = "approval_id env (dm_io d)"
  let ?entry = "\<lparr>pa_approval_id = ?aid, pa_requested_at_ms = de_clock env (dm_io d), pa_reason = why, pa_command = c, pa_context = ctx\<rparr>"
  let ?d = "d\<lparr>dm_io := Suc (dm_io d), dm_approvals := hm_insert ?aid ?entry (dm_approvals d)\<rparr>"
  obtain d2 r2 where one: "persist_approval_store env ?d = (d2, r2)" by fastforce
  note law = persist_law [OF one]
  have quiet: "advances env d ?d" by (rule advances_quiet) simp_all
  then have adv: "advances env d d2" using law(1) advances_trans by blast
  then have io: "Suc (dm_io d) \<le> dm_io d2" using law(1) by (simp add: advances_def)
  have unused: "hm_get (dm_approvals d) ?aid = None" using fresh unfolding fresh_ids_def by blast
  show ?thesis
  proof (cases r2)
    case (Inl e)
    let ?undone = "d2\<lparr>dm_approvals := hm_remove ?aid (dm_approvals d2)\<rparr>"
    from run one Inl have d': "d' = ?undone" by (simp add: store_pending_approval_def Let_def)
    have get: "hm_get (dm_approvals ?undone) = hm_get (dm_approvals d)" using law(2) unused by (auto simp: fun_eq_iff)
    have "dm_store ?undone = dm_store d" using law(4) Inl by simp
    then have "approvals_ok env d \<Longrightarrow> approvals_ok env ?undone"
      using store_matches_back [OF _ _ get] get law(2) by (auto simp: approvals_ok_def keys_ok_def)
    moreover have "advances env d ?undone" using adv by (simp add: advances_def)
    ultimately show ?thesis using d' get io by (simp add: moves_def only_new_approvals_def fun_eq_iff)
  next
    case (Inr u)
    from run one Inr have d': "d' = d2" by (simp add: store_pending_approval_def Let_def)
    have "approvals_ok env d \<Longrightarrow> keys_ok ?d" using keys_ok_change(2) [of d ?entry ?aid "Suc (dm_io d)"] by (simp add: approvals_ok_def)
    then have "approvals_ok env d \<Longrightarrow> approvals_ok env d2"
      using law(2,5) Inr by (auto simp: approvals_ok_def keys_ok_def)
    moreover have "only_new_approvals env d d2" using law(2) io by (auto simp: only_new_approvals_def intro!: exI [of _ "dm_io d"])
    ultimately show ?thesis using d' adv by (simp add: moves_def)
  qed
qed

lemma fresh_moves: "moves env d d' \<Longrightarrow> inj (de_uuid env) \<Longrightarrow> fresh_ids env d \<Longrightarrow> fresh_ids env d'"
proof -
  assume moves: "moves env d d'" and inj: "inj (de_uuid env)" and fresh: "fresh_ids env d"
  from moves have io: "dm_io d \<le> dm_io d'" and new: "\<And>aid. hm_get (dm_approvals d') aid \<noteq> None \<Longrightarrow>
      hm_get (dm_approvals d) aid \<noteq> None \<or> (\<exists>n. dm_io d \<le> n \<and> n < dm_io d' \<and> aid = approval_id env n)"
    by (auto simp: moves_def only_new_approvals_def)
  have same: "approval_id env n = approval_id env m \<longleftrightarrow> n = m" for n m using inj by (auto simp: approval_id_def dest: injD)
  show ?thesis
    unfolding fresh_ids_def
  proof (intro allI impI)
    fix aid n
    assume use: "hm_get (dm_approvals d') aid \<noteq> None \<and> dm_io d' \<le> n"
    then consider "hm_get (dm_approvals d) aid \<noteq> None" | m where "m < dm_io d'" "aid = approval_id env m" using new by blast
    then show "aid \<noteq> approval_id env n"
    proof cases
      case 1
      with fresh io use show ?thesis unfolding fresh_ids_def using le_trans by blast
    next
      case 2
      with use same show ?thesis by auto
    qed
  qed
qed

lemma take_approval:
  assumes got: "hm_get (dm_approvals d) aid = Some p"
    and run: "persist_approval_store env (d\<lparr>dm_approvals := hm_remove aid (dm_approvals d)\<rparr>) = (d1, r)"
  shows "\<not> is_ok r \<Longrightarrow> moves env d (d1\<lparr>dm_approvals := hm_insert aid p (dm_approvals d1)\<rparr>)"
    and "is_ok r \<Longrightarrow> moves env d d1"
proof -
  let ?d = "d\<lparr>dm_approvals := hm_remove aid (dm_approvals d)\<rparr>"
  note law = persist_law [OF run]
  have adv: "advances env d d1" using law(1) by (simp add: advances_def)
  then have io: "dm_io d \<le> dm_io d1" by (simp add: advances_def)
  show "moves env d (d1\<lparr>dm_approvals := hm_insert aid p (dm_approvals d1)\<rparr>)" if "\<not> is_ok r"
  proof -
    let ?undone = "d1\<lparr>dm_approvals := hm_insert aid p (dm_approvals d1)\<rparr>"
    have get: "hm_get (dm_approvals ?undone) = hm_get (dm_approvals d)" using law(2) got by (auto simp: fun_eq_iff)
    have "dm_store ?undone = dm_store d" using law(4) that by simp
    then have "approvals_ok env d \<Longrightarrow> approvals_ok env ?undone"
      using store_matches_back [OF _ _ get] get law(2) by (auto simp: approvals_ok_def keys_ok_def)
    moreover have "advances env d ?undone" using adv by (simp add: advances_def)
    ultimately show ?thesis using get io by (simp add: moves_def only_new_approvals_def fun_eq_iff)
  qed
  show "moves env d d1" if "is_ok r"
  proof -
    have "keys_ok d \<Longrightarrow> keys_ok ?d" using keys_ok_change(1) [where n = "dm_io d"] by (simp add: keys_ok_def)
    then have "approvals_ok env d \<Longrightarrow> approvals_ok env d1" using law(2,5) that by (auto simp: approvals_ok_def keys_ok_def)
    moreover have "only_new_approvals env d d1" using law(2) io by (simp add: only_new_approvals_def)
    ultimately show ?thesis using adv by (simp add: moves_def)
  qed
qed

lemma resolved_moves:
  assumes run: "resolved_command env cid aid p d = (d', sent, r)" and port: "port_publishes env"
    and inj: "inj (de_uuid env)" and fresh: "fresh_ids env d"
  shows "moves env d d'"
proof -
  let ?c = "pa_command p"
  let ?ctx = "(hydrate_policy_context ?c (pa_context p) d)\<lparr>pc_approval_required := False\<rparr>"
  let ?dec = "decide_command env ?c ?ctx d"
  obtain d1 r1 where pub: "publish_policy_decision env ?c ?dec d = (d1, r1)" by fastforce
  have one: "moves env d d1" by (rule publish_decision_moves [OF pub])
  have fresh1: "fresh_ids env (count_approval_required d1)"
    using fresh_moves [OF moves_trans [OF one] inj fresh] by simp
  note unfold_run = run [unfolded resolved_command_def Let_def pub]
  have "moves env d1 d'"
  proof (cases r1)
    case (Inl e)
    with unfold_run show ?thesis by simp
  next
    case (Inr u)
    show ?thesis
    proof (cases ?dec)
      case PolicyAllow
      obtain d2 s2 r2 where ex: "execute_command env ''approved '' ?c d1 = (d2, s2, r2)" by (metis prod_cases3)
      with unfold_run Inr PolicyAllow have "d' = d2" by (cases r2) auto
      with execute_moves [OF ex port] show ?thesis by simp
    next
      case (PolicyRequireApproval why)
      obtain d2 r2 where st: "store_pending_approval env ?c ?ctx why (count_approval_required d1) = (d2, r2)" by fastforce
      with unfold_run Inr PolicyRequireApproval have "d' = d2" by (cases r2) auto
      with store_pending_moves [OF st fresh1] moves_trans [OF moves_count(3)] show ?thesis by blast
    qed (use unfold_run Inr in auto)
  qed
  with one show ?thesis by (rule moves_trans)
qed

lemma resolve_moves:
  assumes run: "resolve_approval env cid aid approved d = (d', sent, r)" and port: "port_publishes env"
    and inj: "inj (de_uuid env)" and fresh: "fresh_ids env d"
  shows "moves env d d'"
proof (cases "hm_get (dm_approvals d) aid")
  case None
  with run show ?thesis by (auto simp: resolve_approval_def)
next
  case (Some p)
  obtain d1 r1 where per: "persist_approval_store env (d\<lparr>dm_approvals := hm_remove aid (dm_approvals d)\<rparr>) = (d1, r1)" by fastforce
  note take = take_approval [OF Some per]
  show ?thesis
  proof (cases r1)
    case (Inl e)
    with run Some per take(1) show ?thesis by (auto simp: resolve_approval_def)
  next
    case (Inr u)
    then have one: "moves env d d1" using take(2) by simp
    show ?thesis
    proof (cases approved)
      case True
      with run Some per Inr have "resolved_command env cid aid p d1 = (d', sent, r)" by (simp add: resolve_approval_def)
      from resolved_moves [OF this port inj fresh_moves [OF one inj fresh]] one show ?thesis using moves_trans by blast
    next
      case False
      obtain d2 r2 where pub: "publish_policy_decision env (pa_command p) (PolicyDeny (''operator denied approval '' @ quoted aid)) (count_rejected d1) = (d2, r2)"
        by fastforce
      with run Some per Inr False have "d' = d2" by (cases r2) (auto simp: resolve_approval_def)
      with publish_decision_moves [OF pub] one moves_trans [OF moves_count(1)] show ?thesis using moves_trans by blast
    qed
  qed
qed

lemma carry_out_moves:
  assumes run: "carry_out env c ctx decision d = (d', sent, r)" and port: "port_publishes env" and fresh: "fresh_ids env d"
  shows "moves env d d'"
proof (cases decision)
  case PolicyAllow
  with run execute_moves [OF _ port] show ?thesis by (simp add: carry_out_def)
next
  case (PolicyRequireApproval why)
  obtain d2 r2 where st: "store_pending_approval env c ctx why (count_approval_required d) = (d2, r2)" by fastforce
  with run PolicyRequireApproval have d': "d' = d2" by (cases r2) (auto simp: carry_out_def)
  have "fresh_ids env (count_approval_required d)" using fresh by (simp add: fresh_ids_def count_approval_required_def)
  from store_pending_moves [OF st this] d' show ?thesis using moves_trans [OF moves_count(3)] by blast
qed (use run in \<open>auto simp: carry_out_def\<close>)

definition routed :: "'h daemon \<Rightarrow> 'h daemon" where
  "routed d = d\<lparr>dm_counters := (dm_counters d)\<lparr>dc_routed_commands := bump (dc_routed_commands (dm_counters d))\<rparr>\<rparr>"

lemma routed_fields [simp]:
  "dm_registry (routed d) = dm_registry d" "dm_approvals (routed d) = dm_approvals d" "dm_stopped (routed d) = dm_stopped d"
  "dm_io (routed d) = dm_io d" "dm_host (routed d) = dm_host d" "dm_bus (routed d) = dm_bus d"
  by (simp_all add: routed_def)

lemma entry_routed [simp]: "registry_entry_for_command c (routed d) = registry_entry_for_command c d"
  unfolding registry_entry_for_command_def by (cases "ct_pane_id (rc_target c)") simp_all

lemma generation_decision_routed [simp]: "registry_generation_decision c (routed d) = registry_generation_decision c d"
  unfolding registry_generation_decision_def by (cases "ct_generation (rc_target c)") simp_all

lemma hydrate_routed [simp]: "hydrate_policy_context c ctx (routed d) = hydrate_policy_context c ctx d"
  unfolding hydrate_policy_context_def by (cases "pc_pane_state ctx") simp_all

lemma moves_routed: "moves env d (routed d)"
  by (rule moves_same) (auto intro: advances_quiet simp: same_approvals_def routed_def)

text \<open>The two ways through \<open>route_command\<close> while the daemon runs.\<close>

lemma route_resolve:
  assumes "rc_kind c = CmdResolveApproval aid approved" "\<not> dm_stopped d"
  shows "\<exists>d1. publish_policy_decision env c PolicyAllow (routed d) = (d1, Inr ()) \<and>
    route_command env c ctx d = resolve_approval env (rc_command_id c) aid approved d1"
proof -
  obtain d1 r1 where pub: "publish_policy_decision env c PolicyAllow (routed d) = (d1, r1)" by fastforce
  then have "r1 = Inr ()" using publish_running(1) assms(2) by (fastforce simp: publish_policy_decision_def)
  with pub assms show ?thesis by (simp add: route_command_def routed_def [symmetric] Let_def)
qed

lemma route_other:
  assumes "\<And>aid approved. rc_kind c \<noteq> CmdResolveApproval aid approved" "\<not> dm_stopped d"
  shows "\<exists>d1. publish_policy_decision env c (decide_command env c (hydrate_policy_context c ctx d) d) (routed d) = (d1, Inr ()) \<and>
    route_command env c ctx d =
      carry_out env c (hydrate_policy_context c ctx d) (decide_command env c (hydrate_policy_context c ctx d) d) d1"
proof -
  let ?ctx = "hydrate_policy_context c ctx d"
  let ?dec = "decide_command env c ?ctx d"
  have same: "hydrate_policy_context c ctx (routed d) = ?ctx" "decide_command env c ?ctx (routed d) = ?dec"
    by (simp_all add: decide_command_def)
  obtain d1 r1 where pub: "publish_policy_decision env c ?dec (routed d) = (d1, r1)" by fastforce
  then have "r1 = Inr ()" using publish_running(1) assms(2) by (fastforce simp: publish_policy_decision_def)
  with pub have pub: "publish_policy_decision env c ?dec (routed d) = (d1, Inr ())" by simp
  have "route_command env c ctx d = carry_out env c ?ctx ?dec d1"
  proof (cases "rc_kind c")
    case (CmdResolveApproval aid approved)
    with assms(1) show ?thesis by blast
  qed (use pub assms(2) same in \<open>simp_all add: route_command_def routed_def [symmetric] Let_def\<close>)
  with pub show ?thesis by blast
qed

lemma route_moves:
  assumes run: "route_command env c ctx d = (d', sent, r)" and port: "port_publishes env"
    and inj: "inj (de_uuid env)" and fresh: "fresh_ids env d"
  shows "moves env d d'"
proof (cases "dm_stopped d")
  case True
  with run show ?thesis by (simp add: route_command_def)
next
  case running: False
  show ?thesis
  proof (cases "\<exists>aid approved. rc_kind c = CmdResolveApproval aid approved")
    case True
    then obtain aid approved where "rc_kind c = CmdResolveApproval aid approved" by blast
    from route_resolve [OF this running] obtain d1 where pub: "publish_policy_decision env c PolicyAllow (routed d) = (d1, Inr ())"
      and rest: "resolve_approval env (rc_command_id c) aid approved d1 = (d', sent, r)" using run by metis
    have one: "moves env d d1" using publish_decision_moves [OF pub] moves_routed moves_trans by blast
    from resolve_moves [OF rest port inj fresh_moves [OF one inj fresh]] one show ?thesis using moves_trans by blast
  next
    case False
    with route_other [of c d env ctx] running run obtain ctx' dec d1 where
      pub: "publish_policy_decision env c dec (routed d) = (d1, Inr ())" and rest: "carry_out env c ctx' dec d1 = (d', sent, r)" by metis
    have one: "moves env d d1" using publish_decision_moves [OF pub] moves_routed moves_trans by blast
    from carry_out_moves [OF rest port fresh_moves [OF one inj fresh]] one show ?thesis using moves_trans by blast
  qed
qed

subsection \<open>Histories\<close>

inductive daemon_history :: "'h daemon_env \<Rightarrow> 'h daemon \<Rightarrow> 'h daemon \<Rightarrow> bool" for env d where
  history_start: "daemon_history env d d"
| history_route: "daemon_history env d d1 \<Longrightarrow> route_command env c ctx d1 = (d2, sent, r) \<Longrightarrow> daemon_history env d d2"
| history_publish: "daemon_history env d d1 \<Longrightarrow> publish_event env ev d1 = (d2, r) \<Longrightarrow> daemon_history env d d2"
| history_shutdown: "daemon_history env d d1 \<Longrightarrow> daemon_history env d (daemon_shutdown d1)"

lemma history_moves:
  assumes "daemon_history env d d'" "port_publishes env" "inj (de_uuid env)" "fresh_ids env d"
  shows "moves env d d' \<and> fresh_ids env d'"
  using assms(1)
proof (induction rule: daemon_history.induct)
  case (history_route d1 c ctx d2 sent r)
  then have "moves env d1 d2" using route_moves assms(2,3) by blast
  with history_route.IH show ?case using moves_trans fresh_moves assms(3) by blast
next
  case (history_publish d1 ev d2 r)
  then have "moves env d1 d2" using publish_advances moves_same by blast
  with history_publish.IH show ?case using moves_trans fresh_moves assms(3) by blast
next
  case (history_shutdown d1)
  have "session_approvals env (daemon_shutdown d1) = session_approvals env d1"
    by (rule ext) (simp add: session_approvals_def daemon_shutdown_def)
  then have "moves env d1 (daemon_shutdown d1)"
    by (simp add: moves_def only_new_approvals_def daemon_shutdown_def advances_def approvals_ok_def keys_ok_def store_matches_def)
  with history_shutdown.IH show ?case using moves_trans fresh_moves assms(3) by blast
qed (simp add: assms(4))

subsection \<open>What routing does to the host\<close>

lemma publish_host: "publish_event env ev d = (d', r) \<Longrightarrow> dm_host d' = dm_host d"
  by (cases "dm_stopped d") (auto simp: publish_stopped dest: publish_running(6))

lemma publish_decision_host: "publish_policy_decision env c decision d = (d', r) \<Longrightarrow> dm_host d' = dm_host d"
  using publish_host by (fastforce simp: publish_policy_decision_def)

lemma persist_host: "persist_approval_store env d = (d', r) \<Longrightarrow> dm_host d' = dm_host d"
  by (auto simp: persist_approval_store_def Let_def split: if_splits sum.splits)

lemma store_pending_host: "store_pending_approval env c ctx why d = (d', r) \<Longrightarrow> dm_host d' = dm_host d"
  by (auto simp: store_pending_approval_def Let_def dest!: persist_host split: prod.splits sum.splits)

lemma count_host [simp]:
  "dm_host (count_rejected d) = dm_host d" "dm_host (count_deferred d) = dm_host d" "dm_host (count_approval_required d) = dm_host d"
  by (simp_all add: count_rejected_def count_deferred_def count_approval_required_def)

lemma resolved_host:
  "resolved_command env cid aid p d = (d', sent, r) \<Longrightarrow>
     dm_host d' = dm_host d \<or> (\<exists>port d1 c. de_command_port env = Some port \<and> dm_host d1 = dm_host d \<and> d' = fst (port c d1))"
  by (auto simp: resolved_command_def execute_command_def Let_def dest!: publish_decision_host store_pending_host
      split: prod.splits sum.splits runtime_policy_decision.splits option.splits) (metis fst_conv)+

lemma resolve_host:
  "resolve_approval env cid aid approved d = (d', sent, r) \<Longrightarrow>
     dm_host d' = dm_host d \<or> (\<exists>port d1 c. de_command_port env = Some port \<and> dm_host d1 = dm_host d \<and> d' = fst (port c d1))"
proof (cases "hm_get (dm_approvals d) aid")
  case None
  assume "resolve_approval env cid aid approved d = (d', sent, r)"
  with None show ?thesis by (auto simp: resolve_approval_def)
next
  case (Some p)
  assume run: "resolve_approval env cid aid approved d = (d', sent, r)"
  obtain d1 r1 where per: "persist_approval_store env (d\<lparr>dm_approvals := hm_remove aid (dm_approvals d)\<rparr>) = (d1, r1)" by fastforce
  from persist_host [OF per] have host: "dm_host d1 = dm_host d" by simp
  show ?thesis
  proof (cases r1)
    case (Inl e)
    with run Some per host show ?thesis by (auto simp: resolve_approval_def)
  next
    case (Inr u)
    show ?thesis
    proof (cases approved)
      case True
      with run Some per Inr have "resolved_command env cid aid p d1 = (d', sent, r)" by (simp add: resolve_approval_def)
      from resolved_host [OF this] host show ?thesis by simp
    next
      case False
      with run Some per Inr host show ?thesis
        by (auto simp: resolve_approval_def dest!: publish_decision_host split: prod.splits sum.splits)
    qed
  qed
qed

lemma carry_out_host:
  "carry_out env c ctx decision d = (d', sent, r) \<Longrightarrow>
     dm_host d' = dm_host d \<or> (\<exists>port d1 c. de_command_port env = Some port \<and> dm_host d1 = dm_host d \<and> d' = fst (port c d1))"
  by (auto simp: carry_out_def execute_command_def dest!: store_pending_host
      split: runtime_policy_decision.splits prod.splits sum.splits option.splits) (metis fst_conv)+

lemma route_host:
  assumes run: "route_command env c ctx d = (d', sent, r)"
  shows "dm_host d' = dm_host d \<or> (\<exists>port d1 x. de_command_port env = Some port \<and> dm_host d1 = dm_host d \<and> d' = fst (port x d1))"
proof (cases "dm_stopped d")
  case True
  with run show ?thesis by (simp add: route_command_def)
next
  case running: False
  show ?thesis
  proof (cases "\<exists>aid approved. rc_kind c = CmdResolveApproval aid approved")
    case True
    then obtain aid approved where "rc_kind c = CmdResolveApproval aid approved" by blast
    from route_resolve [OF this running] obtain d1 where pub: "publish_policy_decision env c PolicyAllow (routed d) = (d1, Inr ())"
      and rest: "resolve_approval env (rc_command_id c) aid approved d1 = (d', sent, r)" using run by metis
    with resolve_host [OF rest] publish_decision_host [OF pub] show ?thesis by simp
  next
    case False
    with route_other [of c d env ctx] running run obtain ctx' dec d1 where
      pub: "publish_policy_decision env c dec (routed d) = (d1, Inr ())" and rest: "carry_out env c ctx' dec d1 = (d', sent, r)" by metis
    with carry_out_host [OF rest] publish_decision_host [OF pub] show ?thesis by simp
  qed
qed

end
