(* ===== verification/Runtime_Guarantees.thy ===== *)
theory Runtime_Guarantees
  imports Runtime_Daemon_Props
begin

text \<open>
  The properties of the runtime daemon: the gate before the command port, the audit log as the
  source of the registry, approvals across restarts, and two defects of the bookkeeping.
\<close>

subsection \<open>The gate\<close>

definition gate_passed :: "'h daemon_env \<Rightarrow> 'h daemon \<Rightarrow> runtime_command \<Rightarrow> runtime_policy_context \<Rightarrow> bool" where
  \<comment> \<open>the registry does not know a different generation and the gate allows the command\<close>
  "gate_passed env d c ctx \<longleftrightarrow>
     (case ct_generation (rc_target c) of
        Some g \<Rightarrow> (case registry_entry_for_command c d of Some e \<Rightarrow> pe_generation e = g | None \<Rightarrow> True)
      | None \<Rightarrow> True) \<and>
     evaluate_policy env c ctx = PolicyAllow"

definition allow_recorded :: "runtime_command \<Rightarrow> 'h daemon \<Rightarrow> bool" where
  "allow_recorded c d \<longleftrightarrow>
     (\<exists>ev \<in> set (dm_bus d). rm_correlation_id (re_meta ev) = Some (rc_command_id c) \<and>
        (\<exists>uuid. re_kind ev = PolicyDecided uuid (runtime_operation_for_command (rc_kind c)) PolicyAllow))"

lemma decide_allow: "decide_command env c ctx d = PolicyAllow \<longleftrightarrow> gate_passed env d c ctx"
  by (auto simp: decide_command_def gate_passed_def registry_generation_decision_def split: option.splits)

lemma publish_allow_recorded: "publish_policy_decision env c PolicyAllow d = (d', Inr ()) \<Longrightarrow> allow_recorded c d'"
proof -
  let ?ev = "policy_decision_event (de_clock env (dm_io d)) (de_uuid env (dm_io d)) c PolicyAllow"
  assume pub: "publish_policy_decision env c PolicyAllow d = (d', Inr ())"
  then have run: "publish_event env ?ev (d\<lparr>dm_io := Suc (dm_io d)\<rparr>) = (d', Inr ())" by (simp add: publish_policy_decision_def)
  then have "\<not> dm_stopped (d\<lparr>dm_io := Suc (dm_io d)\<rparr>)" by (auto simp: publish_event_def)
  from publish_running(3) [OF run this] have "?ev \<in> set (dm_bus d')" by simp
  moreover have "rm_correlation_id (re_meta ?ev) = Some (rc_command_id c)"
    "re_kind ?ev = PolicyDecided (''decision-'' @ de_uuid env (dm_io d)) (runtime_operation_for_command (rc_kind c)) PolicyAllow"
    by (simp_all add: policy_decision_event_def Let_def new_event_def with_correlation_id_def)
  ultimately show ?thesis unfolding allow_recorded_def by blast
qed

lemma allow_recorded_advances: "allow_recorded c d \<Longrightarrow> advances env d d' \<Longrightarrow> allow_recorded c d'"
  unfolding allow_recorded_def advances_def by (elim exE conjE bexE) auto

lemma execute_sent: "execute_command env prefix c d = (d', sent, r) \<Longrightarrow> sent = [] \<or> sent = [c]"
  by (auto simp: execute_command_def split: option.splits prod.splits)

lemma carry_out_sent:
  "carry_out env c ctx decision d = (d', sent, r) \<Longrightarrow> sent = [] \<or> sent = [c] \<and> decision = PolicyAllow"
  by (auto simp: carry_out_def dest: execute_sent split: runtime_policy_decision.splits prod.splits sum.splits)

lemma resolved_sent:
  assumes run: "resolved_command env cid aid p d = (d', sent, r)" and "sent \<noteq> []" and port: "port_publishes env"
  defines "c \<equiv> pa_command p"
  shows "sent = [c] \<and> gate_passed env d c ((hydrate_policy_context c (pa_context p) d)\<lparr>pc_approval_required := False\<rparr>) \<and> allow_recorded c d'"
proof -
  let ?ctx = "(hydrate_policy_context c (pa_context p) d)\<lparr>pc_approval_required := False\<rparr>"
  let ?dec = "decide_command env c ?ctx d"
  obtain d1 r1 where pub: "publish_policy_decision env c ?dec d = (d1, r1)" by fastforce
  note unfold_run = run [unfolded resolved_command_def Let_def, folded c_def, unfolded pub]
  from unfold_run assms(2) have "r1 = Inr ()" by (cases r1) auto
  with unfold_run assms(2) have allow: "?dec = PolicyAllow"
    by (cases ?dec) (auto split: prod.splits sum.splits)
  obtain d2 s2 r2 where ex: "execute_command env ''approved '' c d1 = (d2, s2, r2)" by (metis prod_cases3)
  with unfold_run \<open>r1 = Inr ()\<close> allow have same: "d' = d2" "sent = s2" by (cases r2; simp)+
  have "allow_recorded c d1" using publish_allow_recorded pub allow \<open>r1 = Inr ()\<close> by metis
  then have "allow_recorded c d'" using execute_advances [OF ex port] allow_recorded_advances same by blast
  with execute_sent [OF ex] same assms(2) allow decide_allow show ?thesis by metis
qed

text \<open>C5: A command reaches the command port only through the gate. Whatever the daemon is asked, at most
  one command is handed to the port, only while the daemon runs, and only if the registry knows no
  other generation of the pane, the policy gate allowed the command in its context, and that decision
  is on the event stream. The command is the one that was routed, or one that waited for an approval
  which this request grants, checked again in the state of the grant.\<close>

theorem command_gate:
  assumes "route_command env c ctx d = (d', sent, r)" and "x \<in> set sent" and "port_publishes env"
  shows "sent = [x] \<and> \<not> dm_stopped d \<and> allow_recorded x d' \<and>
    (x = c \<and> gate_passed env d x (hydrate_policy_context x ctx d) \<or>
     (\<exists>aid p seen. rc_kind c = CmdResolveApproval aid True \<and> hm_get (dm_approvals d) aid = Some p \<and> x = pa_command p \<and>
        advances env d seen \<and> gate_passed env seen x ((hydrate_policy_context x (pa_context p) seen)\<lparr>pc_approval_required := False\<rparr>)))"
proof (cases "dm_stopped d")
  case True
  with assms(1,2) show ?thesis by (auto simp: route_command_def)
next
  case running: False
  show ?thesis
  proof (cases "\<exists>aid approved. rc_kind c = CmdResolveApproval aid approved")
    case True
    then obtain aid approved where kind: "rc_kind c = CmdResolveApproval aid approved" by blast
    from route_resolve [OF kind running] obtain d1 where pub: "publish_policy_decision env c PolicyAllow (routed d) = (d1, Inr ())"
      and rest: "resolve_approval env (rc_command_id c) aid approved d1 = (d', sent, r)" using assms(1) by metis
    have one: "advances env d d1" "dm_approvals d1 = dm_approvals d"
      using publish_decision_advances [OF pub] moves_routed [of env d] advances_trans by (auto simp: moves_def same_approvals_def)
    from rest assms(2) obtain p d2 u where p: "hm_get (dm_approvals d1) aid = Some p" and approved
      and per: "persist_approval_store env (d1\<lparr>dm_approvals := hm_remove aid (dm_approvals d1)\<rparr>) = (d2, Inr u)"
      and res: "resolved_command env (rc_command_id c) aid p d2 = (d', sent, r)"
      by (auto simp: resolve_approval_def split: option.splits prod.splits sum.splits if_splits)
    have "advances env d1 d2" using persist_law(1) [OF per] by (simp add: advances_def)
    with one(1) have adv: "advances env d d2" using advances_trans by blast
    have "sent \<noteq> []" using assms(2) by auto
    from resolved_sent [OF res this assms(3)] assms(2) adv kind p one(2) \<open>approved\<close> running show ?thesis by auto
  next
    case False
    let ?ctx = "hydrate_policy_context c ctx d"
    from False route_other [of c d env ctx] running assms(1) obtain d1 where
      pub: "publish_policy_decision env c (decide_command env c ?ctx d) (routed d) = (d1, Inr ())"
      and rest: "carry_out env c ?ctx (decide_command env c ?ctx d) d1 = (d', sent, r)" by metis
    from carry_out_sent [OF rest] assms(2) have sent: "sent = [x]" "x = c" and allow: "decide_command env c ?ctx d = PolicyAllow" by auto
    from rest allow have ex: "execute_command env [] c d1 = (d', sent, r)" by (simp add: carry_out_def)
    have "allow_recorded c d1" using publish_allow_recorded pub allow by metis
    then have "allow_recorded c d'" using execute_advances [OF ex assms(3)] allow_recorded_advances by blast
    with sent allow decide_allow running show ?thesis by metis
  qed
qed

subsection \<open>The audit log\<close>

lemma fresh_new [simp]: "fresh_ids env (new_daemon h)"
  by (simp add: fresh_ids_def new_daemon_def)

lemma read_back:
  "\<forall>ev \<in> set evs. decode (encode ev) = Inr ev \<and> trim (encode ev) \<noteq> [] \<Longrightarrow> read_audit_lines decode path n (map encode evs) = Inr evs"
  by (induction evs arbitrary: n) simp_all

lemma publish_batch_running:
  "\<not> dm_stopped d \<Longrightarrow> \<exists>d'. publish_batch env evs d = (d', Inr ()) \<and> dm_registry d' = fold apply_registry_event evs (dm_registry d) \<and>
     dm_bus d' = dm_bus d @ evs"
proof (induction evs arbitrary: d)
  case (Cons ev evs)
  obtain d1 r1 where one: "publish_event env ev d = (d1, r1)" by fastforce
  note pub = publish_running [OF one Cons.prems]
  from Cons.IH [OF pub(7)] pub(1,2,3) one show ?case by auto
qed simp

text \<open>C9: The audit log is the registry. If every line gets into the log, then after any history of events
  and commands, executions included, replaying the log into a fresh daemon rebuilds the very same
  pane registry and the same stream of events.\<close>

theorem audit_replay_rebuilds_registry:
  assumes "daemon_history env (new_daemon h) d" and "audit_faithful env" and "port_publishes env" and "inj (de_uuid env)"
    and codec: "\<forall>ev \<in> set (dm_audit d). decode (encode ev) = Inr ev \<and> trim (encode ev) \<noteq> []"
  shows "\<exists>d'. replay_audit_log env' decode path (map encode (dm_audit d)) (new_daemon h') = (d', Inr (length (dm_audit d))) \<and>
    dm_registry d' = dm_registry d \<and> dm_bus d' = dm_bus d"
proof -
  have "advances env (new_daemon h) d" using history_moves [OF assms(1,3,4)] by (simp add: moves_def)
  then have log: "dm_bus d = dm_audit d" "dm_registry d = fold apply_registry_event (dm_audit d) []"
    using assms(2) by (auto simp: advances_def new_daemon_def)
  have "\<not> dm_stopped (new_daemon h')" by (simp add: new_daemon_def)
  from publish_batch_running [OF this, of env' "dm_audit d"] read_back [OF codec, of path 0] log show ?thesis
    by (auto simp: replay_audit_log_def new_daemon_def)
qed

subsection \<open>Approvals across a restart\<close>

lemma load_ok:
  assumes run: "start_daemon env path file h = (d, Inr loaded)"
  shows "approvals_ok env d"
proof -
  let ?d = "(new_daemon h)\<lparr>dm_store := (case file of ApprovalDecoded store \<Rightarrow> Some store | _ \<Rightarrow> None)\<rparr>"
  have keys: "keys_ok ?d" "keys_ok (?d\<lparr>dm_approvals := []\<rparr>)" by (simp_all add: keys_ok_def new_daemon_def)
  have persisted: "approvals_ok env d1" if "persist_approval_store env d0 = (d1, Inr u)" "keys_ok d0" for d0 d1 u
    using persist_law(2,5) [OF that(1)] that(2) by (auto simp: approvals_ok_def keys_ok_def)
  note unfold_run = run [unfolded start_daemon_def load_persisted_approvals_def]
  show ?thesis
  proof (cases "de_approval_file env")
    case False
    with unfold_run keys show ?thesis by (auto simp: approvals_ok_def)
  next
    case True
    show ?thesis
    proof (cases "file")
      case ApprovalMissing
      with unfold_run True persisted [of ?d] keys show ?thesis by (auto split: prod.splits sum.splits)
    next
      case (ApprovalDecoded store)
      let ?session = "de_store_session env"
      obtain m ignored where load: "load_entries ?session (as_approvals store) = (m, ignored)" by fastforce
      have m: "hm_wf m" "\<And>aid p. hm_get m aid = Some p \<Longrightarrow> pa_approval_id p = aid"
        using load_entries_wf [of ?session "as_approvals store"] load_entries_ids [of ?session "as_approvals store"] load by auto
      then have keys_m: "keys_ok (?d\<lparr>dm_approvals := m\<rparr>)" by (simp add: keys_ok_def)
      have version: "as_schema_version store = approval_schema_version"
        using unfold_run True ApprovalDecoded by (auto split: if_splits)
      show ?thesis
      proof (cases "?session \<noteq> None \<and> as_session_id store \<noteq> ?session")
        case other: True
        with unfold_run True ApprovalDecoded version persisted [of "?d\<lparr>dm_approvals := []\<rparr>"] keys show ?thesis
          by (auto split: prod.splits sum.splits)
      next
        case same: False
        show ?thesis
        proof (cases "ignored = 0")
          case kept: True
          with unfold_run True ApprovalDecoded version same load have d: "d = ?d\<lparr>dm_approvals := m\<rparr>" by auto
          have "\<forall>p \<in> set (as_approvals store). approval_matches_session p ?session"
            using load_entries_none_ignored [of ?session "as_approvals store"] load kept by simp
          then have "session_approvals env d = hm_get m"
            using load_entries_ids [of ?session "as_approvals store"] load
            by (auto simp: session_approvals_def d fun_eq_iff split: option.split)
          with keys_m d ApprovalDecoded version same load show ?thesis
            by (auto simp: approvals_ok_def store_matches_def)
        next
          case dropped: False
          with unfold_run True ApprovalDecoded version same load persisted [OF _ keys_m] show ?thesis
            by (auto split: prod.splits sum.splits)
        qed
      qed
    qed (use unfold_run True in auto)
  qed
qed

text \<open>What a start reads back, whether or not the file can be written again.\<close>

lemma start_reads:
  assumes "de_approval_file env" "as_schema_version store = approval_schema_version"
    and "de_store_session env \<noteq> None \<Longrightarrow> as_session_id store = de_store_session env"
  shows "dm_approvals (fst (start_daemon env path (ApprovalDecoded store) h)) = fst (load_entries (de_store_session env) (as_approvals store))"
proof -
  obtain m ignored where load: "load_entries (de_store_session env) (as_approvals store) = (m, ignored)" by fastforce
  let ?d = "(new_daemon h)\<lparr>dm_store := Some store, dm_approvals := m\<rparr>"
  obtain d1 r1 where per: "persist_approval_store env ?d = (d1, r1)" by fastforce
  from persist_law(2) [OF per] have "dm_approvals d1 = m" by simp
  with assms load per show ?thesis
    by (cases r1) (auto simp: start_daemon_def load_persisted_approvals_def)
qed

text \<open>C8: Pending approvals survive a restart. Whatever happened since a successful start, failed writes of the
  file included, a daemon started again under the same session finds exactly the pending approvals
  for commands of that session.\<close>

theorem approvals_survive_restart:
  assumes "start_daemon env path file h = (start, Inr loaded)" and "de_approval_file env"
    and "daemon_history env start d" and "port_publishes env" and "inj (de_uuid env)" and "fresh_ids env start"
    and "de_approval_file env'" and "de_store_session env' = de_store_session env"
  shows "\<exists>store. dm_store d = Some store \<and>
    hm_get (dm_approvals (fst (start_daemon env' path' (ApprovalDecoded store) h'))) = session_approvals env d"
proof -
  have "approvals_ok env d" using history_moves [OF assms(3,4,5,6)] load_ok [OF assms(1)] by (simp add: moves_def)
  then obtain store where store: "dm_store d = Some store" "as_schema_version store = approval_schema_version"
    "de_store_session env \<noteq> None \<longrightarrow> as_session_id store = de_store_session env"
    "hm_get (fst (load_entries (de_store_session env) (as_approvals store))) = session_approvals env d"
    using assms(2) by (auto simp: approvals_ok_def store_matches_def)
  with start_reads [OF assms(7) store(2), of path' h'] assms(8) show ?thesis by auto
qed

lemma resolve_without_approval:
  "hm_get (dm_approvals d) aid = None \<Longrightarrow> rc_kind c = CmdResolveApproval aid approved \<Longrightarrow> fst (snd (route_command env c ctx d)) = []"
proof (cases "dm_stopped d")
  case False
  assume none: "hm_get (dm_approvals d) aid = None" and kind: "rc_kind c = CmdResolveApproval aid approved"
  from route_resolve [OF kind False] obtain d1 where pub: "publish_policy_decision env c PolicyAllow (routed d) = (d1, Inr ())"
    and rest: "route_command env c ctx d = resolve_approval env (rc_command_id c) aid approved d1" by blast
  have "dm_approvals d1 = dm_approvals d" using publish_decision_advances [OF pub] by (simp add: same_approvals_def)
  with none rest show ?thesis by (simp add: resolve_approval_def)
qed (simp add: route_command_def)

lemma resolved_keeps_gone:
  assumes "resolved_command env cid aid p d = (d', sent, r)" "sent \<noteq> []" "port_publishes env" "hm_get (dm_approvals d) k = None"
  shows "hm_get (dm_approvals d') k = None"
proof -
  let ?c = "pa_command p"
  let ?ctx = "(hydrate_policy_context ?c (pa_context p) d)\<lparr>pc_approval_required := False\<rparr>"
  let ?dec = "decide_command env ?c ?ctx d"
  obtain d1 r1 where pub: "publish_policy_decision env ?c ?dec d = (d1, r1)" by fastforce
  note unfold_run = assms(1) [unfolded resolved_command_def Let_def pub]
  from unfold_run assms(2) have "r1 = Inr ()" by (cases r1) auto
  with unfold_run assms(2) have allow: "?dec = PolicyAllow" by (cases ?dec) (auto split: prod.splits sum.splits)
  obtain d2 s2 r2 where ex: "execute_command env ''approved '' ?c d1 = (d2, s2, r2)" by (metis prod_cases3)
  with unfold_run \<open>r1 = Inr ()\<close> allow have "d' = d2" by (cases r2) simp_all
  with execute_advances [OF ex assms(3)] publish_decision_advances [OF pub] assms(4) show ?thesis by (simp add: same_approvals_def)
qed

text \<open>C7: An approval is used at most once: after a request has released the command that waited under an
  identifier, no later request for that identifier releases anything, in any history.\<close>

theorem approval_used_once:
  assumes "route_command env c ctx d = (d1, sent, r)" and "rc_kind c = CmdResolveApproval aid approved" and "sent \<noteq> []"
    and "daemon_history env d1 d2" and "rc_kind c' = CmdResolveApproval aid approved'"
    and "port_publishes env" and "inj (de_uuid env)" and "fresh_ids env d"
  shows "fst (snd (route_command env c' ctx' d2)) = []"
proof -
  have running: "\<not> dm_stopped d" using assms(1,3) by (auto simp: route_command_def)
  from route_resolve [OF assms(2) running] obtain a where pub: "publish_policy_decision env c PolicyAllow (routed d) = (a, Inr ())"
    and rest: "resolve_approval env (rc_command_id c) aid approved a = (d1, sent, r)" using assms(1) by metis
  have same: "dm_approvals a = dm_approvals d" using publish_decision_advances [OF pub] by (simp add: same_approvals_def)
  from rest assms(3) obtain p b u where p: "hm_get (dm_approvals a) aid = Some p"
    and per: "persist_approval_store env (a\<lparr>dm_approvals := hm_remove aid (dm_approvals a)\<rparr>) = (b, Inr u)"
    and res: "resolved_command env (rc_command_id c) aid p b = (d1, sent, r)"
    by (auto simp: resolve_approval_def split: option.splits prod.splits sum.splits if_splits)
  have "hm_get (dm_approvals b) aid = None" using persist_law(2) [OF per] by simp
  from resolved_keeps_gone [OF res assms(3,6) this] have gone: "hm_get (dm_approvals d1) aid = None" .
  have fresh: "fresh_ids env d1" and io: "dm_io d \<le> dm_io d1"
    using route_moves [OF assms(1,6,7,8)] fresh_moves assms(7,8) by (auto simp: moves_def advances_def)
  have old: "aid \<noteq> approval_id env n" if "dm_io d \<le> n" for n
    using assms(8) p same that unfolding fresh_ids_def by (metis option.distinct(1))
  have "only_new_approvals env d1 d2" using history_moves [OF assms(4,6,7) fresh] by (simp add: moves_def)
  with gone old io have "hm_get (dm_approvals d2) aid = None"
    unfolding only_new_approvals_def using le_trans by blast
  with resolve_without_approval assms(5) show ?thesis by blast
qed

subsection \<open>Defects of the bookkeeping\<close>

text \<open>C38: A refused command damages the registry. If a command names a later generation than the registry
  knows for its pane, it is refused, but publishing the refusal raises the pane in the registry to
  the generation the command made up and forgets its state: from then on the events of the real
  pane are ignored as stale, and commands for its true generation are refused.\<close>

theorem denied_command_poisons_registry:
  assumes "registry_entry_for_command c d = Some e" and "ct_generation (rc_target c) = Some g" and "pe_generation e < g"
    and "ct_pane_id (rc_target c) = Some pane" and "\<not> dm_stopped d" and "\<And>aid approved. rc_kind c \<noteq> CmdResolveApproval aid approved"
  shows "\<exists>d' res e'. route_command env c ctx d = (d', [], Inr res) \<and> cr_status res = CommandRejected \<and>
    registry_entry_for_command c d' = Some e' \<and> pe_generation e' = g \<and> pe_state e' = PaneUnknown \<and>
    (\<forall>ev. event_key ev = (ct_session_id (rc_target c), pane) \<and> event_generation ev = pe_generation e \<longrightarrow>
       apply_registry_event ev (dm_registry d') = dm_registry d') \<and>
    registry_generation_decision (c\<lparr>rc_target := (rc_target c)\<lparr>ct_generation := Some (pe_generation e)\<rparr>\<rparr>) d' \<noteq> None"
proof -
  let ?k = "(ct_session_id (rc_target c), pane)"
  let ?ctx = "hydrate_policy_context c ctx d"
  let ?dec = "decide_command env c ?ctx d"
  from route_other [OF assms(6,5)] obtain d1 where pub: "publish_policy_decision env c ?dec (routed d) = (d1, Inr ())"
    and rest: "route_command env c ctx d = carry_out env c ?ctx ?dec d1" by blast
  have differ: "g \<noteq> pe_generation e" using assms(3) by auto
  then obtain why where deny: "?dec = PolicyDeny why"
    using assms(1,2) by (simp add: decide_command_def registry_generation_decision_def)
  let ?ev = "policy_decision_event (de_clock env (dm_io d)) (de_uuid env (dm_io d)) c ?dec"
  have key: "event_key ?ev = ?k" "event_generation ?ev = g" "rm_source (re_meta ?ev) = SourcePolicy"
    "\<exists>uuid op. re_kind ?ev = PolicyDecided uuid op ?dec"
    using assms(2,4) by (simp_all add: policy_decision_event_def Let_def)
  have old: "hm_get (dm_registry d) ?k = Some e" using assms(1,4) by (simp add: registry_entry_for_command_def)
  have "dm_registry d1 = apply_registry_event ?ev (dm_registry d)"
    using publish_running(2) [OF pub [unfolded publish_policy_decision_def]] assms(5) by simp
  then have new: "hm_get (dm_registry d1) ?k = Some (update_entry ?ev e)"
    using key old assms(3) by (simp add: apply_registry_event_def)
  have entry: "pe_generation (update_entry ?ev e) = g" "pe_state (update_entry ?ev e) = PaneUnknown"
    using key assms(3) by (auto simp: update_entry_def registry_event_is_mux_shadow_def Let_def)
  have get: "hm_get (dm_registry (count_rejected d1)) ?k = Some (update_entry ?ev e)" using new by (simp add: count_rejected_def)
  have "route_command env c ctx d = (count_rejected d1, [], Inr (command_result (rc_command_id c) CommandRejected why))"
    using rest deny by (simp add: carry_out_def)
  moreover have "registry_entry_for_command c (count_rejected d1) = Some (update_entry ?ev e)"
    using get assms(4) by (simp add: registry_entry_for_command_def)
  moreover have "apply_registry_event ev (dm_registry (count_rejected d1)) = dm_registry (count_rejected d1)"
    if "event_key ev = ?k \<and> event_generation ev = pe_generation e" for ev
    using that get entry assms(3) by (simp add: apply_registry_event_def)
  moreover have "registry_generation_decision (c\<lparr>rc_target := (rc_target c)\<lparr>ct_generation := Some (pe_generation e)\<rparr>\<rparr>) (count_rejected d1) \<noteq> None"
    using get assms(3,4) entry by (auto simp: registry_generation_decision_def registry_entry_for_command_def)
  ultimately show ?thesis using entry by (auto simp: command_result_def)
qed

lemma granted_release:
  assumes "hm_get (dm_approvals d) aid = Some p" and "pc_pane_state (pa_context p) = Some st"
    and "rc_kind c = CmdResolveApproval aid True" and "\<not> dm_stopped d" and "\<And>n. is_ok (de_store_write env n)"
    and "de_command_port env = Some port" and "de_policy_gate env = Some (basic_policy_gate cfg)"
    and "ct_generation (rc_target (pa_command p)) = None"
  shows "fst (snd (route_command env c ctx d)) =
    (if evaluate_sync cfg (pa_command p) ((pa_context p)\<lparr>pc_approval_required := False\<rparr>) = PolicyAllow then [pa_command p] else [])"
proof -
  let ?x = "pa_command p"
  let ?ctx = "(pa_context p)\<lparr>pc_approval_required := False\<rparr>"
  from route_resolve [OF assms(3,4)] obtain a where pub: "publish_policy_decision env c PolicyAllow (routed d) = (a, Inr ())"
    and rest: "route_command env c ctx d = resolve_approval env (rc_command_id c) aid True a" by blast
  have a: "dm_approvals a = dm_approvals d" "dm_stopped a = dm_stopped d"
    using publish_decision_advances [OF pub] by (simp_all add: same_approvals_def)
  obtain b r1 where per: "persist_approval_store env (a\<lparr>dm_approvals := hm_remove aid (dm_approvals a)\<rparr>) = (b, r1)" by fastforce
  have "r1 = Inr ()" using per assms(5) by (cases r1) (auto simp: persist_approval_store_def Let_def is_ok_conv split: if_splits sum.splits)
  with rest per a assms(1) have res: "route_command env c ctx d = resolved_command env (rc_command_id c) aid p b"
    by (simp add: resolve_approval_def)
  have running: "\<not> dm_stopped b" using persist_law(3) [OF per] a assms(4) by simp
  have ctx: "hydrate_policy_context ?x (pa_context p) b = pa_context p" using assms(2) by (simp add: hydrate_policy_context_def)
  have dec: "decide_command env ?x ?ctx b = evaluate_sync cfg ?x ?ctx"
    using assms(7,8) by (simp add: decide_command_def registry_generation_decision_def evaluate_policy_def basic_policy_gate_def)
  obtain b1 r2 where pub2: "publish_policy_decision env ?x (evaluate_sync cfg ?x ?ctx) b = (b1, r2)" by fastforce
  have "r2 = Inr ()" using publish_running(1) [OF pub2 [unfolded publish_policy_decision_def]] running by simp
  with res pub2 ctx dec assms(6) show ?thesis
    by (auto simp: resolved_command_def execute_command_def Let_def split: runtime_policy_decision.splits prod.splits sum.splits)
qed

text \<open>C39: A granted approval is checked against the state its pane had when the approval was requested. The
  stored context already carries that state, and a state that is present is not looked up again, so
  whatever became of the pane the command is released exactly when the old state allows it: a
  command held back for a live pane is sent to a pane that has died meanwhile.\<close>

theorem approval_checks_old_pane_state:
  assumes "hm_get (dm_approvals d) aid = Some p" and "pc_pane_state (pa_context p) = Some st"
    and "rc_kind c = CmdResolveApproval aid True" and "\<not> dm_stopped d" and "\<And>n. is_ok (de_store_write env n)"
    and "de_command_port env = Some port" and "de_policy_gate env = Some (basic_policy_gate cfg)"
    and "ct_generation (rc_target (pa_command p)) = None"
  shows "fst (snd (route_command env c ctx d)) =
    (if evaluate_sync cfg (pa_command p) ((pa_context p)\<lparr>pc_approval_required := False\<rparr>) = PolicyAllow then [pa_command p] else [])"
  using assms by (rule granted_release)

end
