(* ===== verification/Terminal_Host.thy ===== *)
theory Terminal_Host
  imports Runtime_Types Utf8_Text
begin

text \<open>
  \<open>crates/brehon-host/src/lib.rs\<close>: the headless terminal host, which keeps panes, their generations
  and transcripts and records its events, and the command port that maps runtime commands onto the
  operations of a terminal host adapter. The adapter and the event sink are arguments of the port.
\<close>

subsection \<open>State of the headless host\<close>

record headless_pane =
  hp_session_id :: string
  hp_pane_id :: string
  hp_generation :: generation
  hp_state :: runtime_pane_state
  hp_kind :: runtime_pane_kind
  hp_title :: "string option"
  hp_rows :: nat
  hp_cols :: nat
  hp_cwd :: "string option"
  hp_command :: "string list"
  hp_env :: "(string \<times> string) list"
  hp_input_bytes :: string
  hp_transcript :: string
  hp_last_event_ms :: nat
  hp_exit_code :: "int option"
  hp_exit_reason :: "string option"

record headless_host =
  hh_max_transcript_bytes :: nat
  hh_max_recorded_events :: nat
  hh_panes :: "(pane_key, headless_pane) hmap"
  hh_events :: "runtime_event list"
  hh_clock :: nat

definition new_headless_host :: "nat \<Rightarrow> nat \<Rightarrow> headless_host" where
  "new_headless_host transcript_bytes events =
     \<lparr>hh_max_transcript_bytes = transcript_bytes, hh_max_recorded_events = events, hh_panes = [], hh_events = [], hh_clock = 0\<rparr>"

definition default_headless_host :: headless_host where
  "default_headless_host = new_headless_host (64 * 1024) (8 * 1024)"

subsection \<open>Bounded buffers\<close>

fun drop_chars :: "nat \<Rightarrow> string list \<Rightarrow> string" where
  \<comment> \<open>the text from the first character that starts at or after an offset\<close>
  "drop_chars m [] = []"
| "drop_chars m (c # cs) = (if m = 0 then concat (c # cs) else drop_chars (m - length c) cs)"

definition trim_transcript :: "nat \<Rightarrow> string \<Rightarrow> string" where
  "trim_transcript max_bytes t = (if length t \<le> max_bytes then t else drop_chars (length t - max_bytes) (utf8_chars t))"

definition trim_last :: "nat \<Rightarrow> 'a list \<Rightarrow> 'a list" where
  \<comment> \<open>\<open>trim_bytes\<close> and \<open>trim_events\<close>\<close>
  "trim_last limit xs = (if length xs \<le> limit then xs else drop (length xs - limit) xs)"

definition append_output :: "string \<Rightarrow> string option \<Rightarrow> nat \<Rightarrow> headless_pane \<Rightarrow> headless_pane" where
  "append_output bytes text max_bytes p =
     (let new = (case text of Some t \<Rightarrow> t | None \<Rightarrow> from_utf8_lossy bytes)
      in p\<lparr>hp_transcript := trim_transcript (max max_bytes 1) (hp_transcript p @ new)\<rparr>)"

subsection \<open>Events\<close>

definition record_host_events :: "runtime_event list \<Rightarrow> headless_host \<Rightarrow> headless_host" where
  "record_host_events evs h =
     (if evs = [] then h else h\<lparr>hh_events := trim_last (max (hh_max_recorded_events h) 1) (hh_events h @ evs)\<rparr>)"

definition next_timestamp :: "headless_host \<Rightarrow> headless_host \<times> nat" where
  "next_timestamp h = (h\<lparr>hh_clock := hh_clock h + 1\<rparr>, hh_clock h + 1)"

definition new_pane :: "runtime_event \<Rightarrow> headless_pane" where
  "new_pane ev =
     \<lparr>hp_session_id = rm_session_id (re_meta ev), hp_pane_id = rm_pane_id (re_meta ev), hp_generation = event_generation ev,
      hp_state = PaneUnknown, hp_kind = UnknownPane, hp_title = None, hp_rows = 0, hp_cols = 0, hp_cwd = None, hp_command = [],
      hp_env = [], hp_input_bytes = [], hp_transcript = [], hp_last_event_ms = rm_timestamp_ms (re_meta ev), hp_exit_code = None,
      hp_exit_reason = None\<rparr>"

fun apply_pane_kind :: "nat \<Rightarrow> runtime_event_kind \<Rightarrow> headless_pane \<Rightarrow> headless_pane" where
  "apply_pane_kind limit (PaneSpawned kind title) p =
     p\<lparr>hp_kind := kind, hp_title := title, hp_state := PaneReady, hp_transcript := [], hp_input_bytes := [], hp_exit_code := None,
       hp_exit_reason := None\<rparr>"
| "apply_pane_kind limit (PaneStateChanged _ st _ _) p = p\<lparr>hp_state := st\<rparr>"
| "apply_pane_kind limit (PaneOutput bytes text) p = append_output bytes text limit p"
| "apply_pane_kind limit (PaneExited code reason) p = p\<lparr>hp_state := PaneDead, hp_exit_code := code, hp_exit_reason := reason\<rparr>"
| "apply_pane_kind limit (AgentTurnStarted _ _) p = p\<lparr>hp_state := PaneBusy\<rparr>"
| "apply_pane_kind limit (AgentTurnEnded _ _) p = p\<lparr>hp_state := PaneReady\<rparr>"
| "apply_pane_kind limit _ p = p"

definition update_pane :: "nat \<Rightarrow> runtime_event \<Rightarrow> headless_pane \<Rightarrow> headless_pane" where
  "update_pane limit ev p =
     apply_pane_kind limit (re_kind ev) (p\<lparr>hp_generation := event_generation ev, hp_last_event_ms := rm_timestamp_ms (re_meta ev)\<rparr>)"

definition host_apply_event :: "runtime_event \<Rightarrow> headless_host \<Rightarrow> headless_host" where
  "host_apply_event ev h =
     (let k = event_key ev; limit = hh_max_transcript_bytes h in
      case hm_get (hh_panes h) k of
        Some p \<Rightarrow> if event_generation ev < hp_generation p then h else h\<lparr>hh_panes := hm_insert k (update_pane limit ev p) (hh_panes h)\<rparr>
      | None \<Rightarrow> h\<lparr>hh_panes := hm_insert k (update_pane limit ev (new_pane ev)) (hh_panes h)\<rparr>)"

definition host_publish :: "runtime_event \<Rightarrow> headless_host \<Rightarrow> headless_host" where
  \<comment> \<open>\<open>record_event\<close>: remember the event, then apply it\<close>
  "host_publish ev h =
     host_apply_event ev (h\<lparr>hh_events := trim_last (max (hh_max_recorded_events h) 1) (hh_events h @ [ev])\<rparr>)"

subsection \<open>Operations of the adapter\<close>

definition headless_handle :: "headless_pane \<Rightarrow> pane_handle" where
  "headless_handle p =
     \<lparr>ph_session_id = hp_session_id p, ph_pane_id = hp_pane_id p, ph_generation = hp_generation p, ph_source = SourceHeadless\<rparr>"

definition spawned_pane :: "pane_spawn_spec \<Rightarrow> generation \<Rightarrow> nat \<Rightarrow> headless_pane" where
  "spawned_pane spec gen now =
     \<lparr>hp_session_id = sp_session_id spec, hp_pane_id = sp_pane_id spec, hp_generation = gen, hp_state = PaneReady, hp_kind = sp_kind spec,
      hp_title = sp_title spec, hp_rows = sp_rows spec, hp_cols = sp_cols spec, hp_cwd = sp_cwd spec, hp_command = sp_command spec,
      hp_env = sp_env spec, hp_input_bytes = [], hp_transcript = [], hp_last_event_ms = now, hp_exit_code = None, hp_exit_reason = None\<rparr>"

definition host_spawn_pane :: "pane_spawn_spec \<Rightarrow> headless_host \<Rightarrow> headless_host \<times> (string, pane_handle) result" where
  "host_spawn_pane spec h =
     (if trim (sp_session_id spec) = [] then (h, Inl (runtime_error ''headless spawn requires a session id''))
      else if trim (sp_pane_id spec) = [] then (h, Inl (runtime_error ''headless spawn requires a pane id''))
      else if sp_rows spec = 0 \<or> sp_cols spec = 0 then (h, Inl (runtime_error ''headless spawn requires non-zero dimensions''))
      else let k = (sp_session_id spec, sp_pane_id spec); (h1, now) = next_timestamp h; previous = hm_get (hh_panes h1) k
           in if (case previous of Some p \<Rightarrow> hp_generation p = - 1 | None \<Rightarrow> False)
              then (h1, Inl (runtime_error ''headless pane generation counter exhausted''))
              else let gen = (case previous of Some p \<Rightarrow> hp_generation p + 1 | None \<Rightarrow> 1);
                       pane = spawned_pane spec gen now;
                       (h2, later) = next_timestamp (h1\<lparr>hh_panes := hm_insert k pane (hh_panes h1)\<rparr>)
                   in (record_host_events
                         [new_event (new_meta (fst k) (snd k) gen SourceHeadless now) (PaneSpawned (sp_kind spec) (sp_title spec)),
                          new_event (new_meta (fst k) (snd k) gen SourceHeadless later)
                            (PaneStateChanged (map_option hp_state previous) PaneReady (Some ''headless spawn'') None)] h2,
                       Inr (headless_handle pane)))"

definition host_pane_handle :: "string \<Rightarrow> string \<Rightarrow> headless_host \<Rightarrow> (string, pane_handle) result" where
  "host_pane_handle session pane h =
     (case hm_get (hh_panes h) (session, pane) of
        None \<Rightarrow> Inl (runtime_error ''unknown headless pane handle'')
      | Some p \<Rightarrow> if hp_state p = PaneDead then Inl (runtime_error ''headless pane is closed'') else Inr (headless_handle p))"

definition host_pane_spawn_spec :: "string \<Rightarrow> string \<Rightarrow> headless_host \<Rightarrow> (string, pane_spawn_spec) result" where
  "host_pane_spawn_spec session pane h =
     (case hm_get (hh_panes h) (session, pane) of
        None \<Rightarrow> Inl (runtime_error ''unknown headless pane handle'')
      | Some p \<Rightarrow>
          Inr \<lparr>sp_session_id = hp_session_id p, sp_pane_id = hp_pane_id p, sp_kind = hp_kind p, sp_title = hp_title p, sp_cwd = hp_cwd p,
               sp_command = hp_command p, sp_env = hp_env p, sp_rows = hp_rows p, sp_cols = hp_cols p\<rparr>)"

definition pane_for_handle :: "pane_handle \<Rightarrow> headless_host \<Rightarrow> (string, headless_pane) result" where
  \<comment> \<open>\<open>validate_headless_handle\<close>, then \<open>pane_for_handle_mut\<close>\<close>
  "pane_for_handle ph h =
     (if ph_source ph \<noteq> SourceHeadless then Inl (runtime_error ''terminal handle belongs to a different host'')
      else case hm_get (hh_panes h) (ph_session_id ph, ph_pane_id ph) of
        None \<Rightarrow> Inl (runtime_error ''unknown headless pane handle'')
      | Some p \<Rightarrow>
          if hp_generation p \<noteq> ph_generation ph
          then Inl (runtime_error (''stale headless pane handle: requested generation '' @ show_generation (ph_generation ph) @
                 '', current generation '' @ show_generation (hp_generation p)))
          else Inr p)"

definition pane_for_open_handle :: "pane_handle \<Rightarrow> headless_host \<Rightarrow> (string, headless_pane) result" where
  "pane_for_open_handle ph h =
     (case pane_for_handle ph h of
        Inl e \<Rightarrow> Inl e
      | Inr p \<Rightarrow> if hp_state p = PaneDead then Inl (runtime_error ''headless pane is closed'') else Inr p)"

definition put_pane :: "pane_handle \<Rightarrow> headless_pane \<Rightarrow> headless_host \<Rightarrow> headless_host" where
  "put_pane ph p h = h\<lparr>hh_panes := hm_insert (ph_session_id ph, ph_pane_id ph) p (hh_panes h)\<rparr>"

definition handle_event :: "pane_handle \<Rightarrow> nat \<Rightarrow> runtime_event_kind \<Rightarrow> runtime_event" where
  "handle_event ph now k = new_event (new_meta (ph_session_id ph) (ph_pane_id ph) (ph_generation ph) (ph_source ph) now) k"

definition host_close_pane :: "pane_handle \<Rightarrow> headless_host \<Rightarrow> headless_host \<times> (string, unit) result" where
  "host_close_pane ph h =
     (case pane_for_handle ph h of
        Inl e \<Rightarrow> (h, Inl e)
      | Inr p \<Rightarrow>
          if hp_state p = PaneDead then (h, Inr ())
          else (case next_timestamp h of
                  (h1, now) \<Rightarrow>
                    (record_host_events [handle_event ph now (PaneExited None (Some ''closed''))]
                       (put_pane ph (p\<lparr>hp_state := PaneDead, hp_exit_code := None, hp_exit_reason := Some ''closed'', hp_last_event_ms := now\<rparr>) h1),
                     Inr ())))"

definition host_send_input :: "pane_handle \<Rightarrow> string \<Rightarrow> headless_host \<Rightarrow> headless_host \<times> (string, unit) result" where
  "host_send_input ph bytes h =
     (case pane_for_open_handle ph h of
        Inl e \<Rightarrow> (h, Inl e)
      | Inr p \<Rightarrow>
          (case next_timestamp h of
             (h1, now) \<Rightarrow>
               (record_host_events
                  [handle_event ph now (ActivityObserved (ActivityOther ''terminal_input'') (Some (show_nat (length bytes) @ '' bytes'')))]
                  (put_pane ph (p\<lparr>hp_input_bytes := trim_last (max (hh_max_transcript_bytes h) 1) (hp_input_bytes p @ bytes),
                                  hp_last_event_ms := now\<rparr>) h1),
                Inr ())))"

definition show_size :: "nat \<Rightarrow> nat \<Rightarrow> string" where
  "show_size rows cols = show_nat cols @ ''x'' @ show_nat rows"

definition host_resize_pane :: "pane_handle \<Rightarrow> nat \<Rightarrow> nat \<Rightarrow> headless_host \<Rightarrow> headless_host \<times> (string, unit) result" where
  "host_resize_pane ph rows cols h =
     (if ph_source ph \<noteq> SourceHeadless then (h, Inl (runtime_error ''terminal handle belongs to a different host''))
      else if rows = 0 \<or> cols = 0 then (h, Inl (runtime_error ''headless resize requires non-zero dimensions''))
      else case pane_for_open_handle ph h of
        Inl e \<Rightarrow> (h, Inl e)
      | Inr p \<Rightarrow>
          (case next_timestamp h of
             (h1, now) \<Rightarrow>
               (record_host_events
                  [handle_event ph now (ActivityObserved (ActivityOther ''terminal_resize'') (Some (show_size rows cols)))]
                  (put_pane ph (p\<lparr>hp_rows := rows, hp_cols := cols, hp_last_event_ms := now\<rparr>) h1),
                Inr ())))"

subsection \<open>The command port\<close>

record 'w host_adapter =
  ha_source :: runtime_source
  ha_spawn_pane :: "pane_spawn_spec \<Rightarrow> 'w \<Rightarrow> 'w \<times> (string, pane_handle) result"
  ha_pane_handle :: "string \<Rightarrow> string \<Rightarrow> 'w \<Rightarrow> (string, pane_handle) result"
  ha_pane_spawn_spec :: "string \<Rightarrow> string \<Rightarrow> 'w \<Rightarrow> (string, pane_spawn_spec) result"
  ha_close_pane :: "pane_handle \<Rightarrow> 'w \<Rightarrow> 'w \<times> (string, unit) result"
  ha_send_input :: "pane_handle \<Rightarrow> string \<Rightarrow> 'w \<Rightarrow> 'w \<times> (string, unit) result"
  ha_resize_pane :: "pane_handle \<Rightarrow> nat \<Rightarrow> nat \<Rightarrow> 'w \<Rightarrow> 'w \<times> (string, unit) result"

record 'w command_port =
  cp_host :: "'w host_adapter"
  cp_sink :: "(runtime_event \<Rightarrow> 'w \<Rightarrow> 'w \<times> (string, unit) result) option"
  cp_default_rows :: nat
  cp_default_cols :: nat
  cp_now :: nat

type_synonym 'w port_result = "'w \<times> (string, runtime_command_result) result"

definition host_applied :: "string \<Rightarrow> string \<Rightarrow> runtime_command_result" where
  "host_applied cid message = \<lparr>cr_command_id = cid, cr_status = CommandApplied, cr_message = Some message\<rparr>"

definition host_rejected :: "string \<Rightarrow> string \<Rightarrow> runtime_command_result" where
  "host_rejected cid message = \<lparr>cr_command_id = cid, cr_status = CommandRejected, cr_message = Some message\<rparr>"

definition target_handle :: "'w command_port \<Rightarrow> runtime_command \<Rightarrow> string \<Rightarrow> 'w \<Rightarrow> (runtime_command_result, pane_handle) result" where
  "target_handle port c operation w =
     (case ct_pane_id (rc_target c) of
        None \<Rightarrow> Inl (host_rejected (rc_command_id c) (operation @ '' requires a pane target''))
      | Some pane \<Rightarrow>
          (case ct_generation (rc_target c) of
             None \<Rightarrow>
               (case ha_pane_handle (cp_host port) (ct_session_id (rc_target c)) pane w of
                  Inl e \<Rightarrow> Inl (host_rejected (rc_command_id c) e)
                | Inr ph \<Rightarrow> Inr ph)
           | Some gen \<Rightarrow>
               Inr \<lparr>ph_session_id = ct_session_id (rc_target c), ph_pane_id = pane, ph_generation = gen, ph_source = ha_source (cp_host port)\<rparr>))"

definition emit :: "'w command_port \<Rightarrow> runtime_event \<Rightarrow> 'w \<Rightarrow> 'w \<times> (string, unit) result" where
  "emit port ev w = (case cp_sink port of None \<Rightarrow> (w, Inr ()) | Some publish \<Rightarrow> publish ev w)"

fun emit_then :: "'w command_port \<Rightarrow> runtime_event list \<Rightarrow> runtime_command_result \<Rightarrow> 'w \<Rightarrow> 'w port_result" where
  \<comment> \<open>emit the events in order, give up at the first that is refused, then answer\<close>
  "emit_then port [] r w = (w, Inr r)"
| "emit_then port (ev # evs) r w =
     (case emit port ev w of (w1, Inl e) \<Rightarrow> (w1, Inl e) | (w1, Inr _) \<Rightarrow> emit_then port evs r w1)"

definition on_handle ::
    "'w command_port \<Rightarrow> runtime_command \<Rightarrow> string \<Rightarrow> (pane_handle \<Rightarrow> 'w \<Rightarrow> 'w \<times> (string, unit) result) \<Rightarrow>
     (pane_handle \<Rightarrow> runtime_event) \<Rightarrow> string \<Rightarrow> 'w \<Rightarrow> 'w port_result" where
  \<comment> \<open>the arms that act on one pane: resolve the handle, act, emit one event, answer\<close>
  "on_handle port c operation act ev message w =
     (case target_handle port c operation w of
        Inl r \<Rightarrow> (w, Inr r)
      | Inr ph \<Rightarrow>
          (case act ph w of
             (w1, Inl e) \<Rightarrow> (w1, Inr (host_rejected (rc_command_id c) e))
           | (w1, Inr _) \<Rightarrow> emit_then port [ev ph] (host_applied (rc_command_id c) message) w1))"

definition terminal_prompt_input_parts :: "string \<Rightarrow> string list" where
  "terminal_prompt_input_parts text = [[CHR 0x15], trim text, [CHR 0x0D]]"

fun send_parts :: "'w host_adapter \<Rightarrow> string list \<Rightarrow> pane_handle \<Rightarrow> 'w \<Rightarrow> 'w \<times> (string, unit) result" where
  "send_parts a [] ph w = (w, Inr ())"
| "send_parts a (p # ps) ph w =
     (case ha_send_input a ph p w of (w1, Inl e) \<Rightarrow> (w1, Inl e) | (w1, Inr _) \<Rightarrow> send_parts a ps ph w1)"

definition spawn_events :: "'w command_port \<Rightarrow> pane_handle \<Rightarrow> runtime_pane_kind \<Rightarrow> string option \<Rightarrow> string \<Rightarrow> runtime_event list" where
  "spawn_events port ph kind title why =
     [handle_event ph (cp_now port) (PaneSpawned kind title),
      handle_event ph (cp_now port) (PaneStateChanged None PaneReady (Some why) None)]"

definition execute_spawn ::
    "'w command_port \<Rightarrow> runtime_command \<Rightarrow> pane_spawn_spec \<Rightarrow> 'w \<Rightarrow> 'w port_result" where
  "execute_spawn port c spec w =
     (case ha_spawn_pane (cp_host port) spec w of
        (w1, Inl e) \<Rightarrow> (w1, Inr (host_rejected (rc_command_id c) e))
      | (w1, Inr ph) \<Rightarrow>
          emit_then port (spawn_events port ph (sp_kind spec) (sp_title spec) ''terminal host spawn'')
            (host_applied (rc_command_id c) (''spawned pane '' @ [CHR 0x27] @ ph_pane_id ph @ [CHR 0x27] @ '' generation '' @ show_generation (ph_generation ph))) w1)"

definition execute_respawn :: "'w command_port \<Rightarrow> runtime_command \<Rightarrow> string \<Rightarrow> 'w \<Rightarrow> 'w port_result" where
  "execute_respawn port c reason w =
     (let cid = rc_command_id c; session = ct_session_id (rc_target c); a = cp_host port in
      case ct_pane_id (rc_target c) of
        None \<Rightarrow> (w, Inr (host_rejected cid ''respawn requires a pane target''))
      | Some pane \<Rightarrow>
          let live = (case ha_pane_handle a session pane w of Inr ph \<Rightarrow> Some ph | Inl _ \<Rightarrow> None);
              previous = (case live of Some ph \<Rightarrow> Some (ph_generation ph) | None \<Rightarrow> ct_generation (rc_target c))
          in (case ha_pane_spawn_spec a session pane w of
                Inl e \<Rightarrow> (w, Inr (host_rejected cid e))
              | Inr spec \<Rightarrow>
                  (case ha_spawn_pane a spec w of
                     (w1, Inl e) \<Rightarrow> (w1, Inr (host_rejected cid e))
                   | (w1, Inr new) \<Rightarrow>
                       let gen = (case previous of Some g \<Rightarrow> g | None \<Rightarrow> if ph_generation new = 0 then 0 else ph_generation new - 1);
                           old = (case live of Some ph \<Rightarrow> ph
                                  | None \<Rightarrow> \<lparr>ph_session_id = session, ph_pane_id = pane, ph_generation = gen, ph_source = ha_source a\<rparr>)
                       in emit_then port
                            (handle_event old (cp_now port) (PaneExited None (Some reason)) #
                             spawn_events port new (sp_kind spec) (sp_title spec) ''terminal host respawn'')
                            (host_applied cid (''pane respawned to generation '' @ show_generation (ph_generation new))) w1)))"

definition spawn_spec_of :: "'w command_port \<Rightarrow> runtime_command \<Rightarrow> runtime_pane_kind \<Rightarrow> string option \<Rightarrow> string option \<Rightarrow> string option \<Rightarrow>
     string list \<Rightarrow> (string \<times> string) list \<Rightarrow> nat option \<Rightarrow> nat option \<Rightarrow> pane_spawn_spec" where
  "spawn_spec_of port c kind pane title cwd cmd env rows cols =
     \<lparr>sp_session_id = ct_session_id (rc_target c),
      sp_pane_id = (case pane of Some p \<Rightarrow> p
                    | None \<Rightarrow> (case ct_pane_id (rc_target c) of Some p \<Rightarrow> p | None \<Rightarrow> ''pane-'' @ rc_command_id c)),
      sp_kind = kind, sp_title = title, sp_cwd = cwd, sp_command = cmd, sp_env = env,
      sp_rows = (case rows of Some r \<Rightarrow> r | None \<Rightarrow> cp_default_rows port),
      sp_cols = (case cols of Some r \<Rightarrow> r | None \<Rightarrow> cp_default_cols port)\<rparr>"

definition activity :: "'w command_port \<Rightarrow> string \<Rightarrow> string option \<Rightarrow> pane_handle \<Rightarrow> runtime_event" where
  "activity port name description ph = handle_event ph (cp_now port) (ActivityObserved (ActivityOther name) description)"

fun port_execute_kind :: "'w command_port \<Rightarrow> runtime_command \<Rightarrow> runtime_command_kind \<Rightarrow> 'w \<Rightarrow> 'w port_result" where
  "port_execute_kind port c (CmdSpawnPane kind pane title cwd cmd env rows cols) w =
     execute_spawn port c (spawn_spec_of port c kind pane title cwd cmd env rows cols) w"
| "port_execute_kind port c (CmdTerminalInput bytes) w =
     on_handle port c ''terminal input'' (\<lambda>ph. ha_send_input (cp_host port) ph bytes)
       (activity port ''terminal_input'' (Some (show_nat (length bytes) @ '' bytes''))) ''terminal input sent'' w"
| "port_execute_kind port c (CmdSendPrompt pid text _ _) w =
     on_handle port c ''prompt delivery'' (send_parts (cp_host port) (terminal_prompt_input_parts text))
       (\<lambda>ph. new_event (with_correlation_id pid
                (new_meta (ph_session_id ph) (ph_pane_id ph) (ph_generation ph) (ph_source ph) (cp_now port))) (PromptDelivered pid))
       ''prompt sent to terminal host'' w"
| "port_execute_kind port c (CmdResizePane rows cols) w =
     on_handle port c ''resize'' (\<lambda>ph. ha_resize_pane (cp_host port) ph rows cols)
       (activity port ''terminal_resize'' (Some (show_size rows cols))) (''pane resized to '' @ show_size rows cols) w"
| "port_execute_kind port c (CmdClosePane reason) w =
     on_handle port c ''close'' (ha_close_pane (cp_host port))
       (\<lambda>ph. handle_event ph (cp_now port) (PaneExited None (Some reason))) ''pane closed'' w"
| "port_execute_kind port c (CmdResetPane reason) w = execute_respawn port c reason w"
| "port_execute_kind port c (CmdRecyclePane reason) w = execute_respawn port c reason w"
| "port_execute_kind port c (CmdInterrupt _) w =
     on_handle port c ''interrupt'' (\<lambda>ph. ha_send_input (cp_host port) ph [CHR 0x03])
       (activity port ''terminal_interrupt'' None) ''interrupt sent'' w"
| "port_execute_kind port c (CmdQuarantinePane reason) w =
     on_handle port c ''quarantine'' (ha_close_pane (cp_host port))
       (\<lambda>ph. handle_event ph (cp_now port) (PaneExited None (Some (''quarantined: '' @ reason)))) ''pane quarantined'' w"
| "port_execute_kind port c (CmdBroadcastPrompt _ _ _) w =
     (w, Inr (host_rejected (rc_command_id c) ''runtime command is not supported by terminal host adapter''))"
| "port_execute_kind port c (CmdResolveApproval _ _) w =
     (w, Inr (host_rejected (rc_command_id c) ''runtime command is not supported by terminal host adapter''))"

definition port_execute :: "'w command_port \<Rightarrow> runtime_command \<Rightarrow> 'w \<Rightarrow> 'w port_result" where
  "port_execute port c w = port_execute_kind port c (rc_kind c) w"

end
