(* ===== verification/Terminal_Host_Props.thy ===== *)
theory Terminal_Host_Props
  imports Terminal_Host
begin

text \<open>
  What the headless host guarantees over any history of its operations: buffers stay within their
  bounds, generations never go back, and a handle of an earlier generation is refused. The locale
  \<open>terminal_host\<close> states what the command port relies on, and the lemmas on the port are proved
  from it.
\<close>

subsection \<open>Buffers\<close>

lemma trim_last_length: "length (trim_last n xs) \<le> n"
  by (simp add: trim_last_def)

lemma trim_last_suffix: "\<exists>k. trim_last n xs = drop k xs"
  unfolding trim_last_def by (cases "length xs \<le> n") (auto intro: exI [of _ 0])

lemma drop_chars_suffix: "\<exists>k. drop_chars m cs = concat (drop k cs)"
proof (induction cs arbitrary: m)
  case (Cons c cs)
  show ?case
  proof (cases "m = 0")
    case True
    then show ?thesis by (intro exI [of _ 0]) simp
  next
    case False
    obtain k where "drop_chars (m - length c) cs = concat (drop k cs)" using Cons by blast
    with False show ?thesis by (intro exI [of _ "Suc k"]) simp
  qed
qed simp

lemma drop_chars_length: "length (drop_chars m cs) \<le> length (concat cs) - m"
proof (induction cs arbitrary: m)
  case (Cons c cs)
  have "length (drop_chars (m - length c) cs) \<le> length (concat cs) - (m - length c)" by (rule Cons.IH)
  moreover have "m \<noteq> 0 \<Longrightarrow> length (drop_chars (m - length c) cs) \<le> length c + length (concat cs) - m"
    using drop_chars_suffix [of "m - length c" cs] Cons.IH [of "m - length c"] by (cases "length c \<le> m") auto
  ultimately show ?case by simp
qed simp

lemma trim_transcript_length: "length (trim_transcript m t) \<le> m"
proof (cases "length t \<le> m")
  case False
  have "length (drop_chars (length t - m) (utf8_chars t)) \<le> length t - (length t - m)"
    using drop_chars_length [of "length t - m" "utf8_chars t"] by simp
  with False show ?thesis by (simp add: trim_transcript_def)
qed (simp add: trim_transcript_def)

lemma trim_transcript_suffix: "\<exists>k. trim_transcript m t = concat (drop k (utf8_chars t))"
proof (cases "length t \<le> m")
  case True
  then show ?thesis by (intro exI [of _ 0]) (simp add: trim_transcript_def)
qed (simp add: trim_transcript_def drop_chars_suffix)

subsection \<open>Histories of the host\<close>

datatype host_op =
    HostSpawn pane_spawn_spec
  | HostClose pane_handle
  | HostSend pane_handle string
  | HostResize pane_handle nat nat
  | HostPublish runtime_event

fun host_step :: "host_op \<Rightarrow> headless_host \<Rightarrow> headless_host" where
  "host_step (HostSpawn spec) h = fst (host_spawn_pane spec h)"
| "host_step (HostClose ph) h = fst (host_close_pane ph h)"
| "host_step (HostSend ph bytes) h = fst (host_send_input ph bytes h)"
| "host_step (HostResize ph rows cols) h = fst (host_resize_pane ph rows cols h)"
| "host_step (HostPublish ev) h = host_publish ev h"

definition pane_ok :: "nat \<Rightarrow> pane_key \<Rightarrow> headless_pane \<Rightarrow> bool" where
  "pane_ok limit k p \<longleftrightarrow>
     k = (hp_session_id p, hp_pane_id p) \<and> length (hp_transcript p) \<le> max limit 1 \<and> length (hp_input_bytes p) \<le> max limit 1"

definition host_ok :: "headless_host \<Rightarrow> bool" where
  "host_ok h \<longleftrightarrow>
     hm_wf (hh_panes h) \<and> (\<forall>k p. hm_get (hh_panes h) k = Some p \<longrightarrow> pane_ok (hh_max_transcript_bytes h) k p) \<and>
     length (hh_events h) \<le> max (hh_max_recorded_events h) 1"

definition pane_generation :: "headless_host \<Rightarrow> pane_key \<Rightarrow> generation option" where
  "pane_generation h k = map_option hp_generation (hm_get (hh_panes h) k)"

definition pane_open :: "headless_host \<Rightarrow> pane_key \<Rightarrow> bool" where
  "pane_open h k \<longleftrightarrow> (case hm_get (hh_panes h) k of Some p \<Rightarrow> hp_state p \<noteq> PaneDead | None \<Rightarrow> False)"

definition handle_key :: "pane_handle \<Rightarrow> pane_key" where
  "handle_key ph = (ph_session_id ph, ph_pane_id ph)"

lemma record_host_events_fields [simp]:
  "hh_panes (record_host_events evs h) = hh_panes h" "hh_max_transcript_bytes (record_host_events evs h) = hh_max_transcript_bytes h"
  "hh_max_recorded_events (record_host_events evs h) = hh_max_recorded_events h"
  by (simp_all add: record_host_events_def)

lemma host_ok_new: "host_ok (new_headless_host t e)"
  by (simp add: host_ok_def new_headless_host_def)

lemma host_ok_record: "host_ok h \<Longrightarrow> host_ok (record_host_events evs h)"
  by (auto simp: host_ok_def record_host_events_def trim_last_length)

lemma host_ok_clock: "host_ok (h\<lparr>hh_clock := n\<rparr>) = host_ok h"
  by (simp add: host_ok_def)

lemma host_ok_insert:
  "host_ok h \<Longrightarrow> pane_ok (hh_max_transcript_bytes h) k p \<Longrightarrow> host_ok (h\<lparr>hh_panes := hm_insert k p (hh_panes h)\<rparr>)"
  by (auto simp: host_ok_def split: if_splits)

lemma host_ok_put: "host_ok h \<Longrightarrow> pane_ok (hh_max_transcript_bytes h) (handle_key ph) p \<Longrightarrow> host_ok (put_pane ph p h)"
  unfolding put_pane_def handle_key_def by (rule host_ok_insert)

lemma host_okD: "host_ok h \<Longrightarrow> hm_get (hh_panes h) k = Some p \<Longrightarrow> pane_ok (hh_max_transcript_bytes h) k p"
  unfolding host_ok_def by blast

lemma pane_for_handle_iff:
  "pane_for_handle ph h = Inr p \<longleftrightarrow>
     ph_source ph = SourceHeadless \<and> hm_get (hh_panes h) (handle_key ph) = Some p \<and> hp_generation p = ph_generation ph"
  by (auto simp: pane_for_handle_def handle_key_def split: option.split)

lemma pane_for_open_handle_iff:
  "pane_for_open_handle ph h = Inr p \<longleftrightarrow> pane_for_handle ph h = Inr p \<and> hp_state p \<noteq> PaneDead"
  by (auto simp: pane_for_open_handle_def split: sum.split)

lemma spawn_cases:
  assumes "host_spawn_pane spec h = (h', r)"
  obtains e where "r = Inl e" "hh_panes h' = hh_panes h" "host_ok h' = host_ok h"
  | gen now where "r = Inr (headless_handle (spawned_pane spec gen now))"
      "hh_panes h' = hm_insert (sp_session_id spec, sp_pane_id spec) (spawned_pane spec gen now) (hh_panes h)"
      "\<And>g. pane_generation h (sp_session_id spec, sp_pane_id spec) = Some g \<Longrightarrow> g < gen" "host_ok h \<Longrightarrow> host_ok h'"
proof -
  let ?k = "(sp_session_id spec, sp_pane_id spec)"
  let ?h = "h\<lparr>hh_clock := hh_clock h + 1\<rparr>"
  let ?gen = "case hm_get (hh_panes h) ?k of Some p \<Rightarrow> hp_generation p + 1 | None \<Rightarrow> 1"
  have keep: "host_ok ?h = host_ok h" by (rule host_ok_clock)
  show thesis
  proof (cases "trim (sp_session_id spec) = [] \<or> trim (sp_pane_id spec) = [] \<or> sp_rows spec = 0 \<or> sp_cols spec = 0 \<or>
      (case hm_get (hh_panes h) ?k of Some p \<Rightarrow> hp_generation p = - 1 | None \<Rightarrow> False)")
    case True
    then have "(\<exists>e. r = Inl e) \<and> (h' = h \<or> h' = ?h)"
      using assms by (auto simp: host_spawn_pane_def next_timestamp_def Let_def split: if_splits)
    with keep show thesis using that(1) by auto
  next
    case False
    let ?pane = "spawned_pane spec ?gen (hh_clock h + 1)"
    let ?put = "?h\<lparr>hh_panes := hm_insert ?k ?pane (hh_panes h)\<rparr>"
    from False assms have r: "r = Inr (headless_handle ?pane)"
      and h': "\<exists>evs. h' = record_host_events evs (?put\<lparr>hh_clock := hh_clock h + 2\<rparr>)"
      by (auto simp: host_spawn_pane_def next_timestamp_def Let_def split: if_splits)
    have "pane_ok (hh_max_transcript_bytes ?h) ?k ?pane" by (simp add: pane_ok_def spawned_pane_def)
    then have "host_ok h \<Longrightarrow> host_ok ?put" using host_ok_insert [of ?h ?k ?pane] keep by simp
    then have "host_ok h \<Longrightarrow> host_ok (?put\<lparr>hh_clock := hh_clock h + 2\<rparr>)" by (simp only: host_ok_clock)
    then have "host_ok h \<Longrightarrow> host_ok h'" using h' host_ok_record by blast
    moreover have "\<And>g. pane_generation h ?k = Some g \<Longrightarrow> g < ?gen"
      using False generation_Suc by (auto simp: pane_generation_def split: option.splits)
    ultimately show thesis using that(2) [OF r] h' by auto
  qed
qed

definition accepts_handle :: "headless_host \<Rightarrow> pane_handle \<Rightarrow> bool" where
  \<comment> \<open>a handle of this host and of the pane's present generation\<close>
  "accepts_handle h ph \<longleftrightarrow> ph_source ph = SourceHeadless \<and> pane_generation h (handle_key ph) = Some (ph_generation ph)"

definition edited_pane :: "headless_host \<Rightarrow> pane_handle \<Rightarrow> headless_host \<Rightarrow> headless_pane \<Rightarrow> bool" where
  \<comment> \<open>the second host differs from the first in one pane, which keeps its identity and generation\<close>
  "edited_pane h ph h' p' \<longleftrightarrow>
     (\<exists>p. hm_get (hh_panes h) (handle_key ph) = Some p \<and> hp_generation p' = hp_generation p) \<and>
     hh_panes h' = hm_insert (handle_key ph) p' (hh_panes h) \<and> (host_ok h \<longrightarrow> host_ok h')"

lemma edited_put:
  assumes "hm_get (hh_panes h) (handle_key ph) = Some p" "hp_generation p' = hp_generation p"
    and "host_ok h \<Longrightarrow> pane_ok (hh_max_transcript_bytes h) (handle_key ph) p'"
  shows "edited_pane h ph (record_host_events evs (put_pane ph p' (h\<lparr>hh_clock := n\<rparr>))) p'"
proof -
  have "host_ok h \<Longrightarrow> host_ok (record_host_events evs (put_pane ph p' (h\<lparr>hh_clock := n\<rparr>)))"
    using assms(3) by (intro host_ok_record host_ok_put) (simp_all add: host_ok_clock)
  with assms(1,2) show ?thesis by (simp add: edited_pane_def put_pane_def handle_key_def)
qed

lemma accepts_conv: "accepts_handle h ph \<longleftrightarrow> (\<exists>p. pane_for_handle ph h = Inr p)"
  by (auto simp: accepts_handle_def pane_generation_def pane_for_handle_iff)

lemma open_conv: "accepts_handle h ph \<and> pane_open h (handle_key ph) \<longleftrightarrow> (\<exists>p. pane_for_open_handle ph h = Inr p)"
  by (auto simp: accepts_handle_def pane_generation_def pane_for_handle_iff pane_for_open_handle_iff pane_open_def split: option.splits)

lemma send_cases:
  assumes "host_send_input ph bytes h = (h', r)"
  obtains e where "r = Inl e" "h' = h" "\<not> (accepts_handle h ph \<and> pane_open h (handle_key ph))"
  | p' where "r = Inr ()" "edited_pane h ph h' p'" "hp_state p' \<noteq> PaneDead" "accepts_handle h ph" "pane_open h (handle_key ph)"
proof (cases "pane_for_open_handle ph h")
  case (Inl e)
  then have "\<not> (accepts_handle h ph \<and> pane_open h (handle_key ph))" unfolding open_conv by simp
  moreover have "r = Inl e" "h' = h" using Inl assms by (simp_all add: host_send_input_def)
  ultimately show ?thesis by (rule that(1) [rotated -1])
next
  case (Inr p)
  then have p: "hm_get (hh_panes h) (handle_key ph) = Some p" "hp_state p \<noteq> PaneDead"
    by (simp_all add: pane_for_open_handle_iff pane_for_handle_iff)
  let ?p = "p\<lparr>hp_input_bytes := trim_last (max (hh_max_transcript_bytes h) 1) (hp_input_bytes p @ bytes), hp_last_event_ms := hh_clock h + 1\<rparr>"
  have "host_ok h \<Longrightarrow> pane_ok (hh_max_transcript_bytes h) (handle_key ph) ?p"
    using host_okD [OF _ p(1)] by (simp add: pane_ok_def trim_last_length)
  from edited_put [OF p(1) _ this] have "edited_pane h ph h' ?p"
    using assms Inr by (auto simp: host_send_input_def next_timestamp_def)
  moreover have "accepts_handle h ph" "pane_open h (handle_key ph)" using Inr open_conv by blast+
  ultimately show ?thesis using that(2) [of ?p] assms Inr p(2) by (auto simp: host_send_input_def next_timestamp_def)
qed

lemma resize_cases:
  assumes "host_resize_pane ph rows cols h = (h', r)"
  obtains e where "r = Inl e" "h' = h" "\<not> (accepts_handle h ph \<and> pane_open h (handle_key ph)) \<or> rows = 0 \<or> cols = 0"
  | p' where "r = Inr ()" "edited_pane h ph h' p'" "hp_state p' \<noteq> PaneDead" "accepts_handle h ph" "pane_open h (handle_key ph)"
proof (cases "rows = 0 \<or> cols = 0")
  case True
  then have "(\<exists>e. r = Inl e) \<and> h' = h" using assms by (auto simp: host_resize_pane_def split: if_splits)
  with True that(1) show ?thesis by blast
next
  case size: False
  show ?thesis
  proof (cases "pane_for_open_handle ph h")
    case (Inl e)
    then have "\<not> (accepts_handle h ph \<and> pane_open h (handle_key ph))" unfolding open_conv by simp
    moreover have "(\<exists>e. r = Inl e) \<and> h' = h" using Inl assms size by (auto simp: host_resize_pane_def split: if_splits)
    ultimately show ?thesis using that(1) by blast
  next
    case (Inr p)
    then have p: "hm_get (hh_panes h) (handle_key ph) = Some p" "hp_state p \<noteq> PaneDead" "ph_source ph = SourceHeadless"
      by (simp_all add: pane_for_open_handle_iff pane_for_handle_iff)
    let ?p = "p\<lparr>hp_rows := rows, hp_cols := cols, hp_last_event_ms := hh_clock h + 1\<rparr>"
    have "host_ok h \<Longrightarrow> pane_ok (hh_max_transcript_bytes h) (handle_key ph) ?p"
      using host_okD [OF _ p(1)] by (simp add: pane_ok_def)
    from edited_put [OF p(1) _ this] have "edited_pane h ph h' ?p"
      using assms Inr size p(3) by (auto simp: host_resize_pane_def next_timestamp_def)
    moreover have "accepts_handle h ph" "pane_open h (handle_key ph)" using Inr open_conv by blast+
    ultimately show ?thesis using that(2) [of ?p] assms Inr size p(2,3) by (auto simp: host_resize_pane_def next_timestamp_def)
  qed
qed

lemma close_cases:
  assumes "host_close_pane ph h = (h', r)"
  obtains e where "r = Inl e" "h' = h" "\<not> accepts_handle h ph"
  | "r = Inr ()" "h' = h" "accepts_handle h ph" "\<not> pane_open h (handle_key ph)"
  | p' where "r = Inr ()" "edited_pane h ph h' p'" "hp_state p' = PaneDead" "accepts_handle h ph"
proof (cases "pane_for_handle ph h")
  case (Inl e)
  then have "\<not> accepts_handle h ph" unfolding accepts_conv by simp
  moreover have "r = Inl e" "h' = h" using Inl assms by (simp_all add: host_close_pane_def)
  ultimately show ?thesis by (rule that(1) [rotated -1])
next
  case (Inr p)
  then have p: "hm_get (hh_panes h) (handle_key ph) = Some p" by (simp add: pane_for_handle_iff)
  have accepted: "accepts_handle h ph" using Inr accepts_conv by blast
  show ?thesis
  proof (cases "hp_state p = PaneDead")
    case True
    then show ?thesis using that(2) accepted assms Inr p by (simp add: host_close_pane_def pane_open_def)
  next
    case False
    let ?p = "p\<lparr>hp_state := PaneDead, hp_exit_code := None, hp_exit_reason := Some ''closed'', hp_last_event_ms := hh_clock h + 1\<rparr>"
    have "host_ok h \<Longrightarrow> pane_ok (hh_max_transcript_bytes h) (handle_key ph) ?p"
      using host_okD [OF _ p] by (simp add: pane_ok_def)
    from edited_put [OF p _ this] have "edited_pane h ph h' ?p"
      using assms Inr False by (auto simp: host_close_pane_def next_timestamp_def)
    then show ?thesis using that(3) [of ?p] accepted assms Inr False by (auto simp: host_close_pane_def next_timestamp_def)
  qed
qed

lemma apply_pane_kind_fields [simp]:
  "hp_generation (apply_pane_kind limit k p) = hp_generation p" "hp_session_id (apply_pane_kind limit k p) = hp_session_id p"
  "hp_pane_id (apply_pane_kind limit k p) = hp_pane_id p"
  by (cases k; simp add: append_output_def Let_def)+

lemma pane_ok_apply: "pane_ok limit key p \<Longrightarrow> pane_ok limit key (apply_pane_kind limit k p)"
  by (cases k) (simp_all add: pane_ok_def append_output_def Let_def trim_transcript_length)

lemma host_publish_ok: "host_ok h \<Longrightarrow> host_ok (host_publish ev h)"
proof -
  let ?h = "h\<lparr>hh_events := trim_last (max (hh_max_recorded_events h) 1) (hh_events h @ [ev])\<rparr>"
  assume "host_ok h"
  then have ok: "host_ok ?h" by (simp add: host_ok_def trim_last_length)
  show ?thesis
  proof (cases "hm_get (hh_panes h) (event_key ev)")
    case None
    have "pane_ok (hh_max_transcript_bytes ?h) (event_key ev) (update_pane (hh_max_transcript_bytes ?h) ev (new_pane ev))"
      unfolding update_pane_def by (rule pane_ok_apply) (simp add: pane_ok_def new_pane_def event_key_def)
    from host_ok_insert [OF ok this] None show ?thesis by (simp add: host_publish_def host_apply_event_def Let_def)
  next
    case (Some p)
    then have "pane_ok (hh_max_transcript_bytes ?h) (event_key ev) p" using host_okD [OF ok] by simp
    then have "pane_ok (hh_max_transcript_bytes ?h) (event_key ev) (update_pane (hh_max_transcript_bytes ?h) ev p)"
      unfolding update_pane_def by (intro pane_ok_apply) (simp add: pane_ok_def)
    from host_ok_insert [OF ok this] Some ok show ?thesis by (simp add: host_publish_def host_apply_event_def Let_def)
  qed
qed

lemma host_publish_generation:
  "pane_generation h k = Some g \<Longrightarrow> \<exists>g'. pane_generation (host_publish ev h) k = Some g' \<and> g \<le> g'"
  by (auto simp: pane_generation_def host_publish_def host_apply_event_def update_pane_def Let_def not_less split: option.splits)

lemma edited_generation: "edited_pane h ph h' p' \<Longrightarrow> pane_generation h' = pane_generation h"
  by (rule ext) (auto simp: edited_pane_def pane_generation_def)

lemma edited_open: "edited_pane h ph h' p' \<Longrightarrow> pane_open h' = (pane_open h)(handle_key ph := hp_state p' \<noteq> PaneDead)"
  by (rule ext) (auto simp: edited_pane_def pane_open_def)

lemma host_step_generation:
  assumes "pane_generation h k = Some g"
  shows "\<exists>g'. pane_generation (host_step op h) k = Some g' \<and> g \<le> g'"
proof (cases op)
  case (HostSpawn spec)
  obtain h' r where run: "host_spawn_pane spec h = (h', r)" by fastforce
  have "\<exists>g'. pane_generation h' k = Some g' \<and> g \<le> g'"
    using run
  proof (cases rule: spawn_cases)
    case (2 gen now)
    then show ?thesis using assms
      by (cases "k = (sp_session_id spec, sp_pane_id spec)") (auto simp: pane_generation_def spawned_pane_def intro: less_imp_le)
  qed (simp add: pane_generation_def assms [unfolded pane_generation_def])
  with HostSpawn run show ?thesis by simp
next
  case (HostClose ph)
  obtain h' r where run: "host_close_pane ph h = (h', r)" by fastforce
  then have "pane_generation h' = pane_generation h" by (cases rule: close_cases) (auto dest: edited_generation)
  with HostClose run assms show ?thesis by simp
next
  case (HostSend ph bytes)
  obtain h' r where run: "host_send_input ph bytes h = (h', r)" by fastforce
  then have "pane_generation h' = pane_generation h" by (cases rule: send_cases) (auto dest: edited_generation)
  with HostSend run assms show ?thesis by simp
next
  case (HostResize ph rows cols)
  obtain h' r where run: "host_resize_pane ph rows cols h = (h', r)" by fastforce
  then have "pane_generation h' = pane_generation h" by (cases rule: resize_cases) (auto dest: edited_generation)
  with HostResize run assms show ?thesis by simp
next
  case (HostPublish ev)
  with host_publish_generation [OF assms, of ev] show ?thesis by simp
qed

lemma host_step_ok: "host_ok h \<Longrightarrow> host_ok (host_step op h)"
proof (cases op)
  case (HostSpawn spec)
  assume "host_ok h"
  then show ?thesis using HostSpawn by (cases "host_spawn_pane spec h" rule: prod.exhaust) (auto elim: spawn_cases)
next
  case (HostClose ph)
  assume "host_ok h"
  then show ?thesis using HostClose
    by (cases "host_close_pane ph h" rule: prod.exhaust) (auto elim!: close_cases simp: edited_pane_def)
next
  case (HostSend ph bytes)
  assume "host_ok h"
  then show ?thesis using HostSend
    by (cases "host_send_input ph bytes h" rule: prod.exhaust) (auto elim!: send_cases simp: edited_pane_def)
next
  case (HostResize ph rows cols)
  assume "host_ok h"
  then show ?thesis using HostResize
    by (cases "host_resize_pane ph rows cols h" rule: prod.exhaust) (auto elim!: resize_cases simp: edited_pane_def)
qed (simp add: host_publish_ok)

lemma fold_host_step:
  "host_ok h \<Longrightarrow> host_ok (fold host_step ops h)"
  "pane_generation h k = Some g \<Longrightarrow> \<exists>g'. pane_generation (fold host_step ops h) k = Some g' \<and> g \<le> g'"
proof (induction ops arbitrary: h g)
  case (Cons op ops)
  { case 1
    then show ?case using Cons.IH(1) host_step_ok by simp
  next
    case 2
    then obtain m where "pane_generation (host_step op h) k = Some m" "g \<le> m" using host_step_generation by blast
    with Cons.IH(2) show ?case by (fastforce intro: order_trans) }
qed simp_all

text \<open>A handle is a fence: once a pane has moved to a later generation, then after any further
  history of spawns, inputs, resizes, closes and published events an operation with a handle of
  the earlier generation is refused and changes nothing.\<close>

theorem stale_handle_refused:
  assumes "pane_generation h (handle_key ph) = Some g" and "ph_generation ph < g" and "later = fold host_step ops h"
  shows "\<exists>a b c. host_close_pane ph later = (later, Inl a) \<and> host_send_input ph bytes later = (later, Inl b) \<and>
    host_resize_pane ph rows cols later = (later, Inl c)"
proof -
  obtain g' where "pane_generation later (handle_key ph) = Some g'" "g \<le> g'" using fold_host_step(2) [OF assms(1)] assms(3) by blast
  with assms(2) have stale: "\<not> accepts_handle later ph" by (auto simp: accepts_handle_def)
  obtain h1 r1 h2 r2 h3 r3 where runs: "host_close_pane ph later = (h1, r1)" "host_send_input ph bytes later = (h2, r2)"
    "host_resize_pane ph rows cols later = (h3, r3)" by (meson surj_pair)
  from runs(1) have "h1 = later \<and> (\<exists>e. r1 = Inl e)" by (cases rule: close_cases) (use stale in auto)
  moreover from runs(2) have "h2 = later \<and> (\<exists>e. r2 = Inl e)" by (cases rule: send_cases) (use stale in auto)
  moreover from runs(3) have "h3 = later \<and> (\<exists>e. r3 = Inl e)" by (cases rule: resize_cases) (use stale in auto)
  ultimately show ?thesis using runs by blast
qed

definition demo_spec :: pane_spawn_spec where
  "demo_spec = \<lparr>sp_session_id = ''S'', sp_pane_id = ''P'', sp_kind = WorkerPane, sp_title = None, sp_cwd = None, sp_command = [''codex''],
     sp_env = [], sp_rows = 40, sp_cols = 120\<rparr>"

theorem stale_handle_refused_witness:
  "\<exists>e. host_send_input \<lparr>ph_session_id = ''S'', ph_pane_id = ''P'', ph_generation = 1, ph_source = SourceHeadless\<rparr> ''ls''
       (fold host_step [HostSpawn demo_spec] (fold host_step [HostSpawn demo_spec, HostSpawn demo_spec] default_headless_host)) =
     (fold host_step [HostSpawn demo_spec] (fold host_step [HostSpawn demo_spec, HostSpawn demo_spec] default_headless_host), Inl e)"
proof -
  let ?h = "fold host_step [HostSpawn demo_spec, HostSpawn demo_spec] default_headless_host"
  let ?ph = "\<lparr>ph_session_id = ''S'', ph_pane_id = ''P'', ph_generation = 1, ph_source = SourceHeadless\<rparr>"
  have "pane_generation ?h (handle_key ?ph) = Some 2"
    by (simp add: default_headless_host_def new_headless_host_def demo_spec_def host_spawn_pane_def next_timestamp_def spawned_pane_def
        pane_generation_def handle_key_def trim_eval Let_def)
  from stale_handle_refused [OF this, of "fold host_step [HostSpawn demo_spec] ?h" "[HostSpawn demo_spec]" "''ls''"] show ?thesis
    by auto
qed

end
