(* ===== verification/Terminal_Port.thy ===== *)
theory Terminal_Port
  imports Terminal_Host_Props
begin

text \<open>
  The command port over any terminal host that keeps the contract \<open>terminal_host\<close>: which commands
  it carries out and what they do to the panes' generations.
\<close>

definition later_panes :: "(pane_key \<Rightarrow> generation option) \<Rightarrow> (pane_key \<Rightarrow> generation option) \<Rightarrow> bool" where
  \<comment> \<open>no pane disappears or goes back to an earlier generation\<close>
  "later_panes before after \<longleftrightarrow> (\<forall>k g. before k = Some g \<longrightarrow> (\<exists>g'. after k = Some g' \<and> g \<le> g'))"

fun acts_on_pane :: "runtime_command_kind \<Rightarrow> bool" where
  "acts_on_pane (CmdSendPrompt _ _ _ _) = True"
| "acts_on_pane (CmdTerminalInput _) = True"
| "acts_on_pane (CmdInterrupt _) = True"
| "acts_on_pane (CmdResizePane _ _) = True"
| "acts_on_pane (CmdClosePane _) = True"
| "acts_on_pane (CmdQuarantinePane _) = True"
| "acts_on_pane _ = False"

fun respawns_pane :: "runtime_command_kind \<Rightarrow> bool" where
  "respawns_pane (CmdResetPane _) = True"
| "respawns_pane (CmdRecyclePane _) = True"
| "respawns_pane _ = False"

subsection \<open>What the port relies on\<close>

text \<open>A host shows the generation of each pane and whether the pane is open. Events put into the sink
  leave both alone; spawning starts a later generation; the other operations accept exactly handles
  of the present generation.\<close>

locale terminal_host =
  fixes port :: "'w command_port"
    and publish :: "runtime_event \<Rightarrow> 'w \<Rightarrow> 'w \<times> (string, unit) result"
    and ok :: "'w \<Rightarrow> bool"
    and gen :: "'w \<Rightarrow> pane_key \<Rightarrow> generation option"
    and opened :: "'w \<Rightarrow> pane_key \<Rightarrow> bool"
  assumes sink: "cp_sink port = Some publish"
    and publish_law: "publish ev w = (w', r) \<Longrightarrow> gen w' = gen w \<and> opened w' = opened w \<and> (ok w \<longrightarrow> ok w')"
    and handle_law: "ok w \<Longrightarrow> ha_pane_handle (cp_host port) s p w = Inr ph \<Longrightarrow>
      handle_key ph = (s, p) \<and> gen w (s, p) = Some (ph_generation ph) \<and> opened w (s, p) \<and> ph_source ph = ha_source (cp_host port)"
    and spec_law: "ok w \<Longrightarrow> ha_pane_spawn_spec (cp_host port) s p w = Inr spec \<Longrightarrow> sp_session_id spec = s \<and> sp_pane_id spec = p"
    and spawn_law: "ok w \<Longrightarrow> ha_spawn_pane (cp_host port) spec w = (w', Inr ph) \<Longrightarrow>
      ok w' \<and> handle_key ph = (sp_session_id spec, sp_pane_id spec) \<and> ph_source ph = ha_source (cp_host port) \<and>
      gen w' = (gen w)(handle_key ph := Some (ph_generation ph)) \<and> opened w' = (opened w)(handle_key ph := True) \<and>
      (\<forall>g. gen w (handle_key ph) = Some g \<longrightarrow> g < ph_generation ph)"
    and spawn_refused: "ok w \<Longrightarrow> ha_spawn_pane (cp_host port) spec w = (w', Inl e) \<Longrightarrow> ok w' \<and> gen w' = gen w \<and> opened w' = opened w"
    and send_law: "ok w \<Longrightarrow> ha_send_input (cp_host port) ph bytes w = (w', r) \<Longrightarrow>
      ok w' \<and> gen w' = gen w \<and> opened w' = opened w \<and>
      (is_ok r \<longleftrightarrow> ph_source ph = ha_source (cp_host port) \<and> gen w (handle_key ph) = Some (ph_generation ph) \<and> opened w (handle_key ph))"
    and resize_law: "ok w \<Longrightarrow> ha_resize_pane (cp_host port) ph rows cols w = (w', r) \<Longrightarrow>
      ok w' \<and> gen w' = gen w \<and> opened w' = opened w \<and>
      (is_ok r \<longrightarrow> gen w (handle_key ph) = Some (ph_generation ph) \<and> opened w (handle_key ph))"
    and close_law: "ok w \<Longrightarrow> ha_close_pane (cp_host port) ph w = (w', r) \<Longrightarrow>
      ok w' \<and> gen w' = gen w \<and> opened w' = (if is_ok r then (opened w)(handle_key ph := False) else opened w) \<and>
      (is_ok r \<longrightarrow> gen w (handle_key ph) = Some (ph_generation ph))"
begin

lemma emit_law: "emit port ev w = (w', r) \<Longrightarrow> gen w' = gen w \<and> opened w' = opened w \<and> (ok w \<longrightarrow> ok w')"
  using publish_law by (simp add: emit_def sink)

lemma emit_then_law:
  "emit_then port evs res w = (w', r) \<Longrightarrow> gen w' = gen w \<and> opened w' = opened w \<and> (ok w \<longrightarrow> ok w') \<and> (r = Inr res \<or> \<not> is_ok r)"
proof (induction evs arbitrary: w)
  case (Cons ev evs)
  obtain w1 r1 where one: "emit port ev w = (w1, r1)" by fastforce
  from emit_law [OF one] Cons one show ?case by (cases r1) (auto dest: Cons.IH)
qed simp

lemma target_law:
  assumes "ok w" "target_handle port c operation w = Inr ph"
  shows "ct_pane_id (rc_target c) = Some (ph_pane_id ph) \<and> ct_session_id (rc_target c) = ph_session_id ph \<and>
    ph_source ph = ha_source (cp_host port) \<and> (ct_generation (rc_target c) \<noteq> None \<longrightarrow> ct_generation (rc_target c) = Some (ph_generation ph))"
  using assms handle_law [OF assms(1)]
  by (auto simp: target_handle_def handle_key_def split: option.splits sum.splits)

lemma send_parts_law:
  assumes "ok w" "send_parts (cp_host port) ps ph w = (w', r)"
  shows "ok w' \<and> gen w' = gen w \<and> opened w' = opened w \<and>
    (is_ok r \<and> ps \<noteq> [] \<longrightarrow> gen w (handle_key ph) = Some (ph_generation ph) \<and> opened w (handle_key ph))"
  using assms
proof (induction ps arbitrary: w)
  case (Cons p ps)
  obtain w1 r1 where one: "ha_send_input (cp_host port) ph p w = (w1, r1)" by fastforce
  from send_law [OF Cons.prems(1) one] have law: "ok w1" "gen w1 = gen w" "opened w1 = opened w"
    and iff: "is_ok r1 \<longleftrightarrow> ph_source ph = ha_source (cp_host port) \<and> gen w (handle_key ph) = Some (ph_generation ph) \<and> opened w (handle_key ph)"
    by blast+
  show ?case
  proof (cases r1)
    case (Inl e)
    with Cons.prems(2) one law show ?thesis by auto
  next
    case (Inr u)
    with Cons.prems(2) one have rest: "send_parts (cp_host port) ps ph w1 = (w', r)" by simp
    from Cons.IH [OF law(1) rest] law iff Inr show ?thesis by simp
  qed
qed simp

text \<open>The arms of the port that act on one pane.\<close>

lemma on_handle_law:
  assumes "ok w" and run: "on_handle port c operation act ev message w = (w', r)"
    and act: "\<And>ph w1 r. act ph w = (w1, r) \<Longrightarrow> ok w1 \<and> gen w1 = gen w \<and> (is_ok r \<longrightarrow> gen w (handle_key ph) = Some (ph_generation ph))"
  shows "ok w' \<and> gen w' = gen w \<and>
    (\<forall>res. r = Inr res \<and> cr_status res = CommandApplied \<longrightarrow>
       (\<exists>pane g. ct_pane_id (rc_target c) = Some pane \<and> gen w (ct_session_id (rc_target c), pane) = Some g \<and>
          (ct_generation (rc_target c) = None \<or> ct_generation (rc_target c) = Some g)))"
proof (cases "target_handle port c operation w")
  case (Inl r1)
  then have "cr_status r1 = CommandRejected"
    by (auto simp: target_handle_def host_rejected_def split: option.splits sum.splits)
  with Inl run assms(1) show ?thesis by (auto simp: on_handle_def)
next
  case (Inr ph)
  obtain w1 r1 where one: "act ph w = (w1, r1)" by fastforce
  from act [OF one] have law: "ok w1" "gen w1 = gen w" "is_ok r1 \<Longrightarrow> gen w (handle_key ph) = Some (ph_generation ph)" by blast+
  show ?thesis
  proof (cases r1)
    case (Inl e)
    with run one \<open>target_handle port c operation w = Inr ph\<close> law show ?thesis by (auto simp: on_handle_def host_rejected_def)
  next
    case (Inr u)
    with run one \<open>target_handle port c operation w = Inr ph\<close>
    have rest: "emit_then port [ev ph] (host_applied (rc_command_id c) message) w1 = (w', r)" by (simp add: on_handle_def)
    from emit_then_law [OF rest] law target_law [OF assms(1) \<open>target_handle port c operation w = Inr ph\<close>] Inr
    show ?thesis by (auto simp: handle_key_def)
  qed
qed

lemma execute_spawn_law:
  assumes "ok w" and run: "execute_spawn port c spec w = (w', r)"
  shows "ok w' \<and> later_panes (gen w) (gen w')"
proof -
  obtain w1 r1 where one: "ha_spawn_pane (cp_host port) spec w = (w1, r1)" by fastforce
  show ?thesis
  proof (cases r1)
    case (Inl e)
    with run one spawn_refused [OF assms(1)] show ?thesis by (auto simp: execute_spawn_def later_panes_def)
  next
    case (Inr ph)
    with one spawn_law [OF assms(1)] have law: "ok w1" "gen w1 = (gen w)(handle_key ph := Some (ph_generation ph))"
      "\<And>g. gen w (handle_key ph) = Some g \<Longrightarrow> g < ph_generation ph" by blast+
    from run one Inr obtain evs res where "emit_then port evs res w1 = (w', r)" by (simp add: execute_spawn_def)
    from emit_then_law [OF this] law show ?thesis by (auto simp: later_panes_def intro: less_imp_le)
  qed
qed

lemma execute_respawn_law:
  assumes "ok w" and run: "execute_respawn port c reason w = (w', r)"
  shows "ok w' \<and> later_panes (gen w) (gen w') \<and>
    (\<forall>res. r = Inr res \<and> cr_status res = CommandApplied \<longrightarrow>
       (\<exists>pane g. ct_pane_id (rc_target c) = Some pane \<and> gen w' (ct_session_id (rc_target c), pane) = Some g \<and>
          (\<forall>old. gen w (ct_session_id (rc_target c), pane) = Some old \<longrightarrow> old < g)))"
proof (cases "ct_pane_id (rc_target c)")
  case None
  with run assms(1) show ?thesis by (auto simp: execute_respawn_def host_rejected_def later_panes_def)
next
  case pane: (Some pane)
  let ?session = "ct_session_id (rc_target c)"
  show ?thesis
  proof (cases "ha_pane_spawn_spec (cp_host port) ?session pane w")
    case (Inl e)
    with run assms(1) pane show ?thesis by (auto simp: execute_respawn_def host_rejected_def later_panes_def Let_def)
  next
    case spec: (Inr spec)
    from spec_law [OF assms(1) spec] have key: "(sp_session_id spec, sp_pane_id spec) = (?session, pane)" by simp
    obtain w1 r1 where one: "ha_spawn_pane (cp_host port) spec w = (w1, r1)" by fastforce
    show ?thesis
    proof (cases r1)
      case (Inl e)
      with run one spec pane spawn_refused [OF assms(1)] show ?thesis
        by (auto simp: execute_respawn_def host_rejected_def later_panes_def Let_def)
    next
      case (Inr ph)
      with one spawn_law [OF assms(1)] key have law: "ok w1" "gen w1 = (gen w)((?session, pane) := Some (ph_generation ph))"
        "\<And>g. gen w (?session, pane) = Some g \<Longrightarrow> g < ph_generation ph" by (auto simp del: fun_upd_apply)
      from run one spec pane Inr obtain evs res where "emit_then port evs res w1 = (w', r)"
        unfolding execute_respawn_def Let_def by (simp del: emit_then.simps)
      from emit_then_law [OF this] law pane show ?thesis by (auto simp: later_panes_def intro: less_imp_le)
    qed
  qed
qed

text \<open>Every command of the port.\<close>

lemma port_law:
  assumes "ok w" and run: "port_execute port c w = (w', r)"
  shows "ok w' \<and> later_panes (gen w) (gen w') \<and> (acts_on_pane (rc_kind c) \<longrightarrow> gen w' = gen w) \<and>
    (\<forall>res. r = Inr res \<and> cr_status res = CommandApplied \<longrightarrow>
       (acts_on_pane (rc_kind c) \<longrightarrow>
          (\<exists>pane g. ct_pane_id (rc_target c) = Some pane \<and> gen w (ct_session_id (rc_target c), pane) = Some g \<and>
             (ct_generation (rc_target c) = None \<or> ct_generation (rc_target c) = Some g))) \<and>
       (respawns_pane (rc_kind c) \<longrightarrow>
          (\<exists>pane g. ct_pane_id (rc_target c) = Some pane \<and> gen w' (ct_session_id (rc_target c), pane) = Some g \<and>
             (\<forall>old. gen w (ct_session_id (rc_target c), pane) = Some old \<longrightarrow> old < g))))"
proof -
  note send = send_law [OF assms(1)]
  note resize = resize_law [OF assms(1)]
  note close = close_law [OF assms(1)]
  note parts = send_parts_law [OF assms(1)]
  have same: "gen w' = gen w \<Longrightarrow> later_panes (gen w) (gen w')" by (simp add: later_panes_def)
  note arm = on_handle_law [OF assms(1)]
  show ?thesis
  proof (cases "rc_kind c")
    case (CmdSendPrompt pid body sender delivery)
    with run have "on_handle port c ''prompt delivery'' (send_parts (cp_host port) (terminal_prompt_input_parts body))
       (\<lambda>ph. new_event (with_correlation_id pid
          (new_meta (ph_session_id ph) (ph_pane_id ph) (ph_generation ph) (ph_source ph) (cp_now port))) (PromptDelivered pid))
       ''prompt sent to terminal host'' w = (w', r)" by (simp add: port_execute_def)
    from arm [OF this] parts [of "terminal_prompt_input_parts body"] same CmdSendPrompt show ?thesis
      by (simp add: terminal_prompt_input_parts_def)
  next
    case (CmdTerminalInput bytes)
    from arm [OF run [unfolded port_execute_def CmdTerminalInput port_execute_kind.simps]] send same CmdTerminalInput show ?thesis by simp
  next
    case (CmdInterrupt reason)
    from arm [OF run [unfolded port_execute_def CmdInterrupt port_execute_kind.simps]] send same CmdInterrupt show ?thesis by simp
  next
    case (CmdResizePane rows cols)
    from arm [OF run [unfolded port_execute_def CmdResizePane port_execute_kind.simps]] resize same CmdResizePane show ?thesis by simp
  next
    case (CmdClosePane reason)
    from arm [OF run [unfolded port_execute_def CmdClosePane port_execute_kind.simps]] close same CmdClosePane show ?thesis by simp
  next
    case (CmdQuarantinePane reason)
    from arm [OF run [unfolded port_execute_def CmdQuarantinePane port_execute_kind.simps]] close same CmdQuarantinePane show ?thesis by simp
  next
    case (CmdSpawnPane kind pane title cwd cmd env rows cols)
    with run execute_spawn_law [OF assms(1)] show ?thesis by (simp add: port_execute_def)
  next
    case (CmdResetPane reason)
    with run execute_respawn_law [OF assms(1)] show ?thesis by (simp add: port_execute_def)
  next
    case (CmdRecyclePane reason)
    with run execute_respawn_law [OF assms(1)] show ?thesis by (simp add: port_execute_def)
  next
    case (CmdBroadcastPrompt pid body panes)
    with run assms(1) same show ?thesis by (auto simp: port_execute_def host_rejected_def)
  next
    case (CmdResolveApproval aid approved)
    with run assms(1) same show ?thesis by (auto simp: port_execute_def host_rejected_def)
  qed
qed

end

end
