(* ===== verification/Runtime_System.thy ===== *)
theory Runtime_System
  imports Runtime_Guarantees Terminal_Port
begin

text \<open>
  The daemon in front of the headless host: the command port of \<open>Terminal_Host\<close> works on the host
  inside the daemon's state and publishes its events to the daemon. The contract \<open>terminal_host\<close>
  is interpreted on this composition, which gives fencing of stale commands end to end.
\<close>

subsection \<open>Composition\<close>

definition on_host :: "(headless_host \<Rightarrow> headless_host \<times> 'r) \<Rightarrow> headless_host daemon \<Rightarrow> headless_host daemon \<times> 'r" where
  "on_host f d = (case f (dm_host d) of (h, r) \<Rightarrow> (d\<lparr>dm_host := h\<rparr>, r))"

definition daemon_adapter :: "headless_host daemon host_adapter" where
  "daemon_adapter =
     \<lparr>ha_source = SourceHeadless,
      ha_spawn_pane = (\<lambda>spec. on_host (host_spawn_pane spec)),
      ha_pane_handle = (\<lambda>s p d. host_pane_handle s p (dm_host d)),
      ha_pane_spawn_spec = (\<lambda>s p d. host_pane_spawn_spec s p (dm_host d)),
      ha_close_pane = (\<lambda>ph. on_host (host_close_pane ph)),
      ha_send_input = (\<lambda>ph bytes. on_host (host_send_input ph bytes)),
      ha_resize_pane = (\<lambda>ph rows cols. on_host (host_resize_pane ph rows cols))\<rparr>"

definition daemon_port :: "headless_host daemon_env \<Rightarrow> nat \<Rightarrow> headless_host daemon command_port" where
  "daemon_port env now =
     \<lparr>cp_host = daemon_adapter, cp_sink = Some (publish_event env), cp_default_rows = 40, cp_default_cols = 120, cp_now = now\<rparr>"

definition host_command_port ::
    "headless_host daemon_env \<Rightarrow> runtime_command \<Rightarrow> headless_host daemon \<Rightarrow> headless_host daemon \<times> (string, runtime_command_result) result" where
  "host_command_port env c d = port_execute (daemon_port env (de_clock env (dm_io d))) c d"

definition headless_env :: "headless_host daemon_env \<Rightarrow> runtime_policy_config \<Rightarrow> headless_host daemon_env" where
  "headless_env env cfg = env\<lparr>de_policy_gate := Some (basic_policy_gate cfg), de_command_port := Some (host_command_port env)\<rparr>"

lemma publish_headless [simp]: "publish_event (headless_env env cfg) = publish_event env"
  by (intro ext) (simp add: publish_event_def append_audit_event_def headless_env_def)

lemma on_host_conv: "on_host f d = (d', r) \<longleftrightarrow> (\<exists>h. f (dm_host d) = (h, r) \<and> d' = d\<lparr>dm_host := h\<rparr>)"
  by (auto simp: on_host_def split: prod.splits)

subsection \<open>The contract holds\<close>

abbreviation daemon_generation :: "headless_host daemon \<Rightarrow> pane_key \<Rightarrow> generation option" where
  "daemon_generation d \<equiv> pane_generation (dm_host d)"

lemma headless_handle_law:
  assumes "host_ok h" "host_pane_handle s p h = Inr ph"
  shows "handle_key ph = (s, p) \<and> pane_generation h (s, p) = Some (ph_generation ph) \<and> pane_open h (s, p) \<and> ph_source ph = SourceHeadless"
proof -
  from assms(2) obtain q where q: "hm_get (hh_panes h) (s, p) = Some q" "hp_state q \<noteq> PaneDead" "ph = headless_handle q"
    by (auto simp: host_pane_handle_def split: option.splits if_splits)
  from host_okD [OF assms(1) q(1)] q show ?thesis
    by (simp add: pane_ok_def handle_key_def headless_handle_def pane_generation_def pane_open_def)
qed

lemma headless_spec_law:
  assumes "host_ok h" "host_pane_spawn_spec s p h = Inr spec"
  shows "sp_session_id spec = s \<and> sp_pane_id spec = p"
proof -
  from assms(2) obtain q where "hm_get (hh_panes h) (s, p) = Some q" "sp_session_id spec = hp_session_id q" "sp_pane_id spec = hp_pane_id q"
    by (auto simp: host_pane_spawn_spec_def split: option.splits)
  with host_okD [OF assms(1)] show ?thesis by (fastforce simp: pane_ok_def)
qed

lemma headless_spawn_law:
  assumes "host_ok h" "host_spawn_pane spec h = (h', Inr ph)"
  shows "host_ok h' \<and> handle_key ph = (sp_session_id spec, sp_pane_id spec) \<and> ph_source ph = SourceHeadless \<and>
    pane_generation h' = (pane_generation h)(handle_key ph := Some (ph_generation ph)) \<and> pane_open h' = (pane_open h)(handle_key ph := True) \<and>
    (\<forall>g. pane_generation h (handle_key ph) = Some g \<longrightarrow> g < ph_generation ph)"
  using assms(2)
proof (cases rule: spawn_cases)
  case (2 gen now)
  then have ph: "ph = headless_handle (spawned_pane spec gen now)" by simp
  then have key: "handle_key ph = (sp_session_id spec, sp_pane_id spec)" "ph_source ph = SourceHeadless" "ph_generation ph = gen"
    by (simp_all add: handle_key_def headless_handle_def spawned_pane_def)
  have "pane_generation h' = (pane_generation h)(handle_key ph := Some gen)" "pane_open h' = (pane_open h)(handle_key ph := True)"
    by (rule ext; simp add: pane_generation_def pane_open_def key 2(2) spawned_pane_def)+
  with 2(3,4) key assms(1) show ?thesis by simp
qed simp

lemma headless_refused:
  assumes "host_ok h" "host_spawn_pane spec h = (h', Inl e)"
  shows "host_ok h' \<and> pane_generation h' = pane_generation h \<and> pane_open h' = pane_open h"
  using assms(2)
proof (cases rule: spawn_cases)
  case 1
  with assms(1) show ?thesis by (simp add: pane_generation_def pane_open_def fun_eq_iff)
qed simp

lemma headless_send_law:
  assumes "host_ok h" "host_send_input ph bytes h = (h', r)"
  shows "host_ok h' \<and> pane_generation h' = pane_generation h \<and> pane_open h' = pane_open h \<and>
    (is_ok r \<longleftrightarrow> ph_source ph = SourceHeadless \<and> pane_generation h (handle_key ph) = Some (ph_generation ph) \<and> pane_open h (handle_key ph))"
  using assms(2)
proof (cases rule: send_cases)
  case (2 p')
  have "pane_open h' = pane_open h" using edited_open [OF 2(2)] 2(3,5) by (simp add: fun_upd_idem_iff)
  moreover have "host_ok h'" using 2(2) assms(1) by (simp add: edited_pane_def)
  ultimately show ?thesis using edited_generation [OF 2(2)] 2(1,4,5) by (simp add: accepts_handle_def)
qed (use assms(1) in \<open>auto simp: accepts_handle_def\<close>)

lemma headless_resize_law:
  assumes "host_ok h" "host_resize_pane ph rows cols h = (h', r)"
  shows "host_ok h' \<and> pane_generation h' = pane_generation h \<and> pane_open h' = pane_open h \<and>
    (is_ok r \<longrightarrow> pane_generation h (handle_key ph) = Some (ph_generation ph) \<and> pane_open h (handle_key ph))"
  using assms(2)
proof (cases rule: resize_cases)
  case (2 p')
  have "pane_open h' = pane_open h" using edited_open [OF 2(2)] 2(3,5) by (simp add: fun_upd_idem_iff)
  moreover have "host_ok h'" using 2(2) assms(1) by (simp add: edited_pane_def)
  ultimately show ?thesis using edited_generation [OF 2(2)] 2(1,4,5) by (simp add: accepts_handle_def)
qed (use assms(1) in auto)

lemma headless_close_law:
  assumes "host_ok h" "host_close_pane ph h = (h', r)"
  shows "host_ok h' \<and> pane_generation h' = pane_generation h \<and>
    pane_open h' = (if is_ok r then (pane_open h)(handle_key ph := False) else pane_open h) \<and>
    (is_ok r \<longrightarrow> pane_generation h (handle_key ph) = Some (ph_generation ph))"
  using assms(2)
proof (cases rule: close_cases)
  case 2
  then have "pane_open h' = (pane_open h)(handle_key ph := False)" by (auto simp: fun_eq_iff)
  with 2 assms(1) show ?thesis by (simp add: accepts_handle_def)
next
  case (3 p')
  have "pane_open h' = (pane_open h)(handle_key ph := False)" using edited_open [OF 3(2)] 3(3) by simp
  moreover have "host_ok h'" using 3(2) assms(1) by (simp add: edited_pane_def)
  ultimately show ?thesis using edited_generation [OF 3(2)] 3(1,4) by (simp add: accepts_handle_def)
qed (use assms(1) in simp)

lemma daemon_port_fields [simp]:
  "cp_sink (daemon_port env now) = Some (publish_event env)" "ha_source (cp_host (daemon_port env now)) = SourceHeadless"
  "ha_spawn_pane (cp_host (daemon_port env now)) spec = on_host (host_spawn_pane spec)"
  "ha_pane_handle (cp_host (daemon_port env now)) s p d = host_pane_handle s p (dm_host d)"
  "ha_pane_spawn_spec (cp_host (daemon_port env now)) s p d = host_pane_spawn_spec s p (dm_host d)"
  "ha_close_pane (cp_host (daemon_port env now)) ph = on_host (host_close_pane ph)"
  "ha_send_input (cp_host (daemon_port env now)) ph bytes = on_host (host_send_input ph bytes)"
  "ha_resize_pane (cp_host (daemon_port env now)) ph rows cols = on_host (host_resize_pane ph rows cols)"
  by (simp_all add: daemon_port_def daemon_adapter_def)

interpretation headless: terminal_host "daemon_port env now" "publish_event env" "\<lambda>d. host_ok (dm_host d)" daemon_generation
    "\<lambda>d. pane_open (dm_host d)" for env now
proof (unfold_locales, goal_cases)
  case (2 ev d d' r)
  then have "dm_host d' = dm_host d" by (rule publish_host)
  then show ?case by simp
next
  case (3 d s p ph)
  then show ?case using headless_handle_law [of "dm_host d" s p ph] by simp
next
  case (4 d s p spec)
  then show ?case using headless_spec_law [of "dm_host d" s p spec] by simp
next
  case (5 d spec d' ph)
  then obtain h where "host_spawn_pane spec (dm_host d) = (h, Inr ph)" "d' = d\<lparr>dm_host := h\<rparr>" by (auto simp: on_host_conv)
  with headless_spawn_law [OF 5(1)] show ?case by simp
next
  case (6 d spec d' e)
  then obtain h where "host_spawn_pane spec (dm_host d) = (h, Inl e)" "d' = d\<lparr>dm_host := h\<rparr>" by (auto simp: on_host_conv)
  with headless_refused [OF 6(1)] show ?case by simp
next
  case (7 d ph bytes d' r)
  then obtain h where "host_send_input ph bytes (dm_host d) = (h, r)" "d' = d\<lparr>dm_host := h\<rparr>" by (auto simp: on_host_conv)
  with headless_send_law [OF 7(1)] show ?case by simp
next
  case (8 d ph rows cols d' r)
  then obtain h where "host_resize_pane ph rows cols (dm_host d) = (h, r)" "d' = d\<lparr>dm_host := h\<rparr>" by (auto simp: on_host_conv)
  with headless_resize_law [OF 8(1)] show ?case by simp
next
  case (9 d ph d' r)
  then obtain h where "host_close_pane ph (dm_host d) = (h, r)" "d' = d\<lparr>dm_host := h\<rparr>" by (auto simp: on_host_conv)
  with headless_close_law [OF 9(1)] show ?case by simp
qed simp

subsection \<open>The port works by publishing\<close>

lemma publishes_trans: "publishes env d1 d2 \<Longrightarrow> publishes env d d1 \<Longrightarrow> publishes env d d2"
  by (induction rule: publishes.induct) (auto intro: publishes.intros)

lemma on_host_publishes: "on_host f d = (d', r) \<Longrightarrow> publishes env d d'"
  by (auto simp: on_host_conv intro: publishes_host publishes_none)

lemma emit_publishes: "emit (daemon_port env now) ev d = (d', r) \<Longrightarrow> publishes env d d'"
  by (auto simp: emit_def intro: publishes_event publishes_none)

lemma emit_then_publishes: "emit_then (daemon_port env now) evs res d = (d', r) \<Longrightarrow> publishes env d d'"
proof (induction evs arbitrary: d)
  case (Cons ev evs)
  obtain d1 r1 where one: "emit (daemon_port env now) ev d = (d1, r1)" by fastforce
  show ?case
  proof (cases r1)
    case (Inl e)
    with Cons.prems one emit_publishes [OF one] show ?thesis by simp
  next
    case (Inr u)
    with Cons.prems one have "emit_then (daemon_port env now) evs res d1 = (d', r)" by simp
    from publishes_trans [OF Cons.IH [OF this] emit_publishes [OF one]] show ?thesis .
  qed
qed (simp add: publishes_none)

lemma send_parts_publishes: "send_parts (cp_host (daemon_port env now)) ps ph d = (d', r) \<Longrightarrow> publishes env d d'"
proof (induction ps arbitrary: d)
  case (Cons p ps)
  obtain d1 r1 where one: "on_host (host_send_input ph p) d = (d1, r1)" by fastforce
  show ?case
  proof (cases r1)
    case (Inl e)
    with Cons.prems one on_host_publishes [OF one] show ?thesis by simp
  next
    case (Inr u)
    with Cons.prems one have "send_parts (cp_host (daemon_port env now)) ps ph d1 = (d', r)" by simp
    from publishes_trans [OF Cons.IH [OF this] on_host_publishes [OF one]] show ?thesis .
  qed
qed (simp add: publishes_none)

lemma on_handle_publishes:
  assumes "on_handle (daemon_port env now) c operation act ev message d = (d', r)"
    and act: "\<And>ph d1 r1. act ph d = (d1, r1) \<Longrightarrow> publishes env d d1"
  shows "publishes env d d'"
proof (cases "target_handle (daemon_port env now) c operation d")
  case (Inl r1)
  with assms(1) show ?thesis by (simp add: on_handle_def publishes_none)
next
  case (Inr ph)
  obtain d1 r1 where one: "act ph d = (d1, r1)" by fastforce
  note step = act [OF one]
  show ?thesis
  proof (cases r1)
    case (Inl e)
    with assms(1) Inr one step \<open>target_handle _ c operation d = Inr ph\<close> show ?thesis by (simp add: on_handle_def)
  next
    case (Inr u)
    with assms(1) one \<open>target_handle _ c operation d = Inr ph\<close>
    have "emit_then (daemon_port env now) [ev ph] (host_applied (rc_command_id c) message) d1 = (d', r)" by (simp add: on_handle_def)
    from publishes_trans [OF emit_then_publishes [OF this] step] show ?thesis .
  qed
qed

lemma spawn_publishes: "execute_spawn (daemon_port env now) c spec d = (d', r) \<Longrightarrow> publishes env d d'"
proof -
  assume run: "execute_spawn (daemon_port env now) c spec d = (d', r)"
  obtain d1 r1 where one: "on_host (host_spawn_pane spec) d = (d1, r1)" by fastforce
  note step = on_host_publishes [OF one]
  show ?thesis
  proof (cases r1)
    case (Inl e)
    with run one step show ?thesis by (simp add: execute_spawn_def)
  next
    case (Inr ph)
    with run one obtain evs res where "emit_then (daemon_port env now) evs res d1 = (d', r)" by (simp add: execute_spawn_def)
    from publishes_trans [OF emit_then_publishes [OF this] step] show ?thesis .
  qed
qed

lemma respawn_publishes: "execute_respawn (daemon_port env now) c reason d = (d', r) \<Longrightarrow> publishes env d d'"
proof -
  assume run: "execute_respawn (daemon_port env now) c reason d = (d', r)"
  show ?thesis
  proof (cases "\<exists>pane spec. ct_pane_id (rc_target c) = Some pane \<and> host_pane_spawn_spec (ct_session_id (rc_target c)) pane (dm_host d) = Inr spec")
    case False
    with run have "d' = d" by (auto simp: execute_respawn_def Let_def split: option.splits sum.splits)
    then show ?thesis by (simp add: publishes_none)
  next
    case True
    then obtain pane spec where spec: "ct_pane_id (rc_target c) = Some pane"
      "host_pane_spawn_spec (ct_session_id (rc_target c)) pane (dm_host d) = Inr spec" by blast
    obtain d1 r1 where one: "on_host (host_spawn_pane spec) d = (d1, r1)" by fastforce
    note step = on_host_publishes [OF one]
    show ?thesis
    proof (cases r1)
      case (Inl e)
      with run one spec step show ?thesis by (simp add: execute_respawn_def Let_def)
    next
      case (Inr ph)
      with run one spec obtain evs res where "emit_then (daemon_port env now) evs res d1 = (d', r)"
        unfolding execute_respawn_def Let_def by (simp del: emit_then.simps)
      from publishes_trans [OF emit_then_publishes [OF this] step] show ?thesis .
    qed
  qed
qed

lemma port_execute_publishes: "port_execute (daemon_port env now) c d = (d', r) \<Longrightarrow> publishes env d d'"
  unfolding port_execute_def
  by (cases "rc_kind c")
    (auto intro: publishes_none on_host_publishes spawn_publishes respawn_publishes send_parts_publishes elim!: on_handle_publishes)

lemma publishes_headless: "publishes env d d' \<Longrightarrow> publishes (headless_env env cfg) d d'"
  by (induction rule: publishes.induct) (auto intro: publishes.intros)

lemma headless_port_publishes: "port_publishes (headless_env env cfg)"
  unfolding port_publishes_def
proof (intro allI impI)
  fix port c and d :: "headless_host daemon"
  assume "de_command_port (headless_env env cfg) = Some port"
  then have "port = host_command_port env" by (simp add: headless_env_def)
  then show "publishes (headless_env env cfg) d (fst (port c d))"
    using port_execute_publishes publishes_headless unfolding host_command_port_def by (metis prod.collapse)
qed

subsection \<open>Fencing end to end\<close>

lemma host_port_law:
  assumes "host_ok (dm_host d)" "host_command_port env c d = (d', r)"
  shows "host_ok (dm_host d')" "later_panes (daemon_generation d) (daemon_generation d')"
  using headless.port_law [OF assms(1) assms(2) [unfolded host_command_port_def]] by blast+

lemma later_refl [simp]: "later_panes g g"
  by (simp add: later_panes_def)

lemma later_trans: "later_panes g h \<Longrightarrow> later_panes h k \<Longrightarrow> later_panes g k"
  unfolding later_panes_def by (meson order_trans)

lemma route_later:
  assumes "route_command (headless_env env cfg) c ctx d = (d', sent, r)" "host_ok (dm_host d)"
  shows "host_ok (dm_host d') \<and> later_panes (daemon_generation d) (daemon_generation d')"
proof -
  from route_host [OF assms(1)] consider "dm_host d' = dm_host d"
    | d1 x where "dm_host d1 = dm_host d" "d' = fst (host_command_port env x d1)" by (auto simp: headless_env_def)
  then show ?thesis
  proof cases
    case (2 d1 x)
    then show ?thesis using host_port_law [of d1 env x] assms(2) by (metis prod.collapse)
  qed (simp add: assms(2))
qed

lemma history_later:
  assumes "daemon_history (headless_env env cfg) d d'" "host_ok (dm_host d)"
  shows "host_ok (dm_host d') \<and> later_panes (daemon_generation d) (daemon_generation d')"
  using assms(1)
proof (induction rule: daemon_history.induct)
  case (history_route d1 c ctx d2 sent r)
  with route_later [OF history_route.hyps(2)] later_trans show ?case by blast
next
  case (history_publish d1 ev d2 r)
  from publish_host [OF history_publish.hyps(2)] history_publish.IH show ?case by simp
next
  case (history_shutdown d1)
  then show ?case by (simp add: daemon_shutdown_def)
qed (simp add: assms(2))

fun is_applied :: "(string, runtime_command_result) result \<Rightarrow> bool" where
  "is_applied (Inr res) = (cr_status res = CommandApplied)"
| "is_applied (Inl _) = False"

text \<open>C6: Once a pane has reached a later generation, then after any history of the daemon in front of the
  headless host a prompt, input, interrupt, resize, close or quarantine that names an earlier
  generation of the pane is never applied, whatever the registry believes. (Reset, recycle and spawn address
  a pane by its identifier only and are not covered.)\<close>

theorem stale_command_never_applied:
  assumes "daemon_generation d (s, pane) = Some g" and "host_ok (dm_host d)" and "daemon_history (headless_env env cfg) d later"
    and "rc_target c = \<lparr>ct_session_id = s, ct_pane_id = Some pane, ct_generation = Some old\<rparr>" and "old < g" and "acts_on_pane (rc_kind c)"
  shows "\<not> is_applied (snd (snd (route_command (headless_env env cfg) c ctx later)))"
proof (cases "dm_stopped later")
  case True
  then show ?thesis by (simp add: route_command_def)
next
  case False
  let ?env = "headless_env env cfg"
  from history_later [OF assms(3,2)] assms(1) obtain g' where ok: "host_ok (dm_host later)"
    and gen: "daemon_generation later (s, pane) = Some g'" "g \<le> g'" unfolding later_panes_def by blast
  have "\<And>aid approved. rc_kind c \<noteq> CmdResolveApproval aid approved" using assms(6) by auto
  from route_other [OF this False] obtain dec ctx' d1 where pub: "publish_policy_decision ?env c dec (routed later) = (d1, Inr ())"
    and rest: "route_command ?env c ctx later = carry_out ?env c ctx' dec d1" by metis
  have host: "dm_host d1 = dm_host later" using publish_decision_host [OF pub] by simp
  show ?thesis
  proof (cases dec)
    case PolicyAllow
    obtain d2 r2 where run: "host_command_port env c d1 = (d2, r2)" by fastforce
    have "de_command_port ?env = Some (host_command_port env)" by (simp add: headless_env_def)
    with rest run PolicyAllow have r2: "snd (snd (route_command ?env c ctx later)) = r2" by (simp add: carry_out_def execute_command_def)
    from headless.port_law [OF _ run [unfolded host_command_port_def]] ok host assms(4,6) gen assms(5) have "\<not> is_applied r2"
      by (cases r2) auto
    with r2 show ?thesis by simp
  next
    case (PolicyRequireApproval why)
    with rest show ?thesis by (auto simp: carry_out_def command_result_def split: prod.splits sum.splits)
  qed (use rest in \<open>simp_all add: carry_out_def command_result_def\<close>)
qed

subsection \<open>A concrete system\<close>

definition demo_daemon_env :: "headless_host daemon_env" where
  "demo_daemon_env =
     \<lparr>de_policy_gate = None, de_command_port = None, de_audit_log = True, de_audit = (\<lambda>_. AuditWritten), de_approval_file = True,
      de_store_session = Some ''S'', de_store_write = (\<lambda>_. Inr ()), de_uuid = show_nat, de_clock = (\<lambda>n. n), de_order = stored_order\<rparr>"

definition demo_env :: "headless_host daemon_env" where
  "demo_env = headless_env demo_daemon_env default_runtime_policy"

definition demo_command :: "generation option \<Rightarrow> runtime_command_kind \<Rightarrow> runtime_command" where
  "demo_command g k =
     \<lparr>rc_command_id = ''C'', rc_target = \<lparr>ct_session_id = ''S'', ct_pane_id = Some ''P'', ct_generation = g\<rparr>, rc_issued_at_ms = 0, rc_kind = k\<rparr>"

definition demo_event :: "runtime_event_kind \<Rightarrow> runtime_event" where
  "demo_event k = new_event (new_meta ''S'' ''P'' 1 SourceHeadless 7) k"

definition demo_daemon :: "runtime_event list \<Rightarrow> headless_host daemon" where
  \<comment> \<open>a daemon that has seen some events, in front of a host whose pane is in its second generation\<close>
  "demo_daemon evs =
     fst (publish_batch demo_env evs (new_daemon (fold host_step [HostSpawn demo_spec, HostSpawn demo_spec] default_headless_host)))"

lemma demo_env_publishes [simp]: "port_publishes demo_env"
  unfolding demo_env_def by (rule headless_port_publishes)

lemma demo_env_fields [simp]:
  "inj (de_uuid demo_env)" "audit_faithful demo_env" "de_approval_file demo_env" "de_store_session demo_env = Some ''S''"
  "\<And>n. is_ok (de_store_write demo_env n)" "de_policy_gate demo_env = Some (basic_policy_gate default_runtime_policy)"
  "de_command_port demo_env = Some (host_command_port demo_daemon_env)"
  unfolding demo_env_def
  by (auto simp: headless_env_def demo_daemon_env_def audit_faithful_def inj_def)

lemma demo_daemon_running:
  "\<not> dm_stopped (demo_daemon evs)" "dm_registry (demo_daemon evs) = fold apply_registry_event evs []"
proof -
  let ?d = "new_daemon (fold host_step [HostSpawn demo_spec, HostSpawn demo_spec] default_headless_host)"
  have start: "\<not> dm_stopped ?d" by (simp add: new_daemon_def)
  from publish_batch_running [OF start, of demo_env evs]
  show "dm_registry (demo_daemon evs) = fold apply_registry_event evs []" by (auto simp: demo_daemon_def new_daemon_def)
  have keep: "publish_batch demo_env xs x = (y, r) \<Longrightarrow> \<not> dm_stopped x \<Longrightarrow> \<not> dm_stopped y" for xs x y r
    by (induction xs arbitrary: x) (auto dest: publish_running(7) split: prod.splits sum.splits)
  show "\<not> dm_stopped (demo_daemon evs)"
    using keep [of evs ?d] start unfolding demo_daemon_def by (cases "publish_batch demo_env evs ?d") simp
qed

theorem stale_command_never_applied_witness:
  "\<not> is_applied (snd (snd (route_command demo_env (demo_command (Some 1) (CmdTerminalInput ''ls'')) default_policy_context (demo_daemon []))))"
proof -
  let ?h = "fold host_step [HostSpawn demo_spec, HostSpawn demo_spec] default_headless_host"
  have host: "dm_host (demo_daemon []) = ?h" by (simp add: demo_daemon_def new_daemon_def del: fold.simps)
  have "host_ok ?h" unfolding default_headless_host_def by (rule fold_host_step(1) [OF host_ok_new])
  moreover have "pane_generation ?h (''S'', ''P'') = Some 2"
    by (simp add: default_headless_host_def new_headless_host_def demo_spec_def host_spawn_pane_def next_timestamp_def spawned_pane_def
        pane_generation_def trim_eval Let_def)
  ultimately show ?thesis
    unfolding demo_env_def
    by (intro stale_command_never_applied [OF _ _ history_start, of _ "''S''" "''P''" 2 _ 1])
      (simp_all add: host demo_command_def del: fold.simps)
qed

theorem command_gate_witness:
  "fst (snd (route_command demo_env (demo_command None (CmdTerminalInput ''ls'')) default_policy_context (demo_daemon []))) =
     [demo_command None (CmdTerminalInput ''ls'')] \<and>
   allow_recorded (demo_command None (CmdTerminalInput ''ls''))
     (fst (route_command demo_env (demo_command None (CmdTerminalInput ''ls'')) default_policy_context (demo_daemon [])))"
proof -
  let ?c = "demo_command None (CmdTerminalInput ''ls'')"
  obtain d' sent r where run: "route_command demo_env ?c default_policy_context (demo_daemon []) = (d', sent, r)" by (metis prod_cases3)
  have "decide_command demo_env ?c (hydrate_policy_context ?c default_policy_context (demo_daemon [])) (demo_daemon []) = PolicyAllow"
    by (simp add: decide_command_def registry_generation_decision_def demo_command_def hydrate_policy_context_def default_policy_context_def
        registry_entry_for_command_def demo_daemon_running evaluate_policy_def basic_policy_gate_def evaluate_allow_iff rate_limited_def
        circuit_open_def pane_accepts_def within_limits_def)
  moreover have "\<And>aid approved. rc_kind ?c \<noteq> CmdResolveApproval aid approved" by (simp add: demo_command_def)
  ultimately obtain d1 where "route_command demo_env ?c default_policy_context (demo_daemon []) =
      carry_out demo_env ?c (hydrate_policy_context ?c default_policy_context (demo_daemon [])) PolicyAllow d1"
    using route_other [of ?c "demo_daemon []" demo_env default_policy_context] demo_daemon_running(1) [of "[]"] by metis
  with run have "?c \<in> set sent" by (auto simp: carry_out_def execute_command_def split: prod.splits)
  from command_gate [OF run this] run show ?thesis by auto
qed

theorem audit_replay_rebuilds_registry_witness:
  "\<exists>d'. replay_audit_log demo_env (\<lambda>_. Inr (demo_event (PaneSpawned WorkerPane None))) ''audit.jsonl''
       (map (\<lambda>_. ''x'') (dm_audit (demo_daemon [demo_event (PaneSpawned WorkerPane None)]))) (new_daemon default_headless_host) = (d', Inr 1) \<and>
     dm_registry d' = dm_registry (demo_daemon [demo_event (PaneSpawned WorkerPane None)])"
proof -
  let ?ev = "demo_event (PaneSpawned WorkerPane None)"
  let ?d = "new_daemon (fold host_step [HostSpawn demo_spec, HostSpawn demo_spec] default_headless_host)"
  obtain d1 r1 where one: "publish_event demo_env ?ev ?d = (d1, r1)" by fastforce
  have "\<not> dm_stopped ?d" by (simp add: new_daemon_def)
  note pub = publish_running [OF one this]
  have d1: "demo_daemon [?ev] = d1" using one pub(1) by (simp add: demo_daemon_def del: fold.simps)
  have log: "dm_audit d1 = [?ev]" using pub(9) by (simp add: new_daemon_def)
  have "daemon_history demo_env ?d d1" using history_publish [OF history_start one] .
  from audit_replay_rebuilds_registry [OF this, of "\<lambda>_. Inr ?ev" "\<lambda>_. ''x''" demo_env "''audit.jsonl''" default_headless_host] log d1 show ?thesis
    by (auto simp: trim_eval)
qed

theorem denied_command_poisons_registry_witness:
  "\<exists>d' res e'. route_command demo_env (demo_command (Some 5) (CmdTerminalInput ''ls'')) default_policy_context
       (demo_daemon [demo_event (PaneSpawned WorkerPane None)]) = (d', [], Inr res) \<and> cr_status res = CommandRejected \<and>
     registry_entry_for_command (demo_command None (CmdTerminalInput ''ls'')) d' = Some e' \<and> pe_generation e' = 5"
proof -
  let ?d = "demo_daemon [demo_event (PaneSpawned WorkerPane None)]"
  let ?c = "demo_command (Some 5) (CmdTerminalInput ''ls'')"
  obtain e where e: "hm_get (dm_registry ?d) (''S'', ''P'') = Some e" "pe_generation e = 1"
    by (simp add: demo_daemon_running apply_registry_event_def demo_event_def update_entry_def registry_event_is_mux_shadow_def new_entry_def Let_def)
  then have "registry_entry_for_command ?c ?d = Some e" by (simp add: registry_entry_for_command_def demo_command_def)
  moreover have "\<And>d. registry_entry_for_command (demo_command None (CmdTerminalInput ''ls'')) d = registry_entry_for_command ?c d"
    by (simp add: registry_entry_for_command_def demo_command_def)
  moreover have "ct_generation (rc_target ?c) = Some 5" "ct_pane_id (rc_target ?c) = Some ''P''" "\<And>aid approved. rc_kind ?c \<noteq> CmdResolveApproval aid approved"
    by (simp_all add: demo_command_def)
  moreover have "pe_generation e < 5" using e(2) by simp
  ultimately show ?thesis
    using denied_command_poisons_registry [of ?c ?d e 5 "''P''" demo_env default_policy_context] demo_daemon_running(1) by metis
qed

subsection \<open>Approvals\<close>

definition demo_pending :: pending_approval where
  "demo_pending = \<lparr>pa_approval_id = ''A'', pa_requested_at_ms = 0, pa_reason = ''ask'', pa_command = demo_command None (CmdTerminalInput ''ls''),
     pa_context = default_policy_context\<lparr>pc_pane_state := Some PaneReady, pc_approval_required := True\<rparr>\<rparr>"

definition demo_waiting :: "headless_host daemon" where
  \<comment> \<open>the pane has exited while a command for it waits for approval\<close>
  "demo_waiting = (demo_daemon [demo_event (PaneSpawned WorkerPane None), demo_event (PaneExited None None)])\<lparr>dm_approvals := [(''A'', demo_pending)]\<rparr>"

lemma demo_release:
  "evaluate_sync default_runtime_policy (pa_command demo_pending) ((pa_context demo_pending)\<lparr>pc_approval_required := False\<rparr>) = PolicyAllow"
  by (simp add: demo_pending_def default_policy_context_def evaluate_allow_iff rate_limited_def circuit_open_def pane_accepts_def within_limits_def
      demo_command_def)

lemma demo_waiting_fields [simp]:
  "hm_get (dm_approvals demo_waiting) ''A'' = Some demo_pending" "\<not> dm_stopped demo_waiting" "fresh_ids demo_env demo_waiting"
  "pc_pane_state (pa_context demo_pending) = Some PaneReady" "ct_generation (rc_target (pa_command demo_pending)) = None"
  by (auto simp: demo_waiting_def demo_daemon_running fresh_ids_def approval_id_def demo_pending_def default_policy_context_def demo_command_def)

theorem approval_checks_old_pane_state_witness:
  "fst (snd (route_command demo_env (demo_command None (CmdResolveApproval ''A'' True)) default_policy_context demo_waiting)) =
     [demo_command None (CmdTerminalInput ''ls'')] \<and>
   (\<exists>e. registry_entry_for_command (demo_command None (CmdTerminalInput ''ls'')) demo_waiting = Some e \<and> pe_state e = PaneDead)"
proof -
  have "rc_kind (demo_command None (CmdResolveApproval ''A'' True)) = CmdResolveApproval ''A'' True" by (simp add: demo_command_def)
  from approval_checks_old_pane_state [OF demo_waiting_fields(1,4) this demo_waiting_fields(2) demo_env_fields(5,7,6) demo_waiting_fields(5),
      of default_policy_context] demo_release
  have "fst (snd (route_command demo_env (demo_command None (CmdResolveApproval ''A'' True)) default_policy_context demo_waiting)) =
     [demo_command None (CmdTerminalInput ''ls'')]" by (simp add: demo_pending_def)
  moreover have "\<exists>e. registry_entry_for_command (demo_command None (CmdTerminalInput ''ls'')) demo_waiting = Some e \<and> pe_state e = PaneDead"
    by (simp add: registry_entry_for_command_def demo_command_def demo_waiting_def demo_daemon_running apply_registry_event_def demo_event_def
        update_entry_def registry_event_is_mux_shadow_def new_entry_def Let_def)
  ultimately show ?thesis by blast
qed

theorem approval_used_once_witness:
  "fst (snd (route_command demo_env (demo_command None (CmdResolveApproval ''A'' True)) default_policy_context
     (fst (route_command demo_env (demo_command None (CmdResolveApproval ''A'' True)) default_policy_context demo_waiting)))) = []"
proof -
  let ?c = "demo_command None (CmdResolveApproval ''A'' True)"
  have kind: "rc_kind ?c = CmdResolveApproval ''A'' True" by (simp add: demo_command_def)
  obtain d1 sent r where run: "route_command demo_env ?c default_policy_context demo_waiting = (d1, sent, r)" by (metis prod_cases3)
  from granted_release [OF demo_waiting_fields(1,4) kind demo_waiting_fields(2) demo_env_fields(5,7,6) demo_waiting_fields(5), of default_policy_context]
    demo_release run have "sent \<noteq> []" by simp
  from approval_used_once [OF run kind this history_start kind] show ?thesis using run by simp
qed

theorem approvals_survive_restart_witness:
  "\<exists>store d. d = fst (route_command demo_env (demo_command None (CmdTerminalInput ''ls'')) (default_policy_context\<lparr>pc_approval_required := True\<rparr>)
       (fst (start_daemon demo_env ''approvals.json'' ApprovalMissing default_headless_host))) \<and> dm_store d = Some store \<and>
     hm_get (dm_approvals (fst (start_daemon demo_env ''approvals.json'' (ApprovalDecoded store) default_headless_host))) = session_approvals demo_env d"
proof -
  let ?ctx = "default_policy_context\<lparr>pc_approval_required := True\<rparr>"
  obtain start r where start: "start_daemon demo_env ''approvals.json'' ApprovalMissing default_headless_host = (start, r)" by fastforce
  obtain d1 sent r1 where run: "route_command demo_env (demo_command None (CmdTerminalInput ''ls'')) ?ctx start = (d1, sent, r1)" by (metis prod_cases3)
  obtain b r2 where per: "persist_approval_store demo_env (new_daemon default_headless_host\<lparr>dm_store := None\<rparr>) = (b, r2)" by fastforce
  have "r2 = Inr ()" using per demo_env_fields(5)
    by (cases r2) (auto simp: persist_approval_store_def Let_def is_ok_conv split: if_splits sum.splits)
  with start per have ok: "r = Inr (0, 0)" "start = b" by (auto simp: start_daemon_def load_persisted_approvals_def)
  have "fresh_ids demo_env start" using persist_law(2) [OF per] ok(2) by (simp add: fresh_ids_def new_daemon_def)
  from approvals_survive_restart [OF start [unfolded ok(1)] demo_env_fields(3) history_route [OF history_start run] demo_env_publishes
      demo_env_fields(1) this demo_env_fields(3) refl]
  show ?thesis using start run by auto
qed

end
