(* ===== verification/Runtime_Inbox.thy ===== *)
theory Runtime_Inbox
  imports Runtime_System Utf8_Text
begin

text \<open>
  The command inbox of \<open>crates/brehon-daemon/src/lib.rs\<close>: operators drop command requests as JSON files
  into \<open>pending\<close>, and every pass routes the new ones through the daemon and leaves one result file per
  request in \<open>results\<close>. The model keeps both directories; what JSON decoding says of a file is part of
  the file, and the file system's failures and the clock are read from the environment by a count of
  the calls made so far. The theorems say that a request is answered once and for all, that a pass
  without failures answers everything, and what one overlong request id does to the inbox.
\<close>

subsection \<open>Requests, results and the directories\<close>

record inbox_request =
  iq_request_id :: string
  iq_created_at_ms :: nat
  iq_command :: runtime_command
  iq_context :: runtime_policy_context

record inbox_result =
  ir_request_id :: string
  ir_completed_at_ms :: nat
  ir_result :: "runtime_command_result option"
  ir_error :: "string option"

datatype pending_file = FileUnreadable string | FileUndecodable string | FileRequest inbox_request

datatype pending_entry = NoRegularFile | RegularFile pending_file

datatype result_entry = ResultFile inbox_result | ResultNoFile

record inbox =
  ib_pending :: "(string, pending_entry) hmap"
  ib_results :: "(string, result_entry) hmap"
  ib_io :: nat

record inbox_env =
  ie_directories :: "nat \<Rightarrow> (string, unit) result"
  ie_metadata :: "nat \<Rightarrow> string \<Rightarrow> string option"
  ie_remove :: "nat \<Rightarrow> (string, unit) result"
  ie_write :: "nat \<Rightarrow> (string, unit) result"
  ie_clock :: "nat \<Rightarrow> nat"
  ie_debug :: "string \<Rightarrow> string"
  ie_root :: string

definition io_error :: "string \<Rightarrow> string" where
  "io_error e = ''I/O error: '' @ e"

subsection \<open>File names\<close>

definition file_name_parts :: "string \<Rightarrow> string \<times> string option" where
  \<comment> \<open>\<open>Path::file_stem\<close> and \<open>Path::extension\<close> of a file name\<close>
  "file_name_parts name =
     (let ext = rev (takeWhile (\<lambda>c. c \<noteq> CHR ''.'') (rev name)); stem = take (length name - length ext - 1) name
      in if CHR ''.'' \<notin> set name \<or> stem = [] then (name, None) else (stem, Some ext))"

definition fallback_request_id :: "string \<Rightarrow> string" where
  "fallback_request_id name =
     (let stem = fst (file_name_parts name) in if from_utf8_lossy stem = stem then stem else ''unknown'')"

definition safe_file_component :: "string \<Rightarrow> string" where
  "safe_file_component s =
     (let sanitized = map (\<lambda>ch. if length ch = 1 \<and> filename_char (hd ch) then hd ch else CHR ''_'') (utf8_chars s)
      in if sanitized = [] then ''request'' else sanitized)"

definition command_inbox_result_path :: "string \<Rightarrow> string" where
  \<comment> \<open>the name in \<open>results\<close>\<close>
  "command_inbox_result_path rid = safe_file_component rid @ ''.json''"

definition max_command_inbox_request_id_len :: nat where
  "max_command_inbox_request_id_len = 128"

definition command_inbox_request_id_error :: "inbox_env \<Rightarrow> string \<Rightarrow> string option" where
  "command_inbox_request_id_error ie rid =
     (if rid = [] then Some ''command request_id must not be empty''
      else if max_command_inbox_request_id_len < length rid
      then Some (''command request_id is too long ('' @ show_nat (length rid) @ '' bytes, max '' @
                 show_nat max_command_inbox_request_id_len @ '')'')
      else if rid \<noteq> safe_file_component rid
      then Some (''command request_id '' @ ie_debug ie rid @
                 '' contains unsupported file-name characters; use ASCII letters, digits, '' @ quoted ''-'' @ '', or '' @ quoted ''_'')
      else None)"

definition command_inbox_session_error :: "'h daemon_env \<Rightarrow> inbox_request \<Rightarrow> string option" where
  "command_inbox_session_error env q =
     (let actual = ct_session_id (rc_target (iq_command q)) in
      case de_store_session env of
        None \<Rightarrow> None
      | Some expected \<Rightarrow>
          if actual = expected then None
          else Some (''stale command request targets session '' @ quoted actual @ '', but active daemon session is '' @ quoted expected))"

subsection \<open>A pass over the inbox\<close>

definition command_inbox_result_exists :: "inbox_env \<Rightarrow> string \<Rightarrow> inbox \<Rightarrow> inbox \<times> (string, bool) result" where
  "command_inbox_result_exists ie path ib =
     (ib\<lparr>ib_io := Suc (ib_io ib)\<rparr>,
      case ie_metadata ie (ib_io ib) path of
        Some e \<Rightarrow> Inl (runtime_error (''failed to inspect command inbox result at '' @ ie_root ie @ ''/results/'' @ path @ '': '' @ e))
      | None \<Rightarrow>
          (case hm_get (ib_results ib) path of
             None \<Rightarrow> Inr False
           | Some ResultNoFile \<Rightarrow> Inl (runtime_error (''command inbox result path is not a file: '' @ ie_root ie @ ''/results/'' @ path))
           | Some (ResultFile _) \<Rightarrow> Inr True))"

definition remove_command_inbox_file :: "inbox_env \<Rightarrow> string \<Rightarrow> inbox \<Rightarrow> inbox \<times> (string, unit) result" where
  "remove_command_inbox_file ie name ib =
     (let ib1 = ib\<lparr>ib_io := Suc (ib_io ib)\<rparr> in
      case ie_remove ie (ib_io ib) of
        Inl e \<Rightarrow> (ib1, Inl (runtime_error (''failed to remove command inbox request at '' @ ie_root ie @ ''/pending/'' @ name @ '': '' @ e)))
      | Inr _ \<Rightarrow> (ib1\<lparr>ib_pending := hm_remove name (ib_pending ib1)\<rparr>, Inr ()))"

definition write_result :: "inbox_env \<Rightarrow> inbox_result \<Rightarrow> inbox \<Rightarrow> inbox \<times> (string, unit) result" where
  "write_result ie res ib =
     (let ib1 = ib\<lparr>ib_io := Suc (ib_io ib)\<rparr> in
      case ie_write ie (ib_io ib) of
        Inl e \<Rightarrow> (ib1, Inl (io_error e))
      | Inr _ \<Rightarrow> (ib1\<lparr>ib_results := hm_insert (command_inbox_result_path (ir_request_id res)) (ResultFile res) (ib_results ib1)\<rparr>, Inr ()))"

definition answer_request ::
    "'h daemon_env \<Rightarrow> inbox_env \<Rightarrow> nat \<Rightarrow> inbox_request \<Rightarrow> 'h daemon \<Rightarrow> 'h daemon \<times> runtime_command list \<times> inbox_result" where
  "answer_request env ie now q d =
     (let answer = (\<lambda>r e. \<lparr>ir_request_id = iq_request_id q, ir_completed_at_ms = now, ir_result = r, ir_error = e\<rparr>);
          problem = (case command_inbox_request_id_error ie (iq_request_id q) of
                       Some e \<Rightarrow> Some e | None \<Rightarrow> command_inbox_session_error env q)
      in case problem of
           Some e \<Rightarrow> (d, [], answer None (Some e))
         | None \<Rightarrow>
             (case route_command env (iq_command q) (iq_context q) d of
                (d1, sent, Inr r) \<Rightarrow> (d1, sent, answer (Some r) None)
              | (d1, sent, Inl e) \<Rightarrow> (d1, sent, answer None (Some e))))"

definition failed_request :: "string \<Rightarrow> nat \<Rightarrow> string \<Rightarrow> inbox_result" where
  "failed_request name now e =
     \<lparr>ir_request_id = fallback_request_id name, ir_completed_at_ms = now, ir_result = None, ir_error = Some e\<rparr>"

definition leave_result :: "inbox_env \<Rightarrow> string \<Rightarrow> inbox_result \<Rightarrow> inbox \<Rightarrow> inbox \<times> (string, unit) result" where
  "leave_result ie name res ib =
     (case command_inbox_result_exists ie (command_inbox_result_path (ir_request_id res)) ib of
        (ib1, Inl e) \<Rightarrow> (ib1, Inl e)
      | (ib1, Inr True) \<Rightarrow> remove_command_inbox_file ie name ib1
      | (ib1, Inr False) \<Rightarrow>
          (case write_result ie res ib1 of
             (ib2, Inl e) \<Rightarrow> (ib2, Inl e)
           | (ib2, Inr _) \<Rightarrow> remove_command_inbox_file ie name ib2))"

definition process_pending_file ::
    "'h daemon_env \<Rightarrow> inbox_env \<Rightarrow> string \<Rightarrow> pending_file \<Rightarrow> 'h daemon \<Rightarrow> inbox \<Rightarrow>
     'h daemon \<times> inbox \<times> runtime_command list \<times> (string, unit) result" where
  "process_pending_file env ie name content d ib =
     (let now = ie_clock ie (ib_io ib);
          failed = (\<lambda>e. case leave_result ie name (failed_request name now e) ib of (ib1, r) \<Rightarrow> (d, ib1, [], r))
      in case content of
           FileUnreadable e \<Rightarrow> failed (''failed to read command request: '' @ e)
         | FileUndecodable e \<Rightarrow> failed (''failed to decode command request: '' @ e)
         | FileRequest q \<Rightarrow>
             (case command_inbox_result_exists ie (command_inbox_result_path (iq_request_id q)) ib of
                (ib1, Inl e) \<Rightarrow> (d, ib1, [], Inl e)
              | (ib1, Inr True) \<Rightarrow> (case remove_command_inbox_file ie name ib1 of (ib2, r) \<Rightarrow> (d, ib2, [], r))
              | (ib1, Inr False) \<Rightarrow>
                  (case answer_request env ie now q d of
                     (d1, sent, res) \<Rightarrow> (case leave_result ie name res ib1 of (ib2, r) \<Rightarrow> (d1, ib2, sent, r)))))"

fun process_pending_files ::
    "'h daemon_env \<Rightarrow> inbox_env \<Rightarrow> (string \<times> pending_file) list \<Rightarrow> 'h daemon \<Rightarrow> inbox \<Rightarrow>
     'h daemon \<times> inbox \<times> runtime_command list \<times> (string, nat) result" where
  "process_pending_files env ie [] d ib = (d, ib, [], Inr 0)"
| "process_pending_files env ie ((name, content) # files) d ib =
     (case process_pending_file env ie name content d ib of
        (d1, ib1, sent, Inl e) \<Rightarrow> (d1, ib1, sent, Inl e)
      | (d1, ib1, sent, Inr _) \<Rightarrow>
          (case process_pending_files env ie files d1 ib1 of
             (d2, ib2, sent2, r) \<Rightarrow> (d2, ib2, sent @ sent2, map_sum id Suc r)))"

definition pending_files :: "inbox \<Rightarrow> (string \<times> pending_file) list" where
  "pending_files ib =
     sort_key fst (List.map_filter (\<lambda>(name, e).
        case e of NoRegularFile \<Rightarrow> None
        | RegularFile content \<Rightarrow> if snd (file_name_parts name) = Some ''json'' then Some (name, content) else None) (ib_pending ib))"

definition process_command_inbox_once ::
    "'h daemon_env \<Rightarrow> inbox_env \<Rightarrow> 'h daemon \<Rightarrow> inbox \<Rightarrow> 'h daemon \<times> inbox \<times> runtime_command list \<times> (string, nat) result" where
  "process_command_inbox_once env ie d ib =
     (let ib1 = ib\<lparr>ib_io := Suc (ib_io ib)\<rparr> in
      case ie_directories ie (ib_io ib) of
        Inl e \<Rightarrow> (d, ib1, [], Inl (io_error e))
      | Inr _ \<Rightarrow> process_pending_files env ie (pending_files ib1) d ib1)"

subsection \<open>Every request is answered once\<close>

definition answered_id :: "string \<Rightarrow> pending_file \<Rightarrow> string" where
  "answered_id name content = (case content of FileRequest q \<Rightarrow> iq_request_id q | _ \<Rightarrow> fallback_request_id name)"

definition answered :: "inbox \<Rightarrow> string \<Rightarrow> bool" where
  "answered ib rid \<longleftrightarrow>
     (case hm_get (ib_results ib) (command_inbox_result_path rid) of Some (ResultFile _) \<Rightarrow> True | _ \<Rightarrow> False)"

definition keeps_results :: "inbox \<Rightarrow> inbox \<Rightarrow> bool" where
  "keeps_results ib ib' \<longleftrightarrow> (\<forall>k v. hm_get (ib_results ib) k = Some v \<longrightarrow> hm_get (ib_results ib') k = Some v)"

lemma keeps_refl [simp]: "keeps_results ib ib"
  by (simp add: keeps_results_def)

lemma keeps_trans: "keeps_results a b \<Longrightarrow> keeps_results b c \<Longrightarrow> keeps_results a c"
  by (simp add: keeps_results_def)

lemma answered_keeps: "keeps_results ib ib' \<Longrightarrow> answered ib rid \<Longrightarrow> answered ib' rid"
  by (auto simp: answered_def keeps_results_def split: option.splits)

lemma exists_law:
  assumes "command_inbox_result_exists ie path ib = (ib', r)"
  shows "ib_results ib' = ib_results ib" "ib_pending ib' = ib_pending ib"
    "r = Inr True \<Longrightarrow> \<exists>res. hm_get (ib_results ib) path = Some (ResultFile res)"
    "r = Inr False \<Longrightarrow> hm_get (ib_results ib) path = None"
    "hm_get (ib_results ib) path = Some (ResultFile res) \<Longrightarrow> r \<noteq> Inr False"
  using assms by (auto simp: command_inbox_result_exists_def split: option.splits result_entry.splits)

lemma remove_law:
  assumes "remove_command_inbox_file ie name ib = (ib', r)"
  shows "ib_results ib' = ib_results ib" "r = Inr () \<Longrightarrow> ib_pending ib' = hm_remove name (ib_pending ib)"
  using assms by (auto simp: remove_command_inbox_file_def Let_def split: sum.splits)

lemma write_law:
  assumes "write_result ie res ib = (ib', r)" "hm_get (ib_results ib) (command_inbox_result_path (ir_request_id res)) = None"
  shows "keeps_results ib ib'" "ib_pending ib' = ib_pending ib" "r = Inr () \<Longrightarrow> answered ib' (ir_request_id res)"
  using assms by (auto simp: write_result_def Let_def keeps_results_def answered_def split: sum.splits)

lemma leave_law:
  assumes "leave_result ie name res ib = (ib', r)"
  shows "keeps_results ib ib' \<and>
    (r = Inr () \<longrightarrow> answered ib' (ir_request_id res) \<and> ib_pending ib' = hm_remove name (ib_pending ib))"
proof -
  let ?path = "command_inbox_result_path (ir_request_id res)"
  obtain ib1 q where ex: "command_inbox_result_exists ie ?path ib = (ib1, q)" by fastforce
  note ex_law = exists_law [OF ex]
  have kept: "keeps_results ib ib1" by (simp add: keeps_results_def ex_law(1))
  show ?thesis
  proof (cases q)
    case (Inl e)
    with assms ex kept show ?thesis by (auto simp: leave_result_def)
  next
    case (Inr b)
    show ?thesis
    proof (cases b)
      case True
      with Inr assms ex have rm: "remove_command_inbox_file ie name ib1 = (ib', r)" by (simp add: leave_result_def)
      from Inr True ex_law(3) have "answered ib (ir_request_id res)" by (auto simp: answered_def)
      with remove_law [OF rm] ex_law(1,2) show ?thesis by (simp add: keeps_results_def answered_def)
    next
      case False
      obtain ib2 w where wr: "write_result ie res ib1 = (ib2, w)" by fastforce
      have fresh: "hm_get (ib_results ib1) ?path = None" using ex_law(1,4) Inr False by simp
      note wr_law = write_law [OF wr fresh]
      show ?thesis
      proof (cases w)
        case (Inl e)
        with wr False Inr assms ex have "ib' = ib2" "r = Inl e" by (simp_all add: leave_result_def)
        with wr_law(1) kept show ?thesis by (auto intro: keeps_trans)
      next
        case (Inr u)
        with wr False \<open>q = Inr b\<close> assms ex have rm: "remove_command_inbox_file ie name ib2 = (ib', r)" by (simp add: leave_result_def)
        from remove_law [OF rm] have "keeps_results ib2 ib'" by (simp add: keeps_results_def)
        with wr_law Inr kept remove_law [OF rm] ex_law(2) show ?thesis
          by (auto intro: keeps_trans answered_keeps)
      qed
    qed
  qed
qed

lemma answer_id: "answer_request env ie now q d = (d', sent, res) \<Longrightarrow> ir_request_id res = iq_request_id q"
  by (auto simp: answer_request_def Let_def split: option.splits prod.splits sum.splits)

lemma process_file_law:
  assumes "process_pending_file env ie name content d ib = (d', ib', sent, r)"
  shows "keeps_results ib ib' \<and>
    (r = Inr () \<longrightarrow> answered ib' (answered_id name content) \<and> ib_pending ib' = hm_remove name (ib_pending ib))"
proof (cases content)
  case (FileRequest q)
  obtain ib1 x where ex: "command_inbox_result_exists ie (command_inbox_result_path (iq_request_id q)) ib = (ib1, x)" by fastforce
  note ex_law = exists_law [OF ex]
  have kept: "keeps_results ib ib1" by (simp add: keeps_results_def ex_law(1))
  consider e where "x = Inl e" | "x = Inr True" | "x = Inr False" by (metis (full_types) sum.exhaust)
  then show ?thesis
  proof cases
    case 1
    with assms ex FileRequest kept show ?thesis by (auto simp: process_pending_file_def Let_def)
  next
    case 2
    obtain ib2 y where rm: "remove_command_inbox_file ie name ib1 = (ib2, y)" by fastforce
    with 2 assms ex FileRequest have eqs: "ib' = ib2" "r = y" by (simp_all add: process_pending_file_def Let_def)
    from 2 ex_law(3) have "answered ib (iq_request_id q)" by (auto simp: answered_def)
    with remove_law [OF rm] ex_law(1,2) eqs FileRequest show ?thesis by (simp add: keeps_results_def answered_def answered_id_def)
  next
    case 3
    obtain d1 sent1 res where ans: "answer_request env ie (ie_clock ie (ib_io ib)) q d = (d1, sent1, res)" by (metis prod_cases3)
    obtain ib2 y where lv: "leave_result ie name res ib1 = (ib2, y)" by fastforce
    from 3 ans lv assms ex FileRequest have eqs: "ib' = ib2" "r = y" by (simp_all add: process_pending_file_def Let_def)
    from leave_law [OF lv] kept eqs answer_id [OF ans] ex_law(2) FileRequest show ?thesis
      by (auto simp: answered_id_def intro: keeps_trans)
  qed
qed (use assms in \<open>auto simp: process_pending_file_def Let_def answered_id_def failed_request_def
       split: prod.splits dest!: leave_law\<close>)

lemma process_file_known:
  assumes "process_pending_file env ie name (FileRequest q) d ib = (d', ib', sent, r)" "answered ib (iq_request_id q)"
  shows "d' = d \<and> sent = [] \<and> ib_results ib' = ib_results ib"
proof -
  obtain ib1 x where ex: "command_inbox_result_exists ie (command_inbox_result_path (iq_request_id q)) ib = (ib1, x)" by fastforce
  obtain ib2 y where rm: "remove_command_inbox_file ie name ib1 = (ib2, y)" by fastforce
  from assms(2) obtain res where "hm_get (ib_results ib) (command_inbox_result_path (iq_request_id q)) = Some (ResultFile res)"
    by (auto simp: answered_def split: option.splits result_entry.splits)
  from exists_law(5) [OF ex this] have "x \<noteq> Inr False" .
  then consider e where "x = Inl e" | "x = Inr True" by (metis (full_types) sum.exhaust)
  then show ?thesis using assms(1) ex rm remove_law(1) [OF rm] exists_law(1) [OF ex]
    by cases (auto simp: process_pending_file_def Let_def)
qed

lemma process_files_law:
  assumes "process_pending_files env ie files d ib = (d', ib', sent, r)"
  shows "keeps_results ib ib' \<and>
    (is_ok r \<longrightarrow> r = Inr (length files) \<and> (\<forall>(name, content) \<in> set files. answered ib' (answered_id name content)) \<and>
       ib_pending ib' = fold hm_remove (map fst files) (ib_pending ib))"
  using assms
proof (induction files arbitrary: d ib d' ib' sent r)
  case (Cons f files)
  obtain name content where f: "f = (name, content)" by fastforce
  obtain d1 ib1 s1 r1 where one: "process_pending_file env ie name content d ib = (d1, ib1, s1, r1)" by (metis prod_cases4)
  note law = process_file_law [OF one]
  show ?case
  proof (cases r1)
    case (Inl e)
    with Cons.prems one f law show ?thesis by auto
  next
    case (Inr u)
    obtain d2 ib2 s2 r2 where rest: "process_pending_files env ie files d1 ib1 = (d2, ib2, s2, r2)" by (metis prod_cases4)
    with Cons.prems one f Inr have eqs: "ib' = ib2" "r = map_sum id Suc r2" by simp_all
    have kept: "keeps_results ib1 ib2" and ih: "is_ok r2 \<Longrightarrow> r2 = Inr (length files) \<and>
        (\<forall>(name, content) \<in> set files. answered ib2 (answered_id name content)) \<and> ib_pending ib2 = fold hm_remove (map fst files) (ib_pending ib1)"
      using Cons.IH [OF rest] by blast+
    have "answered ib2 (answered_id name content)" using law Inr kept by (auto intro: answered_keeps)
    with ih law Inr kept eqs f show ?thesis by (cases r2) (auto intro: keeps_trans)
  qed
qed simp

lemma process_files_known:
  assumes "process_pending_files env ie files d ib = (d', ib', sent, r)"
    "\<forall>(name, content) \<in> set files. \<exists>q. content = FileRequest q \<and> answered ib (iq_request_id q)"
  shows "d' = d \<and> sent = [] \<and> ib_results ib' = ib_results ib"
  using assms
proof (induction files arbitrary: d ib d' ib' sent r)
  case (Cons f files)
  then obtain name q where f: "f = (name, FileRequest q)" and known: "answered ib (iq_request_id q)" by auto
  obtain d1 ib1 s1 r1 where one: "process_pending_file env ie name (FileRequest q) d ib = (d1, ib1, s1, r1)" by (metis prod_cases4)
  note law = process_file_known [OF one known]
  obtain d2 ib2 s2 r2 where rest: "process_pending_files env ie files d1 ib1 = (d2, ib2, s2, r2)" by (metis prod_cases4)
  from Cons.prems(2) law have "\<forall>(name, content) \<in> set files. \<exists>q. content = FileRequest q \<and> answered ib1 (iq_request_id q)"
    by (auto simp: answered_def)
  from Cons.IH [OF rest this] law Cons.prems(1) one rest f show ?case by (cases r1) auto
qed simp

lemma inbox_once_files:
  assumes "process_command_inbox_once env ie d ib = (d', ib', sent, r)"
  obtains e where "d' = d" "sent = []" "r = Inl e" "ib_results ib' = ib_results ib" "ib_pending ib' = ib_pending ib"
  | ib1 where "ib_results ib1 = ib_results ib" "ib_pending ib1 = ib_pending ib"
      "process_pending_files env ie (pending_files ib) d ib1 = (d', ib', sent, r)"
proof (cases "ie_directories ie (ib_io ib)")
  case (Inl e)
  with assms show ?thesis by (auto simp: process_command_inbox_once_def Let_def intro: that(1))
next
  case (Inr u)
  let ?ib1 = "ib\<lparr>ib_io := Suc (ib_io ib)\<rparr>"
  have "pending_files ?ib1 = pending_files ib" by (simp add: pending_files_def)
  with Inr assms have "process_pending_files env ie (pending_files ib) d ?ib1 = (d', ib', sent, r)"
    by (simp add: process_command_inbox_once_def Let_def)
  then show ?thesis by (intro that(2) [of ?ib1]) simp_all
qed

lemma inbox_once_answers:
  assumes "process_command_inbox_once env ie d ib = (d', ib', sent, Inr n)"
  shows "n = length (pending_files ib) \<and> keeps_results ib ib' \<and>
    (\<forall>(name, content) \<in> set (pending_files ib). answered ib' (answered_id name content)) \<and>
    ib_pending ib' = fold hm_remove (map fst (pending_files ib)) (ib_pending ib)"
  using inbox_once_files [OF assms]
proof cases
  case (2 ib1)
  from process_files_law [OF 2(3)] 2(1,2) show ?thesis by (simp add: keeps_results_def)
qed simp

text \<open>A result file belongs to the request it names. Every new one belongs to a request that was processed.\<close>

definition result_of :: "inbox \<Rightarrow> string \<Rightarrow> bool" where
  "result_of ib rid \<longleftrightarrow>
     (\<exists>res. hm_get (ib_results ib) (command_inbox_result_path rid) = Some (ResultFile res) \<and> ir_request_id res = rid)"

definition new_results :: "string set \<Rightarrow> inbox \<Rightarrow> inbox \<Rightarrow> bool" where
  "new_results ids ib ib' \<longleftrightarrow>
     (\<forall>k res. hm_get (ib_results ib') k = Some (ResultFile res) \<longrightarrow>
        hm_get (ib_results ib) k = Some (ResultFile res) \<or>
        ir_request_id res \<in> ids \<and> k = command_inbox_result_path (ir_request_id res))"

lemma leave_new:
  assumes "leave_result ie name res ib = (ib', r)"
  shows "new_results {ir_request_id res} ib ib'"
proof -
  let ?path = "command_inbox_result_path (ir_request_id res)"
  obtain ib1 q where ex: "command_inbox_result_exists ie ?path ib = (ib1, q)" by fastforce
  obtain ib2 w where wr: "write_result ie res ib1 = (ib2, w)" by fastforce
  obtain ib3 x where rm: "remove_command_inbox_file ie name ib1 = (ib3, x)" by fastforce
  obtain ib4 y where rm2: "remove_command_inbox_file ie name ib2 = (ib4, y)" by fastforce
  have written: "ib_results ib2 = ib_results ib1 \<or> ib_results ib2 = hm_insert ?path (ResultFile res) (ib_results ib1)"
    using wr by (auto simp: write_result_def Let_def split: sum.splits)
  have "ib' = ib1 \<or> ib' = ib2 \<or> ib' = ib3 \<or> ib' = ib4"
    using assms ex wr rm rm2 by (cases q; cases w) (auto simp: leave_result_def split: bool.splits)
  then have "ib_results ib' = ib_results ib \<or> ib_results ib' = hm_insert ?path (ResultFile res) (ib_results ib)"
    using written exists_law(1) [OF ex] remove_law(1) [OF rm] remove_law(1) [OF rm2] by auto
  then show ?thesis by (auto simp: new_results_def split: if_splits)
qed

lemma process_file_new:
  assumes "process_pending_file env ie name content d ib = (d', ib', sent, r)"
  shows "new_results {answered_id name content} ib ib'"
proof (cases content)
  case (FileRequest q)
  obtain ib1 x where ex: "command_inbox_result_exists ie (command_inbox_result_path (iq_request_id q)) ib = (ib1, x)" by fastforce
  obtain ib2 y where rm: "remove_command_inbox_file ie name ib1 = (ib2, y)" by fastforce
  obtain d1 sent1 res where ans: "answer_request env ie (ie_clock ie (ib_io ib)) q d = (d1, sent1, res)" by (metis prod_cases3)
  obtain ib3 z where lv: "leave_result ie name res ib1 = (ib3, z)" by fastforce
  from leave_new [OF lv] answer_id [OF ans] have "new_results {iq_request_id q} ib1 ib3" by simp
  with assms FileRequest ex rm ans lv exists_law(1) [OF ex] remove_law(1) [OF rm] show ?thesis
    by (cases x) (auto simp: process_pending_file_def Let_def answered_id_def new_results_def split: bool.splits)
qed (use assms in \<open>auto simp: process_pending_file_def Let_def answered_id_def failed_request_def split: prod.splits dest!: leave_new\<close>)

lemma process_files_new:
  "process_pending_files env ie files d ib = (d', ib', sent, r) \<Longrightarrow> new_results ((\<lambda>(name, content). answered_id name content) ` set files) ib ib'"
proof (induction files arbitrary: d ib d' ib' sent r)
  case (Cons f files)
  obtain name content where f: "f = (name, content)" by fastforce
  obtain d1 ib1 s1 r1 where one: "process_pending_file env ie name content d ib = (d1, ib1, s1, r1)" by (metis prod_cases4)
  obtain d2 ib2 s2 r2 where rest: "process_pending_files env ie files d1 ib1 = (d2, ib2, s2, r2)" by (metis prod_cases4)
  from Cons.prems one rest f have "ib' = ib1 \<or> ib' = ib2" by (cases r1) auto
  with process_file_new [OF one] Cons.IH [OF rest] f show ?case unfolding new_results_def by auto
qed (simp add: new_results_def)

text \<open>Different request identifiers can share the name of a result file, since unsupported characters are replaced.\<close>

definition distinct_results :: "inbox \<Rightarrow> bool" where
  \<comment> \<open>no result file that a pending request would use belongs to another request, pending or answered\<close>
  "distinct_results ib \<longleftrightarrow>
     (\<forall>(name, content) \<in> set (pending_files ib).
        (\<forall>res. hm_get (ib_results ib) (command_inbox_result_path (answered_id name content)) = Some (ResultFile res) \<longrightarrow>
           ir_request_id res = answered_id name content) \<and>
        (\<forall>(name', content') \<in> set (pending_files ib).
           command_inbox_result_path (answered_id name' content') = command_inbox_result_path (answered_id name content) \<longrightarrow>
           answered_id name' content' = answered_id name content))"

lemma answered_result_of:
  assumes "distinct_results ib" "process_command_inbox_once env ie d ib = (d', ib', sent, Inr n)" "(name, content) \<in> set (pending_files ib)"
  shows "result_of ib' (answered_id name content)"
proof -
  let ?id = "answered_id name content"
  have "answered ib' ?id" using inbox_once_answers [OF assms(2)] assms(3) by auto
  then obtain res where res: "hm_get (ib_results ib') (command_inbox_result_path ?id) = Some (ResultFile res)"
    by (auto simp: answered_def split: option.splits result_entry.splits)
  have "ir_request_id res = ?id"
  proof -
    have "new_results ((\<lambda>(name, content). answered_id name content) ` set (pending_files ib)) ib ib'"
      using inbox_once_files [OF assms(2)] process_files_new by cases (fastforce simp: new_results_def)+
    with res consider "hm_get (ib_results ib) (command_inbox_result_path ?id) = Some (ResultFile res)"
      | name' content' where "(name', content') \<in> set (pending_files ib)" "ir_request_id res = answered_id name' content'"
          "command_inbox_result_path ?id = command_inbox_result_path (ir_request_id res)"
      unfolding new_results_def by fastforce
    then show ?thesis
    proof cases
      case 1
      with assms(1,3) show ?thesis unfolding distinct_results_def by fastforce
    next
      case (2 name' content')
      with assms(1,3) show ?thesis unfolding distinct_results_def by fastforce
    qed
  qed
  with res show ?thesis by (auto simp: result_of_def)
qed

text \<open>C10: A command request is answered once and for all. A pass that completes, with no two requests sharing the
  name of a result file, leaves for every pending request a result file of that very request; and when any of these
  requests is found in the inbox again, in whatever order and under
  whatever file names, a later pass with the results still in place neither touches the daemon nor hands a
  command to the port, and the results stay as they are. (Of two requests whose identifiers differ
  only in characters that are not allowed in file names, the later one is dropped without a result of its own.)\<close>

theorem inbox_answers_once:
  assumes "process_command_inbox_once env ie d ib = (d1, ib1, sent, Inr n)"
    and "keeps_results ib1 ib2"
    and "\<forall>(name, content) \<in> set (pending_files ib2). \<exists>q. content = FileRequest q \<and>
           (\<exists>name' q'. (name', FileRequest q') \<in> set (pending_files ib) \<and> iq_request_id q' = iq_request_id q)"
    and "process_command_inbox_once env ie d2 ib2 = (d3, ib3, sent3, r)"
    and "distinct_results ib"
  shows "(\<forall>(name, content) \<in> set (pending_files ib). result_of ib1 (answered_id name content)) \<and>
    d3 = d2 \<and> sent3 = [] \<and> ib_results ib3 = ib_results ib2"
proof -
  have first: "\<forall>(name, content) \<in> set (pending_files ib). answered ib1 (answered_id name content)"
    using inbox_once_answers [OF assms(1)] by blast
  have known: "\<forall>(name, content) \<in> set (pending_files ib2). \<exists>q. content = FileRequest q \<and> answered ib2 (iq_request_id q)"
    using first assms(3) answered_keeps [OF assms(2)] by (fastforce simp: answered_id_def)
  from assms(4) have "d3 = d2 \<and> sent3 = [] \<and> ib_results ib3 = ib_results ib2"
  proof (cases rule: inbox_once_files)
    case (2 iba)
    from known 2(1) have "\<forall>(name, content) \<in> set (pending_files ib2). \<exists>q. content = FileRequest q \<and> answered iba (iq_request_id q)"
      by (simp add: answered_def)
    from process_files_known [OF 2(3) this] 2(1) show ?thesis by simp
  qed simp
  with answered_result_of [OF assms(5,1)] show ?thesis by blast
qed

subsection \<open>A pass without failures\<close>

definition inbox_works :: "inbox_env \<Rightarrow> bool" where
  "inbox_works ie \<longleftrightarrow>
     (\<forall>n. ie_directories ie n = Inr () \<and> ie_remove ie n = Inr () \<and> ie_write ie n = Inr () \<and> (\<forall>path. ie_metadata ie n path = None))"

definition only_files :: "inbox \<Rightarrow> bool" where
  "only_files ib \<longleftrightarrow> (\<forall>k. hm_get (ib_results ib) k \<noteq> Some ResultNoFile)"

lemma exists_works:
  assumes "inbox_works ie" "only_files ib"
  obtains ib' b where "command_inbox_result_exists ie path ib = (ib', Inr b)" "only_files ib'"
proof -
  have "\<exists>b. snd (command_inbox_result_exists ie path ib) = Inr b"
    using assms by (auto simp: command_inbox_result_exists_def inbox_works_def only_files_def split: option.splits result_entry.splits)
  moreover have "only_files (fst (command_inbox_result_exists ie path ib))"
    using assms(2) by (simp add: command_inbox_result_exists_def only_files_def)
  ultimately show ?thesis using that by (metis prod.collapse)
qed

lemma remove_works:
  assumes "inbox_works ie" "only_files ib"
  obtains ib' where "remove_command_inbox_file ie name ib = (ib', Inr ())" "only_files ib'"
  using assms by (auto simp: remove_command_inbox_file_def inbox_works_def only_files_def Let_def)

lemma leave_works:
  assumes "inbox_works ie" "only_files ib"
  obtains ib' where "leave_result ie name res ib = (ib', Inr ())" "only_files ib'"
proof -
  obtain ib1 b where ex: "command_inbox_result_exists ie (command_inbox_result_path (ir_request_id res)) ib = (ib1, Inr b)"
    and ok: "only_files ib1" by (rule exists_works [OF assms])
  obtain ib2 where rm: "remove_command_inbox_file ie name ib1 = (ib2, Inr ())" "only_files ib2" by (rule remove_works [OF assms(1) ok])
  obtain ib3 where wr: "write_result ie res ib1 = (ib3, Inr ())" and ok3: "only_files ib3"
    using assms(1) ok by (simp add: write_result_def inbox_works_def only_files_def Let_def)
  obtain ib4 where rm4: "remove_command_inbox_file ie name ib3 = (ib4, Inr ())" "only_files ib4" by (rule remove_works [OF assms(1) ok3])
  show ?thesis by (cases b) (use ex rm wr rm4 that in \<open>auto simp: leave_result_def\<close>)
qed

lemma process_file_works:
  assumes "inbox_works ie" "only_files ib"
  obtains d' ib' sent where "process_pending_file env ie name content d ib = (d', ib', sent, Inr ())" "only_files ib'"
proof (cases content)
  case (FileRequest q)
  obtain ib1 b where ex: "command_inbox_result_exists ie (command_inbox_result_path (iq_request_id q)) ib = (ib1, Inr b)"
    and ok: "only_files ib1" by (rule exists_works [OF assms])
  obtain ib2 where rm: "remove_command_inbox_file ie name ib1 = (ib2, Inr ())" "only_files ib2" by (rule remove_works [OF assms(1) ok])
  obtain d1 sent1 res where ans: "answer_request env ie (ie_clock ie (ib_io ib)) q d = (d1, sent1, res)" by (metis prod_cases3)
  obtain ib3 where lv: "leave_result ie name res ib1 = (ib3, Inr ())" "only_files ib3" by (rule leave_works [OF assms(1) ok])
  show ?thesis by (cases b) (use FileRequest ex rm ans lv that in \<open>auto simp: process_pending_file_def Let_def\<close>)
next
  case (FileUnreadable e)
  obtain ib1 where "leave_result ie name (failed_request name (ie_clock ie (ib_io ib)) (''failed to read command request: '' @ e)) ib = (ib1, Inr ())"
    "only_files ib1" by (rule leave_works [OF assms])
  with FileUnreadable that show ?thesis by (simp add: process_pending_file_def Let_def)
next
  case (FileUndecodable e)
  obtain ib1 where "leave_result ie name (failed_request name (ie_clock ie (ib_io ib)) (''failed to decode command request: '' @ e)) ib = (ib1, Inr ())"
    "only_files ib1" by (rule leave_works [OF assms])
  with FileUndecodable that show ?thesis by (simp add: process_pending_file_def Let_def)
qed

lemma process_files_work:
  assumes "inbox_works ie" "only_files ib"
  shows "\<exists>d' ib' sent n. process_pending_files env ie files d ib = (d', ib', sent, Inr n)"
  using assms(2)
proof (induction files arbitrary: d ib)
  case (Cons f files)
  obtain name content where f: "f = (name, content)" by fastforce
  obtain d1 ib1 s1 where one: "process_pending_file env ie name content d ib = (d1, ib1, s1, Inr ())" "only_files ib1"
    by (rule process_file_works [OF assms(1) Cons.prems])
  from Cons.IH [OF one(2)] obtain d2 ib2 s2 n where "process_pending_files env ie files d1 ib1 = (d2, ib2, s2, Inr n)" by blast
  with one f show ?case by simp
qed simp

lemma get_fold_remove: "hm_get (fold hm_remove ks m) k = (if k \<in> set ks then None else hm_get m k)"
  by (induction ks arbitrary: m) auto

lemma pending_files_get:
  "hm_wf (ib_pending ib) \<Longrightarrow> (name, content) \<in> set (pending_files ib) \<longleftrightarrow>
     hm_get (ib_pending ib) name = Some (RegularFile content) \<and> snd (file_name_parts name) = Some ''json''"
  by (auto simp: pending_files_def List.map_filter_def hm_get_iff split: pending_entry.splits if_splits intro!: image_eqI)

lemma wf_fold_remove: "hm_wf m \<Longrightarrow> hm_wf (fold hm_remove ks m)"
  by (induction ks arbitrary: m) auto

lemma inbox_once_works:
  assumes "inbox_works ie" "only_files ib"
  shows "\<exists>d' ib' sent n. process_command_inbox_once env ie d ib = (d', ib', sent, Inr n)"
proof -
  have "only_files (ib\<lparr>ib_io := Suc (ib_io ib)\<rparr>)" using assms(2) by (simp add: only_files_def)
  from process_files_work [OF assms(1) this, of env "pending_files (ib\<lparr>ib_io := Suc (ib_io ib)\<rparr>)" d] assms(1) show ?thesis
    by (auto simp: process_command_inbox_once_def inbox_works_def Let_def)
qed

text \<open>A pass that meets no failure of the file system completes: it returns how many request files there were,
  unreadable and undecodable ones included, every one of them has a result and is gone from the inbox, and the results
  of earlier passes are untouched.\<close>

theorem inbox_pass_answers_all:
  assumes "inbox_works ie" and "only_files ib" and "hm_wf (ib_pending ib)"
  shows "\<exists>d' ib' sent. process_command_inbox_once env ie d ib = (d', ib', sent, Inr (length (pending_files ib))) \<and>
    (\<forall>(name, content) \<in> set (pending_files ib). answered ib' (answered_id name content)) \<and>
    pending_files ib' = [] \<and> keeps_results ib ib'"
proof -
  obtain d' ib' sent n where run: "process_command_inbox_once env ie d ib = (d', ib', sent, Inr n)"
    using inbox_once_works [OF assms(1,2)] by blast
  note law = inbox_once_answers [OF run]
  have wf: "hm_wf (ib_pending ib')" using law assms(3) by (simp add: wf_fold_remove)
  have "f \<notin> set (pending_files ib')" for f
  proof
    assume f: "f \<in> set (pending_files ib')"
    obtain name content where split: "f = (name, content)" by fastforce
    from f have here: "hm_get (ib_pending ib') name = Some (RegularFile content)" "snd (file_name_parts name) = Some ''json''"
      unfolding split pending_files_get [OF wf] by blast+
    from law have left: "ib_pending ib' = fold hm_remove (map fst (pending_files ib)) (ib_pending ib)" by blast
    from here(1) have old: "hm_get (ib_pending ib) name = Some (RegularFile content)" and gone: "name \<notin> fst ` set (pending_files ib)"
      unfolding left get_fold_remove set_map by (simp_all split: if_splits)
    from old here(2) have "(name, content) \<in> set (pending_files ib)" unfolding pending_files_get [OF assms(3)] by blast
    with gone show False by force
  qed
  then have "pending_files ib' = []" by (metis list.set_intros(1) neq_Nil_conv)
  with run law show ?thesis by blast
qed

subsection \<open>An overlong request id\<close>

definition inbox_pass :: "'h daemon_env \<Rightarrow> inbox_env \<Rightarrow> 'h daemon \<times> inbox \<Rightarrow> 'h daemon \<times> inbox" where
  \<comment> \<open>an iteration of the inbox task, which only logs the error of a pass\<close>
  "inbox_pass env ie s = (case process_command_inbox_once env ie (fst s) (snd s) of (d', ib', _, _) \<Rightarrow> (d', ib'))"

definition names_bounded :: "inbox_env \<Rightarrow> bool" where
  \<comment> \<open>file systems refuse names of more than 255 bytes\<close>
  "names_bounded ie \<longleftrightarrow> (\<forall>n path. 255 < length path \<longrightarrow> ie_metadata ie n path = Some ''File name too long'')"

lemma safe_length: "length (utf8_chars s) \<le> length (safe_file_component s)"
  by (simp add: safe_file_component_def Let_def)

lemma overlong_pass:
  assumes "names_bounded ie" "pending_files ib = (name, FileRequest q) # files" "250 < length (utf8_chars (iq_request_id q))"
  shows "\<exists>io e. process_command_inbox_once env ie d ib = (d, ib\<lparr>ib_io := io\<rparr>, [], Inl e)"
proof (cases "ie_directories ie (ib_io ib)")
  case (Inl e)
  then show ?thesis by (auto simp: process_command_inbox_once_def Let_def)
next
  case (Inr u)
  have "255 < length (command_inbox_result_path (iq_request_id q))"
    using assms(3) safe_length [of "iq_request_id q"] by (simp add: command_inbox_result_path_def)
  then have bad: "ie_metadata ie n (command_inbox_result_path (iq_request_id q)) = Some ''File name too long''" for n
    using assms(1) by (simp add: names_bounded_def)
  have "pending_files (ib\<lparr>ib_io := Suc (ib_io ib)\<rparr>) = (name, FileRequest q) # files"
    using assms(2) by (simp add: pending_files_def)
  with bad Inr show ?thesis
    by (auto simp: process_command_inbox_once_def process_pending_file_def command_inbox_result_exists_def Let_def)
qed

text \<open>C40: One request with an overlong id stops the inbox for good. The check of the length of an id comes after the look
  at its result file, which fails for names that the file system refuses; so if the first request file
  has an id of more than 250 characters, then after any number of passes the daemon has
  seen no command, no result was written and every request, valid or not, is still pending.\<close>

theorem overlong_request_blocks_inbox:
  assumes "names_bounded ie" and "pending_files ib = (name, FileRequest q) # files" and "250 < length (utf8_chars (iq_request_id q))"
  shows "\<exists>io. (inbox_pass env ie ^^ passes) (d, ib) = (d, ib\<lparr>ib_io := io\<rparr>)"
proof (induction passes)
  case 0
  show ?case by (auto intro: exI [of _ "ib_io ib"])
next
  case (Suc passes)
  then obtain io where "(inbox_pass env ie ^^ passes) (d, ib) = (d, ib\<lparr>ib_io := io\<rparr>)" by blast
  moreover have "pending_files (ib\<lparr>ib_io := io\<rparr>) = (name, FileRequest q) # files" using assms(2) by (simp add: pending_files_def)
  from overlong_pass [OF assms(1) this assms(3), of env d] obtain io' e where
    "process_command_inbox_once env ie d (ib\<lparr>ib_io := io\<rparr>) = (d, ib\<lparr>ib_io := io\<rparr>\<lparr>ib_io := io'\<rparr>, [], Inl e)" by blast
  then have "inbox_pass env ie (d, ib\<lparr>ib_io := io\<rparr>) = (d, ib\<lparr>ib_io := io'\<rparr>)" by (simp add: inbox_pass_def)
  ultimately show ?case by auto
qed

subsection \<open>An inbox with one request\<close>

definition demo_inbox_env :: inbox_env where
  "demo_inbox_env =
     \<lparr>ie_directories = (\<lambda>_. Inr ()), ie_metadata = (\<lambda>_ _. None), ie_remove = (\<lambda>_. Inr ()), ie_write = (\<lambda>_. Inr ()), ie_clock = (\<lambda>n. n),
      ie_debug = quoted, ie_root = ''inbox''\<rparr>"

definition demo_request :: "string \<Rightarrow> inbox_request" where
  "demo_request rid =
     \<lparr>iq_request_id = rid, iq_created_at_ms = 0, iq_command = demo_command (Some 1) (CmdTerminalInput ''ls''), iq_context = default_policy_context\<rparr>"

definition demo_inbox :: "string \<Rightarrow> string \<Rightarrow> inbox" where
  "demo_inbox name rid = \<lparr>ib_pending = [(name, RegularFile (FileRequest (demo_request rid)))], ib_results = [], ib_io = 0\<rparr>"

definition demo_again :: inbox where
  \<comment> \<open>the request is put back under another name after a first pass\<close>
  "demo_again =
     (fst (snd (process_command_inbox_once demo_env demo_inbox_env (demo_daemon []) (demo_inbox ''a.json'' ''r1''))))
       \<lparr>ib_pending := ib_pending (demo_inbox ''b.json'' ''r1'')\<rparr>"

lemma demo_inbox_works [simp]: "inbox_works demo_inbox_env" "only_files (demo_inbox name rid)" "hm_wf (ib_pending (demo_inbox name rid))"
  by (simp_all add: inbox_works_def only_files_def demo_inbox_env_def demo_inbox_def)

lemma demo_pending_files:
  "ib_pending ib = ib_pending (demo_inbox name rid) \<Longrightarrow> snd (file_name_parts name) = Some ''json'' \<Longrightarrow>
   pending_files ib = [(name, FileRequest (demo_request rid))]"
  by (simp add: pending_files_def demo_inbox_def List.map_filter_simps)

lemma demo_names [simp]: "snd (file_name_parts ''a.json'') = Some ''json''" "snd (file_name_parts ''b.json'') = Some ''json''"
  by (simp_all add: file_name_parts_def)

theorem inbox_answers_once_witness:
  "fst (process_command_inbox_once demo_env demo_inbox_env (demo_daemon []) demo_again) = demo_daemon [] \<and>
   fst (snd (snd (process_command_inbox_once demo_env demo_inbox_env (demo_daemon []) demo_again))) = [] \<and>
   result_of demo_again ''r1'' \<and> pending_files demo_again = [(''b.json'', FileRequest (demo_request ''r1''))]"
proof -
  obtain d1 ib1 sent n where one: "process_command_inbox_once demo_env demo_inbox_env (demo_daemon []) (demo_inbox ''a.json'' ''r1'') = (d1, ib1, sent, Inr n)"
    using inbox_once_works [OF demo_inbox_works(1,2)] by blast
  obtain d3 ib3 sent3 r where two: "process_command_inbox_once demo_env demo_inbox_env (demo_daemon []) demo_again = (d3, ib3, sent3, r)"
    by (metis prod_cases4)
  have kept: "keeps_results ib1 demo_again" by (simp add: demo_again_def one keeps_results_def)
  have files: "pending_files demo_again = [(''b.json'', FileRequest (demo_request ''r1''))]"
    by (rule demo_pending_files) (simp_all add: demo_again_def)
  have known: "\<forall>(name, content) \<in> set (pending_files demo_again). \<exists>q. content = FileRequest q \<and>
     (\<exists>name' q'. (name', FileRequest q') \<in> set (pending_files (demo_inbox ''a.json'' ''r1'')) \<and> iq_request_id q' = iq_request_id q)"
    by (simp add: files demo_pending_files [OF refl])
  have "distinct_results (demo_inbox ''a.json'' ''r1'')" unfolding distinct_results_def demo_pending_files [OF refl demo_names(1)]
    by (simp add: demo_inbox_def)
  note once = inbox_answers_once [OF one kept known two this]
  then have "result_of ib1 ''r1''" by (simp add: demo_pending_files [OF refl] answered_id_def demo_request_def)
  moreover have "ib_results demo_again = ib_results ib1" by (simp add: demo_again_def one)
  ultimately have "result_of demo_again ''r1''" by (simp add: result_of_def)
  with once two files show ?thesis by simp
qed

theorem inbox_pass_answers_all_witness:
  "snd (snd (snd (process_command_inbox_once demo_env demo_inbox_env (demo_daemon []) (demo_inbox ''a.json'' ''r1'')))) = Inr 1"
  using inbox_pass_answers_all [OF demo_inbox_works, of demo_env "demo_daemon []" "''a.json''" "''r1''"]
  by (auto simp: demo_pending_files [OF refl])

lemma utf8_chars_replicate: "utf8_chars (replicate n CHR ''x'') = replicate n ''x''"
  by (induction n) (simp_all add: utf8_len_def)

theorem overlong_request_blocks_inbox_witness:
  "pending_files (snd ((inbox_pass demo_env
      (demo_inbox_env\<lparr>ie_metadata := (\<lambda>_ path. if 255 < length path then Some ''File name too long'' else None)\<rparr>) ^^ 1000)
      (demo_daemon [], demo_inbox ''a.json'' (replicate 300 CHR ''x'')))) = [(''a.json'', FileRequest (demo_request (replicate 300 CHR ''x'')))]"
proof -
  let ?ie = "demo_inbox_env\<lparr>ie_metadata := (\<lambda>_ path. if 255 < length path then Some ''File name too long'' else None)\<rparr>"
  let ?ib = "demo_inbox ''a.json'' (replicate 300 CHR ''x'')"
  have files: "pending_files ?ib = [(''a.json'', FileRequest (demo_request (replicate 300 CHR ''x'')))]"
    by (rule demo_pending_files) simp_all
  have "names_bounded ?ie" by (simp add: names_bounded_def)
  moreover have "250 < length (utf8_chars (iq_request_id (demo_request (replicate 300 CHR ''x''))))"
    unfolding demo_request_def inbox_request.simps utf8_chars_replicate by simp
  ultimately obtain io where "(inbox_pass demo_env ?ie ^^ 1000) (demo_daemon [], ?ib) = (demo_daemon [], ?ib\<lparr>ib_io := io\<rparr>)"
    using overlong_request_blocks_inbox [OF _ files] by blast
  moreover have "pending_files (?ib\<lparr>ib_io := io\<rparr>) = pending_files ?ib" by (simp add: pending_files_def)
  ultimately show ?thesis using files by simp
qed

end
