(* ===== verification/Runtime_Workflow.thy ===== *)
theory Runtime_Workflow
  imports Runtime_System
begin

text \<open>
  \<open>crates/brehon-workflow/src/lib.rs\<close> and the workflow loop of \<open>brehon-daemon\<close>: rules that observe
  runtime events and recommend actions, which stay dry runs unless the workflow is enabled. The loop
  publishes every recommendation and routes the requested commands through the daemon. A rule that
  panics is \<open>None\<close>.
\<close>

subsection \<open>The engine\<close>

record workflow_recommendation =
  wr_operation :: runtime_operation
  wr_reason :: string
  wr_command_id :: "string option"
  wr_command_kind :: "runtime_command_kind option"

record workflow_rule =
  wl_id :: string
  wl_observe :: "runtime_event \<Rightarrow> workflow_recommendation list option"

record workflow_engine =
  we_rules :: "workflow_rule list"
  we_enabled :: "string list"

record workflow_emission =
  em_audit_event :: runtime_event
  em_command :: "runtime_command option"
  em_policy_context :: runtime_policy_context

definition looks_rate_limited :: "detection_event \<Rightarrow> bool" where
  "looks_rate_limited det \<longleftrightarrow>
     (str_contains (dv_rule_id det) ''rate_limit'' \<or> str_contains (to_lowercase (dv_message det)) ''rate limit'') \<and>
     dv_severity det \<in> {DetectionWarning, DetectionBlocking}"

definition rate_limit_workflow_id :: string where
  "rate_limit_workflow_id = ''rate_limit.quarantine_recommendation''"

definition rate_limit_observe :: "runtime_event \<Rightarrow> workflow_recommendation list option" where
  "rate_limit_observe ev =
     Some (case re_kind ev of
        DetectionObserved det \<Rightarrow>
          if looks_rate_limited det
          then [\<lparr>wr_operation = OpQuarantinePane,
                 wr_reason = ''rate-limit detection '' @ quoted (dv_rule_id det) @ '' recommends operator review before more prompts'',
                 wr_command_id = None,
                 wr_command_kind = Some (CmdQuarantinePane (''rate-limit detection '' @ quoted (dv_rule_id det)))\<rparr>]
          else []
      | _ \<Rightarrow> [])"

definition rate_limit_workflow :: workflow_rule where
  "rate_limit_workflow = \<lparr>wl_id = rate_limit_workflow_id, wl_observe = rate_limit_observe\<rparr>"

definition default_workflow_engine :: "string list \<Rightarrow> workflow_engine" where
  "default_workflow_engine enabled = \<lparr>we_rules = [rate_limit_workflow], we_enabled = enabled\<rparr>"

definition emission :: "'h daemon_env \<Rightarrow> workflow_engine \<Rightarrow> runtime_event \<Rightarrow> string \<Rightarrow> workflow_recommendation \<Rightarrow> nat \<Rightarrow> workflow_emission" where
  "emission env engine observed workflow rec n =
     (let m = re_meta observed;
          requested = (workflow \<in> set (we_enabled engine) \<and> wr_command_kind rec \<noteq> None);
          cid = (if requested then Some (''workflow-command-'' @ de_uuid env n) else wr_command_id rec);
          command = (if requested
                     then Some \<lparr>rc_command_id = ''workflow-command-'' @ de_uuid env n,
                                rc_target = \<lparr>ct_session_id = rm_session_id m, ct_pane_id = Some (rm_pane_id m), ct_generation = Some (rm_generation m)\<rparr>,
                                rc_issued_at_ms = de_clock env n, rc_kind = the (wr_command_kind rec)\<rparr>
                     else None);
          meta = (new_meta (rm_session_id m) (rm_pane_id m) (rm_generation m) (SourceOther ''workflow'') (de_clock env (Suc n)))
                   \<lparr>rm_correlation_id := rm_correlation_id m\<rparr>
      in \<lparr>em_audit_event = new_event meta (WorkflowActed
             \<lparr>wa_workflow_id = workflow, wa_action_id = ''workflow-action-'' @ de_uuid env (Suc n), wa_operation = wr_operation rec,
              wa_status = (if requested then ActionRequested else ActionDryRun), wa_reason = wr_reason rec, wa_command_id = cid\<rparr>),
          em_command = command, em_policy_context = default_policy_context\<rparr>)"

fun emissions_of :: "'h daemon_env \<Rightarrow> workflow_engine \<Rightarrow> runtime_event \<Rightarrow> (string \<times> workflow_recommendation) list \<Rightarrow> nat \<Rightarrow> workflow_emission list" where
  "emissions_of env engine ev [] n = []"
| "emissions_of env engine ev ((w, rec) # recs) n = emission env engine ev w rec n # emissions_of env engine ev recs (n + 2)"

fun observe_rules :: "workflow_rule list \<Rightarrow> runtime_event \<Rightarrow> (string \<times> workflow_recommendation) list option" where
  "observe_rules [] ev = Some []"
| "observe_rules (rule # rules) ev =
     (case wl_observe rule ev of
        None \<Rightarrow> None
      | Some recs \<Rightarrow>
          (case observe_rules rules ev of
             None \<Rightarrow> None
           | Some rest \<Rightarrow> Some (map (Pair (wl_id rule)) recs @ rest)))"

definition observe_emissions :: "'h daemon_env \<Rightarrow> workflow_engine \<Rightarrow> runtime_event \<Rightarrow> nat \<Rightarrow> workflow_emission list option" where
  "observe_emissions env engine ev n = map_option (\<lambda>recs. emissions_of env engine ev recs n) (observe_rules (we_rules engine) ev)"

subsection \<open>The loop\<close>

datatype stream_item = StreamEvent runtime_event | StreamError

record workflow_stats =
  ws_observed_events :: nat
  ws_emitted_actions :: nat
  ws_routed_commands :: nat
  ws_command_errors :: nat
  ws_stream_errors :: nat
  ws_publish_errors :: nat

fun handle_emission ::
    "'h daemon_env \<Rightarrow> workflow_emission \<Rightarrow> 'h daemon \<times> runtime_command list \<times> workflow_stats \<Rightarrow> 'h daemon \<times> runtime_command list \<times> workflow_stats" where
  "handle_emission env em (d, sent, st) =
     (let st1 = st\<lparr>ws_emitted_actions := bump (ws_emitted_actions st)\<rparr> in
      case publish_event env (em_audit_event em) d of
        (d1, Inl _) \<Rightarrow>
          (d1, sent,
           st1\<lparr>ws_publish_errors := bump (ws_publish_errors st1),
               ws_command_errors := (if em_command em \<noteq> None then bump (ws_command_errors st1) else ws_command_errors st1)\<rparr>)
      | (d1, Inr _) \<Rightarrow>
          (case em_command em of
             None \<Rightarrow> (d1, sent, st1)
           | Some c \<Rightarrow>
               (case route_command env c (em_policy_context em) d1 of
                  (d2, released, r) \<Rightarrow>
                    (let st2 = st1\<lparr>ws_routed_commands := bump (ws_routed_commands st1)\<rparr>
                     in (d2, sent @ released, if is_ok r then st2 else st2\<lparr>ws_command_errors := bump (ws_command_errors st2)\<rparr>)))))"

fun workflow_loop ::
    "'h daemon_env \<Rightarrow> workflow_engine \<Rightarrow> stream_item list \<Rightarrow> 'h daemon \<times> runtime_command list \<times> workflow_stats \<Rightarrow>
     'h daemon \<times> runtime_command list \<times> workflow_stats" where
  \<comment> \<open>what the stream delivers until it closes\<close>
  "workflow_loop env engine [] s = s"
| "workflow_loop env engine (StreamError # items) (d, sent, st) =
     workflow_loop env engine items (d, sent, st\<lparr>ws_stream_errors := bump (ws_stream_errors st)\<rparr>)"
| "workflow_loop env engine (StreamEvent ev # items) (d, sent, st) =
     (let st1 = st\<lparr>ws_observed_events := bump (ws_observed_events st)\<rparr> in
      case observe_emissions env engine ev (dm_io d) of
        None \<Rightarrow> workflow_loop env engine items (d, sent, st1)
      | Some ems \<Rightarrow> workflow_loop env engine items (fold (handle_emission env) ems (d\<lparr>dm_io := dm_io d + 2 * length ems\<rparr>, sent, st1)))"

definition zero_workflow_stats :: workflow_stats where
  "zero_workflow_stats = \<lparr>ws_observed_events = 0, ws_emitted_actions = 0, ws_routed_commands = 0, ws_command_errors = 0,
     ws_stream_errors = 0, ws_publish_errors = 0\<rparr>"

definition run_daemon_workflow_loop ::
    "'h daemon_env \<Rightarrow> workflow_engine \<Rightarrow> stream_item list \<Rightarrow> 'h daemon \<Rightarrow> 'h daemon \<times> runtime_command list \<times> workflow_stats" where
  "run_daemon_workflow_loop env engine items d = workflow_loop env engine items (d, [], zero_workflow_stats)"

subsection \<open>What workflows may do\<close>

definition quarantine_of :: "runtime_event \<Rightarrow> runtime_command \<Rightarrow> bool" where
  \<comment> \<open>a quarantine of the pane and generation in which an actionable rate limit was detected\<close>
  "quarantine_of ev c \<longleftrightarrow>
     (\<exists>det reason. re_kind ev = DetectionObserved det \<and> looks_rate_limited det \<and> rc_kind c = CmdQuarantinePane reason) \<and>
     rc_target c = \<lparr>ct_session_id = rm_session_id (re_meta ev), ct_pane_id = Some (rm_pane_id (re_meta ev)),
                    ct_generation = Some (rm_generation (re_meta ev))\<rparr>"

lemma default_emissions:
  assumes "observe_emissions env (default_workflow_engine enabled) ev n = Some ems" "em \<in> set ems" "em_command em = Some c"
  shows "rate_limit_workflow_id \<in> set enabled \<and> quarantine_of ev c"
  using assms
  by (auto simp: observe_emissions_def default_workflow_engine_def rate_limit_workflow_def rate_limit_observe_def emission_def Let_def
      quarantine_of_def split: runtime_event_kind.splits if_splits)

lemma route_sent_self:
  assumes "route_command env c ctx d = (d', sent, r)" "\<And>aid approved. rc_kind c \<noteq> CmdResolveApproval aid approved"
  shows "set sent \<subseteq> {c}"
proof (cases "dm_stopped d")
  case True
  with assms(1) show ?thesis by (simp add: route_command_def)
next
  case False
  from route_other [OF assms(2) False] assms(1) carry_out_sent show ?thesis by (metis empty_set insert_iff list.simps(15) subsetI)
qed

lemma handle_emissions_sent:
  assumes "\<forall>em \<in> set ems. \<forall>c. em_command em = Some c \<longrightarrow> P c \<and> (\<forall>aid approved. rc_kind c \<noteq> CmdResolveApproval aid approved)"
  shows "\<forall>x \<in> set (fst (snd (fold (handle_emission env) ems (d, sent, st)))). x \<in> set sent \<or> P x"
  using assms
proof (induction ems arbitrary: d sent st)
  case (Cons em ems)
  obtain d1 sent1 st1 where one: "handle_emission env em (d, sent, st) = (d1, sent1, st1)" by (metis prod_cases3)
  have "\<forall>x \<in> set sent1. x \<in> set sent \<or> P x"
  proof (cases "em_command em")
    case None
    with one show ?thesis by (auto simp: Let_def split: prod.splits sum.splits)
  next
    case (Some c)
    obtain a r where pub: "publish_event env (em_audit_event em) d = (a, r)" by fastforce
    obtain b released q where route: "route_command env c (em_policy_context em) a = (b, released, q)" by (metis prod_cases3)
    have "set released \<subseteq> {c}" using route_sent_self [OF route] Cons.prems Some by simp
    with one Some pub route Cons.prems show ?thesis by (cases r) (auto simp: Let_def)
  qed
  moreover have "\<forall>x \<in> set (fst (snd (fold (handle_emission env) ems (d1, sent1, st1)))). x \<in> set sent1 \<or> P x"
    using Cons by simp
  ultimately show ?case using one by (auto simp del: handle_emission.simps)
qed simp

lemma workflow_loop_sent:
  "\<forall>x \<in> set (fst (snd (workflow_loop env (default_workflow_engine enabled) items (d, sent, st)))).
     x \<in> set sent \<or> (rate_limit_workflow_id \<in> set enabled \<and> (\<exists>ev. StreamEvent ev \<in> set items \<and> quarantine_of ev x))"
proof (induction items arbitrary: d sent st)
  case (Cons item items)
  show ?case
  proof (cases item)
    case (StreamEvent ev)
    show ?thesis
    proof (cases "observe_emissions env (default_workflow_engine enabled) ev (dm_io d)")
      case None
      with StreamEvent Cons.IH show ?thesis by (fastforce simp: Let_def)
    next
      case (Some ems)
      let ?P = "\<lambda>c. rate_limit_workflow_id \<in> set enabled \<and> quarantine_of ev c"
      obtain d1 sent1 st1 where one: "fold (handle_emission env) ems (d\<lparr>dm_io := dm_io d + 2 * length ems\<rparr>, sent,
          st\<lparr>ws_observed_events := bump (ws_observed_events st)\<rparr>) = (d1, sent1, st1)" by (metis prod_cases3)
      have "\<forall>em \<in> set ems. \<forall>c. em_command em = Some c \<longrightarrow> ?P c \<and> (\<forall>aid approved. rc_kind c \<noteq> CmdResolveApproval aid approved)"
        using default_emissions [OF Some] by (fastforce simp: quarantine_of_def)
      from handle_emissions_sent [OF this, of env "d\<lparr>dm_io := dm_io d + 2 * length ems\<rparr>" sent
          "st\<lparr>ws_observed_events := bump (ws_observed_events st)\<rparr>"] one
      have "\<forall>x \<in> set sent1. x \<in> set sent \<or> ?P x" by simp
      moreover have "workflow_loop env (default_workflow_engine enabled) (item # items) (d, sent, st) =
          workflow_loop env (default_workflow_engine enabled) items (d1, sent1, st1)"
        using StreamEvent Some one by (simp add: Let_def)
      ultimately show ?thesis using Cons.IH [of d1 sent1 st1] StreamEvent by auto
    qed
  next
    case StreamError
    with Cons.IH show ?thesis by fastforce
  qed
qed simp

text \<open>The workflow loop is harmless. Whatever events it observes, every command it hands to the command port
  is a quarantine, of the very pane and generation in which an actionable rate limit was detected,
  and only if that workflow was enabled by name; without it the loop only publishes dry runs.\<close>

theorem workflow_only_quarantines:
  assumes "run_daemon_workflow_loop env (default_workflow_engine enabled) items d = (d', sent, st)" and "x \<in> set sent"
  shows "rate_limit_workflow_id \<in> set enabled \<and> (\<exists>ev. StreamEvent ev \<in> set items \<and> quarantine_of ev x)"
  using workflow_loop_sent [of env enabled items d "[]" zero_workflow_stats] assms by (simp add: run_daemon_workflow_loop_def)

subsection \<open>A rate limit is acted on\<close>

lemma apply_entry_generation [simp]: "pe_generation (apply_entry_kind now k e) = pe_generation e"
  by (cases k) (simp_all add: turn_state_def)

lemma current_event_registered:
  assumes "rm_source (re_meta ev) \<noteq> SourceMux" "\<And>e. hm_get reg (event_key ev) = Some e \<Longrightarrow> pe_generation e \<le> event_generation ev"
  shows "\<exists>e. hm_get (apply_registry_event ev reg) (event_key ev) = Some e \<and> pe_generation e = event_generation ev"
proof (cases "hm_get reg (event_key ev)")
  case None
  then show ?thesis using assms(1)
    by (simp add: apply_registry_event_def update_entry_def registry_event_is_mux_shadow_def new_entry_def Let_def)
next
  case (Some e)
  from assms(2) [OF Some] have "\<not> event_generation ev < pe_generation e" by simp
  with Some assms(1) show ?thesis
    by (simp add: apply_registry_event_def update_entry_def registry_event_is_mux_shadow_def Let_def)
qed

lemma quarantine_sent:
  assumes gate: "de_policy_gate env = Some (basic_policy_gate cfg)" and port: "de_command_port env = Some port" and running: "\<not> dm_stopped d"
    and target: "rc_target c = \<lparr>ct_session_id = s, ct_pane_id = Some p, ct_generation = Some g\<rparr>" and kind: "rc_kind c = CmdQuarantinePane why"
    and entry: "hm_get (dm_registry d) (s, p) = Some e" "pe_generation e = g"
  shows "fst (snd (route_command env c default_policy_context d)) = [c]"
proof -
  have other: "\<And>aid approved. rc_kind c \<noteq> CmdResolveApproval aid approved" using kind by simp
  have "decide_command env c (hydrate_policy_context c default_policy_context d) d = PolicyAllow"
    using gate target kind entry
    by (simp add: decide_command_def registry_generation_decision_def hydrate_policy_context_def default_policy_context_def
        registry_entry_for_command_def evaluate_policy_def basic_policy_gate_def evaluate_allow_iff rate_limited_def
        circuit_open_def pane_accepts_def within_limits_def split: runtime_pane_state.split)
  with route_other [OF other running, of env default_policy_context]
  obtain d1 where "route_command env c default_policy_context d =
      carry_out env c (hydrate_policy_context c default_policy_context d) PolicyAllow d1" by auto
  with port show ?thesis by (cases "port c d1") (simp add: carry_out_def execute_command_def)
qed

lemma rate_limit_emission:
  assumes "re_kind ev = DetectionObserved det" "looks_rate_limited det"
  obtains em c why where "observe_emissions env (default_workflow_engine [rate_limit_workflow_id]) ev n = Some [em]" "em_command em = Some c"
    "em_policy_context em = default_policy_context" "event_key (em_audit_event em) = event_key ev"
    "event_generation (em_audit_event em) = event_generation ev" "rm_source (re_meta (em_audit_event em)) \<noteq> SourceMux"
    "rc_target c = \<lparr>ct_session_id = rm_session_id (re_meta ev), ct_pane_id = Some (rm_pane_id (re_meta ev)), ct_generation = Some (rm_generation (re_meta ev))\<rparr>"
    "rc_kind c = CmdQuarantinePane why"
  using assms that
  by (auto simp: observe_emissions_def default_workflow_engine_def rate_limit_workflow_def rate_limit_observe_def
      emission_def Let_def event_key_def event_generation_def new_meta_def new_event_def)

lemma rate_limit_acted_on:
  assumes gate: "de_policy_gate env = Some (basic_policy_gate cfg)" and port: "de_command_port env = Some port" and running: "\<not> dm_stopped d"
    and det: "re_kind ev = DetectionObserved det" "looks_rate_limited det"
    and current: "\<And>e. hm_get (dm_registry d) (event_key ev) = Some e \<Longrightarrow> pe_generation e \<le> event_generation ev"
  obtains em c d' st' where "observe_emissions env (default_workflow_engine [rate_limit_workflow_id]) ev n = Some [em]"
    "handle_emission env em (d, sent, st) = (d', sent @ [c], st')"
    "rc_target c = \<lparr>ct_session_id = rm_session_id (re_meta ev), ct_pane_id = Some (rm_pane_id (re_meta ev)), ct_generation = Some (rm_generation (re_meta ev))\<rparr>"
    "quarantine_of ev c"
proof -
  obtain em c why where em: "observe_emissions env (default_workflow_engine [rate_limit_workflow_id]) ev n = Some [em]" "em_command em = Some c"
    "em_policy_context em = default_policy_context" "event_key (em_audit_event em) = event_key ev"
    "event_generation (em_audit_event em) = event_generation ev" "rm_source (re_meta (em_audit_event em)) \<noteq> SourceMux"
    and c: "rc_target c = \<lparr>ct_session_id = rm_session_id (re_meta ev), ct_pane_id = Some (rm_pane_id (re_meta ev)), ct_generation = Some (rm_generation (re_meta ev))\<rparr>"
      "rc_kind c = CmdQuarantinePane why"
    by (rule rate_limit_emission [OF det])
  obtain d1 r1 where pub: "publish_event env (em_audit_event em) d = (d1, r1)" by fastforce
  note law = publish_running [OF pub running]
  have "\<exists>e. hm_get (dm_registry d1) (event_key ev) = Some e \<and> pe_generation e = event_generation ev"
    using current_event_registered [OF em(6), of "dm_registry d"] current em(4,5) law(2) by simp
  then obtain e where e: "hm_get (dm_registry d1) (rm_session_id (re_meta ev), rm_pane_id (re_meta ev)) = Some e" "pe_generation e = rm_generation (re_meta ev)"
    by (auto simp: event_key_def event_generation_def)
  obtain d2 released r2 where route: "route_command env c default_policy_context d1 = (d2, released, r2)" by (metis prod_cases3)
  with quarantine_sent [OF gate port law(7) c e] have "released = [c]" by simp
  with pub law(1) em(2,3) route obtain st' where "handle_emission env em (d, sent, st) = (d2, sent @ [c], st')" by (simp add: Let_def)
  moreover have "quarantine_of ev c" using det c by (simp add: quarantine_of_def)
  ultimately show ?thesis using that em(1) c(1) by blast
qed

subsection \<open>A rate limit is detected\<close>

definition demo_limit :: runtime_event where
  "demo_limit = demo_event (DetectionObserved
     \<lparr>dv_detection_id = ''D'', dv_rule_id = ''rate_limit.warning'', dv_severity = DetectionWarning, dv_message = ''slow down'', dv_span = None\<rparr>)"

abbreviation demo_engine :: workflow_engine where
  "demo_engine \<equiv> default_workflow_engine [rate_limit_workflow_id]"

theorem workflow_only_quarantines_witness:
  "length (fst (snd (run_daemon_workflow_loop demo_env demo_engine [StreamEvent demo_limit] (demo_daemon [])))) = 1 \<and>
   quarantine_of demo_limit (hd (fst (snd (run_daemon_workflow_loop demo_env demo_engine [StreamEvent demo_limit] (demo_daemon [])))))"
proof -
  let ?d = "(demo_daemon [])\<lparr>dm_io := dm_io (demo_daemon []) + 2\<rparr>"
  let ?st = "zero_workflow_stats\<lparr>ws_observed_events := bump (ws_observed_events zero_workflow_stats)\<rparr>"
  obtain d' sent st where run: "run_daemon_workflow_loop demo_env demo_engine [StreamEvent demo_limit] (demo_daemon []) = (d', sent, st)"
    by (metis prod_cases3)
  obtain det where det: "re_kind demo_limit = DetectionObserved det" "looks_rate_limited det"
    by (simp add: demo_limit_def demo_event_def looks_rate_limited_def starts_with_def)
  obtain em c d1 st1 where "observe_emissions demo_env demo_engine demo_limit (dm_io (demo_daemon [])) = Some [em]"
    "handle_emission demo_env em (?d, [], ?st) = (d1, [] @ [c], st1)"
    by (rule rate_limit_acted_on [OF demo_env_fields(6,7) _ det, of ?d "dm_io (demo_daemon [])" "[]" ?st]) (simp_all add: demo_daemon_running)
  with run have sent: "sent = [c]" by (simp add: run_daemon_workflow_loop_def Let_def numeral_2_eq_2 del: handle_emission.simps)
  with workflow_only_quarantines [OF run, of c] run show ?thesis by simp
qed

end
