(* ===== verification/Runtime_Detection.thy ===== *)
theory Runtime_Detection
  imports Runtime_Workflow Utf8_Text
begin

text \<open>
  \<open>crates/brehon-detect/src/lib.rs\<close>: the advisory detectors of the sidecar. Pane output is stripped of
  terminal control sequences and cut into lines, every line is searched for the patterns of every
  rule, and each match becomes a detection event that the loop publishes through the daemon. The
  theorems say which detections an output causes, and how output, detection, workflow and daemon play
  together. Texts are UTF-8 byte strings; \<open>chars\<close> are their encoded characters.
  Lines and patterns are compared in lower case, which is exact for ASCII patterns such as those of the default rules.
\<close>

subsection \<open>Normalising terminal output\<close>

definition csi_final :: "string \<Rightarrow> bool" where
  \<comment> \<open>a character from \<open>@\<close> to \<open>~\<close>\<close>
  "csi_final ch \<longleftrightarrow> length ch = 1 \<and> byte_in 64 126 (hd ch)"

definition is_control :: "string \<Rightarrow> bool" where
  \<comment> \<open>\<open>char::is_control\<close>: U+0000 to U+001F and U+007F to U+009F\<close>
  "is_control ch \<longleftrightarrow>
     (length ch = 1 \<and> (byte_in 0 31 (hd ch) \<or> byte_in 127 127 (hd ch))) \<or>
     (length ch = 2 \<and> hd ch = CHR 0xC2 \<and> byte_in 0x80 0x9F (last ch))"

fun skip_csi :: "string list \<Rightarrow> string list" where
  "skip_csi [] = []"
| "skip_csi (ch # chs) = (if csi_final ch then chs else skip_csi chs)"

fun skip_osc :: "bool \<Rightarrow> string list \<Rightarrow> string list" where
  "skip_osc prev [] = []"
| "skip_osc prev (ch # chs) =
     (if ch = [CHR 0x07] \<or> (prev \<and> ch = [CHR 0x5C]) then chs else skip_osc (ch = [CHR 0x1B]) chs)"

lemma length_skip_csi: "length (skip_csi chs) \<le> length chs"
  by (induction chs) auto

lemma length_skip_osc: "length (skip_osc prev chs) \<le> length chs"
  by (induction chs arbitrary: prev) (auto intro: le_SucI)

function normalize_chars :: "string list \<Rightarrow> string list" where
  "normalize_chars [] = []"
| "normalize_chars (ch # chs) =
     (if ch = [CHR 0x1B] then
        (case chs of
           [] \<Rightarrow> []
         | c # rest \<Rightarrow>
             if c = ''['' then normalize_chars (skip_csi rest)
             else if c = '']'' then normalize_chars (skip_osc False rest)
             else normalize_chars rest)
      else if ch = [CHR 0x0D] then [CHR 0x0A] # normalize_chars chs
      else if is_control ch \<and> ch \<noteq> [CHR 0x0A] \<and> ch \<noteq> [CHR 0x09] then normalize_chars chs
      else ch # normalize_chars chs)"
  by pat_completeness auto
termination by (relation "measure length") (auto intro: le_less_trans length_skip_csi length_skip_osc
    simp: less_Suc_eq_le le_SucI length_skip_csi length_skip_osc)

definition normalize_terminal_text :: "string \<Rightarrow> string" where
  "normalize_terminal_text s = concat (normalize_chars (utf8_chars s))"

definition split_normalized_lines :: "string \<Rightarrow> string list" where
  "split_normalized_lines s = filter (\<lambda>l. l \<noteq> []) (map trim (split_on CHR 0x0A s))"

subsection \<open>Rules and the engine\<close>

record pattern_rule =
  pr_id :: string
  pr_severity :: detection_severity
  pr_message :: string
  pr_patterns :: "string list"

definition new_pattern_rule :: "string \<Rightarrow> detection_severity \<Rightarrow> string \<Rightarrow> string list \<Rightarrow> pattern_rule" where
  "new_pattern_rule rid severity message patterns =
     \<lparr>pr_id = rid, pr_severity = severity, pr_message = message, pr_patterns = map to_lowercase patterns\<rparr>"

definition default_rules :: "pattern_rule list" where
  "default_rules =
     [new_pattern_rule ''approval.prompt'' DetectionWarning ''Agent is requesting approval''
        [''requires approval'', ''permission request'', ''do you want to allow'', ''approve this command''],
      new_pattern_rule ''rate_limit.warning'' DetectionWarning ''Agent output indicates rate limiting''
        [''rate limit'', ''rate-limit'', ''too many requests'', ''http 429'', ''status 429''],
      new_pattern_rule ''usage_limit.warning'' DetectionWarning ''Agent output indicates usage or quota exhaustion''
        [''usage limit'', ''quota exceeded'', ''credit balance'', ''context window exceeds limit'', ''context window exceeds'',
         ''context window exceeded'', ''context length exceeded'', ''maximum context length'', ''context limit exceeded'',
         ''model token limit'', ''exceeded model token limit'', ''token limit''],
      new_pattern_rule ''auth.failure'' DetectionBlocking ''Agent output indicates authentication failure''
        [''authentication failed'', ''invalid api key'', ''unauthorized'', ''status 401'', ''http 401''],
      new_pattern_rule ''process.crash'' DetectionBlocking ''Agent output indicates a process crash''
        [''segmentation fault'', ''thread '' @ quoted ''main'' @ '' panicked'', ''traceback (most recent call last)'', ''fatal error:''],
      new_pattern_rule ''agent.completion_marker'' DetectionInfo ''Agent output includes a known completion marker''
        [''brehon_task_complete'', ''brehon_done'']]"

record pane_detection_state =
  pd_lines :: "string list"
  pd_next_line_number :: nat
  pd_next_detection_sequence :: nat

record detection_engine =
  dn_rules :: "pattern_rule list"
  dn_max_lines_per_pane :: nat
  dn_state :: "(pane_key, pane_detection_state) hmap"

definition default_max_lines_per_pane :: nat where
  "default_max_lines_per_pane = 512"

definition new_detection_engine :: "pattern_rule list \<Rightarrow> detection_engine" where
  "new_detection_engine rules = \<lparr>dn_rules = rules, dn_max_lines_per_pane = default_max_lines_per_pane, dn_state = []\<rparr>"

definition with_max_lines_per_pane :: "nat \<Rightarrow> detection_engine \<Rightarrow> detection_engine" where
  "with_max_lines_per_pane n eng = eng\<lparr>dn_max_lines_per_pane := max n 1\<rparr>"

definition new_pane_detection_state :: pane_detection_state where
  "new_pane_detection_state = \<lparr>pd_lines = [], pd_next_line_number = 0, pd_next_detection_sequence = 0\<rparr>"

definition detection_runtime_event :: "runtime_meta \<Rightarrow> pattern_rule \<Rightarrow> nat \<Rightarrow> nat \<Rightarrow> runtime_event" where
  "detection_runtime_event m rule sequence line_number =
     new_event (m\<lparr>rm_event_id := None, rm_source := SourceDetector\<rparr>)
       (DetectionObserved
          \<lparr>dv_detection_id = rm_session_id m @ '':'' @ rm_pane_id m @ '':'' @ pr_id rule @ '':'' @ show_nat sequence,
           dv_rule_id = pr_id rule, dv_severity = pr_severity rule, dv_message = pr_message rule,
           dv_span = Some (line_number, line_number)\<rparr>)"

definition rule_matches :: "string \<Rightarrow> pattern_rule \<Rightarrow> bool" where
  "rule_matches line rule \<longleftrightarrow> list_ex (str_contains (to_lowercase line)) (pr_patterns rule)"

fun observe_line_rules :: "runtime_meta \<Rightarrow> string \<Rightarrow> pattern_rule list \<Rightarrow> pane_detection_state \<Rightarrow> pane_detection_state \<times> runtime_event list" where
  "observe_line_rules m line [] p = (p, [])"
| "observe_line_rules m line (rule # rules) p =
     (if rule_matches line rule
      then let p1 = p\<lparr>pd_next_detection_sequence := bump (pd_next_detection_sequence p)\<rparr>
           in case observe_line_rules m line rules p1 of
                (p2, evs) \<Rightarrow> (p2, detection_runtime_event m rule (pd_next_detection_sequence p1) (pd_next_line_number p1) # evs)
      else observe_line_rules m line rules p)"

fun observe_lines :: "runtime_meta \<Rightarrow> pattern_rule list \<Rightarrow> nat \<Rightarrow> string list \<Rightarrow> pane_detection_state \<Rightarrow> pane_detection_state \<times> runtime_event list" where
  "observe_lines m rules max_lines [] p = (p, [])"
| "observe_lines m rules max_lines (line # ls) p =
     (case observe_line_rules m line rules (p\<lparr>pd_next_line_number := bump (pd_next_line_number p)\<rparr>) of
        (p1, evs) \<Rightarrow>
          (case observe_lines m rules max_lines ls (p1\<lparr>pd_lines := trim_last max_lines (pd_lines p1 @ [line])\<rparr>) of
             (p2, evs2) \<Rightarrow> (p2, evs @ evs2)))"

definition output_text :: "string \<Rightarrow> string option \<Rightarrow> string" where
  "output_text bytes given = (case given of Some t \<Rightarrow> t | None \<Rightarrow> from_utf8_lossy bytes)"

definition observe_output :: "runtime_event \<Rightarrow> string \<Rightarrow> string option \<Rightarrow> detection_engine \<Rightarrow> detection_engine \<times> runtime_event list" where
  "observe_output ev bytes given eng =
     (let normalized = normalize_terminal_text (output_text bytes given) in
      if trim normalized = [] then (eng, [])
      else let p = (case hm_get (dn_state eng) (event_key ev) of Some p \<Rightarrow> p | None \<Rightarrow> new_pane_detection_state)
           in case observe_lines (re_meta ev) (dn_rules eng) (dn_max_lines_per_pane eng) (split_normalized_lines normalized) p of
                (p1, evs) \<Rightarrow> (eng\<lparr>dn_state := hm_insert (event_key ev) p1 (dn_state eng)\<rparr>, evs))"

definition detection_observe :: "runtime_event \<Rightarrow> detection_engine \<Rightarrow> detection_engine \<times> runtime_event list" where
  "detection_observe ev eng = (case re_kind ev of PaneOutput bytes given \<Rightarrow> observe_output ev bytes given eng | _ \<Rightarrow> (eng, []))"

subsection \<open>The loop\<close>

record detection_stats =
  ds_observed_events :: nat
  ds_emitted_detections :: nat
  ds_stream_errors :: nat
  ds_detection_errors :: nat
  ds_publish_errors :: nat

definition zero_detection_stats :: detection_stats where
  "zero_detection_stats =
     \<lparr>ds_observed_events = 0, ds_emitted_detections = 0, ds_stream_errors = 0, ds_detection_errors = 0, ds_publish_errors = 0\<rparr>"

fun publish_detections :: "'h daemon_env \<Rightarrow> runtime_event list \<Rightarrow> 'h daemon \<Rightarrow> detection_stats \<Rightarrow> 'h daemon \<times> detection_stats" where
  "publish_detections env [] d st = (d, st)"
| "publish_detections env (ev # evs) d st =
     (case publish_event env ev d of
        (d1, Inr _) \<Rightarrow> publish_detections env evs d1 (st\<lparr>ds_emitted_detections := bump (ds_emitted_detections st)\<rparr>)
      | (d1, Inl _) \<Rightarrow> publish_detections env evs d1 (st\<lparr>ds_publish_errors := bump (ds_publish_errors st)\<rparr>))"

fun run_detection_loop ::
    "'h daemon_env \<Rightarrow> stream_item list \<Rightarrow> detection_engine \<Rightarrow> 'h daemon \<Rightarrow> detection_stats \<Rightarrow> detection_engine \<times> 'h daemon \<times> detection_stats" where
  \<comment> \<open>what the stream delivers until it closes; the engine of this crate never fails\<close>
  "run_detection_loop env [] eng d st = (eng, d, st)"
| "run_detection_loop env (StreamError # items) eng d st =
     run_detection_loop env items eng d (st\<lparr>ds_stream_errors := bump (ds_stream_errors st)\<rparr>)"
| "run_detection_loop env (StreamEvent ev # items) eng d st =
     (case detection_observe ev eng of
        (eng1, evs) \<Rightarrow>
          (case publish_detections env evs d (st\<lparr>ds_observed_events := bump (ds_observed_events st)\<rparr>) of
             (d1, st1) \<Rightarrow> run_detection_loop env items eng1 d1 st1))"

subsection \<open>What normalisation leaves\<close>

lemma normalize_chars_clean: "ch \<in> set (normalize_chars chs) \<Longrightarrow> ch = [CHR 0x0A] \<or> ch = [CHR 0x09] \<or> \<not> is_control ch"
proof (induction chs rule: normalize_chars.induct)
  case (2 ch chs)
  then show ?case by (fastforce split: if_splits list.splits)
qed simp

lemma normalize_chars_id:
  "(\<And>ch. ch \<in> set chs \<Longrightarrow> ch = [CHR 0x0A] \<or> ch = [CHR 0x09] \<or> \<not> is_control ch) \<Longrightarrow> normalize_chars chs = chs"
proof (induction chs)
  case (Cons ch chs)
  have "is_control [CHR 0x1B]" "is_control [CHR 0x0D]" by (simp_all add: is_control_def byte_in_def)
  with Cons.prems [of ch] have "ch \<noteq> [CHR 0x1B]" "ch \<noteq> [CHR 0x0D]" by auto
  with Cons.IH Cons.prems [of ch] Cons.prems show ?case by auto
qed simp

lemma normalize_idempotent: "normalize_chars (normalize_chars chs) = normalize_chars chs"
  by (rule normalize_chars_id) (rule normalize_chars_clean)

subsection \<open>Which detections an output causes\<close>

definition line_matches :: "pattern_rule list \<Rightarrow> nat \<Rightarrow> string list \<Rightarrow> (nat \<times> pattern_rule) list" where
  \<comment> \<open>line numbers, counted from the given one, with the rules their lines match\<close>
  "line_matches rules n ls = concat (map (\<lambda>(i, line). map (Pair i) (filter (rule_matches line) rules)) (enumerate n ls))"








lemma split_on_prefix: "c \<notin> set w \<Longrightarrow> split_on c (w @ s) = (w @ hd (split_on c s)) # tl (split_on c s)"
  by (induction w) (auto simp: list.case_eq_if)

lemma white_newline: "is_whitespace w \<Longrightarrow> CHR 0x0A \<in> set w \<Longrightarrow> w = [CHR 0x0A]"
proof (cases "\<exists>d. w = [d]")
  case False
  moreover assume w: "is_whitespace w" "CHR 0x0A \<in> set w"
  ultimately have "wide_ws (map of_char w)" by (auto simp: is_whitespace_def split: list.splits)
  from wide_ws_bytes [OF this, of 10] w(2) show ?thesis by force
qed auto

text \<open>A line break is a character of its own, so the lines of a blank text are blank.\<close>

lemma blank_lines: "list_all is_whitespace (utf8_chars s) \<Longrightarrow>
    l \<in> set (split_on CHR 0x0A s) \<Longrightarrow> list_all is_whitespace (utf8_chars l)"
proof (induction s arbitrary: l rule: utf8_chars.induct)
  case (2 c s)
  define w where "w = c # take (utf8_len c - 1) s"
  define t where "t = drop (utf8_len c - 1) s"
  have s: "c # s = w @ t" "utf8_chars (w @ t) = w # utf8_chars t" by (simp_all add: w_def t_def)
  have white: "is_whitespace w" "list_all is_whitespace (utf8_chars t)" using 2(2) by (simp_all add: s)
  note IH = 2(1) [folded t_def, OF white(2)]
  show ?case
  proof (cases "CHR 0x0A \<in> set w")
    case True
    from white_newline [OF white(1) this] have "w = [CHR 0x0A]" .
    with 2(3) IH s(1) show ?thesis by auto
  next
    case False
    note split = split_on_prefix [OF False, of t]
    from 2(3) consider "l = w @ hd (split_on CHR 0x0A t)" | "l \<in> set (tl (split_on CHR 0x0A t))" unfolding s(1) split by auto
    then show ?thesis
    proof cases
      case 1
      let ?v = "hd (split_on CHR 0x0A t)"
      have v: "list_all is_whitespace (utf8_chars ?v)" by (rule IH) simp
      with 1 white(1) show ?thesis by (simp add: utf8_chars_white)
    next
      case 2
      then show ?thesis by (intro IH) (simp add: list.set_sel(2))
    qed
  qed
qed simp

lemma blank_no_lines: "trim s = [] \<Longrightarrow> split_normalized_lines s = []"
  using blank_lines by (fastforce simp: split_normalized_lines_def trim_empty_iff filter_empty_conv)


definition output_lines :: "string \<Rightarrow> string option \<Rightarrow> string list" where
  "output_lines bytes given = split_normalized_lines (normalize_terminal_text (output_text bytes given))"



subsection \<open>From output to quarantine\<close>

lemma publish_detections_running:
  assumes "publish_detections env evs d st = (d', st')" "\<not> dm_stopped d"
  shows "\<not> dm_stopped d' \<and> dm_bus d' = dm_bus d @ evs \<and> dm_registry d' = fold apply_registry_event evs (dm_registry d)"
  using assms
proof (induction evs arbitrary: d st)
  case (Cons ev evs)
  obtain d1 r1 where pub: "publish_event env ev d = (d1, r1)" by fastforce
  note law = publish_running [OF pub Cons.prems(2)]
  from Cons.prems(1) pub law(1) Cons.IH [OF _ law(7)] law(2,3) show ?case by auto
qed simp

lemma apply_registry_bounded:
  assumes "event_key ev = key" "event_generation ev \<le> g" "\<And>e. hm_get reg key = Some e \<Longrightarrow> pe_generation e \<le> g"
  shows "hm_get (apply_registry_event ev reg) key = Some e \<Longrightarrow> pe_generation e \<le> g"
  using assms by (auto simp: apply_registry_event_def update_entry_def new_entry_def Let_def split: option.splits if_splits)

lemma fold_registry_bounded:
  assumes "\<And>ev. ev \<in> set evs \<Longrightarrow> event_key ev = key \<and> event_generation ev \<le> g" "\<And>e. hm_get reg key = Some e \<Longrightarrow> pe_generation e \<le> g"
  shows "hm_get (fold apply_registry_event evs reg) key = Some e \<Longrightarrow> pe_generation e \<le> g"
  using assms
proof (induction evs arbitrary: reg)
  case (Cons ev evs)
  have "pe_generation e' \<le> g" if "hm_get (apply_registry_event ev reg) key = Some e'" for e'
    using apply_registry_bounded [of ev key g reg, OF _ _ _ that] Cons.prems(2,3) by auto
  with Cons.IH [of "apply_registry_event ev reg"] Cons.prems(1,2) show ?case by auto
qed simp

lemma handle_emissions_extend: "\<exists>xs. fst (snd (fold (handle_emission env) ems (d, sent, st))) = sent @ xs"
proof (induction ems arbitrary: d sent st)
  case (Cons em ems)
  obtain d1 sent1 st1 where one: "handle_emission env em (d, sent, st) = (d1, sent1, st1)" by (metis prod_cases3)
  then have "\<exists>xs. sent1 = sent @ xs" by (auto simp: Let_def split: prod.splits sum.splits option.splits)
  with Cons.IH [of d1 sent1 st1] one show ?case by (auto simp del: handle_emission.simps)
qed simp

lemma workflow_loop_extends: "\<exists>xs. fst (snd (workflow_loop env engine items (d, sent, st))) = sent @ xs"
proof (induction items arbitrary: d sent st)
  case (Cons item items)
  show ?case
  proof (cases item)
    case (StreamEvent ev)
    show ?thesis
    proof (cases "observe_emissions env engine ev (dm_io d)")
      case (Some ems)
      let ?s = "(d\<lparr>dm_io := dm_io d + 2 * length ems\<rparr>, sent, st\<lparr>ws_observed_events := bump (ws_observed_events st)\<rparr>)"
      obtain d1 sent1 st1 where one: "fold (handle_emission env) ems ?s = (d1, sent1, st1)" by (metis prod_cases3)
      from handle_emissions_extend [of env ems "d\<lparr>dm_io := dm_io d + 2 * length ems\<rparr>" sent
          "st\<lparr>ws_observed_events := bump (ws_observed_events st)\<rparr>"] one
      obtain xs where "sent1 = sent @ xs" by auto
      with Cons.IH [of d1 sent1 st1] one Some StreamEvent show ?thesis by (auto simp: Let_def)
    qed (use StreamEvent Cons.IH in \<open>simp add: Let_def\<close>)
  qed (use Cons.IH in simp)
qed simp

definition rate_limit_rule :: pattern_rule where
  "rate_limit_rule = default_rules ! 1"

definition acts_on_limit :: "pattern_rule \<Rightarrow> bool" where
  \<comment> \<open>the rules whose detections the quarantine workflow acts on\<close>
  "acts_on_limit r \<longleftrightarrow>
     looks_rate_limited \<lparr>dv_detection_id = [], dv_rule_id = pr_id r, dv_severity = pr_severity r, dv_message = pr_message r, dv_span = None\<rparr>"

lemma rate_limit_rule_acts: "acts_on_limit rate_limit_rule"
  by (simp add: acts_on_limit_def rate_limit_rule_def default_rules_def new_pattern_rule_def looks_rate_limited_def starts_with_def)

lemma detection_event_fields [simp]:
  "event_key (detection_runtime_event m r k i) = (rm_session_id m, rm_pane_id m)"
  "event_generation (detection_runtime_event m r k i) = rm_generation m"
  "rm_session_id (re_meta (detection_runtime_event m r k i)) = rm_session_id m"
  "rm_pane_id (re_meta (detection_runtime_event m r k i)) = rm_pane_id m"
  "rm_generation (re_meta (detection_runtime_event m r k i)) = rm_generation m"
  by (simp_all add: detection_runtime_event_def event_key_def event_generation_def new_event_def)

lemma observed_line_rules:
  "list_all2 (\<lambda>r ev. \<exists>k l. ev = detection_runtime_event m r k l) (filter (rule_matches line) rules) (snd (observe_line_rules m line rules p))"
proof (induction rules arbitrary: p)
  case (Cons rule rules)
  obtain p1 evs where "observe_line_rules m line rules (p\<lparr>pd_next_detection_sequence := bump (pd_next_detection_sequence p)\<rparr>) = (p1, evs)"
    by force
  with Cons.IH [of "p\<lparr>pd_next_detection_sequence := bump (pd_next_detection_sequence p)\<rparr>"] Cons.IH [of p] show ?case
    by (auto simp: Let_def)
qed simp

lemma observed_lines:
  "list_all2 (\<lambda>r ev. \<exists>k l. ev = detection_runtime_event m r k l) (concat (map (\<lambda>line. filter (rule_matches line) rules) ls))
     (snd (observe_lines m rules limit ls p))"
proof (induction ls arbitrary: p)
  case (Cons line ls)
  obtain p1 evs where one: "observe_line_rules m line rules (p\<lparr>pd_next_line_number := bump (pd_next_line_number p)\<rparr>) = (p1, evs)" by force
  obtain p2 evs2 where rest: "observe_lines m rules limit ls (p1\<lparr>pd_lines := trim_last limit (pd_lines p1 @ [line])\<rparr>) = (p2, evs2)" by force
  from observed_line_rules [of m line rules "p\<lparr>pd_next_line_number := bump (pd_next_line_number p)\<rparr>"]
    Cons.IH [of "p1\<lparr>pd_lines := trim_last limit (pd_lines p1 @ [line])\<rparr>"] show ?case
    by (simp add: one rest list_all2_appendI)
qed simp

text \<open>Whatever the counters are, an output yields a detection of every matching rule, in the order of lines and rules.\<close>

lemma observed_output:
  assumes "re_kind ev = PaneOutput bytes given"
  shows "list_all2 (\<lambda>r x. \<exists>k l. x = detection_runtime_event (re_meta ev) r k l)
    (concat (map (\<lambda>line. filter (rule_matches line) (dn_rules eng)) (output_lines bytes given))) (snd (detection_observe ev eng))"
proof (cases "trim (normalize_terminal_text (output_text bytes given)) = []")
  case True
  with assms blank_no_lines [OF True] show ?thesis by (simp add: detection_observe_def observe_output_def output_lines_def)
next
  case False
  let ?p = "case hm_get (dn_state eng) (event_key ev) of None \<Rightarrow> new_pane_detection_state | Some p \<Rightarrow> p"
  obtain p1 evs where "observe_lines (re_meta ev) (dn_rules eng) (dn_max_lines_per_pane eng) (output_lines bytes given) ?p = (p1, evs)" by force
  with assms False observed_lines [of "re_meta ev" "dn_rules eng" "output_lines bytes given" "dn_max_lines_per_pane eng" ?p] show ?thesis
    by (simp add: detection_observe_def observe_output_def output_lines_def Let_def)
qed

lemma idle_detection:
  assumes "\<not> acts_on_limit r"
  shows "observe_emissions env (default_workflow_engine enabled) (detection_runtime_event m r k l) n = Some []"
  using assms
  by (simp add: observe_emissions_def default_workflow_engine_def rate_limit_workflow_def rate_limit_observe_def
      detection_runtime_event_def acts_on_limit_def looks_rate_limited_def)

lemma workflow_loop_idle:
  assumes "\<And>ev n. ev \<in> set evs \<Longrightarrow> observe_emissions env engine ev n = Some []"
  shows "\<exists>st'. workflow_loop env engine (map StreamEvent evs @ items) (d, sent, st) = workflow_loop env engine items (d, sent, st')"
  using assms
proof (induction evs arbitrary: st)
  case Nil
  show ?case by auto
next
  case (Cons ev evs)
  have "d\<lparr>dm_io := dm_io d\<rparr> = d" by simp
  with Cons.IH [of "st\<lparr>ws_observed_events := bump (ws_observed_events st)\<rparr>"] Cons.prems show ?case by (simp add: Let_def)
qed

text \<open>C11: A pane that reports a rate limit is quarantined. Let a running daemon have a command port and the basic policy gate,
  and let detectors that include the rate-limit rule, in whatever state they are, see an output of a pane with a
  line that matches this rule, where the registry holds no newer generation of that pane. Then, when the workflow loop
  with the quarantine workflow enabled reads what the detection loop published, the first command that reaches the
  command port is the quarantine of that pane in that generation, whatever else the output contains.\<close>

theorem rate_limited_pane_quarantined:
  assumes gate: "de_policy_gate env = Some (basic_policy_gate cfg)" "de_command_port env = Some port" and running: "\<not> dm_stopped d"
    and rules: "rate_limit_rule \<in> set (dn_rules eng0)"
    and printed: "re_kind ev = PaneOutput bytes given" "line \<in> set (output_lines bytes given)" "rule_matches line rate_limit_rule"
    and current: "\<And>e. hm_get (dm_registry d) (event_key ev) = Some e \<Longrightarrow> pe_generation e \<le> event_generation ev"
    and detect: "run_detection_loop env [StreamEvent ev] eng0 d st0 = (eng, d1, st)"
    and workflow: "run_daemon_workflow_loop env (default_workflow_engine [rate_limit_workflow_id])
      (map StreamEvent (drop (length (dm_bus d)) (dm_bus d1))) d1 = (d2, sent, wst)"
  shows "sent \<noteq> [] \<and> (\<exists>why. rc_kind (hd sent) = CmdQuarantinePane why) \<and>
    rc_target (hd sent) = \<lparr>ct_session_id = rm_session_id (re_meta ev), ct_pane_id = Some (rm_pane_id (re_meta ev)),
      ct_generation = Some (rm_generation (re_meta ev))\<rparr>"
proof -
  let ?engine = "default_workflow_engine [rate_limit_workflow_id]" and ?m = "re_meta ev" and ?key = "event_key ev"
  let ?det = "\<lambda>r x. \<exists>k l. x = detection_runtime_event ?m r k l"
  obtain eng1 evs where obs: "detection_observe ev eng0 = (eng1, evs)" by force
  define rs where "rs = concat (map (\<lambda>line. filter (rule_matches line) (dn_rules eng0)) (output_lines bytes given))"
  have all: "list_all2 ?det rs evs" using observed_output [OF printed(1), of eng0] obs by (simp add: rs_def)
  obtain d' st' where pub: "publish_detections env evs d (st0\<lparr>ds_observed_events := bump (ds_observed_events st0)\<rparr>) = (d', st')" by fastforce
  with detect obs have "d1 = d'" by simp
  note law = publish_detections_running [OF pub running, folded this]
  have "rate_limit_rule \<in> set rs" using rules printed(2,3) by (auto simp: rs_def)
  then obtain r pre post where rs: "rs = pre @ r # post" "acts_on_limit r" "\<forall>x \<in> set pre. \<not> acts_on_limit x"
    using split_list_first_prop [of rs acts_on_limit] rate_limit_rule_acts by blast
  from all rs(1) have "\<exists>evs1 ev1 evs2. evs = evs1 @ ev1 # evs2 \<and> list_all2 ?det pre evs1 \<and> ?det r ev1"
    by (fastforce simp: list_all2_append1 list_all2_Cons1)
  then obtain evs1 ev1 evs2 where evs: "evs = evs1 @ ev1 # evs2" "list_all2 ?det pre evs1" "?det r ev1" by blast
  then obtain k l where ev1: "ev1 = detection_runtime_event ?m r k l" by blast
  have idle: "observe_emissions env ?engine x n = Some []" if "x \<in> set evs1" for x n
    using that evs(2) rs(3) idle_detection by (fastforce simp: list_all2_conv_all_nth in_set_conv_nth)
  have events: "event_key x = ?key \<and> event_generation x \<le> event_generation ev" if "x \<in> set evs" for x
    using that all by (auto simp: list_all2_conv_all_nth in_set_conv_nth event_key_def event_generation_def detection_runtime_event_def new_event_def)
  have now: "pe_generation e \<le> event_generation ev1" if "hm_get (dm_registry d1) (event_key ev1) = Some e" for e
    using fold_registry_bounded [of evs ?key "event_generation ev", OF events current] that law ev1
    by (simp add: event_key_def event_generation_def)
  have "workflow_loop env ?engine (map StreamEvent evs1 @ map StreamEvent (ev1 # evs2)) (d1, [], zero_workflow_stats) = (d2, sent, wst)"
    using workflow law by (simp add: run_daemon_workflow_loop_def evs(1) del: workflow_loop.simps)
  moreover obtain st1 where "workflow_loop env ?engine (map StreamEvent evs1 @ map StreamEvent (ev1 # evs2)) (d1, [], zero_workflow_stats) =
      workflow_loop env ?engine (map StreamEvent (ev1 # evs2)) (d1, [], st1)"
    using workflow_loop_idle [of evs1 env ?engine, OF idle] by blast
  ultimately have "workflow_loop env ?engine (map StreamEvent (ev1 # evs2)) (d1, [], st1) = (d2, sent, wst)" by simp
  moreover let ?d = "d1\<lparr>dm_io := dm_io d1 + 2\<rparr>" and ?st = "st1\<lparr>ws_observed_events := bump (ws_observed_events st1)\<rparr>"
  obtain det where kind: "re_kind ev1 = DetectionObserved det" "looks_rate_limited det"
    using rs(2) by (simp add: ev1 detection_runtime_event_def acts_on_limit_def looks_rate_limited_def)
  obtain em c d3 st3 where act: "observe_emissions env ?engine ev1 (dm_io d1) = Some [em]" "handle_emission env em (?d, [], ?st) = (d3, [] @ [c], st3)"
    and c: "rc_target c = \<lparr>ct_session_id = rm_session_id (re_meta ev1), ct_pane_id = Some (rm_pane_id (re_meta ev1)), ct_generation = Some (rm_generation (re_meta ev1))\<rparr>"
      "quarantine_of ev1 c"
    by (rule rate_limit_acted_on [OF gate _ kind, of ?d "dm_io d1" "[]" ?st]) (use law now in \<open>simp_all\<close>)
  ultimately have "workflow_loop env ?engine (map StreamEvent evs2) (d3, [c], st3) = (d2, sent, wst)"
    by (simp add: Let_def numeral_2_eq_2 del: handle_emission.simps)
  with workflow_loop_extends [of env ?engine "map StreamEvent evs2" d3 "[c]" st3] obtain xs where "sent = c # xs" by auto
  with c ev1 show ?thesis by (auto simp: quarantine_of_def)
qed

subsection \<open>A pane that runs into a rate limit\<close>

definition demo_output :: runtime_event where
  "demo_output = demo_event (PaneOutput ''http 429'' None)"

lemma demo_lines: "output_lines ''http 429'' None = [''http 429'']"
  by (simp add: output_lines_def output_text_def decode_char_def normalize_terminal_text_def utf8_len_def is_control_def byte_in_def
      split_normalized_lines_def trim_eval)

lemma demo_match: "line_matches default_rules n [''http 429''] = [(n, rate_limit_rule)]"
  by (simp add: line_matches_def default_rules_def rate_limit_rule_def new_pattern_rule_def rule_matches_def to_lowercase_ascii lower_char_def
      starts_with_def quoted_def)

lemma demo_output_kind: "re_kind demo_output = PaneOutput ''http 429'' None"
  by (simp add: demo_output_def demo_event_def)


theorem rate_limited_pane_quarantined_witness:
  "let (eng, d1, st) = run_detection_loop demo_env [StreamEvent demo_output] (new_detection_engine default_rules) (demo_daemon []) zero_detection_stats;
       (d2, sent, wst) = run_daemon_workflow_loop demo_env demo_engine (map StreamEvent (drop (length (dm_bus (demo_daemon []))) (dm_bus d1))) d1
   in rc_target (hd sent) = \<lparr>ct_session_id = ''S'', ct_pane_id = Some ''P'', ct_generation = Some 1\<rparr>"
proof -
  obtain eng d1 st where detect: "run_detection_loop demo_env [StreamEvent demo_output] (new_detection_engine default_rules) (demo_daemon [])
      zero_detection_stats = (eng, d1, st)" by (metis prod_cases3)
  obtain d2 sent wst where workflow: "run_daemon_workflow_loop demo_env demo_engine
      (map StreamEvent (drop (length (dm_bus (demo_daemon []))) (dm_bus d1))) d1 = (d2, sent, wst)" by (metis prod_cases3)
  have rule: "rate_limit_rule \<in> set (dn_rules (new_detection_engine default_rules))"
    by (simp add: new_detection_engine_def rate_limit_rule_def default_rules_def)
  have "filter (rule_matches ''http 429'') default_rules = [rate_limit_rule]"
    using demo_match [of 0] by (auto simp: line_matches_def)
  from arg_cong [OF this, of set] have "rate_limit_rule \<in> set (filter (rule_matches ''http 429'') default_rules)" by simp
  then have line: "''http 429'' \<in> set (output_lines ''http 429'' None)" "rule_matches ''http 429'' rate_limit_rule"
    by (simp_all add: demo_lines)
  have "rc_target (hd sent) = \<lparr>ct_session_id = rm_session_id (re_meta demo_output), ct_pane_id = Some (rm_pane_id (re_meta demo_output)),
      ct_generation = Some (rm_generation (re_meta demo_output))\<rparr>"
    using rate_limited_pane_quarantined [OF demo_env_fields(6,7) demo_daemon_running(1) rule demo_output_kind line _ detect workflow]
    by (simp add: demo_daemon_running)
  then show ?thesis using detect workflow by (simp add: demo_output_def demo_event_def new_event_def new_meta_def)
qed

end
