(* ===== verification/Review_Chunking.thy ===== *)
theory Review_Chunking
  imports Rust_Strings "HOL-Library.Char_ord" "HOL-Library.List_Lexorder" "HOL-Library.Multiset"
begin

text \<open>
  \<open>chunking.rs\<close> and \<open>stale.rs\<close> of \<open>crates/brehon-review\<close>: splitting a large diff into chunks for review, and the
  test whether a review is stale. Token estimates are 32-bit and the release profile checks overflow,
  so an overflowing estimate is a panic, \<open>None\<close>. The theorem on chunks says that nothing is lost or
  duplicated, when the splitting fails, and which chunks may exceed the limit.
\<close>

subsection \<open>Estimates\<close>

record file_diff =
  fd_path :: string
  fd_additions :: nat
  fd_deletions :: nat

datatype chunk_strategy = ByDirectory | ByFile | NoChunking

record chunking_config =
  ck_max_diff_tokens :: nat
  ck_strategy :: chunk_strategy
  ck_tokens_per_line :: nat
  ck_file_overhead_tokens :: nat

definition new_chunking_config :: "nat \<Rightarrow> chunk_strategy \<Rightarrow> chunking_config" where
  "new_chunking_config limit strategy =
     \<lparr>ck_max_diff_tokens = limit, ck_strategy = strategy, ck_tokens_per_line = 4, ck_file_overhead_tokens = 50\<rparr>"

definition default_chunking_config :: chunking_config where
  "default_chunking_config = new_chunking_config 8000 ByDirectory"

definition checked_u32 :: "nat \<Rightarrow> nat option" where
  "checked_u32 n = (if n \<le> u32_max then Some n else None)"

definition estimate_tokens :: "chunking_config \<Rightarrow> file_diff \<Rightarrow> nat option" where
  \<comment> \<open>the sum of the line counts is checked at 64 bits and then cut to 32\<close>
  "estimate_tokens cfg f =
     (let lines = fd_additions f + fd_deletions f in
      if u64_max < lines then None
      else case checked_u32 (lines mod 2 ^ 32 * ck_tokens_per_line cfg) of
        None \<Rightarrow> None
      | Some n \<Rightarrow> checked_u32 (n + ck_file_overhead_tokens cfg))"

fun sum_tokens :: "chunking_config \<Rightarrow> nat \<Rightarrow> file_diff list \<Rightarrow> nat option" where
  "sum_tokens cfg acc [] = Some acc"
| "sum_tokens cfg acc (f # fs) =
     (case estimate_tokens cfg f of
        None \<Rightarrow> None
      | Some n \<Rightarrow> (case checked_u32 (acc + n) of None \<Rightarrow> None | Some s \<Rightarrow> sum_tokens cfg s fs))"

definition estimate_total_tokens :: "chunking_config \<Rightarrow> file_diff list \<Rightarrow> nat option" where
  "estimate_total_tokens cfg files = sum_tokens cfg 0 files"

definition needs_chunking :: "chunking_config \<Rightarrow> file_diff list \<Rightarrow> bool option" where
  "needs_chunking cfg files = map_option (\<lambda>n. ck_max_diff_tokens cfg < n) (estimate_total_tokens cfg files)"

subsection \<open>Chunks\<close>

record diff_chunk =
  dk_index :: nat
  dk_total :: nat
  dk_files :: "file_diff list"
  dk_description :: string

definition get_directory :: "string \<Rightarrow> string" where
  "get_directory path =
     (let parts = split_on CHR ''/'' (dropWhile (\<lambda>c. c = CHR ''/'') path) in
      if length parts \<le> 1 then ''root''
      else if parts ! 0 = ''src'' \<and> 2 < length parts then ''src/'' @ parts ! 1
      else parts ! 0)"

definition group_by_directory :: "file_diff list \<Rightarrow> (string, file_diff list) hmap" where
  "group_by_directory files =
     fold (\<lambda>f m. hm_modify (get_directory (fd_path f)) (\<lambda>fs. fs @ [f]) (hm_or_insert (get_directory (fd_path f)) [] m)) files []"

definition directories_text :: "string list \<Rightarrow> string" where
  "directories_text dirs =
     (if length dirs = 1 then dirs ! 0 else ''Directories '' @ hd dirs @ ''-'' @ last dirs)"

fun directory_loop ::
    "chunking_config \<Rightarrow> (string \<times> file_diff list) list \<Rightarrow> diff_chunk list \<Rightarrow> file_diff list \<Rightarrow> nat \<Rightarrow> string list \<Rightarrow> diff_chunk list option" where
  \<comment> \<open>chunks so far, files, tokens and directories of the current one\<close>
  "directory_loop cfg [] chunks current tokens dirs =
     Some (if current = [] then chunks
           else chunks @ [\<lparr>dk_index = length chunks, dk_total = 0, dk_files = current,
                           dk_description = (if dirs = [] then ''Remaining files'' else directories_text dirs)\<rparr>])"
| "directory_loop cfg ((dir, files) # rest) chunks current tokens dirs =
     (case estimate_total_tokens cfg files of
        None \<Rightarrow> None
      | Some dir_tokens \<Rightarrow>
          (case checked_u32 (tokens + dir_tokens) of
             None \<Rightarrow> None
           | Some both \<Rightarrow>
               if ck_max_diff_tokens cfg < both \<and> current \<noteq> []
               then directory_loop cfg rest
                      (chunks @ [\<lparr>dk_index = length chunks, dk_total = 0, dk_files = current, dk_description = directories_text dirs\<rparr>])
                      files dir_tokens [dir]
               else directory_loop cfg rest chunks (current @ files) both (dirs @ [dir])))"

definition set_totals :: "diff_chunk list \<Rightarrow> diff_chunk list" where
  "set_totals chunks = map (\<lambda>c. c\<lparr>dk_total := length chunks\<rparr>) chunks"

definition chunk_by_directory :: "chunking_config \<Rightarrow> file_diff list \<Rightarrow> diff_chunk list option" where
  "chunk_by_directory cfg files =
     map_option set_totals (directory_loop cfg (sort_key fst (group_by_directory files)) [] [] 0 [])"

fun file_loop :: "chunking_config \<Rightarrow> file_diff list \<Rightarrow> diff_chunk list \<Rightarrow> file_diff list \<Rightarrow> nat \<Rightarrow> diff_chunk list option" where
  "file_loop cfg [] chunks current tokens =
     Some (if current = [] then chunks
           else chunks @ [\<lparr>dk_index = length chunks, dk_total = 0, dk_files = current, dk_description = ''Remaining files''\<rparr>])"
| "file_loop cfg (f # fs) chunks current tokens =
     (case estimate_tokens cfg f of
        None \<Rightarrow> None
      | Some file_tokens \<Rightarrow>
          (case checked_u32 (tokens + file_tokens) of
             None \<Rightarrow> None
           | Some both \<Rightarrow>
               if ck_max_diff_tokens cfg < both \<and> current \<noteq> []
               then file_loop cfg fs
                      (chunks @ [\<lparr>dk_index = length chunks, dk_total = 0, dk_files = current,
                         dk_description = ''Files '' @ show_nat (length chunks * 10 + 1) @ ''-'' @ show_nat ((length chunks + 1) * 10)\<rparr>])
                      [f] file_tokens
               else file_loop cfg fs chunks (current @ [f]) both))"

definition chunk_by_file :: "chunking_config \<Rightarrow> file_diff list \<Rightarrow> diff_chunk list option" where
  "chunk_by_file cfg files = map_option set_totals (file_loop cfg files [] [] 0)"

definition whole_diff :: "string \<Rightarrow> file_diff list \<Rightarrow> diff_chunk list" where
  "whole_diff description files = [\<lparr>dk_index = 0, dk_total = 1, dk_files = files, dk_description = description\<rparr>]"

definition chunk_diff :: "chunking_config \<Rightarrow> file_diff list \<Rightarrow> diff_chunk list option" where
  "chunk_diff cfg files =
     (case needs_chunking cfg files of
        None \<Rightarrow> None
      | Some False \<Rightarrow> Some (whole_diff ''Full diff'' files)
      | Some True \<Rightarrow>
          (case ck_strategy cfg of
             ByDirectory \<Rightarrow> chunk_by_directory cfg files
           | ByFile \<Rightarrow> chunk_by_file cfg files
           | NoChunking \<Rightarrow> Some (whole_diff ''Full diff (no chunking)'' files)))"

subsection \<open>Stale reviews\<close>

datatype stale_detection = FreshReview | StaleReview

definition stale_check ::
    "(string \<Rightarrow> string \<Rightarrow> (string, file_diff list) result) \<Rightarrow> string list \<Rightarrow> string \<Rightarrow> string \<Rightarrow> string \<Rightarrow> (string, stale_detection) result" where
  \<comment> \<open>the diff of the git port, the ignored files, the review branch, the base commit and the main branch\<close>
  "stale_check diff ignored review_branch base_commit main_branch =
     (case diff review_branch base_commit of
        Inl e \<Rightarrow> Inl e
      | Inr review \<Rightarrow>
          (case diff main_branch base_commit of
             Inl e \<Rightarrow> Inl e
           | Inr main \<Rightarrow>
               (let files = (\<lambda>fs. filter (\<lambda>p. p \<notin> set ignored) (map fd_path fs))
                in Inr (if list_ex (\<lambda>p. p \<in> set (files main)) (files review) then StaleReview else FreshReview))))"

definition files_overlap :: "string list \<Rightarrow> string list \<Rightarrow> bool" where
  "files_overlap files_a files_b \<longleftrightarrow> list_ex (\<lambda>p. p \<in> set files_a) files_b"

subsection \<open>What the chunks contain\<close>

definition tokens_of :: "chunking_config \<Rightarrow> file_diff list \<Rightarrow> nat" where
  "tokens_of cfg fs = sum_list (map (\<lambda>f. the (estimate_tokens cfg f)) fs)"

definition estimable :: "chunking_config \<Rightarrow> file_diff list \<Rightarrow> bool" where
  "estimable cfg fs \<longleftrightarrow> list_all (\<lambda>f. estimate_tokens cfg f \<noteq> None) fs"

lemma tokens_simps [simp]:
  "tokens_of cfg [] = 0" "tokens_of cfg (f # fs) = the (estimate_tokens cfg f) + tokens_of cfg fs"
  "tokens_of cfg (fs @ gs) = tokens_of cfg fs + tokens_of cfg gs"
  by (simp_all add: tokens_of_def)

lemma estimable_simps [simp]:
  "estimable cfg []" "estimable cfg (f # fs) \<longleftrightarrow> estimate_tokens cfg f \<noteq> None \<and> estimable cfg fs"
  "estimable cfg (fs @ gs) \<longleftrightarrow> estimable cfg fs \<and> estimable cfg gs"
  by (simp_all add: estimable_def)

lemma sum_tokens_eq:
  "acc \<le> u32_max \<Longrightarrow> sum_tokens cfg acc fs = (if estimable cfg fs \<and> acc + tokens_of cfg fs \<le> u32_max then Some (acc + tokens_of cfg fs) else None)"
  by (induction fs arbitrary: acc) (auto simp: checked_u32_def split: option.split)

lemma estimate_total_eq:
  "estimate_total_tokens cfg fs = (if estimable cfg fs \<and> tokens_of cfg fs \<le> u32_max then Some (tokens_of cfg fs) else None)"
  by (simp add: estimate_total_tokens_def sum_tokens_eq)

definition indexed :: "diff_chunk list \<Rightarrow> bool" where
  "indexed chunks \<longleftrightarrow> map dk_index chunks = [0..<length chunks]"

lemma indexed_snoc: "indexed chunks \<Longrightarrow> dk_index c = length chunks \<Longrightarrow> indexed (chunks @ [c])"
  by (simp add: indexed_def)

lemma file_loop_law:
  assumes "estimable cfg fs" "tokens + tokens_of cfg fs \<le> u32_max" "tokens = tokens_of cfg current" "indexed chunks"
    "tokens_of cfg current \<le> ck_max_diff_tokens cfg \<or> length current \<le> 1"
    "\<forall>c \<in> set chunks. dk_files c \<noteq> [] \<and> (tokens_of cfg (dk_files c) \<le> ck_max_diff_tokens cfg \<or> length (dk_files c) = 1)"
  shows "\<exists>cs. file_loop cfg fs chunks current tokens = Some cs \<and> indexed cs \<and>
    concat (map dk_files cs) = concat (map dk_files chunks) @ current @ fs \<and>
    (\<forall>c \<in> set cs. dk_files c \<noteq> [] \<and> (tokens_of cfg (dk_files c) \<le> ck_max_diff_tokens cfg \<or> length (dk_files c) = 1))"
  using assms
proof (induction fs arbitrary: chunks current tokens)
  case Nil
  then show ?case by (auto simp: le_Suc_eq intro: indexed_snoc)
next
  case (Cons f fs)
  obtain n where n: "estimate_tokens cfg f = Some n" using Cons.prems(1) by auto
  have both: "checked_u32 (tokens + n) = Some (tokens + n)" using Cons.prems(2) n by (simp add: checked_u32_def)
  show ?case
  proof (cases "ck_max_diff_tokens cfg < tokens + n \<and> current \<noteq> []")
    case True
    let ?c = "\<lparr>dk_index = length chunks, dk_total = 0, dk_files = current,
       dk_description = ''Files '' @ show_nat (length chunks * 10 + 1) @ ''-'' @ show_nat ((length chunks + 1) * 10)\<rparr>"
    have "\<forall>c \<in> set (chunks @ [?c]). dk_files c \<noteq> [] \<and> (tokens_of cfg (dk_files c) \<le> ck_max_diff_tokens cfg \<or> length (dk_files c) = 1)"
      using Cons.prems(5,6) True by (auto simp: le_Suc_eq)
    moreover have "indexed (chunks @ [?c])" using Cons.prems(4) by (simp add: indexed_snoc)
    ultimately have "\<exists>cs. file_loop cfg fs (chunks @ [?c]) [f] n = Some cs \<and> indexed cs \<and>
        concat (map dk_files cs) = concat (map dk_files (chunks @ [?c])) @ [f] @ fs \<and>
        (\<forall>c \<in> set cs. dk_files c \<noteq> [] \<and> (tokens_of cfg (dk_files c) \<le> ck_max_diff_tokens cfg \<or> length (dk_files c) = 1))"
      using Cons.prems(1,2) n by (intro Cons.IH) simp_all
    moreover have "file_loop cfg (f # fs) chunks current tokens = file_loop cfg fs (chunks @ [?c]) [f] n"
      by (simp only: file_loop.simps n both option.case True simp_thms if_True)
    ultimately show ?thesis by simp
  next
    case False
    have "tokens_of cfg (current @ [f]) \<le> ck_max_diff_tokens cfg \<or> length (current @ [f]) \<le> 1" using False Cons.prems(3) n by auto
    then have "\<exists>cs. file_loop cfg fs chunks (current @ [f]) (tokens + n) = Some cs \<and> indexed cs \<and>
        concat (map dk_files cs) = concat (map dk_files chunks) @ (current @ [f]) @ fs \<and>
        (\<forall>c \<in> set cs. dk_files c \<noteq> [] \<and> (tokens_of cfg (dk_files c) \<le> ck_max_diff_tokens cfg \<or> length (dk_files c) = 1))"
      using Cons.prems(1-4,6) n by (intro Cons.IH) simp_all
    moreover have "file_loop cfg (f # fs) chunks current tokens = file_loop cfg fs chunks (current @ [f]) (tokens + n)"
      by (simp only: file_loop.simps n both option.case False if_False)
    ultimately show ?thesis by simp
  qed
qed

definition one_directory :: "file_diff list \<Rightarrow> bool" where
  "one_directory fs \<longleftrightarrow> (\<forall>f \<in> set fs. get_directory (fd_path f) = get_directory (fd_path (hd fs)))"

lemma directory_loop_law:
  assumes "estimable cfg (concat (map snd groups))" "tokens + tokens_of cfg (concat (map snd groups)) \<le> u32_max"
    "tokens = tokens_of cfg current" "indexed chunks"
    "tokens_of cfg current \<le> ck_max_diff_tokens cfg \<or> one_directory current"
    "\<forall>g \<in> set groups. one_directory (snd g)"
    "\<forall>c \<in> set chunks. dk_files c \<noteq> [] \<and> (tokens_of cfg (dk_files c) \<le> ck_max_diff_tokens cfg \<or> one_directory (dk_files c))"
  shows "\<exists>cs. directory_loop cfg groups chunks current tokens dirs = Some cs \<and> indexed cs \<and>
    concat (map dk_files cs) = concat (map dk_files chunks) @ current @ concat (map snd groups) \<and>
    (\<forall>c \<in> set cs. dk_files c \<noteq> [] \<and> (tokens_of cfg (dk_files c) \<le> ck_max_diff_tokens cfg \<or> one_directory (dk_files c)))"
  using assms
proof (induction groups arbitrary: chunks current tokens dirs)
  case Nil
  then show ?case by (auto intro: indexed_snoc)
next
  case (Cons g groups)
  obtain dir fs where g: "g = (dir, fs)" by fastforce
  have est: "estimate_total_tokens cfg fs = Some (tokens_of cfg fs)" using Cons.prems(1,2) g by (simp add: estimate_total_eq)
  have both: "checked_u32 (tokens + tokens_of cfg fs) = Some (tokens + tokens_of cfg fs)" using Cons.prems(2) g by (simp add: checked_u32_def)
  show ?case
  proof (cases "ck_max_diff_tokens cfg < tokens + tokens_of cfg fs \<and> current \<noteq> []")
    case True
    let ?c = "\<lparr>dk_index = length chunks, dk_total = 0, dk_files = current, dk_description = directories_text dirs\<rparr>"
    have "\<forall>c \<in> set (chunks @ [?c]). dk_files c \<noteq> [] \<and> (tokens_of cfg (dk_files c) \<le> ck_max_diff_tokens cfg \<or> one_directory (dk_files c))"
      using Cons.prems(5,7) True by auto
    moreover have "indexed (chunks @ [?c])" using Cons.prems(4) by (simp add: indexed_snoc)
    ultimately have "\<exists>cs. directory_loop cfg groups (chunks @ [?c]) fs (tokens_of cfg fs) [dir] = Some cs \<and> indexed cs \<and>
        concat (map dk_files cs) = concat (map dk_files (chunks @ [?c])) @ fs @ concat (map snd groups) \<and>
        (\<forall>c \<in> set cs. dk_files c \<noteq> [] \<and> (tokens_of cfg (dk_files c) \<le> ck_max_diff_tokens cfg \<or> one_directory (dk_files c)))"
      using Cons.prems(1,2,6) g by (intro Cons.IH) simp_all
    moreover have "directory_loop cfg (g # groups) chunks current tokens dirs = directory_loop cfg groups (chunks @ [?c]) fs (tokens_of cfg fs) [dir]"
      by (simp only: g directory_loop.simps est both option.case True simp_thms if_True)
    ultimately show ?thesis using g by simp
  next
    case False
    have "tokens_of cfg (current @ fs) \<le> ck_max_diff_tokens cfg \<or> one_directory (current @ fs)" using False Cons.prems(3,6) g by auto
    then have "\<exists>cs. directory_loop cfg groups chunks (current @ fs) (tokens + tokens_of cfg fs) (dirs @ [dir]) = Some cs \<and> indexed cs \<and>
        concat (map dk_files cs) = concat (map dk_files chunks) @ (current @ fs) @ concat (map snd groups) \<and>
        (\<forall>c \<in> set cs. dk_files c \<noteq> [] \<and> (tokens_of cfg (dk_files c) \<le> ck_max_diff_tokens cfg \<or> one_directory (dk_files c)))"
      using Cons.prems(1-4,6,7) g by (intro Cons.IH) simp_all
    moreover have "directory_loop cfg (g # groups) chunks current tokens dirs =
        directory_loop cfg groups chunks (current @ fs) (tokens + tokens_of cfg fs) (dirs @ [dir])"
      by (simp only: g directory_loop.simps est both option.case False if_False)
    ultimately show ?thesis using g by simp
  qed
qed

lemma modify_files:
  "hm_wf m \<Longrightarrow> hm_contains m k \<Longrightarrow> mset (concat (map snd (hm_modify k (\<lambda>fs. fs @ [f]) m))) = add_mset f (mset (concat (map snd m)))"
proof (induction m)
  case (Cons e m)
  obtain j fs where e: "e = (j, fs)" by fastforce
  show ?case
  proof (cases "k = j")
    case True
    have "AList.map_entry j g m = m" if "j \<notin> fst ` set m" for g :: "'b list \<Rightarrow> 'b list" and m :: "('a \<times> 'b list) list"
      using that by (induction m) auto
    with True Cons.prems e show ?thesis by (simp add: hm_modify_def)
  next
    case False
    with Cons e show ?thesis by (simp add: hm_modify_def hm_contains_def)
  qed
qed (simp add: hm_contains_def)

lemma insert_no_files: "hm_get m k = None \<Longrightarrow> mset (concat (map snd (hm_insert k [] m))) = mset (concat (map snd m))"
  by (induction m) (auto simp: hm_insert_def hm_get_def split: if_splits)

lemma group_step_files:
  "hm_wf m \<Longrightarrow> mset (concat (map snd (hm_modify k (\<lambda>fs. fs @ [f]) (hm_or_insert k [] m)))) = add_mset f (mset (concat (map snd m)))"
  using modify_files [of "hm_or_insert k [] m" k f] insert_no_files [of m k]
  by (auto simp: hm_contains_def hm_or_insert_def)

lemma group_law:
  "hm_wf (group_by_directory files) \<and> mset (concat (map snd (group_by_directory files))) = mset files \<and>
   (\<forall>dir fs. hm_get (group_by_directory files) dir = Some fs \<longrightarrow> (\<forall>f \<in> set fs. get_directory (fd_path f) = dir))"
proof (induction files rule: rev_induct)
  case Nil
  show ?case by (simp add: group_by_directory_def)
next
  case (snoc f files)
  let ?m = "group_by_directory files" and ?k = "get_directory (fd_path f)"
  have step: "group_by_directory (files @ [f]) = hm_modify ?k (\<lambda>fs. fs @ [f]) (hm_or_insert ?k [] ?m)"
    by (simp add: group_by_directory_def)
  show ?case unfolding step using snoc group_step_files [of ?m ?k f]
    by (auto simp: hm_contains_def split: option.splits if_splits)
qed

lemma sorted_groups:
  "mset (concat (map snd (sort_key fst (group_by_directory files)))) = mset files"
  "\<forall>g \<in> set (sort_key fst (group_by_directory files)). one_directory (snd g)"
proof -
  have flat: "mset (concat (map snd ps)) = sum_mset (image_mset (mset \<circ> snd) (mset ps))" for ps :: "(string \<times> file_diff list) list"
    by (induction ps) simp_all
  have "mset (concat (map snd (sort_key fst (group_by_directory files)))) = mset (concat (map snd (group_by_directory files)))"
    by (simp only: flat mset_sort)
  with group_law show "mset (concat (map snd (sort_key fst (group_by_directory files)))) = mset files" by metis
  show "\<forall>g \<in> set (sort_key fst (group_by_directory files)). one_directory (snd g)"
  proof
    fix g
    assume "g \<in> set (sort_key fst (group_by_directory files))"
    then have "g \<in> set (group_by_directory files)" by (simp only: set_sort)
    then obtain dir fs where g: "g = (dir, fs)" "(dir, fs) \<in> set (group_by_directory files)" by (metis prod.collapse)
    with group_law [of files] have "\<forall>f \<in> set fs. get_directory (fd_path f) = dir" by (auto simp: hm_get_iff)
    with g show "one_directory (snd g)" by (cases fs) (simp_all add: one_directory_def)
  qed
qed

lemma tokens_mset: "mset fs = mset gs \<Longrightarrow> tokens_of cfg fs = tokens_of cfg gs \<and> estimable cfg fs = estimable cfg gs"
proof -
  assume same: "mset fs = mset gs"
  then have "mset (map (\<lambda>f. the (estimate_tokens cfg f)) fs) = mset (map (\<lambda>f. the (estimate_tokens cfg f)) gs)" by simp
  then have "tokens_of cfg fs = tokens_of cfg gs" unfolding tokens_of_def by (metis sum_mset_sum_list)
  moreover from same have "set fs = set gs" by (rule mset_eq_setD)
  ultimately show ?thesis by (simp add: estimable_def list_all_iff)
qed

lemma set_totals_fields [simp]:
  "map dk_files (set_totals cs) = map dk_files cs" "map dk_index (set_totals cs) = map dk_index cs" "length (set_totals cs) = length cs"
  by (simp_all add: set_totals_def comp_def)

lemma set_totals_chunk: "c \<in> set (set_totals cs) \<Longrightarrow> dk_total c = length cs \<and> (\<exists>c' \<in> set cs. dk_files c = dk_files c')"
  by (auto simp: set_totals_def)

definition divisible :: "chunking_config \<Rightarrow> diff_chunk \<Rightarrow> bool" where
  \<comment> \<open>a chunk that the strategy could have split further\<close>
  "divisible cfg c =
     (case ck_strategy cfg of
        ByFile \<Rightarrow> length (dk_files c) \<noteq> 1
      | ByDirectory \<Rightarrow> \<not> one_directory (dk_files c)
      | NoChunking \<Rightarrow> False)"

definition good_chunks :: "chunking_config \<Rightarrow> file_diff list \<Rightarrow> diff_chunk list \<Rightarrow> bool" where
  "good_chunks cfg files cs \<longleftrightarrow>
     mset (concat (map dk_files cs)) = mset files \<and> map dk_index cs = [0..<length cs] \<and> (\<forall>c \<in> set cs. dk_total c = length cs) \<and>
     (\<forall>c \<in> set cs. ck_max_diff_tokens cfg < tokens_of cfg (dk_files c) \<longrightarrow> \<not> divisible cfg c)"

lemma chunk_by_file_good:
  assumes "estimable cfg files" "tokens_of cfg files \<le> u32_max" "ck_strategy cfg = ByFile"
  obtains cs where "chunk_by_file cfg files = Some cs" "good_chunks cfg files cs" "concat (map dk_files cs) = files"
proof -
  from file_loop_law [of cfg files 0 "[]" "[]"] assms obtain cs where cs: "file_loop cfg files [] [] 0 = Some cs" "indexed cs"
    "concat (map dk_files cs) = files" "\<forall>c \<in> set cs. tokens_of cfg (dk_files c) \<le> ck_max_diff_tokens cfg \<or> length (dk_files c) = 1"
    by (auto simp: indexed_def)
  then have "good_chunks cfg files (set_totals cs)"
    using assms(3) set_totals_chunk [of _ cs] by (fastforce simp: good_chunks_def indexed_def divisible_def)
  with cs show ?thesis by (intro that [of "set_totals cs"]) (simp_all add: chunk_by_file_def)
qed

lemma chunk_by_directory_good:
  assumes "estimable cfg files" "tokens_of cfg files \<le> u32_max" "ck_strategy cfg = ByDirectory"
  obtains cs where "chunk_by_directory cfg files = Some cs" "good_chunks cfg files cs"
proof -
  let ?groups = "sort_key fst (group_by_directory files)"
  note same = tokens_mset [OF sorted_groups(1), of cfg files]
  from directory_loop_law [of cfg ?groups 0 "[]" "[]" "[]"] assms same sorted_groups(2) [of files] obtain cs where
    cs: "directory_loop cfg ?groups [] [] 0 [] = Some cs" "indexed cs" "concat (map dk_files cs) = concat (map snd ?groups)"
      "\<forall>c \<in> set cs. tokens_of cfg (dk_files c) \<le> ck_max_diff_tokens cfg \<or> one_directory (dk_files c)"
    by (auto simp: indexed_def)
  then have "good_chunks cfg files (set_totals cs)"
    using assms(3) sorted_groups(1) [of files] set_totals_chunk [of _ cs] by (fastforce simp: good_chunks_def indexed_def divisible_def)
  with cs show ?thesis by (intro that [of "set_totals cs"]) (simp_all add: chunk_by_directory_def)
qed

text \<open>C37: Splitting a diff loses nothing. It panics exactly when the token estimate of the whole diff overflows;
  otherwise the chunks together hold exactly the files of the diff, in order when splitting by file, they are
  numbered from zero with the right total, and a chunk exceeds the token limit only if the strategy
  cannot split it: it is a single file, or a single directory, or the strategy is not to split.\<close>

theorem chunking_complete:
  "(chunk_diff cfg files = None \<longleftrightarrow> estimate_total_tokens cfg files = None) \<and>
   (\<forall>cs. chunk_diff cfg files = Some cs \<longrightarrow>
      mset (concat (map dk_files cs)) = mset files \<and> (ck_strategy cfg = ByFile \<longrightarrow> concat (map dk_files cs) = files) \<and>
      map dk_index cs = [0..<length cs] \<and> (\<forall>c \<in> set cs. dk_total c = length cs) \<and>
      (\<forall>c \<in> set cs. ck_max_diff_tokens cfg < tokens_of cfg (dk_files c) \<longrightarrow> \<not> divisible cfg c))"
proof (cases "estimable cfg files \<and> tokens_of cfg files \<le> u32_max")
  case False
  then have "needs_chunking cfg files = None" by (simp only: needs_chunking_def estimate_total_eq if_False option.map)
  with False show ?thesis by (simp only: chunk_diff_def estimate_total_eq option.case if_False) simp
next
  case True
  then have est: "estimate_total_tokens cfg files = Some (tokens_of cfg files)" by (simp add: estimate_total_eq)
  have whole: "good_chunks cfg files (whole_diff t files) \<and> concat (map dk_files (whole_diff t files)) = files"
    if "tokens_of cfg files \<le> ck_max_diff_tokens cfg \<or> ck_strategy cfg = NoChunking" for t
    using that by (auto simp: good_chunks_def whole_diff_def divisible_def)
  have "\<exists>cs. chunk_diff cfg files = Some cs \<and> good_chunks cfg files cs \<and> (ck_strategy cfg = ByFile \<longrightarrow> concat (map dk_files cs) = files)"
  proof (cases "ck_max_diff_tokens cfg < tokens_of cfg files")
    case False
    with est whole show ?thesis by (auto simp: chunk_diff_def needs_chunking_def)
  next
    case big: True
    then show ?thesis
      using True est whole chunk_by_file_good [of cfg files] chunk_by_directory_good [of cfg files]
      by (cases "ck_strategy cfg") (fastforce simp: chunk_diff_def needs_chunking_def)+
  qed
  with est show ?thesis by (auto simp: good_chunks_def)
qed

definition demo_diff :: "file_diff list" where
  "demo_diff = [\<lparr>fd_path = ''src/a/x.rs'', fd_additions = 10, fd_deletions = 0\<rparr>, \<lparr>fd_path = ''README'', fd_additions = 5, fd_deletions = 5\<rparr>]"

theorem chunking_complete_witness:
  "\<exists>c1 c2. chunk_diff (new_chunking_config 100 ByFile) demo_diff = Some [c1, c2] \<and> dk_files c1 @ dk_files c2 = demo_diff \<and>
     dk_index c1 = 0 \<and> dk_index c2 = 1 \<and> dk_total c1 = 2 \<and> dk_total c2 = 2"
proof -
  have "\<exists>c1 c2. chunk_diff (new_chunking_config 100 ByFile) demo_diff = Some [c1, c2]"
    by (simp add: chunk_diff_def needs_chunking_def estimate_total_tokens_def estimate_tokens_def checked_u32_def new_chunking_config_def
        chunk_by_file_def set_totals_def demo_diff_def u32_max_def u64_max_def Let_def)
  then obtain c1 c2 where cs: "chunk_diff (new_chunking_config 100 ByFile) demo_diff = Some [c1, c2]" by blast
  with chunking_complete [of "new_chunking_config 100 ByFile" demo_diff] show ?thesis
    by (auto simp: new_chunking_config_def numeral_2_eq_2)
qed

end
