(* ===== verification/Spec2Isabelle.thy ===== *)
theory Spec2Isabelle
  imports Review_Coordinator_Props Review_Queue Continuation_Props Event_Queries Feedback_Log Feedback_Recovery Runtime_Inbox Runtime_Detection Review_Chunking
begin

text \<open>
  Verification of the Brehon orchestrator (Rust workspace under \<open>src/crates\<close>).

  \<^bold>\<open>The program.\<close> Brehon runs several coding agents on the tasks of one project. The orchestrator
  (crate \<open>brehon-orchestrator\<close>) keeps a board of tasks, a dependency graph and a pool of worker
  sessions; on every tick it replays new events of the event store, reconciles its state with the
  durable runs of the run store (crate \<open>brehon-store-fjall\<close>), prompts idle runs to continue,
  dispatches ready tasks to idle workers, bounds its collections and archives old events. When a worker finishes, the
  review coordinator (crate \<open>brehon-review\<close>) claims the review from a queue, gathers a panel of
  reviewer agents, evaluates their scores against a policy and records an approval, a request
  for changes or a rejection as an event, which the board replays. Retry and continuation
  policies decide what becomes of runs that fail or end. The supervisor (crate \<open>brehon-supervisor\<close>)
  reads the same events, nudges stuck agents, enforces the token budget, detects feedback triggers
  (failed workers, requested changes, conflicts) and records the turns in which a decision maker
  answers them. The terminal panes in which agents run are commanded through the runtime daemon
  (crate \<open>brehon-daemon\<close>): it keeps a registry of panes from their events, asks a policy gate
  (\<open>brehon-policy\<close>) about every command, holds back the ones that need approval and hands the others to
  a terminal host (\<open>brehon-host\<close>); operators send commands through a file inbox, and detectors
  (\<open>brehon-detect\<close>) and workflows (\<open>brehon-workflow\<close>) watch the events and may request commands.

  \<^bold>\<open>The theories\<close>, in the order of the program:
  \<^item> \<open>Prelude\<close>: hash maps and sets as association lists and lists under an arbitrary iteration
    order, fixed-width arithmetic, bounded histories; the locales \<open>keyed_map\<close> (interpreted on
    the hash maps) and \<open>guarded_machine\<close>.
  \<^item> \<open>Rust_Strings\<close>: what the sources use of \<open>str\<close>, on UTF-8 byte strings: characters, Unicode white space,
    trimming, splitting, number parsing.
  \<^item> \<open>Task_Types\<close>, \<open>Runs\<close>, \<open>Feedback_Types\<close>, \<open>Events\<close>: the data of \<open>brehon-types\<close> (\<open>task.rs\<close>, \<open>run.rs\<close>,
    \<open>feedback.rs\<close>, \<open>proof.rs\<close>, \<open>event.rs\<close>).
  \<^item> \<open>Task_Lifecycle\<close>: \<open>task_lifecycle.rs\<close>, interpreted as a \<open>guarded_machine\<close>; no task is
    merged without review.
  \<^item> \<open>Dependency_Graph\<close>, \<open>Dependency_Invariant\<close>, \<open>Dependency_Order\<close>: \<open>dependency_graph.rs\<close>. The
    depth-first cycle search is shown equivalent to acyclicity, \<open>add_dependency\<close> to keep it,
    Kahn's algorithm to order all tasks, and the ready tasks to be non-empty while work remains.
  \<^item> \<open>Task_Board\<close>, \<open>Task_Board_Props\<close>: \<open>task_board.rs\<close>: replay, mutators, queries, eviction.
  \<^item> \<open>Worker_Pool\<close>, \<open>Worker_Pool_Props\<close>, \<open>Worker_Spawning\<close>: \<open>worker_pool.rs\<close>; its contract with the
    assignment engine is the locale \<open>worker_provider\<close>, interpreted on the pool.
  \<^item> \<open>Assignment\<close>: \<open>assignment.rs\<close>: round robin and assignment over that contract.
  \<^item> \<open>Orchestrator\<close>, \<open>Orchestrator_Props\<close>, \<open>Orchestrator_Behaviour\<close>: \<open>orchestrator.rs\<close>: the joint
    invariant, safety and progress of dispatch, retention and shutdown.
  \<^item> \<open>Run_Store\<close>, \<open>Run_Store_Props\<close>, \<open>Run_Fencing\<close>: \<open>run_store.rs\<close>: records, indexes and lane
    markers of durable runs; claims are exclusive, stale holders are fenced off, finished runs
    are final, indexes stay consistent. The hypothesis on the database is \<open>run_env_ok\<close>.
  \<^item> \<open>Reconciler\<close>, \<open>Reconciler_Props\<close>: \<open>reconciler.rs\<close>: the planner; a plan contains exactly the
    repairs a snapshot calls for.
  \<^item> \<open>Reconciliation\<close>: \<open>orchestrator_reconciliation.rs\<close>: applying a plan through the run store port.
  \<^item> \<open>Continuation\<close>, \<open>Continuation_Props\<close>: \<open>orchestrator_continuation.rs\<close> and what it may send.
  \<^item> \<open>Orchestrator_Tick\<close>, \<open>Run_System\<close>: the tick and the main loop; the locale \<open>run_store\<close> is what
    the orchestrator relies on, interpreted on the store of \<open>Run_Store\<close>; the reachable states of
    the two together, and a reconciliation pass that cannot succeed.
  \<^item> \<open>Retry_Policy\<close>: \<open>retry.rs\<close> and \<open>continuation.rs\<close> on 32- and 64-bit words.
  \<^item> \<open>Review_Scoring\<close>, \<open>Consolidation\<close>: \<open>types/review.rs\<close>, \<open>scoring.rs\<close>, \<open>consolidation.rs\<close>.
  \<^item> \<open>Review_Coordinator\<close>, \<open>Review_Coordinator_Props\<close>: \<open>panel.rs\<close>, \<open>lifecycle.rs\<close>, \<open>coordinator.rs\<close>:
    approvals are exactly the earned ones, rounds are bounded, no review is ever escalated, and the fate of
    reviews whose claim expired, whose rounds are used up or whose panel is stale.
  \<^item> \<open>Lease_Queue\<close>, \<open>Lease_Queue_Props\<close>, \<open>Lease_Exclusion\<close>: \<open>queue.rs\<close> and \<open>keys.rs\<close> of
    \<open>brehon-store-fjall\<close>: key order, claiming the first free item, acknowledging, and that
    unexpired claims are exclusive, for queue names whose keys do not collide. The database and the codec are a record of
    functions with the hypothesis \<open>env_ok\<close>, satisfied by a concrete instance.
  \<^item> \<open>Event_Log\<close>, \<open>Event_Log_Props\<close>, \<open>Event_Log_Instance\<close>, \<open>Event_Log_History\<close>: \<open>store.rs\<close> of
    \<open>brehon-store-fjall\<close>: the log refines a list of events; over any history of writes,
    retention, expiry and failures subscribers read exactly the acknowledged events (and panic
    exactly when the requested range overflows 64 bits), a restart
    resumes the numbering and idempotency keys are honoured. Database and codec are the record
    \<open>log_env\<close> with the hypothesis \<open>log_env_ok\<close>, satisfied by the concrete store of
    \<open>Event_Log_Instance\<close>.
  \<^item> \<open>Event_Queries\<close>: \<open>queries.rs\<close>: queries agree with the documented meaning of the filter on the log, for one
    selector and up to the kinds they overlook; the locale \<open>index_selector\<close> is what they need of an index, interpreted on the indexes by task,
    review and agent.
  \<^item> \<open>Review_Queue\<close>: \<open>queue.rs\<close> of \<open>brehon-review\<close>: priority lanes over the lease queue.
  \<^item> \<open>Event_Appending\<close>: appending a list of events until the store refuses one; the locale
    \<open>event_appender\<close> is what that needs of a store.
  \<^item> \<open>Supervisor_Monitor\<close>: \<open>event_monitor.rs\<close>: agents, tasks and nudges rebuilt from events.
  \<^item> \<open>Supervisor_Checks\<close>: \<open>stuck_detection.rs\<close>, \<open>nudge.rs\<close>, \<open>budget_tracker.rs\<close>, \<open>escalation.rs\<close>,
    \<open>heartbeat.rs\<close> and \<open>autonomy.rs\<close>.
  \<^item> \<open>Supervisor\<close>, \<open>Supervisor_Props\<close>: \<open>supervisor.rs\<close>: ticks and the main loop; the budget is
    enforced, nudges follow their states, stuck agents are found exactly, and what draining and
    refused prompts do to the loop.
  \<^item> \<open>Supervisor_Log\<close>: the supervisor on the event store: the locale \<open>event_source\<close> extends
    \<open>event_appender\<close> with the law of reading and is interpreted on the log of \<open>Event_Log\<close>; triggers
    are recorded once, the start reads the whole log, and own events move the reading position.
  \<^item> \<open>Feedback_Triggers\<close>, \<open>Feedback_Lifecycle\<close>, \<open>Feedback_Props\<close>: \<open>trigger.rs\<close>, \<open>brief.rs\<close>,
    \<open>outcome.rs\<close>, \<open>apply.rs\<close>, \<open>lifecycle.rs\<close>: detection of triggers, the bounded brief, validation of
    outcomes, plans and the recorded turn; only permitted outcomes reach the executor.
  \<^item> \<open>Feedback_Log\<close>: feedback turns on the event store, and that a recorded drain is honoured by the
    supervisor whose batch reaches it.
  \<^item> \<open>Feedback_Recovery\<close>: \<open>worker_failure.rs\<close>, \<open>integration_conflict.rs\<close>: the planners for two kinds of
    trigger, in agreement with the retry policy of the orchestrator and the plan of the turn.
  \<^item> \<open>Utf8_Text\<close>: the decoding \<open>from_utf8_lossy\<close>.
  \<^item> \<open>Runtime_Types\<close>, \<open>Runtime_Policy\<close>: \<open>runtime.rs\<close> of \<open>brehon-types\<close> and the policy gate; the conditions
    under which a command is allowed.
  \<^item> \<open>Runtime_Daemon\<close>, \<open>Runtime_Daemon_Props\<close>, \<open>Runtime_Guarantees\<close>: the daemon: registry, audit log,
    routing, approvals and their store. Every command that reaches the port has passed the gate,
    approvals are used once and survive a restart, the audit log rebuilds the registry; and what a
    refused command does to the registry and a stale context to an approval.
  \<^item> \<open>Terminal_Host\<close>, \<open>Terminal_Host_Props\<close>, \<open>Terminal_Port\<close>: the headless host and the command port. The locale
    \<open>terminal_host\<close> is what the port needs of a host; handles of older generations are refused.
  \<^item> \<open>Runtime_System\<close>: the daemon in front of the headless host, which interprets \<open>terminal_host\<close>: no
    prompt, input, interrupt, resize, close or quarantine for an older generation of a pane is ever applied.
  \<^item> \<open>Runtime_Workflow\<close>, \<open>Runtime_Detection\<close>: detectors and workflows on top of the daemon: the detections
    are exactly the matches, workflows only quarantine, and a pane that reports a rate limit is
    quarantined.
  \<^item> \<open>Runtime_Inbox\<close>: the command inbox: requests are answered once, by a result of their own unless
    two share the name of a result file, a pass without I/O failures answers
    all, and one overlong request id stops the inbox.
  \<^item> \<open>Review_Chunking\<close>: \<open>chunking.rs\<close> and \<open>stale.rs\<close> of \<open>brehon-review\<close>: chunks lose nothing.

  \<^bold>\<open>Conventions.\<close> Structs are records whose fields carry a two- or three-letter prefix, enums are
  datatypes, \<open>Result\<close> is a sum with the error on the left. A panic that the code can reach is a value of its
  own: \<open>None\<close> around the result, or \<open>Inl\<close> where the function returns no \<open>Result\<close>. Locks are not modelled: each operation
  takes its locks for its whole duration. Time is an integer, in milliseconds where durations
  of seconds are added. Ports (gateway, event store, queue,
  run store, clock, identifiers) are arguments, so theorems hold for whatever they answer;
  outside effects are returned or kept as traces. Counters are natural numbers where the source
  cannot reach their width (\<open>usize\<close> lengths), saturate or truncate where it writes so, and are
  words in the run records and the retry policy.

  \<^bold>\<open>Recursion.\<close> No definition uses fuel. The cycle search terminates by the lexicographic measure
  of unvisited nodes and remaining neighbours, Kahn's loop by the sum of positive in-degrees and
  the queue; the UTF-8 functions and the normalising of
  terminal output by the length of the text; every other loop is structural.

  \<^bold>\<open>Not modelled\<close>: reviewer calibration (floating point), the heartbeat, status and host
  diagnostics of the daemon, the observation pump of terminal hosts, the event bus (a channel of
  \<open>tokio\<close>; here the sequence of published events), the view projections of \<open>views.rs\<close>, the costs of the budget tracker (floating point), the file of
  \<open>cache.rs\<close>, and proof bundles beyond what events and briefs carry. Terminal, PTY and user interface
  crates, agent adapters and wire protocols, git and search, and configuration files are I/O and
  glue and left out.
\<close>

subsection \<open>The whole system\<close>

text \<open>C2: In every reachable state of the orchestrator and its run store, whatever the ports answer,
  whatever fails and whatever order hash containers iterate in: the dependency relation is
  acyclic and the two edge maps agree, the board lists each stored task exactly once and stores
  it under its own identifier, workers are stored under their own identifiers and a dead worker
  holds no task, runs are stored under their own identifiers, and a task has at most one active
  run in a role.\<close>

theorem system_invariant:
  assumes "run_env_ok env view" "system_reachable env view c s db"
  shows "acyclic {(t, d). d \<in> set (get_dependencies (or_graph s) t)} \<and>
    (\<forall>t d. d \<in> set (get_dependencies (or_graph s) t) \<longleftrightarrow> t \<in> set (get_dependents (or_graph s) d)) \<and>
    distinct (tb_order (or_board s)) \<and>
    (\<forall>t. t \<in> set (tb_order (or_board s)) \<longleftrightarrow> has_task (or_board s) t) \<and>
    (\<forall>t e. get_task (or_board s) t = Some e \<longrightarrow> te_id e = t) \<and>
    (\<forall>w i. get_worker (or_pool s) w = Some i \<longrightarrow> wi_id i = w \<and> (\<not> wi_is_alive i \<longrightarrow> wi_assigned_task i = None)) \<and>
    (\<forall>i r. stored env (view db) i = Some r \<longrightarrow> rr_run_id r = i) \<and>
    (\<forall>i j r q. stored env (view db) i = Some r \<and> stored env (view db) j = Some q \<and> run_is_active r \<and> run_is_active q \<and>
       rr_task_id r = rr_task_id q \<and> rr_role r = rr_role q \<longrightarrow> i = j)"
proof -
  have ok: "board_ok (or_board s)" "graph_ok (or_graph s)" "pool_ok (or_pool s)" and runs: "store_inv env (view db)"
    using system_ok [OF assms(2,1)] by (simp_all add: orch_ok_def)
  have "\<forall>i j r q. stored env (view db) i = Some r \<and> stored env (view db) j = Some q \<and> run_is_active r \<and> run_is_active q \<and>
       rr_task_id r = rr_task_id q \<and> rr_role r = rr_role q \<longrightarrow> i = j"
    using one_per_lane [OF runs] by (metis same_lane_def)
  moreover have "\<forall>i r. stored env (view db) i = Some r \<longrightarrow> rr_run_id r = i" using store_invD(1) [OF runs] by blast
  ultimately show ?thesis using graph_okD(9,10) [OF ok(2)] ok(1,3)
    by (auto simp: dep_rel_conv board_ok_def pool_ok_def get_task_def get_worker_def has_task_def hm_contains_def)
qed

theorem system_invariant_witness:
  "let s = fst (spawn_workers_to_min (\<lambda>spec. Inr ''s'') 5
       (orch_add_task stored_order 0 ''b'' ''B'' [] [''a''] (orch_add_task stored_order 0 ''a'' ''A'' [] [] (new_orchestrator demo_config))))
   in acyclic {(t, d). d \<in> set (get_dependencies (or_graph s) t)} \<and> distinct (tb_order (or_board s))"
proof -
  have start: "system_reachable demo_run_env map_of demo_config (new_orchestrator demo_config) []"
    by (rule sys_new) simp
  from system_invariant [OF demo_run_env_ok sys_spawn [OF sys_task [OF sys_task [OF start]]]] show ?thesis
    unfolding Let_def by blast
qed

end
